(* ===== verification/Prelude.thy ===== *)
theory Prelude
  imports Main "HOL-Library.Word"
begin

text \<open>
  What every theory of the development shares: the result type of the fallible
  functions (an error or a value, with the early return of the question mark operator
  as \<open>then_do\<close>), the 64-bit unsigned integers of the code with the saturating
  operations it uses, the decimal printing of natural numbers that the identifiers
  are built from, and generic facts on adjacent list elements and on keyed lists.
\<close>

section \<open>Collections of facts\<close>

named_theorems res_simps \<open>computation rules of results\<close>
named_theorems store_simps \<open>computation rules of keyed stores\<close>
named_theorems inv_intros \<open>preservation lemmas of the invariants\<close>

section \<open>Results\<close>

text \<open>
  An \<open>anyhow::Error\<close> is only ever shown to a human, so \<open>Bail\<close> carries the literal
  text of its message without the values that are interpolated into it.
  \<open>Panic\<close> is an abort of the task (a division by zero, an overflow).
\<close>

datatype error = Bail string | Panic string

type_synonym 'a result = "error + 'a"

definition then_do :: "'e + 'a \<Rightarrow> ('a \<Rightarrow> 'e + 'b) \<Rightarrow> 'e + 'b" where
  "then_do r k = (case r of Inl e \<Rightarrow> Inl e | Inr x \<Rightarrow> k x)"

lemma then_do_Inl [simp, res_simps]: "then_do (Inl e) k = Inl e"
  by (simp add: then_do_def)

lemma then_do_Inr [simp, res_simps]: "then_do (Inr x) k = k x"
  by (simp add: then_do_def)

lemma then_do_eq_Inr [simp]:
  "then_do r k = Inr y \<longleftrightarrow> (\<exists>x. r = Inr x \<and> k x = Inr y)"
  by (cases r) auto

lemma then_do_eq_Inl:
  "then_do r k = Inl e \<longleftrightarrow> r = Inl e \<or> (\<exists>x. r = Inr x \<and> k x = Inl e)"
  by (cases r) auto

definition is_ok :: "'e + 'a \<Rightarrow> bool" where
  "is_ok r = (case r of Inl _ \<Rightarrow> False | Inr _ \<Rightarrow> True)"

lemma is_ok_simps [simp, res_simps]: "is_ok (Inr x)" "\<not> is_ok (Inl e)"
  by (simp_all add: is_ok_def)

lemma is_ok_iff: "is_ok r \<longleftrightarrow> (\<exists>x. r = Inr x)"
  by (cases r) auto

lemma is_ok_then_do:
  "is_ok (then_do r k) \<longleftrightarrow> (\<exists>x. r = Inr x \<and> is_ok (k x))"
  by (cases r) auto

lemma is_ok_if [res_simps]:
  "is_ok (if c then Inl e else r) \<longleftrightarrow> \<not> c \<and> is_ok r"
  by simp

text \<open>Mapping a fallible function over a list, the first error wins (\<open>collect\<close> into a result).\<close>

fun collect :: "('a \<Rightarrow> 'e + 'b) \<Rightarrow> 'a list \<Rightarrow> 'e + 'b list" where
  "collect f [] = Inr []"
| "collect f (x # xs) = then_do (f x) (\<lambda>y. then_do (collect f xs) (\<lambda>ys. Inr (y # ys)))"

lemma collect_Inr_iff:
  "collect f xs = Inr ys \<longleftrightarrow> list_all2 (\<lambda>x y. f x = Inr y) xs ys"
  by (induction xs arbitrary: ys) (auto simp: list_all2_Cons1)

text \<open>\<open>Option::is_some_and\<close>.\<close>

definition is_some_and :: "'a option \<Rightarrow> ('a \<Rightarrow> bool) \<Rightarrow> bool" where
  "is_some_and o' P = (case o' of None \<Rightarrow> False | Some x \<Rightarrow> P x)"

lemma is_some_and_simps [simp]: "is_some_and None P = False" "is_some_and (Some x) P = P x"
  by (simp_all add: is_some_and_def)

section \<open>JSON values\<close>

text \<open>A JSON value; an object is its list of members, a later member shadowing none (keys are distinct).\<close>

datatype json =
    JNull
  | JBool bool
  | JNumber string
  | JString string
  | JArray "json list"
  | JObject "(string \<times> json) list"

section \<open>64-bit unsigned integers\<close>

type_synonym u64 = "64 word"

definition saturating_sub :: "u64 \<Rightarrow> u64 \<Rightarrow> u64" where
  "saturating_sub a b = (if b \<le> a then a - b else 0)"

definition saturating_add :: "u64 \<Rightarrow> u64 \<Rightarrow> u64" where
  "saturating_add a b = (if a \<le> a + b then a + b else - 1)"

definition abs_diff :: "u64 \<Rightarrow> u64 \<Rightarrow> u64" where
  "abs_diff a b = (if a \<le> b then b - a else a - b)"

lemma unat_saturating_sub: "unat (saturating_sub a b) = unat a - unat b"
  by (auto simp: saturating_sub_def unat_sub word_le_nat_alt)

lemma abs_diff_commute: "abs_diff a b = abs_diff b a"
  by (auto simp: abs_diff_def)

lemma unat_abs_diff: "int (unat (abs_diff a b)) = \<bar>int (unat a) - int (unat b)\<bar>"
proof (cases "a \<le> b")
  case True
  then have "int (unat (b - a)) = int (unat b) - int (unat a)"
    by (simp only: unat_sub word_le_nat_alt of_nat_diff)
  then show ?thesis using True by (simp add: abs_diff_def word_le_nat_alt del: of_nat_unat)
next
  case False
  then have le: "b \<le> a" by simp
  then have "int (unat (a - b)) = int (unat a) - int (unat b)"
    by (simp only: unat_sub word_le_nat_alt of_nat_diff)
  then show ?thesis using False le by (simp add: abs_diff_def word_le_nat_alt del: of_nat_unat)
qed

lemma unat_saturating_add:
  "unat (saturating_add a b) = min (unat a + unat b) (2 ^ 64 - 1)"
proof (cases "a \<le> a + b")
  case True
  then have "unat (a + b) = unat a + unat b"
    using unat_plus_simple by blast
  moreover have "unat (a + b) < 2 ^ 64" using unsigned_less[of "a + b"] by simp
  ultimately show ?thesis using True by (simp add: saturating_add_def)
next
  case False
  then have "unat a + unat b \<ge> 2 ^ 64"
    using unat_plus_if_size[of a b] by (auto simp: word_size word_le_nat_alt split: if_splits)
  then show ?thesis using False by (simp add: saturating_add_def unsigned_minus_1_eq_mask mask_eq_exp_minus_1)
qed

section \<open>Printing numbers in identifiers\<close>

definition digit_char :: "nat \<Rightarrow> char" where
  "digit_char d = char_of (48 + d)"

fun show_nat :: "nat \<Rightarrow> string" where
  "show_nat n = (if n < 10 then [digit_char n] else show_nat (n div 10) @ [digit_char (n mod 10)])"

declare show_nat.simps [simp del]

definition digit_of :: "char \<Rightarrow> nat" where
  "digit_of c = of_char c - 48"

fun read_nat :: "nat \<Rightarrow> string \<Rightarrow> nat" where
  "read_nat acc [] = acc"
| "read_nat acc (c # cs) = read_nat (acc * 10 + digit_of c) cs"

definition is_digit :: "char \<Rightarrow> bool" where
  "is_digit c \<longleftrightarrow> 48 \<le> (of_char c :: nat) \<and> (of_char c :: nat) \<le> 57"

lemma of_char_digit_char: "d < 10 \<Longrightarrow> of_char (digit_char d) = (48 + d :: nat)"
  by (simp add: digit_char_def)

lemma digit_of_digit_char [simp]: "d < 10 \<Longrightarrow> digit_of (digit_char d) = d"
  by (simp add: digit_of_def of_char_digit_char)

lemma is_digit_digit_char [simp]: "d < 10 \<Longrightarrow> is_digit (digit_char d)"
  by (simp add: is_digit_def of_char_digit_char)

lemma read_nat_append: "read_nat acc (xs @ ys) = read_nat (read_nat acc xs) ys"
  by (induction xs arbitrary: acc) auto

lemma read_show_nat: "read_nat 0 (show_nat n) = n"
proof (induction n rule: show_nat.induct)
  case (1 n)
  show ?case
  proof (cases "n < 10")
    case True
    then show ?thesis by (simp add: show_nat.simps[of n])
  next
    case False
    then show ?thesis using 1
      by (simp add: show_nat.simps[of n] read_nat_append)
  qed
qed

lemma show_nat_inj [simp]: "show_nat m = show_nat n \<longleftrightarrow> m = n"
  by (metis read_show_nat)

lemma show_nat_digits: "c \<in> set (show_nat n) \<Longrightarrow> is_digit c"
proof (induction n rule: show_nat.induct)
  case (1 n)
  then show ?case by (cases "n < 10") (auto simp: show_nat.simps[of n])
qed

lemma show_nat_nonempty [simp]: "show_nat n \<noteq> []"
  by (simp add: show_nat.simps[of n])

text \<open>Identifiers of the form \<open>prefix-{number}-{number}\<close>: the two numbers can be read back.\<close>

definition numbered_id :: "string \<Rightarrow> nat \<Rightarrow> nat \<Rightarrow> string" where
  "numbered_id p now n = p @ ''-'' @ show_nat now @ ''-'' @ show_nat n"

lemma split_at_nondigit:
  assumes "\<forall>x \<in> set a. is_digit x" and "\<forall>x \<in> set b. is_digit x"
    and "\<not> is_digit s" and "a @ s # u = b @ s # v"
  shows "a = b \<and> u = v"
  using assms
proof (induction a arbitrary: b)
  case Nil
  then show ?case by (cases b) auto
next
  case (Cons x a)
  then show ?case by (cases b) auto
qed

lemma dash_not_digit [simp]: "\<not> is_digit (CHR ''-'')"
  by (simp add: is_digit_def)

lemma numbered_id_inj [simp]:
  "numbered_id p m n = numbered_id p m' n' \<longleftrightarrow> m = m' \<and> n = n'"
proof
  assume "numbered_id p m n = numbered_id p m' n'"
  then have "show_nat m @ CHR ''-'' # show_nat n = show_nat m' @ CHR ''-'' # show_nat n'"
    by (simp add: numbered_id_def)
  from split_at_nondigit[OF _ _ _ this] show "m = m' \<and> n = n'"
    using show_nat_digits by auto
qed simp

section \<open>Adjacent elements\<close>

text \<open>The \<open>windows(2)\<close> loop of the code: a relation between each element and the next one.\<close>

fun adjacent :: "('a \<Rightarrow> 'a \<Rightarrow> bool) \<Rightarrow> 'a list \<Rightarrow> bool" where
  "adjacent P (x # y # zs) \<longleftrightarrow> P x y \<and> adjacent P (y # zs)"
| "adjacent P _ \<longleftrightarrow> True"

lemma adjacent_sorted_wrt:
  assumes "transp P"
  shows "adjacent P xs \<longleftrightarrow> sorted_wrt P xs"
proof (induction xs rule: induct_list012)
  case (3 x y zs)
  then show ?case using transpD[OF assms] by auto
qed simp_all

section \<open>Updating and finding by key\<close>

text \<open>\<open>iter_mut().find(..)\<close> followed by a change of what was found: the first match only.\<close>

fun update_first :: "('a \<Rightarrow> bool) \<Rightarrow> ('a \<Rightarrow> 'a) \<Rightarrow> 'a list \<Rightarrow> 'a list" where
  "update_first P f [] = []"
| "update_first P f (x # xs) = (if P x then f x # xs else x # update_first P f xs)"

lemma length_update_first [simp]: "length (update_first P f xs) = length xs"
  by (induction xs) auto

lemma update_first_absent: "(\<And>x. x \<in> set xs \<Longrightarrow> \<not> P x) \<Longrightarrow> update_first P f xs = xs"
  by (induction xs) auto

lemma map_update_first:
  "(\<And>x. P x \<Longrightarrow> g (f x) = g x) \<Longrightarrow> map g (update_first P f xs) = map g xs"
  by (induction xs) auto

lemma find_update_first:
  "(\<And>x. P x \<Longrightarrow> P (f x)) \<Longrightarrow> find P (update_first P f xs) = map_option f (find P xs)"
  by (induction xs) auto

lemma find_SomeD: "find P xs = Some x \<Longrightarrow> x \<in> set xs \<and> P x"
  by (induction xs) (auto split: if_splits)

section \<open>Strings\<close>

text \<open>A character of the white space class, and the test \<open>trim().is_empty()\<close>.\<close>

definition is_whitespace :: "char \<Rightarrow> bool" where
  "is_whitespace c \<longleftrightarrow> (of_char c :: nat) \<in> set [9, 10, 11, 12, 13, 32, 133, 160]"

definition blank :: "string \<Rightarrow> bool" where
  "blank s \<longleftrightarrow> list_all is_whitespace s"

definition starts_with :: "string \<Rightarrow> string \<Rightarrow> bool" where
  "starts_with s p \<longleftrightarrow> take (length p) s = p"

fun contains_str :: "string \<Rightarrow> string \<Rightarrow> bool" where
  "contains_str [] p \<longleftrightarrow> p = []"
| "contains_str (c # cs) p \<longleftrightarrow> starts_with (c # cs) p \<or> contains_str cs p"

lemma blank_Nil [simp]: "blank []"
  by (simp add: blank_def)

lemma starts_with_append [simp]: "starts_with (p @ s) p"
  by (simp add: starts_with_def)

lemma starts_with_iff: "starts_with s p \<longleftrightarrow> (\<exists>r. s = p @ r)"
  by (metis append_eq_conv_conj append_take_drop_id starts_with_def)

lemma contains_str_iff: "contains_str s p \<longleftrightarrow> (\<exists>a b. s = a @ p @ b)"
proof (induction s)
  case (Cons c cs)
  note IH = Cons.IH
  show ?case
  proof
    assume "contains_str (c # cs) p"
    then consider "starts_with (c # cs) p" | "contains_str cs p" by auto
    then show "\<exists>a b. c # cs = a @ p @ b"
    proof cases
      case 1
      then obtain r where "c # cs = [] @ p @ r" by (auto simp: starts_with_iff)
      then show ?thesis by blast
    next
      case 2
      then obtain a b where "cs = a @ p @ b" using Cons.IH by blast
      then have "c # cs = (c # a) @ p @ b" by simp
      then show ?thesis by blast
    qed
  next
    assume "\<exists>a b. c # cs = a @ p @ b"
    then obtain a b where ab: "c # cs = a @ p @ b" by blast
    show "contains_str (c # cs) p"
    proof (cases a)
      case Nil
      then have "starts_with (c # cs) p" using ab by (simp add: starts_with_def)
      then show ?thesis by simp
    next
      case (Cons x a')
      then have "cs = a' @ p @ b" using ab by simp
      then show ?thesis using IH by auto
    qed
  qed
qed simp

end
