(* ===== verification/Table.thy ===== *)
theory Table
  imports Prelude
begin

text \<open>
  Tables of rows found by a key: a database table with a primary key, or a vector that is
  searched for an identifier. A row is read with \<open>lookup_row\<close>, changed in place with
  \<open>update_row\<close>, and appended. The locale \<open>keyed_rows\<close> is the contract between a table and the
  operations that change its rows: a change never touches the key.
\<close>

definition lookup_row :: "('r \<Rightarrow> 'k) \<Rightarrow> 'k \<Rightarrow> 'r list \<Rightarrow> 'r option" where
  "lookup_row key k rows = find (\<lambda>r. key r = k) rows"

definition update_row :: "('r \<Rightarrow> 'k) \<Rightarrow> 'k \<Rightarrow> ('r \<Rightarrow> 'r) \<Rightarrow> 'r list \<Rightarrow> 'r list" where
  "update_row key k f rows = update_first (\<lambda>r. key r = k) f rows"

definition table_ok :: "('r \<Rightarrow> 'k) \<Rightarrow> 'r list \<Rightarrow> bool" where
  "table_ok key rows \<longleftrightarrow> distinct (map key rows)"

lemma lookup_row_simps [simp]:
  "lookup_row key k [] = None"
  "lookup_row key k (r # rows) = (if key r = k then Some r else lookup_row key k rows)"
  by (simp_all add: lookup_row_def)

lemma lookup_row_append:
  "lookup_row key k (rows @ rows') =
     (case lookup_row key k rows of Some r \<Rightarrow> Some r | None \<Rightarrow> lookup_row key k rows')"
  by (induction rows) auto

lemma lookup_row_SomeD: "lookup_row key k rows = Some r \<Longrightarrow> r \<in> set rows \<and> key r = k"
  unfolding lookup_row_def by (drule find_SomeD) simp

lemma lookup_row_None_iff: "lookup_row key k rows = None \<longleftrightarrow> k \<notin> key ` set rows"
  by (induction rows) auto

lemma lookup_row_member:
  "table_ok key rows \<Longrightarrow> r \<in> set rows \<Longrightarrow> lookup_row key (key r) rows = Some r"
  by (induction rows) (auto simp: table_ok_def)

lemma lookup_row_iff:
  "table_ok key rows \<Longrightarrow> lookup_row key k rows = Some r \<longleftrightarrow> r \<in> set rows \<and> key r = k"
  using lookup_row_member lookup_row_SomeD by metis

lemma lookup_row_filter:
  "table_ok key rows \<Longrightarrow>
     lookup_row key k (filter P rows) =
       (case lookup_row key k rows of Some r \<Rightarrow> if P r then Some r else None | None \<Rightarrow> None)"
proof (induction rows)
  case (Cons r rows)
  show ?case
  proof (cases "key r = k")
    case True
    then have "k \<notin> key ` set rows" using Cons.prems by (auto simp: table_ok_def)
    then have "lookup_row key k (filter P rows) = None" by (auto simp: lookup_row_None_iff)
    with True show ?thesis by simp
  next
    case False
    then show ?thesis using Cons by (simp add: table_ok_def)
  qed
qed simp

lemma table_ok_Nil [simp]: "table_ok key []"
  by (simp add: table_ok_def)

lemma table_ok_append_row:
  "table_ok key (rows @ [r]) \<longleftrightarrow> table_ok key rows \<and> lookup_row key (key r) rows = None"
  by (auto simp: table_ok_def lookup_row_None_iff)

lemma table_ok_filter: "table_ok key rows \<Longrightarrow> table_ok key (filter P rows)"
  by (simp add: table_ok_def distinct_map_filter)

lemma update_row_simps [simp]:
  "update_row key k f [] = []"
  "update_row key k f (r # rows) = (if key r = k then f r # rows else r # update_row key k f rows)"
  by (simp_all add: update_row_def)

lemma length_update_row [simp]: "length (update_row key k f rows) = length rows"
  by (simp add: update_row_def)

lemma update_row_absent: "lookup_row key k rows = None \<Longrightarrow> update_row key k f rows = rows"
  by (induction rows) (auto split: if_splits)

lemma update_row_append:
  "update_row key k f (rows @ rows') = (case lookup_row key k rows of
      None \<Rightarrow> rows @ update_row key k f rows' | Some _ \<Rightarrow> update_row key k f rows @ rows')"
  by (induction rows) (auto split: option.splits)

lemma map_update_row:
  "(\<And>r. key r = k \<Longrightarrow> g (f r) = g r) \<Longrightarrow> map g (update_row key k f rows) = map g rows"
  by (simp add: update_row_def map_update_first)

lemma set_update_row_distinct:
  assumes "table_ok key rows" "lookup_row key k rows = Some r"
  shows "set (update_row key k f rows) = insert (f r) {x \<in> set rows. key x \<noteq> k}"
  using assms
proof (induction rows)
  case (Cons x xs)
  show ?case
  proof (cases "key x = k")
    case True
    then have "k \<notin> key ` set xs" using Cons.prems(1) by (auto simp: table_ok_def)
    then have "{y \<in> set xs. key y \<noteq> k} = set xs" by auto
    with True Cons.prems show ?thesis by auto
  next
    case False
    then show ?thesis using Cons by (auto simp: table_ok_def)
  qed
qed simp

section \<open>The contract of a change\<close>

locale keyed_rows =
  fixes key :: "'r \<Rightarrow> 'k"
    and change :: "'c \<Rightarrow> 'r \<Rightarrow> 'r"
  assumes key_change: "key (change c r) = key r"
begin

lemma lookup_same: "lookup_row key k (update_row key k (change c) rows) = map_option (change c) (lookup_row key k rows)"
  by (induction rows) (auto simp: key_change)

lemma lookup_other: "k' \<noteq> k \<Longrightarrow> lookup_row key k' (update_row key k (change c) rows) = lookup_row key k' rows"
  by (induction rows) (auto simp: key_change)

lemma keys_update: "map key (update_row key k (change c) rows) = map key rows"
  by (simp add: map_update_row key_change)

lemma ok_update: "table_ok key rows \<Longrightarrow> table_ok key (update_row key k (change c) rows)"
  by (simp add: table_ok_def keys_update)

lemma all_update:
  assumes "table_ok key rows" "\<forall>r \<in> set rows. Q r"
    and "\<And>r. lookup_row key k rows = Some r \<Longrightarrow> Q (change c r)"
  shows "\<forall>r \<in> set (update_row key k (change c) rows). Q r"
proof (cases "lookup_row key k rows")
  case None
  then show ?thesis using assms by (simp add: update_row_absent)
next
  case (Some r)
  then show ?thesis using assms by (auto simp: set_update_row_distinct[OF assms(1) Some])
qed

text \<open>A run of changes keeps the keys, hence the rows that exist and their order.\<close>

lemma keys_updates: "map key (fold (\<lambda>(k, c). update_row key k (change c)) cs rows) = map key rows"
  by (induction cs arbitrary: rows) (auto simp: keys_update)

end

text \<open>Replacing a row by another with the same key is a change in this sense.\<close>

definition replace_row :: "('r \<Rightarrow> 'k) \<Rightarrow> 'r \<Rightarrow> 'r \<Rightarrow> 'r" where
  "replace_row key new old = (if key new = key old then new else old)"

interpretation replace: keyed_rows key "replace_row key" for key :: "'r \<Rightarrow> 'k"
  by unfold_locales (simp add: replace_row_def)

definition put_row :: "('r \<Rightarrow> 'k) \<Rightarrow> 'r \<Rightarrow> 'r list \<Rightarrow> 'r list" where
  "put_row key new rows = update_row key (key new) (replace_row key new) rows"

lemma put_row_simps [simp]:
  "put_row key new [] = []"
  "put_row key new (r # rows) = (if key r = key new then new # rows else r # put_row key new rows)"
  by (simp_all add: put_row_def replace_row_def)

lemma lookup_put_row:
  "lookup_row key k (put_row key new rows) =
     (if k = key new \<and> lookup_row key k rows \<noteq> None then Some new else lookup_row key k rows)"
  by (induction rows) auto

lemma keys_put_row [simp]: "map key (put_row key new rows) = map key rows"
  unfolding put_row_def by (rule replace.keys_update)

lemma table_ok_put_row [simp]: "table_ok key (put_row key new rows) = table_ok key rows"
  by (simp add: table_ok_def)

lemma set_put_row:
  assumes "table_ok key rows" "lookup_row key (key new) rows = Some old"
  shows "set (put_row key new rows) = insert new {x \<in> set rows. key x \<noteq> key new}"
proof -
  have "replace_row key new old = new" using assms(2) by (auto simp: replace_row_def dest: lookup_row_SomeD)
  then show ?thesis using set_update_row_distinct[OF assms] by (simp add: put_row_def)
qed

lemma map_put_row:
  "lookup_row key (key new) rows = Some old \<Longrightarrow> g new = g old \<Longrightarrow> map g (put_row key new rows) = map g rows"
  by (induction rows) (auto split: if_splits)

lemma length_put_row [simp]: "length (put_row key new rows) = length rows"
  by (simp add: put_row_def)

end
