(* ===== verification/Decimal.thy ===== *)
theory Decimal
  imports Prelude Complex_Main
begin

text \<open>
  The decimal numbers of the code. They come from the crate rust\_decimal, which is
  not part of the repository, and are modelled by their value, a rational number.
  Addition, subtraction, multiplication and comparison are exact as long as a result fits the
  crate's 96-bit coefficient with at most 28 fractional digits; the development
  does not model results beyond that. Division is the one operation that rounds on
  ordinary inputs, so it is a parameter \<open>dv\<close> of every definition that divides. What the
  proofs need of it is the locale \<open>decimal_division\<close>: the rounded quotient does not cross
  a representable number.
\<close>

type_synonym decimal = rat

section \<open>Division\<close>

locale decimal_division =
  fixes dv :: "decimal \<Rightarrow> decimal \<Rightarrow> decimal"
    and representable :: "decimal \<Rightarrow> bool"
  assumes quotient_lower: "0 < b \<Longrightarrow> representable c \<Longrightarrow> c * b \<le> a \<Longrightarrow> c \<le> dv a b"
    and quotient_upper: "0 < b \<Longrightarrow> representable c \<Longrightarrow> a \<le> c * b \<Longrightarrow> dv a b \<le> c"
    and zero_representable: "representable 0"
begin

lemma quotient_exact: "0 < b \<Longrightarrow> representable c \<Longrightarrow> dv (c * b) b = c"
  by (meson antisym order_refl quotient_lower quotient_upper)

lemma quotient_nonneg: "0 < b \<Longrightarrow> 0 \<le> a \<Longrightarrow> 0 \<le> dv a b"
  using quotient_lower[of b 0 a] zero_representable by simp

lemma quotient_nonpos: "0 < b \<Longrightarrow> a \<le> 0 \<Longrightarrow> dv a b \<le> 0"
  using quotient_upper[of b 0 a] zero_representable by simp

lemma quotient_between:
  "0 < b \<Longrightarrow> representable l \<Longrightarrow> representable u \<Longrightarrow> l * b \<le> a \<Longrightarrow> a \<le> u * b
    \<Longrightarrow> l \<le> dv a b \<and> dv a b \<le> u"
  by (simp add: quotient_lower quotient_upper)

end

text \<open>Two divisions that keep the contract: the exact one, and rounding to 28 fractional digits.\<close>

definition exact_div :: "decimal \<Rightarrow> decimal \<Rightarrow> decimal" where
  "exact_div a b = a / b"

definition div_scale :: "decimal" where
  "div_scale = 10 ^ 28"

definition floor_div :: "decimal \<Rightarrow> decimal \<Rightarrow> decimal" where
  "floor_div a b = of_int \<lfloor>a / b * div_scale\<rfloor> / div_scale"

definition has_scale :: "decimal \<Rightarrow> bool" where
  "has_scale c \<longleftrightarrow> of_int \<lfloor>c * div_scale\<rfloor> = c * div_scale"

lemma div_scale_pos [simp]: "0 < div_scale"
  by (simp add: div_scale_def)

lemma div_scale_nonneg [simp]: "0 \<le> div_scale"
  by (simp add: less_imp_le)

interpretation exact: decimal_division exact_div "\<lambda>_. True"
  by unfold_locales (simp_all add: exact_div_def field_simps)

lemma floor_div_lower:
  assumes "0 < b" "has_scale c" "c * b \<le> a"
  shows "c \<le> floor_div a b"
proof -
  have "c \<le> a / b" using assms(1,3) by (simp add: field_simps)
  then have "c * div_scale \<le> a / b * div_scale" by (rule mult_right_mono) simp
  then have "\<lfloor>c * div_scale\<rfloor> \<le> \<lfloor>a / b * div_scale\<rfloor>" by (rule floor_mono)
  then have "(of_int \<lfloor>c * div_scale\<rfloor> :: decimal) \<le> of_int \<lfloor>a / b * div_scale\<rfloor>" by simp
  then have "c * div_scale \<le> of_int \<lfloor>a / b * div_scale\<rfloor>"
    using assms(2) by (simp only: has_scale_def)
  then show ?thesis by (simp only: floor_div_def pos_le_divide_eq div_scale_pos)
qed

lemma floor_div_upper:
  assumes "0 < b" "a \<le> c * b"
  shows "floor_div a b \<le> c"
proof -
  have "a / b \<le> c" using assms by (simp add: field_simps)
  then have "a / b * div_scale \<le> c * div_scale" by (rule mult_right_mono) simp
  then have "of_int \<lfloor>a / b * div_scale\<rfloor> \<le> c * div_scale"
    using of_int_floor_le order_trans by blast
  then show ?thesis by (simp add: floor_div_def pos_divide_le_eq)
qed

interpretation floored: decimal_division floor_div has_scale
  by unfold_locales (auto simp: floor_div_lower floor_div_upper has_scale_def)

text \<open>A division by zero panics.\<close>

definition checked_div :: "(decimal \<Rightarrow> decimal \<Rightarrow> decimal) \<Rightarrow> decimal \<Rightarrow> decimal \<Rightarrow> decimal result" where
  "checked_div dv a b = (if b = 0 then Inl (Panic ''Division by zero'') else Inr (dv a b))"

lemma checked_div_nonzero [simp]: "b \<noteq> 0 \<Longrightarrow> checked_div dv a b = Inr (dv a b)"
  by (simp add: checked_div_def)

lemma checked_div_zero [simp]: "checked_div dv a 0 = Inl (Panic ''Division by zero'')"
  by (simp add: checked_div_def)

section \<open>Remainder\<close>

text \<open>The remainder truncates towards zero, so it has the sign of the dividend.\<close>

definition dec_trunc :: "decimal \<Rightarrow> int" where
  "dec_trunc x = (if x < 0 then \<lceil>x\<rceil> else \<lfloor>x\<rfloor>)"

definition checked_rem :: "decimal \<Rightarrow> decimal \<Rightarrow> decimal result" where
  "checked_rem a b =
     (if b = 0 then Inl (Panic ''Division by zero'') else Inr (a - b * of_int (dec_trunc (a / b))))"

lemma dec_trunc_of_int [simp]: "dec_trunc (of_int k) = k"
  by (simp add: dec_trunc_def)

lemma checked_rem_zero_iff:
  assumes "b \<noteq> 0"
  shows "checked_rem a b = Inr 0 \<longleftrightarrow> (\<exists>k. a = of_int k * b)"
proof
  assume "checked_rem a b = Inr 0"
  then have "a = of_int (dec_trunc (a / b)) * b"
    using assms by (simp add: checked_rem_def mult.commute)
  then show "\<exists>k. a = of_int k * b" by blast
next
  assume "\<exists>k. a = of_int k * b"
  then obtain k where "a = of_int k * b" by blast
  then show "checked_rem a b = Inr 0" using assms by (simp add: checked_rem_def)
qed

lemma checked_rem_ok [simp]: "b \<noteq> 0 \<Longrightarrow> \<exists>r. checked_rem a b = Inr r"
  by (simp add: checked_rem_def)

end
