(* ===== verification/Db_Common.thy ===== *)
theory Db_Common
  imports Table Decimal "HOL-Library.List_Lexorder" "HOL-Library.Char_ord" "HOL-Library.Product_Lexorder"
begin

text \<open>
  What the persistent components share, \<open>crates/core/src/db.rs\<close>: the validation of
  identifiers, the conversions between the code's unsigned and the database's signed 64-bit
  integers, the hexadecimal form of a digest, and the advisory lock that gives an execution
  domain a single writer. SHA-256 and the lock service of PostgreSQL are parameters.
\<close>

section \<open>Identifiers and integers\<close>

definition trim_start :: "string \<Rightarrow> string" where
  "trim_start s = dropWhile is_whitespace s"

definition trim :: "string \<Rightarrow> string" where
  "trim s = rev (trim_start (rev (trim_start s)))"

definition validate_id :: "string \<Rightarrow> unit result" where
  "validate_id v =
     (if trim v = [] \<or> v \<noteq> trim v \<or> CHR 0x00 \<in> set v
      then Inl (Bail ''must be non-empty, trimmed and contain no NUL byte'') else Inr ())"

definition to_i64 :: "u64 \<Rightarrow> int result" where
  "to_i64 v = (if uint v < 2 ^ 63 then Inr (uint v) else Inl (Bail ''timestamp exceeds PostgreSQL BIGINT''))"

definition to_u64 :: "int \<Rightarrow> u64 result" where
  "to_u64 v = (if 0 \<le> v then Inr (word_of_int v) else Inl (Bail ''database timestamp is negative''))"

lemma validate_id_ok_iff:
  "validate_id v = Inr () \<longleftrightarrow> v \<noteq> [] \<and> trim v = v \<and> CHR 0x00 \<notin> set v"
  by (auto simp: validate_id_def)

lemma validate_id_nonempty: "validate_id v = Inr () \<Longrightarrow> v \<noteq> []"
  by (simp add: validate_id_ok_iff)

lemma to_i64_ok_iff: "to_i64 v = Inr n \<longleftrightarrow> uint v < 2 ^ 63 \<and> n = uint v"
  by (auto simp: to_i64_def)

lemma to_i64_nonneg: "to_i64 v = Inr n \<Longrightarrow> 0 \<le> n \<and> n < 2 ^ 63"
  by (auto simp: to_i64_ok_iff)

lemma to_u64_to_i64: "to_i64 v = Inr n \<Longrightarrow> to_u64 n = Inr v"
  by (simp add: to_i64_ok_iff to_u64_def)

lemma to_i64_small [simp]: "uint v < 2 ^ 63 \<Longrightarrow> to_i64 v = Inr (uint v)"
  by (simp add: to_i64_def)

fun validate_ids :: "string list \<Rightarrow> unit result" where
  "validate_ids [] = Inr ()"
| "validate_ids (v # vs) = then_do (validate_id v) (\<lambda>_. validate_ids vs)"

lemma validate_ids_ok_iff: "validate_ids vs = Inr () \<longleftrightarrow> (\<forall>v \<in> set vs. validate_id v = Inr ())"
  by (induction vs) auto

text \<open>The values a JSON payload column is made of.\<close>

datatype payload_value = PText string | PDecimal decimal | PNumber u64

section \<open>Numbered logs\<close>

text \<open>The identifier \<open>owner:version\<close> of an appended row: it determines owner and version.\<close>

definition versioned_id :: "string \<Rightarrow> int \<Rightarrow> string" where
  "versioned_id owner version = owner @ '':'' @ show_nat (nat version)"

lemma versioned_id_inj: "0 \<le> v \<Longrightarrow> 0 \<le> w \<Longrightarrow> versioned_id i v = versioned_id j w \<longleftrightarrow> i = j \<and> v = w"
proof
  assume nn: "0 \<le> v" "0 \<le> w" and "versioned_id i v = versioned_id j w"
  then have "rev (versioned_id i v) = rev (versioned_id j w)" by simp
  then have "rev (show_nat (nat v)) @ CHR '':'' # rev i = rev (show_nat (nat w)) @ CHR '':'' # rev j"
    by (simp add: versioned_id_def)
  from split_at_nondigit[OF _ _ _ this] have "rev (show_nat (nat v)) = rev (show_nat (nat w))" "i = j"
    using show_nat_digits by (auto simp: is_digit_def)
  with nn show "i = j \<and> v = w" by (simp add: eq_nat_nat_iff)
qed simp

text \<open>
  The rows a log holds for one owner are numbered from 1 without a gap, and each carries the
  identifier built from its number. The locale is the contract of a log with its rows: what
  owner, number and identifier of a row are.
\<close>

locale numbered_log =
  fixes owner :: "'e \<Rightarrow> string"
    and number :: "'e \<Rightarrow> int"
    and ident :: "'e \<Rightarrow> string"
    and prefix :: "string \<Rightarrow> string"
  assumes prefix_inj: "prefix o1 = prefix o2 \<Longrightarrow> o1 = o2"
begin

definition entries :: "string \<Rightarrow> 'e list \<Rightarrow> 'e list" where
  "entries k es = filter (\<lambda>e. owner e = k) es"

definition numbered :: "string \<Rightarrow> int \<Rightarrow> 'e list \<Rightarrow> bool" where
  "numbered k v es \<longleftrightarrow> 0 \<le> v \<and> map number (entries k es) = [1..v]
     \<and> (\<forall>e \<in> set (entries k es). ident e = versioned_id (prefix k) (number e))"

lemma numbered_append_own:
  assumes "numbered k v es" "owner e = k" "number e = v + 1" "ident e = versioned_id (prefix k) (v + 1)"
  shows "numbered k (v + 1) (es @ [e])"
  using assms upto_rec2[of 1 "v + 1"] by (auto simp: numbered_def entries_def)

lemma numbered_append_other: "owner e \<noteq> k \<Longrightarrow> numbered k v (es @ [e]) = numbered k v es"
  by (simp add: numbered_def entries_def)

lemma numbered_empty: "(\<forall>e \<in> set es. owner e \<noteq> k) \<Longrightarrow> numbered k 0 es"
  by (simp add: numbered_def entries_def filter_empty_conv[THEN iffD2])

text \<open>The next number is free, and so is its identifier.\<close>

lemma next_free:
  assumes "\<forall>e \<in> set es. \<exists>v. numbered (owner e) v es" "numbered k v es" "e \<in> set es"
  shows "ident e \<noteq> versioned_id (prefix k) (v + 1) \<and> \<not> (owner e = k \<and> number e = v + 1)"
proof -
  obtain w where w: "numbered (owner e) w es" using assms(1,3) by blast
  have e: "e \<in> set (entries (owner e) es)" using assms(3) by (simp add: entries_def)
  then have "number e \<in> set [1..w]" using w by (metis image_eqI numbered_def set_map)
  moreover have "owner e = k \<Longrightarrow> w = v"
  proof -
    assume "owner e = k"
    then have "[1..w] = [1..v]" "0 \<le> w" "0 \<le> v" using w assms(2) by (auto simp: numbered_def)
    then have "length [1..w] = length [1..v]" by simp
    then show "w = v" using \<open>0 \<le> w\<close> \<open>0 \<le> v\<close> by simp
  qed
  moreover have "ident e = versioned_id (prefix (owner e)) (number e)"
    using w e by (simp add: numbered_def)
  moreover have "0 \<le> v" using assms(2) by (simp add: numbered_def)
  ultimately show ?thesis by (auto simp: versioned_id_inj dest: prefix_inj)
qed

end

section \<open>Idempotent submissions\<close>

text \<open>
  Several cores accept a submission under a key and treat a repetition as a read. The contract:
  on a sound database a submission that succeeded can be repeated, and the repetition succeeds
  with the same answer and writes nothing.
\<close>

locale idempotent_submission =
  fixes submit :: "'req \<Rightarrow> 'db \<Rightarrow> ('e + 'res) \<times> 'db"
    and sound :: "'db \<Rightarrow> bool"
    and answer :: "'res \<Rightarrow> 'ans"
  assumes replay: "sound db \<Longrightarrow> submit r db = (Inr x, db') \<Longrightarrow>
      \<exists>y. submit r db' = (Inr y, db') \<and> answer y = answer x"
    and failed: "submit r db = (Inl err, db') \<Longrightarrow> db' = db"
    and keeps: "sound db \<Longrightarrow> sound (snd (submit r db))"
begin

fun repeated :: "nat \<Rightarrow> 'req \<Rightarrow> 'db \<Rightarrow> 'db" where
  "repeated 0 r db = db"
| "repeated (Suc n) r db = repeated n r (snd (submit r db))"

text \<open>However often a submission is repeated, the database is the one its first success left.\<close>

lemma repeated_once:
  assumes "sound db" "submit r db = (Inr x, db')"
  shows "repeated (Suc n) r db = db'"
proof -
  have "repeated n r db' = db'" if "submit r db' = (Inr y, db')" for n y
    using that by (induction n) simp_all
  then show ?thesis using replay[OF assms] assms(2) by auto
qed

lemma submit_twice: "sound db \<Longrightarrow> snd (submit r (snd (submit r db))) = snd (submit r db)"
proof (cases "submit r db")
  case (Pair res db')
  assume snd: "sound db"
  show ?thesis
  proof (cases res)
    case (Inl err)
    then have "db' = db" using failed Pair by blast
    then show ?thesis using Pair by simp
  next
    case (Inr x)
    then have "submit r db = (Inr x, db')" using Pair by simp
    from replay[OF snd this] Pair show ?thesis by auto
  qed
qed

end

section \<open>Hexadecimal digests\<close>

definition hex_char :: "nat \<Rightarrow> char" where
  "hex_char n = ''0123456789abcdef'' ! n"

definition hex_digest :: "8 word list \<Rightarrow> string" where
  "hex_digest bytes = concat (map (\<lambda>b. [hex_char (unat (drop_bit 4 b)), hex_char (unat (and b 15))]) bytes)"

definition is_hex :: "char \<Rightarrow> bool" where
  "is_hex c \<longleftrightarrow> c \<in> set ''0123456789abcdefABCDEF''"

definition validate_digest :: "string \<Rightarrow> unit result" where
  "validate_digest v =
     (if length v \<noteq> 64 \<or> \<not> list_all is_hex v
      then Inl (Bail ''request digest must be 64 hexadecimal characters'') else Inr ())"

lemma nibble_bound: "unat (drop_bit 4 (b :: 8 word)) < 16" "unat (and b (15 :: 8 word)) < 16"
proof -
  have "unat (drop_bit 4 b) = unat b div 16"
    by (simp add: drop_bit_eq_div unat_div)
  then show "unat (drop_bit 4 b) < 16"
    using unsigned_less[of b, where 'a = nat] by (simp add: less_mult_imp_div_less)
  have "and b 15 = b mod 16"
    using take_bit_eq_mask[of 4 b] by (simp add: take_bit_eq_mod mask_eq_exp_minus_1)
  then show "unat (and b (15 :: 8 word)) < 16"
    by (simp add: unat_mod_distrib)
qed

lemma is_hex_hex_char: "n < 16 \<Longrightarrow> is_hex (hex_char n)"
proof -
  assume "n < 16"
  then have "hex_char n \<in> set ''0123456789abcdef''"
    unfolding hex_char_def by (intro nth_mem) simp
  then show ?thesis by (auto simp: is_hex_def)
qed

lemma length_hex_digest: "length (hex_digest bytes) = 2 * length bytes"
  by (induction bytes) (simp_all add: hex_digest_def)

lemma hex_digest_valid: "length bytes = 32 \<Longrightarrow> validate_digest (hex_digest bytes) = Inr ()"
proof -
  assume n: "length bytes = 32"
  have "list_all is_hex (hex_digest bytes)"
    by (auto simp: list_all_iff hex_digest_def intro: is_hex_hex_char nibble_bound)
  then show ?thesis using n by (simp add: validate_digest_def length_hex_digest)
qed

section \<open>The single-writer lock\<close>

text \<open>
  A domain is an account, an instrument and a kind of core. Its lock is the advisory lock
  whose key is the first eight bytes of a digest; the sessions holding locks are the state.
\<close>

definition advisory_key :: "(8 word list \<Rightarrow> 8 word list) \<Rightarrow> string \<Rightarrow> string \<Rightarrow> int" where
  "advisory_key sha256 namespace value =
     (let digest = sha256 (map of_char namespace @ [0] @ map of_char value)
      in sint (fold (\<lambda>b acc. push_bit 8 acc + ucast b) (take 8 digest) (0 :: 64 word)))"

text \<open>A held lock: the session that took it, its key, and the domain its core writes to.\<close>

record held_lock =
  hl_session :: nat
  hl_key :: int
  hl_account_id :: string
  hl_instrument_id :: string

definition domain_value :: "string \<Rightarrow> string \<Rightarrow> string" where
  "domain_value account instrument = account @ [CHR 0x00] @ instrument"

definition acquire_domain :: "(8 word list \<Rightarrow> 8 word list) \<Rightarrow> unit result \<Rightarrow> nat \<Rightarrow> string \<Rightarrow> string
    \<Rightarrow> held_lock list \<Rightarrow> held_lock result \<times> held_lock list" where
  "acquire_domain sha256 ready session account instrument locks =
     (case then_do (validate_id account) (\<lambda>_. then_do (validate_id instrument) (\<lambda>_. ready)) of
        Inl e \<Rightarrow> (Inl e, locks)
      | Inr _ \<Rightarrow>
        let lock_key = advisory_key sha256 ''execution-domain'' (domain_value account instrument)
        in if \<exists>l \<in> set locks. hl_key l = lock_key
           then (Inl (Bail ''execution domain already has a writer''), locks)
           else let l = \<lparr>hl_session = session, hl_key = lock_key, hl_account_id = account,
                         hl_instrument_id = instrument\<rparr>
                in (Inr l, locks @ [l]))"

definition disconnect_domain :: "nat \<Rightarrow> held_lock list \<Rightarrow> held_lock list" where
  "disconnect_domain session locks = filter (\<lambda>l. hl_session l \<noteq> session) locks"

inductive locks_reachable :: "(8 word list \<Rightarrow> 8 word list) \<Rightarrow> held_lock list \<Rightarrow> bool" for sha256 where
  none: "locks_reachable sha256 []"
| acquired: "locks_reachable sha256 ls \<Longrightarrow>
    locks_reachable sha256 (snd (acquire_domain sha256 ready s a i ls))"
| released: "locks_reachable sha256 ls \<Longrightarrow> locks_reachable sha256 (disconnect_domain s ls)"

definition locks_inv :: "(8 word list \<Rightarrow> 8 word list) \<Rightarrow> held_lock list \<Rightarrow> bool" where
  "locks_inv sha256 ls \<longleftrightarrow> distinct (map hl_key ls)
     \<and> (\<forall>l \<in> set ls. hl_key l = advisory_key sha256 ''execution-domain''
           (domain_value (hl_account_id l) (hl_instrument_id l))
         \<and> CHR 0x00 \<notin> set (hl_account_id l) \<and> CHR 0x00 \<notin> set (hl_instrument_id l))"

lemma acquire_domain_inv: "locks_inv sha256 ls \<Longrightarrow> locks_inv sha256 (snd (acquire_domain sha256 ready s a i ls))"
  by (auto simp: acquire_domain_def locks_inv_def Let_def validate_id_ok_iff split: sum.split)

lemma locks_reachable_inv: "locks_reachable sha256 ls \<Longrightarrow> locks_inv sha256 ls"
proof (induction rule: locks_reachable.induct)
  case (released ls s)
  then show ?case by (auto simp: locks_inv_def disconnect_domain_def distinct_map_filter)
qed (simp_all add: acquire_domain_inv, simp add: locks_inv_def)

text \<open>The text that is hashed determines the domain, since an identifier holds no NUL byte.\<close>

lemma domain_value_inj:
  assumes "CHR 0x00 \<notin> set a" "CHR 0x00 \<notin> set b" "domain_value a i = domain_value b j"
  shows "a = b \<and> i = j"
  using assms
proof (induction a arbitrary: b)
  case Nil
  then show ?case by (cases b) (auto simp: domain_value_def)
next
  case (Cons c a)
  then show ?case by (cases b) (auto simp: domain_value_def)
qed

text \<open>C27. Whatever cores are opened and closed, no two open cores write the same domain, and opening
  a second core for a domain that has an open core fails and changes nothing.\<close>

theorem single_writer_per_domain:
  assumes "locks_reachable sha256 ls"
  shows "distinct (map (\<lambda>l. (hl_account_id l, hl_instrument_id l)) ls)
    \<and> (\<forall>l \<in> set ls. \<not> is_ok (fst (acquire_domain sha256 ready s (hl_account_id l) (hl_instrument_id l) ls))
          \<and> snd (acquire_domain sha256 ready s (hl_account_id l) (hl_instrument_id l) ls) = ls)"
proof -
  have inv: "locks_inv sha256 ls" using assms by (rule locks_reachable_inv)
  let ?key = "\<lambda>(a, i). advisory_key sha256 ''execution-domain'' (domain_value a i)"
  have keys: "map hl_key ls = map ?key (map (\<lambda>l. (hl_account_id l, hl_instrument_id l)) ls)"
    using inv by (simp add: locks_inv_def)
  have "distinct (map ?key (map (\<lambda>l. (hl_account_id l, hl_instrument_id l)) ls))"
    using inv unfolding keys[symmetric] by (simp add: locks_inv_def)
  then have "distinct (map (\<lambda>l. (hl_account_id l, hl_instrument_id l)) ls)"
    by (simp only: distinct_map[of ?key])
  moreover have "\<forall>l \<in> set ls. \<not> is_ok (fst (acquire_domain sha256 ready s (hl_account_id l) (hl_instrument_id l) ls))
      \<and> snd (acquire_domain sha256 ready s (hl_account_id l) (hl_instrument_id l) ls) = ls"
  proof
    fix l assume l: "l \<in> set ls"
    then have key: "hl_key l = advisory_key sha256 ''execution-domain'' (domain_value (hl_account_id l) (hl_instrument_id l))"
      using inv by (simp add: locks_inv_def)
    show "\<not> is_ok (fst (acquire_domain sha256 ready s (hl_account_id l) (hl_instrument_id l) ls))
      \<and> snd (acquire_domain sha256 ready s (hl_account_id l) (hl_instrument_id l) ls) = ls"
    proof -
      have ex: "\<exists>l' \<in> set ls. hl_key l' = hl_key l" using l by blast
      show ?thesis unfolding acquire_domain_def Let_def key[symmetric] if_P[OF ex]
        by (simp split: sum.split)
    qed
  qed
  ultimately show ?thesis by blast
qed

definition null_digest :: "8 word list \<Rightarrow> 8 word list" where
  "null_digest bytes = replicate 32 0"

lemma single_writer_per_domain_witness:
  "\<not> is_ok (fst (acquire_domain null_digest (Inr ()) 2 ''main'' ''BTCUSDT''
     (snd (acquire_domain null_digest (Inr ()) 1 ''main'' ''BTCUSDT'' []))))"
proof -
  let ?ls = "snd (acquire_domain null_digest (Inr ()) 1 ''main'' ''BTCUSDT'' [])"
  have ls: "?ls = [\<lparr>hl_session = 1, hl_key = advisory_key null_digest ''execution-domain''
      (domain_value ''main'' ''BTCUSDT''), hl_account_id = ''main'', hl_instrument_id = ''BTCUSDT''\<rparr>]"
    by (simp add: acquire_domain_def validate_id_def trim_def trim_start_def is_whitespace_def Let_def)
  have "locks_reachable null_digest ?ls" by (intro locks_reachable.intros)
  from single_writer_per_domain[OF this, of "Inr ()" 2] show ?thesis unfolding ls by simp
qed

end
