(* ===== verification/Order_Facts.thy ===== *)
theory Order_Facts
  imports Db_Common
begin

text \<open>
  The durable facts of an order, \<open>crates/core/src/order.rs\<close> with the tables of migration 0002:
  the submission and cancellation state machine, the investigation of orders whose submission
  is unknown, the recording of trades, and the append-only log of actions. An operation takes
  the database and returns its result beside the new database; a transaction that fails leaves
  the database as it was. The unique and check constraints a statement can violate are error
  branches. The digest of a trade is a parameter.
\<close>

section \<open>Data\<close>

datatype submission_status = NotSent | InFlight | Accepted | DefinitelyRejected | Unknown

datatype cancel_status = CancelNone | CancelRequested | CancelUnknown | CancelConfirmed

datatype reconciliation_status = Pending | Matched | Conflict

fun submission_as_str :: "submission_status \<Rightarrow> string" where
  "submission_as_str NotSent = ''NOT_SENT''"
| "submission_as_str InFlight = ''IN_FLIGHT''"
| "submission_as_str Accepted = ''ACCEPTED''"
| "submission_as_str DefinitelyRejected = ''DEFINITELY_REJECTED''"
| "submission_as_str Unknown = ''UNKNOWN''"

fun cancel_as_str :: "cancel_status \<Rightarrow> string" where
  "cancel_as_str CancelNone = ''NONE''"
| "cancel_as_str CancelRequested = ''REQUESTED''"
| "cancel_as_str CancelUnknown = ''UNKNOWN''"
| "cancel_as_str CancelConfirmed = ''CONFIRMED''"

fun reconciliation_as_str :: "reconciliation_status \<Rightarrow> string" where
  "reconciliation_as_str Pending = ''PENDING''"
| "reconciliation_as_str Matched = ''MATCHED''"
| "reconciliation_as_str Conflict = ''CONFLICT''"

definition parse_submission :: "string \<Rightarrow> submission_status result" where
  "parse_submission v =
     (if v = ''NOT_SENT'' then Inr NotSent else if v = ''IN_FLIGHT'' then Inr InFlight
      else if v = ''ACCEPTED'' then Inr Accepted
      else if v = ''DEFINITELY_REJECTED'' then Inr DefinitelyRejected
      else if v = ''UNKNOWN'' then Inr Unknown else Inl (Bail ''unknown submission status''))"

definition parse_cancel :: "string \<Rightarrow> cancel_status result" where
  "parse_cancel v =
     (if v = ''NONE'' then Inr CancelNone else if v = ''REQUESTED'' then Inr CancelRequested
      else if v = ''UNKNOWN'' then Inr CancelUnknown
      else if v = ''CONFIRMED'' then Inr CancelConfirmed else Inl (Bail ''unknown cancel status''))"

definition parse_reconciliation :: "string \<Rightarrow> reconciliation_status result" where
  "parse_reconciliation v =
     (if v = ''PENDING'' then Inr Pending else if v = ''MATCHED'' then Inr Matched
      else if v = ''CONFLICT'' then Inr Conflict else Inl (Bail ''unknown reconciliation status''))"

record order_fact =
  of_intent_id :: string
  of_account_id :: string
  of_instrument_id :: string
  of_venue :: string
  of_ordered_quantity :: decimal
  of_submission_status :: submission_status
  of_cancel_status :: cancel_status
  of_reconciliation_status :: reconciliation_status
  of_exchange_order_id :: "string option"
  of_filled_quantity :: decimal
  of_last_fact_version :: int
  of_last_error :: "string option"
  of_updated_at_ms :: int

datatype action_kind =
    SubmitStarted | SubmitAccepted | SubmitRejected | SubmitUnknown
  | QueryNotFound | QueryFound
  | CancelWasRequested | CancelIsUnknown | CancelIsConfirmed
  | TradeRecorded | TradeDuplicate | TradeConflict

record action_fact =
  af_fact_id :: string
  af_intent_id :: string
  af_fact_version :: int
  af_action :: action_kind
  af_request_digest :: "string option"
  af_occurred_at_ms :: int
  af_payload :: "(string \<times> payload_value) list"

datatype submit_outcome_input =
    SubmittedAccepted string | SubmittedRejected string | SubmittedUnknown string

datatype query_outcome_input = NotFound string u64 | Found string string

datatype cancel_outcome_input = ResultUnknown | ResultConfirmed

record investigation =
  in_query_id :: string
  in_intent_id :: string
  in_found :: bool
  in_visibility_deadline_ms :: int
  in_occurred_at_ms :: int

record trade_input =
  ti_venue :: string
  ti_exchange_order_id :: string
  ti_trade_id :: string
  ti_quantity :: decimal
  ti_price :: decimal
  ti_fee_asset :: string
  ti_fee_amount :: decimal
  ti_source_sequence :: u64
  ti_occurred_at_ms :: u64

record trade_fact =
  tf_venue :: string
  tf_exchange_order_id :: string
  tf_trade_id :: string
  tf_intent_id :: string
  tf_trade_digest :: string
  tf_quantity :: decimal
  tf_price :: decimal
  tf_fee_asset :: string
  tf_fee_amount :: decimal
  tf_source_sequence :: int
  tf_occurred_at_ms :: int

text \<open>The join of \<open>order_intents\<close> and \<open>execution_plans\<close> that an order fact is made from.\<close>

record intent_ref =
  ir_intent_id :: string
  ir_account_id :: string
  ir_instrument_id :: string
  ir_venue :: string
  ir_quantity :: decimal

record order_db =
  od_intents :: "intent_ref list"
  od_facts :: "order_fact list"
  od_actions :: "action_fact list"
  od_investigations :: "investigation list"
  od_trades :: "trade_fact list"

record order_core =
  co_account_id :: string
  co_instrument_id :: string

section \<open>Statements\<close>

definition lock_fact :: "string \<Rightarrow> order_db \<Rightarrow> order_fact result" where
  "lock_fact intent_id db = (case lookup_row of_intent_id intent_id (od_facts db) of
     None \<Rightarrow> Inl (Bail ''B-02 order intent fact is missing'') | Some f \<Rightarrow> Inr f)"

definition load_order :: "order_core \<Rightarrow> string \<Rightarrow> order_db \<Rightarrow> order_fact result" where
  "load_order core intent_id db = (case lookup_row of_intent_id intent_id (od_facts db) of
     None \<Rightarrow> Inl (Bail ''failed to load B-02 order fact'')
   | Some f \<Rightarrow> if of_account_id f = co_account_id core \<and> of_instrument_id f = co_instrument_id core
               then Inr f else Inl (Bail ''failed to load B-02 order fact''))"

text \<open>An update of a fact; \<open>UNIQUE (venue, exchange_order_id)\<close> can refuse it.\<close>

definition update_fact :: "order_fact \<Rightarrow> order_db \<Rightarrow> order_db result" where
  "update_fact f db =
     (if of_exchange_order_id f \<noteq> None
        \<and> (\<exists>g \<in> set (od_facts db). of_intent_id g \<noteq> of_intent_id f \<and> of_venue g = of_venue f
              \<and> of_exchange_order_id g = of_exchange_order_id f)
      then Inl (Bail ''failed to persist'')
      else Inr (db\<lparr>od_facts := put_row of_intent_id f (od_facts db)\<rparr>))"

definition append_action :: "string \<Rightarrow> int \<Rightarrow> action_kind \<Rightarrow> string option \<Rightarrow> int
    \<Rightarrow> (string \<times> payload_value) list \<Rightarrow> order_db \<Rightarrow> order_db result" where
  "append_action intent_id version action request_digest now payload db =
     (if \<exists>a \<in> set (od_actions db). af_fact_id a = versioned_id intent_id version
           \<or> (af_intent_id a = intent_id \<and> af_fact_version a = version)
      then Inl (Bail ''failed to append immutable B-02 action fact'')
      else Inr (db\<lparr>od_actions := od_actions db @
        [\<lparr>af_fact_id = versioned_id intent_id version, af_intent_id = intent_id, af_fact_version = version,
          af_action = action, af_request_digest = request_digest, af_occurred_at_ms = now,
          af_payload = payload\<rparr>]\<rparr>))"

definition commit_and_load :: "order_core \<Rightarrow> string \<Rightarrow> order_db \<Rightarrow> order_db result
    \<Rightarrow> order_fact result \<times> order_db" where
  "commit_and_load core intent_id db body = (case body of
     Inl e \<Rightarrow> (Inl e, db) | Inr db' \<Rightarrow> (load_order core intent_id db', db'))"

section \<open>Operations\<close>

definition ensure_intent :: "order_core \<Rightarrow> string \<Rightarrow> u64 \<Rightarrow> order_db \<Rightarrow> order_fact result \<times> order_db" where
  "ensure_intent core intent_id now db = commit_and_load core intent_id db (
     then_do (validate_id intent_id) (\<lambda>_.
     then_do (to_i64 now) (\<lambda>now.
     case find (\<lambda>i. ir_intent_id i = intent_id \<and> ir_account_id i = co_account_id core
                  \<and> ir_instrument_id i = co_instrument_id core) (od_intents db) of
       None \<Rightarrow> Inr db
     | Some i \<Rightarrow>
         if lookup_row of_intent_id intent_id (od_facts db) \<noteq> None then Inr db
         else Inr (db\<lparr>od_facts := od_facts db @
           [\<lparr>of_intent_id = intent_id, of_account_id = ir_account_id i,
             of_instrument_id = ir_instrument_id i, of_venue = ir_venue i,
             of_ordered_quantity = ir_quantity i, of_submission_status = NotSent,
             of_cancel_status = CancelNone, of_reconciliation_status = Pending,
             of_exchange_order_id = None, of_filled_quantity = 0, of_last_fact_version = 0,
             of_last_error = None, of_updated_at_ms = now\<rparr>]\<rparr>))))"

definition submit_started :: "order_core \<Rightarrow> string \<Rightarrow> string \<Rightarrow> u64 \<Rightarrow> order_db
    \<Rightarrow> order_fact result \<times> order_db" where
  "submit_started core intent_id request_digest now db = commit_and_load core intent_id db (
     then_do (validate_id intent_id) (\<lambda>_.
     then_do (validate_digest request_digest) (\<lambda>_.
     then_do (lock_fact intent_id db) (\<lambda>current.
     if of_submission_status current \<noteq> NotSent
     then Inl (Bail ''submit can only start from NOT_SENT'')
     else let version = of_last_fact_version current + 1
     in then_do (to_i64 now) (\<lambda>now.
        then_do (update_fact (current\<lparr>of_submission_status := InFlight,
          of_last_fact_version := version, of_updated_at_ms := now\<rparr>) db)
        (append_action intent_id version SubmitStarted (Some request_digest) now
          [(''request_digest'', PText request_digest)]))))))"

text \<open>What each outcome of a submission sets: status, action, payload, order id, last error.\<close>

definition submit_outcome :: "submit_outcome_input \<Rightarrow> (submission_status \<times> action_kind
    \<times> (string \<times> payload_value) list \<times> string option \<times> string option) result" where
  "submit_outcome r = (case r of
     SubmittedAccepted exchange_order_id \<Rightarrow> then_do (validate_id exchange_order_id) (\<lambda>_.
       Inr (Accepted, SubmitAccepted, [(''exchange_order_id'', PText exchange_order_id)],
            Some exchange_order_id, None))
   | SubmittedRejected reason \<Rightarrow> then_do (validate_id reason) (\<lambda>_.
       Inr (DefinitelyRejected, SubmitRejected, [(''reason'', PText reason)], None, Some reason))
   | SubmittedUnknown reason \<Rightarrow> then_do (validate_id reason) (\<lambda>_.
       Inr (Unknown, SubmitUnknown, [(''reason'', PText reason)], None, Some reason)))"

text \<open>\<open>COALESCE(new, old)\<close>.\<close>

definition coalesce :: "'a option \<Rightarrow> 'a option \<Rightarrow> 'a option" where
  "coalesce new old = (case new of Some x \<Rightarrow> Some x | None \<Rightarrow> old)"

definition submit_result :: "order_core \<Rightarrow> string \<Rightarrow> submit_outcome_input \<Rightarrow> u64 \<Rightarrow> order_db
    \<Rightarrow> order_fact result \<times> order_db" where
  "submit_result core intent_id r now db = commit_and_load core intent_id db (
     then_do (lock_fact intent_id db) (\<lambda>current.
     if of_submission_status current \<noteq> InFlight
     then Inl (Bail ''submit result requires IN_FLIGHT'')
     else then_do (submit_outcome r) (\<lambda>(status, action, payload, order_id, err).
       let version = of_last_fact_version current + 1
       in then_do (to_i64 now) (\<lambda>now.
          then_do (update_fact (current\<lparr>of_submission_status := status,
            of_exchange_order_id := coalesce order_id (of_exchange_order_id current),
            of_last_error := err, of_last_fact_version := version, of_updated_at_ms := now\<rparr>) db)
          (append_action intent_id version action None now payload)))))"

definition query_result :: "order_core \<Rightarrow> string \<Rightarrow> query_outcome_input \<Rightarrow> u64 \<Rightarrow> order_db
    \<Rightarrow> order_fact result \<times> order_db" where
  "query_result core intent_id r now db = commit_and_load core intent_id db (
     then_do (lock_fact intent_id db) (\<lambda>current.
     if of_submission_status current \<noteq> Unknown then Inl (Bail ''order query requires UNKNOWN'')
     else then_do (case r of
         NotFound query_id deadline \<Rightarrow> Inr (QueryNotFound, None, query_id, deadline)
       | Found query_id exchange_order_id \<Rightarrow> then_do (validate_id exchange_order_id) (\<lambda>_.
           Inr (QueryFound, Some exchange_order_id, query_id, 0)))
       (\<lambda>(action, order_id, query_id, deadline).
       then_do (validate_id query_id) (\<lambda>_.
       then_do (to_i64 now) (\<lambda>now.
       then_do (to_i64 deadline) (\<lambda>deadline_ms.
       if \<exists>q \<in> set (od_investigations db). in_query_id q = query_id
       then Inl (Bail ''failed to persist order investigation'')
       else let db = db\<lparr>od_investigations := od_investigations db @
                  [\<lparr>in_query_id = query_id, in_intent_id = intent_id, in_found = (order_id \<noteq> None),
                    in_visibility_deadline_ms = deadline_ms, in_occurred_at_ms = now\<rparr>]\<rparr>;
                version = of_last_fact_version current + 1;
                (status, payload) = (case order_id of
                  Some exchange_order_id \<Rightarrow> (Accepted, [(''exchange_order_id'', PText exchange_order_id)])
                | None \<Rightarrow> (Unknown, [(''query_id'', PText query_id),
                                    (''visibility_deadline_ms'', PNumber deadline)]))
            in then_do (update_fact (current\<lparr>of_submission_status := status,
                 of_exchange_order_id := coalesce order_id (of_exchange_order_id current),
                 of_last_fact_version := version, of_updated_at_ms := now\<rparr>) db)
               (append_action intent_id version action None now payload)))))))"

definition cancel_requested :: "order_core \<Rightarrow> string \<Rightarrow> u64 \<Rightarrow> order_db
    \<Rightarrow> order_fact result \<times> order_db" where
  "cancel_requested core intent_id now db = commit_and_load core intent_id db (
     then_do (validate_id intent_id) (\<lambda>_.
     then_do (lock_fact intent_id db) (\<lambda>current.
     if of_submission_status current \<noteq> Accepted
       \<or> of_cancel_status current \<notin> {CancelNone, CancelUnknown}
     then Inl (Bail ''cancel request requires an accepted order without confirmed cancellation'')
     else let version = of_last_fact_version current + 1
     in then_do (to_i64 now) (\<lambda>now.
        then_do (update_fact (current\<lparr>of_cancel_status := CancelRequested,
          of_last_fact_version := version, of_updated_at_ms := now\<rparr>) db)
        (append_action intent_id version CancelWasRequested None now
          [(''cancel_status'', PText ''REQUESTED'')])))))"

definition cancel_result :: "order_core \<Rightarrow> string \<Rightarrow> cancel_outcome_input \<Rightarrow> u64 \<Rightarrow> order_db
    \<Rightarrow> order_fact result \<times> order_db" where
  "cancel_result core intent_id r now db = commit_and_load core intent_id db (
     then_do (lock_fact intent_id db) (\<lambda>current.
     if of_submission_status current \<noteq> Accepted
       \<or> of_cancel_status current \<notin> {CancelRequested, CancelUnknown}
     then Inl (Bail ''cancel result requires a requested cancellation'')
     else let (status, action) = (case r of
              ResultUnknown \<Rightarrow> (CancelUnknown, CancelIsUnknown)
            | ResultConfirmed \<Rightarrow> (CancelConfirmed, CancelIsConfirmed));
              version = of_last_fact_version current + 1
     in then_do (to_i64 now) (\<lambda>now.
        then_do (update_fact (current\<lparr>of_cancel_status := status,
          of_last_fact_version := version, of_updated_at_ms := now\<rparr>) db)
        (append_action intent_id version action None now
          [(''cancel_status'', PText (cancel_as_str status))]))))"

definition validate_trade :: "trade_input \<Rightarrow> unit result" where
  "validate_trade t =
     then_do (validate_id (ti_venue t)) (\<lambda>_.
     then_do (validate_id (ti_exchange_order_id t)) (\<lambda>_.
     then_do (validate_id (ti_trade_id t)) (\<lambda>_.
     then_do (validate_id (ti_fee_asset t)) (\<lambda>_.
     if ti_quantity t \<le> 0 \<or> ti_price t \<le> 0 \<or> ti_fee_amount t < 0
     then Inl (Bail ''trade quantity and price must be positive, fee must be non-negative'')
     else Inr ()))))"

definition same_trade :: "trade_input \<Rightarrow> trade_fact \<Rightarrow> bool" where
  "same_trade t f \<longleftrightarrow> tf_venue f = ti_venue t \<and> tf_exchange_order_id f = ti_exchange_order_id t
     \<and> tf_trade_id f = ti_trade_id t"

text \<open>The two transactions of \<open>record_trade\<close>: a trade that is already stored, and a new one.\<close>

definition record_known_trade :: "string \<Rightarrow> trade_input \<Rightarrow> string \<Rightarrow> bool \<Rightarrow> order_fact \<Rightarrow> int
    \<Rightarrow> order_db \<Rightarrow> order_db result" where
  "record_known_trade intent_id t digest same_content current now db =
     (let version = of_last_fact_version current + 1
      in then_do (append_action intent_id version (if same_content then TradeDuplicate else TradeConflict)
           None now [(''trade_id'', PText (ti_trade_id t)), (''digest'', PText digest)] db)
         (update_fact (if same_content
           then current\<lparr>of_last_fact_version := version, of_updated_at_ms := now\<rparr>
           else current\<lparr>of_reconciliation_status := Conflict, of_last_fact_version := version,
             of_updated_at_ms := now\<rparr>)))"

definition record_new_trade :: "string \<Rightarrow> trade_input \<Rightarrow> string \<Rightarrow> order_fact \<Rightarrow> int
    \<Rightarrow> order_db \<Rightarrow> order_db result" where
  "record_new_trade intent_id t digest current now db =
     then_do (to_i64 (ti_occurred_at_ms t)) (\<lambda>occurred.
     let sequence = sint (ti_source_sequence t)
     in if sequence < 0 \<or> length digest \<noteq> 64 then Inl (Bail ''failed to insert trade fact'')
        else let db = db\<lparr>od_trades := od_trades db @
               [\<lparr>tf_venue = ti_venue t, tf_exchange_order_id = ti_exchange_order_id t,
                 tf_trade_id = ti_trade_id t, tf_intent_id = intent_id, tf_trade_digest = digest,
                 tf_quantity = ti_quantity t, tf_price = ti_price t, tf_fee_asset = ti_fee_asset t,
                 tf_fee_amount = ti_fee_amount t, tf_source_sequence = sequence,
                 tf_occurred_at_ms = occurred\<rparr>]\<rparr>;
             filled = of_filled_quantity current + ti_quantity t;
             version = of_last_fact_version current + 1
        in then_do (update_fact (current\<lparr>of_filled_quantity := filled,
               of_reconciliation_status := (if filled \<le> of_ordered_quantity current then Matched else Conflict),
               of_last_fact_version := version, of_updated_at_ms := now\<rparr>) db)
           (append_action intent_id version TradeRecorded None now
             [(''trade_id'', PText (ti_trade_id t)), (''quantity'', PDecimal (ti_quantity t))]))"

definition record_trade :: "(trade_input \<Rightarrow> string) \<Rightarrow> order_core \<Rightarrow> string \<Rightarrow> trade_input \<Rightarrow> u64
    \<Rightarrow> order_db \<Rightarrow> order_fact result \<times> order_db" where
  "record_trade trade_digest core intent_id t now db =
     (case then_do (validate_trade t) (\<lambda>_.
           then_do (lock_fact intent_id db) (\<lambda>current.
           if of_exchange_order_id current \<noteq> Some (ti_exchange_order_id t) \<or> of_venue current \<noteq> ti_venue t
           then Inl (Bail ''trade does not match the durable order identity'')
           else then_do (to_i64 now) (\<lambda>now. Inr (current, now)))) of
        Inl e \<Rightarrow> (Inl e, db)
      | Inr (current, now) \<Rightarrow>
          (case find (same_trade t) (od_trades db) of
             Some old \<Rightarrow>
               let same_content = (tf_trade_digest old = trade_digest t)
               in case record_known_trade intent_id t (trade_digest t) same_content current now db of
                    Inl e \<Rightarrow> (Inl e, db)
                  | Inr db' \<Rightarrow> if same_content then (load_order core intent_id db', db')
                      else (Inl (Bail ''trade identity was reused with different content''), db')
           | None \<Rightarrow> commit_and_load core intent_id db
               (record_new_trade intent_id t (trade_digest t) current now db)))"

definition recover_nonterminal :: "(string \<Rightarrow> 'k::linorder) \<Rightarrow> order_core \<Rightarrow> order_db \<Rightarrow> order_fact list" where
  "recover_nonterminal collation core db = sort_key (\<lambda>f. collation (of_intent_id f))
     (filter (\<lambda>f. of_account_id f = co_account_id core \<and> of_instrument_id f = co_instrument_id core
        \<and> of_submission_status f \<noteq> DefinitelyRejected) (od_facts db))"

section \<open>Round trips of the stored text\<close>

lemma parse_as_str:
  "parse_submission (submission_as_str x) = Inr x"
  "parse_cancel (cancel_as_str y) = Inr y"
  "parse_reconciliation (reconciliation_as_str z) = Inr z"
proof -
  show "parse_submission (submission_as_str x) = Inr x" by (cases x) (simp_all add: parse_submission_def)
  show "parse_cancel (cancel_as_str y) = Inr y" by (cases y) (simp_all add: parse_cancel_def)
  show "parse_reconciliation (reconciliation_as_str z) = Inr z"
    by (cases z) (simp_all add: parse_reconciliation_def)
qed

section \<open>The state machine of one order\<close>

text \<open>
  The specification: which changes of one fact each action stands for, and the trades it
  adds. Every change raises the version by one.
\<close>

definition bump :: "int \<Rightarrow> order_fact \<Rightarrow> order_fact" where
  "bump now f = f\<lparr>of_last_fact_version := of_last_fact_version f + 1, of_updated_at_ms := now\<rparr>"

inductive order_step :: "order_fact \<Rightarrow> action_kind \<Rightarrow> trade_fact list \<Rightarrow> order_fact \<Rightarrow> bool" where
  started: "of_submission_status f = NotSent \<Longrightarrow>
    order_step f SubmitStarted [] (bump now (f\<lparr>of_submission_status := InFlight\<rparr>))"
| accepted: "of_submission_status f = InFlight \<Longrightarrow>
    order_step f SubmitAccepted [] (bump now (f\<lparr>of_submission_status := Accepted,
      of_exchange_order_id := Some x, of_last_error := None\<rparr>))"
| rejected: "of_submission_status f = InFlight \<Longrightarrow>
    order_step f SubmitRejected [] (bump now (f\<lparr>of_submission_status := DefinitelyRejected,
      of_last_error := Some m\<rparr>))"
| unknown: "of_submission_status f = InFlight \<Longrightarrow>
    order_step f SubmitUnknown [] (bump now (f\<lparr>of_submission_status := Unknown,
      of_last_error := Some m\<rparr>))"
| not_found: "of_submission_status f = Unknown \<Longrightarrow> order_step f QueryNotFound [] (bump now f)"
| found: "of_submission_status f = Unknown \<Longrightarrow>
    order_step f QueryFound [] (bump now (f\<lparr>of_submission_status := Accepted,
      of_exchange_order_id := Some x\<rparr>))"
| cancel_req: "of_submission_status f = Accepted \<Longrightarrow> of_cancel_status f \<in> {CancelNone, CancelUnknown} \<Longrightarrow>
    order_step f CancelWasRequested [] (bump now (f\<lparr>of_cancel_status := CancelRequested\<rparr>))"
| cancel_unk: "of_submission_status f = Accepted \<Longrightarrow> of_cancel_status f \<in> {CancelRequested, CancelUnknown} \<Longrightarrow>
    order_step f CancelIsUnknown [] (bump now (f\<lparr>of_cancel_status := CancelUnknown\<rparr>))"
| cancel_conf: "of_submission_status f = Accepted \<Longrightarrow> of_cancel_status f \<in> {CancelRequested, CancelUnknown} \<Longrightarrow>
    order_step f CancelIsConfirmed [] (bump now (f\<lparr>of_cancel_status := CancelConfirmed\<rparr>))"
| duplicate: "of_exchange_order_id f = Some x \<Longrightarrow> order_step f TradeDuplicate [] (bump now f)"
| conflict: "of_exchange_order_id f = Some x \<Longrightarrow>
    order_step f TradeConflict [] (bump now (f\<lparr>of_reconciliation_status := Conflict\<rparr>))"
| recorded: "tf_intent_id t = of_intent_id f \<Longrightarrow> tf_venue t = of_venue f \<Longrightarrow>
    of_exchange_order_id f = Some (tf_exchange_order_id t) \<Longrightarrow> 0 < tf_quantity t \<Longrightarrow>
    order_step f TradeRecorded [t] (bump now (f\<lparr>
      of_filled_quantity := of_filled_quantity f + tf_quantity t,
      of_reconciliation_status := (if of_filled_quantity f + tf_quantity t \<le> of_ordered_quantity f
        then Matched else Conflict)\<rparr>))"

inductive_cases order_stepE [elim]: "order_step f k ts f'"

lemma order_step_frame:
  assumes "order_step f k ts f'"
  shows "of_intent_id f' = of_intent_id f" "of_account_id f' = of_account_id f"
    "of_instrument_id f' = of_instrument_id f" "of_venue f' = of_venue f"
    "of_ordered_quantity f' = of_ordered_quantity f"
    "of_last_fact_version f' = of_last_fact_version f + 1"
  using assms by (induction rule: order_step.induct) (simp_all add: bump_def)

text \<open>What one call may do to the database: nothing, create a fact, or one step of the fact it names.\<close>

definition same_identity :: "order_fact \<Rightarrow> order_fact \<Rightarrow> bool" where
  "same_identity f g \<longleftrightarrow> of_exchange_order_id f \<noteq> None \<and> of_venue g = of_venue f
     \<and> of_exchange_order_id g = of_exchange_order_id f"

definition trade_key :: "trade_fact \<Rightarrow> string \<times> string \<times> string" where
  "trade_key t = (tf_venue t, tf_exchange_order_id t, tf_trade_id t)"

inductive db_step :: "string \<Rightarrow> order_db \<Rightarrow> order_db \<Rightarrow> bool" for intent_id where
  stay: "db_step intent_id db db"
| created: "i \<in> set (od_intents db) \<Longrightarrow> ir_intent_id i = intent_id \<Longrightarrow>
    lookup_row of_intent_id intent_id (od_facts db) = None \<Longrightarrow>
    db_step intent_id db (db\<lparr>od_facts := od_facts db @
      [\<lparr>of_intent_id = intent_id, of_account_id = ir_account_id i, of_instrument_id = ir_instrument_id i,
        of_venue = ir_venue i, of_ordered_quantity = ir_quantity i, of_submission_status = NotSent,
        of_cancel_status = CancelNone, of_reconciliation_status = Pending, of_exchange_order_id = None,
        of_filled_quantity = 0, of_last_fact_version = 0, of_last_error = None,
        of_updated_at_ms = now\<rparr>]\<rparr>)"
| changed: "lookup_row of_intent_id intent_id (od_facts db) = Some f \<Longrightarrow> order_step f k ts f' \<Longrightarrow>
    \<forall>g \<in> set (od_facts db). of_intent_id g \<noteq> intent_id \<longrightarrow> \<not> same_identity f' g \<Longrightarrow>
    \<forall>t \<in> set ts. trade_key t \<notin> trade_key ` set (od_trades db) \<Longrightarrow>
    (k \<in> {TradeDuplicate, TradeConflict} \<longrightarrow> (\<exists>t \<in> set (od_trades db).
       tf_venue t = of_venue f \<and> of_exchange_order_id f = Some (tf_exchange_order_id t))) \<Longrightarrow>
    af_intent_id a = intent_id \<Longrightarrow> af_fact_version a = of_last_fact_version f' \<Longrightarrow> af_action a = k \<Longrightarrow>
    af_fact_id a = versioned_id intent_id (of_last_fact_version f') \<Longrightarrow>
    od_intents db' = od_intents db \<Longrightarrow> od_facts db' = put_row of_intent_id f' (od_facts db) \<Longrightarrow>
    od_actions db' = od_actions db @ [a] \<Longrightarrow> od_trades db' = od_trades db @ ts \<Longrightarrow>
    db_step intent_id db db'"

text \<open>The calls of a core that write.\<close>

datatype order_call =
    EnsureIntent
  | SubmitStart string
  | SubmitReport submit_outcome_input
  | QueryReport query_outcome_input
  | RequestCancel
  | CancelReport cancel_outcome_input
  | ReportTrade trade_input

fun run_call :: "(trade_input \<Rightarrow> string) \<Rightarrow> order_core \<Rightarrow> string \<Rightarrow> order_call \<Rightarrow> u64 \<Rightarrow> order_db
    \<Rightarrow> order_fact result \<times> order_db" where
  "run_call d core i EnsureIntent now db = ensure_intent core i now db"
| "run_call d core i (SubmitStart digest) now db = submit_started core i digest now db"
| "run_call d core i (SubmitReport r) now db = submit_result core i r now db"
| "run_call d core i (QueryReport r) now db = query_result core i r now db"
| "run_call d core i RequestCancel now db = cancel_requested core i now db"
| "run_call d core i (CancelReport r) now db = cancel_result core i r now db"
| "run_call d core i (ReportTrade t) now db = record_trade d core i t now db"

section \<open>The calls refine the state machine\<close>

lemma commit_and_load_db:
  "snd (commit_and_load core i db body) = (case body of Inl _ \<Rightarrow> db | Inr db' \<Rightarrow> db')"
  by (simp add: commit_and_load_def split: sum.split)

lemma lock_fact_ok_iff: "lock_fact i db = Inr f \<longleftrightarrow> lookup_row of_intent_id i (od_facts db) = Some f"
  by (simp add: lock_fact_def split: option.split)

lemma lock_fact_id: "lock_fact i db = Inr f \<Longrightarrow> of_intent_id f = i"
  by (auto simp: lock_fact_ok_iff dest: lookup_row_SomeD)

lemma update_fact_ok:
  assumes "update_fact f db = Inr db'"
  shows "db' = db\<lparr>od_facts := put_row of_intent_id f (od_facts db)\<rparr>"
    "\<forall>g \<in> set (od_facts db). of_intent_id g \<noteq> of_intent_id f \<longrightarrow> \<not> same_identity f g"
  using assms by (auto simp: update_fact_def same_identity_def split: if_splits)

lemma append_action_ok:
  assumes "append_action i v k d now p db = Inr db'"
  obtains a where "af_intent_id a = i" "af_fact_version a = v" "af_action a = k" "af_fact_id a = versioned_id i v"
    "db' = db\<lparr>od_actions := od_actions db @ [a]\<rparr>"
proof -
  let ?a = "\<lparr>af_fact_id = versioned_id i v, af_intent_id = i, af_fact_version = v, af_action = k,
    af_request_digest = d, af_occurred_at_ms = now, af_payload = p\<rparr>"
  show thesis using assms by (intro that[of ?a]) (auto simp: append_action_def split: if_splits)
qed

text \<open>The two statements every transaction ends with, on a database that only gained investigations and trades.\<close>

lemma update_append_step:
  assumes "lookup_row of_intent_id i (od_facts db) = Some f" "order_step f k ts f'"
    and "od_facts db1 = od_facts db" "od_intents db1 = od_intents db" "od_actions db1 = od_actions db"
    and "od_trades db1 = od_trades db @ ts"
    and "then_do (update_fact f' db1) (append_action i (of_last_fact_version f') k d now p) = Inr db'"
    and "\<forall>t \<in> set ts. trade_key t \<notin> trade_key ` set (od_trades db)"
    and "k \<in> {TradeDuplicate, TradeConflict} \<longrightarrow> (\<exists>t \<in> set (od_trades db).
       tf_venue t = of_venue f \<and> of_exchange_order_id f = Some (tf_exchange_order_id t))"
  shows "db_step i db db'"
proof -
  from assms(7) obtain db2 where u: "update_fact f' db1 = Inr db2"
    and a: "append_action i (of_last_fact_version f') k d now p db2 = Inr db'" by auto
  from a obtain act where act: "af_intent_id act = i" "af_fact_version act = of_last_fact_version f'"
    "af_action act = k" "af_fact_id act = versioned_id i (of_last_fact_version f')" "db' = db2\<lparr>od_actions := od_actions db2 @ [act]\<rparr>" by (rule append_action_ok)
  have "of_intent_id f' = i"
    using order_step_frame(1)[OF assms(2)] lookup_row_SomeD[OF assms(1)] by simp
  then show ?thesis
    using db_step.changed[OF assms(1,2) _ assms(8,9) act(1-4)] update_fact_ok[OF u] act assms(3-6)
    by auto
qed

lemma ensure_intent_step: "db_step i db (snd (ensure_intent core i now db))"
  by (auto simp: ensure_intent_def commit_and_load_db then_do_def
      intro: db_step.stay db_step.created dest: find_SomeD split: sum.splits option.splits)

lemma commit_step:
  "(\<And>db'. body = Inr db' \<Longrightarrow> db_step i db db') \<Longrightarrow> db_step i db (snd (commit_and_load core i db body))"
  by (auto simp: commit_and_load_db db_step.stay split: sum.splits)

lemmas order_step_bumped = order_step.intros[unfolded bump_def, simplified]

text \<open>The form the calls use it in: the two statements as facts, no trade added.\<close>

lemma finish_step:
  assumes "update_fact f' db1 = Inr db2" "append_action i v k d now p db2 = Inr db'"
    and "lock_fact i db = Inr f" "order_step f k [] f'" "v = of_last_fact_version f + 1"
    and "db1 = db\<lparr>od_investigations := invs\<rparr>" "k \<notin> {TradeDuplicate, TradeConflict}"
  shows "db_step i db db'"
  by (rule update_append_step[of i db f k "[]" f' db1 d now p])
    (use assms order_step_frame(6)[OF assms(4)] in \<open>simp_all add: lock_fact_ok_iff\<close>)

lemma same_investigations: "db = db\<lparr>od_investigations := od_investigations db\<rparr>"
  by simp

lemma submit_started_step: "db_step i db (snd (submit_started core i digest now db))"
  unfolding submit_started_def
  by (rule commit_step, clarsimp simp: Let_def split: if_splits)
    (erule (2) finish_step[OF _ _ _ _ _ same_investigations], auto intro: order_step_bumped)

lemma submit_outcome_step:
  assumes "submit_outcome r = Inr (st, act, pl, oid, err)" "of_submission_status f = InFlight"
  shows "order_step f act [] (f\<lparr>of_submission_status := st,
      of_exchange_order_id := coalesce oid (of_exchange_order_id f), of_last_error := err,
      of_last_fact_version := of_last_fact_version f + 1, of_updated_at_ms := n\<rparr>)"
    "act \<notin> {TradeDuplicate, TradeConflict}"
  using assms by (cases r; auto simp: submit_outcome_def coalesce_def intro: order_step_bumped)+

lemma submit_result_step: "db_step i db (snd (submit_result core i r now db))"
  unfolding submit_result_def
  by (rule commit_step, clarsimp simp: Let_def split: if_splits)
    (erule (2) finish_step[OF _ _ _ _ _ same_investigations], auto dest: submit_outcome_step)

lemma not_found_step:
  assumes "of_submission_status f = Unknown"
  shows "order_step f QueryNotFound [] (f\<lparr>of_submission_status := Unknown,
    of_last_fact_version := of_last_fact_version f + 1, of_updated_at_ms := n\<rparr>)"
proof -
  have "f\<lparr>of_submission_status := Unknown\<rparr> = f" using assms by (cases f) simp
  then show ?thesis using order_step.not_found[OF assms, of n] by (simp add: bump_def)
qed

lemma query_result_step: "db_step i db (snd (query_result core i r now db))"
  unfolding query_result_def
  by (rule commit_step, cases r; clarsimp simp: Let_def coalesce_def split: if_splits)
    (erule (2) finish_step, auto intro: order_step_bumped not_found_step)+

lemma cancel_requested_step: "db_step i db (snd (cancel_requested core i now db))"
  unfolding cancel_requested_def
  by (rule commit_step, auto simp: Let_def split: if_splits)
    (erule (2) finish_step[OF _ _ _ _ _ same_investigations], auto intro: order_step_bumped)+

lemma cancel_result_step: "db_step i db (snd (cancel_result core i r now db))"
  unfolding cancel_result_def
  by (rule commit_step, cases r; auto simp: Let_def split: if_splits)
    (erule (2) finish_step[OF _ _ _ _ _ same_investigations], auto intro: order_step_bumped)+

lemma find_same_trade_None:
  "find (same_trade t) ts = None \<Longrightarrow> (ti_venue t, ti_exchange_order_id t, ti_trade_id t) \<notin> trade_key ` set ts"
  by (auto simp: find_None_iff same_trade_def trade_key_def)

lemma record_known_trade_step:
  assumes "record_known_trade i t digest same f now db = Inr db'" "lock_fact i db = Inr f"
    and "of_exchange_order_id f = Some (ti_exchange_order_id t)" "of_venue f = ti_venue t"
    and "old \<in> set (od_trades db)" "same_trade t old"
  shows "db_step i db db'"
proof -
  let ?k = "if same then TradeDuplicate else TradeConflict"
  let ?f' = "if same then f\<lparr>of_last_fact_version := of_last_fact_version f + 1, of_updated_at_ms := now\<rparr>
     else f\<lparr>of_reconciliation_status := Conflict, of_last_fact_version := of_last_fact_version f + 1,
       of_updated_at_ms := now\<rparr>"
  have step: "order_step f ?k [] ?f'" using assms(3) by (auto intro: order_step_bumped)
  from assms(1) obtain db1 p where a: "append_action i (of_last_fact_version f + 1) ?k None now p db = Inr db1"
    and u: "update_fact ?f' db1 = Inr db'" by (auto simp: record_known_trade_def Let_def)
  from a obtain act where act: "af_intent_id act = i" "af_fact_version act = of_last_fact_version f + 1"
    "af_action act = ?k" "af_fact_id act = versioned_id i (of_last_fact_version f + 1)" "db1 = db\<lparr>od_actions := od_actions db @ [act]\<rparr>" by (rule append_action_ok)
  have id: "of_intent_id ?f' = i" "of_last_fact_version ?f' = of_last_fact_version f + 1"
    using lock_fact_id[OF assms(2)] by simp_all
  have "\<exists>t \<in> set (od_trades db). tf_venue t = of_venue f \<and> of_exchange_order_id f = Some (tf_exchange_order_id t)"
    using assms(3-6) by (auto simp: same_trade_def)
  then show ?thesis
    using update_fact_ok[OF u] act id assms(2)
    by (intro db_step.changed[OF _ step, of i db act db']) (auto simp: lock_fact_ok_iff)
qed

lemma record_new_trade_step:
  assumes "record_new_trade i t digest f now db = Inr db'" "lock_fact i db = Inr f"
    and "of_exchange_order_id f = Some (ti_exchange_order_id t)" "of_venue f = ti_venue t"
    and "find (same_trade t) (od_trades db) = None" "0 < ti_quantity t"
  shows "db_step i db db'"
proof -
  from assms(1) obtain occ where occ: "to_i64 (ti_occurred_at_ms t) = Inr occ"
    by (auto simp: record_new_trade_def)
  define tf where "tf = \<lparr>tf_venue = ti_venue t, tf_exchange_order_id = ti_exchange_order_id t,
    tf_trade_id = ti_trade_id t, tf_intent_id = i, tf_trade_digest = digest,
    tf_quantity = ti_quantity t, tf_price = ti_price t, tf_fee_asset = ti_fee_asset t,
    tf_fee_amount = ti_fee_amount t, tf_source_sequence = sint (ti_source_sequence t),
    tf_occurred_at_ms = occ\<rparr>"
  define f' where "f' = bump now (f\<lparr>of_filled_quantity := of_filled_quantity f + tf_quantity tf,
    of_reconciliation_status := (if of_filled_quantity f + tf_quantity tf \<le> of_ordered_quantity f
      then Matched else Conflict)\<rparr>)"
  have step: "order_step f TradeRecorded [tf] f'"
    unfolding f'_def using assms(3,4,6) lock_fact_id[OF assms(2)]
    by (intro order_step.recorded) (simp_all add: tf_def)
  from assms(1) occ obtain p where
    "then_do (update_fact f' (db\<lparr>od_trades := od_trades db @ [tf]\<rparr>))
      (append_action i (of_last_fact_version f') TradeRecorded None now p) = Inr db'"
    by (auto simp: record_new_trade_def Let_def f'_def tf_def bump_def split: if_splits)
  from update_append_step[OF _ step _ _ _ _ this] assms(2) find_same_trade_None[OF assms(5)]
  show ?thesis by (simp add: lock_fact_ok_iff trade_key_def tf_def)
qed

lemma record_trade_step: "db_step i db (snd (record_trade d core i t now db))"
proof (cases "then_do (validate_trade t) (\<lambda>_.
           then_do (lock_fact i db) (\<lambda>current.
           if of_exchange_order_id current \<noteq> Some (ti_exchange_order_id t) \<or> of_venue current \<noteq> ti_venue t
           then Inl (Bail ''trade does not match the durable order identity'')
           else then_do (to_i64 now) (\<lambda>now. Inr (current, now))))")
  case (Inl e)
  then show ?thesis by (simp add: record_trade_def db_step.stay)
next
  case (Inr p)
  obtain f n where p: "p = (f, n)" by (cases p)
  from Inr have f: "lock_fact i db = Inr f" and idn: "of_exchange_order_id f = Some (ti_exchange_order_id t)"
    "of_venue f = ti_venue t" and q: "0 < ti_quantity t"
    by (auto simp: p validate_trade_def split: if_splits)
  show ?thesis
  proof (cases "find (same_trade t) (od_trades db)")
    case None
    then show ?thesis unfolding record_trade_def Inr p
      by (simp, intro commit_step) (erule record_new_trade_step[OF _ f idn None q])
  next
    case (Some old)
    then have "old \<in> set (od_trades db)" "same_trade t old" by (auto dest: find_SomeD)
    note known = record_known_trade_step[OF _ f idn this]
    then show ?thesis unfolding record_trade_def Inr p using Some
      by (auto simp: Let_def db_step.stay split: sum.split dest: known)
  qed
qed

lemma run_call_step: "db_step i db (snd (run_call d core i c now db))"
  by (cases c) (simp_all add: ensure_intent_step submit_started_step submit_result_step
      query_result_step cancel_requested_step cancel_result_step record_trade_step)

section \<open>The invariant of the order tables\<close>

definition actions_of :: "string \<Rightarrow> order_db \<Rightarrow> action_fact list" where
  "actions_of i db = filter (\<lambda>a. af_intent_id a = i) (od_actions db)"

definition trades_of :: "string \<Rightarrow> order_db \<Rightarrow> trade_fact list" where
  "trades_of i db = filter (\<lambda>t. tf_intent_id t = i) (od_trades db)"

definition log_inv :: "order_fact \<Rightarrow> action_fact list \<Rightarrow> bool" where
  "log_inv f acts \<longleftrightarrow> 0 \<le> of_last_fact_version f \<and> map af_fact_version acts = [1..of_last_fact_version f]
     \<and> (\<forall>a \<in> set acts. af_fact_id a = versioned_id (of_intent_id f) (af_fact_version a))"

definition status_inv :: "order_fact \<Rightarrow> bool" where
  "status_inv f \<longleftrightarrow> (of_exchange_order_id f \<noteq> None \<longleftrightarrow> of_submission_status f = Accepted)
     \<and> (of_cancel_status f \<noteq> CancelNone \<longrightarrow> of_submission_status f = Accepted)"

definition fill_inv :: "order_fact \<Rightarrow> trade_fact list \<Rightarrow> bool" where
  "fill_inv f ts \<longleftrightarrow> of_filled_quantity f = sum_list (map tf_quantity ts)
     \<and> (of_reconciliation_status f = Pending \<longleftrightarrow> ts = [])
     \<and> (\<forall>t \<in> set ts. tf_venue t = of_venue f \<and> of_exchange_order_id f = Some (tf_exchange_order_id t)
          \<and> 0 < tf_quantity t)"

definition fact_inv :: "order_db \<Rightarrow> order_fact \<Rightarrow> bool" where
  "fact_inv db f \<longleftrightarrow> log_inv f (actions_of (of_intent_id f) db) \<and> status_inv f
     \<and> fill_inv f (trades_of (of_intent_id f) db)"

definition owned :: "order_db \<Rightarrow> bool" where
  "owned db \<longleftrightarrow> (\<forall>t \<in> set (od_trades db). tf_intent_id t \<in> of_intent_id ` set (od_facts db))
     \<and> (\<forall>a \<in> set (od_actions db). af_intent_id a \<in> of_intent_id ` set (od_facts db))"

definition order_inv :: "order_db \<Rightarrow> bool" where
  "order_inv db \<longleftrightarrow> table_ok of_intent_id (od_facts db) \<and> (\<forall>f \<in> set (od_facts db). fact_inv db f)
     \<and> distinct (map trade_key (od_trades db)) \<and> owned db
     \<and> (\<forall>f \<in> set (od_facts db). \<forall>g \<in> set (od_facts db). of_intent_id g \<noteq> of_intent_id f \<longrightarrow> \<not> same_identity f g)"

lemma order_step_status: "order_step f k ts f' \<Longrightarrow> status_inv f \<Longrightarrow> status_inv f'"
  by (induction rule: order_step.induct) (auto simp: status_inv_def bump_def)

lemma order_step_log:
  assumes "order_step f k ts f'" "log_inv f acts" "af_fact_version a = of_last_fact_version f'"
    and "af_fact_id a = versioned_id (of_intent_id f) (of_last_fact_version f')"
  shows "log_inv f' (acts @ [a])"
  using assms order_step_frame(1,6)[OF assms(1)] upto_rec2[of 1 "of_last_fact_version f'"]
  by (simp add: log_inv_def)

lemma order_step_fill:
  assumes "order_step f k ts f'" "status_inv f" "fill_inv f old"
    and "k \<in> {TradeDuplicate, TradeConflict} \<longrightarrow> old \<noteq> []"
  shows "fill_inv f' (old @ ts)"
  using assms
  by (induction rule: order_step.induct) (auto simp: fill_inv_def bump_def status_inv_def)

lemma order_step_identity:
  assumes "order_step f k ts f'" "status_inv f" "of_exchange_order_id f \<noteq> None"
  shows "of_exchange_order_id f' = of_exchange_order_id f"
  using assms by (induction rule: order_step.induct) (auto simp: status_inv_def bump_def)

lemma order_step_trades: "order_step f k ts f' \<Longrightarrow> (\<forall>t \<in> set ts. tf_intent_id t = of_intent_id f) \<and> distinct ts \<and> length ts \<le> 1"
  by (induction rule: order_step.induct) auto

lemma known_trade_owner:
  assumes "order_inv db" "f \<in> set (od_facts db)" "t \<in> set (od_trades db)"
    and "tf_venue t = of_venue f" "of_exchange_order_id f = Some (tf_exchange_order_id t)"
  shows "t \<in> set (trades_of (of_intent_id f) db)"
proof -
  from assms(1,3) obtain g where g: "g \<in> set (od_facts db)" "tf_intent_id t = of_intent_id g"
    by (auto simp: order_inv_def owned_def)
  then have "t \<in> set (trades_of (of_intent_id g) db)" using assms(3) by (simp add: trades_of_def)
  then have "tf_venue t = of_venue g" "of_exchange_order_id g = Some (tf_exchange_order_id t)"
    using assms(1) g(1) by (auto simp: order_inv_def fact_inv_def fill_inv_def)
  then have "same_identity f g" using assms(4,5) by (simp add: same_identity_def)
  then have "of_intent_id g = of_intent_id f" using assms(1,2) g(1) by (auto simp: order_inv_def)
  then show ?thesis using \<open>t \<in> set (trades_of (of_intent_id g) db)\<close> by simp
qed

lemma changed_inv:
  assumes inv: "order_inv db" and f: "lookup_row of_intent_id i (od_facts db) = Some f"
    and step: "order_step f k ts f'"
    and uniq: "\<forall>g \<in> set (od_facts db). of_intent_id g \<noteq> i \<longrightarrow> \<not> same_identity f' g"
    and fresh: "\<forall>t \<in> set ts. trade_key t \<notin> trade_key ` set (od_trades db)"
    and known: "k \<in> {TradeDuplicate, TradeConflict} \<longrightarrow> (\<exists>t \<in> set (od_trades db).
       tf_venue t = of_venue f \<and> of_exchange_order_id f = Some (tf_exchange_order_id t))"
    and a: "af_intent_id a = i" "af_fact_version a = of_last_fact_version f'"
      "af_fact_id a = versioned_id i (of_last_fact_version f')"
    and db': "od_facts db' = put_row of_intent_id f' (od_facts db)"
      "od_actions db' = od_actions db @ [a]" "od_trades db' = od_trades db @ ts"
  shows "order_inv db'"
proof -
  have fm: "f \<in> set (od_facts db)" "of_intent_id f = i" using lookup_row_SomeD[OF f] by auto
  have ok: "table_ok of_intent_id (od_facts db)" and fi: "fact_inv db f" using inv fm by (auto simp: order_inv_def)
  have id': "of_intent_id f' = i" using order_step_frame(1)[OF step] fm by simp
  have facts: "set (od_facts db') = insert f' {g \<in> set (od_facts db). of_intent_id g \<noteq> i}"
    using set_put_row[OF ok, of f' f] f id' by (simp add: db')
  have ts: "\<forall>t \<in> set ts. tf_intent_id t = i" "distinct (map trade_key ts)"
    using order_step_trades[OF step] fm by (cases ts; auto)+
  have "k \<in> {TradeDuplicate, TradeConflict} \<longrightarrow> trades_of i db \<noteq> []"
    using known known_trade_owner[OF inv fm(1)] fm(2) by force
  then have "fact_inv db' f'"
    using order_step_status[OF step] order_step_log[OF step _ a(2), unfolded fm(2), OF _ a(3)] order_step_fill[OF step] fi id' a(1) fm(2) ts(1)
    by (simp add: fact_inv_def actions_of_def trades_of_def db' filter_id_conv)
  moreover have "fact_inv db' g" if "g \<in> set (od_facts db)" "of_intent_id g \<noteq> i" for g
  proof -
    have "trades_of (of_intent_id g) db' = trades_of (of_intent_id g) db"
      "actions_of (of_intent_id g) db' = actions_of (of_intent_id g) db"
      using that ts(1) a(1) by (auto simp: trades_of_def actions_of_def db' filter_empty_conv)
    then show ?thesis using inv that by (auto simp: order_inv_def fact_inv_def)
  qed
  moreover have "owned db'"
  proof -
    have "of_intent_id ` set (od_facts db') = of_intent_id ` set (od_facts db)"
      using keys_put_row[of of_intent_id f' "od_facts db"] by (metis db'(1) set_map)
    moreover have "i \<in> of_intent_id ` set (od_facts db)" using fm by blast
    ultimately show ?thesis using inv ts(1) a(1) by (auto simp: order_inv_def owned_def db'(2,3))
  qed
  moreover have "distinct (map trade_key (od_trades db'))"
    using inv fresh ts(2) by (auto simp: order_inv_def db'(3))
  ultimately show ?thesis
    using inv ok uniq facts id' by (auto simp: order_inv_def db'(1) same_identity_def)
qed

lemma created_inv:
  assumes "order_inv db" "lookup_row of_intent_id (of_intent_id f) (od_facts db) = None"
    and "of_submission_status f = NotSent" "of_cancel_status f = CancelNone"
    "of_reconciliation_status f = Pending" "of_exchange_order_id f = None"
    "of_filled_quantity f = 0" "of_last_fact_version f = 0"
  shows "order_inv (db\<lparr>od_facts := od_facts db @ [f]\<rparr>)"
proof -
  have absent: "of_intent_id f \<notin> of_intent_id ` set (od_facts db)"
    using assms(2) by (simp add: lookup_row_None_iff)
  then have "actions_of (of_intent_id f) db = []" "trades_of (of_intent_id f) db = []"
    using assms(1) unfolding order_inv_def owned_def actions_of_def trades_of_def filter_empty_conv by metis+
  then have "fact_inv db f" using assms(3-) by (simp add: fact_inv_def log_inv_def status_inv_def fill_inv_def)
  then show ?thesis using assms
    by (auto simp: order_inv_def owned_def fact_inv_def actions_of_def trades_of_def same_identity_def
        table_ok_append_row)
qed

lemma db_step_inv: "db_step i db db' \<Longrightarrow> order_inv db \<Longrightarrow> order_inv db'"
  by (induction rule: db_step.induct) (auto intro: changed_inv created_inv)

text \<open>Databases reached by the calls of any cores, and by plans that add intents.\<close>

inductive order_reachable :: "(trade_input \<Rightarrow> string) \<Rightarrow> order_db \<Rightarrow> bool" for d where
  start: "order_reachable d \<lparr>od_intents = is, od_facts = [], od_actions = [], od_investigations = [],
    od_trades = []\<rparr>"
| planned: "order_reachable d db \<Longrightarrow> order_reachable d (db\<lparr>od_intents := od_intents db @ [i]\<rparr>)"
| called: "order_reachable d db \<Longrightarrow> order_reachable d (snd (run_call d core i c now db))"

lemma order_reachable_inv: "order_reachable d db \<Longrightarrow> order_inv db"
proof (induction rule: order_reachable.induct)
  case (planned db i)
  then show ?case
    by (simp add: order_inv_def owned_def fact_inv_def actions_of_def trades_of_def)
next
  case (called db core i c now)
  then show ?case using run_call_step db_step_inv by blast
qed (simp add: order_inv_def owned_def)

section \<open>Properties\<close>

text \<open>What one call leaves of a fact, whichever core makes it and whichever order it names.\<close>

lemma order_step_monotone:
  assumes "order_step f k ts f'" "status_inv f"
  shows "of_filled_quantity f \<le> of_filled_quantity f'" "of_submission_status f \<noteq> DefinitelyRejected"
    "of_cancel_status f = CancelConfirmed \<Longrightarrow> of_cancel_status f' = CancelConfirmed"
    "of_submission_status f = Accepted \<Longrightarrow> of_submission_status f' = Accepted"
  using assms by (induction rule: order_step.induct) (auto simp: status_inv_def bump_def)

lemma db_step_fact:
  assumes "db_step i db db'" "order_inv db" "lookup_row of_intent_id j (od_facts db) = Some f"
  obtains f' where "lookup_row of_intent_id j (od_facts db') = Some f'"
    "f' = f \<or> (j = i \<and> (\<exists>k ts. order_step f k ts f'))"
  using assms
proof (induction rule: db_step.induct)
  case (changed db g k ts g' a db')
  have "of_intent_id g' = i" using order_step_frame(1)[OF changed(2)] lookup_row_SomeD[OF changed(1)] by simp
  then show ?case using changed by (cases "j = i") (auto simp: lookup_put_row)
qed (auto simp: lookup_row_append)

text \<open>C5. In every database the calls of any cores can reach, the filled quantity of an order is the
  sum of its distinct trades, its actions are numbered 1 to its version without a gap, it has an
  exchange id exactly when it is accepted, and it is pending exactly while it has no trade.\<close>

theorem order_tables_consistent:
  assumes "order_reachable d db" "f \<in> set (od_facts db)"
  shows "of_filled_quantity f = sum_list (map tf_quantity (trades_of (of_intent_id f) db))
    \<and> distinct (map trade_key (trades_of (of_intent_id f) db))
    \<and> map af_fact_version (actions_of (of_intent_id f) db) = [1..of_last_fact_version f]
    \<and> (of_exchange_order_id f \<noteq> None \<longleftrightarrow> of_submission_status f = Accepted)
    \<and> (of_reconciliation_status f = Pending \<longleftrightarrow> trades_of (of_intent_id f) db = [])"
proof -
  have inv: "order_inv db" using assms(1) by (rule order_reachable_inv)
  then have "distinct (map trade_key (trades_of (of_intent_id f) db))"
    by (simp add: order_inv_def trades_of_def distinct_map_filter)
  with inv assms(2) show ?thesis
    by (auto simp: order_inv_def fact_inv_def log_inv_def status_inv_def fill_inv_def)
qed

text \<open>No call undoes what an order has reached: a rejected order never changes again, an accepted
  one stays accepted under its exchange id, a confirmed cancellation stays confirmed, the
  filled quantity never falls, and other orders are not touched.\<close>

theorem order_calls_monotone:
  assumes "order_reachable d db" "lookup_row of_intent_id j (od_facts db) = Some f"
  shows "\<exists>f'. lookup_row of_intent_id j (od_facts (snd (run_call d core i c now db))) = Some f'
    \<and> (j \<noteq> i \<or> of_submission_status f = DefinitelyRejected \<longrightarrow> f' = f)
    \<and> (of_submission_status f = Accepted \<longrightarrow> of_submission_status f' = Accepted
         \<and> of_exchange_order_id f' = of_exchange_order_id f)
    \<and> (of_cancel_status f = CancelConfirmed \<longrightarrow> of_cancel_status f' = CancelConfirmed)
    \<and> of_filled_quantity f \<le> of_filled_quantity f'
    \<and> of_last_fact_version f' \<in> {of_last_fact_version f, of_last_fact_version f + 1}"
proof -
  have inv: "order_inv db" using assms(1) by (rule order_reachable_inv)
  then have st: "status_inv f" using lookup_row_SomeD[OF assms(2)] by (auto simp: order_inv_def fact_inv_def)
  obtain f' where f': "lookup_row of_intent_id j (od_facts (snd (run_call d core i c now db))) = Some f'"
    "f' = f \<or> (j = i \<and> (\<exists>k ts. order_step f k ts f'))"
    using db_step_fact[OF run_call_step inv assms(2)] .
  from f'(2) show ?thesis
  proof
    assume "f' = f"
    with f'(1) show ?thesis by auto
  next
    assume "j = i \<and> (\<exists>k ts. order_step f k ts f')"
    then obtain k ts where s: "j = i" "order_step f k ts f'" by blast
    have "of_submission_status f = Accepted \<Longrightarrow> of_exchange_order_id f' = of_exchange_order_id f"
      using order_step_identity[OF s(2) st] st by (auto simp: status_inv_def)
    with f'(1) s(1) order_step_monotone[OF s(2) st] order_step_frame(6)[OF s(2)] show ?thesis by auto
  qed
qed

text \<open>The append of an action never meets an existing one, and a change that keeps the exchange id
  never meets another order's.\<close>

interpretation actions: numbered_log af_intent_id af_fact_version af_fact_id "\<lambda>i. i"
  by unfold_locales simp

lemma log_numbered:
  "fact_inv db f \<Longrightarrow> actions.numbered (of_intent_id f) (of_last_fact_version f) (od_actions db)"
  by (simp add: fact_inv_def log_inv_def actions.numbered_def actions.entries_def actions_of_def)

lemma append_action_succeeds:
  assumes "order_inv db" "lookup_row of_intent_id i (od_facts db) = Some f"
  shows "is_ok (append_action i (of_last_fact_version f + 1) k d now p db)"
proof -
  have "\<exists>v. actions.numbered (af_intent_id a) v (od_actions db)" if "a \<in> set (od_actions db)" for a
    using assms(1) that log_numbered by (fastforce simp: order_inv_def owned_def)
  moreover have "actions.numbered i (of_last_fact_version f) (od_actions db)"
    using assms(1) lookup_row_SomeD[OF assms(2)] log_numbered by (auto simp: order_inv_def)
  ultimately have "\<forall>a \<in> set (od_actions db). af_fact_id a \<noteq> versioned_id i (of_last_fact_version f + 1)
      \<and> \<not> (af_intent_id a = i \<and> af_fact_version a = of_last_fact_version f + 1)"
    using actions.next_free[of "od_actions db" i "of_last_fact_version f"] by blast
  then show ?thesis by (auto simp: append_action_def)
qed

lemma update_fact_succeeds:
  assumes "order_inv db" "lookup_row of_intent_id i (od_facts db) = Some f"
    and "of_intent_id f' = i" "of_venue f' = of_venue f" "of_exchange_order_id f' = of_exchange_order_id f"
    and "od_facts db1 = od_facts db"
  shows "update_fact f' db1 = Inr (db1\<lparr>od_facts := put_row of_intent_id f' (od_facts db)\<rparr>)"
proof -
  have "f \<in> set (od_facts db)" "of_intent_id f = i" using lookup_row_SomeD[OF assms(2)] by auto
  then have "\<forall>g \<in> set (od_facts db). of_intent_id g \<noteq> i \<longrightarrow> \<not> same_identity f g"
    using assms(1) unfolding order_inv_def by metis
  then show ?thesis using assms(3-6) by (auto simp: update_fact_def same_identity_def)
qed

text \<open>C6. An order whose submission is unknown stays unknown until an investigation finds it at the
  exchange: no other call, and no investigation without a result, resolves it.\<close>

theorem unknown_resolved_only_by_query:
  assumes "order_reachable d db" "lookup_row of_intent_id i (od_facts db) = Some f"
    and "of_submission_status f = Unknown" "\<forall>q x. c \<noteq> QueryReport (Found q x)"
  shows "\<exists>f'. lookup_row of_intent_id i (od_facts (snd (run_call d core i c now db))) = Some f'
    \<and> of_submission_status f' = Unknown \<and> of_filled_quantity f' = of_filled_quantity f"
proof -
  have "order_inv db" using assms(1) by (rule order_reachable_inv)
  then have "status_inv f" using lookup_row_SomeD[OF assms(2)] by (auto simp: order_inv_def fact_inv_def)
  then have none: "of_exchange_order_id f = None" using assms(3) by (auto simp: status_inv_def)
  obtain f' where f': "lookup_row of_intent_id i (od_facts (snd (run_call d core i c now db))) = Some f'"
    "f' = f \<or> (i = i \<and> (\<exists>k ts. order_step f k ts f'))"
    using db_step_fact[OF run_call_step \<open>order_inv db\<close> assms(2)] .
  show ?thesis
  proof (cases "\<exists>q v. c = QueryReport (NotFound q v)")
    case False
    have "c \<noteq> QueryReport r" for r using False assms(4) by (cases r) auto
    moreover have "lock_fact i db = Inr f" using assms(2) by (simp add: lock_fact_ok_iff)
    ultimately have "od_facts (snd (run_call d core i c now db)) = od_facts db"
      using assms(2,3) none
      by (cases c)
        (auto simp: ensure_intent_def submit_started_def submit_result_def cancel_requested_def
          cancel_result_def record_trade_def commit_and_load_db then_do_def
          split: sum.splits option.splits)
    then show ?thesis using assms(2,3) by simp
  next
    case True
    then obtain q v where c: "c = QueryReport (NotFound q v)" by blast
    have "of_submission_status f' = Unknown \<and> of_filled_quantity f' = of_filled_quantity f"
      using f'(1) assms(2,3) lookup_row_SomeD[OF assms(2)] unfolding c
      by (auto simp: query_result_def commit_and_load_db lock_fact_def Let_def update_fact_def
          append_action_def lookup_put_row split: sum.splits if_splits dest!: then_do_eq_Inr[THEN iffD1])
    with f'(1) show ?thesis by blast
  qed
qed

text \<open>A trade whose identity is already stored is never stored twice. With the same content the
  call succeeds and changes neither the fill nor the reconciliation; with another content it
  fails, and the conflict is committed.\<close>

theorem known_trade_outcome:
  assumes "order_reachable d db" "validate_trade t = Inr ()"
    and "lookup_row of_intent_id i (od_facts db) = Some f" "find (same_trade t) (od_trades db) = Some old"
    and "of_exchange_order_id f = Some (ti_exchange_order_id t)" "of_venue f = ti_venue t"
    and "of_account_id f = co_account_id core" "of_instrument_id f = co_instrument_id core"
    and "to_i64 now = Inr n"
  shows "\<exists>r db' f'. record_trade d core i t now db = (r, db') \<and> od_trades db' = od_trades db
    \<and> lookup_row of_intent_id i (od_facts db') = Some f'
    \<and> of_filled_quantity f' = of_filled_quantity f
    \<and> (tf_trade_digest old = d t \<longrightarrow> r = Inr f' \<and> of_reconciliation_status f' = of_reconciliation_status f)
    \<and> (tf_trade_digest old \<noteq> d t \<longrightarrow> \<not> is_ok r \<and> of_reconciliation_status f' = Conflict)"
proof -
  have inv: "order_inv db" using assms(1) by (rule order_reachable_inv)
  have fid: "of_intent_id f = i" using lookup_row_SomeD[OF assms(3)] by simp
  define same where "same = (tf_trade_digest old = d t)"
  define f' where "f' = (if same
     then f\<lparr>of_last_fact_version := of_last_fact_version f + 1, of_updated_at_ms := n\<rparr>
     else f\<lparr>of_reconciliation_status := Conflict, of_last_fact_version := of_last_fact_version f + 1,
       of_updated_at_ms := n\<rparr>)"
  obtain db1 where a: "append_action i (of_last_fact_version f + 1) (if same then TradeDuplicate else TradeConflict)
      None n [(''trade_id'', PText (ti_trade_id t)), (''digest'', PText (d t))] db = Inr db1"
    using append_action_succeeds[OF inv assms(3), of "if same then TradeDuplicate else TradeConflict" None n
        "[(''trade_id'', PText (ti_trade_id t)), (''digest'', PText (d t))]"]
    unfolding is_ok_iff by blast
  then have db1: "od_facts db1 = od_facts db" "od_trades db1 = od_trades db"
    by (auto elim!: append_action_ok)
  define db2 where "db2 = db1\<lparr>od_facts := put_row of_intent_id f' (od_facts db)\<rparr>"
  have u: "update_fact f' db1 = Inr db2"
    unfolding db2_def by (rule update_fact_succeeds[OF inv assms(3)]) (simp_all add: f'_def fid db1)
  have k: "record_known_trade i t (d t) same f n db = Inr db2"
    using a u by (simp add: record_known_trade_def Let_def f'_def)
  have l: "lookup_row of_intent_id i (od_facts db2) = Some f'"
    using assms(3) fid by (simp add: db2_def lookup_put_row f'_def)
  then have "load_order core i db2 = Inr f'"
    using assms(7,8) by (simp add: load_order_def f'_def)
  then have "record_trade d core i t now db = (if same then Inr f'
      else Inl (Bail ''trade identity was reused with different content''), db2)"
    using assms(2-6,9) k by (simp add: record_trade_def lock_fact_def Let_def same_def[symmetric])
  then show ?thesis using l db1 by (auto simp: db2_def f'_def same_def)
qed

text \<open>A core does not check that the order belongs to its own domain before it writes: started
  through a core of another account, a submission is committed although the call reports an error.\<close>

theorem foreign_core_commits:
  assumes "order_reachable d db" "lookup_row of_intent_id i (od_facts db) = Some f"
    and "of_submission_status f = NotSent" "of_account_id f \<noteq> co_account_id core"
    and "validate_id i = Inr ()" "validate_digest digest = Inr ()" "to_i64 now = Inr n"
  shows "\<exists>db' f'. submit_started core i digest now db = (Inl (Bail ''failed to load B-02 order fact''), db')
    \<and> lookup_row of_intent_id i (od_facts db') = Some f' \<and> of_submission_status f' = InFlight"
proof -
  have inv: "order_inv db" using assms(1) by (rule order_reachable_inv)
  have fid: "of_intent_id f = i" using lookup_row_SomeD[OF assms(2)] by simp
  define f' where "f' = f\<lparr>of_submission_status := InFlight,
     of_last_fact_version := of_last_fact_version f + 1, of_updated_at_ms := n\<rparr>"
  have u: "update_fact f' db = Inr (db\<lparr>od_facts := put_row of_intent_id f' (od_facts db)\<rparr>)"
    by (rule update_fact_succeeds[OF inv assms(2)]) (simp_all add: f'_def fid)
  obtain a where a: "append_action i (of_last_fact_version f + 1) SubmitStarted (Some digest) n
      [(''request_digest'', PText digest)] (db\<lparr>od_facts := put_row of_intent_id f' (od_facts db)\<rparr>)
      = Inr (db\<lparr>od_facts := put_row of_intent_id f' (od_facts db), od_actions := od_actions db @ [a]\<rparr>)"
    using append_action_succeeds[OF inv assms(2), of SubmitStarted "Some digest" n "[(''request_digest'', PText digest)]"]
    by (auto simp: append_action_def split: if_splits)
  have "lookup_row of_intent_id i (put_row of_intent_id f' (od_facts db)) = Some f'"
    using assms(2) fid by (simp add: lookup_put_row f'_def)
  then show ?thesis
    using assms(2-7) u a
    by (simp add: submit_started_def lock_fact_def commit_and_load_def load_order_def f'_def[symmetric])
      (simp add: f'_def)
qed

section \<open>Witnesses\<close>

definition sample_core :: order_core where
  "sample_core = \<lparr>co_account_id = ''main'', co_instrument_id = ''BTC''\<rparr>"

definition sample_digest :: string where
  "sample_digest = replicate 64 CHR ''0''"

definition sample_trade :: trade_input where
  "sample_trade = \<lparr>ti_venue = ''binance'', ti_exchange_order_id = ''x-1'', ti_trade_id = ''t-1'',
     ti_quantity = 1/2, ti_price = 90, ti_fee_asset = ''USDT'', ti_fee_amount = 0,
     ti_source_sequence = 1, ti_occurred_at_ms = 40\<rparr>"

definition db_0 :: order_db where
  "db_0 = \<lparr>od_intents = [\<lparr>ir_intent_id = ''i'', ir_account_id = ''main'', ir_instrument_id = ''BTC'',
     ir_venue = ''binance'', ir_quantity = 1\<rparr>], od_facts = [], od_actions = [],
     od_investigations = [], od_trades = []\<rparr>"

definition "db_1 = snd (run_call (\<lambda>_. sample_digest) sample_core ''i'' EnsureIntent 10 db_0)"
definition "db_2 = snd (run_call (\<lambda>_. sample_digest) sample_core ''i'' (SubmitStart sample_digest) 11 db_1)"
definition "db_3 = snd (run_call (\<lambda>_. sample_digest) sample_core ''i'' (SubmitReport (SubmittedUnknown ''timeout'')) 12 db_2)"
definition "db_4 = snd (run_call (\<lambda>_. sample_digest) sample_core ''i'' (QueryReport (Found ''q-1'' ''x-1'')) 13 db_3)"
definition "db_5 = snd (run_call (\<lambda>_. sample_digest) sample_core ''i'' (ReportTrade sample_trade) 14 db_4)"

lemma db_reached:
  "order_reachable (\<lambda>_. sample_digest) db_1" "order_reachable (\<lambda>_. sample_digest) db_3"
  "order_reachable (\<lambda>_. sample_digest) db_5"
  unfolding db_1_def db_2_def db_3_def db_4_def db_5_def db_0_def
  by (intro order_reachable.intros)+

lemmas id_evals = validate_id_def trim_def trim_start_def is_whitespace_def

lemma sample_digest_ok: "validate_digest sample_digest = Inr ()"
  by (simp add: validate_digest_def sample_digest_def list_all_iff is_hex_def)

lemma sample_trade_ok: "validate_trade sample_trade = Inr ()"
  by (simp add: validate_trade_def sample_trade_def id_evals)

lemmas call_evals = commit_and_load_def lock_fact_def update_fact_def append_action_def Let_def coalesce_def
  id_evals versioned_id_inj

lemma db_1_eval: "db_1 = db_0\<lparr>od_facts := [\<lparr>of_intent_id = ''i'', of_account_id = ''main'',
   of_instrument_id = ''BTC'', of_venue = ''binance'', of_ordered_quantity = 1,
   of_submission_status = NotSent, of_cancel_status = CancelNone, of_reconciliation_status = Pending,
   of_exchange_order_id = None, of_filled_quantity = 0, of_last_fact_version = 0,
   of_last_error = None, of_updated_at_ms = 10\<rparr>]\<rparr>"
  by (simp add: db_1_def ensure_intent_def db_0_def sample_core_def call_evals)

definition sample_fact :: "submission_status \<Rightarrow> string option \<Rightarrow> string option \<Rightarrow> int \<Rightarrow> int \<Rightarrow> order_fact" where
  "sample_fact st x err v t = \<lparr>of_intent_id = ''i'', of_account_id = ''main'',
   of_instrument_id = ''BTC'', of_venue = ''binance'', of_ordered_quantity = 1,
   of_submission_status = st, of_cancel_status = CancelNone, of_reconciliation_status = Pending,
   of_exchange_order_id = x, of_filled_quantity = 0, of_last_fact_version = v,
   of_last_error = err, of_updated_at_ms = t\<rparr>"

lemma db_3_eval: "\<exists>acts. db_3 = db_0\<lparr>od_facts := [sample_fact Unknown None (Some ''timeout'') 2 12], od_actions := acts\<rparr>
  \<and> (\<forall>a \<in> set acts. af_fact_id a \<in> {versioned_id ''i'' 1, versioned_id ''i'' 2} \<and> af_fact_version a \<in> {1, 2})"
  by (simp add: db_3_def db_2_def db_1_eval db_0_def submit_started_def submit_result_def
      submit_outcome_def sample_digest_ok sample_fact_def call_evals)

lemma db_4_eval: "\<exists>acts invs. db_4 = db_0\<lparr>od_facts := [sample_fact Accepted (Some ''x-1'') (Some ''timeout'') 3 13],
     od_actions := acts, od_investigations := invs\<rparr>
  \<and> (\<forall>a \<in> set acts. af_fact_id a \<in> versioned_id ''i'' ` {1, 2, 3} \<and> af_fact_version a \<in> {1, 2, 3})"
proof -
  obtain acts where db_3: "db_3 = db_0\<lparr>od_facts := [sample_fact Unknown None (Some ''timeout'') 2 12], od_actions := acts\<rparr>"
    and acts: "\<forall>a \<in> set acts. af_fact_id a \<in> {versioned_id ''i'' 1, versioned_id ''i'' 2} \<and> af_fact_version a \<in> {1, 2}"
    using db_3_eval by blast
  have "\<not> (\<exists>a \<in> set acts. af_fact_id a = versioned_id ''i'' 3 \<or> (af_intent_id a = ''i'' \<and> af_fact_version a = 3))"
    using acts by (auto simp: versioned_id_inj)
  then show ?thesis using acts
    by (simp add: db_4_def db_3 db_0_def query_result_def sample_fact_def commit_and_load_def lock_fact_def
        update_fact_def append_action_def Let_def coalesce_def id_evals) auto
qed

lemma db_5_fact: "\<exists>f tf. od_facts db_5 = [f] \<and> of_intent_id f = ''i'' \<and> of_account_id f = ''main''
  \<and> of_instrument_id f = ''BTC'' \<and> of_exchange_order_id f = Some ''x-1'' \<and> of_venue f = ''binance''
  \<and> of_submission_status f = Accepted \<and> of_filled_quantity f = 1/2
  \<and> od_trades db_5 = [tf] \<and> same_trade sample_trade tf \<and> tf_trade_digest tf = sample_digest"
proof -
  obtain acts invs where db_4: "db_4 = db_0\<lparr>od_facts := [sample_fact Accepted (Some ''x-1'') (Some ''timeout'') 3 13],
     od_actions := acts, od_investigations := invs\<rparr>"
    and acts: "\<forall>a \<in> set acts. af_fact_id a \<in> versioned_id ''i'' ` {1, 2, 3} \<and> af_fact_version a \<in> {1, 2, 3}"
    using db_4_eval by blast
  have "\<not> (\<exists>a \<in> set acts. af_fact_id a = versioned_id ''i'' 4 \<or> (af_intent_id a = ''i'' \<and> af_fact_version a = 4))"
    using acts by (auto simp: versioned_id_inj)
  moreover have "length sample_digest = 64" by (simp add: sample_digest_def)
  ultimately show ?thesis
    by (simp add: db_5_def db_4 db_0_def record_trade_def record_new_trade_def sample_fact_def
        sample_trade_ok[unfolded sample_trade_def] sample_trade_def same_trade_def
        commit_and_load_def lock_fact_def update_fact_def append_action_def Let_def)
qed

lemma db_3_fact: "\<exists>f. od_facts db_3 = [f] \<and> of_intent_id f = ''i'' \<and> of_submission_status f = Unknown"
proof -
  from db_3_eval obtain acts where eval: "db_3 = db_0\<lparr>od_facts := [sample_fact Unknown None (Some ''timeout'') 2 12], od_actions := acts\<rparr>"
    by blast
  show ?thesis unfolding eval by (simp add: sample_fact_def)
qed

lemma order_tables_consistent_witness:
  "\<exists>f \<in> set (od_facts db_5). of_submission_status f = Accepted \<and> of_filled_quantity f = 1/2
     \<and> sum_list (map tf_quantity (trades_of ''i'' db_5)) = 1/2"
proof -
  obtain f where f: "od_facts db_5 = [f]" "of_intent_id f = ''i''" "of_submission_status f = Accepted"
    "of_filled_quantity f = 1/2" using db_5_fact by blast
  then have "f \<in> set (od_facts db_5)" by simp
  with order_tables_consistent[OF db_reached(3) this] f show ?thesis by auto
qed

lemma order_calls_monotone_witness:
  "\<exists>f'. lookup_row of_intent_id ''i'' (od_facts (snd (run_call (\<lambda>_. sample_digest) sample_core ''i''
     RequestCancel 15 db_5))) = Some f' \<and> of_exchange_order_id f' = Some ''x-1''"
proof -
  obtain f where f: "lookup_row of_intent_id ''i'' (od_facts db_5) = Some f"
    "of_submission_status f = Accepted" "of_exchange_order_id f = Some ''x-1''"
    using db_5_fact by auto
  from order_calls_monotone[OF db_reached(3) f(1), of sample_core "''i''" RequestCancel 15] f(2,3)
  show ?thesis by (elim exE conjE) (intro exI conjI, assumption, simp)
qed

lemma unknown_resolved_only_by_query_witness:
  "\<exists>f'. lookup_row of_intent_id ''i'' (od_facts (snd (run_call (\<lambda>_. sample_digest) sample_core ''i''
     (QueryReport (NotFound ''q-0'' 99)) 13 db_3))) = Some f' \<and> of_submission_status f' = Unknown"
proof -
  obtain f where "lookup_row of_intent_id ''i'' (od_facts db_3) = Some f" "of_submission_status f = Unknown"
    using db_3_fact by auto
  from unknown_resolved_only_by_query[OF db_reached(2) this] show ?thesis by blast
qed

lemma known_trade_outcome_witness:
  "\<exists>f'. fst (record_trade (\<lambda>_. sample_digest) sample_core ''i'' sample_trade 20 db_5) = Inr f'
     \<and> of_filled_quantity f' = 1/2"
proof -
  obtain f tf where f: "lookup_row of_intent_id ''i'' (od_facts db_5) = Some f"
    "find (same_trade sample_trade) (od_trades db_5) = Some tf"
    "of_exchange_order_id f = Some (ti_exchange_order_id sample_trade)" "of_venue f = ti_venue sample_trade"
    "of_account_id f = co_account_id sample_core" "of_instrument_id f = co_instrument_id sample_core"
    and v: "tf_trade_digest tf = sample_digest" "of_filled_quantity f = 1/2"
    using db_5_fact by (auto simp: sample_trade_def sample_core_def)
  have "to_i64 20 = Inr 20" by simp
  from known_trade_outcome[OF db_reached(3) sample_trade_ok f this] v show ?thesis by auto
qed

lemma foreign_core_commits_witness:
  "\<not> is_ok (fst (submit_started \<lparr>co_account_id = ''other'', co_instrument_id = ''BTC''\<rparr> ''i'' sample_digest 11 db_1))
   \<and> (\<exists>f'. lookup_row of_intent_id ''i'' (od_facts (snd (submit_started
        \<lparr>co_account_id = ''other'', co_instrument_id = ''BTC''\<rparr> ''i'' sample_digest 11 db_1))) = Some f'
        \<and> of_submission_status f' = InFlight)"
proof -
  let ?core = "\<lparr>co_account_id = ''other'', co_instrument_id = ''BTC''\<rparr>"
  obtain f where f: "lookup_row of_intent_id ''i'' (od_facts db_1) = Some f" "of_submission_status f = NotSent"
    "of_account_id f \<noteq> co_account_id ?core" by (auto simp: db_1_eval)
  have "validate_id ''i'' = Inr ()" "to_i64 11 = Inr 11" by (simp_all add: id_evals)
  from foreign_core_commits[OF db_reached(1) f this(1) sample_digest_ok this(2)] show ?thesis by auto
qed

end
