(* ===== verification/Paper.thy ===== *)
theory Paper
  imports Db_Common "HOL-Library.Multiset"
begin

text \<open>
  The paper trading core, \<open>crates/core/src/paper.rs\<close> with the tables of migration 0001: observed
  balances and what is locally reserved of them, and the atomic reservation of a plan with two
  order intents, its fund reservations, risk decision and audit event. A failed transaction
  leaves the database as it was. The digest of a canonical request is a parameter, and so is
  the collation by which the database orders text.
\<close>

section \<open>Data\<close>

datatype order_side = Buy | Sell

fun side_as_str :: "order_side \<Rightarrow> string" where
  "side_as_str Buy = ''BUY''"
| "side_as_str Sell = ''SELL''"

record order_intent_input =
  oi_intent_id :: string
  oi_leg_id :: string
  oi_attempt_id :: string
  oi_client_order_id :: string
  oi_venue :: string
  oi_side :: order_side
  oi_quantity :: decimal
  oi_limit_price :: decimal

record reservation_input =
  ri_reservation_id :: string
  ri_venue :: string
  ri_asset :: string
  ri_amount :: decimal

record reserve_plan_request =
  rp_request_id :: string
  rp_plan_id :: string
  rp_account_id :: string
  rp_instrument_id :: string
  rp_opportunity_id :: string
  rp_strategy_config_version :: string
  rp_target_quantity :: decimal
  rp_max_unmatched_exposure :: decimal
  rp_intents :: "order_intent_input \<times> order_intent_input"
  rp_reservations :: "reservation_input list"

record paper_balance =
  pb_account_id :: string
  pb_venue :: string
  pb_asset :: string
  pb_observed_total :: decimal
  pb_observed_free :: decimal
  pb_local_reserved :: decimal
  pb_observed_at_ms :: int

datatype plan_state = Reserved | Aborted | PlanCompleted | PlanManualRequired

record plan_row =
  pl_plan_id :: string
  pl_request_id :: string
  pl_request_digest :: string
  pl_account_id :: string
  pl_instrument_id :: string
  pl_opportunity_id :: string
  pl_strategy_config_version :: string
  pl_target_quantity :: decimal
  pl_max_unmatched_exposure :: decimal
  pl_state :: plan_state
  pl_created_at_ms :: int

record risk_row =
  rk_plan_id :: string
  rk_input_digest :: string
  rk_decided_at_ms :: int

text \<open>A stored intent is always NOT\_SENT and a stored reservation LOCAL\_RESERVED: the columns admit nothing else.\<close>

record intent_row =
  it_plan_id :: string
  it_input :: order_intent_input
  it_created_at_ms :: int

record reservation_row =
  rv_plan_id :: string
  rv_account_id :: string
  rv_input :: reservation_input
  rv_created_at_ms :: int

record audit_row =
  au_event_id :: string
  au_aggregate_id :: string
  au_aggregate_version :: nat
  au_event_type :: string
  au_correlation_id :: string
  au_causation_id :: string
  au_occurred_at_ms :: int
  au_payload :: "(string \<times> payload_value) list"

record paper_db =
  pd_balances :: "paper_balance list"
  pd_plans :: "plan_row list"
  pd_risk :: "risk_row list"
  pd_intents :: "intent_row list"
  pd_reservations :: "reservation_row list"
  pd_audit :: "audit_row list"

record recovered_plan =
  rc_plan :: plan_row
  rc_intents :: "order_intent_input list"
  rc_reservations :: "reservation_input list"

record reserve_outcome =
  ro_idempotent_replay :: bool
  ro_plan :: recovered_plan

section \<open>Validation\<close>

definition intent_list :: "reserve_plan_request \<Rightarrow> order_intent_input list" where
  "intent_list r = [fst (rp_intents r), snd (rp_intents r)]"

fun check_intents :: "order_intent_input list \<Rightarrow> order_intent_input list \<Rightarrow> unit result" where
  "check_intents seen [] = Inr ()"
| "check_intents seen (i # is) =
     then_do (validate_ids [oi_intent_id i, oi_leg_id i, oi_attempt_id i, oi_client_order_id i, oi_venue i]) (\<lambda>_.
     if oi_intent_id i \<in> oi_intent_id ` set seen \<or> oi_attempt_id i \<in> oi_attempt_id ` set seen
       \<or> oi_client_order_id i \<in> oi_client_order_id ` set seen \<or> oi_leg_id i \<in> oi_leg_id ` set seen
     then Inl (Bail ''order intent, attempt, client order and leg IDs must each be unique'')
     else if oi_venue i \<in> oi_venue ` set seen
     then Inl (Bail ''the two PAPER order intents must use different venues'')
     else if oi_quantity i \<le> 0 \<or> oi_limit_price i \<le> 0
     then Inl (Bail ''order intent quantity and limit_price must be positive'')
     else check_intents (seen @ [i]) is)"

fun check_reservations :: "string list \<Rightarrow> reservation_input list \<Rightarrow> reservation_input list \<Rightarrow> unit result" where
  "check_reservations venues seen [] = Inr ()"
| "check_reservations venues seen (r # rs) =
     then_do (validate_ids [ri_reservation_id r, ri_venue r, ri_asset r]) (\<lambda>_.
     if ri_amount r \<le> 0 then Inl (Bail ''fund reservation amount must be positive'')
     else if ri_venue r \<notin> set venues
     then Inl (Bail ''fund reservation venue has no matching order intent'')
     else if ri_reservation_id r \<in> ri_reservation_id ` set seen
       \<or> (ri_venue r, ri_asset r) \<in> (\<lambda>x. (ri_venue x, ri_asset x)) ` set seen
     then Inl (Bail ''fund reservation IDs and venue/asset keys must be unique'')
     else check_reservations venues (seen @ [r]) rs)"

definition validate_request :: "reserve_plan_request \<Rightarrow> string \<Rightarrow> string \<Rightarrow> unit result" where
  "validate_request r writer_account writer_instrument =
     then_do (validate_ids [rp_request_id r, rp_plan_id r, rp_account_id r, rp_instrument_id r,
       rp_opportunity_id r, rp_strategy_config_version r]) (\<lambda>_.
     if rp_account_id r \<noteq> writer_account \<or> rp_instrument_id r \<noteq> writer_instrument
     then Inl (Bail ''plan request does not match the held PAPER execution domain'')
     else if rp_target_quantity r \<le> 0 then Inl (Bail ''target_quantity must be positive'')
     else if rp_max_unmatched_exposure r < 0
     then Inl (Bail ''max_unmatched_exposure must be non-negative'')
     else if rp_reservations r = [] then Inl (Bail ''at least one fund reservation is required'')
     else then_do (check_intents [] (intent_list r)) (\<lambda>_.
     if \<not> ((\<exists>i \<in> set (intent_list r). oi_side i = Buy) \<and> (\<exists>i \<in> set (intent_list r). oi_side i = Sell))
     then Inl (Bail ''PAPER plan requires one BUY intent and one SELL intent'')
     else then_do (check_reservations (map oi_venue (intent_list r)) [] (rp_reservations r)) (\<lambda>_.
     if ri_venue ` set (rp_reservations r) \<noteq> oi_venue ` set (intent_list r)
     then Inl (Bail ''each PAPER order intent venue requires a fund reservation'')
     else Inr ())))"

definition reservation_order :: "reservation_input \<Rightarrow> string \<times> string" where
  "reservation_order r = (ri_venue r, ri_asset r)"

definition canonical :: "reserve_plan_request \<Rightarrow> reserve_plan_request" where
  "canonical r = r\<lparr>rp_intents := (case rp_intents r of (a, b) \<Rightarrow>
       if oi_leg_id b < oi_leg_id a then (b, a) else (a, b)),
     rp_reservations := sort_key reservation_order (rp_reservations r)\<rparr>"

definition request_digest :: "(reserve_plan_request \<Rightarrow> string) \<Rightarrow> reserve_plan_request \<Rightarrow> string" where
  "request_digest digest r = digest (canonical r)"

section \<open>Statements\<close>

definition balance_key :: "paper_balance \<Rightarrow> string \<times> string \<times> string" where
  "balance_key b = (pb_account_id b, pb_venue b, pb_asset b)"

definition reservation_key :: "reservation_row \<Rightarrow> string \<times> string \<times> string" where
  "reservation_key v = (rv_account_id v, ri_venue (rv_input v), ri_asset (rv_input v))"

definition set_paper_balance :: "string \<Rightarrow> string \<Rightarrow> string \<Rightarrow> decimal \<Rightarrow> decimal \<Rightarrow> u64
    \<Rightarrow> paper_db \<Rightarrow> unit result \<times> paper_db" where
  "set_paper_balance account_id venue asset observed_total observed_free observed_at db =
     (case then_do (validate_ids [account_id, venue, asset]) (\<lambda>_.
        if observed_total < 0 \<or> observed_free < 0 \<or> observed_free > observed_total
        then Inl (Bail ''PAPER balance requires 0 <= observed_free <= observed_total'')
        else if observed_at = 0 then Inl (Bail ''PAPER balance observed_at_ms must be positive'')
        else then_do (to_i64 observed_at) (\<lambda>stamp.
        if \<exists>v \<in> set (pd_reservations db). reservation_key v = (account_id, venue, asset)
        then Inl (Bail ''cannot replace a PAPER balance with active local reservations'')
        else let row = \<lparr>pb_account_id = account_id, pb_venue = venue, pb_asset = asset,
               pb_observed_total = observed_total, pb_observed_free = observed_free, pb_local_reserved = 0,
               pb_observed_at_ms = stamp\<rparr>
             in Inr (db\<lparr>pd_balances :=
                  (if lookup_row balance_key (account_id, venue, asset) (pd_balances db) = None
                   then pd_balances db @ [row] else put_row balance_key row (pd_balances db))\<rparr>))) of
        Inl e \<Rightarrow> (Inl e, db) | Inr db' \<Rightarrow> (Inr (), db'))"

fun check_balances :: "string \<Rightarrow> reservation_input list \<Rightarrow> paper_db \<Rightarrow> unit result" where
  "check_balances account [] db = Inr ()"
| "check_balances account (r # rs) db =
     (case lookup_row balance_key (account, ri_venue r, ri_asset r) (pd_balances db) of
        None \<Rightarrow> Inl (Bail ''PAPER balance is missing'')
      | Some b \<Rightarrow> if pb_observed_free b - pb_local_reserved b < ri_amount r
                  then Inl (Bail ''insufficient PAPER funds'') else check_balances account rs db)"

definition lock_and_check_balances :: "reserve_plan_request \<Rightarrow> paper_db \<Rightarrow> unit result" where
  "lock_and_check_balances r db =
     check_balances (rp_account_id r) (sort_key reservation_order (rp_reservations r)) db"

definition add_reserved :: "decimal \<Rightarrow> paper_balance \<Rightarrow> paper_balance" where
  "add_reserved amount b = b\<lparr>pb_local_reserved := pb_local_reserved b + amount\<rparr>"

definition reserve_one :: "reserve_plan_request \<Rightarrow> int \<Rightarrow> reservation_input \<Rightarrow> paper_db \<Rightarrow> paper_db result" where
  "reserve_one r now x db =
     (let key = (rp_account_id r, ri_venue x, ri_asset x)
      in if is_some_and (lookup_row balance_key key (pd_balances db))
              (\<lambda>b. pb_local_reserved b + ri_amount x < 0
                 \<or> pb_local_reserved b + ri_amount x > pb_observed_free b)
         then Inl (Bail ''failed to reserve PAPER balance'')
         else if \<exists>v \<in> set (pd_reservations db). ri_reservation_id (rv_input v) = ri_reservation_id x
              \<or> (rv_plan_id v = rp_plan_id r \<and> ri_venue (rv_input v) = ri_venue x
                   \<and> ri_asset (rv_input v) = ri_asset x)
         then Inl (Bail ''failed to insert PAPER fund reservation'')
         else Inr (db\<lparr>pd_balances := update_row balance_key key (add_reserved (ri_amount x)) (pd_balances db),
                      pd_reservations := pd_reservations db @ [\<lparr>rv_plan_id = rp_plan_id r,
                        rv_account_id = rp_account_id r, rv_input = x, rv_created_at_ms = now\<rparr>]\<rparr>))"

fun reserve_all :: "reserve_plan_request \<Rightarrow> int \<Rightarrow> reservation_input list \<Rightarrow> paper_db \<Rightarrow> paper_db result" where
  "reserve_all r now [] db = Inr db"
| "reserve_all r now (x # xs) db = then_do (reserve_one r now x db) (reserve_all r now xs)"

definition insert_intent :: "reserve_plan_request \<Rightarrow> int \<Rightarrow> order_intent_input \<Rightarrow> paper_db \<Rightarrow> paper_db result" where
  "insert_intent r now i db =
     (if \<exists>x \<in> set (pd_intents db). oi_intent_id (it_input x) = oi_intent_id i
           \<or> oi_attempt_id (it_input x) = oi_attempt_id i
           \<or> oi_client_order_id (it_input x) = oi_client_order_id i
           \<or> (it_plan_id x = rp_plan_id r \<and> oi_leg_id (it_input x) = oi_leg_id i)
      then Inl (Bail ''failed to insert durable PAPER order intent'')
      else Inr (db\<lparr>pd_intents := pd_intents db @
        [\<lparr>it_plan_id = rp_plan_id r, it_input = i, it_created_at_ms = now\<rparr>]\<rparr>))"

definition insert_plan_row :: "reserve_plan_request \<Rightarrow> string \<Rightarrow> int \<Rightarrow> paper_db \<Rightarrow> paper_db result" where
  "insert_plan_row r digest now db =
     (if (\<exists>p \<in> set (pd_plans db). pl_plan_id p = rp_plan_id r \<or> pl_request_id p = rp_request_id r
            \<or> (pl_state p = Reserved \<and> pl_account_id p = rp_account_id r
                 \<and> pl_instrument_id p = rp_instrument_id r))
         \<or> length digest \<noteq> 64
      then Inl (Bail ''failed to insert PAPER execution plan'')
      else Inr (db\<lparr>pd_plans := pd_plans db @
        [\<lparr>pl_plan_id = rp_plan_id r, pl_request_id = rp_request_id r, pl_request_digest = digest,
          pl_account_id = rp_account_id r, pl_instrument_id = rp_instrument_id r,
          pl_opportunity_id = rp_opportunity_id r,
          pl_strategy_config_version = rp_strategy_config_version r,
          pl_target_quantity = rp_target_quantity r,
          pl_max_unmatched_exposure = rp_max_unmatched_exposure r, pl_state = Reserved,
          pl_created_at_ms = now\<rparr>]\<rparr>))"

definition insert_risk :: "reserve_plan_request \<Rightarrow> string \<Rightarrow> int \<Rightarrow> paper_db \<Rightarrow> paper_db result" where
  "insert_risk r digest now db =
     (if \<exists>k \<in> set (pd_risk db). rk_plan_id k = rp_plan_id r
      then Inl (Bail ''failed to insert PAPER risk decision'')
      else Inr (db\<lparr>pd_risk := pd_risk db @
        [\<lparr>rk_plan_id = rp_plan_id r, rk_input_digest = digest, rk_decided_at_ms = now\<rparr>]\<rparr>))"

definition insert_audit :: "reserve_plan_request \<Rightarrow> string \<Rightarrow> int \<Rightarrow> paper_db \<Rightarrow> paper_db result" where
  "insert_audit r digest now db =
     (if \<exists>a \<in> set (pd_audit db). au_event_id a = rp_plan_id r @ '':reserved''
           \<or> (au_aggregate_id a = rp_plan_id r \<and> au_aggregate_version a = 1)
      then Inl (Bail ''failed to insert immutable PAPER audit event'')
      else Inr (db\<lparr>pd_audit := pd_audit db @
        [\<lparr>au_event_id = rp_plan_id r @ '':reserved'', au_aggregate_id = rp_plan_id r,
          au_aggregate_version = 1, au_event_type = ''PlanReserved'',
          au_correlation_id = rp_plan_id r, au_causation_id = rp_request_id r,
          au_occurred_at_ms = now,
          au_payload = [(''account_id'', PText (rp_account_id r)),
            (''instrument_id'', PText (rp_instrument_id r)),
            (''opportunity_id'', PText (rp_opportunity_id r)), (''request_digest'', PText digest),
            (''reservation_count'', PNumber (of_nat (length (rp_reservations r)))),
            (''intent_count'', PNumber 2), (''submission_status'', PText ''NOT_SENT'')]\<rparr>]\<rparr>))"

definition insert_plan :: "reserve_plan_request \<Rightarrow> string \<Rightarrow> int \<Rightarrow> paper_db \<Rightarrow> paper_db result" where
  "insert_plan r digest now db =
     then_do (insert_plan_row r digest now db) (\<lambda>db.
     then_do (insert_risk r digest now db) (\<lambda>db.
     then_do (reserve_all r now (rp_reservations r) db) (\<lambda>db.
     then_do (insert_intent r now (fst (rp_intents r)) db) (\<lambda>db.
     then_do (insert_intent r now (snd (rp_intents r)) db) (\<lambda>db.
     insert_audit r digest now db)))))"

definition load_plan :: "(string \<Rightarrow> 'k::linorder) \<Rightarrow> string \<Rightarrow> paper_db \<Rightarrow> recovered_plan result" where
  "load_plan collation plan_id db =
     (case lookup_row pl_plan_id plan_id (pd_plans db) of
        None \<Rightarrow> Inl (Bail ''failed to load PAPER execution plan'')
      | Some p \<Rightarrow> Inr \<lparr>rc_plan = p,
          rc_intents = sort_key (\<lambda>i. collation (oi_leg_id i))
            (map it_input (filter (\<lambda>x. it_plan_id x = plan_id) (pd_intents db))),
          rc_reservations = sort_key (\<lambda>x. (collation (ri_venue x), collation (ri_asset x)))
            (map rv_input (filter (\<lambda>x. rv_plan_id x = plan_id) (pd_reservations db)))\<rparr>)"

section \<open>Operations\<close>

definition reserve_plan :: "(string \<Rightarrow> 'k::linorder) \<Rightarrow> (reserve_plan_request \<Rightarrow> string) \<Rightarrow> string \<Rightarrow> string
    \<Rightarrow> reserve_plan_request \<Rightarrow> u64 \<Rightarrow> paper_db \<Rightarrow> reserve_outcome result \<times> paper_db" where
  "reserve_plan collation digest account instrument r now db =
     (case then_do (validate_request r account instrument) (\<lambda>_. to_i64 now) of
        Inl e \<Rightarrow> (Inl e, db)
      | Inr created_at \<Rightarrow>
          (case find (\<lambda>p. pl_request_id p = rp_request_id r) (pd_plans db) of
             Some p \<Rightarrow>
               if pl_request_digest p \<noteq> request_digest digest r
               then (Inl (Bail ''request_id is already bound to different plan content''), db)
               else (then_do (load_plan collation (pl_plan_id p) db) (\<lambda>plan.
                       Inr \<lparr>ro_idempotent_replay = True, ro_plan = plan\<rparr>), db)
           | None \<Rightarrow>
               (case then_do (lock_and_check_balances r db) (\<lambda>_.
                       insert_plan r (request_digest digest r) created_at db) of
                  Inl e \<Rightarrow> (Inl e, db)
                | Inr db' \<Rightarrow> (then_do (load_plan collation (rp_plan_id r) db') (\<lambda>plan.
                       Inr \<lparr>ro_idempotent_replay = False, ro_plan = plan\<rparr>), db'))))"

definition recover_active_plans :: "(string \<Rightarrow> 'k::linorder) \<Rightarrow> string \<Rightarrow> string \<Rightarrow> paper_db
    \<Rightarrow> recovered_plan list result" where
  "recover_active_plans collation account instrument db =
     collect (\<lambda>p. load_plan collation (pl_plan_id p) db)
       (sort_key (\<lambda>p. (pl_created_at_ms p, collation (pl_plan_id p)))
         (filter (\<lambda>p. pl_account_id p = account \<and> pl_instrument_id p = instrument
            \<and> pl_state p = Reserved) (pd_plans db)))"

section \<open>Money\<close>

interpretation balances: keyed_rows balance_key add_reserved
  by unfold_locales (simp add: balance_key_def add_reserved_def)

lemma add_reserved_simps [simp]:
  "add_reserved 0 b = b" "add_reserved y (add_reserved x b) = add_reserved (x + y) b"
  "pb_observed_free (add_reserved x b) = pb_observed_free b"
  "pb_observed_total (add_reserved x b) = pb_observed_total b"
  "pb_local_reserved (add_reserved x b) = pb_local_reserved b + x"
  "balance_key (add_reserved x b) = balance_key b"
  by (simp_all add: add_reserved_def balance_key_def)

definition sum_reserved :: "string \<times> string \<times> string \<Rightarrow> reservation_row list \<Rightarrow> decimal" where
  "sum_reserved k vs = sum_list (map (\<lambda>v. ri_amount (rv_input v)) (filter (\<lambda>v. reservation_key v = k) vs))"

definition requested :: "reserve_plan_request \<Rightarrow> reservation_input list \<Rightarrow> string \<times> string \<times> string \<Rightarrow> decimal" where
  "requested r xs k = sum_list (map ri_amount (filter (\<lambda>x. (rp_account_id r, ri_venue x, ri_asset x) = k) xs))"

lemma sum_reserved_append [simp]: "sum_reserved k (vs @ ws) = sum_reserved k vs + sum_reserved k ws"
  by (simp add: sum_reserved_def)

definition money_inv :: "paper_db \<Rightarrow> bool" where
  "money_inv db \<longleftrightarrow> table_ok balance_key (pd_balances db)
     \<and> (\<forall>b \<in> set (pd_balances db). 0 \<le> pb_local_reserved b \<and> pb_local_reserved b \<le> pb_observed_free b
          \<and> pb_observed_free b \<le> pb_observed_total b
          \<and> pb_local_reserved b = sum_reserved (balance_key b) (pd_reservations db))
     \<and> (\<forall>v \<in> set (pd_reservations db). lookup_row balance_key (reservation_key v) (pd_balances db) \<noteq> None)"

lemma reserve_one_result:
  assumes "reserve_one r now x db = Inr db'"
  obtains v where "rv_plan_id v = rp_plan_id r" "rv_account_id v = rp_account_id r" "rv_input v = x"
    "db' = db\<lparr>pd_balances := update_row balance_key (rp_account_id r, ri_venue x, ri_asset x)
        (add_reserved (ri_amount x)) (pd_balances db), pd_reservations := pd_reservations db @ [v]\<rparr>"
    "\<And>b. lookup_row balance_key (rp_account_id r, ri_venue x, ri_asset x) (pd_balances db) = Some b \<Longrightarrow>
       0 \<le> pb_local_reserved b + ri_amount x \<and> pb_local_reserved b + ri_amount x \<le> pb_observed_free b"
proof -
  let ?v = "\<lparr>rv_plan_id = rp_plan_id r, rv_account_id = rp_account_id r, rv_input = x, rv_created_at_ms = now\<rparr>"
  show thesis using assms
    by (intro that[of ?v]) (auto simp: reserve_one_def Let_def not_less split: if_splits)
qed

lemma reserve_one_money:
  assumes "reserve_one r now x db = Inr db'" "money_inv db"
    and "lookup_row balance_key (rp_account_id r, ri_venue x, ri_asset x) (pd_balances db) \<noteq> None"
  shows "money_inv db'"
proof -
  let ?k = "(rp_account_id r, ri_venue x, ri_asset x)"
  from assms(1) obtain v where v: "rv_account_id v = rp_account_id r" "rv_input v = x"
    and db': "db' = db\<lparr>pd_balances := update_row balance_key ?k (add_reserved (ri_amount x)) (pd_balances db),
       pd_reservations := pd_reservations db @ [v]\<rparr>"
    and check: "\<And>b. lookup_row balance_key ?k (pd_balances db) = Some b \<Longrightarrow>
       0 \<le> pb_local_reserved b + ri_amount x \<and> pb_local_reserved b + ri_amount x \<le> pb_observed_free b"
    by (rule reserve_one_result) blast
  from assms(3) obtain b where b: "lookup_row balance_key ?k (pd_balances db) = Some b" by blast
  have ok: "table_ok balance_key (pd_balances db)" using assms(2) by (simp add: money_inv_def)
  have vk: "reservation_key v = ?k" using v by (simp add: reservation_key_def)
  have rows: "set (pd_balances db') = insert (add_reserved (ri_amount x) b)
      {c \<in> set (pd_balances db). balance_key c \<noteq> ?k}"
    using set_update_row_distinct[OF ok b] by (simp add: db')
  have bm: "b \<in> set (pd_balances db)" "balance_key b = ?k" using lookup_row_SomeD[OF b] by auto
  have "lookup_row balance_key k (pd_balances db') = None \<longleftrightarrow> lookup_row balance_key k (pd_balances db) = None" for k
    using balances.lookup_same[of ?k "ri_amount x"] balances.lookup_other[of k ?k "ri_amount x"]
    by (cases "k = ?k") (auto simp: db')
  moreover have "table_ok balance_key (pd_balances db')"
    using ok by (simp add: db' balances.ok_update)
  moreover have "sum_reserved k [v] = (if k = ?k then ri_amount x else 0)" for k
    using v(2) vk by (simp add: sum_reserved_def)
  ultimately show ?thesis
    using assms(2) bm check[OF b] vk b unfolding money_inv_def rows
    by (auto simp: db')
qed

lemma reserve_one_lookup:
  assumes "reserve_one r now x db = Inr db'"
  shows "lookup_row balance_key k (pd_balances db')
    = map_option (add_reserved (requested r [x] k)) (lookup_row balance_key k (pd_balances db))"
proof -
  from assms have "pd_balances db' = update_row balance_key (rp_account_id r, ri_venue x, ri_asset x)
      (add_reserved (ri_amount x)) (pd_balances db)"
    by (auto elim: reserve_one_result)
  moreover have "map_option (add_reserved 0) o' = o'" for o' by (cases o') simp_all
  ultimately show ?thesis
    by (cases "k = (rp_account_id r, ri_venue x, ri_asset x)")
      (auto simp: requested_def balances.lookup_same balances.lookup_other)
qed

lemma reserve_all_money:
  assumes "reserve_all r now xs db = Inr db'" "money_inv db"
    and "\<forall>x \<in> set xs. lookup_row balance_key (rp_account_id r, ri_venue x, ri_asset x) (pd_balances db) \<noteq> None"
  shows "money_inv db'"
  using assms
proof (induction xs arbitrary: db)
  case (Cons x xs)
  then obtain db1 where one: "reserve_one r now x db = Inr db1" and rest: "reserve_all r now xs db1 = Inr db'"
    by auto
  have "\<forall>y \<in> set xs. lookup_row balance_key (rp_account_id r, ri_venue y, ri_asset y) (pd_balances db1) \<noteq> None"
    using Cons.prems(3) by (simp add: reserve_one_lookup[OF one])
  then show ?case using Cons.IH[OF rest] reserve_one_money[OF one] Cons.prems(2,3) by simp
qed simp

lemma reserve_all_lookup:
  assumes "reserve_all r now xs db = Inr db'"
  shows "lookup_row balance_key k (pd_balances db')
    = map_option (add_reserved (requested r xs k)) (lookup_row balance_key k (pd_balances db))"
  using assms
proof (induction xs arbitrary: db)
  case Nil
  then show ?case by (cases "lookup_row balance_key k (pd_balances db)") (simp_all add: requested_def)
next
  case (Cons x xs)
  then obtain db1 where one: "reserve_one r now x db = Inr db1" and rest: "reserve_all r now xs db1 = Inr db'"
    by auto
  have "requested r (x # xs) k = requested r [x] k + requested r xs k" by (simp add: requested_def)
  then show ?case
    by (simp add: Cons.IH[OF rest] reserve_one_lookup[OF one] option.map_comp comp_def)
qed

lemma reserve_all_frame:
  assumes "reserve_all r now xs db = Inr db'"
  shows "pd_plans db' = pd_plans db" "pd_risk db' = pd_risk db" "pd_intents db' = pd_intents db"
    "pd_audit db' = pd_audit db"
    "map (\<lambda>v. (rv_plan_id v, rv_input v)) (pd_reservations db')
       = map (\<lambda>v. (rv_plan_id v, rv_input v)) (pd_reservations db) @ map (\<lambda>x. (rp_plan_id r, x)) xs"
  using assms
proof (atomize(full), induction xs arbitrary: db)
  case (Cons x xs)
  then obtain db1 where one: "reserve_one r now x db = Inr db1" and rest: "reserve_all r now xs db1 = Inr db'"
    by auto
  from one show ?case using Cons.IH[OF rest] by (auto elim!: reserve_one_result)
qed simp

lemma check_balances_ok:
  "check_balances account rs db = Inr () \<Longrightarrow> \<forall>x \<in> set rs. \<exists>b.
     lookup_row balance_key (account, ri_venue x, ri_asset x) (pd_balances db) = Some b
     \<and> ri_amount x \<le> pb_observed_free b - pb_local_reserved b"
  by (induction rs) (auto split: option.splits if_splits)

lemma lock_and_check_balances_ok:
  assumes "lock_and_check_balances r db = Inr ()" "x \<in> set (rp_reservations r)"
  obtains b where "lookup_row balance_key (rp_account_id r, ri_venue x, ri_asset x) (pd_balances db) = Some b"
    "ri_amount x \<le> pb_observed_free b - pb_local_reserved b"
  using assms check_balances_ok[of "rp_account_id r" "sort_key reservation_order (rp_reservations r)" db]
  by (force simp: lock_and_check_balances_def)

section \<open>Plans\<close>

definition plan_intents :: "string \<Rightarrow> paper_db \<Rightarrow> order_intent_input list" where
  "plan_intents p db = map it_input (filter (\<lambda>x. it_plan_id x = p) (pd_intents db))"

definition plan_reservations :: "string \<Rightarrow> paper_db \<Rightarrow> reservation_input list" where
  "plan_reservations p db = map rv_input (filter (\<lambda>x. rv_plan_id x = p) (pd_reservations db))"

definition opposite_legs :: "order_intent_input list \<Rightarrow> bool" where
  "opposite_legs is \<longleftrightarrow> (\<exists>a b. is = [a, b] \<and> oi_side a \<noteq> oi_side b \<and> oi_venue a \<noteq> oi_venue b
     \<and> 0 < oi_quantity a \<and> 0 < oi_quantity b \<and> 0 < oi_limit_price a \<and> 0 < oi_limit_price b)"

definition plan_domain :: "plan_row \<Rightarrow> string \<times> string" where
  "plan_domain p = (pl_account_id p, pl_instrument_id p)"

definition plans_inv :: "paper_db \<Rightarrow> bool" where
  "plans_inv db \<longleftrightarrow> table_ok pl_plan_id (pd_plans db) \<and> table_ok pl_request_id (pd_plans db)
     \<and> table_ok plan_domain (pd_plans db)
     \<and> (\<forall>p \<in> set (pd_plans db). pl_state p = Reserved \<and> opposite_legs (plan_intents (pl_plan_id p) db))
     \<and> (\<forall>x \<in> set (pd_intents db). it_plan_id x \<in> pl_plan_id ` set (pd_plans db))
     \<and> (\<forall>x \<in> set (pd_reservations db). rv_plan_id x \<in> pl_plan_id ` set (pd_plans db))"

definition paper_inv :: "paper_db \<Rightarrow> bool" where
  "paper_inv db \<longleftrightarrow> money_inv db \<and> plans_inv db"

lemma check_intents_ok:
  "check_intents seen is = Inr () \<Longrightarrow>
     (\<forall>i \<in> set is. 0 < oi_quantity i \<and> 0 < oi_limit_price i \<and> oi_venue i \<notin> oi_venue ` set seen
        \<and> oi_leg_id i \<notin> oi_leg_id ` set seen)
     \<and> distinct (map oi_venue is) \<and> distinct (map oi_leg_id is)"
proof (induction "is" arbitrary: seen)
  case (Cons i "is")
  from Cons.prems have rest: "check_intents (seen @ [i]) is = Inr ()"
    and here: "0 < oi_quantity i" "0 < oi_limit_price i" "oi_venue i \<notin> oi_venue ` set seen"
      "oi_leg_id i \<notin> oi_leg_id ` set seen"
    by (simp_all add: not_le split: if_splits)
  from Cons.IH[OF rest] here show ?case by auto
qed simp

lemma check_reservations_ok:
  "check_reservations venues seen rs = Inr () \<Longrightarrow>
     (\<forall>x \<in> set rs. 0 < ri_amount x \<and> reservation_order x \<notin> reservation_order ` set seen)
     \<and> distinct (map reservation_order rs)"
proof (induction rs arbitrary: seen)
  case (Cons x rs)
  from Cons.prems have rest: "check_reservations venues (seen @ [x]) rs = Inr ()"
    and here: "0 < ri_amount x" "reservation_order x \<notin> reservation_order ` set seen"
    by (simp_all add: not_le reservation_order_def split: if_splits)
  from Cons.IH[OF rest] here show ?case by auto
qed simp

lemma validate_request_ok:
  assumes "validate_request r account instrument = Inr ()"
  shows "rp_account_id r = account" "rp_instrument_id r = instrument" "opposite_legs (intent_list r)"
    "\<forall>x \<in> set (rp_reservations r). 0 < ri_amount x" "distinct (map reservation_order (rp_reservations r))"
    "fst (rp_intents r) \<noteq> snd (rp_intents r) \<and> oi_leg_id (fst (rp_intents r)) \<noteq> oi_leg_id (snd (rp_intents r))"
    "rp_plan_id r \<noteq> []" "0 < rp_target_quantity r"
proof -
  have i: "check_intents [] (intent_list r) = Inr ()"
    and s: "\<exists>i \<in> set (intent_list r). oi_side i = Buy" "\<exists>i \<in> set (intent_list r). oi_side i = Sell"
    and v: "check_reservations (map oi_venue (intent_list r)) [] (rp_reservations r) = Inr ()"
    using assms by (auto simp: validate_request_def split: if_splits)
  show "rp_account_id r = account" "rp_instrument_id r = instrument" "rp_plan_id r \<noteq> []" "0 < rp_target_quantity r"
    using assms by (auto simp: validate_request_def validate_id_nonempty split: if_splits)
  show "opposite_legs (intent_list r)"
    using check_intents_ok[OF i] s by (auto simp: opposite_legs_def intent_list_def)
  show "\<forall>x \<in> set (rp_reservations r). 0 < ri_amount x" "distinct (map reservation_order (rp_reservations r))"
    using check_reservations_ok[OF v] by simp_all
  show "fst (rp_intents r) \<noteq> snd (rp_intents r) \<and> oi_leg_id (fst (rp_intents r)) \<noteq> oi_leg_id (snd (rp_intents r))"
    using check_intents_ok[OF i] by (auto simp: intent_list_def)
qed

section \<open>The reservation of a plan\<close>

lemma plan_intents_alt:
  "plan_intents p db = map snd (filter (\<lambda>x. fst x = p) (map (\<lambda>x. (it_plan_id x, it_input x)) (pd_intents db)))"
  by (simp add: plan_intents_def filter_map comp_def)

lemma plan_reservations_alt:
  "plan_reservations p db = map snd (filter (\<lambda>x. fst x = p) (map (\<lambda>x. (rv_plan_id x, rv_input x)) (pd_reservations db)))"
  by (simp add: plan_reservations_def filter_map comp_def)

text \<open>What the statements of one reservation leave in the tables when none of them fails.\<close>

definition plan_inserted :: "reserve_plan_request \<Rightarrow> string \<Rightarrow> plan_row \<Rightarrow> paper_db \<Rightarrow> paper_db \<Rightarrow> bool" where
  "plan_inserted r dg p db db' \<longleftrightarrow>
     pl_plan_id p = rp_plan_id r \<and> pl_request_id p = rp_request_id r \<and> pl_request_digest p = dg
     \<and> plan_domain p = (rp_account_id r, rp_instrument_id r) \<and> pl_state p = Reserved
     \<and> pl_target_quantity p = rp_target_quantity r
     \<and> pd_plans db' = pd_plans db @ [p]
     \<and> (\<forall>q \<in> set (pd_plans db). pl_plan_id q \<noteq> pl_plan_id p \<and> pl_request_id q \<noteq> pl_request_id p
          \<and> (pl_state q = Reserved \<longrightarrow> plan_domain q \<noteq> plan_domain p))
     \<and> map (\<lambda>x. (it_plan_id x, it_input x)) (pd_intents db') =
         map (\<lambda>x. (it_plan_id x, it_input x)) (pd_intents db) @ map (Pair (rp_plan_id r)) (intent_list r)
     \<and> map (\<lambda>v. (rv_plan_id v, rv_input v)) (pd_reservations db') =
         map (\<lambda>v. (rv_plan_id v, rv_input v)) (pd_reservations db) @ map (Pair (rp_plan_id r)) (rp_reservations r)"

lemma insert_intent_result:
  assumes "insert_intent r now i db = Inr db'"
  shows "map (\<lambda>x. (it_plan_id x, it_input x)) (pd_intents db') =
      map (\<lambda>x. (it_plan_id x, it_input x)) (pd_intents db) @ [(rp_plan_id r, i)]"
    "pd_plans db' = pd_plans db" "pd_balances db' = pd_balances db" "pd_reservations db' = pd_reservations db"
  using assms by (auto simp: insert_intent_def split: if_splits)

lemma insert_plan_result:
  assumes "insert_plan r dg now db = Inr db'"
  obtains p db1 db2 where "plan_inserted r dg p db db'" "reserve_all r now (rp_reservations r) db1 = Inr db2"
    "pd_balances db1 = pd_balances db" "pd_reservations db1 = pd_reservations db"
    "pd_balances db' = pd_balances db2" "pd_reservations db' = pd_reservations db2"
proof -
  from assms obtain da db1 db2 db3 db4 where
    p: "insert_plan_row r dg now db = Inr da" and k: "insert_risk r dg now da = Inr db1"
    and v: "reserve_all r now (rp_reservations r) db1 = Inr db2"
    and i: "insert_intent r now (fst (rp_intents r)) db2 = Inr db3"
    and j: "insert_intent r now (snd (rp_intents r)) db3 = Inr db4"
    and a: "insert_audit r dg now db4 = Inr db'"
    by (auto simp: insert_plan_def)
  define row where "row = \<lparr>pl_plan_id = rp_plan_id r, pl_request_id = rp_request_id r, pl_request_digest = dg,
          pl_account_id = rp_account_id r, pl_instrument_id = rp_instrument_id r,
          pl_opportunity_id = rp_opportunity_id r,
          pl_strategy_config_version = rp_strategy_config_version r,
          pl_target_quantity = rp_target_quantity r,
          pl_max_unmatched_exposure = rp_max_unmatched_exposure r, pl_state = Reserved,
          pl_created_at_ms = now\<rparr>"
  from p have da: "da = db\<lparr>pd_plans := pd_plans db @ [row]\<rparr>"
    and fresh: "\<forall>q \<in> set (pd_plans db). pl_plan_id q \<noteq> rp_plan_id r \<and> pl_request_id q \<noteq> rp_request_id r
       \<and> (pl_state q = Reserved \<longrightarrow> plan_domain q \<noteq> plan_domain row)"
    by (auto simp: insert_plan_row_def row_def plan_domain_def split: if_splits)
  from k da have db1: "pd_plans db1 = pd_plans db @ [row]" "pd_intents db1 = pd_intents db"
    "pd_reservations db1 = pd_reservations db" "pd_balances db1 = pd_balances db"
    by (auto simp: insert_risk_def split: if_splits)
  from a have db': "pd_plans db' = pd_plans db4" "pd_intents db' = pd_intents db4"
    "pd_reservations db' = pd_reservations db4" "pd_balances db' = pd_balances db4"
    by (auto simp: insert_audit_def split: if_splits)
  have "plan_inserted r dg row db db'"
    unfolding plan_inserted_def
    using fresh db1 db' reserve_all_frame[OF v] insert_intent_result[OF i] insert_intent_result[OF j]
    by (simp add: row_def plan_domain_def intent_list_def)
  from that[OF this v] db1 db' insert_intent_result[OF i] insert_intent_result[OF j]
  show thesis by simp
qed

lemma plan_inserted_lookup:
  assumes "plan_inserted r dg p db db'" "plans_inv db"
  shows "lookup_row pl_plan_id (rp_plan_id r) (pd_plans db') = Some p"
    "plan_intents (rp_plan_id r) db' = intent_list r"
    "plan_reservations (rp_plan_id r) db' = rp_reservations r"
proof -
  have absent: "rp_plan_id r \<notin> pl_plan_id ` set (pd_plans db)"
    using assms(1) by (auto simp: plan_inserted_def)
  then show "lookup_row pl_plan_id (rp_plan_id r) (pd_plans db') = Some p"
    using assms(1) by (simp add: plan_inserted_def lookup_row_append lookup_row_None_iff[THEN iffD2])
  have "filter (\<lambda>x. fst x = rp_plan_id r) (map (\<lambda>x. (it_plan_id x, it_input x)) (pd_intents db)) = []"
    "filter (\<lambda>x. fst x = rp_plan_id r) (map (\<lambda>x. (rv_plan_id x, rv_input x)) (pd_reservations db)) = []"
  proof -
    have "\<forall>x \<in> set (pd_intents db). it_plan_id x \<noteq> rp_plan_id r"
      "\<forall>x \<in> set (pd_reservations db). rv_plan_id x \<noteq> rp_plan_id r"
      using assms(2) absent unfolding plans_inv_def by metis+
    then show "filter (\<lambda>x. fst x = rp_plan_id r) (map (\<lambda>x. (it_plan_id x, it_input x)) (pd_intents db)) = []"
      "filter (\<lambda>x. fst x = rp_plan_id r) (map (\<lambda>x. (rv_plan_id x, rv_input x)) (pd_reservations db)) = []"
      by (simp_all add: filter_empty_conv)
  qed
  then show "plan_intents (rp_plan_id r) db' = intent_list r"
    "plan_reservations (rp_plan_id r) db' = rp_reservations r"
    using assms(1) unfolding plan_inserted_def plan_intents_alt plan_reservations_alt
    by (simp_all add: filter_map comp_def)
qed

lemma plan_inserted_inv:
  assumes "plan_inserted r dg p db db'" "plans_inv db" "opposite_legs (intent_list r)"
  shows "plans_inv db'"
proof -
  have other: "plan_intents (pl_plan_id q) db' = plan_intents (pl_plan_id q) db" if "q \<in> set (pd_plans db)" for q
    using assms(1) that unfolding plan_inserted_def plan_intents_alt by (auto simp: filter_empty_conv)
  have owner: "set (map (\<lambda>x. (it_plan_id x, it_input x)) (pd_intents db')) =
      set (map (\<lambda>x. (it_plan_id x, it_input x)) (pd_intents db)) \<union> Pair (rp_plan_id r) ` set (intent_list r)"
    "set (map (\<lambda>x. (rv_plan_id x, rv_input x)) (pd_reservations db')) =
      set (map (\<lambda>x. (rv_plan_id x, rv_input x)) (pd_reservations db)) \<union> Pair (rp_plan_id r) ` set (rp_reservations r)"
    using assms(1) unfolding plan_inserted_def by simp_all
  have plans: "pd_plans db' = pd_plans db @ [p]" "pl_plan_id p = rp_plan_id r" "pl_state p = Reserved"
    and fresh: "\<forall>q \<in> set (pd_plans db). pl_plan_id q \<noteq> pl_plan_id p \<and> pl_request_id q \<noteq> pl_request_id p
          \<and> (pl_state q = Reserved \<longrightarrow> plan_domain q \<noteq> plan_domain p)"
    using assms(1) unfolding plan_inserted_def by blast+
  have old: "table_ok pl_plan_id (pd_plans db)" "table_ok pl_request_id (pd_plans db)"
    "table_ok plan_domain (pd_plans db)"
    "\<forall>q \<in> set (pd_plans db). pl_state q = Reserved \<and> opposite_legs (plan_intents (pl_plan_id q) db)"
    "it_plan_id ` set (pd_intents db) \<subseteq> pl_plan_id ` set (pd_plans db)"
    "rv_plan_id ` set (pd_reservations db) \<subseteq> pl_plan_id ` set (pd_plans db)"
    using assms(2) by (auto simp: plans_inv_def)
  have "it_plan_id ` set (pd_intents db') = fst ` set (map (\<lambda>x. (it_plan_id x, it_input x)) (pd_intents db'))"
    "rv_plan_id ` set (pd_reservations db') = fst ` set (map (\<lambda>x. (rv_plan_id x, rv_input x)) (pd_reservations db'))"
    by (simp_all add: image_image)
  then have new: "it_plan_id ` set (pd_intents db') \<subseteq> insert (rp_plan_id r) (it_plan_id ` set (pd_intents db))"
    "rv_plan_id ` set (pd_reservations db') \<subseteq> insert (rp_plan_id r) (rv_plan_id ` set (pd_reservations db))"
    unfolding owner by (auto simp: image_iff)
  have "pl_plan_id p \<notin> pl_plan_id ` set (pd_plans db)" "pl_request_id p \<notin> pl_request_id ` set (pd_plans db)"
    "plan_domain p \<notin> plan_domain ` set (pd_plans db)"
    using fresh old(4) by (metis imageE)+
  with old(1-3) have keys: "table_ok pl_plan_id (pd_plans db')" "table_ok pl_request_id (pd_plans db')"
    "table_ok plan_domain (pd_plans db')"
    unfolding plans(1) table_ok_append_row lookup_row_None_iff by (simp_all only: simp_thms)
  have "\<forall>q \<in> set (pd_plans db'). pl_state q = Reserved \<and> opposite_legs (plan_intents (pl_plan_id q) db')"
    using old(4) other plan_inserted_lookup(2)[OF assms(1,2)] assms(3) by (simp add: plans)
  moreover have "it_plan_id ` set (pd_intents db') \<subseteq> pl_plan_id ` set (pd_plans db')"
    "rv_plan_id ` set (pd_reservations db') \<subseteq> pl_plan_id ` set (pd_plans db')"
  proof -
    have "pl_plan_id ` set (pd_plans db') = insert (rp_plan_id r) (pl_plan_id ` set (pd_plans db))"
      by (simp add: plans)
    then show "it_plan_id ` set (pd_intents db') \<subseteq> pl_plan_id ` set (pd_plans db')"
      "rv_plan_id ` set (pd_reservations db') \<subseteq> pl_plan_id ` set (pd_plans db')"
      using subset_trans[OF new(1) insert_mono[OF old(5)]] subset_trans[OF new(2) insert_mono[OF old(6)]]
      by (simp_all only:)
  qed
  ultimately show ?thesis using keys by (auto simp: plans_inv_def)
qed

text \<open>A reservation that succeeds: validated, funded, inserted.\<close>

lemma reserve_plan_fresh:
  assumes "reserve_plan collation d account instrument r now db = (Inr out, db')"
    and "\<not> ro_idempotent_replay out"
  obtains t where "validate_request r account instrument = Inr ()" "to_i64 now = Inr t"
    "\<forall>p \<in> set (pd_plans db). pl_request_id p \<noteq> rp_request_id r"
    "lock_and_check_balances r db = Inr ()" "insert_plan r (request_digest d r) t db = Inr db'"
    "load_plan collation (rp_plan_id r) db' = Inr (ro_plan out)"
  using assms by (auto simp: reserve_plan_def find_None_iff split: sum.splits option.splits if_splits)

lemma money_inv_cong:
  "pd_balances a = pd_balances b \<Longrightarrow> pd_reservations a = pd_reservations b \<Longrightarrow> money_inv a = money_inv b"
  by (simp add: money_inv_def)

lemma insert_plan_money:
  assumes "insert_plan r dg t db = Inr db'" "lock_and_check_balances r db = Inr ()" "money_inv db"
  shows "money_inv db'"
    "lookup_row balance_key k (pd_balances db')
       = map_option (add_reserved (requested r (rp_reservations r) k)) (lookup_row balance_key k (pd_balances db))"
proof -
  from assms(1) obtain db1 db2 where all: "reserve_all r t (rp_reservations r) db1 = Inr db2"
    and same: "pd_balances db1 = pd_balances db" "pd_reservations db1 = pd_reservations db"
      "pd_balances db' = pd_balances db2" "pd_reservations db' = pd_reservations db2"
    by (rule insert_plan_result) blast
  have "\<forall>x \<in> set (rp_reservations r). lookup_row balance_key (rp_account_id r, ri_venue x, ri_asset x) (pd_balances db1) \<noteq> None"
    using lock_and_check_balances_ok[OF assms(2)] unfolding same by blast
  moreover have "money_inv db1" using assms(3) money_inv_cong[OF same(1,2)] by simp
  ultimately show "money_inv db'" using reserve_all_money[OF all] money_inv_cong[OF same(3,4)] by simp
  show "lookup_row balance_key k (pd_balances db')
       = map_option (add_reserved (requested r (rp_reservations r) k)) (lookup_row balance_key k (pd_balances db))"
    using reserve_all_lookup[OF all] same by simp
qed

lemma reserve_plan_inv:
  assumes "paper_inv db"
  shows "paper_inv (snd (reserve_plan collation d account instrument r now db))"
proof (cases "snd (reserve_plan collation d account instrument r now db) = db")
  case False
  then obtain t db' where v: "validate_request r account instrument = Inr ()"
    and l: "lock_and_check_balances r db = Inr ()" and i: "insert_plan r (request_digest d r) t db = Inr db'"
    and db': "snd (reserve_plan collation d account instrument r now db) = db'"
    by (auto simp: reserve_plan_def split: sum.splits option.splits if_splits)
  from i obtain p where "plan_inserted r (request_digest d r) p db db'" by (rule insert_plan_result)
  from plan_inserted_inv[OF this] insert_plan_money(1)[OF i l] validate_request_ok(3)[OF v] assms
  show ?thesis by (simp add: paper_inv_def db')
qed (simp add: assms)

lemma set_paper_balance_inv:
  assumes "paper_inv db"
  shows "paper_inv (snd (set_paper_balance a v s tot fr at' db))"
proof -
  have plans: "plans_inv (db\<lparr>pd_balances := bs\<rparr>)" if "plans_inv db" for bs
    using that by (simp add: plans_inv_def plan_intents_def)
  have none: "sum_reserved k (pd_reservations db) = 0" if "\<forall>w \<in> set (pd_reservations db). reservation_key w \<noteq> k" for k
    using that by (simp add: sum_reserved_def filter_empty_conv[THEN iffD2])
  have "money_inv (db\<lparr>pd_balances := (if lookup_row balance_key (balance_key row) (pd_balances db) = None
         then pd_balances db @ [row] else put_row balance_key row (pd_balances db))\<rparr>)"
    if row: "pb_local_reserved row = 0" "0 \<le> pb_observed_free row" "pb_observed_free row \<le> pb_observed_total row"
      "\<forall>w \<in> set (pd_reservations db). reservation_key w \<noteq> balance_key row" for row
  proof (cases "lookup_row balance_key (balance_key row) (pd_balances db)")
    case None
    then show ?thesis using assms row none[OF row(4)]
      by (auto simp: paper_inv_def money_inv_def table_ok_append_row lookup_row_append split: option.splits)
  next
    case (Some old)
    have ok: "table_ok balance_key (pd_balances db)" using assms by (simp add: paper_inv_def money_inv_def)
    show ?thesis using assms row none[OF row(4)] Some set_put_row[OF ok Some]
      by (auto simp: paper_inv_def money_inv_def lookup_put_row)
  qed
  note money = this
  show ?thesis
  proof (cases "snd (set_paper_balance a v s tot fr at' db) = db")
    case False
    then obtain n where n: "0 \<le> fr" "fr \<le> tot" "\<forall>w \<in> set (pd_reservations db). reservation_key w \<noteq> (a, v, s)"
      and res: "snd (set_paper_balance a v s tot fr at' db) = db\<lparr>pd_balances :=
        (if lookup_row balance_key (a, v, s) (pd_balances db) = None
         then pd_balances db @ [\<lparr>pb_account_id = a, pb_venue = v, pb_asset = s, pb_observed_total = tot,
           pb_observed_free = fr, pb_local_reserved = 0, pb_observed_at_ms = n\<rparr>]
         else put_row balance_key \<lparr>pb_account_id = a, pb_venue = v, pb_asset = s, pb_observed_total = tot,
           pb_observed_free = fr, pb_local_reserved = 0, pb_observed_at_ms = n\<rparr> (pd_balances db))\<rparr>"
      by (auto simp: set_paper_balance_def Let_def not_less split: sum.splits if_splits)
    from money[of "\<lparr>pb_account_id = a, pb_venue = v, pb_asset = s, pb_observed_total = tot,
           pb_observed_free = fr, pb_local_reserved = 0, pb_observed_at_ms = n\<rparr>"] n plans assms
    show ?thesis unfolding res by (simp add: paper_inv_def balance_key_def)
  qed (simp add: assms)
qed

inductive paper_reachable :: "(reserve_plan_request \<Rightarrow> string) \<Rightarrow> paper_db \<Rightarrow> bool" for d where
  start: "paper_reachable d \<lparr>pd_balances = [], pd_plans = [], pd_risk = [], pd_intents = [],
    pd_reservations = [], pd_audit = []\<rparr>"
| observed: "paper_reachable d db \<Longrightarrow> paper_reachable d (snd (set_paper_balance a v s tot fr at' db))"
| reserved: "paper_reachable d db \<Longrightarrow>
    paper_reachable d (snd (reserve_plan (collation :: string \<Rightarrow> string) d account instrument r now db))"

lemma paper_reachable_inv: "paper_reachable d db \<Longrightarrow> paper_inv db"
proof (induction rule: paper_reachable.induct)
  case start
  show ?case by (simp add: paper_inv_def money_inv_def plans_inv_def)
qed (simp_all add: set_paper_balance_inv reserve_plan_inv)

section \<open>Properties\<close>

text \<open>C7. In every reachable database a balance reserves exactly what its fund reservations add up to,
  never more than was observed free; each account and instrument has at most one plan, and
  each plan has two intents on opposite sides at different venues.\<close>

theorem paper_funds_backed:
  assumes "paper_reachable d db"
  shows "(\<forall>b \<in> set (pd_balances db).
        pb_local_reserved b = sum_reserved (balance_key b) (pd_reservations db)
        \<and> 0 \<le> pb_local_reserved b \<and> pb_local_reserved b \<le> pb_observed_free b
        \<and> pb_observed_free b \<le> pb_observed_total b)
    \<and> distinct (map plan_domain (pd_plans db))
    \<and> (\<forall>p \<in> set (pd_plans db). opposite_legs (plan_intents (pl_plan_id p) db))"
  using paper_reachable_inv[OF assms]
  unfolding paper_inv_def money_inv_def plans_inv_def table_ok_def by blast

text \<open>What a loaded plan holds, up to the order the database returns it in.\<close>

lemma load_plan_contents:
  assumes "load_plan collation p db = Inr rc"
  shows "mset (rc_intents rc) = mset (plan_intents p db)"
    "mset (rc_reservations rc) = mset (plan_reservations p db)"
  using assms by (auto simp: load_plan_def plan_intents_def plan_reservations_def split: option.splits)

lemma load_plan_id: "load_plan collation p db = Inr rc \<Longrightarrow> pl_plan_id (rc_plan rc) = p"
  by (auto simp: load_plan_def dest!: lookup_row_SomeD split: option.splits)

text \<open>What one reservation writes at the time \<open>t\<close>: a plan, a risk decision, every reservation, both intents and an audit
  event, each appended to its table, and the sums the reservations add to the balances. No other row changes.\<close>

definition plan_written :: "reserve_plan_request \<Rightarrow> string \<Rightarrow> int \<Rightarrow> paper_db \<Rightarrow> paper_db \<Rightarrow> bool" where
  "plan_written r dg t db db' \<longleftrightarrow>
     pd_plans db' = pd_plans db @
       [\<lparr>pl_plan_id = rp_plan_id r, pl_request_id = rp_request_id r, pl_request_digest = dg,
         pl_account_id = rp_account_id r, pl_instrument_id = rp_instrument_id r, pl_opportunity_id = rp_opportunity_id r,
         pl_strategy_config_version = rp_strategy_config_version r, pl_target_quantity = rp_target_quantity r,
         pl_max_unmatched_exposure = rp_max_unmatched_exposure r, pl_state = Reserved, pl_created_at_ms = t\<rparr>]
     \<and> pd_risk db' = pd_risk db @ [\<lparr>rk_plan_id = rp_plan_id r, rk_input_digest = dg, rk_decided_at_ms = t\<rparr>]
     \<and> pd_reservations db' = pd_reservations db @ map (\<lambda>x. \<lparr>rv_plan_id = rp_plan_id r, rv_account_id = rp_account_id r,
         rv_input = x, rv_created_at_ms = t\<rparr>) (rp_reservations r)
     \<and> pd_intents db' = pd_intents db @ map (\<lambda>i. \<lparr>it_plan_id = rp_plan_id r, it_input = i, it_created_at_ms = t\<rparr>) (intent_list r)
     \<and> (\<exists>a. pd_audit db' = pd_audit db @ [a] \<and> au_event_id a = rp_plan_id r @ '':reserved'' \<and> au_aggregate_id a = rp_plan_id r
          \<and> au_aggregate_version a = 1 \<and> au_event_type a = ''PlanReserved'' \<and> au_causation_id a = rp_request_id r
          \<and> au_occurred_at_ms a = t \<and> map_of (au_payload a) ''request_digest'' = Some (PText dg))
     \<and> (\<forall>k. lookup_row balance_key k (pd_balances db')
          = map_option (add_reserved (requested r (rp_reservations r) k)) (lookup_row balance_key k (pd_balances db)))"

lemma reserve_all_rows:
  assumes "reserve_all r now xs db = Inr db'"
  shows "pd_reservations db' = pd_reservations db @ map (\<lambda>x. \<lparr>rv_plan_id = rp_plan_id r, rv_account_id = rp_account_id r,
      rv_input = x, rv_created_at_ms = now\<rparr>) xs"
  using assms
proof (induction xs arbitrary: db)
  case (Cons x xs)
  then obtain db1 where one: "reserve_one r now x db = Inr db1" and rest: "reserve_all r now xs db1 = Inr db'" by auto
  have "pd_reservations db1 = pd_reservations db @ [\<lparr>rv_plan_id = rp_plan_id r, rv_account_id = rp_account_id r,
      rv_input = x, rv_created_at_ms = now\<rparr>]"
    using one by (auto simp: reserve_one_def Let_def split: if_splits)
  then show ?case using Cons.IH[OF rest] by simp
qed simp

lemma insert_plan_written:
  assumes "insert_plan r dg t db = Inr db'" "lock_and_check_balances r db = Inr ()" "money_inv db"
  shows "plan_written r dg t db db'"
proof -
  from assms(1) obtain da db1 db2 db3 db4 where
    p: "insert_plan_row r dg t db = Inr da" and k: "insert_risk r dg t da = Inr db1"
    and v: "reserve_all r t (rp_reservations r) db1 = Inr db2"
    and i: "insert_intent r t (fst (rp_intents r)) db2 = Inr db3"
    and j: "insert_intent r t (snd (rp_intents r)) db3 = Inr db4"
    and a: "insert_audit r dg t db4 = Inr db'"
    by (auto simp: insert_plan_def)
  note p [unfolded insert_plan_row_def] and k [unfolded insert_risk_def] and i [unfolded insert_intent_def]
    and j [unfolded insert_intent_def] and a [unfolded insert_audit_def]
  note steps = this
  show ?thesis
    unfolding plan_written_def using steps reserve_all_frame(1-4)[OF v] reserve_all_rows[OF v] insert_plan_money(2)[OF assms]
    by (auto simp: intent_list_def split: if_splits)
qed

text \<open>C8. A reservation is all or nothing, whatever comes of it. When it fails, the database is as it was. When the
  request is known, the database is as it was too, and the answer is the plan stored under that request with the
  digest of its content. Otherwise the whole plan was written: the plan, its risk decision, exactly the requested
  reservations and the two intents, the audit event with the digest, and on every balance the sum the request asks
  of it and nothing else, each of which had that amount free; and the answer is that plan.\<close>

theorem reserve_plan_commits_whole:
  assumes "paper_reachable d db" "reserve_plan collation d account instrument r now db = (res, db')"
  shows "case res of
      Inl e \<Rightarrow> db' = db
    | Inr out \<Rightarrow>
        if ro_idempotent_replay out
        then db' = db \<and> (\<exists>p. p \<in> set (pd_plans db) \<and> pl_request_id p = rp_request_id r
          \<and> pl_request_digest p = request_digest d r \<and> load_plan collation (pl_plan_id p) db = Inr (ro_plan out))
        else (\<exists>t. to_i64 now = Inr t \<and> plan_written r (request_digest d r) t db db')
          \<and> list_all (\<lambda>x. \<exists>b. lookup_row balance_key (account, ri_venue x, ri_asset x) (pd_balances db) = Some b
              \<and> ri_amount x \<le> pb_observed_free b - pb_local_reserved b) (rp_reservations r)
          \<and> pl_plan_id (rc_plan (ro_plan out)) = rp_plan_id r
          \<and> mset (rc_intents (ro_plan out)) = mset (intent_list r)
          \<and> mset (rc_reservations (ro_plan out)) = mset (rp_reservations r)"
proof -
  have inv: "paper_inv db" using assms(1) by (rule paper_reachable_inv)
  have loads: "\<exists>plan. load_plan collation (rp_plan_id r) db1 = Inr plan" if "insert_plan r (request_digest d r) t db = Inr db1" for t db1
  proof -
    from that obtain p where "plan_inserted r (request_digest d r) p db db1" by (rule insert_plan_result)
    then show ?thesis using plan_inserted_lookup(1) inv by (simp add: load_plan_def paper_inv_def)
  qed
  show ?thesis
  proof (cases res)
    case (Inl e)
    then show ?thesis using assms(2) loads
      by (auto simp: reserve_plan_def split: sum.splits option.splits if_splits dest!: loads)
  next
    case (Inr out)
    show ?thesis
    proof (cases "ro_idempotent_replay out")
      case True
      then show ?thesis using assms(2) Inr
        by (auto simp: reserve_plan_def find_Some_iff in_set_conv_nth split: sum.splits option.splits if_splits)
    next
      case False
      from assms(2)[unfolded Inr] False obtain t where v: "validate_request r account instrument = Inr ()" and t: "to_i64 now = Inr t"
        and l: "lock_and_check_balances r db = Inr ()" and i: "insert_plan r (request_digest d r) t db = Inr db'"
        and ld: "load_plan collation (rp_plan_id r) db' = Inr (ro_plan out)"
        by (rule reserve_plan_fresh) blast
      from i obtain p where ins: "plan_inserted r (request_digest d r) p db db'" by (rule insert_plan_result)
      have pl: "plan_intents (rp_plan_id r) db' = intent_list r" "plan_reservations (rp_plan_id r) db' = rp_reservations r"
        using plan_inserted_lookup[OF ins] inv by (simp_all add: paper_inv_def)
      have "plan_written r (request_digest d r) t db db'"
        using insert_plan_written[OF i l] inv by (simp add: paper_inv_def)
      moreover have "list_all (\<lambda>x. \<exists>b. lookup_row balance_key (account, ri_venue x, ri_asset x) (pd_balances db) = Some b
          \<and> ri_amount x \<le> pb_observed_free b - pb_local_reserved b) (rp_reservations r)"
        using lock_and_check_balances_ok[OF l] validate_request_ok(1)[OF v] unfolding list_all_iff by metis
      moreover have "pl_plan_id (rc_plan (ro_plan out)) = rp_plan_id r"
        using ld by (rule load_plan_id)
      ultimately show ?thesis using load_plan_contents[OF ld] pl t False Inr by auto
    qed
  qed
qed

lemma canonical_reordered:
  assumes "r' = r\<lparr>rp_intents := rp_intents r', rp_reservations := rp_reservations r'\<rparr>"
    and "rp_intents r' \<in> {rp_intents r, prod.swap (rp_intents r)}"
    and "mset (rp_reservations r') = mset (rp_reservations r)"
    and "validate_request r a i = Inr ()"
  shows "canonical r' = canonical r"
proof -
  have "inj_on reservation_order (set (rp_reservations r'))"
    using validate_request_ok(5)[OF assms(4)] mset_eq_setD[OF assms(3)] by (simp add: distinct_map)
  then have "sort_key reservation_order (rp_reservations r') = sort_key reservation_order (rp_reservations r)"
    by (intro sort_key_inj_key_eq) (simp_all add: assms(3))
  moreover have "(case rp_intents r' of (a, b) \<Rightarrow> if oi_leg_id b < oi_leg_id a then (b, a) else (a, b))
    = (case rp_intents r of (a, b) \<Rightarrow> if oi_leg_id b < oi_leg_id a then (b, a) else (a, b))"
    using assms(2) validate_request_ok(6)[OF assms(4)] by (cases "rp_intents r") auto
  ultimately show ?thesis by (subst assms(1)) (simp add: canonical_def)
qed

text \<open>After a successful reservation, the plan can be found again under its request.\<close>

lemma reserve_plan_findable:
  assumes "paper_inv db" "reserve_plan collation d account instrument r now db = (Inr out, db')"
  obtains p where "find (\<lambda>p. pl_request_id p = rp_request_id r) (pd_plans db') = Some p"
    "pl_request_digest p = request_digest d r" "load_plan collation (pl_plan_id p) db' = Inr (ro_plan out)"
    "validate_request r account instrument = Inr ()"
proof (cases "ro_idempotent_replay out")
  case True
  with assms(2) show thesis
    by (intro that[of "the (find (\<lambda>p. pl_request_id p = rp_request_id r) (pd_plans db))"])
      (auto simp: reserve_plan_def split: sum.splits option.splits if_splits)
next
  case False
  from assms(2) False obtain t where v: "validate_request r account instrument = Inr ()"
    and none: "\<forall>p \<in> set (pd_plans db). pl_request_id p \<noteq> rp_request_id r"
    and i: "insert_plan r (request_digest d r) t db = Inr db'"
    and ld: "load_plan collation (rp_plan_id r) db' = Inr (ro_plan out)"
    by (rule reserve_plan_fresh) blast
  from i obtain p where ins: "plan_inserted r (request_digest d r) p db db'" by (rule insert_plan_result)
  then have p: "pd_plans db' = pd_plans db @ [p]" "pl_request_id p = rp_request_id r"
    "pl_request_digest p = request_digest d r" "pl_plan_id p = rp_plan_id r"
    unfolding plan_inserted_def by blast+
  have "lookup_row pl_request_id (rp_request_id r) (pd_plans db) = None"
    using none by (auto simp: lookup_row_None_iff)
  then have "find (\<lambda>p. pl_request_id p = rp_request_id r) (pd_plans db') = Some p"
    using lookup_row_append[of pl_request_id "rp_request_id r" "pd_plans db" "[p]"] p
    by (simp add: lookup_row_def)
  then show thesis using that p ld v by simp
qed

text \<open>Repeating a request, with its intents and reservations in any order, returns the plan that
  was stored and changes nothing; reusing its id for content with another digest is refused.\<close>

theorem reserve_plan_replay:
  assumes "paper_reachable d db" "reserve_plan collation d account instrument r now db = (Inr out, db')"
    and "validate_request r' account instrument = Inr ()" "to_i64 now' = Inr t"
    and "rp_request_id r' = rp_request_id r"
  shows "(r' = r\<lparr>rp_intents := rp_intents r', rp_reservations := rp_reservations r'\<rparr>
      \<and> rp_intents r' \<in> {rp_intents r, prod.swap (rp_intents r)}
      \<and> mset (rp_reservations r') = mset (rp_reservations r)
      \<longrightarrow> reserve_plan collation d account instrument r' now' db'
          = (Inr \<lparr>ro_idempotent_replay = True, ro_plan = ro_plan out\<rparr>, db'))
    \<and> (request_digest d r' \<noteq> request_digest d r \<longrightarrow>
        reserve_plan collation d account instrument r' now' db'
          = (Inl (Bail ''request_id is already bound to different plan content''), db'))"
proof -
  obtain p where p: "find (\<lambda>p. pl_request_id p = rp_request_id r) (pd_plans db') = Some p"
    "pl_request_digest p = request_digest d r" "load_plan collation (pl_plan_id p) db' = Inr (ro_plan out)"
    and v: "validate_request r account instrument = Inr ()"
    using reserve_plan_findable[OF paper_reachable_inv[OF assms(1)] assms(2)] .
  show ?thesis
  proof (intro conjI impI, elim conjE)
    assume "r' = r\<lparr>rp_intents := rp_intents r', rp_reservations := rp_reservations r'\<rparr>"
      "rp_intents r' \<in> {rp_intents r, prod.swap (rp_intents r)}"
      "mset (rp_reservations r') = mset (rp_reservations r)"
    from canonical_reordered[OF this v] have "request_digest d r' = request_digest d r"
      by (simp add: request_digest_def)
    then show "reserve_plan collation d account instrument r' now' db'
          = (Inr \<lparr>ro_idempotent_replay = True, ro_plan = ro_plan out\<rparr>, db')"
      using p assms(3-5) by (simp add: reserve_plan_def)
  qed (use p assms(3-5) in \<open>simp add: reserve_plan_def\<close>)
qed

section \<open>Witnesses\<close>

definition sample_intent :: "string \<Rightarrow> string \<Rightarrow> order_side \<Rightarrow> order_intent_input" where
  "sample_intent leg venue side = \<lparr>oi_intent_id = leg @ ''-i'', oi_leg_id = leg, oi_attempt_id = leg @ ''-a'',
     oi_client_order_id = leg @ ''-c'', oi_venue = venue, oi_side = side, oi_quantity = 1,
     oi_limit_price = 90\<rparr>"

definition sample_request :: reserve_plan_request where
  "sample_request = \<lparr>rp_request_id = ''r1'', rp_plan_id = ''p1'', rp_account_id = ''main'',
     rp_instrument_id = ''BTC'', rp_opportunity_id = ''o1'', rp_strategy_config_version = ''v1'',
     rp_target_quantity = 1, rp_max_unmatched_exposure = 1,
     rp_intents = (sample_intent ''buy'' ''binance'' Buy, sample_intent ''sell'' ''bybit'' Sell),
     rp_reservations = [\<lparr>ri_reservation_id = ''q'', ri_venue = ''binance'', ri_asset = ''USDT'', ri_amount = 90\<rparr>,
       \<lparr>ri_reservation_id = ''b'', ri_venue = ''bybit'', ri_asset = ''BTC'', ri_amount = 1\<rparr>]\<rparr>"

definition sample_hash :: "reserve_plan_request \<Rightarrow> string" where
  "sample_hash r = replicate 64 CHR ''0''"

definition "paper_0 = snd (set_paper_balance ''main'' ''bybit'' ''BTC'' 2 2 5
  (snd (set_paper_balance ''main'' ''binance'' ''USDT'' 100 100 5
    \<lparr>pd_balances = [], pd_plans = [], pd_risk = [], pd_intents = [], pd_reservations = [], pd_audit = []\<rparr>)))"

lemmas sample_ids = validate_id_def trim_def trim_start_def is_whitespace_def

lemma paper_0_reachable: "paper_reachable sample_hash paper_0"
  unfolding paper_0_def by (intro paper_reachable.intros)

lemma paper_0_eval: "paper_0 = \<lparr>pd_balances = [
    \<lparr>pb_account_id = ''main'', pb_venue = ''binance'', pb_asset = ''USDT'', pb_observed_total = 100,
     pb_observed_free = 100, pb_local_reserved = 0, pb_observed_at_ms = 5\<rparr>,
    \<lparr>pb_account_id = ''main'', pb_venue = ''bybit'', pb_asset = ''BTC'', pb_observed_total = 2,
     pb_observed_free = 2, pb_local_reserved = 0, pb_observed_at_ms = 5\<rparr>],
   pd_plans = [], pd_risk = [], pd_intents = [], pd_reservations = [], pd_audit = []\<rparr>"
  by (simp add: paper_0_def set_paper_balance_def sample_ids balance_key_def Let_def)

lemma sample_request_valid: "validate_request sample_request ''main'' ''BTC'' = Inr ()"
  by (simp add: validate_request_def sample_request_def sample_intent_def intent_list_def sample_ids)

lemma sample_locked: "lock_and_check_balances sample_request paper_0 = Inr ()"
  by (simp add: lock_and_check_balances_def sample_request_def paper_0_eval reservation_order_def
      balance_key_def insort_key_def)

lemma sample_inserted: "is_ok (insert_plan sample_request (sample_hash r) 9 paper_0)"
  by (simp add: insert_plan_def insert_plan_row_def insert_risk_def insert_intent_def insert_audit_def
      reserve_one_def sample_request_def sample_intent_def sample_hash_def paper_0_eval
      balance_key_def Let_def is_ok_iff)

lemma sample_find: "find (\<lambda>p. pl_request_id p = rp_request_id sample_request) (pd_plans paper_0) = None"
  by (simp add: paper_0_eval)

lemma sample_reserved:
  obtains out db' where "reserve_plan id sample_hash ''main'' ''BTC'' sample_request 9 paper_0 = (Inr out, db')"
    "\<not> ro_idempotent_replay out"
proof -
  obtain db' where i: "insert_plan sample_request (request_digest sample_hash sample_request) 9 paper_0 = Inr db'"
    using sample_inserted[of "canonical sample_request"] by (auto simp: is_ok_iff request_digest_def)
  from i obtain p where ins: "plan_inserted sample_request (request_digest sample_hash sample_request) p paper_0 db'"
    by (rule insert_plan_result)
  have "plans_inv paper_0" using paper_reachable_inv[OF paper_0_reachable] by (simp add: paper_inv_def)
  from plan_inserted_lookup(1)[OF ins this] obtain plan where
    "load_plan (id :: string \<Rightarrow> string) (rp_plan_id sample_request) db' = Inr plan" by (simp add: load_plan_def)
  with i show thesis
    by (intro that[of "\<lparr>ro_idempotent_replay = False, ro_plan = plan\<rparr>" db'])
      (simp_all add: reserve_plan_def sample_request_valid sample_locked sample_find)
qed

lemma paper_funds_backed_witness:
  "\<exists>b \<in> set (pd_balances paper_0). pb_observed_free b = 100
     \<and> pb_local_reserved b = sum_reserved (balance_key b) (pd_reservations paper_0)"
proof -
  have "\<exists>b \<in> set (pd_balances paper_0). pb_observed_free b = 100" by (simp add: paper_0_eval)
  with paper_funds_backed[OF paper_0_reachable] show ?thesis by blast
qed

lemma reserve_plan_commits_whole_witness:
  "\<exists>out db'. reserve_plan id sample_hash ''main'' ''BTC'' sample_request 9 paper_0 = (Inr out, db')
     \<and> plan_written sample_request (sample_hash sample_request) 9 paper_0 db'
     \<and> mset (rc_intents (ro_plan out)) = mset (intent_list sample_request)"
proof (rule sample_reserved)
  fix out db'
  assume run: "reserve_plan id sample_hash ''main'' ''BTC'' sample_request 9 paper_0 = (Inr out, db')" "\<not> ro_idempotent_replay out"
  have "request_digest sample_hash sample_request = sample_hash sample_request" by (simp add: request_digest_def sample_hash_def)
  with reserve_plan_commits_whole[OF paper_0_reachable run(1)] run show ?thesis by auto
qed

lemma reserve_plan_replay_witness:
  "\<exists>out db'. reserve_plan id sample_hash ''main'' ''BTC'' sample_request 9 paper_0 = (Inr out, db')
     \<and> reserve_plan id sample_hash ''main'' ''BTC'' sample_request 10 db'
         = (Inr \<lparr>ro_idempotent_replay = True, ro_plan = ro_plan out\<rparr>, db')"
proof (rule sample_reserved)
  fix out db'
  assume r: "reserve_plan id sample_hash ''main'' ''BTC'' sample_request 9 paper_0 = (Inr out, db')"
  have "to_i64 10 = Inr 10" by simp
  from reserve_plan_replay[OF paper_0_reachable r sample_request_valid this] r show ?thesis by simp
qed

end
