(* ===== verification/Execution.thy ===== *)
theory Execution
  imports Db_Common
begin

text \<open>
  The double-leg execution core, \<open>crates/core/src/execution.rs\<close> with the tables of migration 0003:
  the limits of a plan, and the evaluation of the two legs' fills, which completes the plan,
  plans a compensation, or escalates to a human, appending one event and one decision each time.
\<close>

section \<open>Data\<close>

datatype execution_state = Planned | Running | CompensationPlanned | Completed | ManualRequired

datatype compensation_decision = NoAction | CompensationDecided | ManualEscalated

fun execution_state_as_str :: "execution_state \<Rightarrow> string" where
  "execution_state_as_str Planned = ''PLANNED''"
| "execution_state_as_str Running = ''RUNNING''"
| "execution_state_as_str CompensationPlanned = ''COMPENSATION_PLANNED''"
| "execution_state_as_str Completed = ''COMPLETED''"
| "execution_state_as_str ManualRequired = ''MANUAL_REQUIRED''"

fun decision_as_str :: "compensation_decision \<Rightarrow> string" where
  "decision_as_str NoAction = ''NO_ACTION''"
| "decision_as_str CompensationDecided = ''COMPENSATION_PLANNED''"
| "decision_as_str ManualEscalated = ''MANUAL_REQUIRED''"

definition parse_execution_state :: "string \<Rightarrow> execution_state result" where
  "parse_execution_state v =
     (if v = ''PLANNED'' then Inr Planned else if v = ''RUNNING'' then Inr Running
      else if v = ''COMPENSATION_PLANNED'' then Inr CompensationPlanned
      else if v = ''COMPLETED'' then Inr Completed
      else if v = ''MANUAL_REQUIRED'' then Inr ManualRequired
      else Inl (Bail ''unknown B-03 execution state''))"

record execution_fact =
  ef_plan_id :: string
  ef_target_quantity :: decimal
  ef_max_unmatched_exposure :: decimal
  ef_compensation_budget :: decimal
  ef_state :: execution_state
  ef_leg_a_filled :: decimal
  ef_leg_b_filled :: decimal
  ef_unmatched_quantity :: decimal
  ef_unmatched_exposure :: decimal
  ef_compensation_spent :: decimal
  ef_last_version :: int
  ef_updated_at_ms :: int

record execution_event =
  ev_event_id :: string
  ev_plan_id :: string
  ev_event_version :: int
  ev_event_type :: string
  ev_occurred_at_ms :: int
  ev_payload :: "(string \<times> payload_value) list"

record decision_row =
  de_decision_id :: string
  de_plan_id :: string
  de_event_version :: int
  de_decision :: compensation_decision
  de_quantity :: decimal
  de_estimated_cost :: decimal
  de_reason :: string
  de_created_at_ms :: int

record compensation_outcome =
  out_decision :: compensation_decision
  out_quantity :: decimal
  out_estimated_cost :: decimal
  out_reason :: string
  out_snapshot :: execution_fact

record execution_db =
  xd_plans :: "(string \<times> string \<times> string) list"
  xd_facts :: "execution_fact list"
  xd_events :: "execution_event list"
  xd_decisions :: "decision_row list"

section \<open>Operations\<close>

definition load_execution :: "string \<Rightarrow> execution_db \<Rightarrow> execution_fact result" where
  "load_execution plan_id db = (case lookup_row ef_plan_id plan_id (xd_facts db) of
     None \<Rightarrow> Inl (Bail ''failed to load B-03 execution fact'') | Some f \<Rightarrow> Inr f)"

definition initialize_plan :: "string \<Rightarrow> string \<Rightarrow> string \<Rightarrow> decimal \<Rightarrow> decimal \<Rightarrow> decimal \<Rightarrow> u64
    \<Rightarrow> execution_db \<Rightarrow> execution_fact result \<times> execution_db" where
  "initialize_plan account instrument plan_id target_quantity max_unmatched_exposure compensation_budget now db =
     (case then_do (validate_id plan_id) (\<lambda>_.
        if target_quantity \<le> 0 \<or> max_unmatched_exposure < 0 \<or> compensation_budget < 0
        then Inl (Bail ''B-03 execution limits have invalid values'')
        else if (plan_id, account, instrument) \<notin> set (xd_plans db)
        then Inl (Bail ''B-03 execution plan is missing or outside the held domain'')
        else then_do (to_i64 now) (\<lambda>now.
          if lookup_row ef_plan_id plan_id (xd_facts db) \<noteq> None then Inr db
          else Inr (db\<lparr>xd_facts := xd_facts db @
            [\<lparr>ef_plan_id = plan_id, ef_target_quantity = target_quantity,
              ef_max_unmatched_exposure = max_unmatched_exposure,
              ef_compensation_budget = compensation_budget, ef_state = Planned,
              ef_leg_a_filled = 0, ef_leg_b_filled = 0, ef_unmatched_quantity = 0,
              ef_unmatched_exposure = 0, ef_compensation_spent = 0, ef_last_version = 0,
              ef_updated_at_ms = now\<rparr>]\<rparr>))) of
        Inl e \<Rightarrow> (Inl e, db)
      | Inr db' \<Rightarrow> (then_do (load_execution plan_id db') (\<lambda>snapshot.
          if ef_target_quantity snapshot \<noteq> target_quantity
            \<or> ef_max_unmatched_exposure snapshot \<noteq> max_unmatched_exposure
            \<or> ef_compensation_budget snapshot \<noteq> compensation_budget
          then Inl (Bail ''B-03 plan was initialized with conflicting limits'')
          else Inr snapshot), db'))"

text \<open>The decision on two fills, given the limits and what was spent so far.\<close>

definition decide :: "execution_fact \<Rightarrow> decimal \<Rightarrow> decimal \<Rightarrow> decimal \<Rightarrow> decimal
    \<Rightarrow> execution_state \<times> compensation_decision \<times> string" where
  "decide current leg_a_filled leg_b_filled exposure estimated_cost =
     (if leg_a_filled > ef_target_quantity current \<or> leg_b_filled > ef_target_quantity current
      then (ManualRequired, ManualEscalated, ''a leg exceeded the planned target quantity'')
      else if \<bar>leg_a_filled - leg_b_filled\<bar> = 0
      then (Completed, NoAction, ''both legs are matched'')
      else if exposure > ef_max_unmatched_exposure current
        \<or> ef_compensation_spent current + estimated_cost > ef_compensation_budget current
      then (ManualRequired, ManualEscalated, ''unmatched exposure or compensation budget exceeded'')
      else (CompensationPlanned, CompensationDecided,
            ''partial fill is within the configured compensation budget''))"

definition event_type_of :: "compensation_decision \<Rightarrow> string" where
  "event_type_of d = (case d of NoAction \<Rightarrow> ''COMPLETED'' | CompensationDecided \<Rightarrow> ''COMPENSATION_DECIDED''
     | ManualEscalated \<Rightarrow> ''MANUAL_ESCALATED'')"

definition append_event :: "string \<Rightarrow> int \<Rightarrow> string \<Rightarrow> int \<Rightarrow> (string \<times> payload_value) list
    \<Rightarrow> execution_db \<Rightarrow> execution_db result" where
  "append_event plan_id version event_type now payload db =
     (if \<exists>e \<in> set (xd_events db). ev_event_id e = versioned_id plan_id version
           \<or> (ev_plan_id e = plan_id \<and> ev_event_version e = version)
      then Inl (Bail ''failed to append B-03 execution event'')
      else Inr (db\<lparr>xd_events := xd_events db @
        [\<lparr>ev_event_id = versioned_id plan_id version, ev_plan_id = plan_id, ev_event_version = version,
          ev_event_type = event_type, ev_occurred_at_ms = now, ev_payload = payload\<rparr>]\<rparr>))"

definition decision_prefix :: "string \<Rightarrow> string" where
  "decision_prefix plan_id = plan_id @ '':decision''"

definition append_decision :: "string \<Rightarrow> int \<Rightarrow> compensation_decision \<Rightarrow> decimal \<Rightarrow> decimal \<Rightarrow> string
    \<Rightarrow> int \<Rightarrow> execution_db \<Rightarrow> execution_db result" where
  "append_decision plan_id version decision quantity estimated_cost reason now db =
     (if \<exists>d \<in> set (xd_decisions db). de_decision_id d = versioned_id (decision_prefix plan_id) version
           \<or> (de_plan_id d = plan_id \<and> de_event_version d = version)
      then Inl (Bail ''failed to persist B-03 compensation decision'')
      else Inr (db\<lparr>xd_decisions := xd_decisions db @
        [\<lparr>de_decision_id = versioned_id (decision_prefix plan_id) version, de_plan_id = plan_id,
          de_event_version = version, de_decision = decision, de_quantity = quantity,
          de_estimated_cost = estimated_cost, de_reason = reason, de_created_at_ms = now\<rparr>]\<rparr>))"

definition evaluate :: "string \<Rightarrow> decimal \<Rightarrow> decimal \<Rightarrow> decimal \<Rightarrow> decimal \<Rightarrow> u64
    \<Rightarrow> execution_db \<Rightarrow> compensation_outcome result \<times> execution_db" where
  "evaluate plan_id leg_a_filled leg_b_filled exposure_per_unit cost_per_unit now db =
     (case then_do (validate_id plan_id) (\<lambda>_.
        if leg_a_filled < 0 \<or> leg_b_filled < 0 \<or> exposure_per_unit < 0 \<or> cost_per_unit < 0
        then Inl (Bail ''B-03 fill and compensation values must be non-negative'')
        else then_do (case lookup_row ef_plan_id plan_id (xd_facts db) of
            None \<Rightarrow> Inl (Bail ''B-03 execution fact is missing'') | Some f \<Rightarrow> Inr f) (\<lambda>current.
        if ef_state current \<in> {Completed, ManualRequired}
        then Inl (Bail ''B-03 execution is terminal and cannot be evaluated again'')
        else if leg_a_filled < ef_leg_a_filled current \<or> leg_b_filled < ef_leg_b_filled current
        then Inl (Bail ''B-03 leg fills cannot move backwards'')
        else let mismatch = \<bar>leg_a_filled - leg_b_filled\<bar>;
                 exposure = mismatch * exposure_per_unit;
                 estimated_cost = mismatch * cost_per_unit;
                 (state, decision, reason) = decide current leg_a_filled leg_b_filled exposure estimated_cost;
                 version = ef_last_version current + 1
        in then_do (to_i64 now) (\<lambda>now.
           then_do (append_event plan_id version (event_type_of decision) now
             [(''leg_a_filled'', PDecimal leg_a_filled), (''leg_b_filled'', PDecimal leg_b_filled),
              (''unmatched_quantity'', PDecimal mismatch), (''unmatched_exposure'', PDecimal exposure),
              (''estimated_cost'', PDecimal estimated_cost), (''decision'', PText (decision_as_str decision))] db) (\<lambda>db.
           then_do (append_decision plan_id version decision mismatch estimated_cost reason now db) (\<lambda>db.
           Inr (decision, mismatch, estimated_cost, reason, db\<lparr>xd_facts := put_row ef_plan_id
             (current\<lparr>ef_state := state, ef_leg_a_filled := leg_a_filled, ef_leg_b_filled := leg_b_filled,
               ef_unmatched_quantity := mismatch, ef_unmatched_exposure := exposure,
               ef_compensation_spent := ef_compensation_spent current + estimated_cost,
               ef_last_version := version, ef_updated_at_ms := now\<rparr>) (xd_facts db)\<rparr>)))))) of
        Inl e \<Rightarrow> (Inl e, db)
      | Inr (decision, mismatch, estimated_cost, reason, db') \<Rightarrow>
          (then_do (load_execution plan_id db') (\<lambda>snapshot.
             Inr \<lparr>out_decision = decision, out_quantity = mismatch, out_estimated_cost = estimated_cost,
                  out_reason = reason, out_snapshot = snapshot\<rparr>), db'))"

section \<open>Round trip of the stored state\<close>

lemma parse_execution_state_as_str: "parse_execution_state (execution_state_as_str s) = Inr s"
  by (cases s) (simp_all add: parse_execution_state_def)

section \<open>The invariant\<close>

interpretation events: numbered_log ev_plan_id ev_event_version ev_event_id "\<lambda>p. p"
  by unfold_locales simp

interpretation decisions: numbered_log de_plan_id de_event_version de_decision_id decision_prefix
  by unfold_locales (simp add: decision_prefix_def)

definition costs_of :: "string \<Rightarrow> execution_db \<Rightarrow> decimal list" where
  "costs_of p db = map de_estimated_cost (decisions.entries p (xd_decisions db))"

definition limits_inv :: "execution_fact \<Rightarrow> bool" where
  "limits_inv f \<longleftrightarrow> 0 < ef_target_quantity f \<and> 0 \<le> ef_leg_a_filled f \<and> 0 \<le> ef_leg_b_filled f
     \<and> 0 \<le> ef_compensation_spent f \<and> ef_state f \<noteq> Running
     \<and> ef_unmatched_quantity f = \<bar>ef_leg_a_filled f - ef_leg_b_filled f\<bar>
     \<and> (ef_state f \<noteq> ManualRequired \<longrightarrow> ef_leg_a_filled f \<le> ef_target_quantity f
          \<and> ef_leg_b_filled f \<le> ef_target_quantity f
          \<and> ef_compensation_spent f \<le> ef_compensation_budget f
          \<and> ef_unmatched_exposure f \<le> ef_max_unmatched_exposure f)
     \<and> (ef_state f = Planned \<longrightarrow> ef_last_version f = 0 \<and> ef_leg_a_filled f = 0 \<and> ef_leg_b_filled f = 0)
     \<and> (ef_state f = Completed \<longrightarrow> ef_leg_a_filled f = ef_leg_b_filled f)
     \<and> (ef_state f = CompensationPlanned \<longrightarrow> ef_leg_a_filled f \<noteq> ef_leg_b_filled f)
     \<and> 0 \<le> ef_compensation_budget f \<and> 0 \<le> ef_max_unmatched_exposure f"

definition exec_fact_inv :: "execution_db \<Rightarrow> execution_fact \<Rightarrow> bool" where
  "exec_fact_inv db f \<longleftrightarrow> limits_inv f
     \<and> events.numbered (ef_plan_id f) (ef_last_version f) (xd_events db)
     \<and> decisions.numbered (ef_plan_id f) (ef_last_version f) (xd_decisions db)
     \<and> ef_compensation_spent f = sum_list (costs_of (ef_plan_id f) db)"

definition execution_inv :: "execution_db \<Rightarrow> bool" where
  "execution_inv db \<longleftrightarrow> table_ok ef_plan_id (xd_facts db) \<and> (\<forall>f \<in> set (xd_facts db). exec_fact_inv db f)
     \<and> (\<forall>e \<in> set (xd_events db). ev_plan_id e \<in> ef_plan_id ` set (xd_facts db))
     \<and> (\<forall>d \<in> set (xd_decisions db). de_plan_id d \<in> ef_plan_id ` set (xd_facts db))"

text \<open>What a committed evaluation changes.\<close>

definition evaluated :: "execution_fact \<Rightarrow> decimal \<Rightarrow> decimal \<Rightarrow> decimal \<Rightarrow> decimal \<Rightarrow> int \<Rightarrow> execution_fact" where
  "evaluated f a b u c now =
     f\<lparr>ef_state := fst (decide f a b (\<bar>a - b\<bar> * u) (\<bar>a - b\<bar> * c)), ef_leg_a_filled := a, ef_leg_b_filled := b,
       ef_unmatched_quantity := \<bar>a - b\<bar>, ef_unmatched_exposure := \<bar>a - b\<bar> * u,
       ef_compensation_spent := ef_compensation_spent f + \<bar>a - b\<bar> * c,
       ef_last_version := ef_last_version f + 1, ef_updated_at_ms := now\<rparr>"

definition evaluable :: "execution_fact \<Rightarrow> decimal \<Rightarrow> decimal \<Rightarrow> decimal \<Rightarrow> decimal \<Rightarrow> bool" where
  "evaluable f a b u c \<longleftrightarrow> ef_state f \<notin> {Completed, ManualRequired}
     \<and> ef_leg_a_filled f \<le> a \<and> ef_leg_b_filled f \<le> b \<and> 0 \<le> a \<and> 0 \<le> b \<and> 0 \<le> u \<and> 0 \<le> c"

lemma evaluated_limits:
  assumes "limits_inv f" "evaluable f a b u c"
  shows "limits_inv (evaluated f a b u c now)"
proof -
  have "0 \<le> \<bar>a - b\<bar> * c" using assms(2) by (simp add: evaluable_def)
  then show ?thesis using assms
    by (auto simp: limits_inv_def evaluated_def decide_def evaluable_def)
qed

lemma evaluate_cases:
  assumes "snd (evaluate p a b u c now db) \<noteq> db"
  obtains f n e d where "lookup_row ef_plan_id p (xd_facts db) = Some f" "evaluable f a b u c"
    "to_i64 now = Inr n"
    "ev_plan_id e = p" "ev_event_version e = ef_last_version f + 1" "ev_event_id e = versioned_id p (ef_last_version f + 1)"
    "de_plan_id d = p" "de_event_version d = ef_last_version f + 1"
    "de_decision_id d = versioned_id (decision_prefix p) (ef_last_version f + 1)"
    "de_estimated_cost d = \<bar>a - b\<bar> * c"
    "snd (evaluate p a b u c now db) = db\<lparr>xd_events := xd_events db @ [e], xd_decisions := xd_decisions db @ [d],
       xd_facts := put_row ef_plan_id (evaluated f a b u c n) (xd_facts db)\<rparr>"
proof -
  have id: "validate_id p = Inr ()" and nn: "\<not> (a < 0 \<or> b < 0 \<or> u < 0 \<or> c < 0)"
    using assms by (auto simp: evaluate_def then_do_def split: sum.splits if_splits)
  obtain f where f: "lookup_row ef_plan_id p (xd_facts db) = Some f"
    using assms id nn by (cases "lookup_row ef_plan_id p (xd_facts db)") (auto simp: evaluate_def)
  have ev: "evaluable f a b u c"
    using assms id nn f by (simp add: evaluate_def evaluable_def not_less split: if_splits)
  obtain st dc rs where dec: "decide f a b (\<bar>a - b\<bar> * u) (\<bar>a - b\<bar> * c) = (st, dc, rs)"
    by (cases "decide f a b (\<bar>a - b\<bar> * u) (\<bar>a - b\<bar> * c)") auto
  obtain n where n: "to_i64 now = Inr n"
    using assms id nn f ev dec by (cases "to_i64 now") (simp_all add: evaluate_def evaluable_def)
  let ?v = "ef_last_version f + 1"
  let ?p = "[(''leg_a_filled'', PDecimal a), (''leg_b_filled'', PDecimal b),
       (''unmatched_quantity'', PDecimal \<bar>a - b\<bar>), (''unmatched_exposure'', PDecimal (\<bar>a - b\<bar> * u)),
       (''estimated_cost'', PDecimal (\<bar>a - b\<bar> * c)), (''decision'', PText (decision_as_str dc))]"
  let ?e = "\<lparr>ev_event_id = versioned_id p ?v, ev_plan_id = p, ev_event_version = ?v,
    ev_event_type = event_type_of dc, ev_occurred_at_ms = n, ev_payload = ?p\<rparr>"
  let ?d = "\<lparr>de_decision_id = versioned_id (decision_prefix p) ?v, de_plan_id = p, de_event_version = ?v,
    de_decision = dc, de_quantity = \<bar>a - b\<bar>, de_estimated_cost = \<bar>a - b\<bar> * c, de_reason = rs,
    de_created_at_ms = n\<rparr>"
  have run: "snd (evaluate p a b u c now db) =
    (case then_do (append_event p ?v (event_type_of dc) n ?p db) (\<lambda>db.
        then_do (append_decision p ?v dc \<bar>a - b\<bar> (\<bar>a - b\<bar> * c) rs n db) (\<lambda>db.
        Inr (dc, \<bar>a - b\<bar>, \<bar>a - b\<bar> * c, rs, db\<lparr>xd_facts := put_row ef_plan_id (evaluated f a b u c n) (xd_facts db)\<rparr>))) of
      Inl e \<Rightarrow> db | Inr (_, _, _, _, db') \<Rightarrow> db')"
    using id nn f ev dec n
    by (simp add: evaluate_def evaluable_def evaluated_def Let_def sum.case_distrib[where h = snd]
        prod.case_distrib[where h = snd] cong: sum.case_cong)
  obtain db1 where one: "append_event p ?v (event_type_of dc) n ?p db = Inr db1"
    using assms run by (cases "append_event p ?v (event_type_of dc) n ?p db") simp_all
  then have db1: "db1 = db\<lparr>xd_events := xd_events db @ [?e]\<rparr>"
    by (simp add: append_event_def split: if_splits)
  obtain db2 where two: "append_decision p ?v dc \<bar>a - b\<bar> (\<bar>a - b\<bar> * c) rs n db1 = Inr db2"
    using assms run one by (cases "append_decision p ?v dc \<bar>a - b\<bar> (\<bar>a - b\<bar> * c) rs n db1") simp_all
  then have db2: "db2 = db1\<lparr>xd_decisions := xd_decisions db1 @ [?d]\<rparr>"
    by (simp add: append_decision_def split: if_splits)
  show thesis
    by (rule that[OF f ev n, of ?e ?d]) (simp_all add: run one two, simp add: db1 db2)
qed

lemma evaluate_inv:
  assumes inv: "execution_inv db"
  shows "execution_inv (snd (evaluate p a b u c now db))"
proof (cases "snd (evaluate p a b u c now db) = db")
  case False
  then obtain f n e d where f: "lookup_row ef_plan_id p (xd_facts db) = Some f" "evaluable f a b u c"
    and e: "ev_plan_id e = p" "ev_event_version e = ef_last_version f + 1" "ev_event_id e = versioned_id p (ef_last_version f + 1)"
    and d: "de_plan_id d = p" "de_event_version d = ef_last_version f + 1"
      "de_decision_id d = versioned_id (decision_prefix p) (ef_last_version f + 1)"
      "de_estimated_cost d = \<bar>a - b\<bar> * c"
    and db': "snd (evaluate p a b u c now db) = db\<lparr>xd_events := xd_events db @ [e], xd_decisions := xd_decisions db @ [d],
       xd_facts := put_row ef_plan_id (evaluated f a b u c n) (xd_facts db)\<rparr>"
    by (rule evaluate_cases)
  let ?db = "snd (evaluate p a b u c now db)" and ?f = "evaluated f a b u c n"
  have fm: "f \<in> set (xd_facts db)" "ef_plan_id f = p" using lookup_row_SomeD[OF f(1)] by auto
  have id: "ef_plan_id ?f = p" "ef_last_version ?f = ef_last_version f + 1" using fm by (simp_all add: evaluated_def)
  have ok: "table_ok ef_plan_id (xd_facts db)" and fi: "exec_fact_inv db f"
    using inv fm by (auto simp: execution_inv_def)
  have "exec_fact_inv ?db ?f"
    using fi fm id e d evaluated_limits[OF _ f(2)] unfolding db' exec_fact_inv_def
    by (auto simp: events.numbered_append_own decisions.numbered_append_own costs_of_def
        decisions.entries_def) (simp add: evaluated_def)
  moreover have "exec_fact_inv ?db g" if "g \<in> set (xd_facts db)" "ef_plan_id g \<noteq> p" for g
    using inv that e(1) d(1) unfolding db'
    by (auto simp: execution_inv_def exec_fact_inv_def events.numbered_append_other
        decisions.numbered_append_other costs_of_def decisions.entries_def)
  moreover have "set (xd_facts ?db) = insert ?f {g \<in> set (xd_facts db). ef_plan_id g \<noteq> p}"
    using set_put_row[OF ok, of ?f f] f(1) id by (simp add: db')
  moreover have "ef_plan_id ` set (xd_facts ?db) = ef_plan_id ` set (xd_facts db)"
  proof -
    have "map ef_plan_id (xd_facts ?db) = map ef_plan_id (xd_facts db)" by (simp add: db')
    then show ?thesis by (metis set_map)
  qed
  moreover have "p \<in> ef_plan_id ` set (xd_facts db)" using fm by blast
  ultimately show ?thesis
    using inv ok e(1) d(1) by (auto simp: execution_inv_def db')
qed (simp add: inv)

lemma initialize_plan_inv:
  assumes inv: "execution_inv db"
  shows "execution_inv (snd (initialize_plan ac i p t m bu now db))"
proof (cases "snd (initialize_plan ac i p t m bu now db) = db")
  case False
  then obtain f where f: "snd (initialize_plan ac i p t m bu now db) = db\<lparr>xd_facts := xd_facts db @ [f]\<rparr>"
    "ef_plan_id f = p" "ef_state f = Planned" "ef_leg_a_filled f = 0" "ef_leg_b_filled f = 0"
    "ef_unmatched_quantity f = 0" "ef_unmatched_exposure f = 0" "ef_compensation_spent f = 0"
    "ef_last_version f = 0" "0 < ef_target_quantity f" "0 \<le> ef_max_unmatched_exposure f"
    "0 \<le> ef_compensation_budget f" "lookup_row ef_plan_id p (xd_facts db) = None"
    by (auto simp: initialize_plan_def not_less not_le split: sum.splits option.splits if_splits)
  have absent: "p \<notin> ef_plan_id ` set (xd_facts db)" using f(13) by (simp add: lookup_row_None_iff)
  then have "\<forall>e \<in> set (xd_events db). ev_plan_id e \<noteq> p" "\<forall>d \<in> set (xd_decisions db). de_plan_id d \<noteq> p"
    using inv unfolding execution_inv_def by metis+
  then have "exec_fact_inv db f"
    using f by (simp add: exec_fact_inv_def limits_inv_def events.numbered_empty decisions.numbered_empty
        costs_of_def decisions.entries_def filter_empty_conv[THEN iffD2])
  then show ?thesis using inv f
    by (auto simp: execution_inv_def exec_fact_inv_def costs_of_def table_ok_append_row)
qed (simp add: inv)

inductive execution_reachable :: "execution_db \<Rightarrow> bool" where
  start: "execution_reachable \<lparr>xd_plans = ps, xd_facts = [], xd_events = [], xd_decisions = []\<rparr>"
| reserved: "execution_reachable db \<Longrightarrow> execution_reachable (db\<lparr>xd_plans := xd_plans db @ [pl]\<rparr>)"
| initialized: "execution_reachable db \<Longrightarrow> execution_reachable (snd (initialize_plan ac i p t m bu now db))"
| evaluated: "execution_reachable db \<Longrightarrow> execution_reachable (snd (evaluate p a b u c now db))"

lemma execution_reachable_inv: "execution_reachable db \<Longrightarrow> execution_inv db"
proof (induction rule: execution_reachable.induct)
  case (reserved db pl)
  then show ?case by (simp add: execution_inv_def exec_fact_inv_def costs_of_def)
qed (simp_all add: initialize_plan_inv evaluate_inv, simp add: execution_inv_def)

section \<open>Properties\<close>

text \<open>C9. In every reachable database an execution that has not been escalated is within its limits:
  neither leg above the target, spent at most the budget, exposure at most its maximum; it is
  completed only with equal legs, and what it spent is the sum of its decisions' costs.\<close>

theorem execution_within_limits:
  assumes "execution_reachable db" "f \<in> set (xd_facts db)"
  shows "ef_compensation_spent f = sum_list (costs_of (ef_plan_id f) db)
    \<and> (ef_state f \<noteq> ManualRequired \<longrightarrow> ef_leg_a_filled f \<le> ef_target_quantity f
         \<and> ef_leg_b_filled f \<le> ef_target_quantity f
         \<and> ef_compensation_spent f \<le> ef_compensation_budget f
         \<and> ef_unmatched_exposure f \<le> ef_max_unmatched_exposure f)
    \<and> (ef_state f = Completed \<longrightarrow> ef_leg_a_filled f = ef_leg_b_filled f)
    \<and> ef_state f \<noteq> Running"
  using execution_reachable_inv[OF assms(1)] assms(2)
  unfolding execution_inv_def exec_fact_inv_def limits_inv_def by blast

text \<open>The statements of an evaluation never fail once its guards hold.\<close>

lemma appends_succeed:
  assumes "execution_inv db" "lookup_row ef_plan_id p (xd_facts db) = Some f"
  shows "\<not> (\<exists>e \<in> set (xd_events db). ev_event_id e = versioned_id p (ef_last_version f + 1)
           \<or> (ev_plan_id e = p \<and> ev_event_version e = ef_last_version f + 1))"
    "\<not> (\<exists>d \<in> set (xd_decisions db). de_decision_id d = versioned_id (decision_prefix p) (ef_last_version f + 1)
           \<or> (de_plan_id d = p \<and> de_event_version d = ef_last_version f + 1))"
proof -
  have f: "f \<in> set (xd_facts db)" "ef_plan_id f = p" using lookup_row_SomeD[OF assms(2)] by auto
  have num: "events.numbered (ef_plan_id g) (ef_last_version g) (xd_events db)"
    "decisions.numbered (ef_plan_id g) (ef_last_version g) (xd_decisions db)" if "g \<in> set (xd_facts db)" for g
    using assms(1) that by (auto simp: execution_inv_def exec_fact_inv_def)
  have "\<forall>e \<in> set (xd_events db). \<exists>v. events.numbered (ev_plan_id e) v (xd_events db)"
    using assms(1) num(1) by (fastforce simp: execution_inv_def)
  then show "\<not> (\<exists>e \<in> set (xd_events db). ev_event_id e = versioned_id p (ef_last_version f + 1)
           \<or> (ev_plan_id e = p \<and> ev_event_version e = ef_last_version f + 1))"
    using events.next_free[of "xd_events db" p "ef_last_version f"] num(1)[OF f(1), unfolded f(2)] by blast
  have "\<forall>d \<in> set (xd_decisions db). \<exists>v. decisions.numbered (de_plan_id d) v (xd_decisions db)"
    using assms(1) num(2) by (fastforce simp: execution_inv_def)
  then show "\<not> (\<exists>d \<in> set (xd_decisions db). de_decision_id d = versioned_id (decision_prefix p) (ef_last_version f + 1)
           \<or> (de_plan_id d = p \<and> de_event_version d = ef_last_version f + 1))"
    using decisions.next_free[of "xd_decisions db" p "ef_last_version f"] num(2)[OF f(1), unfolded f(2)] by blast
qed

text \<open>An evaluation whose guards hold always commits, and decides by this order: escalate if a leg
  is above the target, complete if the legs are equal, escalate if the exposure or the budget
  would be exceeded, and otherwise plan the compensation and charge its cost.\<close>

theorem evaluate_outcome:
  assumes "execution_reachable db" "lookup_row ef_plan_id p (xd_facts db) = Some f" "evaluable f a b u c"
    and "validate_id p = Inr ()" "to_i64 now = Inr n"
  shows "\<exists>out db'. evaluate p a b u c now db = (Inr out, db')
    \<and> lookup_row ef_plan_id p (xd_facts db') = Some (out_snapshot out)
    \<and> ef_leg_a_filled (out_snapshot out) = a \<and> ef_leg_b_filled (out_snapshot out) = b
    \<and> ef_compensation_spent (out_snapshot out) = ef_compensation_spent f + \<bar>a - b\<bar> * c
    \<and> ef_last_version (out_snapshot out) = ef_last_version f + 1
    \<and> (ef_state (out_snapshot out), out_decision out) =
        (if max a b > ef_target_quantity f then (ManualRequired, ManualEscalated)
         else if a = b then (Completed, NoAction)
         else if \<bar>a - b\<bar> * u > ef_max_unmatched_exposure f
           \<or> ef_compensation_spent f + \<bar>a - b\<bar> * c > ef_compensation_budget f
         then (ManualRequired, ManualEscalated)
         else (CompensationPlanned, CompensationDecided))"
proof -
  have inv: "execution_inv db" using assms(1) by (rule execution_reachable_inv)
  obtain st dc rs where dec: "decide f a b (\<bar>a - b\<bar> * u) (\<bar>a - b\<bar> * c) = (st, dc, rs)"
    by (cases "decide f a b (\<bar>a - b\<bar> * u) (\<bar>a - b\<bar> * c)") auto
  have l: "lookup_row ef_plan_id p (put_row ef_plan_id (evaluated f a b u c n) (xd_facts db))
      = Some (evaluated f a b u c n)"
    using assms(2) lookup_row_SomeD[OF assms(2)] by (simp add: lookup_put_row evaluated_def)
  obtain out db' where ev: "evaluate p a b u c now db = (Inr out, db')"
    "out_snapshot out = evaluated f a b u c n" "out_decision out = dc"
    "xd_facts db' = put_row ef_plan_id (evaluated f a b u c n) (xd_facts db)"
    using assms(2-5) appends_succeed[OF inv assms(2)] dec l
    by (simp add: evaluate_def evaluable_def Let_def append_event_def append_decision_def load_execution_def
        evaluated_def not_less)
  have "(st, dc) = (if max a b > ef_target_quantity f then (ManualRequired, ManualEscalated)
         else if a = b then (Completed, NoAction)
         else if \<bar>a - b\<bar> * u > ef_max_unmatched_exposure f
           \<or> ef_compensation_spent f + \<bar>a - b\<bar> * c > ef_compensation_budget f
         then (ManualRequired, ManualEscalated)
         else (CompensationPlanned, CompensationDecided))"
    using dec by (auto simp: decide_def less_max_iff_disj split: if_splits)
  then show ?thesis using ev l dec by (simp add: evaluated_def)
qed

text \<open>Whatever call is made for whatever plan, a completed or escalated execution does not change,
  and no fill or spent amount ever falls.\<close>

theorem executions_monotone:
  assumes "execution_reachable db" "lookup_row ef_plan_id q (xd_facts db) = Some f"
    and "db' \<in> {snd (evaluate p a b u c now db), snd (initialize_plan ac i p t m bu now db)}"
  shows "\<exists>f'. lookup_row ef_plan_id q (xd_facts db') = Some f'
    \<and> (ef_state f \<in> {Completed, ManualRequired} \<or> q \<noteq> p \<longrightarrow> f' = f)
    \<and> ef_leg_a_filled f \<le> ef_leg_a_filled f' \<and> ef_leg_b_filled f \<le> ef_leg_b_filled f'
    \<and> ef_compensation_spent f \<le> ef_compensation_spent f'"
proof (cases "db' = db")
  case True
  then show ?thesis using assms(2) by auto
next
  case False
  then consider "db' = snd (evaluate p a b u c now db)" | "db' = snd (initialize_plan ac i p t m bu now db)"
    using assms(3) by blast
  then show ?thesis
  proof cases
    case 1
    with False have "snd (evaluate p a b u c now db) \<noteq> db" by simp
    then obtain g n e d where g: "lookup_row ef_plan_id p (xd_facts db) = Some g" "evaluable g a b u c"
      and db': "snd (evaluate p a b u c now db) = db\<lparr>xd_events := xd_events db @ [e], xd_decisions := xd_decisions db @ [d],
       xd_facts := put_row ef_plan_id (evaluated g a b u c n) (xd_facts db)\<rparr>"
      by (rule evaluate_cases)
    have "ef_plan_id (evaluated g a b u c n) = p" using lookup_row_SomeD[OF g(1)] by (simp add: evaluated_def)
    then show ?thesis using assms(2) g unfolding 1 db'
      by (cases "q = p") (auto simp: lookup_put_row evaluated_def evaluable_def)
  next
    case 2
    with False obtain x where "db' = db\<lparr>xd_facts := xd_facts db @ [x]\<rparr>"
      by (auto simp: initialize_plan_def split: sum.splits option.splits if_splits)
    then show ?thesis using assms(2) by (simp add: lookup_row_append)
  qed
qed

section \<open>Witnesses\<close>

definition "exec_0 = snd (initialize_plan ''main'' ''BTC'' ''p1'' 10 100 20 5
  \<lparr>xd_plans = [(''p1'', ''main'', ''BTC'')], xd_facts = [], xd_events = [], xd_decisions = []\<rparr>)"

definition "exec_1 = snd (evaluate ''p1'' 4 2 10 3 6 exec_0)"

lemma exec_0_reachable: "execution_reachable exec_0"
  unfolding exec_0_def by (intro execution_reachable.intros)

lemma exec_1_reachable: "execution_reachable exec_1"
  unfolding exec_1_def by (intro execution_reachable.intros exec_0_reachable)

lemma plan_id_ok: "validate_id ''p1'' = Inr ()"
  by (simp add: validate_id_def trim_def trim_start_def is_whitespace_def)

lemma exec_0_fact: "\<exists>f. lookup_row ef_plan_id ''p1'' (xd_facts exec_0) = Some f
   \<and> f \<in> set (xd_facts exec_0) \<and> evaluable f 4 2 10 3 \<and> ef_target_quantity f = 10
   \<and> ef_max_unmatched_exposure f = 100 \<and> ef_compensation_budget f = 20 \<and> ef_compensation_spent f = 0"
  by (simp add: exec_0_def initialize_plan_def plan_id_ok evaluable_def)

lemma execution_within_limits_witness:
  "\<exists>f \<in> set (xd_facts exec_1). ef_compensation_spent f \<le> ef_compensation_budget f \<and> ef_state f \<noteq> Running"
proof -
  obtain f where f: "lookup_row ef_plan_id ''p1'' (xd_facts exec_1) = Some f" "ef_state f = CompensationPlanned"
    by (simp add: exec_1_def exec_0_def initialize_plan_def evaluate_def plan_id_ok append_event_def
        append_decision_def decide_def Let_def)
  then have "f \<in> set (xd_facts exec_1)" by (auto dest: lookup_row_SomeD)
  from execution_within_limits[OF exec_1_reachable this] this f(2) show ?thesis by auto
qed

lemma evaluate_outcome_witness:
  "\<exists>out db'. evaluate ''p1'' 4 2 10 3 6 exec_0 = (Inr out, db') \<and> out_decision out = CompensationDecided"
proof -
  obtain f where f: "lookup_row ef_plan_id ''p1'' (xd_facts exec_0) = Some f" "evaluable f 4 2 10 3"
    "ef_target_quantity f = 10" "ef_max_unmatched_exposure f = 100" "ef_compensation_budget f = 20"
    "ef_compensation_spent f = 0" using exec_0_fact by blast
  have "to_i64 6 = Inr 6" by simp
  from evaluate_outcome[OF exec_0_reachable f(1,2) plan_id_ok this] f(3-6) show ?thesis by auto
qed

lemma executions_monotone_witness:
  "\<exists>f'. lookup_row ef_plan_id ''p1'' (xd_facts (snd (evaluate ''p1'' 4 2 10 3 6 exec_0))) = Some f'"
proof -
  obtain f where "lookup_row ef_plan_id ''p1'' (xd_facts exec_0) = Some f" using exec_0_fact by blast
  from executions_monotone[OF exec_0_reachable this, of "snd (evaluate ''p1'' 4 2 10 3 6 exec_0)"]
  show ?thesis by blast
qed

end
