(* ===== verification/Ordered_Map.thy ===== *)
theory Ordered_Map
  imports Prelude
begin

text \<open>
  The ordered map of the standard library (\<open>BTreeMap\<close>), as the code uses it: insertion,
  removal, lookup, and iteration in key order. It is modelled by the strictly ascending
  list of its entries. The locale \<open>map_store\<close> is the contract its clients rely on, and
  the clients' folds of insertions and removals are reasoned about inside it.
\<close>

section \<open>Operations\<close>

fun bt_insert :: "'k::linorder \<Rightarrow> 'v \<Rightarrow> ('k \<times> 'v) list \<Rightarrow> ('k \<times> 'v) list" where
  "bt_insert k v [] = [(k, v)]"
| "bt_insert k v ((k', v') # es) =
     (if k < k' then (k, v) # (k', v') # es
      else if k = k' then (k, v) # es
      else (k', v') # bt_insert k v es)"

fun bt_remove :: "'k::linorder \<Rightarrow> ('k \<times> 'v) list \<Rightarrow> ('k \<times> 'v) list" where
  "bt_remove k [] = []"
| "bt_remove k ((k', v') # es) = (if k = k' then es else (k', v') # bt_remove k es)"

definition bt_wf :: "('k::linorder \<times> 'v) list \<Rightarrow> bool" where
  "bt_wf es \<longleftrightarrow> sorted_wrt (<) (map fst es)"

text \<open>\<open>collect\<close> into a map: the entries are inserted from left to right.\<close>

definition bt_collect :: "('k::linorder \<times> 'v) list \<Rightarrow> ('k \<times> 'v) list" where
  "bt_collect es = fold (\<lambda>(k, v). bt_insert k v) es []"

section \<open>The contract\<close>

locale map_store =
  fixes ins :: "'k \<Rightarrow> 'v \<Rightarrow> 's \<Rightarrow> 's"
    and del :: "'k \<Rightarrow> 's \<Rightarrow> 's"
    and look :: "'s \<Rightarrow> 'k \<Rightarrow> 'v option"
    and wf :: "'s \<Rightarrow> bool"
  assumes look_ins: "wf s \<Longrightarrow> look (ins k v s) = (look s)(k \<mapsto> v)"
    and look_del: "wf s \<Longrightarrow> look (del k s) = (look s)(k := None)"
    and wf_ins: "wf s \<Longrightarrow> wf (ins k v s)"
    and wf_del: "wf s \<Longrightarrow> wf (del k s)"
begin

text \<open>One change of a store: an insertion or a removal, and its meaning on maps.\<close>

definition change :: "'k \<times> 'v option \<Rightarrow> 's \<Rightarrow> 's" where
  "change c s = (case snd c of None \<Rightarrow> del (fst c) s | Some v \<Rightarrow> ins (fst c) v s)"

lemma wf_change: "wf s \<Longrightarrow> wf (change c s)"
  by (simp add: change_def wf_ins wf_del split: option.split)

lemma look_change: "wf s \<Longrightarrow> look (change c s) = (look s)(fst c := snd c)"
  by (simp add: change_def look_ins look_del split: option.split)

lemma wf_changes: "wf s \<Longrightarrow> wf (fold change cs s)"
  by (induction cs arbitrary: s) (simp_all add: wf_change)

lemma look_changes:
  "wf s \<Longrightarrow> look (fold change cs s) = fold (\<lambda>c m. m(fst c := snd c)) cs (look s)"
  by (induction cs arbitrary: s) (simp_all add: wf_change look_change)

lemma change_invariant:
  assumes "wf s" "\<forall>k v. look s k = Some v \<longrightarrow> Q k v"
    and "\<forall>c \<in> set cs. \<forall>v. snd c = Some v \<longrightarrow> Q (fst c) v"
  shows "\<forall>k v. look (fold change cs s) k = Some v \<longrightarrow> Q k v"
  using assms
proof (induction cs arbitrary: s)
  case (Cons c cs)
  have "\<forall>k v. look (change c s) k = Some v \<longrightarrow> Q k v"
    using Cons.prems by (auto simp: look_change split: if_splits)
  with Cons.IH[of "change c s"] Cons.prems show ?case by (auto simp: wf_change)
qed simp

end

section \<open>The sorted list keeps it\<close>

lemma set_keys_bt_insert: "fst ` set (bt_insert k v es) = insert k (fst ` set es)"
  by (induction k v es rule: bt_insert.induct) auto

lemma set_keys_bt_remove: "fst ` set (bt_remove k es) \<subseteq> fst ` set es"
  by (induction k es rule: bt_remove.induct) auto

lemma bt_wf_Nil [simp]: "bt_wf []"
  by (simp add: bt_wf_def)

lemma bt_wf_Cons: "bt_wf ((k, v) # es) \<longleftrightarrow> (\<forall>k' \<in> fst ` set es. k < k') \<and> bt_wf es"
  by (simp add: bt_wf_def)

lemma bt_wf_insert: "bt_wf es \<Longrightarrow> bt_wf (bt_insert k v es)"
proof (induction k v es rule: bt_insert.induct)
  case (2 k v k' v' es)
  then show ?case by (auto simp: bt_wf_Cons set_keys_bt_insert)
qed (simp add: bt_wf_Cons)

lemma bt_wf_remove: "bt_wf es \<Longrightarrow> bt_wf (bt_remove k es)"
proof (induction k es rule: bt_remove.induct)
  case (2 k k' v' es)
  then show ?case using set_keys_bt_remove[of k es]
    by (cases "k = k'") (auto simp: bt_wf_Cons dest!: subsetD[OF _ imageI])
qed simp

lemma map_of_bt_insert: "bt_wf es \<Longrightarrow> map_of (bt_insert k v es) = (map_of es)(k \<mapsto> v)"
proof (induction k v es rule: bt_insert.induct)
  case (2 k v k' v' es)
  then show ?case by (auto simp: bt_wf_Cons fun_eq_iff)
qed simp

lemma map_of_bt_remove: "bt_wf es \<Longrightarrow> map_of (bt_remove k es) = (map_of es)(k := None)"
proof (induction k es rule: bt_remove.induct)
  case (2 k k' v' es)
  then have "k = k' \<Longrightarrow> map_of es k = None"
    by (auto simp: bt_wf_Cons map_of_eq_None_iff)
  with 2 show ?case by (auto simp: bt_wf_Cons fun_eq_iff)
qed simp

interpretation btree: map_store bt_insert bt_remove map_of bt_wf
  by unfold_locales (simp_all add: map_of_bt_insert map_of_bt_remove bt_wf_insert bt_wf_remove)

section \<open>Iteration order\<close>

lemma bt_wf_distinct: "bt_wf es \<Longrightarrow> distinct (map fst es)"
  by (simp add: bt_wf_def strict_sorted_iff)

lemma bt_wf_entry: "bt_wf es \<Longrightarrow> (k, v) \<in> set es \<longleftrightarrow> map_of es k = Some v"
  by (simp add: bt_wf_distinct)

lemma bt_wf_collect: "bt_wf (bt_collect es)"
proof -
  have "bt_wf acc \<Longrightarrow> bt_wf (fold (\<lambda>(k, v). bt_insert k v) es acc)" for acc
    by (induction es arbitrary: acc) (auto simp: bt_wf_insert)
  then show ?thesis by (simp add: bt_collect_def)
qed

lemma bt_insert_last: "\<forall>k' \<in> fst ` set es. k' < k \<Longrightarrow> bt_insert k v es = es @ [(k, v)]"
  by (induction k v es rule: bt_insert.induct) auto

lemma bt_insert_first: "\<forall>k' \<in> fst ` set es. k < k' \<Longrightarrow> bt_insert k v es = (k, v) # es"
  by (cases es) auto

text \<open>Collecting entries that already come in key order, ascending or descending, keeps them all.\<close>

lemma bt_collect_ascending: "sorted_wrt (<) (map fst es) \<Longrightarrow> bt_collect es = es"
proof -
  have "sorted_wrt (<) (map fst (acc @ es)) \<Longrightarrow> fold (\<lambda>(k, v). bt_insert k v) es acc = acc @ es" for acc
  proof (induction es arbitrary: acc)
    case (Cons e es)
    then have "bt_insert (fst e) (snd e) acc = acc @ [e]"
      by (subst bt_insert_last) (auto simp: sorted_wrt_append)
    then show ?case using Cons.IH[of "acc @ [e]"] Cons.prems by (cases e) simp
  qed simp
  then show "sorted_wrt (<) (map fst es) \<Longrightarrow> bt_collect es = es"
    by (simp add: bt_collect_def)
qed

lemma bt_collect_descending: "sorted_wrt (>) (map fst es) \<Longrightarrow> bt_collect es = rev es"
proof -
  have general: "sorted_wrt (>) (map fst (rev acc @ es)) \<Longrightarrow> fold (\<lambda>(k, v). bt_insert k v) es acc = rev es @ acc" for acc
  proof (induction es arbitrary: acc)
    case (Cons e es)
    then have "bt_insert (fst e) (snd e) acc = e # acc"
      by (subst bt_insert_first) (auto simp: sorted_wrt_append)
    then show ?case using Cons.IH[of "e # acc"] Cons.prems by (cases e) simp
  qed simp
  then show "sorted_wrt (>) (map fst es) \<Longrightarrow> bt_collect es = rev es"
    using general[of "[]"] by (simp add: bt_collect_def)
qed

end
