(* ===== verification/Ledger.thy ===== *)
theory Ledger
  imports Db_Common Ordered_Map
begin

text \<open>
  The double-entry ledger, \<open>crates/core/src/accounting.rs\<close> with the ledger tables of migration
  0004: the validation that an event balances per account, venue and asset, the append of an
  event with its lines under a business key, and the balance read back from the lines.
\<close>

section \<open>Data\<close>

datatype ledger_direction = Debit | Credit

fun direction_as_str :: "ledger_direction \<Rightarrow> string" where
  "direction_as_str Debit = ''DEBIT''"
| "direction_as_str Credit = ''CREDIT''"

record ledger_line_input =
  ll_account_id :: string
  ll_venue :: string
  ll_asset :: string
  ll_direction :: ledger_direction
  ll_amount :: decimal

record ledger_event_input =
  le_event_id :: string
  le_business_key :: string
  le_event_type :: string
  le_account_id :: string
  le_venue :: string
  le_occurred_at_ms :: u64
  le_payload :: json
  le_lines :: "ledger_line_input list"

record ledger_event_row =
  lr_event_id :: string
  lr_business_key :: string
  lr_event_type :: string
  lr_account_id :: string
  lr_venue :: string
  lr_occurred_at_ms :: int
  lr_created_at_ms :: int
  lr_payload :: json

record ledger_line_row =
  lw_event_id :: string
  lw_line :: ledger_line_input
  lw_created_at_ms :: int

record ledger_event =
  lv_event_id :: string
  lv_business_key :: string
  lv_event_type :: string
  lv_account_id :: string
  lv_venue :: string
  lv_occurred_at_ms :: u64
  lv_line_count :: nat

record ledger_balance =
  lb_account :: string
  lb_venue_name :: string
  lb_asset :: string
  lb_debit :: decimal
  lb_credit :: decimal
  lb_net :: decimal

record ledger_db =
  ld_events :: "ledger_event_row list"
  ld_lines :: "ledger_line_row list"

section \<open>Operations\<close>

definition line_key :: "ledger_line_input \<Rightarrow> string \<times> string \<times> string" where
  "line_key l = (ll_account_id l, ll_venue l, ll_asset l)"

definition add_line :: "ledger_line_input \<Rightarrow> decimal \<times> decimal \<Rightarrow> decimal \<times> decimal" where
  "add_line l t = (case ll_direction l of Debit \<Rightarrow> (fst t + ll_amount l, snd t)
     | Credit \<Rightarrow> (fst t, snd t + ll_amount l))"

fun tally_lines :: "ledger_event_input \<Rightarrow> ledger_line_input list
    \<Rightarrow> ((string \<times> string \<times> string) \<times> (decimal \<times> decimal)) list
    \<Rightarrow> ((string \<times> string \<times> string) \<times> (decimal \<times> decimal)) list result" where
  "tally_lines e [] totals = Inr totals"
| "tally_lines e (l # ls) totals =
     then_do (validate_ids [ll_account_id l, ll_venue l, ll_asset l]) (\<lambda>_.
     if ll_account_id l \<noteq> le_account_id e \<or> ll_venue l \<noteq> le_venue e \<or> ll_amount l \<le> 0
     then Inl (Bail ''ledger line is outside event domain or has invalid amount'')
     else let old = (case map_of totals (line_key l) of None \<Rightarrow> (0, 0) | Some t \<Rightarrow> t)
          in tally_lines e ls (bt_insert (line_key l) (add_line l old) totals))"

definition validate_event :: "ledger_event_input \<Rightarrow> unit result" where
  "validate_event e =
     then_do (validate_ids [le_event_id e, le_business_key e, le_event_type e, le_account_id e, le_venue e]) (\<lambda>_.
     if le_occurred_at_ms e = 0 \<or> length (le_lines e) < 2
     then Inl (Bail ''ledger event requires a timestamp and at least two lines'')
     else then_do (tally_lines e (le_lines e) []) (\<lambda>totals.
       if \<exists>t \<in> snd ` set totals. fst t \<noteq> snd t
       then Inl (Bail ''ledger event is not balanced per asset'') else Inr ()))"

definition load_event :: "string \<Rightarrow> ledger_db \<Rightarrow> ledger_event result" where
  "load_event event_id db = then_do (validate_id event_id) (\<lambda>_.
     case lookup_row lr_event_id event_id (ld_events db) of
       None \<Rightarrow> Inl (Bail ''failed to load ledger event'')
     | Some r \<Rightarrow> then_do (to_u64 (lr_occurred_at_ms r)) (\<lambda>occurred. Inr
         \<lparr>lv_event_id = lr_event_id r, lv_business_key = lr_business_key r, lv_event_type = lr_event_type r,
          lv_account_id = lr_account_id r, lv_venue = lr_venue r, lv_occurred_at_ms = occurred,
          lv_line_count = length (filter (\<lambda>l. lw_event_id l = event_id) (ld_lines db))\<rparr>))"

definition append_event_lines :: "ledger_event_input \<Rightarrow> int \<Rightarrow> ledger_db \<Rightarrow> ledger_db" where
  "append_event_lines e created db = db\<lparr>ld_lines := ld_lines db @
     map (\<lambda>l. \<lparr>lw_event_id = le_event_id e, lw_line = l, lw_created_at_ms = created\<rparr>) (le_lines e)\<rparr>"

definition record_event :: "u64 \<Rightarrow> ledger_event_input \<Rightarrow> ledger_db \<Rightarrow> ledger_event result \<times> ledger_db" where
  "record_event now e db =
     (case validate_event e of
        Inl err \<Rightarrow> (Inl err, db)
      | Inr _ \<Rightarrow>
          (case lookup_row lr_business_key (le_business_key e) (ld_events db) of
             Some r \<Rightarrow> if lr_event_id r \<noteq> le_event_id e
               then (Inl (Bail ''ledger business key was reused with another event_id''), db)
               else (load_event (le_event_id e) db, db)
           | None \<Rightarrow>
               (case then_do (to_i64 (le_occurred_at_ms e)) (\<lambda>occurred.
                     then_do (to_i64 now) (\<lambda>created.
                     if created \<le> 0 \<or> lookup_row lr_event_id (le_event_id e) (ld_events db) \<noteq> None
                     then Inl (Bail ''failed to append ledger event'')
                     else Inr (append_event_lines e created (db\<lparr>ld_events := ld_events db @
                       [\<lparr>lr_event_id = le_event_id e, lr_business_key = le_business_key e,
                         lr_event_type = le_event_type e, lr_account_id = le_account_id e,
                         lr_venue = le_venue e, lr_occurred_at_ms = occurred,
                         lr_created_at_ms = created, lr_payload = le_payload e\<rparr>]\<rparr>)))) of
                  Inl err \<Rightarrow> (Inl err, db)
                | Inr db' \<Rightarrow> (load_event (le_event_id e) db', db'))))"

definition sum_direction :: "ledger_direction \<Rightarrow> string \<times> string \<times> string \<Rightarrow> ledger_line_input list \<Rightarrow> decimal" where
  "sum_direction d k ls = sum_list (map ll_amount (filter (\<lambda>l. ll_direction l = d \<and> line_key l = k) ls))"

definition balance :: "string \<Rightarrow> string \<Rightarrow> string \<Rightarrow> ledger_db \<Rightarrow> ledger_balance result" where
  "balance account_id venue asset db = then_do (validate_ids [account_id, venue, asset]) (\<lambda>_.
     let debit = sum_direction Debit (account_id, venue, asset) (map lw_line (ld_lines db));
         credit = sum_direction Credit (account_id, venue, asset) (map lw_line (ld_lines db))
     in Inr \<lparr>lb_account = account_id, lb_venue_name = venue, lb_asset = asset, lb_debit = debit,
             lb_credit = credit, lb_net = debit - credit\<rparr>)"

section \<open>A validated event balances\<close>

lemma sum_direction_simps [simp]:
  "sum_direction d k [] = 0"
  "sum_direction d k (l # ls) = (if ll_direction l = d \<and> line_key l = k then ll_amount l else 0) + sum_direction d k ls"
  "sum_direction d k (ls @ ms) = sum_direction d k ls + sum_direction d k ms"
  by (simp_all add: sum_direction_def)

text \<open>The tally holds both sums of every key that occurs, and nothing else.\<close>

definition tally_of :: "((string \<times> string \<times> string) \<times> (decimal \<times> decimal)) list
    \<Rightarrow> string \<times> string \<times> string \<Rightarrow> decimal \<times> decimal" where
  "tally_of totals k = (case map_of totals k of None \<Rightarrow> (0, 0) | Some t \<Rightarrow> t)"

lemma tally_lines_result:
  assumes "tally_lines e ls totals = Inr totals'" "bt_wf totals"
  shows "bt_wf totals' \<and> tally_of totals' k = (fst (tally_of totals k) + sum_direction Debit k ls,
     snd (tally_of totals k) + sum_direction Credit k ls)"
  using assms
proof (induction ls arbitrary: totals)
  case (Cons l ls)
  let ?t = "bt_insert (line_key l) (add_line l (tally_of totals (line_key l))) totals"
  have rest: "tally_lines e ls ?t = Inr totals'"
    using Cons.prems(1) by (simp add: tally_of_def Let_def split: if_splits)
  have "tally_of ?t k = (if k = line_key l then add_line l (tally_of totals k) else tally_of totals k)"
    using btree.look_ins[OF Cons.prems(2)] by (simp add: tally_of_def)
  then show ?case
    using Cons.IH[OF rest] btree.wf_ins[OF Cons.prems(2)]
    by (cases "ll_direction l") (auto simp: add_line_def)
qed simp

lemma validate_event_balanced:
  assumes "validate_event e = Inr ()"
  shows "sum_direction Debit k (le_lines e) = sum_direction Credit k (le_lines e)"
proof -
  from assms obtain totals where t: "tally_lines e (le_lines e) [] = Inr totals"
    and b: "\<forall>t \<in> snd ` set totals. fst t = snd t"
    by (auto simp: validate_event_def split: if_splits)
  have "tally_of totals k = (sum_direction Debit k (le_lines e), sum_direction Credit k (le_lines e))"
    using tally_lines_result[OF t, of k] by (simp add: tally_of_def)
  moreover have "fst (tally_of totals k) = snd (tally_of totals k)"
  proof (cases "map_of totals k")
    case (Some t)
    then have "(k, t) \<in> set totals" by (rule map_of_SomeD)
    then have "t \<in> snd ` set totals" by force
    then have "fst t = snd t" by (rule b[rule_format])
    then show ?thesis using Some by (simp add: tally_of_def)
  qed (simp add: tally_of_def)
  ultimately show ?thesis by simp
qed

lemma validate_event_ids: "validate_event e = Inr () \<Longrightarrow> validate_id (le_event_id e) = Inr ()"
  by (simp add: validate_event_def)

section \<open>The invariant\<close>

definition ledger_inv :: "ledger_db \<Rightarrow> bool" where
  "ledger_inv db \<longleftrightarrow> table_ok lr_event_id (ld_events db) \<and> table_ok lr_business_key (ld_events db)
     \<and> (\<forall>r \<in> set (ld_events db). 0 \<le> lr_occurred_at_ms r)
     \<and> (\<forall>k. sum_direction Debit k (map lw_line (ld_lines db)) = sum_direction Credit k (map lw_line (ld_lines db)))"

lemma record_event_new:
  assumes "snd (record_event now e db) \<noteq> db"
  obtains r where "validate_event e = Inr ()" "lr_event_id r = le_event_id e"
    "lr_business_key r = le_business_key e" "0 \<le> lr_occurred_at_ms r"
    "lookup_row lr_business_key (le_business_key e) (ld_events db) = None"
    "lookup_row lr_event_id (le_event_id e) (ld_events db) = None"
    "ld_events (snd (record_event now e db)) = ld_events db @ [r]"
    "map lw_line (ld_lines (snd (record_event now e db))) = map lw_line (ld_lines db) @ le_lines e"
    "fst (record_event now e db) = load_event (le_event_id e) (snd (record_event now e db))"
proof -
  from assms obtain occ cr where v: "validate_event e = Inr ()"
    "lookup_row lr_business_key (le_business_key e) (ld_events db) = None"
    "lookup_row lr_event_id (le_event_id e) (ld_events db) = None"
    "to_i64 (le_occurred_at_ms e) = Inr occ" "to_i64 now = Inr cr" "0 < cr"
    by (auto simp: record_event_def not_le split: sum.splits option.splits if_splits)
  let ?r = "\<lparr>lr_event_id = le_event_id e, lr_business_key = le_business_key e,
     lr_event_type = le_event_type e, lr_account_id = le_account_id e, lr_venue = le_venue e,
     lr_occurred_at_ms = occ, lr_created_at_ms = cr, lr_payload = le_payload e\<rparr>"
  show thesis
    by (rule that[of ?r])
      (use v to_i64_nonneg[OF v(4)] in \<open>simp_all add: record_event_def append_event_lines_def comp_def\<close>)
qed

lemma record_event_inv:
  assumes "ledger_inv db"
  shows "ledger_inv (snd (record_event now e db))"
proof (cases "snd (record_event now e db) = db")
  case False
  then obtain r where v: "validate_event e = Inr ()" and r: "lr_event_id r = le_event_id e"
    "lr_business_key r = le_business_key e" "0 \<le> lr_occurred_at_ms r"
    "lookup_row lr_business_key (le_business_key e) (ld_events db) = None"
    "lookup_row lr_event_id (le_event_id e) (ld_events db) = None"
    "ld_events (snd (record_event now e db)) = ld_events db @ [r]"
    "map lw_line (ld_lines (snd (record_event now e db))) = map lw_line (ld_lines db) @ le_lines e"
    by (rule record_event_new)
  then show ?thesis using assms validate_event_balanced[OF v]
    by (auto simp: ledger_inv_def table_ok_append_row)
qed (simp add: assms)

lemma load_event_present:
  assumes "ledger_inv db" "r \<in> set (ld_events db)" "validate_id (lr_event_id r) = Inr ()"
  shows "\<exists>x. load_event (lr_event_id r) db = Inr x"
  using assms lookup_row_member[of lr_event_id "ld_events db" r]
  by (auto simp: load_event_def ledger_inv_def to_u64_def)

text \<open>After a success the event is found under its business key.\<close>

lemma record_event_stored:
  assumes "ledger_inv db" "record_event now e db = (Inr x, db')"
  obtains r where "validate_event e = Inr ()" "lookup_row lr_business_key (le_business_key e) (ld_events db') = Some r"
    "lr_event_id r = le_event_id e" "load_event (le_event_id e) db' = Inr x"
proof (cases "db' = db")
  case True
  with assms(2) show thesis
    by (intro that[of "the (lookup_row lr_business_key (le_business_key e) (ld_events db))"])
      (auto simp: record_event_def append_event_lines_def split: sum.splits option.splits if_splits
        dest: arg_cong[where f = ld_events])
next
  case False
  then have "snd (record_event now e db) \<noteq> db" using assms(2) by simp
  then show thesis
    by (rule record_event_new) (use that assms(2) in \<open>auto simp: lookup_row_append\<close>)
qed

interpretation ledger: idempotent_submission "record_event now" ledger_inv "\<lambda>x. x" for now
proof unfold_locales
  fix e :: ledger_event_input and db db' :: ledger_db and x
  assume "ledger_inv db" "record_event now e db = (Inr x, db')"
  then show "\<exists>y. record_event now e db' = (Inr y, db') \<and> y = x"
    by (rule record_event_stored) (simp add: record_event_def)
next
  fix e :: ledger_event_input and db db' :: ledger_db and err
  assume res: "record_event now e db = (Inl err, db')"
  show "db' = db"
  proof (rule ccontr)
    assume "db' \<noteq> db"
    then have "snd (record_event now e db) \<noteq> db" using res by simp
    then obtain r where "validate_event e = Inr ()" "lr_event_id r = le_event_id e" "0 \<le> lr_occurred_at_ms r"
      "lookup_row lr_event_id (le_event_id e) (ld_events db) = None"
      "ld_events (snd (record_event now e db)) = ld_events db @ [r]"
      "fst (record_event now e db) = load_event (le_event_id e) (snd (record_event now e db))"
      by (rule record_event_new)
    then show False using res validate_event_ids[of e]
      by (simp add: load_event_def lookup_row_append to_u64_def)
  qed
qed (simp add: record_event_inv)

inductive ledger_reachable :: "ledger_db \<Rightarrow> bool" where
  start: "ledger_reachable \<lparr>ld_events = [], ld_lines = []\<rparr>"
| recorded: "ledger_reachable db \<Longrightarrow> ledger_reachable (snd (record_event now e db))"

lemma ledger_reachable_inv: "ledger_reachable db \<Longrightarrow> ledger_inv db"
  by (induction rule: ledger_reachable.induct) (simp_all add: record_event_inv, simp add: ledger_inv_def)

section \<open>Properties\<close>

text \<open>Debits equal credits for every account, venue and asset of every reachable ledger, so the net
  balance read back is zero whatever events were recorded.\<close>

theorem ledger_nets_to_zero:
  assumes "ledger_reachable db" "balance account venue asset db = Inr b"
  shows "lb_debit b = lb_credit b \<and> lb_net b = 0"
  using ledger_reachable_inv[OF assms(1)] assms(2) by (auto simp: ledger_inv_def balance_def Let_def)

text \<open>Recording an event again, any number of times, returns the stored event and leaves the ledger
  as the first success left it; its business key with another event id is refused.\<close>

theorem record_event_idempotent:
  assumes "ledger_reachable db" "record_event now e db = (Inr x, db')"
  shows "ledger.repeated now (Suc n) e db = db' \<and> record_event now e db' = (Inr x, db')
    \<and> (\<forall>f. le_business_key f = le_business_key e \<and> le_event_id f \<noteq> le_event_id e \<longrightarrow>
          \<not> is_ok (fst (record_event now f db')) \<and> snd (record_event now f db') = db')"
proof -
  have inv: "ledger_inv db" using assms(1) by (rule ledger_reachable_inv)
  obtain r where r: "lookup_row lr_business_key (le_business_key e) (ld_events db') = Some r"
    "lr_event_id r = le_event_id e" by (rule record_event_stored[OF inv assms(2)])
  have "\<forall>f. le_business_key f = le_business_key e \<and> le_event_id f \<noteq> le_event_id e \<longrightarrow>
      \<not> is_ok (fst (record_event now f db')) \<and> snd (record_event now f db') = db'"
    using r by (auto simp: record_event_def split: sum.split)
  then show ?thesis
    using ledger.repeated_once[OF inv assms(2)] ledger.replay[OF inv assms(2)] by auto
qed

section \<open>Witnesses\<close>

definition sample_line :: "ledger_direction \<Rightarrow> ledger_line_input" where
  "sample_line d = \<lparr>ll_account_id = ''a'', ll_venue = ''v'', ll_asset = ''BTC'', ll_direction = d, ll_amount = 2\<rparr>"

definition sample_event :: ledger_event_input where
  "sample_event = \<lparr>le_event_id = ''e'', le_business_key = ''k'', le_event_type = ''FILL_POSTED'',
     le_account_id = ''a'', le_venue = ''v'', le_occurred_at_ms = 3, le_payload = JNull,
     le_lines = [sample_line Debit, sample_line Credit]\<rparr>"

definition "ledger_0 = \<lparr>ld_events = [], ld_lines = []\<rparr>"

lemma sample_event_valid: "validate_event sample_event = Inr ()"
  by (simp add: validate_event_def sample_event_def sample_line_def line_key_def add_line_def Let_def
      validate_id_def trim_def trim_start_def is_whitespace_def)

lemma sample_recorded: "\<exists>x db'. record_event 5 sample_event ledger_0 = (Inr x, db')"
  using sample_event_valid validate_event_ids[OF sample_event_valid]
  by (simp add: record_event_def ledger_0_def append_event_lines_def load_event_def sample_event_def to_u64_def)

lemma ledger_0_reachable: "ledger_reachable ledger_0"
  by (simp add: ledger_0_def ledger_reachable.start)

lemma ledger_nets_to_zero_witness:
  "\<exists>b. balance ''a'' ''v'' ''BTC'' (snd (record_event 5 sample_event ledger_0)) = Inr b
     \<and> lb_debit b = 2 \<and> lb_net b = 0"
proof -
  obtain b where b: "balance ''a'' ''v'' ''BTC'' (snd (record_event 5 sample_event ledger_0)) = Inr b" "lb_debit b = 2"
    using sample_event_valid
    by (simp add: record_event_def ledger_0_def append_event_lines_def sample_event_def sample_line_def
        balance_def line_key_def Let_def validate_id_def trim_def trim_start_def is_whitespace_def)
  from ledger_nets_to_zero[OF ledger_reachable.recorded[OF ledger_0_reachable] b(1)] b show ?thesis by blast
qed

lemma record_event_idempotent_witness:
  "\<exists>x db'. record_event 5 sample_event ledger_0 = (Inr x, db') \<and> record_event 5 sample_event db' = (Inr x, db')"
  using sample_recorded record_event_idempotent[OF ledger_0_reachable] by blast

end
