(* ===== verification/Reconciliation.thy ===== *)
theory Reconciliation
  imports Db_Common
begin

text \<open>
  The reconciliation of local balances with those a venue reports,
  \<open>crates/core/src/reconciliation.rs\<close> with the tables of migration 0004: the balance snapshots,
  the run with its classified differences, the keys and column checks of the tables. The two
  balance maps are lists of entries with distinct keys.
\<close>

section \<open>Data\<close>

datatype difference_category = Delayed | Missing | Conflict | ExplainedAdjustment

fun category_as_str :: "difference_category \<Rightarrow> string" where
  "category_as_str Delayed = ''DELAYED''"
| "category_as_str Missing = ''MISSING''"
| "category_as_str Conflict = ''CONFLICT''"
| "category_as_str ExplainedAdjustment = ''EXPLAINED_ADJUSTMENT''"

record balance_input =
  bs_snapshot_id :: string
  bs_account_id :: string
  bs_venue :: string
  bs_asset :: string
  bs_total :: decimal
  bs_free :: decimal
  bs_locked :: decimal
  bs_observed_at_ms :: u64
  bs_source :: string
  bs_completeness :: string

record difference =
  rd_difference_id :: string
  rd_asset :: string
  rd_category :: difference_category
  rd_local_amount :: decimal
  rd_external_amount :: decimal
  rd_explanation :: "string option"

record reconciliation_report =
  rr_run_id :: string
  rr_status :: string
  rr_differences :: "difference list"

record run_row =
  rn_run_id :: string
  rn_account_id :: string
  rn_venue :: string
  rn_status :: string
  rn_started_at_ms :: int
  rn_finished_at_ms :: "int option"

record difference_row =
  dr_run_id :: string
  dr_difference :: difference
  dr_created_at_ms :: int

record reconciliation_db =
  rc_snapshots :: "balance_input list"
  rc_runs :: "run_row list"
  rc_differences :: "difference_row list"

type_synonym balances = "(string \<times> decimal) list"

section \<open>Operations\<close>

definition validate_snapshot :: "balance_input \<Rightarrow> unit result" where
  "validate_snapshot s =
     then_do (validate_ids [bs_snapshot_id s, bs_account_id s, bs_venue s, bs_asset s, bs_source s]) (\<lambda>_.
     if bs_observed_at_ms s = 0 \<or> bs_total s < 0 \<or> bs_free s < 0 \<or> bs_locked s < 0
       \<or> bs_free s + bs_locked s > bs_total s
       \<or> bs_completeness s \<notin> {''COMPLETE'', ''PARTIAL'', ''STALE''}
     then Inl (Bail ''invalid balance snapshot'') else Inr ())"

definition snapshot_slot :: "balance_input \<Rightarrow> string \<times> string \<times> string \<times> u64" where
  "snapshot_slot s = (bs_account_id s, bs_venue s, bs_asset s, bs_observed_at_ms s)"

definition record_snapshot :: "balance_input \<Rightarrow> reconciliation_db \<Rightarrow> unit result \<times> reconciliation_db" where
  "record_snapshot s db =
     (case then_do (validate_snapshot s) (\<lambda>_. to_i64 (bs_observed_at_ms s)) of
        Inl e \<Rightarrow> (Inl e, db)
      | Inr _ \<Rightarrow>
          if lookup_row bs_snapshot_id (bs_snapshot_id s) (rc_snapshots db) \<noteq> None then (Inr (), db)
          else if lookup_row snapshot_slot (snapshot_slot s) (rc_snapshots db) \<noteq> None
          then (Inl (Bail ''failed to persist balance snapshot''), db)
          else (Inr (), db\<lparr>rc_snapshots := rc_snapshots db @ [s]\<rparr>))"

definition amount_of :: "balances \<Rightarrow> string \<Rightarrow> decimal" where
  "amount_of m asset = (case map_of m asset of None \<Rightarrow> 0 | Some v \<Rightarrow> v)"

definition classify :: "balances \<Rightarrow> balances \<Rightarrow> string \<Rightarrow> difference_category" where
  "classify here ext asset =
     (let l = amount_of here asset; e = amount_of ext asset
      in if map_of here asset = None \<or> map_of ext asset = None then Missing
         else if \<bar>l\<bar> < \<bar>e\<bar> + 1 / 10 ^ 8 \<and> \<bar>l\<bar> > \<bar>e\<bar> - 1 / 10 ^ 8 then Delayed
         else Conflict)"

definition difference_id_of :: "string \<Rightarrow> string \<Rightarrow> string" where
  "difference_id_of run_id asset = run_id @ '':'' @ asset"

definition insert_difference :: "string \<Rightarrow> int \<Rightarrow> difference \<Rightarrow> reconciliation_db \<Rightarrow> reconciliation_db result" where
  "insert_difference run_id now d db =
     (if rd_asset d = [] \<or> rd_local_amount d < 0 \<or> rd_external_amount d < 0
         \<or> lookup_row (rd_difference_id \<circ> dr_difference) (rd_difference_id d) (rc_differences db) \<noteq> None
      then Inl (Bail ''failed to persist reconciliation difference'')
      else Inr (db\<lparr>rc_differences := rc_differences db @
        [\<lparr>dr_run_id = run_id, dr_difference = d, dr_created_at_ms = now\<rparr>]\<rparr>))"

fun compare_assets :: "string \<Rightarrow> int \<Rightarrow> balances \<Rightarrow> balances \<Rightarrow> string list \<Rightarrow> reconciliation_db
    \<Rightarrow> (difference list \<times> reconciliation_db) result" where
  "compare_assets run_id now here ext [] db = Inr ([], db)"
| "compare_assets run_id now here ext (asset # assets) db =
     (let l = amount_of here asset; e = amount_of ext asset
      in if l = e then compare_assets run_id now here ext assets db
         else let d = \<lparr>rd_difference_id = difference_id_of run_id asset, rd_asset = asset,
                       rd_category = classify here ext asset, rd_local_amount = l,
                       rd_external_amount = e, rd_explanation = None\<rparr>
              in then_do (insert_difference run_id now d db) (\<lambda>db.
                 then_do (compare_assets run_id now here ext assets db) (\<lambda>(ds, db). Inr (d # ds, db))))"

definition sorted_assets :: "balances \<Rightarrow> balances \<Rightarrow> string list" where
  "sorted_assets here ext = remdups_adj (sort (map fst here @ map fst ext))"

definition insert_run :: "string \<Rightarrow> string \<Rightarrow> string \<Rightarrow> int \<Rightarrow> reconciliation_db \<Rightarrow> reconciliation_db result" where
  "insert_run run_id account_id venue now db =
     (if lookup_row rn_run_id run_id (rc_runs db) \<noteq> None
         \<or> lookup_row (\<lambda>r. (rn_account_id r, rn_venue r, rn_started_at_ms r)) (account_id, venue, now) (rc_runs db) \<noteq> None
      then Inl (Bail ''failed to create reconciliation run'')
      else Inr (db\<lparr>rc_runs := rc_runs db @
        [\<lparr>rn_run_id = run_id, rn_account_id = account_id, rn_venue = venue, rn_status = ''RUNNING'',
          rn_started_at_ms = now, rn_finished_at_ms = None\<rparr>]\<rparr>))"

definition reconcile :: "string \<Rightarrow> string \<Rightarrow> string \<Rightarrow> balances \<Rightarrow> balances \<Rightarrow> u64 \<Rightarrow> reconciliation_db
    \<Rightarrow> reconciliation_report result \<times> reconciliation_db" where
  "reconcile run_id account_id venue here ext now_ms db =
     (case then_do (validate_ids [run_id, account_id, venue]) (\<lambda>_.
        if now_ms = 0 then Inl (Bail ''reconciliation timestamp must be positive'')
        else then_do (to_i64 now_ms) (\<lambda>now.
          then_do (insert_run run_id account_id venue now db) (\<lambda>db.
          then_do (compare_assets run_id now here ext (sorted_assets here ext) db) (\<lambda>(ds, db).
          let status = (if ds = [] then ''MATCHED'' else ''ATTENTION_REQUIRED'')
          in Inr (\<lparr>rr_run_id = run_id, rr_status = status, rr_differences = ds\<rparr>,
               db\<lparr>rc_runs := update_row rn_run_id run_id
                 (\<lambda>r. r\<lparr>rn_status := status, rn_finished_at_ms := Some now\<rparr>) (rc_runs db)\<rparr>))))) of
        Inl e \<Rightarrow> (Inl e, db)
      | Inr (report, db') \<Rightarrow> (Inr report, db'))"

section \<open>Assets\<close>

lemma distinct_remdups_adj_sorted: "sorted xs \<Longrightarrow> distinct (remdups_adj xs)"
  for xs :: "'a::linorder list"
  by (induction xs rule: remdups_adj.induct) (auto simp: less_le_not_le)

lemma sorted_assets_props:
  "sorted (sorted_assets here ext)" "distinct (sorted_assets here ext)"
  "set (sorted_assets here ext) = fst ` set here \<union> fst ` set ext"
  by (simp_all add: sorted_assets_def distinct_remdups_adj_sorted image_Un)

definition differing :: "balances \<Rightarrow> balances \<Rightarrow> string \<Rightarrow> bool" where
  "differing here ext asset \<longleftrightarrow> amount_of here asset \<noteq> amount_of ext asset"

lemma differing_listed: "differing here ext a \<Longrightarrow> a \<in> set (sorted_assets here ext)"
  by (auto simp: differing_def amount_of_def sorted_assets_props map_of_eq_None_iff split: option.splits
      dest: map_of_SomeD intro: rev_image_eqI)

text \<open>The difference a run records for an asset.\<close>

definition difference_of :: "string \<Rightarrow> balances \<Rightarrow> balances \<Rightarrow> string \<Rightarrow> difference" where
  "difference_of run_id here ext asset =
     \<lparr>rd_difference_id = difference_id_of run_id asset, rd_asset = asset,
      rd_category = classify here ext asset, rd_local_amount = amount_of here asset,
      rd_external_amount = amount_of ext asset, rd_explanation = None\<rparr>"

abbreviation row_id :: "difference_row \<Rightarrow> string" where
  "row_id r \<equiv> rd_difference_id (dr_difference r)"

definition insertable :: "string \<Rightarrow> balances \<Rightarrow> balances \<Rightarrow> string \<Rightarrow> reconciliation_db \<Rightarrow> bool" where
  "insertable run_id here ext a db \<longleftrightarrow> a \<noteq> [] \<and> 0 \<le> amount_of here a \<and> 0 \<le> amount_of ext a
     \<and> difference_id_of run_id a \<notin> row_id ` set (rc_differences db)"

lemma insert_difference_eq:
  "insert_difference run_id now (difference_of run_id here ext a) db =
     (if insertable run_id here ext a db
      then Inr (db\<lparr>rc_differences := rc_differences db @
        [\<lparr>dr_run_id = run_id, dr_difference = difference_of run_id here ext a, dr_created_at_ms = now\<rparr>]\<rparr>)
      else Inl (Bail ''failed to persist reconciliation difference''))"
  by (auto simp: insert_difference_def insertable_def difference_of_def lookup_row_None_iff image_comp not_less)

lemma difference_id_of_inj [simp]: "difference_id_of r a = difference_id_of r b \<longleftrightarrow> a = b"
  by (simp add: difference_id_of_def)

lemma compare_assets_step:
  "compare_assets run_id now here ext (a # as) db =
     (if \<not> differing here ext a then compare_assets run_id now here ext as db
      else then_do (insert_difference run_id now (difference_of run_id here ext a) db) (\<lambda>db.
        then_do (compare_assets run_id now here ext as db) (\<lambda>(ds, db).
          Inr (difference_of run_id here ext a # ds, db))))"
  by (simp add: differing_def difference_of_def Let_def)

text \<open>The loop succeeds exactly when every differing asset can be recorded, with all of them recorded in order.\<close>

lemma compare_assets_eq:
  assumes "distinct assets"
  shows "compare_assets run_id now here ext assets db =
     (let ds = map (difference_of run_id here ext) (filter (differing here ext) assets)
      in if \<forall>a \<in> set assets. differing here ext a \<longrightarrow> insertable run_id here ext a db
         then Inr (ds, db\<lparr>rc_differences := rc_differences db @
           map (\<lambda>d. \<lparr>dr_run_id = run_id, dr_difference = d, dr_created_at_ms = now\<rparr>) ds\<rparr>)
         else Inl (Bail ''failed to persist reconciliation difference''))"
  using assms
proof (induction assets arbitrary: db)
  case (Cons a as)
  show ?case
  proof (cases "differing here ext a \<and> insertable run_id here ext a db")
    case True
    let ?db = "db\<lparr>rc_differences := rc_differences db @
      [\<lparr>dr_run_id = run_id, dr_difference = difference_of run_id here ext a, dr_created_at_ms = now\<rparr>]\<rparr>"
    have "insertable run_id here ext b ?db = insertable run_id here ext b db" if "b \<in> set as" for b
      using that Cons.prems by (auto simp: insertable_def difference_of_def)
    then have same: "(\<forall>b \<in> set as. differing here ext b \<longrightarrow> insertable run_id here ext b ?db)
        \<longleftrightarrow> (\<forall>b \<in> set as. differing here ext b \<longrightarrow> insertable run_id here ext b db)" by blast
    show ?thesis
      using True Cons.IH[of ?db] Cons.prems
      by (simp add: compare_assets_step insert_difference_eq same Let_def del: compare_assets.simps)
  next
    case False
    then show ?thesis
      using Cons.IH[of db] Cons.prems
      by (auto simp: compare_assets_step insert_difference_eq Let_def simp del: compare_assets.simps)
  qed
qed (simp add: Let_def)


lemma close_iff:
  fixes l :: decimal
  assumes "0 \<le> l" "0 \<le> e"
  shows "\<bar>l\<bar> < \<bar>e\<bar> + c \<and> \<bar>e\<bar> - c < \<bar>l\<bar> \<longleftrightarrow> \<bar>l - e\<bar> < c"
  using assms by (auto simp: abs_less_iff)

section \<open>A run\<close>

definition differences_of :: "string \<Rightarrow> balances \<Rightarrow> balances \<Rightarrow> difference list" where
  "differences_of run_id here ext =
     map (difference_of run_id here ext) (filter (differing here ext) (sorted_assets here ext))"

definition can_reconcile :: "string \<Rightarrow> string \<Rightarrow> string \<Rightarrow> balances \<Rightarrow> balances \<Rightarrow> u64 \<Rightarrow> reconciliation_db \<Rightarrow> bool" where
  "can_reconcile run_id account_id venue here ext now db \<longleftrightarrow>
     validate_ids [run_id, account_id, venue] = Inr () \<and> now \<noteq> 0 \<and> is_ok (to_i64 now)
     \<and> run_id \<notin> rn_run_id ` set (rc_runs db)
     \<and> (account_id, venue, uint now) \<notin> (\<lambda>r. (rn_account_id r, rn_venue r, rn_started_at_ms r)) ` set (rc_runs db)
     \<and> (\<forall>a \<in> set (sorted_assets here ext). differing here ext a \<longrightarrow> insertable run_id here ext a db)"

definition run_status :: "difference list \<Rightarrow> string" where
  "run_status ds = (if ds = [] then ''MATCHED'' else ''ATTENTION_REQUIRED'')"

definition finished_run :: "string \<Rightarrow> string \<Rightarrow> string \<Rightarrow> difference list \<Rightarrow> u64 \<Rightarrow> run_row" where
  "finished_run run_id account_id venue ds now =
     \<lparr>rn_run_id = run_id, rn_account_id = account_id, rn_venue = venue, rn_status = run_status ds,
      rn_started_at_ms = uint now, rn_finished_at_ms = Some (uint now)\<rparr>"

lemma insert_run_eq:
  "insert_run run_id account_id venue n db =
     (if run_id \<in> rn_run_id ` set (rc_runs db)
         \<or> (account_id, venue, n) \<in> (\<lambda>r. (rn_account_id r, rn_venue r, rn_started_at_ms r)) ` set (rc_runs db)
      then Inl (Bail ''failed to create reconciliation run'')
      else Inr (db\<lparr>rc_runs := rc_runs db @
        [\<lparr>rn_run_id = run_id, rn_account_id = account_id, rn_venue = venue, rn_status = ''RUNNING'',
          rn_started_at_ms = n, rn_finished_at_ms = None\<rparr>]\<rparr>))"
  using lookup_row_None_iff[of rn_run_id run_id "rc_runs db"]
    lookup_row_None_iff[of "\<lambda>r. (rn_account_id r, rn_venue r, rn_started_at_ms r)" "(account_id, venue, n)" "rc_runs db"]
  by (simp add: insert_run_def)

lemma reconcile_commits:
  assumes "can_reconcile run_id ac ve here ext now db"
  shows "reconcile run_id ac ve here ext now db =
     (let ds = differences_of run_id here ext
      in (Inr \<lparr>rr_run_id = run_id, rr_status = run_status ds, rr_differences = ds\<rparr>,
          db\<lparr>rc_runs := rc_runs db @ [finished_run run_id ac ve ds now],
             rc_differences := rc_differences db @
               map (\<lambda>d. \<lparr>dr_run_id = run_id, dr_difference = d, dr_created_at_ms = uint now\<rparr>) ds\<rparr>))"
proof -
  have n: "to_i64 now = Inr (uint now)" using assms by (auto simp: can_reconcile_def is_ok_iff to_i64_ok_iff)
  have absent: "lookup_row rn_run_id run_id (rc_runs db) = None"
    using assms by (simp add: can_reconcile_def lookup_row_None_iff)
  show ?thesis
    using assms n absent unfolding can_reconcile_def
    by (simp add: reconcile_def insert_run_eq compare_assets_eq sorted_assets_props insertable_def
        differences_of_def finished_run_def run_status_def update_row_append Let_def)
qed

lemma reconcile_refuses:
  assumes "\<not> can_reconcile run_id ac ve here ext now db"
  shows "\<exists>e. reconcile run_id ac ve here ext now db = (Inl e, db)"
proof (cases "validate_ids [run_id, ac, ve] = Inr () \<and> now \<noteq> 0")
  case True
  then show ?thesis
    using assms by (cases "to_i64 now")
      (auto simp: can_reconcile_def reconcile_def insert_run_eq compare_assets_eq sorted_assets_props
        insertable_def to_i64_ok_iff Let_def simp del: validate_ids.simps)
qed (auto simp: reconcile_def then_do_def simp del: validate_ids.simps split: sum.split)


section \<open>The invariant\<close>

definition recon_inv :: "reconciliation_db \<Rightarrow> bool" where
  "recon_inv db \<longleftrightarrow> table_ok bs_snapshot_id (rc_snapshots db) \<and> table_ok snapshot_slot (rc_snapshots db)
     \<and> (\<forall>s \<in> set (rc_snapshots db). validate_snapshot s = Inr ())
     \<and> table_ok rn_run_id (rc_runs db) \<and> table_ok row_id (rc_differences db)
     \<and> (\<forall>r \<in> set (rc_runs db). rn_status r =
          run_status (map dr_difference (filter (\<lambda>d. dr_run_id d = rn_run_id r) (rc_differences db))))
     \<and> (\<forall>d \<in> set (rc_differences db). dr_run_id d \<in> rn_run_id ` set (rc_runs db)
          \<and> row_id d = difference_id_of (dr_run_id d) (rd_asset (dr_difference d))
          \<and> rd_local_amount (dr_difference d) \<noteq> rd_external_amount (dr_difference d))"

lemma record_snapshot_inv [inv_intros]: "recon_inv db \<Longrightarrow> recon_inv (snd (record_snapshot s db))"
  by (auto simp: recon_inv_def record_snapshot_def table_ok_append_row simp del: validate_ids.simps split: sum.split)

lemma differences_of_props:
  "distinct (map rd_difference_id (differences_of run_id here ext))"
  "d \<in> set (differences_of run_id here ext) \<Longrightarrow> rd_difference_id d = difference_id_of run_id (rd_asset d)
     \<and> rd_local_amount d \<noteq> rd_external_amount d \<and> differing here ext (rd_asset d)
     \<and> d = difference_of run_id here ext (rd_asset d)"
  using sorted_assets_props(2)[of here ext]
  by (auto simp: differences_of_def difference_of_def comp_def distinct_map inj_on_def differing_def)

lemma reconcile_inv [inv_intros]:
  assumes inv: "recon_inv db"
  shows "recon_inv (snd (reconcile run_id ac ve here ext now db))"
proof (cases "can_reconcile run_id ac ve here ext now db")
  case True
  let ?ds = "differences_of run_id here ext"
  let ?rows = "map (\<lambda>d. \<lparr>dr_run_id = run_id, dr_difference = d, dr_created_at_ms = uint now\<rparr>) ?ds"
  have new: "run_id \<notin> rn_run_id ` set (rc_runs db)" using True by (simp add: can_reconcile_def)
  have old: "dr_run_id d \<noteq> run_id" if "d \<in> set (rc_differences db)" for d
    using inv new that by (auto simp: recon_inv_def)
  have "row_id ` set ?rows \<inter> row_id ` set (rc_differences db) = {}"
    using True differences_of_props(2)[of _ run_id here ext] differing_listed[of here ext]
    by (fastforce simp: can_reconcile_def insertable_def)
  moreover have "map row_id ?rows = map rd_difference_id ?ds" by simp
  ultimately have ok: "table_ok row_id (rc_differences db @ ?rows)"
    using inv differences_of_props(1)[of run_id here ext]
    unfolding recon_inv_def table_ok_def map_append distinct_append set_map[symmetric] by (metis inf_commute)
  have "filter (\<lambda>d. dr_run_id d = run_id) (rc_differences db) = []" using old by (simp add: filter_empty_conv)
  moreover have "filter (\<lambda>d. dr_run_id d = rn_run_id r) ?rows = []" if "r \<in> set (rc_runs db)" for r
    using new that by (auto simp: filter_empty_conv)
  ultimately show ?thesis
    using inv True new ok differences_of_props(2)[of _ run_id here ext]
    by (auto simp: reconcile_commits[OF True] recon_inv_def Let_def finished_run_def comp_def
        table_ok_append_row lookup_row_None_iff)
next
  case False
  from reconcile_refuses[OF this] inv show ?thesis by auto
qed

inductive recon_reachable :: "reconciliation_db \<Rightarrow> bool" where
  start: "recon_reachable \<lparr>rc_snapshots = [], rc_runs = [], rc_differences = []\<rparr>"
| snapshot: "recon_reachable db \<Longrightarrow> recon_reachable (snd (record_snapshot s db))"
| run: "recon_reachable db \<Longrightarrow> recon_reachable (snd (reconcile run_id ac ve here ext now db))"

lemma recon_reachable_inv: "recon_reachable db \<Longrightarrow> recon_inv db"
  by (induction rule: recon_reachable.induct) (simp_all add: inv_intros, simp add: recon_inv_def)

section \<open>Properties\<close>

text \<open>A committed run reports, in ascending order of the assets, exactly the assets on which the two
  sides disagree (an absent asset counting as zero), with both amounts; it is MATCHED exactly when
  they agree on every asset, and its category is missing if one side has no entry, delayed if the
  amounts are closer than one hundred-millionth, and a conflict otherwise.\<close>

theorem reconcile_report:
  assumes "reconcile run_id ac ve here ext now db = (Inr rep, db')"
  shows "(rr_status rep = ''MATCHED'' \<longleftrightarrow> (\<forall>a. amount_of here a = amount_of ext a))
    \<and> sorted_wrt (<) (map rd_asset (rr_differences rep))
    \<and> rd_asset ` set (rr_differences rep) = {a. amount_of here a \<noteq> amount_of ext a}
    \<and> (\<forall>d \<in> set (rr_differences rep). rd_local_amount d = amount_of here (rd_asset d)
         \<and> rd_external_amount d = amount_of ext (rd_asset d)
         \<and> rd_category d = (if map_of here (rd_asset d) = None \<or> map_of ext (rd_asset d) = None then Missing
             else if \<bar>rd_local_amount d - rd_external_amount d\<bar> < 1 / 10 ^ 8 then Delayed else Conflict))
    \<and> map dr_difference (rc_differences db') = map dr_difference (rc_differences db) @ rr_differences rep"
proof -
  have can: "can_reconcile run_id ac ve here ext now db"
  proof (rule ccontr)
    assume "\<not> ?thesis"
    from reconcile_refuses[OF this] assms show False by auto
  qed
  let ?ds = "differences_of run_id here ext"
  have rep: "rr_status rep = run_status ?ds" "rr_differences rep = ?ds"
    and rows: "map dr_difference (rc_differences db') = map dr_difference (rc_differences db) @ ?ds"
    using assms reconcile_commits[OF can] by (auto simp: Let_def comp_def)
  have assets: "map rd_asset ?ds = filter (differing here ext) (sorted_assets here ext)"
    by (simp add: differences_of_def difference_of_def comp_def)
  then have set: "rd_asset ` set ?ds = {a. amount_of here a \<noteq> amount_of ext a}"
    using differing_listed[of here ext] by (auto simp: differing_def simp flip: set_map)
  have "sorted_wrt (<) (map rd_asset ?ds)"
    using sorted_assets_props[of here ext] by (simp add: assets strict_sorted_iff sorted_wrt_filter)
  moreover have "run_status ?ds = ''MATCHED'' \<longleftrightarrow> (\<forall>a. amount_of here a = amount_of ext a)"
    using set by (cases ?ds) (auto simp: run_status_def)
  moreover have nonneg: "0 \<le> amount_of here (rd_asset d) \<and> 0 \<le> amount_of ext (rd_asset d)" if "d \<in> set ?ds" for d
    using can differences_of_props(2)[OF that] differing_listed[of here ext "rd_asset d"]
    by (auto simp: can_reconcile_def insertable_def)
  moreover have "rd_category d = (if map_of here (rd_asset d) = None \<or> map_of ext (rd_asset d) = None then Missing
      else if \<bar>rd_local_amount d - rd_external_amount d\<bar> < 1 / 10 ^ 8 then Delayed else Conflict)
      \<and> rd_local_amount d = amount_of here (rd_asset d) \<and> rd_external_amount d = amount_of ext (rd_asset d)"
    if "d \<in> set ?ds" for d
  proof -
    have d: "d = difference_of run_id here ext (rd_asset d)" using differences_of_props(2)[OF that] by blast
    show ?thesis
      using arg_cong[OF d, of rd_local_amount] arg_cong[OF d, of rd_external_amount] arg_cong[OF d, of rd_category]
        close_iff[OF nonneg[OF that, THEN conjunct1] nonneg[OF that, THEN conjunct2]]
      by (simp only: difference_of_def classify_def Let_def difference.select_convs)
  qed
  ultimately show ?thesis using rep rows set by simp
qed

text \<open>A run whose inputs are valid and new commits and every other is refused with the database
  unchanged, so every stored run is MATCHED exactly when no difference is stored for it.\<close>

theorem stored_runs_consistent:
  assumes "recon_reachable db"
  shows "(is_ok (fst (reconcile run_id ac ve here ext now db)) \<longleftrightarrow> can_reconcile run_id ac ve here ext now db)
    \<and> (\<not> is_ok (fst (reconcile run_id ac ve here ext now db)) \<longrightarrow> snd (reconcile run_id ac ve here ext now db) = db)
    \<and> (\<forall>r \<in> set (rc_runs db). rn_status r \<in> {''MATCHED'', ''ATTENTION_REQUIRED''}
         \<and> (rn_status r = ''MATCHED'' \<longleftrightarrow> (\<forall>d \<in> set (rc_differences db). dr_run_id d \<noteq> rn_run_id r)))
    \<and> (\<forall>s \<in> set (rc_snapshots db). bs_free s + bs_locked s \<le> bs_total s \<and> 0 \<le> bs_free s \<and> 0 \<le> bs_locked s)"
proof -
  have "is_ok (fst (reconcile run_id ac ve here ext now db)) \<longleftrightarrow> can_reconcile run_id ac ve here ext now db"
    by (cases "can_reconcile run_id ac ve here ext now db")
      (auto simp: reconcile_commits Let_def dest: reconcile_refuses)
  moreover have "\<not> can_reconcile run_id ac ve here ext now db \<Longrightarrow> snd (reconcile run_id ac ve here ext now db) = db"
    using reconcile_refuses[of run_id ac ve here ext now db] by auto
  moreover have "\<forall>s \<in> set (rc_snapshots db). bs_free s + bs_locked s \<le> bs_total s \<and> 0 \<le> bs_free s \<and> 0 \<le> bs_locked s"
    using recon_reachable_inv[OF assms] by (auto simp: recon_inv_def validate_snapshot_def not_less split: if_splits)
  moreover have "\<forall>r \<in> set (rc_runs db). rn_status r \<in> {''MATCHED'', ''ATTENTION_REQUIRED''}
      \<and> (rn_status r = ''MATCHED'' \<longleftrightarrow> (\<forall>d \<in> set (rc_differences db). dr_run_id d \<noteq> rn_run_id r))"
    using recon_reachable_inv[OF assms] by (auto simp: recon_inv_def run_status_def filter_empty_conv)
  ultimately show ?thesis by blast
qed

text \<open>The identifier of a difference joins run and asset with a colon that both may contain: once a
  run has recorded a difference on an asset x:a, the run called run:x can never commit a
  difference on the asset a.\<close>

theorem difference_ids_collide:
  assumes "reconcile run_id ac ve here ext now db = (Inr rep, db')"
    "amount_of here (x @ '':'' @ a) \<noteq> amount_of ext (x @ '':'' @ a)"
    "amount_of here2 a \<noteq> amount_of ext2 a"
  shows "\<exists>e. reconcile (run_id @ '':'' @ x) ac2 ve2 here2 ext2 later db' = (Inl e, db')"
proof (rule reconcile_refuses, rule notI)
  assume can: "can_reconcile (run_id @ '':'' @ x) ac2 ve2 here2 ext2 later db'"
  have "can_reconcile run_id ac ve here ext now db"
    using reconcile_refuses[of run_id ac ve here ext now db] assms(1) by auto
  note run = reconcile_commits[OF this, unfolded assms(1)]
  let ?a = "x @ '':'' @ a"
  have "difference_of run_id here ext ?a \<in> set (differences_of run_id here ext)"
    using assms(2) differing_listed[of here ext ?a] by (simp add: differences_of_def differing_def)
  then have "rd_difference_id (difference_of run_id here ext ?a) \<in> rd_difference_id ` set (differences_of run_id here ext)"
    by (rule imageI)
  then have "difference_id_of run_id ?a \<in> row_id ` set (rc_differences db')"
    using run by (auto simp: Let_def image_Un image_image difference_of_def)
  moreover have "difference_id_of run_id ?a = difference_id_of (run_id @ '':'' @ x) a"
    by (simp add: difference_id_of_def)
  ultimately show False
    using can assms(3) differing_listed[of here2 ext2 a] by (auto simp: can_reconcile_def insertable_def differing_def)
qed


section \<open>Witnesses\<close>

definition recon_0 :: reconciliation_db where
  "recon_0 = \<lparr>rc_snapshots = [], rc_runs = [], rc_differences = []\<rparr>"

lemmas recon_sample_simps = recon_0_def reconcile_def insert_run_def sorted_assets_def amount_of_def classify_def
  insert_difference_def validate_id_def trim_def trim_start_def is_whitespace_def Let_def

lemma sample_run: "\<exists>rep db'. reconcile ''r'' ''a'' ''v'' [(''x:b'', 1)] [] 5 recon_0 = (Inr rep, db') \<and> rr_status rep = ''ATTENTION_REQUIRED''"
  by (simp add: recon_sample_simps)

lemma reconcile_report_witness:
  "\<exists>rep db'. reconcile ''r'' ''a'' ''v'' [(''x:b'', 1)] [] 5 recon_0 = (Inr rep, db')
     \<and> rd_asset ` set (rr_differences rep) = {''x:b''}"
proof -
  obtain rep db' where r: "reconcile ''r'' ''a'' ''v'' [(''x:b'', 1)] [] 5 recon_0 = (Inr rep, db')"
    using sample_run by blast
  have "{a. amount_of [(''x:b'', 1)] a \<noteq> amount_of [] a} = {''x:b''}" by (auto simp: amount_of_def)
  with reconcile_report[OF r] r show ?thesis by auto
qed

lemma recon_0_reachable: "recon_reachable recon_0"
  by (simp add: recon_0_def recon_reachable.start)

definition recon_1 :: reconciliation_db where
  "recon_1 = snd (reconcile ''r'' ''a'' ''v'' [(''x:b'', 1)] [] 5 recon_0)"

lemma recon_1_rows: "\<exists>r d. rc_runs recon_1 = [r] \<and> rn_run_id r = ''r'' \<and> rc_differences recon_1 = [d] \<and> dr_run_id d = ''r''"
  by (simp add: recon_1_def recon_sample_simps)

lemma stored_runs_consistent_witness:
  "\<exists>r \<in> set (rc_runs recon_1). rn_status r \<noteq> ''MATCHED''"
proof -
  have "recon_reachable recon_1" unfolding recon_1_def by (rule recon_reachable.run[OF recon_0_reachable])
  from stored_runs_consistent[OF this, of "''r''" "''a''" "''v''" "[]" "[]" 5] recon_1_rows
  show ?thesis by auto
qed

lemma difference_ids_collide_witness:
  "\<exists>e. reconcile ''r:x'' ''a'' ''v'' [] [(''b'', 2)] 9 (snd (reconcile ''r'' ''a'' ''v'' [(''x:b'', 1)] [] 5 recon_0))
     = (Inl e, snd (reconcile ''r'' ''a'' ''v'' [(''x:b'', 1)] [] 5 recon_0))"
proof -
  obtain rep db' where r: "reconcile ''r'' ''a'' ''v'' [(''x:b'', 1)] [] 5 recon_0 = (Inr rep, db')"
    using sample_run by blast
  from difference_ids_collide[OF r, of "''x''" "''b''" "[]" "[(''b'', 2)]" "''a''" "''v''" 9] r
  show ?thesis by (simp add: amount_of_def)
qed

end
