(* ===== verification/Control.thy ===== *)
theory Control
  imports Db_Common
begin

text \<open>
  The operator's control commands, \<open>crates/core/src/control.rs\<close> with the control tables of
  migration 0004: submission under a request id, completion with expiry, the audit log. The
  column values of action and status are the texts the code writes and parses.
\<close>

section \<open>Data\<close>

datatype control_action = Pause | CancelOrders | ReduceExposure | Resume | Halt

fun action_as_str :: "control_action \<Rightarrow> string" where
  "action_as_str Pause = ''PAUSE''"
| "action_as_str CancelOrders = ''CANCEL_ORDERS''"
| "action_as_str ReduceExposure = ''REDUCE_EXPOSURE''"
| "action_as_str Resume = ''RESUME''"
| "action_as_str Halt = ''HALT''"

datatype control_status = Received | Executing | Succeeded | Failed | Partial | Expired

fun control_status_as_str :: "control_status \<Rightarrow> string" where
  "control_status_as_str Received = ''RECEIVED''"
| "control_status_as_str Executing = ''EXECUTING''"
| "control_status_as_str Succeeded = ''SUCCEEDED''"
| "control_status_as_str Failed = ''FAILED''"
| "control_status_as_str Partial = ''PARTIAL''"
| "control_status_as_str Expired = ''EXPIRED''"

definition parse_action :: "string \<Rightarrow> control_action result" where
  "parse_action v =
     (if v = ''PAUSE'' then Inr Pause
      else if v = ''CANCEL_ORDERS'' then Inr CancelOrders
      else if v = ''REDUCE_EXPOSURE'' then Inr ReduceExposure
      else if v = ''RESUME'' then Inr Resume
      else if v = ''HALT'' then Inr Halt
      else Inl (Bail ''invalid control action''))"

definition parse_status :: "string \<Rightarrow> control_status result" where
  "parse_status v =
     (if v = ''RECEIVED'' then Inr Received
      else if v = ''EXECUTING'' then Inr Executing
      else if v = ''SUCCEEDED'' then Inr Succeeded
      else if v = ''FAILED'' then Inr Failed
      else if v = ''PARTIAL'' then Inr Partial
      else if v = ''EXPIRED'' then Inr Expired
      else Inl (Bail ''invalid control status''))"

record control_request =
  cq_command_id :: string
  cq_request_id :: string
  cq_actor :: string
  cq_action :: control_action
  cq_scope :: json
  cq_expires_at_ms :: u64

record control_command =
  cc_command_id :: string
  cc_request_id :: string
  cc_actor :: string
  cc_action :: control_action
  cc_status :: control_status
  cc_expires_at_ms :: u64
  cc_result :: "json option"

record control_row =
  ct_command_id :: string
  ct_request_id :: string
  ct_actor :: string
  ct_action :: string
  ct_scope :: json
  ct_status :: string
  ct_expires_at_ms :: int
  ct_created_at_ms :: int
  ct_result :: "json option"

record control_audit =
  ca_command_id :: string
  ca_actor :: string
  ca_action :: string
  ca_before_state :: "json option"
  ca_after_state :: "json option"
  ca_result :: "json option"
  ca_occurred_at_ms :: int

record control_db =
  cd_commands :: "control_row list"
  cd_audits :: "control_audit list"

section \<open>Operations\<close>

definition validate_control :: "control_request \<Rightarrow> u64 \<Rightarrow> unit result" where
  "validate_control q now =
     then_do (validate_ids [cq_command_id q, cq_request_id q, cq_actor q]) (\<lambda>_.
     if cq_expires_at_ms q = 0 \<or> now = 0 then Inl (Bail ''control timestamps must be positive'') else Inr ())"

definition load_command :: "string \<Rightarrow> control_db \<Rightarrow> control_command result" where
  "load_command command_id db = then_do (validate_id command_id) (\<lambda>_.
     case lookup_row ct_command_id command_id (cd_commands db) of
       None \<Rightarrow> Inl (Bail ''failed to load control command'')
     | Some r \<Rightarrow> then_do (parse_action (ct_action r)) (\<lambda>action.
         then_do (parse_status (ct_status r)) (\<lambda>status.
         then_do (to_u64 (ct_expires_at_ms r)) (\<lambda>expires.
         Inr \<lparr>cc_command_id = ct_command_id r, cc_request_id = ct_request_id r, cc_actor = ct_actor r,
              cc_action = action, cc_status = status, cc_expires_at_ms = expires, cc_result = ct_result r\<rparr>))))"

text \<open>The two inserts of a new command, with the column checks and keys they can violate.\<close>

definition insert_command :: "control_request \<Rightarrow> u64 \<Rightarrow> control_db \<Rightarrow> control_db result" where
  "insert_command q now db =
     (let status = (if cq_expires_at_ms q \<le> now then Expired else Received)
      in then_do (to_i64 (cq_expires_at_ms q)) (\<lambda>expires.
         then_do (to_i64 now) (\<lambda>created.
         if lookup_row ct_command_id (cq_command_id q) (cd_commands db) \<noteq> None
         then Inl (Bail ''failed to persist control command'')
         else Inr \<lparr>cd_commands = cd_commands db @
                [\<lparr>ct_command_id = cq_command_id q, ct_request_id = cq_request_id q, ct_actor = cq_actor q,
                  ct_action = action_as_str (cq_action q), ct_scope = cq_scope q,
                  ct_status = control_status_as_str status, ct_expires_at_ms = expires,
                  ct_created_at_ms = created, ct_result = None\<rparr>],
              cd_audits = cd_audits db @
                [\<lparr>ca_command_id = cq_command_id q, ca_actor = cq_actor q,
                  ca_action = action_as_str (cq_action q), ca_before_state = Some JNull,
                  ca_after_state = Some (JObject [(''status'', JString (control_status_as_str status))]),
                  ca_result = Some JNull, ca_occurred_at_ms = created\<rparr>]\<rparr>)))"

definition submit :: "u64 \<Rightarrow> control_request \<Rightarrow> control_db \<Rightarrow> control_command result \<times> control_db" where
  "submit now q db =
     (case validate_control q now of
        Inl e \<Rightarrow> (Inl e, db)
      | Inr _ \<Rightarrow>
          (case lookup_row ct_request_id (cq_request_id q) (cd_commands db) of
             Some r \<Rightarrow> if ct_command_id r \<noteq> cq_command_id q
               then (Inl (Bail ''control request_id was reused with another command_id''), db)
               else (load_command (cq_command_id q) db, db)
           | None \<Rightarrow>
               (case insert_command q now db of
                  Inl e \<Rightarrow> (Inl e, db)
                | Inr db' \<Rightarrow> (load_command (cq_command_id q) db', db'))))"

definition expired_reason :: json where
  "expired_reason = JObject [(''reason'', JString ''expired before execution'')]"

text \<open>The outcome of a completion on the row it locked: whether it expired, with the new row.\<close>

definition finish_row :: "control_status \<Rightarrow> json \<Rightarrow> u64 \<Rightarrow> control_row \<Rightarrow> (bool \<times> control_row) result" where
  "finish_row status outcome now r =
     then_do (if ct_status r = ''EXPIRED'' then Inr True
              else then_do (to_i64 now) (\<lambda>n. Inr (ct_expires_at_ms r \<le> n))) (\<lambda>expired.
     if expired then Inr (True, r\<lparr>ct_status := ''EXPIRED'', ct_result := Some expired_reason\<rparr>)
     else if status \<notin> {Succeeded, Failed, Partial}
     then Inl (Bail ''control completion requires a terminal result'')
     else Inr (False, r\<lparr>ct_status := control_status_as_str status, ct_result := Some outcome\<rparr>))"

definition complete :: "string \<Rightarrow> control_status \<Rightarrow> json \<Rightarrow> u64 \<Rightarrow> control_db
    \<Rightarrow> control_command result \<times> control_db" where
  "complete command_id status outcome now db =
     (case then_do (validate_id command_id) (\<lambda>_.
        case lookup_row ct_command_id command_id (cd_commands db) of
          None \<Rightarrow> Inl (Bail ''control command not found'')
        | Some r \<Rightarrow> then_do (finish_row status outcome now r) (\<lambda>(expired, r').
            if expired then Inr (db\<lparr>cd_commands := put_row ct_command_id r' (cd_commands db)\<rparr>)
            else then_do (to_i64 now) (\<lambda>n.
              if n \<le> 0 then Inl (Bail ''failed to append control result audit'')
              else Inr \<lparr>cd_commands = put_row ct_command_id r' (cd_commands db),
                   cd_audits = cd_audits db @
                     [\<lparr>ca_command_id = ct_command_id r', ca_actor = ct_actor r', ca_action = ct_action r',
                       ca_before_state = None, ca_after_state = None, ca_result = Some outcome,
                       ca_occurred_at_ms = n\<rparr>]\<rparr>))) of
        Inl e \<Rightarrow> (Inl e, db)
      | Inr db' \<Rightarrow> (load_command command_id db', db'))"

section \<open>Texts\<close>

lemma control_parse_as_str [simp]:
  "parse_action (action_as_str a) = Inr a" "parse_status (control_status_as_str s) = Inr s"
  by (cases a; simp add: parse_action_def) (cases s; simp add: parse_status_def)

lemma status_str_inj [simp]: "control_status_as_str s = control_status_as_str t \<longleftrightarrow> s = t"
  by (metis control_parse_as_str(2) sum.inject(2))

section \<open>The invariant\<close>

definition terminal_texts :: "string set" where
  "terminal_texts = control_status_as_str ` {Succeeded, Failed, Partial}"

text \<open>A row whose command was executed carries the result of an audited completion before its expiry.\<close>

definition executed_in_time :: "control_audit list \<Rightarrow> control_row \<Rightarrow> bool" where
  "executed_in_time audits r \<longleftrightarrow> (ct_status r \<in> terminal_texts \<longrightarrow>
     (\<exists>a \<in> set audits. ca_command_id a = ct_command_id r \<and> ca_result a = ct_result r
        \<and> ca_occurred_at_ms a < ct_expires_at_ms r))"

definition command_inv :: "control_audit list \<Rightarrow> control_row \<Rightarrow> bool" where
  "command_inv audits r \<longleftrightarrow> validate_id (ct_command_id r) = Inr () \<and> is_ok (parse_action (ct_action r))
     \<and> is_ok (parse_status (ct_status r)) \<and> 0 < ct_expires_at_ms r \<and> executed_in_time audits r"

definition control_inv :: "control_db \<Rightarrow> bool" where
  "control_inv db \<longleftrightarrow> table_ok ct_command_id (cd_commands db) \<and> table_ok ct_request_id (cd_commands db)
     \<and> (\<forall>r \<in> set (cd_commands db). command_inv (cd_audits db) r)"

lemma command_inv_mono: "command_inv as r \<Longrightarrow> set as \<subseteq> set bs \<Longrightarrow> command_inv bs r"
  by (auto simp: command_inv_def executed_in_time_def)

lemma load_command_present:
  assumes "control_inv db" "r \<in> set (cd_commands db)"
  shows "\<exists>x. load_command (ct_command_id r) db = Inr x"
  using assms lookup_row_member[of ct_command_id "cd_commands db" r]
  by (auto simp: load_command_def control_inv_def command_inv_def to_u64_def is_ok_iff)


lemma insert_command_cases:
  assumes "insert_command q now db = Inr db'"
  obtains r a where "cd_commands db' = cd_commands db @ [r]" "cd_audits db' = cd_audits db @ [a]"
    "ct_command_id r = cq_command_id q" "ct_request_id r = cq_request_id q"
    "ct_action r = action_as_str (cq_action q)" "ct_expires_at_ms r = uint (cq_expires_at_ms q)"
    "ct_status r = control_status_as_str (if cq_expires_at_ms q \<le> now then Expired else Received)"
    "lookup_row ct_command_id (cq_command_id q) (cd_commands db) = None"
  using assms by (auto simp: insert_command_def Let_def to_i64_ok_iff split: if_splits)

lemma insert_command_inv:
  assumes inv: "control_inv db" and q: "validate_control q now = Inr ()"
    and new: "lookup_row ct_request_id (cq_request_id q) (cd_commands db) = None"
    and ins: "insert_command q now db = Inr db'"
  shows "control_inv db'"
proof -
  obtain r a where r: "cd_commands db' = cd_commands db @ [r]" "cd_audits db' = cd_audits db @ [a]"
    "ct_command_id r = cq_command_id q" "ct_request_id r = cq_request_id q"
    "ct_action r = action_as_str (cq_action q)" "ct_expires_at_ms r = uint (cq_expires_at_ms q)"
    "ct_status r = control_status_as_str (if cq_expires_at_ms q \<le> now then Expired else Received)"
    "lookup_row ct_command_id (cq_command_id q) (cd_commands db) = None"
    by (rule insert_command_cases[OF ins])
  have "validate_id (cq_command_id q) = Inr ()" "cq_expires_at_ms q \<noteq> 0"
    using q by (auto simp: validate_control_def split: if_splits)
  then have "command_inv (cd_audits db') r"
    using r by (auto simp: command_inv_def executed_in_time_def terminal_texts_def word_gt_0_no uint_0_iff order_less_le)
  moreover have "\<forall>x \<in> set (cd_commands db). command_inv (cd_audits db') x"
    using inv r(2) by (auto simp: control_inv_def intro: command_inv_mono)
  ultimately show ?thesis using inv new r by (simp add: control_inv_def table_ok_append_row)
qed

lemma submit_cases:
  obtains (same) "snd (submit now q db) = db"
  | (new) db' where "submit now q db = (load_command (cq_command_id q) db', db')"
      "validate_control q now = Inr ()" "insert_command q now db = Inr db'"
      "lookup_row ct_request_id (cq_request_id q) (cd_commands db) = None"
  by (cases "validate_control q now"; cases "lookup_row ct_request_id (cq_request_id q) (cd_commands db)";
      cases "insert_command q now db") (auto simp: submit_def)

lemma submit_inv [inv_intros]: "control_inv db \<Longrightarrow> control_inv (snd (submit now q db))"
  by (cases rule: submit_cases[of now q db]) (auto simp: insert_command_inv)

lemma finish_row_keeps:
  "finish_row st out now r = Inr (x, r') \<Longrightarrow> ct_command_id r' = ct_command_id r \<and> ct_request_id r' = ct_request_id r
     \<and> ct_actor r' = ct_actor r \<and> ct_action r' = ct_action r \<and> ct_scope r' = ct_scope r
     \<and> ct_expires_at_ms r' = ct_expires_at_ms r \<and> ct_created_at_ms r' = ct_created_at_ms r"
  by (auto simp: finish_row_def split: if_splits)

lemma complete_cases:
  obtains (same) err where "complete i st out now db = (Inl err, db)"
  | (fin) db' r x r' where "complete i st out now db = (load_command i db', db')"
      "lookup_row ct_command_id i (cd_commands db) = Some r" "finish_row st out now r = Inr (x, r')"
      "cd_commands db' = put_row ct_command_id r' (cd_commands db)"
      "\<exists>as. cd_audits db' = cd_audits db @ as"
      "x \<or> (\<exists>a \<in> set (cd_audits db'). ca_command_id a = ct_command_id r \<and> ca_result a = Some out
         \<and> to_i64 now = Inr (ca_occurred_at_ms a))"
proof (cases "snd (complete i st out now db) = db \<and> \<not> is_ok (fst (complete i st out now db))")
  case True
  then show thesis using same by (cases "complete i st out now db"; cases "fst (complete i st out now db)") auto
next
  case False
  then obtain r x r' where r: "validate_id i = Inr ()" "lookup_row ct_command_id i (cd_commands db) = Some r"
    "finish_row st out now r = Inr (x, r')"
    by (auto simp: complete_def then_do_def split: sum.splits option.splits prod.splits)
  have keep: "ct_command_id r' = ct_command_id r" using finish_row_keeps[OF r(3)] by simp
  show thesis
  proof (cases x)
    case True
    with r show thesis by (intro fin[of "db\<lparr>cd_commands := put_row ct_command_id r' (cd_commands db)\<rparr>" r x r'])
        (auto simp: complete_def)
  next
    case x: False
    with False r obtain n where n: "to_i64 now = Inr n" "0 < n"
      by (cases "to_i64 now") (auto simp: complete_def split: if_splits)
    with x r keep show thesis
      by (intro fin[of "\<lparr>cd_commands = put_row ct_command_id r' (cd_commands db), cd_audits = cd_audits db @
         [\<lparr>ca_command_id = ct_command_id r', ca_actor = ct_actor r', ca_action = ct_action r',
           ca_before_state = None, ca_after_state = None, ca_result = Some out, ca_occurred_at_ms = n\<rparr>]\<rparr>" r x r'])
        (auto simp: complete_def)
  qed
qed

lemma finish_row_status:
  "finish_row st out now r = Inr (x, r') \<Longrightarrow>
     (if x then ct_status r' = ''EXPIRED'' \<and> ct_result r' = Some expired_reason
      else ct_status r \<noteq> ''EXPIRED'' \<and> uint now < ct_expires_at_ms r \<and> st \<in> {Succeeded, Failed, Partial}
        \<and> ct_status r' = control_status_as_str st \<and> ct_result r' = Some out)"
  by (auto simp: finish_row_def to_i64_ok_iff not_le split: if_splits)

lemma expired_text: "''EXPIRED'' = control_status_as_str Expired"
  by simp

lemma complete_inv [inv_intros]:
  assumes inv: "control_inv db"
  shows "control_inv (snd (complete i st out now db))"
proof (cases rule: complete_cases[of i st out now db])
  case (fin db' r x r')
  have r: "r \<in> set (cd_commands db)" "ct_command_id r = i" using lookup_row_SomeD[OF fin(2)] by auto
  have keep: "ct_command_id r' = ct_command_id r" "ct_request_id r' = ct_request_id r"
    "ct_action r' = ct_action r" "ct_expires_at_ms r' = ct_expires_at_ms r"
    using finish_row_keeps[OF fin(3)] by simp_all
  have old: "\<forall>x \<in> set (cd_commands db). command_inv (cd_audits db') x"
    using inv fin(5) by (auto simp: control_inv_def intro: command_inv_mono)
  have "is_ok (parse_status (ct_status r'))"
    using finish_row_status[OF fin(3)] by (cases x) (simp_all add: expired_text del: control_status_as_str.simps)
  moreover have "executed_in_time (cd_audits db') r'"
    using finish_row_status[OF fin(3)] fin(6) keep
    by (cases x) (auto simp: executed_in_time_def terminal_texts_def to_i64_ok_iff)
  ultimately have new: "command_inv (cd_audits db') r'"
    using old r keep by (auto simp: command_inv_def)
  have ok: "table_ok ct_command_id (cd_commands db)" using inv by (simp add: control_inv_def)
  have "map ct_request_id (cd_commands db') = map ct_request_id (cd_commands db)"
    unfolding fin(4) using fin(2) keep r by (intro map_put_row[of _ _ _ r]) simp_all
  then show ?thesis
    using inv old new fin(1) set_put_row[OF ok, of r' r] fin(2) keep r
    by (auto simp: control_inv_def fin(4) table_ok_def)
qed (use inv in simp)


section \<open>Replays and histories\<close>

text \<open>After a success the command is found under its request id.\<close>

lemma submit_eq:
  assumes "validate_control q now = Inr ()"
  shows "lookup_row ct_request_id (cq_request_id q) (cd_commands db) = Some r \<Longrightarrow>
      submit now q db = (if ct_command_id r \<noteq> cq_command_id q
        then Inl (Bail ''control request_id was reused with another command_id'')
        else load_command (cq_command_id q) db, db)"
    and "lookup_row ct_request_id (cq_request_id q) (cd_commands db) = None \<Longrightarrow>
      submit now q db = (case insert_command q now db of Inl e \<Rightarrow> (Inl e, db)
        | Inr db' \<Rightarrow> (load_command (cq_command_id q) db', db'))"
  by (simp_all add: submit_def assms)

lemma submit_valid: "submit now q db = (Inr x, db') \<Longrightarrow> validate_control q now = Inr ()"
  by (cases "validate_control q now") (simp_all add: submit_def)

lemma submit_stored:
  assumes "submit now q db = (Inr x, db')"
  obtains r where "validate_control q now = Inr ()"
    "lookup_row ct_request_id (cq_request_id q) (cd_commands db') = Some r"
    "ct_command_id r = cq_command_id q" "load_command (cq_command_id q) db' = Inr x"
proof (cases "lookup_row ct_request_id (cq_request_id q) (cd_commands db)")
  case (Some r)
  note eq = submit_eq(1)[OF submit_valid[OF assms] Some]
  show thesis by (rule that[of r]) (use assms eq Some submit_valid[OF assms] in \<open>auto split: if_splits\<close>)
next
  case None
  with assms submit_eq(2)[OF submit_valid[OF assms] None]
  have v: "insert_command q now db = Inr db'" "load_command (cq_command_id q) db' = Inr x"
    by (cases "insert_command q now db"; simp)+
  obtain r where r: "cd_commands db' = cd_commands db @ [r]" "ct_command_id r = cq_command_id q"
    "ct_request_id r = cq_request_id q"
    by (rule insert_command_cases[OF v(1)])
  show thesis by (rule that[OF submit_valid[OF assms] _ r(2) v(2)]) (use None r in \<open>simp add: lookup_row_append\<close>)
qed

text \<open>A new command can always be read back, so a failed submission has written nothing.\<close>

lemma submit_failed:
  assumes "submit now q db = (Inl err, db')"
  shows "db' = db"
proof (cases rule: submit_cases[of now q db])
  case (new db1)
  have id: "validate_id (cq_command_id q) = Inr ()" using new(2) by (simp add: validate_control_def)
  obtain r where r: "cd_commands db1 = cd_commands db @ [r]" "ct_command_id r = cq_command_id q"
    "ct_action r = action_as_str (cq_action q)" "ct_expires_at_ms r = uint (cq_expires_at_ms q)"
    "ct_status r = control_status_as_str (if cq_expires_at_ms q \<le> now then Expired else Received)"
    "lookup_row ct_command_id (cq_command_id q) (cd_commands db) = None"
    by (rule insert_command_cases[OF new(3)])
  have "is_ok (load_command (cq_command_id q) db1)"
    using id r by (simp add: load_command_def lookup_row_append to_u64_def del: control_status_as_str.simps)
  with new(1) assms show ?thesis by (auto simp: is_ok_iff)
qed (use assms in simp)

inductive control_step :: "control_db \<Rightarrow> control_db \<Rightarrow> bool" where
  submitted: "control_step db (snd (submit now q db))"
| completed: "control_step db (snd (complete i st out now db))"

inductive_cases control_stepE: "control_step db db'"

abbreviation control_steps :: "control_db \<Rightarrow> control_db \<Rightarrow> bool" where
  "control_steps \<equiv> control_step\<^sup>*\<^sup>*"

definition control_empty :: control_db where
  "control_empty = \<lparr>cd_commands = [], cd_audits = []\<rparr>"

definition control_reachable :: "control_db \<Rightarrow> bool" where
  "control_reachable db \<longleftrightarrow> control_steps control_empty db"

lemma control_step_inv: "control_step db db' \<Longrightarrow> control_inv db \<Longrightarrow> control_inv db'"
  by (erule control_stepE) (simp_all add: inv_intros)

lemma control_steps_inv: "control_steps db db' \<Longrightarrow> control_inv db \<Longrightarrow> control_inv db'"
  by (induction rule: rtranclp_induct) (auto intro: control_step_inv)

lemma control_reachable_inv: "control_reachable db \<Longrightarrow> control_inv db"
  unfolding control_reachable_def
  by (erule control_steps_inv) (simp add: control_inv_def control_empty_def)

text \<open>What a later version of a row keeps of an earlier one.\<close>

definition row_extends :: "control_row \<Rightarrow> control_row \<Rightarrow> bool" where
  "row_extends r r' \<longleftrightarrow> ct_command_id r' = ct_command_id r \<and> ct_request_id r' = ct_request_id r
     \<and> ct_actor r' = ct_actor r \<and> ct_action r' = ct_action r \<and> ct_scope r' = ct_scope r
     \<and> ct_expires_at_ms r' = ct_expires_at_ms r \<and> ct_created_at_ms r' = ct_created_at_ms r
     \<and> (ct_status r = ''EXPIRED'' \<longrightarrow> ct_status r' = ''EXPIRED'')"

definition control_extends :: "control_db \<Rightarrow> control_db \<Rightarrow> bool" where
  "control_extends db db' \<longleftrightarrow> (\<forall>r \<in> set (cd_commands db). \<exists>r' \<in> set (cd_commands db'). row_extends r r')
     \<and> (\<exists>as. cd_audits db' = cd_audits db @ as)"

lemma control_extends_refl: "control_extends db db"
  by (auto simp: control_extends_def row_extends_def)

lemma control_extends_trans: "control_extends a b \<Longrightarrow> control_extends b c \<Longrightarrow> control_extends a c"
  unfolding control_extends_def row_extends_def by (metis append.assoc)

lemma submit_extends: "control_extends db (snd (submit now q db))"
proof (cases rule: submit_cases[of now q db])
  case (new db')
  show ?thesis by (rule insert_command_cases[OF new(3)])
      (auto simp: new(1) control_extends_def row_extends_def)
qed (simp add: control_extends_refl)

lemma complete_extends:
  assumes "control_inv db"
  shows "control_extends db (snd (complete i st out now db))"
proof (cases rule: complete_cases[of i st out now db])
  case (fin db' r x r')
  have r: "r \<in> set (cd_commands db)" "ct_command_id r = i" using lookup_row_SomeD[OF fin(2)] by auto
  have ok: "table_ok ct_command_id (cd_commands db)" using assms by (simp add: control_inv_def)
  have "row_extends r r'"
    using finish_row_keeps[OF fin(3)] finish_row_status[OF fin(3)] by (auto simp: row_extends_def split: if_splits)
  moreover have "row_extends y y" for y by (simp add: row_extends_def)
  moreover have "set (cd_commands db') = insert r' {y \<in> set (cd_commands db). ct_command_id y \<noteq> i}"
    using set_put_row[OF ok, of r' r] fin(2,4) finish_row_keeps[OF fin(3)] r(2) by simp
  moreover have "y = r" if "y \<in> set (cd_commands db)" "ct_command_id y = i" for y
    using that lookup_row_member[OF ok that(1)] fin(2) by simp
  ultimately have "\<exists>y' \<in> set (cd_commands db'). row_extends y y'" if "y \<in> set (cd_commands db)" for y
    using that by (cases "ct_command_id y = i") auto
  then show ?thesis using fin(1,5) by (simp add: control_extends_def)
qed (simp add: control_extends_refl)

lemma control_steps_extend: "control_steps db db' \<Longrightarrow> control_inv db \<Longrightarrow> control_extends db db'"
proof (induction rule: rtranclp_induct)
  case (step y z)
  then have "control_inv y" by (auto intro: control_steps_inv)
  with step(2) have "control_extends y z" by (auto elim!: control_stepE simp: submit_extends complete_extends)
  with step show ?case by (blast intro: control_extends_trans)
qed (rule control_extends_refl)

interpretation control: idempotent_submission "submit now" control_inv "\<lambda>x. x" for now
proof unfold_locales
  fix q :: control_request and db db' :: control_db and x
  assume "submit now q db = (Inr x, db')"
  then show "\<exists>y. submit now q db' = (Inr y, db') \<and> y = x"
    by (rule submit_stored) (simp add: submit_def)
next
  fix q :: control_request and db db' :: control_db and err
  assume "submit now q db = (Inl err, db')"
  then show "db' = db" by (rule submit_failed)
qed (simp add: submit_inv)


section \<open>Properties\<close>

text \<open>No command takes effect late: in every reachable database a command with a result of an
  execution has an audit row with that very result, written strictly before the command expired,
  and every stored command can be read back.\<close>

theorem executions_audited_in_time:
  assumes "control_reachable db" "r \<in> set (cd_commands db)"
  shows "(ct_status r \<in> terminal_texts \<longrightarrow> (\<exists>a \<in> set (cd_audits db). ca_command_id a = ct_command_id r
           \<and> ca_result a = ct_result r \<and> ca_occurred_at_ms a < ct_expires_at_ms r))
    \<and> is_ok (load_command (ct_command_id r) db)"
  using control_reachable_inv[OF assms(1)] assms(2) load_command_present[of db r]
  by (auto simp: control_inv_def command_inv_def executed_in_time_def is_ok_iff)

text \<open>A completion decides by the clock alone: at or after the expiry it records EXPIRED with the
  expiry reason and no audit row, before it the reported terminal status and result, in both
  cases replacing whatever the command had recorded, an earlier success included.\<close>

theorem complete_outcome:
  assumes "control_reachable db" "lookup_row ct_command_id i (cd_commands db) = Some r"
    "ct_status r \<noteq> ''EXPIRED''" "to_i64 now = Inr n" "0 < n" "st \<in> {Succeeded, Failed, Partial}"
  shows "\<exists>c. fst (complete i st out now db) = Inr c
    \<and> (if ct_expires_at_ms r \<le> n
       then cc_status c = Expired \<and> cc_result c = Some expired_reason
         \<and> cd_audits (snd (complete i st out now db)) = cd_audits db
       else cc_status c = st \<and> cc_result c = Some out
         \<and> length (cd_audits (snd (complete i st out now db))) = Suc (length (cd_audits db)))"
proof -
  have r: "r \<in> set (cd_commands db)" "ct_command_id r = i" using lookup_row_SomeD[OF assms(2)] by auto
  have id: "validate_id i = Inr ()" "is_ok (parse_action (ct_action r))" "0 < ct_expires_at_ms r"
    using control_reachable_inv[OF assms(1)] r by (auto simp: control_inv_def command_inv_def)
  let ?x = "ct_expires_at_ms r \<le> n"
  let ?r = "if ?x then r\<lparr>ct_status := ''EXPIRED'', ct_result := Some expired_reason\<rparr>
    else r\<lparr>ct_status := control_status_as_str st, ct_result := Some out\<rparr>"
  have fr: "finish_row st out now r = Inr (?x, ?r)" using assms by (simp add: finish_row_def)
  have key: "ct_command_id ?r = i" using r by simp
  obtain db' where db': "complete i st out now db = (load_command i db', db')"
    "cd_commands db' = put_row ct_command_id ?r (cd_commands db)"
    "length (cd_audits db') = (if ?x then length (cd_audits db) else Suc (length (cd_audits db)))"
    "?x \<longrightarrow> cd_audits db' = cd_audits db"
    using assms(2,4,5) id fr by (cases ?x) (simp_all add: complete_def)
  have "lookup_row ct_command_id i (cd_commands db') = Some ?r"
    using db'(2) assms(2) key by (simp add: lookup_put_row)
  then have "load_command i db' = Inr
      \<lparr>cc_command_id = i, cc_request_id = ct_request_id r, cc_actor = ct_actor r,
       cc_action = projr (parse_action (ct_action r)), cc_status = (if ?x then Expired else st),
       cc_expires_at_ms = word_of_int (ct_expires_at_ms r),
       cc_result = (if ?x then Some expired_reason else Some out)\<rparr>"
    using id r by (auto simp: load_command_def to_u64_def is_ok_iff expired_text simp del: control_status_as_str.simps)
  then show ?thesis using db' by simp
qed

text \<open>However the core goes on, a command keeps its ids, actor, action, scope and times, an expired
  one stays expired, and the audit log only grows.\<close>

theorem expired_is_final:
  assumes "control_reachable db" "control_steps db db'" "r \<in> set (cd_commands db)"
  shows "\<exists>r'. lookup_row ct_command_id (ct_command_id r) (cd_commands db') = Some r' \<and> row_extends r r'
    \<and> (\<exists>as. cd_audits db' = cd_audits db @ as)"
proof -
  note inv = control_reachable_inv[OF assms(1)]
  have inv': "control_inv db'" by (rule control_steps_inv[OF assms(2) inv])
  obtain r' where r': "r' \<in> set (cd_commands db')" "row_extends r r'" "\<exists>as. cd_audits db' = cd_audits db @ as"
    using control_steps_extend[OF assms(2) inv] assms(3) by (auto simp: control_extends_def)
  then show ?thesis using lookup_row_member[of ct_command_id "cd_commands db'" r'] inv'
    by (auto simp: control_inv_def row_extends_def)
qed

text \<open>A request submitted again, at any later time, is answered with the command its first submission
  stored and writes nothing, whatever action it now carries; with another command id it is refused.\<close>

theorem submit_replay:
  assumes "control_reachable db" "submit now q db = (Inr c, db')"
  shows "control.repeated now (Suc n) q db = db'
    \<and> (\<forall>later a. later \<noteq> 0 \<longrightarrow> submit later (q\<lparr>cq_action := a\<rparr>) db' = (Inr c, db'))
    \<and> (\<forall>i. validate_id i = Inr () \<and> i \<noteq> cq_command_id q \<longrightarrow>
          submit now (q\<lparr>cq_command_id := i\<rparr>) db' =
            (Inl (Bail ''control request_id was reused with another command_id''), db'))"
proof -
  obtain r where r: "validate_control q now = Inr ()"
    "lookup_row ct_request_id (cq_request_id q) (cd_commands db') = Some r"
    "ct_command_id r = cq_command_id q" "load_command (cq_command_id q) db' = Inr c"
    by (rule submit_stored[OF assms(2)])
  have ids: "validate_id (cq_command_id q) = Inr ()" "validate_id (cq_request_id q) = Inr ()"
    "validate_id (cq_actor q) = Inr ()" "cq_expires_at_ms q \<noteq> 0" "now \<noteq> 0"
    using r(1) by (auto simp: validate_control_def split: if_splits)
  show ?thesis
    using r ids control.repeated_once[OF control_reachable_inv[OF assms(1)] assms(2)]
    by (auto simp: submit_def validate_control_def)
qed

section \<open>Witnesses\<close>

definition sample_control :: control_request where
  "sample_control = \<lparr>cq_command_id = ''c'', cq_request_id = ''r'', cq_actor = ''op'', cq_action = Halt,
     cq_scope = JNull, cq_expires_at_ms = 10\<rparr>"

definition control_1 :: control_db where "control_1 = snd (submit 5 sample_control control_empty)"
definition control_2 :: control_db where "control_2 = snd (complete ''c'' Succeeded JNull 6 control_1)"

lemmas control_sample_simps = sample_control_def control_empty_def submit_def validate_control_def
  insert_command_def load_command_def to_u64_def validate_id_def trim_def trim_start_def is_whitespace_def
  complete_def finish_row_def parse_action_def parse_status_def

lemma control_1_reachable: "control_reachable control_1"
  unfolding control_reachable_def control_1_def by (rule r_into_rtranclp) (rule control_step.submitted)

lemma control_2_reachable: "control_reachable control_2"
  using control_1_reachable unfolding control_reachable_def control_2_def
  by (rule rtranclp.rtrancl_into_rtrancl) (rule control_step.completed)

lemma control_1_rows: "\<exists>r. cd_commands control_1 = [r] \<and> ct_command_id r = ''c'' \<and> ct_status r = ''RECEIVED''
    \<and> ct_expires_at_ms r = 10 \<and> ct_action r = ''HALT''"
  by (simp add: control_1_def control_sample_simps)

lemma control_2_rows: "\<exists>r. cd_commands control_2 = [r] \<and> ct_command_id r = ''c'' \<and> ct_status r = ''SUCCEEDED''
    \<and> ct_expires_at_ms r = 10"
  by (simp add: control_2_def control_1_def control_sample_simps)

lemma executions_audited_in_time_witness:
  "\<exists>r \<in> set (cd_commands control_2). \<exists>a \<in> set (cd_audits control_2). ca_result a = ct_result r \<and> ca_occurred_at_ms a < 10"
proof -
  obtain r where r: "cd_commands control_2 = [r]" "ct_status r = ''SUCCEEDED''" "ct_expires_at_ms r = 10"
    using control_2_rows by blast
  then have "r \<in> set (cd_commands control_2)" by simp
  from executions_audited_in_time[OF control_2_reachable this] this r show ?thesis
    by (auto simp: terminal_texts_def)
qed

lemma complete_outcome_witness:
  "\<exists>c. fst (complete ''c'' Failed JNull 7 control_2) = Inr c \<and> cc_status c = Failed"
proof -
  obtain r where r: "cd_commands control_2 = [r]" "ct_command_id r = ''c''" "ct_status r = ''SUCCEEDED''" "ct_expires_at_ms r = 10"
    using control_2_rows by blast
  have "\<exists>c. fst (complete ''c'' Failed JNull 7 control_2) = Inr c \<and>
     (if ct_expires_at_ms r \<le> 7 then cc_status c = Expired \<and> cc_result c = Some expired_reason
         \<and> cd_audits (snd (complete ''c'' Failed JNull 7 control_2)) = cd_audits control_2
       else cc_status c = Failed \<and> cc_result c = Some JNull
         \<and> length (cd_audits (snd (complete ''c'' Failed JNull 7 control_2))) = Suc (length (cd_audits control_2)))"
    by (rule complete_outcome[OF control_2_reachable]) (simp_all add: r)
  with r show ?thesis by auto
qed

lemma expired_is_final_witness:
  "\<exists>r r'. r \<in> set (cd_commands control_1) \<and> lookup_row ct_command_id ''c'' (cd_commands control_2) = Some r' \<and> row_extends r r'"
proof -
  obtain r where r: "cd_commands control_1 = [r]" "ct_command_id r = ''c''" using control_1_rows by blast
  have "control_steps control_1 control_2" unfolding control_2_def by (rule r_into_rtranclp) (rule control_step.completed)
  from expired_is_final[OF control_1_reachable this, of r] r show ?thesis by auto
qed

lemma submit_replay_witness:
  "\<exists>c. submit 5 sample_control control_empty = (Inr c, control_1) \<and> submit 50 sample_control control_1 = (Inr c, control_1)"
proof -
  obtain c where c: "submit 5 sample_control control_empty = (Inr c, control_1)"
    by (simp add: control_1_def control_sample_simps)
  have "control_reachable control_empty" by (simp add: control_reachable_def)
  from submit_replay[OF this c, THEN conjunct2, THEN conjunct1, rule_format, of 50 Halt]
  have "submit 50 (sample_control\<lparr>cq_action := Halt\<rparr>) control_1 = (Inr c, control_1)" by simp
  then show ?thesis using c by (simp add: sample_control_def)
qed

end
