(* ===== verification/Market.thy ===== *)
theory Market
  imports Decimal
begin

text \<open>
  Order book snapshots and the depth sweep, \<open>crates/core/src/market.rs\<close>: the levels of
  a book, the validation of a snapshot, the sweep of one side for a quantity, and the
  parsing of venue levels (the decimal parser of the crate is the parameter \<open>parse_dec\<close>).
\<close>

section \<open>Data\<close>

record level =
  lv_price :: decimal
  lv_quantity :: decimal

record order_book_snapshot =
  ob_venue :: string
  ob_symbol :: string
  ob_bids :: "level list"
  ob_asks :: "level list"
  ob_sequence :: u64
  ob_source_timestamp_ms :: "u64 option"
  ob_received_timestamp_ms :: u64

datatype book_side = Bids | Asks

record sweep =
  sw_quantity :: decimal
  sw_quote_amount :: decimal
  sw_vwap :: decimal
  sw_worst_price :: decimal

record level_update =
  lu_price :: decimal
  lu_quantity :: decimal

section \<open>Validation\<close>

definition level_positive :: "level \<Rightarrow> bool" where
  "level_positive l \<longleftrightarrow> 0 < lv_price l \<and> 0 < lv_quantity l"

definition price_before :: "bool \<Rightarrow> level \<Rightarrow> level \<Rightarrow> bool" where
  "price_before descending a b =
     (if descending then lv_price a > lv_price b else lv_price a < lv_price b)"

definition validate_levels :: "level list \<Rightarrow> bool \<Rightarrow> unit result" where
  "validate_levels levels descending =
     (if \<exists>l \<in> set levels. lv_price l \<le> 0 \<or> lv_quantity l \<le> 0
      then Inl (Bail ''order book levels must have positive price and quantity'')
      else if \<not> adjacent (price_before descending) levels
      then Inl (Bail ''order book levels are not strictly sorted or contain duplicate prices'')
      else Inr ())"

definition validate :: "order_book_snapshot \<Rightarrow> unit result" where
  "validate b =
     (if ob_bids b = [] \<or> ob_asks b = []
      then Inl (Bail ''order book has an empty side'')
      else then_do (validate_levels (ob_bids b) True) (\<lambda>_.
           then_do (validate_levels (ob_asks b) False) (\<lambda>_.
           if lv_price (ob_bids b ! 0) \<ge> lv_price (ob_asks b ! 0)
           then Inl (Bail ''snapshot is crossed'')
           else Inr ())))"

section \<open>Sweep\<close>

fun sweep_loop :: "(decimal \<Rightarrow> decimal \<Rightarrow> decimal) \<Rightarrow> decimal \<Rightarrow> level list \<Rightarrow> decimal \<Rightarrow> decimal
    \<Rightarrow> decimal \<Rightarrow> sweep result" where
  "sweep_loop dv target [] remaining quote_amount worst_price =
     Inl (Bail ''insufficient depth'')"
| "sweep_loop dv target (l # ls) remaining quote_amount worst_price =
     (let taken = min remaining (lv_quantity l);
          quote_amount = quote_amount + taken * lv_price l;
          remaining = remaining - taken;
          worst_price = (if taken > 0 then lv_price l else worst_price)
      in if remaining = 0
         then then_do (checked_div dv quote_amount target) (\<lambda>vwap.
                Inr \<lparr>sw_quantity = target, sw_quote_amount = quote_amount,
                     sw_vwap = vwap, sw_worst_price = worst_price\<rparr>)
         else sweep_loop dv target ls remaining quote_amount worst_price)"

definition book_levels :: "book_side \<Rightarrow> order_book_snapshot \<Rightarrow> level list" where
  "book_levels side b = (case side of Bids \<Rightarrow> ob_bids b | Asks \<Rightarrow> ob_asks b)"

definition sweep_book :: "(decimal \<Rightarrow> decimal \<Rightarrow> decimal) \<Rightarrow> order_book_snapshot \<Rightarrow> book_side
    \<Rightarrow> decimal \<Rightarrow> sweep result" where
  "sweep_book dv b side target =
     (if target \<le> 0 then Inl (Bail ''sweep quantity must be positive'')
      else sweep_loop dv target (book_levels side b) target 0 0)"

section \<open>Parsing\<close>

definition parse_field :: "(string \<Rightarrow> decimal option) \<Rightarrow> string \<Rightarrow> string \<Rightarrow> decimal result" where
  "parse_field parse_dec context_text s =
     (case parse_dec s of None \<Rightarrow> Inl (Bail context_text) | Some d \<Rightarrow> Inr d)"

definition parse_levels :: "(string \<Rightarrow> decimal option) \<Rightarrow> (string \<times> string) list \<Rightarrow> level list result" where
  "parse_levels parse_dec raw = collect (\<lambda>(p, q).
     then_do (parse_field parse_dec ''invalid level price'' p) (\<lambda>price.
     then_do (parse_field parse_dec ''invalid level quantity'' q) (\<lambda>quantity.
     Inr \<lparr>lv_price = price, lv_quantity = quantity\<rparr>))) raw"

definition parse_updates :: "(string \<Rightarrow> decimal option) \<Rightarrow> (string \<times> string) list
    \<Rightarrow> level_update list result" where
  "parse_updates parse_dec raw = collect (\<lambda>(p, q).
     then_do (parse_field parse_dec ''invalid level price'' p) (\<lambda>price.
     then_do (parse_field parse_dec ''invalid level quantity'' q) (\<lambda>quantity.
     Inr \<lparr>lu_price = price, lu_quantity = quantity\<rparr>))) raw"

section \<open>What validation means\<close>

lemma transp_price_before: "transp (price_before d)"
  by (auto simp: transp_def price_before_def split: if_splits)

lemma validate_levels_ok_iff:
  "validate_levels ls d = Inr () \<longleftrightarrow>
     (\<forall>l \<in> set ls. level_positive l) \<and> sorted_wrt (price_before d) ls"
proof -
  have "(\<exists>l \<in> set ls. lv_price l \<le> 0 \<or> lv_quantity l \<le> 0) \<longleftrightarrow> \<not> (\<forall>l \<in> set ls. level_positive l)"
    by (auto simp: level_positive_def not_less)
  then show ?thesis
    by (simp add: validate_levels_def adjacent_sorted_wrt[OF transp_price_before])
qed

definition valid_side :: "bool \<Rightarrow> level list \<Rightarrow> bool" where
  "valid_side d ls \<longleftrightarrow> ls \<noteq> [] \<and> (\<forall>l \<in> set ls. level_positive l) \<and> sorted_wrt (price_before d) ls"

lemma validate_ok_iff:
  "validate b = Inr () \<longleftrightarrow> valid_side True (ob_bids b) \<and> valid_side False (ob_asks b)
     \<and> lv_price (hd (ob_bids b)) < lv_price (hd (ob_asks b))"
  by (auto simp: validate_def valid_side_def validate_levels_ok_iff hd_conv_nth not_le split: if_splits)

lemma valid_side_head_best:
  assumes "valid_side d ls" "l \<in> set ls"
  shows "(d \<longrightarrow> lv_price l \<le> lv_price (hd ls)) \<and> (\<not> d \<longrightarrow> lv_price (hd ls) \<le> lv_price l)"
  using assms by (cases ls) (auto simp: valid_side_def price_before_def less_imp_le)

section \<open>What a sweep returns\<close>

text \<open>The reference: how much is taken from each level, best price first.\<close>

fun takings :: "decimal \<Rightarrow> level list \<Rightarrow> decimal list" where
  "takings r [] = []"
| "takings r (l # ls) = min r (lv_quantity l) # takings (r - min r (lv_quantity l)) ls"

fun cost :: "decimal list \<Rightarrow> level list \<Rightarrow> decimal" where
  "cost (x # xs) (l # ls) = x * lv_price l + cost xs ls"
| "cost _ _ = 0"

definition depth :: "level list \<Rightarrow> decimal" where
  "depth ls = sum_list (map lv_quantity ls)"

lemma depth_simps [simp]: "depth [] = 0" "depth (l # ls) = lv_quantity l + depth ls"
  by (simp_all add: depth_def)

lemma depth_nonneg: "\<forall>l \<in> set ls. level_positive l \<Longrightarrow> 0 \<le> depth ls"
  by (induction ls) (auto simp: level_positive_def)

lemma length_takings [simp]: "length (takings r ls) = length ls"
  by (induction ls arbitrary: r) auto

lemma takings_zero: "\<forall>l \<in> set ls. level_positive l \<Longrightarrow> cost (takings 0 ls) ls = 0 \<and> sum_list (takings 0 ls) = 0"
  by (induction ls) (auto simp: level_positive_def min_def)

lemma sweep_loop_ok_iff:
  assumes "\<forall>l \<in> set ls. level_positive l" "0 < r" "target \<noteq> 0"
  shows "is_ok (sweep_loop dv target ls r a w) \<longleftrightarrow> r \<le> depth ls"
  using assms
proof (induction ls arbitrary: r a w)
  case (Cons l ls)
  show ?case
  proof (cases "r \<le> lv_quantity l")
    case True
    then show ?thesis using Cons.prems depth_nonneg[of ls] by (simp add: Let_def min_def)
  next
    case False
    then show ?thesis using Cons by (simp add: Let_def min_def algebra_simps)
  qed
qed simp

lemma sweep_loop_result:
  assumes "\<forall>l \<in> set ls. level_positive l" "0 < r" "target \<noteq> 0"
    and "sweep_loop dv target ls r a w = Inr s"
  shows "sw_quantity s = target"
    and "sw_quote_amount s = a + cost (takings r ls) ls"
    and "sw_vwap s = dv (sw_quote_amount s) target"
    and "sum_list (takings r ls) = r"
  using assms
proof (atomize(full), induction ls arbitrary: r a w)
  case (Cons l ls)
  show ?case
  proof (cases "r \<le> lv_quantity l")
    case True
    then show ?thesis using Cons.prems takings_zero[of ls]
      by (auto simp: Let_def min_def)
  next
    case False
    then show ?thesis
      using Cons.prems Cons.IH[of "r - lv_quantity l" "a + lv_quantity l * lv_price l" "lv_price l"]
      by (auto simp: Let_def min_def level_positive_def)
  qed
qed simp

text \<open>The worst price is the price of the last level the sweep takes from.\<close>

lemma sweep_loop_worst:
  assumes "\<forall>l \<in> set ls. level_positive l" "0 < r" "target \<noteq> 0"
    and "sweep_loop dv target ls r a w = Inr s"
  shows "\<exists>l pre post. ls = pre @ l # post \<and> sw_worst_price s = lv_price l
           \<and> depth pre < r \<and> r \<le> depth (pre @ [l])"
  using assms
proof (induction ls arbitrary: r a w)
  case (Cons l ls)
  show ?case
  proof (cases "r \<le> lv_quantity l")
    case True
    then show ?thesis using Cons.prems
      by (intro exI[of _ l] exI[of _ "[]"] exI[of _ ls]) (auto simp: Let_def min_def)
  next
    case False
    then have "sweep_loop dv target ls (r - lv_quantity l) (a + lv_quantity l * lv_price l) (lv_price l) = Inr s"
      using Cons.prems by (auto simp: Let_def min_def level_positive_def)
    moreover have "\<forall>l \<in> set ls. level_positive l" "0 < r - lv_quantity l"
      using Cons.prems(1) False by auto
    ultimately have "\<exists>m pre post. ls = pre @ m # post \<and> sw_worst_price s = lv_price m
        \<and> depth pre < r - lv_quantity l \<and> r - lv_quantity l \<le> depth (pre @ [m])"
      by (intro Cons.IH[OF _ _ Cons.prems(3)])
    then obtain m pre post where
      "ls = pre @ m # post" "sw_worst_price s = lv_price m"
      "depth pre < r - lv_quantity l" "r - lv_quantity l \<le> depth (pre @ [m])"
      by blast
    then show ?thesis
      by (intro exI[of _ m] exI[of _ "l # pre"] exI[of _ post]) (auto simp: algebra_simps)
  qed
qed simp

text \<open>Bounds on the cost of a sweep, from a bound on the prices it may pay.\<close>

lemma takings_bounds:
  assumes "\<forall>l \<in> set ls. level_positive l" "0 \<le> r"
  shows "list_all2 (\<lambda>x l. 0 \<le> x \<and> x \<le> lv_quantity l) (takings r ls) ls"
  using assms by (induction ls arbitrary: r) (auto simp: level_positive_def min_def)

lemma cost_lower:
  assumes "list_all2 (\<lambda>x l. 0 \<le> x \<and> x \<le> lv_quantity l) xs ls" "\<forall>l \<in> set ls. p \<le> lv_price l"
  shows "p * sum_list xs \<le> cost xs ls"
  using assms
proof (induction rule: list_all2_induct)
  case (Cons x xs l ls)
  then have "p * x \<le> x * lv_price l" by (metis list.set_intros(1) mult.commute mult_left_mono)
  with Cons show ?case by (simp add: distrib_left)
qed simp

lemma cost_upper:
  assumes "list_all2 (\<lambda>x l. 0 \<le> x \<and> x \<le> lv_quantity l) xs ls" "\<forall>l \<in> set ls. lv_price l \<le> p"
  shows "cost xs ls \<le> p * sum_list xs"
  using assms
proof (induction rule: list_all2_induct)
  case (Cons x xs l ls)
  then have "x * lv_price l \<le> p * x" by (metis list.set_intros(1) mult.commute mult_left_mono)
  with Cons show ?case by (simp add: distrib_left)
qed simp

text \<open>Taking best price first is the cheapest way to take the quantity out of an ascending side.\<close>

lemma greedy_cheapest:
  assumes "sorted_wrt (price_before False) ls" "\<forall>l \<in> set ls. level_positive l"
    and "list_all2 (\<lambda>x l. 0 \<le> x \<and> x \<le> lv_quantity l) xs ls" "sum_list xs = r" "0 \<le> r"
  shows "cost (takings r ls) ls \<le> cost xs ls"
  using assms
proof (induction ls arbitrary: xs r)
  case (Cons l ls)
  then obtain x ys where xs: "xs = x # ys" "0 \<le> x" "x \<le> lv_quantity l"
    "list_all2 (\<lambda>x l. 0 \<le> x \<and> x \<le> lv_quantity l) ys ls"
    by (auto simp: list_all2_Cons2)
  define t where "t = min r (lv_quantity l)"
  have ys: "sum_list ys = r - x" using Cons.prems(4) xs by simp
  have ys_nonneg: "0 \<le> sum_list ys"
    using xs(4) by (induction rule: list_all2_induct) auto
  then have xt: "x \<le> t" using xs ys by (simp add: t_def)
  have rt: "0 \<le> r - t" by (simp add: t_def)
  show ?case
  proof (cases "sum_list ys = 0")
    case True
    then have "x = r" using ys by simp
    with xs xt have t: "t = r" by (simp add: t_def)
    have "cost ys ls = 0"
      using xs(4) True
    proof (induction rule: list_all2_induct)
      case (Cons y ys m ms)
      have "0 \<le> sum_list ys" using Cons(2) by (induction rule: list_all2_induct) auto
      with Cons show ?case by simp
    qed simp
    then show ?thesis using takings_zero[of ls] Cons.prems(2) xs t \<open>x = r\<close>
      by (simp add: t_def[symmetric])
  next
    case False
    define k where "k = (r - t) / (r - x)"
    have pos: "0 < r - x" using False ys ys_nonneg by simp
    have k: "0 \<le> k" "k \<le> 1" using pos rt xt by (simp_all add: k_def)
    have zs: "list_all2 (\<lambda>x l. 0 \<le> x \<and> x \<le> lv_quantity l) (map ((*) k) ys) ls"
      using xs(4) k by (induction rule: list_all2_induct) (auto intro: order_trans[OF mult_left_le_one_le])
    have "sum_list (map ((*) k) ys) = k * sum_list ys" by (induction ys) (simp_all add: distrib_left)
    also have "\<dots> = r - t" using ys pos by (simp add: k_def)
    finally have IH: "cost (takings (r - t) ls) ls \<le> cost (map ((*) k) ys) ls"
      using Cons.IH[OF _ _ zs] Cons.prems rt by simp
    have scale: "cost (map ((*) k) ys) ls = k * cost ys ls"
      using xs(4) by (induction rule: list_all2_induct) (simp_all add: distrib_left)
    have "\<forall>m \<in> set ls. lv_price l \<le> lv_price m"
      using Cons.prems(1) by (auto simp: price_before_def less_imp_le)
    from cost_lower[OF xs(4) this] have low: "lv_price l * (r - x) \<le> cost ys ls" using ys by simp
    have "(t - x) * lv_price l = (1 - k) * (lv_price l * (r - x))"
      using pos by (simp add: k_def field_simps)
    also have "\<dots> \<le> (1 - k) * cost ys ls" using low k by (intro mult_left_mono) simp_all
    finally show ?thesis using IH scale xs by (simp add: t_def[symmetric] algebra_simps)
  qed
qed simp

text \<open>Beyond the last level it needs, a sweep takes nothing.\<close>

lemma takings_exhausted:
  assumes "\<forall>l \<in> set (pre @ post). level_positive l" "r \<le> depth pre" "0 \<le> r"
  shows "cost (takings r (pre @ post)) (pre @ post) = cost (takings r pre) pre
    \<and> sum_list (takings r (pre @ post)) = sum_list (takings r pre)"
  using assms
proof (induction pre arbitrary: r)
  case Nil
  then show ?case using takings_zero[of post] by simp
next
  case (Cons l pre)
  have "0 \<le> depth pre" using Cons.prems(1) by (intro depth_nonneg) simp
  then show ?case using Cons.prems Cons.IH[of "r - min r (lv_quantity l)"]
    by (auto simp: min_def level_positive_def)
qed

section \<open>Properties of the sweep\<close>

lemma sweep_bookE:
  assumes "sweep_book dv b side q = Inr s" "valid_side d (book_levels side b)"
  obtains "0 < q" "sw_quantity s = q"
    "sw_quote_amount s = cost (takings q (book_levels side b)) (book_levels side b)"
    "sum_list (takings q (book_levels side b)) = q"
    "sw_vwap s = dv (sw_quote_amount s) q"
    "list_all2 (\<lambda>x l. 0 \<le> x \<and> x \<le> lv_quantity l) (takings q (book_levels side b)) (book_levels side b)"
proof -
  from assms have q: "0 < q" and loop: "sweep_loop dv q (book_levels side b) q 0 0 = Inr s"
    by (auto simp: sweep_book_def split: if_splits)
  have pos: "\<forall>l \<in> set (book_levels side b). level_positive l"
    using assms(2) by (simp add: valid_side_def)
  show thesis
    using that q sweep_loop_result[OF pos q _ loop] takings_bounds[OF pos] by auto
qed

lemma sweep_book_amount_pos:
  assumes "sweep_book dv b side q = Inr s" "valid_side d (book_levels side b)"
  shows "0 < sw_quote_amount s"
proof -
  let ?ls = "book_levels side b"
  from assms obtain qpos: "0 < q" and amount: "sw_quote_amount s = cost (takings q ?ls) ?ls"
    and sum: "sum_list (takings q ?ls) = q"
    and bnd: "list_all2 (\<lambda>x l. 0 \<le> x \<and> x \<le> lv_quantity l) (takings q ?ls) ?ls"
    by (rule sweep_bookE)
  define p where "p = Min (lv_price ` set ?ls)"
  have ne: "?ls \<noteq> []" using assms(2) by (simp add: valid_side_def)
  then have "p \<in> lv_price ` set ?ls" unfolding p_def by (intro Min_in) auto
  then have "0 < p" using assms(2) by (auto simp: valid_side_def level_positive_def)
  moreover have "p * sum_list (takings q ?ls) \<le> cost (takings q ?ls) ?ls"
    by (rule cost_lower[OF bnd]) (auto simp: p_def)
  ultimately show ?thesis using qpos amount sum
    by (metis less_le_trans mult_pos_pos)
qed

lemma sweep_worst_bound:
  assumes "valid_side False (book_levels side b)" "sweep_book dv b side q = Inr s"
  shows "sw_quote_amount s \<le> sw_worst_price s * q"
proof -
  let ?ls = "book_levels side b"
  have pos: "\<forall>l \<in> set ?ls. level_positive l" and sorted: "sorted_wrt (price_before False) ?ls"
    using assms(1) by (auto simp: valid_side_def)
  from assms have q: "0 < q" and loop: "sweep_loop dv q ?ls q 0 0 = Inr s"
    by (auto simp: sweep_book_def split: if_splits)
  from sweep_loop_worst[OF pos q _ loop] q obtain l pre post where
    split: "?ls = pre @ l # post" and worst: "sw_worst_price s = lv_price l"
    and need: "q \<le> depth (pre @ [l])" by auto
  have split': "?ls = (pre @ [l]) @ post" using split by simp
  have "cost (takings q ?ls) ?ls = cost (takings q (pre @ [l])) (pre @ [l])"
    and "sum_list (takings q ?ls) = sum_list (takings q (pre @ [l]))"
    using takings_exhausted[of "pre @ [l]" post q] pos need q unfolding split' by auto
  moreover have "cost (takings q (pre @ [l])) (pre @ [l]) \<le> lv_price l * sum_list (takings q (pre @ [l]))"
  proof (rule cost_upper[OF takings_bounds])
    show "\<forall>m \<in> set (pre @ [l]). lv_price m \<le> lv_price l"
      using sorted unfolding split by (auto simp: sorted_wrt_append price_before_def less_imp_le)
  qed (use pos q in \<open>auto simp: split\<close>)
  ultimately show ?thesis
    using sweep_loop_result[OF pos q _ loop] q worst by simp
qed

text \<open>C17. On a side that passed validation, a sweep for a positive quantity succeeds exactly
  when the side holds that quantity in total; otherwise it reports insufficient depth.\<close>

theorem sweep_fills_iff_depth:
  assumes "validate b = Inr ()" "0 < q"
  shows "is_ok (sweep_book dv b side q) \<longleftrightarrow> q \<le> depth (book_levels side b)"
proof -
  have "\<forall>l \<in> set (book_levels side b). level_positive l"
    using assms(1) by (cases side) (simp_all add: validate_ok_iff valid_side_def book_levels_def)
  then show ?thesis using assms(2) by (simp add: sweep_book_def sweep_loop_ok_iff)
qed

definition sample_book :: order_book_snapshot where
  "sample_book = \<lparr>ob_venue = ''binance'', ob_symbol = ''BTCUSDT'',
     ob_bids = [\<lparr>lv_price = 99, lv_quantity = 2\<rparr>, \<lparr>lv_price = 98, lv_quantity = 5\<rparr>],
     ob_asks = [\<lparr>lv_price = 100, lv_quantity = 1\<rparr>, \<lparr>lv_price = 102, lv_quantity = 3\<rparr>],
     ob_sequence = 7, ob_source_timestamp_ms = None, ob_received_timestamp_ms = 1000\<rparr>"

lemma sample_book_valid: "validate sample_book = Inr ()"
  by (simp add: sample_book_def validate_def validate_levels_def price_before_def)

lemma sweep_fills_iff_depth_witness:
  "is_ok (sweep_book exact_div sample_book Asks 3) \<and> \<not> is_ok (sweep_book exact_div sample_book Asks 5)"
  using sweep_fills_iff_depth[OF sample_book_valid, of 3 exact_div Asks]
    sweep_fills_iff_depth[OF sample_book_valid, of 5 exact_div Asks]
  by (simp add: sample_book_def book_levels_def)

text \<open>C18. A successful sweep of the ask side of a validated book pays the least that any way of
  taking the same total quantity from the levels of that side would pay.\<close>

theorem sweep_asks_cheapest:
  assumes "validate b = Inr ()" "sweep_book dv b Asks q = Inr s"
    and "list_all2 (\<lambda>x l. 0 \<le> x \<and> x \<le> lv_quantity l) xs (ob_asks b)" "sum_list xs = q"
  shows "sw_quote_amount s \<le> cost xs (ob_asks b)"
proof -
  have side: "valid_side False (book_levels Asks b)"
    using assms(1) by (simp add: validate_ok_iff book_levels_def)
  from assms(2) side have "0 < q" "sw_quote_amount s = cost (takings q (ob_asks b)) (ob_asks b)"
    by (auto elim!: sweep_bookE simp: book_levels_def)
  then show ?thesis
    using greedy_cheapest[OF _ _ assms(3,4)] side by (simp add: valid_side_def book_levels_def)
qed

lemma sweep_asks_cheapest_witness:
  "\<exists>s. sweep_book exact_div sample_book Asks 3 = Inr s
     \<and> sw_quote_amount s \<le> cost [0, 3] (ob_asks sample_book)"
proof -
  have "sweep_book exact_div sample_book Asks 3 = Inr \<lparr>sw_quantity = 3, sw_quote_amount = 304,
      sw_vwap = 304 / 3, sw_worst_price = 102\<rparr>"
    by (simp add: sweep_book_def sample_book_def book_levels_def exact_div_def Let_def min_def)
  from sweep_asks_cheapest[OF sample_book_valid this, of "[0, 3]"] this show ?thesis
    by (simp add: sample_book_def)
qed

text \<open>The volume-weighted price of a successful ask sweep lies between the best ask and the
  reported worst price, for every division that does not round across a representable number.\<close>

theorem sweep_vwap_between:
  assumes "decimal_division dv rep" "validate b = Inr ()" "sweep_book dv b Asks q = Inr s"
    and "rep (lv_price (hd (ob_asks b)))" "rep (sw_worst_price s)"
  shows "lv_price (hd (ob_asks b)) \<le> sw_vwap s \<and> sw_vwap s \<le> sw_worst_price s"
proof -
  let ?ls = "ob_asks b"
  have side: "valid_side False (book_levels Asks b)"
    using assms(2) by (simp add: validate_ok_iff book_levels_def)
  from assms(3) side have r: "0 < q" "sw_quote_amount s = cost (takings q ?ls) ?ls"
    "sum_list (takings q ?ls) = q" "sw_vwap s = dv (sw_quote_amount s) q"
    "list_all2 (\<lambda>x l. 0 \<le> x \<and> x \<le> lv_quantity l) (takings q ?ls) ?ls"
    by (auto elim!: sweep_bookE simp: book_levels_def)
  have "lv_price (hd ?ls) * q \<le> sw_quote_amount s"
    using cost_lower[OF r(5), of "lv_price (hd ?ls)"] valid_side_head_best[OF side] r
    by (simp add: book_levels_def)
  moreover have "sw_quote_amount s \<le> sw_worst_price s * q"
    using sweep_worst_bound[OF side assms(3)] by simp
  ultimately show ?thesis
    using decimal_division.quotient_between[OF assms(1) r(1) assms(4,5)] r(4) by simp
qed

lemma sweep_vwap_between_witness:
  "\<exists>s. sweep_book exact_div sample_book Asks 3 = Inr s \<and> 100 \<le> sw_vwap s \<and> sw_vwap s \<le> 102"
proof -
  have "sweep_book exact_div sample_book Asks 3 = Inr \<lparr>sw_quantity = 3, sw_quote_amount = 304,
      sw_vwap = 304 / 3, sw_worst_price = 102\<rparr>"
    by (simp add: sweep_book_def sample_book_def book_levels_def exact_div_def Let_def min_def)
  from sweep_vwap_between[OF exact.decimal_division_axioms sample_book_valid this] this show ?thesis
    by (simp add: sample_book_def)
qed

end
