(* ===== verification/Instrument.thy ===== *)
theory Instrument
  imports Market
begin

text \<open>
  Instrument specifications and their trading filters, \<open>crates/core/src/instrument.rs\<close>:
  the static validation of one venue and of a pair, and the list of reasons for which an
  order is rejected. A reason is a datatype value that carries what the code formats into text.
\<close>

section \<open>Data\<close>

datatype trading_status = Trading | Unavailable string

datatype order_capability = Limit | Market_Order | Ioc | Fok | PostOnly

record instrument_spec =
  is_venue :: string
  is_account_type :: string
  is_venue_symbol :: string
  is_canonical_instrument_id :: string
  is_base_asset_id :: string
  is_quote_asset_id :: string
  is_settlement_asset_id :: string
  is_market_type :: string
  is_contract_multiplier :: decimal
  is_quantity_unit :: string
  is_price_tick :: decimal
  is_quantity_step :: decimal
  is_min_quantity :: decimal
  is_max_quantity :: "decimal option"
  is_min_notional :: decimal
  is_max_notional :: "decimal option"
  is_trading_status :: trading_status
  is_supported_order_types :: "order_capability list"
  is_metadata_version :: u64

datatype reason =
    QuantityBelowMinimum string decimal decimal
  | QuantityAboveMaximum string decimal decimal
  | QuantityMisaligned string decimal decimal
  | NotionalBelowMinimum string decimal decimal
  | NotionalAboveMaximum string decimal decimal
  | FirstSnapshotAge u64 u64
  | SecondSnapshotAge u64 u64
  | ReceiveSkew u64 u64
  | ProfitBelowMinimum decimal decimal
  | NetBpsBelowMinimum decimal decimal
  | OtherReason string

section \<open>Operations\<close>

definition validate_static :: "instrument_spec \<Rightarrow> string \<Rightarrow> string \<Rightarrow> string \<Rightarrow> decimal \<Rightarrow> unit result" where
  "validate_static i symbol base_asset quote_asset quantity =
     (if is_venue_symbol i \<noteq> symbol then Inl (Bail ''returned symbol, expected'')
      else if is_base_asset_id i \<noteq> base_asset \<or> is_quote_asset_id i \<noteq> quote_asset
      then Inl (Bail ''asset mapping is, expected'')
      else if is_account_type i \<noteq> ''spot'' \<or> is_market_type i \<noteq> ''spot''
      then Inl (Bail ''instrument is not spot'')
      else if is_trading_status i \<noteq> Trading then Inl (Bail ''instrument is not trading'')
      else if is_price_tick i \<le> 0 \<or> is_quantity_step i \<le> 0 \<or> is_min_quantity i \<le> 0
        \<or> is_min_notional i < 0
      then Inl (Bail ''returned invalid non-positive trading filters'')
      else if Limit \<notin> set (is_supported_order_types i) \<or> Ioc \<notin> set (is_supported_order_types i)
      then Inl (Bail ''does not declare LIMIT and IOC support'')
      else if quantity < is_min_quantity i then Inl (Bail ''quantity is below minimum'')
      else if is_some_and (is_max_quantity i) (\<lambda>maximum. quantity > maximum)
      then Inl (Bail ''quantity exceeds maximum'')
      else then_do (checked_rem quantity (is_quantity_step i)) (\<lambda>r.
        if r \<noteq> 0 then Inl (Bail ''quantity is not aligned to step'') else Inr ()))"

definition unwrap_or_default :: "decimal option \<Rightarrow> decimal" where
  "unwrap_or_default o' = (case o' of None \<Rightarrow> 0 | Some d \<Rightarrow> d)"

definition order_rejection_reasons :: "instrument_spec \<Rightarrow> decimal \<Rightarrow> decimal \<Rightarrow> reason list result" where
  "order_rejection_reasons i quantity quote_notional =
     then_do (checked_rem quantity (is_quantity_step i)) (\<lambda>r. Inr (
       (if quantity < is_min_quantity i
        then [QuantityBelowMinimum (is_venue i) quantity (is_min_quantity i)] else []) @
       (if is_some_and (is_max_quantity i) (\<lambda>maximum. quantity > maximum)
        then [QuantityAboveMaximum (is_venue i) quantity (unwrap_or_default (is_max_quantity i))] else []) @
       (if r \<noteq> 0 then [QuantityMisaligned (is_venue i) quantity (is_quantity_step i)] else []) @
       (if quote_notional < is_min_notional i
        then [NotionalBelowMinimum (is_venue i) quote_notional (is_min_notional i)] else []) @
       (if is_some_and (is_max_notional i) (\<lambda>maximum. quote_notional > maximum)
        then [NotionalAboveMaximum (is_venue i) quote_notional (unwrap_or_default (is_max_notional i))]
        else [])))"

definition validate_pair :: "instrument_spec \<Rightarrow> instrument_spec \<Rightarrow> string \<Rightarrow> string \<Rightarrow> string
    \<Rightarrow> decimal \<Rightarrow> unit result" where
  "validate_pair a b symbol base_asset quote_asset quantity =
     then_do (validate_static a symbol base_asset quote_asset quantity) (\<lambda>_.
     then_do (validate_static b symbol base_asset quote_asset quantity) (\<lambda>_.
       if is_canonical_instrument_id a \<noteq> is_canonical_instrument_id b
       then Inl (Bail ''canonical instruments differ'') else Inr ()))"

section \<open>Lemmas\<close>

text \<open>The filters of an instrument, as one predicate on quantity and notional.\<close>

definition quantity_ok :: "instrument_spec \<Rightarrow> decimal \<Rightarrow> bool" where
  "quantity_ok i q \<longleftrightarrow> is_min_quantity i \<le> q
     \<and> (\<forall>m. is_max_quantity i = Some m \<longrightarrow> q \<le> m)
     \<and> (\<exists>k. q = of_int k * is_quantity_step i)"

definition notional_ok :: "instrument_spec \<Rightarrow> decimal \<Rightarrow> bool" where
  "notional_ok i n \<longleftrightarrow> is_min_notional i \<le> n \<and> (\<forall>m. is_max_notional i = Some m \<longrightarrow> n \<le> m)"

lemma is_some_and_greater: "is_some_and o' (\<lambda>m. q > m) \<longleftrightarrow> \<not> (\<forall>m. o' = Some m \<longrightarrow> q \<le> (m :: decimal))"
  by (cases o') (auto simp: not_le)

lemma checked_rem_cases:
  assumes "b \<noteq> 0"
  obtains r where "checked_rem a b = Inr r" "r = 0 \<longleftrightarrow> (\<exists>k. a = of_int k * b)"
  using assms checked_rem_zero_iff[OF assms, of a] by (auto simp: checked_rem_def)

lemma order_rejection_reasons_ok:
  assumes "is_quantity_step i \<noteq> 0"
  obtains rs where "order_rejection_reasons i q n = Inr rs"
    "rs = [] \<longleftrightarrow> quantity_ok i q \<and> notional_ok i n"
proof -
  obtain r where r: "checked_rem q (is_quantity_step i) = Inr r"
    "r = 0 \<longleftrightarrow> (\<exists>k. q = of_int k * is_quantity_step i)"
    using checked_rem_cases[OF assms] by blast
  show thesis
    by (rule that, simp add: order_rejection_reasons_def r(1))
      (auto simp: quantity_ok_def notional_ok_def is_some_and_greater r(2) not_less)
qed

lemma order_rejection_reasons_nil_iff:
  assumes "is_quantity_step i \<noteq> 0"
  shows "order_rejection_reasons i q n = Inr [] \<longleftrightarrow> quantity_ok i q \<and> notional_ok i n"
  by (rule order_rejection_reasons_ok[OF assms, of q n]) auto

lemma validate_static_ok_iff:
  "validate_static i s b u q = Inr () \<longleftrightarrow>
     is_venue_symbol i = s \<and> is_base_asset_id i = b \<and> is_quote_asset_id i = u
     \<and> is_account_type i = ''spot'' \<and> is_market_type i = ''spot'' \<and> is_trading_status i = Trading
     \<and> 0 < is_price_tick i \<and> 0 < is_quantity_step i \<and> 0 < is_min_quantity i \<and> 0 \<le> is_min_notional i
     \<and> {Limit, Ioc} \<subseteq> set (is_supported_order_types i) \<and> quantity_ok i q"
proof (cases "0 < is_quantity_step i")
  case True
  then obtain r where r: "checked_rem q (is_quantity_step i) = Inr r"
    "r = 0 \<longleftrightarrow> (\<exists>k. q = of_int k * is_quantity_step i)"
    using checked_rem_cases[of "is_quantity_step i" q] by auto
  show ?thesis
    unfolding validate_static_def r(1) is_some_and_greater
    using True r(2) by (auto simp: quantity_ok_def not_le not_less)
next
  case False
  then show ?thesis by (auto simp: validate_static_def)
qed

text \<open>A pair that passed validation names one canonical instrument, and at that quantity
  neither venue has a quantity-based reason to reject: the reasons are empty exactly when the notional fits too.\<close>

theorem validated_pair_rejections:
  assumes "validate_pair a b symbol base quot q = Inr ()" "i \<in> {a, b}"
  shows "is_canonical_instrument_id a = is_canonical_instrument_id b
    \<and> (order_rejection_reasons i q n = Inr [] \<longleftrightarrow> notional_ok i n)"
proof -
  have "validate_static i symbol base quot q = Inr ()"
    and "is_canonical_instrument_id a = is_canonical_instrument_id b"
    using assms by (auto simp: validate_pair_def split: if_splits)
  then show ?thesis
    by (simp add: validate_static_ok_iff order_rejection_reasons_nil_iff)
qed

definition sample_spec :: "string \<Rightarrow> instrument_spec" where
  "sample_spec venue = \<lparr>is_venue = venue, is_account_type = ''spot'', is_venue_symbol = ''BTCUSDT'',
     is_canonical_instrument_id = ''spot:BTC/USDT'', is_base_asset_id = ''BTC'',
     is_quote_asset_id = ''USDT'', is_settlement_asset_id = ''USDT'', is_market_type = ''spot'',
     is_contract_multiplier = 1, is_quantity_unit = ''BTC'', is_price_tick = 1/100,
     is_quantity_step = 1/1000, is_min_quantity = 1/1000, is_max_quantity = Some 9000,
     is_min_notional = 5, is_max_notional = None, is_trading_status = Trading,
     is_supported_order_types = [Limit, Market_Order, Ioc], is_metadata_version = 1\<rparr>"

lemma sample_spec_quantity: "quantity_ok (sample_spec v) 1"
  by (auto simp: quantity_ok_def sample_spec_def intro: exI[of _ 1000])

lemma sample_spec_valid: "validate_static (sample_spec v) ''BTCUSDT'' ''BTC'' ''USDT'' 1 = Inr ()"
  using sample_spec_quantity[of v] unfolding validate_static_ok_iff by (simp add: sample_spec_def)

lemma validated_pair_rejections_witness:
  "order_rejection_reasons (sample_spec ''bybit'') 1 100 = Inr []"
proof -
  have "validate_pair (sample_spec ''binance'') (sample_spec ''bybit'') ''BTCUSDT'' ''BTC'' ''USDT'' 1 = Inr ()"
    by (simp add: validate_pair_def sample_spec_valid) (simp add: sample_spec_def)
  from validated_pair_rejections[OF this, of "sample_spec ''bybit''" 100] show ?thesis
    by (simp add: notional_ok_def) (simp add: sample_spec_def)
qed

end
