(* ===== verification/Config.thy ===== *)
theory Config
  imports Decimal
begin

text \<open>
  The configuration of the observer, \<open>crates/core/src/config.rs\<close>: the records, the default
  configuration, the validation a loaded file passes, and the migration of the old format with
  a single trading pair at the top level of the JSON file. Reading and writing the files is
  in the theory of the commands; parsing and printing JSON text belong to the crate serde\_json and are parameters.
\<close>

section \<open>Data\<close>

record pair_config =
  pc_symbol :: string
  pc_base_asset :: string
  pc_quote_asset :: string
  pc_quantity :: decimal

record venue_config =
  vc_base_url :: string
  vc_websocket_url :: string
  vc_fallback_taker_fee_rate :: decimal
  vc_api_key_env :: string
  vc_api_secret_env :: string
  vc_region_eligible_confirmed :: bool
  vc_account_eligible_confirmed :: bool

record strategy_config =
  st_min_net_profit :: decimal
  st_min_net_bps :: decimal
  st_latency_loss_bps :: decimal
  st_risk_buffer_bps :: decimal
  st_rebalance_cost :: decimal
  st_other_direct_cost :: decimal

record archive_config =
  ac_path :: string
  ac_queue_capacity :: nat
  ac_raw_retention_days :: "16 word"

record simulation_config =
  sc_enabled :: bool
  sc_seed :: u64
  sc_initial_quote_balance :: decimal
  sc_initial_base_balance :: decimal
  sc_decision_to_submit_ms_min :: u64
  sc_decision_to_submit_ms_max :: u64
  sc_fill_latency_ms_min :: u64
  sc_fill_latency_ms_max :: u64
  sc_adverse_move_bps :: decimal
  sc_competitor_take_bps :: decimal
  sc_unknown_submit_probability_bps :: decimal
  sc_query_found_probability_bps :: decimal
  sc_max_unmatched_exposure :: decimal
  sc_compensation_budget :: decimal
  sc_compensation_markup_bps :: decimal

record observer_config =
  oc_pairs :: "pair_config list"
  oc_poll_interval_ms :: u64
  oc_http_timeout_ms :: u64
  oc_stream_start_timeout_ms :: u64
  oc_reconnect_delay_ms :: u64
  oc_max_snapshot_age_ms :: u64
  oc_max_pair_skew_ms :: u64
  oc_orderbook_depth :: "16 word"
  oc_account_refresh_interval_ms :: u64
  oc_max_fee_age_ms :: u64
  oc_auth_recv_window_ms :: u64
  oc_archive :: archive_config
  oc_binance :: venue_config
  oc_bybit :: venue_config
  oc_strategy :: strategy_config
  oc_simulation :: simulation_config

section \<open>Defaults\<close>

definition simulation_default :: simulation_config where
  "simulation_default = \<lparr>sc_enabled = False, sc_seed = 0, sc_initial_quote_balance = 10000,
     sc_initial_base_balance = 2, sc_decision_to_submit_ms_min = 50,
     sc_decision_to_submit_ms_max = 400, sc_fill_latency_ms_min = 20, sc_fill_latency_ms_max = 250,
     sc_adverse_move_bps = 15, sc_competitor_take_bps = 200,
     sc_unknown_submit_probability_bps = 300, sc_query_found_probability_bps = 6000,
     sc_max_unmatched_exposure = 100, sc_compensation_budget = 20,
     sc_compensation_markup_bps = 30\<rparr>"

definition default_config :: observer_config where
  "default_config = \<lparr>
     oc_pairs = [\<lparr>pc_symbol = ''BTCUSDT'', pc_base_asset = ''BTC'', pc_quote_asset = ''USDT'',
       pc_quantity = 1/1000\<rparr>],
     oc_poll_interval_ms = 2000, oc_http_timeout_ms = 3000, oc_stream_start_timeout_ms = 10000,
     oc_reconnect_delay_ms = 1000, oc_max_snapshot_age_ms = 1000, oc_max_pair_skew_ms = 500,
     oc_orderbook_depth = 50, oc_account_refresh_interval_ms = 300000,
     oc_max_fee_age_ms = 900000, oc_auth_recv_window_ms = 5000,
     oc_archive = \<lparr>ac_path = ''data/archive/observations.ndjson'', ac_queue_capacity = 1024,
       ac_raw_retention_days = 30\<rparr>,
     oc_binance = \<lparr>vc_base_url = ''https://api.binance.com'',
       vc_websocket_url = ''wss://stream.binance.com:9443'', vc_fallback_taker_fee_rate = 1/1000,
       vc_api_key_env = ''TAOLI_BINANCE_API_KEY'', vc_api_secret_env = ''TAOLI_BINANCE_API_SECRET'',
       vc_region_eligible_confirmed = False, vc_account_eligible_confirmed = False\<rparr>,
     oc_bybit = \<lparr>vc_base_url = ''https://api.bybit.com'',
       vc_websocket_url = ''wss://stream.bybit.com/v5/public/spot'', vc_fallback_taker_fee_rate = 1/1000,
       vc_api_key_env = ''TAOLI_BYBIT_API_KEY'', vc_api_secret_env = ''TAOLI_BYBIT_API_SECRET'',
       vc_region_eligible_confirmed = False, vc_account_eligible_confirmed = False\<rparr>,
     oc_strategy = \<lparr>st_min_net_profit = 1/100, st_min_net_bps = 1, st_latency_loss_bps = 1,
       st_risk_buffer_bps = 1, st_rebalance_cost = 0, st_other_direct_cost = 0\<rparr>,
     oc_simulation = simulation_default\<rparr>"

section \<open>Validation\<close>

definition bps_fields :: "simulation_config \<Rightarrow> decimal list" where
  "bps_fields s = [sc_adverse_move_bps s, sc_competitor_take_bps s,
     sc_unknown_submit_probability_bps s, sc_query_found_probability_bps s,
     sc_compensation_markup_bps s]"

definition validate_simulation :: "simulation_config \<Rightarrow> unit result" where
  "validate_simulation s =
     (if sc_decision_to_submit_ms_min s > sc_decision_to_submit_ms_max s
      then Inl (Bail ''simulation.decision_to_submit_ms_min must not exceed its max'')
      else if sc_fill_latency_ms_min s > sc_fill_latency_ms_max s
      then Inl (Bail ''simulation.fill_latency_ms_min must not exceed its max'')
      else if \<exists>v \<in> set (bps_fields s). v < 0 \<or> v > 10000
      then Inl (Bail ''simulation bps must be in [0, 10000]'')
      else if sc_initial_quote_balance s \<le> 0
      then Inl (Bail ''simulation.initial_quote_balance must be positive'')
      else if sc_initial_base_balance s \<le> 0
      then Inl (Bail ''simulation.initial_base_balance must be positive'')
      else if sc_max_unmatched_exposure s < 0 \<or> sc_compensation_budget s < 0
      then Inl (Bail ''simulation exposure and compensation budgets must be non-negative'')
      else Inr ())"

definition validate_venue :: "venue_config \<Rightarrow> unit result" where
  "validate_venue v =
     (if \<not> (starts_with (vc_base_url v) ''https://'' \<or> starts_with (vc_base_url v) ''http://127.0.0.1'')
      then Inl (Bail ''base_url must use HTTPS (localhost is allowed for tests)'')
      else if \<not> (starts_with (vc_websocket_url v) ''wss://''
        \<or> starts_with (vc_websocket_url v) ''ws://127.0.0.1'')
      then Inl (Bail ''websocket_url must use WSS (localhost is allowed for tests)'')
      else if vc_fallback_taker_fee_rate v < 0 \<or> vc_fallback_taker_fee_rate v \<ge> 1
      then Inl (Bail ''fallback_taker_fee_rate must be in [0, 1)'')
      else if blank (vc_api_key_env v) \<or> blank (vc_api_secret_env v)
      then Inl (Bail ''credential environment variable names must not be empty'')
      else Inr ())"

definition validate_non_negative :: "decimal \<Rightarrow> unit result" where
  "validate_non_negative v = (if v < 0 then Inl (Bail ''must be non-negative'') else Inr ())"

fun validate_pairs :: "string list \<Rightarrow> pair_config list \<Rightarrow> unit result" where
  "validate_pairs seen [] = Inr ()"
| "validate_pairs seen (p # ps) =
     (if blank (pc_symbol p) \<or> blank (pc_base_asset p) \<or> blank (pc_quote_asset p)
      then Inl (Bail ''pair symbol, base_asset and quote_asset must not be empty'')
      else if pc_quantity p \<le> 0 then Inl (Bail ''pair quantity must be positive'')
      else if pc_symbol p \<in> set seen then Inl (Bail ''duplicate pair symbol'')
      else validate_pairs (pc_symbol p # seen) ps)"

definition validate_config :: "observer_config \<Rightarrow> unit result" where
  "validate_config c =
     (if oc_pairs c = [] then Inl (Bail ''pairs must not be empty'')
      else then_do (validate_pairs [] (oc_pairs c)) (\<lambda>_.
      if oc_poll_interval_ms c = 0 \<or> oc_http_timeout_ms c = 0 \<or> oc_stream_start_timeout_ms c = 0
        \<or> oc_reconnect_delay_ms c = 0 \<or> oc_account_refresh_interval_ms c = 0
        \<or> oc_max_fee_age_ms c = 0 \<or> oc_auth_recv_window_ms c = 0
      then Inl (Bail ''durations must be positive'')
      else if oc_auth_recv_window_ms c > 60000
      then Inl (Bail ''auth_recv_window_ms must not exceed 60000'')
      else if oc_max_snapshot_age_ms c = 0 \<or> oc_max_pair_skew_ms c = 0
      then Inl (Bail ''snapshot age and pair skew limits must be positive'')
      else if oc_orderbook_depth c \<notin> set [50, 200, 1000]
      then Inl (Bail ''orderbook_depth must be one of 50, 200, 1000'')
      else if ac_path (oc_archive c) = [] then Inl (Bail ''archive.path must not be empty'')
      else if ac_queue_capacity (oc_archive c) = 0
      then Inl (Bail ''archive.queue_capacity must be positive'')
      else if ac_raw_retention_days (oc_archive c) = 0
      then Inl (Bail ''archive.raw_retention_days must be positive'')
      else then_do (validate_venue (oc_binance c)) (\<lambda>_.
           then_do (validate_venue (oc_bybit c)) (\<lambda>_.
           then_do (validate_non_negative (st_min_net_profit (oc_strategy c))) (\<lambda>_.
           then_do (validate_non_negative (st_min_net_bps (oc_strategy c))) (\<lambda>_.
           then_do (validate_non_negative (st_latency_loss_bps (oc_strategy c))) (\<lambda>_.
           then_do (validate_non_negative (st_risk_buffer_bps (oc_strategy c))) (\<lambda>_.
           then_do (validate_non_negative (st_rebalance_cost (oc_strategy c))) (\<lambda>_.
           then_do (validate_non_negative (st_other_direct_cost (oc_strategy c))) (\<lambda>_.
           validate_simulation (oc_simulation c)))))))))))"

section \<open>Migration of the old format\<close>

definition pair_keys :: "string list" where
  "pair_keys = [''symbol'', ''base_asset'', ''quote_asset'', ''quantity'']"

definition has_key :: "string \<Rightarrow> (string \<times> json) list \<Rightarrow> bool" where
  "has_key k obj \<longleftrightarrow> map_of obj k \<noteq> None"

definition pair_of_object :: "(string \<times> json) list \<Rightarrow> (string \<times> json) list" where
  "pair_of_object obj = concat (map (\<lambda>k. case map_of obj k of None \<Rightarrow> [] | Some v \<Rightarrow> [(k, v)]) pair_keys)"

definition migrate_object :: "(string \<times> json) list \<Rightarrow> (string \<times> json) list option" where
  "migrate_object obj =
     (if has_key ''pairs'' obj \<or> \<not> has_key ''symbol'' obj then None
      else Some (filter (\<lambda>e. fst e \<notin> set pair_keys) obj
                 @ [(''pairs'', JArray [JObject (pair_of_object obj)])]))"

definition migrate_legacy_json :: "(string \<Rightarrow> json option) \<Rightarrow> (json \<Rightarrow> string option) \<Rightarrow> string \<Rightarrow> string" where
  "migrate_legacy_json parse print raw =
     (if contains_str raw ''pairs'' \<or> \<not> contains_str raw ''symbol'' then raw
      else case parse raw of
        Some (JObject obj) \<Rightarrow>
          (case migrate_object obj of
             None \<Rightarrow> raw
           | Some obj' \<Rightarrow> (case print (JObject obj') of Some text \<Rightarrow> text | None \<Rightarrow> raw))
      | _ \<Rightarrow> raw)"

section \<open>Lemmas\<close>

definition pair_ok :: "pair_config \<Rightarrow> bool" where
  "pair_ok p \<longleftrightarrow> \<not> blank (pc_symbol p) \<and> \<not> blank (pc_base_asset p) \<and> \<not> blank (pc_quote_asset p)
     \<and> 0 < pc_quantity p"

lemma validate_pairs_ok_iff:
  "validate_pairs seen ps = Inr () \<longleftrightarrow>
     list_all pair_ok ps \<and> distinct (map pc_symbol ps) \<and> set seen \<inter> pc_symbol ` set ps = {}"
  by (induction seen ps rule: validate_pairs.induct) (auto simp: pair_ok_def)

lemma validate_non_negative_ok [simp]: "validate_non_negative v = Inr () \<longleftrightarrow> 0 \<le> v"
  by (simp add: validate_non_negative_def)

definition strategy_ok :: "strategy_config \<Rightarrow> bool" where
  "strategy_ok s \<longleftrightarrow> 0 \<le> st_min_net_profit s \<and> 0 \<le> st_min_net_bps s \<and> 0 \<le> st_latency_loss_bps s
     \<and> 0 \<le> st_risk_buffer_bps s \<and> 0 \<le> st_rebalance_cost s \<and> 0 \<le> st_other_direct_cost s"

lemma validate_config_strategy: "validate_config c = Inr () \<Longrightarrow> strategy_ok (oc_strategy c)"
  by (simp add: validate_config_def strategy_ok_def split: if_splits)

lemma validate_simulation_ranges:
  assumes "validate_simulation s = Inr ()"
  shows "sc_decision_to_submit_ms_min s \<le> sc_decision_to_submit_ms_max s"
    "sc_fill_latency_ms_min s \<le> sc_fill_latency_ms_max s"
    "\<forall>v \<in> set (bps_fields s). 0 \<le> v \<and> v \<le> 10000"
    "0 < sc_initial_quote_balance s" "0 < sc_initial_base_balance s"
    "0 \<le> sc_max_unmatched_exposure s" "0 \<le> sc_compensation_budget s"
  using assms by (auto simp: validate_simulation_def not_less not_le split: if_splits)

lemma validate_config_simulation: "validate_config c = Inr () \<Longrightarrow> validate_simulation (oc_simulation c) = Inr ()"
  by (simp add: validate_config_def split: if_splits)

lemma validate_config_pairs:
  assumes "validate_config c = Inr ()"
  shows "oc_pairs c \<noteq> []" "list_all pair_ok (oc_pairs c)" "distinct (map pc_symbol (oc_pairs c))"
  using assms by (auto simp: validate_config_def validate_pairs_ok_iff split: if_splits)

text \<open>The members of a migrated object: the four pair members moved into the list, the others kept.\<close>

lemma map_of_pair_of_object:
  "map_of (pair_of_object obj) k = (if k \<in> set pair_keys then map_of obj k else None)"
  by (auto simp: pair_of_object_def pair_keys_def split: option.splits)

lemma map_of_filter_keys: "map_of (filter (\<lambda>e. fst e \<notin> S) obj) k = (if k \<in> S then None else map_of obj k)"
  by (induction obj) auto

lemma migrate_object_members:
  assumes "migrate_object obj = Some obj'"
  shows "map_of obj' k = (if k \<in> set pair_keys then None
     else if k = ''pairs'' then Some (JArray [JObject (pair_of_object obj)]) else map_of obj k)"
proof -
  have fresh: "map_of obj ''pairs'' = None" and obj': "obj' = filter (\<lambda>e. fst e \<notin> set pair_keys) obj
      @ [(''pairs'', JArray [JObject (pair_of_object obj)])]"
    using assms by (simp_all add: migrate_object_def has_key_def split: if_splits)
  have "''pairs'' \<notin> set pair_keys" by (simp add: pair_keys_def)
  then show ?thesis unfolding obj' map_of_append map_add_def map_of_filter_keys
    by (simp add: fresh split: option.split)
qed

text \<open>The default configuration passes validation; so do the strategy limits of every validated
  configuration, whose pairs are non-empty with distinct symbols and positive quantities.\<close>

theorem default_config_valid:
  "validate_config default_config = Inr ()
   \<and> (\<forall>c. validate_config c = Inr () \<longrightarrow> strategy_ok (oc_strategy c) \<and> oc_pairs c \<noteq> []
        \<and> list_all pair_ok (oc_pairs c) \<and> distinct (map pc_symbol (oc_pairs c)))"
proof (intro conjI allI impI)
  show "validate_config default_config = Inr ()"
    by (simp add: validate_config_def default_config_def simulation_default_def validate_venue_def
        starts_with_def validate_simulation_def bps_fields_def blank_def is_whitespace_def)
qed (simp_all add: validate_config_strategy validate_config_pairs)

lemma default_config_valid_witness:
  "strategy_ok (oc_strategy default_config) \<and> list_all pair_ok (oc_pairs default_config)"
  using default_config_valid by blast

text \<open>Migrating an old configuration object keeps every other member, moves the four pair
  members into a one-element list, and is done at most once: the result does not migrate again.\<close>

theorem migrate_object_once:
  assumes "migrate_object obj = Some obj'"
  shows "map_of obj' ''pairs'' = Some (JArray [JObject (pair_of_object obj)])
    \<and> (\<forall>k \<in> set pair_keys. map_of obj' k = None \<and> map_of (pair_of_object obj) k = map_of obj k)
    \<and> (\<forall>k. k \<notin> set pair_keys \<longrightarrow> k \<noteq> ''pairs'' \<longrightarrow> map_of obj' k = map_of obj k)
    \<and> migrate_object obj' = None"
proof -
  have "migrate_object obj' = None"
    using migrate_object_members[OF assms, of "''pairs''"]
    by (simp add: migrate_object_def has_key_def pair_keys_def)
  then show ?thesis
    using migrate_object_members[OF assms]
    by (simp add: map_of_pair_of_object) (simp add: pair_keys_def)
qed

lemma migrate_object_once_witness:
  "migrate_object [(''depth'', JNumber ''50''),
     (''pairs'', JArray [JObject [(''symbol'', JString ''BTCUSDT''), (''quantity'', JString ''1'')]])] = None"
proof -
  have "migrate_object [(''symbol'', JString ''BTCUSDT''), (''depth'', JNumber ''50''), (''quantity'', JString ''1'')]
    = Some [(''depth'', JNumber ''50''),
     (''pairs'', JArray [JObject [(''symbol'', JString ''BTCUSDT''), (''quantity'', JString ''1'')]])]"
    by (simp add: migrate_object_def has_key_def pair_keys_def pair_of_object_def)
  from migrate_object_once[OF this] show ?thesis by blast
qed

end
