(* ===== verification/Scan.thy ===== *)
theory Scan
  imports Instrument Config
begin

text \<open>
  The opportunity scan over two venues, \<open>crates/core/src/scan.rs\<close>: both directions of a pair
  are swept, costed and admitted or rejected with the list of reasons. Division is the
  parameter \<open>dv\<close>; a division by zero and a remainder by a zero step panic.
\<close>

section \<open>Data\<close>

record opportunity =
  op_buy_venue :: string
  op_sell_venue :: string
  op_buy_vwap :: decimal
  op_sell_vwap :: decimal
  op_buy_worst_price :: decimal
  op_sell_worst_price :: decimal
  op_buy_cost :: decimal
  op_sell_proceeds :: decimal
  op_gross_profit :: decimal
  op_fees :: decimal
  op_latency_loss_estimate :: decimal
  op_rebalance_cost :: decimal
  op_other_direct_cost :: decimal
  op_expected_net_profit :: decimal
  op_risk_buffer :: decimal
  op_admission_profit :: decimal
  op_admission_net_bps :: decimal
  op_accepted :: bool
  op_rejection_reasons :: "reason list"

record scan_report =
  sr_symbol :: string
  sr_quantity :: decimal
  sr_observed_at_ms :: u64
  sr_pair_received_skew_ms :: u64
  sr_directions :: "opportunity list"

record venue_fee_rates =
  fr_buy_taker_rate :: decimal
  fr_sell_taker_rate :: decimal

record freshness_limits =
  fl_max_snapshot_age_ms :: u64
  fl_max_pair_skew_ms :: u64

record scan_input =
  si_first_book :: order_book_snapshot
  si_second_book :: order_book_snapshot
  si_first_instrument :: instrument_spec
  si_second_instrument :: instrument_spec
  si_quantity :: decimal
  si_first_fees :: venue_fee_rates
  si_second_fees :: venue_fee_rates
  si_strategy :: strategy_config
  si_now_ms :: u64
  si_freshness :: freshness_limits
  si_admission_rejections :: "reason list"

record direction_input =
  di_buy_book :: order_book_snapshot
  di_sell_book :: order_book_snapshot
  di_buy_instrument :: instrument_spec
  di_sell_instrument :: instrument_spec
  di_buy_fee_rate :: decimal
  di_sell_fee_rate :: decimal

section \<open>Operations\<close>

definition bps_denominator :: decimal where
  "bps_denominator = 10000"

definition freshness_rejections :: "u64 \<Rightarrow> u64 \<Rightarrow> u64 \<Rightarrow> freshness_limits \<Rightarrow> reason list" where
  "freshness_rejections first_age second_age pair_skew limits =
     (if first_age > fl_max_snapshot_age_ms limits
      then [FirstSnapshotAge first_age (fl_max_snapshot_age_ms limits)] else []) @
     (if second_age > fl_max_snapshot_age_ms limits
      then [SecondSnapshotAge second_age (fl_max_snapshot_age_ms limits)] else []) @
     (if pair_skew > fl_max_pair_skew_ms limits
      then [ReceiveSkew pair_skew (fl_max_pair_skew_ms limits)] else [])"

definition evaluate_direction :: "(decimal \<Rightarrow> decimal \<Rightarrow> decimal) \<Rightarrow> direction_input \<Rightarrow> decimal
    \<Rightarrow> strategy_config \<Rightarrow> reason list \<Rightarrow> opportunity result" where
  "evaluate_direction dv d quantity strategy shared =
     then_do (sweep_book dv (di_buy_book d) Asks quantity) (\<lambda>buy.
     then_do (sweep_book dv (di_sell_book d) Bids quantity) (\<lambda>sell.
     let gross_profit = sw_quote_amount sell - sw_quote_amount buy;
         fees = sw_quote_amount buy * di_buy_fee_rate d + sw_quote_amount sell * di_sell_fee_rate d;
         latency_loss = dv (sw_quote_amount buy * st_latency_loss_bps strategy) bps_denominator;
         expected_net = gross_profit - fees - latency_loss - st_rebalance_cost strategy
                          - st_other_direct_cost strategy;
         risk_buffer = dv (sw_quote_amount buy * st_risk_buffer_bps strategy) bps_denominator;
         admission_profit = expected_net - risk_buffer
     in then_do (checked_div dv admission_profit (sw_quote_amount buy)) (\<lambda>ratio.
        let admission_net_bps = ratio * bps_denominator
        in then_do (order_rejection_reasons (di_buy_instrument d) quantity (sw_quote_amount buy)) (\<lambda>buy_reasons.
           then_do (order_rejection_reasons (di_sell_instrument d) quantity (sw_quote_amount sell)) (\<lambda>sell_reasons.
           let reasons = shared @ buy_reasons @ sell_reasons @
                 (if admission_profit < st_min_net_profit strategy
                  then [ProfitBelowMinimum admission_profit (st_min_net_profit strategy)] else []) @
                 (if admission_net_bps < st_min_net_bps strategy
                  then [NetBpsBelowMinimum admission_net_bps (st_min_net_bps strategy)] else [])
           in Inr \<lparr>op_buy_venue = ob_venue (di_buy_book d), op_sell_venue = ob_venue (di_sell_book d),
                op_buy_vwap = sw_vwap buy, op_sell_vwap = sw_vwap sell,
                op_buy_worst_price = sw_worst_price buy, op_sell_worst_price = sw_worst_price sell,
                op_buy_cost = sw_quote_amount buy, op_sell_proceeds = sw_quote_amount sell,
                op_gross_profit = gross_profit, op_fees = fees,
                op_latency_loss_estimate = latency_loss,
                op_rebalance_cost = st_rebalance_cost strategy,
                op_other_direct_cost = st_other_direct_cost strategy,
                op_expected_net_profit = expected_net, op_risk_buffer = risk_buffer,
                op_admission_profit = admission_profit, op_admission_net_bps = admission_net_bps,
                op_accepted = (reasons = []), op_rejection_reasons = reasons\<rparr>)))))"

definition shared_rejections :: "scan_input \<Rightarrow> reason list" where
  "shared_rejections i =
     freshness_rejections
       (saturating_sub (si_now_ms i) (ob_received_timestamp_ms (si_first_book i)))
       (saturating_sub (si_now_ms i) (ob_received_timestamp_ms (si_second_book i)))
       (abs_diff (ob_received_timestamp_ms (si_first_book i)) (ob_received_timestamp_ms (si_second_book i)))
       (si_freshness i)
     @ si_admission_rejections i"

definition first_to_second :: "scan_input \<Rightarrow> direction_input" where
  "first_to_second i = \<lparr>di_buy_book = si_first_book i, di_sell_book = si_second_book i,
     di_buy_instrument = si_first_instrument i, di_sell_instrument = si_second_instrument i,
     di_buy_fee_rate = fr_buy_taker_rate (si_first_fees i),
     di_sell_fee_rate = fr_sell_taker_rate (si_second_fees i)\<rparr>"

definition second_to_first :: "scan_input \<Rightarrow> direction_input" where
  "second_to_first i = \<lparr>di_buy_book = si_second_book i, di_sell_book = si_first_book i,
     di_buy_instrument = si_second_instrument i, di_sell_instrument = si_first_instrument i,
     di_buy_fee_rate = fr_buy_taker_rate (si_second_fees i),
     di_sell_fee_rate = fr_sell_taker_rate (si_first_fees i)\<rparr>"

definition scan_pair :: "(decimal \<Rightarrow> decimal \<Rightarrow> decimal) \<Rightarrow> scan_input \<Rightarrow> scan_report result" where
  "scan_pair dv i =
     (if ob_symbol (si_first_book i) \<noteq> ob_symbol (si_second_book i)
      then Inl (Bail ''cannot compare different symbols'')
      else if is_venue (si_first_instrument i) \<noteq> ob_venue (si_first_book i)
        \<or> is_venue (si_second_instrument i) \<noteq> ob_venue (si_second_book i)
      then Inl (Bail ''instrument specifications do not match order book venues'')
      else then_do (validate (si_first_book i)) (\<lambda>_.
           then_do (validate (si_second_book i)) (\<lambda>_.
           then_do (evaluate_direction dv (first_to_second i) (si_quantity i) (si_strategy i) (shared_rejections i)) (\<lambda>a.
           then_do (evaluate_direction dv (second_to_first i) (si_quantity i) (si_strategy i) (shared_rejections i)) (\<lambda>b.
           Inr \<lparr>sr_symbol = ob_symbol (si_first_book i), sr_quantity = si_quantity i,
                sr_observed_at_ms = si_now_ms i,
                sr_pair_received_skew_ms = abs_diff (ob_received_timestamp_ms (si_first_book i))
                  (ob_received_timestamp_ms (si_second_book i)),
                sr_directions = [a, b]\<rparr>)))))"

section \<open>One direction\<close>

lemma order_rejection_reasons_panics_or_checks:
  "order_rejection_reasons i q n = Inr rs \<Longrightarrow> is_quantity_step i \<noteq> 0
     \<and> (rs = [] \<longleftrightarrow> quantity_ok i q \<and> notional_ok i n)"
proof -
  assume rs: "order_rejection_reasons i q n = Inr rs"
  then have "is_quantity_step i \<noteq> 0" by (auto simp: order_rejection_reasons_def checked_rem_def)
  with rs show ?thesis by (metis order_rejection_reasons_ok sum.inject(2))
qed

lemma evaluate_directionE:
  assumes "evaluate_direction dv d q st shared = Inr x"
  obtains buy sell where
    "sweep_book dv (di_buy_book d) Asks q = Inr buy" "sweep_book dv (di_sell_book d) Bids q = Inr sell"
    "op_buy_cost x = sw_quote_amount buy" "op_sell_proceeds x = sw_quote_amount sell"
    "op_gross_profit x = op_sell_proceeds x - op_buy_cost x"
    "op_fees x = op_buy_cost x * di_buy_fee_rate d + op_sell_proceeds x * di_sell_fee_rate d"
    "op_latency_loss_estimate x = dv (op_buy_cost x * st_latency_loss_bps st) bps_denominator"
    "op_risk_buffer x = dv (op_buy_cost x * st_risk_buffer_bps st) bps_denominator"
    "op_admission_profit x = op_gross_profit x - op_fees x - op_latency_loss_estimate x
       - st_rebalance_cost st - st_other_direct_cost st - op_risk_buffer x"
    "op_admission_net_bps x = dv (op_admission_profit x) (op_buy_cost x) * bps_denominator"
    "op_buy_cost x \<noteq> 0" "op_buy_venue x = ob_venue (di_buy_book d)"
    "op_sell_venue x = ob_venue (di_sell_book d)"
    "op_accepted x \<longleftrightarrow> shared = []
       \<and> quantity_ok (di_buy_instrument d) q \<and> notional_ok (di_buy_instrument d) (op_buy_cost x)
       \<and> quantity_ok (di_sell_instrument d) q \<and> notional_ok (di_sell_instrument d) (op_sell_proceeds x)
       \<and> st_min_net_profit st \<le> op_admission_profit x \<and> st_min_net_bps st \<le> op_admission_net_bps x"
    "op_accepted x \<longleftrightarrow> op_rejection_reasons x = []"
proof -
  from assms obtain buy sell rb rs where
    s: "sweep_book dv (di_buy_book d) Asks q = Inr buy" "sweep_book dv (di_sell_book d) Bids q = Inr sell"
    and r: "order_rejection_reasons (di_buy_instrument d) q (sw_quote_amount buy) = Inr rb"
      "order_rejection_reasons (di_sell_instrument d) q (sw_quote_amount sell) = Inr rs"
    and nz: "sw_quote_amount buy \<noteq> 0"
    by (auto simp: evaluate_direction_def Let_def checked_div_def split: if_splits)
  note [simp] = order_rejection_reasons_panics_or_checks[OF r(1)]
    order_rejection_reasons_panics_or_checks[OF r(2)]
  show thesis
    by (rule that[OF s], insert assms s r nz)
      (auto simp: evaluate_direction_def Let_def not_less split: if_splits)
qed

text \<open>C19. A direction is accepted exactly when nothing was rejected beforehand, both venues' quantity
  and notional filters hold and both profit thresholds are met; then no reason is listed, and else one is.\<close>

theorem direction_accepted_iff:
  assumes "evaluate_direction dv d q st shared = Inr x"
  shows "(op_accepted x \<longleftrightarrow> op_rejection_reasons x = [])
    \<and> (op_accepted x \<longleftrightarrow> shared = []
       \<and> quantity_ok (di_buy_instrument d) q \<and> notional_ok (di_buy_instrument d) (op_buy_cost x)
       \<and> quantity_ok (di_sell_instrument d) q \<and> notional_ok (di_sell_instrument d) (op_sell_proceeds x)
       \<and> st_min_net_profit st \<le> op_admission_profit x \<and> st_min_net_bps st \<le> op_admission_net_bps x)"
  using assms by (rule evaluate_directionE) blast

definition sample_strategy :: strategy_config where
  "sample_strategy = \<lparr>st_min_net_profit = 1, st_min_net_bps = 1, st_latency_loss_bps = 1,
     st_risk_buffer_bps = 1, st_rebalance_cost = 0, st_other_direct_cost = 0\<rparr>"

definition sample_second_book :: order_book_snapshot where
  "sample_second_book = \<lparr>ob_venue = ''bybit'', ob_symbol = ''BTCUSDT'',
     ob_bids = [\<lparr>lv_price = 110, lv_quantity = 2\<rparr>], ob_asks = [\<lparr>lv_price = 111, lv_quantity = 2\<rparr>],
     ob_sequence = 3, ob_source_timestamp_ms = None, ob_received_timestamp_ms = 1100\<rparr>"

definition sample_input :: scan_input where
  "sample_input = \<lparr>si_first_book = sample_book, si_second_book = sample_second_book,
     si_first_instrument = sample_spec ''binance'', si_second_instrument = sample_spec ''bybit'',
     si_quantity = 1,
     si_first_fees = \<lparr>fr_buy_taker_rate = 1/1000, fr_sell_taker_rate = 1/1000\<rparr>,
     si_second_fees = \<lparr>fr_buy_taker_rate = 1/1000, fr_sell_taker_rate = 1/1000\<rparr>,
     si_strategy = sample_strategy, si_now_ms = 1200,
     si_freshness = \<lparr>fl_max_snapshot_age_ms = 1000, fl_max_pair_skew_ms = 500\<rparr>,
     si_admission_rejections = []\<rparr>"

lemma sample_second_book_valid: "validate sample_second_book = Inr ()"
  by (simp add: sample_second_book_def validate_def validate_levels_def)

lemma sample_shared: "shared_rejections sample_input = []"
  by (simp add: shared_rejections_def sample_input_def freshness_rejections_def sample_book_def
      sample_second_book_def saturating_sub_def abs_diff_def)

lemma sample_reasons:
  "notional_ok (sample_spec v) n \<Longrightarrow> order_rejection_reasons (sample_spec v) 1 n = Inr []"
  using sample_spec_quantity[of v]
  by (subst order_rejection_reasons_nil_iff) (simp_all add: sample_spec_def)

lemma sample_notional: "5 \<le> n \<Longrightarrow> notional_ok (sample_spec v) n"
  by (simp add: notional_ok_def sample_spec_def)

lemma sample_sweeps:
  "sweep_book exact_div sample_book Asks 1 = Inr \<lparr>sw_quantity = 1, sw_quote_amount = 100,
      sw_vwap = 100, sw_worst_price = 100\<rparr>"
  "sweep_book exact_div sample_second_book Bids 1 = Inr \<lparr>sw_quantity = 1, sw_quote_amount = 110,
      sw_vwap = 110, sw_worst_price = 110\<rparr>"
  "sweep_book exact_div sample_second_book Asks 1 = Inr \<lparr>sw_quantity = 1, sw_quote_amount = 111,
      sw_vwap = 111, sw_worst_price = 111\<rparr>"
  "sweep_book exact_div sample_book Bids 1 = Inr \<lparr>sw_quantity = 1, sw_quote_amount = 99,
      sw_vwap = 99, sw_worst_price = 99\<rparr>"
  by (simp_all add: sweep_book_def sample_book_def sample_second_book_def book_levels_def
      exact_div_def Let_def)

lemma sample_forward:
  "\<exists>x. evaluate_direction exact_div (first_to_second sample_input) 1 sample_strategy [] = Inr x
     \<and> op_admission_profit x = 977/100 \<and> op_admission_net_bps x = 977 \<and> op_accepted x"
  by (simp add: evaluate_direction_def first_to_second_def sample_input_def sample_sweeps
      sample_reasons sample_notional Let_def exact_div_def bps_denominator_def sample_strategy_def)

lemma sample_backward:
  "\<exists>x. evaluate_direction exact_div (second_to_first sample_input) 1 sample_strategy [] = Inr x
     \<and> \<not> op_accepted x"
  by (simp add: evaluate_direction_def second_to_first_def sample_input_def sample_sweeps
      sample_reasons sample_notional Let_def exact_div_def bps_denominator_def sample_strategy_def)

lemma direction_accepted_iff_witness:
  "\<exists>x. evaluate_direction exact_div (first_to_second sample_input) 1 sample_strategy [] = Inr x
     \<and> op_rejection_reasons x = []"
  using sample_forward direction_accepted_iff by blast

section \<open>A pair\<close>

text \<open>Selling into a book brings less than buying the same quantity from it costs.\<close>

lemma bid_below_ask:
  assumes "validate b = Inr ()" "sweep_book dv b Bids q = Inr s" "sweep_book dv b Asks q = Inr t"
  shows "sw_quote_amount s < sw_quote_amount t"
proof -
  have sides: "valid_side True (book_levels Bids b)" "valid_side False (book_levels Asks b)"
    "lv_price (hd (ob_bids b)) < lv_price (hd (ob_asks b))"
    using assms(1) by (simp_all add: validate_ok_iff book_levels_def)
  have q: "0 < q" using assms(2) by (auto simp: sweep_book_def split: if_splits)
  from assms(2) sides(1) have "sw_quote_amount s \<le> lv_price (hd (ob_bids b)) * q"
  proof (rule sweep_bookE)
    assume r: "sw_quote_amount s = cost (takings q (book_levels Bids b)) (book_levels Bids b)"
      "sum_list (takings q (book_levels Bids b)) = q"
      "list_all2 (\<lambda>x l. 0 \<le> x \<and> x \<le> lv_quantity l) (takings q (book_levels Bids b)) (book_levels Bids b)"
    show ?thesis
      using cost_upper[OF r(3), of "lv_price (hd (ob_bids b))"] valid_side_head_best[OF sides(1)] r
      by (simp add: book_levels_def)
  qed
  moreover from assms(3) sides(2) have "lv_price (hd (ob_asks b)) * q \<le> sw_quote_amount t"
  proof (rule sweep_bookE)
    assume r: "sw_quote_amount t = cost (takings q (book_levels Asks b)) (book_levels Asks b)"
      "sum_list (takings q (book_levels Asks b)) = q"
      "list_all2 (\<lambda>x l. 0 \<le> x \<and> x \<le> lv_quantity l) (takings q (book_levels Asks b)) (book_levels Asks b)"
    show ?thesis
      using cost_lower[OF r(3), of "lv_price (hd (ob_asks b))"] valid_side_head_best[OF sides(2)] r
      by (simp add: book_levels_def)
  qed
  moreover have "lv_price (hd (ob_bids b)) * q < lv_price (hd (ob_asks b)) * q"
    using sides(3) q by simp
  ultimately show ?thesis by linarith
qed

definition fees_ok :: "venue_fee_rates \<Rightarrow> bool" where
  "fees_ok f \<longleftrightarrow> 0 \<le> fr_buy_taker_rate f \<and> 0 \<le> fr_sell_taker_rate f"

text \<open>With non-negative rates and strategy costs an accepted direction sells for more than it pays.\<close>

lemma accepted_gross:
  assumes dv: "decimal_division dv rep" and x: "evaluate_direction dv d q st shared = Inr x"
    and acc: "op_accepted x" and st: "strategy_ok st"
    and rates: "0 \<le> di_buy_fee_rate d" "0 \<le> di_sell_fee_rate d"
    and valid: "validate (di_buy_book d) = Inr ()" "validate (di_sell_book d) = Inr ()"
  shows "st_min_net_profit st \<le> op_sell_proceeds x - op_buy_cost x - op_fees x" "0 \<le> op_fees x"
proof -
  from x obtain buy sell where s:
    "sweep_book dv (di_buy_book d) Asks q = Inr buy" "sweep_book dv (di_sell_book d) Bids q = Inr sell"
    and e: "op_buy_cost x = sw_quote_amount buy" "op_sell_proceeds x = sw_quote_amount sell"
    "op_gross_profit x = op_sell_proceeds x - op_buy_cost x"
    "op_fees x = op_buy_cost x * di_buy_fee_rate d + op_sell_proceeds x * di_sell_fee_rate d"
    "op_latency_loss_estimate x = dv (op_buy_cost x * st_latency_loss_bps st) bps_denominator"
    "op_risk_buffer x = dv (op_buy_cost x * st_risk_buffer_bps st) bps_denominator"
    "op_admission_profit x = op_gross_profit x - op_fees x - op_latency_loss_estimate x
       - st_rebalance_cost st - st_other_direct_cost st - op_risk_buffer x"
    and adm: "op_accepted x \<longrightarrow> st_min_net_profit st \<le> op_admission_profit x"
    by (rule evaluate_directionE) blast
  have pos: "0 < op_buy_cost x" "0 < op_sell_proceeds x"
    using sweep_book_amount_pos[OF s(1), of False] sweep_book_amount_pos[OF s(2), of True] valid
    by (simp_all add: e validate_ok_iff book_levels_def)
  then show "0 \<le> op_fees x" using rates by (simp add: e(4))
  have "0 \<le> op_latency_loss_estimate x" "0 \<le> op_risk_buffer x"
    using pos st unfolding e strategy_ok_def
    by (auto intro!: decimal_division.quotient_nonneg[OF dv] simp: bps_denominator_def)
  then show "st_min_net_profit st \<le> op_sell_proceeds x - op_buy_cost x - op_fees x"
    using adm acc st unfolding strategy_ok_def e(7,3) by linarith
qed

lemma scan_pairE:
  assumes "scan_pair dv i = Inr r"
  obtains a b where "validate (si_first_book i) = Inr ()" "validate (si_second_book i) = Inr ()"
    "evaluate_direction dv (first_to_second i) (si_quantity i) (si_strategy i) (shared_rejections i) = Inr a"
    "evaluate_direction dv (second_to_first i) (si_quantity i) (si_strategy i) (shared_rejections i) = Inr b"
    "sr_directions r = [a, b]"
  using assms by (auto simp: scan_pair_def split: if_splits)

lemma scan_directions:
  assumes "decimal_division dv rep" "scan_pair dv i = Inr r" "strategy_ok (si_strategy i)"
    and "fees_ok (si_first_fees i)" "fees_ok (si_second_fees i)"
  obtains a b where "sr_directions r = [a, b]" "\<not> (op_accepted a \<and> op_accepted b)"
    "\<And>x. x \<in> {a, b} \<Longrightarrow> op_accepted x \<Longrightarrow>
       op_buy_cost x + op_fees x + st_min_net_profit (si_strategy i) \<le> op_sell_proceeds x"
proof -
  from assms(2) obtain a b where v: "validate (si_first_book i) = Inr ()" "validate (si_second_book i) = Inr ()"
    and ab: "evaluate_direction dv (first_to_second i) (si_quantity i) (si_strategy i) (shared_rejections i) = Inr a"
    "evaluate_direction dv (second_to_first i) (si_quantity i) (si_strategy i) (shared_rejections i) = Inr b"
    and r: "sr_directions r = [a, b]" by (rule scan_pairE)
  have A: "op_accepted a \<Longrightarrow> st_min_net_profit (si_strategy i) \<le> op_sell_proceeds a - op_buy_cost a - op_fees a"
    "op_accepted a \<Longrightarrow> 0 \<le> op_fees a"
    using accepted_gross[OF assms(1) ab(1) _ assms(3)] v assms(4,5)
    by (simp_all add: first_to_second_def fees_ok_def)
  have B: "op_accepted b \<Longrightarrow> st_min_net_profit (si_strategy i) \<le> op_sell_proceeds b - op_buy_cost b - op_fees b"
    "op_accepted b \<Longrightarrow> 0 \<le> op_fees b"
    using accepted_gross[OF assms(1) ab(2) _ assms(3)] v assms(4,5)
    by (simp_all add: second_to_first_def fees_ok_def)
  obtain buy sell where sa: "sweep_book dv (si_first_book i) Asks (si_quantity i) = Inr buy"
    "sweep_book dv (si_second_book i) Bids (si_quantity i) = Inr sell"
    "op_buy_cost a = sw_quote_amount buy" "op_sell_proceeds a = sw_quote_amount sell"
    using ab(1) by (rule evaluate_directionE) (simp add: first_to_second_def)
  obtain buy' sell' where sb: "sweep_book dv (si_second_book i) Asks (si_quantity i) = Inr buy'"
    "sweep_book dv (si_first_book i) Bids (si_quantity i) = Inr sell'"
    "op_buy_cost b = sw_quote_amount buy'" "op_sell_proceeds b = sw_quote_amount sell'"
    using ab(2) by (rule evaluate_directionE) (simp add: second_to_first_def)
  have "op_sell_proceeds b < op_buy_cost a" "op_sell_proceeds a < op_buy_cost b"
    using bid_below_ask[OF v(1) sb(2) sa(1)] bid_below_ask[OF v(2) sa(2) sb(1)] sa sb by simp_all
  moreover have "0 \<le> st_min_net_profit (si_strategy i)" using assms(3) by (simp add: strategy_ok_def)
  ultimately have "\<not> (op_accepted a \<and> op_accepted b)" using A B by fastforce
  with r show thesis by (rule that) (use A(1) B(1) in \<open>auto simp: algebra_simps\<close>)
qed

lemma scan_not_both:
  assumes "decimal_division dv rep" "scan_pair dv i = Inr r" "strategy_ok (si_strategy i)"
    and "fees_ok (si_first_fees i)" "fees_ok (si_second_fees i)"
  shows "length (filter op_accepted (sr_directions r)) \<le> 1"
  using assms by (rule scan_directions) auto

text \<open>C3. With fee rates and strategy parameters that are not negative, a scan never accepts both
  directions of a pair, and a direction it accepts brings in more than its cost plus fees by the minimum profit.\<close>

theorem scan_accepts_at_most_one:
  assumes "decimal_division dv rep" "scan_pair dv i = Inr r" "strategy_ok (si_strategy i)"
    and "fees_ok (si_first_fees i)" "fees_ok (si_second_fees i)"
  shows "\<exists>a b. sr_directions r = [a, b] \<and> \<not> (op_accepted a \<and> op_accepted b)
    \<and> (\<forall>x \<in> {a, b}. op_accepted x \<longrightarrow>
          op_buy_cost x + op_fees x + st_min_net_profit (si_strategy i) \<le> op_sell_proceeds x)"
  using assms by (rule scan_directions) blast

lemma sample_scan: "\<exists>r. scan_pair exact_div sample_input = Inr r"
proof -
  obtain x y where "evaluate_direction exact_div (first_to_second sample_input) 1 sample_strategy [] = Inr x"
    "evaluate_direction exact_div (second_to_first sample_input) 1 sample_strategy [] = Inr y"
    using sample_forward sample_backward by blast
  then show ?thesis using sample_shared sample_book_valid sample_second_book_valid
    by (simp add: scan_pair_def)
      (simp add: sample_input_def sample_spec_def sample_book_def sample_second_book_def)
qed

lemma sample_strategy_ok: "strategy_ok (si_strategy sample_input)"
  by (simp add: sample_input_def sample_strategy_def strategy_ok_def)

lemma scan_accepts_at_most_one_witness:
  "\<exists>r a b. scan_pair exact_div sample_input = Inr r \<and> sr_directions r = [a, b]
     \<and> \<not> (op_accepted a \<and> op_accepted b)"
proof -
  obtain r where r: "scan_pair exact_div sample_input = Inr r" using sample_scan by blast
  from scan_accepts_at_most_one[OF exact.decimal_division_axioms r sample_strategy_ok] r
  show ?thesis by (auto simp: fees_ok_def sample_input_def)
qed

text \<open>A scan over a book received longer ago than the age limit, or over two books received
  further apart than the skew limit, accepts neither direction.\<close>

theorem stale_books_rejected:
  assumes "scan_pair dv i = Inr r"
    and "(\<exists>b \<in> {si_first_book i, si_second_book i}.
            unat (fl_max_snapshot_age_ms (si_freshness i)) + unat (ob_received_timestamp_ms b) < unat (si_now_ms i))
         \<or> int (unat (fl_max_pair_skew_ms (si_freshness i))) <
            \<bar>int (unat (ob_received_timestamp_ms (si_first_book i))) - int (unat (ob_received_timestamp_ms (si_second_book i)))\<bar>"
  shows "\<forall>x \<in> set (sr_directions r). \<not> op_accepted x"
proof -
  have "shared_rejections i \<noteq> []"
    using assms(2)
    by (auto simp: shared_rejections_def freshness_rejections_def word_less_nat_alt
        unat_saturating_sub unat_abs_diff[symmetric] simp del: of_nat_unat)
  then show ?thesis using assms(1)
    by (auto elim!: scan_pairE evaluate_directionE)
qed

lemma stale_books_rejected_witness:
  "\<exists>r. scan_pair exact_div (sample_input\<lparr>si_now_ms := 5000\<rparr>) = Inr r
     \<and> (\<forall>x \<in> set (sr_directions r). \<not> op_accepted x)"
proof -
  have "\<exists>r. scan_pair exact_div (sample_input\<lparr>si_now_ms := 5000\<rparr>) = Inr r"
    using sample_book_valid sample_second_book_valid
    by (simp add: scan_pair_def evaluate_direction_def sample_input_def first_to_second_def
        second_to_first_def sample_sweeps sample_reasons sample_notional Let_def)
      (simp add: sample_spec_def sample_book_def sample_second_book_def)
  then obtain r where r: "scan_pair exact_div (sample_input\<lparr>si_now_ms := 5000\<rparr>) = Inr r" by blast
  have "\<forall>x \<in> set (sr_directions r). \<not> op_accepted x"
    by (rule stale_books_rejected[OF r])
      (simp add: sample_input_def sample_book_def sample_second_book_def)
  with r show ?thesis by blast
qed

end
