(* ===== verification/Account.thy ===== *)
theory Account
  imports Scan "HOL-Library.List_Lexorder" "HOL-Library.Char_ord"
begin

text \<open>
  The read-only account checks of the two venues, \<open>crates/core/src/account/\<close>: what is read
  from the permission and fee answers, the fees, and the reasons for which an account is not
  admitted. The HTTP answers, the environment and the clock are parameters; the signing and
  sending of requests and the fixed documentation texts of the capability card are not modelled.
\<close>

section \<open>Data\<close>

record capability_card =
  cp_region_eligible_confirmed :: bool
  cp_account_eligible_confirmed :: bool

record permission_assessment =
  pm_credentials_configured :: bool
  pm_verified_at_ms :: "u64 option"
  pm_read_only :: "bool option"
  pm_ip_restricted :: "bool option"
  pm_scopes :: "string list"

record fee_schedule =
  fs_symbol :: string
  fs_buy_taker_rate :: decimal
  fs_sell_taker_rate :: decimal
  fs_source :: string
  fs_loaded_at_ms :: "u64 option"
  fs_expires_at_ms :: "u64 option"
  fs_actual_account_rate :: bool

record account_data =
  ad_venue :: string
  ad_capability :: capability_card
  ad_permission :: permission_assessment
  ad_fee :: fee_schedule
  ad_rejection_reasons :: "string list"

record binance_permissions =
  bp_ip_restrict :: bool
  bp_enable_reading :: bool
  bp_enable_spot_and_margin_trading :: bool
  bp_enable_withdrawals :: bool
  bp_enable_internal_transfer :: bool
  bp_permits_universal_transfer :: bool
  bp_enable_futures :: bool
  bp_enable_margin :: bool
  bp_enable_vanilla_options :: bool
  bp_enable_portfolio_margin_trading :: bool

record rate_parts =
  rt_taker :: decimal
  rt_buyer :: decimal
  rt_seller :: decimal

record binance_commission =
  bc_symbol :: string
  bc_standard :: rate_parts
  bc_special :: rate_parts
  bc_tax :: rate_parts

record bybit_permissions =
  yp_read_only :: "8 word"
  yp_permissions :: "(string \<times> json) list"
  yp_ips :: "string list"

record bybit_fee_row =
  yf_symbol :: string
  yf_taker_fee_rate :: decimal

record 'a bybit_envelope =
  ye_ret_code :: int
  ye_result :: "'a option"

section \<open>Admission\<close>

definition admission_rejections :: "account_data \<Rightarrow> u64 \<Rightarrow> string list" where
  "admission_rejections a now_ms =
     ad_rejection_reasons a @
     (if \<not> fs_actual_account_rate (ad_fee a)
      then [ad_venue a @ '' actual account fee unavailable; configured fallback is observation-only'']
      else if (case fs_expires_at_ms (ad_fee a) of None \<Rightarrow> True | Some expiry \<Rightarrow> now_ms > expiry)
      then [ad_venue a @ '' actual account fee is expired''] else [])"

definition fee_fallback :: "string \<Rightarrow> decimal \<Rightarrow> fee_schedule" where
  "fee_fallback symbol rate = \<lparr>fs_symbol = symbol, fs_buy_taker_rate = rate, fs_sell_taker_rate = rate,
     fs_source = ''configured_fallback'', fs_loaded_at_ms = None, fs_expires_at_ms = None,
     fs_actual_account_rate = False\<rparr>"

definition capability_card :: "venue_config \<Rightarrow> capability_card" where
  "capability_card config = \<lparr>cp_region_eligible_confirmed = vc_region_eligible_confirmed config,
     cp_account_eligible_confirmed = vc_account_eligible_confirmed config\<rparr>"

definition eligibility_rejections :: "string \<Rightarrow> capability_card \<Rightarrow> string list" where
  "eligibility_rejections venue c =
     (if \<not> cp_region_eligible_confirmed c then [venue @ '' region eligibility is not confirmed''] else []) @
     (if \<not> cp_account_eligible_confirmed c then [venue @ '' account eligibility is not confirmed''] else [])"

definition no_permission :: "bool \<Rightarrow> permission_assessment" where
  "no_permission configured = \<lparr>pm_credentials_configured = configured, pm_verified_at_ms = None,
     pm_read_only = None, pm_ip_restricted = None, pm_scopes = []\<rparr>"

definition missing_credentials :: "string \<Rightarrow> string \<Rightarrow> venue_config \<Rightarrow> capability_card \<Rightarrow> account_data" where
  "missing_credentials venue symbol config c =
     \<lparr>ad_venue = venue, ad_capability = c, ad_permission = no_permission False,
      ad_fee = fee_fallback symbol (vc_fallback_taker_fee_rate config),
      ad_rejection_reasons = eligibility_rejections venue c @
        [venue @ '' read-only credentials are not configured'']\<rparr>"

type_synonym environment = "string \<Rightarrow> string option"

definition credentials_configured :: "environment \<Rightarrow> venue_config \<Rightarrow> bool" where
  "credentials_configured env config \<longleftrightarrow> env (vc_api_key_env config) \<noteq> None \<and> env (vc_api_secret_env config) \<noteq> None"

definition credentials_from_environment :: "environment \<Rightarrow> venue_config \<Rightarrow> (string \<times> string) option result" where
  "credentials_from_environment env config =
     (case (env (vc_api_key_env config), env (vc_api_secret_env config)) of
        (None, None) \<Rightarrow> Inr None
      | (Some k, Some s) \<Rightarrow> if k \<noteq> [] \<and> s \<noteq> [] then Inr (Some (k, s))
          else Inl (Bail ''credential environment variables are incomplete'')
      | _ \<Rightarrow> Inl (Bail ''credential environment variables are incomplete''))"

definition failed_account_data :: "environment \<Rightarrow> string \<Rightarrow> string \<Rightarrow> venue_config \<Rightarrow> string \<Rightarrow> account_data" where
  "failed_account_data env venue symbol config err =
     \<lparr>ad_venue = venue, ad_capability = capability_card config,
      ad_permission = no_permission (credentials_configured env config),
      ad_fee = fee_fallback symbol (vc_fallback_taker_fee_rate config),
      ad_rejection_reasons = [venue @ '' account metadata refresh failed: '' @ err]\<rparr>"

definition validate_fee_rate :: "decimal \<Rightarrow> unit result" where
  "validate_fee_rate rate =
     (if rate < 0 \<or> rate \<ge> 1 then Inl (Bail ''fee rate is outside [0, 1)'') else Inr ())"

section \<open>Binance\<close>

definition binance_scopes :: "binance_permissions \<Rightarrow> string list" where
  "binance_scopes p = map snd (filter fst
     [(bp_enable_spot_and_margin_trading p, ''spot_margin_trade''), (bp_enable_withdrawals p, ''withdraw''),
      (bp_enable_internal_transfer p, ''internal_transfer''), (bp_permits_universal_transfer p, ''universal_transfer''),
      (bp_enable_futures p, ''futures''), (bp_enable_margin p, ''margin''),
      (bp_enable_vanilla_options p, ''options''), (bp_enable_portfolio_margin_trading p, ''portfolio_margin'')])"

definition binance_permissions_of :: "u64 \<Rightarrow> binance_permissions \<Rightarrow> permission_assessment" where
  "binance_permissions_of timestamp p =
     \<lparr>pm_credentials_configured = True, pm_verified_at_ms = Some timestamp,
      pm_read_only = Some (bp_enable_reading p \<and> binance_scopes p = []),
      pm_ip_restricted = Some (bp_ip_restrict p), pm_scopes = binance_scopes p\<rparr>"

definition effective_binance_rate :: "binance_commission \<Rightarrow> bool \<Rightarrow> decimal" where
  "effective_binance_rate c buy =
     (let side = (\<lambda>p. if buy then rt_buyer p else rt_seller p)
      in rt_taker (bc_standard c) + side (bc_standard c) + rt_taker (bc_special c) + side (bc_special c)
         + rt_taker (bc_tax c) + side (bc_tax c))"

definition binance_fee_of :: "string \<Rightarrow> u64 \<Rightarrow> u64 \<Rightarrow> binance_commission \<Rightarrow> fee_schedule result" where
  "binance_fee_of symbol loaded_at_ms max_fee_age_ms c =
     (if bc_symbol c \<noteq> symbol then Inl (Bail ''Binance commission response returned a different symbol'')
      else then_do (validate_fee_rate (effective_binance_rate c True)) (\<lambda>_.
           then_do (validate_fee_rate (effective_binance_rate c False)) (\<lambda>_.
           Inr \<lparr>fs_symbol = symbol, fs_buy_taker_rate = effective_binance_rate c True,
                fs_sell_taker_rate = effective_binance_rate c False,
                fs_source = ''binance:/api/v3/account/commission'', fs_loaded_at_ms = Some loaded_at_ms,
                fs_expires_at_ms = Some (saturating_add loaded_at_ms max_fee_age_ms),
                fs_actual_account_rate = True\<rparr>)))"

fun join_comma :: "string list \<Rightarrow> string" where
  "join_comma [] = []"
| "join_comma [s] = s"
| "join_comma (s # t # ss) = s @ '','' @ join_comma (t # ss)"

text \<open>What a loader of account data is given: the environment, the clock at its two requests, their answers.\<close>

record ('p, 'f) account_source =
  as_env :: environment
  as_permission_at_ms :: u64
  as_permission :: "'p result"
  as_fee_at_ms :: u64
  as_fee :: "'f result"

definition load_binance :: "(binance_permissions, binance_commission) account_source \<Rightarrow> string \<Rightarrow> venue_config \<Rightarrow> u64
    \<Rightarrow> account_data result" where
  "load_binance src symbol config max_fee_age_ms =
     then_do (credentials_from_environment (as_env src) config) (\<lambda>creds.
     if creds = None then Inr (missing_credentials ''binance'' symbol config (capability_card config))
     else then_do (as_permission src) (\<lambda>p.
       let permission = binance_permissions_of (as_permission_at_ms src) p
       in then_do (as_fee src) (\<lambda>c.
          then_do (binance_fee_of symbol (as_fee_at_ms src) max_fee_age_ms c) (\<lambda>fee.
          Inr \<lparr>ad_venue = ''binance'', ad_capability = capability_card config,
               ad_permission = permission, ad_fee = fee,
               ad_rejection_reasons = eligibility_rejections ''binance'' (capability_card config) @
                 (if pm_read_only permission \<noteq> Some True then [''binance API key is not read-only''] else []) @
                 (if pm_scopes permission \<noteq> []
                  then [''binance API key has forbidden permissions: '' @ join_comma (pm_scopes permission)] else [])\<rparr>))))"

section \<open>Bybit\<close>

definition bybit_result :: "'a bybit_envelope \<Rightarrow> 'a result" where
  "bybit_result e =
     (if ye_ret_code e \<noteq> 0 then Inl (Bail ''Bybit request was rejected'')
      else case ye_result e of None \<Rightarrow> Inl (Bail ''Bybit response omitted result'') | Some x \<Rightarrow> Inr x)"

fun json_strings :: "json list \<Rightarrow> string list" where
  "json_strings [] = []"
| "json_strings (JString s # vs) = s # json_strings vs"
| "json_strings (_ # vs) = json_strings vs"

definition category_scopes :: "string \<times> json \<Rightarrow> string list" where
  "category_scopes cv = (case snd cv of JArray vs \<Rightarrow> map (\<lambda>s. fst cv @ '':'' @ s) (json_strings vs) | _ \<Rightarrow> [])"

definition bybit_permissions_of :: "u64 \<Rightarrow> bybit_permissions \<Rightarrow> permission_assessment" where
  "bybit_permissions_of timestamp p =
     \<lparr>pm_credentials_configured = True, pm_verified_at_ms = Some timestamp,
      pm_read_only = Some (yp_read_only p = 1), pm_ip_restricted = Some (yp_ips p \<noteq> []),
      pm_scopes = sort (concat (map category_scopes (yp_permissions p)))\<rparr>"

definition bybit_fee_of :: "string \<Rightarrow> u64 \<Rightarrow> u64 \<Rightarrow> bybit_fee_row list \<Rightarrow> fee_schedule result" where
  "bybit_fee_of symbol timestamp max_fee_age_ms rows =
     (case rows of
        [fee] \<Rightarrow>
          if yf_symbol fee \<noteq> symbol then Inl (Bail ''Bybit fee response returned a different symbol'')
          else then_do (validate_fee_rate (yf_taker_fee_rate fee)) (\<lambda>_.
            Inr \<lparr>fs_symbol = symbol, fs_buy_taker_rate = yf_taker_fee_rate fee,
                 fs_sell_taker_rate = yf_taker_fee_rate fee, fs_source = ''bybit:/v5/account/fee-rate'',
                 fs_loaded_at_ms = Some timestamp,
                 fs_expires_at_ms = Some (saturating_add timestamp max_fee_age_ms),
                 fs_actual_account_rate = True\<rparr>)
      | _ \<Rightarrow> Inl (Bail ''Bybit fee response returned rows''))"

definition bybit_rejections :: "venue_config \<Rightarrow> permission_assessment \<Rightarrow> string list" where
  "bybit_rejections config permission = eligibility_rejections ''bybit'' (capability_card config) @
     (if pm_read_only permission \<noteq> Some True then [''bybit API key is not read-only''] else []) @
     (if ''Wallet:Withdraw'' \<in> set (pm_scopes permission)
      then [''bybit API key has forbidden withdrawal permission''] else [])"

definition load_bybit :: "(bybit_permissions bybit_envelope, bybit_fee_row list bybit_envelope) account_source
    \<Rightarrow> string \<Rightarrow> venue_config \<Rightarrow> u64 \<Rightarrow> account_data result" where
  "load_bybit src symbol config max_fee_age_ms =
     then_do (credentials_from_environment (as_env src) config) (\<lambda>creds.
     if creds = None then Inr (missing_credentials ''bybit'' symbol config (capability_card config))
     else then_do (then_do (as_permission src) bybit_result) (\<lambda>p.
       let permission = bybit_permissions_of (as_permission_at_ms src) p
       in then_do (then_do (as_fee src) bybit_result) (\<lambda>rows.
          then_do (bybit_fee_of symbol (as_fee_at_ms src) max_fee_age_ms rows) (\<lambda>fee.
          Inr \<lparr>ad_venue = ''bybit'', ad_capability = capability_card config,
               ad_permission = permission, ad_fee = fee,
               ad_rejection_reasons = bybit_rejections config permission\<rparr>))))"

section \<open>Both accounts\<close>

text \<open>The text of an error is only shown; \<open>error_text\<close> is how it is printed.\<close>

definition load_account_data :: "(error \<Rightarrow> string) \<Rightarrow> (binance_permissions, binance_commission) account_source
    \<Rightarrow> (bybit_permissions bybit_envelope, bybit_fee_row list bybit_envelope) account_source
    \<Rightarrow> string \<Rightarrow> venue_config \<Rightarrow> venue_config \<Rightarrow> u64 \<Rightarrow> account_data \<times> account_data" where
  "load_account_data error_text bsrc ysrc symbol binance bybit max_fee_age_ms =
     (case load_binance bsrc symbol binance max_fee_age_ms of
        Inr a \<Rightarrow> a | Inl e \<Rightarrow> failed_account_data (as_env bsrc) ''binance'' symbol binance (error_text e),
      case load_bybit ysrc symbol bybit max_fee_age_ms of
        Inr a \<Rightarrow> a | Inl e \<Rightarrow> failed_account_data (as_env ysrc) ''bybit'' symbol bybit (error_text e))"

section \<open>What an admitted account guarantees\<close>

definition account_verified :: "venue_config \<Rightarrow> u64 \<Rightarrow> account_data \<Rightarrow> bool" where
  "account_verified config now_ms a \<longleftrightarrow>
     vc_region_eligible_confirmed config \<and> vc_account_eligible_confirmed config
     \<and> pm_credentials_configured (ad_permission a) \<and> pm_read_only (ad_permission a) = Some True
     \<and> fs_actual_account_rate (ad_fee a)
     \<and> (\<exists>expiry. fs_expires_at_ms (ad_fee a) = Some expiry \<and> now_ms \<le> expiry)
     \<and> 0 \<le> fs_buy_taker_rate (ad_fee a) \<and> fs_buy_taker_rate (ad_fee a) < 1
     \<and> 0 \<le> fs_sell_taker_rate (ad_fee a) \<and> fs_sell_taker_rate (ad_fee a) < 1"

lemma validate_fee_rate_ok_iff: "validate_fee_rate r = Inr () \<longleftrightarrow> 0 \<le> r \<and> r < 1"
  by (auto simp: validate_fee_rate_def)

lemma fallback_rejected:
  "admission_rejections (failed_account_data env v s c e) now \<noteq> []"
  "admission_rejections (missing_credentials v s c k) now \<noteq> []"
  by (simp_all add: admission_rejections_def failed_account_data_def missing_credentials_def)

lemma eligibility_rejections_nil:
  "eligibility_rejections v (capability_card c) = [] \<longleftrightarrow> vc_region_eligible_confirmed c \<and> vc_account_eligible_confirmed c"
  by (simp add: eligibility_rejections_def capability_card_def)

lemma load_binance_admitted:
  assumes "load_binance src symbol config age = Inr a" "admission_rejections a now = []"
  shows "account_verified config now a \<and> ad_venue a = ''binance'' \<and> pm_scopes (ad_permission a) = []"
proof (cases "credentials_from_environment (as_env src) config = Inr None")
  case True
  then show ?thesis using assms fallback_rejected by (auto simp: load_binance_def)
next
  case False
  then show ?thesis using assms
    by (auto simp: load_binance_def admission_rejections_def account_verified_def eligibility_rejections_nil
        binance_permissions_of_def binance_fee_of_def validate_fee_rate_ok_iff not_less Let_def split: if_splits)
qed

lemma bybit_fee_of_ok:
  assumes "bybit_fee_of symbol t age rows = Inr fee"
  shows "fs_actual_account_rate fee" "fs_expires_at_ms fee = Some (saturating_add t age)"
    "0 \<le> fs_buy_taker_rate fee" "fs_buy_taker_rate fee < 1"
    "0 \<le> fs_sell_taker_rate fee" "fs_sell_taker_rate fee < 1"
  using assms by (auto simp: bybit_fee_of_def validate_fee_rate_ok_iff split: list.splits if_splits)

lemma load_bybit_admitted:
  assumes "load_bybit src symbol config age = Inr a" "admission_rejections a now = []"
  shows "account_verified config now a \<and> ad_venue a = ''bybit'' \<and> ''Wallet:Withdraw'' \<notin> set (pm_scopes (ad_permission a))"
proof (cases "credentials_from_environment (as_env src) config = Inr None")
  case True
  then show ?thesis using assms fallback_rejected by (auto simp: load_bybit_def)
next
  case False
  with assms(1) obtain creds where creds: "credentials_from_environment (as_env src) config = Inr (Some creds)"
    by (cases "credentials_from_environment (as_env src) config") (auto simp: load_bybit_def)
  from assms(1) obtain p rows fee where fee: "bybit_fee_of symbol (as_fee_at_ms src) age rows = Inr fee"
    and rec: "Inr \<lparr>ad_venue = ''bybit'', ad_capability = capability_card config,
       ad_permission = bybit_permissions_of (as_permission_at_ms src) p, ad_fee = fee,
       ad_rejection_reasons = bybit_rejections config (bybit_permissions_of (as_permission_at_ms src) p)\<rparr> = (Inr a :: account_data result)"
    by (auto simp: load_bybit_def Let_def creds)
  then have a: "ad_venue a = ''bybit''" "ad_permission a = bybit_permissions_of (as_permission_at_ms src) p" "ad_fee a = fee"
      "ad_rejection_reasons a = bybit_rejections config (bybit_permissions_of (as_permission_at_ms src) p)"
    by auto
  have none: "ad_rejection_reasons a = []" "\<not> saturating_add (as_fee_at_ms src) age < now"
    using assms(2) bybit_fee_of_ok[OF fee] a(3) by (auto simp: admission_rejections_def split: if_splits)
  then have "bybit_rejections config (ad_permission a) = []" using a(2,4) by simp
  then have "pm_read_only (ad_permission a) = Some True" "''Wallet:Withdraw'' \<notin> set (pm_scopes (ad_permission a))"
    "vc_region_eligible_confirmed config \<and> vc_account_eligible_confirmed config"
    by (auto simp: bybit_rejections_def eligibility_rejections_nil split: if_splits)
  moreover have "pm_credentials_configured (ad_permission a)" by (simp add: a(2) bybit_permissions_of_def)
  ultimately show ?thesis
    using none(2) bybit_fee_of_ok[OF fee] a(1,3) by (simp add: account_verified_def not_less)
qed

lemma load_account_data_admitted:
  assumes "load_account_data err bsrc ysrc symbol binance bybit age = (a, b)"
    "admission_rejections a now @ admission_rejections b now = []"
  shows "account_verified binance now a \<and> account_verified bybit now b
    \<and> pm_scopes (ad_permission a) = [] \<and> ''Wallet:Withdraw'' \<notin> set (pm_scopes (ad_permission b))"
  using assms load_binance_admitted load_bybit_admitted fallback_rejected
  by (auto simp: load_account_data_def split: sum.splits)

end
