(* ===== verification/Local_Book.thy ===== *)
theory Local_Book
  imports Market Ordered_Map
begin

text \<open>
  The local order book of a venue and the status a feed publishes,
  \<open>crates/core/src/local_book.rs\<close>. A side of the book is an ordered map from price to
  quantity. \<open>apply_updates\<close> changes the book in place and may fail half way, so it returns the
  changed book beside its result. The channel of the publisher is the last status sent.
\<close>

section \<open>Feed status\<close>

datatype book_state = Syncing | Valid | Stale | Invalid

record book_feed_status =
  bf_venue :: string
  bf_symbol :: string
  bf_state :: book_state
  bf_generation :: u64
  bf_reconnects :: u64
  bf_applied_updates :: u64
  bf_snapshot :: "order_book_snapshot option"
  bf_reason :: "string option"

record feed_publisher =
  fp_status :: book_feed_status
  fp_channel :: book_feed_status

definition channel :: "string \<Rightarrow> string \<Rightarrow> feed_publisher" where
  "channel venue symbol =
     (let status = \<lparr>bf_venue = venue, bf_symbol = symbol, bf_state = Syncing, bf_generation = 0,
        bf_reconnects = 0, bf_applied_updates = 0, bf_snapshot = None, bf_reason = None\<rparr>
      in \<lparr>fp_status = status, fp_channel = status\<rparr>)"

definition publish :: "feed_publisher \<Rightarrow> feed_publisher" where
  "publish p = p\<lparr>fp_channel := fp_status p\<rparr>"

definition syncing :: "bool \<Rightarrow> feed_publisher \<Rightarrow> feed_publisher" where
  "syncing reconnect p = publish (p\<lparr>fp_status := (fp_status p)
     \<lparr>bf_generation := bf_generation (fp_status p) + 1,
      bf_reconnects := bf_reconnects (fp_status p) + (if reconnect then 1 else 0),
      bf_state := Syncing, bf_snapshot := None, bf_reason := None\<rparr>\<rparr>)"

definition valid :: "order_book_snapshot \<Rightarrow> feed_publisher \<Rightarrow> feed_publisher" where
  "valid snapshot p = publish (p\<lparr>fp_status := (fp_status p)
     \<lparr>bf_state := Valid, bf_applied_updates := bf_applied_updates (fp_status p) + 1,
      bf_snapshot := Some snapshot, bf_reason := None\<rparr>\<rparr>)"

definition stale :: "string \<Rightarrow> feed_publisher \<Rightarrow> feed_publisher" where
  "stale reason p = publish (p\<lparr>fp_status := (fp_status p)
     \<lparr>bf_state := Stale, bf_snapshot := None, bf_reason := Some reason\<rparr>\<rparr>)"

definition invalid :: "string \<Rightarrow> feed_publisher \<Rightarrow> feed_publisher" where
  "invalid reason p = publish (p\<lparr>fp_status := (fp_status p)
     \<lparr>bf_state := Invalid, bf_snapshot := None, bf_reason := Some reason\<rparr>\<rparr>)"

section \<open>Local book\<close>

type_synonym side_map = "(decimal \<times> decimal) list"

record local_order_book =
  lb_venue :: string
  lb_symbol :: string
  lb_bids :: side_map
  lb_asks :: side_map
  lb_sequence :: u64
  lb_source_timestamp_ms :: "u64 option"
  lb_received_timestamp_ms :: u64

definition level_entry :: "level \<Rightarrow> decimal \<times> decimal" where
  "level_entry l = (lv_price l, lv_quantity l)"

definition entry_level :: "decimal \<times> decimal \<Rightarrow> level" where
  "entry_level e = \<lparr>lv_price = fst e, lv_quantity = snd e\<rparr>"

definition from_snapshot :: "order_book_snapshot \<Rightarrow> local_order_book result" where
  "from_snapshot s = then_do (validate s) (\<lambda>_. Inr
     \<lparr>lb_venue = ob_venue s, lb_symbol = ob_symbol s,
      lb_bids = bt_collect (map level_entry (ob_bids s)),
      lb_asks = bt_collect (map level_entry (ob_asks s)),
      lb_sequence = ob_sequence s, lb_source_timestamp_ms = ob_source_timestamp_ms s,
      lb_received_timestamp_ms = ob_received_timestamp_ms s\<rparr>)"

text \<open>One side: the updates before a malformed one have been applied when the error is returned.\<close>

fun apply_side :: "side_map \<Rightarrow> level_update list \<Rightarrow> unit result \<times> side_map" where
  "apply_side levels [] = (Inr (), levels)"
| "apply_side levels (u # us) =
     (if lu_price u \<le> 0 \<or> lu_quantity u < 0
      then (Inl (Bail ''order book update has invalid price or quantity''), levels)
      else if lu_quantity u = 0 then apply_side (bt_remove (lu_price u) levels) us
      else apply_side (bt_insert (lu_price u) (lu_quantity u) levels) us)"

definition validate_live :: "local_order_book \<Rightarrow> unit result" where
  "validate_live b =
     (if lb_bids b = [] \<or> lb_asks b = [] then Inl (Bail ''order book has an empty side'')
      else if fst (last (lb_bids b)) \<ge> fst (hd (lb_asks b)) then Inl (Bail ''local book is crossed'')
      else Inr ())"

definition apply_updates :: "local_order_book \<Rightarrow> level_update list \<Rightarrow> level_update list \<Rightarrow> u64
    \<Rightarrow> u64 option \<Rightarrow> u64 \<Rightarrow> unit result \<times> local_order_book" where
  "apply_updates b bids asks sequence source_ts received_ts =
     (case apply_side (lb_bids b) bids of
        (Inl e, new_bids) \<Rightarrow> (Inl e, b\<lparr>lb_bids := new_bids\<rparr>)
      | (Inr _, new_bids) \<Rightarrow>
        (case apply_side (lb_asks b) asks of
           (Inl e, new_asks) \<Rightarrow> (Inl e, b\<lparr>lb_bids := new_bids, lb_asks := new_asks\<rparr>)
         | (Inr _, new_asks) \<Rightarrow>
           let b' = b\<lparr>lb_bids := new_bids, lb_asks := new_asks, lb_sequence := sequence,
                 lb_source_timestamp_ms := source_ts, lb_received_timestamp_ms := received_ts\<rparr>
           in (validate_live b', b')))"

definition snapshot :: "nat \<Rightarrow> local_order_book \<Rightarrow> order_book_snapshot result" where
  "snapshot n b =
     (if n = 0 then Inl (Bail ''order book snapshot depth must be positive'')
      else let s = \<lparr>ob_venue = lb_venue b, ob_symbol = lb_symbol b,
                    ob_bids = map entry_level (take n (rev (lb_bids b))),
                    ob_asks = map entry_level (take n (lb_asks b)),
                    ob_sequence = lb_sequence b,
                    ob_source_timestamp_ms = lb_source_timestamp_ms b,
                    ob_received_timestamp_ms = lb_received_timestamp_ms b\<rparr>
           in then_do (validate s) (\<lambda>_. Inr s))"

section \<open>The feed publishes a snapshot only while it is valid\<close>

inductive feed_reachable :: "string \<Rightarrow> string \<Rightarrow> feed_publisher \<Rightarrow> bool" for venue symbol where
  start: "feed_reachable venue symbol (channel venue symbol)"
| syncing: "feed_reachable venue symbol p \<Longrightarrow> feed_reachable venue symbol (syncing r p)"
| valid: "feed_reachable venue symbol p \<Longrightarrow> feed_reachable venue symbol (valid s p)"
| stale: "feed_reachable venue symbol p \<Longrightarrow> feed_reachable venue symbol (stale m p)"
| invalid: "feed_reachable venue symbol p \<Longrightarrow> feed_reachable venue symbol (invalid m p)"

lemmas feed_defs = channel_def publish_def syncing_def valid_def stale_def invalid_def

definition feed_inv :: "feed_publisher \<Rightarrow> bool" where
  "feed_inv p \<longleftrightarrow> fp_channel p = fp_status p
     \<and> (bf_snapshot (fp_status p) \<noteq> None \<longleftrightarrow> bf_state (fp_status p) = Valid)
     \<and> (bf_reason (fp_status p) \<noteq> None \<longleftrightarrow> bf_state (fp_status p) \<in> {Stale, Invalid})"

lemma feed_reachable_inv:
  assumes "feed_reachable venue symbol p"
  shows "feed_inv p \<and> bf_venue (fp_status p) = venue \<and> bf_symbol (fp_status p) = symbol"
  using assms by induction (auto simp: feed_inv_def feed_defs Let_def)

text \<open>In every state a feed can reach, what the channel carries is the publisher's status, and
  it carries a book exactly in the state Valid and a reason exactly in the states Stale and Invalid.\<close>

theorem feed_publishes_only_valid_books:
  assumes "feed_reachable venue symbol p"
  shows "feed_inv p \<and> bf_venue (fp_status p) = venue \<and> bf_symbol (fp_status p) = symbol"
  using assms by (rule feed_reachable_inv)

lemma feed_publishes_only_valid_books_witness:
  "feed_inv (stale ''gap'' (valid sample_book (syncing True (channel ''binance'' ''BTCUSDT''))))"
  by (rule conjunct1, rule feed_publishes_only_valid_books[of "''binance''" "''BTCUSDT''"],
      intro feed_reachable.intros)

section \<open>The invariant of a book\<close>

definition side_inv :: "side_map \<Rightarrow> bool" where
  "side_inv es \<longleftrightarrow> bt_wf es \<and> (\<forall>k v. map_of es k = Some v \<longrightarrow> 0 < k \<and> 0 < v)"

definition book_inv :: "local_order_book \<Rightarrow> bool" where
  "book_inv b \<longleftrightarrow> side_inv (lb_bids b) \<and> side_inv (lb_asks b)"

definition update_change :: "level_update \<Rightarrow> decimal \<times> decimal option" where
  "update_change u = (lu_price u, if lu_quantity u = 0 then None else Some (lu_quantity u))"

definition update_ok :: "level_update \<Rightarrow> bool" where
  "update_ok u \<longleftrightarrow> 0 < lu_price u \<and> 0 \<le> lu_quantity u"

text \<open>A side after its updates: the changes of the longest well-formed prefix, in order.\<close>

lemma apply_side_eq:
  "apply_side es us =
     ((if \<forall>u \<in> set us. update_ok u then Inr ()
       else Inl (Bail ''order book update has invalid price or quantity'')),
      fold btree.change (map update_change (takeWhile update_ok us)) es)"
  by (induction es us rule: apply_side.induct)
    (auto simp: btree.change_def update_change_def update_ok_def not_le)

lemma apply_side_inv: "side_inv es \<Longrightarrow> side_inv (snd (apply_side es us))"
proof -
  assume inv: "side_inv es"
  let ?cs = "map update_change (takeWhile update_ok us)"
  have wf: "bt_wf es" and pos: "\<forall>k v. map_of es k = Some v \<longrightarrow> 0 < k \<and> 0 < v"
    using inv by (simp_all add: side_inv_def)
  have "\<forall>c \<in> set ?cs. \<forall>v. snd c = Some v \<longrightarrow> 0 < fst c \<and> 0 < v"
    by (auto dest!: set_takeWhileD simp: update_change_def update_ok_def split: if_splits)
  from btree.change_invariant[OF wf pos this] btree.wf_changes[OF wf, of ?cs] show ?thesis
    unfolding side_inv_def apply_side_eq snd_conv by blast
qed

lemma apply_updates_inv:
  assumes "book_inv b"
  shows "book_inv (snd (apply_updates b bids asks n t r))"
proof -
  have "side_inv (snd (apply_side (lb_bids b) bids))" "side_inv (snd (apply_side (lb_asks b) asks))"
    using assms by (auto simp: book_inv_def apply_side_inv)
  then show ?thesis using assms
    by (auto simp: apply_updates_def book_inv_def Let_def split: prod.splits sum.splits)
qed

lemma price_before_eq:
  "price_before True = (\<lambda>a b. lv_price b < lv_price a)"
  "price_before False = (\<lambda>a b. lv_price a < lv_price b)"
  by (simp_all add: price_before_def fun_eq_iff)

lemma sorted_levels_asc:
  "sorted_wrt (price_before False) ls \<longleftrightarrow> sorted_wrt (<) (map fst (map level_entry ls))"
  by (simp add: sorted_wrt_map level_entry_def price_before_eq)

lemma sorted_levels_desc:
  "sorted_wrt (price_before True) ls \<longleftrightarrow> sorted_wrt (>) (map fst (map level_entry ls))"
  by (simp add: sorted_wrt_map level_entry_def price_before_eq)

lemma from_snapshot_sides:
  assumes "from_snapshot s = Inr b"
  shows "lb_bids b = rev (map level_entry (ob_bids s))" "lb_asks b = map level_entry (ob_asks s)"
  using assms
  by (auto simp: from_snapshot_def validate_ok_iff valid_side_def
      bt_collect_ascending[OF sorted_levels_asc[THEN iffD1]]
      bt_collect_descending[OF sorted_levels_desc[THEN iffD1]])

lemma from_snapshot_inv:
  assumes "from_snapshot s = Inr b"
  shows "book_inv b"
proof -
  have "valid_side True (ob_bids s)" "valid_side False (ob_asks s)"
    using assms by (auto simp: from_snapshot_def validate_ok_iff)
  then have pos: "\<forall>l \<in> set (ob_bids s) \<union> set (ob_asks s). 0 < lv_price l \<and> 0 < lv_quantity l"
    by (auto simp: valid_side_def level_positive_def)
  have "bt_wf (lb_bids b)" "bt_wf (lb_asks b)"
    using assms by (auto simp: from_snapshot_def bt_wf_collect)
  then show ?thesis
    using pos unfolding book_inv_def side_inv_def from_snapshot_sides[OF assms]
    by (auto dest!: map_of_SomeD simp: level_entry_def)
qed

section \<open>A live book always yields a snapshot\<close>

lemma rev_take_sorted:
  "bt_wf es \<Longrightarrow> sorted_wrt (price_before True) (map entry_level (take n (rev es)))"
  unfolding sorted_wrt_map
  by (rule sorted_wrt_take)
    (simp add: bt_wf_def sorted_wrt_rev sorted_wrt_map price_before_def entry_level_def)

lemma take_sorted: "bt_wf es \<Longrightarrow> sorted_wrt (price_before False) (map entry_level (take n es))"
  unfolding sorted_wrt_map
  by (rule sorted_wrt_take)
    (simp add: bt_wf_def sorted_wrt_map price_before_def entry_level_def)

lemma side_inv_positive: "side_inv es \<Longrightarrow> e \<in> set es \<Longrightarrow> level_positive (entry_level e)"
  by (cases e) (auto simp: side_inv_def level_positive_def entry_level_def bt_wf_entry)

lemma validate_levels_of_side:
  assumes "side_inv es" "es \<noteq> []" "0 < n"
  shows "valid_side True (map entry_level (take n (rev es)))"
    "valid_side False (map entry_level (take n es))"
  using assms
  by (auto simp: valid_side_def rev_take_sorted take_sorted side_inv_def[of es]
      dest!: in_set_takeD intro: side_inv_positive[OF assms(1)])

lemma live_iff_snapshot:
  assumes "book_inv b" "0 < n"
  shows "validate_live b = Inr () \<longleftrightarrow> is_ok (snapshot n b)"
proof (cases "lb_bids b = [] \<or> lb_asks b = []")
  case True
  then show ?thesis using assms
    by (auto simp: validate_live_def snapshot_def Let_def validate_def)
next
  case False
  then have sides: "valid_side True (map entry_level (take n (rev (lb_bids b))))"
    "valid_side False (map entry_level (take n (lb_asks b)))"
    using assms by (auto simp: book_inv_def validate_levels_of_side)
  have "hd (map entry_level (take n (rev (lb_bids b)))) = entry_level (last (lb_bids b))"
    "hd (map entry_level (take n (lb_asks b))) = entry_level (hd (lb_asks b))"
    using False assms(2) by (simp_all add: hd_map hd_rev)
  with False sides show ?thesis using assms(2)
    by (simp add: validate_live_def snapshot_def Let_def is_ok_then_do validate_ok_iff entry_level_def)
qed

text \<open>For a book whose sides hold positive levels, the cheap check made after each update decides
  exactly whether a snapshot of any positive depth can be taken.\<close>

theorem validate_live_iff_snapshot:
  assumes "book_inv b" "0 < n"
  shows "validate_live b = Inr () \<longleftrightarrow> is_ok (snapshot n b)"
  using assms by (rule live_iff_snapshot)

lemma validate_live_iff_snapshot_witness:
  "is_ok (snapshot 20 \<lparr>lb_venue = ''binance'', lb_symbol = ''BTCUSDT'', lb_bids = [(98, 5), (99, 2)],
     lb_asks = [(100, 1)], lb_sequence = 1, lb_source_timestamp_ms = None,
     lb_received_timestamp_ms = 5\<rparr>)"
  by (subst validate_live_iff_snapshot[symmetric])
    (auto simp: book_inv_def side_inv_def bt_wf_def validate_live_def split: if_splits)

section \<open>Books reached by updates\<close>

inductive book_reachable :: "local_order_book \<Rightarrow> bool" where
  loaded: "from_snapshot s = Inr b \<Longrightarrow> book_reachable b"
| updated: "book_reachable b \<Longrightarrow> apply_updates b bids asks n t r = (Inr (), b') \<Longrightarrow> book_reachable b'"

lemma book_reachable_inv: "book_reachable b \<Longrightarrow> book_inv b"
proof (induction rule: book_reachable.induct)
  case (updated b bids asks n t r b')
  then show ?case using apply_updates_inv[of b bids asks n t r] by simp
qed (rule from_snapshot_inv)

lemma book_reachable_live: "book_reachable b \<Longrightarrow> validate_live b = Inr ()"
proof (induction rule: book_reachable.induct)
  case (loaded s b)
  then have "validate s = Inr ()" by (simp add: from_snapshot_def)
  then show ?case using from_snapshot_sides[OF loaded]
    by (auto simp: validate_live_def validate_ok_iff valid_side_def last_rev hd_map level_entry_def)
next
  case (updated b bids asks n t r b')
  then show ?case by (auto simp: apply_updates_def Let_def split: prod.splits sum.splits)
qed

text \<open>Loading a validated snapshot and taking a snapshot at least as deep returns the same
  snapshot, and after any number of accepted updates a snapshot of any positive depth validates.\<close>

theorem book_snapshots:
  assumes "book_reachable b" "0 < n"
  shows "(\<exists>s. snapshot n b = Inr s \<and> validate s = Inr () \<and> ob_sequence s = lb_sequence b)
    \<and> (\<forall>s. from_snapshot s = Inr b \<and> length (ob_bids s) \<le> n \<and> length (ob_asks s) \<le> n
          \<longrightarrow> snapshot n b = Inr s)"
proof
  have "is_ok (snapshot n b)"
    using live_iff_snapshot[OF book_reachable_inv[OF assms(1)] assms(2)]
      book_reachable_live[OF assms(1)] by simp
  then show "\<exists>s. snapshot n b = Inr s \<and> validate s = Inr () \<and> ob_sequence s = lb_sequence b"
    using assms(2) by (auto simp: snapshot_def Let_def is_ok_then_do)
  show "\<forall>s. from_snapshot s = Inr b \<and> length (ob_bids s) \<le> n \<and> length (ob_asks s) \<le> n
          \<longrightarrow> snapshot n b = Inr s"
  proof (intro allI impI, elim conjE)
    fix s assume s: "from_snapshot s = Inr b" "length (ob_bids s) \<le> n" "length (ob_asks s) \<le> n"
    have "entry_level (level_entry l) = l" for l by (simp add: entry_level_def level_entry_def)
    then have "entry_level \<circ> level_entry = id" by auto
    with s from_snapshot_sides[OF s(1)] assms(2) show "snapshot n b = Inr s"
      by (cases s) (auto simp: snapshot_def Let_def from_snapshot_def)
  qed
qed

definition sample_updated :: local_order_book where
  "sample_updated = \<lparr>lb_venue = ''binance'', lb_symbol = ''BTCUSDT'', lb_bids = [(98, 5), (99, 4)],
     lb_asks = [(102, 3)], lb_sequence = 8, lb_source_timestamp_ms = Some 900,
     lb_received_timestamp_ms = 1001\<rparr>"

lemma sample_updated_reachable: "book_reachable sample_updated"
proof (rule book_reachable.updated[OF book_reachable.loaded])
  show "from_snapshot sample_book = Inr \<lparr>lb_venue = ''binance'', lb_symbol = ''BTCUSDT'',
     lb_bids = [(98, 5), (99, 2)], lb_asks = [(100, 1), (102, 3)], lb_sequence = 7,
     lb_source_timestamp_ms = None, lb_received_timestamp_ms = 1000\<rparr>"
    using sample_book_valid
    by (simp add: from_snapshot_def) (simp add: sample_book_def bt_collect_def level_entry_def)
  show "apply_updates \<lparr>lb_venue = ''binance'', lb_symbol = ''BTCUSDT'',
     lb_bids = [(98, 5), (99, 2)], lb_asks = [(100, 1), (102, 3)], lb_sequence = 7,
     lb_source_timestamp_ms = None, lb_received_timestamp_ms = 1000\<rparr>
     [\<lparr>lu_price = 99, lu_quantity = 4\<rparr>] [\<lparr>lu_price = 100, lu_quantity = 0\<rparr>] 8 (Some 900) 1001
     = (Inr (), sample_updated)"
    by (simp add: apply_updates_def validate_live_def sample_updated_def Let_def)
qed

lemma book_snapshots_witness: "\<exists>s. snapshot 1 sample_updated = Inr s \<and> ob_sequence s = 8"
  using book_snapshots[OF sample_updated_reachable, of 1] by (auto simp: sample_updated_def)

section \<open>The abstract book\<close>

text \<open>What a book promises: each side is a map from price to quantity, an update sets a price or
  clears it, and the book is live when both sides hold a price and every bid is below every ask.\<close>

type_synonym side_view = "decimal \<rightharpoonup> decimal"

definition side_update :: "level_update \<Rightarrow> side_view \<Rightarrow> side_view" where
  "side_update u m = m(lu_price u := (if lu_quantity u = 0 then None else Some (lu_quantity u)))"

definition live_view :: "side_view \<times> side_view \<Rightarrow> bool" where
  "live_view v \<longleftrightarrow> dom (fst v) \<noteq> {} \<and> dom (snd v) \<noteq> {}
     \<and> (\<forall>p \<in> dom (fst v). \<forall>q \<in> dom (snd v). p < q)"

definition spec_apply :: "side_view \<times> side_view \<Rightarrow> level_update list \<Rightarrow> level_update list
    \<Rightarrow> (side_view \<times> side_view) option" where
  "spec_apply v bids asks =
     (let v' = (fold side_update bids (fst v), fold side_update asks (snd v))
      in if (\<forall>u \<in> set (bids @ asks). update_ok u) \<and> live_view v' then Some v' else None)"

definition book_view :: "local_order_book \<Rightarrow> side_view \<times> side_view" where
  "book_view b = (map_of (lb_bids b), map_of (lb_asks b))"

definition accepted_view :: "unit result \<times> local_order_book \<Rightarrow> (side_view \<times> side_view) option" where
  "accepted_view r = (if is_ok (fst r) then Some (book_view (snd r)) else None)"

lemma fold_side_update:
  "fold (\<lambda>c m. m(fst c := snd c)) (map update_change us) m = fold side_update us m"
  by (induction us arbitrary: m) (simp_all add: side_update_def update_change_def)

lemma apply_side_view:
  assumes "side_inv es"
  shows "is_ok (fst (apply_side es us)) \<longleftrightarrow> (\<forall>u \<in> set us. update_ok u)"
    and "\<forall>u \<in> set us. update_ok u \<Longrightarrow> map_of (snd (apply_side es us)) = fold side_update us (map_of es)"
proof -
  have wf: "bt_wf es" using assms by (simp add: side_inv_def)
  show "is_ok (fst (apply_side es us)) \<longleftrightarrow> (\<forall>u \<in> set us. update_ok u)"
    by (simp add: apply_side_eq)
  assume "\<forall>u \<in> set us. update_ok u"
  then have [simp]: "takeWhile update_ok us = us" by (simp only: takeWhile_eq_all_conv)
  show "map_of (snd (apply_side es us)) = fold side_update us (map_of es)"
    using btree.look_changes[OF wf] by (simp add: apply_side_eq fold_side_update)
qed

lemma last_bid_best:
  assumes "bt_wf es" "es \<noteq> []"
  shows "fst (last es) \<in> fst ` set es \<and> (\<forall>k \<in> fst ` set es. k \<le> fst (last es))"
  using assms
proof (induction es)
  case (Cons e es)
  obtain k v where e: "e = (k, v)" by fastforce
  show ?case
  proof (cases "es = []")
    case False
    then have IH: "fst (last es) \<in> fst ` set es" "\<forall>k \<in> fst ` set es. k \<le> fst (last es)"
      using Cons by (simp_all add: e bt_wf_Cons)
    have "\<forall>k' \<in> fst ` set es. k < k'" using Cons.prems unfolding e bt_wf_Cons by blast
    then have "k < fst (last es)" using IH(1) by blast
    then show ?thesis using IH False by (simp add: e)
  qed (simp add: e)
qed simp

lemma first_ask_best:
  assumes "bt_wf es" "es \<noteq> []"
  shows "fst (hd es) \<in> fst ` set es \<and> (\<forall>k \<in> fst ` set es. fst (hd es) \<le> k)"
  using assms by (cases es) (force simp: bt_wf_Cons)+

lemma validate_live_view:
  assumes "book_inv b"
  shows "is_ok (validate_live b) \<longleftrightarrow> live_view (book_view b)"
proof (cases "lb_bids b = [] \<or> lb_asks b = []")
  case True
  then show ?thesis by (auto simp: validate_live_def live_view_def book_view_def)
next
  case False
  have wf: "bt_wf (lb_bids b)" "bt_wf (lb_asks b)" using assms by (simp_all add: book_inv_def side_inv_def)
  have "(\<forall>p \<in> fst ` set (lb_bids b). \<forall>q \<in> fst ` set (lb_asks b). p < q)
      \<longleftrightarrow> fst (last (lb_bids b)) < fst (hd (lb_asks b))"
    using last_bid_best[OF wf(1)] first_ask_best[OF wf(2)] False
    by (meson le_less_trans less_le_trans)
  then have "live_view (book_view b) \<longleftrightarrow> fst (last (lb_bids b)) < fst (hd (lb_asks b))"
    using False by (simp add: live_view_def book_view_def dom_map_of_conv_image_fst)
  then show ?thesis using False by (auto simp: validate_live_def)
qed

text \<open>C22. The updates of a book refine updates of two maps: a call is accepted exactly when every level
  is well formed and the updated maps are live, and the accepted book is then those maps.\<close>

theorem apply_updates_refines:
  assumes "book_inv b"
  shows "accepted_view (apply_updates b bids asks n t r) = spec_apply (book_view b) bids asks
    \<and> book_inv (snd (apply_updates b bids asks n t r))"
proof
  let ?ok = "\<lambda>us. \<forall>u \<in> set us. update_ok u"
  have inv: "side_inv (lb_bids b)" "side_inv (lb_asks b)" using assms by (simp_all add: book_inv_def)
  obtain rb mb ra ma where sides: "apply_side (lb_bids b) bids = (rb, mb)" "apply_side (lb_asks b) asks = (ra, ma)"
    by fastforce
  have ok: "is_ok rb \<longleftrightarrow> ?ok bids" "is_ok ra \<longleftrightarrow> ?ok asks"
    using apply_side_view(1)[OF inv(1), of bids] apply_side_view(1)[OF inv(2), of asks] sides by simp_all
  show "book_inv (snd (apply_updates b bids asks n t r))" using assms by (rule apply_updates_inv)
  show "accepted_view (apply_updates b bids asks n t r) = spec_apply (book_view b) bids asks"
  proof (cases "?ok bids \<and> ?ok asks")
    case False
    then have "\<not> is_ok (fst (apply_updates b bids asks n t r))" using ok sides
      by (cases rb; cases ra) (auto simp: apply_updates_def)
    moreover have "spec_apply (book_view b) bids asks = None"
      using False by (auto simp: spec_apply_def Let_def)
    ultimately show ?thesis by (simp add: accepted_view_def)
  next
    case True
    let ?b = "b\<lparr>lb_bids := mb, lb_asks := ma, lb_sequence := n, lb_source_timestamp_ms := t,
      lb_received_timestamp_ms := r\<rparr>"
    have eq: "apply_updates b bids asks n t r = (validate_live ?b, ?b)"
      using True ok sides by (cases rb; cases ra) (simp_all add: apply_updates_def Let_def)
    have "map_of mb = fold side_update bids (map_of (lb_bids b))"
      "map_of ma = fold side_update asks (map_of (lb_asks b))"
      using apply_side_view(2)[OF inv(1), of bids] apply_side_view(2)[OF inv(2), of asks] sides True by simp_all
    then have view: "book_view ?b = (fold side_update bids (fst (book_view b)), fold side_update asks (snd (book_view b)))"
      by (simp add: book_view_def)
    have "book_inv ?b" using apply_updates_inv[OF assms, of bids asks n t r] by (simp add: eq)
    then have "is_ok (validate_live ?b) \<longleftrightarrow> live_view (book_view ?b)" by (rule validate_live_view)
    then show ?thesis using True unfolding eq accepted_view_def spec_apply_def view[symmetric]
      by (auto simp: Let_def)
  qed
qed

lemma apply_updates_refines_witness:
  "accepted_view (apply_updates sample_updated [] [\<lparr>lu_price = 101, lu_quantity = 2\<rparr>] 9 None 1002)
     = spec_apply (book_view sample_updated) [] [\<lparr>lu_price = 101, lu_quantity = 2\<rparr>]"
  using apply_updates_refines[OF book_reachable_inv[OF sample_updated_reachable]] by blast

end
