(* ===== verification/Archive_Events.thy ===== *)
theory Archive_Events
  imports Account Local_Book
begin

text \<open>
  The archived events, \<open>crates/core/src/archive/event_types.rs\<close>: what a decision captures of a
  scan, its replay, the records of the archive and the account of dropped records. The content
  hash of a configuration and the version of the program are parameters. A pair of feeds, books,
  instruments or fees is a pair.
\<close>

section \<open>Data\<close>

record feed_version =
  fv_venue :: string
  fv_symbol :: string
  fv_state :: book_state
  fv_generation :: u64
  fv_reconnects :: u64
  fv_applied_updates :: u64
  fv_reason :: "string option"

record archived_fee_version =
  xf_venue :: string
  xf_symbol :: string
  xf_buy_taker_rate :: decimal
  xf_sell_taker_rate :: decimal
  xf_source :: string
  xf_loaded_at_ms :: "u64 option"
  xf_expires_at_ms :: "u64 option"
  xf_actual_account_rate :: bool

record decision_config =
  dc_symbol :: string
  dc_base_asset :: string
  dc_quote_asset :: string
  dc_quantity :: decimal
  dc_strategy :: strategy_config
  dc_freshness :: freshness_limits

record decision_event =
  dn_evaluated_at_ms :: u64
  dn_feeds :: "feed_version \<times> feed_version"
  dn_books :: "order_book_snapshot \<times> order_book_snapshot"
  dn_instruments :: "instrument_spec \<times> instrument_spec"
  dn_fees :: "archived_fee_version \<times> archived_fee_version"
  dn_config_version :: string
  dn_config :: decision_config
  dn_admission_rejections :: "string list"
  dn_report :: scan_report

record health_event =
  hv_observed_at_ms :: u64
  hv_feeds :: "feed_version \<times> feed_version"
  hv_skip_reason :: string

datatype archived_event = Decision decision_event | Health health_event

record archive_record =
  ar_schema_version :: "16 word"
  ar_event_id :: string
  ar_run_id :: string
  ar_ordinal :: u64
  ar_code_version :: string
  ar_recorded_at_ms :: u64
  ar_raw_retention_days :: "16 word"
  ar_event :: archived_event

record archive_gap =
  ag_schema_version :: "16 word"
  ag_run_id :: string
  ag_first_event_id :: string
  ag_last_event_id :: string
  ag_first_observed_at_ms :: u64
  ag_last_observed_at_ms :: u64
  ag_dropped_events :: u64
  ag_reason :: string
  ag_recorded_at_ms :: u64

record pending_gap =
  pg_first_event_id :: string
  pg_last_event_id :: string
  pg_first_observed_at_ms :: u64
  pg_last_observed_at_ms :: u64
  pg_dropped_events :: u64

definition schema_version :: "16 word" where
  "schema_version = 1"

section \<open>Operations\<close>

definition feed_version_of :: "book_feed_status \<Rightarrow> feed_version" where
  "feed_version_of s = \<lparr>fv_venue = bf_venue s, fv_symbol = bf_symbol s, fv_state = bf_state s,
     fv_generation = bf_generation s, fv_reconnects = bf_reconnects s,
     fv_applied_updates = bf_applied_updates s, fv_reason = bf_reason s\<rparr>"

definition archived_fee_version_of :: "account_data \<Rightarrow> archived_fee_version" where
  "archived_fee_version_of a = \<lparr>xf_venue = ad_venue a, xf_symbol = fs_symbol (ad_fee a),
     xf_buy_taker_rate = fs_buy_taker_rate (ad_fee a), xf_sell_taker_rate = fs_sell_taker_rate (ad_fee a),
     xf_source = fs_source (ad_fee a), xf_loaded_at_ms = fs_loaded_at_ms (ad_fee a),
     xf_expires_at_ms = fs_expires_at_ms (ad_fee a),
     xf_actual_account_rate = fs_actual_account_rate (ad_fee a)\<rparr>"

definition from_pair :: "pair_config \<Rightarrow> observer_config \<Rightarrow> decision_config" where
  "from_pair pair config = \<lparr>dc_symbol = pc_symbol pair, dc_base_asset = pc_base_asset pair,
     dc_quote_asset = pc_quote_asset pair, dc_quantity = pc_quantity pair,
     dc_strategy = oc_strategy config,
     dc_freshness = \<lparr>fl_max_snapshot_age_ms = oc_max_snapshot_age_ms config,
       fl_max_pair_skew_ms = oc_max_pair_skew_ms config\<rparr>\<rparr>"

definition capture :: "(decision_config \<Rightarrow> string) \<Rightarrow> pair_config \<Rightarrow> observer_config
    \<Rightarrow> book_feed_status \<times> book_feed_status \<Rightarrow> instrument_spec \<times> instrument_spec
    \<Rightarrow> account_data \<times> account_data \<Rightarrow> u64 \<Rightarrow> string list \<Rightarrow> scan_report \<Rightarrow> decision_event result" where
  "capture version pair config statuses instruments accounts evaluated_at_ms rejections report =
     (case bf_snapshot (fst statuses) of
        None \<Rightarrow> Inl (Bail ''first VALID feed omitted its snapshot'')
      | Some first_book \<Rightarrow>
        (case bf_snapshot (snd statuses) of
           None \<Rightarrow> Inl (Bail ''second VALID feed omitted its snapshot'')
         | Some second_book \<Rightarrow> Inr
           \<lparr>dn_evaluated_at_ms = evaluated_at_ms,
            dn_feeds = map_prod feed_version_of feed_version_of statuses,
            dn_books = (first_book, second_book), dn_instruments = instruments,
            dn_fees = map_prod archived_fee_version_of archived_fee_version_of accounts,
            dn_config_version = version (from_pair pair config), dn_config = from_pair pair config,
            dn_admission_rejections = rejections, dn_report = report\<rparr>))"

definition archived_rates :: "archived_fee_version \<Rightarrow> venue_fee_rates" where
  "archived_rates f = \<lparr>fr_buy_taker_rate = xf_buy_taker_rate f, fr_sell_taker_rate = xf_sell_taker_rate f\<rparr>"

definition replay_input :: "decision_event \<Rightarrow> scan_input" where
  "replay_input e = \<lparr>si_first_book = fst (dn_books e), si_second_book = snd (dn_books e),
     si_first_instrument = fst (dn_instruments e), si_second_instrument = snd (dn_instruments e),
     si_quantity = dc_quantity (dn_config e),
     si_first_fees = archived_rates (fst (dn_fees e)), si_second_fees = archived_rates (snd (dn_fees e)),
     si_strategy = dc_strategy (dn_config e), si_now_ms = dn_evaluated_at_ms e,
     si_freshness = dc_freshness (dn_config e),
     si_admission_rejections = map OtherReason (dn_admission_rejections e)\<rparr>"

definition feed_matches_book :: "feed_version \<Rightarrow> order_book_snapshot \<Rightarrow> bool" where
  "feed_matches_book f b \<longleftrightarrow> fv_venue f = ob_venue b \<and> fv_symbol f = ob_symbol b"

definition replay :: "(decision_config \<Rightarrow> string) \<Rightarrow> (decimal \<Rightarrow> decimal \<Rightarrow> decimal) \<Rightarrow> decision_event
    \<Rightarrow> scan_report result" where
  "replay version dv e =
     (if version (dn_config e) \<noteq> dn_config_version e
      then Inl (Bail ''decision config content does not match config_version'')
      else if fv_state (fst (dn_feeds e)) \<noteq> Valid \<or> fv_state (snd (dn_feeds e)) \<noteq> Valid
      then Inl (Bail ''decision record contains a non-VALID feed'')
      else if \<not> feed_matches_book (fst (dn_feeds e)) (fst (dn_books e))
        \<or> \<not> feed_matches_book (snd (dn_feeds e)) (snd (dn_books e))
      then Inl (Bail ''decision feed identity does not match its order book'')
      else scan_pair dv (replay_input e))"

definition event_observed_at_ms :: "archived_event \<Rightarrow> u64" where
  "event_observed_at_ms v = (case v of Decision e \<Rightarrow> dn_evaluated_at_ms e | Health e \<Rightarrow> hv_observed_at_ms e)"

definition event_feeds :: "archived_event \<Rightarrow> feed_version \<times> feed_version" where
  "event_feeds v = (case v of Decision e \<Rightarrow> dn_feeds e | Health e \<Rightarrow> hv_feeds e)"

definition event_id_of :: "string \<Rightarrow> u64 \<Rightarrow> string" where
  "event_id_of run_id ordinal = run_id @ '':'' @ show_nat (unat ordinal)"

text \<open>\<open>ArchiveRecord::new\<close>; the clock of the machine gives \<open>now_ms\<close>.\<close>

definition archive_record_new :: "string \<Rightarrow> u64 \<Rightarrow> string \<Rightarrow> u64 \<Rightarrow> 16 word \<Rightarrow> archived_event
    \<Rightarrow> archive_record" where
  "archive_record_new code_version now_ms run_id ordinal raw_retention_days event =
     \<lparr>ar_schema_version = schema_version, ar_event_id = event_id_of run_id ordinal,
      ar_run_id = run_id, ar_ordinal = ordinal, ar_code_version = code_version,
      ar_recorded_at_ms = now_ms, ar_raw_retention_days = raw_retention_days, ar_event = event\<rparr>"

definition pending_gap_from_record :: "archive_record \<Rightarrow> pending_gap" where
  "pending_gap_from_record r =
     \<lparr>pg_first_event_id = ar_event_id r, pg_last_event_id = ar_event_id r,
      pg_first_observed_at_ms = event_observed_at_ms (ar_event r),
      pg_last_observed_at_ms = event_observed_at_ms (ar_event r), pg_dropped_events = 1\<rparr>"

text \<open>\<open>dropped_events += 1\<close> of a \<open>u64\<close> panics at the largest value, which no run reaches: the
  count never exceeds the number of submitted records, which have distinct \<open>u64\<close> ordinals.\<close>

definition pending_gap_extend :: "pending_gap \<Rightarrow> archive_record \<Rightarrow> pending_gap" where
  "pending_gap_extend g r = g\<lparr>pg_last_event_id := ar_event_id r,
     pg_last_observed_at_ms := event_observed_at_ms (ar_event r),
     pg_dropped_events := pg_dropped_events g + 1\<rparr>"

definition pending_gap_finish :: "u64 \<Rightarrow> pending_gap \<Rightarrow> string \<Rightarrow> string \<Rightarrow> archive_gap" where
  "pending_gap_finish now_ms g run_id reason =
     \<lparr>ag_schema_version = schema_version, ag_run_id = run_id,
      ag_first_event_id = pg_first_event_id g, ag_last_event_id = pg_last_event_id g,
      ag_first_observed_at_ms = pg_first_observed_at_ms g,
      ag_last_observed_at_ms = pg_last_observed_at_ms g,
      ag_dropped_events = pg_dropped_events g, ag_reason = reason, ag_recorded_at_ms = now_ms\<rparr>"

section \<open>Replaying a captured decision\<close>

text \<open>The input of the scan a decision was captured from: the current books of the two feeds and
  the fees of the two accounts.\<close>

definition account_rates :: "account_data \<Rightarrow> venue_fee_rates" where
  "account_rates a = \<lparr>fr_buy_taker_rate = fs_buy_taker_rate (ad_fee a),
     fr_sell_taker_rate = fs_sell_taker_rate (ad_fee a)\<rparr>"

lemma archived_rates_of [simp]: "archived_rates (archived_fee_version_of a) = account_rates a"
  by (simp add: archived_rates_def archived_fee_version_of_def account_rates_def)

lemma feed_version_of_simps [simp]:
  "fv_state (feed_version_of s) = bf_state s" "fv_venue (feed_version_of s) = bf_venue s"
  "fv_symbol (feed_version_of s) = bf_symbol s"
  by (simp_all add: feed_version_of_def)

lemma captureE:
  assumes "capture version pair config statuses instruments accounts t rejections report = Inr e"
  obtains a b where "bf_snapshot (fst statuses) = Some a" "bf_snapshot (snd statuses) = Some b"
    "dn_books e = (a, b)" "dn_report e = report" "dn_config e = from_pair pair config"
    "dn_config_version e = version (from_pair pair config)" "dn_evaluated_at_ms e = t"
    "dn_feeds e = map_prod feed_version_of feed_version_of statuses"
    "dn_instruments e = instruments" "dn_admission_rejections e = rejections"
    "dn_fees e = map_prod archived_fee_version_of archived_fee_version_of accounts"
  using assms by (auto simp: capture_def split: option.splits)

end
