(* ===== verification/Observer.thy ===== *)
theory Observer
  imports Archive_Events
begin

text \<open>
  The observation of the configured pairs, \<open>crates/core/src/observer.rs\<close>: the scan of one pair
  from the published statuses of its two feeds, one tick of the loop over all pairs, and the
  single observation. The clock, the venue clients (instruments, feeds) and the account loading
  are parameters; the HTTP client, the timers and the shutdown signal are not modelled.
\<close>

section \<open>Data\<close>

record pair_run =
  pr_pair :: pair_config
  pr_first :: book_feed_status
  pr_second :: book_feed_status
  pr_first_instrument :: instrument_spec
  pr_second_instrument :: instrument_spec
  pr_accounts :: "account_data \<times> account_data"

record observation_run =
  or_report :: scan_report
  or_accounts :: "account_data \<times> account_data"
  or_feeds :: "book_feed_status \<times> book_feed_status"
  or_archived :: bool

section \<open>Operations\<close>

definition state_name :: "book_state \<Rightarrow> string" where
  "state_name s = (case s of Syncing \<Rightarrow> ''SYNCING'' | Valid \<Rightarrow> ''VALID'' | Stale \<Rightarrow> ''STALE''
     | Invalid \<Rightarrow> ''INVALID'')"

definition both_valid :: "book_feed_status \<Rightarrow> book_feed_status \<Rightarrow> bool" where
  "both_valid a b \<longleftrightarrow> bf_state a = Valid \<and> bf_state b = Valid"

definition account_rejections :: "account_data \<times> account_data \<Rightarrow> u64 \<Rightarrow> string list" where
  "account_rejections accounts now_ms =
     admission_rejections (fst accounts) now_ms @ admission_rejections (snd accounts) now_ms"

definition scan_input_of :: "pair_run \<Rightarrow> observer_config \<Rightarrow> order_book_snapshot \<Rightarrow> order_book_snapshot
    \<Rightarrow> u64 \<Rightarrow> scan_input" where
  "scan_input_of run config first_book second_book now_ms =
     \<lparr>si_first_book = first_book, si_second_book = second_book,
      si_first_instrument = pr_first_instrument run, si_second_instrument = pr_second_instrument run,
      si_quantity = pc_quantity (pr_pair run),
      si_first_fees = account_rates (fst (pr_accounts run)),
      si_second_fees = account_rates (snd (pr_accounts run)),
      si_strategy = oc_strategy config, si_now_ms = now_ms,
      si_freshness = \<lparr>fl_max_snapshot_age_ms = oc_max_snapshot_age_ms config,
        fl_max_pair_skew_ms = oc_max_pair_skew_ms config\<rparr>,
      si_admission_rejections = map OtherReason (account_rejections (pr_accounts run) now_ms)\<rparr>"

definition scan_current :: "(decision_config \<Rightarrow> string) \<Rightarrow> (decimal \<Rightarrow> decimal \<Rightarrow> decimal) \<Rightarrow> observer_config
    \<Rightarrow> u64 \<Rightarrow> pair_run \<Rightarrow> decision_event result" where
  "scan_current version dv config now_ms run =
     (if \<not> both_valid (pr_first run) (pr_second run) then Inl (Bail ''live books unavailable'')
      else case bf_snapshot (pr_first run) of
        None \<Rightarrow> Inl (Bail ''first VALID feed omitted its snapshot'')
      | Some first_book \<Rightarrow>
        (case bf_snapshot (pr_second run) of
           None \<Rightarrow> Inl (Bail ''second VALID feed omitted its snapshot'')
         | Some second_book \<Rightarrow>
             then_do (scan_pair dv (scan_input_of run config first_book second_book now_ms)) (\<lambda>report.
             capture version (pr_pair run) config (pr_first run, pr_second run)
               (pr_first_instrument run, pr_second_instrument run) (pr_accounts run) now_ms
               (account_rejections (pr_accounts run) now_ms) report)))"

definition health_event_of :: "u64 \<Rightarrow> pair_run \<Rightarrow> health_event" where
  "health_event_of observed_at_ms run =
     \<lparr>hv_observed_at_ms = observed_at_ms,
      hv_feeds = (feed_version_of (pr_first run), feed_version_of (pr_second run)),
      hv_skip_reason = ''live books unavailable: '' @ bf_venue (pr_first run) @ ''='' @
        state_name (bf_state (pr_first run)) @ '' '' @ bf_venue (pr_second run) @ ''='' @
        state_name (bf_state (pr_second run))\<rparr>"

definition observe_run :: "(decision_config \<Rightarrow> string) \<Rightarrow> (decimal \<Rightarrow> decimal \<Rightarrow> decimal) \<Rightarrow> observer_config
    \<Rightarrow> u64 \<Rightarrow> pair_run \<Rightarrow> archived_event result" where
  "observe_run version dv config now_ms run =
     (if both_valid (pr_first run) (pr_second run)
      then then_do (scan_current version dv config now_ms run) (\<lambda>e. Inr (Decision e))
      else Inr (Health (health_event_of now_ms run)))"

text \<open>One tick of the scan timer: the pairs in order, each at its own reading of the clock. An error
  ends the loop after the events of the earlier pairs were submitted.\<close>

fun scan_tick :: "(decision_config \<Rightarrow> string) \<Rightarrow> (decimal \<Rightarrow> decimal \<Rightarrow> decimal) \<Rightarrow> observer_config
    \<Rightarrow> (nat \<Rightarrow> u64) \<Rightarrow> nat \<Rightarrow> pair_run list \<Rightarrow> archived_event list \<times> unit result" where
  "scan_tick version dv config clock n [] = ([], Inr ())"
| "scan_tick version dv config clock n (run # runs) =
     (case observe_run version dv config (clock n) run of
        Inl e \<Rightarrow> ([], Inl e)
      | Inr event \<Rightarrow>
          let (events, r) = scan_tick version dv config clock (Suc n) runs in (event # events, r))"

text \<open>The account timer: every pair loads its accounts again.\<close>

definition account_tick :: "(string \<Rightarrow> account_data \<times> account_data) \<Rightarrow> pair_run list \<Rightarrow> pair_run list" where
  "account_tick load runs = map (\<lambda>run. run\<lparr>pr_accounts := load (pc_symbol (pr_pair run))\<rparr>) runs"

text \<open>The start of a pair: its accounts, the validated instruments and the two feeds.\<close>

definition load_pair_context :: "(string \<Rightarrow> account_data \<times> account_data) \<Rightarrow> (string \<Rightarrow> instrument_spec result)
    \<Rightarrow> (string \<Rightarrow> instrument_spec result) \<Rightarrow> pair_config
    \<Rightarrow> ((account_data \<times> account_data) \<times> instrument_spec \<times> instrument_spec) result" where
  "load_pair_context load first_spec second_spec pair =
     then_do (first_spec (pc_symbol pair)) (\<lambda>a.
     then_do (second_spec (pc_symbol pair)) (\<lambda>b.
     then_do (Instrument.validate_pair a b (pc_symbol pair) (pc_base_asset pair) (pc_quote_asset pair) (pc_quantity pair))
       (\<lambda>_. Inr (load (pc_symbol pair), a, b))))"

definition pair_run_new :: "(string \<Rightarrow> account_data \<times> account_data) \<Rightarrow> (string \<Rightarrow> instrument_spec result)
    \<Rightarrow> (string \<Rightarrow> instrument_spec result) \<Rightarrow> (string \<Rightarrow> (book_feed_status \<times> book_feed_status) result)
    \<Rightarrow> pair_config \<Rightarrow> pair_run result" where
  "pair_run_new load first_spec second_spec subscribe pair =
     then_do (load_pair_context load first_spec second_spec pair) (\<lambda>(accounts, a, b).
     then_do (subscribe (pc_symbol pair)) (\<lambda>(f, g).
     Inr \<lparr>pr_pair = pair, pr_first = f, pr_second = g, pr_first_instrument = a,
          pr_second_instrument = b, pr_accounts = accounts\<rparr>))"

text \<open>The single observation: every pair is started and scanned before anything is written.\<close>

definition observe_pair :: "(decision_config \<Rightarrow> string) \<Rightarrow> (decimal \<Rightarrow> decimal \<Rightarrow> decimal) \<Rightarrow> observer_config
    \<Rightarrow> (string \<Rightarrow> account_data \<times> account_data) \<Rightarrow> (string \<Rightarrow> instrument_spec result)
    \<Rightarrow> (string \<Rightarrow> instrument_spec result) \<Rightarrow> (string \<Rightarrow> (book_feed_status \<times> book_feed_status) result)
    \<Rightarrow> u64 \<times> pair_config \<Rightarrow> (observation_run \<times> decision_event) result" where
  "observe_pair version dv config load first_spec second_spec subscribe p =
     then_do (pair_run_new load first_spec second_spec subscribe (snd p)) (\<lambda>run.
     then_do (scan_current version dv config (fst p) run) (\<lambda>e.
     Inr (\<lparr>or_report = dn_report e, or_accounts = pr_accounts run,
           or_feeds = (pr_first run, pr_second run), or_archived = False\<rparr>, e)))"

section \<open>What a decision of the observer is\<close>

lemma scan_currentE:
  assumes "scan_current version dv config now run = Inr e"
  obtains a b report where "bf_state (pr_first run) = Valid" "bf_state (pr_second run) = Valid"
    "bf_snapshot (pr_first run) = Some a" "bf_snapshot (pr_second run) = Some b"
    "scan_pair dv (scan_input_of run config a b now) = Inr report"
    "capture version (pr_pair run) config (pr_first run, pr_second run)
       (pr_first_instrument run, pr_second_instrument run) (pr_accounts run) now
       (account_rejections (pr_accounts run) now) report = Inr e"
  using assms by (auto simp: scan_current_def both_valid_def split: if_splits option.splits)

text \<open>A feed whose snapshot, if it has one, is of its own venue and symbol.\<close>

definition feed_identity :: "book_feed_status \<Rightarrow> bool" where
  "feed_identity s \<longleftrightarrow> (\<forall>b \<in> set_option (bf_snapshot s). ob_venue b = bf_venue s \<and> ob_symbol b = bf_symbol s)"

lemma scan_current_replays:
  assumes "scan_current version dv config now run = Inr e"
    and "feed_identity (pr_first run)" "feed_identity (pr_second run)"
  shows "replay version dv e = Inr (dn_report e)"
proof -
  from assms(1) obtain a b report where s: "bf_state (pr_first run) = Valid" "bf_state (pr_second run) = Valid"
    "bf_snapshot (pr_first run) = Some a" "bf_snapshot (pr_second run) = Some b"
    and scan: "scan_pair dv (scan_input_of run config a b now) = Inr report"
    and cap: "capture version (pr_pair run) config (pr_first run, pr_second run)
       (pr_first_instrument run, pr_second_instrument run) (pr_accounts run) now
       (account_rejections (pr_accounts run) now) report = Inr e" by (rule scan_currentE)
  from cap s have e: "dn_books e = (a, b)" "dn_report e = report"
    "dn_config e = from_pair (pr_pair run) config"
    "dn_config_version e = version (from_pair (pr_pair run) config)" "dn_evaluated_at_ms e = now"
    "dn_feeds e = (feed_version_of (pr_first run), feed_version_of (pr_second run))"
    "dn_instruments e = (pr_first_instrument run, pr_second_instrument run)"
    "dn_admission_rejections e = account_rejections (pr_accounts run) now"
    "dn_fees e = map_prod archived_fee_version_of archived_fee_version_of (pr_accounts run)"
    by (auto elim!: captureE)
  have "replay_input e = scan_input_of run config a b now"
    by (cases "pr_accounts run") (simp add: replay_input_def scan_input_of_def e from_pair_def)
  moreover have "feed_matches_book (feed_version_of (pr_first run)) a"
    "feed_matches_book (feed_version_of (pr_second run)) b"
    using assms(2,3) s by (auto simp: feed_identity_def feed_matches_book_def)
  ultimately show ?thesis using scan s by (simp add: replay_def e)
qed

section \<open>Ticks\<close>

lemma observe_run_cases:
  "observe_run version dv config now run = Inr ev \<longleftrightarrow>
     (if both_valid (pr_first run) (pr_second run)
      then \<exists>e. scan_current version dv config now run = Inr e \<and> ev = Decision e
      else ev = Health (health_event_of now run))"
  by (auto simp: observe_run_def)

text \<open>The events of a tick are those of the pairs before the first failing one, in order.\<close>

lemma scan_tick_events:
  assumes "scan_tick version dv config clock n runs = (events, r)"
  shows "length events \<le> length runs
    \<and> (\<forall>i < length events. observe_run version dv config (clock (n + i)) (runs ! i) = Inr (events ! i))
    \<and> (r = Inr () \<longleftrightarrow> length events = length runs)
    \<and> (\<forall>e. r = Inl e \<longrightarrow> length events < length runs
        \<and> observe_run version dv config (clock (n + length events)) (runs ! length events) = Inl e)"
  using assms
proof (induction runs arbitrary: n events r)
  case (Cons run runs)
  show ?case
  proof (cases "observe_run version dv config (clock n) run")
    case (Inl e)
    then show ?thesis using Cons.prems by auto
  next
    case (Inr ev)
    obtain es r' where tail: "scan_tick version dv config clock (Suc n) runs = (es, r')" by fastforce
    then have ev: "events = ev # es" "r = r'" using Cons.prems Inr by auto
    show ?thesis using Cons.IH[OF tail] Inr unfolding ev
      by (auto simp: nth_Cons split: nat.splits)
  qed
qed auto

text \<open>A tick of the observer submits one event per pair in the order of the pairs: a decision
  exactly when both feeds are valid, and otherwise a health record with the two states. An error of one
  pair ends the tick: that pair and every later one get no event, and the error can only come from the
  scan of a pair with two valid feeds.\<close>

theorem scan_tick_outcome:
  assumes "scan_tick version dv config clock n runs = (events, r)"
  shows "(\<forall>i < length events. (case events ! i of
        Decision e \<Rightarrow> both_valid (pr_first (runs ! i)) (pr_second (runs ! i))
          \<and> scan_current version dv config (clock (n + i)) (runs ! i) = Inr e
      | Health h \<Rightarrow> \<not> both_valid (pr_first (runs ! i)) (pr_second (runs ! i))
          \<and> h = health_event_of (clock (n + i)) (runs ! i)))
    \<and> (r = Inr () \<longleftrightarrow> length events = length runs)
    \<and> (\<forall>e. r = Inl e \<longrightarrow> length events < length runs
        \<and> both_valid (pr_first (runs ! length events)) (pr_second (runs ! length events))
        \<and> scan_current version dv config (clock (n + length events)) (runs ! length events) = Inl e)"
proof -
  note t = scan_tick_events[OF assms]
  have "\<forall>i < length events. (case events ! i of
        Decision e \<Rightarrow> both_valid (pr_first (runs ! i)) (pr_second (runs ! i))
          \<and> scan_current version dv config (clock (n + i)) (runs ! i) = Inr e
      | Health h \<Rightarrow> \<not> both_valid (pr_first (runs ! i)) (pr_second (runs ! i))
          \<and> h = health_event_of (clock (n + i)) (runs ! i))"
    using t by (auto simp: observe_run_cases split: if_splits archived_event.splits)
  moreover have "r = Inl e \<Longrightarrow> length events < length runs
        \<and> both_valid (pr_first (runs ! length events)) (pr_second (runs ! length events))
        \<and> scan_current version dv config (clock (n + length events)) (runs ! length events) = Inl e" for e
    using t by (auto simp: observe_run_def then_do_eq_Inl split: if_splits)
  ultimately show ?thesis using t by blast
qed

lemma tick_decision_replays:
  assumes "\<forall>run \<in> set runs. feed_identity (pr_first run) \<and> feed_identity (pr_second run)"
    and "Decision e \<in> set (fst (scan_tick version dv config clock n runs))"
  shows "replay version dv e = Inr (dn_report e)"
proof -
  obtain events r where t: "scan_tick version dv config clock n runs = (events, r)" by fastforce
  with assms(2) obtain i where i: "i < length events" "events ! i = Decision e"
    by (auto simp: in_set_conv_nth)
  then have "observe_run version dv config (clock (n + i)) (runs ! i) = Inr (Decision e)" "i < length runs"
    using scan_tick_events[OF t] by auto
  then have "scan_current version dv config (clock (n + i)) (runs ! i) = Inr e" "runs ! i \<in> set runs"
    by (auto simp: observe_run_cases split: if_splits)
  then show ?thesis using scan_current_replays assms(1) by blast
qed

text \<open>Every decision that a tick submits replays to its own report, as long as the snapshots of the
  feeds are of the feeds' own venue and symbol: the recorded books, fees, instruments, limits and clock
  determine the report.\<close>

theorem decisions_replay:
  assumes "\<forall>run \<in> set runs. feed_identity (pr_first run) \<and> feed_identity (pr_second run)"
    and "Decision e \<in> set (fst (scan_tick version dv config clock n runs))"
  shows "replay version dv e = Inr (dn_report e)"
  using assms by (rule tick_decision_replays)

text \<open>C4. A direction that a decision accepts was scanned with both accounts verified: eligibility
  confirmed, a read-only key without withdrawal permission, the actual fee rates not expired at the scan,
  and both books within the age limit and the skew limit.\<close>

theorem accepted_needs_verified_accounts:
  assumes "scan_current version dv config now run = Inr e"
    and "pr_accounts run = load_account_data err bsrc ysrc symbol (oc_binance config) (oc_bybit config) age"
    and "x \<in> set (sr_directions (dn_report e))" "op_accepted x"
  shows "account_verified (oc_binance config) now (fst (pr_accounts run))
    \<and> account_verified (oc_bybit config) now (snd (pr_accounts run))
    \<and> pm_scopes (ad_permission (fst (pr_accounts run))) = []
    \<and> ''Wallet:Withdraw'' \<notin> set (pm_scopes (ad_permission (snd (pr_accounts run))))
    \<and> saturating_sub now (ob_received_timestamp_ms (fst (dn_books e))) \<le> oc_max_snapshot_age_ms config
    \<and> saturating_sub now (ob_received_timestamp_ms (snd (dn_books e))) \<le> oc_max_snapshot_age_ms config
    \<and> sr_pair_received_skew_ms (dn_report e) \<le> oc_max_pair_skew_ms config"
proof -
  from assms(1) obtain a b report where
    scan: "scan_pair dv (scan_input_of run config a b now) = Inr report"
    and cap: "capture version (pr_pair run) config (pr_first run, pr_second run)
       (pr_first_instrument run, pr_second_instrument run) (pr_accounts run) now
       (account_rejections (pr_accounts run) now) report = Inr e"
    and snaps: "bf_snapshot (pr_first run) = Some a" "bf_snapshot (pr_second run) = Some b"
    by (rule scan_currentE)
  from cap snaps have e: "dn_report e = report" "dn_books e = (a, b)" by (auto elim!: captureE)
  let ?i = "scan_input_of run config a b now"
  from scan assms(3,4) have sh: "shared_rejections ?i = []"
    unfolding e by (auto elim!: scan_pairE evaluate_directionE)
  then have rej: "account_rejections (pr_accounts run) now = []"
    by (simp add: shared_rejections_def scan_input_of_def)
  obtain p q where pq: "pr_accounts run = (p, q)" by fastforce
  have "sr_pair_received_skew_ms report = abs_diff (ob_received_timestamp_ms a) (ob_received_timestamp_ms b)"
    using scan by (auto simp: scan_pair_def scan_input_of_def split: if_splits)
  moreover have "saturating_sub now (ob_received_timestamp_ms a) \<le> oc_max_snapshot_age_ms config
    \<and> saturating_sub now (ob_received_timestamp_ms b) \<le> oc_max_snapshot_age_ms config
    \<and> abs_diff (ob_received_timestamp_ms a) (ob_received_timestamp_ms b) \<le> oc_max_pair_skew_ms config"
    using sh by (simp add: shared_rejections_def freshness_rejections_def scan_input_of_def not_less split: if_splits)
  ultimately show ?thesis
    using load_account_data_admitted[OF assms(2)[symmetric, unfolded pq]] rej
    by (simp add: pq e account_rejections_def)
qed

section \<open>Samples\<close>

definition sample_venue :: venue_config where
  "sample_venue = \<lparr>vc_base_url = ''u'', vc_websocket_url = ''w'', vc_fallback_taker_fee_rate = 1/1000,
     vc_api_key_env = ''K'', vc_api_secret_env = ''S'', vc_region_eligible_confirmed = True,
     vc_account_eligible_confirmed = True\<rparr>"

definition sample_observer :: observer_config where
  "sample_observer = default_config\<lparr>oc_binance := sample_venue, oc_bybit := sample_venue,
     oc_strategy := sample_strategy\<rparr>"

definition sample_binance_source :: "(binance_permissions, binance_commission) account_source" where
  "sample_binance_source = \<lparr>as_env = (\<lambda>_. Some ''x''), as_permission_at_ms = 900,
     as_permission = Inr \<lparr>bp_ip_restrict = True, bp_enable_reading = True,
       bp_enable_spot_and_margin_trading = False, bp_enable_withdrawals = False,
       bp_enable_internal_transfer = False, bp_permits_universal_transfer = False,
       bp_enable_futures = False, bp_enable_margin = False, bp_enable_vanilla_options = False,
       bp_enable_portfolio_margin_trading = False\<rparr>,
     as_fee_at_ms = 900,
     as_fee = Inr \<lparr>bc_symbol = ''BTCUSDT'',
       bc_standard = \<lparr>rt_taker = 1/1000, rt_buyer = 0, rt_seller = 0\<rparr>,
       bc_special = \<lparr>rt_taker = 0, rt_buyer = 0, rt_seller = 0\<rparr>,
       bc_tax = \<lparr>rt_taker = 0, rt_buyer = 0, rt_seller = 0\<rparr>\<rparr>\<rparr>"

definition sample_bybit_source :: "(bybit_permissions bybit_envelope, bybit_fee_row list bybit_envelope) account_source" where
  "sample_bybit_source = \<lparr>as_env = (\<lambda>_. Some ''x''), as_permission_at_ms = 900,
     as_permission = Inr \<lparr>ye_ret_code = 0,
       ye_result = Some \<lparr>yp_read_only = 1, yp_permissions = [], yp_ips = [''1'']\<rparr>\<rparr>,
     as_fee_at_ms = 900,
     as_fee = Inr \<lparr>ye_ret_code = 0,
       ye_result = Some [\<lparr>yf_symbol = ''BTCUSDT'', yf_taker_fee_rate = 1/1000\<rparr>]\<rparr>\<rparr>"

definition sample_accounts :: "account_data \<times> account_data" where
  "sample_accounts = load_account_data (\<lambda>_. []) sample_binance_source sample_bybit_source ''BTCUSDT''
     (oc_binance sample_observer) (oc_bybit sample_observer) 1000"

definition sample_feed :: "order_book_snapshot \<Rightarrow> book_feed_status" where
  "sample_feed b = \<lparr>bf_venue = ob_venue b, bf_symbol = ob_symbol b, bf_state = Valid, bf_generation = 1,
     bf_reconnects = 0, bf_applied_updates = 1, bf_snapshot = Some b, bf_reason = None\<rparr>"

definition sample_run :: pair_run where
  "sample_run = \<lparr>pr_pair = \<lparr>pc_symbol = ''BTCUSDT'', pc_base_asset = ''BTC'',
       pc_quote_asset = ''USDT'', pc_quantity = 1\<rparr>,
     pr_first = sample_feed sample_book, pr_second = sample_feed sample_second_book,
     pr_first_instrument = sample_spec ''binance'', pr_second_instrument = sample_spec ''bybit'',
     pr_accounts = sample_accounts\<rparr>"

lemma sample_rates:
  "account_rates (fst sample_accounts) = \<lparr>fr_buy_taker_rate = 1/1000, fr_sell_taker_rate = 1/1000\<rparr>"
  "account_rates (snd sample_accounts) = \<lparr>fr_buy_taker_rate = 1/1000, fr_sell_taker_rate = 1/1000\<rparr>"
  "account_rejections sample_accounts 1200 = []"
  by (simp_all add: sample_accounts_def load_account_data_def load_binance_def load_bybit_def
      sample_binance_source_def sample_bybit_source_def credentials_from_environment_def
      sample_observer_def sample_venue_def binance_fee_of_def bybit_fee_of_def bybit_result_def
      effective_binance_rate_def validate_fee_rate_def account_rates_def account_rejections_def
      admission_rejections_def eligibility_rejections_def capability_card_def bybit_rejections_def
      binance_permissions_of_def binance_scopes_def bybit_permissions_of_def saturating_add_def Let_def)

lemma sample_scan_input: "scan_input_of sample_run sample_observer sample_book sample_second_book 1200 = sample_input"
  by (simp add: scan_input_of_def sample_input_def sample_run_def sample_rates sample_observer_def
      default_config_def)

lemma sample_scan_current:
  "\<exists>e x. scan_current (\<lambda>_. ''v'') exact_div sample_observer 1200 sample_run = Inr e
     \<and> x \<in> set (sr_directions (dn_report e)) \<and> op_accepted x"
proof -
  obtain x y where xy: "evaluate_direction exact_div (first_to_second sample_input) 1 sample_strategy [] = Inr x"
    "op_accepted x" "evaluate_direction exact_div (second_to_first sample_input) 1 sample_strategy [] = Inr y"
    using sample_forward sample_backward by blast
  have "\<exists>r. scan_pair exact_div sample_input = Inr r \<and> x \<in> set (sr_directions r)"
    using xy sample_shared sample_book_valid sample_second_book_valid
    by (simp add: scan_pair_def)
      (simp add: sample_input_def sample_spec_def sample_book_def sample_second_book_def)
  then obtain r where r: "scan_pair exact_div sample_input = Inr r" "x \<in> set (sr_directions r)" by blast
  have "bf_snapshot (pr_first sample_run) = Some sample_book"
    "bf_snapshot (pr_second sample_run) = Some sample_second_book"
    "both_valid (pr_first sample_run) (pr_second sample_run)"
    by (simp_all add: sample_run_def sample_feed_def both_valid_def)
  then show ?thesis using r xy(2)
    by (simp add: scan_current_def sample_scan_input capture_def) blast
qed

lemma sample_feed_identity: "feed_identity (sample_feed b)"
  by (simp add: feed_identity_def sample_feed_def)

lemma sample_tick:
  "\<exists>e. scan_tick (\<lambda>_. ''v'') exact_div sample_observer (\<lambda>_. 1200) 0 [sample_run] = ([Decision e], Inr ())"
proof -
  obtain e where "scan_current (\<lambda>_. ''v'') exact_div sample_observer 1200 sample_run = Inr e"
    using sample_scan_current by blast
  then show ?thesis by (simp add: observe_run_def) (simp add: sample_run_def sample_feed_def both_valid_def)
qed

lemma scan_tick_outcome_witness:
  "\<exists>e. scan_tick (\<lambda>_. ''v'') exact_div sample_observer (\<lambda>_. 1200) 0 [sample_run] = ([Decision e], Inr ())
     \<and> scan_current (\<lambda>_. ''v'') exact_div sample_observer 1200 sample_run = Inr e"
proof -
  obtain e where t: "scan_tick (\<lambda>_. ''v'') exact_div sample_observer (\<lambda>_. 1200) 0 [sample_run] = ([Decision e], Inr ())"
    using sample_tick by blast
  from scan_tick_outcome[OF t] t show ?thesis by auto
qed

lemma decisions_replay_witness:
  "\<exists>e. scan_tick (\<lambda>_. ''v'') exact_div sample_observer (\<lambda>_. 1200) 0 [sample_run] = ([Decision e], Inr ())
     \<and> replay (\<lambda>_. ''v'') exact_div e = Inr (dn_report e)"
proof -
  obtain e where t: "scan_tick (\<lambda>_. ''v'') exact_div sample_observer (\<lambda>_. 1200) 0 [sample_run] = ([Decision e], Inr ())"
    using sample_tick by blast
  have "\<forall>run \<in> set [sample_run]. feed_identity (pr_first run) \<and> feed_identity (pr_second run)"
    by (simp add: sample_run_def sample_feed_identity)
  from decisions_replay[OF this, of e "\<lambda>_. ''v''" exact_div sample_observer "\<lambda>_. 1200" 0] t
  show ?thesis by auto
qed

lemma accepted_needs_verified_accounts_witness:
  "\<exists>e. scan_current (\<lambda>_. ''v'') exact_div sample_observer 1200 sample_run = Inr e
     \<and> account_verified (oc_binance sample_observer) 1200 (fst (pr_accounts sample_run))
     \<and> sr_pair_received_skew_ms (dn_report e) \<le> 500"
proof -
  obtain e x where e: "scan_current (\<lambda>_. ''v'') exact_div sample_observer 1200 sample_run = Inr e"
    "x \<in> set (sr_directions (dn_report e))" "op_accepted x" using sample_scan_current by blast
  have "pr_accounts sample_run = load_account_data (\<lambda>_. []) sample_binance_source sample_bybit_source ''BTCUSDT''
     (oc_binance sample_observer) (oc_bybit sample_observer) 1000"
    by (simp add: sample_run_def sample_accounts_def)
  from accepted_needs_verified_accounts[OF e(1) this e(2,3)] e(1)
  show ?thesis by (auto simp: sample_observer_def default_config_def)
qed

end
