(* ===== verification/Archive_Writer.thy ===== *)
theory Archive_Writer
  imports Archive_Events
begin

text \<open>
  The archive writer, \<open>crates/core/src/archive/writer.rs\<close>: the owner submits records to a bounded
  queue, a worker thread writes them and keeps a journal of what was lost. The worker is a state
  machine whose steps are the points at which it touches the shared queue and the shared gap; the
  outcome of every file operation is an input of the step. A file is the list of its complete
  lines, so the bytes that a failing write may leave behind are not modelled.
\<close>

section \<open>State\<close>

datatype worker_phase =
    Opening "archive_gap list"
  | Announcing "archive_gap list"
  | Receiving
  | Flushing archive_record
  | Writing archive_record
  | Closing
  | Stopped "unit result"

record archive_writer =
  aw_run_id :: string
  aw_raw_retention_days :: "16 word"
  aw_next_ordinal :: u64
  aw_sender_open :: bool
  aw_capacity :: nat
  aw_queue :: "archive_record list"
  aw_pending_overflow :: "pending_gap option"
  aw_phase :: worker_phase
  aw_archive_open :: bool
  aw_journal_open :: bool
  aw_archive :: "archive_record list"
  aw_journal :: "archive_gap list"
  aw_stderr :: "archive_gap list"

text \<open>What the file system and the clock answer during one step of the worker.\<close>

record io_outcome =
  io_now_ms :: u64
  io_open_archive :: bool
  io_write_archive :: bool
  io_flush_archive :: bool
  io_open_journal :: bool
  io_write_journal :: bool
  io_flush_journal :: bool
  io_error_text :: string

section \<open>The owner\<close>

definition startup_gap :: "string \<Rightarrow> u64 \<Rightarrow> string \<Rightarrow> nat \<Rightarrow> archive_gap list" where
  "startup_gap run_id started_at_ms label discarded =
     (if discarded = 0 then []
      else let event_id = run_id @ '':startup-'' @ label @ ''-tail-repair''
           in [\<lparr>ag_schema_version = schema_version, ag_run_id = run_id, ag_first_event_id = event_id,
                ag_last_event_id = event_id, ag_first_observed_at_ms = started_at_ms,
                ag_last_observed_at_ms = started_at_ms, ag_dropped_events = 0,
                ag_reason = ''discarded '' @ show_nat discarded @ '' incomplete bytes from '' @ label,
                ag_recorded_at_ms = started_at_ms\<rparr>])"

text \<open>\<open>start\<close>, after the tails of the two files were repaired: the discarded bytes and the complete lines.\<close>

definition start_writer :: "nat \<Rightarrow> 16 word \<Rightarrow> string \<Rightarrow> u64 \<Rightarrow> nat \<times> nat \<Rightarrow> archive_writer result" where
  "start_writer capacity raw_retention_days run_id started_at_ms discarded =
     (if capacity = 0 then Inl (Bail ''archive queue capacity must be positive'')
      else Inr \<lparr>aw_run_id = run_id, aw_raw_retention_days = raw_retention_days, aw_next_ordinal = 1,
        aw_sender_open = True, aw_capacity = capacity, aw_queue = [], aw_pending_overflow = None,
        aw_phase = Opening (startup_gap run_id started_at_ms ''archive'' (fst discarded) @
          startup_gap run_id started_at_ms ''archive gap journal'' (snd discarded)),
        aw_archive_open = False, aw_journal_open = False,
        aw_archive = [], aw_journal = [], aw_stderr = []\<rparr>)"

definition is_stopped :: "worker_phase \<Rightarrow> bool" where
  "is_stopped p = (case p of Stopped _ \<Rightarrow> True | _ \<Rightarrow> False)"

definition add_to_gap :: "archive_record \<Rightarrow> pending_gap option \<Rightarrow> pending_gap" where
  "add_to_gap r pending = (case pending of Some gap \<Rightarrow> pending_gap_extend gap r
     | None \<Rightarrow> pending_gap_from_record r)"

definition next_record :: "string \<Rightarrow> u64 \<Rightarrow> archived_event \<Rightarrow> archive_writer \<Rightarrow> archive_record" where
  "next_record code_version now_ms event w = archive_record_new code_version now_ms (aw_run_id w)
     (aw_next_ordinal w) (aw_raw_retention_days w) event"

definition submit_record :: "string \<Rightarrow> u64 \<Rightarrow> archived_event \<Rightarrow> archive_writer \<Rightarrow> unit result \<times> archive_writer" where
  "submit_record code_version now_ms event w =
     (let r = next_record code_version now_ms event w;
          w = w\<lparr>aw_next_ordinal := aw_next_ordinal w + 1\<rparr>
      in if \<not> aw_sender_open w then (Inl (Bail ''archive writer is already closed''), w)
         else if is_stopped (aw_phase w) then (Inl (Bail ''archive writer stopped unexpectedly''), w)
         else if length (aw_queue w) < aw_capacity w then (Inr (), w\<lparr>aw_queue := aw_queue w @ [r]\<rparr>)
         else (Inr (), w\<lparr>aw_pending_overflow := Some (add_to_gap r (aw_pending_overflow w))\<rparr>))"

text \<open>\<open>finish\<close> and the destructor drop the sender and wait for the worker, whose result they return.\<close>

definition close_writer :: "archive_writer \<Rightarrow> archive_writer" where
  "close_writer w = w\<lparr>aw_sender_open := False\<rparr>"

section \<open>The worker\<close>

definition write_gap :: "io_outcome \<Rightarrow> archive_gap \<Rightarrow> archive_writer \<Rightarrow> archive_writer" where
  "write_gap io gap w =
     (if (aw_journal_open w \<or> io_open_journal io) \<and> io_write_journal io
      then w\<lparr>aw_journal_open := True, aw_journal := aw_journal w @ [gap]\<rparr>
      else w\<lparr>aw_journal_open := False, aw_stderr := aw_stderr w @ [gap]\<rparr>)"

definition flush_overflow_gap :: "io_outcome \<Rightarrow> archive_writer \<Rightarrow> archive_writer" where
  "flush_overflow_gap io w =
     (case aw_pending_overflow w of
        None \<Rightarrow> w
      | Some gap \<Rightarrow> write_gap io (pending_gap_finish (io_now_ms io) gap (aw_run_id w) ''archive queue overflow'')
          (w\<lparr>aw_pending_overflow := None\<rparr>))"

definition write_record :: "io_outcome \<Rightarrow> archive_record \<Rightarrow> archive_writer \<Rightarrow> archive_writer" where
  "write_record io r w =
     (if aw_archive_open w \<and> io_write_archive io then w\<lparr>aw_archive := aw_archive w @ [r]\<rparr>
      else (write_gap io (pending_gap_finish (io_now_ms io) (pending_gap_from_record r) (aw_run_id w)
              (''archive write failed: '' @ io_error_text io)) w)\<lparr>aw_archive_open := io_open_archive io\<rparr>)"

definition worker_result :: "io_outcome \<Rightarrow> archive_writer \<Rightarrow> unit result" where
  "worker_result io w =
     (if aw_archive_open w \<and> \<not> io_flush_archive io then Inl (Bail ''failed to flush archive'')
      else if aw_journal_open w \<and> \<not> io_flush_journal io
      then Inl (Bail ''failed to flush archive gap journal'') else Inr ())"

text \<open>A worker that waits for a record of an open, empty queue does not move.\<close>

definition worker_step :: "io_outcome \<Rightarrow> archive_writer \<Rightarrow> archive_writer" where
  "worker_step io w =
     (case aw_phase w of
        Opening gaps \<Rightarrow> w\<lparr>aw_archive_open := io_open_archive io, aw_journal_open := io_open_journal io,
          aw_phase := Announcing gaps\<rparr>
      | Announcing gaps \<Rightarrow> (case gaps of [] \<Rightarrow> w\<lparr>aw_phase := Receiving\<rparr>
          | gap # gaps \<Rightarrow> write_gap io gap (w\<lparr>aw_phase := Announcing gaps\<rparr>))
      | Receiving \<Rightarrow> (case aw_queue w of r # rs \<Rightarrow> w\<lparr>aw_queue := rs, aw_phase := Flushing r\<rparr>
          | [] \<Rightarrow> if aw_sender_open w then w else w\<lparr>aw_phase := Closing\<rparr>)
      | Flushing r \<Rightarrow> flush_overflow_gap io (w\<lparr>aw_phase := Writing r\<rparr>)
      | Writing r \<Rightarrow> write_record io r (w\<lparr>aw_phase := Receiving\<rparr>)
      | Closing \<Rightarrow> let w = flush_overflow_gap io w in w\<lparr>aw_phase := Stopped (worker_result io w)\<rparr>
      | Stopped _ \<Rightarrow> w)"

section \<open>Every interleaving\<close>

text \<open>The writers reachable by \<open>n\<close> submissions, interleaved with worker steps in any order.\<close>

inductive writer_reachable :: "nat \<Rightarrow> archive_writer \<Rightarrow> bool" where
  started: "start_writer capacity days run_id t d = Inr w \<Longrightarrow> writer_reachable 0 w"
| submitted: "writer_reachable n w \<Longrightarrow> aw_sender_open w \<Longrightarrow>
    writer_reachable (Suc n) (snd (submit_record code_version now event w))"
| stepped: "writer_reachable n w \<Longrightarrow> writer_reachable n (worker_step io w)"
| closed: "writer_reachable n w \<Longrightarrow> writer_reachable n (close_writer w)"

text \<open>Where a submitted record can be.\<close>

definition in_hand :: "worker_phase \<Rightarrow> archive_record list" where
  "in_hand p = (case p of Flushing r \<Rightarrow> [r] | Writing r \<Rightarrow> [r] | _ \<Rightarrow> [])"

definition gap_total :: "archive_gap list \<Rightarrow> nat" where
  "gap_total gaps = sum_list (map (\<lambda>g. unat (ag_dropped_events g)) gaps)"

definition pending_total :: "pending_gap option \<Rightarrow> nat" where
  "pending_total p = (case p of None \<Rightarrow> 0 | Some g \<Rightarrow> unat (pg_dropped_events g))"

definition in_order :: "archive_writer \<Rightarrow> archive_record list" where
  "in_order w = aw_archive w @ in_hand (aw_phase w) @ aw_queue w"

definition lost_records :: "archive_writer \<Rightarrow> nat" where
  "lost_records w = pending_total (aw_pending_overflow w) + gap_total (aw_journal w) + gap_total (aw_stderr w)"

definition startup_silent :: "worker_phase \<Rightarrow> bool" where
  "startup_silent p = (case p of Opening gs \<Rightarrow> gap_total gs = 0 | Announcing gs \<Rightarrow> gap_total gs = 0 | _ \<Rightarrow> True)"

definition record_of_writer :: "archive_writer \<Rightarrow> nat \<Rightarrow> archive_record \<Rightarrow> bool" where
  "record_of_writer w n r \<longleftrightarrow> ar_schema_version r = schema_version \<and> ar_run_id r = aw_run_id w
     \<and> 0 < unat (ar_ordinal r) \<and> unat (ar_ordinal r) \<le> n
     \<and> ar_event_id r = event_id_of (ar_run_id r) (ar_ordinal r)"

definition writer_inv :: "nat \<Rightarrow> archive_writer \<Rightarrow> bool" where
  "writer_inv n w \<longleftrightarrow> unat (aw_next_ordinal w) = n + 1
     \<and> length (in_order w) + lost_records w = n
     \<and> sorted_wrt (\<lambda>a b. ar_ordinal a < ar_ordinal b) (in_order w)
     \<and> (\<forall>r \<in> set (in_order w). record_of_writer w n r)
     \<and> length (aw_queue w) \<le> aw_capacity w \<and> 0 < aw_capacity w
     \<and> startup_silent (aw_phase w)
     \<and> (aw_phase w \<in> {Closing} \<union> range Stopped \<longrightarrow> \<not> aw_sender_open w \<and> aw_queue w = [])
     \<and> (is_stopped (aw_phase w) \<longrightarrow> aw_pending_overflow w = None)"

lemma gap_total_simps [simp]:
  "gap_total [] = 0" "gap_total (g # gs) = unat (ag_dropped_events g) + gap_total gs"
  "gap_total (gs @ gs') = gap_total gs + gap_total gs'"
  by (simp_all add: gap_total_def)

lemma gap_dropped_simps [simp]:
  "ag_dropped_events (pending_gap_finish t g run reason) = pg_dropped_events g"
  "pg_dropped_events (pending_gap_from_record r) = 1"
  by (simp_all add: pending_gap_finish_def pending_gap_from_record_def)

lemma pending_total_simps [simp]:
  "pending_total None = 0" "pending_total (Some g) = unat (pg_dropped_events g)"
  by (simp_all add: pending_total_def)

lemma write_gap_simps [simp]:
  "aw_queue (write_gap io g w) = aw_queue w" "aw_archive (write_gap io g w) = aw_archive w"
  "aw_phase (write_gap io g w) = aw_phase w" "aw_next_ordinal (write_gap io g w) = aw_next_ordinal w"
  "aw_capacity (write_gap io g w) = aw_capacity w" "aw_run_id (write_gap io g w) = aw_run_id w"
  "aw_sender_open (write_gap io g w) = aw_sender_open w"
  "aw_pending_overflow (write_gap io g w) = aw_pending_overflow w"
  by (simp_all add: write_gap_def)

lemma lost_write_gap [simp]: "lost_records (write_gap io g w) = lost_records w + unat (ag_dropped_events g)"
  by (simp add: lost_records_def write_gap_def)

lemma flush_overflow_gap_simps [simp]:
  "aw_queue (flush_overflow_gap io w) = aw_queue w" "aw_archive (flush_overflow_gap io w) = aw_archive w"
  "aw_phase (flush_overflow_gap io w) = aw_phase w"
  "aw_next_ordinal (flush_overflow_gap io w) = aw_next_ordinal w"
  "aw_capacity (flush_overflow_gap io w) = aw_capacity w"
  "aw_run_id (flush_overflow_gap io w) = aw_run_id w"
  "aw_sender_open (flush_overflow_gap io w) = aw_sender_open w"
  "aw_pending_overflow (flush_overflow_gap io w) = None"
  by (simp_all add: flush_overflow_gap_def split: option.split)

lemma lost_flush_overflow_gap [simp]: "lost_records (flush_overflow_gap io w) = lost_records w"
  by (cases "aw_pending_overflow w") (simp_all add: flush_overflow_gap_def lost_records_def write_gap_def)

lemma in_hand_simps [simp]:
  "in_hand (Flushing r) = [r]" "in_hand (Writing r) = [r]" "in_hand Receiving = []"
  "in_hand (Opening gs) = []" "in_hand (Announcing gs) = []" "in_hand Closing = []" "in_hand (Stopped x) = []"
  by (simp_all add: in_hand_def)

lemma lost_update_simps [simp]:
  "lost_records (w\<lparr>aw_phase := p\<rparr>) = lost_records w" "lost_records (w\<lparr>aw_queue := q\<rparr>) = lost_records w"
  "lost_records (w\<lparr>aw_archive_open := b\<rparr>) = lost_records w"
  "lost_records (w\<lparr>aw_journal_open := b\<rparr>) = lost_records w"
  "lost_records (w\<lparr>aw_sender_open := b\<rparr>) = lost_records w"
  "lost_records (w\<lparr>aw_archive := a\<rparr>) = lost_records w"
  by (simp_all add: lost_records_def)

lemma stopped_phase_simps [simp]:
  "is_stopped (Stopped r)" "\<not> is_stopped Closing" "\<not> is_stopped Receiving" "\<not> is_stopped (Flushing x)"
  "\<not> is_stopped (Writing x)" "\<not> is_stopped (Opening gs)" "\<not> is_stopped (Announcing gs)"
  by (simp_all add: is_stopped_def)

lemma startup_silent_simps [simp]:
  "startup_silent (Opening gs) \<longleftrightarrow> gap_total gs = 0" "startup_silent (Announcing gs) \<longleftrightarrow> gap_total gs = 0"
  "startup_silent Receiving" "startup_silent (Flushing r)" "startup_silent (Writing r)"
  "startup_silent Closing" "startup_silent (Stopped x)"
  by (simp_all add: startup_silent_def)

lemma record_of_writer_cong:
  "aw_run_id w = aw_run_id w' \<Longrightarrow> record_of_writer w n r = record_of_writer w' n r"
  by (simp add: record_of_writer_def)

section \<open>Every step keeps the account\<close>

lemma start_writer_inv: "start_writer capacity days run_id t d = Inr w \<Longrightarrow> writer_inv 0 w"
  by (auto simp: start_writer_def writer_inv_def in_order_def lost_records_def startup_gap_def Let_def
      split: if_splits)

lemma close_writer_inv: "writer_inv n w \<Longrightarrow> writer_inv n (close_writer w)"
  by (auto simp: writer_inv_def close_writer_def in_order_def record_of_writer_def)

lemma unat_add_one: "unat (x::u64) < 2 ^ 64 - 1 \<Longrightarrow> unat (x + 1) = unat x + 1"
  by (simp add: unat_word_ariths)

lemma next_record_of_writer:
  assumes "unat (aw_next_ordinal w) = n + 1"
  shows "record_of_writer w (Suc n) (next_record v t ev w)" "ar_ordinal (next_record v t ev w) = aw_next_ordinal w"
  using assms by (simp_all add: record_of_writer_def next_record_def archive_record_new_def)

lemma submit_record_inv:
  assumes inv: "writer_inv n w" and "aw_sender_open w" and n: "Suc n < 2 ^ 64 - 1"
  shows "writer_inv (Suc n) (snd (submit_record v t ev w))"
proof -
  let ?r = "next_record v t ev w"
  note i = inv[unfolded writer_inv_def]
  have nx: "unat (aw_next_ordinal w + 1) = n + 2" using i n by (simp add: unat_add_one)
  have r: "record_of_writer w (Suc n) ?r" "ar_ordinal ?r = aw_next_ordinal w"
    using i next_record_of_writer by blast+
  have mono: "record_of_writer w n x \<Longrightarrow> record_of_writer w (Suc n) x" for x
    by (simp add: record_of_writer_def)
  have less: "x \<in> set (in_order w) \<Longrightarrow> ar_ordinal x < aw_next_ordinal w" for x
    using i by (auto simp: record_of_writer_def word_less_nat_alt)
  have open': "\<not> is_stopped (aw_phase w)" "aw_phase w \<notin> {Closing} \<union> range Stopped"
    using i assms(2) by (auto simp: is_stopped_def split: worker_phase.splits)
  show ?thesis
  proof (cases "length (aw_queue w) < aw_capacity w")
    case True
    let ?w = "w\<lparr>aw_next_ordinal := aw_next_ordinal w + 1, aw_queue := aw_queue w @ [?r]\<rparr>"
    have "snd (submit_record v t ev w) = ?w"
      using True assms(2) open' by (simp add: submit_record_def Let_def)
    moreover have "in_order ?w = in_order w @ [?r]" by (simp add: in_order_def)
    moreover have "lost_records ?w = lost_records w" by (simp add: lost_records_def)
    moreover have "record_of_writer ?w m x = record_of_writer w m x" for m x by (simp add: record_of_writer_def)
    ultimately show ?thesis using i nx r mono less True open'
      by (auto simp: writer_inv_def sorted_wrt_append)
  next
    case False
    let ?p = "aw_pending_overflow w"
    let ?w = "w\<lparr>aw_next_ordinal := aw_next_ordinal w + 1, aw_pending_overflow := Some (add_to_gap ?r ?p)\<rparr>"
    have "snd (submit_record v t ev w) = ?w"
      using False assms(2) open' by (simp add: submit_record_def Let_def)
    moreover have "in_order ?w = in_order w" by (simp add: in_order_def)
    moreover have "pending_total ?p \<le> n" using i by (simp add: lost_records_def)
    then have "pending_total (Some (add_to_gap ?r ?p)) = pending_total ?p + 1"
      using n by (cases ?p) (simp_all add: add_to_gap_def pending_gap_extend_def unat_add_one)
    then have "lost_records ?w = lost_records w + 1" by (simp add: lost_records_def)
    moreover have "record_of_writer ?w m x = record_of_writer w m x" for m x by (simp add: record_of_writer_def)
    ultimately show ?thesis using i nx mono open' by (auto simp: writer_inv_def)
  qed
qed

lemma worker_step_inv:
  assumes inv: "writer_inv n w"
  shows "writer_inv n (worker_step io w)"
proof -
  note i = inv[unfolded writer_inv_def]
  note [simp] = record_of_writer_def
  show ?thesis
  proof (cases "aw_phase w")
    case (Opening gs)
    then show ?thesis using i by (auto simp: worker_step_def writer_inv_def in_order_def)
  next
    case (Announcing gs)
    then show ?thesis using i
      by (cases gs) (auto simp: worker_step_def writer_inv_def in_order_def)
  next
    case Receiving
    then show ?thesis using i
      by (cases "aw_queue w") (auto simp: worker_step_def writer_inv_def in_order_def)
  next
    case (Flushing r)
    then show ?thesis using i by (auto simp: worker_step_def writer_inv_def in_order_def)
  next
    case (Writing r)
    show ?thesis
    proof (cases "aw_archive_open w \<and> io_write_archive io")
      case True
      then show ?thesis using i Writing
        by (auto simp: worker_step_def write_record_def writer_inv_def in_order_def)
    next
      case False
      then show ?thesis using i Writing
        by (auto simp: worker_step_def write_record_def writer_inv_def in_order_def sorted_wrt_append)
    qed
  next
    case Closing
    then show ?thesis using i
      by (auto simp: worker_step_def writer_inv_def in_order_def Let_def)
  next
    case (Stopped x)
    then show ?thesis using inv by (simp add: worker_step_def)
  qed
qed

lemma writer_reachable_inv: "writer_reachable n w \<Longrightarrow> n < 2 ^ 64 - 1 \<Longrightarrow> writer_inv n w"
proof (induction rule: writer_reachable.induct)
  case (submitted n w v t ev)
  then show ?case by (intro submit_record_inv) auto
qed (auto intro: start_writer_inv worker_step_inv close_writer_inv)

text \<open>C2. However submissions and the worker interleave and whatever the file system answers, every
  submitted record is at exactly one place: written, in hand, queued, or counted in a gap that is pending,
  journaled or printed. The queue keeps its bound and the ordinals of the archive increase.\<close>

theorem archive_accounts_for_every_record:
  assumes "writer_reachable n w" "n < 2 ^ 64 - 1"
  shows "length (aw_archive w) + length (in_hand (aw_phase w)) + length (aw_queue w)
      + pending_total (aw_pending_overflow w) + gap_total (aw_journal w) + gap_total (aw_stderr w) = n
    \<and> length (aw_queue w) \<le> aw_capacity w
    \<and> sorted_wrt (\<lambda>a b. ar_ordinal a < ar_ordinal b) (aw_archive w)
    \<and> (\<forall>r \<in> set (aw_archive w). ar_run_id r = aw_run_id w \<and> 0 < ar_ordinal r
          \<and> ar_event_id r = event_id_of (aw_run_id w) (ar_ordinal r))"
proof -
  have "writer_inv n w" using assms by (rule writer_reachable_inv)
  then show ?thesis
    by (auto simp: writer_inv_def in_order_def lost_records_def sorted_wrt_append record_of_writer_def
        word_less_nat_alt)
qed

section \<open>A closed writer finishes\<close>

text \<open>An upper bound of the steps left: three per queued record, and the rest of the current one.\<close>

definition worker_cost :: "archive_writer \<Rightarrow> nat" where
  "worker_cost w = (case aw_phase w of
      Opening gs \<Rightarrow> length gs + 4 + 3 * length (aw_queue w)
    | Announcing gs \<Rightarrow> length gs + 3 + 3 * length (aw_queue w)
    | Receiving \<Rightarrow> 2 + 3 * length (aw_queue w)
    | Flushing _ \<Rightarrow> 4 + 3 * length (aw_queue w)
    | Writing _ \<Rightarrow> 3 + 3 * length (aw_queue w)
    | Closing \<Rightarrow> 1
    | Stopped _ \<Rightarrow> 0)"

lemma worker_cost_stopped: "worker_cost w = 0 \<longleftrightarrow> is_stopped (aw_phase w)"
  by (simp add: worker_cost_def is_stopped_def split: worker_phase.split)

lemma worker_step_cost:
  assumes "\<not> aw_sender_open w"
  shows "worker_cost (worker_step io w) = worker_cost w - 1 \<and> \<not> aw_sender_open (worker_step io w)"
  using assms
  by (cases "aw_phase w")
    (auto simp: worker_step_def worker_cost_def write_record_def Let_def split: list.split)

lemma worker_drain_cost:
  "\<not> aw_sender_open w \<Longrightarrow> worker_cost (fold worker_step ios w) = worker_cost w - length ios"
  by (induction ios arbitrary: w) (simp_all add: worker_step_cost)

lemma writer_reachable_drain: "writer_reachable n w \<Longrightarrow> writer_reachable n (fold worker_step ios w)"
  by (induction ios arbitrary: w) (simp_all add: writer_reachable.stepped)

lemma worker_step_archive_grows: "\<exists>rs. aw_archive (worker_step io w) = aw_archive w @ rs"
  by (cases "aw_phase w") (auto simp: worker_step_def write_record_def Let_def split: list.split)

lemma worker_drain_archive_grows: "\<exists>rs. aw_archive (fold worker_step ios w) = aw_archive w @ rs"
proof (induction ios arbitrary: w)
  case (Cons io ios)
  obtain rs where "aw_archive (fold worker_step ios (worker_step io w)) = aw_archive (worker_step io w) @ rs"
    using Cons by blast
  moreover obtain qs where "aw_archive (worker_step io w) = aw_archive w @ qs"
    using worker_step_archive_grows by blast
  ultimately show ?case by simp
qed simp

text \<open>Once the writer is closed the worker stops within a number of steps that the queue and the
  current phase determine, whatever the file system answers, and then every submitted record is in the
  archive or counted in a gap; what was archived before stays.\<close>

theorem closed_writer_stops:
  assumes "writer_reachable n w" "n < 2 ^ 64 - 1" "\<not> aw_sender_open w" "worker_cost w \<le> length ios"
  shows "is_stopped (aw_phase (fold worker_step ios w))
    \<and> length (aw_archive (fold worker_step ios w)) + gap_total (aw_journal (fold worker_step ios w))
        + gap_total (aw_stderr (fold worker_step ios w)) = n
    \<and> (\<exists>rs. aw_archive (fold worker_step ios w) = aw_archive w @ rs)"
proof -
  let ?w = "fold worker_step ios w"
  have stop: "is_stopped (aw_phase ?w)"
    using worker_drain_cost[OF assms(3), of ios] assms(4) worker_cost_stopped[of ?w] by simp
  have "writer_inv n ?w"
    using writer_reachable_inv[OF writer_reachable_drain[OF assms(1)] assms(2)] .
  then have "length (aw_archive ?w) + gap_total (aw_journal ?w) + gap_total (aw_stderr ?w) = n"
    using stop
    by (cases "aw_phase ?w") (auto simp: writer_inv_def in_order_def lost_records_def)
  then show ?thesis using stop worker_drain_archive_grows by blast
qed

text \<open>While the writer is open a submission always reports success. It queues the record when there is
  room; when the queue is full the record is not written but counted in the pending gap.\<close>

theorem submit_never_reports_loss:
  assumes "writer_reachable n w" "Suc n < 2 ^ 64 - 1" "aw_sender_open w"
    and "submit_record v t ev w = (res, w')"
  shows "res = Inr ()
    \<and> (if length (aw_queue w) < aw_capacity w
       then in_order w' = in_order w @ [next_record v t ev w] \<and> lost_records w' = lost_records w
       else in_order w' = in_order w \<and> lost_records w' = lost_records w + 1)"
proof -
  have inv: "writer_inv n w" using assms(1,2) by (intro writer_reachable_inv) auto
  have "\<not> is_stopped (aw_phase w)"
    using inv assms(3) by (auto simp: writer_inv_def is_stopped_def split: worker_phase.splits)
  then have eq: "res = Inr ()" "w' = (let w1 = w\<lparr>aw_next_ordinal := aw_next_ordinal w + 1\<rparr> in
      if length (aw_queue w) < aw_capacity w then w1\<lparr>aw_queue := aw_queue w @ [next_record v t ev w]\<rparr>
      else w1\<lparr>aw_pending_overflow := Some (add_to_gap (next_record v t ev w) (aw_pending_overflow w))\<rparr>)"
    using assms(3,4) by (auto simp: submit_record_def Let_def split: if_splits)
  have inv': "writer_inv (Suc n) w'" using submit_record_inv[OF inv assms(3,2), of v t ev] assms(4) by simp
  have io: "in_order w' = (if length (aw_queue w) < aw_capacity w then in_order w @ [next_record v t ev w] else in_order w)"
    by (simp add: eq(2) in_order_def Let_def)
  have "length (in_order w) + lost_records w = n" "length (in_order w') + lost_records w' = Suc n"
    using inv inv' by (simp_all add: writer_inv_def)
  then show ?thesis using eq(1) by (auto simp: io split: if_splits)
qed

section \<open>Samples\<close>

definition sample_health :: archived_event where
  "sample_health = Health \<lparr>hv_observed_at_ms = 5,
     hv_feeds = (feed_version_of (fp_status (channel ''binance'' ''BTCUSDT'')),
       feed_version_of (fp_status (channel ''bybit'' ''BTCUSDT''))),
     hv_skip_reason = ''live books unavailable: binance=SYNCING bybit=SYNCING''\<rparr>"

definition sample_io :: io_outcome where
  "sample_io = \<lparr>io_now_ms = 6, io_open_archive = True, io_write_archive = True, io_flush_archive = True,
     io_open_journal = False, io_write_journal = True, io_flush_journal = True, io_error_text = ''disk''\<rparr>"

definition sample_started :: archive_writer where
  "sample_started = \<lparr>aw_run_id = ''r'', aw_raw_retention_days = 30, aw_next_ordinal = 1,
     aw_sender_open = True, aw_capacity = 1, aw_queue = [], aw_pending_overflow = None,
     aw_phase = Opening [], aw_archive_open = False, aw_journal_open = False, aw_archive = [],
     aw_journal = [], aw_stderr = []\<rparr>"

definition sample_submit :: "archive_writer \<Rightarrow> archive_writer" where
  "sample_submit w = snd (submit_record ''0.1.0'' 5 sample_health w)"

lemma sample_started_reachable: "writer_reachable 0 sample_started"
  by (rule writer_reachable.started[of 1 30 "''r''" 5 "(0, 0)"])
    (simp add: start_writer_def sample_started_def startup_gap_def)

lemma sample_submit_open: "aw_sender_open (sample_submit sample_started)"
  by (simp add: sample_submit_def submit_record_def sample_started_def Let_def)

lemma sample_submitted_reachable:
  "writer_reachable 2 (close_writer (sample_submit (sample_submit sample_started)))"
proof -
  have "writer_reachable (Suc (Suc 0)) (sample_submit (sample_submit sample_started))"
    unfolding sample_submit_def
    by (intro writer_reachable.submitted sample_started_reachable sample_submit_open[unfolded sample_submit_def])
      (simp add: sample_started_def)
  then show ?thesis using writer_reachable.closed by (simp add: numeral_2_eq_2)
qed

lemma archive_accounts_for_every_record_witness:
  "\<exists>w. writer_reachable 2 w \<and> length (aw_archive w) + length (in_hand (aw_phase w)) + length (aw_queue w)
      + pending_total (aw_pending_overflow w) + gap_total (aw_journal w) + gap_total (aw_stderr w) = 2"
  using archive_accounts_for_every_record[OF sample_submitted_reachable] sample_submitted_reachable by auto

lemma closed_writer_stops_witness:
  "is_stopped (aw_phase (fold worker_step (replicate 20 sample_io)
     (close_writer (sample_submit (sample_submit sample_started)))))"
proof -
  let ?w = "close_writer (sample_submit (sample_submit sample_started))"
  have "\<not> aw_sender_open ?w" by (simp add: close_writer_def)
  moreover have "worker_cost ?w \<le> length (replicate 20 sample_io)"
    by (simp add: worker_cost_def close_writer_def sample_submit_def submit_record_def sample_started_def Let_def)
  ultimately show ?thesis by (intro conjunct1[OF closed_writer_stops[OF sample_submitted_reachable]]) simp_all
qed

lemma submit_never_reports_loss_witness:
  "lost_records (sample_submit (sample_submit sample_started)) = 1"
proof -
  have w: "writer_reachable (Suc 0) (sample_submit sample_started)"
    using sample_started_reachable writer_reachable.submitted[of 0 sample_started]
    by (simp add: sample_submit_def) (simp add: sample_started_def)
  have full: "aw_queue (sample_submit sample_started) = [next_record ''0.1.0'' 5 sample_health sample_started]"
    "aw_capacity (sample_submit sample_started) = 1" "lost_records (sample_submit sample_started) = 0"
    by (simp_all add: sample_submit_def submit_record_def sample_started_def Let_def lost_records_def next_record_def)
  obtain res w' where "submit_record ''0.1.0'' 5 sample_health (sample_submit sample_started) = (res, w')" by fastforce
  from submit_never_reports_loss[OF w _ sample_submit_open this] this full show ?thesis
    by (simp add: sample_submit_def)
qed

end
