(* ===== verification/Archive_File.thy ===== *)
theory Archive_File
  imports Prelude
begin

text \<open>
  The archive files as bytes: the repair of an incomplete tail by \<open>crates/core/src/archive/writer.rs\<close>
  and the line reader of \<open>crates/core/src/archive/reader.rs\<close>. A file is absent or a list of bytes;
  failing file operations are not modelled here. The JSON decoder is a parameter.
\<close>

type_synonym byte = "8 word"

definition newline :: byte where
  "newline = 10"

section \<open>Repairing the tail\<close>

text \<open>\<open>rposition\<close>: the index of the last element that satisfies the predicate.\<close>

fun rposition :: "('a \<Rightarrow> bool) \<Rightarrow> 'a list \<Rightarrow> nat option" where
  "rposition P [] = None"
| "rposition P (x # xs) =
     (case rposition P xs of Some i \<Rightarrow> Some (Suc i) | None \<Rightarrow> if P x then Some 0 else None)"

definition chunk_size :: nat where
  "chunk_size = 8 * 1024"

text \<open>The loop over chunks from the end of the file; the start of a chunk is where the next one ends.\<close>

function complete_len :: "byte list \<Rightarrow> nat \<Rightarrow> nat" where
  "complete_len bs cursor =
     (let start = cursor - chunk_size
      in case rposition (\<lambda>b. b = newline) (take (cursor - start) (drop start bs)) of
           Some index \<Rightarrow> start + index + 1
         | None \<Rightarrow> if start = 0 then 0 else complete_len bs start)"
  by pat_completeness auto

termination complete_len
  by (relation "measure snd") (auto simp: chunk_size_def)

declare complete_len.simps [simp del]

definition repair_incomplete_tail :: "byte list option \<Rightarrow> nat \<times> byte list option" where
  "repair_incomplete_tail file =
     (case file of
        None \<Rightarrow> (0, None)
      | Some bs \<Rightarrow>
          if bs = [] \<or> last bs = newline then (0, Some bs)
          else (length bs - complete_len bs (length bs), Some (take (complete_len bs (length bs)) bs)))"

section \<open>Reading lines\<close>

definition is_ascii_whitespace :: "byte \<Rightarrow> bool" where
  "is_ascii_whitespace b \<longleftrightarrow> b \<in> {32, 9, 10, 12, 13}"

record snapshot_read =
  sp_bytes :: nat
  sp_ignored_tail_bytes :: nat

text \<open>\<open>read_until\<close>: the bytes up to and including the next newline, or all that are left.\<close>

fun read_until :: "byte list \<Rightarrow> byte list \<times> byte list" where
  "read_until [] = ([], [])"
| "read_until (b # bs) = (if b = newline then ([b], bs)
     else let (line, rest) = read_until bs in (b # line, rest))"

lemma read_until_append: "fst (read_until bs) @ snd (read_until bs) = bs"
  by (induction bs) (auto simp: Let_def split: prod.split)

lemma read_until_shorter: "bs \<noteq> [] \<Longrightarrow> length (snd (read_until bs)) < length bs"
proof -
  assume "bs \<noteq> []"
  then have "fst (read_until bs) \<noteq> []" by (cases bs) (auto simp: Let_def split: prod.split)
  then have "0 < length (fst (read_until bs))" by blast
  then show ?thesis using arg_cong[OF read_until_append[of bs], of length]
    unfolding length_append by linarith
qed

lemma read_until_rest_shorter: "(line, rest) = read_until bs \<Longrightarrow> bs \<noteq> [] \<Longrightarrow> length rest < length bs"
  by (metis read_until_shorter snd_conv)

text \<open>The loop over the lines; \<open>decode\<close> reads a record, \<open>visit\<close> is the closure with its captured state.\<close>

function each_line :: "(byte list \<Rightarrow> 'r result) \<Rightarrow> ('r \<Rightarrow> 's \<Rightarrow> 's result) \<Rightarrow> byte list \<Rightarrow> 's
    \<Rightarrow> ('s \<times> nat) result" where
  "each_line decode visit bs s =
     (if bs = [] then Inr (s, 0)
      else let (line, rest) = read_until bs
        in if last line \<noteq> newline then Inr (s, length line)
           else if list_all is_ascii_whitespace line then each_line decode visit rest s
           else then_do (decode line) (\<lambda>r. then_do (visit r s) (\<lambda>s'. each_line decode visit rest s')))"
  by pat_completeness auto

termination each_line
  by (relation "measure (\<lambda>(_, _, bs, _). length bs)") (auto dest: read_until_rest_shorter)

declare each_line.simps [simp del]

definition for_each_snapshot_record :: "(byte list \<Rightarrow> 'r result) \<Rightarrow> bool \<Rightarrow> ('r \<Rightarrow> 's \<Rightarrow> 's result)
    \<Rightarrow> byte list option \<Rightarrow> 's \<Rightarrow> ('s \<times> snapshot_read) result" where
  "for_each_snapshot_record decode missing_is_empty visit file s =
     (case file of
        None \<Rightarrow> if missing_is_empty then Inr (s, \<lparr>sp_bytes = 0, sp_ignored_tail_bytes = 0\<rparr>)
          else Inl (Bail ''failed to open'')
      | Some bs \<Rightarrow> then_do (each_line decode visit bs s) (\<lambda>(s', ignored).
          Inr (s', \<lparr>sp_bytes = length bs, sp_ignored_tail_bytes = ignored\<rparr>)))"

section \<open>The complete part of a file\<close>

definition complete_prefix :: "byte list \<Rightarrow> byte list" where
  "complete_prefix bs = rev (dropWhile (\<lambda>b. b \<noteq> newline) (rev bs))"

lemma rposition_None: "rposition P xs = None \<longleftrightarrow> (\<forall>x \<in> set xs. \<not> P x)"
  by (induction xs) (auto split: option.split)

lemma rposition_Some:
  "rposition P xs = Some i \<longleftrightarrow> i < length xs \<and> P (xs ! i) \<and> (\<forall>x \<in> set (drop (Suc i) xs). \<not> P x)"
proof (induction xs arbitrary: i)
  case (Cons x xs)
  show ?case
  proof (cases "rposition P xs")
    case None
    then have "\<forall>x \<in> set xs. \<not> P x" by (simp add: rposition_None)
    then show ?thesis using None by (cases i) auto
  next
    case (Some j)
    then have j: "j < length xs" "P (xs ! j)" using Cons[of j] by simp_all
    show ?thesis
    proof (cases i)
      case 0
      then show ?thesis using Some j by (auto simp: set_conv_nth)
    next
      case (Suc k)
      then show ?thesis using Some Cons[of k] Cons[of j] by auto
    qed
  qed
qed simp

lemma dropWhile_rev_nth:
  assumes "k < length bs" "bs ! k = newline" "\<forall>b \<in> set (drop (Suc k) bs). b \<noteq> newline"
  shows "complete_prefix bs = take (Suc k) bs"
proof -
  have "bs = take k bs @ bs ! k # drop (Suc k) bs" using assms(1) by (rule id_take_nth_drop)
  then have "rev bs = rev (drop (Suc k) bs) @ newline # rev (take k bs)"
    using assms(2) by (metis append_Cons append_Nil append_assoc rev.simps(2) rev_append)
  moreover have "\<forall>b \<in> set (rev (drop (Suc k) bs)). b \<noteq> newline" using assms(3) by simp
  moreover have "dropWhile (\<lambda>b. b \<noteq> newline) (rev (drop (Suc k) bs) @ newline # rev (take k bs))
      = dropWhile (\<lambda>b. b \<noteq> newline) (newline # rev (take k bs))"
    by (rule dropWhile_append2) (use calculation(2) in blast)
  ultimately have "dropWhile (\<lambda>b. b \<noteq> newline) (rev bs) = newline # rev (take k bs)" by simp
  then show ?thesis using assms(1,2) by (simp add: complete_prefix_def take_Suc_conv_app_nth)
qed

lemma complete_prefix_none: "newline \<notin> set bs \<Longrightarrow> complete_prefix bs = []"
  by (auto simp: complete_prefix_def dropWhile_eq_Nil_conv)

lemma complete_len_eq:
  "cursor \<le> length bs \<Longrightarrow> \<forall>b \<in> set (drop cursor bs). b \<noteq> newline \<Longrightarrow>
     take (complete_len bs cursor) bs = complete_prefix bs \<and> complete_len bs cursor \<le> length bs"
proof (induction bs cursor rule: complete_len.induct)
  case (1 bs cursor)
  define start where "start = cursor - chunk_size"
  define chunk where "chunk = take (cursor - start) (drop start bs)"
  have split: "drop start bs = chunk @ drop cursor bs"
    unfolding chunk_def by (metis append_take_drop_id diff_le_self drop_drop le_add_diff_inverse2 start_def)
  have len: "length chunk = cursor - start" "start \<le> cursor" using "1.prems"(1) by (simp_all add: chunk_def start_def)
  show ?case
  proof (cases "rposition (\<lambda>b. b = newline) chunk")
    case None
    then have no: "\<forall>b \<in> set (drop start bs). b \<noteq> newline"
      using "1.prems"(2) by (auto simp: split rposition_None)
    show ?thesis
    proof (cases "start = 0")
      case True
      then show ?thesis using no None complete_prefix_none[of bs]
        by (subst (1 2) complete_len.simps) (auto simp: Let_def start_def[symmetric] chunk_def)
    next
      case False
      have "take (complete_len bs start) bs = complete_prefix bs \<and> complete_len bs start \<le> length bs"
        using "1.IH"[OF start_def, unfolded chunk_def[symmetric], OF None False] no len "1.prems"(1) by simp
      then show ?thesis using None False
        by (subst (1 2) complete_len.simps) (simp add: Let_def start_def[symmetric] chunk_def)
    qed
  next
    case (Some i)
    then have i: "i < length chunk" "chunk ! i = newline" "\<forall>b \<in> set (drop (Suc i) chunk). b \<noteq> newline"
      by (simp_all add: rposition_Some)
    have "bs ! (start + i) = chunk ! i"
      using i(1) len "1.prems"(1) by (simp add: chunk_def)
    moreover have "drop (Suc (start + i)) bs = drop (Suc i) chunk @ drop cursor bs"
    proof -
      have "drop (Suc (start + i)) bs = drop (Suc i) (drop start bs)" by (simp add: add.commute)
      also have "\<dots> = drop (Suc i) chunk @ drop (Suc i - length chunk) (drop cursor bs)"
        unfolding split drop_append ..
      also have "Suc i - length chunk = 0" using i(1) by simp
      finally show ?thesis by simp
    qed
    ultimately have "complete_prefix bs = take (Suc (start + i)) bs"
      using i len "1.prems" by (intro dropWhile_rev_nth) auto
    then show ?thesis using Some i(1) len "1.prems"(1)
      by (subst (1 2) complete_len.simps) (simp add: Let_def start_def[symmetric] chunk_def[symmetric])
  qed
qed

lemma complete_prefix_last: "bs = [] \<or> last bs = newline \<Longrightarrow> complete_prefix bs = bs"
  by (cases bs rule: rev_cases) (auto simp: complete_prefix_def)

lemma complete_len_length: "complete_len bs (length bs) = length (complete_prefix bs)"
proof -
  have "take (complete_len bs (length bs)) bs = complete_prefix bs" "complete_len bs (length bs) \<le> length bs"
    using complete_len_eq[of "length bs" bs] by simp_all
  then show ?thesis by (metis length_take min.absorb2)
qed

lemma repair_eq:
  "repair_incomplete_tail (Some bs) = (length bs - length (complete_prefix bs), Some (complete_prefix bs))"
  using complete_prefix_last[of bs] complete_len_eq[of "length bs" bs]
  by (auto simp: repair_incomplete_tail_def complete_len_length)

text \<open>Whatever the length of the file and wherever the chunks end, the repair keeps exactly the
  bytes up to the last newline and reports how many it cut off.\<close>

theorem repair_keeps_complete_lines:
  "repair_incomplete_tail (Some bs) = (length bs - length (complete_prefix bs), Some (complete_prefix bs))
    \<and> (\<exists>tail. bs = complete_prefix bs @ tail \<and> newline \<notin> set tail)
    \<and> (complete_prefix bs = [] \<or> last (complete_prefix bs) = newline)"
proof (intro conjI)
  show "repair_incomplete_tail (Some bs) = (length bs - length (complete_prefix bs), Some (complete_prefix bs))"
    by (rule repair_eq)
  have "rev bs = takeWhile (\<lambda>b. b \<noteq> newline) (rev bs) @ dropWhile (\<lambda>b. b \<noteq> newline) (rev bs)" by simp
  then have "bs = complete_prefix bs @ rev (takeWhile (\<lambda>b. b \<noteq> newline) (rev bs))"
    unfolding complete_prefix_def by (metis rev_append rev_rev_ident)
  then show "\<exists>tail. bs = complete_prefix bs @ tail \<and> newline \<notin> set tail"
    by (metis (mono_tags, lifting) set_rev set_takeWhileD)
  show "complete_prefix bs = [] \<or> last (complete_prefix bs) = newline"
    unfolding complete_prefix_def last_rev by (metis (mono_tags, lifting) hd_dropWhile rev.simps(1))
qed

section \<open>Reading what was written\<close>

lemma read_until_line: "newline \<notin> set xs \<Longrightarrow> read_until (xs @ newline # rest) = (xs @ [newline], rest)"
  by (induction xs) auto

lemma read_until_tail: "newline \<notin> set xs \<Longrightarrow> read_until xs = (xs, [])"
  by (induction xs) auto

lemma each_line_tail: "newline \<notin> set bs \<Longrightarrow> each_line decode visit bs s = Inr (s, length bs)"
  by (subst each_line.simps) (auto simp: read_until_tail dest: last_in_set)

lemma each_line_Cons:
  assumes "newline \<notin> set xs"
  shows "each_line decode visit (xs @ newline # rest) s =
    (if list_all is_ascii_whitespace (xs @ [newline]) then each_line decode visit rest s
     else then_do (decode (xs @ [newline])) (\<lambda>r. then_do (visit r s) (\<lambda>s'. each_line decode visit rest s')))"
  by (subst each_line.simps) (simp add: read_until_line[OF assms])

lemma complete_prefix_line:
  "complete_prefix (xs @ newline # rest) = xs @ newline # complete_prefix rest"
proof (cases "newline \<in> set rest")
  case True
  then have "dropWhile (\<lambda>b. b \<noteq> newline) (rev rest @ newline # rev xs) =
      dropWhile (\<lambda>b. b \<noteq> newline) (rev rest) @ newline # rev xs"
    by (intro dropWhile_append1[of newline]) auto
  then show ?thesis by (simp add: complete_prefix_def)
next
  case False
  then have "dropWhile (\<lambda>b. b \<noteq> newline) (rev rest @ newline # rev xs) = newline # rev xs"
    by (subst dropWhile_append2) auto
  then show ?thesis using complete_prefix_none[OF False] by (simp add: complete_prefix_def)
qed

text \<open>Reading a file is reading its complete lines: the incomplete tail changes nothing but the
  number of ignored bytes, which is what a repair would discard.\<close>

theorem reader_ignores_exactly_the_tail:
  "each_line decode visit bs s =
     then_do (each_line decode visit (complete_prefix bs) s)
       (\<lambda>(s', _). Inr (s', fst (repair_incomplete_tail (Some bs))))"
proof -
  have "each_line decode visit bs s = then_do (each_line decode visit (complete_prefix bs) s)
       (\<lambda>(s', _). Inr (s', length bs - length (complete_prefix bs)))"
  proof (induction bs arbitrary: s rule: length_induct)
    case (1 bs)
    show ?case
    proof (cases "newline \<in> set bs")
      case False
      then show ?thesis by (simp add: complete_prefix_none each_line_tail)
    next
      case True
      then obtain xs rest where bs: "bs = xs @ newline # rest" "newline \<notin> set xs"
        by (meson split_list_first)
      have IH: "each_line decode visit rest s = then_do (each_line decode visit (complete_prefix rest) s)
          (\<lambda>(s', _). Inr (s', length rest - length (complete_prefix rest)))" for s
        using "1.IH" bs(1) by simp
      show ?thesis
        unfolding bs(1) complete_prefix_line each_line_Cons[OF bs(2)]
        by (cases "decode (xs @ [newline])"; simp add: IH; cases "visit (projr (decode (xs @ [newline]))) s";
            simp add: IH)
    qed
  qed
  then show ?thesis by (simp add: repair_eq)
qed

text \<open>The visits of the records in order, the first error wins.\<close>

fun visit_all :: "('r \<Rightarrow> 's \<Rightarrow> 's result) \<Rightarrow> 'r list \<Rightarrow> 's \<Rightarrow> 's result" where
  "visit_all visit [] s = Inr s"
| "visit_all visit (r # rs) s = then_do (visit r s) (visit_all visit rs)"

text \<open>What the reader needs of a serializer at a record: one line that is not blank and decodes to it.\<close>

definition line_of :: "('r \<Rightarrow> byte list) \<Rightarrow> (byte list \<Rightarrow> 'r result) \<Rightarrow> 'r \<Rightarrow> bool" where
  "line_of encode decode r \<longleftrightarrow> newline \<notin> set (encode r)
     \<and> \<not> list_all is_ascii_whitespace (encode r) \<and> decode (encode r @ [newline]) = Inr r"

definition write_lines :: "('r \<Rightarrow> byte list) \<Rightarrow> 'r list \<Rightarrow> byte list" where
  "write_lines encode rs = concat (map (\<lambda>r. encode r @ [newline]) rs)"

lemma each_line_written:
  assumes "\<forall>r \<in> set rs. line_of encode decode r" "newline \<notin> set tail"
  shows "each_line decode visit (write_lines encode rs @ tail) s =
    then_do (visit_all visit rs s) (\<lambda>s'. Inr (s', length tail))"
  using assms
proof (induction rs arbitrary: s)
  case Nil
  then show ?case by (simp add: write_lines_def each_line_tail)
next
  case (Cons r rs)
  have r: "newline \<notin> set (encode r)" "\<not> list_all is_ascii_whitespace (encode r)"
    "decode (encode r @ [newline]) = Inr r"
    using Cons.prems(1) by (simp_all add: line_of_def)
  have "write_lines encode (r # rs) @ tail = encode r @ newline # (write_lines encode rs @ tail)"
    by (simp add: write_lines_def)
  then show ?case
    using each_line_Cons[OF r(1), of decode visit "write_lines encode rs @ tail" s] r Cons
    by (cases "visit r s") auto
qed

text \<open>Lines that were written are read back in order: the reader visits exactly the written records,
  and an interrupted last line is ignored and counted.\<close>

theorem written_lines_read_back:
  assumes "\<forall>r \<in> set rs. line_of encode decode r" "newline \<notin> set tail"
  shows "for_each_snapshot_record decode m visit (Some (write_lines encode rs @ tail)) s =
    then_do (visit_all visit rs s) (\<lambda>s'. Inr (s', \<lparr>sp_bytes = length (write_lines encode rs @ tail),
      sp_ignored_tail_bytes = length tail\<rparr>))"
  using each_line_written[OF assms, of visit s]
  by (cases "visit_all visit rs s") (auto simp: for_each_snapshot_record_def)

lemma written_lines_read_back_witness:
  "for_each_snapshot_record (\<lambda>l. Inr (hd l)) False (\<lambda>r n. Inr (n + 1)) (Some (write_lines (\<lambda>r. [r, 125]) [65, 66] @ [67])) (0::nat)
     = Inr (2, \<lparr>sp_bytes = 7, sp_ignored_tail_bytes = 1\<rparr>)"
proof -
  have "\<forall>r \<in> set [65, 66]. line_of (\<lambda>r. [r, 125]) (\<lambda>l. Inr (hd l)) r" "newline \<notin> set [67]"
    by (simp_all add: line_of_def newline_def is_ascii_whitespace_def)
  from written_lines_read_back[OF this, of False "\<lambda>r n. Inr (n + 1)" "0::nat"]
  show ?thesis by (simp add: write_lines_def)
qed

end
