(* ===== verification/Archive_Reader.thy ===== *)
theory Archive_Reader
  imports Archive_Writer Archive_File "HOL-Library.Product_Lexorder" "HOL-Library.Multiset"
begin

text \<open>
  The replay of an archive, \<open>crates/core/src/archive/reader.rs\<close> and \<open>report.rs\<close>: every record is
  checked and every decision scanned again, the shadow report collects the statistics. The variables
  that the closure of \<open>replay_archive\<close> captures are the fields of \<open>reader_state\<close>; maps are the
  ordered maps of the prelude. Rejection reasons are data here, so \<open>reason_text\<close> is how the code
  prints them; the decimal printer is a parameter.
\<close>

section \<open>Rejection reasons as text\<close>

definition reason_text :: "(decimal \<Rightarrow> string) \<Rightarrow> reason \<Rightarrow> string" where
  "reason_text show_dec r = (case r of
      QuantityBelowMinimum v q m \<Rightarrow> v @ '' quantity '' @ show_dec q @ '' is below minimum '' @ show_dec m
    | QuantityAboveMaximum v q m \<Rightarrow> v @ '' quantity '' @ show_dec q @ '' exceeds maximum '' @ show_dec m
    | QuantityMisaligned v q s \<Rightarrow> v @ '' quantity '' @ show_dec q @ '' is not aligned to step '' @ show_dec s
    | NotionalBelowMinimum v n m \<Rightarrow> v @ '' notional '' @ show_dec n @ '' is below minimum '' @ show_dec m
    | NotionalAboveMaximum v n m \<Rightarrow> v @ '' notional '' @ show_dec n @ '' exceeds maximum '' @ show_dec m
    | FirstSnapshotAge a l \<Rightarrow> ''first snapshot age '' @ show_nat (unat a) @ '' ms exceeds limit '' @ show_nat (unat l) @ '' ms''
    | SecondSnapshotAge a l \<Rightarrow> ''second snapshot age '' @ show_nat (unat a) @ '' ms exceeds limit '' @ show_nat (unat l) @ '' ms''
    | ReceiveSkew s l \<Rightarrow> ''snapshot receive skew '' @ show_nat (unat s) @ '' ms exceeds limit '' @ show_nat (unat l) @ '' ms''
    | ProfitBelowMinimum p m \<Rightarrow> ''admission profit '' @ show_dec p @ '' is below minimum '' @ show_dec m
    | NetBpsBelowMinimum p m \<Rightarrow> ''admission net bps '' @ show_dec p @ '' is below minimum '' @ show_dec m
    | OtherReason s \<Rightarrow> s)"

definition category_prefixes :: "(string \<times> string) list" where
  "category_prefixes = [(''admission profit '', ''admission_profit_below_minimum''),
     (''admission net bps '', ''admission_net_bps_below_minimum''),
     (''first snapshot age '', ''first_snapshot_stale''),
     (''second snapshot age '', ''second_snapshot_stale''),
     (''snapshot receive skew '', ''snapshot_receive_skew'')]"

definition strip_prefix :: "string \<Rightarrow> string \<Rightarrow> string option" where
  "strip_prefix s p = (if starts_with s p then Some (drop (length p) s) else None)"

definition detail_category :: "string \<Rightarrow> string option" where
  "detail_category d =
     (if starts_with d ''account metadata refresh failed:'' then Some ''account_metadata_refresh_failed''
      else if starts_with d ''API key has forbidden permissions:'' then Some ''forbidden_api_permissions''
      else if contains_str d '' quantity '' \<or> starts_with d ''quantity '' then Some ''quantity_filter''
      else if contains_str d '' notional '' \<or> starts_with d ''notional '' then Some ''notional_filter''
      else if d = ''region eligibility is not confirmed'' then Some ''region_eligibility_unconfirmed''
      else if d = ''account eligibility is not confirmed'' then Some ''account_eligibility_unconfirmed''
      else if d = ''read-only credentials are not configured'' then Some ''credentials_not_configured''
      else if d = ''actual account fee unavailable; configured fallback is observation-only''
        then Some ''actual_fee_unavailable''
      else if d = ''actual account fee is expired'' then Some ''actual_fee_expired''
      else if d = ''API key is not read-only'' then Some ''api_key_not_read_only''
      else if d = ''API key has forbidden withdrawal permission'' then Some ''forbidden_withdrawal_permission''
      else None)"

text \<open>The loop over the two venue names.\<close>

fun venue_category :: "string list \<Rightarrow> string \<Rightarrow> string" where
  "venue_category [] reason = ''other_rejection_reason''"
| "venue_category (venue # venues) reason =
     (case strip_prefix reason (venue @ '' '') of
        None \<Rightarrow> venue_category venues reason
      | Some d \<Rightarrow> (case detail_category d of
            None \<Rightarrow> ''other_rejection_reason'' | Some c \<Rightarrow> venue @ '':'' @ c))"

definition rejection_reason_category :: "string \<Rightarrow> string" where
  "rejection_reason_category reason =
     (case find (\<lambda>(p, c). starts_with reason p) category_prefixes of
        Some (p, c) \<Rightarrow> c
      | None \<Rightarrow> venue_category [''binance'', ''bybit''] reason)"

section \<open>Statistics\<close>

record tail_sample =
  ts_event_id :: string
  ts_buy_venue :: string
  ts_sell_venue :: string
  ts_admission_profit :: decimal
  ts_admission_net_bps :: decimal

record distribution =
  ds_minimum :: decimal
  ds_p50 :: decimal
  ds_p95 :: decimal
  ds_maximum :: decimal

definition tail_sample_limit :: nat where
  "tail_sample_limit = 5"

definition percentile :: "decimal list \<Rightarrow> nat \<Rightarrow> nat \<Rightarrow> decimal" where
  "percentile xs numerator denominator = xs ! ((length xs - 1) * numerator div denominator)"

definition distribution_of :: "decimal list \<Rightarrow> distribution option" where
  "distribution_of xs =
     (if xs = [] then None
      else Some \<lparr>ds_minimum = xs ! 0, ds_p50 = percentile xs 50 100,
        ds_p95 = percentile xs 95 100, ds_maximum = xs ! (length xs - 1)\<rparr>)"

definition side_quantity :: "level list \<Rightarrow> decimal" where
  "side_quantity levels = sum_list (map lv_quantity levels)"

definition visible_direction_capacities :: "order_book_snapshot \<times> order_book_snapshot \<Rightarrow> decimal list" where
  "visible_direction_capacities books =
     [min (side_quantity (ob_asks (fst books))) (side_quantity (ob_bids (snd books))),
      min (side_quantity (ob_asks (snd books))) (side_quantity (ob_bids (fst books)))]"

section \<open>The replay\<close>

record reader_state =
  rs_profits :: "decimal list"
  rs_tails :: "tail_sample list"
  rs_rejection_reason_counts :: "(string \<times> u64) list"
  rs_run_reconnects :: "((string \<times> string) \<times> u64) list"
  rs_run_ordinals :: "(string \<times> u64) list"
  rs_capacities :: "decimal list"
  rs_records :: u64
  rs_decision_records :: u64
  rs_health_records :: u64
  rs_accepted_opportunities :: u64
  rs_positive_net_opportunities :: u64
  rs_invalid_duration_ms :: u64
  rs_first_event_at_ms :: "u64 option"
  rs_last_event_at_ms :: "u64 option"
  rs_previous_invalid :: bool

definition reader_start :: reader_state where
  "reader_start = \<lparr>rs_profits = [], rs_tails = [], rs_rejection_reason_counts = [], rs_run_reconnects = [],
     rs_run_ordinals = [], rs_capacities = [], rs_records = 0, rs_decision_records = 0,
     rs_health_records = 0, rs_accepted_opportunities = 0, rs_positive_net_opportunities = 0,
     rs_invalid_duration_ms = 0, rs_first_event_at_ms = None, rs_last_event_at_ms = None,
     rs_previous_invalid = False\<rparr>"

definition entry_or :: "'v \<Rightarrow> ('k::linorder \<times> 'v) list \<Rightarrow> 'k \<Rightarrow> 'v" where
  "entry_or d m k = (case map_of m k of Some v \<Rightarrow> v | None \<Rightarrow> d)"

definition increment_rejection_count :: "string \<Rightarrow> (string \<times> u64) list \<Rightarrow> (string \<times> u64) list" where
  "increment_rejection_count reason counts =
     (let c = rejection_reason_category reason in bt_insert c (entry_or 0 counts c + 1) counts)"

definition note_reconnects :: "string \<Rightarrow> feed_version \<Rightarrow> ((string \<times> string) \<times> u64) list
    \<Rightarrow> ((string \<times> string) \<times> u64) list" where
  "note_reconnects run_id feed m =
     (let k = (run_id, fv_venue feed) in bt_insert k (max (entry_or (fv_reconnects feed) m k) (fv_reconnects feed)) m)"

definition sample_of :: "string \<Rightarrow> opportunity \<Rightarrow> tail_sample" where
  "sample_of event_id x = \<lparr>ts_event_id = event_id, ts_buy_venue = op_buy_venue x,
     ts_sell_venue = op_sell_venue x, ts_admission_profit = op_admission_profit x,
     ts_admission_net_bps = op_admission_net_bps x\<rparr>"

definition keep_tails :: "tail_sample \<Rightarrow> tail_sample list \<Rightarrow> tail_sample list" where
  "keep_tails t tails = take tail_sample_limit (sort_key ts_admission_profit (tails @ [t]))"

definition note_opportunity :: "(decimal \<Rightarrow> string) \<Rightarrow> string \<Rightarrow> opportunity \<Rightarrow> reader_state \<Rightarrow> reader_state" where
  "note_opportunity show_dec event_id x s = s
     \<lparr>rs_profits := rs_profits s @ [op_expected_net_profit x],
      rs_positive_net_opportunities := rs_positive_net_opportunities s + (if op_expected_net_profit x > 0 then 1 else 0),
      rs_accepted_opportunities := rs_accepted_opportunities s + (if op_accepted x then 1 else 0),
      rs_rejection_reason_counts := fold increment_rejection_count
        (map (reason_text show_dec) (op_rejection_reasons x)) (rs_rejection_reason_counts s),
      rs_tails := keep_tails (sample_of event_id x) (rs_tails s)\<rparr>"

definition note_time :: "u64 \<Rightarrow> reader_state \<Rightarrow> reader_state result" where
  "note_time t s =
     (case rs_last_event_at_ms s of
        None \<Rightarrow> Inr (s\<lparr>rs_first_event_at_ms := Some t\<rparr>)
      | Some previous \<Rightarrow>
          if t < previous then Inl (Bail ''archive event time moved backward'')
          else if rs_previous_invalid s
          then Inr (s\<lparr>rs_invalid_duration_ms := saturating_add (rs_invalid_duration_ms s) (saturating_sub t previous)\<rparr>)
          else Inr s)"

definition is_invalid_event :: "archived_event \<Rightarrow> bool" where
  "is_invalid_event v \<longleftrightarrow> (case v of Health _ \<Rightarrow> True | Decision _ \<Rightarrow> False)
     \<or> fv_state (fst (event_feeds v)) \<noteq> Valid \<or> fv_state (snd (event_feeds v)) \<noteq> Valid"

definition note_feeds :: "archive_record \<Rightarrow> reader_state \<Rightarrow> reader_state" where
  "note_feeds r s = s
     \<lparr>rs_run_ordinals := bt_insert (ar_run_id r) (ar_ordinal r) (rs_run_ordinals s),
      rs_previous_invalid := is_invalid_event (ar_event r),
      rs_last_event_at_ms := Some (event_observed_at_ms (ar_event r)),
      rs_records := rs_records s + 1,
      rs_run_reconnects := note_reconnects (ar_run_id r) (snd (event_feeds (ar_event r)))
        (note_reconnects (ar_run_id r) (fst (event_feeds (ar_event r))) (rs_run_reconnects s))\<rparr>"

definition note_event :: "(decimal \<Rightarrow> string) \<Rightarrow> (decision_config \<Rightarrow> string) \<Rightarrow> (decimal \<Rightarrow> decimal \<Rightarrow> decimal)
    \<Rightarrow> archive_record \<Rightarrow> reader_state \<Rightarrow> reader_state result" where
  "note_event show_dec version dv r s =
     (case ar_event r of
        Health _ \<Rightarrow> Inr (s\<lparr>rs_health_records := rs_health_records s + 1\<rparr>)
      | Decision e \<Rightarrow>
          then_do (replay version dv e) (\<lambda>replayed.
          if replayed \<noteq> dn_report e then Inl (Bail ''replay mismatch'')
          else Inr (fold (note_opportunity show_dec (ar_event_id r)) (sr_directions (dn_report e))
            (s\<lparr>rs_decision_records := rs_decision_records s + 1,
               rs_capacities := rs_capacities s @ visible_direction_capacities (dn_books e)\<rparr>))))"

definition visit_record :: "(decimal \<Rightarrow> string) \<Rightarrow> (decision_config \<Rightarrow> string) \<Rightarrow> (decimal \<Rightarrow> decimal \<Rightarrow> decimal)
    \<Rightarrow> archive_record \<Rightarrow> reader_state \<Rightarrow> reader_state result" where
  "visit_record show_dec version dv r s =
     (if ar_schema_version r \<noteq> schema_version then Inl (Bail ''unsupported archive schema'')
      else then_do (note_time (event_observed_at_ms (ar_event r)) s) (\<lambda>s.
        if ar_ordinal r \<le> entry_or 0 (rs_run_ordinals s) (ar_run_id r)
        then Inl (Bail ''archive ordinal is not increasing for run'')
        else note_event show_dec version dv r (note_feeds r s)))"

section \<open>The report\<close>

record shadow_report =
  sh_schema_version :: "16 word"
  sh_archive_bytes :: nat
  sh_ignored_incomplete_tail_bytes :: nat
  sh_records :: u64
  sh_decision_records :: u64
  sh_health_records :: u64
  sh_first_event_at_ms :: "u64 option"
  sh_last_event_at_ms :: "u64 option"
  sh_observed_duration_ms :: u64
  sh_online_duration_ms :: u64
  sh_invalid_duration_ms :: u64
  sh_reconnects :: "(string \<times> u64) list"
  sh_direction_evaluations :: nat
  sh_positive_net_opportunities :: u64
  sh_accepted_opportunities :: u64
  sh_net_profit_distribution :: "distribution option"
  sh_visible_capacity :: "distribution option"
  sh_rejection_reason_counts :: "(string \<times> u64) list"
  sh_tail_samples :: "tail_sample list"
  sh_gap_records :: u64
  sh_dropped_events :: u64
  sh_ignored_gap_tail_bytes :: nat

text \<open>The gap journal: the number of gaps and of dropped events.\<close>

definition visit_gap :: "archive_gap \<Rightarrow> u64 \<times> u64 \<Rightarrow> (u64 \<times> u64) result" where
  "visit_gap g c = Inr (fst c + 1, saturating_add (snd c) (ag_dropped_events g))"

definition read_gap_totals :: "(byte list \<Rightarrow> archive_gap result) \<Rightarrow> byte list option
    \<Rightarrow> ((u64 \<times> u64) \<times> snapshot_read) result" where
  "read_gap_totals decode_gap gap_file = for_each_snapshot_record decode_gap True visit_gap gap_file (0, 0)"

definition total_reconnects :: "((string \<times> string) \<times> u64) list \<Rightarrow> (string \<times> u64) list" where
  "total_reconnects m = fold (\<lambda>((_, venue), count) acc. bt_insert venue (entry_or 0 acc venue + count) acc) m []"

definition observed_duration :: "reader_state \<Rightarrow> u64" where
  "observed_duration s = (case (rs_first_event_at_ms s, rs_last_event_at_ms s) of
     (Some t, Some t') \<Rightarrow> saturating_sub t' t | _ \<Rightarrow> 0)"

definition shadow_report_of :: "reader_state \<Rightarrow> snapshot_read \<Rightarrow> (u64 \<times> u64) \<times> snapshot_read \<Rightarrow> shadow_report" where
  "shadow_report_of s read gaps = \<lparr>sh_schema_version = schema_version, sh_archive_bytes = sp_bytes read,
     sh_ignored_incomplete_tail_bytes = sp_ignored_tail_bytes read,
     sh_records = rs_records s, sh_decision_records = rs_decision_records s,
     sh_health_records = rs_health_records s, sh_first_event_at_ms = rs_first_event_at_ms s,
     sh_last_event_at_ms = rs_last_event_at_ms s, sh_observed_duration_ms = observed_duration s,
     sh_online_duration_ms = saturating_sub (observed_duration s) (rs_invalid_duration_ms s),
     sh_invalid_duration_ms = rs_invalid_duration_ms s,
     sh_reconnects = total_reconnects (rs_run_reconnects s),
     sh_direction_evaluations = length (rs_profits s),
     sh_positive_net_opportunities = rs_positive_net_opportunities s,
     sh_accepted_opportunities = rs_accepted_opportunities s,
     sh_net_profit_distribution = distribution_of (sort (rs_profits s)),
     sh_visible_capacity = distribution_of (sort (rs_capacities s)),
     sh_rejection_reason_counts = rs_rejection_reason_counts s, sh_tail_samples = rs_tails s,
     sh_gap_records = fst (fst gaps), sh_dropped_events = snd (fst gaps),
     sh_ignored_gap_tail_bytes = sp_ignored_tail_bytes (snd gaps)\<rparr>"

definition replay_archive :: "(decimal \<Rightarrow> string) \<Rightarrow> (decision_config \<Rightarrow> string) \<Rightarrow> (decimal \<Rightarrow> decimal \<Rightarrow> decimal)
    \<Rightarrow> (byte list \<Rightarrow> archive_record result) \<Rightarrow> (byte list \<Rightarrow> archive_gap result)
    \<Rightarrow> byte list option \<Rightarrow> byte list option \<Rightarrow> shadow_report result" where
  "replay_archive show_dec version dv decode decode_gap file gap_file =
     then_do (for_each_snapshot_record decode False (visit_record show_dec version dv) file reader_start) (\<lambda>(s, read).
     then_do (read_gap_totals decode_gap gap_file) (\<lambda>gaps. Inr (shadow_report_of s read gaps)))"

section \<open>The kept samples\<close>

text \<open>Insertion behind the elements with the same key, as a stable sort puts an appended element.\<close>

fun insert_behind :: "('a \<Rightarrow> 'k::linorder) \<Rightarrow> 'a \<Rightarrow> 'a list \<Rightarrow> 'a list" where
  "insert_behind f x [] = [x]"
| "insert_behind f x (y # ys) = (if f y \<le> f x then y # insert_behind f x ys else x # y # ys)"

lemma insort_insert_behind:
  "insort_key f a (insert_behind f x ys) = insert_behind f x (insort_key f a ys)"
  by (induction ys) auto

lemma sort_key_snoc: "sort_key f (xs @ [x]) = insert_behind f x (sort_key f xs)"
  by (induction xs) (simp_all add: insort_insert_behind)

lemma take_insert_behind: "take n (insert_behind f x (take n ys)) = take n (insert_behind f x ys)"
proof (induction ys arbitrary: n)
  case (Cons y ys)
  show ?case
  proof (cases n)
    case (Suc m)
    have "take m (y # take m ys) = take m (y # ys)" by (cases m) (simp_all add: min_def)
    then show ?thesis using Cons[of m] Suc by simp
  qed simp
qed simp

lemma take_sort_key_snoc:
  "take n (sort_key f (take n (sort_key f xs) @ [x])) = take n (sort_key f (xs @ [x]))"
proof -
  have "sorted (map f (take n (sort_key f xs)))"
    by (simp add: take_map[symmetric] sorted_wrt_take)
  then have "sort_key f (take n (sort_key f xs)) = take n (sort_key f xs)" by (rule sort_key_id_if_sorted)
  then show ?thesis by (simp add: sort_key_snoc take_insert_behind)
qed

lemma keep_tails_smallest:
  "keep_tails t (take tail_sample_limit (sort_key ts_admission_profit ts))
     = take tail_sample_limit (sort_key ts_admission_profit (ts @ [t]))"
  unfolding keep_tails_def by (rule take_sort_key_snoc)

section \<open>What the records determine\<close>

definition record_samples :: "archive_record \<Rightarrow> tail_sample list" where
  "record_samples r = (case ar_event r of Health _ \<Rightarrow> []
     | Decision e \<Rightarrow> map (sample_of (ar_event_id r)) (sr_directions (dn_report e)))"

definition record_profits :: "archive_record \<Rightarrow> decimal list" where
  "record_profits r = (case ar_event r of Health _ \<Rightarrow> []
     | Decision e \<Rightarrow> map op_expected_net_profit (sr_directions (dn_report e)))"

definition record_time :: "archive_record \<Rightarrow> u64" where
  "record_time r = event_observed_at_ms (ar_event r)"

definition run_ordinals :: "string \<Rightarrow> archive_record list \<Rightarrow> u64 list" where
  "run_ordinals run rs = map ar_ordinal (filter (\<lambda>r. ar_run_id r = run) rs)"

definition record_replays :: "(decision_config \<Rightarrow> string) \<Rightarrow> (decimal \<Rightarrow> decimal \<Rightarrow> decimal) \<Rightarrow> archive_record \<Rightarrow> bool" where
  "record_replays version dv r = (case ar_event r of Health _ \<Rightarrow> True
     | Decision e \<Rightarrow> replay version dv e = Inr (dn_report e))"

definition archive_acceptable :: "(decision_config \<Rightarrow> string) \<Rightarrow> (decimal \<Rightarrow> decimal \<Rightarrow> decimal)
    \<Rightarrow> archive_record list \<Rightarrow> bool" where
  "archive_acceptable version dv rs \<longleftrightarrow>
     (\<forall>r \<in> set rs. ar_schema_version r = schema_version \<and> record_replays version dv r)
     \<and> sorted (map record_time rs)
     \<and> (\<forall>run. sorted_wrt (<) (0 # run_ordinals run rs))"

text \<open>The state of the reader after the records \<open>rs\<close>.\<close>

definition reader_inv :: "archive_record list \<Rightarrow> reader_state \<Rightarrow> bool" where
  "reader_inv rs s \<longleftrightarrow>
     rs_records s = of_nat (length rs)
     \<and> rs_tails s = take tail_sample_limit (sort_key ts_admission_profit (concat (map record_samples rs)))
     \<and> rs_profits s = concat (map record_profits rs)
     \<and> rs_first_event_at_ms s = (if rs = [] then None else Some (record_time (hd rs)))
     \<and> rs_last_event_at_ms s = (if rs = [] then None else Some (record_time (last rs)))
     \<and> bt_wf (rs_run_ordinals s)
     \<and> (\<forall>run. entry_or 0 (rs_run_ordinals s) run = last (0 # run_ordinals run rs))
     \<and> (rs = [] \<longrightarrow> rs_invalid_duration_ms s = 0)
     \<and> (rs \<noteq> [] \<longrightarrow> unat (record_time (hd rs)) + unat (rs_invalid_duration_ms s) \<le> unat (record_time (last rs)))"

lemma visit_all_append: "visit_all visit (xs @ ys) s = then_do (visit_all visit xs s) (visit_all visit ys)"
proof (induction xs arbitrary: s)
  case (Cons x xs)
  then show ?case by (cases "visit x s") auto
qed simp

definition same_records :: "reader_state \<Rightarrow> reader_state \<Rightarrow> bool" where
  "same_records s s' \<longleftrightarrow> rs_records s' = rs_records s \<and> rs_first_event_at_ms s' = rs_first_event_at_ms s
     \<and> rs_last_event_at_ms s' = rs_last_event_at_ms s \<and> rs_run_ordinals s' = rs_run_ordinals s
     \<and> rs_invalid_duration_ms s' = rs_invalid_duration_ms s"

lemma fold_note_opportunity:
  "rs_tails s = take tail_sample_limit (sort_key ts_admission_profit ts) \<Longrightarrow>
     rs_tails (fold (note_opportunity d i) xs s)
       = take tail_sample_limit (sort_key ts_admission_profit (ts @ map (sample_of i) xs))
     \<and> rs_profits (fold (note_opportunity d i) xs s) = rs_profits s @ map op_expected_net_profit xs
     \<and> same_records s (fold (note_opportunity d i) xs s)"
proof (induction xs arbitrary: s ts)
  case (Cons x xs)
  have tails: "rs_tails (note_opportunity d i x s) = take tail_sample_limit (sort_key ts_admission_profit (ts @ [sample_of i x]))"
    using Cons.prems by (simp add: note_opportunity_def keep_tails_smallest)
  from Cons.IH[OF tails] show ?case by (simp add: note_opportunity_def same_records_def)
qed (simp add: same_records_def)

text \<open>One visit: when it succeeds, and what it leaves.\<close>

definition visit_allowed :: "(decision_config \<Rightarrow> string) \<Rightarrow> (decimal \<Rightarrow> decimal \<Rightarrow> decimal) \<Rightarrow> archive_record
    \<Rightarrow> reader_state \<Rightarrow> bool" where
  "visit_allowed version dv r s \<longleftrightarrow> ar_schema_version r = schema_version
     \<and> (\<forall>t \<in> set_option (rs_last_event_at_ms s). t \<le> record_time r)
     \<and> entry_or 0 (rs_run_ordinals s) (ar_run_id r) < ar_ordinal r \<and> record_replays version dv r"

lemma note_time_ok_iff: "is_ok (note_time t s) \<longleftrightarrow> (\<forall>p \<in> set_option (rs_last_event_at_ms s). p \<le> t)"
  by (auto simp: note_time_def split: option.split)

lemma note_time_fields:
  "note_time t s = Inr s' \<Longrightarrow> rs_run_ordinals s' = rs_run_ordinals s \<and> rs_records s' = rs_records s
     \<and> rs_tails s' = rs_tails s \<and> rs_profits s' = rs_profits s
     \<and> rs_first_event_at_ms s' = (if rs_last_event_at_ms s = None then Some t else rs_first_event_at_ms s)
     \<and> (rs_last_event_at_ms s = None \<longrightarrow> rs_invalid_duration_ms s' = rs_invalid_duration_ms s)
     \<and> (\<forall>p. rs_last_event_at_ms s = Some p \<longrightarrow> p \<le> t
         \<and> unat (rs_invalid_duration_ms s') \<le> unat (rs_invalid_duration_ms s) + (unat t - unat p))"
  by (auto simp: note_time_def unat_saturating_add unat_saturating_sub not_less split: option.splits if_splits)

lemma note_event_ok_iff: "is_ok (note_event d version dv r s) \<longleftrightarrow> record_replays version dv r"
  by (auto simp: note_event_def record_replays_def is_ok_iff split: archived_event.split)

lemma note_event_fields:
  assumes "note_event d version dv r s = Inr s'"
    and "rs_tails s = take tail_sample_limit (sort_key ts_admission_profit ts)"
  shows "rs_tails s' = take tail_sample_limit (sort_key ts_admission_profit (ts @ record_samples r))
    \<and> rs_profits s' = rs_profits s @ record_profits r \<and> same_records s s'"
proof (cases "ar_event r")
  case (Decision e)
  let ?s = "s\<lparr>rs_decision_records := rs_decision_records s + 1,
     rs_capacities := rs_capacities s @ visible_direction_capacities (dn_books e)\<rparr>"
  have "s' = fold (note_opportunity d (ar_event_id r)) (sr_directions (dn_report e)) ?s"
    using assms(1) Decision by (auto simp: note_event_def split: if_splits)
  then show ?thesis using fold_note_opportunity[of ?s ts d "ar_event_id r"] assms(2) Decision
    by (simp add: record_samples_def record_profits_def same_records_def)
next
  case (Health h)
  then show ?thesis using assms
    by (auto simp: note_event_def record_samples_def record_profits_def same_records_def)
qed

lemma visit_record_ok_iff: "is_ok (visit_record d version dv r s) \<longleftrightarrow> visit_allowed version dv r s"
proof (cases "note_time (record_time r) s")
  case (Inl e)
  then have "\<not> is_ok (note_time (record_time r) s)" by simp
  then show ?thesis using Inl
    by (auto simp: visit_record_def visit_allowed_def record_time_def note_time_ok_iff)
next
  case (Inr s1)
  then have "is_ok (note_time (record_time r) s)" "rs_run_ordinals s1 = rs_run_ordinals s"
    using note_time_fields by auto
  then show ?thesis using Inr
    by (auto simp: visit_record_def visit_allowed_def record_time_def note_time_ok_iff note_event_ok_iff not_le)
qed

lemma sorted_wrt_snoc:
  assumes "transp P" "xs \<noteq> []"
  shows "sorted_wrt P (xs @ [y]) \<longleftrightarrow> sorted_wrt P xs \<and> P (last xs) y"
proof -
  obtain zs l where "xs = zs @ [l]" using assms(2) by (cases xs rule: rev_cases) auto
  then show ?thesis using transpD[OF assms(1)] by (auto simp: sorted_wrt_append)
qed

lemma run_ordinals_snoc:
  "run_ordinals run (rs @ [r]) = run_ordinals run rs @ (if ar_run_id r = run then [ar_ordinal r] else [])"
  by (simp add: run_ordinals_def)

lemma archive_acceptable_snoc:
  "archive_acceptable version dv (rs @ [r]) \<longleftrightarrow> archive_acceptable version dv rs
     \<and> ar_schema_version r = schema_version \<and> record_replays version dv r
     \<and> (rs \<noteq> [] \<longrightarrow> record_time (last rs) \<le> record_time r)
     \<and> last (0 # run_ordinals (ar_run_id r) rs) < ar_ordinal r"
proof -
  have time: "sorted (map record_time (rs @ [r])) \<longleftrightarrow> sorted (map record_time rs)
      \<and> (rs \<noteq> [] \<longrightarrow> record_time (last rs) \<le> record_time r)"
    using sorted_wrt_snoc[of "(\<le>)" "map record_time rs" "record_time r"]
    by (cases "rs = []") (simp_all add: last_map)
  have "(\<forall>run. sorted_wrt (<) (0 # run_ordinals run (rs @ [r]))) \<longleftrightarrow>
      (\<forall>run. sorted_wrt (<) (0 # run_ordinals run rs)) \<and> last (0 # run_ordinals (ar_run_id r) rs) < ar_ordinal r"
  proof -
    have run: "sorted_wrt (<) (0 # run_ordinals (ar_run_id r) (rs @ [r])) \<longleftrightarrow>
        sorted_wrt (<) (0 # run_ordinals (ar_run_id r) rs) \<and> last (0 # run_ordinals (ar_run_id r) rs) < ar_ordinal r"
      unfolding run_ordinals_snoc
      using sorted_wrt_snoc[of "(<)" "0 # run_ordinals (ar_run_id r) rs" "ar_ordinal r"] by simp
    have other: "run \<noteq> ar_run_id r \<Longrightarrow> run_ordinals run (rs @ [r]) = run_ordinals run rs" for run
      by (simp add: run_ordinals_snoc)
    show ?thesis using run other by metis
  qed
  then show ?thesis using time unfolding archive_acceptable_def by auto
qed

lemma visit_record_inv:
  assumes inv: "reader_inv rs s" and ok: "visit_record d version dv r s = Inr s'"
  shows "reader_inv (rs @ [r]) s'"
proof -
  note i = inv[unfolded reader_inv_def]
  from ok obtain s1 where s1: "note_time (record_time r) s = Inr s1"
    and ord: "entry_or 0 (rs_run_ordinals s1) (ar_run_id r) < ar_ordinal r"
    and ev: "note_event d version dv r (note_feeds r s1) = Inr s'"
    by (auto simp: visit_record_def record_time_def not_le split: if_splits)
  note t = note_time_fields[OF s1]
  have f: "rs_tails (note_feeds r s1) = rs_tails s" "rs_profits (note_feeds r s1) = rs_profits s"
    "rs_records (note_feeds r s1) = rs_records s + 1"
    "rs_first_event_at_ms (note_feeds r s1) = rs_first_event_at_ms s1"
    "rs_last_event_at_ms (note_feeds r s1) = Some (record_time r)"
    "rs_invalid_duration_ms (note_feeds r s1) = rs_invalid_duration_ms s1"
    "rs_run_ordinals (note_feeds r s1) = bt_insert (ar_run_id r) (ar_ordinal r) (rs_run_ordinals s)"
    using t by (simp_all add: note_feeds_def record_time_def)
  have e: "rs_tails s' = take tail_sample_limit (sort_key ts_admission_profit (concat (map record_samples rs) @ record_samples r))
    \<and> rs_profits s' = rs_profits s @ record_profits r \<and> same_records (note_feeds r s1) s'"
    using note_event_fields[OF ev, of "concat (map record_samples rs)"] f i by simp
  have ords: "entry_or 0 (bt_insert (ar_run_id r) (ar_ordinal r) (rs_run_ordinals s)) run
      = last (0 # run_ordinals run (rs @ [r]))" for run
    using i by (auto simp: entry_or_def map_of_bt_insert run_ordinals_snoc)
  have dur: "rs \<noteq> [] \<Longrightarrow> unat (record_time (hd rs)) + unat (rs_invalid_duration_ms s1) \<le> unat (record_time r)"
  proof -
    assume ne: "rs \<noteq> []"
    then have "record_time (last rs) \<le> record_time r"
      "unat (rs_invalid_duration_ms s1) \<le> unat (rs_invalid_duration_ms s) + (unat (record_time r) - unat (record_time (last rs)))"
      using t i by simp_all
    moreover have "unat (record_time (hd rs)) + unat (rs_invalid_duration_ms s) \<le> unat (record_time (last rs))"
      using i ne by blast
    ultimately show ?thesis unfolding word_le_nat_alt by linarith
  qed
  have "rs_first_event_at_ms s1 = Some (record_time (hd (rs @ [r])))" "rs = [] \<longrightarrow> rs_invalid_duration_ms s1 = 0"
    using t i by (auto split: if_splits)
  then show ?thesis using e f i ords dur
    by (cases "rs = []") (simp_all add: reader_inv_def same_records_def bt_wf_insert)
qed

lemma reader_start_inv: "reader_inv [] reader_start"
  by (simp add: reader_inv_def reader_start_def entry_or_def run_ordinals_def)

lemma visit_allowed_snoc:
  assumes "reader_inv rs s" "archive_acceptable version dv rs"
  shows "visit_allowed version dv r s \<longleftrightarrow> archive_acceptable version dv (rs @ [r])"
  using assms unfolding archive_acceptable_snoc
  by (cases "rs = []") (auto simp: visit_allowed_def reader_inv_def)

lemma visit_all_records:
  "(is_ok (visit_all (visit_record d version dv) rs reader_start) \<longleftrightarrow> archive_acceptable version dv rs)
   \<and> (\<forall>s. visit_all (visit_record d version dv) rs reader_start = Inr s \<longrightarrow> reader_inv rs s)"
proof (induction rs rule: rev_induct)
  case Nil
  show ?case by (simp add: reader_start_inv archive_acceptable_def run_ordinals_def)
next
  case (snoc r rs)
  show ?case
  proof (cases "visit_all (visit_record d version dv) rs reader_start")
    case (Inl e)
    then have "\<not> archive_acceptable version dv rs" using snoc by simp
    then show ?thesis using Inl by (simp add: visit_all_append archive_acceptable_snoc)
  next
    case (Inr s)
    then have inv: "reader_inv rs s" and acc: "archive_acceptable version dv rs" using snoc by auto
    have step: "visit_all (visit_record d version dv) (rs @ [r]) reader_start = visit_record d version dv r s"
      using Inr by (cases "visit_record d version dv r s") (simp_all add: visit_all_append)
    show ?thesis unfolding step
      using visit_record_ok_iff[of d version dv r s] visit_allowed_snoc[OF inv acc] visit_record_inv[OF inv]
      by blast
  qed
qed

section \<open>Properties of the replay\<close>

text \<open>C26. The replay of records succeeds exactly when every record has the known schema, times never go
  back, the ordinals of each run increase from above zero, and every decision replays to its own report; it
  then has counted every record, kept every profit, and kept the five samples of least admission profit.\<close>

theorem replay_accepts_exactly:
  "(is_ok (visit_all (visit_record d version dv) rs reader_start) \<longleftrightarrow> archive_acceptable version dv rs)
   \<and> (\<forall>s \<in> set_option (case visit_all (visit_record d version dv) rs reader_start of Inl e \<Rightarrow> None | Inr s \<Rightarrow> Some s).
        rs_records s = of_nat (length rs) \<and> rs_profits s = concat (map record_profits rs)
      \<and> rs_tails s = take tail_sample_limit (sort_key ts_admission_profit (concat (map record_samples rs))))"
  using visit_all_records[of d version dv rs] by (auto simp: reader_inv_def split: sum.split)

lemma replay_accepts_exactly_witness:
  "\<not> is_ok (visit_all (visit_record (\<lambda>_. []) (\<lambda>_. []) exact_div)
      [archive_record_new ''0.1.0'' 5 ''r'' 2 30 sample_health, archive_record_new ''0.1.0'' 5 ''r'' 1 30 sample_health]
      reader_start)"
proof -
  have "\<not> archive_acceptable (\<lambda>_. []) exact_div
      [archive_record_new ''0.1.0'' 5 ''r'' 2 30 sample_health, archive_record_new ''0.1.0'' 5 ''r'' 1 30 sample_health]"
    by (auto simp: archive_acceptable_def run_ordinals_def archive_record_new_def intro!: exI[of _ "''r''"])
  then show ?thesis using conjunct1[OF replay_accepts_exactly] by blast
qed

lemma distribution_ordered:
  assumes "distribution_of (sort xs) = Some x"
  shows "ds_minimum x \<le> ds_p50 x \<and> ds_p50 x \<le> ds_p95 x \<and> ds_p95 x \<le> ds_maximum x"
proof -
  let ?ys = "sort xs"
  have ne: "?ys \<noteq> []" and x: "ds_minimum x = ?ys ! 0" "ds_p50 x = percentile ?ys 50 100"
    "ds_p95 x = percentile ?ys 95 100" "ds_maximum x = ?ys ! (length ?ys - 1)"
    using assms by (auto simp: distribution_of_def split: if_splits)
  let ?n = "length ?ys - 1"
  have len: "0 < length ?ys" using ne by blast
  have "?n * 50 div 100 \<le> ?n * 95 div 100" "?n * 95 div 100 \<le> ?n" by (auto intro: div_le_mono)
  moreover have "i \<le> j \<Longrightarrow> j \<le> ?n \<Longrightarrow> ?ys ! i \<le> ?ys ! j" for i j
    using len by (intro sorted_nth_mono) (simp, assumption, linarith)
  ultimately show ?thesis unfolding x percentile_def by simp
qed

text \<open>C40. In a shadow report the online and the invalid time add up to the observed time, and each
  distribution is ordered: minimum, median, 95th percentile, maximum.\<close>

theorem report_durations_add_up:
  assumes "replay_archive d version dv decode decode_gap (Some (write_lines encode rs @ rest)) journal = Inr r"
    and "\<forall>x \<in> set rs. line_of encode decode x" "newline \<notin> set rest"
  shows "unat (sh_online_duration_ms r) + unat (sh_invalid_duration_ms r) = unat (sh_observed_duration_ms r)
    \<and> sh_records r = of_nat (length rs) \<and> sh_ignored_incomplete_tail_bytes r = length rest
    \<and> (\<forall>x \<in> set_option (sh_net_profit_distribution r) \<union> set_option (sh_visible_capacity r).
         ds_minimum x \<le> ds_p50 x \<and> ds_p50 x \<le> ds_p95 x \<and> ds_p95 x \<le> ds_maximum x)"
proof -
  from assms(1) obtain s ignored gaps where
    read: "each_line decode (visit_record d version dv) (write_lines encode rs @ rest) reader_start
      = Inr (s, ignored)"
    and r: "r = shadow_report_of s \<lparr>sp_bytes = length (write_lines encode rs @ rest),
      sp_ignored_tail_bytes = ignored\<rparr> gaps"
    by (auto simp: replay_archive_def for_each_snapshot_record_def)
  then have visited: "visit_all (visit_record d version dv) rs reader_start = Inr s"
    and tail: "ignored = length rest"
    unfolding each_line_written[OF assms(2,3)] by auto
  then have inv: "reader_inv rs s" using visit_all_records by blast
  have "unat (rs_invalid_duration_ms s) \<le> unat (observed_duration s)"
    using inv by (cases "rs = []") (auto simp: reader_inv_def observed_duration_def unat_saturating_sub)
  then have "unat (sh_online_duration_ms r) + unat (sh_invalid_duration_ms r) = unat (sh_observed_duration_ms r)"
    by (simp add: r shadow_report_of_def unat_saturating_sub)
  moreover have "sh_records r = of_nat (length rs)" "sh_ignored_incomplete_tail_bytes r = length rest"
    using inv tail by (simp_all add: r shadow_report_of_def reader_inv_def)
  moreover have "\<forall>x \<in> set_option (sh_net_profit_distribution r) \<union> set_option (sh_visible_capacity r).
         ds_minimum x \<le> ds_p50 x \<and> ds_p50 x \<le> ds_p95 x \<and> ds_p95 x \<le> ds_maximum x"
    by (auto simp: r shadow_report_of_def dest: distribution_ordered)
  ultimately show ?thesis by blast
qed

definition sample_archived :: archive_record where
  "sample_archived = archive_record_new ''0.1.0'' 5 ''r'' 1 30 sample_health"

lemma sample_line: "line_of (\<lambda>_. [65]) (\<lambda>_. Inr sample_archived) sample_archived"
  by (simp add: line_of_def newline_def is_ascii_whitespace_def)

lemma sample_archive_acceptable: "archive_acceptable v dv [sample_archived]"
  by (simp add: archive_acceptable_def sample_archived_def archive_record_new_def record_replays_def
      sample_health_def run_ordinals_def)

lemma report_durations_add_up_witness:
  "\<exists>r. replay_archive (\<lambda>_. []) (\<lambda>_. []) exact_div (\<lambda>_. Inr sample_archived) (\<lambda>_. Inl (Bail []))
      (Some (write_lines (\<lambda>_. [65]) [sample_archived] @ [66])) None = Inr r \<and> sh_records r = 1
      \<and> sh_ignored_incomplete_tail_bytes r = 1"
proof -
  have line: "\<forall>x \<in> set [sample_archived]. line_of (\<lambda>_. [65]) (\<lambda>_. Inr sample_archived) x" "newline \<notin> set [66]"
    using sample_line by (simp_all add: newline_def)
  have "is_ok (visit_all (visit_record (\<lambda>_. []) (\<lambda>_. []) exact_div) [sample_archived] reader_start)"
    unfolding conjunct1[OF visit_all_records] by (rule sample_archive_acceptable)
  then obtain s where "visit_all (visit_record (\<lambda>_. []) (\<lambda>_. []) exact_div) [sample_archived] reader_start = Inr s"
    unfolding is_ok_iff by blast
  then have "\<exists>r. replay_archive (\<lambda>_. []) (\<lambda>_. []) exact_div (\<lambda>_. Inr sample_archived) (\<lambda>_. Inl (Bail []))
      (Some (write_lines (\<lambda>_. [65]) [sample_archived] @ [66])) None = Inr r"
    by (simp only: replay_archive_def for_each_snapshot_record_def read_gap_totals_def option.case
        each_line_written[OF line] then_do_Inr prod.case) simp
  then obtain r where r: "replay_archive (\<lambda>_. []) (\<lambda>_. []) exact_div (\<lambda>_. Inr sample_archived) (\<lambda>_. Inl (Bail []))
      (Some (write_lines (\<lambda>_. [65]) [sample_archived] @ [66])) None = Inr r" by blast
  from report_durations_add_up[OF r line] have "sh_records r = 1 \<and> sh_ignored_incomplete_tail_bytes r = 1"
    by (intro conjI) simp_all
  with r show ?thesis by blast
qed

section \<open>Every reason of the program has a category\<close>

lemma starts_with_simps [simp]:
  "starts_with s []" "starts_with (c # cs) (p # ps) \<longleftrightarrow> c = p \<and> starts_with cs ps" "\<not> starts_with [] (p # ps)"
  by (auto simp: starts_with_def)

lemma contains_str_subset: "contains_str s p \<Longrightarrow> set p \<subseteq> set s"
  by (auto simp: contains_str_iff)

definition known_venue :: "string \<Rightarrow> bool" where
  "known_venue v \<longleftrightarrow> v = ''binance'' \<or> v = ''bybit''"

lemma venue_reason_category:
  assumes "known_venue v"
  shows "rejection_reason_category (v @ CHR '' '' # d) =
    (case detail_category d of None \<Rightarrow> ''other_rejection_reason'' | Some c \<Rightarrow> v @ CHR '':'' # c)"
proof -
  have "find (\<lambda>(p, c). starts_with (v @ CHR '' '' # d) p) category_prefixes = None"
    using assms unfolding known_venue_def category_prefixes_def by (elim disjE) simp_all
  then have "rejection_reason_category (v @ CHR '' '' # d) = venue_category [''binance'', ''bybit''] (v @ CHR '' '' # d)"
    by (simp only: rejection_reason_category_def option.case)
  also have "\<dots> = (case detail_category d of None \<Rightarrow> ''other_rejection_reason'' | Some c \<Rightarrow> v @ CHR '':'' # c)"
    using assms unfolding known_venue_def
    by (elim disjE; hypsubst; cases "detail_category d") (simp_all add: strip_prefix_def)
  finally show ?thesis .
qed

definition reason_category :: "reason \<Rightarrow> string" where
  "reason_category r = (case r of
      QuantityBelowMinimum v _ _ \<Rightarrow> v @ '':quantity_filter'' | QuantityAboveMaximum v _ _ \<Rightarrow> v @ '':quantity_filter''
    | QuantityMisaligned v _ _ \<Rightarrow> v @ '':quantity_filter''
    | NotionalBelowMinimum v _ _ \<Rightarrow> v @ '':notional_filter'' | NotionalAboveMaximum v _ _ \<Rightarrow> v @ '':notional_filter''
    | FirstSnapshotAge _ _ \<Rightarrow> ''first_snapshot_stale'' | SecondSnapshotAge _ _ \<Rightarrow> ''second_snapshot_stale''
    | ReceiveSkew _ _ \<Rightarrow> ''snapshot_receive_skew'' | ProfitBelowMinimum _ _ \<Rightarrow> ''admission_profit_below_minimum''
    | NetBpsBelowMinimum _ _ \<Rightarrow> ''admission_net_bps_below_minimum'' | OtherReason s \<Rightarrow> rejection_reason_category s)"

definition reason_venue_ok :: "reason \<Rightarrow> bool" where
  "reason_venue_ok r = (case r of
      QuantityBelowMinimum v _ _ \<Rightarrow> known_venue v | QuantityAboveMaximum v _ _ \<Rightarrow> known_venue v
    | QuantityMisaligned v _ _ \<Rightarrow> known_venue v | NotionalBelowMinimum v _ _ \<Rightarrow> known_venue v
    | NotionalAboveMaximum v _ _ \<Rightarrow> known_venue v | _ \<Rightarrow> True)"

lemma quantity_detail: "detail_category (''quantity '' @ x) = Some ''quantity_filter''"
  by (simp add: detail_category_def)

lemma notional_detail:
  assumes "CHR ''q'' \<notin> set x"
  shows "detail_category (''notional '' @ x) = Some ''notional_filter''"
proof -
  have "\<not> contains_str (''notional '' @ x) '' quantity ''"
    using contains_str_subset[of "''notional '' @ x" "'' quantity ''"] assms by auto
  then show ?thesis by (simp add: detail_category_def)
qed

lemma reason_text_category:
  assumes "\<And>d. CHR ''q'' \<notin> set (show_dec d)" "reason_venue_ok r"
  shows "rejection_reason_category (reason_text show_dec r) = reason_category r"
proof (cases r)
  case (NotionalBelowMinimum v n m)
  then show ?thesis
    using assms venue_reason_category[of v "''notional '' @ show_dec n @ '' is below minimum '' @ show_dec m"]
    by (simp add: reason_text_def reason_category_def reason_venue_ok_def notional_detail[simplified])
next
  case (NotionalAboveMaximum v n m)
  then show ?thesis
    using assms venue_reason_category[of v "''notional '' @ show_dec n @ '' exceeds maximum '' @ show_dec m"]
    by (simp add: reason_text_def reason_category_def reason_venue_ok_def notional_detail[simplified])
next
  case (QuantityBelowMinimum v q m)
  then show ?thesis
    using assms venue_reason_category[of v "''quantity '' @ show_dec q @ '' is below minimum '' @ show_dec m"]
    by (simp add: reason_text_def reason_category_def reason_venue_ok_def quantity_detail[simplified])
next
  case (QuantityAboveMaximum v q m)
  then show ?thesis
    using assms venue_reason_category[of v "''quantity '' @ show_dec q @ '' exceeds maximum '' @ show_dec m"]
    by (simp add: reason_text_def reason_category_def reason_venue_ok_def quantity_detail[simplified])
next
  case (QuantityMisaligned v q m)
  then show ?thesis
    using assms venue_reason_category[of v "''quantity '' @ show_dec q @ '' is not aligned to step '' @ show_dec m"]
    by (simp add: reason_text_def reason_category_def reason_venue_ok_def quantity_detail[simplified])
qed (simp_all add: reason_text_def reason_category_def rejection_reason_category_def category_prefixes_def)

definition categorized :: "string \<Rightarrow> bool" where
  "categorized s \<longleftrightarrow> rejection_reason_category s \<noteq> ''other_rejection_reason''"

lemma categorized_detail:
  assumes "known_venue v" "detail_category d = Some c"
  shows "categorized (v @ CHR '' '' # d)"
  using assms(1) unfolding categorized_def venue_reason_category[OF assms(1)] assms(2)
  by (auto simp: known_venue_def)

lemma account_details:
  "detail_category ''region eligibility is not confirmed'' = Some ''region_eligibility_unconfirmed''"
  "detail_category ''account eligibility is not confirmed'' = Some ''account_eligibility_unconfirmed''"
  "detail_category ''read-only credentials are not configured'' = Some ''credentials_not_configured''"
  "detail_category ''actual account fee unavailable; configured fallback is observation-only'' = Some ''actual_fee_unavailable''"
  "detail_category ''actual account fee is expired'' = Some ''actual_fee_expired''"
  "detail_category ''API key is not read-only'' = Some ''api_key_not_read_only''"
  "detail_category ''API key has forbidden withdrawal permission'' = Some ''forbidden_withdrawal_permission''"
  "detail_category (''account metadata refresh failed: '' @ x) = Some ''account_metadata_refresh_failed''"
  "detail_category (''API key has forbidden permissions: '' @ x) = Some ''forbidden_api_permissions''"
  by (simp_all add: detail_category_def)

lemma eligibility_categorized:
  "known_venue v \<Longrightarrow> s \<in> set (eligibility_rejections v c) \<Longrightarrow> categorized s"
  using categorized_detail account_details by (auto simp: eligibility_rejections_def split: if_splits)

text \<open>What a loaded account lists: only reasons with a category.\<close>

definition account_categorized :: "account_data \<Rightarrow> bool" where
  "account_categorized a \<longleftrightarrow> known_venue (ad_venue a) \<and> (\<forall>s \<in> set (ad_rejection_reasons a). categorized s)"

lemma missing_credentials_categorized: "known_venue v \<Longrightarrow> account_categorized (missing_credentials v s c k)"
  using categorized_detail[of v "''read-only credentials are not configured''"] account_details eligibility_categorized
  by (auto simp: account_categorized_def missing_credentials_def)

lemma failed_account_categorized: "known_venue v \<Longrightarrow> account_categorized (failed_account_data env v s c e)"
  using categorized_detail[of v "''account metadata refresh failed: '' @ e"] account_details
  by (simp add: account_categorized_def failed_account_data_def)

lemma known_venues [simp]: "known_venue ''binance''" "known_venue ''bybit''"
  by (simp_all add: known_venue_def)

lemma venue_details_categorized:
  "known_venue v \<Longrightarrow> categorized (v @ '' API key is not read-only'')"
  "known_venue v \<Longrightarrow> categorized (v @ '' API key has forbidden permissions: '' @ x)"
  "known_venue v \<Longrightarrow> categorized (v @ '' API key has forbidden withdrawal permission'')"
  "known_venue v \<Longrightarrow> categorized (v @ '' actual account fee unavailable; configured fallback is observation-only'')"
  "known_venue v \<Longrightarrow> categorized (v @ '' actual account fee is expired'')"
  using categorized_detail account_details[simplified] by simp_all

lemma binance_key_categorized:
  "categorized ''binance API key is not read-only''"
  "categorized (''binance API key has forbidden permissions: '' @ x)"
  "categorized ''bybit API key is not read-only''"
  "categorized ''bybit API key has forbidden withdrawal permission''"
  using venue_details_categorized(1-3)[of "''binance''"] venue_details_categorized(1-3)[of "''bybit''"] by simp_all

lemma load_binance_categorized:
  assumes "load_binance src symbol config age = Inr a"
  shows "account_categorized a"
proof (cases "credentials_from_environment (as_env src) config = Inr None")
  case True
  then show ?thesis using assms missing_credentials_categorized by (auto simp: load_binance_def)
next
  case False
  then show ?thesis using assms binance_key_categorized eligibility_categorized[of "''binance''"]
    by (auto simp: load_binance_def account_categorized_def Let_def split: if_splits)
qed

lemma load_bybit_categorized:
  assumes "load_bybit src symbol config age = Inr a"
  shows "account_categorized a"
proof (cases "credentials_from_environment (as_env src) config = Inr None")
  case True
  then show ?thesis using assms missing_credentials_categorized by (auto simp: load_bybit_def)
next
  case False
  with assms obtain p where "ad_venue a = ''bybit''" "ad_rejection_reasons a = bybit_rejections config p"
    by (cases "credentials_from_environment (as_env src) config") (auto simp: load_bybit_def Let_def)
  then show ?thesis using binance_key_categorized eligibility_categorized[of "''bybit''"]
    by (auto simp: account_categorized_def bybit_rejections_def split: if_splits)
qed

lemma admission_rejections_categorized:
  "account_categorized a \<Longrightarrow> s \<in> set (admission_rejections a now) \<Longrightarrow> categorized s"
  using venue_details_categorized(4,5)[of "ad_venue a"]
  by (auto simp: account_categorized_def admission_rejections_def split: if_splits)

text \<open>Every reason for which the scan or the account checks reject has its own category in the
  report: the category tells which filter, limit or venue check it was, and none ends as uncategorised.\<close>

theorem reasons_have_categories:
  assumes "\<And>d. CHR ''q'' \<notin> set (show_dec d)" "reason_venue_ok r"
    and "load_account_data err bsrc ysrc symbol binance bybit age = (a, b)"
  shows "rejection_reason_category (reason_text show_dec r) = reason_category r
    \<and> (\<forall>s \<in> set (admission_rejections a now @ admission_rejections b now).
         rejection_reason_category s \<noteq> ''other_rejection_reason'')"
proof -
  have "account_categorized a" "account_categorized b"
    using assms(3) load_binance_categorized load_bybit_categorized failed_account_categorized
    by (auto simp: load_account_data_def split: sum.splits)
  then have "\<forall>s \<in> set (admission_rejections a now @ admission_rejections b now). categorized s"
    using admission_rejections_categorized by auto
  then show ?thesis using reason_text_category[OF assms(1,2)] by (simp add: categorized_def)
qed

definition no_source :: "('p, 'f) account_source" where
  "no_source = \<lparr>as_env = (\<lambda>_. None), as_permission_at_ms = 1, as_permission = Inl (Bail ''x''),
     as_fee_at_ms = 1, as_fee = Inl (Bail ''x'')\<rparr>"

lemma reasons_have_categories_witness:
  "rejection_reason_category ''binance notional 1 is below minimum 1'' = ''binance:notional_filter''"
proof -
  obtain a b where ab: "load_account_data (\<lambda>_. []) no_source no_source ''BTCUSDT'' (oc_binance default_config)
      (oc_bybit default_config) 1 = (a, b)" by fastforce
  have "reason_venue_ok (NotionalBelowMinimum ''binance'' 4 5)" by (simp add: reason_venue_ok_def)
  from conjunct1[OF reasons_have_categories[OF _ this ab, of "\<lambda>_. ''1''"]]
  show ?thesis by (simp add: reason_text_def reason_category_def)
qed

end
