(* ===== verification/Sim_Fill.thy ===== *)
theory Sim_Fill
  imports Scan
begin

unbundle bit_operations_syntax

text \<open>
  The matching half of the simulation engine, \<open>crates/core/src/simulation.rs\<close>: the splitmix64
  random source, the adverse price offset and the fill of one leg against a book. Arithmetic on the 64-bit state wraps, as in a release build;
  the debug assertion of the sampling range is not modelled, since the configuration is
  validated to have ordered ranges. Division is the parameter \<open>dv\<close>.
\<close>

section \<open>Random source\<close>

record sim_rng = rng_state :: u64

definition golden_gamma :: u64 where
  "golden_gamma = 0x9E3779B97F4A7C15"

definition rng_new :: "u64 \<Rightarrow> sim_rng" where
  "rng_new seed = \<lparr>rng_state = seed + golden_gamma\<rparr>"

definition mix64 :: "u64 \<Rightarrow> u64" where
  "mix64 s =
     (let z = (s XOR drop_bit 30 s) * 0xBF58476D1CE4E5B9;
          z = (z XOR drop_bit 27 z) * 0x94D049BB133111EB
      in z XOR drop_bit 31 z)"

definition next_u64 :: "sim_rng \<Rightarrow> u64 \<times> sim_rng" where
  "next_u64 r = (let s = rng_state r + golden_gamma in (mix64 s, r\<lparr>rng_state := s\<rparr>))"

definition gen_range_u64 :: "u64 \<Rightarrow> u64 \<Rightarrow> sim_rng \<Rightarrow> u64 \<times> sim_rng" where
  "gen_range_u64 lo hi r =
     (let span = uint (hi - lo) + 1; (x, r) = next_u64 r in (lo + word_of_int (uint x mod span), r))"

section \<open>Fill price\<close>

definition round_away :: "decimal \<Rightarrow> int" where
  "round_away x = (if x < 0 then \<lfloor>x\<rfloor> else \<lceil>x\<rceil>)"

definition offset_level_price :: "(decimal \<Rightarrow> decimal \<Rightarrow> decimal) \<Rightarrow> decimal \<Rightarrow> book_side \<Rightarrow> decimal
    \<Rightarrow> decimal \<Rightarrow> decimal result" where
  "offset_level_price dv price side bps tick =
     (if price \<le> 0 then Inl (Bail ''simulation offset price must be positive'')
      else let factor = (case side of Asks \<Rightarrow> 1 + dv bps bps_denominator | Bids \<Rightarrow> 1 - dv bps bps_denominator);
               raw = price * factor
           in then_do (checked_div dv raw tick) (\<lambda>q.
              let ticks = (case side of Asks \<Rightarrow> round_away q | Bids \<Rightarrow> dec_trunc q)
              in Inr (of_int ticks * tick)))"

section \<open>One leg\<close>

record sim_leg_result =
  sl_filled :: decimal
  sl_quote_amount :: decimal
  sl_avg_price :: decimal
  sl_last_raw_price :: decimal
  sl_last_fill_price :: decimal
  sl_depth_shortfall :: bool
  sl_below_min_quantity :: bool

text \<open>The running values of the loop over the levels.\<close>

record leg_state =
  ls_remaining :: decimal
  ls_filled :: decimal
  ls_quote_amount :: decimal
  ls_last_raw_price :: decimal
  ls_last_fill_price :: decimal

definition available_quantity :: "(decimal \<Rightarrow> decimal \<Rightarrow> decimal) \<Rightarrow> decimal \<Rightarrow> decimal \<Rightarrow> level \<Rightarrow> decimal result" where
  "available_quantity dv take_rate step l =
     then_do (checked_div dv (lv_quantity l * take_rate) step) (\<lambda>q. Inr (of_int \<lfloor>q\<rfloor> * step))"

fun fill_levels :: "(decimal \<Rightarrow> decimal \<Rightarrow> decimal) \<Rightarrow> book_side \<Rightarrow> instrument_spec \<Rightarrow> decimal \<Rightarrow> decimal
    \<Rightarrow> level list \<Rightarrow> leg_state \<Rightarrow> leg_state result" where
  "fill_levels dv side i take_rate bps [] s = Inr s"
| "fill_levels dv side i take_rate bps (l # ls) s =
     (if ls_remaining s = 0 then Inr s
      else then_do (available_quantity dv take_rate (is_quantity_step i) l) (\<lambda>avail.
        if avail \<le> 0 then fill_levels dv side i take_rate bps ls s
        else let taken = min (ls_remaining s) avail
        in then_do (offset_level_price dv (lv_price l) side bps (is_price_tick i)) (\<lambda>fill_price.
           fill_levels dv side i take_rate bps ls
             \<lparr>ls_remaining = ls_remaining s - taken, ls_filled = ls_filled s + taken,
              ls_quote_amount = ls_quote_amount s + taken * fill_price,
              ls_last_raw_price = lv_price l, ls_last_fill_price = fill_price\<rparr>)))"

definition leg_start :: "decimal \<Rightarrow> leg_state" where
  "leg_start requested = \<lparr>ls_remaining = requested, ls_filled = 0, ls_quote_amount = 0,
     ls_last_raw_price = 0, ls_last_fill_price = 0\<rparr>"

definition leg_result :: "(decimal \<Rightarrow> decimal \<Rightarrow> decimal) \<Rightarrow> instrument_spec \<Rightarrow> leg_state \<Rightarrow> sim_leg_result" where
  "leg_result dv i s =
     (let below = (0 < ls_filled s \<and> ls_filled s < is_min_quantity i);
          filled = (if below then 0 else ls_filled s)
      in \<lparr>sl_filled = filled, sl_quote_amount = ls_quote_amount s,
          sl_avg_price = (if 0 < filled then dv (ls_quote_amount s) filled else 0),
          sl_last_raw_price = ls_last_raw_price s, sl_last_fill_price = ls_last_fill_price s,
          sl_depth_shortfall = (0 < ls_remaining s \<and> 0 < ls_filled s),
          sl_below_min_quantity = below\<rparr>)"

definition simulate_leg :: "(decimal \<Rightarrow> decimal \<Rightarrow> decimal) \<Rightarrow> book_side \<Rightarrow> order_book_snapshot \<Rightarrow> instrument_spec
    \<Rightarrow> decimal \<Rightarrow> simulation_config \<Rightarrow> sim_leg_result result" where
  "simulate_leg dv side book i requested config =
     (if requested \<le> 0 then Inl (Bail ''simulate_leg requested quantity must be positive'')
      else let take_rate = 1 - dv (sc_competitor_take_bps config) bps_denominator
      in then_do (fill_levels dv side i take_rate (sc_adverse_move_bps config) (book_levels side book)
             (leg_start requested)) (\<lambda>s. Inr (leg_result dv i s)))"

section \<open>The random source is uniform over its period\<close>

lemma gen_range_bounds:
  assumes "lo \<le> hi"
  shows "lo \<le> fst (gen_range_u64 lo hi r) \<and> fst (gen_range_u64 lo hi r) \<le> hi"
proof -
  define x where "x = fst (next_u64 r)"
  define k where "k = uint x mod (uint (hi - lo) + 1)"
  have d: "uint (hi - lo) = uint hi - uint lo" using assms by (simp add: uint_sub_if' word_le_def)
  have k: "0 \<le> k" "k \<le> uint hi - uint lo"
    using pos_mod_bound[of "uint (hi - lo) + 1" "uint x"] pos_mod_sign[of "uint (hi - lo) + 1" "uint x"] assms
    unfolding k_def d by (auto simp: word_le_def)
  have "uint lo + k < 2 ^ 64" using k uint_lt2p[of hi] by simp
  then have "uint (lo + word_of_int k) = uint lo + k"
    using k by (simp add: uint_word_ariths uint_word_of_int mod_add_right_eq)
  moreover have "fst (gen_range_u64 lo hi r) = lo + word_of_int k"
    by (simp add: gen_range_u64_def k_def x_def Let_def split: prod.split)
  ultimately show ?thesis using k by (simp add: word_le_def)
qed

text \<open>A xor-shift by at least half the width less one is undone by repeating it at doubled distance.\<close>

lemma xorshift_inj:
  fixes x y :: u64
  assumes "0 < n" "64 \<le> 3 * n" "x XOR drop_bit n x = y XOR drop_bit n y"
  shows "x = y"
proof -
  have undo: "(z XOR drop_bit n z) XOR drop_bit n (z XOR drop_bit n z) XOR drop_bit (2 * n) (z XOR drop_bit n z) = z" for z :: u64
  proof (rule bit_word_eqI)
    fix k assume "k < LENGTH(64)"
    then show "bit ((z XOR drop_bit n z) XOR drop_bit n (z XOR drop_bit n z) XOR drop_bit (2 * n) (z XOR drop_bit n z)) k = bit z k"
      using assms(2) bit_imp_le_length[of z "3 * n + k"]
      by (auto simp: bit_xor_iff bit_drop_bit_eq ac_simps mult_2 mult_2_right numeral_3_eq_3 dest: bit_imp_le_length)
  qed
  from undo[of x] undo[of y] assms(3) show ?thesis by metis
qed

lemma odd_multiplier_inj:
  fixes a b x y :: u64
  assumes "a * b = 1" "x * a = y * a"
  shows "x = y"
proof -
  have "x * (a * b) = y * (a * b)" using assms(2) by (metis mult.assoc)
  then show ?thesis using assms(1) by simp
qed

lemma mix64_inj: "mix64 x = mix64 y \<Longrightarrow> x = y"
proof -
  assume eq: "mix64 x = mix64 y"
  let ?a = "0xBF58476D1CE4E5B9 :: u64" and ?b = "0x94D049BB133111EB :: u64"
  let ?f = "\<lambda>z :: u64. (z XOR drop_bit 30 z) * ?a"
  let ?g = "\<lambda>z :: u64. (z XOR drop_bit 27 z) * ?b"
  have "?g (?f x) XOR drop_bit 31 (?g (?f x)) = ?g (?f y) XOR drop_bit 31 (?g (?f y))"
    using eq by (simp add: mix64_def Let_def)
  then have g: "?g (?f x) = ?g (?f y)" by (rule xorshift_inj[rotated 2]) simp_all
  have "?b * 0x319642B2D24D8EC3 = 1" by simp
  from odd_multiplier_inj[OF this g] have "?f x = ?f y" by (rule xorshift_inj[rotated 2]) simp_all
  moreover have "?a * 0x96DE1B173F119089 = 1" by simp
  ultimately have "x XOR drop_bit 30 x = y XOR drop_bit 30 y" using odd_multiplier_inj by blast
  then show ?thesis by (rule xorshift_inj[rotated 2]) simp_all
qed

text \<open>The stream of draws of a generator.\<close>

fun draws :: "nat \<Rightarrow> sim_rng \<Rightarrow> u64 list" where
  "draws 0 r = []"
| "draws (Suc n) r = (let (x, r) = next_u64 r in x # draws n r)"

lemma draws_eq: "draws n r = map (\<lambda>i. mix64 (rng_state r + of_nat (Suc i) * golden_gamma)) [0..<n]"
proof (induction n arbitrary: r)
  case (Suc n)
  have "map (\<lambda>i. mix64 (rng_state r + golden_gamma + of_nat (Suc i) * golden_gamma)) [0..<n]
      = map (\<lambda>i. mix64 (rng_state r + of_nat (Suc i) * golden_gamma)) [1..<Suc n]"
    by (simp add: map_Suc_upt[symmetric] algebra_simps del: map_Suc_upt upt_Suc)
  then show ?case by (simp add: next_u64_def Let_def Suc upt_conv_Cons algebra_simps del: upt_Suc)
qed simp

lemma gamma_multiples_inj:
  assumes "i < 2 ^ 64" "j < 2 ^ 64" "(of_nat i :: u64) * golden_gamma = of_nat j * golden_gamma"
  shows "i = j"
proof -
  have "golden_gamma * 0xF1DE83E19937733D = 1" by (simp add: golden_gamma_def)
  from odd_multiplier_inj[OF this assms(3)] have "(of_nat i :: u64) = of_nat j" .
  then have "unat (of_nat i :: u64) = unat (of_nat j :: u64)" by simp
  then show ?thesis using assms(1,2) by (simp add: unat_of_nat)
qed


lemma draws_distinct:
  assumes "n \<le> 2 ^ 64"
  shows "distinct (draws n r)"
proof -
  have "i = j" if "i < n" "j < n"
    and "mix64 (rng_state r + of_nat (Suc i) * golden_gamma) = mix64 (rng_state r + of_nat (Suc j) * golden_gamma)" for i j
  proof -
    have "(of_nat i :: u64) * golden_gamma = of_nat j * golden_gamma"
      using mix64_inj[OF that(3)] by (simp add: distrib_right)
    then show ?thesis using that(1,2) assms by (intro gamma_multiples_inj) simp_all
  qed
  then show ?thesis by (auto simp: draws_eq distinct_map inj_on_def)
qed

text \<open>A sample of a range lies in it, and within a period of 2 to the power 64 the generator never
  repeats a draw, whatever the seed.\<close>

theorem rng_full_period:
  assumes "lo \<le> hi" "n \<le> 2 ^ 64"
  shows "lo \<le> fst (gen_range_u64 lo hi r) \<and> fst (gen_range_u64 lo hi r) \<le> hi
    \<and> distinct (draws n (rng_new seed))"
  using gen_range_bounds[OF assms(1)] draws_distinct[OF assms(2)] by blast

section \<open>What a leg fills\<close>

lemma fill_levels_bounds:
  assumes "fill_levels dv side i rate bps ls s = Inr s'" "0 \<le> ls_remaining s" "0 \<le> ls_filled s"
  shows "0 \<le> ls_remaining s' \<and> ls_filled s \<le> ls_filled s'
    \<and> ls_remaining s' + ls_filled s' = ls_remaining s + ls_filled s"
  using assms
proof (induction ls arbitrary: s)
  case (Cons l ls)
  show ?case
  proof (cases "ls_remaining s = 0")
    case False
    from Cons.prems(1) False obtain avail where a: "available_quantity dv rate (is_quantity_step i) l = Inr avail"
      by auto
    show ?thesis
    proof (cases "avail \<le> 0")
      case True
      then show ?thesis using Cons a False by simp
    next
      case pos: False
      from Cons.prems(1) False a pos obtain f where
        "fill_levels dv side i rate bps ls \<lparr>ls_remaining = ls_remaining s - min (ls_remaining s) avail,
           ls_filled = ls_filled s + min (ls_remaining s) avail,
           ls_quote_amount = ls_quote_amount s + min (ls_remaining s) avail * f,
           ls_last_raw_price = lv_price l, ls_last_fill_price = f\<rparr> = Inr s'"
        by (auto simp: Let_def)
      moreover have "0 \<le> min (ls_remaining s) avail" "min (ls_remaining s) avail \<le> ls_remaining s"
        using Cons.prems(2) pos by simp_all
      ultimately show ?thesis using Cons.IH Cons.prems(3) by (fastforce dest: Cons.IH)
    qed
  qed (use Cons.prems in simp)
qed simp

text \<open>Every fill is some way of taking its quantity from the levels, at prices moved against the taker.\<close>

definition worse_price :: "book_side \<Rightarrow> decimal \<Rightarrow> decimal \<Rightarrow> bool" where
  "worse_price side p f = (case side of Asks \<Rightarrow> p \<le> f | Bids \<Rightarrow> f \<le> p)"

definition worse_amount :: "book_side \<Rightarrow> decimal \<Rightarrow> decimal \<Rightarrow> bool" where
  "worse_amount side a b = worse_price side a b"

lemma fill_levels_takings:
  assumes "fill_levels dv side i rate bps ls s = Inr s'" "0 \<le> ls_remaining s"
    and "\<forall>l \<in> set ls. 0 \<le> lv_quantity l"
    and "\<forall>l \<in> set ls. \<forall>q. available_quantity dv rate (is_quantity_step i) l = Inr q \<longrightarrow> q \<le> lv_quantity l"
    and "\<forall>l \<in> set ls. \<forall>f. offset_level_price dv (lv_price l) side bps (is_price_tick i) = Inr f \<longrightarrow> worse_price side (lv_price l) f"
  shows "\<exists>xs. list_all2 (\<lambda>x l. 0 \<le> x \<and> x \<le> lv_quantity l) xs ls
    \<and> sum_list xs = ls_filled s' - ls_filled s
    \<and> worse_amount side (cost xs ls) (ls_quote_amount s' - ls_quote_amount s)"
  using assms
proof (induction ls arbitrary: s)
  case (Cons l ls)
  have none: "\<exists>xs. list_all2 (\<lambda>x l. 0 \<le> x \<and> x \<le> lv_quantity l) xs ms \<and> sum_list xs = 0 \<and> cost xs ms = 0"
    if "\<forall>l \<in> set ms. 0 \<le> lv_quantity l" for ms
    using that by (induction ms) (auto intro: exI[of _ "0 # _"])
  show ?case
  proof (cases "ls_remaining s = 0")
    case True
    then show ?thesis using none[OF Cons.prems(3)] Cons.prems(1)
      by (auto simp: worse_amount_def worse_price_def split: book_side.split)
  next
    case False
    from Cons.prems(1) False obtain avail where a: "available_quantity dv rate (is_quantity_step i) l = Inr avail"
      by auto
    show ?thesis
    proof (cases "avail \<le> 0")
      case True
      then have "fill_levels dv side i rate bps ls s = Inr s'" using Cons.prems(1) a False by simp
      from Cons.IH[OF this Cons.prems(2)] Cons.prems obtain xs where
        "list_all2 (\<lambda>x l. 0 \<le> x \<and> x \<le> lv_quantity l) xs ls" "sum_list xs = ls_filled s' - ls_filled s"
        "worse_amount side (cost xs ls) (ls_quote_amount s' - ls_quote_amount s)" by auto
      then show ?thesis using Cons.prems(3) by (intro exI[of _ "0 # xs"]) simp
    next
      case pos: False
      define t where "t = min (ls_remaining s) avail"
      from Cons.prems(1) False a pos obtain f where f: "offset_level_price dv (lv_price l) side bps (is_price_tick i) = Inr f"
        and rest: "fill_levels dv side i rate bps ls \<lparr>ls_remaining = ls_remaining s - t,
           ls_filled = ls_filled s + t, ls_quote_amount = ls_quote_amount s + t * f,
           ls_last_raw_price = lv_price l, ls_last_fill_price = f\<rparr> = Inr s'"
        by (auto simp: Let_def t_def)
      have t: "0 \<le> t" "t \<le> ls_remaining s" "t \<le> lv_quantity l"
        using pos Cons.prems(2,4) a by (auto simp: t_def min_le_iff_disj)
      from Cons.IH[OF rest] t Cons.prems obtain xs where xs:
        "list_all2 (\<lambda>x l. 0 \<le> x \<and> x \<le> lv_quantity l) xs ls" "sum_list xs = ls_filled s' - (ls_filled s + t)"
        "worse_amount side (cost xs ls) (ls_quote_amount s' - (ls_quote_amount s + t * f))" by auto
      have "worse_amount side (t * lv_price l) (t * f)"
        using Cons.prems(5) f t(1) by (cases side) (auto simp: worse_amount_def worse_price_def mult_left_mono)
      then have "worse_amount side (cost (t # xs) (l # ls)) (ls_quote_amount s' - ls_quote_amount s)"
        using xs(3) by (cases side) (auto simp: worse_amount_def worse_price_def)
      then show ?thesis using xs(1,2) t by (intro exI[of _ "t # xs"]) simp
    qed
  qed
qed (auto simp: worse_amount_def worse_price_def split: book_side.split)


section \<open>The simulation is never better than the book\<close>

text \<open>On a descending side, taking best price first brings the most: prices are mirrored.\<close>

definition mirror :: "decimal \<Rightarrow> level \<Rightarrow> level" where
  "mirror c l = l\<lparr>lv_price := c - lv_price l\<rparr>"

lemma takings_mirror [simp]: "takings r (map (mirror c) ls) = takings r ls"
  by (induction ls arbitrary: r) (simp_all add: mirror_def)

lemma cost_mirror: "length xs = length ls \<Longrightarrow> cost xs (map (mirror c) ls) = c * sum_list xs - cost xs ls"
  by (induction xs ls rule: list_induct2) (simp_all add: mirror_def algebra_simps)

lemma sum_list_takings:
  "\<forall>l \<in> set ls. level_positive l \<Longrightarrow> 0 \<le> r \<Longrightarrow> r \<le> depth ls \<Longrightarrow> sum_list (takings r ls) = r"
proof (induction ls arbitrary: r)
  case (Cons l ls)
  then show ?case using depth_nonneg[of ls] by (cases "r \<le> lv_quantity l") (auto simp: takings_zero)
qed simp

lemma sum_list_le_depth:
  "list_all2 (\<lambda>x l. 0 \<le> x \<and> x \<le> lv_quantity l) xs ls \<Longrightarrow> 0 \<le> sum_list xs \<and> sum_list xs \<le> depth ls"
  by (induction rule: list_all2_induct) auto

lemma greedy_dearest:
  assumes "sorted_wrt (price_before True) ls" "\<forall>l \<in> set ls. level_positive l"
    and "list_all2 (\<lambda>x l. 0 \<le> x \<and> x \<le> lv_quantity l) xs ls" "sum_list xs = r"
  shows "cost xs ls \<le> cost (takings r ls) ls"
proof -
  define c where "c = sum_list (map lv_price ls) + 1"
  have le: "lv_price l \<le> sum_list (map lv_price ls)" if "l \<in> set ls" for l
    using that assms(2) by (intro member_le_sum_list) (auto simp: level_positive_def less_imp_le)
  let ?ms = "map (mirror c) ls"
  have r: "0 \<le> r" "r \<le> depth ls" using sum_list_le_depth[OF assms(3)] assms(4) by auto
  have "sorted_wrt (price_before False) ?ms"
    using assms(1) by (simp add: sorted_wrt_map price_before_def[abs_def] mirror_def)
  moreover have "\<forall>l \<in> set ?ms. level_positive l"
    using assms(2) le by (force simp: mirror_def level_positive_def c_def)
  moreover have "list_all2 (\<lambda>x l. 0 \<le> x \<and> x \<le> lv_quantity l) xs ?ms"
    using assms(3) by (simp add: list.rel_map mirror_def)
  ultimately have "cost (takings r ?ms) ?ms \<le> cost xs ?ms"
    using assms(4) r(1) by (intro greedy_cheapest)
  then show ?thesis
    using sum_list_takings[OF assms(2) r] assms(4) list_all2_lengthD[OF assms(3)]
    by (simp add: cost_mirror)
qed

text \<open>
  A level on the venue's grid: price and quantity are whole numbers of ticks and steps, small
  enough to be decimals of the crate.
\<close>

definition on_grid :: "(decimal \<Rightarrow> bool) \<Rightarrow> instrument_spec \<Rightarrow> level \<Rightarrow> bool" where
  "on_grid rep i l \<longleftrightarrow> (\<exists>k. rep (of_int k) \<and> lv_price l = of_int k * is_price_tick i)
     \<and> (\<exists>k. rep (of_int k) \<and> lv_quantity l = of_int k * is_quantity_step i)"

lemma bps_ratio:
  assumes "decimal_division dv rep" "rep 1" "0 \<le> b" "b \<le> 10000"
  shows "0 \<le> dv b bps_denominator" "dv b bps_denominator \<le> 1"
  using decimal_division.quotient_nonneg[OF assms(1), of bps_denominator b]
    decimal_division.quotient_upper[OF assms(1), of bps_denominator 1 b] assms(2-4)
  by (simp_all add: bps_denominator_def)

lemma offset_worse:
  assumes dv: "decimal_division dv rep" and rep: "rep 1" and b: "0 \<le> b" "b \<le> 10000" and tick: "0 < tick"
    and p: "rep (of_int k)" "p = of_int k * tick" and f: "offset_level_price dv p side b tick = Inr f"
  shows "worse_price side p f"
proof -
  have pos: "0 < p" using f by (simp add: offset_level_price_def split: if_splits)
  note ratio = bps_ratio[OF dv rep b]
  show ?thesis
  proof (cases side)
    case Asks
    let ?raw = "p * (1 + dv b bps_denominator)"
    have "p * 1 \<le> ?raw" using pos ratio by (intro mult_left_mono) simp_all
    then have "of_int k \<le> dv ?raw tick"
      using decimal_division.quotient_lower[OF dv tick p(1)] p(2) by simp
    then have "k \<le> round_away (dv ?raw tick)" by (auto simp: round_away_def le_floor_iff le_ceiling_iff)
    then have "(of_int k :: decimal) * tick \<le> of_int (round_away (dv ?raw tick)) * tick"
      using tick by (intro mult_right_mono) simp_all
    then show ?thesis using f Asks pos tick p(2)
      by (auto simp: offset_level_price_def worse_price_def Let_def)
  next
    case Bids
    let ?raw = "p * (1 - dv b bps_denominator)"
    have "?raw \<le> p * 1" using pos ratio by (intro mult_left_mono) simp_all
    then have "dv ?raw tick \<le> of_int k"
      using decimal_division.quotient_upper[OF dv tick p(1)] p(2) by simp
    then have "dec_trunc (dv ?raw tick) \<le> k" by (auto simp: dec_trunc_def ceiling_le_iff floor_le_iff)
    then have "(of_int (dec_trunc (dv ?raw tick)) :: decimal) * tick \<le> of_int k * tick"
      using tick by (intro mult_right_mono) simp_all
    then show ?thesis using f Bids pos tick p(2)
      by (auto simp: offset_level_price_def worse_price_def Let_def)
  qed
qed

lemma available_le:
  assumes dv: "decimal_division dv rep" and rate: "0 \<le> rate" "rate \<le> 1" and step: "0 < step"
    and q: "rep (of_int k)" "lv_quantity l = of_int k * step" "0 < lv_quantity l"
    and a: "available_quantity dv rate step l = Inr x"
  shows "x \<le> lv_quantity l"
proof -
  have "lv_quantity l * rate \<le> lv_quantity l * 1" using q(3) rate by (intro mult_left_mono) simp_all
  then have "dv (lv_quantity l * rate) step \<le> of_int k"
    using decimal_division.quotient_upper[OF dv step q(1)] q(2) by simp
  then have "\<lfloor>dv (lv_quantity l * rate) step\<rfloor> \<le> k" by (simp add: floor_le_iff)
  then have "(of_int \<lfloor>dv (lv_quantity l * rate) step\<rfloor> :: decimal) * step \<le> of_int k * step"
    using step by (intro mult_right_mono) simp_all
  moreover have "x = of_int \<lfloor>dv (lv_quantity l * rate) step\<rfloor> * step"
    using a step by (simp add: available_quantity_def)
  ultimately show ?thesis unfolding q(2)[symmetric] by simp
qed

text \<open>On a validated book on the venue's grid and a validated configuration, a simulated leg that
  fills anything pays at least (or receives at most) what the sweep of the scan computes for the
  quantity it filled, and it never fills more than was requested.\<close>

theorem simulated_leg_never_better:
  assumes "decimal_division dv rep" "rep 1" "validate book = Inr ()" "validate_simulation config = Inr ()"
    and "0 < is_price_tick i" "0 < is_quantity_step i" "\<forall>l \<in> set (book_levels side book). on_grid rep i l"
    and "simulate_leg dv side book i requested config = Inr r" "0 < sl_filled r"
  shows "sl_filled r \<le> requested
    \<and> (\<exists>s. sweep_book dv book side (sl_filled r) = Inr s \<and> worse_amount side (sw_quote_amount s) (sl_quote_amount r))"
proof -
  let ?ls = "book_levels side book"
  have pos: "\<forall>l \<in> set ?ls. level_positive l"
    and sorted: "sorted_wrt (price_before (side = Bids)) ?ls"
    using assms(3) by (cases side; simp add: validate_ok_iff valid_side_def book_levels_def)+
  have bps: "0 \<le> sc_adverse_move_bps config" "sc_adverse_move_bps config \<le> 10000"
    "0 \<le> sc_competitor_take_bps config" "sc_competitor_take_bps config \<le> 10000"
    using assms(4) by (auto simp: validate_simulation_def bps_fields_def not_less split: if_splits)
  define rate where "rate = 1 - dv (sc_competitor_take_bps config) bps_denominator"
  have rate: "0 \<le> rate" "rate \<le> 1" using bps_ratio[OF assms(1,2) bps(3,4)] by (simp_all add: rate_def)
  from assms(8) obtain s where req: "0 < requested"
    and fill: "fill_levels dv side i rate (sc_adverse_move_bps config) ?ls (leg_start requested) = Inr s"
    and r: "r = leg_result dv i s"
    by (auto simp: simulate_leg_def rate_def Let_def split: if_splits)
  have eq: "sl_filled r = ls_filled s" "sl_quote_amount r = ls_quote_amount s"
    using assms(9) by (auto simp: r leg_result_def Let_def split: if_splits)
  have "\<exists>xs. list_all2 (\<lambda>x l. 0 \<le> x \<and> x \<le> lv_quantity l) xs ?ls
      \<and> sum_list xs = ls_filled s - ls_filled (leg_start requested)
      \<and> worse_amount side (cost xs ?ls) (ls_quote_amount s - ls_quote_amount (leg_start requested))"
  proof (rule fill_levels_takings[OF fill])
    show "\<forall>l \<in> set ?ls. \<forall>q. available_quantity dv rate (is_quantity_step i) l = Inr q \<longrightarrow> q \<le> lv_quantity l"
      using available_le[OF assms(1) rate assms(6)] pos assms(7)
      unfolding on_grid_def level_positive_def by metis
    show "\<forall>l \<in> set ?ls. \<forall>f. offset_level_price dv (lv_price l) side (sc_adverse_move_bps config) (is_price_tick i) = Inr f
        \<longrightarrow> worse_price side (lv_price l) f"
      using offset_worse[OF assms(1,2) bps(1,2) assms(5)] assms(7) unfolding on_grid_def by metis
  qed (use pos req in \<open>auto simp: leg_start_def level_positive_def less_imp_le\<close>)
  then obtain xs where xs: "list_all2 (\<lambda>x l. 0 \<le> x \<and> x \<le> lv_quantity l) xs ?ls" "sum_list xs = sl_filled r"
    "worse_amount side (cost xs ?ls) (sl_quote_amount r)"
    by (auto simp: leg_start_def eq)
  have deep: "sl_filled r \<le> depth ?ls" using sum_list_le_depth[OF xs(1)] xs(2) by simp
  have "is_ok (sweep_book dv book side (sl_filled r))"
    using assms(9) deep by (simp add: sweep_book_def sweep_loop_ok_iff[OF pos])
  then obtain w where w: "sweep_book dv book side (sl_filled r) = Inr w" by (auto simp: is_ok_iff)
  have "sw_quote_amount w = cost (takings (sl_filled r) ?ls) ?ls"
    using sweep_loop_result(2)[OF pos assms(9), of "sl_filled r" dv 0 0 w] w assms(9) by (simp add: sweep_book_def)
  moreover have "worse_amount side (cost (takings (sl_filled r) ?ls) ?ls) (cost xs ?ls)"
    using greedy_cheapest[OF _ pos xs(1,2)] greedy_dearest[OF _ pos xs(1,2)] sorted assms(9)
    by (cases side) (simp_all add: worse_amount_def worse_price_def)
  ultimately have "worse_amount side (sw_quote_amount w) (sl_quote_amount r)"
    using xs(3) by (cases side) (auto simp: worse_amount_def worse_price_def)
  moreover have "sl_filled r \<le> requested"
    using fill_levels_bounds[OF fill] req by (simp add: eq leg_start_def)
  ultimately show ?thesis using w by blast
qed

text \<open>A leg fills nothing or at least the venue's minimum; it reports a shortfall exactly when the
  book gave something but not all; and when it gives up below the minimum it reports no fill but
  still the quote amount of the fills it dropped.\<close>

theorem simulate_leg_outcome:
  assumes "simulate_leg dv side book i requested config = Inr r"
  shows "\<exists>given. 0 \<le> given \<and> given \<le> requested
    \<and> (sl_depth_shortfall r \<longleftrightarrow> 0 < given \<and> given < requested)
    \<and> (sl_below_min_quantity r \<longleftrightarrow> 0 < given \<and> given < is_min_quantity i)
    \<and> sl_filled r = (if sl_below_min_quantity r then 0 else given)
    \<and> (sl_filled r = 0 \<or> is_min_quantity i \<le> sl_filled r)
    \<and> (\<exists>s. fill_levels dv side i (1 - dv (sc_competitor_take_bps config) bps_denominator)
          (sc_adverse_move_bps config) (book_levels side book) (leg_start requested) = Inr s
        \<and> ls_filled s = given \<and> sl_quote_amount r = ls_quote_amount s)"
proof -
  from assms obtain s where req: "0 < requested"
    and fill: "fill_levels dv side i (1 - dv (sc_competitor_take_bps config) bps_denominator)
      (sc_adverse_move_bps config) (book_levels side book) (leg_start requested) = Inr s"
    and r: "r = leg_result dv i s"
    by (auto simp: simulate_leg_def Let_def split: if_splits)
  have "0 \<le> ls_remaining s" "0 \<le> ls_filled s" "ls_remaining s + ls_filled s = requested"
    using fill_levels_bounds[OF fill] req by (simp_all add: leg_start_def)
  then show ?thesis using fill r
    by (intro exI[of _ "ls_filled s"]) (auto simp: leg_result_def Let_def)
qed


section \<open>Witnesses\<close>

lemma rng_full_period_witness:
  "10 \<le> fst (gen_range_u64 10 20 (rng_new 7)) \<and> distinct (draws 3 (rng_new 7))"
  using rng_full_period[of 10 20 3 "rng_new 7" 7] by simp

definition sample_sim :: simulation_config where
  "sample_sim = simulation_default\<lparr>sc_adverse_move_bps := 0, sc_competitor_take_bps := 5000\<rparr>"

lemma sample_sim_valid: "validate_simulation sample_sim = Inr ()"
  by (simp add: sample_sim_def simulation_default_def validate_simulation_def bps_fields_def)

text \<open>Half of each ask level is taken by others: one unit at 100 and one and a half at 102 remain.\<close>

definition grid_spec :: instrument_spec where
  "grid_spec = sample_spec ''binance''\<lparr>is_price_tick := 1, is_quantity_step := 1/2, is_min_quantity := 1\<rparr>"

lemma sample_leg:
  "simulate_leg exact_div Asks sample_book grid_spec 3 sample_sim = Inr
     \<lparr>sl_filled = 2, sl_quote_amount = 203, sl_avg_price = 203 / 2, sl_last_raw_price = 102,
      sl_last_fill_price = 102, sl_depth_shortfall = True, sl_below_min_quantity = False\<rparr>"
  by (simp add: simulate_leg_def sample_sim_def simulation_default_def sample_book_def grid_spec_def
      book_levels_def available_quantity_def offset_level_price_def exact_div_def bps_denominator_def
      round_away_def leg_start_def leg_result_def Let_def min_def)

lemma sample_grid: "\<forall>l \<in> set (book_levels Asks sample_book). on_grid (\<lambda>_. True) grid_spec l"
proof -
  have "\<exists>k. (100 :: decimal) = of_int k" "\<exists>k. (102 :: decimal) = of_int k"
    "\<exists>k. (1 :: decimal) = of_int k / 2" "\<exists>k. (3 :: decimal) = of_int k / 2"
    by (rule exI[of _ 100], simp) (rule exI[of _ 102], simp, rule exI[of _ 2], simp, rule exI[of _ 6], simp)
  then show ?thesis by (simp add: sample_book_def book_levels_def on_grid_def grid_spec_def)
qed

lemma simulated_leg_never_better_witness:
  "\<exists>r s. simulate_leg exact_div Asks sample_book grid_spec 3 sample_sim = Inr r \<and> sl_filled r = 2
     \<and> sweep_book exact_div sample_book Asks 2 = Inr s \<and> sw_quote_amount s \<le> sl_quote_amount r"
proof -
  have "0 < is_price_tick grid_spec" "0 < is_quantity_step grid_spec" by (simp_all add: grid_spec_def)
  from simulated_leg_never_better[OF exact.decimal_division_axioms _ sample_book_valid sample_sim_valid this sample_grid sample_leg]
  show ?thesis unfolding sample_leg by (simp add: worse_amount_def worse_price_def)
qed

lemma simulate_leg_outcome_witness:
  "\<exists>r. simulate_leg exact_div Asks sample_book (grid_spec\<lparr>is_min_quantity := 3\<rparr>) 3 sample_sim = Inr r
     \<and> sl_filled r = 0 \<and> sl_quote_amount r = 203"
proof -
  have r: "simulate_leg exact_div Asks sample_book (grid_spec\<lparr>is_min_quantity := 3\<rparr>) 3 sample_sim = Inr
     \<lparr>sl_filled = 0, sl_quote_amount = 203, sl_avg_price = 0, sl_last_raw_price = 102,
      sl_last_fill_price = 102, sl_depth_shortfall = True, sl_below_min_quantity = True\<rparr>"
    by (simp add: simulate_leg_def sample_sim_def simulation_default_def sample_book_def grid_spec_def
      book_levels_def available_quantity_def offset_level_price_def exact_div_def bps_denominator_def
      round_away_def leg_start_def leg_result_def Let_def min_def)
  from simulate_leg_outcome[OF r] r show ?thesis by auto
qed

end
