(* ===== verification/Sim_Run.thy ===== *)
theory Sim_Run
  imports Sim_Fill Order_Facts Paper Execution Reconciliation Observer
begin

text \<open>
  One simulated execution of an accepted opportunity, \<open>crates/core/src/simulation.rs\<close>: fund the
  account of the run, reserve the plan, initialise the execution, submit both legs, match them
  against the books of the decision, record the trades, evaluate, and store the projection. The
  state is the database of all cores; what a committed call wrote stays when a later call fails.
  What lies outside is a record: the clock (its n-th reading), the process id, SHA-256, the digests
  of requests and trades, the collation, decimal division. The constant fields of the report (its
  schema version and the zero external calls) are left out.
\<close>

section \<open>Threading the database\<close>

definition bind_db :: "('s \<Rightarrow> ('e + 'a) \<times> 's) \<Rightarrow> ('a \<Rightarrow> 's \<Rightarrow> ('e + 'b) \<times> 's) \<Rightarrow> 's \<Rightarrow> ('e + 'b) \<times> 's" where
  "bind_db m k s = (case m s of (Inl e, s') \<Rightarrow> (Inl e, s') | (Inr x, s') \<Rightarrow> k x s')"

definition return_db :: "('e + 'a) \<Rightarrow> 's \<Rightarrow> ('e + 'a) \<times> 's" where
  "return_db r s = (r, s)"

lemma bind_db_keeps:
  assumes "I s" "\<And>s. I s \<Longrightarrow> I (snd (m s))" "\<And>x s. I s \<Longrightarrow> I (snd (k x s))"
  shows "I (snd (bind_db m k s))"
proof -
  obtain r s' where ms: "m s = (r, s')" by fastforce
  then have "I s'" using assms(1) assms(2)[of s] by simp
  then show ?thesis using assms(3) ms by (cases r) (simp_all add: bind_db_def)
qed

lemma bind_db_Inr:
  "bind_db m k s = (Inr y, s') \<longleftrightarrow> (\<exists>x s1. m s = (Inr x, s1) \<and> k x s1 = (Inr y, s'))"
  by (auto simp: bind_db_def split: prod.split sum.split)

lemma return_db_simps [simp]: "snd (return_db r s) = s" "fst (return_db r s) = r" "return_db r s = (r', s') \<longleftrightarrow> r = r' \<and> s = s'"
  by (auto simp: return_db_def)

section \<open>Data\<close>

datatype simulation_scenario = Normal | DepthShortfall | CompetedAway | RunRejected

datatype simulation_source = Smoke | Live

record sim_report =
  sm_seed :: u64
  sm_run_id :: string
  sm_source :: simulation_source
  sm_symbol :: string
  sm_quantity :: decimal
  sm_buy_venue :: string
  sm_sell_venue :: string
  sm_scenario :: simulation_scenario
  sm_rejection_reason :: "string option"
  sm_plan_id :: string
  sm_account_id :: string
  sm_instrument_id :: string
  sm_buy_intent_id :: string
  sm_sell_intent_id :: string
  sm_buy_client_order_id :: string
  sm_sell_client_order_id :: string
  sm_evaluated_at_ms :: u64
  sm_decision_to_submit_ms :: u64
  sm_fill_latency_ms :: u64
  sm_buy :: sim_leg_result
  sm_sell :: sim_leg_result
  sm_buy_fee :: decimal
  sm_sell_fee :: decimal
  sm_scanned_net_profit :: decimal
  sm_simulated_net_profit :: decimal
  sm_adverse_move_bps :: decimal
  sm_competitor_take_bps :: decimal
  sm_compensation_decision :: string
  sm_execution_state :: string
  sm_unmatched_quantity :: decimal
  sm_unmatched_exposure :: decimal
  sm_estimated_compensation_cost :: decimal
  sm_unknown_submit_tried :: bool
  sm_query_found :: bool
  sm_idempotent_replay :: bool
  sm_skipped_frames :: u64
  sm_warnings :: "string list"

datatype submit_confirmation = OrderAccepted string | UnknownUnrecoverable

record run_projection =
  rj_report :: sim_report
  rj_executed_at_ms :: int
  rj_direction :: string

record sim_db =
  sd_paper :: paper_db
  sd_execution :: execution_db
  sd_orders :: order_db
  sd_snapshots :: reconciliation_db
  sd_locks :: "held_lock list"
  sd_runs :: "run_projection list"

record sim_world =
  sw_clock :: "nat \<Rightarrow> u64"
  sw_pid :: "32 word"
  sw_session :: nat
  sw_sha256 :: "8 word list \<Rightarrow> 8 word list"
  sw_plan_digest :: "reserve_plan_request \<Rightarrow> string"
  sw_trade_digest :: "trade_input \<Rightarrow> string"
  sw_collation :: "string \<Rightarrow> string"
  sw_div :: "decimal \<Rightarrow> decimal \<Rightarrow> decimal"
  sw_show_decimal :: "decimal \<Rightarrow> string"

definition scenario_db_value :: "simulation_scenario \<Rightarrow> string" where
  "scenario_db_value s = (case s of Normal \<Rightarrow> ''NORMAL'' | DepthShortfall \<Rightarrow> ''DEPTH_SHORTFALL''
     | CompetedAway \<Rightarrow> ''COMPETED_AWAY'' | RunRejected \<Rightarrow> ''REJECTED'')"

definition source_as_str :: "simulation_source \<Rightarrow> string" where
  "source_as_str s = (case s of Smoke \<Rightarrow> ''SMOKE'' | Live \<Rightarrow> ''LIVE'')"

section \<open>The tables the cores share\<close>

text \<open>An execution fact refers to the plans, an order fact to the intents joined with their plans.\<close>

definition plan_refs :: "paper_db \<Rightarrow> (string \<times> string \<times> string) list" where
  "plan_refs p = map (\<lambda>r. (pl_plan_id r, pl_account_id r, pl_instrument_id r)) (pd_plans p)"

fun join_intent :: "paper_db \<Rightarrow> string \<times> order_intent_input \<Rightarrow> intent_ref list" where
  "join_intent p (plan_id, x) = (case lookup_row pl_plan_id plan_id (pd_plans p) of
     None \<Rightarrow> []
   | Some r \<Rightarrow> [\<lparr>ir_intent_id = oi_intent_id x, ir_account_id = pl_account_id r,
       ir_instrument_id = pl_instrument_id r, ir_venue = oi_venue x, ir_quantity = oi_quantity x\<rparr>])"

definition intent_refs :: "paper_db \<Rightarrow> intent_ref list" where
  "intent_refs p = concat (map (join_intent p) (map (\<lambda>x. (it_plan_id x, it_input x)) (pd_intents p)))"

definition execution_view :: "sim_db \<Rightarrow> execution_db" where
  "execution_view s = (sd_execution s)\<lparr>xd_plans := plan_refs (sd_paper s)\<rparr>"

definition order_view :: "sim_db \<Rightarrow> order_db" where
  "order_view s = (sd_orders s)\<lparr>od_intents := intent_refs (sd_paper s)\<rparr>"

definition on_paper :: "(paper_db \<Rightarrow> 'a result \<times> paper_db) \<Rightarrow> sim_db \<Rightarrow> 'a result \<times> sim_db" where
  "on_paper f s = (let (r, p) = f (sd_paper s) in (r, s\<lparr>sd_paper := p\<rparr>))"

definition on_execution :: "(execution_db \<Rightarrow> 'a result \<times> execution_db) \<Rightarrow> sim_db \<Rightarrow> 'a result \<times> sim_db" where
  "on_execution f s = (let (r, x) = f (execution_view s) in (r, s\<lparr>sd_execution := x\<rparr>))"

definition on_orders :: "(order_db \<Rightarrow> 'a result \<times> order_db) \<Rightarrow> sim_db \<Rightarrow> 'a result \<times> sim_db" where
  "on_orders f s = (let (r, x) = f (order_view s) in (r, s\<lparr>sd_orders := x\<rparr>))"

text \<open>A core holds the lock of its domain while it is open; it is closed also when a call fails.\<close>

definition with_domain :: "sim_world \<Rightarrow> string \<Rightarrow> string \<Rightarrow> (sim_db \<Rightarrow> 'a result \<times> sim_db) \<Rightarrow> sim_db
    \<Rightarrow> 'a result \<times> sim_db" where
  "with_domain w account instrument body s =
     (case acquire_domain (sw_sha256 w) (Inr ()) (sw_session w) account instrument (sd_locks s) of
        (Inl e, _) \<Rightarrow> (Inl e, s)
      | (Inr _, locks) \<Rightarrow>
          (let (r, s') = body (s\<lparr>sd_locks := locks\<rparr>)
           in (r, s'\<lparr>sd_locks := disconnect_domain (sw_session w) (sd_locks s')\<rparr>)))"

section \<open>Submission\<close>

definition round_half_even :: "decimal \<Rightarrow> int" where
  "round_half_even x =
     (let n = \<lfloor>x\<rfloor>; r = x - of_int n
      in if r < 1/2 then n else if 1/2 < r then n + 1 else if even n then n else n + 1)"

definition bps_to_u64 :: "decimal \<Rightarrow> u64 result" where
  "bps_to_u64 bps =
     (let v = round_half_even bps
      in if v < - (2 ^ 63) \<or> 2 ^ 63 \<le> v then Inl (Bail ''simulation bps field exceeds i64'')
         else if v < 0 then Inl (Bail ''simulation bps field is negative'')
         else Inr (word_of_int v))"

definition submit_digest :: "sim_world \<Rightarrow> string \<Rightarrow> string \<Rightarrow> string" where
  "submit_digest w run_id intent_id =
     hex_digest (sw_sha256 w (map of_char (''f02:'' @ run_id @ '':'' @ intent_id)))"

definition order_call :: "sim_world \<Rightarrow> order_core \<Rightarrow> string \<Rightarrow> order_call \<Rightarrow> nat \<Rightarrow> sim_db
    \<Rightarrow> order_fact result \<times> sim_db" where
  "order_call w core intent call i = on_orders (run_call (sw_trade_digest w) core intent call (sw_clock w i))"

text \<open>The calls of one leg take the readings \<open>i\<close> to \<open>i + 3\<close> of the clock.\<close>

definition submit_and_confirm :: "sim_world \<Rightarrow> order_core \<Rightarrow> string \<Rightarrow> string \<Rightarrow> string \<Rightarrow> u64
    \<Rightarrow> simulation_config \<Rightarrow> nat \<Rightarrow> sim_rng \<Rightarrow> sim_db
    \<Rightarrow> (submit_confirmation \<times> bool \<times> bool \<times> sim_rng) result \<times> sim_db" where
  "submit_and_confirm w core run_id intent_id leg evaluated_at_ms config i rng =
     (let exchange_order_id = run_id @ ''-'' @ leg @ ''-exc'';
          query_id = run_id @ ''-'' @ leg @ ''-query''
      in bind_db (order_call w core intent_id EnsureIntent i) (\<lambda>_.
         bind_db (order_call w core intent_id (SubmitStart (submit_digest w run_id intent_id)) (i + 1)) (\<lambda>_.
         bind_db (return_db (bps_to_u64 (sc_unknown_submit_probability_bps config))) (\<lambda>unknown_prob.
         bind_db (return_db (bps_to_u64 (sc_query_found_probability_bps config))) (\<lambda>found_prob.
         let (draw, rng) = gen_range_u64 0 10000 rng
         in if draw < unknown_prob
            then bind_db (order_call w core intent_id (SubmitReport (SubmittedUnknown ''simulated transport timeout'')) (i + 2)) (\<lambda>_.
              let (draw, rng) = gen_range_u64 0 10000 rng
              in if draw < found_prob
                 then bind_db (order_call w core intent_id (QueryReport (Found query_id exchange_order_id)) (i + 3)) (\<lambda>_.
                        return_db (Inr (OrderAccepted exchange_order_id, True, True, rng)))
                 else bind_db (order_call w core intent_id (QueryReport (NotFound query_id (evaluated_at_ms + 60000))) (i + 3)) (\<lambda>_.
                        return_db (Inr (UnknownUnrecoverable, True, False, rng))))
            else bind_db (order_call w core intent_id (SubmitReport (SubmittedAccepted exchange_order_id)) (i + 2)) (\<lambda>_.
                   return_db (Inr (OrderAccepted exchange_order_id, False, False, rng))))))))"

section \<open>The stored projection\<close>

text \<open>The free PAPER balance; no row counts as zero.\<close>

definition available_balance :: "string \<Rightarrow> string \<Rightarrow> string \<Rightarrow> sim_db \<Rightarrow> decimal result \<times> sim_db" where
  "available_balance account venue asset s =
     (case lookup_row balance_key (account, venue, asset) (pd_balances (sd_paper s)) of
        None \<Rightarrow> (Inr 0, s)
      | Some b \<Rightarrow> (Inr (pb_observed_free b - pb_local_reserved b), s))"

text \<open>The quote and base totals at the three nodes fund, filled and evaluated.\<close>

definition settlement_points :: "sim_report \<Rightarrow> decimal \<Rightarrow> decimal \<Rightarrow> (decimal \<times> decimal) list" where
  "settlement_points r quote_initial base_initial =
     (let quote_filled = max (quote_initial - sl_quote_amount (sm_buy r) - sm_buy_fee r) 0;
          base_filled = max (base_initial - sl_filled (sm_sell r)) 0
      in [(quote_initial, base_initial), (quote_filled, base_filled), (quote_filled, base_filled)])"

text \<open>The CHECK constraints of the table; a text column never stores a NUL.\<close>

definition run_row_ok :: "sim_report \<Rightarrow> string \<Rightarrow> int \<Rightarrow> bool" where
  "run_row_ok r direction executed_at \<longleftrightarrow>
     0 < executed_at
     \<and> (\<forall>v \<in> {sm_run_id r, sm_symbol r, sm_buy_venue r, sm_sell_venue r, sm_plan_id r, sm_account_id r,
              sm_instrument_id r, sm_buy_intent_id r, sm_sell_intent_id r}. v \<noteq> [] \<and> CHR 0x00 \<notin> set v)
     \<and> direction \<in> {''a'', ''b''} \<and> 0 < sm_quantity r
     \<and> (\<forall>x \<in> {sl_filled (sm_buy r), sl_filled (sm_sell r), sl_avg_price (sm_buy r), sl_avg_price (sm_sell r),
              sm_buy_fee r, sm_sell_fee r, sm_unmatched_quantity r, sm_unmatched_exposure r,
              sm_estimated_compensation_cost r}. 0 \<le> x)
     \<and> sm_compensation_decision r \<in> {''NO_ACTION'', ''COMPENSATION_PLANNED'', ''MANUAL_REQUIRED''}
     \<and> sm_execution_state r \<in> {''PLANNED'', ''RUNNING'', ''COMPENSATION_PLANNED'', ''COMPLETED'', ''MANUAL_REQUIRED''}"

definition run_key :: "run_projection \<Rightarrow> string" where
  "run_key p = sm_run_id (rj_report p)"

definition insert_projection :: "sim_report \<Rightarrow> string \<Rightarrow> u64 \<Rightarrow> sim_db \<Rightarrow> unit result \<times> sim_db" where
  "insert_projection r direction fund_observed_at s =
     (case then_do (to_i64 fund_observed_at) (\<lambda>executed_at.
           then_do (to_i64 (sm_evaluated_at_ms r)) (\<lambda>_.
           then_do (to_i64 (sm_seed r)) (\<lambda>_.
           then_do (to_i64 (sm_decision_to_submit_ms r)) (\<lambda>_.
           then_do (to_i64 (sm_fill_latency_ms r)) (\<lambda>_.
           then_do (to_i64 (sm_skipped_frames r)) (\<lambda>_. Inr executed_at)))))) of
        Inl e \<Rightarrow> (Inl e, s)
      | Inr executed_at \<Rightarrow>
          if \<not> run_row_ok r direction executed_at
          then (Inl (Bail ''failed to persist simulation run projection''), s)
          else if lookup_row run_key (sm_run_id r) (sd_runs s) \<noteq> None then (Inr (), s)
          else (Inr (), s\<lparr>sd_runs := sd_runs s @ [\<lparr>rj_report = r, rj_executed_at_ms = executed_at,
                 rj_direction = direction\<rparr>]\<rparr>))"

text \<open>A snapshot row is inserted as it is; a violated constraint only leads to a warning.\<close>

definition insert_snapshot :: "sim_report \<Rightarrow> string \<Rightarrow> string \<Rightarrow> string \<Rightarrow> string \<Rightarrow> u64 \<Rightarrow> decimal
    \<Rightarrow> reconciliation_db \<Rightarrow> reconciliation_db" where
  "insert_snapshot r snapshot_id venue asset leg at_ms amount db =
     (let row = \<lparr>bs_snapshot_id = snapshot_id @ ''-'' @ leg, bs_account_id = sm_account_id r, bs_venue = venue,
            bs_asset = asset, bs_total = amount, bs_free = amount, bs_locked = 0, bs_observed_at_ms = at_ms,
            bs_source = ''SIMULATION'', bs_completeness = ''COMPLETE''\<rparr>
      in if sm_account_id r = [] \<or> venue = [] \<or> asset = [] \<or> amount < 0 \<or> at_ms = 0
           \<or> lookup_row bs_snapshot_id (bs_snapshot_id row) (rc_snapshots db) \<noteq> None
           \<or> lookup_row snapshot_slot (snapshot_slot row) (rc_snapshots db) \<noteq> None
         then db
         else db\<lparr>rc_snapshots := rc_snapshots db @ [row]\<rparr>)"

fun insert_nodes :: "sim_report \<Rightarrow> string \<Rightarrow> string \<Rightarrow> string \<Rightarrow> (string \<times> u64 \<times> decimal \<times> decimal) list
    \<Rightarrow> reconciliation_db \<Rightarrow> reconciliation_db" where
  "insert_nodes r direction quote_asset base_asset [] db = db"
| "insert_nodes r direction quote_asset base_asset ((node, at_ms, quote_total, base_total) # nodes) db =
     (let snapshot_id = ''sim-snap-'' @ sm_run_id r @ ''-'' @ direction @ ''-'' @ node
      in insert_nodes r direction quote_asset base_asset nodes
           (insert_snapshot r snapshot_id (sm_sell_venue r) base_asset ''base'' at_ms base_total
             (insert_snapshot r snapshot_id (sm_buy_venue r) quote_asset ''quote'' at_ms quote_total db)))"

definition persist_simulation_run :: "sim_report \<Rightarrow> simulation_config \<Rightarrow> string \<Rightarrow> string \<Rightarrow> string \<Rightarrow> u64 \<Rightarrow> u64
    \<Rightarrow> sim_db \<Rightarrow> unit result \<times> sim_db" where
  "persist_simulation_run r config quote_asset base_asset direction fund_observed_at now =
     bind_db (insert_projection r direction fund_observed_at) (\<lambda>_ s.
       let filled_at = saturating_add (saturating_add (sm_evaluated_at_ms r) (sm_decision_to_submit_ms r))
             (sm_fill_latency_ms r);
           points = settlement_points r (sc_initial_quote_balance config) (sc_initial_base_balance config)
       in case then_do (to_i64 fund_observed_at) (\<lambda>_. then_do (to_i64 filled_at) (\<lambda>_. to_i64 now)) of
            Inl e \<Rightarrow> (Inl e, s)
          | Inr _ \<Rightarrow> (Inr (), s\<lparr>sd_snapshots := insert_nodes r direction quote_asset base_asset
              (zip [''fund'', ''filled'', ''evaluated''] (zip [fund_observed_at, filled_at, now] points))
              (sd_snapshots s)\<rparr>))"

section \<open>Preparation\<close>

definition venue_index :: "string \<Rightarrow> order_book_snapshot \<times> order_book_snapshot \<Rightarrow> bool option" where
  "venue_index v books =
     (if ob_venue (fst books) = v then Some True else if ob_venue (snd books) = v then Some False else None)"

text \<open>The entry of a pair at index 0 (\<open>True\<close>) or 1.\<close>

definition entry :: "bool \<Rightarrow> 'a \<times> 'a \<Rightarrow> 'a" where
  "entry first p = (if first then fst p else snd p)"

definition no_leg :: sim_leg_result where
  "no_leg = \<lparr>sl_filled = 0, sl_quote_amount = 0, sl_avg_price = 0, sl_last_raw_price = 0,
     sl_last_fill_price = 0, sl_depth_shortfall = False, sl_below_min_quantity = False\<rparr>"

record sim_setup =
  su_now :: u64
  su_buy_first :: bool
  su_sell_first :: bool
  su_direction :: string
  su_opportunity_id :: string
  su_buy_limit :: decimal
  su_sell_limit :: decimal
  su_quote_cost :: decimal
  su_rng :: sim_rng
  su_report :: sim_report

definition quote_cost_estimate :: "(decimal \<Rightarrow> decimal \<Rightarrow> decimal) \<Rightarrow> decimal \<Rightarrow> decimal \<Rightarrow> decimal \<Rightarrow> decimal" where
  "quote_cost_estimate dv target worst bps =
     of_int (round_away (target * worst * (1 + dv bps bps_denominator) * 10 ^ 8)) / 10 ^ 8"

definition initial_report :: "u64 \<Rightarrow> string \<Rightarrow> string \<Rightarrow> simulation_source \<Rightarrow> decision_event \<Rightarrow> opportunity
    \<Rightarrow> simulation_config \<Rightarrow> u64 \<Rightarrow> u64 \<Rightarrow> u64 \<Rightarrow> u64 \<Rightarrow> sim_report" where
  "initial_report now pid dir source e o1 config skipped seed decision_ms latency_ms =
     (let stamp = show_nat (unat now) @ ''-'' @ pid; run_id = ''f02-'' @ stamp; symbol = dc_symbol (dn_config e)
      in \<lparr>sm_seed = seed, sm_run_id = run_id, sm_source = source, sm_symbol = symbol,
          sm_quantity = dc_quantity (dn_config e), sm_buy_venue = op_buy_venue o1, sm_sell_venue = op_sell_venue o1,
          sm_scenario = Normal, sm_rejection_reason = None, sm_plan_id = run_id @ ''-plan-'' @ dir,
          sm_account_id = ''f02-account-'' @ stamp @ ''-'' @ dir,
          sm_instrument_id = ''f02-instrument-'' @ map (\<lambda>c. if c = CHR ''/'' then CHR ''-'' else c) symbol
            @ ''-'' @ stamp,
          sm_buy_intent_id = run_id @ ''-intent-buy'', sm_sell_intent_id = run_id @ ''-intent-sell'',
          sm_buy_client_order_id = run_id @ ''-client-buy'', sm_sell_client_order_id = run_id @ ''-client-sell'',
          sm_evaluated_at_ms = dn_evaluated_at_ms e, sm_decision_to_submit_ms = decision_ms,
          sm_fill_latency_ms = latency_ms, sm_buy = no_leg, sm_sell = no_leg, sm_buy_fee = 0, sm_sell_fee = 0,
          sm_scanned_net_profit = op_expected_net_profit o1, sm_simulated_net_profit = 0,
          sm_adverse_move_bps = sc_adverse_move_bps config, sm_competitor_take_bps = sc_competitor_take_bps config,
          sm_compensation_decision = ''NO_ACTION'', sm_execution_state = ''PLANNED'', sm_unmatched_quantity = 0,
          sm_unmatched_exposure = 0, sm_estimated_compensation_cost = 0, sm_unknown_submit_tried = False,
          sm_query_found = False, sm_idempotent_replay = False, sm_skipped_frames = skipped, sm_warnings = []\<rparr>)"

definition prepare_run :: "sim_world \<Rightarrow> decision_event \<Rightarrow> opportunity \<Rightarrow> simulation_config \<Rightarrow> u64 \<Rightarrow> simulation_source
    \<Rightarrow> sim_setup result" where
  "prepare_run w e o1 config skipped source =
     (let now = sw_clock w 0; pid = show_nat (unat (sw_pid w)) in
      case venue_index (op_buy_venue o1) (dn_books e) of
        None \<Rightarrow> Inl (Bail ''F-02 opportunity buy venue absent from event books'')
      | Some buy_first \<Rightarrow>
      (case venue_index (op_sell_venue o1) (dn_books e) of
        None \<Rightarrow> Inl (Bail ''F-02 opportunity sell venue absent from event books'')
      | Some sell_first \<Rightarrow>
        let dir = (if buy_first then ''a'' else ''b'');
            seed = (if sc_seed config = 0 then now else sc_seed config);
            (decision_ms, rng) = gen_range_u64 (sc_decision_to_submit_ms_min config)
              (sc_decision_to_submit_ms_max config) (rng_new seed);
            (latency_ms, rng) = gen_range_u64 (sc_fill_latency_ms_min config) (sc_fill_latency_ms_max config) rng;
            report = initial_report now pid dir source e o1 config skipped seed decision_ms latency_ms
        in then_do (offset_level_price (sw_div w) (op_buy_worst_price o1) Asks (sc_adverse_move_bps config)
               (is_price_tick (entry buy_first (dn_instruments e)))) (\<lambda>buy_limit.
           then_do (offset_level_price (sw_div w) (op_sell_worst_price o1) Bids (sc_adverse_move_bps config)
               (is_price_tick (entry sell_first (dn_instruments e)))) (\<lambda>sell_limit.
           Inr \<lparr>su_now = now, su_buy_first = buy_first, su_sell_first = sell_first, su_direction = dir,
             su_opportunity_id = sm_run_id report @ ''-opportunity-'' @ dir, su_buy_limit = buy_limit,
             su_sell_limit = sell_limit,
             su_quote_cost = quote_cost_estimate (sw_div w) (dc_quantity (dn_config e)) (op_buy_worst_price o1)
               (sc_adverse_move_bps config),
             su_rng = rng, su_report = report\<rparr>))))"

definition plan_request :: "sim_setup \<Rightarrow> decision_event \<Rightarrow> simulation_config \<Rightarrow> reserve_plan_request" where
  "plan_request u e config =
     (let r = su_report u; run_id = sm_run_id r; target = dc_quantity (dn_config e)
      in \<lparr>rp_request_id = run_id @ ''-request-'' @ su_direction u, rp_plan_id = sm_plan_id r,
          rp_account_id = sm_account_id r, rp_instrument_id = sm_instrument_id r,
          rp_opportunity_id = su_opportunity_id u, rp_strategy_config_version = ''f02-sim-v1'',
          rp_target_quantity = target, rp_max_unmatched_exposure = sc_max_unmatched_exposure config,
          rp_intents =
            (\<lparr>oi_intent_id = sm_buy_intent_id r, oi_leg_id = ''buy'', oi_attempt_id = run_id @ ''-attempt-buy'',
              oi_client_order_id = sm_buy_client_order_id r, oi_venue = sm_buy_venue r, oi_side = Buy,
              oi_quantity = target, oi_limit_price = su_buy_limit u\<rparr>,
             \<lparr>oi_intent_id = sm_sell_intent_id r, oi_leg_id = ''sell'', oi_attempt_id = run_id @ ''-attempt-sell'',
              oi_client_order_id = sm_sell_client_order_id r, oi_venue = sm_sell_venue r, oi_side = Sell,
              oi_quantity = target, oi_limit_price = su_sell_limit u\<rparr>),
          rp_reservations =
            [\<lparr>ri_reservation_id = run_id @ ''-reserve-quote'', ri_venue = sm_buy_venue r,
              ri_asset = dc_quote_asset (dn_config e), ri_amount = su_quote_cost u\<rparr>,
             \<lparr>ri_reservation_id = run_id @ ''-reserve-base'', ri_venue = sm_sell_venue r,
              ri_asset = dc_base_asset (dn_config e), ri_amount = target\<rparr>]\<rparr>)"

section \<open>The phases of a run\<close>

definition fund_run :: "sim_setup \<Rightarrow> decision_event \<Rightarrow> simulation_config \<Rightarrow> sim_db \<Rightarrow> unit result \<times> sim_db" where
  "fund_run u e config =
     (let r = su_report u in
      bind_db (on_paper (set_paper_balance (sm_account_id r) (sm_buy_venue r) (dc_quote_asset (dn_config e))
          (sc_initial_quote_balance config) (sc_initial_quote_balance config) (su_now u))) (\<lambda>_.
        on_paper (set_paper_balance (sm_account_id r) (sm_sell_venue r) (dc_base_asset (dn_config e))
          (sc_initial_base_balance config) (sc_initial_base_balance config) (su_now u))))"

definition reserve_run :: "sim_world \<Rightarrow> sim_setup \<Rightarrow> decision_event \<Rightarrow> simulation_config \<Rightarrow> sim_db
    \<Rightarrow> reserve_outcome result \<times> sim_db" where
  "reserve_run w u e config =
     (let account = sm_account_id (su_report u); instrument = sm_instrument_id (su_report u)
      in with_domain w account instrument
           (on_paper (reserve_plan (sw_collation w) (sw_plan_digest w) account instrument
             (plan_request u e config) (sw_clock w 1))))"

definition initialize_run :: "sim_world \<Rightarrow> sim_setup \<Rightarrow> decision_event \<Rightarrow> simulation_config \<Rightarrow> sim_db
    \<Rightarrow> execution_fact result \<times> sim_db" where
  "initialize_run w u e config =
     (let r = su_report u; account = sm_account_id r; instrument = sm_instrument_id r
      in with_domain w account instrument
           (on_execution (initialize_plan account instrument (sm_plan_id r) (dc_quantity (dn_config e))
             (sc_max_unmatched_exposure config) (sc_compensation_budget config) (sw_clock w 2))))"

text \<open>The fills of a confirmed leg are booked as one trade; those of an unknown leg are only warned about.\<close>

definition book_leg :: "sim_world \<Rightarrow> order_core \<Rightarrow> string \<Rightarrow> string \<Rightarrow> string \<Rightarrow> string \<Rightarrow> string \<Rightarrow> decimal \<Rightarrow> u64
    \<Rightarrow> nat \<Rightarrow> submit_confirmation \<Rightarrow> sim_leg_result \<Rightarrow> sim_db \<Rightarrow> (decimal \<times> string list) result \<times> sim_db" where
  "book_leg w core run_id leg intent_id venue fee_asset rate occurred_at i conf result =
     (case conf of
        OrderAccepted exchange_order_id \<Rightarrow>
          if 0 < sl_filled result
          then let fee = sl_quote_amount result * rate in
            bind_db (order_call w core intent_id (ReportTrade
              \<lparr>ti_venue = venue, ti_exchange_order_id = exchange_order_id, ti_trade_id = run_id @ ''-'' @ leg @ ''-trade'',
               ti_quantity = sl_filled result, ti_price = sl_avg_price result, ti_fee_asset = fee_asset,
               ti_fee_amount = fee, ti_source_sequence = 1, ti_occurred_at_ms = occurred_at\<rparr>) i) (\<lambda>_.
            return_db (Inr (fee, [])))
          else return_db (Inr (0, []))
      | UnknownUnrecoverable \<Rightarrow> return_db (Inr (0,
          if 0 < sl_filled result
          then [leg @ '' leg had simulated fills but submission is UNKNOWN/NotFound; fills not booked'']
          else [])))"

record legs_outcome =
  lo_unknown_tried :: bool
  lo_query_found :: bool
  lo_buy :: sim_leg_result
  lo_sell :: sim_leg_result
  lo_buy_fee :: decimal
  lo_sell_fee :: decimal
  lo_warnings :: "string list"

definition run_legs :: "sim_world \<Rightarrow> sim_setup \<Rightarrow> decision_event \<Rightarrow> simulation_config \<Rightarrow> order_core \<Rightarrow> sim_db
    \<Rightarrow> legs_outcome result \<times> sim_db" where
  "run_legs w u e config core =
     (let r = su_report u; run_id = sm_run_id r; target = dc_quantity (dn_config e);
          quote = dc_quote_asset (dn_config e);
          occurred_at = saturating_add (saturating_add (sm_evaluated_at_ms r) (sm_decision_to_submit_ms r))
            (sm_fill_latency_ms r)
      in bind_db (submit_and_confirm w core run_id (sm_buy_intent_id r) ''buy'' (sm_evaluated_at_ms r) config 3
           (su_rng u)) (\<lambda>(buy_conf, buy_unknown, buy_found, rng).
         bind_db (submit_and_confirm w core run_id (sm_sell_intent_id r) ''sell'' (sm_evaluated_at_ms r) config 7
           rng) (\<lambda>(sell_conf, sell_unknown, sell_found, rng).
         bind_db (return_db (simulate_leg (sw_div w) Asks (entry (su_buy_first u) (dn_books e))
           (entry (su_buy_first u) (dn_instruments e)) target config)) (\<lambda>buy.
         bind_db (return_db (simulate_leg (sw_div w) Bids (entry (su_sell_first u) (dn_books e))
           (entry (su_sell_first u) (dn_instruments e)) target config)) (\<lambda>sell.
         bind_db (book_leg w core run_id ''buy'' (sm_buy_intent_id r) (sm_buy_venue r) quote
           (xf_buy_taker_rate (entry (su_buy_first u) (dn_fees e))) occurred_at 11 buy_conf buy) (\<lambda>(buy_fee, buy_warn).
         bind_db (book_leg w core run_id ''sell'' (sm_sell_intent_id r) (sm_sell_venue r) quote
           (xf_sell_taker_rate (entry (su_sell_first u) (dn_fees e))) occurred_at 12 sell_conf sell) (\<lambda>(sell_fee, sell_warn).
         return_db (Inr \<lparr>lo_unknown_tried = (buy_unknown \<or> sell_unknown), lo_query_found = (buy_found \<or> sell_found),
           lo_buy = buy, lo_sell = sell, lo_buy_fee = buy_fee, lo_sell_fee = sell_fee,
           lo_warnings = buy_warn @ sell_warn\<rparr>))))))))"

definition legs_run :: "sim_world \<Rightarrow> sim_setup \<Rightarrow> decision_event \<Rightarrow> simulation_config \<Rightarrow> sim_db
    \<Rightarrow> legs_outcome result \<times> sim_db" where
  "legs_run w u e config =
     (let account = sm_account_id (su_report u); instrument = sm_instrument_id (su_report u)
      in with_domain w account instrument
           (run_legs w u e config \<lparr>co_account_id = account, co_instrument_id = instrument\<rparr>))"

definition evaluate_run :: "sim_world \<Rightarrow> sim_setup \<Rightarrow> opportunity \<Rightarrow> simulation_config \<Rightarrow> legs_outcome \<Rightarrow> sim_db
    \<Rightarrow> compensation_outcome result \<times> sim_db" where
  "evaluate_run w u o1 config legs =
     (let mid = sw_div w (op_buy_worst_price o1 + op_sell_worst_price o1) 2;
          cost = mid * (1 + sw_div w (sc_compensation_markup_bps config) bps_denominator)
      in with_domain w (sm_account_id (su_report u)) (sm_instrument_id (su_report u))
           (on_execution (evaluate (sm_plan_id (su_report u)) (sl_filled (lo_buy legs)) (sl_filled (lo_sell legs))
             (op_sell_worst_price o1) cost (sw_clock w 13))))"

definition run_scenario :: "sim_leg_result \<Rightarrow> sim_leg_result \<Rightarrow> simulation_scenario" where
  "run_scenario buy sell =
     (if sl_filled buy = 0 \<or> sl_filled sell = 0 then CompetedAway
      else if sl_depth_shortfall buy \<or> sl_depth_shortfall sell then DepthShortfall else Normal)"

definition final_report :: "sim_report \<Rightarrow> legs_outcome \<Rightarrow> compensation_outcome \<Rightarrow> sim_report" where
  "final_report r legs out =
     r\<lparr>sm_unknown_submit_tried := lo_unknown_tried legs, sm_query_found := lo_query_found legs,
       sm_warnings := sm_warnings r @ lo_warnings legs, sm_scenario := run_scenario (lo_buy legs) (lo_sell legs),
       sm_simulated_net_profit := sl_quote_amount (lo_sell legs) - lo_sell_fee legs
         - sl_quote_amount (lo_buy legs) - lo_buy_fee legs,
       sm_buy := lo_buy legs, sm_sell := lo_sell legs, sm_buy_fee := lo_buy_fee legs, sm_sell_fee := lo_sell_fee legs,
       sm_compensation_decision := decision_as_str (out_decision out),
       sm_execution_state := execution_state_as_str (ef_state (out_snapshot out)),
       sm_unmatched_quantity := ef_unmatched_quantity (out_snapshot out),
       sm_unmatched_exposure := ef_unmatched_exposure (out_snapshot out),
       sm_estimated_compensation_cost := out_estimated_cost out\<rparr>"

section \<open>One run\<close>

definition persist_run :: "sim_world \<Rightarrow> sim_setup \<Rightarrow> decision_event \<Rightarrow> simulation_config \<Rightarrow> sim_report \<Rightarrow> sim_db
    \<Rightarrow> sim_report result \<times> sim_db" where
  "persist_run w u e config r =
     bind_db (persist_simulation_run r config (dc_quote_asset (dn_config e)) (dc_base_asset (dn_config e))
       (su_direction u) (su_now u) (sw_clock w 14)) (\<lambda>_. return_db (Inr r))"

definition rejected_report :: "sim_world \<Rightarrow> sim_setup \<Rightarrow> decision_event \<Rightarrow> decimal \<Rightarrow> decimal \<Rightarrow> sim_report" where
  "rejected_report w u e quote_available base_available =
     (su_report u)\<lparr>sm_scenario := RunRejected, sm_rejection_reason := Some
       (''insufficient PAPER funds: quote available '' @ sw_show_decimal w quote_available
        @ '' needed '' @ sw_show_decimal w (su_quote_cost u)
        @ '', base available '' @ sw_show_decimal w base_available
        @ '' needed '' @ sw_show_decimal w (dc_quantity (dn_config e)))\<rparr>"

definition replayed_report :: "sim_report \<Rightarrow> sim_report" where
  "replayed_report r = r\<lparr>sm_idempotent_replay := True,
     sm_warnings := sm_warnings r @ [''idempotent replay: plan already exists; run skipped'']\<rparr>"

definition execute_run :: "sim_world \<Rightarrow> sim_setup \<Rightarrow> decision_event \<Rightarrow> opportunity \<Rightarrow> simulation_config \<Rightarrow> sim_db
    \<Rightarrow> sim_report result \<times> sim_db" where
  "execute_run w u e o1 config =
     bind_db (initialize_run w u e config) (\<lambda>_.
     bind_db (legs_run w u e config) (\<lambda>legs.
     bind_db (evaluate_run w u o1 config legs) (\<lambda>out.
     persist_run w u e config (final_report (su_report u) legs out))))"

definition run_simulation_run :: "sim_world \<Rightarrow> decision_event \<Rightarrow> opportunity \<Rightarrow> simulation_config \<Rightarrow> u64
    \<Rightarrow> simulation_source \<Rightarrow> sim_db \<Rightarrow> sim_report result \<times> sim_db" where
  "run_simulation_run w e o1 config skipped source =
     bind_db (return_db (prepare_run w e o1 config skipped source)) (\<lambda>u.
     bind_db (fund_run u e config) (\<lambda>_.
     let r = su_report u; account = sm_account_id r in
     bind_db (available_balance account (sm_buy_venue r) (dc_quote_asset (dn_config e))) (\<lambda>quote_available.
     bind_db (available_balance account (sm_sell_venue r) (dc_base_asset (dn_config e))) (\<lambda>base_available.
     if quote_available < su_quote_cost u \<or> base_available < dc_quantity (dn_config e)
     then persist_run w u e config (rejected_report w u e quote_available base_available)
     else bind_db (reserve_run w u e config) (\<lambda>out.
       if ro_idempotent_replay out then persist_run w u e config (replayed_report r)
       else execute_run w u e o1 config)))))"

fun run_directions :: "(nat \<Rightarrow> sim_world) \<Rightarrow> decision_event \<Rightarrow> opportunity list \<Rightarrow> simulation_config \<Rightarrow> u64 \<Rightarrow> nat
    \<Rightarrow> sim_db \<Rightarrow> nat result \<times> sim_db" where
  "run_directions ws e [] config skipped k s = (Inr k, s)"
| "run_directions ws e (o1 # os) config skipped k s =
     bind_db (run_simulation_run (ws k) e o1 config skipped Live)
       (\<lambda>_. run_directions ws e os config skipped (k + 1)) s"

text \<open>The n-th run of an event lives in the world \<open>ws n\<close>: it reads the clock anew.\<close>

definition run_all_directions :: "(nat \<Rightarrow> sim_world) \<Rightarrow> decision_event \<Rightarrow> simulation_config \<Rightarrow> u64 \<Rightarrow> sim_db
    \<Rightarrow> nat result \<times> sim_db" where
  "run_all_directions ws e config skipped =
     run_directions ws e (filter op_accepted (sr_directions (dn_report e))) config skipped 0"

section \<open>A run keeps the invariants of every core\<close>

definition cores_ok :: "sim_world \<Rightarrow> sim_db \<Rightarrow> bool" where
  "cores_ok w s \<longleftrightarrow> paper_reachable (sw_plan_digest w) (sd_paper s) \<and> execution_reachable (execution_view s)
     \<and> order_reachable (sw_trade_digest w) (order_view s)"

lemma cores_ok_cong:
  assumes "cores_ok w s" "sd_paper s' = sd_paper s" "sd_execution s' = sd_execution s" "sd_orders s' = sd_orders s"
  shows "cores_ok w s'"
  using assms by (simp add: cores_ok_def execution_view_def order_view_def)

lemma set_paper_balance_frame:
  "pd_plans (snd (set_paper_balance a v x t f n p)) = pd_plans p"
  "pd_intents (snd (set_paper_balance a v x t f n p)) = pd_intents p"
  by (simp_all add: set_paper_balance_def Let_def split: sum.splits if_splits) (auto split: if_splits)

lemma initialize_plan_frame: "xd_plans (snd (initialize_plan ac i p t m bu n db)) = xd_plans db"
  by (auto simp: initialize_plan_def Let_def split: sum.splits if_splits)

lemma evaluate_frame: "xd_plans (snd (evaluate p a b u c n db)) = xd_plans db"
proof (cases "snd (evaluate p a b u c n db) = db")
  case False
  then show ?thesis by (elim evaluate_cases) simp
qed simp

lemma run_call_frame: "od_intents (snd (run_call d core i c n db)) = od_intents db"
  using run_call_step[of i db d core c n] by (induction rule: db_step.induct) simp_all

text \<open>A reservation adds its plan and two intents to what the other cores see, or nothing.\<close>

lemma join_intent_append:
  assumes "fst x \<in> pl_plan_id ` set (pd_plans p)" "pd_plans p' = pd_plans p @ ps"
  shows "join_intent p' x = join_intent p x"
proof -
  have "lookup_row pl_plan_id (fst x) (pd_plans p) \<noteq> None"
    using assms(1) by (auto simp: lookup_row_None_iff)
  then show ?thesis by (cases x) (auto simp: assms(2) lookup_row_append)
qed

lemma reserve_plan_views:
  assumes "paper_inv p" "reserve_plan collation d account instrument r now p = (res, p')"
  shows "(plan_refs p' = plan_refs p \<and> intent_refs p' = intent_refs p)
    \<or> (\<exists>x a b. plan_refs p' = plan_refs p @ [x] \<and> intent_refs p' = intent_refs p @ [a, b])"
proof (cases "p' = p")
  case False
  let ?f = "\<lambda>x. (it_plan_id x, it_input x)"
  from False assms(2) obtain t where "insert_plan r (request_digest d r) t p = Inr p'"
    by (auto simp: reserve_plan_def split: sum.splits option.splits if_splits)
  then obtain q where q: "plan_inserted r (request_digest d r) q p p'" by (rule insert_plan_result)
  then have plans: "pd_plans p' = pd_plans p @ [q]" "pl_plan_id q = rp_plan_id r"
    and intents: "map ?f (pd_intents p') = map ?f (pd_intents p) @ map (Pair (rp_plan_id r)) (intent_list r)"
    by (simp_all add: plan_inserted_def)
  have fresh: "lookup_row pl_plan_id (rp_plan_id r) (pd_plans p) = None"
    using q plans(2) by (auto simp: plan_inserted_def lookup_row_None_iff)
  have "\<forall>x \<in> set (map ?f (pd_intents p)). fst x \<in> pl_plan_id ` set (pd_plans p)"
    using assms(1) by (auto simp: paper_inv_def plans_inv_def)
  then have "map (join_intent p') (map ?f (pd_intents p)) = map (join_intent p) (map ?f (pd_intents p))"
    using join_intent_append[OF _ plans(1)] by (intro map_cong) blast+
  moreover obtain a b where "concat (map (join_intent p') (map (Pair (rp_plan_id r)) (intent_list r))) = [a, b]"
    using fresh plans by (simp add: intent_list_def lookup_row_append)
  ultimately have "intent_refs p' = intent_refs p @ [a, b]"
    unfolding intent_refs_def intents by (simp only: map_append concat_append)
  moreover have "\<exists>x. plan_refs p' = plan_refs p @ [x]" by (simp add: plan_refs_def plans(1))
  ultimately show ?thesis by blast
qed simp

lemma join_intent_cong: "pd_plans p' = pd_plans p \<Longrightarrow> join_intent p' = join_intent p"
proof
  fix x assume "pd_plans p' = pd_plans p"
  then show "join_intent p' x = join_intent p x" by (cases x) simp
qed

lemma on_set_balance_ok:
  assumes "cores_ok w s"
  shows "cores_ok w (snd (on_paper (set_paper_balance a v x t f n) s))"
proof -
  obtain res p' where run: "set_paper_balance a v x t f n (sd_paper s) = (res, p')" by fastforce
  have "pd_plans p' = pd_plans (sd_paper s)" "pd_intents p' = pd_intents (sd_paper s)"
    using set_paper_balance_frame[of a v x t f n "sd_paper s"] by (simp_all add: run)
  then have "plan_refs p' = plan_refs (sd_paper s)" "intent_refs p' = intent_refs (sd_paper s)"
    by (simp_all add: plan_refs_def intent_refs_def join_intent_cong[of p'])
  moreover have "paper_reachable (sw_plan_digest w) p'"
    using assms paper_reachable.observed[of "sw_plan_digest w" "sd_paper s" a v x t f n]
    by (simp add: cores_ok_def run)
  ultimately show ?thesis using assms by (simp add: cores_ok_def on_paper_def run execution_view_def order_view_def)
qed

lemma on_reserve_ok:
  assumes "cores_ok w s"
  shows "cores_ok w (snd (on_paper (reserve_plan (sw_collation w) (sw_plan_digest w) a i r n) s))"
proof -
  obtain res p' where run: "reserve_plan (sw_collation w) (sw_plan_digest w) a i r n (sd_paper s) = (res, p')"
    by fastforce
  have paper: "paper_reachable (sw_plan_digest w) (sd_paper s)" and x: "execution_reachable (execution_view s)"
    and o1: "order_reachable (sw_trade_digest w) (order_view s)"
    using assms by (simp_all add: cores_ok_def)
  have "paper_reachable (sw_plan_digest w) p'"
    using paper_reachable.reserved[OF paper, of "sw_collation w" a i r n] run by simp
  moreover from reserve_plan_views[OF paper_reachable_inv[OF paper] run]
  have "execution_reachable (execution_view (s\<lparr>sd_paper := p'\<rparr>))
      \<and> order_reachable (sw_trade_digest w) (order_view (s\<lparr>sd_paper := p'\<rparr>))"
  proof (elim disjE exE conjE)
    fix y b c assume v: "plan_refs p' = plan_refs (sd_paper s) @ [y]"
      "intent_refs p' = intent_refs (sd_paper s) @ [b, c]"
    have "execution_reachable (execution_view (s\<lparr>sd_paper := p'\<rparr>))"
      using execution_reachable.reserved[OF x, of y] by (simp add: execution_view_def v)
    moreover have "order_reachable (sw_trade_digest w) (order_view (s\<lparr>sd_paper := p'\<rparr>))"
      using order_reachable.planned[OF order_reachable.planned[OF o1, of b], of c] by (simp add: order_view_def v)
    ultimately show ?thesis ..
  qed (use x o1 in \<open>simp add: execution_view_def order_view_def\<close>)
  ultimately show ?thesis by (simp add: cores_ok_def on_paper_def run)
qed

lemma on_execution_ok:
  assumes "cores_ok w s" "\<And>db. execution_reachable db \<Longrightarrow> execution_reachable (snd (f db))"
    and "\<And>db. xd_plans (snd (f db)) = xd_plans db"
  shows "cores_ok w (snd (on_execution f s))"
proof -
  obtain r x where run: "f (execution_view s) = (r, x)" by fastforce
  have "xd_plans x = plan_refs (sd_paper s)" using assms(3)[of "execution_view s"] run
    by (simp add: execution_view_def)
  then have "execution_view (s\<lparr>sd_execution := x\<rparr>) = x" by (simp add: execution_view_def)
  moreover have "execution_reachable x" using assms(1,2) run unfolding cores_ok_def by (metis snd_conv)
  ultimately show ?thesis using assms(1) by (simp add: cores_ok_def on_execution_def run order_view_def)
qed

lemma order_call_ok:
  assumes "cores_ok w s"
  shows "cores_ok w (snd (order_call w core i c n s))"
proof -
  obtain r x where run: "run_call (sw_trade_digest w) core i c (sw_clock w n) (order_view s) = (r, x)" by fastforce
  have "od_intents x = intent_refs (sd_paper s)"
    using run_call_frame[of "sw_trade_digest w" core i c "sw_clock w n" "order_view s"] run
    by (simp add: order_view_def)
  then have "order_view (s\<lparr>sd_orders := x\<rparr>) = x" by (simp add: order_view_def)
  moreover have "order_reachable (sw_trade_digest w) x"
    using assms order_reachable.called run unfolding cores_ok_def by (metis snd_conv)
  ultimately show ?thesis using assms
    by (simp add: cores_ok_def order_call_def on_orders_def run execution_view_def)
qed

lemma with_domain_ok:
  assumes "cores_ok w s" "\<And>s. cores_ok w s \<Longrightarrow> cores_ok w (snd (body s))"
  shows "cores_ok w (snd (with_domain w a i body s))"
proof -
  have "cores_ok w (s\<lparr>sd_locks := ls\<rparr>)" for ls using assms(1) by (rule cores_ok_cong) simp_all
  from assms(2)[OF this] have "cores_ok w (snd (body (s\<lparr>sd_locks := ls\<rparr>)))" for ls .
  then have "cores_ok w ((snd (body (s\<lparr>sd_locks := ls\<rparr>)))\<lparr>sd_locks := ls'\<rparr>)" for ls ls'
    by (rule cores_ok_cong) simp_all
  then show ?thesis using assms(1) by (auto simp: with_domain_def Let_def split: prod.splits sum.splits)
      (metis snd_conv)
qed

lemma bind_ok:
  assumes "cores_ok w s" "\<And>s. cores_ok w s \<Longrightarrow> cores_ok w (snd (m s))"
    and "\<And>x s. cores_ok w s \<Longrightarrow> cores_ok w (snd (k x s))"
  shows "cores_ok w (snd (bind_db m k s))"
  using assms by (rule bind_db_keeps)

lemma submit_and_confirm_ok:
  assumes "cores_ok w s"
  shows "cores_ok w (snd (submit_and_confirm w core run_id i leg t config n rng s))"
  unfolding submit_and_confirm_def Let_def
  by (intro bind_ok assms order_call_ok; (simp; fail)?)
    (auto intro!: bind_ok order_call_ok split: prod.split)

lemma book_leg_ok:
  assumes "cores_ok w s"
  shows "cores_ok w (snd (book_leg w core run_id leg i v f rate t n conf res s))"
  using assms by (cases conf) (auto simp: book_leg_def Let_def intro!: bind_ok order_call_ok)

lemma run_legs_ok:
  assumes "cores_ok w s"
  shows "cores_ok w (snd (run_legs w u e config core s))"
  unfolding run_legs_def Let_def
  by (intro bind_ok assms submit_and_confirm_ok; (simp; fail)?)
    (auto intro!: bind_ok submit_and_confirm_ok book_leg_ok split: prod.split)

lemma phases_ok:
  assumes "cores_ok w s"
  shows "cores_ok w (snd (fund_run u e config s))" "cores_ok w (snd (reserve_run w u e config s))"
    "cores_ok w (snd (initialize_run w u e config s))" "cores_ok w (snd (legs_run w u e config s))"
    "cores_ok w (snd (evaluate_run w u o1 config legs s))"
proof -
  show "cores_ok w (snd (fund_run u e config s))"
    unfolding fund_run_def Let_def by (intro bind_ok assms on_set_balance_ok)
  show "cores_ok w (snd (reserve_run w u e config s))"
    unfolding reserve_run_def Let_def by (intro with_domain_ok assms on_reserve_ok)
  show "cores_ok w (snd (initialize_run w u e config s))"
    unfolding initialize_run_def Let_def
    by (intro with_domain_ok assms on_execution_ok initialize_plan_frame execution_reachable.initialized)
  show "cores_ok w (snd (legs_run w u e config s))"
    unfolding legs_run_def Let_def by (intro with_domain_ok assms run_legs_ok)
  show "cores_ok w (snd (evaluate_run w u o1 config legs s))"
    unfolding evaluate_run_def Let_def
    by (intro with_domain_ok assms on_execution_ok evaluate_frame execution_reachable.evaluated)
qed

lemma persist_frame:
  "sd_paper (snd (persist_run w u e config r s)) = sd_paper s"
  "sd_execution (snd (persist_run w u e config r s)) = sd_execution s"
  "sd_orders (snd (persist_run w u e config r s)) = sd_orders s"
  "sd_locks (snd (persist_run w u e config r s)) = sd_locks s"
  by (auto simp: persist_run_def persist_simulation_run_def insert_projection_def bind_db_def Let_def
      split: sum.splits prod.splits if_splits)

lemma persist_ok: "cores_ok w s \<Longrightarrow> cores_ok w (snd (persist_run w u e config r s))"
  by (rule cores_ok_cong) (simp_all add: persist_frame)

lemma available_balance_frame [simp]: "snd (available_balance a v x s) = s"
  by (simp add: available_balance_def split: option.split)

lemma run_simulation_run_ok:
  assumes "cores_ok w s"
  shows "cores_ok w (snd (run_simulation_run w e o1 config skipped source s))"
  unfolding run_simulation_run_def execute_run_def Let_def
  by (intro bind_ok assms phases_ok; (simp; fail)?)
    (auto intro!: bind_ok phases_ok persist_ok)

section \<open>Rejection\<close>

lemma set_paper_balance_result:
  assumes "set_paper_balance a v x t f n p = (Inr y, p')"
  shows "\<exists>b. lookup_row balance_key (a, v, x) (pd_balances p') = Some b
      \<and> pb_observed_free b = f \<and> pb_local_reserved b = 0"
    "k \<noteq> (a, v, x) \<Longrightarrow> lookup_row balance_key k (pd_balances p') = lookup_row balance_key k (pd_balances p)"
    "p' = p\<lparr>pd_balances := pd_balances p'\<rparr>"
  using assms
  by (auto simp: set_paper_balance_def Let_def lookup_row_append lookup_put_row balance_key_def
      split: sum.splits if_splits option.splits)

text \<open>After funding, both balances are what the configuration gives the run.\<close>

lemma fund_run_result:
  assumes "fund_run u e config s = (Inr x, s')" "sm_buy_venue (su_report u) \<noteq> sm_sell_venue (su_report u)"
  shows "available_balance (sm_account_id (su_report u)) (sm_buy_venue (su_report u)) (dc_quote_asset (dn_config e)) s'
      = (Inr (sc_initial_quote_balance config), s')"
    "available_balance (sm_account_id (su_report u)) (sm_sell_venue (su_report u)) (dc_base_asset (dn_config e)) s'
      = (Inr (sc_initial_base_balance config), s')"
    "s' = s\<lparr>sd_paper := (sd_paper s)\<lparr>pd_balances := pd_balances (sd_paper s')\<rparr>\<rparr>"
proof -
  let ?r = "su_report u" and ?q = "sc_initial_quote_balance config" and ?b = "sc_initial_base_balance config"
  let ?a = "sm_account_id ?r" and ?v = "sm_buy_venue ?r" and ?w = "sm_sell_venue ?r"
  let ?x = "dc_quote_asset (dn_config e)" and ?y = "dc_base_asset (dn_config e)"
  from assms(1) obtain s1 y1 where
    1: "on_paper (set_paper_balance ?a ?v ?x ?q ?q (su_now u)) s = (Inr y1, s1)" and
    2: "on_paper (set_paper_balance ?a ?w ?y ?b ?b (su_now u)) s1 = (Inr x, s')"
    by (auto simp: fund_run_def Let_def bind_db_Inr)
  from 1 obtain p1 where p1: "set_paper_balance ?a ?v ?x ?q ?q (su_now u) (sd_paper s) = (Inr y1, p1)"
    "s1 = s\<lparr>sd_paper := p1\<rparr>" by (auto simp: on_paper_def split: prod.splits)
  from 2 p1(2) obtain p2 where p2: "set_paper_balance ?a ?w ?y ?b ?b (su_now u) p1 = (Inr x, p2)"
    "s' = s\<lparr>sd_paper := p2\<rparr>" by (auto simp: on_paper_def split: prod.splits)
  note r1 = set_paper_balance_result[OF p1(1)] and r2 = set_paper_balance_result[OF p2(1)]
  have "lookup_row balance_key (?a, ?v, ?x) (pd_balances p2) = lookup_row balance_key (?a, ?v, ?x) (pd_balances p1)"
    using assms(2) by (intro r2(2)) simp
  then show "available_balance ?a ?v ?x s' = (Inr ?q, s')"
    using r1(1) by (auto simp: available_balance_def p2(2))
  show "available_balance ?a ?w ?y s' = (Inr ?b, s')"
    using r2(1) by (auto simp: available_balance_def p2(2))
  show "s' = s\<lparr>sd_paper := (sd_paper s)\<lparr>pd_balances := pd_balances (sd_paper s')\<rparr>\<rparr>"
    using r1(3) r2(3) by (cases "sd_paper s"; cases p1; cases p2) (simp add: p2(2))
qed

lemma prepare_run_result:
  assumes "prepare_run w e o1 config skipped source = Inr u"
  shows "sm_buy_venue (su_report u) = op_buy_venue o1" "sm_sell_venue (su_report u) = op_sell_venue o1"
    "sm_scenario (su_report u) = Normal" "sm_seed (su_report u) = (if sc_seed config = 0 then sw_clock w 0 else sc_seed config)"
    "sm_idempotent_replay (su_report u) = False"
  using assms by (auto simp: prepare_run_def initial_report_def Let_def split: option.splits prod.splits)

lemma persist_run_Inr: "persist_run w u e config r s = (Inr r', s') \<Longrightarrow> r' = r"
  by (auto simp: persist_run_def bind_db_Inr)

lemma execute_run_result:
  assumes "execute_run w u e o1 config s = (Inr r, s')"
  obtains legs out s1 where "r = final_report (su_report u) legs out"
    "persist_run w u e config r s1 = (Inr r, s')"
  using assms by (auto simp: execute_run_def bind_db_Inr dest: persist_run_Inr)

lemma run_scenario_not_rejected [simp]: "run_scenario a b \<noteq> RunRejected"
  by (simp add: run_scenario_def)

text \<open>C20. A run is rejected exactly when the configured funds do not cover the conservative cost of its
  legs, and then nothing is planned, reserved, submitted or evaluated: only balances, the
  projection and its snapshots are written, and no domain stays locked.\<close>

theorem simulation_rejection:
  assumes "run_simulation_run w e o1 config skipped source s = (Inr r, s')" "op_buy_venue o1 \<noteq> op_sell_venue o1"
  shows "\<exists>u. prepare_run w e o1 config skipped source = Inr u
    \<and> (sm_scenario r = RunRejected \<longleftrightarrow>
        sc_initial_quote_balance config < su_quote_cost u \<or> sc_initial_base_balance config < dc_quantity (dn_config e))
    \<and> (sm_scenario r = RunRejected \<longrightarrow>
        sd_paper s' = (sd_paper s)\<lparr>pd_balances := pd_balances (sd_paper s')\<rparr>
        \<and> sd_execution s' = sd_execution s \<and> sd_orders s' = sd_orders s \<and> sd_locks s' = sd_locks s)"
proof -
  obtain u s0 where u: "prepare_run w e o1 config skipped source = Inr u"
    and funded: "fund_run u e config s = (Inr (), s0)"
    and rest: "bind_db (available_balance (sm_account_id (su_report u)) (sm_buy_venue (su_report u)) (dc_quote_asset (dn_config e))) (\<lambda>quote_available.
     bind_db (available_balance (sm_account_id (su_report u)) (sm_sell_venue (su_report u)) (dc_base_asset (dn_config e))) (\<lambda>base_available.
     if quote_available < su_quote_cost u \<or> base_available < dc_quantity (dn_config e)
     then persist_run w u e config (rejected_report w u e quote_available base_available)
     else bind_db (reserve_run w u e config) (\<lambda>out.
       if ro_idempotent_replay out then persist_run w u e config (replayed_report (su_report u))
       else execute_run w u e o1 config))) s0 = (Inr r, s')"
    using assms(1) by (auto simp: run_simulation_run_def Let_def bind_db_Inr)
  have "sm_buy_venue (su_report u) \<noteq> sm_sell_venue (su_report u)"
    using prepare_run_result[OF u] assms(2) by simp
  note f = fund_run_result[OF funded this]
  let ?short = "sc_initial_quote_balance config < su_quote_cost u \<or> sc_initial_base_balance config < dc_quantity (dn_config e)"
  from rest have r: "(if ?short
     then persist_run w u e config (rejected_report w u e (sc_initial_quote_balance config) (sc_initial_base_balance config))
     else bind_db (reserve_run w u e config) (\<lambda>out.
       if ro_idempotent_replay out then persist_run w u e config (replayed_report (su_report u))
       else execute_run w u e o1 config)) s0 = (Inr r, s')"
    by (simp add: bind_db_def f(1,2))
  show ?thesis
  proof (cases ?short)
    case True
    let ?r = "rejected_report w u e (sc_initial_quote_balance config) (sc_initial_base_balance config)"
    have p: "persist_run w u e config ?r s0 = (Inr r, s')" using r True by simp
    have "sm_scenario r = RunRejected" by (simp add: persist_run_Inr[OF p] rejected_report_def)
    moreover have "sd_paper s' = sd_paper s0" "sd_execution s' = sd_execution s0" "sd_orders s' = sd_orders s0"
      "sd_locks s' = sd_locks s0" using persist_frame[of w u e config ?r s0] by (simp_all add: p)
    ultimately show ?thesis using u True f(3) by (metis (no_types, lifting) sim_db.ext_inject sim_db.surjective
        sim_db.update_convs(1) paper_db.ext_inject paper_db.surjective paper_db.update_convs(1))
  next
    case False
    then have "bind_db (reserve_run w u e config) (\<lambda>out.
       if ro_idempotent_replay out then persist_run w u e config (replayed_report (su_report u))
       else execute_run w u e o1 config) s0 = (Inr r, s')" using r by simp
    then obtain out :: reserve_outcome and s1 where "(if ro_idempotent_replay out then persist_run w u e config (replayed_report (su_report u))
       else execute_run w u e o1 config) s1 = (Inr r, s')" unfolding bind_db_Inr by blast
    then have "sm_scenario r \<noteq> RunRejected"
      using prepare_run_result[OF u]
      by (auto simp: replayed_report_def final_report_def dest!: persist_run_Inr elim!: execute_run_result split: if_splits)
    then show ?thesis using u False by blast
  qed
qed

section \<open>Runs of one event\<close>

text \<open>Whatever a run meets, and also when it stops half way with an error, the tables of the cores stay
  such as their own operations produce: every order, execution and plan keeps its invariants.\<close>

lemma simulation_keeps_cores:
  assumes "\<forall>n. cores_ok (ws n) s \<and> sw_plan_digest (ws n) = dp \<and> sw_trade_digest (ws n) = dt"
  shows "paper_reachable dp (sd_paper (snd (run_all_directions ws e config skipped s)))
    \<and> execution_reachable (execution_view (snd (run_all_directions ws e config skipped s)))
    \<and> order_reachable dt (order_view (snd (run_all_directions ws e config skipped s)))"
proof -
  have worlds: "sw_plan_digest (ws n) = sw_plan_digest (ws 0)" "sw_trade_digest (ws n) = sw_trade_digest (ws 0)" for n
    using assms by simp_all
  have same: "cores_ok (ws n) t = cores_ok (ws 0) t" for n t by (simp add: cores_ok_def worlds[of n])
  have "cores_ok (ws 0) (snd (run_directions ws e os config skipped k t))" if "cores_ok (ws 0) t" for os k t
    using that
  proof (induction os arbitrary: k t)
    case (Cons o1 os)
    have "cores_ok (ws 0) (snd (run_simulation_run (ws k) e o1 config skipped Live t))" if "cores_ok (ws 0) t" for t
      using run_simulation_run_ok[of "ws k" t] that same[of k] by simp
    with Cons show ?case by (simp only: run_directions.simps) (rule bind_ok)
  qed simp
  then show ?thesis using assms unfolding run_all_directions_def cores_ok_def by metis
qed

lemma ended_with: "(case x of Inl e \<Rightarrow> (Inl e, s) | Inr y \<Rightarrow> (Inr (), t)) = (Inr (), s') \<Longrightarrow> s' = t"
  by (cases x) simp_all

lemma persist_run_stored:
  assumes "persist_run w u e config r s = (Inr r', s')"
  shows "list_ex (\<lambda>p. run_key p = sm_run_id r) (sd_runs s')"
proof -
  obtain s1 where p: "insert_projection r (su_direction u) (su_now u) s = (Inr (), s1)" "sd_runs s' = sd_runs s1"
    using assms by (auto simp: persist_run_def persist_simulation_run_def bind_db_Inr Let_def dest!: ended_with)
  have "list_ex (\<lambda>p. run_key p = sm_run_id r) (sd_runs s1)"
    using p(1) by (auto simp: insert_projection_def list_ex_iff run_key_def lookup_row_None_iff split: sum.splits if_splits)
  with p(2) show ?thesis by simp
qed

text \<open>What a run that returns reports and stores, whatever its scenario.\<close>

lemma run_reports_direction:
  assumes "run_simulation_run w e o1 config skipped source s = (Inr r, s')"
  shows "sm_buy_venue r = op_buy_venue o1" "sm_sell_venue r = op_sell_venue o1"
    "list_ex (\<lambda>p. run_key p = sm_run_id r) (sd_runs s')"
proof -
  have "sm_buy_venue r = op_buy_venue o1 \<and> sm_sell_venue r = op_sell_venue o1
      \<and> list_ex (\<lambda>p. run_key p = sm_run_id r) (sd_runs s')"
  proof -
    obtain u r' t where u: "prepare_run w e o1 config skipped source = Inr u"
      and r': "sm_buy_venue r' = sm_buy_venue (su_report u)" "sm_sell_venue r' = sm_sell_venue (su_report u)"
        "persist_run w u e config r' t = (Inr r, s')"
    proof -
      from assms obtain u t where u: "prepare_run w e o1 config skipped source = Inr u"
        and "(\<exists>q b. persist_run w u e config (rejected_report w u e q b) t = (Inr r, s'))
          \<or> persist_run w u e config (replayed_report (su_report u)) t = (Inr r, s')
          \<or> execute_run w u e o1 config t = (Inr r, s')"
        by (auto simp: run_simulation_run_def Let_def bind_db_Inr split: if_splits)
      then show thesis
        by (elim disjE exE execute_run_result) (rule that[OF u]; force simp: rejected_report_def replayed_report_def final_report_def)+
    qed
    then show ?thesis using prepare_run_result[OF u] persist_run_Inr[OF r'(3)] persist_run_stored[OF r'(3)] by simp
  qed
  then show "sm_buy_venue r = op_buy_venue o1" "sm_sell_venue r = op_sell_venue o1"
    "list_ex (\<lambda>p. run_key p = sm_run_id r) (sd_runs s')" by blast+
qed

text \<open>The states between the runs of an event, and what each run reported.\<close>

lemma run_directions_trace:
  assumes "run_directions ws e os config skipped k s = (Inr n, s')"
  shows "n = k + length os \<and> (\<exists>ss rs. length ss = Suc (length os) \<and> length rs = length os \<and> ss ! 0 = s \<and> ss ! length os = s'
    \<and> (\<forall>i < length os. run_simulation_run (ws (k + i)) e (os ! i) config skipped Live (ss ! i) = (Inr (rs ! i), ss ! Suc i)))"
  using assms
proof (induction os arbitrary: k s)
  case Nil
  then show ?case by (intro conjI exI[of _ "[s]"] exI[of _ "[]"]) simp_all
next
  case (Cons o1 os)
  then obtain r s1 where one: "run_simulation_run (ws k) e o1 config skipped Live s = (Inr r, s1)"
    and rest: "run_directions ws e os config skipped (k + 1) s1 = (Inr n, s')" by (auto simp: bind_db_Inr)
  obtain ss rs where *: "n = k + 1 + length os" "length ss = Suc (length os)" "length rs = length os" "ss ! 0 = s1" "ss ! length os = s'"
    "\<forall>i < length os. run_simulation_run (ws (k + 1 + i)) e (os ! i) config skipped Live (ss ! i) = (Inr (rs ! i), ss ! Suc i)"
    using Cons.IH[OF rest] by blast
  have "\<forall>i < Suc (length os). run_simulation_run (ws (k + i)) e ((o1 # os) ! i) config skipped Live ((s # ss) ! i)
      = (Inr ((r # rs) ! i), (s # ss) ! Suc i)"
  proof (intro allI impI)
    fix i assume "i < Suc (length os)"
    then show "run_simulation_run (ws (k + i)) e ((o1 # os) ! i) config skipped Live ((s # ss) ! i)
        = (Inr ((r # rs) ! i), (s # ss) ! Suc i)"
      using one *(4,6) by (cases i) simp_all
  qed
  with *(1-3,5) show ?case by (intro conjI exI[of _ "s # ss"] exI[of _ "r # rs"]) simp_all
qed

lemma scan_pair_directions:
  "scan_pair dv i = Inr report \<Longrightarrow> \<exists>a b. evaluate_direction dv (first_to_second i) (si_quantity i) (si_strategy i) (shared_rejections i) = Inr a
    \<and> evaluate_direction dv (second_to_first i) (si_quantity i) (si_strategy i) (shared_rejections i) = Inr b
    \<and> sr_directions report = [a, b]"
  by (auto simp: scan_pair_def split: if_splits)

text \<open>C21. The engine runs each accepted direction of an event once, in their order, and no other. The event's scan
  evaluated two directions, from the first venue to the second and back; the engine reports as many runs as it
  accepted, there is a chain of states from the start to the end with one run of each accepted direction as its
  links, each run reports the venues of its own direction, and is in the list of stored runs when it ends.\<close>

theorem event_runs_once:
  assumes "scan_pair dv i = Inr (dn_report e)" "run_all_directions ws e config skipped s = (Inr n, s')"
  shows "\<exists>a b ss rs. evaluate_direction dv (first_to_second i) (si_quantity i) (si_strategy i) (shared_rejections i) = Inr a
    \<and> evaluate_direction dv (second_to_first i) (si_quantity i) (si_strategy i) (shared_rejections i) = Inr b
    \<and> (let os = filter op_accepted [a, b] in
        n = length os \<and> length ss = Suc n \<and> length rs = n \<and> ss ! 0 = s \<and> ss ! n = s'
        \<and> list_all (\<lambda>k. run_simulation_run (ws k) e (os ! k) config skipped Live (ss ! k) = (Inr (rs ! k), ss ! Suc k)
            \<and> sm_buy_venue (rs ! k) = op_buy_venue (os ! k) \<and> sm_sell_venue (rs ! k) = op_sell_venue (os ! k)
            \<and> list_ex (\<lambda>p. run_key p = sm_run_id (rs ! k)) (sd_runs (ss ! Suc k))) [0..<n])"
proof -
  obtain a b where ab: "evaluate_direction dv (first_to_second i) (si_quantity i) (si_strategy i) (shared_rejections i) = Inr a"
    "evaluate_direction dv (second_to_first i) (si_quantity i) (si_strategy i) (shared_rejections i) = Inr b"
    "sr_directions (dn_report e) = [a, b]"
    using scan_pair_directions[OF assms(1)] by blast
  define os where "os = filter op_accepted [a, b]"
  have "run_directions ws e os config skipped 0 s = (Inr n, s')"
    using assms(2) by (simp add: run_all_directions_def ab(3) os_def)
  from run_directions_trace[OF this] obtain ss rs where *: "n = length os" "length ss = Suc n" "length rs = n"
    "ss ! 0 = s" "ss ! n = s'"
    "\<forall>k < n. run_simulation_run (ws k) e (os ! k) config skipped Live (ss ! k) = (Inr (rs ! k), ss ! Suc k)" by auto
  have "list_all (\<lambda>k. run_simulation_run (ws k) e (os ! k) config skipped Live (ss ! k) = (Inr (rs ! k), ss ! Suc k)
      \<and> sm_buy_venue (rs ! k) = op_buy_venue (os ! k) \<and> sm_sell_venue (rs ! k) = op_sell_venue (os ! k)
      \<and> list_ex (\<lambda>p. run_key p = sm_run_id (rs ! k)) (sd_runs (ss ! Suc k))) [0..<n]"
    using *(6) run_reports_direction unfolding list_all_iff by (metis atLeastLessThan_iff set_upt)
  with *(1-5) ab(1,2) show ?thesis unfolding os_def Let_def by blast
qed

text \<open>The projection stores the seed as a signed 64-bit integer, so a run whose seed needs the
  top bit never reports: it ends in an error whatever it has committed before.\<close>

theorem wide_seed_never_reports:
  assumes "2 ^ 63 \<le> uint (sc_seed config)"
  shows "\<exists>err. fst (run_simulation_run w e o1 config skipped source s) = Inl err"
proof (rule ccontr)
  assume "\<nexists>err. fst (run_simulation_run w e o1 config skipped source s) = Inl err"
  then obtain r s' where run: "run_simulation_run w e o1 config skipped source s = (Inr r, s')"
    by (metis prod.collapse sum.exhaust)
  then obtain u where u: "prepare_run w e o1 config skipped source = Inr u"
    by (auto simp: run_simulation_run_def bind_db_Inr)
  have "sc_seed config \<noteq> 0" using assms by auto
  then have seed: "sm_seed (su_report u) = sc_seed config" using prepare_run_result[OF u] by simp
  have no: "persist_run w u e config r' t \<noteq> (Inr x, t')" if "sm_seed r' = sc_seed config" for r' t x t'
    using that assms
    by (auto simp: persist_run_def persist_simulation_run_def insert_projection_def bind_db_Inr to_i64_def
        split: sum.splits if_splits)
  show False using run u
    by (auto simp: run_simulation_run_def bind_db_Inr Let_def rejected_report_def replayed_report_def
        final_report_def seed no execute_run_def split: if_splits)
qed

section \<open>Witnesses\<close>

definition sim_event :: "scan_report \<Rightarrow> decision_event" where
  "sim_event report = \<lparr>dn_evaluated_at_ms = 1200,
     dn_feeds = (\<lparr>fv_venue = ''binance'', fv_symbol = ''BTCUSDT'', fv_state = Valid, fv_generation = 1,
        fv_reconnects = 0, fv_applied_updates = 0, fv_reason = None\<rparr>,
       \<lparr>fv_venue = ''bybit'', fv_symbol = ''BTCUSDT'', fv_state = Valid, fv_generation = 1,
        fv_reconnects = 0, fv_applied_updates = 0, fv_reason = None\<rparr>),
     dn_books = (sample_book, sample_second_book), dn_instruments = (sample_spec ''binance'', sample_spec ''bybit''),
     dn_fees = (\<lparr>xf_venue = ''binance'', xf_symbol = ''BTCUSDT'', xf_buy_taker_rate = 1/1000,
        xf_sell_taker_rate = 1/1000, xf_source = ''s'', xf_loaded_at_ms = None, xf_expires_at_ms = None,
        xf_actual_account_rate = False\<rparr>, \<lparr>xf_venue = ''bybit'', xf_symbol = ''BTCUSDT'', xf_buy_taker_rate = 1/1000,
        xf_sell_taker_rate = 1/1000, xf_source = ''s'', xf_loaded_at_ms = None, xf_expires_at_ms = None,
        xf_actual_account_rate = False\<rparr>),
     dn_config_version = ''v'',
     dn_config = \<lparr>dc_symbol = ''BTC/USDT'', dc_base_asset = ''BTC'', dc_quote_asset = ''USDT'', dc_quantity = 1,
       dc_strategy = sample_strategy, dc_freshness = \<lparr>fl_max_snapshot_age_ms = 1000, fl_max_pair_skew_ms = 500\<rparr>\<rparr>,
     dn_admission_rejections = [],
     dn_report = report\<rparr>"

definition sim_world_0 :: sim_world where
  "sim_world_0 = \<lparr>sw_clock = (\<lambda>_. 5), sw_pid = 7, sw_session = 1, sw_sha256 = (\<lambda>_. replicate 32 0),
     sw_plan_digest = (\<lambda>_. replicate 64 (CHR ''a'')), sw_trade_digest = (\<lambda>_. replicate 64 (CHR ''b'')),
     sw_collation = id, sw_div = exact_div, sw_show_decimal = (\<lambda>_. ''?'')\<rparr>"

definition sim_db_0 :: sim_db where
  "sim_db_0 = \<lparr>sd_paper = \<lparr>pd_balances = [], pd_plans = [], pd_risk = [], pd_intents = [], pd_reservations = [],
       pd_audit = []\<rparr>, sd_execution = \<lparr>xd_plans = [], xd_facts = [], xd_events = [], xd_decisions = []\<rparr>,
     sd_orders = \<lparr>od_intents = [], od_facts = [], od_actions = [], od_investigations = [], od_trades = []\<rparr>,
     sd_snapshots = \<lparr>rc_snapshots = [], rc_runs = [], rc_differences = []\<rparr>, sd_locks = [], sd_runs = []\<rparr>"

text \<open>No base asset to sell: the accepted direction of the sample scan is run and rejected.\<close>

definition "poor_sim = sample_sim\<lparr>sc_initial_base_balance := 0\<rparr>"

lemma sample_rejected:
  "case scan_pair exact_div sample_input of
     Inr report \<Rightarrow> (case sr_directions report of
       [a, b] \<Rightarrow> op_buy_venue a \<noteq> op_sell_venue a
         \<and> (case run_simulation_run sim_world_0 (sim_event report) a poor_sim 0 Live sim_db_0 of
              (Inr r, s') \<Rightarrow> sm_scenario r = RunRejected | _ \<Rightarrow> False) | _ \<Rightarrow> False)
   | _ \<Rightarrow> False"
  by code_simp

lemma sample_ran_once:
  "case scan_pair exact_div sample_input of
     Inr report \<Rightarrow> (case run_all_directions (\<lambda>_. sim_world_0) (sim_event report) poor_sim 0 sim_db_0 of
       (Inr n, s') \<Rightarrow> n = 1 | _ \<Rightarrow> False)
   | _ \<Rightarrow> False"
  by code_simp

lemma sim_db_0_ok: "cores_ok sim_world_0 sim_db_0"
  unfolding cores_ok_def sim_db_0_def
  by (simp add: paper_reachable.start execution_view_def plan_refs_def execution_reachable.start order_view_def
      intent_refs_def order_reachable.start)

lemma simulation_rejection_witness:
  "\<exists>report a r s'. run_simulation_run sim_world_0 (sim_event report) a poor_sim 0 Live sim_db_0 = (Inr r, s')
     \<and> sm_scenario r = RunRejected \<and> sd_orders s' = sd_orders sim_db_0"
proof -
  obtain report a r s' where run: "run_simulation_run sim_world_0 (sim_event report) a poor_sim 0 Live sim_db_0 = (Inr r, s')"
    and "op_buy_venue a \<noteq> op_sell_venue a" "sm_scenario r = RunRejected"
    using sample_rejected by (fastforce split: sum.splits list.splits prod.splits)
  with simulation_rejection[OF run] show ?thesis by blast
qed

lemma event_runs_once_witness:
  "\<exists>report s' a b r. scan_pair exact_div sample_input = Inr report
     \<and> run_all_directions (\<lambda>_. sim_world_0) (sim_event report) poor_sim 0 sim_db_0 = (Inr 1, s')
     \<and> evaluate_direction exact_div (first_to_second sample_input) 1 sample_strategy (shared_rejections sample_input) = Inr a
     \<and> evaluate_direction exact_div (second_to_first sample_input) 1 sample_strategy (shared_rejections sample_input) = Inr b
     \<and> run_simulation_run sim_world_0 (sim_event report) (hd (filter op_accepted [a, b])) poor_sim 0 Live sim_db_0 = (Inr r, s')"
proof -
  obtain report s' where scan: "scan_pair exact_div sample_input = Inr report"
    and run: "run_all_directions (\<lambda>_. sim_world_0) (sim_event report) poor_sim 0 sim_db_0 = (Inr 1, s')"
    using sample_ran_once by (auto split: sum.splits prod.splits)
  have e: "dn_report (sim_event report) = report" by (simp add: sim_event_def)
  have i: "si_quantity sample_input = 1" "si_strategy sample_input = sample_strategy" by (simp_all add: sample_input_def)
  from event_runs_once[of exact_div sample_input "sim_event report", unfolded e i, OF scan run] obtain a b ss rs where
    ab: "evaluate_direction exact_div (first_to_second sample_input) 1 sample_strategy (shared_rejections sample_input) = Inr a"
      "evaluate_direction exact_div (second_to_first sample_input) 1 sample_strategy (shared_rejections sample_input) = Inr b"
    and os: "1 = length (filter op_accepted [a, b])" "ss ! 0 = sim_db_0" "ss ! 1 = s'"
      "list_all (\<lambda>k. run_simulation_run sim_world_0 (sim_event report) (filter op_accepted [a, b] ! k) poor_sim 0 Live (ss ! k)
         = (Inr (rs ! k), ss ! Suc k)) [0..<1]"
    unfolding Let_def list_all_iff by blast
  have "filter op_accepted [a, b] \<noteq> []" using os(1) by (metis list.size(3) zero_neq_one)
  then have "filter op_accepted [a, b] ! 0 = hd (filter op_accepted [a, b])" by (rule hd_conv_nth[symmetric])
  then have "run_simulation_run sim_world_0 (sim_event report) (hd (filter op_accepted [a, b])) poor_sim 0 Live sim_db_0 = (Inr (rs ! 0), s')"
    using os(2-4) by (simp del: filter.simps)
  then show ?thesis using scan run ab by blast
qed

lemma wide_seed_never_reports_witness:
  "\<exists>report a err. fst (run_simulation_run sim_world_0 (sim_event report) a (sample_sim\<lparr>sc_seed := 2 ^ 63\<rparr>) 0 Live sim_db_0)
     = Inl err"
  using wide_seed_never_reports[of "sample_sim\<lparr>sc_seed := 2 ^ 63\<rparr>"] by simp

text \<open>The simulated fills are not bounded by the limit price of the intent they belong to.\<close>

lemma fills_beyond_limit:
  "offset_level_price exact_div 100 Asks (sc_adverse_move_bps sample_sim) (is_price_tick (sample_spec ''binance'')) = Inr 100"
  "map_sum id sl_last_fill_price (simulate_leg exact_div Asks sample_book (sample_spec ''binance'') 1 sample_sim) = Inr 102"
  by code_simp+

end
