(* ===== verification/Sim_Engine.thy ===== *)
theory Sim_Engine
  imports Sim_Run "HOL-Library.Sublist"
begin

text \<open>
  The engine that feeds decision events to the simulation, \<open>SimulationEngine\<close> of
  \<open>crates/core/src/simulation.rs\<close>: a slot for one event that every offer overwrites, a counter of
  the events overwritten, and one worker task. The atomic steps of the observer and of the worker
  interleave freely. A permit of the notification is kept until the worker waits for it, as
  \<open>tokio::sync::Notify\<close> documents for \<open>notify_one\<close>; an aborted task ends at some later step.
\<close>

section \<open>State\<close>

text \<open>Where the worker stands in its loop; an event it took travels with it.\<close>

datatype engine_phase = LoopHead | Taking | FoundNone | Waiting | Took decision_event
  | Executing_Run decision_event u64 | EngineEnded

record sim_engine =
  en_slot :: "decision_event option"
  en_permit :: bool
  en_stopped :: bool
  en_skipped :: u64
  en_phase :: engine_phase

definition engine_spawn :: sim_engine where
  "engine_spawn = \<lparr>en_slot = None, en_permit = False, en_stopped = False, en_skipped = 0, en_phase = LoopHead\<rparr>"

section \<open>Operations\<close>

definition offer :: "decision_event \<Rightarrow> sim_engine \<Rightarrow> sim_engine" where
  "offer e s = s\<lparr>en_skipped := (if en_slot s \<noteq> None then en_skipped s + 1 else en_skipped s),
     en_slot := Some e, en_permit := True\<rparr>"

text \<open>Dropping the engine only sets the flag and aborts the worker; a shutdown also wakes it.\<close>

definition drop_engine :: "sim_engine \<Rightarrow> sim_engine" where
  "drop_engine s = s\<lparr>en_stopped := True\<rparr>"

definition shutdown :: "sim_engine \<Rightarrow> sim_engine" where
  "shutdown s = (drop_engine s)\<lparr>en_permit := True\<rparr>"

fun engine_worker_step :: "sim_engine \<Rightarrow> sim_engine" where
  "engine_worker_step s = (case en_phase s of
     LoopHead \<Rightarrow> s\<lparr>en_phase := (if en_stopped s then EngineEnded else Taking)\<rparr>
   | Taking \<Rightarrow> (case en_slot s of
        Some e \<Rightarrow> s\<lparr>en_slot := None, en_phase := Took e\<rparr>
      | None \<Rightarrow> s\<lparr>en_phase := FoundNone\<rparr>)
   | FoundNone \<Rightarrow> s\<lparr>en_phase := (if en_stopped s then EngineEnded else Waiting)\<rparr>
   | Waiting \<Rightarrow> (if en_permit s then s\<lparr>en_permit := False, en_phase := LoopHead\<rparr> else s)
   | Took e \<Rightarrow> s\<lparr>en_skipped := 0, en_phase := Executing_Run e (en_skipped s)\<rparr>
   | Executing_Run e k \<Rightarrow> s\<lparr>en_phase := LoopHead\<rparr>
   | EngineEnded \<Rightarrow> s)"

text \<open>The run a worker step starts: its event and the skipped frames it reports.\<close>

definition started_run :: "sim_engine \<Rightarrow> (decision_event \<times> u64) list" where
  "started_run s = (case en_phase s of Took e \<Rightarrow> [(e, en_skipped s)] | _ \<Rightarrow> [])"

text \<open>The states after some offers and runs, in any interleaving.\<close>

inductive engine_reachable :: "decision_event list \<Rightarrow> (decision_event \<times> u64) list \<Rightarrow> sim_engine \<Rightarrow> bool" where
  spawned: "engine_reachable [] [] engine_spawn"
| offered: "engine_reachable os rs s \<Longrightarrow> engine_reachable (os @ [e]) rs (offer e s)"
| dropped: "engine_reachable os rs s \<Longrightarrow> engine_reachable os rs (drop_engine s)"
| stopped: "engine_reachable os rs s \<Longrightarrow> engine_reachable os rs (shutdown s)"
| worked: "engine_reachable os rs s \<Longrightarrow> engine_reachable os (rs @ started_run s) (engine_worker_step s)"
| aborted: "engine_reachable os rs s \<Longrightarrow> en_stopped s \<Longrightarrow> engine_reachable os rs (s\<lparr>en_phase := EngineEnded\<rparr>)"

section \<open>Invariant\<close>

text \<open>The events still in the engine, oldest first.\<close>

definition held :: "sim_engine \<Rightarrow> decision_event list" where
  "held s = (case en_phase s of Took e \<Rightarrow> [e] | _ \<Rightarrow> []) @ (case en_slot s of Some e \<Rightarrow> [e] | None \<Rightarrow> [])"

definition reported_skips :: "(decision_event \<times> u64) list \<Rightarrow> nat" where
  "reported_skips rs = sum_list (map (\<lambda>(e, k). unat k) rs)"

definition engine_inv :: "decision_event list \<Rightarrow> (decision_event \<times> u64) list \<Rightarrow> sim_engine \<Rightarrow> bool" where
  "engine_inv os rs s \<longleftrightarrow>
     subseq (map fst rs @ held s) os
     \<and> (\<forall>e. en_slot s = Some e \<longrightarrow> os \<noteq> [] \<and> last os = e)
     \<and> (en_slot s \<noteq> None \<and> en_phase s \<in> {FoundNone, Waiting} \<longrightarrow> en_permit s)"

lemma subseq_replace_slot:
  assumes "subseq (xs @ ys) os" shows "subseq (xs @ [e]) (os @ [e])"
proof -
  have "subseq xs os" using assms subseq_order.trans[of xs "xs @ ys" os] by (simp add: subseq_rev_drop_many)
  then show ?thesis by simp
qed

lemma offer_inv:
  assumes "engine_inv os rs s" shows "engine_inv (os @ [e]) rs (offer e s)"
proof -
  define took where "took = (case en_phase s of Took e \<Rightarrow> [e] | _ \<Rightarrow> [])"
  define slot where "slot = (case en_slot s of Some e \<Rightarrow> [e] | None \<Rightarrow> [])"
  have "subseq ((map fst rs @ took) @ slot) os"
    using assms by (simp add: engine_inv_def held_def took_def slot_def)
  from subseq_replace_slot[OF this, of e] show ?thesis using assms
    by (auto simp: engine_inv_def held_def offer_def took_def)
qed

lemma engine_step_inv:
  assumes "engine_inv os rs s" shows "engine_inv os (rs @ started_run s) (engine_worker_step s)"
  using assms
  by (cases "en_phase s"; cases "en_slot s")
    (auto simp: engine_inv_def held_def started_run_def)

lemma engine_reachable_inv: "engine_reachable os rs s \<Longrightarrow> engine_inv os rs s"
proof (induction rule: engine_reachable.induct)
  case (aborted os rs s)
  have "subseq (map fst rs @ (case en_slot s of Some e \<Rightarrow> [e] | None \<Rightarrow> [])) (map fst rs @ held s)"
    by (auto simp: held_def subseq_append' split: engine_phase.split option.split)
  then have "subseq (map fst rs @ (case en_slot s of Some e \<Rightarrow> [e] | None \<Rightarrow> [])) os"
    using aborted.IH subseq_order.trans unfolding engine_inv_def by blast
  then show ?case using aborted.IH by (simp add: engine_inv_def held_def)
next
  case (offered os rs s e)
  then show ?case by (intro offer_inv)
next
  case (worked os rs s)
  then show ?case by (intro engine_step_inv)
qed (auto simp: engine_inv_def held_def engine_spawn_def drop_engine_def shutdown_def)

section \<open>Properties\<close>

text \<open>The engine runs offered events in the order of their offers, none more often than it was offered,
  and what waits in its slot is always the latest offer.\<close>

theorem engine_runs_in_order:
  assumes "engine_reachable os rs s"
  shows "subseq (map fst rs) os \<and> (\<forall>e. en_slot s = Some e \<longrightarrow> last os = e)"
proof -
  have "subseq (map fst rs) (map fst rs @ held s)" by (simp add: subseq_rev_drop_many)
  then show ?thesis using engine_reachable_inv[OF assms] subseq_order.trans unfolding engine_inv_def by blast
qed

lemma engine_counts:
  assumes "engine_reachable os rs s" "length os < 2 ^ 64"
  shows "length rs + reported_skips rs + unat (en_skipped s) + length (held s) \<le> length os
    \<and> (\<not> en_stopped s \<longrightarrow> length os = length rs + reported_skips rs + unat (en_skipped s) + length (held s))"
  using assms
proof (induction rule: engine_reachable.induct)
  case (offered os rs s e)
  then have IH: "length rs + reported_skips rs + unat (en_skipped s) + length (held s) \<le> length os"
    "\<not> en_stopped s \<longrightarrow> length os = length rs + reported_skips rs + unat (en_skipped s) + length (held s)"
    by auto
  have "unat (en_skipped s) + 1 < 2 ^ 64" using IH(1) offered.prems by simp
  then have "unat (en_skipped s + 1) = unat (en_skipped s) + 1" by (simp add: unat_word_ariths)
  then show ?case using IH
    by (cases "en_slot s"; cases "en_phase s") (auto simp: offer_def held_def)
next
  case (worked os rs s)
  then show ?case
    by (cases "en_phase s"; cases "en_slot s") (auto simp: held_def started_run_def reported_skips_def)
next
  case (aborted os rs s)
  then show ?case by (auto simp: held_def)
qed (auto simp: engine_spawn_def drop_engine_def shutdown_def held_def reported_skips_def)

text \<open>C28. While the engine is not stopped, every offered event is accounted for: it was run, it was
  overwritten and is or will be reported as a skipped frame, or it is still held.\<close>

theorem engine_accounts_for_offers:
  assumes "engine_reachable os rs s" "length os < 2 ^ 64" "\<not> en_stopped s"
  shows "length os = length rs + reported_skips rs + unat (en_skipped s) + length (held s)"
  using engine_counts[OF assms(1,2)] assms(3) by blast

text \<open>C29. An event in the slot is not forgotten: unless the engine is stopped or gets a newer event, the
  worker starts its run after at most four more steps, whatever it is doing now.\<close>

theorem engine_wakes_for_offer:
  assumes "engine_reachable os rs s" "en_slot s = Some e" "\<not> en_stopped s"
  shows "\<exists>n k. n \<le> 4 \<and> started_run ((engine_worker_step ^^ n) s) = [(e, k)]"
proof -
  have ended: "en_phase s \<noteq> EngineEnded" using assms(1,3)
    by (induction rule: engine_reachable.induct)
      (auto simp: engine_spawn_def offer_def drop_engine_def shutdown_def split: engine_phase.split option.split)
  have permit: "en_phase s \<in> {FoundNone, Waiting} \<Longrightarrow> en_permit s"
    using engine_reachable_inv[OF assms(1)] assms(2) by (simp add: engine_inv_def)
  have steps: "\<exists>k. started_run ((engine_worker_step ^^ n) s) = [(e, k)] \<Longrightarrow> n \<le> 4 \<Longrightarrow> ?thesis" for n by blast
  show ?thesis
  proof (cases "en_phase s")
    case LoopHead
    then show ?thesis using assms(2,3) by (intro steps[of 2]) (simp_all add: started_run_def numeral_2_eq_2)
  next
    case Taking
    then show ?thesis using assms(2,3) by (intro steps[of 1]) (simp_all add: started_run_def)
  next
    case FoundNone
    then show ?thesis using assms(2,3) permit by (intro steps[of 4]) (simp_all add: started_run_def eval_nat_numeral)
  next
    case Waiting
    then show ?thesis using assms(2,3) permit by (intro steps[of 3]) (simp_all add: started_run_def eval_nat_numeral)
  next
    case (Took e')
    then show ?thesis using assms(2,3) by (intro steps[of 4]) (simp_all add: started_run_def eval_nat_numeral)
  next
    case (Executing_Run e' k)
    then show ?thesis using assms(2,3) by (intro steps[of 3]) (simp_all add: started_run_def eval_nat_numeral)
  qed (use ended in simp)
qed

section \<open>Witnesses\<close>

text \<open>Three offers while the worker holds the first event: the second is overwritten.\<close>

definition "engine_3 a b c = offer c (offer b (engine_worker_step (engine_worker_step (offer a engine_spawn))))"

lemma engine_3_reachable: "engine_reachable [a, b, c] [] (engine_3 a b c)"
proof -
  have "engine_reachable [a] [] (offer a engine_spawn)"
    using offered[OF spawned, of a] by simp
  from worked[OF worked[OF this]] have "engine_reachable [a] [] (engine_worker_step (engine_worker_step (offer a engine_spawn)))"
    by (simp add: started_run_def offer_def engine_spawn_def)
  from offered[OF offered[OF this], of b c] show ?thesis by (simp add: engine_3_def)
qed

lemma engine_3_state: "en_slot (engine_3 a b c) = Some c" "\<not> en_stopped (engine_3 a b c)"
  by (simp_all add: engine_3_def offer_def engine_spawn_def)

lemma engine_runs_in_order_witness:
  "\<exists>a b c :: decision_event. en_slot (engine_3 a b c) = Some c \<and> last [a, b, c] = c"
  using engine_runs_in_order[OF engine_3_reachable] engine_3_state(1) by blast

lemma engine_accounts_for_offers_witness:
  "\<exists>a b c. length [a, b, c] = reported_skips [] + unat (en_skipped (engine_3 a b c)) + length (held (engine_3 a b c))"
  using engine_accounts_for_offers[OF engine_3_reachable _ engine_3_state(2)] by simp

lemma engine_wakes_for_offer_witness:
  "\<exists>a b c n k. n \<le> 4 \<and> started_run ((engine_worker_step ^^ n) (engine_3 a b c)) = [(c, k)]"
  using engine_wakes_for_offer[OF engine_3_reachable engine_3_state] by blast

end
