(* ===== verification/Sim_Booking.thy ===== *)
theory Sim_Booking
  imports Sim_Run
begin

text \<open>
  What a simulated run leaves in the tables of the cores, against what it reports: the plan and its two intents,
  the order and the trade of each leg, and the evaluated execution. The calls of \<open>crates/core/src/simulation.rs\<close> are
  followed one by one over the invariant of the order tables; the model itself is in \<open>Sim_Run\<close>.
\<close>

section \<open>One call of the order core\<close>

lemma commit_and_load_Inr:
  "commit_and_load core i db body = (Inr f, db') \<longleftrightarrow> body = Inr db' \<and> load_order core i db' = Inr f"
  by (auto simp: commit_and_load_def split: sum.splits)

lemma load_order_Inr: "load_order core i db = Inr f \<Longrightarrow> lookup_row of_intent_id i (od_facts db) = Some f"
  by (auto simp: load_order_def split: option.splits if_splits)

text \<open>An order without trades in the given submission status.\<close>

definition unbooked :: "submission_status \<Rightarrow> string \<Rightarrow> order_db \<Rightarrow> bool" where
  "unbooked st i db \<longleftrightarrow> trades_of i db = []
     \<and> is_some_and (lookup_row of_intent_id i (od_facts db)) (\<lambda>f. of_submission_status f = st \<and> of_filled_quantity f = 0)"

lemma lookup_fact_inv:
  assumes "order_inv db" "lookup_row of_intent_id i (od_facts db) = Some f"
  shows "status_inv f" "fill_inv f (trades_of i db)"
  using assms lookup_row_SomeD[OF assms(2)] by (auto simp: order_inv_def fact_inv_def)

lemma not_accepted_unbooked:
  assumes "order_inv db" "lookup_row of_intent_id i (od_facts db) = Some f" "of_submission_status f \<noteq> Accepted"
  shows "unbooked (of_submission_status f) i db"
proof -
  have "status_inv f" "fill_inv f (trades_of i db)" using lookup_fact_inv[OF assms(1,2)] by blast+
  then have "trades_of i db = []" "of_filled_quantity f = 0"
    using assms(3) by (cases "trades_of i db"; auto simp: status_inv_def fill_inv_def)+
  then show ?thesis using assms(2) by (simp add: unbooked_def)
qed

text \<open>The effects of the calls of a run that succeed.\<close>

lemma start_effect:
  assumes "order_inv db" "run_call d core i (SubmitStart dg) now db = (Inr f, db')"
  shows "unbooked InFlight i db'"
proof -
  have "order_inv db'" using db_step_inv[OF run_call_step assms(1)] assms(2) by (metis snd_conv)
  moreover have f: "lookup_row of_intent_id i (od_facts db') = Some f"
    using assms(2) by (auto simp: submit_started_def commit_and_load_Inr dest: load_order_Inr)
  moreover have "of_submission_status f = InFlight"
    using assms(2) f lookup_row_SomeD
    by (fastforce simp: submit_started_def commit_and_load_Inr update_fact_def append_action_def lock_fact_ok_iff lookup_put_row Let_def split: if_splits)
  ultimately show ?thesis using not_accepted_unbooked by force
qed

lemma report_effect:
  assumes "unbooked InFlight i db" "run_call d core i (SubmitReport o1) now db = (Inr f, db')"
  shows "unbooked (case o1 of SubmittedAccepted _ \<Rightarrow> Accepted | SubmittedRejected _ \<Rightarrow> DefinitelyRejected | SubmittedUnknown _ \<Rightarrow> Unknown) i db'"
  using assms lookup_row_SomeD
  by (cases o1) (fastforce simp: submit_result_def submit_outcome_def commit_and_load_Inr update_fact_def append_action_def
    lock_fact_ok_iff lookup_put_row Let_def unbooked_def trades_of_def split: if_splits)+

lemma query_effect:
  assumes "unbooked Unknown i db" "run_call d core i (QueryReport q) now db = (Inr f, db')"
  shows "unbooked (case q of Found _ _ \<Rightarrow> Accepted | NotFound _ _ \<Rightarrow> Unknown) i db'"
  using assms lookup_row_SomeD
  by (cases q) (fastforce simp: query_result_def commit_and_load_Inr update_fact_def append_action_def
    lock_fact_ok_iff lookup_put_row Let_def unbooked_def trades_of_def split: if_splits)+

text \<open>The trade of an order that has none is new: a stored trade of the same key would be its own.\<close>

lemma trade_effect:
  assumes "order_inv db" "unbooked Accepted i db" "run_call d core i (ReportTrade t) now db = (Inr f, db')"
  shows "\<exists>x. trades_of i db' = [x] \<and> tf_venue x = ti_venue t \<and> tf_quantity x = ti_quantity t \<and> tf_price x = ti_price t
      \<and> tf_fee_asset x = ti_fee_asset t \<and> tf_fee_amount x = ti_fee_amount t"
    "lookup_row of_intent_id i (od_facts db') = Some f" "of_submission_status f = Accepted" "of_filled_quantity f = ti_quantity t"
proof -
  obtain g where g: "lookup_row of_intent_id i (od_facts db) = Some g" "of_submission_status g = Accepted" "of_filled_quantity g = 0"
    and none: "trades_of i db = []"
    using assms(2) by (auto simp: unbooked_def is_some_and_def split: option.splits)
  have gm: "g \<in> set (od_facts db)" "of_intent_id g = i" using lookup_row_SomeD[OF g(1)] by auto
  obtain n where n: "of_exchange_order_id g = Some (ti_exchange_order_id t)" "of_venue g = ti_venue t" "to_i64 now = Inr n"
    using assms(3) g(1) by (auto simp: record_trade_def lock_fact_ok_iff split: sum.splits if_splits)
  have "find (same_trade t) (od_trades db) = None"
  proof (rule ccontr)
    assume "find (same_trade t) (od_trades db) \<noteq> None"
    then obtain x where "x \<in> set (od_trades db)" "same_trade t x" by (auto dest: find_SomeD)
    then have "x \<in> set (trades_of i db)" using known_trade_owner[OF assms(1) gm(1), of x] gm(2) n by (simp add: same_trade_def)
    with none show False by simp
  qed
  then have body: "record_new_trade i t (d t) g n db = Inr db'" "load_order core i db' = Inr f"
    using assms(3) n g(1) by (auto simp: record_trade_def lock_fact_def commit_and_load_Inr split: sum.splits if_splits)
  show f: "lookup_row of_intent_id i (od_facts db') = Some f" using body(2) by (rule load_order_Inr)
  show "\<exists>x. trades_of i db' = [x] \<and> tf_venue x = ti_venue t \<and> tf_quantity x = ti_quantity t \<and> tf_price x = ti_price t
      \<and> tf_fee_asset x = ti_fee_asset t \<and> tf_fee_amount x = ti_fee_amount t"
    using body(1) none by (auto simp: record_new_trade_def update_fact_def append_action_def trades_of_def Let_def split: if_splits)
  show "of_submission_status f = Accepted" "of_filled_quantity f = ti_quantity t"
    using body(1) f g gm(2) by (auto simp: record_new_trade_def update_fact_def append_action_def lookup_put_row Let_def split: if_splits)
qed

lemma lookup_row_snoc_other: "key r \<noteq> k \<Longrightarrow> lookup_row key k (rows @ [r]) = lookup_row key k rows"
  unfolding lookup_row_def by (induction rows) auto

text \<open>A call touches the order it names only.\<close>

lemma other_order_kept:
  assumes "j \<noteq> i"
  shows "lookup_row of_intent_id j (od_facts (snd (run_call d core i c now db))) = lookup_row of_intent_id j (od_facts db)
    \<and> trades_of j (snd (run_call d core i c now db)) = trades_of j db"
proof -
  have "db_step i db (snd (run_call d core i c now db))" by (rule run_call_step)
  then show ?thesis
  proof (induction rule: db_step.induct)
    case (changed db f k ts f' a db')
    have "of_intent_id f = i" using lookup_row_SomeD[OF changed(1)] by simp
    then have "of_intent_id f' = i" "\<forall>t \<in> set ts. tf_intent_id t = i"
      using order_step_frame(1)[OF changed(2)] order_step_trades[OF changed(2)] by auto
    then show ?case using changed assms by (auto simp: lookup_put_row trades_of_def filter_empty_conv)
  qed (use assms in \<open>auto simp: lookup_row_snoc_other trades_of_def\<close>)
qed

section \<open>One leg\<close>

text \<open>What is seen of an order, and what no call for another order changes.\<close>

definition order_seen :: "string \<Rightarrow> sim_db \<Rightarrow> order_fact option \<times> trade_fact list" where
  "order_seen i s = (lookup_row of_intent_id i (od_facts (sd_orders s)), trades_of i (sd_orders s))"

definition leg_frame :: "sim_world \<Rightarrow> string \<Rightarrow> sim_db \<Rightarrow> sim_db \<Rightarrow> bool" where
  "leg_frame w i s s' \<longleftrightarrow> cores_ok w s' \<and> sd_paper s' = sd_paper s \<and> sd_execution s' = sd_execution s
     \<and> (\<forall>j. j \<noteq> i \<longrightarrow> order_seen j s' = order_seen j s)"

lemma order_view_same [simp]: "od_facts (order_view s) = od_facts (sd_orders s)" "trades_of i (order_view s) = trades_of i (sd_orders s)"
  by (simp_all add: order_view_def trades_of_def)

lemma unbooked_view [simp]: "unbooked st i (order_view s) = unbooked st i (sd_orders s)"
  by (simp add: unbooked_def)

lemma cores_order_inv: "cores_ok w s \<Longrightarrow> order_inv (order_view s)"
  by (auto simp: cores_ok_def intro: order_reachable_inv)

lemma order_call_Inr:
  assumes "order_call w core i c n s = (Inr f, s')" "cores_ok w s"
  shows "run_call (sw_trade_digest w) core i c (sw_clock w n) (order_view s) = (Inr f, sd_orders s')" "leg_frame w i s s'"
proof -
  obtain db' where run: "run_call (sw_trade_digest w) core i c (sw_clock w n) (order_view s) = (Inr f, db')" "s' = s\<lparr>sd_orders := db'\<rparr>"
    using assms(1) by (auto simp: order_call_def on_orders_def split: prod.splits)
  then show "run_call (sw_trade_digest w) core i c (sw_clock w n) (order_view s) = (Inr f, sd_orders s')" by simp
  have "cores_ok w s'" using order_call_ok[OF assms(2), of core i c n] assms(1) by simp
  moreover have "order_seen j s' = order_seen j s" if "j \<noteq> i" for j
    using other_order_kept[OF that, of "sw_trade_digest w" core c "sw_clock w n" "order_view s"] run by (simp add: order_seen_def)
  ultimately show "leg_frame w i s s'" using run(2) by (simp add: leg_frame_def)
qed

lemma leg_frame_trans: "leg_frame w i a b \<Longrightarrow> leg_frame w i b c \<Longrightarrow> leg_frame w i a c"
  by (simp add: leg_frame_def)

lemma leg_frame_refl: "cores_ok w s \<Longrightarrow> leg_frame w i s s"
  by (simp add: leg_frame_def)

lemma leg_frame_ok: "leg_frame w i a b \<Longrightarrow> cores_ok w b"
  by (simp add: leg_frame_def)

fun conf_status :: "submit_confirmation \<Rightarrow> submission_status" where
  "conf_status (OrderAccepted _) = Accepted"
| "conf_status UnknownUnrecoverable = Unknown"

text \<open>Every submission that succeeds leaves its order accepted or unknown, without a trade.\<close>

lemma submission_effect:
  assumes "submit_and_confirm w core run_id i leg t config n rng s = (Inr (conf, tried, found, rng'), s')" "cores_ok w s"
  shows "unbooked (conf_status conf) i (sd_orders s')" "leg_frame w i s s'" "conf = UnknownUnrecoverable \<Longrightarrow> tried \<and> \<not> found"
proof -
  let ?exc = "run_id @ ''-'' @ leg @ ''-exc''" and ?q = "run_id @ ''-'' @ leg @ ''-query''"
  obtain draw rng1 where g1: "gen_range_u64 0 10000 rng = (draw, rng1)" by fastforce
  obtain draw2 rng2 where g2: "gen_range_u64 0 10000 rng1 = (draw2, rng2)" by fastforce
  obtain f0 f1 s0 s1 where c0: "order_call w core i EnsureIntent n s = (Inr f0, s0)"
    and c1: "order_call w core i (SubmitStart (submit_digest w run_id i)) (n + 1) s0 = (Inr f1, s1)"
    and rest: "(\<exists>f. order_call w core i (SubmitReport (SubmittedAccepted ?exc)) (n + 2) s1 = (Inr f, s') \<and> conf = OrderAccepted ?exc)
      \<or> (\<exists>f s2 g m. order_call w core i (SubmitReport (SubmittedUnknown m)) (n + 2) s1 = (Inr f, s2)
          \<and> ((order_call w core i (QueryReport (Found ?q ?exc)) (n + 3) s2 = (Inr g, s') \<and> conf = OrderAccepted ?exc)
            \<or> (order_call w core i (QueryReport (NotFound ?q (t + 60000))) (n + 3) s2 = (Inr g, s') \<and> conf = UnknownUnrecoverable
                \<and> tried \<and> \<not> found)))"
    using assms(1) unfolding submit_and_confirm_def Let_def
    by (auto simp: bind_db_Inr g1 g2 split: if_splits) blast+
  note f0 = order_call_Inr[OF c0 assms(2)]
  note k0 = leg_frame_ok[OF f0(2)]
  note f1 = order_call_Inr[OF c1 k0]
  note k1 = leg_frame_ok[OF f1(2)]
  have fr: "leg_frame w i s s1" using leg_frame_trans[OF f0(2) f1(2)] .
  have started: "unbooked InFlight i (order_view s1)"
    using start_effect[OF cores_order_inv[OF k0] f1(1)] by simp
  have "unbooked (conf_status conf) i (sd_orders s') \<and> leg_frame w i s s' \<and> (conf = UnknownUnrecoverable \<longrightarrow> tried \<and> \<not> found)"
    using rest
  proof (elim disjE exE conjE)
    fix f assume c: "order_call w core i (SubmitReport (SubmittedAccepted ?exc)) (n + 2) s1 = (Inr f, s')" "conf = OrderAccepted ?exc"
    note f2 = order_call_Inr[OF c(1) k1]
    show ?thesis using report_effect[OF started f2(1)] leg_frame_trans[OF fr f2(2)] c(2) by simp
  next
    fix f s2 g m assume c: "order_call w core i (SubmitReport (SubmittedUnknown m)) (n + 2) s1 = (Inr f, s2)"
      "order_call w core i (QueryReport (Found ?q ?exc)) (n + 3) s2 = (Inr g, s')" "conf = OrderAccepted ?exc"
    note f2 = order_call_Inr[OF c(1) k1]
    note f3 = order_call_Inr[OF c(2) leg_frame_ok[OF f2(2)]]
    have "unbooked Unknown i (order_view s2)" using report_effect[OF started f2(1)] by simp
    from query_effect[OF this f3(1)] show ?thesis
      using leg_frame_trans[OF leg_frame_trans[OF fr f2(2)] f3(2)] c(3) by simp
  next
    fix f s2 g m assume c: "order_call w core i (SubmitReport (SubmittedUnknown m)) (n + 2) s1 = (Inr f, s2)"
      "order_call w core i (QueryReport (NotFound ?q (t + 60000))) (n + 3) s2 = (Inr g, s')" "conf = UnknownUnrecoverable" "tried" "\<not> found"
    note f2 = order_call_Inr[OF c(1) k1]
    note f3 = order_call_Inr[OF c(2) leg_frame_ok[OF f2(2)]]
    have "unbooked Unknown i (order_view s2)" using report_effect[OF started f2(1)] by simp
    from query_effect[OF this f3(1)] show ?thesis
      using leg_frame_trans[OF leg_frame_trans[OF fr f2(2)] f3(2)] c(3-5) by simp
  qed
  then show "unbooked (conf_status conf) i (sd_orders s')" "leg_frame w i s s'" "conf = UnknownUnrecoverable \<Longrightarrow> tried \<and> \<not> found" by blast+
qed

text \<open>
  A leg as it is booked: an accepted order with fills has exactly one trade, with the fill and the fee of the
  report; without fills, or when its fate is unknown, it has none and no fee was charged.
\<close>

definition leg_booked :: "string \<Rightarrow> string \<Rightarrow> string \<Rightarrow> decimal \<Rightarrow> sim_leg_result \<Rightarrow> decimal \<Rightarrow> sim_db \<Rightarrow> bool" where
  "leg_booked i venue asset rate leg fee s \<longleftrightarrow> (case order_seen i s of
     (None, _) \<Rightarrow> False
   | (Some f, ts) \<Rightarrow>
       if of_submission_status f = Accepted \<and> 0 < sl_filled leg
       then fee = sl_quote_amount leg * rate \<and> of_filled_quantity f = sl_filled leg
         \<and> (\<exists>t. ts = [t] \<and> tf_venue t = venue \<and> tf_quantity t = sl_filled leg \<and> tf_price t = sl_avg_price leg
              \<and> tf_fee_asset t = asset \<and> tf_fee_amount t = fee)
       else of_submission_status f \<in> {Accepted, Unknown} \<and> fee = 0 \<and> of_filled_quantity f = 0 \<and> ts = [])"

lemma booking_effect:
  assumes "book_leg w core run_id leg i venue asset rate t n conf res s = (Inr (fee, warn), s')" "cores_ok w s"
    and "unbooked (conf_status conf) i (sd_orders s)"
  shows "leg_booked i venue asset rate res fee s'" "leg_frame w i s s'"
proof -
  have "leg_booked i venue asset rate res fee s' \<and> leg_frame w i s s'"
  proof (cases "\<exists>x. conf = OrderAccepted x \<and> 0 < sl_filled res")
    case True
    then obtain x f where x: "conf = OrderAccepted x" "0 < sl_filled res" "fee = sl_quote_amount res * rate"
      and c: "order_call w core i (ReportTrade \<lparr>ti_venue = venue, ti_exchange_order_id = x, ti_trade_id = run_id @ ''-'' @ leg @ ''-trade'',
         ti_quantity = sl_filled res, ti_price = sl_avg_price res, ti_fee_asset = asset, ti_fee_amount = fee,
         ti_source_sequence = 1, ti_occurred_at_ms = t\<rparr>) n s = (Inr f, s')"
      using assms(1) by (auto simp: book_leg_def bind_db_Inr Let_def)
    note f2 = order_call_Inr[OF c assms(2)]
    have "unbooked Accepted i (order_view s)" using assms(3) x(1) by simp
    from trade_effect[OF cores_order_inv[OF assms(2)] this f2(1)] show ?thesis
      using f2(2) x by (auto simp: leg_booked_def order_seen_def)
  next
    case False
    then have "s' = s" "fee = 0" using assms(1) by (cases conf; auto simp: book_leg_def split: if_splits)+
    then show ?thesis using assms(2,3) False
      by (cases conf) (auto simp: leg_booked_def order_seen_def unbooked_def is_some_and_def leg_frame_refl split: option.splits)
  qed
  then show "leg_booked i venue asset rate res fee s'" "leg_frame w i s s'" by blast+
qed

section \<open>The phases\<close>

lemma leg_booked_kept: "leg_booked i v a r leg fee s \<Longrightarrow> order_seen i s' = order_seen i s \<Longrightarrow> leg_booked i v a r leg fee s'"
  by (simp add: leg_booked_def)

lemma run_legs_booked:
  assumes "run_legs w u e config core s = (Inr legs, s')" "cores_ok w s"
    and "sm_buy_intent_id (su_report u) \<noteq> sm_sell_intent_id (su_report u)"
  shows "leg_booked (sm_buy_intent_id (su_report u)) (sm_buy_venue (su_report u)) (dc_quote_asset (dn_config e))
      (xf_buy_taker_rate (entry (su_buy_first u) (dn_fees e))) (lo_buy legs) (lo_buy_fee legs) s'"
    "leg_booked (sm_sell_intent_id (su_report u)) (sm_sell_venue (su_report u)) (dc_quote_asset (dn_config e))
      (xf_sell_taker_rate (entry (su_sell_first u) (dn_fees e))) (lo_sell legs) (lo_sell_fee legs) s'"
    "simulate_leg (sw_div w) Asks (entry (su_buy_first u) (dn_books e)) (entry (su_buy_first u) (dn_instruments e))
      (dc_quantity (dn_config e)) config = Inr (lo_buy legs)"
    "simulate_leg (sw_div w) Bids (entry (su_sell_first u) (dn_books e)) (entry (su_sell_first u) (dn_instruments e))
      (dc_quantity (dn_config e)) config = Inr (lo_sell legs)"
    "cores_ok w s'" "sd_paper s' = sd_paper s" "sd_execution s' = sd_execution s"
proof -
  let ?r = "su_report u" and ?q = "dc_quote_asset (dn_config e)"
  let ?b = "sm_buy_intent_id ?r" and ?s = "sm_sell_intent_id ?r"
  let ?at = "saturating_add (saturating_add (sm_evaluated_at_ms ?r) (sm_decision_to_submit_ms ?r)) (sm_fill_latency_ms ?r)"
  obtain bc bt bf rng1 s1 sc st sf rng2 s2 bw sw s3 where
    b: "submit_and_confirm w core (sm_run_id ?r) ?b ''buy'' (sm_evaluated_at_ms ?r) config 3 (su_rng u) s = (Inr (bc, bt, bf, rng1), s1)"
    and c: "submit_and_confirm w core (sm_run_id ?r) ?s ''sell'' (sm_evaluated_at_ms ?r) config 7 rng1 s1 = (Inr (sc, st, sf, rng2), s2)"
    and x: "book_leg w core (sm_run_id ?r) ''buy'' ?b (sm_buy_venue ?r) ?q (xf_buy_taker_rate (entry (su_buy_first u) (dn_fees e)))
        ?at 11 bc (lo_buy legs) s2 = (Inr (lo_buy_fee legs, bw), s3)"
    and y: "book_leg w core (sm_run_id ?r) ''sell'' ?s (sm_sell_venue ?r) ?q (xf_sell_taker_rate (entry (su_sell_first u) (dn_fees e)))
        ?at 12 sc (lo_sell legs) s3 = (Inr (lo_sell_fee legs, sw), s')"
    and legs: "simulate_leg (sw_div w) Asks (entry (su_buy_first u) (dn_books e)) (entry (su_buy_first u) (dn_instruments e))
        (dc_quantity (dn_config e)) config = Inr (lo_buy legs)"
      "simulate_leg (sw_div w) Bids (entry (su_sell_first u) (dn_books e)) (entry (su_sell_first u) (dn_instruments e))
        (dc_quantity (dn_config e)) config = Inr (lo_sell legs)"
    using assms(1) unfolding run_legs_def Let_def bind_db_Inr return_db_simps by (clarsimp simp: bind_db_Inr split: prod.splits)
  note e1 = submission_effect[OF b assms(2)]
  note k1 = leg_frame_ok[OF e1(2)]
  note e2 = submission_effect[OF c k1]
  note k2 = leg_frame_ok[OF e2(2)]
  have "order_seen ?b s2 = order_seen ?b s1" using e2(2) assms(3) by (simp add: leg_frame_def)
  then have "unbooked (conf_status bc) ?b (sd_orders s2)" using e1(1) by (simp add: unbooked_def order_seen_def)
  note e3 = booking_effect[OF x k2 this]
  note k3 = leg_frame_ok[OF e3(2)]
  have "order_seen ?s s3 = order_seen ?s s2" using e3(2) assms(3) by (simp add: leg_frame_def)
  then have "unbooked (conf_status sc) ?s (sd_orders s3)" using e2(1) by (simp add: unbooked_def order_seen_def)
  note e4 = booking_effect[OF y k3 this]
  have "order_seen ?b s' = order_seen ?b s3" using e4(2) assms(3) by (simp add: leg_frame_def)
  from leg_booked_kept[OF e3(1) this]
  show "leg_booked ?b (sm_buy_venue ?r) ?q (xf_buy_taker_rate (entry (su_buy_first u) (dn_fees e))) (lo_buy legs) (lo_buy_fee legs) s'" .
  show "leg_booked ?s (sm_sell_venue ?r) ?q (xf_sell_taker_rate (entry (su_sell_first u) (dn_fees e))) (lo_sell legs) (lo_sell_fee legs) s'"
    by (rule e4(1))
  show "simulate_leg (sw_div w) Asks (entry (su_buy_first u) (dn_books e)) (entry (su_buy_first u) (dn_instruments e))
      (dc_quantity (dn_config e)) config = Inr (lo_buy legs)"
    "simulate_leg (sw_div w) Bids (entry (su_sell_first u) (dn_books e)) (entry (su_sell_first u) (dn_instruments e))
      (dc_quantity (dn_config e)) config = Inr (lo_sell legs)" by (fact legs)+
  show "cores_ok w s'" "sd_paper s' = sd_paper s" "sd_execution s' = sd_execution s"
    using e1(2) e2(2) e3(2) e4(2) by (simp_all add: leg_frame_def)
qed

lemma with_domain_body:
  assumes "with_domain w a i body s = (Inr x, s')"
  obtains ls t ls' where "body (s\<lparr>sd_locks := ls\<rparr>) = (Inr x, t)" "s' = t\<lparr>sd_locks := ls'\<rparr>"
  using assms by (auto simp: with_domain_def Let_def split: prod.splits sum.splits)

lemma locks_unseen [simp]:
  "cores_ok w (s\<lparr>sd_locks := ls\<rparr>) = cores_ok w s" "order_seen i (s\<lparr>sd_locks := ls\<rparr>) = order_seen i s"
  by (simp_all add: cores_ok_def execution_view_def order_view_def order_seen_def)

lemma leg_booked_locks [simp]: "leg_booked i v a r leg fee (s\<lparr>sd_locks := ls\<rparr>) = leg_booked i v a r leg fee s"
  by (simp add: leg_booked_def)

text \<open>The plan a fresh reservation stores.\<close>

lemma reserve_run_plan:
  assumes "reserve_run w u e config s = (Inr out, s')" "\<not> ro_idempotent_replay out" "cores_ok w s"
  shows "plan_intents (sm_plan_id (su_report u)) (sd_paper s') = intent_list (plan_request u e config)"
proof -
  let ?r = "plan_request u e config"
  obtain p' where p': "reserve_plan (sw_collation w) (sw_plan_digest w) (sm_account_id (su_report u)) (sm_instrument_id (su_report u))
      ?r (sw_clock w 1) (sd_paper s) = (Inr out, p')" "sd_paper s' = p'"
    using assms(1) unfolding reserve_run_def Let_def
    by (elim with_domain_body) (auto simp: on_paper_def split: prod.splits)
  obtain t where i: "insert_plan ?r (request_digest (sw_plan_digest w) ?r) t (sd_paper s) = Inr p'"
    by (rule reserve_plan_fresh[OF p'(1) assms(2)])
  obtain p where ins: "plan_inserted ?r (request_digest (sw_plan_digest w) ?r) p (sd_paper s) p'" by (rule insert_plan_result[OF i])
  have "plans_inv (sd_paper s)" using assms(3) paper_reachable_inv by (auto simp: cores_ok_def paper_inv_def)
  moreover have "rp_plan_id ?r = sm_plan_id (su_report u)" by (simp add: plan_request_def Let_def)
  ultimately show ?thesis using plan_inserted_lookup(2)[OF ins] p'(2) by simp
qed

text \<open>The execution an evaluation stores.\<close>

lemma evaluate_stores:
  assumes "evaluate p a b x c now db = (Inr out, db')"
  shows "lookup_row ef_plan_id p (xd_facts db') = Some (out_snapshot out)"
    "ef_leg_a_filled (out_snapshot out) = a" "ef_leg_b_filled (out_snapshot out) = b"
proof -
  show look: "lookup_row ef_plan_id p (xd_facts db') = Some (out_snapshot out)"
    using assms by (auto simp: evaluate_def load_execution_def split: sum.splits prod.splits option.splits)
  have "xd_events db' \<noteq> xd_events db"
    using assms by (auto simp: evaluate_def Let_def append_event_def append_decision_def
      split: sum.splits prod.splits option.splits if_splits)
  then have "snd (evaluate p a b x c now db) \<noteq> db" using assms by auto
  then obtain f n e d where f: "lookup_row ef_plan_id p (xd_facts db) = Some f"
    "snd (evaluate p a b x c now db) = db\<lparr>xd_events := xd_events db @ [e], xd_decisions := xd_decisions db @ [d],
       xd_facts := put_row ef_plan_id (evaluated f a b x c n) (xd_facts db)\<rparr>" by (rule evaluate_cases)
  have "ef_plan_id f = p" using lookup_row_SomeD[OF f(1)] by simp
  then have "out_snapshot out = evaluated f a b x c n"
    using look f assms by (auto simp: lookup_put_row evaluated_def)
  then show "ef_leg_a_filled (out_snapshot out) = a" "ef_leg_b_filled (out_snapshot out) = b" by (simp_all add: evaluated_def)
qed

lemma on_execution_frame:
  assumes "with_domain w a i (on_execution f) s = (x, s')"
  shows "sd_paper s' = sd_paper s" "sd_orders s' = sd_orders s"
  using assms by (auto simp: with_domain_def on_execution_def Let_def split: prod.splits sum.splits)

lemma order_seen_cong: "sd_orders s' = sd_orders s \<Longrightarrow> order_seen i s' = order_seen i s"
  by (simp add: order_seen_def)

lemma evaluate_run_stored:
  assumes "evaluate_run w u o1 config legs s = (Inr out, s')"
  shows "lookup_row ef_plan_id (sm_plan_id (su_report u)) (xd_facts (sd_execution s')) = Some (out_snapshot out)"
    "ef_leg_a_filled (out_snapshot out) = sl_filled (lo_buy legs)" "ef_leg_b_filled (out_snapshot out) = sl_filled (lo_sell legs)"
proof -
  obtain b c db db' where run: "evaluate (sm_plan_id (su_report u)) (sl_filled (lo_buy legs)) (sl_filled (lo_sell legs)) b c (sw_clock w 13) db = (Inr out, db')"
    "sd_execution s' = db'"
    using assms unfolding evaluate_run_def Let_def by (elim with_domain_body) (auto simp: on_execution_def split: prod.splits)
  from evaluate_stores[OF run(1)]
  show "lookup_row ef_plan_id (sm_plan_id (su_report u)) (xd_facts (sd_execution s')) = Some (out_snapshot out)"
    "ef_leg_a_filled (out_snapshot out) = sl_filled (lo_buy legs)" "ef_leg_b_filled (out_snapshot out) = sl_filled (lo_sell legs)"
    by (simp_all add: run(2))
qed

lemma prepare_run_intents:
  assumes "prepare_run w e o1 config skipped source = Inr u"
  shows "sm_buy_intent_id (su_report u) \<noteq> sm_sell_intent_id (su_report u)"
    "venue_index (op_buy_venue o1) (dn_books e) = Some (su_buy_first u)"
    "venue_index (op_sell_venue o1) (dn_books e) = Some (su_sell_first u)"
  using assms by (auto simp: prepare_run_def initial_report_def Let_def split: option.splits prod.splits)

lemma final_report_same [simp]:
  "sm_plan_id (final_report r legs out) = sm_plan_id r" "sm_buy_intent_id (final_report r legs out) = sm_buy_intent_id r"
  "sm_sell_intent_id (final_report r legs out) = sm_sell_intent_id r" "sm_buy (final_report r legs out) = lo_buy legs"
  "sm_sell (final_report r legs out) = lo_sell legs" "sm_buy_fee (final_report r legs out) = lo_buy_fee legs"
  "sm_sell_fee (final_report r legs out) = lo_sell_fee legs"
  "sm_execution_state (final_report r legs out) = execution_state_as_str (ef_state (out_snapshot out))"
  "sm_simulated_net_profit (final_report r legs out) = sl_quote_amount (lo_sell legs) - lo_sell_fee legs
     - sl_quote_amount (lo_buy legs) - lo_buy_fee legs"
  by (simp_all add: final_report_def)

text \<open>C10. A simulated run leaves in the tables what it reports. When it was neither rejected nor a replay, its plan holds
  exactly two intents, to buy at the buying venue and to sell at the selling one, both for the whole quantity.
  Each leg is what the simulation fills on the book of its own venue. If the leg's order was accepted and filled, the
  order has exactly one trade, at that venue, with the reported fill, price and fee, the fee being that of the
  venue's own rate; otherwise it has no trade and no fee. The stored execution has the reported fills and
  state, and the reported profit is what the legs earned less their fees.\<close>

theorem run_books_what_it_reports:
  assumes "cores_ok w s" "run_simulation_run w e o1 config skipped source s = (Inr r, s')"
    and "sm_scenario r \<noteq> RunRejected" "\<not> sm_idempotent_replay r"
  shows "\<exists>b c f. venue_index (op_buy_venue o1) (dn_books e) = Some b \<and> venue_index (op_sell_venue o1) (dn_books e) = Some c
    \<and> map (\<lambda>i. (oi_intent_id i, oi_venue i, oi_side i, oi_quantity i)) (plan_intents (sm_plan_id r) (sd_paper s'))
        = [(sm_buy_intent_id r, op_buy_venue o1, Buy, dc_quantity (dn_config e)),
           (sm_sell_intent_id r, op_sell_venue o1, Sell, dc_quantity (dn_config e))]
    \<and> simulate_leg (sw_div w) Asks (entry b (dn_books e)) (entry b (dn_instruments e)) (dc_quantity (dn_config e)) config = Inr (sm_buy r)
    \<and> simulate_leg (sw_div w) Bids (entry c (dn_books e)) (entry c (dn_instruments e)) (dc_quantity (dn_config e)) config = Inr (sm_sell r)
    \<and> leg_booked (sm_buy_intent_id r) (op_buy_venue o1) (dc_quote_asset (dn_config e))
        (xf_buy_taker_rate (entry b (dn_fees e))) (sm_buy r) (sm_buy_fee r) s'
    \<and> leg_booked (sm_sell_intent_id r) (op_sell_venue o1) (dc_quote_asset (dn_config e))
        (xf_sell_taker_rate (entry c (dn_fees e))) (sm_sell r) (sm_sell_fee r) s'
    \<and> lookup_row ef_plan_id (sm_plan_id r) (xd_facts (sd_execution s')) = Some f
    \<and> ef_leg_a_filled f = sl_filled (sm_buy r) \<and> ef_leg_b_filled f = sl_filled (sm_sell r)
    \<and> sm_execution_state r = execution_state_as_str (ef_state f)
    \<and> sm_simulated_net_profit r = sl_quote_amount (sm_sell r) - sm_sell_fee r - sl_quote_amount (sm_buy r) - sm_buy_fee r"
proof -
  from assms(2-4) obtain u s0 out s1 where u: "prepare_run w e o1 config skipped source = Inr u"
    and fund: "fund_run u e config s = (Inr (), s0)" and res: "reserve_run w u e config s0 = (Inr out, s1)" "\<not> ro_idempotent_replay out"
    and run: "execute_run w u e o1 config s1 = (Inr r, s')"
    by (auto simp: run_simulation_run_def Let_def bind_db_Inr rejected_report_def replayed_report_def available_balance_frame
        available_balance_def dest: persist_run_Inr split: if_splits option.splits)
  let ?r = "su_report u"
  have k0: "cores_ok w s0" using phases_ok(1)[OF assms(1), of u e config] fund by simp
  have k1: "cores_ok w s1" using phases_ok(2)[OF k0, of u e config] res(1) by simp
  obtain x s2 legs s3 ev s4 where init: "initialize_run w u e config s1 = (Inr x, s2)"
    and legs: "legs_run w u e config s2 = (Inr legs, s3)" and ev: "evaluate_run w u o1 config legs s3 = (Inr ev, s4)"
    and per: "persist_run w u e config (final_report ?r legs ev) s4 = (Inr r, s')"
    using run by (auto simp: execute_run_def bind_db_Inr)
  have r: "r = final_report ?r legs ev" by (rule persist_run_Inr[OF per])
  have k2: "cores_ok w s2" using phases_ok(3)[OF k1, of u e config] init by simp
  obtain core ls t ls' where body: "run_legs w u e config core (s2\<lparr>sd_locks := ls\<rparr>) = (Inr legs, t)" "s3 = t\<lparr>sd_locks := ls'\<rparr>"
    using legs unfolding legs_run_def Let_def by (rule with_domain_body)
  note prep = prepare_run_intents[OF u] and venues = prepare_run_result(1,2)[OF u]
  have "cores_ok w (s2\<lparr>sd_locks := ls\<rparr>)" using k2 by simp
  note l = run_legs_booked[OF body(1) this prep(1)]
  have p2: "sd_paper s2 = sd_paper s1" using on_execution_frame(1) init unfolding initialize_run_def Let_def by blast
  have f4: "sd_paper s4 = sd_paper s3" "sd_orders s4 = sd_orders s3"
    using on_execution_frame ev unfolding evaluate_run_def Let_def by blast+
  have f5: "sd_paper s' = sd_paper s4" "sd_orders s' = sd_orders s4" "sd_execution s' = sd_execution s4"
    using persist_frame[of w u e config "final_report ?r legs ev" s4] per by simp_all
  have "sd_paper s' = sd_paper s1" using f5(1) f4(1) body(2) l(6) p2 by simp
  then have intents: "plan_intents (sm_plan_id r) (sd_paper s') = intent_list (plan_request u e config)"
    using reserve_run_plan[OF res k0] r by simp
  have seen: "order_seen i s' = order_seen i t" for i
    using order_seen_cong[of s' s3 i] f5(2) f4(2) body(2) by simp
  have booked: "leg_booked (sm_buy_intent_id r) (op_buy_venue o1) (dc_quote_asset (dn_config e))
        (xf_buy_taker_rate (entry (su_buy_first u) (dn_fees e))) (sm_buy r) (sm_buy_fee r) s'"
      "leg_booked (sm_sell_intent_id r) (op_sell_venue o1) (dc_quote_asset (dn_config e))
        (xf_sell_taker_rate (entry (su_sell_first u) (dn_fees e))) (sm_sell r) (sm_sell_fee r) s'"
    using l(1,2)[THEN leg_booked_kept, OF seen] venues by (simp_all add: r)
  have "map (\<lambda>i. (oi_intent_id i, oi_venue i, oi_side i, oi_quantity i)) (plan_intents (sm_plan_id r) (sd_paper s'))
        = [(sm_buy_intent_id r, op_buy_venue o1, Buy, dc_quantity (dn_config e)),
           (sm_sell_intent_id r, op_sell_venue o1, Sell, dc_quantity (dn_config e))]"
    unfolding intents using venues by (simp add: intent_list_def plan_request_def Let_def r)
  moreover have "lookup_row ef_plan_id (sm_plan_id r) (xd_facts (sd_execution s')) = Some (out_snapshot ev)"
    "ef_leg_a_filled (out_snapshot ev) = sl_filled (sm_buy r)" "ef_leg_b_filled (out_snapshot ev) = sl_filled (sm_sell r)"
    using evaluate_run_stored[OF ev] f5(3) by (simp_all add: r)
  ultimately show ?thesis using prep(2,3) booked l(3,4)
    by (intro exI[of _ "su_buy_first u"] exI[of _ "su_sell_first u"] exI[of _ "out_snapshot ev"]) (simp add: r)
qed

section \<open>A run that books\<close>

text \<open>A run up to its projection is evaluated; that the projection can be stored follows from what was evaluated.\<close>

definition booking_event :: decision_event where
  "booking_event = sim_event \<lparr>sr_symbol = ''BTCUSDT'', sr_quantity = 1, sr_observed_at_ms = 1200,
     sr_pair_received_skew_ms = 0, sr_directions = []\<rparr>"

definition booking_opportunity :: opportunity where
  "booking_opportunity = \<lparr>op_buy_venue = ''binance'', op_sell_venue = ''bybit'', op_buy_vwap = 100, op_sell_vwap = 110,
     op_buy_worst_price = 100, op_sell_worst_price = 110, op_buy_cost = 100, op_sell_proceeds = 110, op_gross_profit = 10,
     op_fees = 1, op_latency_loss_estimate = 0, op_rebalance_cost = 0, op_other_direct_cost = 0, op_expected_net_profit = 9,
     op_risk_buffer = 0, op_admission_profit = 9, op_admission_net_bps = 9, op_accepted = True, op_rejection_reasons = []\<rparr>"

definition storable :: "sim_world \<Rightarrow> sim_setup \<Rightarrow> sim_report \<Rightarrow> bool" where
  "storable w u r \<longleftrightarrow> list_all (\<lambda>x. is_ok (to_i64 x)) [su_now u, sm_evaluated_at_ms r, sm_seed r, sm_decision_to_submit_ms r,
       sm_fill_latency_ms r, sm_skipped_frames r, sw_clock w 14,
       saturating_add (saturating_add (sm_evaluated_at_ms r) (sm_decision_to_submit_ms r)) (sm_fill_latency_ms r)]
     \<and> su_now u \<noteq> 0 \<and> su_direction u \<in> {''a'', ''b''} \<and> 0 < sm_quantity r
     \<and> list_all (\<lambda>v. v \<noteq> [] \<and> list_all (\<lambda>c. c \<noteq> CHR 0x00) v) [sm_run_id r, sm_symbol r, sm_buy_venue r, sm_sell_venue r,
          sm_plan_id r, sm_account_id r, sm_instrument_id r, sm_buy_intent_id r, sm_sell_intent_id r]
     \<and> list_all (\<lambda>x. 0 \<le> x) [sl_filled (sm_buy r), sl_filled (sm_sell r), sl_avg_price (sm_buy r), sl_avg_price (sm_sell r),
          sm_buy_fee r, sm_sell_fee r, sm_unmatched_quantity r, sm_unmatched_exposure r, sm_estimated_compensation_cost r]
     \<and> sm_compensation_decision r = ''NO_ACTION'' \<and> sm_execution_state r = ''COMPLETED''"

lemma no_nul: "list_all (\<lambda>c. c \<noteq> x) v \<longleftrightarrow> x \<notin> set v"
  by (auto simp: list_all_iff)

lemma storable_persists:
  assumes "storable w u r"
  shows "\<exists>s'. persist_run w u e config r s = (Inr r, s')"
proof -
  have now: "is_ok (to_i64 (su_now u))" "su_now u \<noteq> 0" using assms by (simp_all add: storable_def)
  have "0 < uint (su_now u)" using now(2) uint_ge_0[of "su_now u"] by (simp add: less_le uint_0_iff eq_commute[of 0])
  then obtain n where n: "to_i64 (su_now u) = Inr n" "0 < n"
    using now(1) by (auto simp: is_ok_def to_i64_def split: if_splits)
  have row: "run_row_ok r (su_direction u) n"
    using assms n(2) unfolding storable_def run_row_ok_def no_nul by simp
  have "is_ok (to_i64 (sm_evaluated_at_ms r))"
    "is_ok (to_i64 (sm_seed r))"
    "is_ok (to_i64 (sm_decision_to_submit_ms r))"
    "is_ok (to_i64 (sm_fill_latency_ms r))"
    "is_ok (to_i64 (sm_skipped_frames r))"
    "is_ok (to_i64 (sw_clock w 14))"
    "is_ok (to_i64 (saturating_add (saturating_add (sm_evaluated_at_ms r) (sm_decision_to_submit_ms r)) (sm_fill_latency_ms r)))"
    using assms by (simp_all add: storable_def)
  then obtain a b c d f g h where "to_i64 (sm_evaluated_at_ms r) = Inr a"
    "to_i64 (sm_seed r) = Inr b"
    "to_i64 (sm_decision_to_submit_ms r) = Inr c"
    "to_i64 (sm_fill_latency_ms r) = Inr d"
    "to_i64 (sm_skipped_frames r) = Inr f"
    "to_i64 (sw_clock w 14) = Inr g"
    "to_i64 (saturating_add (saturating_add (sm_evaluated_at_ms r) (sm_decision_to_submit_ms r)) (sm_fill_latency_ms r)) = Inr h"
    unfolding is_ok_iff by blast
  note stamps = this n(1)
  obtain s1 where "insert_projection r (su_direction u) (su_now u) s = (Inr (), s1)"
    by (cases "lookup_row run_key (sm_run_id r) (sd_runs s)") (simp_all add: insert_projection_def stamps row)
  then show ?thesis by (simp add: persist_run_def persist_simulation_run_def bind_db_def return_db_def Let_def stamps)
qed

definition booking_stage :: "(sim_setup \<times> legs_outcome \<times> compensation_outcome) result \<times> sim_db" where
  "booking_stage = (let w = sim_world_0; e = booking_event; c = sample_sim in
     bind_db (return_db (prepare_run w e booking_opportunity c 0 Live)) (\<lambda>u.
     bind_db (fund_run u e c) (\<lambda>_.
     bind_db (available_balance (sm_account_id (su_report u)) (sm_buy_venue (su_report u)) (dc_quote_asset (dn_config e))) (\<lambda>quote_available.
     bind_db (available_balance (sm_account_id (su_report u)) (sm_sell_venue (su_report u)) (dc_base_asset (dn_config e))) (\<lambda>base_available.
     if quote_available < su_quote_cost u \<or> base_available < dc_quantity (dn_config e) then return_db (Inl (Bail []))
     else bind_db (reserve_run w u e c) (\<lambda>out.
       if ro_idempotent_replay out then return_db (Inl (Bail []))
       else bind_db (initialize_run w u e c) (\<lambda>_.
         bind_db (legs_run w u e c) (\<lambda>legs.
         bind_db (evaluate_run w u booking_opportunity c legs) (\<lambda>ev.
         return_db (Inr (u, legs, ev)))))))))) sim_db_0)"

lemma booking_stage_ends:
  "case booking_stage of
     (Inr (u, legs, ev), s) \<Rightarrow> storable sim_world_0 u (final_report (su_report u) legs ev) \<and> 0 < sl_filled (lo_buy legs)
       \<and> run_scenario (lo_buy legs) (lo_sell legs) = Normal \<and> \<not> sm_idempotent_replay (su_report u)
       \<and> lo_buy_fee legs \<noteq> 0
   | _ \<Rightarrow> False"
  by code_simp

lemma booking_run:
  "\<exists>r s'. run_simulation_run sim_world_0 booking_event booking_opportunity sample_sim 0 Live sim_db_0 = (Inr r, s')
    \<and> sm_scenario r = Normal \<and> \<not> sm_idempotent_replay r \<and> 0 < sl_filled (sm_buy r) \<and> sm_buy_fee r \<noteq> 0"
proof -
  obtain u legs ev s4 where stage: "booking_stage = (Inr (u, legs, ev), s4)"
    and ends: "storable sim_world_0 u (final_report (su_report u) legs ev)" "0 < sl_filled (lo_buy legs)"
      "run_scenario (lo_buy legs) (lo_sell legs) = Normal" "\<not> sm_idempotent_replay (su_report u)" "lo_buy_fee legs \<noteq> 0"
    using booking_stage_ends by (auto split: prod.splits sum.splits)
  obtain s' where per: "persist_run sim_world_0 u booking_event sample_sim (final_report (su_report u) legs ev) s4
      = (Inr (final_report (su_report u) legs ev), s')"
    using storable_persists[OF ends(1)] by blast
  have "run_simulation_run sim_world_0 booking_event booking_opportunity sample_sim 0 Live sim_db_0
      = (Inr (final_report (su_report u) legs ev), s')"
    using stage per unfolding booking_stage_def run_simulation_run_def execute_run_def Let_def
    by (auto simp: bind_db_Inr split: if_splits) blast
  moreover have "sm_scenario (final_report (su_report u) legs ev) = Normal"
    "\<not> sm_idempotent_replay (final_report (su_report u) legs ev)"
    using ends(3,4) by (simp_all add: final_report_def)
  ultimately show ?thesis using ends(2,5) by (metis final_report_same(4,6))
qed

lemma run_books_what_it_reports_witness:
  "\<exists>r s'. run_simulation_run sim_world_0 booking_event booking_opportunity sample_sim 0 Live sim_db_0 = (Inr r, s')
    \<and> (\<exists>t. trades_of (sm_buy_intent_id r) (sd_orders s') = [t] \<and> tf_venue t = ''binance''
         \<and> tf_quantity t = sl_filled (sm_buy r) \<and> tf_fee_amount t = sm_buy_fee r)"
proof -
  obtain r s' where run: "run_simulation_run sim_world_0 booking_event booking_opportunity sample_sim 0 Live sim_db_0 = (Inr r, s')"
    and r: "sm_scenario r = Normal" "\<not> sm_idempotent_replay r" "0 < sl_filled (sm_buy r)" "sm_buy_fee r \<noteq> 0"
    using booking_run by blast
  have "sm_scenario r \<noteq> RunRejected" by (simp add: r(1))
  from run_books_what_it_reports[OF sim_db_0_ok run this r(2)] obtain rate where
    "leg_booked (sm_buy_intent_id r) ''binance'' (dc_quote_asset (dn_config booking_event)) rate (sm_buy r) (sm_buy_fee r) s'"
    by (auto simp: booking_opportunity_def)
  then show ?thesis using run r(3,4) by (auto simp: leg_booked_def order_seen_def split: option.splits if_splits)
qed

end
