(* ===== verification/Book_Stream.thy ===== *)
theory Book_Stream
  imports Local_Book
begin

text \<open>
  The task behind a book feed, the part \<open>subscribe\<close> of \<open>venues/binance_stream.rs\<close> and
  \<open>venues/bybit_stream.rs\<close> has in common: it publishes SYNCING, runs one connection until that
  ends, publishes STALE or INVALID, and waits for the delay or a command before the next
  connection. What the \<open>select!\<close> of a task takes next is an input of the environment; an input a
  state does not poll is left to a later state and changes nothing. A step may read the clock
  several times: \<open>clock n\<close> is its n-th reading. A connection is the interface
  \<open>book_connection\<close>; the theories of the two venues provide it.
\<close>

section \<open>Inputs and outcomes\<close>

datatype stream_input =
    Connected "unit result"
  | Subscribed "unit result"
  | Depth_Fetched "order_book_snapshot result"
  | Text_Frame string
  | Ping_Frame "unit result"
  | Close_Frame
  | Stream_End
  | Other_Frame
  | Transport_Error string
  | Deadline
  | Heartbeat "unit result"
  | Reconnect_Command
  | Commands_Dropped
  | Delay_Elapsed

text \<open>The error that ends a connection: \<open>StaleFeed\<close> is recognised by the task, anything else is not.\<close>

datatype stream_error = Stale_Feed string | Stream_Error string

datatype 'c connection = Open 'c | Ended "stream_error + unit"

type_synonym 'c connection_step = "(nat \<Rightarrow> u64) \<Rightarrow> stream_input \<Rightarrow> 'c \<Rightarrow> feed_publisher \<Rightarrow> 'c connection \<times> feed_publisher"

definition error_text :: "error \<Rightarrow> string" where
  "error_text e = (case e of Bail m \<Rightarrow> m | Panic m \<Rightarrow> m)"

definition ended_by :: "error \<Rightarrow> 'c connection" where
  "ended_by e = Ended (Inl (Stream_Error (error_text e)))"

text \<open>\<open>context\<close> puts a text before the text of the error.\<close>

definition with_context :: "string \<Rightarrow> 'a result \<Rightarrow> 'a result" where
  "with_context c r = (case r of Inl e \<Rightarrow> Inl (Bail (c @ '': '' @ error_text e)) | Inr x \<Rightarrow> Inr x)"

lemma with_context_Inr [simp]: "with_context c r = Inr x \<longleftrightarrow> r = Inr x"
  by (cases r) (simp_all add: with_context_def)

text \<open>What a connection is given; decoding and parsing belong to other crates.\<close>

record 'e stream_config =
  sx_decode :: "string \<Rightarrow> 'e option"
  sx_parse :: "string \<Rightarrow> decimal option"
  sx_symbol :: string
  sx_depth :: nat

section \<open>The task\<close>

datatype 'c feed_phase = Streaming 'c | Delaying | Feed_Stopped

record 'c feed_task =
  ft_publisher :: feed_publisher
  ft_phase :: "'c feed_phase"

definition feed_start :: "string \<Rightarrow> string \<Rightarrow> 'c \<Rightarrow> 'c feed_task" where
  "feed_start venue symbol initial =
     \<lparr>ft_publisher = syncing False (channel venue symbol), ft_phase = Streaming initial\<rparr>"

definition publish_end :: "string \<Rightarrow> stream_error + unit \<Rightarrow> feed_publisher \<Rightarrow> feed_publisher" where
  "publish_end label r = (case r of
     Inr _ \<Rightarrow> invalid (label @ '' stream ended'')
   | Inl (Stale_Feed m) \<Rightarrow> stale (label @ '' stream stale: '' @ m)
   | Inl (Stream_Error m) \<Rightarrow> invalid (label @ '' stream invalid: '' @ m))"

definition feed_step :: "string \<Rightarrow> 'c \<Rightarrow> 'c connection_step
    \<Rightarrow> (nat \<Rightarrow> u64) \<times> stream_input \<Rightarrow> 'c feed_task \<Rightarrow> 'c feed_task" where
  "feed_step label initial step x t =
     (case ft_phase t of
        Streaming c \<Rightarrow> (case step (fst x) (snd x) c (ft_publisher t) of
          (Open c', p) \<Rightarrow> \<lparr>ft_publisher = p, ft_phase = Streaming c'\<rparr>
        | (Ended r, p) \<Rightarrow> \<lparr>ft_publisher = publish_end label r p, ft_phase = Delaying\<rparr>)
      | Delaying \<Rightarrow>
          (if snd x \<in> {Delay_Elapsed, Reconnect_Command}
           then \<lparr>ft_publisher = syncing True (ft_publisher t), ft_phase = Streaming initial\<rparr>
           else if snd x = Commands_Dropped then t\<lparr>ft_phase := Feed_Stopped\<rparr>
           else t)
      | Feed_Stopped \<Rightarrow> t)"

definition feed_run :: "string \<Rightarrow> 'c \<Rightarrow> 'c connection_step
    \<Rightarrow> string \<Rightarrow> string \<Rightarrow> ((nat \<Rightarrow> u64) \<times> stream_input) list \<Rightarrow> 'c feed_task" where
  "feed_run label initial step venue symbol is =
     fold (feed_step label initial step) is (feed_start venue symbol initial)"

section \<open>The interface of a connection\<close>

text \<open>
  A connection only ever publishes books, one per step at most, and only while it stays open; a
  fresh one has published none. \<open>live c\<close> tells whether the connection \<open>c\<close> has published a book.
\<close>

locale book_connection =
  fixes initial :: 'c
    and step :: "'c connection_step"
    and live :: "'c \<Rightarrow> order_book_snapshot option"
  assumes initial_quiet: "live initial = None"
    and step_publishes: "step clock i c p = (Open c', p') \<Longrightarrow>
        (p' = p \<and> live c' = live c) \<or> (\<exists>s. p' = valid s p \<and> live c' = Some s)"
    and step_ends: "step clock i c p = (Ended r, p') \<Longrightarrow> p' = p"
begin

definition task_inv :: "string \<Rightarrow> string \<Rightarrow> 'c feed_task \<Rightarrow> bool" where
  "task_inv venue symbol t \<longleftrightarrow> feed_reachable venue symbol (ft_publisher t)
     \<and> bf_generation (fp_status (ft_publisher t)) = bf_reconnects (fp_status (ft_publisher t)) + 1
     \<and> (case ft_phase t of
          Streaming c \<Rightarrow> (case live c of
            None \<Rightarrow> bf_state (fp_status (ft_publisher t)) = Syncing
          | Some s \<Rightarrow> bf_state (fp_status (ft_publisher t)) = Valid
              \<and> bf_snapshot (fp_status (ft_publisher t)) = Some s)
        | _ \<Rightarrow> bf_state (fp_status (ft_publisher t)) \<in> {Stale, Invalid})"

lemma feed_start_inv: "task_inv venue symbol (feed_start venue symbol initial)"
  by (simp add: task_inv_def feed_start_def initial_quiet feed_reachable.intros)
    (simp add: feed_defs Let_def)

lemma feed_step_inv:
  assumes "task_inv venue symbol t"
  shows "task_inv venue symbol (feed_step label initial step x t)"
proof (cases "ft_phase t")
  case (Streaming c)
  obtain r p where run: "step (fst x) (snd x) c (ft_publisher t) = (r, p)" by fastforce
  show ?thesis
  proof (cases r)
    case (Open c')
    from step_publishes[OF run[unfolded Open]] show ?thesis
    proof (elim disjE exE conjE)
      fix s assume "p = valid s (ft_publisher t)" "live c' = Some s"
      then show ?thesis using assms Streaming run Open
        by (simp add: task_inv_def feed_step_def feed_reachable.valid) (simp add: valid_def publish_def)
    qed (use assms Streaming run Open in \<open>auto simp: task_inv_def feed_step_def split: option.splits\<close>)
  next
    case (Ended e)
    then have "p = ft_publisher t" using run step_ends by blast
    then show ?thesis using assms Streaming run Ended
      by (auto simp: task_inv_def feed_step_def publish_end_def feed_reachable.intros
          split: sum.splits stream_error.splits) (auto simp: stale_def invalid_def publish_def)
  qed
next
  case Delaying
  then show ?thesis using assms
    by (auto simp: task_inv_def feed_step_def initial_quiet feed_reachable.intros)
      (auto simp: syncing_def publish_def)
next
  case Feed_Stopped
  then show ?thesis using assms by (simp add: feed_step_def)
qed

lemma feed_run_inv: "task_inv venue symbol (feed_run label initial step venue symbol is)"
proof -
  have "task_inv venue symbol t \<Longrightarrow> task_inv venue symbol (fold (feed_step label initial step) is t)" for t
    by (induction "is" arbitrary: t) (simp_all add: feed_step_inv)
  then show ?thesis by (simp add: feed_run_def feed_start_inv)
qed

text \<open>What a reader of the feed may conclude.\<close>

lemma channel_shows_connection:
  fixes label venue symbol "is"
  defines "t \<equiv> feed_run label initial step venue symbol is"
  shows "case ft_phase t of
      Streaming c \<Rightarrow> (case live c of
        None \<Rightarrow> bf_state (fp_channel (ft_publisher t)) = Syncing
      | Some s \<Rightarrow> bf_state (fp_channel (ft_publisher t)) = Valid \<and> bf_snapshot (fp_channel (ft_publisher t)) = Some s)
    | _ \<Rightarrow> bf_state (fp_channel (ft_publisher t)) \<in> {Stale, Invalid}"
    "bf_generation (fp_channel (ft_publisher t)) = bf_reconnects (fp_channel (ft_publisher t)) + 1"
proof -
  have inv: "task_inv venue symbol t" unfolding t_def by (rule feed_run_inv)
  then have f: "fp_channel (ft_publisher t) = fp_status (ft_publisher t)"
    using feed_reachable_inv[of venue symbol "ft_publisher t"] by (simp add: task_inv_def feed_inv_def)
  show "bf_generation (fp_channel (ft_publisher t)) = bf_reconnects (fp_channel (ft_publisher t)) + 1"
    using inv f by (simp add: task_inv_def)
  show "case ft_phase t of
      Streaming c \<Rightarrow> (case live c of
        None \<Rightarrow> bf_state (fp_channel (ft_publisher t)) = Syncing
      | Some s \<Rightarrow> bf_state (fp_channel (ft_publisher t)) = Valid \<and> bf_snapshot (fp_channel (ft_publisher t)) = Some s)
    | _ \<Rightarrow> bf_state (fp_channel (ft_publisher t)) \<in> {Stale, Invalid}"
    using inv unfolding f task_inv_def by (elim conjE)
qed

end

end
