(* ===== verification/Binance_Stream.thy ===== *)
theory Binance_Stream
  imports Book_Stream
begin

text \<open>
  The connection of \<open>venues/binance_stream.rs\<close>: depth events are buffered while the snapshot is
  fetched over REST, the snapshot is bridged to the first event that succeeds it, and then every
  event must continue the sequence of the book. Decoding a frame and parsing a decimal are
  parameters.
\<close>

section \<open>Data\<close>

record depth_event =
  bd_event_time :: u64
  bd_symbol :: string
  bd_first_update_id :: u64
  bd_final_update_id :: u64
  bd_bids :: "(string \<times> string) list"
  bd_asks :: "(string \<times> string) list"

text \<open>Connecting, waiting for the first event, for the snapshot, for an event beyond it, or following the book.\<close>

datatype binance_connection =
    Bn_Connecting
  | Bn_First
  | Bn_Fetching "depth_event list"
  | Bn_Successor order_book_snapshot "depth_event list"
  | Bn_Live local_order_book

section \<open>Reading one event\<close>

datatype next_event = Next_Event depth_event | Next_Pending | Next_Closed | Next_Failed stream_error

definition bn_next :: "depth_event stream_config \<Rightarrow> stream_input \<Rightarrow> next_event" where
  "bn_next cfg i = (case i of
     Reconnect_Command \<Rightarrow> Next_Failed (Stream_Error ''forced reconnect'')
   | Commands_Dropped \<Rightarrow> Next_Closed
   | Deadline \<Rightarrow> Next_Failed (Stale_Feed ''Binance order book received no depth event'')
   | Text_Frame t \<Rightarrow> (case sx_decode cfg t of
       None \<Rightarrow> Next_Failed (Stream_Error ''invalid Binance depth event'')
     | Some e \<Rightarrow> if bd_symbol e \<noteq> sx_symbol cfg
                 then Next_Failed (Stream_Error ''Binance stream returned symbol'') else Next_Event e)
   | Ping_Frame (Inl e) \<Rightarrow> Next_Failed (Stream_Error (error_text e))
   | Close_Frame \<Rightarrow> Next_Closed
   | Stream_End \<Rightarrow> Next_Closed
   | Transport_Error m \<Rightarrow> Next_Failed (Stream_Error m)
   | _ \<Rightarrow> Next_Pending)"

section \<open>Applying events\<close>

definition bn_apply :: "(string \<Rightarrow> decimal option) \<Rightarrow> u64 \<Rightarrow> depth_event \<Rightarrow> local_order_book \<Rightarrow> local_order_book result" where
  "bn_apply parse received e b =
     then_do (with_context ''invalid Binance bid update'' (parse_updates parse (bd_bids e))) (\<lambda>bids.
     then_do (with_context ''invalid Binance ask update'' (parse_updates parse (bd_asks e))) (\<lambda>asks.
     case apply_updates b bids asks (bd_final_update_id e) (Some (bd_event_time e)) received of
       (Inl x, _) \<Rightarrow> Inl x | (Inr _, b') \<Rightarrow> Inr b'))"

text \<open>The loop over the buffered events: what the book covers is dropped, a gap is an error.\<close>

fun bn_drain :: "(string \<Rightarrow> decimal option) \<Rightarrow> (nat \<Rightarrow> u64) \<Rightarrow> nat \<Rightarrow> depth_event list \<Rightarrow> local_order_book
    \<Rightarrow> local_order_book result" where
  "bn_drain parse clock n [] b = Inr b"
| "bn_drain parse clock n (e # es) b =
     (if bd_final_update_id e \<le> lb_sequence b then bn_drain parse clock n es b
      else if saturating_add (lb_sequence b) 1 < bd_first_update_id e
      then Inl (Bail ''buffered depth sequence gap'')
      else then_do (bn_apply parse (clock n) e b) (bn_drain parse clock (n + 1) es))"

definition bridge_snapshot :: "(string \<Rightarrow> decimal option) \<Rightarrow> (nat \<Rightarrow> u64) \<Rightarrow> order_book_snapshot \<Rightarrow> depth_event list
    \<Rightarrow> string \<Rightarrow> local_order_book result" where
  "bridge_snapshot parse clock s buffered symbol =
     then_do (from_snapshot s) (\<lambda>b.
     case dropWhile (\<lambda>e. bd_final_update_id e \<le> lb_sequence b) buffered of
       [] \<Rightarrow> Inl (Bail ''Binance snapshot covered every buffered event'')
     | e # es \<Rightarrow>
         let expected = saturating_add (lb_sequence b) 1
         in if expected < bd_first_update_id e \<or> bd_final_update_id e < expected
            then Inl (Bail ''snapshot bridge failed'')
            else then_do (bn_drain parse clock 0 (e # es) b) (\<lambda>b.
                 then_do (snapshot 1 b) (\<lambda>top.
                 if ob_symbol top \<noteq> symbol then Inl (Bail ''Binance snapshot symbol mismatch'')
                 else Inr b)))"

section \<open>The connection\<close>

definition bn_publish :: "depth_event stream_config \<Rightarrow> local_order_book result \<Rightarrow> feed_publisher
    \<Rightarrow> binance_connection connection \<times> feed_publisher" where
  "bn_publish cfg r p =
     (case then_do r (\<lambda>b. then_do (snapshot (sx_depth cfg) b) (\<lambda>s. Inr (b, s))) of
        Inl e \<Rightarrow> (ended_by e, p)
      | Inr (b, s) \<Rightarrow> (Open (Bn_Live b), valid s p))"

text \<open>Once the snapshot is there, events are read until the last one lies beyond it.\<close>

definition bn_bridge :: "depth_event stream_config \<Rightarrow> (nat \<Rightarrow> u64) \<Rightarrow> order_book_snapshot \<Rightarrow> depth_event list
    \<Rightarrow> feed_publisher \<Rightarrow> binance_connection connection \<times> feed_publisher" where
  "bn_bridge cfg clock s buffered p =
     (if buffered = [] \<or> bd_final_update_id (last buffered) \<le> ob_sequence s
      then (Open (Bn_Successor s buffered), p)
      else bn_publish cfg (bridge_snapshot (sx_parse cfg) clock s buffered (sx_symbol cfg)) p)"

definition bn_follow :: "depth_event stream_config \<Rightarrow> (nat \<Rightarrow> u64) \<Rightarrow> depth_event \<Rightarrow> local_order_book \<Rightarrow> feed_publisher
    \<Rightarrow> binance_connection connection \<times> feed_publisher" where
  "bn_follow cfg clock e b p =
     (if bd_final_update_id e \<le> lb_sequence b then (Open (Bn_Live b), p)
      else if saturating_add (lb_sequence b) 1 < bd_first_update_id e
      then (ended_by (Bail ''depth sequence gap''), p)
      else bn_publish cfg (bn_apply (sx_parse cfg) (clock 0) e b) p)"

definition bn_closed_text :: "binance_connection \<Rightarrow> string" where
  "bn_closed_text c = (case c of
     Bn_First \<Rightarrow> ''Binance stream closed before first depth event''
   | Bn_Fetching _ \<Rightarrow> ''Binance stream closed during snapshot fetch''
   | Bn_Successor _ _ \<Rightarrow> ''Binance stream closed before snapshot successor''
   | _ \<Rightarrow> ''Binance stream closed'')"

definition bn_event :: "depth_event stream_config \<Rightarrow> (nat \<Rightarrow> u64) \<Rightarrow> depth_event \<Rightarrow> binance_connection \<Rightarrow> feed_publisher
    \<Rightarrow> binance_connection connection \<times> feed_publisher" where
  "bn_event cfg clock e c p = (case c of
     Bn_Connecting \<Rightarrow> (Open c, p)
   | Bn_First \<Rightarrow> (Open (Bn_Fetching [e]), p)
   | Bn_Fetching buffered \<Rightarrow> (Open (Bn_Fetching (buffered @ [e])), p)
   | Bn_Successor s buffered \<Rightarrow> bn_bridge cfg clock s (buffered @ [e]) p
   | Bn_Live b \<Rightarrow> bn_follow cfg clock e b p)"

definition bn_read :: "depth_event stream_config \<Rightarrow> binance_connection connection_step" where
  "bn_read cfg clock i c p = (case bn_next cfg i of
     Next_Event e \<Rightarrow> bn_event cfg clock e c p
   | Next_Pending \<Rightarrow> (Open c, p)
   | Next_Closed \<Rightarrow> (ended_by (Bail (bn_closed_text c)), p)
   | Next_Failed e \<Rightarrow> (Ended (Inl e), p))"

definition bn_step :: "depth_event stream_config \<Rightarrow> binance_connection connection_step" where
  "bn_step cfg clock i c p = (case c of
     Bn_Connecting \<Rightarrow> (case i of
        Connected (Inr _) \<Rightarrow> (Open Bn_First, p) | Connected (Inl e) \<Rightarrow> (ended_by e, p) | _ \<Rightarrow> (Open c, p))
   | Bn_Fetching buffered \<Rightarrow> (case i of
        Depth_Fetched (Inr s) \<Rightarrow> bn_bridge cfg clock s buffered p
      | Depth_Fetched (Inl e) \<Rightarrow> (ended_by e, p)
      | _ \<Rightarrow> bn_read cfg clock i c p)
   | _ \<Rightarrow> bn_read cfg clock i c p)"

definition bn_live :: "depth_event stream_config \<Rightarrow> binance_connection \<Rightarrow> order_book_snapshot option" where
  "bn_live cfg c = (case c of
     Bn_Live b \<Rightarrow> (case snapshot (sx_depth cfg) b of Inl _ \<Rightarrow> None | Inr s \<Rightarrow> Some s) | _ \<Rightarrow> None)"

text \<open>The task of \<open>subscribe\<close> after its inputs.\<close>

definition bn_subscribe :: "depth_event stream_config \<Rightarrow> ((nat \<Rightarrow> u64) \<times> stream_input) list
    \<Rightarrow> binance_connection feed_task" where
  "bn_subscribe cfg is = feed_run ''Binance'' Bn_Connecting (bn_step cfg) ''binance'' (sx_symbol cfg) is"

section \<open>The interface\<close>

lemma bn_publish_cases:
  assumes "bn_publish cfg r p = (c, p')"
  shows "(\<exists>e. c = ended_by e \<and> p' = p)
    \<or> (\<exists>b s. r = Inr b \<and> snapshot (sx_depth cfg) b = Inr s \<and> c = Open (Bn_Live b) \<and> p' = valid s p)"
  using assms by (auto simp: bn_publish_def split: sum.splits prod.splits)

lemma bn_step_cases:
  assumes "bn_step cfg clock i c p = (r, p')"
  shows "(\<exists>e. r = Ended e \<and> p' = p)
    \<or> (\<exists>c'. r = Open c' \<and> p' = p \<and> bn_live cfg c' = bn_live cfg c)
    \<or> (\<exists>b s. r = Open (Bn_Live b) \<and> snapshot (sx_depth cfg) b = Inr s \<and> p' = valid s p)"
proof -
  have bridge: "(\<exists>e. r = Ended e \<and> p' = p) \<or> (\<exists>s bs. r = Open (Bn_Successor s bs) \<and> p' = p)
      \<or> (\<exists>b s. r = Open (Bn_Live b) \<and> snapshot (sx_depth cfg) b = Inr s \<and> p' = valid s p)"
    if "bn_bridge cfg clock s bs p = (r, p')" for s bs
    using that by (auto simp: bn_bridge_def ended_by_def dest!: bn_publish_cases split: if_splits)
  have follow: "(\<exists>e. r = Ended e \<and> p' = p) \<or> (r = Open (Bn_Live b) \<and> p' = p)
      \<or> (\<exists>b s. r = Open (Bn_Live b) \<and> snapshot (sx_depth cfg) b = Inr s \<and> p' = valid s p)"
    if "bn_follow cfg clock e b p = (r, p')" for e b
    using that by (auto simp: bn_follow_def ended_by_def dest!: bn_publish_cases split: if_splits)
  have event: ?thesis if "bn_event cfg clock e c p = (r, p')" for e
    using that by (cases c) (auto simp: bn_event_def bn_live_def dest!: bridge follow)
  have read: ?thesis if "bn_read cfg clock i c p = (r, p')"
    using that by (auto simp: bn_read_def ended_by_def dest: event split: next_event.splits)
  show ?thesis
  proof (cases c)
    case Bn_Connecting
    then show ?thesis using assms
      by (cases i) (auto simp: bn_step_def ended_by_def bn_live_def split: sum.splits)
  next
    case (Bn_Fetching bs)
    show ?thesis
    proof (cases "\<exists>d. i = Depth_Fetched d")
      case True
      then obtain d where i: "i = Depth_Fetched d" ..
      show ?thesis
      proof (cases d)
        case (Inr s)
        then have "bn_bridge cfg clock s bs p = (r, p')" using assms Bn_Fetching i by (simp add: bn_step_def)
        from bridge[OF this] show ?thesis using Bn_Fetching by (auto simp: bn_live_def)
      qed (use assms Bn_Fetching i in \<open>auto simp: bn_step_def ended_by_def\<close>)
    next
      case False
      then have "bn_read cfg clock i c p = (r, p')" using assms Bn_Fetching by (cases i) (auto simp: bn_step_def)
      then show ?thesis by (rule read)
    qed
  qed (use assms read in \<open>simp_all add: bn_step_def\<close>)
qed

lemma binance_connection_laws: "book_connection Bn_Connecting (bn_step cfg) (bn_live cfg)"
proof
  show "bn_live cfg Bn_Connecting = None" by (simp add: bn_live_def)
next
  fix clock i c p c' p' assume "bn_step cfg clock i c p = (Open c', p')"
  from bn_step_cases[OF this] show "(p' = p \<and> bn_live cfg c' = bn_live cfg c) \<or> (\<exists>s. p' = valid s p \<and> bn_live cfg c' = Some s)"
    by (auto simp: bn_live_def)
next
  fix clock i c p r p' assume "bn_step cfg clock i c p = (Ended r, p')"
  from bn_step_cases[OF this] show "p' = p" by auto
qed

interpretation bn: book_connection Bn_Connecting "bn_step cfg" "bn_live cfg" for cfg
  by (rule binance_connection_laws)

section \<open>Sequence specification\<close>

text \<open>
  What a book must be after the events received since its snapshot: each is either covered by the
  sequence already reached, or continues it without a gap and is applied at some time.
\<close>

inductive bn_chain :: "(string \<Rightarrow> decimal option) \<Rightarrow> local_order_book \<Rightarrow> depth_event list \<Rightarrow> local_order_book \<Rightarrow> bool"
  for parse b0 where
  chain_start: "bn_chain parse b0 [] b0"
| chain_skip: "bn_chain parse b0 es b \<Longrightarrow> bd_final_update_id e \<le> lb_sequence b \<Longrightarrow> bn_chain parse b0 (es @ [e]) b"
| chain_apply: "bn_chain parse b0 es b \<Longrightarrow> lb_sequence b < bd_final_update_id e \<Longrightarrow>
    bd_first_update_id e \<le> saturating_add (lb_sequence b) 1 \<Longrightarrow> bn_apply parse received e b = Inr b' \<Longrightarrow>
    bn_chain parse b0 (es @ [e]) b'"

lemma bn_apply_sequence: "bn_apply parse received e b = Inr b' \<Longrightarrow> lb_sequence b' = bd_final_update_id e"
  by (auto simp: bn_apply_def apply_updates_def Let_def split: prod.splits sum.splits)

lemma bn_chain_covers:
  assumes "bn_chain parse b0 es b" "unat (lb_sequence b0) < k" "k \<le> unat (lb_sequence b)"
  shows "\<exists>e \<in> set es. unat (bd_first_update_id e) \<le> k \<and> k \<le> unat (bd_final_update_id e)"
  using assms
proof (induction arbitrary: k rule: bn_chain.induct)
  case (chain_apply es b e received b')
  show ?case
  proof (cases "k \<le> unat (lb_sequence b)")
    case False
    have "unat (bd_first_update_id e) \<le> unat (lb_sequence b) + 1"
      using chain_apply.hyps(3) by (simp add: word_le_nat_alt unat_saturating_add)
    then show ?thesis using False chain_apply.prems(2) bn_apply_sequence[OF chain_apply.hyps(4)] by auto
  qed (use chain_apply in auto)
qed auto

lemma bn_chain_monotone: "bn_chain parse b0 es b \<Longrightarrow> lb_sequence b0 \<le> lb_sequence b"
  by (induction rule: bn_chain.induct) (auto dest!: bn_apply_sequence)

lemma bn_drain_chain:
  assumes "bn_drain parse clock n es b = Inr b'" "bn_chain parse b0 ds b"
  shows "bn_chain parse b0 (ds @ es) b'"
  using assms
proof (induction es arbitrary: n b ds)
  case (Cons e es)
  show ?case
  proof (cases "bd_final_update_id e \<le> lb_sequence b")
    case True
    then have "bn_drain parse clock n es b = Inr b'" using Cons.prems(1) by simp
    from Cons.IH[OF this chain_skip[OF Cons.prems(2) True]] show ?thesis by simp
  next
    case False
    then obtain c where "bd_first_update_id e \<le> saturating_add (lb_sequence b) 1"
      "bn_apply parse (clock n) e b = Inr c" "bn_drain parse clock (n + 1) es c = Inr b'"
      using Cons.prems(1) by (auto simp: not_less split: if_splits)
    with Cons.IH[OF this(3) chain_apply[OF Cons.prems(2) _ this(1,2)]] False show ?thesis by simp
  qed
qed simp

lemma bn_chain_skips:
  assumes "bn_chain parse b0 ds b" "\<forall>e \<in> set es. bd_final_update_id e \<le> lb_sequence b"
  shows "bn_chain parse b0 (ds @ es) b"
  using assms
proof (induction es arbitrary: ds)
  case (Cons e es)
  have "bd_final_update_id e \<le> lb_sequence b" using Cons.prems(2) by simp
  from Cons.IH[OF chain_skip[OF Cons.prems(1) this]] Cons.prems(2) show ?case by simp
qed simp

lemma bridge_snapshot_chain:
  assumes "bridge_snapshot parse clock s es symbol = Inr b"
  obtains b0 where "from_snapshot s = Inr b0" "bn_chain parse b0 es b" "lb_sequence b0 < lb_sequence b"
proof -
  define covered where "covered b0 e \<longleftrightarrow> bd_final_update_id e \<le> lb_sequence b0" for b0 :: local_order_book and e :: depth_event
  from assms obtain b0 where b0: "from_snapshot s = Inr b0" by (auto simp: bridge_snapshot_def)
  note body = assms[unfolded bridge_snapshot_def b0 then_do_Inr, folded covered_def]
  obtain e es' where dw: "dropWhile (covered b0) es = e # es'"
    using body by (cases "dropWhile (covered b0) es") simp_all
  have drain: "bn_drain parse clock 0 (e # es') b0 = Inr b"
    using body dw by (simp add: Let_def del: bn_drain.simps split: if_splits)
  have new: "\<not> covered b0 e" using dw by (metis dropWhile_eq_Cons_conv)
  have "\<forall>e \<in> set (takeWhile (covered b0) es). bd_final_update_id e \<le> lb_sequence b0"
    by (auto dest: set_takeWhileD simp: covered_def)
  from bn_drain_chain[OF drain bn_chain_skips[OF chain_start this]]
  moreover have "takeWhile (covered b0) es @ e # es' = es"
    using takeWhile_dropWhile_id[of "covered b0" es] by (simp only: dw)
  ultimately have chain: "bn_chain parse b0 es b" by simp
  from drain new obtain c where c: "bn_apply parse (clock 0) e b0 = Inr c" and rest: "bn_drain parse clock (0 + 1) es' c = Inr b"
    by (auto simp: covered_def split: if_splits)
  have "lb_sequence c \<le> lb_sequence b" using bn_chain_monotone[OF bn_drain_chain[OF rest chain_start]] .
  moreover have "lb_sequence b0 < lb_sequence c" using bn_apply_sequence[OF c] new by (simp add: covered_def)
  ultimately show thesis using that b0 chain by simp
qed

section \<open>One connection and the events it received\<close>

definition bn_received :: "depth_event stream_config \<Rightarrow> stream_input \<Rightarrow> binance_connection \<Rightarrow> depth_event list" where
  "bn_received cfg i c =
     (if c = Bn_Connecting then [] else case bn_next cfg i of Next_Event e \<Rightarrow> [e] | _ \<Rightarrow> [])"

inductive bn_path :: "depth_event stream_config \<Rightarrow> depth_event list \<Rightarrow> order_book_snapshot option \<Rightarrow> binance_connection \<Rightarrow> bool"
  for cfg where
  path_start: "bn_path cfg [] None Bn_Connecting"
| path_fetched: "bn_path cfg es None c \<Longrightarrow> bn_step cfg clock (Depth_Fetched (Inr s)) c p = (Open c', p') \<Longrightarrow>
    c = Bn_Fetching bs \<Longrightarrow> bn_path cfg es (Some s) c'"
| path_read: "bn_path cfg es so c \<Longrightarrow> bn_step cfg clock i c p = (Open c', p') \<Longrightarrow>
    (\<forall>bs. c \<noteq> Bn_Fetching bs) \<or> (\<forall>s. i \<noteq> Depth_Fetched (Inr s)) \<Longrightarrow> bn_path cfg (es @ bn_received cfg i c) so c'"

definition path_inv :: "depth_event stream_config \<Rightarrow> depth_event list \<Rightarrow> order_book_snapshot option \<Rightarrow> binance_connection \<Rightarrow> bool" where
  "path_inv cfg es so c = (case c of
     Bn_Connecting \<Rightarrow> es = [] \<and> so = None
   | Bn_First \<Rightarrow> es = [] \<and> so = None
   | Bn_Fetching bs \<Rightarrow> bs = es \<and> so = None
   | Bn_Successor s bs \<Rightarrow> bs = es \<and> so = Some s
   | Bn_Live b \<Rightarrow> \<exists>s b0. so = Some s \<and> from_snapshot s = Inr b0 \<and> bn_chain (sx_parse cfg) b0 es b
       \<and> lb_sequence b0 < lb_sequence b)"

lemma bn_bridge_inv:
  assumes "bn_bridge cfg clock s es p = (Open c', p')"
  shows "path_inv cfg es (Some s) c'"
proof (cases "es = [] \<or> bd_final_update_id (last es) \<le> ob_sequence s")
  case True
  then show ?thesis using assms by (auto simp: bn_bridge_def path_inv_def)
next
  case False
  then have "bn_publish cfg (bridge_snapshot (sx_parse cfg) clock s es (sx_symbol cfg)) p = (Open c', p')"
    using assms by (simp add: bn_bridge_def)
  from bn_publish_cases[OF this] obtain b where b: "bridge_snapshot (sx_parse cfg) clock s es (sx_symbol cfg) = Inr b"
    "c' = Bn_Live b" by (auto simp: ended_by_def)
  from b(1) show ?thesis by (rule bridge_snapshot_chain) (auto simp: path_inv_def b(2))
qed

lemma bn_follow_inv:
  assumes "bn_follow cfg clock e b p = (Open c', p')" "path_inv cfg es so (Bn_Live b)"
  shows "path_inv cfg (es @ [e]) so c'"
proof -
  from assms(2) obtain s b0 where s: "so = Some s" "from_snapshot s = Inr b0"
    and chain: "bn_chain (sx_parse cfg) b0 es b" and less: "lb_sequence b0 < lb_sequence b"
    by (auto simp: path_inv_def)
  show ?thesis
  proof (cases "bd_final_update_id e \<le> lb_sequence b")
    case True
    then show ?thesis using assms(1) s chain_skip[OF chain True] less by (auto simp: bn_follow_def path_inv_def)
  next
    case False
    then obtain b' where b': "bn_apply (sx_parse cfg) (clock 0) e b = Inr b'" "c' = Bn_Live b'"
      and first: "bd_first_update_id e \<le> saturating_add (lb_sequence b) 1"
      using assms(1) by (auto simp: bn_follow_def ended_by_def not_less dest!: bn_publish_cases split: if_splits)
    have "bn_chain (sx_parse cfg) b0 (es @ [e]) b'" using chain_apply[OF chain _ first b'(1)] False by simp
    moreover have "lb_sequence b0 < lb_sequence b'" using less False bn_apply_sequence[OF b'(1)] by simp
    ultimately show ?thesis using s b'(2) by (auto simp: path_inv_def)
  qed
qed

lemma bn_read_inv:
  assumes "bn_read cfg clock i c p = (Open c', p')" "path_inv cfg es so c" "c \<noteq> Bn_Connecting"
  shows "path_inv cfg (es @ bn_received cfg i c) so c'"
proof (cases "bn_next cfg i")
  case (Next_Event e)
  then have ev: "bn_event cfg clock e c p = (Open c', p')" using assms(1) by (simp add: bn_read_def)
  have rec: "bn_received cfg i c = [e]" using Next_Event assms(3) by (simp add: bn_received_def)
  show ?thesis
  proof (cases c)
    case (Bn_Successor s bs)
    then have "bn_bridge cfg clock s (es @ [e]) p = (Open c', p')" "so = Some s"
      using ev assms(2) by (simp_all add: bn_event_def path_inv_def)
    then show ?thesis using bn_bridge_inv rec by simp
  next
    case (Bn_Live b)
    then show ?thesis using ev assms(2) bn_follow_inv rec by (simp add: bn_event_def)
  qed (use ev assms rec in \<open>auto simp: bn_event_def path_inv_def\<close>)
qed (use assms in \<open>auto simp: bn_read_def bn_received_def ended_by_def\<close>)

lemma bn_path_inv: "bn_path cfg es so c \<Longrightarrow> path_inv cfg es so c"
proof (induction rule: bn_path.induct)
  case (path_fetched es c clock s p c' p' bs)
  then have "bn_bridge cfg clock s es p = (Open c', p')" by (simp add: bn_step_def path_inv_def)
  then show ?case by (rule bn_bridge_inv)
next
  case (path_read es so c clock i p c' p')
  show ?case
  proof (cases "c = Bn_Connecting")
    case True
    then show ?thesis using path_read
      by (cases i) (auto simp: bn_step_def path_inv_def bn_received_def ended_by_def split: sum.splits)
  next
    case False
    then have "bn_read cfg clock i c p = (Open c', p')"
      using path_read by (cases c; cases i) (auto simp: bn_step_def ended_by_def split: sum.splits)
    then show ?thesis using path_read.IH False by (rule bn_read_inv)
  qed
qed (simp add: path_inv_def)

section \<open>Properties\<close>

text \<open>C23. A book that is followed is the fetched snapshot with every event received on the connection
  applied or already covered, in order, and no update id between the snapshot and the book is missing.\<close>

theorem binance_book_has_no_gap:
  assumes "bn_path cfg es so (Bn_Live b)"
  shows "\<exists>s b0. so = Some s \<and> from_snapshot s = Inr b0 \<and> bn_chain (sx_parse cfg) b0 es b
    \<and> unat (ob_sequence s) < unat (lb_sequence b)
    \<and> (\<forall>k \<in> {unat (ob_sequence s) <.. unat (lb_sequence b)}.
          \<exists>e \<in> set es. unat (bd_first_update_id e) \<le> k \<and> k \<le> unat (bd_final_update_id e))"
proof -
  obtain s b0 where s: "so = Some s" "from_snapshot s = Inr b0" "bn_chain (sx_parse cfg) b0 es b"
    "lb_sequence b0 < lb_sequence b"
    using bn_path_inv[OF assms] by (auto simp: path_inv_def)
  have "lb_sequence b0 = ob_sequence s" using s(2) by (auto simp: from_snapshot_def)
  then show ?thesis using s bn_chain_covers[OF s(3)] by (auto simp: word_less_nat_alt)
qed

section \<open>Witnesses\<close>

definition bn_sample_event :: "u64 \<Rightarrow> u64 \<Rightarrow> depth_event" where
  "bn_sample_event first final = \<lparr>bd_event_time = 2, bd_symbol = ''BTCUSDT'', bd_first_update_id = first,
     bd_final_update_id = final, bd_bids = [], bd_asks = []\<rparr>"

definition bn_sample :: "depth_event stream_config" where
  "bn_sample = \<lparr>sx_decode = (\<lambda>t. if t = ''a'' then Some (bn_sample_event 6 7)
       else if t = ''b'' then Some (bn_sample_event 8 10) else None),
     sx_parse = (\<lambda>_. None), sx_symbol = ''BTCUSDT'', sx_depth = 1\<rparr>"

text \<open>An event the snapshot covers, the snapshot of update 7, and the event of updates 8 to 10.\<close>

definition bn_sample_book :: local_order_book where
  "bn_sample_book = \<lparr>lb_venue = ''binance'', lb_symbol = ''BTCUSDT'', lb_bids = [(98, 5), (99, 2)],
     lb_asks = [(100, 1), (102, 3)], lb_sequence = 10, lb_source_timestamp_ms = Some 2, lb_received_timestamp_ms = 5\<rparr>"

lemma bn_sample_path:
  "bn_path bn_sample [bn_sample_event 6 7, bn_sample_event 8 10] (Some sample_book) (Bn_Live bn_sample_book)"
proof -
  let ?p = "channel ''binance'' ''BTCUSDT''" and ?a = "bn_sample_event 6 7" and ?b = "bn_sample_event 8 10"
  have "bn_path bn_sample ([] @ bn_received bn_sample (Connected (Inr ())) Bn_Connecting) None Bn_First"
    by (rule path_read[OF path_start, of _ "\<lambda>_. 5" _ ?p _ ?p]) (simp_all add: bn_step_def)
  then have first: "bn_path bn_sample [] None Bn_First" by (simp add: bn_received_def)
  have "bn_path bn_sample ([] @ bn_received bn_sample (Text_Frame ''a'') Bn_First) None (Bn_Fetching [?a])"
    by (rule path_read[OF first, of "\<lambda>_. 5" _ ?p _ ?p])
      (simp_all add: bn_step_def bn_read_def bn_next_def bn_sample_def bn_sample_event_def bn_event_def)
  then have buffered: "bn_path bn_sample [?a] None (Bn_Fetching [?a])"
    by (simp add: bn_received_def bn_next_def bn_sample_def bn_sample_event_def)
  have fetched: "bn_path bn_sample [?a] (Some sample_book) (Bn_Successor sample_book [?a])"
    by (rule path_fetched[OF buffered, of "\<lambda>_. 5" _ ?p _ ?p])
      (simp_all add: bn_step_def bn_bridge_def bn_sample_event_def sample_book_def)
  have step: "fst (bn_step bn_sample (\<lambda>_. 5) (Text_Frame ''b'') (Bn_Successor sample_book [?a]) ?p)
      = Open (Bn_Live bn_sample_book)" by code_simp
  then have "bn_path bn_sample ([?a] @ bn_received bn_sample (Text_Frame ''b'') (Bn_Successor sample_book [?a]))
      (Some sample_book) (Bn_Live bn_sample_book)"
    by (intro path_read[OF fetched, of "\<lambda>_. 5" _ ?p _ "snd (bn_step bn_sample (\<lambda>_. 5) (Text_Frame ''b'') (Bn_Successor sample_book [?a]) ?p)"])
      (simp_all add: prod_eq_iff)
  then show ?thesis by (simp add: bn_received_def bn_next_def bn_sample_def bn_sample_event_def)
qed

lemma binance_book_has_no_gap_witness:
  "\<exists>s b0. Some sample_book = Some s \<and> from_snapshot s = Inr b0 \<and> unat (ob_sequence s) < unat (lb_sequence bn_sample_book)"
  using binance_book_has_no_gap[OF bn_sample_path] by blast

end
