(* ===== verification/Json_Values.thy ===== *)
theory Json_Values
  imports Prelude
begin

text \<open>
  Reading a JSON value the way the agent modules and the streams do: the member of an object, the
  accessors \<open>as_str\<close>, \<open>as_array\<close>, \<open>as_object\<close>, \<open>as_u64\<close> and \<open>as_i64\<close>. A number is its text; the members
  of an object are listed in the order its map iterates. The clauses state the documented behaviour of
  those accessors.
\<close>

definition json_member :: "string \<Rightarrow> json \<Rightarrow> json option" where
  "json_member k v = (case v of JObject ms \<Rightarrow> map_of ms k | _ \<Rightarrow> None)"

definition json_str :: "json \<Rightarrow> string option" where
  "json_str v = (case v of JString s \<Rightarrow> Some s | _ \<Rightarrow> None)"

definition json_array :: "json \<Rightarrow> json list option" where
  "json_array v = (case v of JArray vs \<Rightarrow> Some vs | _ \<Rightarrow> None)"

definition json_object :: "json \<Rightarrow> (string \<times> json) list option" where
  "json_object v = (case v of JObject ms \<Rightarrow> Some ms | _ \<Rightarrow> None)"

definition all_digits :: "string \<Rightarrow> bool" where
  "all_digits s \<longleftrightarrow> s \<noteq> [] \<and> list_all is_digit s"

definition json_u64 :: "json \<Rightarrow> u64 option" where
  "json_u64 v = (case v of
     JNumber s \<Rightarrow> if all_digits s \<and> read_nat 0 s < 2 ^ 64 then Some (of_nat (read_nat 0 s)) else None
   | _ \<Rightarrow> None)"

definition json_i64 :: "json \<Rightarrow> int option" where
  "json_i64 v = (case v of
     JNumber (c # s) \<Rightarrow>
       if c = CHR ''-''
       then (if all_digits s \<and> 0 < read_nat 0 s \<and> read_nat 0 s \<le> 2 ^ 63 then Some (- int (read_nat 0 s)) else None)
       else (if all_digits (c # s) \<and> read_nat 0 (c # s) < 2 ^ 63 then Some (int (read_nat 0 (c # s))) else None)
   | _ \<Rightarrow> None)"

text \<open>\<open>get(k).and_then(as_str)\<close> and its default, the empty string.\<close>

definition member_str :: "string \<Rightarrow> json \<Rightarrow> string option" where
  "member_str k v = Option.bind (json_member k v) json_str"

definition str_or_empty :: "string option \<Rightarrow> string" where
  "str_or_empty s = (case s of None \<Rightarrow> [] | Some t \<Rightarrow> t)"

definition member_array :: "string \<Rightarrow> json \<Rightarrow> json list" where
  "member_array k v = (case Option.bind (json_member k v) json_array of None \<Rightarrow> [] | Some vs \<Rightarrow> vs)"

text \<open>\<open>filter_map(as_str)\<close>.\<close>

definition strings_of :: "json list \<Rightarrow> string list" where
  "strings_of vs = List.map_filter json_str vs"

definition join_with :: "string \<Rightarrow> string list \<Rightarrow> string" where
  "join_with sep ss = concat (case ss of [] \<Rightarrow> [] | s # rest \<Rightarrow> s # map (\<lambda>t. sep @ t) rest)"

lemma json_accessors [simp]:
  "json_member k (JObject ms) = map_of ms k" "json_str (JString s) = Some s"
  "json_array (JArray vs) = Some vs" "json_object (JObject ms) = Some ms"
  by (simp_all add: json_member_def json_str_def json_array_def json_object_def)

lemma json_member_Some: "json_member k v = Some w \<longleftrightarrow> (\<exists>ms. v = JObject ms \<and> map_of ms k = Some w)"
  by (cases v) (simp_all add: json_member_def)

lemma json_str_Some: "json_str v = Some s \<longleftrightarrow> v = JString s"
  by (cases v) (simp_all add: json_str_def)

lemma json_object_Some: "json_object v = Some ms \<longleftrightarrow> v = JObject ms"
  by (cases v) (simp_all add: json_object_def)

lemma strings_of_strings [simp]: "strings_of (map JString ss) = ss"
  by (induction ss) (simp_all add: strings_of_def)

text \<open>An integer of 64 bits printed by the client is read back as itself.\<close>

lemma all_digits_show_nat: "all_digits (show_nat n)"
  using show_nat_digits by (auto simp: all_digits_def list_all_iff)

lemma json_i64_show_nat: "n < 2 ^ 63 \<Longrightarrow> json_i64 (JNumber (show_nat n)) = Some (int n)"
proof -
  assume n: "n < 2 ^ 63"
  obtain c s where cs: "show_nat n = c # s" using show_nat_nonempty by (cases "show_nat n") auto
  have "is_digit c" using all_digits_show_nat[of n] cs by (simp add: all_digits_def)
  then have "c \<noteq> CHR ''-''" by auto
  then show ?thesis using n all_digits_show_nat[of n] read_show_nat[of n] cs by (simp add: json_i64_def)
qed

section \<open>Files of one JSON value per line\<close>

text \<open>
  \<open>str::lines\<close>: the text is cut after each newline, and a newline with the carriage return before
  it is dropped.
\<close>

definition strip_cr :: "string \<Rightarrow> string" where
  "strip_cr s = (if s \<noteq> [] \<and> last s = CHR 0x0D then butlast s else s)"

fun text_lines_from :: "string \<Rightarrow> string \<Rightarrow> string list" where
  "text_lines_from acc [] = (if acc = [] then [] else [acc])"
| "text_lines_from acc (c # cs) =
     (if c = CHR 0x0A then strip_cr acc # text_lines_from [] cs else text_lines_from (acc @ [c]) cs)"

definition text_lines :: "string \<Rightarrow> string list" where
  "text_lines s = text_lines_from [] s"

text \<open>The lines that are not blank, with their numbers.\<close>

definition numbered_lines :: "string \<Rightarrow> (nat \<times> string) list" where
  "numbered_lines s = filter (\<lambda>(n, l). \<not> blank l) (enumerate 1 (text_lines s))"

text \<open>Appending one value: its line and a newline.\<close>

definition append_line :: "('a \<Rightarrow> string) \<Rightarrow> 'a \<Rightarrow> string \<Rightarrow> string" where
  "append_line encode x contents = contents @ encode x @ [CHR 0x0A]"

text \<open>
  What the readers rely on of the serializer: a value is read back from its own line, and that line is not
  blank and holds no line break (control characters are escaped in JSON text).
\<close>

definition line_codec :: "('a \<Rightarrow> string) \<Rightarrow> (string \<Rightarrow> 'a option) \<Rightarrow> 'a list \<Rightarrow> bool" where
  "line_codec encode decode xs \<longleftrightarrow>
     (\<forall>x \<in> set xs. decode (encode x) = Some x \<and> \<not> blank (encode x) \<and> CHR 0x0A \<notin> set (encode x) \<and> CHR 0x0D \<notin> set (encode x))"

lemma text_lines_from_line:
  "CHR 0x0A \<notin> set l \<Longrightarrow> text_lines_from acc (l @ CHR 0x0A # s) = strip_cr (acc @ l) # text_lines_from [] s"
  by (induction l arbitrary: acc) auto

lemma strip_cr_id: "CHR 0x0D \<notin> set s \<Longrightarrow> strip_cr s = s"
  by (metis last_in_set strip_cr_def)

lemma text_lines_append_lines:
  assumes "line_codec encode decode xs"
  shows "text_lines (fold (append_line encode) xs []) = map encode xs"
proof -
  have "fold (append_line encode) xs s = s @ concat (map (\<lambda>x. encode x @ [CHR 0x0A]) xs)" for s
    by (induction xs arbitrary: s) (simp_all add: append_line_def)
  moreover have "text_lines (concat (map (\<lambda>x. encode x @ [CHR 0x0A]) xs)) = map encode xs"
    using assms
  proof (induction xs)
    case (Cons x xs)
    then have "CHR 0x0A \<notin> set (encode x)" "CHR 0x0D \<notin> set (encode x)" "line_codec encode decode xs"
      by (simp_all add: line_codec_def)
    then show ?case using Cons text_lines_from_line[of "encode x" "[]"]
      by (simp add: text_lines_def strip_cr_id)
  qed (simp add: text_lines_def)
  ultimately show ?thesis by simp
qed

lemma numbered_append_lines:
  assumes "line_codec encode decode xs"
  shows "numbered_lines (fold (append_line encode) xs []) = enumerate 1 (map encode xs)"
proof -
  have "\<not> blank l" if "(n, l) \<in> set (enumerate 1 (map encode xs))" for n l
    using that assms in_set_enumerate_eq[of "(n, l)" 1 "map encode xs"] by (auto simp: line_codec_def)
  then have "\<forall>x \<in> set (enumerate 1 (map encode xs)). case x of (n, l) \<Rightarrow> \<not> blank l" by blast
  then show ?thesis
    by (simp add: numbered_lines_def text_lines_append_lines[OF assms] filter_id_conv)
qed

end
