(* ===== verification/Bybit_Stream.thy ===== *)
theory Bybit_Stream
  imports Binance_Stream Json_Values
begin

text \<open>
  The connection of \<open>venues/bybit_stream.rs\<close>: after the subscription the venue sends a snapshot
  and deltas on one topic; a frame whose cross sequence does not advance is ignored, a new
  snapshot replaces the book. Reading JSON, decoding an event and parsing decimals are parameters.
  The feeds of both venues are compared at the end.
\<close>

section \<open>Data\<close>

datatype event_type = Snapshot_Event | Delta_Event

record order_book_event =
  be_topic :: string
  be_message_type :: event_type
  be_ts :: u64
  be_s :: string
  be_b :: "(string \<times> string) list"
  be_a :: "(string \<times> string) list"
  be_u :: u64
  be_seq :: u64
  be_cts :: "u64 option"

record bybit_config =
  bc_json :: "string \<Rightarrow> json option"
  bc_decode :: "json \<Rightarrow> order_book_event option"
  bc_parse :: "string \<Rightarrow> decimal option"
  bc_symbol :: string
  bc_depth :: nat

datatype bybit_connection =
    By_Connecting
  | By_Subscribing
  | By_Live "local_order_book option" "u64 option"

section \<open>Events\<close>

definition bybit_topic :: "bybit_config \<Rightarrow> string" where
  "bybit_topic cfg = ''orderbook.'' @ show_nat (bc_depth cfg) @ ''.'' @ bc_symbol cfg"

definition advances_cross_sequence :: "u64 option \<Rightarrow> u64 \<Rightarrow> bool" where
  "advances_cross_sequence previous q = (case previous of None \<Rightarrow> True | Some p \<Rightarrow> p < q)"

definition event_time :: "order_book_event \<Rightarrow> u64 option" where
  "event_time e = (case be_cts e of Some t \<Rightarrow> Some t | None \<Rightarrow> Some (be_ts e))"

definition snapshot_from_event :: "(string \<Rightarrow> decimal option) \<Rightarrow> u64 \<Rightarrow> order_book_event
    \<Rightarrow> (u64 \<times> order_book_snapshot) result" where
  "snapshot_from_event parse received e =
     then_do (with_context ''invalid Bybit snapshot bid'' (parse_levels parse (be_b e))) (\<lambda>bids.
     then_do (with_context ''invalid Bybit snapshot ask'' (parse_levels parse (be_a e))) (\<lambda>asks.
     let s = \<lparr>ob_venue = ''bybit'', ob_symbol = be_s e, ob_bids = bids, ob_asks = asks, ob_sequence = be_u e,
           ob_source_timestamp_ms = event_time e, ob_received_timestamp_ms = received\<rparr>
     in then_do (validate s) (\<lambda>_. Inr (be_seq e, s))))"

definition by_delta :: "(string \<Rightarrow> decimal option) \<Rightarrow> u64 \<Rightarrow> order_book_event \<Rightarrow> local_order_book
    \<Rightarrow> local_order_book result" where
  "by_delta parse received e b =
     then_do (with_context ''invalid Bybit bid update'' (parse_updates parse (be_b e))) (\<lambda>bids.
     then_do (with_context ''invalid Bybit ask update'' (parse_updates parse (be_a e))) (\<lambda>asks.
     case apply_updates b bids asks (be_u e) (event_time e) received of
       (Inl x, _) \<Rightarrow> Inl x | (Inr _, b') \<Rightarrow> Inr b'))"

definition by_apply :: "(string \<Rightarrow> decimal option) \<Rightarrow> u64 \<Rightarrow> order_book_event \<Rightarrow> local_order_book option \<Rightarrow> u64 option
    \<Rightarrow> (local_order_book \<times> u64) result" where
  "by_apply parse received e book last_seq =
     (case be_message_type e of
        Snapshot_Event \<Rightarrow> then_do (snapshot_from_event parse received e) (\<lambda>(q, s).
          then_do (from_snapshot s) (\<lambda>b. Inr (b, q)))
      | Delta_Event \<Rightarrow> (case (last_seq, book) of
          (Some _, Some b) \<Rightarrow> then_do (by_delta parse received e b) (\<lambda>b. Inr (b, be_seq e))
        | _ \<Rightarrow> Inl (Bail ''Bybit delta arrived before snapshot'')))"

section \<open>The connection\<close>

definition by_event :: "bybit_config \<Rightarrow> (nat \<Rightarrow> u64) \<Rightarrow> order_book_event \<Rightarrow> local_order_book option \<Rightarrow> u64 option
    \<Rightarrow> feed_publisher \<Rightarrow> bybit_connection connection \<times> feed_publisher" where
  "by_event cfg clock e book last_seq p =
     (case then_do (by_apply (bc_parse cfg) (clock 0) e book last_seq) (\<lambda>(b, q).
           then_do (snapshot (bc_depth cfg) b) (\<lambda>s. Inr (b, q, s))) of
        Inl x \<Rightarrow> (ended_by x, p)
      | Inr (b, q, s) \<Rightarrow> (Open (By_Live (Some b) (Some q)), valid s p))"

text \<open>What a text frame is: an error, a control message, or an event of the topic.\<close>

definition by_frame :: "bybit_config \<Rightarrow> string \<Rightarrow> order_book_event option result" where
  "by_frame cfg text = (case bc_json cfg text of
     None \<Rightarrow> Inl (Bail ''invalid JSON'')
   | Some v \<Rightarrow>
       if json_member ''topic'' v = None
       then if json_member ''success'' v = Some (JBool False)
            then Inl (Bail ''Bybit control message rejected'') else Inr None
       else (case bc_decode cfg v of
         None \<Rightarrow> Inl (Bail ''invalid Bybit order book event'')
       | Some e \<Rightarrow> if be_topic e \<noteq> bybit_topic cfg \<or> be_s e \<noteq> bc_symbol cfg
           then Inl (Bail ''Bybit stream topic or symbol mismatch'') else Inr (Some e)))"

definition by_text :: "bybit_config \<Rightarrow> (nat \<Rightarrow> u64) \<Rightarrow> string \<Rightarrow> local_order_book option \<Rightarrow> u64 option
    \<Rightarrow> feed_publisher \<Rightarrow> bybit_connection connection \<times> feed_publisher" where
  "by_text cfg clock text book last_seq p = (case by_frame cfg text of
     Inl e \<Rightarrow> (ended_by e, p)
   | Inr None \<Rightarrow> (Open (By_Live book last_seq), p)
   | Inr (Some e) \<Rightarrow>
       if advances_cross_sequence last_seq (be_seq e) then by_event cfg clock e book last_seq p
       else (Open (By_Live book last_seq), p))"

definition by_step :: "bybit_config \<Rightarrow> bybit_connection connection_step" where
  "by_step cfg clock i c p = (case c of
     By_Connecting \<Rightarrow> (case i of
        Connected (Inr _) \<Rightarrow> (Open By_Subscribing, p) | Connected (Inl e) \<Rightarrow> (ended_by e, p) | _ \<Rightarrow> (Open c, p))
   | By_Subscribing \<Rightarrow> (case i of
        Subscribed (Inr _) \<Rightarrow> (Open (By_Live None None), p) | Subscribed (Inl e) \<Rightarrow> (ended_by e, p) | _ \<Rightarrow> (Open c, p))
   | By_Live book last_seq \<Rightarrow> (case i of
        Reconnect_Command \<Rightarrow> (ended_by (Bail ''forced reconnect''), p)
      | Commands_Dropped \<Rightarrow> (Ended (Inr ()), p)
      | Heartbeat (Inl e) \<Rightarrow> (ended_by e, p)
      | Deadline \<Rightarrow> (Ended (Inl (Stale_Feed ''Bybit order book received no snapshot or delta'')), p)
      | Text_Frame t \<Rightarrow> by_text cfg clock t book last_seq p
      | Ping_Frame (Inl e) \<Rightarrow> (ended_by e, p)
      | Close_Frame \<Rightarrow> (Ended (Inr ()), p)
      | Stream_End \<Rightarrow> (Ended (Inr ()), p)
      | Transport_Error m \<Rightarrow> (Ended (Inl (Stream_Error m)), p)
      | _ \<Rightarrow> (Open c, p)))"

definition by_live :: "bybit_config \<Rightarrow> bybit_connection \<Rightarrow> order_book_snapshot option" where
  "by_live cfg c = (case c of
     By_Live (Some b) _ \<Rightarrow> (case snapshot (bc_depth cfg) b of Inl _ \<Rightarrow> None | Inr s \<Rightarrow> Some s) | _ \<Rightarrow> None)"

definition by_subscribe :: "bybit_config \<Rightarrow> ((nat \<Rightarrow> u64) \<times> stream_input) list \<Rightarrow> bybit_connection feed_task" where
  "by_subscribe cfg is = feed_run ''Bybit'' By_Connecting (by_step cfg) ''bybit'' (bc_symbol cfg) is"

section \<open>The interface\<close>

lemma by_event_cases:
  assumes "by_event cfg clock e book q p = (r, p')"
  shows "(\<exists>x. r = ended_by x \<and> p' = p)
    \<or> (\<exists>b q' s. by_apply (bc_parse cfg) (clock 0) e book q = Inr (b, q') \<and> snapshot (bc_depth cfg) b = Inr s
        \<and> r = Open (By_Live (Some b) (Some q')) \<and> p' = valid s p)"
  using assms by (auto simp: by_event_def split: sum.splits prod.splits)

lemma by_text_cases:
  assumes "by_text cfg clock t book q p = (r, p')"
  shows "(\<exists>x. r = ended_by x \<and> p' = p) \<or> (r = Open (By_Live book q) \<and> p' = p)
    \<or> (\<exists>e b q' s. by_frame cfg t = Inr (Some e) \<and> advances_cross_sequence q (be_seq e)
        \<and> by_apply (bc_parse cfg) (clock 0) e book q = Inr (b, q') \<and> snapshot (bc_depth cfg) b = Inr s
        \<and> r = Open (By_Live (Some b) (Some q')) \<and> p' = valid s p)"
  using assms by (auto simp: by_text_def dest!: by_event_cases split: sum.splits option.splits if_splits)

lemma bybit_connection_laws: "book_connection By_Connecting (by_step cfg) (by_live cfg)"
proof
  show "by_live cfg By_Connecting = None" by (simp add: by_live_def)
next
  fix clock i c p c' p' assume run: "by_step cfg clock i c p = (Open c', p')"
  show "(p' = p \<and> by_live cfg c' = by_live cfg c) \<or> (\<exists>s. p' = valid s p \<and> by_live cfg c' = Some s)"
  proof (cases c)
    case (By_Live book q)
    then show ?thesis using run
      by (cases i) (auto simp: by_step_def ended_by_def by_live_def dest!: by_text_cases split: sum.splits)
  qed (use run in \<open>cases i; auto simp: by_step_def by_live_def ended_by_def split: sum.splits\<close>)+
next
  fix clock i c p r p' assume run: "by_step cfg clock i c p = (Ended r, p')"
  show "p' = p"
    using run by (cases c; cases i)
      (auto simp: by_step_def ended_by_def dest!: by_text_cases split: sum.splits)
qed

interpretation bybit: book_connection By_Connecting "by_step cfg" "by_live cfg" for cfg
  by (rule bybit_connection_laws)

text \<open>C25. Whatever came in, the state a reader of either feed sees is that of the current connection. Once that
  connection has a book, the reader sees VALID and exactly that book; while it has none yet, SYNCING; and between two
  connections STALE or INVALID. The generation counts the connections, one more than the reconnects.\<close>

theorem feeds_show_live_books:
  "(let t = bn_subscribe cfg is; f = fp_channel (ft_publisher t) in
      (case ft_phase t of
         Streaming c \<Rightarrow> (case bn_live cfg c of
           None \<Rightarrow> bf_state f = Syncing | Some s \<Rightarrow> bf_state f = Valid \<and> bf_snapshot f = Some s)
       | _ \<Rightarrow> bf_state f \<in> {Stale, Invalid})
      \<and> bf_generation f = bf_reconnects f + 1)
   \<and> (let t = by_subscribe cfg' is'; f = fp_channel (ft_publisher t) in
      (case ft_phase t of
         Streaming c \<Rightarrow> (case by_live cfg' c of
           None \<Rightarrow> bf_state f = Syncing | Some s \<Rightarrow> bf_state f = Valid \<and> bf_snapshot f = Some s)
       | _ \<Rightarrow> bf_state f \<in> {Stale, Invalid})
      \<and> bf_generation f = bf_reconnects f + 1)"
  unfolding bn_subscribe_def by_subscribe_def Let_def
  by (intro conjI bn.channel_shows_connection bybit.channel_shows_connection)

section \<open>Which events make the book\<close>

text \<open>The events that raise the cross sequence, and the sequence they reach.\<close>

fun records_of :: "u64 option \<Rightarrow> order_book_event list \<Rightarrow> order_book_event list" where
  "records_of q [] = []"
| "records_of q (e # es) =
     (if advances_cross_sequence q (be_seq e) then e # records_of (Some (be_seq e)) es else records_of q es)"

definition top_sequence :: "u64 option \<Rightarrow> order_book_event list \<Rightarrow> u64 option" where
  "top_sequence q es = fold (\<lambda>e q. if advances_cross_sequence q (be_seq e) then Some (be_seq e) else q) es q"

lemma records_of_snoc:
  "records_of q (es @ [e]) = records_of q es @ (if advances_cross_sequence (top_sequence q es) (be_seq e) then [e] else [])"
  by (induction es arbitrary: q) (auto simp: top_sequence_def)

lemma top_sequence_snoc:
  "top_sequence q (es @ [e]) = (if advances_cross_sequence (top_sequence q es) (be_seq e) then Some (be_seq e)
     else top_sequence q es)"
  by (simp add: top_sequence_def)

lemma top_sequence_None: "top_sequence None es = None \<longleftrightarrow> es = []"
proof (induction es rule: rev_induct)
  case (snoc e es)
  then show ?case by (cases "es = []") (auto simp: top_sequence_snoc top_sequence_def advances_cross_sequence_def)
qed (simp add: top_sequence_def)

lemma top_sequence_max:
  "top_sequence None es = Some q \<Longrightarrow> (\<exists>e \<in> set es. be_seq e = q) \<and> (\<forall>e \<in> set es. be_seq e \<le> q)"
proof (induction es arbitrary: q rule: rev_induct)
  case (snoc e es)
  show ?case
  proof (cases "top_sequence None es")
    case None
    then have "es = []" by (simp add: top_sequence_None)
    with snoc.prems show ?thesis by (simp add: top_sequence_def advances_cross_sequence_def)
  next
    case (Some t)
    with snoc.IH[OF Some] snoc.prems show ?thesis
      by (fastforce simp: top_sequence_snoc advances_cross_sequence_def split: if_splits)
  qed
qed (simp add: top_sequence_def)

text \<open>The book a sequence of events stands for: the last snapshot and the deltas after it.\<close>

inductive by_chain :: "(string \<Rightarrow> decimal option) \<Rightarrow> order_book_event list \<Rightarrow> local_order_book \<Rightarrow> bool" for parse where
  by_snapshot: "be_message_type e = Snapshot_Event \<Longrightarrow> snapshot_from_event parse received e = Inr (q, s) \<Longrightarrow>
    from_snapshot s = Inr b \<Longrightarrow> by_chain parse (rs @ [e]) b"
| by_update: "by_chain parse rs b \<Longrightarrow> be_message_type e = Delta_Event \<Longrightarrow> by_delta parse received e b = Inr b' \<Longrightarrow>
    by_chain parse (rs @ [e]) b'"

definition by_received :: "bybit_config \<Rightarrow> stream_input \<Rightarrow> bybit_connection \<Rightarrow> order_book_event list" where
  "by_received cfg i c = (case (c, i) of
     (By_Live _ _, Text_Frame t) \<Rightarrow> (case by_frame cfg t of Inr (Some e) \<Rightarrow> [e] | _ \<Rightarrow> []) | _ \<Rightarrow> [])"

inductive by_path :: "bybit_config \<Rightarrow> order_book_event list \<Rightarrow> bybit_connection \<Rightarrow> bool" for cfg where
  by_start: "by_path cfg [] By_Connecting"
| by_taken: "by_path cfg es c \<Longrightarrow> by_step cfg clock i c p = (Open c', p') \<Longrightarrow>
    by_path cfg (es @ by_received cfg i c) c'"

definition by_inv :: "bybit_config \<Rightarrow> order_book_event list \<Rightarrow> bybit_connection \<Rightarrow> bool" where
  "by_inv cfg es c = (case c of
     By_Live book q \<Rightarrow> q = top_sequence None es
       \<and> (case book of None \<Rightarrow> es = [] | Some b \<Rightarrow> by_chain (bc_parse cfg) (records_of None es) b)
   | _ \<Rightarrow> es = [])"

lemma by_apply_chain:
  assumes "by_apply parse t e book q = Inr (b, q')" "\<And>b0. book = Some b0 \<Longrightarrow> by_chain parse rs b0"
  shows "q' = be_seq e \<and> by_chain parse (rs @ [e]) b"
proof (cases "be_message_type e")
  case Snapshot_Event
  then obtain s where s: "snapshot_from_event parse t e = Inr (q', s)" "from_snapshot s = Inr b"
    using assms(1) by (auto simp: by_apply_def)
  then have "q' = be_seq e" by (auto simp: snapshot_from_event_def Let_def)
  with by_snapshot[OF Snapshot_Event s] show ?thesis by simp
next
  case Delta_Event
  then obtain b1 where "book = Some b1" "by_delta parse t e b1 = Inr b" "q' = be_seq e"
    using assms(1) by (auto simp: by_apply_def split: option.splits)
  then show ?thesis using by_update[OF assms(2) Delta_Event] by simp
qed

lemma by_path_inv: "by_path cfg es c \<Longrightarrow> by_inv cfg es c"
proof (induction rule: by_path.induct)
  case (by_taken es c clock i p c' p')
  show ?case
  proof (cases c)
    case (By_Live book q)
    have same: "by_inv cfg es (By_Live book q)" using by_taken.IH By_Live by simp
    show ?thesis
    proof (cases "\<exists>t. i = Text_Frame t")
      case True
      then obtain t where t: "i = Text_Frame t" ..
      have run: "by_text cfg clock t book q p = (Open c', p')" using by_taken.hyps(2) By_Live t by (simp add: by_step_def)
      show ?thesis
      proof (cases "by_frame cfg t")
        case (Inr o1)
        show ?thesis
        proof (cases o1)
          case (Some e)
          have rec: "by_received cfg i c = [e]" using By_Live t Inr Some by (simp add: by_received_def)
          show ?thesis
          proof (cases "advances_cross_sequence q (be_seq e)")
            case True
            then have "by_event cfg clock e book q p = (Open c', p')" using run Inr Some by (simp add: by_text_def)
            from by_event_cases[OF this] obtain b q' where
              app: "by_apply (bc_parse cfg) (clock 0) e book q = Inr (b, q')" and c': "c' = By_Live (Some b) (Some q')"
              by (auto simp: ended_by_def)
            have "q' = be_seq e \<and> by_chain (bc_parse cfg) (records_of None es @ [e]) b"
              by (rule by_apply_chain[OF app]) (use same in \<open>simp add: by_inv_def\<close>)
            then show ?thesis using same True by (simp add: rec c' by_inv_def records_of_snoc top_sequence_snoc)
          next
            case False
            then have "c' = By_Live book q" using run Inr Some by (simp add: by_text_def)
            moreover have "es \<noteq> []" using same False
              by (auto simp: by_inv_def top_sequence_def advances_cross_sequence_def)
            then have "book \<noteq> None" using same by (cases book) (simp_all add: by_inv_def)
            ultimately show ?thesis using same False
              by (auto simp: rec by_inv_def records_of_snoc top_sequence_snoc)
          qed
        next
          case None
          then have "c' = By_Live book q" using run Inr by (simp add: by_text_def)
          moreover have "by_received cfg i c = []" using By_Live t Inr None by (simp add: by_received_def)
          ultimately show ?thesis using same by simp
        qed
      qed (use run in \<open>simp add: by_text_def ended_by_def\<close>)
    next
      case False
      then have "by_received cfg i c = []" by (cases i; cases c) (auto simp: by_received_def)
      moreover have "c' = c" using by_taken.hyps(2) By_Live False
        by (cases i) (auto simp: by_step_def ended_by_def split: sum.splits)
      ultimately show ?thesis using by_taken.IH by simp
    qed
  qed (use by_taken in \<open>cases i; auto simp: by_step_def by_inv_def by_received_def ended_by_def top_sequence_def split: sum.splits\<close>)+
qed (simp add: by_inv_def)

text \<open>C24. A book the Bybit connection follows is the last snapshot with the deltas after it, counting only
  the events that raised the cross sequence; the sequence it keeps is the highest received.\<close>

theorem bybit_book_from_records:
  assumes "by_path cfg es (By_Live (Some b) q)"
  shows "by_chain (bc_parse cfg) (records_of None es) b
    \<and> (\<exists>e \<in> set es. q = Some (be_seq e) \<and> (\<forall>e' \<in> set es. be_seq e' \<le> be_seq e))"
proof -
  have inv: "by_inv cfg es (By_Live (Some b) q)" using assms by (rule by_path_inv)
  then have chain: "by_chain (bc_parse cfg) (records_of None es) b" and q: "q = top_sequence None es"
    by (simp_all add: by_inv_def)
  have "es \<noteq> []" using chain by (auto elim: by_chain.cases)
  then obtain t where "top_sequence None es = Some t" using top_sequence_None by (cases "top_sequence None es") auto
  from top_sequence_max[OF this] chain q this show ?thesis by auto
qed

section \<open>Witness\<close>

definition by_sample_event :: "event_type \<Rightarrow> u64 \<Rightarrow> (string \<times> string) list \<Rightarrow> order_book_event" where
  "by_sample_event ty q bids = \<lparr>be_topic = ''orderbook.1.B'', be_message_type = ty, be_ts = 9, be_s = ''B'', be_b = bids,
     be_a = [(''2'', ''1'')], be_u = 3, be_seq = q, be_cts = None\<rparr>"

text \<open>A snapshot, and a delta that came too late.\<close>

definition by_sample :: bybit_config where
  "by_sample = \<lparr>bc_json = (\<lambda>t. Some (JObject [(''topic'', JString t)])),
     bc_decode = (\<lambda>v. if v = JObject [(''topic'', JString ''s'')]
       then Some (by_sample_event Snapshot_Event 5 [(''1'', ''1'')]) else Some (by_sample_event Delta_Event 4 [])),
     bc_parse = (\<lambda>t. if t = ''1'' then Some 1 else if t = ''2'' then Some 2 else None), bc_symbol = ''B'', bc_depth = 1\<rparr>"

definition by_sample_book :: local_order_book where
  "by_sample_book = \<lparr>lb_venue = ''bybit'', lb_symbol = ''B'', lb_bids = [(1, 1)], lb_asks = [(2, 1)], lb_sequence = 3,
     lb_source_timestamp_ms = Some 9, lb_received_timestamp_ms = 5\<rparr>"

lemma by_sample_steps:
  "fst (by_step by_sample (\<lambda>_. 5) (Text_Frame ''s'') (By_Live None None) (channel ''bybit'' ''B''))
     = Open (By_Live (Some by_sample_book) (Some 5))"
  "fst (by_step by_sample (\<lambda>_. 5) (Text_Frame ''d'') (By_Live (Some by_sample_book) (Some 5)) (channel ''bybit'' ''B''))
     = Open (By_Live (Some by_sample_book) (Some 5))"
  "by_received by_sample (Text_Frame ''s'') (By_Live None None) = [by_sample_event Snapshot_Event 5 [(''1'', ''1'')]]"
  "by_received by_sample (Text_Frame ''d'') (By_Live (Some by_sample_book) (Some 5)) = [by_sample_event Delta_Event 4 []]"
  by code_simp+

lemma by_step_path:
  "by_path cfg es c \<Longrightarrow> fst (by_step cfg clock i c p) = Open c' \<Longrightarrow> by_path cfg (es @ by_received cfg i c) c'"
  by (rule by_taken[of cfg es c clock i p c' "snd (by_step cfg clock i c p)"]) (simp_all add: prod_eq_iff)

lemma by_sample_path:
  "by_path by_sample [by_sample_event Snapshot_Event 5 [(''1'', ''1'')], by_sample_event Delta_Event 4 []]
     (By_Live (Some by_sample_book) (Some 5))"
proof -
  let ?p = "channel ''bybit'' ''B''"
  have "by_path by_sample ([] @ by_received by_sample (Connected (Inr ())) By_Connecting) By_Subscribing"
    by (rule by_step_path[OF by_start, of by_sample "\<lambda>_. 5" _ ?p]) (simp add: by_step_def)
  then have "by_path by_sample [] By_Subscribing" by (simp add: by_received_def)
  from by_step_path[OF this, of "\<lambda>_. 5" "Subscribed (Inr ())" ?p "By_Live None None"]
  have "by_path by_sample [] (By_Live None None)" by (simp add: by_step_def by_received_def)
  from by_step_path[OF this by_sample_steps(1)]
  have "by_path by_sample [by_sample_event Snapshot_Event 5 [(''1'', ''1'')]] (By_Live (Some by_sample_book) (Some 5))"
    by (simp add: by_sample_steps)
  from by_step_path[OF this by_sample_steps(2)] show ?thesis by (simp add: by_sample_steps)
qed

lemma bybit_book_from_records_witness:
  "\<exists>es. by_chain (bc_parse by_sample) (records_of None es) by_sample_book \<and> length es = 2 \<and> length (records_of None es) = 1"
proof -
  let ?es = "[by_sample_event Snapshot_Event 5 [(''1'', ''1'')], by_sample_event Delta_Event 4 []]"
  have "length (records_of None ?es) = 1" by (simp add: by_sample_event_def advances_cross_sequence_def)
  then show ?thesis using bybit_book_from_records[OF by_sample_path] by (intro exI[of _ ?es]) simp
qed

end
