(* ===== verification/Venue_Rest.thy ===== *)
theory Venue_Rest
  imports Instrument
begin

text \<open>
  What the REST answers of the venues mean, \<open>venues/mod.rs\<close>, \<open>venues/binance.rs\<close> and
  \<open>venues/bybit.rs\<close>: the normalisation of an instrument and of a depth snapshot. HTTP and JSON
  decoding are done by other crates, so a decoded payload is the input; the decimal parser is a
  parameter.
\<close>

section \<open>Venues\<close>

datatype venue = Binance | Bybit

fun venue_as_str :: "venue \<Rightarrow> string" where
  "venue_as_str Binance = ''binance''"
| "venue_as_str Bybit = ''bybit''"

text \<open>\<open>to_lowercase\<close> is a parameter: it is the Unicode one.\<close>

definition venue_from_str_loose :: "(string \<Rightarrow> string) \<Rightarrow> string \<Rightarrow> venue result" where
  "venue_from_str_loose lower s =
     (if lower s = ''binance'' then Inr Binance else if lower s = ''bybit'' then Inr Bybit
      else Inl (Bail ''unsupported venue''))"

lemma venue_round_trip: "lower (venue_as_str v) = venue_as_str v \<Longrightarrow> venue_from_str_loose lower (venue_as_str v) = Inr v"
  by (cases v) (simp_all add: venue_from_str_loose_def)

section \<open>Binance\<close>

record symbol_filter =
  sf_filter_type :: string
  sf_tick_size :: "string option"
  sf_min_qty :: "string option"
  sf_max_qty :: "string option"
  sf_step_size :: "string option"
  sf_min_notional :: "string option"
  sf_max_notional :: "string option"

record symbol_info =
  sy_symbol :: string
  sy_status :: string
  sy_base_asset :: string
  sy_quote_asset :: string
  sy_order_types :: "string list"
  sy_filters :: "symbol_filter list"

record exchange_info =
  xi_server_time :: u64
  xi_symbols :: "symbol_info list"

definition required_filter :: "symbol_filter list \<Rightarrow> string \<Rightarrow> symbol_filter result" where
  "required_filter fs ty = (case find (\<lambda>f. sf_filter_type f = ty) fs of
     None \<Rightarrow> Inl (Bail ''Binance instrument omitted filter'') | Some f \<Rightarrow> Inr f)"

definition required_decimal :: "(string \<Rightarrow> decimal option) \<Rightarrow> string option \<Rightarrow> decimal result" where
  "required_decimal parse v = (case v of
     None \<Rightarrow> Inl (Bail ''Binance instrument omitted field'')
   | Some t \<Rightarrow> (case parse t of None \<Rightarrow> Inl (Bail ''Binance instrument returned invalid field'') | Some d \<Rightarrow> Inr d))"

definition optional_decimal :: "(string \<Rightarrow> decimal option) \<Rightarrow> string option \<Rightarrow> decimal option result" where
  "optional_decimal parse v = (case v of
     None \<Rightarrow> Inr None
   | Some t \<Rightarrow> (case parse t of None \<Rightarrow> Inl (Bail ''Binance instrument returned invalid field'')
       | Some d \<Rightarrow> Inr (Some d)))"

definition notional_filter :: "symbol_filter list \<Rightarrow> symbol_filter result" where
  "notional_filter fs = (case find (\<lambda>f. sf_filter_type f = ''NOTIONAL'') fs of
     Some f \<Rightarrow> Inr f
   | None \<Rightarrow> (case find (\<lambda>f. sf_filter_type f = ''MIN_NOTIONAL'') fs of
       Some f \<Rightarrow> Inr f
     | None \<Rightarrow> Inl (Bail ''Binance instrument omitted NOTIONAL/MIN_NOTIONAL filter'')))"

definition binance_order_types :: "string list \<Rightarrow> order_capability list" where
  "binance_order_types ts =
     (if ''LIMIT'' \<in> set ts then [Limit, Ioc, Fok] else [])
     @ (if ''MARKET'' \<in> set ts then [Market_Order] else [])
     @ (if ''LIMIT_MAKER'' \<in> set ts then [PostOnly] else [])"

text \<open>The identity both venues give an instrument.\<close>

definition canonical_id :: "string \<Rightarrow> string \<Rightarrow> string" where
  "canonical_id base_asset quote_asset = base_asset @ ''/'' @ quote_asset @ '':SPOT''"

definition binance_instrument :: "(string \<Rightarrow> decimal option) \<Rightarrow> exchange_info \<Rightarrow> string \<Rightarrow> instrument_spec result" where
  "binance_instrument parse payload expected =
     (case xi_symbols payload of
        [s] \<Rightarrow>
          if sy_symbol s \<noteq> expected then Inl (Bail ''Binance returned symbol, expected'')
          else then_do (required_filter (sy_filters s) ''PRICE_FILTER'') (\<lambda>price_filter.
          then_do (required_filter (sy_filters s) ''LOT_SIZE'') (\<lambda>lot_filter.
          then_do (notional_filter (sy_filters s)) (\<lambda>notional.
          then_do (required_decimal parse (sf_tick_size price_filter)) (\<lambda>tick.
          then_do (required_decimal parse (sf_step_size lot_filter)) (\<lambda>lot_step.
          then_do (required_decimal parse (sf_min_qty lot_filter)) (\<lambda>min_quantity.
          then_do (optional_decimal parse (sf_max_qty lot_filter)) (\<lambda>max_quantity.
          then_do (required_decimal parse (sf_min_notional notional)) (\<lambda>min_notional.
          then_do (optional_decimal parse (sf_max_notional notional)) (\<lambda>max_notional.
          Inr \<lparr>is_venue = ''binance'', is_account_type = ''spot'', is_venue_symbol = sy_symbol s,
            is_canonical_instrument_id = canonical_id (sy_base_asset s) (sy_quote_asset s),
            is_base_asset_id = sy_base_asset s, is_quote_asset_id = sy_quote_asset s,
            is_settlement_asset_id = sy_quote_asset s, is_market_type = ''spot'', is_contract_multiplier = 1,
            is_quantity_unit = ''base_asset'', is_price_tick = tick, is_quantity_step = lot_step,
            is_min_quantity = min_quantity, is_max_quantity = max_quantity, is_min_notional = min_notional,
            is_max_notional = max_notional,
            is_trading_status = (if sy_status s = ''TRADING'' then Trading else Unavailable (sy_status s)),
            is_supported_order_types = binance_order_types (sy_order_types s),
            is_metadata_version = xi_server_time payload\<rparr>)))))))))
      | _ \<Rightarrow> Inl (Bail ''Binance returned instruments for symbol''))"

record depth_response =
  dx_last_update_id :: u64
  dx_bids :: "(string \<times> string) list"
  dx_asks :: "(string \<times> string) list"

definition binance_snapshot :: "(string \<Rightarrow> decimal option) \<Rightarrow> u64 \<Rightarrow> string \<Rightarrow> depth_response
    \<Rightarrow> order_book_snapshot result" where
  "binance_snapshot parse now symbol d =
     then_do (parse_levels parse (dx_bids d)) (\<lambda>bids.
     then_do (parse_levels parse (dx_asks d)) (\<lambda>asks.
     let s = \<lparr>ob_venue = ''binance'', ob_symbol = symbol, ob_bids = bids, ob_asks = asks,
           ob_sequence = dx_last_update_id d, ob_source_timestamp_ms = None, ob_received_timestamp_ms = now\<rparr>
     in then_do (validate s) (\<lambda>_. Inr s)))"

section \<open>Bybit\<close>

record 'a api_response =
  ap_ret_code :: int
  ap_ret_msg :: string
  ap_result :: "'a option"
  ap_time :: u64

record lot_size_filter =
  ls_min_order_qty :: string
  ls_max_order_qty :: string
  ls_qty_step :: "string option"
  ls_base_precision :: "string option"
  ls_min_order_amt :: string
  ls_max_order_amt :: "string option"

record bybit_instrument_info =
  bi_symbol :: string
  bi_status :: string
  bi_base_coin :: string
  bi_quote_coin :: string
  bi_lot_size_filter :: lot_size_filter
  bi_tick_size :: string

record instrument_result =
  ir_category :: string
  ir_list :: "bybit_instrument_info list"

definition bybit_accepted :: "'a api_response \<Rightarrow> 'a api_response result" where
  "bybit_accepted r = (if ap_ret_code r \<noteq> 0 then Inl (Bail ''Bybit rejected request'') else Inr r)"

definition bybit_decimal :: "(string \<Rightarrow> decimal option) \<Rightarrow> string \<Rightarrow> decimal result" where
  "bybit_decimal parse v = (case parse v of
     None \<Rightarrow> Inl (Bail ''Bybit instrument returned invalid field'') | Some d \<Rightarrow> Inr d)"

definition bybit_quantity_step :: "(string \<Rightarrow> decimal option) \<Rightarrow> lot_size_filter \<Rightarrow> decimal result" where
  "bybit_quantity_step parse f =
     (case (if ls_qty_step f \<noteq> None then ls_qty_step f else ls_base_precision f) of
        None \<Rightarrow> Inl (Bail ''Bybit instrument omitted qtyStep/basePrecision'')
      | Some t \<Rightarrow> (case parse t of
          None \<Rightarrow> Inl (Bail ''Bybit instrument returned invalid quantity step'') | Some d \<Rightarrow> Inr d))"

definition bybit_instrument :: "(string \<Rightarrow> decimal option) \<Rightarrow> instrument_result api_response \<Rightarrow> string
    \<Rightarrow> instrument_spec result" where
  "bybit_instrument parse payload expected =
     (case ap_result payload of
        None \<Rightarrow> Inl (Bail ''Bybit instrument response omitted result'')
      | Some r \<Rightarrow>
        if ir_category r \<noteq> ''spot'' then Inl (Bail ''Bybit returned category, expected spot'')
        else (case ir_list r of
          [s] \<Rightarrow>
            if bi_symbol s \<noteq> expected then Inl (Bail ''Bybit returned symbol, expected'')
            else let f = bi_lot_size_filter s in
            then_do (bybit_quantity_step parse f) (\<lambda>lot_step.
            then_do (bybit_decimal parse (bi_tick_size s)) (\<lambda>tick.
            then_do (bybit_decimal parse (ls_min_order_qty f)) (\<lambda>min_quantity.
            then_do (bybit_decimal parse (ls_max_order_qty f)) (\<lambda>max_quantity.
            then_do (bybit_decimal parse (ls_min_order_amt f)) (\<lambda>min_notional.
            then_do (case ls_max_order_amt f of None \<Rightarrow> Inr None
                | Some t \<Rightarrow> then_do (bybit_decimal parse t) (\<lambda>d. Inr (Some d))) (\<lambda>max_notional.
            Inr \<lparr>is_venue = ''bybit'', is_account_type = ''spot'', is_venue_symbol = bi_symbol s,
              is_canonical_instrument_id = canonical_id (bi_base_coin s) (bi_quote_coin s),
              is_base_asset_id = bi_base_coin s, is_quote_asset_id = bi_quote_coin s,
              is_settlement_asset_id = bi_quote_coin s, is_market_type = ''spot'', is_contract_multiplier = 1,
              is_quantity_unit = ''base_asset'', is_price_tick = tick, is_quantity_step = lot_step,
              is_min_quantity = min_quantity, is_max_quantity = Some max_quantity, is_min_notional = min_notional,
              is_max_notional = max_notional,
              is_trading_status = (if bi_status s = ''Trading'' then Trading else Unavailable (bi_status s)),
              is_supported_order_types = [Limit, Market_Order, Ioc, Fok, PostOnly],
              is_metadata_version = ap_time payload\<rparr>))))))
        | _ \<Rightarrow> Inl (Bail ''Bybit returned instruments for symbol'')))"

record bybit_depth =
  bx_s :: string
  bx_b :: "(string \<times> string) list"
  bx_a :: "(string \<times> string) list"
  bx_u :: u64
  bx_cts :: "u64 option"
  bx_ts :: "u64 option"

definition bybit_snapshot :: "(string \<Rightarrow> decimal option) \<Rightarrow> u64 \<Rightarrow> string \<Rightarrow> bybit_depth api_response
    \<Rightarrow> order_book_snapshot result" where
  "bybit_snapshot parse now symbol payload =
     (case ap_result payload of
        None \<Rightarrow> Inl (Bail ''Bybit depth response omitted result'')
      | Some d \<Rightarrow>
        if bx_s d \<noteq> symbol then Inl (Bail ''Bybit returned symbol, expected'')
        else then_do (parse_levels parse (bx_b d)) (\<lambda>bids.
        then_do (parse_levels parse (bx_a d)) (\<lambda>asks.
        let s = \<lparr>ob_venue = ''bybit'', ob_symbol = bx_s d, ob_bids = bids, ob_asks = asks, ob_sequence = bx_u d,
              ob_source_timestamp_ms = (if bx_cts d \<noteq> None then bx_cts d else bx_ts d),
              ob_received_timestamp_ms = now\<rparr>
        in then_do (validate s) (\<lambda>_. Inr s))))"

definition bybit_stream_depth_ok :: "nat \<Rightarrow> unit result" where
  "bybit_stream_depth_ok n =
     (if n \<notin> {1, 50, 200, 1000} then Inl (Bail ''Bybit WebSocket depth must be one of 1, 50, 200, 1000'')
      else Inr ())"

section \<open>Properties\<close>

text \<open>What both normalisations fix, whatever the venue answers.\<close>

definition normalized :: "instrument_spec \<Rightarrow> string \<Rightarrow> bool" where
  "normalized i symbol \<longleftrightarrow> is_venue_symbol i = symbol \<and> is_account_type i = ''spot'' \<and> is_market_type i = ''spot''
     \<and> is_contract_multiplier i = 1 \<and> is_settlement_asset_id i = is_quote_asset_id i
     \<and> is_canonical_instrument_id i = canonical_id (is_base_asset_id i) (is_quote_asset_id i)
     \<and> (Ioc \<in> set (is_supported_order_types i) \<longleftrightarrow> Limit \<in> set (is_supported_order_types i))"

lemma binance_normalized: "binance_instrument parse payload symbol = Inr i \<Longrightarrow> normalized i symbol"
  by (auto simp: binance_instrument_def normalized_def binance_order_types_def split: list.splits if_splits)

lemma bybit_normalized: "bybit_instrument parse payload symbol = Inr i \<Longrightarrow> normalized i symbol"
  by (auto simp: bybit_instrument_def normalized_def Let_def split: option.splits list.splits if_splits)

text \<open>Instruments loaded from the two venues for a pair pass its validation exactly when each passes
  alone: instruments of the same assets never differ in their canonical identity.\<close>

theorem loaded_pair_validates:
  assumes "binance_instrument parse p symbol = Inr a" "bybit_instrument parse' p' symbol = Inr b"
  shows "validate_pair a b symbol base_asset quote_asset quantity = Inr () \<longleftrightarrow>
    validate_static a symbol base_asset quote_asset quantity = Inr ()
    \<and> validate_static b symbol base_asset quote_asset quantity = Inr ()"
proof -
  have "is_canonical_instrument_id a = is_canonical_instrument_id b"
    if "validate_static a symbol base_asset quote_asset quantity = Inr ()"
      "validate_static b symbol base_asset quote_asset quantity = Inr ()"
    using that binance_normalized[OF assms(1)] bybit_normalized[OF assms(2)]
    by (simp add: normalized_def validate_static_ok_iff)
  then show ?thesis by (auto simp: validate_pair_def split: if_splits)
qed

text \<open>A snapshot either venue delivers is valid and names the symbol that was asked for.\<close>

lemma rest_snapshots_valid:
  "binance_snapshot parse now symbol d = Inr s \<Longrightarrow> validate s = Inr () \<and> ob_symbol s = symbol"
  "bybit_snapshot parse now symbol payload = Inr s \<Longrightarrow> validate s = Inr () \<and> ob_symbol s = symbol"
  by (auto simp: binance_snapshot_def bybit_snapshot_def Let_def split: option.splits if_splits)

section \<open>Witness\<close>

definition "sample_parse t = (if t = ''1'' then Some 1 else if t = ''5'' then Some (5 :: decimal) else None)"

definition sample_exchange_info :: exchange_info where
  "sample_exchange_info = \<lparr>xi_server_time = 42, xi_symbols = [\<lparr>sy_symbol = ''BTCUSDT'', sy_status = ''TRADING'',
     sy_base_asset = ''BTC'', sy_quote_asset = ''USDT'', sy_order_types = [''LIMIT'', ''MARKET''],
     sy_filters = [\<lparr>sf_filter_type = ''PRICE_FILTER'', sf_tick_size = Some ''1'', sf_min_qty = None, sf_max_qty = None,
         sf_step_size = None, sf_min_notional = None, sf_max_notional = None\<rparr>,
       \<lparr>sf_filter_type = ''LOT_SIZE'', sf_tick_size = None, sf_min_qty = Some ''1'', sf_max_qty = Some ''5'',
         sf_step_size = Some ''1'', sf_min_notional = None, sf_max_notional = None\<rparr>,
       \<lparr>sf_filter_type = ''MIN_NOTIONAL'', sf_tick_size = None, sf_min_qty = None, sf_max_qty = None,
         sf_step_size = None, sf_min_notional = Some ''5'', sf_max_notional = None\<rparr>]\<rparr>]\<rparr>"

definition sample_instrument_result :: "instrument_result api_response" where
  "sample_instrument_result = \<lparr>ap_ret_code = 0, ap_ret_msg = ''OK'', ap_result = Some \<lparr>ir_category = ''spot'',
     ir_list = [\<lparr>bi_symbol = ''BTCUSDT'', bi_status = ''Trading'', bi_base_coin = ''BTC'', bi_quote_coin = ''USDT'',
       bi_lot_size_filter = \<lparr>ls_min_order_qty = ''1'', ls_max_order_qty = ''5'', ls_qty_step = None,
         ls_base_precision = Some ''1'', ls_min_order_amt = ''5'', ls_max_order_amt = None\<rparr>, bi_tick_size = ''1''\<rparr>]\<rparr>,
     ap_time = 42\<rparr>"

lemma sample_loaded:
  "\<exists>a b. binance_instrument sample_parse sample_exchange_info ''BTCUSDT'' = Inr a
     \<and> bybit_instrument sample_parse sample_instrument_result ''BTCUSDT'' = Inr b
     \<and> validate_static a ''BTCUSDT'' ''BTC'' ''USDT'' 2 = Inr () \<and> validate_static b ''BTCUSDT'' ''BTC'' ''USDT'' 2 = Inr ()"
proof -
  have "case binance_instrument sample_parse sample_exchange_info ''BTCUSDT'' of
      Inr a \<Rightarrow> validate_static a ''BTCUSDT'' ''BTC'' ''USDT'' 2 = Inr () | _ \<Rightarrow> False"
    "case bybit_instrument sample_parse sample_instrument_result ''BTCUSDT'' of
      Inr b \<Rightarrow> validate_static b ''BTCUSDT'' ''BTC'' ''USDT'' 2 = Inr () | _ \<Rightarrow> False"
    by code_simp+
  then show ?thesis by (auto split: sum.splits)
qed

lemma loaded_pair_validates_witness:
  "\<exists>a b. binance_instrument sample_parse sample_exchange_info ''BTCUSDT'' = Inr a
     \<and> bybit_instrument sample_parse sample_instrument_result ''BTCUSDT'' = Inr b
     \<and> validate_pair a b ''BTCUSDT'' ''BTC'' ''USDT'' 2 = Inr ()"
  using sample_loaded loaded_pair_validates by blast

end
