(* ===== verification/Fencing.thy ===== *)
theory Fencing
  imports Db_Common
begin

text \<open>
  Primary and standby nodes with fencing tokens, \<open>crates/core/src/fencing.rs\<close>. The hash map of
  nodes is a keyed table; its iteration order never matters. Adding a lifetime to a time wraps, as
  in a release build. The test suite of the file, whose tests do not run anything, is left out.
\<close>

section \<open>State\<close>

datatype node_role = Primary | Standby | Undefined_Role

datatype node_status = Online | Offline | Node_Failed | Recovering

record node_info =
  ni_node_id :: string
  ni_role :: node_role
  ni_status :: node_status
  ni_last_heartbeat_ms :: u64
  ni_address :: string

record fencing_token =
  tk_token_id :: string
  tk_token_value :: string
  tk_created_at_ms :: u64
  tk_expires_at_ms :: u64
  tk_creator_node_id :: string

record fencing_manager =
  fm_nodes :: "node_info list"
  fm_tokens :: "fencing_token list"
  fm_current_token :: "fencing_token option"

definition role_as_str :: "node_role \<Rightarrow> string" where
  "role_as_str r = (case r of Primary \<Rightarrow> ''PRIMARY'' | Standby \<Rightarrow> ''STANDBY'' | Undefined_Role \<Rightarrow> ''UNDEFINED'')"

definition node_status_as_str :: "node_status \<Rightarrow> string" where
  "node_status_as_str s = (case s of Online \<Rightarrow> ''ONLINE'' | Offline \<Rightarrow> ''OFFLINE'' | Node_Failed \<Rightarrow> ''FAILED''
     | Recovering \<Rightarrow> ''RECOVERING'')"

definition fencing_new :: fencing_manager where
  "fencing_new = \<lparr>fm_nodes = [], fm_tokens = [], fm_current_token = None\<rparr>"

section \<open>Operations\<close>

definition register_node :: "node_info \<Rightarrow> fencing_manager \<Rightarrow> fencing_manager" where
  "register_node n m = m\<lparr>fm_nodes :=
     (if lookup_row ni_node_id (ni_node_id n) (fm_nodes m) = None then fm_nodes m @ [n]
      else put_row ni_node_id n (fm_nodes m))\<rparr>"

definition get_node :: "string \<Rightarrow> fencing_manager \<Rightarrow> node_info option" where
  "get_node i m = lookup_row ni_node_id i (fm_nodes m)"

definition token_of :: "string \<Rightarrow> u64 \<Rightarrow> u64 \<Rightarrow> nat \<Rightarrow> fencing_token" where
  "token_of creator now_ms ttl_ms n =
     \<lparr>tk_token_id = numbered_id ''fencing'' (unat now_ms) n,
      tk_token_value = ''token-'' @ creator @ ''-'' @ show_nat (unat now_ms), tk_created_at_ms = now_ms,
      tk_expires_at_ms = now_ms + ttl_ms, tk_creator_node_id = creator\<rparr>"

definition generate_token :: "string \<Rightarrow> u64 \<Rightarrow> u64 \<Rightarrow> fencing_manager \<Rightarrow> fencing_token \<times> fencing_manager" where
  "generate_token creator now_ms ttl_ms m =
     (let t = token_of creator now_ms ttl_ms (length (fm_tokens m))
      in (t, m\<lparr>fm_tokens := fm_tokens m @ [t], fm_current_token := Some t\<rparr>))"

definition validate_token :: "string \<Rightarrow> u64 \<Rightarrow> fencing_manager \<Rightarrow> bool" where
  "validate_token token_id now_ms m = (case find (\<lambda>t. tk_token_id t = token_id) (fm_tokens m) of
     Some t \<Rightarrow> now_ms < tk_expires_at_ms t | None \<Rightarrow> False)"

definition is_primary :: "string \<Rightarrow> fencing_manager \<Rightarrow> bool" where
  "is_primary i m = (case get_node i m of
     Some n \<Rightarrow> ni_role n = Primary \<and> ni_status n = Online | None \<Rightarrow> False)"

text \<open>The changes of a node in place.\<close>

datatype node_change = Promote | Beat u64 | Mark_Failed

fun change_node :: "node_change \<Rightarrow> node_info \<Rightarrow> node_info" where
  "change_node Promote n = n\<lparr>ni_role := Primary\<rparr>"
| "change_node (Beat now_ms) n = n\<lparr>ni_last_heartbeat_ms := now_ms, ni_status := Online\<rparr>"
| "change_node Mark_Failed n = n\<lparr>ni_status := Node_Failed\<rparr>"

interpretation nodes: keyed_rows ni_node_id change_node
proof
  show "ni_node_id (change_node c n) = ni_node_id n" for c n by (cases c) simp_all
qed

definition demote :: "node_info \<Rightarrow> node_info" where
  "demote n = (if ni_role n = Primary then n\<lparr>ni_role := Standby\<rparr> else n)"

definition failover :: "string \<Rightarrow> u64 \<Rightarrow> fencing_manager \<Rightarrow> unit result \<times> fencing_manager" where
  "failover new_primary now_ms m =
     (case get_node new_primary m of
        None \<Rightarrow> (Inl (Bail ''new primary node not found''), m)
      | Some n \<Rightarrow>
          if ni_status n \<noteq> Online then (Inl (Bail ''new primary node is not online''), m)
          else let nodes = update_row ni_node_id new_primary (change_node Promote) (map demote (fm_nodes m))
               in (Inr (), snd (generate_token new_primary now_ms 3600000 (m\<lparr>fm_nodes := nodes\<rparr>))))"

definition update_heartbeat :: "string \<Rightarrow> u64 \<Rightarrow> fencing_manager \<Rightarrow> unit result \<times> fencing_manager" where
  "update_heartbeat i now_ms m =
     (case get_node i m of
        None \<Rightarrow> (Inl (Bail ''node not found''), m)
      | Some _ \<Rightarrow> (Inr (), m\<lparr>fm_nodes := update_row ni_node_id i (change_node (Beat now_ms)) (fm_nodes m)\<rparr>))"

definition detect_failure :: "string \<Rightarrow> u64 \<Rightarrow> u64 \<Rightarrow> fencing_manager \<Rightarrow> bool \<times> fencing_manager" where
  "detect_failure i now_ms timeout_ms m =
     (case get_node i m of
        None \<Rightarrow> (False, m)
      | Some n \<Rightarrow>
          if timeout_ms < saturating_sub now_ms (ni_last_heartbeat_ms n) \<and> ni_status n = Online
          then (True, m\<lparr>fm_nodes := update_row ni_node_id i (change_node Mark_Failed) (fm_nodes m)\<rparr>)
          else (False, m))"

section \<open>Reachable managers\<close>

inductive fencing_reachable :: "fencing_manager \<Rightarrow> bool" where
  fresh: "fencing_reachable fencing_new"
| registered: "fencing_reachable m \<Longrightarrow> fencing_reachable (register_node n m)"
| issued: "fencing_reachable m \<Longrightarrow> fencing_reachable (snd (generate_token c now ttl m))"
| failed_over: "fencing_reachable m \<Longrightarrow> fencing_reachable (snd (failover i now m))"
| beat: "fencing_reachable m \<Longrightarrow> fencing_reachable (snd (update_heartbeat i now m))"
| detected: "fencing_reachable m \<Longrightarrow> fencing_reachable (snd (detect_failure i now timeout m))"

text \<open>The tokens are numbered in the order of their creation.\<close>

definition tokens_inv :: "fencing_manager \<Rightarrow> bool" where
  "tokens_inv m \<longleftrightarrow> (\<forall>k < length (fm_tokens m). \<exists>c now ttl. fm_tokens m ! k = token_of c now ttl k)
     \<and> (case fm_current_token m of None \<Rightarrow> fm_tokens m = [] | Some t \<Rightarrow> fm_tokens m \<noteq> [] \<and> last (fm_tokens m) = t)"

lemma generate_token_inv: "tokens_inv m \<Longrightarrow> tokens_inv (snd (generate_token c now ttl m))"
  by (auto simp: tokens_inv_def generate_token_def Let_def nth_append less_Suc_eq)

lemma tokens_inv_cong:
  "fm_tokens m' = fm_tokens m \<Longrightarrow> fm_current_token m' = fm_current_token m \<Longrightarrow> tokens_inv m' = tokens_inv m"
  by (simp add: tokens_inv_def split: option.split)

lemma demote_key [simp]: "ni_node_id (demote n) = ni_node_id n"
  by (simp add: demote_def)

lemma demote_keys [simp]: "map ni_node_id (map demote ns) = map ni_node_id ns"
  by simp

lemma fencing_reachable_inv:
  assumes "fencing_reachable m" shows "table_ok ni_node_id (fm_nodes m) \<and> tokens_inv m"
  using assms
proof (induction rule: fencing_reachable.induct)
  case fresh
  show ?case by (simp add: fencing_new_def tokens_inv_def)
next
  case (registered m n)
  have "tokens_inv (register_node n m) = tokens_inv m" by (rule tokens_inv_cong) (simp_all add: register_node_def)
  then show ?case using registered by (simp add: register_node_def table_ok_append_row)
next
  case (issued m c now ttl)
  then show ?case using generate_token_inv[of m c now ttl] by (simp add: generate_token_def Let_def)
next
  case (failed_over m i now)
  then show ?case
  proof (cases "get_node i m")
    case (Some n)
    let ?ns = "update_row ni_node_id i (change_node Promote) (map demote (fm_nodes m))"
    have ok: "table_ok ni_node_id ?ns"
      using failed_over.IH by (intro nodes.ok_update) (simp add: table_ok_def comp_def)
    have "tokens_inv (m\<lparr>fm_nodes := ?ns\<rparr>)" using failed_over.IH tokens_inv_cong[of "m\<lparr>fm_nodes := ?ns\<rparr>" m] by simp
    from generate_token_inv[OF this] show ?thesis
      using failed_over.IH Some ok by (simp add: failover_def Let_def generate_token_def)
  qed (simp add: failover_def)
next
  case (beat m i now)
  then show ?case using tokens_inv_cong[of "snd (update_heartbeat i now m)" m] nodes.ok_update
    by (auto simp: update_heartbeat_def split: option.splits)
next
  case (detected m i now timeout)
  then show ?case using tokens_inv_cong[of "snd (detect_failure i now timeout m)" m] nodes.ok_update
    by (auto simp: detect_failure_def split: option.splits)
qed

lemma token_found:
  assumes "tokens_inv m" "t \<in> set (fm_tokens m)"
  shows "find (\<lambda>u. tk_token_id u = tk_token_id t) (fm_tokens m) = Some t"
proof -
  have "distinct (map tk_token_id (fm_tokens m))"
  proof (unfold distinct_conv_nth, intro allI impI)
    fix i j assume ij: "i < length (map tk_token_id (fm_tokens m))" "j < length (map tk_token_id (fm_tokens m))" "i \<noteq> j"
    then obtain c now ttl c' now' ttl' where "fm_tokens m ! i = token_of c now ttl i" "fm_tokens m ! j = token_of c' now' ttl' j"
      using assms(1) unfolding tokens_inv_def by (metis length_map)
    then show "map tk_token_id (fm_tokens m) ! i \<noteq> map tk_token_id (fm_tokens m) ! j"
      using ij by (simp add: token_of_def)
  qed
  then have "table_ok tk_token_id (fm_tokens m)" by (simp add: table_ok_def)
  from lookup_row_member[OF this assms(2)] show ?thesis by (simp add: lookup_row_def)
qed

section \<open>Properties\<close>

text \<open>A failover succeeds exactly for a known node that is online; then that node is the only one with
  the role of a primary, it holds the newest token, and a refused failover changes nothing.\<close>

theorem failover_single_primary:
  assumes "fencing_reachable m" "failover i now m = (r, m')"
  shows "(r = Inr () \<longleftrightarrow> (\<exists>n. get_node i m = Some n \<and> ni_status n = Online))
    \<and> (r \<noteq> Inr () \<longrightarrow> m' = m)
    \<and> (r = Inr () \<longrightarrow> (\<forall>n \<in> set (fm_nodes m'). ni_role n = Primary \<longleftrightarrow> ni_node_id n = i) \<and> is_primary i m'
         \<and> (\<exists>t. fm_current_token m' = Some t \<and> tk_creator_node_id t = i \<and> tk_created_at_ms t = now))"
proof (cases "\<exists>n. get_node i m = Some n \<and> ni_status n = Online")
  case True
  then obtain n where n: "get_node i m = Some n" "ni_status n = Online" by blast
  have ok: "table_ok ni_node_id (fm_nodes m)" using fencing_reachable_inv[OF assms(1)] by simp
  let ?ds = "map demote (fm_nodes m)"
  let ?ns = "update_row ni_node_id i (change_node Promote) ?ds"
  have r: "r = Inr ()" and m': "m' = snd (generate_token i now 3600000 (m\<lparr>fm_nodes := ?ns\<rparr>))"
    using assms(2) n by (simp_all add: failover_def Let_def)
  have nodes: "fm_nodes m' = ?ns" by (simp add: m' generate_token_def Let_def)
  have okd: "table_ok ni_node_id ?ds" using ok by (simp add: table_ok_def comp_def)
  have look: "lookup_row ni_node_id i ?ns = map_option (change_node Promote) (lookup_row ni_node_id i ?ds)"
    by (rule nodes.lookup_same)
  have "demote n \<in> set ?ds" "ni_node_id (demote n) = i"
    using lookup_row_SomeD[of ni_node_id i "fm_nodes m" n] n(1) by (auto simp: get_node_def)
  then have ld: "lookup_row ni_node_id i ?ds = Some (demote n)" using lookup_row_iff[OF okd] by blast
  have promoted: "lookup_row ni_node_id i ?ns = Some (demote n\<lparr>ni_role := Primary\<rparr>)" using look ld by simp
  have "is_primary i m'" using promoted n(2) by (simp add: is_primary_def get_node_def nodes demote_def)
  moreover have "\<forall>x \<in> set ?ns. ni_role x = Primary \<longleftrightarrow> ni_node_id x = i"
  proof
    fix x assume x: "x \<in> set ?ns"
    have okn: "table_ok ni_node_id ?ns" using okd by (rule nodes.ok_update)
    show "ni_role x = Primary \<longleftrightarrow> ni_node_id x = i"
    proof (cases "ni_node_id x = i")
      case True
      then have "lookup_row ni_node_id i ?ns = Some x" using lookup_row_iff[OF okn] x by blast
      then show ?thesis using promoted True by auto
    next
      case False
      then have "lookup_row ni_node_id (ni_node_id x) ?ds = Some x"
        using lookup_row_iff[OF okn, of "ni_node_id x" x] x nodes.lookup_other[of "ni_node_id x" i] by simp
      then have "x \<in> set ?ds" by (auto dest: lookup_row_SomeD)
      then have "ni_role x \<noteq> Primary" by (auto simp: demote_def split: if_splits)
      then show ?thesis using False by simp
    qed
  qed
  ultimately show ?thesis using r n by (simp add: nodes m' generate_token_def token_of_def Let_def)
next
  case False
  then show ?thesis using assms(2) by (auto simp: failover_def Let_def split: option.splits if_splits)
qed

text \<open>Every token ever issued is found under its id and is valid exactly until it expires; no later
  failover revokes it, so the token of a deposed primary stays valid.\<close>

theorem tokens_valid_until_expiry:
  assumes "fencing_reachable m" "t \<in> set (fm_tokens m)"
  shows "(validate_token (tk_token_id t) now m \<longleftrightarrow> now < tk_expires_at_ms t)
    \<and> (validate_token (tk_token_id t) now (snd (failover i later m)) \<longleftrightarrow> now < tk_expires_at_ms t)"
proof -
  have valid: "validate_token (tk_token_id t) now m' \<longleftrightarrow> now < tk_expires_at_ms t"
    if "fencing_reachable m'" "t \<in> set (fm_tokens m')" for m'
    using token_found[of m' t] fencing_reachable_inv[OF that(1)] that(2) by (simp add: validate_token_def)
  have "t \<in> set (fm_tokens (snd (failover i later m)))"
    using assms(2) by (auto simp: failover_def generate_token_def Let_def split: option.split)
  then show ?thesis using valid assms fencing_reachable.failed_over by blast
qed

section \<open>Witnesses\<close>

definition "fencing_2 =
  register_node \<lparr>ni_node_id = ''b'', ni_role = Standby, ni_status = Online, ni_last_heartbeat_ms = 1, ni_address = ''y''\<rparr>
  (register_node \<lparr>ni_node_id = ''a'', ni_role = Primary, ni_status = Online, ni_last_heartbeat_ms = 1, ni_address = ''x''\<rparr>
    fencing_new)"

lemma fencing_2_reachable: "fencing_reachable fencing_2" "fencing_reachable (snd (failover ''a'' 5 fencing_2))"
  unfolding fencing_2_def by (intro fencing_reachable.intros)+

lemma failover_single_primary_witness:
  "\<exists>m'. failover ''b'' 5 fencing_2 = (Inr (), m') \<and> is_primary ''b'' m' \<and> \<not> is_primary ''a'' m'"
proof -
  obtain r m' where f: "failover ''b'' 5 fencing_2 = (r, m')" by fastforce
  have "\<exists>n. get_node ''b'' fencing_2 = Some n \<and> ni_status n = Online"
    by (simp add: fencing_2_def get_node_def register_node_def fencing_new_def)
  with failover_single_primary[OF fencing_2_reachable(1) f] have p: "r = Inr ()" "is_primary ''b'' m'"
    "\<forall>n \<in> set (fm_nodes m'). ni_role n = Primary \<longleftrightarrow> ni_node_id n = ''b''" by auto
  have "\<not> is_primary ''a'' m'"
    using p(3) lookup_row_SomeD[of ni_node_id "''a''" "fm_nodes m'"]
    by (auto simp: is_primary_def get_node_def split: option.splits)
  then show ?thesis using f p by blast
qed

text \<open>The token of the first failover is still valid after the second.\<close>

lemma tokens_valid_until_expiry_witness:
  "\<exists>t \<in> set (fm_tokens (snd (failover ''a'' 5 fencing_2))). tk_creator_node_id t = ''a''
     \<and> validate_token (tk_token_id t) 7 (snd (failover ''b'' 6 (snd (failover ''a'' 5 fencing_2))))"
proof -
  let ?t = "token_of ''a'' 5 3600000 0"
  have t: "?t \<in> set (fm_tokens (snd (failover ''a'' 5 fencing_2)))"
    by (simp add: fencing_2_def get_node_def register_node_def fencing_new_def failover_def generate_token_def Let_def)
  from tokens_valid_until_expiry[OF fencing_2_reachable(2) t, of 7 "''b''" 6] t
  show ?thesis by (intro bexI[OF _ t]) (simp add: token_of_def)
qed

end
