(* ===== verification/Paths.thy ===== *)
theory Paths
  imports Json_Values "HOL-Library.Sublist"
begin

text \<open>
  File paths as the agent modules use them: the component list of \<open>Path::components\<close> (the separators and
  the inner dots are already gone there, and two paths are equal when their components are), the operations
  of the standard library on them, and what a module asks of the file system. The file system is a parameter.
\<close>

section \<open>Paths\<close>

datatype path_part = Root_Dir | Cur_Dir | Parent_Dir | Normal string

type_synonym path = "path_part list"

definition is_absolute :: "path \<Rightarrow> bool" where
  "is_absolute p \<longleftrightarrow> (case p of Root_Dir # _ \<Rightarrow> True | _ \<Rightarrow> False)"

definition path_parent :: "path \<Rightarrow> path option" where
  "path_parent p = (if p = [] \<or> p = [Root_Dir] then None else Some (butlast p))"

text \<open>\<open>ancestors\<close>: the path itself, then its parents.\<close>

definition ancestors :: "path \<Rightarrow> path list" where
  "ancestors p = map (\<lambda>n. take n p) (rev [(if is_absolute p then 1 else 0) ..< Suc (length p)])"

definition path_join :: "path \<Rightarrow> path \<Rightarrow> path" where
  "path_join a b = (if is_absolute b then b else a @ dropWhile (\<lambda>c. c = Cur_Dir) b)"

definition part_text :: "path_part \<Rightarrow> string" where
  "part_text c = (case c of Root_Dir \<Rightarrow> ''/'' | Cur_Dir \<Rightarrow> ''.'' | Parent_Dir \<Rightarrow> ''..'' | Normal s \<Rightarrow> s)"

definition path_text :: "path \<Rightarrow> string" where
  "path_text p = (case p of
     Root_Dir # rest \<Rightarrow> ''/'' @ join_with ''/'' (map part_text rest) | _ \<Rightarrow> join_with ''/'' (map part_text p))"

section \<open>Reading a path\<close>

text \<open>\<open>str::split\<close> on a character: the pieces between its occurrences, empty ones included.\<close>

fun split_on :: "char \<Rightarrow> string \<Rightarrow> string list" where
  "split_on d [] = [[]]"
| "split_on d (c # cs) =
     (if c = d then [] # split_on d cs else (case split_on d cs of [] \<Rightarrow> [[c]] | s # ss \<Rightarrow> (c # s) # ss))"

definition path_parts :: "string list \<Rightarrow> path" where
  "path_parts ss = map (\<lambda>s. if s = ''..'' then Parent_Dir else Normal s) (filter (\<lambda>s. s \<noteq> [] \<and> s \<noteq> ''.'') ss)"

definition path_of :: "string \<Rightarrow> path" where
  "path_of s = (case split_on (CHR ''/'') s of
     [] # _ # _ \<Rightarrow> Root_Dir # path_parts (split_on (CHR ''/'') s)
   | ''.'' # rest \<Rightarrow> Cur_Dir # path_parts rest
   | ss \<Rightarrow> path_parts ss)"

section \<open>The file system\<close>

datatype fs_entry = No_Entry | Directory | Plain_File | Symlink | Entry_Error string

record file_system =
  fs_entry_of :: "path \<Rightarrow> fs_entry" \<comment> \<open>\<open>symlink_metadata\<close>\<close>
  fs_canonical :: "path \<Rightarrow> string + path"
  fs_is_file :: "path \<Rightarrow> bool"
  fs_is_dir :: "path \<Rightarrow> bool"
  fs_read :: "path \<Rightarrow> (fs_entry + string)" \<comment> \<open>\<open>No_Entry\<close> when there is no such file\<close>

lemma is_absolute_simps [simp]: "is_absolute (Root_Dir # p)" "\<not> is_absolute []"
  by (simp_all add: is_absolute_def)

lemma is_absolute_iff: "is_absolute p \<longleftrightarrow> (\<exists>q. p = Root_Dir # q)"
  by (auto simp: is_absolute_def split: list.splits path_part.splits)

lemma ancestors_prefix: "a \<in> set (ancestors p) \<Longrightarrow> prefix a p"
  by (auto simp: ancestors_def take_is_prefix)

lemma self_in_ancestors: "p \<noteq> [] \<Longrightarrow> p \<in> set (ancestors p)"
  by (cases p) (force simp: ancestors_def image_iff intro!: bexI[of _ "length p"])+

end
