(* ===== verification/Agent_Sandbox.thy ===== *)
theory Agent_Sandbox
  imports Paths
begin

text \<open>
  The confinement of the agent's child process, \<open>agent/sandbox/seatbelt.rs\<close> and \<open>agent/sandbox/mod.rs\<close>:
  assembling the profile and its parameters from a policy, the probe that decides whether the mechanism
  works, and the command that is run. The four policy texts that are included at build time, the file system
  and what the probe observes are parameters. The meaning of a profile, the last rule that matches decides
  and paths are compared after resolution, is the documented behaviour of the mechanism and is used only in
  the specifications at the end.
\<close>

section \<open>Policies\<close>

record sandbox_policy =
  sp_writable_roots :: "path list"
  sp_full_disk_read :: bool
  sp_network :: bool
  sp_platform_defaults :: bool
  sp_deny_write_subpaths :: "path list"

definition rules_subdir :: string where "rules_subdir = ''rules''"

definition codex_child_policy :: "path \<Rightarrow> path option \<Rightarrow> sandbox_policy" where
  "codex_child_policy codex_home trace_dir =
     \<lparr>sp_writable_roots = codex_home # (case trace_dir of None \<Rightarrow> [] | Some t \<Rightarrow> [t]), sp_full_disk_read = True,
      sp_network = True, sp_platform_defaults = True, sp_deny_write_subpaths = [path_join codex_home [Normal rules_subdir]]\<rparr>"

definition blocks_rule_persistence :: "sandbox_policy \<Rightarrow> bool" where
  "blocks_rule_persistence p \<longleftrightarrow> list_ex (\<lambda>q. suffix [Normal rules_subdir] q) (sp_deny_write_subpaths p)"

section \<open>Absolute paths\<close>

text \<open>\<open>normalize\<close>: a parent component removes what is before it, and is pushed when there is nothing to remove.\<close>

fun normalize_from :: "path \<Rightarrow> path \<Rightarrow> path" where
  "normalize_from out [] = out"
| "normalize_from out (Cur_Dir # cs) = normalize_from out cs"
| "normalize_from out (Parent_Dir # cs) =
     normalize_from (case path_parent out of None \<Rightarrow> out @ [Parent_Dir] | Some q \<Rightarrow> q) cs"
| "normalize_from out (Root_Dir # cs) = normalize_from [Root_Dir] cs"
| "normalize_from out (Normal s # cs) = normalize_from (out @ [Normal s]) cs"

definition normalize :: "path \<Rightarrow> path" where
  "normalize p = (let out = normalize_from [] p in if out = [] then [Root_Dir] else out)"

datatype sandbox_error =
    Relative_Root path
  | Symlinked_Writable_Root path path
  | Inspect path string
  | Normalize path string

definition from_absolute_path :: "path \<Rightarrow> path option" where
  "from_absolute_path p = (if is_absolute p then Some (normalize p) else None)"

definition absolute_root :: "path \<Rightarrow> sandbox_error + path" where
  "absolute_root p = (case from_absolute_path p of None \<Rightarrow> Inl (Relative_Root p) | Some q \<Rightarrow> Inr q)"

section \<open>Writable roots\<close>

definition nested_symlink_component :: "file_system \<Rightarrow> path \<Rightarrow> path option" where
  "nested_symlink_component fs p =
     find (\<lambda>a. fs_entry_of fs a = Symlink \<and> Option.bind (path_parent a) path_parent \<noteq> None) (ancestors p)"

definition top_level :: "path \<Rightarrow> path option" where
  "top_level p = find (\<lambda>a. path_parent a \<noteq> None \<and> Option.bind (path_parent a) path_parent = None) (ancestors p)"

definition normalize_top_level_alias :: "file_system \<Rightarrow> path \<Rightarrow> sandbox_error + path" where
  "normalize_top_level_alias fs p = (case top_level p of
     None \<Rightarrow> Inr p
   | Some t \<Rightarrow>
       if fs_entry_of fs t \<noteq> Symlink then Inr p
       else (case fs_canonical fs t of
         Inl e \<Rightarrow> Inl (Normalize p e)
       | Inr c \<Rightarrow> (case from_absolute_path (path_join c (drop (length t) p)) of
           None \<Rightarrow> Inl (Normalize p ''path must be absolute'') | Some q \<Rightarrow> Inr q)))"

datatype normalized_root = Subpath path | Literal path

fun root_path :: "normalized_root \<Rightarrow> path" where
  "root_path (Subpath p) = p"
| "root_path (Literal p) = p"

definition normalize_writable_root :: "file_system \<Rightarrow> path \<Rightarrow> sandbox_error + normalized_root" where
  "normalize_writable_root fs root = (case nested_symlink_component fs root of
     Some link \<Rightarrow> Inl (Symlinked_Writable_Root root link)
   | None \<Rightarrow> then_do (normalize_top_level_alias fs root) (\<lambda>p. case fs_entry_of fs p of
       No_Entry \<Rightarrow> Inr (Subpath p)
     | Entry_Error e \<Rightarrow> Inl (Inspect p e)
     | Directory \<Rightarrow> Inr (Subpath p)
     | _ \<Rightarrow> Inr (Literal p)))"

section \<open>Profiles\<close>

text \<open>
  A profile is the list of its sections in order; a path occurs in it only as the name of a parameter.
\<close>

datatype policy_file = Base_Policy | Network_Policy | Preferences_Policy | Read_Only_Platform_Defaults

datatype param_filter = Subpath_Param string | Literal_Param string

datatype access_kind = Read_Access | Write_Access

datatype profile_section =
    Included policy_file
  | Read_Heading
  | Allow_All_Reads
  | Allow_Params access_kind "param_filter list"
  | Deny_Unlink string
  | Empty_Section
  | Allow_Network
  | Process_Platform_Defaults
  | Deny_Write string

type_synonym params = "(string \<times> path) list"

definition quoted :: "string \<Rightarrow> string" where
  "quoted s = [CHR 0x22] @ s @ [CHR 0x22]"

definition filter_text :: "param_filter \<Rightarrow> string" where
  "filter_text f = (case f of
     Subpath_Param k \<Rightarrow> ''(subpath (param '' @ quoted k @ ''))''
   | Literal_Param k \<Rightarrow> ''(literal (param '' @ quoted k @ ''))'')"

definition access_action :: "access_kind \<Rightarrow> string" where
  "access_action k = (case k of Read_Access \<Rightarrow> ''file-read*'' | Write_Access \<Rightarrow> ''file-write*'')"

definition access_prefix :: "access_kind \<Rightarrow> string" where
  "access_prefix k = (case k of Read_Access \<Rightarrow> ''READABLE_ROOT'' | Write_Access \<Rightarrow> ''WRITABLE_ROOT'')"

definition line_break :: string where "line_break = [CHR 0x0A]"

definition scratch_lines :: "string list" where
  "scratch_lines = [[],
     ''(allow file-read* (subpath '' @ quoted ''/Applications'' @ ''))'',
     ''(allow file-read* file-test-existence file-write* (subpath '' @ quoted ''/tmp'' @ ''))'',
     ''(allow file-read* file-write* (subpath '' @ quoted ''/private/tmp'' @ ''))'',
     ''(allow file-read* file-write* (subpath '' @ quoted ''/var/tmp'' @ ''))'',
     ''(allow file-read* file-write* (subpath '' @ quoted ''/private/var/tmp'' @ ''))'', []]"

definition section_text :: "(policy_file \<Rightarrow> string) \<Rightarrow> profile_section \<Rightarrow> string" where
  "section_text texts s = (case s of
     Included f \<Rightarrow> texts f
   | Read_Heading \<Rightarrow> ''; allow read-only file operations''
   | Allow_All_Reads \<Rightarrow> ''(allow file-read*)''
   | Allow_Params k fs \<Rightarrow> ''(allow '' @ access_action k @ line_break @ join_with '' '' (map filter_text fs) @ line_break @ '')''
   | Deny_Unlink k \<Rightarrow> ''(deny file-write-unlink (require-all (literal (param '' @ quoted k @ '')) (vnode-type DIRECTORY)))''
   | Empty_Section \<Rightarrow> []
   | Allow_Network \<Rightarrow> ''(allow network*)''
   | Process_Platform_Defaults \<Rightarrow> join_with line_break scratch_lines
   | Deny_Write k \<Rightarrow> ''(deny file-write* (subpath (param '' @ quoted k @ '')))'')"

definition param_key :: "string \<Rightarrow> nat \<Rightarrow> string" where
  "param_key pre i = pre @ ''_'' @ show_nat i"

text \<open>One root of \<open>build_access_policy\<close>: its filter, what the key stands for.\<close>

definition access_root :: "file_system \<Rightarrow> access_kind \<Rightarrow> nat \<Rightarrow> path \<Rightarrow> sandbox_error + (param_filter \<times> path)" where
  "access_root fs k i root = (let key = param_key (access_prefix k) i in case k of
     Read_Access \<Rightarrow> Inr (Subpath_Param key, case from_absolute_path root of None \<Rightarrow> root | Some q \<Rightarrow> q)
   | Write_Access \<Rightarrow> then_do (normalize_writable_root fs root) (\<lambda>r. Inr (case r of
       Subpath p \<Rightarrow> (Subpath_Param key, p) | Literal p \<Rightarrow> (Literal_Param key, p))))"

fun filter_key :: "param_filter \<Rightarrow> string" where
  "filter_key (Subpath_Param k) = k"
| "filter_key (Literal_Param k) = k"

definition build_access_policy :: "file_system \<Rightarrow> access_kind \<Rightarrow> path list \<Rightarrow> sandbox_error + (profile_section list \<times> params)" where
  "build_access_policy fs k roots =
     then_do (collect (\<lambda>(i, r). access_root fs k i r) (enumerate 0 roots)) (\<lambda>fps.
       Inr (if fps = [] then ([Empty_Section], [])
            else (Allow_Params k (map fst fps) #
                    (if k = Write_Access then map (\<lambda>(f, _). Deny_Unlink (filter_key f)) fps else []),
                  map (\<lambda>(f, p). (filter_key f, p)) fps)))"

definition deny_writes :: "path list \<Rightarrow> sandbox_error + params" where
  "deny_writes excluded =
     collect (\<lambda>(i, p). then_do (absolute_root p) (\<lambda>q. Inr (param_key ''DENY_WRITE'' i, q))) (enumerate 0 excluded)"

definition build_profile :: "file_system \<Rightarrow> sandbox_policy \<Rightarrow> sandbox_error + (profile_section list \<times> params)" where
  "build_profile fs policy =
     then_do (if sp_full_disk_read policy then Inr [Read_Heading, Allow_All_Reads]
              else then_do (absolute_root [Root_Dir]) (\<lambda>root. then_do (build_access_policy fs Read_Access [root])
                (\<lambda>(sections, _). Inr (Read_Heading # sections)))) (\<lambda>reads.
     then_do (collect absolute_root (sp_writable_roots policy)) (\<lambda>roots.
     then_do (build_access_policy fs Write_Access roots) (\<lambda>(writes, write_params).
     then_do (deny_writes (sp_deny_write_subpaths policy)) (\<lambda>denied.
       Inr ([Included Base_Policy] @ reads @ writes
            @ (if sp_network policy then [Included Network_Policy, Allow_Network] else [])
            @ (if sp_full_disk_read policy then [Included Preferences_Policy] else [])
            @ (if sp_platform_defaults policy then [Included Read_Only_Platform_Defaults, Process_Platform_Defaults] else [])
            @ map (\<lambda>(k, _). Deny_Write k) denied,
            write_params @ denied)))))"

definition sections_text :: "(policy_file \<Rightarrow> string) \<Rightarrow> profile_section list \<Rightarrow> string" where
  "sections_text texts ss = join_with line_break (map (section_text texts) ss)"

definition profile_text :: "(policy_file \<Rightarrow> string) \<Rightarrow> file_system \<Rightarrow> sandbox_policy \<Rightarrow> sandbox_error + string" where
  "profile_text texts fs policy = then_do (build_profile fs policy) (\<lambda>(ss, _). Inr (sections_text texts ss))"

definition sandbox_exec_path :: string where "sandbox_exec_path = ''/usr/bin/sandbox-exec''"

definition param_argument :: "string \<times> path \<Rightarrow> string" where
  "param_argument kp = ''-D'' @ fst kp @ ''='' @ path_text (snd kp)"

definition sandbox_command :: "(policy_file \<Rightarrow> string) \<Rightarrow> file_system \<Rightarrow> string list \<Rightarrow> sandbox_policy
    \<Rightarrow> sandbox_error + string list" where
  "sandbox_command texts fs command policy =
     (if command = [] then Inl (Relative_Root [])
      else then_do (build_profile fs policy) (\<lambda>(ss, params).
        Inr ([sandbox_exec_path, ''-p'', sections_text texts ss] @ map param_argument params @ [''--''] @ command)))"

section \<open>Availability\<close>

datatype availability = Available | Unsupported_Platform | Missing_Tool | Cannot_Apply string

definition is_available :: "availability \<Rightarrow> bool" where
  "is_available a \<longleftrightarrow> a = Available"

definition availability_text :: "availability \<Rightarrow> string" where
  "availability_text a = (case a of
     Available \<Rightarrow> ''seatbelt is available''
   | Unsupported_Platform \<Rightarrow> ''seatbelt confinement requires macOS''
   | Missing_Tool \<Rightarrow> sandbox_exec_path @ '' is missing''
   | Cannot_Apply d \<Rightarrow> ''seatbelt refused to apply a profile: '' @ d)"

text \<open>What the probe sees: the platform, the tool, the two directories, and for each of its two commands
  whether it could be started and whether its file is there afterwards.\<close>

record probe_sight =
  pv_macos :: bool
  pv_tool_is_file :: bool
  pv_home :: "path option"
  pv_inside :: "string + unit"
  pv_wrote_inside :: bool
  pv_outside :: "string + unit"
  pv_wrote_outside :: bool

definition probe_commands :: "probe_sight \<Rightarrow> availability" where
  "probe_commands v = (case (pv_inside v, pv_outside v) of
     (Inl e, _) \<Rightarrow> Cannot_Apply e
   | (Inr _, Inl _) \<Rightarrow> Cannot_Apply ''cannot run the probe command outside the sandbox either''
   | (Inr _, Inr _) \<Rightarrow>
       if \<not> pv_wrote_inside v
       then Cannot_Apply ''a write inside the granted root was refused; the profile is too strict or a path alias was not resolved''
       else if pv_wrote_outside v
       then Cannot_Apply ''a write outside the granted root reached the filesystem; confinement is not in force''
       else Available)"

definition probe :: "probe_sight \<Rightarrow> availability" where
  "probe v =
     (if \<not> pv_macos v then Unsupported_Platform
      else if \<not> pv_tool_is_file v then Missing_Tool
      else if pv_home v = None then Cannot_Apply ''cannot resolve a temporary or home directory for the probe''
      else probe_commands v)"

datatype confine_error = Unavailable availability | Profile sandbox_error

definition confine_error_text :: "(sandbox_error \<Rightarrow> string) \<Rightarrow> confine_error \<Rightarrow> string" where
  "confine_error_text show e = (case e of
     Unavailable a \<Rightarrow> ''refusing to run unconfined: '' @ availability_text a
   | Profile p \<Rightarrow> ''cannot build sandbox profile: '' @ show p)"

definition confined_argv :: "probe_sight \<Rightarrow> (policy_file \<Rightarrow> string) \<Rightarrow> file_system \<Rightarrow> string list \<Rightarrow> sandbox_policy
    \<Rightarrow> confine_error + string list" where
  "confined_argv v texts fs command policy = (case probe v of
     Available \<Rightarrow> (case sandbox_command texts fs command policy of Inl e \<Rightarrow> Inl (Profile e) | Inr argv \<Rightarrow> Inr argv)
   | a \<Rightarrow> Inl (Unavailable a))"

section \<open>What a profile allows\<close>

text \<open>
  The last rule that matches an operation decides it, and nothing is allowed by default. An included text is a
  function \<open>included\<close> of the operation and the path; paths are resolved ones. Only writes are looked at.
\<close>

datatype write_op = Write_Op | Unlink_Op

definition scratch_roots :: "path list" where
  "scratch_roots = map path_of [''/tmp'', ''/private/tmp'', ''/var/tmp'', ''/private/var/tmp'']"

definition filter_matches :: "params \<Rightarrow> path \<Rightarrow> param_filter \<Rightarrow> bool" where
  "filter_matches ps p f = (case f of
     Subpath_Param k \<Rightarrow> is_some_and (map_of ps k) (\<lambda>q. prefix q p)
   | Literal_Param k \<Rightarrow> map_of ps k = Some p)"

definition section_verdict :: "(policy_file \<Rightarrow> write_op \<Rightarrow> path \<Rightarrow> bool option) \<Rightarrow> params \<Rightarrow> write_op \<Rightarrow> path
    \<Rightarrow> profile_section \<Rightarrow> bool option" where
  "section_verdict included ps op p s = (case s of
     Included f \<Rightarrow> included f op p
   | Allow_Params k fs \<Rightarrow> if k = Write_Access \<and> list_ex (filter_matches ps p) fs then Some True else None
   | Deny_Unlink k \<Rightarrow> if op = Unlink_Op \<and> map_of ps k = Some p then Some False else None
   | Process_Platform_Defaults \<Rightarrow> if list_ex (\<lambda>q. prefix q p) scratch_roots then Some True else None
   | Deny_Write k \<Rightarrow> if is_some_and (map_of ps k) (\<lambda>q. prefix q p) then Some False else None
   | _ \<Rightarrow> None)"

definition last_match :: "(profile_section \<Rightarrow> bool option) \<Rightarrow> profile_section list \<Rightarrow> bool option" where
  "last_match v ss = fold (\<lambda>s d. case v s of None \<Rightarrow> d | Some b \<Rightarrow> Some b) ss None"

definition write_allowed :: "(policy_file \<Rightarrow> write_op \<Rightarrow> path \<Rightarrow> bool option) \<Rightarrow> profile_section list \<times> params
    \<Rightarrow> write_op \<Rightarrow> path \<Rightarrow> bool" where
  "write_allowed included profile op p = (last_match (section_verdict included (snd profile) op p) (fst profile) = Some True)"

lemma last_match_append:
  "last_match v (xs @ ys) = (case last_match v ys of None \<Rightarrow> last_match v xs | Some b \<Rightarrow> Some b)"
  by (induction ys rule: rev_induct) (auto simp: last_match_def simp flip: append_assoc split: option.splits)

lemma last_match_SomeD: "last_match v ss = Some b \<Longrightarrow> \<exists>s \<in> set ss. v s = Some b"
  by (induction ss rule: rev_induct) (auto simp: last_match_def split: option.splits)

lemma last_match_uniform:
  assumes "\<And>s. s \<in> set ss \<Longrightarrow> v s = None \<or> v s = Some b"
  shows "last_match v ss = (if \<exists>s \<in> set ss. v s = Some b then Some b else None)"
  using assms
proof (induction ss rule: rev_induct)
  case (snoc x xs)
  have "v x = None \<or> v x = Some b" using snoc.prems by simp
  moreover have "last_match v (xs @ [x]) = (case v x of None \<Rightarrow> last_match v xs | Some d \<Rightarrow> Some d)"
    by (cases "v x") (simp_all add: last_match_def)
  ultimately show ?case using snoc.IH snoc.prems by (cases "v x") auto
qed (simp add: last_match_def)

lemma param_key_inj: "param_key a i = param_key a j \<longleftrightarrow> i = j"
  by (simp add: param_key_def)

lemma param_key_kind: "param_key ''DENY_WRITE'' i \<noteq> param_key (access_prefix k) j"
  by (cases k) (simp_all add: param_key_def access_prefix_def)

lemma filter_key_access:
  "access_root fs k i r = Inr (f, p) \<Longrightarrow> filter_key f = param_key (access_prefix k) i"
proof (cases k)
  case Write_Access
  moreover assume "access_root fs k i r = Inr (f, p)"
  ultimately obtain n where "normalize_writable_root fs r = Inr n"
    "(f, p) = (case n of Subpath p \<Rightarrow> (Subpath_Param (param_key (access_prefix k) i), p)
       | Literal p \<Rightarrow> (Literal_Param (param_key (access_prefix k) i), p))"
    by (auto simp: access_root_def Let_def)
  then show ?thesis by (cases n) simp_all
qed (auto simp: access_root_def Let_def)

lemma collect_keys:
  assumes "collect (\<lambda>(i, r). access_root fs k i r) (enumerate n roots) = Inr fps"
  shows "map (\<lambda>(f, p). filter_key f) fps = map (param_key (access_prefix k)) [n ..< n + length roots]"
  using assms
proof (induction roots arbitrary: n fps)
  case (Cons r roots)
  then obtain fp rest where fps: "fps = fp # rest" "access_root fs k n r = Inr fp"
    "collect (\<lambda>(i, r). access_root fs k i r) (enumerate (Suc n) roots) = Inr rest" by auto
  have "[n ..< n + length (r # roots)] = n # [Suc n ..< Suc n + length roots]"
    using upt_conv_Cons[of n "n + length (r # roots)"] by (simp del: upt_Suc)
  then show ?case using Cons.IH[OF fps(3)] fps(1) filter_key_access[of fs k n r "fst fp" "snd fp"] fps(2)
    by (simp add: split_beta del: upt_Suc)
qed simp

lemma deny_writes_eq:
  "collect (\<lambda>(i, p). then_do (absolute_root p) (\<lambda>q. Inr (param_key ''DENY_WRITE'' i, q))) (enumerate n ps) = Inr ds \<Longrightarrow>
     ds = map (\<lambda>(i, p). (param_key ''DENY_WRITE'' i, normalize p)) (enumerate n ps) \<and> (\<forall>p \<in> set ps. is_absolute p)"
proof (induction ps arbitrary: n ds)
  case (Cons p ps)
  then obtain q rest where *: "absolute_root p = Inr q" "ds = (param_key ''DENY_WRITE'' n, q) # rest"
    "collect (\<lambda>(i, p). then_do (absolute_root p) (\<lambda>q. Inr (param_key ''DENY_WRITE'' i, q))) (enumerate (Suc n) ps) = Inr rest" by auto
  then have "is_absolute p \<and> q = normalize p"
    by (auto simp: absolute_root_def from_absolute_path_def split: if_splits)
  with Cons.IH[OF *(3)] * show ?case by simp
qed simp

lemma collect_enumerate_mem:
  assumes "collect (\<lambda>(i, r). f i r) (enumerate n xs) = Inr ys" "y \<in> set ys"
  shows "\<exists>i. \<exists>x \<in> set xs. f i x = Inr y"
  using assms
proof (induction xs arbitrary: n ys)
  case (Cons x xs)
  then obtain z zs where *: "ys = z # zs" "f n x = Inr z" "collect (\<lambda>(i, r). f i r) (enumerate (Suc n) xs) = Inr zs" by auto
  show ?case
  proof (cases "y = z")
    case True
    then show ?thesis using *(2) by auto
  next
    case False
    then have "y \<in> set zs" using Cons.prems *(1) by simp
    from Cons.IH[OF *(3) this] show ?thesis by auto
  qed
qed simp

text \<open>The parts of a built profile.\<close>

lemma build_profileE:
  assumes "build_profile fs policy = Inr (ss, ps)"
  obtains reads roots writes wps ds where
    "collect absolute_root (sp_writable_roots policy) = Inr roots"
    "build_access_policy fs Write_Access roots = Inr (writes, wps)"
    "deny_writes (sp_deny_write_subpaths policy) = Inr ds" "ps = wps @ ds"
    "ss = (Included Base_Policy # reads) @ writes
       @ (if sp_network policy then [Included Network_Policy, Allow_Network] else [])
       @ (if sp_full_disk_read policy then [Included Preferences_Policy] else [])
       @ (if sp_platform_defaults policy then [Included Read_Only_Platform_Defaults, Process_Platform_Defaults] else [])
       @ map (\<lambda>(k, _). Deny_Write k) ds"
    "if sp_full_disk_read policy then reads = [Read_Heading, Allow_All_Reads]
     else reads = [Read_Heading, Allow_Params Read_Access [Subpath_Param (param_key ''READABLE_ROOT'' 0)]]"
proof -
  have read: "build_access_policy fs Read_Access [normalize [Root_Dir]]
      = Inr ([Allow_Params Read_Access [Subpath_Param (param_key ''READABLE_ROOT'' 0)]],
             [(param_key ''READABLE_ROOT'' 0, normalize [Root_Dir])])"
    by (simp add: build_access_policy_def access_root_def access_prefix_def normalize_def from_absolute_path_def is_absolute_def)
  have root: "absolute_root [Root_Dir] = Inr (normalize [Root_Dir])"
    by (simp add: absolute_root_def from_absolute_path_def)
  show ?thesis
  proof (cases "sp_full_disk_read policy")
    case True
    then show ?thesis using assms by (auto simp: build_profile_def intro!: that)
  next
    case False
    then show ?thesis using assms by (auto simp: build_profile_def read root intro!: that)
  qed
qed

lemma write_params_keys:
  assumes "build_access_policy fs Write_Access roots = Inr (writes, wps)"
  shows "map fst wps = map (param_key ''WRITABLE_ROOT'') [0 ..< length roots]"
proof -
  obtain fps where fps: "collect (\<lambda>(i, r). access_root fs Write_Access i r) (enumerate 0 roots) = Inr fps"
    "wps = map (\<lambda>(f, p). (filter_key f, p)) fps"
    using assms by (auto simp: build_access_policy_def split: if_splits)
  then show ?thesis using collect_keys[OF fps(1)] by (simp add: access_prefix_def comp_def split_def)
qed

lemma denied_keys:
  assumes "deny_writes ex = Inr ds"
  shows "map fst ds = map (param_key ''DENY_WRITE'') [0 ..< length ex]"
proof -
  have ds: "ds = map (\<lambda>(i, p). (param_key ''DENY_WRITE'' i, normalize p)) (enumerate 0 ex)"
    using assms(1) deny_writes_eq[of 0 ex ds] by (simp add: deny_writes_def)
  show ?thesis unfolding ds by (rule nth_equalityI) (simp_all add: split_beta nth_enumerate_eq)
qed

lemma profile_keys:
  assumes "build_profile fs policy = Inr (ss, ps)"
  shows "map fst ps = map (param_key ''WRITABLE_ROOT'') [0 ..< length (sp_writable_roots policy)]
    @ map (param_key ''DENY_WRITE'') [0 ..< length (sp_deny_write_subpaths policy)]" "distinct (map fst ps)"
proof -
  obtain reads roots writes wps ds where *: "collect absolute_root (sp_writable_roots policy) = Inr roots"
    "build_access_policy fs Write_Access roots = Inr (writes, wps)" "deny_writes (sp_deny_write_subpaths policy) = Inr ds" "ps = wps @ ds"
    using assms by (rule build_profileE)
  have "length roots = length (sp_writable_roots policy)" using *(1) by (metis collect_Inr_iff list_all2_lengthD)
  then show keys: "map fst ps = map (param_key ''WRITABLE_ROOT'') [0 ..< length (sp_writable_roots policy)]
    @ map (param_key ''DENY_WRITE'') [0 ..< length (sp_deny_write_subpaths policy)]"
    using write_params_keys[OF *(2)] denied_keys[OF *(3)] *(4) by simp
  have "param_key ''WRITABLE_ROOT'' i \<noteq> param_key ''DENY_WRITE'' j" for i j by (simp add: param_key_def)
  then show "distinct (map fst ps)"
    unfolding keys by (auto simp: distinct_map inj_on_def param_key_inj)
qed

text \<open>What a root of the policy stands for once the file system resolved it.\<close>

definition resolves_to :: "file_system \<Rightarrow> path \<Rightarrow> path \<Rightarrow> bool" where
  "resolves_to fs r q \<longleftrightarrow> (case normalize_writable_root fs (normalize r) of Inl _ \<Rightarrow> False | Inr n \<Rightarrow> root_path n = q)"

definition root_grants :: "file_system \<Rightarrow> path \<Rightarrow> path \<Rightarrow> bool" where
  "root_grants fs p r \<longleftrightarrow> (case normalize_writable_root fs (normalize r) of
     Inl _ \<Rightarrow> False | Inr (Subpath q) \<Rightarrow> prefix q p | Inr (Literal q) \<Rightarrow> q = p)"

definition filter_covers :: "path \<Rightarrow> param_filter \<times> path \<Rightarrow> bool" where
  "filter_covers p fq = (case fst fq of Subpath_Param _ \<Rightarrow> prefix (snd fq) p | Literal_Param _ \<Rightarrow> snd fq = p)"

lemma absolute_root_Inr: "absolute_root p = Inr q \<longleftrightarrow> is_absolute p \<and> q = normalize p"
  by (auto simp: absolute_root_def from_absolute_path_def)

lemma absolute_roots_eq: "collect absolute_root ps = Inr qs \<Longrightarrow> qs = map normalize ps"
  by (induction ps arbitrary: qs) (auto simp: absolute_root_Inr)

text \<open>The write section of a policy: its filters are the roots, in order, each with its own key.\<close>

lemma write_sectionE:
  assumes "collect absolute_root rs = Inr roots" "build_access_policy fs Write_Access roots = Inr (writes, wps)"
  obtains fps where
    "list_all2 (\<lambda>r fq. filter_covers p fq = root_grants fs p r \<and> (snd fq = p \<longleftrightarrow> resolves_to fs r p)) rs fps"
    "wps = map (\<lambda>(f, q). (filter_key f, q)) fps"
    "writes = (if fps = [] then [Empty_Section]
       else Allow_Params Write_Access (map fst fps) # map (\<lambda>(f, _). Deny_Unlink (filter_key f)) fps)"
proof -
  obtain fps where fps: "collect (\<lambda>(i, r). access_root fs Write_Access i r) (enumerate 0 roots) = Inr fps"
    "wps = map (\<lambda>(f, p). (filter_key f, p)) fps"
    "writes = (if fps = [] then [Empty_Section]
       else Allow_Params Write_Access (map fst fps) # map (\<lambda>(f, _). Deny_Unlink (filter_key f)) fps)"
    using assms(2) by (auto simp: build_access_policy_def split: if_splits)
  have one: "filter_covers p fq = root_grants fs p r \<and> (snd fq = p \<longleftrightarrow> resolves_to fs r p)"
    if fq: "access_root fs Write_Access i (normalize r) = Inr fq" for i r fq
  proof -
    obtain n where "normalize_writable_root fs (normalize r) = Inr n" using fq by (auto simp: access_root_def Let_def)
    then show ?thesis using fq
      by (cases n) (auto simp: access_root_def Let_def filter_covers_def root_grants_def resolves_to_def)
  qed
  have "list_all2 (\<lambda>r fq. filter_covers p fq = root_grants fs p r \<and> (snd fq = p \<longleftrightarrow> resolves_to fs r p)) rs fps"
    if "collect (\<lambda>(i, r). access_root fs Write_Access i r) (enumerate n (map normalize rs)) = Inr fps" for n fps
    using that by (induction rs arbitrary: n fps) (auto dest: one)
  from this[of 0 fps] fps(1) absolute_roots_eq[OF assms(1)] that[OF _ fps(2,3)] show ?thesis by simp
qed

lemma filter_matches_covers:
  assumes "distinct (map fst ps)" "(filter_key f, q) \<in> set ps"
  shows "filter_matches ps p f = filter_covers p (f, q)" "map_of ps (filter_key f) = Some q"
proof -
  show look: "map_of ps (filter_key f) = Some q" using assms by simp
  then show "filter_matches ps p f = filter_covers p (f, q)"
    by (cases f) (simp_all add: filter_matches_def filter_covers_def)
qed

text \<open>What the write section decides, over any parameters with distinct keys that contain its own.\<close>

lemma write_section_verdict:
  assumes "collect absolute_root rs = Inr roots" "build_access_policy fs Write_Access roots = Inr (writes, wps)"
    and keys: "distinct (map fst ps)" "set wps \<subseteq> set ps"
  shows "last_match (section_verdict included ps op p) writes =
     (if op = Unlink_Op \<and> list_ex (\<lambda>r. resolves_to fs r p) rs then Some False
      else if list_ex (root_grants fs p) rs then Some True else None)"
proof -
  obtain fps where fps:
    "list_all2 (\<lambda>r fq. filter_covers p fq = root_grants fs p r \<and> (snd fq = p \<longleftrightarrow> resolves_to fs r p)) rs fps"
    "wps = map (\<lambda>(f, q). (filter_key f, q)) fps"
    "writes = (if fps = [] then [Empty_Section]
       else Allow_Params Write_Access (map fst fps) # map (\<lambda>(f, _). Deny_Unlink (filter_key f)) fps)"
    using assms(1,2) by (rule write_sectionE)
  have mem: "(filter_key f, q) \<in> set ps" if "(f, q) \<in> set fps" for f q using that fps(2) keys(2) by force
  let ?v = "section_verdict included ps op p"
  have transfer: "list_ex (\<lambda>r. resolves_to fs r p) rs = list_ex (\<lambda>fq. snd fq = p) fps"
    "list_ex (root_grants fs p) rs = list_ex (filter_covers p) fps"
    using fps(1) by (induction rule: list_all2_induct) auto
  have allow: "?v (Allow_Params Write_Access (map fst fps)) = (if list_ex (filter_covers p) fps then Some True else None)"
  proof -
    have "list_ex (filter_matches ps p) (map fst fps) = list_ex (filter_covers p) fps"
      using filter_matches_covers(1)[OF keys(1) mem] by (force simp: list_ex_iff)
    then show ?thesis by (simp add: section_verdict_def)
  qed
  have unlink: "?v (Deny_Unlink (filter_key f)) = (if op = Unlink_Op \<and> q = p then Some False else None)"
    if "(f, q) \<in> set fps" for f q
    using filter_matches_covers(2)[OF keys(1) mem[OF that]] by (auto simp: section_verdict_def)
  let ?us = "map (\<lambda>(f, _). Deny_Unlink (filter_key f)) fps"
  have "last_match ?v ?us = (if \<exists>s \<in> set ?us. ?v s = Some False then Some False else None)"
    by (rule last_match_uniform) (use unlink in fastforce)
  moreover have "(\<exists>s \<in> set ?us. ?v s = Some False) \<longleftrightarrow> op = Unlink_Op \<and> list_ex (\<lambda>fq. snd fq = p) fps"
    using unlink by (force simp: list_ex_iff split: if_splits)
  ultimately have us: "last_match ?v ?us = (if op = Unlink_Op \<and> list_ex (\<lambda>fq. snd fq = p) fps then Some False else None)" by simp
  show ?thesis
  proof (cases "fps = []")
    case True
    then show ?thesis using transfer fps(3) by (simp add: last_match_def section_verdict_def)
  next
    case False
    then have split: "writes = [Allow_Params Write_Access (map fst fps)] @ ?us" using fps(3) by simp
    have first: "last_match ?v [Allow_Params Write_Access (map fst fps)] = (if list_ex (filter_covers p) fps then Some True else None)"
      using allow by (simp add: last_match_def split: option.split)
    show ?thesis unfolding split last_match_append us first transfer by simp
  qed
qed

text \<open>What the carve-outs decide.\<close>

lemma deny_section_verdict:
  assumes "deny_writes ex = Inr ds" "distinct (map fst ps)" "set ds \<subseteq> set ps"
  shows "last_match (section_verdict included ps op p) (map (\<lambda>(k, _). Deny_Write k) ds)
    = (if list_ex (\<lambda>d. prefix (normalize d) p) ex then Some False else None)"
proof -
  let ?v = "section_verdict included ps op p" and ?ss = "map (\<lambda>(k, _). Deny_Write k) ds"
  have ds: "ds = map (\<lambda>(i, p). (param_key ''DENY_WRITE'' i, normalize p)) (enumerate 0 ex)"
    using assms(1) deny_writes_eq[of 0 ex ds] by (simp add: deny_writes_def)
  have one: "?v (Deny_Write k) = (if prefix q p then Some False else None)" if "(k, q) \<in> set ds" for k q
  proof -
    have "map_of ps k = Some q" using that assms(2,3) by (auto intro: map_of_is_SomeI)
    then show ?thesis by (simp add: section_verdict_def)
  qed
  have "last_match ?v ?ss = (if \<exists>s \<in> set ?ss. ?v s = Some False then Some False else None)"
    by (rule last_match_uniform) (use one in fastforce)
  moreover have "(\<exists>s \<in> set ?ss. ?v s = Some False) \<longleftrightarrow> list_ex (\<lambda>q. prefix q p) (map snd ds)"
    using one by (force simp: list_ex_iff split: if_splits)
  moreover have "map snd ds = map normalize ex" unfolding ds by (rule nth_equalityI) (simp_all add: split_beta nth_enumerate_eq)
  moreover have "list_ex (\<lambda>q. prefix q p) (map normalize ex) = list_ex (\<lambda>d. prefix (normalize d) p) ex"
    by (induction ex) simp_all
  ultimately show ?thesis by simp
qed

lemma single_match [simp]: "last_match v [s] = v s" "last_match v [] = None"
  by (simp_all add: last_match_def split: option.split)

text \<open>What a profile decides: the carve-outs first, then the scratch directories, then the roots, then the texts.\<close>

lemma profile_verdict:
  assumes "build_profile fs policy = Inr profile"
  shows "write_allowed included profile op p \<Longrightarrow>
      \<not> list_ex (\<lambda>d. prefix (normalize d) p) (sp_deny_write_subpaths policy)
      \<and> ((\<exists>f. included f op p = Some True) \<or> (sp_platform_defaults policy \<and> list_ex (\<lambda>q. prefix q p) scratch_roots)
         \<or> (list_ex (root_grants fs p) (sp_writable_roots policy)
            \<and> (op = Unlink_Op \<longrightarrow> \<not> list_ex (\<lambda>r. resolves_to fs r p) (sp_writable_roots policy))))"
    and "(\<And>f. included f op p = None) \<Longrightarrow> write_allowed included profile op p \<longleftrightarrow>
      \<not> list_ex (\<lambda>d. prefix (normalize d) p) (sp_deny_write_subpaths policy)
      \<and> ((sp_platform_defaults policy \<and> list_ex (\<lambda>q. prefix q p) scratch_roots)
         \<or> (list_ex (root_grants fs p) (sp_writable_roots policy)
            \<and> (op = Unlink_Op \<longrightarrow> \<not> list_ex (\<lambda>r. resolves_to fs r p) (sp_writable_roots policy))))"
proof -
  obtain ss ps where profile: "profile = (ss, ps)" by (cases profile)
  with assms have built: "build_profile fs policy = Inr (ss, ps)" by simp
  obtain reads roots writes wps ds where *: "collect absolute_root (sp_writable_roots policy) = Inr roots"
    "build_access_policy fs Write_Access roots = Inr (writes, wps)" "deny_writes (sp_deny_write_subpaths policy) = Inr ds"
    "ps = wps @ ds"
    "ss = (Included Base_Policy # reads) @ writes
       @ (if sp_network policy then [Included Network_Policy, Allow_Network] else [])
       @ (if sp_full_disk_read policy then [Included Preferences_Policy] else [])
       @ (if sp_platform_defaults policy then [Included Read_Only_Platform_Defaults, Process_Platform_Defaults] else [])
       @ map (\<lambda>(k, _). Deny_Write k) ds"
    "if sp_full_disk_read policy then reads = [Read_Heading, Allow_All_Reads]
     else reads = [Read_Heading, Allow_Params Read_Access [Subpath_Param (param_key ''READABLE_ROOT'' 0)]]"
    using built by (rule build_profileE)
  let ?v = "section_verdict included ps op p"
  let ?D = "list_ex (\<lambda>d. prefix (normalize d) p) (sp_deny_write_subpaths policy)"
  let ?S = "sp_platform_defaults policy \<and> list_ex (\<lambda>q. prefix q p) scratch_roots"
  have keys: "distinct (map fst ps)" using profile_keys(2)[OF built] by simp
  have deny: "last_match ?v (map (\<lambda>(k, _). Deny_Write k) ds) = (if ?D then Some False else None)"
    by (rule deny_section_verdict[OF *(3) keys]) (simp add: *(4))
  have writes: "last_match ?v writes = (if op = Unlink_Op \<and> list_ex (\<lambda>r. resolves_to fs r p) (sp_writable_roots policy) then Some False
      else if list_ex (root_grants fs p) (sp_writable_roots policy) then Some True else None)"
    by (rule write_section_verdict[OF *(1,2) keys]) (simp add: *(4))
  have reads: "last_match ?v (Included Base_Policy # reads) = included Base_Policy op p"
    using *(6) by (auto simp: last_match_def section_verdict_def split: if_splits option.splits)
  have network: "last_match ?v (if sp_network policy then [Included Network_Policy, Allow_Network] else [])
      = (if sp_network policy then included Network_Policy op p else None)"
    by (simp add: last_match_def section_verdict_def split: option.splits)
  have prefs: "last_match ?v (if sp_full_disk_read policy then [Included Preferences_Policy] else [])
      = (if sp_full_disk_read policy then included Preferences_Policy op p else None)"
    by (simp add: section_verdict_def)
  have defaults: "last_match ?v (if sp_platform_defaults policy then [Included Read_Only_Platform_Defaults, Process_Platform_Defaults] else [])
      = (if ?S then Some True else if sp_platform_defaults policy then included Read_Only_Platform_Defaults op p else None)"
    by (simp add: last_match_def section_verdict_def split: option.splits)
  note verdict = last_match_append deny defaults prefs network writes reads
  have allowed: "write_allowed included profile op p \<longleftrightarrow> last_match ?v ss = Some True"
    by (simp add: write_allowed_def profile)
  show "write_allowed included profile op p \<Longrightarrow> \<not> ?D \<and> ((\<exists>f. included f op p = Some True) \<or> ?S
      \<or> (list_ex (root_grants fs p) (sp_writable_roots policy)
         \<and> (op = Unlink_Op \<longrightarrow> \<not> list_ex (\<lambda>r. resolves_to fs r p) (sp_writable_roots policy))))"
    unfolding allowed *(5) verdict by (auto split: if_splits option.splits)
  show "write_allowed included profile op p \<longleftrightarrow> \<not> ?D \<and> (?S \<or> (list_ex (root_grants fs p) (sp_writable_roots policy)
      \<and> (op = Unlink_Op \<longrightarrow> \<not> list_ex (\<lambda>r. resolves_to fs r p) (sp_writable_roots policy))))"
    if "\<And>f. included f op p = None"
    unfolding allowed *(5) verdict using that by auto
qed

text \<open>Carve-outs are compared as they are written. Where the file system puts them is the same place, unless their
  top-level directory is a symbolic link.\<close>

definition aliased_top :: "file_system \<Rightarrow> path \<Rightarrow> bool" where
  "aliased_top fs p = is_some_and (top_level p) (\<lambda>t. fs_entry_of fs t = Symlink)"

definition resolved_path :: "file_system \<Rightarrow> path \<Rightarrow> path" where
  "resolved_path fs p = (case normalize_top_level_alias fs p of Inl _ \<Rightarrow> p | Inr q \<Rightarrow> q)"

lemma resolved_unaliased: "\<not> aliased_top fs p \<Longrightarrow> resolved_path fs p = p"
  by (auto simp: aliased_top_def resolved_path_def normalize_top_level_alias_def split: option.splits)


definition child_policy_sample :: sandbox_policy where
  "child_policy_sample = codex_child_policy (path_of ''/h'') None"

definition plain_fs :: file_system where
  "plain_fs = \<lparr>fs_entry_of = (\<lambda>_. Directory), fs_canonical = Inr, fs_is_file = (\<lambda>_. True), fs_is_dir = (\<lambda>_. True),
     fs_read = (\<lambda>_. Inr [])\<rparr>"

lemmas profile_evals = build_profile_def build_access_policy_def deny_writes_def access_root_def absolute_root_def
  from_absolute_path_def normalize_def normalize_writable_root_def nested_symlink_component_def
  normalize_top_level_alias_def top_level_def ancestors_def path_parent_def is_absolute_def path_join_def

lemmas verdict_evals = write_allowed_def last_match_def section_verdict_def filter_matches_def scratch_roots_def
  path_of_def path_parts_def

lemma path_h [simp]: "path_of ''/h'' = [Root_Dir, Normal ''h'']" "path_of ''/h/x'' = [Root_Dir, Normal ''h'', Normal ''x'']"
  by (simp_all add: path_of_def path_parts_def)

lemma child_profile_sample: "build_profile plain_fs child_policy_sample =
   Inr ([Included Base_Policy, Read_Heading, Allow_All_Reads, Allow_Params Write_Access [Subpath_Param (param_key ''WRITABLE_ROOT'' 0)],
     Deny_Unlink (param_key ''WRITABLE_ROOT'' 0), Included Network_Policy, Allow_Network, Included Preferences_Policy,
     Included Read_Only_Platform_Defaults, Process_Platform_Defaults, Deny_Write (param_key ''DENY_WRITE'' 0)],
     [(param_key ''WRITABLE_ROOT'' 0, [Root_Dir, Normal ''h'']), (param_key ''DENY_WRITE'' 0, [Root_Dir, Normal ''h'', Normal ''rules''])])"
  by (simp add: child_policy_sample_def codex_child_policy_def plain_fs_def rules_subdir_def profile_evals access_prefix_def
    eval_nat_numeral)


section \<open>Parameters\<close>

definition section_keys :: "profile_section \<Rightarrow> string list" where
  "section_keys s = (case s of
     Allow_Params _ fs \<Rightarrow> map filter_key fs | Deny_Unlink k \<Rightarrow> [k] | Deny_Write k \<Rightarrow> [k] | _ \<Rightarrow> [])"

lemma normalize_from_absolute: "is_absolute out \<Longrightarrow> is_absolute (normalize_from out p)"
proof (induction out p rule: normalize_from.induct)
  case (3 out cs)
  then have "is_absolute (case path_parent out of None \<Rightarrow> out @ [Parent_Dir] | Some q \<Rightarrow> q)"
    by (cases out; cases "tl out") (auto simp: path_parent_def is_absolute_iff)
  with 3 show ?case by simp
qed (auto simp: is_absolute_iff)

lemma normalize_absolute: "is_absolute p \<Longrightarrow> is_absolute (normalize p)"
  using normalize_from_absolute[of "[Root_Dir]"] by (auto simp: normalize_def is_absolute_iff Let_def)

lemma normalize_writable_root_absolute:
  assumes "normalize_writable_root fs r = Inr n" "is_absolute r" shows "is_absolute (root_path n)"
proof -
  obtain p where p: "normalize_top_level_alias fs r = Inr p"
    using assms(1) by (auto simp: normalize_writable_root_def split: option.splits)
  then have "root_path n = p"
    using assms(1) by (cases "fs_entry_of fs p") (auto simp: normalize_writable_root_def split: option.splits)
  with p show ?thesis using assms(2)
    by (auto simp: normalize_top_level_alias_def from_absolute_path_def split: option.splits if_splits sum.splits
      dest: normalize_absolute)
qed

lemma write_params_absolute:
  assumes "build_access_policy fs Write_Access roots = Inr (writes, wps)" "\<forall>r \<in> set roots. is_absolute r" "(k, q) \<in> set wps"
  shows "is_absolute q"
proof -
  obtain fps where fps: "collect (\<lambda>(i, r). access_root fs Write_Access i r) (enumerate 0 roots) = Inr fps"
    "wps = map (\<lambda>(f, p). (filter_key f, p)) fps"
    using assms(1) by (auto simp: build_access_policy_def split: if_splits)
  then obtain f where "(f, q) \<in> set fps" using assms(3) by auto
  from collect_enumerate_mem[OF fps(1) this] obtain i r where
    r: "r \<in> set roots" "access_root fs Write_Access i r = Inr (f, q)" by blast
  then obtain n where n: "normalize_writable_root fs r = Inr n" by (auto simp: access_root_def Let_def)
  then have "root_path n = q" using r(2) by (cases n) (auto simp: access_root_def Let_def)
  then show ?thesis using normalize_writable_root_absolute[OF n] r(1) assms(2) by simp
qed

lemma write_section_keys:
  assumes "build_access_policy fs Write_Access roots = Inr (writes, wps)"
  shows "list_all (\<lambda>s. set (section_keys s) \<subseteq> fst ` set wps) writes"
proof -
  obtain fps where "wps = map (\<lambda>(f, p). (filter_key f, p)) fps"
    "writes = (if fps = [] then [Empty_Section]
       else Allow_Params Write_Access (map fst fps) # map (\<lambda>(f, _). Deny_Unlink (filter_key f)) fps)"
    using assms by (auto simp: build_access_policy_def split: if_splits)
  then show ?thesis by (force simp: section_keys_def list_all_iff image_iff split_def)
qed

text \<open>C30. A profile and its parameters fit: no parameter is given twice, every parameter a rule names is given,
  and every path given is absolute, provided reads are unrestricted as they are for the child process.\<close>

theorem profile_well_formed:
  assumes "build_profile fs policy = Inr (ss, ps)" "sp_full_disk_read policy"
  shows "distinct (map fst ps) \<and> list_all (\<lambda>s. set (section_keys s) \<subseteq> fst ` set ps) ss \<and> list_all (is_absolute \<circ> snd) ps"
proof -
  obtain reads roots writes wps ds where *: "collect absolute_root (sp_writable_roots policy) = Inr roots"
    "build_access_policy fs Write_Access roots = Inr (writes, wps)" "deny_writes (sp_deny_write_subpaths policy) = Inr ds"
    "ps = wps @ ds"
    "ss = (Included Base_Policy # reads) @ writes
       @ (if sp_network policy then [Included Network_Policy, Allow_Network] else [])
       @ (if sp_full_disk_read policy then [Included Preferences_Policy] else [])
       @ (if sp_platform_defaults policy then [Included Read_Only_Platform_Defaults, Process_Platform_Defaults] else [])
       @ map (\<lambda>(k, _). Deny_Write k) ds"
    "if sp_full_disk_read policy then reads = [Read_Heading, Allow_All_Reads]
     else reads = [Read_Heading, Allow_Params Read_Access [Subpath_Param (param_key ''READABLE_ROOT'' 0)]]"
    using assms(1) by (rule build_profileE)
  have "list_all (\<lambda>s. set (section_keys s) \<subseteq> fst ` set wps) writes"
    by (rule write_section_keys[OF *(2)])
  then have keys: "list_all (\<lambda>s. set (section_keys s) \<subseteq> fst ` set ps) ss"
    using *(6) assms(2) unfolding *(4,5) by (auto simp: list_all_iff section_keys_def) force+
  have "\<forall>r \<in> set roots. is_absolute r"
    using *(1) by (auto simp: collect_Inr_iff list_all2_conv_all_nth in_set_conv_nth absolute_root_Inr normalize_absolute)
  then have "list_all (is_absolute \<circ> snd) wps" using write_params_absolute[OF *(2)] by (auto simp: list_all_iff)
  moreover have "list_all (is_absolute \<circ> snd) ds"
    using deny_writes_eq[of 0 "sp_deny_write_subpaths policy" ds] *(3)
    by (auto simp: deny_writes_def list_all_iff normalize_absolute in_set_enumerate_eq)
  ultimately show ?thesis using profile_keys(2)[OF assms(1)] keys *(4) by simp
qed

lemma profile_well_formed_witness:
  "distinct (map fst (snd (projr (build_profile plain_fs child_policy_sample))))"
proof -
  have "sp_full_disk_read child_policy_sample" by (simp add: child_policy_sample_def codex_child_policy_def)
  from profile_well_formed[OF child_profile_sample this] show ?thesis unfolding child_profile_sample by simp
qed

text \<open>Unless reads are unrestricted: the parameter of the read rule is never given.\<close>

lemma narrow_read_parameter_missing:
  assumes "build_profile fs policy = Inr (ss, ps)" "\<not> sp_full_disk_read policy"
  shows "Allow_Params Read_Access [Subpath_Param (param_key ''READABLE_ROOT'' 0)] \<in> set ss
    \<and> map_of ps (param_key ''READABLE_ROOT'' 0) = None"
proof -
  have "param_key ''READABLE_ROOT'' 0 \<notin> set (map fst ps)"
    unfolding profile_keys(1)[OF assms(1)] by (auto simp: param_key_def)
  moreover have "Allow_Params Read_Access [Subpath_Param (param_key ''READABLE_ROOT'' 0)] \<in> set ss"
    using assms by (auto elim!: build_profileE)
  ultimately show ?thesis by (simp add: map_of_eq_None_iff)
qed

section \<open>No path enters the profile\<close>

definition literal_root :: "file_system \<Rightarrow> path \<Rightarrow> bool" where
  "literal_root fs r = (case normalize_writable_root fs r of Inr (Literal _) \<Rightarrow> True | _ \<Rightarrow> False)"

definition root_filter :: "nat \<Rightarrow> bool \<Rightarrow> param_filter" where
  "root_filter i lit = (if lit then Literal_Param else Subpath_Param) (param_key ''WRITABLE_ROOT'' i)"

lemma access_root_filter: "access_root fs Write_Access i r = Inr fp \<Longrightarrow> fst fp = root_filter i (literal_root fs r)"
proof -
  assume "access_root fs Write_Access i r = Inr fp"
  then obtain n where n: "normalize_writable_root fs r = Inr n" "fp = (case n of
       Subpath p \<Rightarrow> (Subpath_Param (param_key (access_prefix Write_Access) i), p)
     | Literal p \<Rightarrow> (Literal_Param (param_key (access_prefix Write_Access) i), p))"
    by (auto simp: access_root_def Let_def)
  then show ?thesis by (cases n) (simp_all add: root_filter_def literal_root_def access_prefix_def)
qed

lemma collect_filters:
  "collect (\<lambda>(i, r). access_root fs Write_Access i r) (enumerate n roots) = Inr fps \<Longrightarrow>
     map fst fps = map (\<lambda>(i, r). root_filter i (literal_root fs r)) (enumerate n roots)"
  by (induction roots arbitrary: n fps) (auto dest: access_root_filter)

lemma filters_by_shape:
  "map (literal_root fs) roots = map (literal_root fs') roots' \<Longrightarrow>
     map (\<lambda>(i, r). root_filter i (literal_root fs r)) (enumerate n roots)
       = map (\<lambda>(i, r). root_filter i (literal_root fs' r)) (enumerate n roots')"
  by (induction roots roots' arbitrary: n rule: list_induct2') auto

lemma write_sections:
  assumes "build_access_policy fs Write_Access roots = Inr (writes, wps)"
  shows "writes = (let fs = map (\<lambda>(i, r). root_filter i (literal_root fs r)) (enumerate 0 roots)
    in if fs = [] then [Empty_Section] else Allow_Params Write_Access fs # map (\<lambda>f. Deny_Unlink (filter_key f)) fs)"
proof -
  obtain fps where fps: "collect (\<lambda>(i, r). access_root fs Write_Access i r) (enumerate 0 roots) = Inr fps"
    "writes = (if fps = [] then [Empty_Section]
       else Allow_Params Write_Access (map fst fps) # map (\<lambda>(f, _). Deny_Unlink (filter_key f)) fps)"
    using assms by (auto simp: build_access_policy_def split: if_splits)
  have "fps = [] \<longleftrightarrow> map fst fps = []" by simp
  moreover have "map (\<lambda>(f, _). Deny_Unlink (filter_key f)) fps = map (\<lambda>f. Deny_Unlink (filter_key f)) (map fst fps)"
    by (simp add: comp_def split_def)
  ultimately show ?thesis using fps(2) unfolding collect_filters[OF fps(1), symmetric] by (simp add: Let_def)
qed

text \<open>No path can break out into the profile: its text depends on the flags of the policy, on the number of
  its roots and exceptions and on which roots are directories, and on nothing else, so the characters of a
  path never occur in it.\<close>

theorem profile_text_hides_paths:
  assumes "profile_text texts fs policy = Inr t" "profile_text texts fs' policy' = Inr t'"
    and "sp_full_disk_read policy = sp_full_disk_read policy'" "sp_network policy = sp_network policy'"
    and "sp_platform_defaults policy = sp_platform_defaults policy'"
    and "length (sp_deny_write_subpaths policy) = length (sp_deny_write_subpaths policy')"
    and "map (literal_root fs \<circ> normalize) (sp_writable_roots policy) = map (literal_root fs' \<circ> normalize) (sp_writable_roots policy')"
  shows "t = t'"
proof -
  have roots: "qs = map normalize ps" if "collect absolute_root ps = Inr qs" for ps qs
    using that by (induction ps arbitrary: qs) (auto simp: absolute_root_Inr)
  have shape: "ss = (Included Base_Policy # (if sp_full_disk_read policy then [Read_Heading, Allow_All_Reads]
         else [Read_Heading, Allow_Params Read_Access [Subpath_Param (param_key ''READABLE_ROOT'' 0)]]))
       @ (let fs = map (\<lambda>(i, r). root_filter i (literal_root fs r)) (enumerate 0 (map normalize (sp_writable_roots policy)))
          in if fs = [] then [Empty_Section] else Allow_Params Write_Access fs # map (\<lambda>f. Deny_Unlink (filter_key f)) fs)
       @ (if sp_network policy then [Included Network_Policy, Allow_Network] else [])
       @ (if sp_full_disk_read policy then [Included Preferences_Policy] else [])
       @ (if sp_platform_defaults policy then [Included Read_Only_Platform_Defaults, Process_Platform_Defaults] else [])
       @ map Deny_Write (map (param_key ''DENY_WRITE'') [0 ..< length (sp_deny_write_subpaths policy)])"
    if built: "build_profile fs policy = Inr (ss, ps)" for fs policy ss ps
    using built
  proof (rule build_profileE)
    fix reads roots' writes wps ds
    assume *: "collect absolute_root (sp_writable_roots policy) = Inr roots'"
      "build_access_policy fs Write_Access roots' = Inr (writes, wps)" "deny_writes (sp_deny_write_subpaths policy) = Inr ds"
      "ss = (Included Base_Policy # reads) @ writes
       @ (if sp_network policy then [Included Network_Policy, Allow_Network] else [])
       @ (if sp_full_disk_read policy then [Included Preferences_Policy] else [])
       @ (if sp_platform_defaults policy then [Included Read_Only_Platform_Defaults, Process_Platform_Defaults] else [])
       @ map (\<lambda>(k, _). Deny_Write k) ds"
      "if sp_full_disk_read policy then reads = [Read_Heading, Allow_All_Reads]
       else reads = [Read_Heading, Allow_Params Read_Access [Subpath_Param (param_key ''READABLE_ROOT'' 0)]]"
    have "map (\<lambda>(k, _). Deny_Write k) ds = map Deny_Write (map fst ds)" by (simp add: comp_def split_def)
    then show ?thesis
      using *(5) write_sections[OF *(2)] denied_keys[OF *(3)] roots[OF *(1)] unfolding *(4) by (cases "sp_full_disk_read policy") simp_all
  qed
  obtain ss ps ss' ps' where built: "build_profile fs policy = Inr (ss, ps)" "build_profile fs' policy' = Inr (ss', ps')"
    and texts: "t = sections_text texts ss" "t' = sections_text texts ss'"
    using assms(1,2) by (auto simp: profile_text_def)
  have "map (\<lambda>(i, r). root_filter i (literal_root fs r)) (enumerate 0 (map normalize (sp_writable_roots policy)))
      = map (\<lambda>(i, r). root_filter i (literal_root fs' r)) (enumerate 0 (map normalize (sp_writable_roots policy')))"
    by (rule filters_by_shape) (use assms(7) in simp)
  then have "ss = ss'" unfolding shape[OF built(1)] shape[OF built(2)] by (simp only: assms(3-6))
  then show ?thesis using texts by simp
qed

lemma profile_text_hides_paths_witness:
  "profile_text (\<lambda>_. []) plain_fs child_policy_sample = profile_text (\<lambda>_. []) plain_fs (codex_child_policy (path_of ''/h/x'') None)"
proof -
  have "\<exists>t. profile_text (\<lambda>_. []) plain_fs child_policy_sample = Inr t" by (simp add: profile_text_def child_profile_sample)
  moreover have "\<exists>t. profile_text (\<lambda>_. []) plain_fs (codex_child_policy (path_of ''/h/x'') None) = Inr t"
    by (simp add: profile_text_def codex_child_policy_def plain_fs_def rules_subdir_def profile_evals access_prefix_def eval_nat_numeral)
  ultimately obtain t t' where t: "profile_text (\<lambda>_. []) plain_fs child_policy_sample = Inr t"
    "profile_text (\<lambda>_. []) plain_fs (codex_child_policy (path_of ''/h/x'') None) = Inr t'" by blast
  have "t = t'"
    by (rule profile_text_hides_paths[OF t])
      (simp_all add: child_policy_sample_def codex_child_policy_def literal_root_def plain_fs_def profile_evals eval_nat_numeral)
  with t show ?thesis by simp
qed

section \<open>Limits of the confinement\<close>

text \<open>
  A carved-out path is compared as written while a writable root below an aliased top level is granted as
  resolved, so with a home under such an alias the rules directory stays writable.
\<close>

definition alias_fs :: file_system where
  "alias_fs = plain_fs\<lparr>fs_entry_of := (\<lambda>p. if p = path_of ''/tmp'' then Symlink else Directory),
     fs_canonical := (\<lambda>p. if p = path_of ''/tmp'' then Inr (path_of ''/private/tmp'') else Inr p)\<rparr>"

lemma aliased_carve_out_is_writable:
  "write_allowed (\<lambda>_ _ _. None) (projr (build_profile alias_fs (codex_child_policy (path_of ''/tmp/h'') None))) Write_Op
     (path_of ''/private/tmp/h/rules/default.rules'')"
  by (simp add: codex_child_policy_def alias_fs_def plain_fs_def rules_subdir_def profile_evals access_prefix_def eval_nat_numeral
    verdict_evals param_key_def)

text \<open>The rule that protects a root from being unlinked comes before the scratch directories, which reopen it.\<close>

lemma scratch_reopens_anchor:
  "write_allowed (\<lambda>_ _ _. None) (projr (build_profile plain_fs (codex_child_policy (path_of ''/h'') (Some (path_of ''/private/tmp/t''))))) Unlink_Op
     (path_of ''/private/tmp/t'')"
  by (simp add: codex_child_policy_def plain_fs_def rules_subdir_def profile_evals access_prefix_def eval_nat_numeral
    verdict_evals param_key_def)

text \<open>A root that does not exist is granted as a whole subtree, and the parent of the root stays in the path.\<close>

lemma missing_root_is_subtree:
  assumes "nested_symlink_component fs r = None" "normalize_top_level_alias fs r = Inr p" "fs_entry_of fs p = No_Entry"
  shows "normalize_writable_root fs r = Inr (Subpath p)"
  using assms by (simp add: normalize_writable_root_def)

lemma parent_of_root_kept:
  "map (path_text \<circ> normalize \<circ> path_of) [''/..'', ''/../..'', ''/a/./b/../c//d''] = [''/..'', ''/'', ''/a/c/d'']"
  by (simp add: normalize_def path_of_def path_parts_def path_parent_def path_text_def part_text_def join_with_def)

section \<open>Failing closed\<close>

text \<open>C31. Confinement fails closed: a command is only ever handed out wrapped by the pinned tool, with a profile
  built from the policy and the command after the separator, and only after a probe in which a write inside the
  granted root happened and one outside did not.\<close>

theorem confined_or_refused:
  assumes "confined_argv v texts fs command policy = Inr argv"
  shows "pv_macos v \<and> pv_tool_is_file v \<and> pv_wrote_inside v \<and> \<not> pv_wrote_outside v \<and> command \<noteq> []
    \<and> (\<exists>t ps. profile_text texts fs policy = Inr t
          \<and> argv = [''/usr/bin/sandbox-exec'', ''-p'', t] @ map param_argument ps @ [''--''] @ command)"
proof -
  have "probe v = Available" using assms by (auto simp: confined_argv_def split: availability.splits)
  then have "pv_macos v \<and> pv_tool_is_file v \<and> pv_wrote_inside v \<and> \<not> pv_wrote_outside v"
    by (auto simp: probe_def probe_commands_def split: if_splits sum.splits)
  moreover have "sandbox_command texts fs command policy = Inr argv"
    using assms \<open>probe v = Available\<close> by (auto simp: confined_argv_def split: sum.splits)
  ultimately show ?thesis
    by (auto simp: sandbox_command_def profile_text_def sandbox_exec_path_def split: if_splits)
qed

definition good_sight :: probe_sight where
  "good_sight = \<lparr>pv_macos = True, pv_tool_is_file = True, pv_home = Some (path_of ''/h''), pv_inside = Inr (), pv_wrote_inside = True,
     pv_outside = Inr (), pv_wrote_outside = False\<rparr>"

lemma confined_or_refused_witness:
  "is_ok (confined_argv good_sight (\<lambda>_. []) plain_fs [''codex''] child_policy_sample) \<and> pv_macos good_sight"
proof -
  obtain argv where "confined_argv good_sight (\<lambda>_. []) plain_fs [''codex''] child_policy_sample = Inr argv"
    by (simp add: confined_argv_def good_sight_def probe_def probe_commands_def sandbox_command_def child_profile_sample)
  with confined_or_refused[OF this] show ?thesis by simp
qed

end
