(* ===== verification/Agent_Rpc.thy ===== *)
theory Agent_Rpc
  imports Json_Values Db_Common "HOL-Library.Multiset"
begin

text \<open>
  The connection to the agent runtime: \<open>agent/protocol.rs\<close> (classification of the messages of the child
  and the parameters of the calls) and \<open>agent/app_server.rs\<close> (the client as a state machine over the
  lines of the child, the requests of the host and their deadlines). Parsing a line is a parameter; the
  process, its pipes and its environment beyond the filter of the names are not modelled.
\<close>

section \<open>Messages\<close>

datatype incoming =
    In_Request int string "json option"
  | In_Response int json
  | In_Error int json
  | In_Notification string "json option"

definition classify_answer :: "(string \<times> json) list \<Rightarrow> incoming option" where
  "classify_answer obj = (case Option.bind (map_of obj ''id'') json_i64 of
     None \<Rightarrow> None
   | Some i \<Rightarrow> (case map_of obj ''error'' of
        Some e \<Rightarrow> Some (In_Error i e)
      | None \<Rightarrow> map_option (In_Response i) (map_of obj ''result'')))"

definition classify_message :: "json \<Rightarrow> incoming option" where
  "classify_message message = (case json_object message of
     None \<Rightarrow> None
   | Some obj \<Rightarrow> (case Option.bind (map_of obj ''method'') json_str of
        Some m \<Rightarrow> (case map_of obj ''id'' of
            None \<Rightarrow> Some (In_Notification m (map_of obj ''params''))
          | Some v \<Rightarrow> map_option (\<lambda>i. In_Request i m (map_of obj ''params'')) (json_i64 v))
      | None \<Rightarrow> classify_answer obj))"

definition rpc_response :: "int \<Rightarrow> json \<Rightarrow> json" where
  "rpc_response i result = JObject [(''id'', JNumber (show_nat (nat i))), (''result'', result)]"

text \<open>\<open>METHOD_NOT_IMPLEMENTED\<close>.\<close>

definition method_not_implemented :: int where "method_not_implemented = - 32601"

datatype rpc_frame =
    Request_Frame int string json
  | Response_Frame int json
  | Error_Frame int int string

definition not_implemented :: "int \<Rightarrow> string \<Rightarrow> rpc_frame" where
  "not_implemented i m = Error_Frame i method_not_implemented (''`'' @ m @ ''` is not implemented by this client'')"

section \<open>Parameters of the calls\<close>

definition initialize_params :: "string \<Rightarrow> string \<Rightarrow> string \<Rightarrow> json" where
  "initialize_params client title version = JObject
     [(''clientInfo'', JObject [(''name'', JString client), (''title'', JString title), (''version'', JString version)]),
      (''capabilities'', JObject [(''experimentalApi'', JBool True)])]"

datatype approval_policy = Unless_Trusted | On_Request | Never_Ask

definition policy_as_wire :: "approval_policy \<Rightarrow> string" where
  "policy_as_wire p = (case p of Unless_Trusted \<Rightarrow> ''untrusted'' | On_Request \<Rightarrow> ''on-request'' | Never_Ask \<Rightarrow> ''never'')"

datatype approvals_reviewer = Owner_Reviews | Auto_Review

definition reviewer_as_wire :: "approvals_reviewer \<Rightarrow> string" where
  "reviewer_as_wire r = (case r of Owner_Reviews \<Rightarrow> ''user'' | Auto_Review \<Rightarrow> ''auto_review'')"

definition thread_start_params :: "string \<Rightarrow> bool \<Rightarrow> string \<Rightarrow> approval_policy \<Rightarrow> approvals_reviewer option
    \<Rightarrow> string option \<Rightarrow> json list \<Rightarrow> json" where
  "thread_start_params cwd ephemeral sandbox policy reviewer instructions tools = JObject
     ([(''cwd'', JString cwd), (''ephemeral'', JBool ephemeral), (''sandbox'', JString sandbox),
       (''approvalPolicy'', JString (policy_as_wire policy)), (''dynamicTools'', JArray tools)]
      @ (case reviewer of None \<Rightarrow> [] | Some r \<Rightarrow> [(''approvalsReviewer'', JString (reviewer_as_wire r))])
      @ (case instructions of None \<Rightarrow> [] | Some t \<Rightarrow> if blank t then [] else [(''developerInstructions'', JString t)]))"

definition turn_start_params :: "string \<Rightarrow> string \<Rightarrow> json option \<Rightarrow> (string \<times> string) option \<Rightarrow> json" where
  "turn_start_params thread_id text schema context = JObject
     ([(''threadId'', JString thread_id),
       (''input'', JArray [JObject [(''type'', JString ''text''), (''text'', JString text)]])]
      @ (case schema of None \<Rightarrow> [] | Some s \<Rightarrow> [(''outputSchema'', s)])
      @ (case context of None \<Rightarrow> []
         | Some (source, value) \<Rightarrow> [(''additionalContext'', JObject [(source, JObject
              [(''kind'', JString ''application''), (''value'', JString value)])])]))"

definition skill_roots_params :: "string list \<Rightarrow> json" where
  "skill_roots_params roots = JObject [(''extraRoots'', JArray (map JString roots))]"

definition skills_list_params :: "string list \<Rightarrow> bool \<Rightarrow> json" where
  "skills_list_params cwds force_reload =
     JObject [(''cwds'', JArray (map JString cwds)), (''forceReload'', JBool force_reload)]"

section \<open>The client\<close>

datatype server_message = Server_Request int string json | Server_Notification string "json option"

datatype agent_error =
    Agent_Transport string
  | Remote_Error int json
  | Request_Timed_Out string
  | Agent_Closed string
  | Unexpected_Response string
  | Turn_Timed_Out string bool nat
  | Too_Many_Tool_Calls nat
  | Turn_Failed string "json option"

text \<open>
  \<open>rc_pending\<close> are the ids of the map of in-flight requests, \<open>rc_waiting\<close> is the request whose caller
  awaits the answer (the client is borrowed mutably, so there is at most one), \<open>rc_returned\<close> what the
  calls have returned so far, newest last, \<open>rc_sent\<close> the frames that were written.
\<close>

record rpc_client =
  rc_next_id :: int
  rc_pending :: "int list"
  rc_waiting :: "(int \<times> string) option"
  rc_returned :: "(int \<times> (agent_error + json)) list"
  rc_messages :: "server_message list"
  rc_stderr :: "string list"
  rc_sent :: "rpc_frame list"
  rc_reading :: bool

definition rpc_start :: rpc_client where
  "rpc_start = \<lparr>rc_next_id = 1, rc_pending = [], rc_waiting = None, rc_returned = [], rc_messages = [],
     rc_stderr = [], rc_sent = [], rc_reading = True\<rparr>"

definition stderr_tail_lines :: nat where "stderr_tail_lines = 200"

text \<open>\<open>request\<close> up to the wait: a write that fails returns at once and leaves nothing pending.\<close>

definition begin_request :: "string \<Rightarrow> json \<Rightarrow> unit result \<Rightarrow> rpc_client \<Rightarrow> rpc_client" where
  "begin_request m params written c =
     (let i = rc_next_id c; c = c\<lparr>rc_next_id := i + 1\<rparr>
      in case written of
           Inl e \<Rightarrow> c\<lparr>rc_returned := rc_returned c @ [(i, Inl (Agent_Transport m))]\<rparr>
         | Inr _ \<Rightarrow> c\<lparr>rc_pending := i # rc_pending c, rc_waiting := Some (i, m),
             rc_sent := rc_sent c @ [Request_Frame i m params]\<rparr>)"

text \<open>The one-shot channel of a request: what is sent reaches the caller if it still waits.\<close>

definition send_answer :: "int \<Rightarrow> agent_error + json \<Rightarrow> rpc_client \<Rightarrow> rpc_client" where
  "send_answer i r c =
     (if i \<in> set (rc_pending c)
      then (let c = c\<lparr>rc_pending := remove1 i (rc_pending c)\<rparr>
            in if map_option fst (rc_waiting c) = Some i
               then c\<lparr>rc_waiting := None, rc_returned := rc_returned c @ [(i, r)]\<rparr> else c)
      else c)"

definition dispatch_line :: "(string \<Rightarrow> json option) \<Rightarrow> string \<Rightarrow> rpc_client \<Rightarrow> rpc_client" where
  "dispatch_line parse line c = (case Option.bind (parse line) classify_message of
     None \<Rightarrow> c
   | Some (In_Response i v) \<Rightarrow> send_answer i (Inr v) c
   | Some (In_Error i e) \<Rightarrow> send_answer i (Inl (Remote_Error i e)) c
   | Some (In_Request i m ps) \<Rightarrow>
       c\<lparr>rc_messages := rc_messages c @ [Server_Request i m (case ps of None \<Rightarrow> JNull | Some v \<Rightarrow> v)]\<rparr>
   | Some (In_Notification m ps) \<Rightarrow> c\<lparr>rc_messages := rc_messages c @ [Server_Notification m ps]\<rparr>)"

definition timeout_request :: "rpc_client \<Rightarrow> rpc_client" where
  "timeout_request c = (case rc_waiting c of
     None \<Rightarrow> c
   | Some (i, m) \<Rightarrow> c\<lparr>rc_pending := remove1 i (rc_pending c), rc_waiting := None,
       rc_returned := rc_returned c @ [(i, Inl (Request_Timed_Out m))]\<rparr>)"

definition fail_all :: "rpc_client \<Rightarrow> rpc_client" where
  "fail_all c = fold (\<lambda>i. send_answer i (Inl (Agent_Closed ''app-server stdout reached EOF''))) (rc_pending c) c"

definition note_stderr :: "string \<Rightarrow> rpc_client \<Rightarrow> rpc_client" where
  "note_stderr line c = c\<lparr>rc_stderr :=
     (if length (rc_stderr c) = stderr_tail_lines then tl (rc_stderr c) else rc_stderr c) @ [line]\<rparr>"

text \<open>What can happen next: \<open>Abandon\<close> is a caller that drops the future of its request.\<close>

datatype rpc_event =
    Begin_Request string json "unit result"
  | Line_Read string
  | Reader_Eof
  | Deadline_Passed
  | Abandon
  | Stderr_Line string

definition rpc_step :: "(string \<Rightarrow> json option) \<Rightarrow> rpc_event \<Rightarrow> rpc_client \<Rightarrow> rpc_client" where
  "rpc_step parse e c = (case e of
     Begin_Request m ps w \<Rightarrow> if rc_waiting c = None then begin_request m ps w c else c
   | Line_Read line \<Rightarrow> if rc_reading c then dispatch_line parse line c else c
   | Reader_Eof \<Rightarrow> if rc_reading c then (fail_all c)\<lparr>rc_reading := False\<rparr> else c
   | Deadline_Passed \<Rightarrow> timeout_request c
   | Abandon \<Rightarrow> c\<lparr>rc_waiting := None\<rparr>
   | Stderr_Line line \<Rightarrow> note_stderr line c)"

definition rpc_run :: "(string \<Rightarrow> json option) \<Rightarrow> rpc_event list \<Rightarrow> rpc_client" where
  "rpc_run parse es = fold (rpc_step parse) es rpc_start"

section \<open>Skills\<close>

record skill_info =
  sk_name :: string
  sk_path :: string
  sk_description :: string
  sk_scope :: "string option"
  sk_enabled :: "bool option"

fun first_by_name :: "string set \<Rightarrow> skill_info list \<Rightarrow> skill_info list" where
  "first_by_name seen [] = []"
| "first_by_name seen (s # ss) =
     (if sk_name s \<in> seen then first_by_name seen ss else s # first_by_name (insert (sk_name s) seen) ss)"

definition listed_skills :: "(json \<Rightarrow> skill_info option) \<Rightarrow> json \<Rightarrow> skill_info list" where
  "listed_skills decode result =
     List.map_filter decode (concat (map (member_array ''skills'') (member_array ''data'' result)))"

definition list_skills :: "(json \<Rightarrow> skill_info option) \<Rightarrow> json \<Rightarrow> skill_info list" where
  "list_skills decode result = sort_key sk_name (first_by_name {} (listed_skills decode result))"

section \<open>The environment of the child\<close>

definition env_whitelist :: "string list" where
  "env_whitelist = [''PATH'', ''HOME'', ''USER'', ''LOGNAME'', ''SHELL'', ''TMPDIR'', ''LANG'', ''LC_ALL'', ''TERM'', ''CODEX_HOME'']"

definition child_env :: "(string \<Rightarrow> string option) \<Rightarrow> (string \<times> string) list" where
  "child_env var = List.map_filter (\<lambda>n. map_option (Pair n) (var n))
     (filter (\<lambda>n. \<not> starts_with n ''TAOLI_'') env_whitelist)"

section \<open>Facts\<close>

text \<open>A frame of the client is classified by the peer as what it is meant to be.\<close>

lemma classify_response: "0 \<le> i \<Longrightarrow> i < 2 ^ 63 \<Longrightarrow> classify_message (rpc_response i v) = Some (In_Response i v)"
  using json_i64_show_nat[of "nat i"] by (simp add: classify_message_def classify_answer_def rpc_response_def nat_less_iff)

definition rpc_inv :: "rpc_client \<Rightarrow> bool" where
  "rpc_inv c \<longleftrightarrow> distinct (rc_pending c) \<and> distinct (map fst (rc_returned c))
     \<and> (\<forall>i \<in> set (rc_pending c) \<union> fst ` set (rc_returned c). i < rc_next_id c)
     \<and> set (rc_pending c) \<inter> fst ` set (rc_returned c) = {}
     \<and> (\<forall>i m. rc_waiting c = Some (i, m) \<longrightarrow> i \<in> set (rc_pending c))
     \<and> length (rc_stderr c) \<le> stderr_tail_lines"

lemma rpc_start_inv: "rpc_inv rpc_start"
  by (simp add: rpc_inv_def rpc_start_def)

lemma begin_request_inv:
  assumes "rpc_inv c" "rc_waiting c = None"
  shows "rpc_inv (begin_request m ps w c)"
proof -
  have "\<forall>i \<in> set (rc_pending c) \<union> fst ` set (rc_returned c). i < rc_next_id c"
    using assms by (simp add: rpc_inv_def)
  then have fresh: "rc_next_id c \<notin> set (rc_pending c)" "rc_next_id c \<notin> fst ` set (rc_returned c)"
    by blast+
  have later: "\<forall>i \<in> set (rc_pending c) \<union> fst ` set (rc_returned c). i < rc_next_id c + 1"
    using \<open>\<forall>i \<in> _. _\<close> by (meson zless_add1_eq)
  show ?thesis
    using assms fresh later by (cases w) (simp_all add: rpc_inv_def begin_request_def Let_def)
qed

lemma send_answer_inv: "rpc_inv c \<Longrightarrow> rpc_inv (send_answer i r c)"
  by (auto simp: rpc_inv_def send_answer_def Let_def split: option.splits)

lemma rpc_inv_messages [simp]: "rpc_inv (c\<lparr>rc_messages := ms\<rparr>) = rpc_inv c"
  by (simp add: rpc_inv_def)

lemma dispatch_line_inv: "rpc_inv c \<Longrightarrow> rpc_inv (dispatch_line parse line c)"
  by (simp add: dispatch_line_def send_answer_inv split: option.split incoming.split)

lemma fold_send_answer_inv: "rpc_inv c \<Longrightarrow> rpc_inv (fold (\<lambda>i. send_answer i r) is c)"
  by (induction "is" arbitrary: c) (simp_all add: send_answer_inv)

lemma rpc_step_inv:
  assumes inv: "rpc_inv c" shows "rpc_inv (rpc_step parse e c)"
proof (cases e)
  case (Begin_Request m ps w)
  then show ?thesis using inv begin_request_inv by (simp add: rpc_step_def)
next
  case (Line_Read line)
  then show ?thesis using inv by (simp add: rpc_step_def dispatch_line_inv)
next
  case Reader_Eof
  have "rpc_inv (fail_all c)" using inv by (simp add: fail_all_def fold_send_answer_inv)
  then show ?thesis using Reader_Eof inv by (simp add: rpc_step_def rpc_inv_def)
next
  case Deadline_Passed
  then show ?thesis using inv
    by (auto simp: rpc_step_def timeout_request_def rpc_inv_def split: option.splits)
next
  case Abandon
  then show ?thesis using inv by (simp add: rpc_step_def rpc_inv_def)
next
  case (Stderr_Line line)
  then show ?thesis using inv by (auto simp: rpc_step_def note_stderr_def rpc_inv_def stderr_tail_lines_def)
qed

lemma rpc_run_inv: "rpc_inv (rpc_run parse es)"
  unfolding rpc_run_def by (induction es rule: rev_induct) (simp_all add: rpc_start_inv rpc_step_inv)

section \<open>Answers\<close>

lemma send_answer_returned:
  "x \<in> set (rc_returned (send_answer i r c)) \<Longrightarrow>
     x \<in> set (rc_returned c) \<or> (x = (i, r) \<and> map_option fst (rc_waiting c) = Some i)"
  by (auto simp: send_answer_def Let_def split: if_splits)

lemma fail_all_returned: "(i, Inr v) \<in> set (rc_returned (fail_all c)) \<Longrightarrow> (i, Inr v) \<in> set (rc_returned c)"
proof -
  have "(i, Inr v) \<in> set (rc_returned (fold (\<lambda>j. send_answer j (Inl e)) is c)) \<Longrightarrow> (i, Inr v) \<in> set (rc_returned c)"
    for "is" e c
    by (induction "is" arbitrary: c) (auto dest!: send_answer_returned)
  then show "(i, Inr v) \<in> set (rc_returned (fail_all c)) \<Longrightarrow> ?thesis" by (simp add: fail_all_def)
qed

lemma rpc_step_answer:
  assumes "(i, Inr v) \<in> set (rc_returned (rpc_step parse e c))" "(i, Inr v) \<notin> set (rc_returned c)"
  shows "\<exists>line m. e = Line_Read line \<and> Option.bind (parse line) classify_message = Some (In_Response i v)
    \<and> rc_waiting c = Some (i, m)"
proof (cases e)
  case (Line_Read line)
  have "(i, Inr v) \<in> set (rc_returned (dispatch_line parse line c))" using assms Line_Read by (auto simp: rpc_step_def split: if_splits)
  then show ?thesis using assms(2) Line_Read
    by (auto simp: dispatch_line_def split: option.splits incoming.splits dest!: send_answer_returned)
qed (use assms in \<open>auto simp: rpc_step_def begin_request_def Let_def timeout_request_def note_stderr_def
       split: if_splits sum.splits option.splits dest: fail_all_returned\<close>)

lemma rpc_run_snoc: "rpc_run parse (es @ [e]) = rpc_step parse e (rpc_run parse es)"
  by (simp add: rpc_run_def)

text \<open>C36. Whatever the order of lines, deadlines and abandoned calls, a call returns a result only from a line
  read while it waited that answers its own id, no id returns twice, and at most the retained number of
  stderr lines is kept.\<close>

theorem rpc_answers_match:
  assumes "(i, Inr v) \<in> set (rc_returned (rpc_run parse es))"
  shows "(\<exists>pre line post m. es = pre @ Line_Read line # post
      \<and> Option.bind (parse line) classify_message = Some (In_Response i v)
      \<and> rc_waiting (rpc_run parse pre) = Some (i, m))
    \<and> distinct (map fst (rc_returned (rpc_run parse es)))
    \<and> length (rc_stderr (rpc_run parse es)) \<le> stderr_tail_lines"
proof -
  have "\<exists>pre line post m. es = pre @ Line_Read line # post
      \<and> Option.bind (parse line) classify_message = Some (In_Response i v)
      \<and> rc_waiting (rpc_run parse pre) = Some (i, m)"
    using assms
  proof (induction es rule: rev_induct)
    case Nil
    then show ?case by (simp add: rpc_run_def rpc_start_def)
  next
    case (snoc e es)
    show ?case
    proof (cases "(i, Inr v) \<in> set (rc_returned (rpc_run parse es))")
      case True
      then obtain pre line post m where "es = pre @ Line_Read line # post"
        "Option.bind (parse line) classify_message = Some (In_Response i v)"
        "rc_waiting (rpc_run parse pre) = Some (i, m)" using snoc.IH by blast
      then show ?thesis by (metis append_Cons append_assoc)
    next
      case False
      from rpc_step_answer[OF snoc.prems[unfolded rpc_run_snoc] False] show ?thesis by blast
    qed
  qed
  then show ?thesis using rpc_run_inv[of parse es] by (simp add: rpc_inv_def)
qed

text \<open>The messages of the runtime reach the host in the order of their lines, up to the end of the output.\<close>

definition message_of :: "(string \<Rightarrow> json option) \<Rightarrow> rpc_event \<Rightarrow> server_message option" where
  "message_of parse e = (case e of
     Line_Read line \<Rightarrow> (case Option.bind (parse line) classify_message of
        Some (In_Request i m ps) \<Rightarrow> Some (Server_Request i m (case ps of None \<Rightarrow> JNull | Some v \<Rightarrow> v))
      | Some (In_Notification m ps) \<Rightarrow> Some (Server_Notification m ps)
      | _ \<Rightarrow> None)
   | _ \<Rightarrow> None)"

lemma send_answer_frame [simp]:
  "rc_messages (send_answer i r c) = rc_messages c" "rc_reading (send_answer i r c) = rc_reading c"
  by (simp_all add: send_answer_def Let_def)

lemma fail_all_frame [simp]: "rc_messages (fail_all c) = rc_messages c" "rc_reading (fail_all c) = rc_reading c"
proof -
  have "rc_messages (fold (\<lambda>i. send_answer i r) is c) = rc_messages c
      \<and> rc_reading (fold (\<lambda>i. send_answer i r) is c) = rc_reading c" for r "is" c
    by (induction "is" arbitrary: c) simp_all
  then show "rc_messages (fail_all c) = rc_messages c" "rc_reading (fail_all c) = rc_reading c"
    by (simp_all add: fail_all_def)
qed

lemma messages_in_order:
  assumes "Reader_Eof \<notin> set es"
  shows "rc_messages (rpc_run parse es) = List.map_filter (message_of parse) es \<and> rc_reading (rpc_run parse es)"
  using assms
proof (induction es rule: rev_induct)
  case Nil
  show ?case by (simp add: rpc_run_def rpc_start_def map_filter_simps)
next
  case (snoc e es)
  then show ?case
    by (cases e) (auto simp: rpc_run_snoc rpc_step_def message_of_def dispatch_line_def begin_request_def
      timeout_request_def note_stderr_def Let_def map_filter_def split: option.split incoming.split sum.split)
qed

lemma first_by_name_spec:
  "distinct (map sk_name (first_by_name seen ss)) \<and> sk_name ` set (first_by_name seen ss) = sk_name ` set ss - seen
    \<and> set (first_by_name seen ss) \<subseteq> set ss"
  by (induction ss arbitrary: seen) auto

text \<open>The listed skills are sorted by name and hold exactly the names of the readable entries, once each.\<close>

lemma list_skills_spec:
  "sorted_wrt (\<lambda>a b. sk_name a < sk_name b) (list_skills decode result)
    \<and> sk_name ` set (list_skills decode result) = sk_name ` set (listed_skills decode result)"
proof -
  let ?ss = "list_skills decode result"
  have "mset ?ss = mset (first_by_name {} (listed_skills decode result))" by (simp add: list_skills_def)
  then have d: "distinct (map sk_name ?ss)" and s: "set ?ss = set (first_by_name {} (listed_skills decode result))"
    using first_by_name_spec[of "{}" "listed_skills decode result"]
    by (metis mset_map mset_eq_imp_distinct_iff, metis set_mset_mset)
  have "sorted (map sk_name ?ss)" by (simp add: list_skills_def)
  then have "sorted_wrt (<) (map sk_name ?ss)" using d by (simp add: strict_sorted_iff)
  then show ?thesis using s first_by_name_spec[of "{}" "listed_skills decode result"]
    by (simp add: sorted_wrt_map)
qed

text \<open>No variable of the trading path reaches the child.\<close>

lemma child_env_names: "(n, v) \<in> set (child_env var) \<Longrightarrow> n \<in> set env_whitelist \<and> \<not> starts_with n ''TAOLI_'' \<and> var n = Some v"
  by (auto simp: child_env_def map_filter_def)

definition "rpc_sample_line = JObject [(''id'', JNumber ''1''), (''result'', JNull)]"

lemma rpc_answers_match_witness:
  "\<exists>pre line post m. [Begin_Request ''initialize'' JNull (Inr ()), Line_Read ''x''] = pre @ Line_Read line # post
      \<and> rc_waiting (rpc_run (\<lambda>_. Some rpc_sample_line) pre) = Some (1, m)"
proof -
  have "(1, Inr JNull) \<in> set (rc_returned (rpc_run (\<lambda>_. Some rpc_sample_line)
      [Begin_Request ''initialize'' JNull (Inr ()), Line_Read ''x'']))"
    by (simp add: rpc_run_def rpc_start_def rpc_step_def begin_request_def dispatch_line_def send_answer_def
      classify_message_def classify_answer_def rpc_sample_line_def json_i64_def all_digits_def is_digit_def digit_of_def)
  from rpc_answers_match[OF this] show ?thesis by blast
qed

end
