(* ===== verification/Agent_Approval.thy ===== *)
theory Agent_Approval
  imports Json_Values
begin

text \<open>
  The approval gate of the agent, \<open>agent/approval.rs\<close> and \<open>decide_approval\<close> of \<open>agent/mod.rs\<close>: which
  verdicts a request offers, how a verdict is written on the wire, what the host does with a verdict that
  is late or cannot be written, and the append-only log. Times are in milliseconds of the monotonic clock.
  The serializer of the log is a parameter.
\<close>

section \<open>Requests and verdicts\<close>

datatype approval_kind = Command_Execution | File_Change | Permissions | Exec_Command | Apply_Patch

definition kind_from_method :: "string \<Rightarrow> approval_kind option" where
  "kind_from_method m =
     (if m = ''item/commandExecution/requestApproval'' then Some Command_Execution
      else if m = ''item/fileChange/requestApproval'' then Some File_Change
      else if m = ''item/permissions/requestApproval'' then Some Permissions
      else if m = ''execCommandApproval'' then Some Exec_Command
      else if m = ''applyPatchApproval'' then Some Apply_Patch
      else None)"

definition kind_as_str :: "approval_kind \<Rightarrow> string" where
  "kind_as_str k = (case k of
     Command_Execution \<Rightarrow> ''command_execution'' | File_Change \<Rightarrow> ''file_change'' | Permissions \<Rightarrow> ''permissions''
   | Exec_Command \<Rightarrow> ''exec_command'' | Apply_Patch \<Rightarrow> ''apply_patch'')"

datatype verdict = Allow_Once | Allow_For_Session | Allow_Always | Deny

definition is_grant :: "verdict \<Rightarrow> bool" where
  "is_grant v \<longleftrightarrow> v \<noteq> Deny"

datatype persistence = Persistence_Allowed | Persistence_Blocked

datatype decision_source = From_Decider | From_Timeout | From_Unsupported

section \<open>What can be answered\<close>

definition supports_session_scope :: "approval_kind \<Rightarrow> bool" where
  "supports_session_scope k \<longleftrightarrow> k \<in> {Command_Execution, File_Change, Permissions, Exec_Command, Apply_Patch}"

definition proposed_amendment :: "approval_kind \<Rightarrow> json \<Rightarrow> string list option" where
  "proposed_amendment k params =
     (if k \<in> {File_Change, Permissions} then None
      else (case Option.bind (json_member ''proposedExecpolicyAmendment'' params) json_array of
        None \<Rightarrow> None
      | Some vs \<Rightarrow> if strings_of vs = [] then None else Some (strings_of vs)))"

definition available_decisions :: "approval_kind \<Rightarrow> json \<Rightarrow> persistence \<Rightarrow> verdict list" where
  "available_decisions k params p =
     [Allow_Once] @ (if supports_session_scope k then [Allow_For_Session] else [])
     @ (if p = Persistence_Allowed \<and> proposed_amendment k params \<noteq> None then [Allow_Always] else []) @ [Deny]"

definition decision_payload :: "json \<Rightarrow> json" where
  "decision_payload v = JObject [(''decision'', v)]"

text \<open>The reply to a permissions request; \<open>None\<close> when nothing was requested.\<close>

definition permission_grant :: "(string \<times> json) list \<Rightarrow> json \<Rightarrow> json option" where
  "permission_grant extra params = (case json_member ''permissions'' params of
     None \<Rightarrow> None
   | Some p \<Rightarrow> if p = JNull then None else Some (JObject ((''permissions'', p) # extra)))"

text \<open>\<open>None\<close> is \<open>ApprovalError::Unrepresentable\<close>.\<close>

fun response_payload :: "approval_kind \<Rightarrow> verdict \<Rightarrow> json \<Rightarrow> json option" where
  "response_payload Command_Execution v params = (case v of
     Allow_Once \<Rightarrow> Some (decision_payload (JString ''accept''))
   | Allow_For_Session \<Rightarrow> Some (decision_payload (JString ''acceptForSession''))
   | Allow_Always \<Rightarrow> map_option (\<lambda>rule. decision_payload (JObject [(''acceptWithExecpolicyAmendment'',
        JObject [(''execpolicy_amendment'', JArray (map JString rule))])])) (proposed_amendment Command_Execution params)
   | Deny \<Rightarrow> Some (decision_payload (JString ''decline'')))"
| "response_payload File_Change v params = (case v of
     Allow_Once \<Rightarrow> Some (decision_payload (JString ''accept''))
   | Allow_For_Session \<Rightarrow> Some (decision_payload (JString ''acceptForSession''))
   | Allow_Always \<Rightarrow> None
   | Deny \<Rightarrow> Some (decision_payload (JString ''decline'')))"
| "response_payload Permissions v params = (case v of
     Deny \<Rightarrow> Some (JObject [(''permissions'', JObject [])])
   | Allow_Once \<Rightarrow> permission_grant [] params
   | Allow_For_Session \<Rightarrow> permission_grant [(''scope'', JString ''session'')] params
   | Allow_Always \<Rightarrow> None)"
| "response_payload k v params = (case v of
     Allow_Once \<Rightarrow> Some (decision_payload (JString ''approved''))
   | Allow_For_Session \<Rightarrow> Some (decision_payload (JString ''approved_for_session''))
   | Allow_Always \<Rightarrow> map_option (\<lambda>rule. decision_payload (JObject [(''approved_execpolicy_amendment'',
        JObject [(''proposed_execpolicy_amendment'', JArray (map JString rule))])])) (proposed_amendment k params)
   | Deny \<Rightarrow> Some (decision_payload (JObject [(''denied'', JObject [(''rejection'', JString ''declined by the operator'')])])))"

definition refusal_payload :: "approval_kind \<Rightarrow> json \<Rightarrow> json" where
  "refusal_payload k params = (case response_payload k Deny params of
     Some p \<Rightarrow> p | None \<Rightarrow> decision_payload (JString ''decline''))"

section \<open>What the owner is shown\<close>

definition command_text :: "json \<Rightarrow> string" where
  "command_text params = (case json_member ''command'' params of
     Some (JString s) \<Rightarrow> s
   | Some (JArray vs) \<Rightarrow>
       (let joined = join_with '' '' (strings_of vs) in if joined \<noteq> [] then joined else ''<unreadable command>'')
   | _ \<Rightarrow> ''<unreadable command>'')"

definition summarise :: "approval_kind \<Rightarrow> json \<Rightarrow> string" where
  "summarise k params =
     (if k \<in> {Command_Execution, Exec_Command} then command_text params
      else if k \<in> {File_Change, Apply_Patch}
      then show_nat (case Option.bind (json_member ''fileChanges'' params) json_object of
             None \<Rightarrow> 0 | Some ms \<Rightarrow> length ms) @ '' file change(s)''
      else ''permission request: '' @ (case member_str ''reason'' params of
             None \<Rightarrow> ''additional permissions requested'' | Some r \<Rightarrow> r))"

definition advertised_name :: "json \<Rightarrow> string" where
  "advertised_name d = (case d of
     JString s \<Rightarrow> s | JObject ((k, _) # _) \<Rightarrow> k | _ \<Rightarrow> ''<opaque>'')"

definition advertised_decisions :: "json \<Rightarrow> string list" where
  "advertised_decisions params = map advertised_name (member_array ''availableDecisions'' params)"

record approval_request =
  aq_id :: int
  aq_method :: string
  aq_kind :: approval_kind
  aq_summary :: string
  aq_details :: json
  aq_advertised :: "string list"
  aq_options :: "verdict list"

record approval_record =
  ar_request_id :: int
  ar_method :: string
  ar_kind :: approval_kind
  ar_summary :: string
  ar_decision :: verdict
  ar_source :: decision_source
  ar_decided_at_ms :: u64
  ar_waited_ms :: u64
  ar_advertised :: "string list"

section \<open>Deciding\<close>

text \<open>
  The decider, given the request, yields a verdict some milliseconds after it was asked, or never. The wait
  polls the decider before it looks at the deadline, so a verdict that is there at once is taken.
\<close>

type_synonym decider = "approval_request \<Rightarrow> (nat \<times> verdict) option"

definition deny_all :: decider where
  "deny_all _ = Some (0, Deny)"

definition approval_request_of :: "int \<Rightarrow> approval_kind \<Rightarrow> string \<Rightarrow> json \<Rightarrow> persistence \<Rightarrow> approval_request" where
  "approval_request_of i k m params p = \<lparr>aq_id = i, aq_method = m, aq_kind = k, aq_summary = summarise k params,
     aq_details = params, aq_advertised = advertised_decisions params, aq_options = available_decisions k params p\<rparr>"

text \<open>The time the host waits at most: the approval timeout, cut at the deadline of the turn.\<close>

definition approval_wait :: "nat \<Rightarrow> nat \<Rightarrow> nat \<Rightarrow> nat" where
  "approval_wait approval_timeout turn_deadline started = min (started + approval_timeout) turn_deadline - started"

definition in_time :: "nat \<Rightarrow> (nat \<times> verdict) option \<Rightarrow> verdict option" where
  "in_time wait answer = (case answer of
     Some (t, v) \<Rightarrow> if t \<le> wait then Some v else None | None \<Rightarrow> None)"

definition waited :: "nat \<Rightarrow> (nat \<times> verdict) option \<Rightarrow> nat" where
  "waited wait answer = (case answer of Some (t, _) \<Rightarrow> min t wait | None \<Rightarrow> wait)"

definition millis_u64 :: "nat \<Rightarrow> u64" where
  "millis_u64 n = (if n < 2 ^ 64 then of_nat n else - 1)"

definition settle_verdict :: "approval_kind \<Rightarrow> json \<Rightarrow> verdict \<times> decision_source \<Rightarrow> json \<times> verdict \<times> decision_source" where
  "settle_verdict k params vs = (case response_payload k (fst vs) params of
     Some p \<Rightarrow> (p, vs)
   | None \<Rightarrow> (refusal_payload k params, Deny, From_Unsupported))"

definition decide_approval :: "decider \<Rightarrow> int \<Rightarrow> approval_kind \<Rightarrow> string \<Rightarrow> json \<Rightarrow> persistence \<Rightarrow> nat \<Rightarrow> nat \<Rightarrow> nat \<Rightarrow> u64
    \<Rightarrow> approval_record \<times> json" where
  "decide_approval decide i k m params p approval_timeout turn_deadline started now_ms =
     (let request = approval_request_of i k m params p;
          wait = approval_wait approval_timeout turn_deadline started;
          answer = decide request;
          first = (case in_time wait answer of Some v \<Rightarrow> (v, From_Decider) | None \<Rightarrow> (Deny, From_Timeout));
          (payload, decision, source) = settle_verdict k params first
      in (\<lparr>ar_request_id = i, ar_method = m, ar_kind = k, ar_summary = aq_summary request, ar_decision = decision,
           ar_source = source, ar_decided_at_ms = now_ms, ar_waited_ms = millis_u64 (waited wait answer),
           ar_advertised = aq_advertised request\<rparr>, payload))"

section \<open>The log\<close>

definition log_append :: "(approval_record \<Rightarrow> string) \<Rightarrow> approval_record \<Rightarrow> string \<Rightarrow> string" where
  "log_append encode r contents = append_line encode r contents"

text \<open>\<open>read_all\<close>: the error is the number of the first line that cannot be read.\<close>

definition log_read_all :: "(string \<Rightarrow> approval_record option) \<Rightarrow> string \<Rightarrow> nat + approval_record list" where
  "log_read_all decode contents =
     collect (\<lambda>(n, l). case decode l of None \<Rightarrow> Inl n | Some r \<Rightarrow> Inr r) (numbered_lines contents)"

section \<open>Properties\<close>

lemma deny_representable: "\<exists>p. response_payload k Deny params = Some p"
  by (cases k) simp_all

lemma refusal_payload_Deny: "response_payload k Deny params = Some (refusal_payload k params)"
  using deny_representable[of k params] by (auto simp: refusal_payload_def)

lemma supports_session [simp]: "supports_session_scope k"
  by (cases k) (simp_all add: supports_session_scope_def)

text \<open>C11. The gate fails closed: a reply grants something exactly when the decider granted it in time and the
  protocol can express it; otherwise the refusal of that kind is sent and recorded, with its reason.\<close>

theorem approval_fails_closed:
  "let answer = decide (approval_request_of i k m params p);
       granted = in_time (min (started + timeout) turn_deadline - started) answer;
       (r, payload) = decide_approval decide i k m params p timeout turn_deadline started now
   in (if (case granted of None \<Rightarrow> False | Some v \<Rightarrow> is_grant v \<and> response_payload k v params \<noteq> None)
       then granted = Some (ar_decision r) \<and> ar_source r = From_Decider
         \<and> response_payload k (ar_decision r) params = Some payload
       else ar_decision r = Deny \<and> response_payload k Deny params = Some payload
         \<and> ar_source r = (case granted of None \<Rightarrow> From_Timeout
              | Some v \<Rightarrow> if v = Deny then From_Decider else From_Unsupported))
     \<and> ar_request_id r = i \<and> ar_kind r = k"
  by (auto simp: Let_def decide_approval_def settle_verdict_def approval_wait_def is_grant_def refusal_payload_Deny
      split: option.splits)

text \<open>Every verdict a request offers can be sent and takes effect, with one exception: a permissions request
  that names no permissions still offers to grant them. Refusing is always offered, a permanent grant only
  where the rules of the runtime can be written and it proposed one.\<close>

theorem offered_verdicts_representable:
  "(response_payload k v params \<noteq> None \<longleftrightarrow>
      (if v = Allow_Always then proposed_amendment k params \<noteq> None
       else v = Deny \<or> k \<noteq> Permissions \<or> json_member ''permissions'' params \<notin> {None, Some JNull}))
    \<and> (v \<in> set (available_decisions k params p) \<longleftrightarrow>
         v \<noteq> Allow_Always \<or> (p = Persistence_Allowed \<and> proposed_amendment k params \<noteq> None))"
proof -
  have "proposed_amendment File_Change params = None" "proposed_amendment Permissions params = None"
    by (simp_all add: proposed_amendment_def)
  then show ?thesis
    by (cases k; cases v) (auto simp: available_decisions_def permission_grant_def split: option.splits)
qed

text \<open>What is appended to the log is read back in order, and reading fails at the first bad line.\<close>

theorem approval_log_round_trip:
  assumes "line_codec encode decode rs"
  shows "log_read_all decode (fold (log_append encode) rs []) = Inr rs"
proof -
  have [simp]: "log_append encode = append_line encode" by (simp add: log_append_def fun_eq_iff)
  have "collect (\<lambda>(n, l). case decode l of None \<Rightarrow> Inl n | Some r \<Rightarrow> Inr r) (enumerate n (map encode rs)) = Inr rs" for n
    using assms by (induction rs arbitrary: n) (simp_all add: line_codec_def)
  then show ?thesis by (simp add: log_read_all_def numbered_append_lines[OF assms])
qed

definition sample_approval :: approval_record where
  "sample_approval = \<lparr>ar_request_id = 7, ar_method = ''applyPatchApproval'', ar_kind = Apply_Patch,
     ar_summary = ''1 file change(s)'', ar_decision = Deny, ar_source = From_Timeout, ar_decided_at_ms = 5,
     ar_waited_ms = 300000, ar_advertised = []\<rparr>"

lemma approval_log_round_trip_witness:
  "log_read_all (\<lambda>_. Some sample_approval) (fold (log_append (\<lambda>_. ''{}'')) [sample_approval, sample_approval] [])
     = Inr [sample_approval, sample_approval]"
  by (rule approval_log_round_trip) (simp add: line_codec_def blank_def is_whitespace_def)

end
