(* ===== verification/Agent_Trace.thy ===== *)
theory Agent_Trace
  imports Agent_Approval Agent_Rpc
begin

text \<open>
  The record a session leaves and its replay, \<open>agent/trace.rs\<close>: one event per line, appended as it
  happens; the replay rebuilds the turns and refuses a file that cannot be one append-only session. The
  serializer is a parameter, and a path is not modelled: a trace is the text of its file.
\<close>

section \<open>Events\<close>

datatype sandbox_mode = Read_Only | Workspace_Write | Danger_Full_Access

definition sandbox_as_wire :: "sandbox_mode \<Rightarrow> string" where
  "sandbox_as_wire m = (case m of
     Read_Only \<Rightarrow> ''read-only'' | Workspace_Write \<Rightarrow> ''workspace-write'' | Danger_Full_Access \<Rightarrow> ''danger-full-access'')"

datatype recorded_status = Recorded_Completed | Recorded_Failed string

record instructions_fingerprint =
  fp_bytes :: nat
  fp_hash :: u64

text \<open>FNV-1a over the bytes of the text.\<close>

definition fnv_step :: "char \<Rightarrow> u64 \<Rightarrow> u64" where
  "fnv_step c h = (xor h (of_nat (of_char c))) * 0x100000001b3"

definition fingerprint_of :: "string \<Rightarrow> instructions_fingerprint" where
  "fingerprint_of text = \<lparr>fp_bytes = length text, fp_hash = fold fnv_step text 0xcbf29ce484222325\<rparr>"

record session_start =
  st_thread_id :: string
  st_cwd :: string
  st_sandbox :: sandbox_mode
  st_approval_policy :: approval_policy
  st_approvals_reviewer :: approvals_reviewer
  st_skill_roots :: "string list"
  st_instructions :: "instructions_fingerprint option"

record tool_call_trace =
  ct_call_id :: string
  ct_tool :: string
  ct_arguments :: json
  ct_success :: bool
  ct_output :: string

text \<open>The last argument of each constructor but \<open>Approval_Event\<close> is the time of the event.\<close>

datatype trace_event =
    Session_Started session_start u64
  | Turn_Started string string u64
  | Tool_Call_Event tool_call_trace u64
  | Approval_Event approval_record
  | Refused_Event string u64
  | Item_Event string string string u64
  | Turn_Finished string recorded_status "string option" u64
  | Session_Finished u64

definition trace_time :: "trace_event \<Rightarrow> u64" where
  "trace_time e = (case e of
     Session_Started _ t \<Rightarrow> t | Turn_Started _ _ t \<Rightarrow> t | Tool_Call_Event _ t \<Rightarrow> t
   | Approval_Event r \<Rightarrow> ar_decided_at_ms r | Refused_Event _ t \<Rightarrow> t | Item_Event _ _ _ t \<Rightarrow> t
   | Turn_Finished _ _ _ t \<Rightarrow> t | Session_Finished t \<Rightarrow> t)"

lemma trace_time_simps [simp]:
  "trace_time (Session_Started st t) = t" "trace_time (Turn_Started i p t) = t" "trace_time (Tool_Call_Event c t) = t"
  "trace_time (Approval_Event r) = ar_decided_at_ms r" "trace_time (Refused_Event m t) = t"
  "trace_time (Item_Event i k x t) = t" "trace_time (Turn_Finished i u f t) = t" "trace_time (Session_Finished t) = t"
  by (simp_all add: trace_time_def)

section \<open>Replay\<close>

record turn_trace =
  tt_turn_id :: string
  tt_prompt :: string
  tt_tool_calls :: "tool_call_trace list"
  tt_approvals :: "approval_record list"
  tt_refused_requests :: "string list"
  tt_items :: "(string \<times> string) list"
  tt_status :: "recorded_status option"
  tt_final_message :: "string option"

record session_trace =
  se_start :: session_start
  se_turns :: "turn_trace list"
  se_finished :: bool

datatype trace_error = Malformed nat | Unordered nat string | Empty_Trace

record replay_state =
  rp_started :: "session_start option"
  rp_finished :: bool
  rp_last_at_ms :: u64
  rp_current :: "turn_trace option"
  rp_turns :: "turn_trace list"

definition replay_start :: replay_state where
  "replay_start = \<lparr>rp_started = None, rp_finished = False, rp_last_at_ms = 0, rp_current = None, rp_turns = []\<rparr>"

definition new_turn :: "string \<Rightarrow> string \<Rightarrow> turn_trace" where
  "new_turn i prompt = \<lparr>tt_turn_id = i, tt_prompt = prompt, tt_tool_calls = [], tt_approvals = [],
     tt_refused_requests = [], tt_items = [], tt_status = None, tt_final_message = None\<rparr>"

definition require_monotonic :: "nat \<Rightarrow> u64 \<Rightarrow> replay_state \<Rightarrow> trace_error + replay_state" where
  "require_monotonic n t s =
     (if t < rp_last_at_ms s then Inl (Unordered n ''timestamp precedes'') else Inr (s\<lparr>rp_last_at_ms := t\<rparr>))"

text \<open>\<open>open_turn\<close> and what is then done to the turn it finds.\<close>

definition on_open_turn :: "nat \<Rightarrow> (turn_trace \<Rightarrow> trace_error + turn_trace) \<Rightarrow> replay_state \<Rightarrow> trace_error + replay_state" where
  "on_open_turn n f s = (case rp_current s of
     None \<Rightarrow> Inl (Unordered n ''an event appears before any turn_started, or after its turn_finished'')
   | Some t \<Rightarrow> then_do (f t) (\<lambda>t. Inr (s\<lparr>rp_current := Some t\<rparr>)))"

definition start_session :: "nat \<Rightarrow> session_start \<Rightarrow> u64 \<Rightarrow> replay_state \<Rightarrow> trace_error + replay_state" where
  "start_session n st t s =
     (if rp_started s \<noteq> None then Inl (Unordered n ''a second session_started'')
      else Inr (s\<lparr>rp_last_at_ms := t, rp_started := Some st\<rparr>))"

definition start_recorded_turn :: "nat \<Rightarrow> string \<Rightarrow> string \<Rightarrow> u64 \<Rightarrow> replay_state \<Rightarrow> trace_error + replay_state" where
  "start_recorded_turn n i prompt t s =
     (if rp_started s = None then Inl (Unordered n ''a turn appears before session_started'')
      else then_do (require_monotonic n t s) (\<lambda>s.
        if rp_current s \<noteq> None then Inl (Unordered n ''a turn started before the previous one finished'')
        else Inr (s\<lparr>rp_current := Some (new_turn i prompt)\<rparr>)))"

definition finish_recorded_turn :: "nat \<Rightarrow> string \<Rightarrow> recorded_status \<Rightarrow> string option \<Rightarrow> u64 \<Rightarrow> replay_state
    \<Rightarrow> trace_error + replay_state" where
  "finish_recorded_turn n i status final t s =
     then_do (require_monotonic n t s) (\<lambda>s. case rp_current s of
        None \<Rightarrow> Inl (Unordered n ''turn_finished without a turn_started'')
      | Some turn \<Rightarrow>
          if tt_turn_id turn \<noteq> i then Inl (Unordered n ''turn_finished for another turn'')
          else Inr (s\<lparr>rp_current := None,
            rp_turns := rp_turns s @ [turn\<lparr>tt_status := Some status, tt_final_message := final\<rparr>]\<rparr>))"

definition replay_event :: "nat \<Rightarrow> trace_event \<Rightarrow> replay_state \<Rightarrow> trace_error + replay_state" where
  "replay_event n e s =
     (if rp_finished s then Inl (Unordered n ''an event follows session_finished'')
      else (case e of
        Session_Started st t \<Rightarrow> start_session n st t s
      | Turn_Started i prompt t \<Rightarrow> start_recorded_turn n i prompt t s
      | Tool_Call_Event c t \<Rightarrow> then_do (require_monotonic n t s)
          (on_open_turn n (\<lambda>turn. Inr (turn\<lparr>tt_tool_calls := tt_tool_calls turn @ [c]\<rparr>)))
      | Approval_Event r \<Rightarrow> then_do (require_monotonic n (ar_decided_at_ms r) s)
          (on_open_turn n (\<lambda>turn. Inr (turn\<lparr>tt_approvals := tt_approvals turn @ [r]\<rparr>)))
      | Refused_Event m t \<Rightarrow> then_do (require_monotonic n t s)
          (on_open_turn n (\<lambda>turn. Inr (turn\<lparr>tt_refused_requests := tt_refused_requests turn @ [m]\<rparr>)))
      | Item_Event i k text t \<Rightarrow> then_do (require_monotonic n t s)
          (on_open_turn n (\<lambda>turn. if tt_turn_id turn \<noteq> i then Inl (Unordered n ''item for another turn'')
             else Inr (turn\<lparr>tt_items := tt_items turn @ [(k, text)]\<rparr>)))
      | Turn_Finished i status final t \<Rightarrow> finish_recorded_turn n i status final t s
      | Session_Finished t \<Rightarrow> then_do (require_monotonic n t s) (\<lambda>s. Inr (s\<lparr>rp_finished := True\<rparr>))))"

fun replay_lines :: "(string \<Rightarrow> trace_event option) \<Rightarrow> (nat \<times> string) list \<Rightarrow> replay_state \<Rightarrow> trace_error + replay_state" where
  "replay_lines decode [] s = Inr s"
| "replay_lines decode ((n, l) # ls) s = (case decode l of
     None \<Rightarrow> Inl (Malformed n)
   | Some e \<Rightarrow> then_do (replay_event n e s) (replay_lines decode ls))"

definition replay_result :: "replay_state \<Rightarrow> trace_error + session_trace" where
  "replay_result s = (case rp_started s of
     None \<Rightarrow> Inl Empty_Trace
   | Some st \<Rightarrow> Inr \<lparr>se_start = st, se_turns = rp_turns s @ (case rp_current s of None \<Rightarrow> [] | Some t \<Rightarrow> [t]),
       se_finished = rp_finished s\<rparr>)"

definition replay_str :: "(string \<Rightarrow> trace_event option) \<Rightarrow> string \<Rightarrow> trace_error + session_trace" where
  "replay_str decode contents = then_do (replay_lines decode (numbered_lines contents) replay_start) replay_result"

definition session_tool_calls :: "session_trace \<Rightarrow> tool_call_trace list" where
  "session_tool_calls s = concat (map tt_tool_calls (se_turns s))"

definition session_approvals :: "session_trace \<Rightarrow> approval_record list" where
  "session_approvals s = concat (map tt_approvals (se_turns s))"

definition tool_call_count :: "session_trace \<Rightarrow> string \<Rightarrow> nat" where
  "tool_call_count s tool = length (filter (\<lambda>c. ct_tool c = tool) (session_tool_calls s))"

section \<open>The writer\<close>

text \<open>\<open>try_record\<close>: a write that fails loses the event and nothing else.\<close>

definition try_record :: "(trace_event \<Rightarrow> string) \<Rightarrow> bool \<Rightarrow> trace_event \<Rightarrow> string \<Rightarrow> string" where
  "try_record encode written e contents = (if written then append_line encode e contents else contents)"

section \<open>Replaying events\<close>

text \<open>The lines of a file that was only appended to are its events, so replay can be followed on events.\<close>

fun replay_events :: "nat \<Rightarrow> trace_event list \<Rightarrow> replay_state \<Rightarrow> trace_error + replay_state" where
  "replay_events n [] s = Inr s"
| "replay_events n (e # es) s = then_do (replay_event n e s) (replay_events (Suc n) es)"

lemma replay_lines_events:
  "line_codec encode decode es \<Longrightarrow>
     replay_lines decode (enumerate n (map encode es)) s = replay_events n es s"
proof (induction es arbitrary: n s)
  case (Cons e es)
  have "replay_lines decode (enumerate (Suc n) (map encode es)) = replay_events (Suc n) es"
    using Cons by (simp add: line_codec_def fun_eq_iff)
  then show ?case using Cons.prems by (simp add: line_codec_def)
qed simp

lemma replay_str_events:
  "line_codec encode decode es \<Longrightarrow>
     replay_str decode (fold (append_line encode) es []) = then_do (replay_events 1 es replay_start) replay_result"
  using replay_lines_events[of encode decode es 1] by (simp add: replay_str_def numbered_append_lines)

lemma replay_events_append:
  "replay_events n (es @ es') s = then_do (replay_events n es s) (replay_events (n + length es) es')"
proof (induction es arbitrary: n s)
  case (Cons e es)
  then show ?case by (cases "replay_event n e s") simp_all
qed simp

lemmas replay_steps = replay_event_def start_session_def start_recorded_turn_def finish_recorded_turn_def
  on_open_turn_def require_monotonic_def

text \<open>What was replayed so far only grows.\<close>

definition replayed_calls :: "replay_state \<Rightarrow> tool_call_trace list" where
  "replayed_calls s = concat (map tt_tool_calls (rp_turns s @ (case rp_current s of None \<Rightarrow> [] | Some t \<Rightarrow> [t])))"

lemma replay_event_grows:
  assumes "replay_event n e s = Inr s'"
  shows "\<exists>cs. replayed_calls s' = replayed_calls s @ cs"
  using assms by (cases e) (auto simp: replay_steps replayed_calls_def new_turn_def split: if_splits option.splits)

lemma replay_events_grow: "replay_events n es s = Inr s' \<Longrightarrow> \<exists>cs. replayed_calls s' = replayed_calls s @ cs"
proof (induction es arbitrary: n s)
  case (Cons e es)
  then obtain s1 where "replay_event n e s = Inr s1" "replay_events (Suc n) es s1 = Inr s'" by auto
  then show ?case using replay_event_grows Cons.IH by (metis append.assoc)
qed simp

lemma replay_event_opens:
  "replay_event n e s = Inr s' \<Longrightarrow> rp_started s = None \<Longrightarrow> rp_current s = None \<Longrightarrow>
     \<not> rp_finished s \<and> rp_current s' = None \<and> (rp_started s' \<noteq> None \<or> rp_finished s')"
  by (cases e) (auto simp: replay_steps split: if_splits option.splits)

lemma replay_event_keeps_start: "replay_event n e s = Inr s' \<Longrightarrow> rp_started s = Some st \<Longrightarrow> rp_started s' = Some st"
  by (cases e) (auto simp: replay_steps split: if_splits option.splits)

lemma replay_events_keep_start:
  "replay_events n es s = Inr s' \<Longrightarrow> rp_started s = Some st \<Longrightarrow> rp_started s' = Some st"
  by (induction es arbitrary: n s) (auto dest: replay_event_keeps_start)

lemma replay_events_finished: "rp_finished s \<Longrightarrow> replay_events n es s = Inr s' \<Longrightarrow> es = []"
  by (cases es) (auto simp: replay_event_def)

lemma accepted_starts:
  assumes "replay_events n es replay_start = Inr s" "replay_events m es' s = Inr s'" "rp_started s' \<noteq> None" "es \<noteq> []"
  shows "rp_started s = rp_started s'"
proof (cases es)
  case (Cons e rest)
  then obtain s1 where s1: "replay_event n e replay_start = Inr s1" "replay_events (Suc n) rest s1 = Inr s"
    using assms(1) by auto
  have open1: "rp_started s1 \<noteq> None \<or> rp_finished s1"
    using replay_event_opens[OF s1(1)] by (simp add: replay_start_def)
  show ?thesis
  proof (cases "rp_started s1")
    case None
    then have "rp_finished s1" using open1 by simp
    then have "rest = []" "s = s1" using replay_events_finished s1(2) by fastforce+
    then have "es' = []" using replay_events_finished \<open>rp_finished s1\<close> assms(2) by blast
    then show ?thesis using assms(2) by simp
  next
    case (Some st)
    then have "rp_started s = Some st" using replay_events_keep_start s1(2) by blast
    then show ?thesis using replay_events_keep_start assms(2) by metis
  qed
qed (use assms in simp)

text \<open>C35. A session that is killed leaves a prefix of its events, and every non-empty prefix of a trace that
  replays also replays: it shows the same session, with a beginning of the same tool calls.\<close>

theorem trace_prefix_replays:
  assumes codec: "line_codec encode decode (es @ es')"
    and whole: "replay_str decode (fold (append_line encode) (es @ es') []) = Inr s" and "es \<noteq> []"
  shows "\<exists>s0 cs. replay_str decode (fold (append_line encode) es []) = Inr s0
    \<and> se_start s0 = se_start s \<and> session_tool_calls s = session_tool_calls s0 @ cs"
proof -
  have c0: "line_codec encode decode es" using codec by (simp add: line_codec_def)
  from whole obtain r where "replay_events 1 (es @ es') replay_start = Inr r" "replay_result r = Inr s"
    unfolding replay_str_events[OF codec] by auto
  then obtain r0 where r0: "replay_events 1 es replay_start = Inr r0" "replay_events (1 + length es) es' r0 = Inr r"
    by (auto simp: replay_events_append)
  have res: "rp_started r = Some (se_start s)" "session_tool_calls s = replayed_calls r"
    using \<open>replay_result r = Inr s\<close>
    by (auto simp: replay_result_def session_tool_calls_def replayed_calls_def split: option.splits)
  have "rp_started r0 = Some (se_start s)" using accepted_starts[OF r0] res(1) \<open>es \<noteq> []\<close> by simp
  then obtain s0 where s0: "replay_result r0 = Inr s0" "se_start s0 = se_start s" "session_tool_calls s0 = replayed_calls r0"
    by (auto simp: replay_result_def session_tool_calls_def replayed_calls_def)
  then show ?thesis
    using replay_events_grow[OF r0(2)] r0(1) res(2) by (auto simp: replay_str_events[OF c0])
qed

section \<open>Fingerprints\<close>

lemma fnv_mult_inj:
  fixes x y :: u64 assumes "x * 0x100000001b3 = y * 0x100000001b3" shows "x = y"
proof -
  have inv: "(0x100000001b3 :: u64) * 0xce965057aff6957b = 1" by simp
  have "x = (x * 0x100000001b3) * 0xce965057aff6957b" by (simp only: mult.assoc inv mult_1_right)
  also have "\<dots> = (y * 0x100000001b3) * 0xce965057aff6957b" using assms by (rule arg_cong)
  also have "\<dots> = y" by (simp only: mult.assoc inv mult_1_right)
  finally show ?thesis .
qed

lemma xor_right_inj: "xor (a :: u64) c = xor b c \<Longrightarrow> a = b"
proof -
  assume "xor a c = xor b c"
  then have "xor (xor a c) c = xor (xor b c) c" by simp
  then show "a = b" by (simp add: xor.assoc)
qed

lemma of_char_u64_inj: "(of_nat (of_char c) :: u64) = of_nat (of_char d) \<Longrightarrow> c = d"
proof -
  assume eq: "(of_nat (of_char c) :: u64) = of_nat (of_char d)"
  have low: "unat (of_nat n :: u64) = n" if "n < 256" for n :: nat using that by (simp add: unat_of_nat)
  note small = low[OF nat_of_char_less_256]
  have "(of_char c :: nat) = unat (of_nat (of_char c) :: u64)" by (rule small[symmetric])
  also have "\<dots> = unat (of_nat (of_char d) :: u64)" by (rule arg_cong[OF eq])
  also have "\<dots> = of_char d" by (rule small)
  finally show "c = d" by (rule of_char_eqI)
qed

lemma fnv_step_inj_state: "fnv_step c g = fnv_step c h \<longleftrightarrow> g = h"
  unfolding fnv_step_def by (auto dest!: fnv_mult_inj xor_right_inj)

lemma fnv_step_inj_char: "fnv_step c h = fnv_step d h \<longleftrightarrow> c = d"
proof
  assume "fnv_step c h = fnv_step d h"
  then have "xor (of_nat (of_char c)) h = xor (of_nat (of_char d)) h"
    unfolding fnv_step_def by (auto dest!: fnv_mult_inj simp: xor.commute)
  then show "c = d" by (rule of_char_u64_inj[OF xor_right_inj])
qed simp

lemma fold_fnv_inj: "fold fnv_step t g = fold fnv_step t h \<longleftrightarrow> g = h"
  by (induction t arbitrary: g h) (simp_all add: fnv_step_inj_state)

text \<open>The fingerprint notices every edit of one byte of the instructions, and every change of their length.\<close>

theorem fingerprint_notices_edit:
  assumes "fingerprint_of (pre @ c # post) = fingerprint_of (pre @ d # post')" "post = post' \<or> length post \<noteq> length post'"
  shows "c = d \<and> post = post'"
  using assms by (auto simp: fingerprint_of_def fold_fnv_inj fnv_step_inj_char)

section \<open>Witnesses\<close>

definition sample_session :: session_start where
  "sample_session = \<lparr>st_thread_id = ''t'', st_cwd = ''/repo'', st_sandbox = Read_Only, st_approval_policy = Unless_Trusted,
     st_approvals_reviewer = Owner_Reviews, st_skill_roots = [], st_instructions = None\<rparr>"

definition sample_encode :: "trace_event \<Rightarrow> string" where
  "sample_encode e = (case e of Session_Started _ _ \<Rightarrow> ''s'' | _ \<Rightarrow> ''t'')"

definition sample_decode :: "string \<Rightarrow> trace_event option" where
  "sample_decode l = (if l = ''s'' then Some (Session_Started sample_session 1) else Some (Turn_Started ''u'' ''p'' 2))"

lemma trace_prefix_replays_witness:
  "\<exists>s0. replay_str sample_decode (fold (append_line sample_encode) [Session_Started sample_session 1] []) = Inr s0
    \<and> se_start s0 = sample_session"
proof -
  have codec: "line_codec sample_encode sample_decode ([Session_Started sample_session 1] @ [Turn_Started ''u'' ''p'' 2])"
    by (simp add: line_codec_def sample_encode_def sample_decode_def blank_def is_whitespace_def)
  have "replay_str sample_decode (fold (append_line sample_encode)
      ([Session_Started sample_session 1] @ [Turn_Started ''u'' ''p'' 2]) [])
    = Inr \<lparr>se_start = sample_session, se_turns = [new_turn ''u'' ''p''], se_finished = False\<rparr>"
    unfolding replay_str_events[OF codec]
    by (simp add: replay_steps replay_start_def replay_result_def)
  from trace_prefix_replays[OF codec this] show ?thesis by auto
qed

lemma fingerprint_notices_edit_witness:
  "fingerprint_of (''ab'' @ CHR ''x'' # ''cd'') \<noteq> fingerprint_of (''ab'' @ CHR ''y'' # ''cd'')"
  using fingerprint_notices_edit[of "''ab''" "CHR ''x''" "''cd''" "CHR ''y''" "''cd''"] by auto

end
