(* ===== verification/Agent_Tools.thy ===== *)
theory Agent_Tools
  imports Agent_Trace Ordered_Map
begin

text \<open>
  What a turn of the agent works with: the tool registry and the dispatch of a call
  (\<open>agent/tools.rs\<close>, \<open>dispatch_tool_call\<close> of \<open>agent/mod.rs\<close>), the progress a watcher is shown
  (\<open>agent/progress.rs\<close>, \<open>forward_progress\<close> and its readers), and the check of a structured report
  (\<open>agent/report.rs\<close>). The body of a tool is a parameter; \<open>None\<close> is a body that panics.
\<close>

section \<open>Tools\<close>

record tool_outcome =
  oc_success :: bool
  oc_texts :: "string list"

definition outcome_text :: "string \<Rightarrow> tool_outcome" where
  "outcome_text t = \<lparr>oc_success = True, oc_texts = [t]\<rparr>"

definition outcome_failed :: "string \<Rightarrow> tool_outcome" where
  "outcome_failed reason = \<lparr>oc_success = False, oc_texts = [reason]\<rparr>"

definition outcome_to_wire :: "tool_outcome \<Rightarrow> json" where
  "outcome_to_wire oc = JObject [(''success'', JBool (oc_success oc)),
     (''contentItems'', JArray (map (\<lambda>t. JObject [(''type'', JString ''inputText''), (''text'', JString t)]) (oc_texts oc)))]"

definition first_text :: "tool_outcome \<Rightarrow> string option" where
  "first_text oc = (case oc_texts oc of [] \<Rightarrow> None | t # _ \<Rightarrow> Some t)"

record agent_tool =
  tl_description :: string
  tl_input_schema :: json
  tl_call :: "json \<Rightarrow> tool_outcome option"

type_synonym tool_registry = "(string \<times> agent_tool) list"

definition register_tool :: "string \<Rightarrow> agent_tool \<Rightarrow> tool_registry \<Rightarrow> agent_tool option \<times> tool_registry" where
  "register_tool n tool reg = (map_of reg n, bt_insert n tool reg)"

definition registry_names :: "tool_registry \<Rightarrow> string list" where
  "registry_names reg = map fst reg"

definition tool_spec :: "string \<times> agent_tool \<Rightarrow> json" where
  "tool_spec nt = JObject [(''type'', JString ''function''), (''name'', JString (fst nt)),
     (''description'', JString (tl_description (snd nt))), (''inputSchema'', tl_input_schema (snd nt))]"

definition registry_specs :: "tool_registry \<Rightarrow> json list" where
  "registry_specs reg = map tool_spec reg"

text \<open>\<open>DispatchError::UnknownTool\<close> and its text.\<close>

definition unknown_tool_text :: "string \<Rightarrow> string list \<Rightarrow> string" where
  "unknown_tool_text n names = ''unknown tool `'' @ n @ ''`; this session exposes only: ''
     @ (if names = [] then ''(none)'' else join_with '', '' names)"

definition dispatch_tool :: "tool_registry \<Rightarrow> string \<Rightarrow> json \<Rightarrow> (string \<times> string list) + tool_outcome option" where
  "dispatch_tool reg n arguments = (case map_of reg n of
     None \<Rightarrow> Inl (n, registry_names reg) | Some tool \<Rightarrow> Inr (tl_call tool arguments))"

type_synonym tool_call_record = tool_call_trace

definition dispatch_tool_call :: "tool_registry \<Rightarrow> json \<Rightarrow> tool_call_record \<times> tool_outcome" where
  "dispatch_tool_call reg params =
     (let tool = str_or_empty (member_str ''tool'' params);
          arguments = (case json_member ''arguments'' params of None \<Rightarrow> JNull | Some v \<Rightarrow> v);
          oc = (case dispatch_tool reg tool arguments of
             Inl (n, names) \<Rightarrow> outcome_failed (unknown_tool_text n names)
           | Inr None \<Rightarrow> outcome_failed ''tool execution panicked''
           | Inr (Some oc) \<Rightarrow> oc)
      in (\<lparr>ct_call_id = str_or_empty (member_str ''callId'' params), ct_tool = tool, ct_arguments = arguments,
           ct_success = oc_success oc, ct_output = str_or_empty (first_text oc)\<rparr>, oc))"

section \<open>Progress\<close>

datatype item_kind = Reasoning_Item | Command_Item | File_Change_Item | Tool_Call_Item | Message_Item | Other_Item

definition item_kind_of :: "string \<Rightarrow> item_kind" where
  "item_kind_of k =
     (if k = ''reasoning'' then Reasoning_Item
      else if k \<in> {''commandExecution'', ''localShellCall''} then Command_Item
      else if k \<in> {''fileChange'', ''patchApply''} then File_Change_Item
      else if k \<in> {''mcpToolCall'', ''dynamicToolCall'', ''functionCall'', ''customToolCall'', ''toolSearchCall'',
                  ''webSearchCall'', ''imageGenerationCall''} then Tool_Call_Item
      else if k = ''agentMessage'' then Message_Item
      else Other_Item)"

datatype item_state = Item_Running | Item_Completed | Item_Failed | Item_Declined

definition item_state_of :: "string \<Rightarrow> item_state" where
  "item_state_of t =
     (if t = ''completed'' then Item_Completed else if t = ''failed'' then Item_Failed
      else if t = ''declined'' then Item_Declined else Item_Running)"

datatype turn_stage = Thinking | Working | Stage_Done

record progress_item =
  pi_item_id :: string
  pi_kind :: item_kind
  pi_title :: string
  pi_detail :: "string option"
  pi_state :: item_state
  pi_output :: string
  pi_exit_code :: "int option"
  pi_duration_ms :: "u64 option"

record token_usage =
  tk_input_tokens :: u64
  tk_cached_input_tokens :: u64
  tk_output_tokens :: u64
  tk_reasoning_output_tokens :: u64
  tk_total_tokens :: u64
  tk_context_window :: "u64 option"

datatype turn_progress =
    Turn_Begun string
  | Reasoning_Delta string string
  | Message_Delta string string
  | Item_Begun progress_item
  | Item_Output string string
  | Item_Ended string item_state "string option" "int option" "u64 option"
  | Tokens_Used token_usage
  | Approval_Requested int string
  | Approval_Resolved int
  | Stage_Reached turn_stage

text \<open>The first of some optional values, else a default (\<open>or_else\<close>, \<open>unwrap_or\<close>).\<close>

fun first_some :: "'a option list \<Rightarrow> 'a \<Rightarrow> 'a" where
  "first_some [] d = d"
| "first_some (None # xs) d = first_some xs d"
| "first_some (Some x # xs) d = x"

definition progress_item_of :: "json \<Rightarrow> progress_item" where
  "progress_item_of item =
     \<lparr>pi_item_id = str_or_empty (member_str ''id'' item),
      pi_kind = (case member_str ''type'' item of None \<Rightarrow> Other_Item | Some k \<Rightarrow> item_kind_of k),
      pi_title = first_some [member_str ''command'' item, member_str ''tool'' item, member_str ''name'' item,
        member_str ''type'' item] ''item'',
      pi_detail = member_str ''cwd'' item,
      pi_state = (case member_str ''status'' item of None \<Rightarrow> Item_Running | Some t \<Rightarrow> item_state_of t),
      pi_output = str_or_empty (member_str ''aggregatedOutput'' item),
      pi_exit_code = Option.bind (json_member ''exitCode'' item) json_i64,
      pi_duration_ms = Option.bind (json_member ''durationMs'' item) json_u64\<rparr>"

definition token_field :: "json \<Rightarrow> json \<Rightarrow> string \<Rightarrow> u64" where
  "token_field newest usage n =
     (case Option.bind (case json_member n newest of Some v \<Rightarrow> Some v | None \<Rightarrow> json_member n usage) json_u64 of
        None \<Rightarrow> 0 | Some v \<Rightarrow> v)"

definition token_usage_of :: "json \<Rightarrow> token_usage" where
  "token_usage_of params =
     (let usage = first_some [json_member ''tokenUsage'' params] params;
          newest = first_some [json_member ''last'' usage] usage
      in \<lparr>tk_input_tokens = token_field newest usage ''inputTokens'',
          tk_cached_input_tokens = token_field newest usage ''cachedInputTokens'',
          tk_output_tokens = token_field newest usage ''outputTokens'',
          tk_reasoning_output_tokens = token_field newest usage ''reasoningOutputTokens'',
          tk_total_tokens = token_field newest usage ''totalTokens'',
          tk_context_window = Option.bind (json_member ''modelContextWindow'' usage) json_u64\<rparr>)"

definition item_ended :: "json \<Rightarrow> turn_progress" where
  "item_ended item = Item_Ended (str_or_empty (member_str ''id'' item))
     (case member_str ''status'' item of None \<Rightarrow> Item_Completed | Some t \<Rightarrow> item_state_of t)
     (member_str ''aggregatedOutput'' item)
     (Option.bind (json_member ''exitCode'' item) json_i64)
     (Option.bind (json_member ''durationMs'' item) json_u64)"

definition forward_progress :: "string \<Rightarrow> json option \<Rightarrow> turn_progress list" where
  "forward_progress m params = (case params of
     None \<Rightarrow> []
   | Some ps \<Rightarrow>
      (let item_id = str_or_empty (member_str ''itemId'' ps); delta = str_or_empty (member_str ''delta'' ps)
       in if m \<in> {''item/reasoning/summaryTextDelta'', ''item/reasoning/textDelta''} then [Reasoning_Delta item_id delta]
          else if m = ''item/agentMessage/delta'' then [Message_Delta item_id delta]
          else if m \<in> {''item/commandExecution/outputDelta'', ''command/exec/outputDelta'', ''process/outputDelta'',
                      ''item/fileChange/outputDelta''} then [Item_Output item_id delta]
          else if m = ''item/started''
          then (case json_member ''item'' ps of None \<Rightarrow> [] | Some item \<Rightarrow> [Item_Begun (progress_item_of item)])
          else if m = ''item/completed''
          then (case json_member ''item'' ps of None \<Rightarrow> [] | Some item \<Rightarrow> [item_ended item])
          else if m = ''thread/tokenUsage/updated'' then [Tokens_Used (token_usage_of ps)]
          else if m \<in> {''turn/completed'', ''turn/failed''} then [Stage_Reached Stage_Done]
          else []))"

definition completed_agent_message :: "json option \<Rightarrow> string option" where
  "completed_agent_message params = (case Option.bind params (json_member ''item'') of
     None \<Rightarrow> None
   | Some item \<Rightarrow> if member_str ''type'' item = Some ''agentMessage'' then member_str ''text'' item else None)"

section \<open>Reports\<close>

record turn_report =
  rt_value :: json
  rt_conforms :: bool

text \<open>Why a reply is no report; the texts are shown to the owner only.\<close>

datatype report_problem = Not_Json | Not_An_Object | Missing_Fields "string list" "string list"

definition required_properties :: "string list" where
  "required_properties = [''ticker'', ''name'', ''summary'']"

definition validate_report :: "json \<Rightarrow> report_problem + unit" where
  "validate_report v = (case json_object v of
     None \<Rightarrow> Inl Not_An_Object
   | Some ms \<Rightarrow>
      (let missing = filter (\<lambda>k. map_of ms k \<in> {None, Some JNull}) required_properties
       in if missing = [] then Inr () else Inl (Missing_Fields missing (map fst ms))))"

text \<open>The fragment that states the schema in words: the lists of required and optional names it carries.\<close>

definition fragment_required :: "json \<Rightarrow> string list" where
  "fragment_required schema = strings_of (member_array ''required'' schema)"

definition fragment_sections :: "json \<Rightarrow> string list" where
  "fragment_sections schema = (case Option.bind (json_member ''properties'' schema) json_object of
     None \<Rightarrow> [] | Some ms \<Rightarrow> filter (\<lambda>k. k \<notin> set required_properties) (map fst ms))"

text \<open>\<open>load\<close> on the decoded document: it must declare every required property.\<close>

definition schema_ok :: "json \<Rightarrow> bool" where
  "schema_ok schema = (case Option.bind (json_member ''properties'' schema) json_object of
     None \<Rightarrow> False | Some ms \<Rightarrow> list_all (\<lambda>k. map_of ms k \<noteq> None) required_properties)"

section \<open>Facts\<close>

lemma registry_wf: "bt_wf reg \<Longrightarrow> bt_wf (snd (register_tool n tool reg))"
  by (simp add: register_tool_def bt_wf_insert)

text \<open>A call reaches exactly the tool registered last under its name; a name never registered is refused,
  and the answer names every registered tool in order.\<close>

theorem dispatch_reaches_registered:
  "(let reg = fold (\<lambda>(n, tool) reg. snd (register_tool n tool reg)) tools [] in
     registry_names reg = sorted_list_of_set (fst ` set tools)
     \<and> dispatch_tool reg n arguments = (case map_of (rev tools) n of
          None \<Rightarrow> Inl (n, sorted_list_of_set (fst ` set tools))
        | Some tool \<Rightarrow> Inr (tl_call tool arguments)))"
proof -
  define reg where "reg = fold (\<lambda>(n, tool) reg. snd (register_tool n tool reg)) tools []"
  have "bt_wf reg \<and> fst ` set reg = fst ` set tools \<and> map_of reg = map_of (rev tools)"
    unfolding reg_def
  proof (induction tools rule: rev_induct)
    case (snoc t tools)
    then show ?case
      by (cases t) (simp add: register_tool_def bt_wf_insert set_keys_bt_insert map_of_bt_insert)
  qed simp
  then have wf: "sorted_wrt (<) (map fst reg)" and keys: "set (map fst reg) = fst ` set tools" and look: "map_of reg = map_of (rev tools)"
    by (simp_all add: bt_wf_def)
  have "map fst reg = sorted_list_of_set (fst ` set tools)"
    using wf keys by (metis sorted_list_of_set.idem_if_sorted_distinct strict_sorted_iff)
  then show ?thesis
    using look by (simp add: reg_def[symmetric] registry_names_def dispatch_tool_def split: option.split)
qed

text \<open>A value passes as a report exactly when it is an object in which every property the interface needs
  is present and not null; otherwise the reason lists the missing ones.\<close>

theorem report_conforms_iff:
  "validate_report v = Inr () \<longleftrightarrow> (\<exists>ms. v = JObject ms \<and> (\<forall>k \<in> set required_properties. \<exists>w. map_of ms k = Some w \<and> w \<noteq> JNull))"
proof -
  have present: "map_of ms k \<notin> {None, Some JNull} \<longleftrightarrow> (\<exists>w. map_of ms k = Some w \<and> w \<noteq> JNull)" for ms k
    by (cases "map_of ms k") auto
  show ?thesis
    by (cases v) (simp_all add: validate_report_def json_object_def Let_def filter_empty_conv present[symmetric] del: insert_iff)
qed

end
