(* ===== verification/Agent_Access.thy ===== *)
theory Agent_Access
  imports Agent_Sandbox Agent_Rpc Agent_Trace Agent_Tools Db_Common
begin

text \<open>
  How much the agent may do without asking, \<open>agent/access.rs\<close>, and the two documents a session is started
  with: the domain instructions, \<open>agent/instructions.rs\<close>, and the report contract, \<open>agent/report.rs\<close>. The file
  system and the JSON decoder are parameters; the labels and descriptions shown to the owner are not modelled.
\<close>

section \<open>Levels\<close>

datatype access_level = Ask_Level | Auto_Approve | Full_Access

definition all_levels :: "access_level list" where
  "all_levels = [Ask_Level, Auto_Approve, Full_Access]"

definition level_token :: "access_level \<Rightarrow> string" where
  "level_token l = (case l of Ask_Level \<Rightarrow> ''ask'' | Auto_Approve \<Rightarrow> ''auto_approve'' | Full_Access \<Rightarrow> ''full_access'')"

definition parse_level :: "string \<Rightarrow> access_level option" where
  "parse_level token = find (\<lambda>l. level_token l = token) all_levels"

definition level_sandbox :: "access_level \<Rightarrow> sandbox_mode" where
  "level_sandbox l = (case l of Ask_Level \<Rightarrow> Read_Only | Auto_Approve \<Rightarrow> Workspace_Write | Full_Access \<Rightarrow> Danger_Full_Access)"

definition level_policy :: "access_level \<Rightarrow> approval_policy" where
  "level_policy l = (case l of Ask_Level \<Rightarrow> Unless_Trusted | Auto_Approve \<Rightarrow> On_Request | Full_Access \<Rightarrow> Never_Ask)"

definition level_reviewer :: "access_level \<Rightarrow> approvals_reviewer" where
  "level_reviewer l = (case l of Auto_Approve \<Rightarrow> Auto_Review | _ \<Rightarrow> Owner_Reviews)"

definition consults_this_client :: "access_level \<Rightarrow> bool" where
  "consults_this_client l \<longleftrightarrow> level_reviewer l = Owner_Reviews \<and> level_policy l \<noteq> Never_Ask"

definition with_extra_write_roots :: "path list \<Rightarrow> sandbox_policy \<Rightarrow> sandbox_policy" where
  "with_extra_write_roots roots p = p\<lparr>sp_writable_roots := sp_writable_roots p @ roots\<rparr>"

definition level_confinement :: "access_level \<Rightarrow> path \<Rightarrow> path option \<Rightarrow> path option \<Rightarrow> sandbox_policy option" where
  "level_confinement l codex_home trace_dir workspace = (case l of
     Ask_Level \<Rightarrow> Some (codex_child_policy codex_home trace_dir)
   | Auto_Approve \<Rightarrow> Some (case workspace of
       None \<Rightarrow> codex_child_policy codex_home trace_dir
     | Some w \<Rightarrow> (codex_child_policy codex_home trace_dir)
         \<lparr>sp_writable_roots := sp_writable_roots (codex_child_policy codex_home trace_dir) @ [w]\<rparr>)
   | Full_Access \<Rightarrow> None)"

record access_setting =
  as_level :: access_level

definition accepts_change_to :: "access_setting \<Rightarrow> access_level \<Rightarrow> bool" where
  "accepts_change_to s candidate \<longleftrightarrow> as_level s = candidate"

section \<open>Documents\<close>

definition instructions_path :: path where
  "instructions_path = map Normal [''docs'', ''agent'', ''instructions.md'']"

text \<open>\<open>resolve_from\<close> of the instructions; the one of the report contract does not take a file as the base.\<close>

definition resolve_document :: "file_system \<Rightarrow> path \<Rightarrow> path \<Rightarrow> path option" where
  "resolve_document fs rel base =
     (if fs_is_file fs (path_join base rel) then Some (path_join base rel)
      else find (fs_is_file fs) (map (\<lambda>a. path_join a rel) (ancestors base)))"

definition resolve_instructions :: "file_system \<Rightarrow> path \<Rightarrow> path option" where
  "resolve_instructions fs base = (if fs_is_file fs base then Some base else resolve_document fs instructions_path base)"

text \<open>\<open>resolve_default\<close>: the working directory first, then the directory of the executable.\<close>

definition resolve_default :: "(path \<Rightarrow> path option) \<Rightarrow> path option \<Rightarrow> path option \<Rightarrow> path option" where
  "resolve_default resolve cwd executable = (case Option.bind cwd resolve of
     Some p \<Rightarrow> Some p | None \<Rightarrow> Option.bind executable (\<lambda>e. Option.bind (path_parent e) resolve))"

definition project_root_from :: "file_system \<Rightarrow> path \<Rightarrow> path option" where
  "project_root_from fs base =
     Option.bind (resolve_instructions fs base) (\<lambda>d. Option.bind (path_parent d) (\<lambda>d. Option.bind (path_parent d) path_parent))"

datatype document_error = Not_Found "path list" | Unreadable path | Empty_Document path | Invalid_Schema path string

definition read_document :: "file_system \<Rightarrow> path \<Rightarrow> document_error + string" where
  "read_document fs p = (case fs_read fs p of
     Inr contents \<Rightarrow> Inr contents | Inl No_Entry \<Rightarrow> Inl (Not_Found [p]) | Inl _ \<Rightarrow> Inl (Unreadable p))"

definition load_instructions :: "file_system \<Rightarrow> path \<Rightarrow> document_error + string" where
  "load_instructions fs p = then_do (read_document fs p) (\<lambda>contents.
     if trim contents = [] then Inl (Empty_Document p) else Inr (trim contents))"

definition load_default_instructions :: "file_system \<Rightarrow> path option \<Rightarrow> path option \<Rightarrow> document_error + string" where
  "load_default_instructions fs cwd executable = (case resolve_default (resolve_instructions fs) cwd executable of
     None \<Rightarrow> Inl (Not_Found [instructions_path]) | Some p \<Rightarrow> load_instructions fs p)"

definition load_schema :: "(string \<Rightarrow> string + json) \<Rightarrow> file_system \<Rightarrow> path \<Rightarrow> document_error + json" where
  "load_schema decode fs p = then_do (read_document fs p) (\<lambda>contents. case decode contents of
     Inl e \<Rightarrow> Inl (Invalid_Schema p e)
   | Inr v \<Rightarrow> (case Option.bind (json_member ''properties'' v) json_object of
       None \<Rightarrow> Inl (Invalid_Schema p ''missing properties'')
     | Some ms \<Rightarrow> (case find (\<lambda>k. map_of ms k = None) required_properties of
         Some k \<Rightarrow> Inl (Invalid_Schema p k) | None \<Rightarrow> Inr v)))"

section \<open>What the levels grant\<close>

text \<open>A level is one coherent combination: its token is read back as itself, only the asking level puts
  requests to the owner, full access is the one level without confinement, and every confined level keeps the
  rule store carved out and grants exactly the runtime's home, the trace directory and, when the runtime
  approves by itself, the workspace.\<close>

theorem access_level_coherent:
  "parse_level (level_token l) = Some l \<and> (consults_this_client l \<longleftrightarrow> l = Ask_Level)
   \<and> (level_confinement l home (Some trace) (Some ws) = None \<longleftrightarrow> l = Full_Access)
   \<and> (level_sandbox l = Danger_Full_Access \<longleftrightarrow> l = Full_Access)
   \<and> (case level_confinement l home (Some trace) (Some ws) of
        None \<Rightarrow> True
      | Some p \<Rightarrow> blocks_rule_persistence p \<and> sp_writable_roots p = home # trace # (if l = Auto_Approve then [ws] else [])
          \<and> sp_deny_write_subpaths p = [home @ [Normal ''rules'']])"
  by (cases l) (simp_all add: parse_level_def level_token_def all_levels_def consults_this_client_def level_reviewer_def
    level_policy_def level_confinement_def level_sandbox_def blocks_rule_persistence_def codex_child_policy_def rules_subdir_def
    path_join_def is_absolute_def)

text \<open>The project root is the closest directory above that holds the document.\<close>

lemma project_root_holds_document:
  assumes "project_root_from fs base = Some r" "\<not> fs_is_file fs base"
  shows "fs_is_file fs (r @ instructions_path) \<and> prefix r base"
proof -
  obtain d where d: "resolve_instructions fs base = Some d"
    "Option.bind (path_parent d) (\<lambda>d. Option.bind (path_parent d) path_parent) = Some r"
    using assms(1) by (auto simp: project_root_from_def bind_eq_Some_conv)
  have join: "path_join a instructions_path = a @ instructions_path" for a
    by (simp add: path_join_def instructions_path_def is_absolute_def)
  have "\<exists>a. d = a @ instructions_path \<and> prefix a base \<and> fs_is_file fs d"
    using d(1) assms(2) ancestors_prefix[of _ base]
    by (auto simp: resolve_instructions_def resolve_document_def join find_Some_iff in_set_conv_nth split: if_splits)
      (metis (no_types, lifting) nth_mem)
  then obtain a where a: "d = a @ instructions_path" "prefix a base" "fs_is_file fs d" by blast
  have "path_parent (a @ [Normal x]) = Some a" for a x by (auto simp: path_parent_def butlast_append)
  moreover have "d = ((a @ [Normal ''docs'']) @ [Normal ''agent'']) @ [Normal ''instructions.md'']"
    using a(1) by (simp add: instructions_path_def)
  ultimately have "r = a" using d(2) by (simp del: append_assoc)
  with a show ?thesis by simp
qed

end
