(* ===== verification/Agent_Gate.thy ===== *)
theory Agent_Gate
  imports Agent_Approval
begin

text \<open>
  The approval gate of the interface, \<open>UiApprovalDecider\<close> and \<open>AgentController::decide\<close> of \<open>commands/agent.rs\<close>:
  one slot shared by the task that waits for a verdict and by the owner. The locks make each lock scope one
  step, so the two scopes of the owner's call are two steps. The channel back to a waiter is its ticket.
\<close>

section \<open>Verdicts as tokens\<close>

definition decision_token :: "verdict \<Rightarrow> string" where
  "decision_token v = (case v of
     Allow_Once \<Rightarrow> ''allow_once'' | Allow_For_Session \<Rightarrow> ''allow_for_session'' | Allow_Always \<Rightarrow> ''allow_always'' | Deny \<Rightarrow> ''deny'')"

definition parse_decision :: "string \<Rightarrow> verdict result" where
  "parse_decision token =
     (if token = ''allow_once'' then Inr Allow_Once
      else if token = ''allow_for_session'' then Inr Allow_For_Session
      else if token = ''allow_always'' then Inr Allow_Always
      else if token = ''deny'' then Inr Deny
      else Inl (Bail ''unknown approval decision''))"

definition ensure_offered :: "string list \<Rightarrow> verdict \<Rightarrow> unit result" where
  "ensure_offered options v =
     (if decision_token v \<in> set options then Inr () else Inl (Bail ''decision not among the options of this request''))"

lemma decision_token_inj [simp]: "decision_token v = decision_token w \<longleftrightarrow> v = w"
  by (cases v; cases w) (simp_all add: decision_token_def)

lemma parse_decision_Inr: "parse_decision t = Inr v \<longleftrightarrow> t = decision_token v"
  by (cases v) (auto simp: parse_decision_def decision_token_def)

section \<open>The slot\<close>

text \<open>The request as the interface gets it, \<open>AgentApprovalRequest\<close>.\<close>

record request_view =
  rv_request_id :: int
  rv_kind :: string
  rv_summary :: string
  rv_advertised :: "string list"
  rv_options :: "string list"

definition request_view_of :: "approval_request \<Rightarrow> request_view" where
  "request_view_of r = \<lparr>rv_request_id = aq_id r, rv_kind = kind_as_str (aq_kind r), rv_summary = aq_summary r,
     rv_advertised = aq_advertised r, rv_options = map decision_token (aq_options r)\<rparr>"

record pending_approval =
  pa_request :: request_view
  pa_ticket :: nat
  pa_decided :: bool

text \<open>
  \<open>gt_waiting\<close> is the request whose \<open>decide\<close> has not returned, with its ticket, and \<open>gt_reply\<close> what lies in its
  channel; \<open>gt_deciding\<close> is the owner's call between its two lock scopes, with the identifier and the verdict it
  was called with. The last two fields record what happened: each answer \<open>decide\<close> returned, and for each call of
  the owner that reached a waiter, the waiter's ticket, the identifier the owner named and the verdict.
\<close>

record approval_gate =
  gt_slot :: "pending_approval option"
  gt_waiting :: "(approval_request \<times> nat) option"
  gt_reply :: "verdict option"
  gt_deciding :: "(int \<times> verdict) option"
  gt_next :: nat
  gt_closed :: bool
  gt_answers :: "(nat \<times> approval_request \<times> verdict) list"
  gt_owner :: "(nat \<times> int \<times> verdict) list"

definition new_gate :: approval_gate where
  "new_gate = \<lparr>gt_slot = None, gt_waiting = None, gt_reply = None, gt_deciding = None, gt_next = 0, gt_closed = False, gt_answers = [], gt_owner = []\<rparr>"

text \<open>\<open>decide\<close> up to its wait: an occupied slot means an immediate refusal.\<close>

definition gate_request :: "approval_request \<Rightarrow> approval_gate \<Rightarrow> approval_gate" where
  "gate_request r g = (case gt_slot g of
     Some _ \<Rightarrow> g\<lparr>gt_answers := gt_answers g @ [(gt_next g, r, Deny)], gt_next := Suc (gt_next g)\<rparr>
   | None \<Rightarrow> g\<lparr>gt_slot := Some \<lparr>pa_request = request_view_of r, pa_ticket = gt_next g, pa_decided = False\<rparr>,
       gt_waiting := Some (r, gt_next g), gt_next := Suc (gt_next g)\<rparr>)"

text \<open>\<open>decide\<close> after its wait: what the channel holds, and the slot is emptied.\<close>

definition gate_resume :: "approval_gate \<Rightarrow> approval_gate" where
  "gate_resume g = (case (gt_waiting g, gt_reply g) of
     (Some (r, t), Some v) \<Rightarrow>
       g\<lparr>gt_slot := None, gt_waiting := None, gt_reply := None, gt_answers := gt_answers g @ [(t, r, v)]\<rparr>
   | _ \<Rightarrow> g)"

text \<open>The host stops waiting: the future of \<open>decide\<close> is dropped where it stands.\<close>

definition gate_expire :: "approval_gate \<Rightarrow> approval_gate" where
  "gate_expire g = (if gt_reply g = None then g\<lparr>gt_waiting := None\<rparr> else g)"

text \<open>The owner's call: first lock scope, then the second one with the send.\<close>

definition owner_marks :: "int \<Rightarrow> verdict \<Rightarrow> approval_gate \<Rightarrow> unit result \<times> approval_gate" where
  "owner_marks i v g = (case gt_slot g of
     None \<Rightarrow> (Inl (Bail ''no approval is pending''), g)
   | Some p \<Rightarrow>
       if rv_request_id (pa_request p) \<noteq> i then (Inl (Bail ''does not match the pending approval''), g)
       else if pa_decided p then (Inl (Bail ''already decided''), g)
       else (case ensure_offered (rv_options (pa_request p)) v of
         Inl e \<Rightarrow> (Inl e, g)
       | Inr _ \<Rightarrow> (Inr (), g\<lparr>gt_slot := Some (p\<lparr>pa_decided := True\<rparr>), gt_deciding := Some (i, v)\<rparr>)))"

definition owner_sends :: "int \<Rightarrow> verdict \<Rightarrow> approval_gate \<Rightarrow> unit result \<times> approval_gate" where
  "owner_sends i v g = (case gt_slot g of
     None \<Rightarrow> (Inl (Bail ''the pending approval was removed''), g\<lparr>gt_deciding := None\<rparr>)
   | Some p \<Rightarrow>
       if map_option snd (gt_waiting g) = Some (pa_ticket p)
       then (Inr (), g\<lparr>gt_slot := None, gt_deciding := None, gt_reply := Some v,
              gt_owner := gt_owner g @ [(pa_ticket p, i, v)]\<rparr>)
       else (Inl (Bail ''nobody waits for this approval any more''), g\<lparr>gt_slot := None, gt_deciding := None\<rparr>))"

definition owner_decides :: "int \<Rightarrow> verdict \<Rightarrow> approval_gate \<Rightarrow> unit result \<times> approval_gate" where
  "owner_decides i v g = (case owner_marks i v g of (Inl e, g) \<Rightarrow> (Inl e, g) | (Inr _, g) \<Rightarrow> owner_sends i v g)"

text \<open>The task ends: the slot is emptied, and a waiter of its request would see its channel closed.\<close>

definition gate_clear :: "approval_gate \<Rightarrow> approval_gate" where
  "gate_clear g = (case (gt_slot g, gt_waiting g) of
     (Some p, Some (r, t)) \<Rightarrow>
       if pa_ticket p = t
       then g\<lparr>gt_slot := None, gt_closed := True, gt_waiting := None, gt_answers := gt_answers g @ [(t, r, Deny)]\<rparr>
       else g\<lparr>gt_slot := None, gt_closed := True\<rparr>
   | _ \<Rightarrow> g\<lparr>gt_slot := None, gt_closed := True\<rparr>)"

section \<open>Steps\<close>

inductive gate_step :: "approval_gate \<Rightarrow> approval_gate \<Rightarrow> bool" where
  Request: "gt_waiting g = None \<Longrightarrow> \<not> gt_closed g \<Longrightarrow> gate_step g (gate_request r g)"
| Resume: "gate_step g (gate_resume g)"
| Expire: "gate_step g (gate_expire g)"
| Marks: "gt_deciding g = None \<Longrightarrow> gate_step g (snd (owner_marks i v g))"
| Sends: "gt_deciding g = Some (i, v) \<Longrightarrow> gate_step g (snd (owner_sends i v g))"
| Clear: "gate_step g (gate_clear g)"

inductive gate_reach :: "approval_gate \<Rightarrow> bool" where
  Init: "gate_reach new_gate"
| Step: "gate_reach g \<Longrightarrow> gate_step g g' \<Longrightarrow> gate_reach g'"

inductive_cases gate_stepE: "gate_step g g'"

section \<open>The invariant\<close>

definition granted_by_owner :: "approval_gate \<Rightarrow> nat \<Rightarrow> approval_request \<Rightarrow> verdict \<Rightarrow> bool" where
  "granted_by_owner g t r v \<longleftrightarrow> (t, aq_id r, v) \<in> set (gt_owner g) \<and> v \<in> set (aq_options r)"

definition slot_ok :: "approval_gate \<Rightarrow> bool" where
  "slot_ok g \<longleftrightarrow> (case gt_slot g of
     None \<Rightarrow> gt_deciding g = None \<or> gt_closed g
   | Some p \<Rightarrow> gt_reply g = None \<and> pa_ticket p < gt_next g \<and> pa_ticket p \<notin> fst ` set (gt_owner g)
       \<and> (case gt_waiting g of None \<Rightarrow> True | Some (r, t) \<Rightarrow> t = pa_ticket p \<and> pa_request p = request_view_of r)
       \<and> (case gt_deciding g of
            None \<Rightarrow> \<not> pa_decided p
          | Some (i, v) \<Rightarrow> i = rv_request_id (pa_request p) \<and> decision_token v \<in> set (rv_options (pa_request p))))"

definition waiter_ok :: "approval_gate \<Rightarrow> bool" where
  "waiter_ok g \<longleftrightarrow> (case gt_waiting g of
     None \<Rightarrow> gt_reply g = None
   | Some (r, t) \<Rightarrow> t < gt_next g \<and> t \<notin> fst ` set (gt_answers g)
       \<and> (case gt_reply g of None \<Rightarrow> gt_slot g \<noteq> None | Some v \<Rightarrow> granted_by_owner g t r v))"

definition history_ok :: "approval_gate \<Rightarrow> bool" where
  "history_ok g \<longleftrightarrow> distinct (map fst (gt_answers g)) \<and> distinct (map fst (gt_owner g))
     \<and> (\<forall>t \<in> fst ` set (gt_answers g) \<union> fst ` set (gt_owner g). t < gt_next g)
     \<and> (\<forall>(t, r, v) \<in> set (gt_answers g). v \<noteq> Deny \<longrightarrow> granted_by_owner g t r v)"

definition gate_inv :: "approval_gate \<Rightarrow> bool" where
  "gate_inv g \<longleftrightarrow> slot_ok g \<and> waiter_ok g \<and> history_ok g"

lemmas gate_inv_defs = gate_inv_def slot_ok_def waiter_ok_def history_ok_def granted_by_owner_def

lemma offered_iff: "decision_token v \<in> set (rv_options (request_view_of r)) \<longleftrightarrow> v \<in> set (aq_options r)"
  by (auto simp: request_view_of_def)

lemma request_view_id [simp]: "rv_request_id (request_view_of r) = aq_id r"
  by (simp add: request_view_of_def)

lemma new_gate_inv: "gate_inv new_gate"
  by (simp add: gate_inv_defs new_gate_def)

lemma history_ok_more:
  "history_ok g \<Longrightarrow> history_ok (g\<lparr>gt_slot := s, gt_waiting := w, gt_next := Suc (gt_next g)\<rparr>)"
  by (auto simp: history_ok_def granted_by_owner_def ball_Un intro!: less_SucI)

lemma history_ok_refusal:
  assumes "history_ok g" shows "history_ok (g\<lparr>gt_answers := gt_answers g @ [(gt_next g, r, Deny)], gt_next := Suc (gt_next g)\<rparr>)"
proof -
  have "gt_next g \<notin> fst ` set (gt_answers g)" using assms by (auto simp: history_ok_def)
  then show ?thesis using assms by (auto simp: history_ok_def granted_by_owner_def ball_Un intro!: less_SucI)
qed

lemma request_inv:
  assumes "gate_inv g" "gt_waiting g = None" "\<not> gt_closed g" shows "gate_inv (gate_request r g)"
proof (cases "gt_slot g")
  case None
  then have "gate_request r g = g\<lparr>gt_slot := Some \<lparr>pa_request = request_view_of r, pa_ticket = gt_next g, pa_decided = False\<rparr>,
      gt_waiting := Some (r, gt_next g), gt_next := Suc (gt_next g)\<rparr>" by (simp add: gate_request_def)
  moreover have "gt_next g \<notin> fst ` set (gt_answers g)" "gt_next g \<notin> fst ` set (gt_owner g)"
    using assms(1) by (auto simp: gate_inv_def history_ok_def)
  ultimately show ?thesis using assms None history_ok_more[of g]
    by (simp add: gate_inv_def slot_ok_def waiter_ok_def)
next
  case (Some p)
  then have "gate_request r g = g\<lparr>gt_answers := gt_answers g @ [(gt_next g, r, Deny)], gt_next := Suc (gt_next g)\<rparr>"
    by (simp add: gate_request_def)
  then show ?thesis using assms Some history_ok_refusal[of g r]
    by (auto simp: gate_inv_def slot_ok_def waiter_ok_def)
qed

lemma resume_inv:
  assumes "gate_inv g" shows "gate_inv (gate_resume g)"
proof (cases "gt_waiting g")
  case (Some w)
  obtain r t where w: "w = (r, t)" by (cases w)
  show ?thesis
  proof (cases "gt_reply g")
    case None
    then show ?thesis using assms Some w by (simp add: gate_resume_def)
  next
    case (Some v)
    then have "gt_slot g = None" using assms by (auto simp: gate_inv_defs split: option.splits)
    then show ?thesis using assms Some \<open>gt_waiting g = Some w\<close> w by (auto simp: gate_inv_defs gate_resume_def)
  qed
qed (use assms in \<open>simp add: gate_resume_def\<close>)

lemma expire_inv: "gate_inv g \<Longrightarrow> gate_inv (gate_expire g)"
  by (auto simp: gate_inv_defs gate_expire_def split: option.splits)

lemma marks_inv:
  assumes "gate_inv g" "gt_deciding g = None" shows "gate_inv (snd (owner_marks i v g))"
proof (cases "gt_slot g")
  case (Some p)
  show ?thesis
  proof (cases "fst (owner_marks i v g)")
    case (Inl e)
    then show ?thesis using assms Some by (auto simp: owner_marks_def ensure_offered_def split: if_splits)
  next
    case (Inr u)
    then have "snd (owner_marks i v g) = g\<lparr>gt_slot := Some (p\<lparr>pa_decided := True\<rparr>), gt_deciding := Some (i, v)\<rparr>"
      "decision_token v \<in> set (rv_options (pa_request p))" "i = rv_request_id (pa_request p)"
      using Some by (auto simp: owner_marks_def ensure_offered_def split: if_splits)
    then show ?thesis using assms Some by (auto simp: gate_inv_defs split: option.splits prod.splits)
  qed
qed (use assms in \<open>simp add: owner_marks_def\<close>)

lemma sends_inv:
  assumes "gate_inv g" "gt_deciding g = Some (i, v)" shows "gate_inv (snd (owner_sends i v g))"
proof (cases "gt_slot g")
  case None
  then show ?thesis using assms by (auto simp: gate_inv_defs owner_sends_def split: option.splits)
next
  case (Some p)
  then have offered: "decision_token v \<in> set (rv_options (pa_request p))" "i = rv_request_id (pa_request p)" "gt_reply g = None" "pa_ticket p \<notin> fst ` set (gt_owner g)"
    using assms by (auto simp: gate_inv_defs)
  show ?thesis
  proof (cases "map_option snd (gt_waiting g) = Some (pa_ticket p)")
    case True
    then obtain r where r: "gt_waiting g = Some (r, pa_ticket p)" by auto
    then have view: "pa_request p = request_view_of r" using assms(1) Some by (auto simp: gate_inv_defs)
    then have "v \<in> set (aq_options r)" using offered(1) by (simp add: offered_iff)
    then show ?thesis using assms Some True r view offered
      by (auto simp: gate_inv_defs owner_sends_def)
  next
    case False
    then show ?thesis using assms Some offered
      by (auto simp: gate_inv_defs owner_sends_def split: option.splits)
  qed
qed

lemma clear_inv: "gate_inv g \<Longrightarrow> gate_inv (gate_clear g)"
  by (cases "gt_slot g"; cases "gt_waiting g")
     (auto simp: gate_inv_defs gate_clear_def split: option.splits prod.splits)

lemma gate_reach_inv: "gate_reach g \<Longrightarrow> gate_inv g"
  by (induction rule: gate_reach.induct)
     (auto elim!: gate_stepE simp: new_gate_inv intro: request_inv resume_inv expire_inv marks_inv sends_inv clear_inv)

text \<open>C12. No request is granted but by the owner: whenever the gate answers a request with anything but a refusal,
  the owner called with the identifier of that very request and with that very verdict, the call reached the waiter
  of that request, and the verdict was among the options the request offered. No request is answered twice and
  no call of the owner is used for two requests.\<close>

theorem grants_come_from_owner:
  assumes "gate_reach g" "(t, r, v) \<in> set (gt_answers g)" "v \<noteq> Deny"
  shows "(t, aq_id r, v) \<in> set (gt_owner g) \<and> v \<in> set (aq_options r)
    \<and> distinct (map fst (gt_answers g)) \<and> distinct (map fst (gt_owner g))"
  using gate_reach_inv[OF assms(1)] assms(2,3) by (auto simp: gate_inv_defs)

section \<open>The stale slot\<close>

text \<open>An approval that times out leaves its request in the slot. Until the owner answers that stale request,
  which then fails, the gate refuses every later request at once and shows the owner none of them.\<close>

theorem stale_slot_refuses_all:
  assumes "gate_reach g" "gt_slot g = Some p" "gt_reply g = None"
  shows "let g' = fold gate_request rs (gate_expire g) in
      map (snd \<circ> snd) (drop (length (gt_answers g)) (gt_answers g')) = replicate (length rs) Deny
      \<and> gt_slot g' = Some p \<and> fst (owner_sends i v g') = Inl (Bail ''nobody waits for this approval any more'')
      \<and> gt_slot (snd (owner_sends i v g')) = None"
proof -
  let ?g = "gate_expire g"
  have start: "gt_slot ?g = Some p" "gt_waiting ?g = None" "gt_answers ?g = gt_answers g"
    using assms(2,3) by (simp_all add: gate_expire_def)
  have "gt_slot (fold gate_request rs h) = Some p \<and> gt_waiting (fold gate_request rs h) = None
      \<and> (\<exists>as. gt_answers (fold gate_request rs h) = gt_answers h @ as \<and> map (snd \<circ> snd) as = replicate (length rs) Deny)"
    if "gt_slot h = Some p" "gt_waiting h = None" for h
    using that
  proof (induction rs arbitrary: h)
    case (Cons r rs)
    let ?h = "h\<lparr>gt_answers := gt_answers h @ [(gt_next h, r, Deny)], gt_next := Suc (gt_next h)\<rparr>"
    have "gate_request r h = ?h" using Cons.prems by (simp add: gate_request_def)
    moreover obtain as where "gt_slot (fold gate_request rs ?h) = Some p" "gt_waiting (fold gate_request rs ?h) = None"
      "gt_answers (fold gate_request rs ?h) = gt_answers ?h @ as" "map (snd \<circ> snd) as = replicate (length rs) Deny"
      using Cons.IH[of ?h] Cons.prems by (auto simp: comp_def)
    ultimately show ?case by (auto simp: comp_def intro!: exI[of _ "(gt_next h, r, Deny) # as"])
  qed simp
  from this[OF start(1,2)] start(3) show ?thesis by (auto simp: owner_sends_def Let_def)
qed

section \<open>Samples\<close>

definition sample_request :: "int \<Rightarrow> approval_request" where
  "sample_request i = \<lparr>aq_id = i, aq_method = ''execCommandApproval'', aq_kind = Exec_Command, aq_summary = ''ls'', aq_details = JNull,
     aq_advertised = [], aq_options = [Allow_Once, Deny]\<rparr>"

definition asked_gate :: approval_gate where
  "asked_gate = gate_request (sample_request 7) new_gate"

lemma asked_gate_reach: "gate_reach asked_gate"
  unfolding asked_gate_def by (rule gate_reach.Step[OF Init Request]) (simp_all add: new_gate_def)

definition granted_gate :: approval_gate where
  "granted_gate = gate_resume (snd (owner_sends 7 Allow_Once (snd (owner_marks 7 Allow_Once asked_gate))))"

lemma granted_gate_reach: "gate_reach granted_gate"
proof -
  have "gate_reach (snd (owner_marks 7 Allow_Once asked_gate))"
    by (rule gate_reach.Step[OF asked_gate_reach Marks]) (simp add: asked_gate_def gate_request_def new_gate_def)
  then have "gate_reach (snd (owner_sends 7 Allow_Once (snd (owner_marks 7 Allow_Once asked_gate))))"
    by (rule gate_reach.Step[OF _ Sends])
      (simp add: owner_marks_def ensure_offered_def asked_gate_def gate_request_def new_gate_def sample_request_def request_view_of_def)
  then show ?thesis unfolding granted_gate_def by (rule gate_reach.Step[OF _ Resume])
qed

lemma grants_come_from_owner_witness:
  "gt_answers granted_gate = [(0, sample_request 7, Allow_Once)] \<and> (0, 7, Allow_Once) \<in> set (gt_owner granted_gate)"
proof -
  have answers: "gt_answers granted_gate = [(0, sample_request 7, Allow_Once)]"
    by (simp add: granted_gate_def owner_marks_def owner_sends_def ensure_offered_def gate_resume_def asked_gate_def gate_request_def
      new_gate_def sample_request_def request_view_of_def)
  have "(0, aq_id (sample_request 7), Allow_Once) \<in> set (gt_owner granted_gate)"
    using grants_come_from_owner[OF granted_gate_reach, of 0 "sample_request 7" Allow_Once] by (simp add: answers)
  with answers show ?thesis by (simp add: sample_request_def)
qed

lemma stale_slot_refuses_all_witness:
  "map (snd \<circ> snd) (gt_answers (fold gate_request [sample_request 8, sample_request 9] (gate_expire asked_gate))) = [Deny, Deny]"
proof -
  have "gt_slot asked_gate = Some \<lparr>pa_request = request_view_of (sample_request 7), pa_ticket = 0, pa_decided = False\<rparr>"
    "gt_reply asked_gate = None" "gt_answers asked_gate = []"
    by (simp_all add: asked_gate_def gate_request_def new_gate_def)
  from stale_slot_refuses_all[OF asked_gate_reach this(1,2), of "[sample_request 8, sample_request 9]" 7 Deny] this(3)
  show ?thesis by (simp add: Let_def numeral_2_eq_2)
qed

end
