(* ===== verification/Agent_Live.thy ===== *)
theory Agent_Live
  imports Agent_Tools
begin

text \<open>
  The live view of a running turn, \<open>commands/agent_live.rs\<close>: the progress of a turn folded into what the
  interface polls. The mutex around the status makes each event one step.
\<close>

section \<open>State\<close>

record live_item =
  li_item_id :: string
  li_kind :: string
  li_title :: string
  li_detail :: "string option"
  li_state :: string
  li_output :: string
  li_exit_code :: "int option"
  li_duration_ms :: "u64 option"

record agent_live =
  al_turn_seq :: nat
  al_stage :: string
  al_message :: string
  al_items :: "live_item list"
  al_tokens :: "token_usage option"

definition text_tail :: nat where "text_tail = 4000"

definition item_output_tail :: nat where "item_output_tail = 4000"

text \<open>The last \<open>n\<close> characters of a text.\<close>

definition keep_tail :: "nat \<Rightarrow> string \<Rightarrow> string" where
  "keep_tail n s = drop (length s - n) s"

definition push_capped :: "string \<Rightarrow> string \<Rightarrow> string" where
  "push_capped chunk target = (let s = target @ chunk in if text_tail < length s then keep_tail text_tail s else s)"

definition push_item_output :: "string \<Rightarrow> string \<Rightarrow> string" where
  "push_item_output chunk target =
     (let s = target @ chunk in if item_output_tail < length s then keep_tail item_output_tail s else s)"

definition kind_token :: "item_kind \<Rightarrow> string" where
  "kind_token k = (case k of
     Reasoning_Item \<Rightarrow> ''reasoning'' | Command_Item \<Rightarrow> ''command'' | File_Change_Item \<Rightarrow> ''file_change''
   | Tool_Call_Item \<Rightarrow> ''tool_call'' | Message_Item \<Rightarrow> ''message'' | Other_Item \<Rightarrow> ''other'')"

definition state_token :: "item_state \<Rightarrow> string" where
  "state_token t = (case t of
     Item_Running \<Rightarrow> ''running'' | Item_Completed \<Rightarrow> ''completed'' | Item_Failed \<Rightarrow> ''failed'' | Item_Declined \<Rightarrow> ''declined'')"

definition live_item_of :: "progress_item \<Rightarrow> live_item" where
  "live_item_of p = \<lparr>li_item_id = pi_item_id p, li_kind = kind_token (pi_kind p), li_title = pi_title p, li_detail = pi_detail p,
     li_state = state_token (pi_state p), li_output = pi_output p, li_exit_code = pi_exit_code p, li_duration_ms = pi_duration_ms p\<rparr>"

definition new_live :: "nat \<Rightarrow> agent_live" where
  "new_live k = \<lparr>al_turn_seq = k, al_stage = ''thinking'', al_message = [], al_items = [], al_tokens = None\<rparr>"

section \<open>Folding\<close>

text \<open>\<open>iter_mut().find\<close> and a change of the item found.\<close>

definition on_item :: "string \<Rightarrow> (live_item \<Rightarrow> live_item) \<Rightarrow> agent_live \<Rightarrow> agent_live" where
  "on_item i f v = v\<lparr>al_items := update_first (\<lambda>it. li_item_id it = i) f (al_items v)\<rparr>"

definition add_output :: "string \<Rightarrow> live_item \<Rightarrow> live_item" where
  "add_output chunk it = it\<lparr>li_output := push_item_output chunk (li_output it)\<rparr>"

definition announce_item :: "live_item \<Rightarrow> agent_live \<Rightarrow> agent_live" where
  "announce_item entry v =
     (if \<exists>it \<in> set (al_items v). li_item_id it = li_item_id entry
      then on_item (li_item_id entry) (\<lambda>it. entry\<lparr>li_output := li_output it\<rparr>) v
      else v\<lparr>al_items := al_items v @ [entry]\<rparr>)"

definition or_else :: "'a option \<Rightarrow> 'a option \<Rightarrow> 'a option" where
  "or_else a b = (case a of None \<Rightarrow> b | Some x \<Rightarrow> Some x)"

definition end_item :: "item_state \<Rightarrow> string option \<Rightarrow> int option \<Rightarrow> u64 option \<Rightarrow> live_item \<Rightarrow> live_item" where
  "end_item t final code ms it =
     (let it = it\<lparr>li_state := state_token t, li_exit_code := or_else code (li_exit_code it),
            li_duration_ms := or_else ms (li_duration_ms it)\<rparr>
      in case final of
           None \<Rightarrow> it
         | Some s \<Rightarrow> if li_output it = [] then add_output s it else it)"

definition stage_token :: "turn_stage \<Rightarrow> string" where
  "stage_token t = (case t of Stage_Done \<Rightarrow> ''done'' | Working \<Rightarrow> ''working'' | Thinking \<Rightarrow> ''thinking'')"

definition fold_progress :: "turn_progress \<Rightarrow> agent_live \<Rightarrow> agent_live" where
  "fold_progress e v = (case e of
     Turn_Begun _ \<Rightarrow> v\<lparr>al_stage := ''thinking''\<rparr>
   | Reasoning_Delta i t \<Rightarrow> (on_item i (add_output t) v)\<lparr>al_stage := ''thinking''\<rparr>
   | Message_Delta _ t \<Rightarrow> v\<lparr>al_message := push_capped t (al_message v), al_stage := ''writing''\<rparr>
   | Item_Begun p \<Rightarrow> (announce_item (live_item_of p) v)\<lparr>al_stage := ''working''\<rparr>
   | Item_Output i t \<Rightarrow> (on_item i (add_output t) v)\<lparr>al_stage := ''working''\<rparr>
   | Item_Ended i t final code ms \<Rightarrow> on_item i (end_item t final code ms) v
   | Tokens_Used u \<Rightarrow> v\<lparr>al_tokens := Some u\<rparr>
   | Approval_Requested _ _ \<Rightarrow> v\<lparr>al_stage := ''awaiting_approval''\<rparr>
   | Approval_Resolved _ \<Rightarrow> v\<lparr>al_stage := ''working''\<rparr>
   | Stage_Reached t \<Rightarrow> v\<lparr>al_stage := stage_token t\<rparr>)"

text \<open>\<open>with_live\<close>: an event of another turn, or of a turn that has ended, changes nothing.\<close>

definition apply_progress :: "nat \<Rightarrow> turn_progress \<Rightarrow> agent_live option \<Rightarrow> agent_live option" where
  "apply_progress seq e live = (case live of
     None \<Rightarrow> None | Some v \<Rightarrow> if al_turn_seq v \<noteq> seq then Some v else Some (fold_progress e v))"

section \<open>Specification of the texts\<close>

lemma keep_tail_append: "keep_tail n (keep_tail n a @ b) = keep_tail n (a @ b)"
proof -
  have start: "keep_tail n a @ b = drop (length a - n) (a @ b)" by (simp add: keep_tail_def)
  have "length (drop (length a - n) (a @ b)) - n + (length a - n) = length (a @ b) - n \<or>
    (length (a @ b) \<le> n \<and> length a \<le> n) \<or> (length (a @ b) - n = length a - n)"
    by (simp only: length_drop length_append) linarith
  moreover have "length a - n + (length (drop (length a - n) (a @ b)) - n) = length (a @ b) - n"
    by (cases "length a \<le> n") (simp_all del: drop_append)
  ultimately show ?thesis unfolding start
    by (simp add: keep_tail_def add.commute del: drop_append)
qed

lemma push_capped_eq: "push_capped b s = keep_tail text_tail (s @ b)"
  by (simp add: push_capped_def keep_tail_def Let_def del: drop_append)

lemma push_capped_tail: "push_capped b (keep_tail text_tail a) = keep_tail text_tail (a @ b)"
  by (simp add: push_capped_eq keep_tail_append)

lemma push_item_output_eq: "push_item_output b s = keep_tail item_output_tail (s @ b)"
  by (simp add: push_item_output_def keep_tail_def Let_def del: drop_append)

lemma push_item_output_tail: "push_item_output b (keep_tail item_output_tail a) = keep_tail item_output_tail (a @ b)"
  by (simp add: push_item_output_eq keep_tail_append)

lemma keep_tail_Nil [simp]: "keep_tail n [] = []"
  by (simp add: keep_tail_def)

lemma length_keep_tail [simp]: "length (keep_tail n s) = min n (length s)"
  by (simp add: keep_tail_def)

text \<open>The text of the message deltas.\<close>

definition message_text :: "turn_progress list \<Rightarrow> string" where
  "message_text es = concat (List.map_filter (\<lambda>e. case e of Message_Delta _ t \<Rightarrow> Some t | _ \<Rightarrow> None) es)"

definition live_inv :: "agent_live \<Rightarrow> bool" where
  "live_inv v \<longleftrightarrow> distinct (map li_item_id (al_items v)) \<and> length (al_message v) \<le> text_tail"

lemma live_keys:
  assumes "\<And>it. li_item_id it = i \<Longrightarrow> li_item_id (f it) = i"
  shows "map li_item_id (al_items (on_item i f v)) = map li_item_id (al_items v)"
  using assms by (simp add: on_item_def map_update_first)

lemma on_item_other [simp]: "al_message (on_item i f v) = al_message v" "al_turn_seq (on_item i f v) = al_turn_seq v"
  by (simp_all add: on_item_def)

lemma add_output_id [simp]: "li_item_id (add_output t it) = li_item_id it"
  by (simp add: add_output_def)

lemma end_item_id [simp]: "li_item_id (end_item t final code ms it) = li_item_id it"
  by (simp add: end_item_def Let_def split: option.split)

lemma announce_item_keys:
  "map li_item_id (al_items (announce_item entry v)) =
     (if li_item_id entry \<in> set (map li_item_id (al_items v)) then map li_item_id (al_items v)
      else map li_item_id (al_items v) @ [li_item_id entry])"
proof -
  have "(\<exists>it \<in> set (al_items v). li_item_id it = li_item_id entry) \<longleftrightarrow> li_item_id entry \<in> set (map li_item_id (al_items v))"
    unfolding set_map image_iff by metis
  then show ?thesis by (simp add: announce_item_def live_keys)
qed

lemma announce_item_other [simp]: "al_message (announce_item e v) = al_message v" "al_turn_seq (announce_item e v) = al_turn_seq v"
  by (simp_all add: announce_item_def)

lemma fold_progress_inv: "live_inv v \<Longrightarrow> live_inv (fold_progress e v)"
  by (cases e) (auto simp: live_inv_def fold_progress_def live_keys announce_item_keys push_capped_eq)

lemma fold_progress_seq [simp]: "al_turn_seq (fold_progress e v) = al_turn_seq v"
  by (cases e) (simp_all add: fold_progress_def)

lemma fold_progress_run_inv: "live_inv v \<Longrightarrow> live_inv (fold fold_progress es v)"
  by (induction es arbitrary: v) (simp_all add: fold_progress_inv)

lemma message_text_append: "message_text (es @ es') = message_text es @ message_text es'"
  by (simp add: message_text_def map_filter_def)

lemma message_is_tail: "al_message (fold fold_progress es (new_live k)) = keep_tail text_tail (message_text es)"
proof (induction es rule: rev_induct)
  case Nil
  show ?case by (simp add: new_live_def message_text_def map_filter_def)
next
  case (snoc e es)
  then show ?case
    by (cases e) (simp_all add: fold_progress_def message_text_append message_text_def[of "[_]"] map_filter_def push_capped_tail)
qed

definition output_of :: "string \<Rightarrow> agent_live \<Rightarrow> string option" where
  "output_of i v = map_option li_output (find (\<lambda>it. li_item_id it = i) (al_items v))"

lemma find_update_first_other:
  assumes "\<And>it. li_item_id it = j \<Longrightarrow> li_item_id (f it) = j" "i \<noteq> j"
  shows "find (\<lambda>it. li_item_id it = i) (update_first (\<lambda>it. li_item_id it = j) f its) = find (\<lambda>it. li_item_id it = i) its"
  using assms by (induction its) auto

lemma output_of_on_item:
  assumes "\<And>it. li_item_id it = j \<Longrightarrow> li_item_id (f it) = j" "\<And>it. li_output (f it) = g (li_output it)"
  shows "output_of i (on_item j f v) = (if i = j then map_option g (output_of i v) else output_of i v)"
proof (cases "i = j")
  case True
  then show ?thesis using assms
    by (simp add: output_of_def on_item_def find_update_first option.map_comp comp_def)
next
  case False
  then show ?thesis using find_update_first_other[OF assms(1)] by (simp add: output_of_def on_item_def)
qed

lemma find_append: "find P (xs @ ys) = (case find P xs of None \<Rightarrow> find P ys | Some x \<Rightarrow> Some x)"
  by (induction xs) auto

lemma output_of_announce:
  assumes "output_of i v = Some out" shows "output_of i (announce_item entry v) = Some out"
proof (cases "\<exists>it \<in> set (al_items v). li_item_id it = li_item_id entry")
  case True
  then have "announce_item entry v = on_item (li_item_id entry) (\<lambda>it. entry\<lparr>li_output := li_output it\<rparr>) v"
    by (simp add: announce_item_def)
  moreover have "output_of i (on_item (li_item_id entry) (\<lambda>it. entry\<lparr>li_output := li_output it\<rparr>) v)
      = (if i = li_item_id entry then map_option (\<lambda>x. x) (output_of i v) else output_of i v)"
    by (rule output_of_on_item) simp_all
  ultimately show ?thesis using assms by (cases "i = li_item_id entry") simp_all
next
  case False
  then show ?thesis using assms by (auto simp: announce_item_def output_of_def find_append split: option.splits)
qed

lemma output_of_other [simp]:
  "output_of i (v\<lparr>al_stage := t\<rparr>) = output_of i v" "output_of i (v\<lparr>al_message := m\<rparr>) = output_of i v"
  "output_of i (v\<lparr>al_tokens := u\<rparr>) = output_of i v"
  by (simp_all add: output_of_def)

text \<open>
  The text an announced item stands for: its own chunks are appended, and a final text that comes with its end is
  taken only when nothing was there.
\<close>

definition stream_text :: "string \<Rightarrow> turn_progress \<Rightarrow> string \<Rightarrow> string" where
  "stream_text i e s = (case e of
     Reasoning_Delta j t \<Rightarrow> if j = i then s @ t else s
   | Item_Output j t \<Rightarrow> if j = i then s @ t else s
   | Item_Ended j _ final _ _ \<Rightarrow> if j = i \<and> s = [] then (case final of None \<Rightarrow> [] | Some t \<Rightarrow> t) else s
   | _ \<Rightarrow> s)"

lemma output_of_end_other:
  "i \<noteq> j \<Longrightarrow> output_of i (on_item j (end_item t final code ms) v) = output_of i v"
  using find_update_first_other[of j "end_item t final code ms" i] by (simp add: output_of_def on_item_def)

lemma output_of_end:
  "output_of i (on_item i (end_item t final code ms) v)
    = map_option (\<lambda>s. case final of None \<Rightarrow> s | Some x \<Rightarrow> if s = [] then push_item_output x s else s) (output_of i v)"
  using output_of_on_item[of i "end_item t final code ms" "\<lambda>s. case final of None \<Rightarrow> s | Some x \<Rightarrow> if s = [] then push_item_output x s else s" i v]
  by (simp add: end_item_def add_output_def Let_def split: option.splits)

lemma keep_tail_empty [simp]: "keep_tail item_output_tail s = [] \<longleftrightarrow> s = []"
  by (simp add: keep_tail_def item_output_tail_def) (cases s; simp)

lemma fold_progress_output:
  assumes "output_of i v = Some (keep_tail item_output_tail s)"
  shows "output_of i (fold_progress e v) = Some (keep_tail item_output_tail (stream_text i e s))"
proof -
  have chunk: "output_of i (on_item j (add_output t) v)
      = Some (keep_tail item_output_tail (if j = i then s @ t else s))" for j t
    using output_of_on_item[of j "add_output t" "push_item_output t" i v] assms
    by (auto simp: add_output_def push_item_output_tail)
  have ended: "output_of i (on_item j (end_item t final code ms) v)
      = Some (keep_tail item_output_tail (if j = i \<and> s = [] then (case final of None \<Rightarrow> [] | Some x \<Rightarrow> x) else s))"
    for j t final code ms
    using assms by (cases "j = i") (auto simp: output_of_end output_of_end_other push_item_output_eq split: option.splits)
  show ?thesis using assms
    by (cases e) (simp_all add: fold_progress_def stream_text_def chunk ended output_of_announce)
qed

lemma fold_progress_absent:
  assumes "i \<notin> set (map li_item_id (al_items v))" "\<forall>q. e = Item_Begun q \<longrightarrow> pi_item_id q \<noteq> i"
  shows "i \<notin> set (map li_item_id (al_items (fold_progress e v)))"
proof (cases e)
  case (Item_Begun q)
  then show ?thesis using assms
    by (simp add: fold_progress_def live_item_of_def announce_item_keys del: set_map)
qed (use assms(1) in \<open>simp_all add: fold_progress_def live_keys del: set_map\<close>)

lemma unannounced_absent:
  assumes "i \<notin> set (map li_item_id (al_items v))" "\<forall>e \<in> set es. \<forall>q. e = Item_Begun q \<longrightarrow> pi_item_id q \<noteq> i"
  shows "i \<notin> set (map li_item_id (al_items (fold fold_progress es v)))"
  using assms
proof (induction es arbitrary: v)
  case (Cons e es)
  have "i \<notin> set (map li_item_id (al_items (fold_progress e v)))"
    by (rule fold_progress_absent) (use Cons.prems in simp_all)
  from Cons.IH[OF this] Cons.prems(2) show ?case by simp
qed simp

text \<open>C39. What the interface polls of a running turn is exactly the end of what was streamed. The message is the last
  4000 characters of all message deltas. The output of an item, running or ended, is the last 4000 characters of
  what it was announced with, followed by its own chunks since it was first announced; the final text that comes
  with its end counts only when there was no text before. What arrived for the item before its first
  announcement is not part of it (early_chunk_is_lost). No item is listed twice. The text an item is announced
  with must fit the limit itself, since an announcement is stored as it comes.\<close>

theorem live_view_is_tail:
  assumes "\<forall>e \<in> set before. \<forall>q. e = Item_Begun q \<longrightarrow> pi_item_id q \<noteq> pi_item_id p"
    and "length (pi_output p) \<le> item_output_tail"
  shows "let v = fold fold_progress (before @ [Item_Begun p] @ later) (new_live k) in
    output_of (pi_item_id p) v = Some (keep_tail item_output_tail (fold (stream_text (pi_item_id p)) later (pi_output p)))
    \<and> al_message v = keep_tail text_tail (message_text (before @ [Item_Begun p] @ later))
    \<and> distinct (map li_item_id (al_items v))"
proof -
  let ?i = "pi_item_id p"
  define v0 where "v0 = fold fold_progress before (new_live k)"
  have absent: "?i \<notin> set (map li_item_id (al_items v0))"
    unfolding v0_def by (rule unannounced_absent) (simp_all add: new_live_def assms(1))
  have out: "keep_tail item_output_tail (pi_output p) = pi_output p" using assms(2) by (simp add: keep_tail_def)
  have none: "find (\<lambda>it. li_item_id it = ?i) (al_items v0) = None"
    using absent unfolding find_None_iff set_map image_iff by metis
  then have start: "output_of ?i (fold_progress (Item_Begun p) v0) = Some (keep_tail item_output_tail (pi_output p))"
    using absent out by (force simp: fold_progress_def output_of_def announce_item_def live_item_of_def find_append)
  have run: "output_of ?i v = Some (keep_tail item_output_tail s) \<Longrightarrow>
      output_of ?i (fold fold_progress later v) = Some (keep_tail item_output_tail (fold (stream_text ?i) later s))" for v s
    by (induction later arbitrary: v s) (simp_all add: fold_progress_output)
  have distinct_keys: "distinct (map li_item_id (al_items (fold fold_progress es (new_live k))))" for es
    using fold_progress_run_inv[of "new_live k" es] by (simp add: live_inv_def new_live_def)
  then show ?thesis
    using run[OF start] message_is_tail[of "before @ [Item_Begun p] @ later" k] distinct_keys[of "before @ [Item_Begun p] @ later"]
    by (simp add: v0_def Let_def)
qed

text \<open>A chunk that arrives before its item is announced is lost, and a later announcement replaces the title.\<close>

lemma early_chunk_is_lost:
  "al_items (fold fold_progress [Item_Output i t, Item_Begun p] (new_live k)) = [live_item_of p]"
  by (simp add: fold_progress_def on_item_def announce_item_def new_live_def)

lemma second_announcement_replaces_title:
  assumes "pi_item_id q = pi_item_id p"
  shows "map li_title (al_items (fold fold_progress [Item_Begun p, Item_Begun q] (new_live k))) = [pi_title q]"
  using assms by (simp add: fold_progress_def on_item_def announce_item_def new_live_def live_item_of_def)

definition sample_item :: progress_item where
  "sample_item = \<lparr>pi_item_id = ''c'', pi_kind = Command_Item, pi_title = ''ls'', pi_detail = None, pi_state = Item_Running,
     pi_output = ''a'', pi_exit_code = None, pi_duration_ms = None\<rparr>"

lemma live_view_is_tail_witness:
  "let v = fold fold_progress ([Item_Output ''c'' ''z''] @ [Item_Begun sample_item]
         @ [Item_Output ''c'' ''b'', Item_Ended ''c'' Item_Completed (Some ''ab'') None None]) (new_live 0)
   in output_of ''c'' v = Some ''ab'' \<and> distinct (map li_item_id (al_items v))"
  using live_view_is_tail[of "[Item_Output ''c'' ''z'']" sample_item
      "[Item_Output ''c'' ''b'', Item_Ended ''c'' Item_Completed (Some ''ab'') None None]" 0]
  by (simp add: sample_item_def item_output_tail_def stream_text_def keep_tail_def Let_def)

end
