(* ===== verification/Agent_Turn.thy ===== *)
theory Agent_Turn
  imports Agent_Tools
begin

text \<open>
  One turn of the agent, \<open>run_turn\<close> and \<open>drive_turn\<close> of \<open>agent/mod.rs\<close>: the loop over the messages of the
  runtime with its limits, the tool calls and approvals it answers, the requests it refuses, and the record
  it leaves. Instants are milliseconds of the monotonic clock. What the runtime sends, when, whether a
  write succeeds and how long the host works are inputs of each pass. The loop is given fuel; that it ends is a theorem.
\<close>

section \<open>Limits, outcome and environment\<close>

record turn_limits =
  tg_idle_timeout :: nat
  tg_max_duration :: nat
  tg_max_tool_calls :: nat
  tg_approval_timeout :: nat

definition default_limits :: turn_limits where
  "default_limits = \<lparr>tg_idle_timeout = 600000, tg_max_duration = 7200000, tg_max_tool_calls = 32, tg_approval_timeout = 300000\<rparr>"

record turn_outcome =
  to_turn_id :: string
  to_tool_calls :: "tool_call_record list"
  to_approvals :: "approval_record list"
  to_messages :: "string list"
  to_final_message :: "string option"
  to_report :: "turn_report option"
  to_report_error :: "report_problem option"
  to_refused_requests :: "string list"

definition new_outcome :: "string \<Rightarrow> turn_outcome" where
  "new_outcome i = \<lparr>to_turn_id = i, to_tool_calls = [], to_approvals = [], to_messages = [], to_final_message = None,
     to_report = None, to_report_error = None, to_refused_requests = []\<rparr>"

text \<open>What does not change during a turn.\<close>

record turn_context =
  tx_limits :: turn_limits
  tx_tools :: tool_registry
  tx_persistence :: persistence
  tx_wants_report :: bool
  tx_traced :: bool
  tx_parse :: "string \<Rightarrow> json option"

text \<open>
  One pass of the loop. \<open>ti_next\<close> is what the channel holds next and when it is there (\<open>Some (t, None)\<close>: the
  output ends at \<open>t\<close>; \<open>None\<close>: nothing ever comes). \<open>ti_late\<close> tells whether the wait still returns a message
  that arrived after the deadline and was there when the wait began: the timer library decides that.
\<close>

record turn_input =
  ti_next :: "(nat \<times> server_message option) option"
  ti_late :: bool
  ti_decide :: decider
  ti_respond :: "string + unit"
  ti_recorded :: bool
  ti_audited :: bool
  ti_now_ms :: u64
  ti_handling :: nat

datatype turn_action = Reply rpc_frame | Interrupt string

record turn_state =
  tu_outcome :: turn_outcome
  tu_trace :: "trace_event list"
  tu_sent :: "turn_action list"
  tu_progress :: "turn_progress list"
  tu_audit :: "approval_record list"
  tu_started :: nat
  tu_now :: nat

type_synonym turn_step = "(agent_error + unit) option \<times> turn_state"

section \<open>Handling a message\<close>

definition record_event :: "turn_context \<Rightarrow> bool \<Rightarrow> trace_event \<Rightarrow> turn_state \<Rightarrow> turn_state" where
  "record_event tx written e s = (if tx_traced tx \<and> written then s\<lparr>tu_trace := tu_trace s @ [e]\<rparr> else s)"

definition report_progress :: "turn_progress list \<Rightarrow> turn_state \<Rightarrow> turn_state" where
  "report_progress ps s = s\<lparr>tu_progress := tu_progress s @ ps\<rparr>"

definition change_outcome :: "(turn_outcome \<Rightarrow> turn_outcome) \<Rightarrow> turn_state \<Rightarrow> turn_state" where
  "change_outcome f s = s\<lparr>tu_outcome := f (tu_outcome s)\<rparr>"

text \<open>\<open>respond\<close> with the question mark: a failed write ends the turn.\<close>

definition reply_then :: "turn_input \<Rightarrow> rpc_frame \<Rightarrow> (turn_state \<Rightarrow> turn_state) \<Rightarrow> turn_state \<Rightarrow> turn_step" where
  "reply_then inp frame k s = (case ti_respond inp of
     Inl e \<Rightarrow> (Some (Inl (Agent_Transport e)), s)
   | Inr _ \<Rightarrow> (None, k (s\<lparr>tu_sent := tu_sent s @ [Reply frame]\<rparr>)))"

definition on_tool_call :: "turn_context \<Rightarrow> turn_input \<Rightarrow> int \<Rightarrow> json \<Rightarrow> turn_state \<Rightarrow> turn_step" where
  "on_tool_call tx inp i params s =
     (if tg_max_tool_calls (tx_limits tx) \<le> length (to_tool_calls (tu_outcome s))
      then (Some (Inl (Too_Many_Tool_Calls (tg_max_tool_calls (tx_limits tx)))), s)
      else (let (call, oc) = dispatch_tool_call (tx_tools tx) params
            in reply_then inp (Response_Frame i (outcome_to_wire oc))
                 (\<lambda>s. change_outcome (\<lambda>o'. o'\<lparr>to_tool_calls := to_tool_calls o' @ [call]\<rparr>)
                   (record_event tx (ti_recorded inp) (Tool_Call_Event call (ti_now_ms inp)) s)) s))"

definition turn_deadline :: "turn_context \<Rightarrow> turn_state \<Rightarrow> nat" where
  "turn_deadline tx s = tu_started s + tg_max_duration (tx_limits tx)"

definition on_approval :: "turn_context \<Rightarrow> turn_input \<Rightarrow> int \<Rightarrow> approval_kind \<Rightarrow> string \<Rightarrow> json \<Rightarrow> turn_state \<Rightarrow> turn_step" where
  "on_approval tx inp i k m params s =
     (let s = report_progress [Approval_Requested i (summarise k params)] s;
          limit = tg_approval_timeout (tx_limits tx);
          (r, payload) = decide_approval (ti_decide inp) i k m params (tx_persistence tx) limit (turn_deadline tx s)
             (tu_now s) (ti_now_ms inp);
          passed = waited (approval_wait limit (turn_deadline tx s) (tu_now s))
             (ti_decide inp (approval_request_of i k m params (tx_persistence tx)));
          s = s\<lparr>tu_now := tu_now s + passed\<rparr>;
          s = record_event tx (ti_recorded inp) (Approval_Event r) s;
          s = (if ti_audited inp then s\<lparr>tu_audit := tu_audit s @ [r]\<rparr> else s)
      in reply_then inp (Response_Frame i payload)
           (\<lambda>s. change_outcome (\<lambda>o'. o'\<lparr>to_approvals := to_approvals o' @ [r]\<rparr>)
             (report_progress [Approval_Resolved i] s)) s)"

definition on_refused :: "turn_context \<Rightarrow> turn_input \<Rightarrow> int \<Rightarrow> string \<Rightarrow> turn_state \<Rightarrow> turn_step" where
  "on_refused tx inp i m s =
     reply_then inp (not_implemented i m)
       (\<lambda>s. change_outcome (\<lambda>o'. o'\<lparr>to_refused_requests := to_refused_requests o' @ [m]\<rparr>)
         (record_event tx (ti_recorded inp) (Refused_Event m (ti_now_ms inp)) s)) s"

definition on_request :: "turn_context \<Rightarrow> turn_input \<Rightarrow> int \<Rightarrow> string \<Rightarrow> json \<Rightarrow> turn_state \<Rightarrow> turn_step" where
  "on_request tx inp i m params s =
     (if m = ''item/tool/call'' then on_tool_call tx inp i params s
      else (case kind_from_method m of
        Some k \<Rightarrow> on_approval tx inp i k m params s
      | None \<Rightarrow> on_refused tx inp i m s))"

text \<open>What a completed message does to the report of the turn, when one was asked for.\<close>

definition take_report :: "turn_context \<Rightarrow> string \<Rightarrow> turn_outcome \<Rightarrow> turn_outcome" where
  "take_report tx text oc =
     (if \<not> tx_wants_report tx then oc
      else (case tx_parse tx text of
        None \<Rightarrow> oc\<lparr>to_report_error := Some Not_Json\<rparr>
      | Some v \<Rightarrow> (case validate_report v of
          Inr _ \<Rightarrow> oc\<lparr>to_report := Some \<lparr>rt_value = v, rt_conforms = True\<rparr>\<rparr>
        | Inl p \<Rightarrow> oc\<lparr>to_report_error := Some p, to_report := Some \<lparr>rt_value = v, rt_conforms = False\<rparr>\<rparr>)))"

definition on_message :: "turn_context \<Rightarrow> turn_input \<Rightarrow> string \<Rightarrow> turn_state \<Rightarrow> turn_state" where
  "on_message tx inp text s =
     change_outcome (\<lambda>o'. (take_report tx text o')\<lparr>to_final_message := Some text, to_messages := to_messages o' @ [text]\<rparr>)
       (record_event tx (ti_recorded inp)
         (Item_Event (to_turn_id (tu_outcome s)) ''agent_message'' text (ti_now_ms inp)) s)"

definition on_notification :: "turn_context \<Rightarrow> turn_input \<Rightarrow> string \<Rightarrow> json option \<Rightarrow> turn_state \<Rightarrow> turn_step" where
  "on_notification tx inp m params s =
     (let s = report_progress (forward_progress m params) s
      in if m = ''turn/completed'' then (Some (Inr ()), s)
         else if m = ''turn/failed'' then (Some (Inl (Turn_Failed (to_turn_id (tu_outcome s)) params)), s)
         else if m = ''item/completed''
         then (None, case completed_agent_message params of None \<Rightarrow> s | Some text \<Rightarrow> on_message tx inp text s)
         else (None, s))"

section \<open>The loop\<close>

definition wait_deadline :: "turn_context \<Rightarrow> turn_state \<Rightarrow> nat" where
  "wait_deadline tx s = min (tu_now s + tg_idle_timeout (tx_limits tx)) (turn_deadline tx s)"

text \<open>The wait: \<open>Inl\<close> the instant at which the deadline ended it, \<open>Inr\<close> the instant and what it returned.\<close>

definition turn_wait :: "turn_context \<Rightarrow> turn_input \<Rightarrow> turn_state \<Rightarrow> nat + (nat \<times> server_message option)" where
  "turn_wait tx inp s = (case ti_next inp of
     Some (t, m) \<Rightarrow>
       if t \<le> wait_deadline tx s \<or> (t \<le> tu_now s \<and> ti_late inp) then Inr (max (tu_now s) t, m)
       else Inl (max (tu_now s) (wait_deadline tx s))
   | None \<Rightarrow> Inl (max (tu_now s) (wait_deadline tx s)))"

definition turn_timeout :: "turn_context \<Rightarrow> turn_state \<Rightarrow> agent_error" where
  "turn_timeout tx s =
     (let idle = tu_now s + tg_idle_timeout (tx_limits tx) \<le> turn_deadline tx s
      in Turn_Timed_Out (to_turn_id (tu_outcome s)) idle
           (if idle then tg_idle_timeout (tx_limits tx) else tg_max_duration (tx_limits tx)))"

definition handle_message :: "turn_context \<Rightarrow> turn_input \<Rightarrow> server_message \<Rightarrow> turn_state \<Rightarrow> turn_step" where
  "handle_message tx inp m s = (case m of
     Server_Request i n params \<Rightarrow> on_request tx inp i n params s
   | Server_Notification n params \<Rightarrow> on_notification tx inp n params s)"

definition turn_pass :: "turn_context \<Rightarrow> turn_input \<Rightarrow> turn_state \<Rightarrow> turn_step" where
  "turn_pass tx inp s = (case turn_wait tx inp s of
     Inl t \<Rightarrow> (Some (Inl (turn_timeout tx s)), s\<lparr>tu_sent := tu_sent s @ [Interrupt (to_turn_id (tu_outcome s))], tu_now := t\<rparr>)
   | Inr (t, None) \<Rightarrow> (Some (Inl (Agent_Closed ''agent stdout reached EOF during turn'')), s\<lparr>tu_now := t\<rparr>)
   | Inr (t, Some m) \<Rightarrow> (case handle_message tx inp m (s\<lparr>tu_now := t\<rparr>) of
        (r, s) \<Rightarrow> (r, s\<lparr>tu_now := tu_now s + ti_handling inp\<rparr>)))"

fun drive_turn :: "turn_context \<Rightarrow> (nat \<Rightarrow> turn_input) \<Rightarrow> nat \<Rightarrow> nat \<Rightarrow> turn_state \<Rightarrow> ((agent_error + unit) \<times> turn_state) option" where
  "drive_turn tx ins 0 k s = None"
| "drive_turn tx ins (Suc fuel) k s = (case turn_pass tx (ins k) s of
     (Some r, s') \<Rightarrow> Some (r, s')
   | (None, s') \<Rightarrow> drive_turn tx ins fuel (Suc k) s')"

section \<open>Termination\<close>

lemma turn_pass_continues:
  assumes "turn_pass tx inp s = (None, s')"
  shows "\<exists>t m. ti_next inp = Some (t, Some m) \<and> (t \<le> turn_deadline tx s \<or> ti_late inp)"
  using assms by (auto simp: turn_pass_def turn_wait_def wait_deadline_def split: option.splits if_splits prod.splits)

lemma reply_then_fields:
  assumes "reply_then inp frame k s = (r, s')" "\<And>s. tu_started (k s) = tu_started s" "\<And>s. to_turn_id (tu_outcome (k s)) = to_turn_id (tu_outcome s)"
  shows "tu_started s' = tu_started s \<and> to_turn_id (tu_outcome s') = to_turn_id (tu_outcome s)"
  using assms by (auto simp: reply_then_def split: sum.splits)

lemma record_event_fields [simp]:
  "tu_started (record_event tx w e s) = tu_started s" "tu_outcome (record_event tx w e s) = tu_outcome s"
  "tu_sent (record_event tx w e s) = tu_sent s" "tu_now (record_event tx w e s) = tu_now s"
  "tu_audit (record_event tx w e s) = tu_audit s"
  by (simp_all add: record_event_def)

lemma report_progress_fields [simp]:
  "tu_started (report_progress ps s) = tu_started s" "tu_outcome (report_progress ps s) = tu_outcome s"
  "tu_sent (report_progress ps s) = tu_sent s" "tu_now (report_progress ps s) = tu_now s"
  "tu_trace (report_progress ps s) = tu_trace s" "tu_audit (report_progress ps s) = tu_audit s"
  by (simp_all add: report_progress_def)

lemma change_outcome_fields [simp]:
  "tu_started (change_outcome f s) = tu_started s" "tu_outcome (change_outcome f s) = f (tu_outcome s)"
  "tu_sent (change_outcome f s) = tu_sent s" "tu_now (change_outcome f s) = tu_now s"
  "tu_trace (change_outcome f s) = tu_trace s" "tu_audit (change_outcome f s) = tu_audit s"
  by (simp_all add: change_outcome_def)

lemma take_report_fields [simp]:
  "to_turn_id (take_report tx t oc) = to_turn_id oc" "to_tool_calls (take_report tx t oc) = to_tool_calls oc"
  "to_approvals (take_report tx t oc) = to_approvals oc" "to_messages (take_report tx t oc) = to_messages oc"
  "to_refused_requests (take_report tx t oc) = to_refused_requests oc"
  by (simp_all add: take_report_def split: option.split sum.split)

lemmas turn_handlers = handle_message_def on_request_def on_tool_call_def on_approval_def on_refused_def
  on_notification_def on_message_def

text \<open>What a message does to the state, one case per way of handling it.\<close>

definition turn_request_of :: "server_message \<Rightarrow> int list" where
  "turn_request_of m = (case m of Server_Request i _ _ \<Rightarrow> [i] | Server_Notification _ _ \<Rightarrow> [])"

definition replied_ids :: "turn_action list \<Rightarrow> int list" where
  "replied_ids as = List.map_filter (\<lambda>a. case a of
     Reply (Response_Frame i _) \<Rightarrow> Some i | Reply (Error_Frame i _ _) \<Rightarrow> Some i | _ \<Rightarrow> None) as"

lemma replied_ids_append [simp]: "replied_ids (as @ bs) = replied_ids as @ replied_ids bs"
  by (simp add: replied_ids_def map_filter_def)

lemma replied_ids_simps [simp]:
  "replied_ids [] = []" "replied_ids [Reply (Response_Frame i v)] = [i]" "replied_ids [Reply (not_implemented i m)] = [i]"
  "replied_ids [Interrupt t] = []"
  by (simp_all add: replied_ids_def not_implemented_def map_filter_def)

lemma handle_message_kept:
  assumes "handle_message tx inp m s = (r, s')"
  shows "tu_started s' = tu_started s \<and> to_turn_id (tu_outcome s') = to_turn_id (tu_outcome s)
    \<and> (r = None \<longrightarrow> replied_ids (tu_sent s') = replied_ids (tu_sent s) @ turn_request_of m)
    \<and> (r = Some (Inr ()) \<longrightarrow> replied_ids (tu_sent s') = replied_ids (tu_sent s) \<and> turn_request_of m = [])
    \<and> length (to_tool_calls (tu_outcome s')) \<le> max (length (to_tool_calls (tu_outcome s))) (tg_max_tool_calls (tx_limits tx))"
  using assms
  by (cases m) (auto simp: turn_handlers turn_request_of_def reply_then_def Let_def
      split: if_splits option.splits sum.splits prod.splits)

lemma turn_pass_kept:
  assumes "turn_pass tx inp s = (r, s')"
  shows "tu_started s' = tu_started s \<and> to_turn_id (tu_outcome s') = to_turn_id (tu_outcome s)
    \<and> length (to_tool_calls (tu_outcome s')) \<le> max (length (to_tool_calls (tu_outcome s))) (tg_max_tool_calls (tx_limits tx))"
  using assms
  by (auto simp: turn_pass_def split: sum.splits option.splits prod.splits dest!: handle_message_kept)

lemma turn_deadline_kept: "turn_pass tx inp s = (r, s') \<Longrightarrow> turn_deadline tx s' = turn_deadline tx s"
  using turn_pass_kept by (simp add: turn_deadline_def)

lemma drive_turn_more_fuel: "drive_turn tx ins fuel k s = Some x \<Longrightarrow> drive_turn tx ins (fuel + extra) k s = Some x"
proof (induction tx ins fuel k s rule: drive_turn.induct)
  case (2 tx ins fuel k s)
  then show ?case by (auto split: prod.splits option.splits)
qed simp

text \<open>C14. A turn ends: if the runtime does not send infinitely many messages before the ceiling of the turn,
  and no wait returns what came after its deadline, the loop returns, within the number of messages sent.\<close>

theorem turn_ends:
  assumes late: "\<And>i. \<not> ti_late (ins i)"
    and quiet: "case ti_next (ins n) of None \<Rightarrow> True | Some (t, _) \<Rightarrow> tu_started s + tg_max_duration (tx_limits tx) < t"
  shows "\<exists>r s'. drive_turn tx ins (Suc n) 0 s = Some (r, s')"
proof -
  have "\<exists>x. drive_turn tx ins (Suc d) k s = Some x"
    if "k + d = n" "turn_deadline tx s = tu_started s0 + tg_max_duration (tx_limits tx)"
      "case ti_next (ins n) of None \<Rightarrow> True | Some (t, _) \<Rightarrow> tu_started s0 + tg_max_duration (tx_limits tx) < t" for d k s s0
    using that(1,2)
  proof (induction d arbitrary: k s)
    case 0
    have "fst (turn_pass tx (ins k) s) \<noteq> None"
    proof
      assume "fst (turn_pass tx (ins k) s) = None"
      then obtain s' where "turn_pass tx (ins k) s = (None, s')" by (cases "turn_pass tx (ins k) s") auto
      from turn_pass_continues[OF this] that(3) late 0 show False by auto
    qed
    then show ?case by (auto split: prod.split option.split)
  next
    case (Suc d)
    show ?case
    proof (cases "turn_pass tx (ins k) s")
      case (Pair r s')
      then have "turn_deadline tx s' = turn_deadline tx s" by (rule turn_deadline_kept)
      then have "\<exists>x. drive_turn tx ins (Suc d) (Suc k) s' = Some x" using Suc by simp
      then show ?thesis using Pair by (cases r) (simp_all del: drive_turn.simps(2) add: drive_turn.simps(2)[of tx ins "Suc d" k s])
    qed
  qed
  from this[of 0 n s s] quiet show ?thesis by (auto simp: turn_deadline_def)
qed

section \<open>Answers and limits\<close>

definition requested_ids :: "turn_input \<Rightarrow> int list" where
  "requested_ids inp = (case ti_next inp of Some (_, Some m) \<Rightarrow> turn_request_of m | _ \<Rightarrow> [])"

lemma turn_pass_answers:
  assumes "turn_pass tx inp s = (r, s')" "r = None \<or> r = Some (Inr ())"
  shows "replied_ids (tu_sent s') = replied_ids (tu_sent s) @ requested_ids inp"
proof -
  obtain t m where w: "turn_wait tx inp s = Inr (t, Some m)"
    using assms by (auto simp: turn_pass_def split: sum.splits option.splits)
  then have msg: "\<exists>t. ti_next inp = Some (t, Some m)" by (auto simp: turn_wait_def split: option.splits if_splits)
  obtain r' s1 where h: "handle_message tx inp m (s\<lparr>tu_now := t\<rparr>) = (r', s1)" by fastforce
  then have "r' = r" "tu_sent s' = tu_sent s1" using assms(1) w by (auto simp: turn_pass_def)
  then show ?thesis using handle_message_kept[OF h] assms(2) msg by (auto simp: requested_ids_def)
qed

text \<open>A completed turn took \<open>n\<close> passes: with less fuel it has not ended, and every pass answered what it read.\<close>

lemma drive_turn_passes:
  assumes "drive_turn tx ins fuel k s = Some (Inr (), s')"
  shows "\<exists>n. drive_turn tx ins n k s = Some (Inr (), s') \<and> list_all (\<lambda>m. drive_turn tx ins m k s = None) [0..<n]
    \<and> replied_ids (tu_sent s') = replied_ids (tu_sent s) @ concat (map (\<lambda>k. requested_ids (ins k)) [k..<k + n])
    \<and> length (to_tool_calls (tu_outcome s')) \<le> max (length (to_tool_calls (tu_outcome s))) (tg_max_tool_calls (tx_limits tx))"
  using assms
proof (induction fuel arbitrary: k s)
  case (Suc fuel)
  obtain r s1 where p: "turn_pass tx (ins k) s = (r, s1)" by fastforce
  show ?case
  proof (cases r)
    case None
    then have "drive_turn tx ins fuel (Suc k) s1 = Some (Inr (), s')" using Suc.prems p by simp
    from Suc.IH[OF this] obtain n where n: "drive_turn tx ins n (Suc k) s1 = Some (Inr (), s')"
      "list_all (\<lambda>m. drive_turn tx ins m (Suc k) s1 = None) [0..<n]"
      "replied_ids (tu_sent s') = replied_ids (tu_sent s1) @ concat (map (\<lambda>k. requested_ids (ins k)) [Suc k..<Suc k + n])"
      "length (to_tool_calls (tu_outcome s')) \<le> max (length (to_tool_calls (tu_outcome s1))) (tg_max_tool_calls (tx_limits tx))"
      by blast
    have "[k..<k + Suc n] = k # [Suc k..<Suc k + n]" by (simp add: upt_rec)
    then have "replied_ids (tu_sent s') = replied_ids (tu_sent s) @ concat (map (\<lambda>k. requested_ids (ins k)) [k..<k + Suc n])"
      using n(3) turn_pass_answers[OF p] None by simp
    moreover have "length (to_tool_calls (tu_outcome s')) \<le> max (length (to_tool_calls (tu_outcome s))) (tg_max_tool_calls (tx_limits tx))"
      using n(4) turn_pass_kept[OF p] by linarith
    moreover have step: "drive_turn tx ins (Suc m) k s = drive_turn tx ins m (Suc k) s1" for m using p None by simp
    moreover have "list_all (\<lambda>m. drive_turn tx ins m k s = None) [0..<Suc n]"
      unfolding list_all_iff
    proof
      fix m assume m: "m \<in> set [0..<Suc n]"
      show "drive_turn tx ins m k s = None"
      proof (cases m)
        case (Suc j)
        then have "j \<in> set [0..<n]" using m by auto
        then have "drive_turn tx ins j (Suc k) s1 = None" using n(2) unfolding list_all_iff by blast
        then show ?thesis using step[of j] Suc by (simp del: drive_turn.simps)
      qed simp
    qed
    ultimately show ?thesis using n(1) by (intro exI[of _ "Suc n"]) (simp del: drive_turn.simps)
  next
    case (Some x)
    then have x: "x = Inr ()" "s' = s1" using Suc.prems p by auto
    then have "replied_ids (tu_sent s') = replied_ids (tu_sent s) @ concat (map (\<lambda>k. requested_ids (ins k)) [k..<k + 1])"
      using turn_pass_answers[OF p] Some by simp
    moreover have "drive_turn tx ins 1 k s = Some (Inr (), s')" using p Some x by simp
    ultimately show ?thesis using turn_pass_kept[OF p] \<open>s' = s1\<close> by (intro exI[of _ 1]) simp
  qed
qed simp

text \<open>C15. A turn that completes took a definite number n of passes over the runtime's messages, one message each. In
  these passes it sent exactly one answer to every request the runtime made of it, in the order of the requests
  and with their identifiers, and nothing else was answered; and it served no more tool calls than its limit.\<close>

theorem completed_turn_answered_all:
  assumes "drive_turn tx ins fuel 0 (s\<lparr>tu_sent := []\<rparr>) = Some (Inr (), s')" "to_tool_calls (tu_outcome s) = []"
  shows "(\<exists>n. drive_turn tx ins n 0 (s\<lparr>tu_sent := []\<rparr>) = Some (Inr (), s')
      \<and> list_all (\<lambda>m. drive_turn tx ins m 0 (s\<lparr>tu_sent := []\<rparr>) = None) [0..<n]
      \<and> replied_ids (tu_sent s') = concat (map (\<lambda>k. requested_ids (ins k)) [0..<n]))
    \<and> length (to_tool_calls (tu_outcome s')) \<le> tg_max_tool_calls (tx_limits tx)"
  using drive_turn_passes[OF assms(1)] assms(2) by (auto simp: replied_ids_def map_filter_simps)

text \<open>The notification that ends a turn is not compared with the turn: the completion of another turn ends this one.\<close>

lemma foreign_completion_ends_turn:
  assumes "ti_next inp = Some (t, Some (Server_Notification ''turn/completed'' params))" "t \<le> wait_deadline tx s"
  shows "fst (turn_pass tx inp s) = Some (Inr ())"
  using assms by (simp add: turn_pass_def turn_wait_def handle_message_def on_notification_def)

text \<open>A turn that is over its limit of tool calls ends without an answer to the request and without an interrupt.\<close>

lemma tool_call_over_limit_unanswered:
  assumes "ti_next inp = Some (t, Some (Server_Request i ''item/tool/call'' params))" "t \<le> wait_deadline tx s"
    and "tg_max_tool_calls (tx_limits tx) \<le> length (to_tool_calls (tu_outcome s))"
  shows "fst (turn_pass tx inp s) = Some (Inl (Too_Many_Tool_Calls (tg_max_tool_calls (tx_limits tx))))
    \<and> tu_sent (snd (turn_pass tx inp s)) = tu_sent s"
  using assms by (simp add: turn_pass_def turn_wait_def handle_message_def on_request_def on_tool_call_def)

section \<open>Witnesses\<close>

definition sample_context :: turn_context where
  "sample_context = \<lparr>tx_limits = default_limits, tx_tools = [], tx_persistence = Persistence_Blocked, tx_wants_report = False,
     tx_traced = True, tx_parse = (\<lambda>_. None)\<rparr>"

definition sample_input :: "(nat \<times> server_message option) option \<Rightarrow> turn_input" where
  "sample_input x = \<lparr>ti_next = x, ti_late = False, ti_decide = deny_all, ti_respond = Inr (), ti_recorded = True,
     ti_audited = False, ti_now_ms = 7, ti_handling = 1\<rparr>"

definition sample_turn :: turn_state where
  "sample_turn = \<lparr>tu_outcome = new_outcome ''u'', tu_trace = [], tu_sent = [], tu_progress = [], tu_audit = [],
     tu_started = 0, tu_now = 0\<rparr>"

definition sample_inputs :: "nat \<Rightarrow> turn_input" where
  "sample_inputs k = (if k = 0 then sample_input (Some (5, Some (Server_Request 9 ''auth/refresh'' JNull)))
     else if k = 1 then sample_input (Some (8, Some (Server_Notification ''turn/completed'' None)))
     else sample_input None)"

lemma turn_ends_witness:
  "\<exists>r s'. drive_turn sample_context (\<lambda>k. if k = 0 then sample_inputs 0 else sample_input None) (Suc 1) 0 sample_turn = Some (r, s')"
  by (rule turn_ends) (simp_all add: sample_inputs_def sample_input_def)

lemma completed_turn_answered_all_witness:
  "\<exists>s'. drive_turn sample_context sample_inputs 5 0 (sample_turn\<lparr>tu_sent := []\<rparr>) = Some (Inr (), s')
    \<and> replied_ids (tu_sent s') = [9] \<and> length (to_tool_calls (tu_outcome s')) \<le> 32"
proof -
  let ?s = "sample_turn\<lparr>tu_sent := []\<rparr>"
  note sample_defs = turn_pass_def turn_wait_def wait_deadline_def turn_deadline_def sample_inputs_def
    sample_input_def sample_context_def default_limits_def sample_turn_def handle_message_def on_request_def
    kind_from_method_def on_refused_def on_notification_def reply_then_def
  have two: "\<exists>s'. drive_turn sample_context sample_inputs (Suc (Suc m)) 0 ?s = Some (Inr (), s')" for m
    by (simp add: sample_defs)
  have one: "drive_turn sample_context sample_inputs (Suc 0) 0 ?s = None" by (simp add: sample_defs)
  obtain s' where run: "drive_turn sample_context sample_inputs 5 0 ?s = Some (Inr (), s')"
    using two[of 3] by (auto simp: eval_nat_numeral simp del: drive_turn.simps)
  have "to_tool_calls (tu_outcome sample_turn) = []" by (simp add: sample_turn_def new_outcome_def)
  from completed_turn_answered_all[OF run this] obtain n where n:
    "drive_turn sample_context sample_inputs n 0 ?s = Some (Inr (), s')"
    "list_all (\<lambda>m. drive_turn sample_context sample_inputs m 0 ?s = None) [0..<n]"
    "replied_ids (tu_sent s') = concat (map (\<lambda>k. requested_ids (sample_inputs k)) [0..<n])"
    "length (to_tool_calls (tu_outcome s')) \<le> tg_max_tool_calls (tx_limits sample_context)" by blast
  have "n \<noteq> 0" using n(1) by (cases n) simp_all
  moreover have "n \<noteq> Suc 0" using n(1) one by (metis option.distinct(1))
  moreover have "\<not> 2 < n" using n(2) two[of 0] by (auto simp: list_all_iff numeral_2_eq_2 simp del: drive_turn.simps)
  ultimately have "n = Suc (Suc 0)" by linarith
  then have "replied_ids (tu_sent s') = [9]"
    using n(3) by (simp add: requested_ids_def turn_request_of_def sample_inputs_def sample_input_def)
  then show ?thesis using run n(4) by (auto simp: sample_context_def default_limits_def)
qed

end
