(* ===== verification/Agent_Session.thy ===== *)
theory Agent_Session
  imports Agent_Turn
begin

text \<open>
  A whole session of the agent, \<open>start_thread\<close>, \<open>run_turn\<close> and \<open>shutdown\<close> of \<open>agent/mod.rs\<close>, and what its
  trace says of it: the host's record of a session, replayed, is what the session did.
\<close>

section \<open>Turns of a session\<close>

text \<open>
  \<open>te_start\<close> is what \<open>turn/start\<close> returned; a flag and a time belong to each of the two events of the turn.
\<close>

record turn_env =
  te_prompt :: string
  te_start :: "agent_error + string"
  te_began :: "bool \<times> u64"
  te_ended :: "bool \<times> u64"
  te_started_at :: nat
  te_inputs :: "nat \<Rightarrow> turn_input"

definition agent_error_text :: "agent_error \<Rightarrow> string" where
  "agent_error_text e = (case e of
     Agent_Transport m \<Rightarrow> ''agent transport failed: '' @ m
   | Remote_Error i _ \<Rightarrow> ''agent rejected request''
   | Request_Timed_Out m \<Rightarrow> ''agent did not answer `'' @ m @ ''`''
   | Agent_Closed d \<Rightarrow> ''agent connection closed: '' @ d
   | Unexpected_Response m \<Rightarrow> ''unexpected `'' @ m @ ''` response''
   | Turn_Timed_Out i idle n \<Rightarrow> ''turn '' @ i
       @ (if idle then '' produced no progress for '' @ show_nat (n div 1000) @ ''s and was interrupted''
          else '' exceeded the '' @ show_nat (n div 1000) @ ''s ceiling and was interrupted'')
   | Too_Many_Tool_Calls n \<Rightarrow> ''turn exceeded the host limit of '' @ show_nat n @ '' tool calls''
   | Turn_Failed i _ \<Rightarrow> ''turn '' @ i @ '' failed'')"

definition begin_turn :: "turn_context \<Rightarrow> turn_env \<Rightarrow> string \<Rightarrow> trace_event list \<Rightarrow> turn_state" where
  "begin_turn tx te i trace =
     record_event tx (fst (te_began te)) (Turn_Started i (te_prompt te) (snd (te_began te)))
       \<lparr>tu_outcome = new_outcome i, tu_trace = trace, tu_sent = [], tu_progress = [Turn_Begun i], tu_audit = [],
        tu_started = te_started_at te, tu_now = te_started_at te\<rparr>"

definition finish_turn :: "turn_context \<Rightarrow> turn_env \<Rightarrow> agent_error + unit \<Rightarrow> turn_state
    \<Rightarrow> (agent_error + turn_outcome) \<times> trace_event list" where
  "finish_turn tx te r s =
     (let status = (case r of Inr _ \<Rightarrow> Recorded_Completed | Inl e \<Rightarrow> Recorded_Failed (agent_error_text e));
          s = record_event tx (fst (te_ended te))
            (Turn_Finished (to_turn_id (tu_outcome s)) status (to_final_message (tu_outcome s)) (snd (te_ended te))) s
      in (case r of Inr _ \<Rightarrow> Inr (tu_outcome s) | Inl e \<Rightarrow> Inl e, tu_trace s))"

text \<open>\<open>None\<close>: the fuel does not suffice.\<close>

definition run_turn :: "turn_context \<Rightarrow> nat \<Rightarrow> turn_env \<Rightarrow> string option \<Rightarrow> trace_event list
    \<Rightarrow> ((agent_error + turn_outcome) \<times> trace_event list) option" where
  "run_turn tx fuel te thread trace = (case thread of
     None \<Rightarrow> Some (Inl (Unexpected_Response ''turn/start''), trace)
   | Some _ \<Rightarrow> (case te_start te of
       Inl e \<Rightarrow> Some (Inl e, trace)
     | Inr i \<Rightarrow> map_option (\<lambda>(r, s). finish_turn tx te r s) (drive_turn tx (te_inputs te) fuel 0 (begin_turn tx te i trace))))"

fun run_turns :: "turn_context \<Rightarrow> nat \<Rightarrow> turn_env list \<Rightarrow> string option \<Rightarrow> trace_event list
    \<Rightarrow> ((agent_error + turn_outcome) list \<times> trace_event list) option" where
  "run_turns tx fuel [] thread trace = Some ([], trace)"
| "run_turns tx fuel (te # tes) thread trace = (case run_turn tx fuel te thread trace of
     None \<Rightarrow> None
   | Some (r, trace) \<Rightarrow> map_option (\<lambda>(rs, trace). (r # rs, trace)) (run_turns tx fuel tes thread trace))"

text \<open>The session: the thread is started, turns are run, and \<open>shutdown\<close> ends it with an event if it succeeds.\<close>

definition open_session :: "turn_context \<Rightarrow> session_start \<Rightarrow> bool \<times> u64 \<Rightarrow> trace_event list" where
  "open_session tx st w = (if tx_traced tx \<and> fst w then [Session_Started st (snd w)] else [])"

definition close_session :: "turn_context \<Rightarrow> bool \<Rightarrow> bool \<times> u64 \<Rightarrow> trace_event list \<Rightarrow> trace_event list" where
  "close_session tx stopped w trace =
     (if stopped \<and> tx_traced tx \<and> fst w then trace @ [Session_Finished (snd w)] else trace)"

definition run_session :: "turn_context \<Rightarrow> nat \<Rightarrow> session_start \<Rightarrow> bool \<times> u64 \<Rightarrow> turn_env list \<Rightarrow> bool \<Rightarrow> bool \<times> u64
    \<Rightarrow> ((agent_error + turn_outcome) list \<times> trace_event list) option" where
  "run_session tx fuel st w0 tes stopped w1 =
     map_option (\<lambda>(rs, trace). (rs, close_session tx stopped w1 trace))
       (run_turns tx fuel tes (Some (st_thread_id st)) (open_session tx st w0))"

section \<open>What a turn records\<close>

text \<open>The events of a turn between its two ends, read as the parts of its outcome.\<close>

definition calls_in :: "trace_event list \<Rightarrow> tool_call_trace list" where
  "calls_in es = List.map_filter (\<lambda>e. case e of Tool_Call_Event c _ \<Rightarrow> Some c | _ \<Rightarrow> None) es"

definition approvals_in :: "trace_event list \<Rightarrow> approval_record list" where
  "approvals_in es = List.map_filter (\<lambda>e. case e of Approval_Event r \<Rightarrow> Some r | _ \<Rightarrow> None) es"

definition refused_in :: "trace_event list \<Rightarrow> string list" where
  "refused_in es = List.map_filter (\<lambda>e. case e of Refused_Event m _ \<Rightarrow> Some m | _ \<Rightarrow> None) es"

definition items_in :: "trace_event list \<Rightarrow> (string \<times> string) list" where
  "items_in es = List.map_filter (\<lambda>e. case e of Item_Event _ k t _ \<Rightarrow> Some (k, t) | _ \<Rightarrow> None) es"

definition inside_turn :: "string \<Rightarrow> trace_event \<Rightarrow> bool" where
  "inside_turn i e = (case e of
     Tool_Call_Event _ _ \<Rightarrow> True | Approval_Event _ \<Rightarrow> True | Refused_Event _ _ \<Rightarrow> True | Item_Event j _ _ _ \<Rightarrow> j = i | _ \<Rightarrow> False)"

lemmas in_defs = calls_in_def approvals_in_def refused_in_def items_in_def map_filter_def

lemma in_append [simp]:
  "calls_in (a @ b) = calls_in a @ calls_in b" "approvals_in (a @ b) = approvals_in a @ approvals_in b"
  "refused_in (a @ b) = refused_in a @ refused_in b" "items_in (a @ b) = items_in a @ items_in b"
  by (simp_all add: in_defs)

lemma in_single [simp]:
  "calls_in [] = []" "approvals_in [] = []" "refused_in [] = []" "items_in [] = []"
  "calls_in [Tool_Call_Event c t] = [c]" "approvals_in [Tool_Call_Event c t] = []" "refused_in [Tool_Call_Event c t] = []"
  "items_in [Tool_Call_Event c t] = []" "calls_in [Approval_Event r] = []" "approvals_in [Approval_Event r] = [r]"
  "refused_in [Approval_Event r] = []" "items_in [Approval_Event r] = []" "calls_in [Refused_Event m t] = []"
  "approvals_in [Refused_Event m t] = []" "refused_in [Refused_Event m t] = [m]" "items_in [Refused_Event m t] = []"
  "calls_in [Item_Event i k x t] = []" "approvals_in [Item_Event i k x t] = []" "refused_in [Item_Event i k x t] = []"
  "items_in [Item_Event i k x t] = [(k, x)]"
  by (simp_all add: in_defs)

text \<open>The recorded part agrees with the outcome.\<close>

definition records :: "trace_event list \<Rightarrow> turn_outcome \<Rightarrow> bool" where
  "records es oc \<longleftrightarrow> calls_in es = to_tool_calls oc \<and> approvals_in es = to_approvals oc
     \<and> refused_in es = to_refused_requests oc \<and> items_in es = map (Pair ''agent_message'') (to_messages oc)
     \<and> list_all (inside_turn (to_turn_id oc)) es"

lemma handle_message_records:
  assumes "handle_message tx inp m s = (r, s')" "tx_traced tx" "ti_recorded inp"
    and "tu_trace s = base @ es" "records es (tu_outcome s)"
  shows "\<exists>es'. tu_trace s' = base @ es' \<and> list_all (inside_turn (to_turn_id (tu_outcome s'))) es'
    \<and> to_turn_id (tu_outcome s') = to_turn_id (tu_outcome s)
    \<and> (r = None \<or> r = Some (Inr ()) \<longrightarrow> records es' (tu_outcome s'))"
  using assms
  by (cases m) (auto simp: turn_handlers reply_then_def records_def record_event_def inside_turn_def Let_def
      change_outcome_def report_progress_def split: if_splits option.splits sum.splits prod.splits)

lemma turn_pass_records:
  assumes "turn_pass tx inp s = (r, s')" "tx_traced tx" "ti_recorded inp"
    and "tu_trace s = base @ es" "records es (tu_outcome s)"
  shows "\<exists>es'. tu_trace s' = base @ es' \<and> list_all (inside_turn (to_turn_id (tu_outcome s'))) es'
    \<and> to_turn_id (tu_outcome s') = to_turn_id (tu_outcome s)
    \<and> (r = None \<or> r = Some (Inr ()) \<longrightarrow> records es' (tu_outcome s'))"
proof (cases "\<exists>t m. turn_wait tx inp s = Inr (t, Some m)")
  case True
  then obtain t m where w: "turn_wait tx inp s = Inr (t, Some m)" by blast
  obtain r' s1 where h: "handle_message tx inp m (s\<lparr>tu_now := t\<rparr>) = (r', s1)" by fastforce
  then have "r' = r" "tu_trace s' = tu_trace s1" "tu_outcome s' = tu_outcome s1" using assms(1) w by (auto simp: turn_pass_def)
  then show ?thesis using handle_message_records[OF h] assms by simp
next
  case False
  then have "tu_trace s' = tu_trace s \<and> tu_outcome s' = tu_outcome s \<and> r \<noteq> None \<and> r \<noteq> Some (Inr ())"
    using assms(1) by (auto simp: turn_pass_def split: sum.splits option.splits)
  then show ?thesis using assms by (simp add: records_def)
qed

lemma drive_turn_records:
  assumes "drive_turn tx ins fuel k s = Some (r, s')" "tx_traced tx" "\<forall>k. ti_recorded (ins k)"
    and "tu_trace s = base @ es" "records es (tu_outcome s)"
  shows "\<exists>es'. tu_trace s' = base @ es' \<and> list_all (inside_turn (to_turn_id (tu_outcome s'))) es'
    \<and> to_turn_id (tu_outcome s') = to_turn_id (tu_outcome s) \<and> (r = Inr () \<longrightarrow> records es' (tu_outcome s'))"
  using assms
proof (induction fuel arbitrary: k s es)
  case (Suc fuel)
  obtain r1 s1 where p: "turn_pass tx (ins k) s = (r1, s1)" by fastforce
  from turn_pass_records[OF p Suc.prems(2) _ Suc.prems(4,5)] Suc.prems(3) obtain es1 where e1:
    "tu_trace s1 = base @ es1" "list_all (inside_turn (to_turn_id (tu_outcome s1))) es1"
    "to_turn_id (tu_outcome s1) = to_turn_id (tu_outcome s)"
    "r1 = None \<or> r1 = Some (Inr ()) \<longrightarrow> records es1 (tu_outcome s1)" by blast
  show ?case
  proof (cases r1)
    case None
    then have "drive_turn tx ins fuel (Suc k) s1 = Some (r, s')" using Suc.prems(1) p by simp
    from Suc.IH[OF this Suc.prems(2,3) e1(1)] e1 None show ?thesis by simp
  next
    case (Some x)
    then have "x = r" "s' = s1" using Suc.prems(1) p by auto
    then show ?thesis using e1 Some by blast
  qed
qed simp

text \<open>The events of one turn, with its ends.\<close>

definition turn_events :: "turn_env \<Rightarrow> agent_error + turn_outcome \<Rightarrow> trace_event list \<Rightarrow> bool" where
  "turn_events te r es \<longleftrightarrow> (\<exists>i body status final. te_start te = Inr i
     \<and> es = [Turn_Started i (te_prompt te) (snd (te_began te))] @ body @ [Turn_Finished i status final (snd (te_ended te))]
     \<and> list_all (inside_turn i) body
     \<and> (case r of Inl e \<Rightarrow> status = Recorded_Failed (agent_error_text e)
        | Inr oc \<Rightarrow> to_turn_id oc = i \<and> records body oc \<and> status = Recorded_Completed \<and> final = to_final_message oc))"

definition all_recorded :: "turn_env \<Rightarrow> bool" where
  "all_recorded te \<longleftrightarrow> fst (te_began te) \<and> fst (te_ended te) \<and> (\<forall>k. ti_recorded (te_inputs te k))"

lemma run_turn_events:
  assumes "run_turn tx fuel te (Some th) trace = Some (r, trace')" "tx_traced tx" "all_recorded te"
  shows "\<exists>es. trace' = trace @ es \<and> (if is_ok (te_start te) then turn_events te r es else es = [])"
proof (cases "te_start te")
  case (Inl e)
  then show ?thesis using assms by (simp add: run_turn_def)
next
  case (Inr i)
  then obtain r0 s where d: "drive_turn tx (te_inputs te) fuel 0 (begin_turn tx te i trace) = Some (r0, s)"
    and f: "finish_turn tx te r0 s = (r, trace')" using assms(1) by (auto simp: run_turn_def)
  let ?base = "trace @ [Turn_Started i (te_prompt te) (snd (te_began te))]"
  have "tu_trace (begin_turn tx te i trace) = ?base @ []" "records [] (tu_outcome (begin_turn tx te i trace))"
    using assms by (simp_all add: begin_turn_def record_event_def all_recorded_def records_def new_outcome_def)
  from drive_turn_records[OF d assms(2) _ this] assms(3) obtain body where b:
    "tu_trace s = ?base @ body" "list_all (inside_turn (to_turn_id (tu_outcome s))) body"
    "to_turn_id (tu_outcome s) = i" "r0 = Inr () \<longrightarrow> records body (tu_outcome s)"
    by (auto simp: all_recorded_def begin_turn_def new_outcome_def)
  have "trace' = trace @ [Turn_Started i (te_prompt te) (snd (te_began te))] @ body
      @ [Turn_Finished i (case r0 of Inr _ \<Rightarrow> Recorded_Completed | Inl e \<Rightarrow> Recorded_Failed (agent_error_text e))
           (to_final_message (tu_outcome s)) (snd (te_ended te))]"
    "r = (case r0 of Inr _ \<Rightarrow> Inr (tu_outcome s) | Inl e \<Rightarrow> Inl e)"
    using f b assms(2,3) by (cases r0; auto simp: finish_turn_def record_event_def all_recorded_def Let_def)+
  then show ?thesis using b Inr by (cases r0) (auto simp: turn_events_def)
qed

section \<open>Replaying a turn\<close>

definition add_events :: "trace_event list \<Rightarrow> turn_trace \<Rightarrow> turn_trace" where
  "add_events es t = t\<lparr>tt_tool_calls := tt_tool_calls t @ calls_in es, tt_approvals := tt_approvals t @ approvals_in es,
     tt_refused_requests := tt_refused_requests t @ refused_in es, tt_items := tt_items t @ items_in es\<rparr>"

lemma add_events_append: "add_events (a @ b) t = add_events b (add_events a t)"
  by (simp add: add_events_def)

lemma replay_inside:
  assumes "list_all (inside_turn i) es" "\<not> rp_finished s" "rp_current s = Some t" "tt_turn_id t = i"
    and "sorted (rp_last_at_ms s # map trace_time es)"
  shows "replay_events n es s =
    Inr (s\<lparr>rp_current := Some (add_events es t), rp_last_at_ms := last (rp_last_at_ms s # map trace_time es)\<rparr>)"
  using assms
proof (induction es arbitrary: n s t)
  case Nil
  then show ?case by (simp add: add_events_def)
next
  case (Cons e es)
  let ?s = "s\<lparr>rp_current := Some (add_events [e] t), rp_last_at_ms := trace_time e\<rparr>"
  have "replay_event n e s = Inr ?s"
    using Cons.prems by (cases e) (auto simp: replay_steps inside_turn_def add_events_def)
  moreover have "replay_events (Suc n) es ?s =
      Inr (?s\<lparr>rp_current := Some (add_events es (add_events [e] t)), rp_last_at_ms := last (rp_last_at_ms ?s # map trace_time es)\<rparr>)"
    by (rule Cons.IH) (use Cons.prems in \<open>simp_all add: add_events_def\<close>)
  ultimately show ?case by (simp add: add_events_append[of "[e]" es, simplified])
qed

text \<open>What the trace must say of a turn.\<close>

definition turn_recorded :: "turn_env \<Rightarrow> agent_error + turn_outcome \<Rightarrow> turn_trace \<Rightarrow> bool" where
  "turn_recorded te r t \<longleftrightarrow> (case r of
     Inr oc \<Rightarrow> t = \<lparr>tt_turn_id = to_turn_id oc, tt_prompt = te_prompt te, tt_tool_calls = to_tool_calls oc,
       tt_approvals = to_approvals oc, tt_refused_requests = to_refused_requests oc,
       tt_items = map (Pair ''agent_message'') (to_messages oc), tt_status = Some Recorded_Completed,
       tt_final_message = to_final_message oc\<rparr>
   | Inl e \<Rightarrow> tt_prompt t = te_prompt te \<and> te_start te = Inr (tt_turn_id t) \<and> tt_status t = Some (Recorded_Failed (agent_error_text e)))"

lemma last_map_le: "ys \<noteq> [] \<Longrightarrow> \<forall>y \<in> set ys. f y \<le> z \<Longrightarrow> last (map f ys) \<le> z"
  by (cases ys rule: rev_cases) auto

lemma replay_turn:
  assumes "turn_events te r es" "\<not> rp_finished s" "rp_current s = None" "rp_started s \<noteq> None"
    and "sorted (rp_last_at_ms s # map trace_time es)"
  shows "\<exists>t. turn_recorded te r t
    \<and> replay_events n es s = Inr (s\<lparr>rp_turns := rp_turns s @ [t], rp_last_at_ms := last (map trace_time es)\<rparr>)"
proof -
  from assms(1) obtain i body status final where es: "te_start te = Inr i"
    "es = [Turn_Started i (te_prompt te) (snd (te_began te))] @ body @ [Turn_Finished i status final (snd (te_ended te))]"
    "list_all (inside_turn i) body"
    "case r of Inl e \<Rightarrow> status = Recorded_Failed (agent_error_text e)
     | Inr oc \<Rightarrow> to_turn_id oc = i \<and> records body oc \<and> status = Recorded_Completed \<and> final = to_final_message oc"
    by (auto simp: turn_events_def)
  let ?s1 = "s\<lparr>rp_last_at_ms := snd (te_began te), rp_current := Some (new_turn i (te_prompt te))\<rparr>"
  let ?m = "last (snd (te_began te) # map trace_time body)"
  let ?s2 = "s\<lparr>rp_last_at_ms := ?m, rp_current := Some (add_events body (new_turn i (te_prompt te)))\<rparr>"
  let ?t = "(add_events body (new_turn i (te_prompt te)))\<lparr>tt_status := Some status, tt_final_message := final\<rparr>"
  have srt: "rp_last_at_ms s \<le> snd (te_began te)" "sorted (snd (te_began te) # map trace_time body)"
    "?m \<le> snd (te_ended te)"
    using assms(5) es(2) by (auto simp: sorted_append intro!: last_map_le)
  have "replay_event n (Turn_Started i (te_prompt te) (snd (te_began te))) s = Inr ?s1"
    using assms(2-4) srt(1) by (auto simp: replay_steps)
  moreover have "replay_events (Suc n) body ?s1 = Inr ?s2"
    using replay_inside[OF es(3), of ?s1] assms(2) srt(2) by (simp add: new_turn_def)
  moreover have "replay_event k (Turn_Finished i status final (snd (te_ended te))) ?s2
      = Inr (s\<lparr>rp_turns := rp_turns s @ [?t], rp_last_at_ms := snd (te_ended te), rp_current := None\<rparr>)" for k
    using assms(2) srt(3) by (auto simp: replay_steps add_events_def new_turn_def)
  moreover have "s\<lparr>rp_turns := rp_turns s @ [?t], rp_last_at_ms := snd (te_ended te), rp_current := None\<rparr>
      = s\<lparr>rp_turns := rp_turns s @ [?t], rp_last_at_ms := snd (te_ended te)\<rparr>"
    using assms(3) by simp
  ultimately have "replay_events n es s = Inr (s\<lparr>rp_turns := rp_turns s @ [?t], rp_last_at_ms := last (map trace_time es)\<rparr>)"
    using es(2) by (simp add: replay_events_append)
  moreover have "turn_recorded te r ?t"
    using es(1,4) by (auto simp: turn_recorded_def add_events_def new_turn_def records_def split: sum.splits)
  ultimately show ?thesis by blast
qed

section \<open>Replaying a session\<close>

text \<open>The turns that began, with their results.\<close>

definition begun_turns :: "turn_env list \<Rightarrow> (agent_error + turn_outcome) list \<Rightarrow> (turn_env \<times> (agent_error + turn_outcome)) list" where
  "begun_turns tes rs = filter (\<lambda>(te, r). is_ok (te_start te)) (zip tes rs)"

lemma run_turn_extends:
  assumes "run_turn tx fuel te th trace = Some (r, trace')" shows "\<exists>es. trace' = trace @ es"
proof -
  have rec: "\<exists>es. tu_trace (record_event tx w e s) = tu_trace s @ es" for w e s by (simp add: record_event_def)
  have handle: "\<exists>es. tu_trace s' = tu_trace s @ es" if "handle_message tx inp m s = (r, s')" for inp m s r s'
    using that by (cases m) (auto simp: turn_handlers reply_then_def Let_def record_event_def change_outcome_def report_progress_def
        split: if_splits option.splits sum.splits prod.splits)
  have pass: "\<exists>es. tu_trace s' = tu_trace s @ es" if "turn_pass tx inp s = (r, s')" for inp s r s'
    using that by (auto simp: turn_pass_def split: sum.splits option.splits prod.splits dest!: handle)
  have drive: "\<exists>es. tu_trace s' = tu_trace s @ es" if "drive_turn tx ins fuel k s = Some (r, s')" for ins fuel k s r s'
    using that
  proof (induction fuel arbitrary: k s)
    case (Suc fuel)
    then show ?case by (auto split: prod.splits option.splits dest!: pass) (metis append.assoc)+
  qed simp
  show ?thesis
  proof (cases "\<exists>x i. th = Some x \<and> te_start te = Inr i")
    case True
    then obtain x i r0 s where "th = Some x" "te_start te = Inr i"
      "drive_turn tx (te_inputs te) fuel 0 (begin_turn tx te i trace) = Some (r0, s)" "finish_turn tx te r0 s = (r, trace')"
      using assms by (auto simp: run_turn_def)
    then show ?thesis using drive
      by (fastforce simp: finish_turn_def begin_turn_def record_event_def Let_def split: if_splits)
  next
    case False
    then show ?thesis using assms by (auto simp: run_turn_def split: option.splits sum.splits)
  qed
qed

lemma run_turns_extend: "run_turns tx fuel tes th trace = Some (rs, trace') \<Longrightarrow> \<exists>es. trace' = trace @ es"
proof (induction tes arbitrary: trace rs)
  case (Cons te tes)
  obtain r trace1 where t1: "run_turn tx fuel te th trace = Some (r, trace1)"
    using Cons.prems by (auto split: option.splits)
  then obtain rs' where "run_turns tx fuel tes th trace1 = Some (rs', trace')" using Cons.prems by auto
  then show ?case using Cons.IH run_turn_extends[OF t1] by (metis append.assoc)
qed simp

lemma run_turns_replay:
  assumes "run_turns tx fuel tes (Some th) trace = Some (rs, trace')" "tx_traced tx" "list_all all_recorded tes"
    and "replay_events 1 trace replay_start = Inr s" "\<not> rp_finished s" "rp_current s = None" "rp_started s = Some st"
    and "trace \<noteq> []" "rp_last_at_ms s = last (map trace_time trace)" "sorted (map trace_time trace')"
  shows "\<exists>s'. replay_events 1 trace' replay_start = Inr s' \<and> \<not> rp_finished s' \<and> rp_current s' = None
    \<and> rp_started s' = Some st \<and> trace' \<noteq> [] \<and> rp_last_at_ms s' = last (map trace_time trace')
    \<and> (\<exists>ts. rp_turns s' = rp_turns s @ ts \<and> list_all2 (\<lambda>(te, r). turn_recorded te r) (begun_turns tes rs) ts)"
  using assms
proof (induction tes arbitrary: trace s rs)
  case Nil
  then show ?case by (auto simp: begun_turns_def)
next
  case (Cons te tes)
  obtain r trace1 where t1: "run_turn tx fuel te (Some th) trace = Some (r, trace1)"
    using Cons.prems(1) by (auto split: option.splits)
  then obtain rs' where rs: "rs = r # rs'" "run_turns tx fuel tes (Some th) trace1 = Some (rs', trace')"
    using Cons.prems(1) by auto
  obtain es where es: "trace1 = trace @ es" "if is_ok (te_start te) then turn_events te r es else es = []"
    using run_turn_events[OF t1 Cons.prems(2)] Cons.prems(3) by auto
  obtain more where more: "trace' = trace1 @ more"
    using run_turns_extend[OF rs(2)] by blast
  show ?case
  proof (cases "is_ok (te_start te)")
    case False
    then have "trace1 = trace" using es by simp
    from Cons.IH[OF rs(2)[unfolded this] Cons.prems(2) _ Cons.prems(4-10)] Cons.prems(3)
    show ?thesis using False rs(1) by (simp add: begun_turns_def)
  next
    case True
    then have ev: "turn_events te r es" using es by simp
    then have "es \<noteq> []" by (auto simp: turn_events_def)
    have "sorted (rp_last_at_ms s # map trace_time es)"
      using Cons.prems(8-10) es(1) more by (auto simp: sorted_append intro!: last_map_le)
    from replay_turn[OF ev Cons.prems(5,6) _ this] Cons.prems(7) obtain t where t: "turn_recorded te r t"
      "replay_events (1 + length trace) es s = Inr (s\<lparr>rp_turns := rp_turns s @ [t], rp_last_at_ms := last (map trace_time es)\<rparr>)"
      by blast
    let ?s1 = "s\<lparr>rp_turns := rp_turns s @ [t], rp_last_at_ms := last (map trace_time es)\<rparr>"
    have r1: "replay_events 1 trace1 replay_start = Inr ?s1"
      using Cons.prems(4) t(2) es(1) by (simp add: replay_events_append)
    have l1: "rp_last_at_ms ?s1 = last (map trace_time trace1)" "trace1 \<noteq> []" using es(1) \<open>es \<noteq> []\<close> by simp_all
    from Cons.IH[OF rs(2) Cons.prems(2) _ r1 _ _ _ l1(2,1) Cons.prems(10)] Cons.prems(3,5,6,7) obtain s' ts where
      "replay_events 1 trace' replay_start = Inr s'" "\<not> rp_finished s'" "rp_current s' = None" "rp_started s' = Some st"
      "trace' \<noteq> []" "rp_last_at_ms s' = last (map trace_time trace')" "rp_turns s' = rp_turns s @ [t] @ ts"
      "list_all2 (\<lambda>(te, r). turn_recorded te r) (begun_turns tes rs') ts" by auto
    moreover from this(8) have "list_all2 (\<lambda>(te, r). turn_recorded te r) (begun_turns (te # tes) rs) (t # ts)"
      using True rs(1) t(1) by (simp add: begun_turns_def)
    ultimately show ?thesis by auto
  qed
qed

text \<open>C16. The host's own record tells the truth: where every event could be written and the clock of the host was
  never set back, the trace of a session replays to that session, turn by turn: the tool calls, the approvals
  with their verdicts, the refused requests and the messages of each turn that completed, and the reason of
  each that did not.\<close>

theorem recorded_session_replays:
  assumes run: "run_session tx fuel st (True, t0) tes stopped (True, t1) = Some (rs, es)"
    and "tx_traced tx" "list_all all_recorded tes"
    and codec: "line_codec encode decode es" and clock: "sorted (map trace_time es)"
  shows "\<exists>s. replay_str decode (fold (append_line encode) es []) = Inr s \<and> se_start s = st \<and> se_finished s = stopped
    \<and> list_all2 (\<lambda>(te, r). turn_recorded te r) (begun_turns tes rs) (se_turns s)"
proof -
  let ?first = "[Session_Started st t0]"
  let ?s0 = "replay_start\<lparr>rp_last_at_ms := t0, rp_started := Some st\<rparr>"
  obtain trace where tr: "run_turns tx fuel tes (Some (st_thread_id st)) ?first = Some (rs, trace)"
    "es = close_session tx stopped (True, t1) trace"
    using run \<open>tx_traced tx\<close> by (auto simp: run_session_def open_session_def)
  have s0: "replay_events 1 ?first replay_start = Inr ?s0"
    by (simp add: replay_event_def start_session_def replay_start_def)
  have "sorted (map trace_time trace)" using clock tr(2) by (auto simp: close_session_def sorted_append split: if_splits)
  from run_turns_replay[OF tr(1) assms(2,3) s0 _ _ _ _ _ this] obtain s' where s':
    "replay_events 1 trace replay_start = Inr s'" "\<not> rp_finished s'" "rp_current s' = None" "rp_started s' = Some st"
    "trace \<noteq> []" "rp_last_at_ms s' = last (map trace_time trace)"
    "list_all2 (\<lambda>(te, r). turn_recorded te r) (begun_turns tes rs) (rp_turns s')"
    by (auto simp: replay_start_def)
  show ?thesis
  proof (cases stopped)
    case False
    then have "es = trace" using tr(2) by (simp add: close_session_def)
    then show ?thesis using s' False replay_str_events[OF codec] by (simp add: replay_result_def)
  next
    case True
    then have es: "es = trace @ [Session_Finished t1]" using tr(2) \<open>tx_traced tx\<close> by (simp add: close_session_def)
    then have "last (map trace_time trace) \<le> t1" using clock s'(5) by (simp add: sorted_append last_map_le)
    then have "replay_events 1 es replay_start = Inr (s'\<lparr>rp_last_at_ms := t1, rp_finished := True\<rparr>)"
      using s' es by (simp add: replay_events_append replay_event_def require_monotonic_def)
    then show ?thesis using s' True by (simp add: replay_str_events[OF codec] replay_result_def)
  qed
qed

text \<open>If the clock is set back between two events, the trace that results is refused.\<close>

lemma clock_set_back_is_refused:
  assumes "t < rp_last_at_ms s" "\<not> rp_finished s" "rp_started s = Some st"
  shows "is_ok (replay_event n (Turn_Started i prompt t) s) = False"
  using assms by (simp add: replay_steps)

section \<open>Witnesses\<close>

definition sample_turn_env :: turn_env where
  "sample_turn_env = \<lparr>te_prompt = ''p'', te_start = Inr ''u'', te_began = (True, 2), te_ended = (True, 9), te_started_at = 0,
     te_inputs = sample_inputs\<rparr>"

definition sample_trace :: "trace_event list" where
  "sample_trace = [Session_Started sample_session 1, Turn_Started ''u'' ''p'' 2, Refused_Event ''auth/refresh'' 7,
     Turn_Finished ''u'' Recorded_Completed None 9, Session_Finished 10]"

definition sample_outcome :: turn_outcome where
  "sample_outcome = (new_outcome ''u'')\<lparr>to_refused_requests := [''auth/refresh'']\<rparr>"

definition event_line :: "trace_event \<Rightarrow> string" where
  "event_line e = show_nat (unat (trace_time e))"

definition line_event :: "string \<Rightarrow> trace_event option" where
  "line_event l = find (\<lambda>e. event_line e = l) sample_trace"

lemma sample_session_run:
  "run_session sample_context 2 sample_session (True, 1) [sample_turn_env] True (True, 10) = Some ([Inr sample_outcome], sample_trace)"
  by (simp add: run_session_def open_session_def close_session_def run_turn_def begin_turn_def finish_turn_def record_event_def
      numeral_2_eq_2 turn_pass_def turn_wait_def wait_deadline_def turn_deadline_def sample_inputs_def sample_turn_env_def
      sample_input_def sample_context_def default_limits_def handle_message_def on_request_def kind_from_method_def on_refused_def
      on_notification_def reply_then_def report_progress_def change_outcome_def new_outcome_def sample_outcome_def sample_trace_def
      sample_session_def forward_progress_def)

lemma sample_line_codec: "line_codec event_line line_event sample_trace"
proof -
  have "set (show_nat n) \<inter> {CHR 0x0A, CHR 0x0D} = {} \<and> \<not> blank (show_nat n)" for n
  proof -
    have d: "c \<in> set (show_nat n) \<Longrightarrow> is_digit c" for c by (rule show_nat_digits)
    have "\<not> is_digit (CHR 0x0A)" "\<not> is_digit (CHR 0x0D)" "is_digit c \<Longrightarrow> \<not> is_whitespace c" for c
      by (auto simp: is_digit_def is_whitespace_def)
    then show ?thesis using d show_nat_nonempty[of n] by (auto simp: blank_def list_all_iff)
  qed
  then show ?thesis
    by (auto simp: line_codec_def line_event_def event_line_def sample_trace_def)
qed

lemma recorded_session_replays_witness:
  "\<exists>s. replay_str line_event (fold (append_line event_line) sample_trace []) = Inr s \<and> se_start s = sample_session
    \<and> se_finished s"
proof -
  have "\<exists>s. replay_str line_event (fold (append_line event_line) sample_trace []) = Inr s \<and> se_start s = sample_session
    \<and> se_finished s = True \<and> list_all2 (\<lambda>(te, r). turn_recorded te r) (begun_turns [sample_turn_env] [Inr sample_outcome]) (se_turns s)"
    by (rule recorded_session_replays[OF sample_session_run])
      (simp_all add: sample_line_codec[unfolded sample_trace_def] sample_context_def all_recorded_def sample_turn_env_def sample_inputs_def
        sample_input_def sample_trace_def)
  then show ?thesis by blast
qed

end
