(* ===== verification/Agent_Controller.thy ===== *)
theory Agent_Controller
  imports Agent_Access Agent_Gate Agent_Live Agent_Session
begin

text \<open>
  The controller of the analysis session, \<open>commands/agent.rs\<close>: the environment it reads, the readiness check, the
  launch of the runtime, the task that owns the session, and the operations of the interface. What the runtime
  answers, the environment variables and the clock are inputs. The commands run one at a time; the task is a
  machine of its own that shares the status and the gate with them.
\<close>

section \<open>The environment\<close>

definition parse_u64 :: "string \<Rightarrow> u64 option" where
  "parse_u64 s = (let d = (case s of c # rest \<Rightarrow> if c = CHR ''+'' then rest else s | [] \<Rightarrow> s) in
     if all_digits d \<and> read_nat 0 d < 2 ^ 64 then Some (of_nat (read_nat 0 d)) else None)"

text \<open>A limit in seconds: a zero and a text that is no number fall back.\<close>

definition seconds_from_env :: "string option \<Rightarrow> nat \<Rightarrow> nat" where
  "seconds_from_env raw fallback = (case raw of
     None \<Rightarrow> fallback
   | Some s \<Rightarrow> (case parse_u64 (trim s) of None \<Rightarrow> fallback | Some n \<Rightarrow> if n = 0 then fallback else unat n))"

definition turn_limits_of :: "string option \<Rightarrow> string option \<Rightarrow> turn_limits" where
  "turn_limits_of idle longest = \<lparr>tg_idle_timeout = 1000 * seconds_from_env idle 600,
     tg_max_duration = 1000 * seconds_from_env longest 7200, tg_max_tool_calls = 32, tg_approval_timeout = 300000\<rparr>"

definition parse_roots :: "file_system \<Rightarrow> string \<Rightarrow> path list" where
  "parse_roots fs raw = filter (\<lambda>p. is_absolute p \<and> fs_is_dir fs p)
     (map path_of (filter (\<lambda>s. s \<noteq> []) (map trim (split_on (CHR '':'') raw))))"

definition extra_roots :: "file_system \<Rightarrow> string option \<Rightarrow> path list" where
  "extra_roots fs raw = (case raw of None \<Rightarrow> [] | Some s \<Rightarrow> parse_roots fs s)"

record host_env =
  he_program :: "string option" \<comment> \<open>\<open>discover_program\<close>\<close>
  he_fs :: file_system
  he_cwd :: "path option"
  he_executable :: "path option"
  he_can_create :: "path \<Rightarrow> bool" \<comment> \<open>\<open>create_dir_all\<close>\<close>
  he_probe :: probe_sight
  he_skill_roots :: "string option"
  he_write_roots :: "string option"
  he_codex_home :: "string option"
  he_home :: "string option"
  he_decode :: "string \<Rightarrow> string + json"

definition trace_dir_rel :: path where
  "trace_dir_rel = map Normal [''data'', ''agent-traces'']"

definition host_project_root :: "host_env \<Rightarrow> path option" where
  "host_project_root e = Option.bind (he_cwd e) (project_root_from (he_fs e))"

definition trace_dir :: "host_env \<Rightarrow> path result" where
  "trace_dir e = (case host_project_root e of
     None \<Rightarrow> Inl (Bail ''cannot find the project root'')
   | Some r \<Rightarrow> let d = path_join r trace_dir_rel in
       if he_can_create e d then Inr d else Inl (Bail ''cannot create the trace directory''))"

definition domain_instructions :: "host_env \<Rightarrow> document_error + string" where
  "domain_instructions e = load_default_instructions (he_fs e) (he_cwd e) (he_executable e)"

definition report_schema :: "host_env \<Rightarrow> document_error + json" where
  "report_schema e = (case resolve_default (resolve_document (he_fs e) (map Normal [''docs'', ''agent'', ''report-schema.json'']))
      (he_cwd e) (he_executable e) of
     None \<Rightarrow> Inl (Not_Found [map Normal [''docs'', ''agent'', ''report-schema.json'']])
   | Some p \<Rightarrow> load_schema (he_decode e) (he_fs e) p)"

section \<open>Readiness\<close>

datatype not_ready = No_Runtime | No_Trace_Dir | No_Confinement availability | No_Instructions document_error

record agent_ready =
  ay_ready :: bool
  ay_program :: "string option"
  ay_trace_dir :: "path option"
  ay_sandbox :: string
  ay_instructions :: "nat option"
  ay_skill_roots :: "path list"
  ay_write_roots :: "path list"
  ay_access_level :: string
  ay_reason :: "not_ready option"

definition readiness_reason :: "host_env \<Rightarrow> not_ready option" where
  "readiness_reason e =
     (if he_program e = None then Some No_Runtime
      else if \<not> is_ok (trace_dir e) then Some No_Trace_Dir
      else if \<not> is_available (probe (he_probe e)) then Some (No_Confinement (probe (he_probe e)))
      else (case domain_instructions e of Inl x \<Rightarrow> Some (No_Instructions x) | Inr _ \<Rightarrow> None))"

definition readiness_with :: "host_env \<Rightarrow> access_level \<Rightarrow> agent_ready" where
  "readiness_with e level =
     \<lparr>ay_ready = (readiness_reason e = None), ay_program = he_program e,
      ay_trace_dir = (case trace_dir e of Inl _ \<Rightarrow> None | Inr d \<Rightarrow> Some d),
      ay_sandbox = availability_text (probe (he_probe e)),
      ay_instructions = (case domain_instructions e of Inl _ \<Rightarrow> None | Inr t \<Rightarrow> Some (length t)),
      ay_skill_roots = extra_roots (he_fs e) (he_skill_roots e), ay_write_roots = extra_roots (he_fs e) (he_write_roots e),
      ay_access_level = level_token level, ay_reason = readiness_reason e\<rparr>"

section \<open>The launch\<close>

definition confinement_for :: "host_env \<Rightarrow> access_level \<Rightarrow> path \<Rightarrow> path \<Rightarrow> path \<Rightarrow> sandbox_policy option" where
  "confinement_for e level codex_home trace workspace =
     map_option (with_extra_write_roots (extra_roots (he_fs e) (he_write_roots e)))
       (level_confinement level codex_home (Some trace) (Some workspace))"

definition codex_home_dir :: "host_env \<Rightarrow> path result" where
  "codex_home_dir e = (case he_codex_home e of
     Some h \<Rightarrow> Inr (path_of h)
   | None \<Rightarrow> (case he_home e of
       Some h \<Rightarrow> Inr (path_join (path_of h) [Normal ''.codex'']) | None \<Rightarrow> Inl (Bail ''cannot determine the codex home directory'')))"

record thread_options =
  th_cwd :: path
  th_ephemeral :: bool
  th_sandbox :: sandbox_mode
  th_approval_policy :: approval_policy
  th_approvals_reviewer :: approvals_reviewer
  th_developer_instructions :: string
  th_skill_roots :: "path list"
  th_trace_dir :: path

record launch_plan =
  lp_program :: string
  lp_confinement :: "sandbox_policy option"
  lp_persistence :: persistence
  lp_options :: thread_options
  lp_schema :: json

text \<open>The part of \<open>run_agent\<close> before the runtime is started.\<close>

definition plan_launch :: "host_env \<Rightarrow> string option \<Rightarrow> access_level \<Rightarrow> launch_plan result" where
  "plan_launch e program level = (case program of
     None \<Rightarrow> Inl (Bail ''codex is not available'')
   | Some prog \<Rightarrow>
       then_do (codex_home_dir e) (\<lambda>home.
       then_do (case host_project_root e of None \<Rightarrow> Inl (Bail ''cannot find the project root'') | Some r \<Rightarrow> Inr r) (\<lambda>root.
       then_do (trace_dir e) (\<lambda>trace. let confinement = confinement_for e level home trace root in
       then_do (case domain_instructions e of Inl _ \<Rightarrow> Inl (Bail ''domain instructions'') | Inr t \<Rightarrow> Inr t) (\<lambda>instructions.
       then_do (case report_schema e of Inl _ \<Rightarrow> Inl (Bail ''report schema'') | Inr s \<Rightarrow> Inr s) (\<lambda>schema.
         Inr \<lparr>lp_program = prog, lp_confinement = confinement,
           lp_persistence = (if is_some_and confinement blocks_rule_persistence then Persistence_Blocked else Persistence_Allowed),
           lp_options = \<lparr>th_cwd = root, th_ephemeral = False, th_sandbox = level_sandbox level,
              th_approval_policy = level_policy level, th_approvals_reviewer = level_reviewer level,
              th_developer_instructions = instructions, th_skill_roots = extra_roots (he_fs e) (he_skill_roots e),
              th_trace_dir = trace\<rparr>, lp_schema = schema\<rparr>))))))"

text \<open>C34. The launch keeps its promises: what the runtime is told and how it is confined come from one level, it is
  confined unless that level is full access, and a permanent approval is offered only where the runtime could
  write its rule store, so at every confined level the owner is never offered one.\<close>

theorem launch_follows_level:
  assumes "plan_launch e program level = Inr plan"
  shows "(lp_confinement plan = None \<longleftrightarrow> level = Full_Access)
    \<and> th_sandbox (lp_options plan) = level_sandbox level \<and> th_approval_policy (lp_options plan) = level_policy level
    \<and> th_approvals_reviewer (lp_options plan) = level_reviewer level \<and> \<not> th_ephemeral (lp_options plan)
    \<and> (lp_persistence plan = Persistence_Blocked \<longleftrightarrow> level \<noteq> Full_Access)
    \<and> (level = Full_Access \<or> Allow_Always \<notin> set (available_decisions k params (lp_persistence plan)))"
proof -
  obtain home trace root where c: "lp_confinement plan = confinement_for e level home trace root"
    and p: "lp_persistence plan = (if is_some_and (lp_confinement plan) blocks_rule_persistence then Persistence_Blocked else Persistence_Allowed)"
    and o': "th_sandbox (lp_options plan) = level_sandbox level" "th_approval_policy (lp_options plan) = level_policy level"
      "th_approvals_reviewer (lp_options plan) = level_reviewer level" "\<not> th_ephemeral (lp_options plan)"
    using assms by (auto simp: plan_launch_def Let_def split: option.splits)
  have "is_some_and (confinement_for e level home trace root) blocks_rule_persistence \<longleftrightarrow> level \<noteq> Full_Access"
    "confinement_for e level home trace root = None \<longleftrightarrow> level = Full_Access"
    by (cases level; simp add: confinement_for_def level_confinement_def with_extra_write_roots_def blocks_rule_persistence_def
      codex_child_policy_def path_join_def is_absolute_def rules_subdir_def)+
  with c p o' show ?thesis by (auto simp: available_decisions_def)
qed

definition ready_env :: host_env where
  "ready_env = \<lparr>he_program = Some ''codex'', he_fs = plain_fs\<lparr>fs_read := \<lambda>_. Inr ''rules''\<rparr>, he_cwd = Some (path_of ''/a/b/c/d''),
     he_executable = None, he_can_create = \<lambda>_. True, he_probe = good_sight, he_skill_roots = None, he_write_roots = None,
     he_codex_home = Some ''/h'', he_home = None,
     he_decode = \<lambda>_. Inr (JObject [(''properties'', JObject (map (\<lambda>k. (k, JNull)) required_properties))])\<rparr>"

lemma ready_env_launches: "is_ok (plan_launch ready_env (Some ''codex'') Ask_Level)"
  by (simp add: plan_launch_def ready_env_def codex_home_dir_def host_project_root_def project_root_from_def resolve_instructions_def
    plain_fs_def path_of_def path_parts_def trace_dir_def domain_instructions_def load_default_instructions_def
    resolve_default_def load_instructions_def read_document_def trim_def trim_start_def is_whitespace_def path_parent_def report_schema_def resolve_document_def
    load_schema_def json_member_def json_object_def required_properties_def Let_def)

lemma launch_follows_level_witness:
  "lp_confinement (projr (plan_launch ready_env (Some ''codex'') Ask_Level)) \<noteq> None
    \<and> Allow_Always \<notin> set (available_decisions Command_Execution JNull
        (lp_persistence (projr (plan_launch ready_env (Some ''codex'') Ask_Level))))"
proof -
  have "plan_launch ready_env (Some ''codex'') Ask_Level = Inr (projr (plan_launch ready_env (Some ''codex'') Ask_Level))"
    using ready_env_launches by (auto simp: is_ok_iff)
  from launch_follows_level[OF this, of Command_Execution JNull] show ?thesis by auto
qed

text \<open>The policy a launch is confined by: the level's own, with the configured roots at its end.\<close>

lemma launch_policy:
  assumes "plan_launch e program level = Inr plan" "lp_confinement plan = Some policy"
  shows "\<exists>home. codex_home_dir e = Inr home
    \<and> sp_writable_roots policy = [home, th_trace_dir (lp_options plan)] @ (if level = Auto_Approve then [th_cwd (lp_options plan)] else [])
        @ extra_roots (he_fs e) (he_write_roots e)
    \<and> sp_platform_defaults policy \<and> sp_deny_write_subpaths policy = [home @ [Normal ''rules'']]"
proof -
  obtain home where "codex_home_dir e = Inr home"
    "confinement_for e level home (th_trace_dir (lp_options plan)) (th_cwd (lp_options plan)) = Some policy"
    using assms by (auto simp: plan_launch_def Let_def split: option.splits)
  then show ?thesis
    by (cases level) (auto simp: confinement_for_def level_confinement_def with_extra_write_roots_def codex_child_policy_def
      path_join_def is_absolute_def rules_subdir_def)
qed

text \<open>C32. What a launched session can write is decided by its level and the configured roots alone. Where the included
  texts say nothing, the confined child can write a path exactly when it is not under the rule store, by the
  path the policy writes for it, and either in a scratch directory or granted by one of these roots, as the file system resolves them: the runtime's home, the
  trace directory, the roots configured for writing, and the workspace only at the level that approves by itself.
  So at the asking level the workspace stays out of reach, but for the parts of it that are one of the other roots.
  The roots themselves cannot be unlinked, unless they lie in a scratch directory.\<close>

theorem launched_child_writes:
  assumes "plan_launch e program level = Inr plan" "lp_confinement plan = Some policy"
    and "build_profile (he_fs e) policy = Inr profile" "\<And>f. included f op p = None"
  shows "\<exists>home roots. codex_home_dir e = Inr home
    \<and> roots = [home, th_trace_dir (lp_options plan)] @ (if level = Auto_Approve then [th_cwd (lp_options plan)] else [])
        @ extra_roots (he_fs e) (he_write_roots e)
    \<and> (write_allowed included profile op p \<longleftrightarrow> \<not> prefix (normalize (home @ [Normal ''rules''])) p
        \<and> (list_ex (\<lambda>q. prefix q p) scratch_roots \<or> (list_ex (root_grants (he_fs e) p) roots
              \<and> (op = Unlink_Op \<longrightarrow> \<not> list_ex (\<lambda>r. resolves_to (he_fs e) r p) roots))))"
proof -
  obtain home where *: "codex_home_dir e = Inr home"
    "sp_writable_roots policy = [home, th_trace_dir (lp_options plan)] @ (if level = Auto_Approve then [th_cwd (lp_options plan)] else [])
        @ extra_roots (he_fs e) (he_write_roots e)"
    "sp_platform_defaults policy" "sp_deny_write_subpaths policy = [home @ [Normal ''rules'']]"
    using launch_policy[OF assms(1,2)] by blast
  define roots where "roots = sp_writable_roots policy"
  have "write_allowed included profile op p \<longleftrightarrow> \<not> prefix (normalize (home @ [Normal ''rules''])) p
      \<and> (list_ex (\<lambda>q. prefix q p) scratch_roots \<or> (list_ex (root_grants (he_fs e) p) roots
            \<and> (op = Unlink_Op \<longrightarrow> \<not> list_ex (\<lambda>r. resolves_to (he_fs e) r p) roots)))"
    using profile_verdict(2)[OF assms(3), of included op p, OF assms(4)] *(3,4) by (simp add: roots_def)
  with *(1) *(2)[folded roots_def] show ?thesis by blast
qed

definition rooted_env :: host_env where
  "rooted_env = ready_env\<lparr>he_write_roots := Some ''/w''\<rparr>"

definition asking_policy :: sandbox_policy where
  "asking_policy = (codex_child_policy (path_of ''/h'') (Some (path_of ''/a/data/agent-traces'')))
     \<lparr>sp_writable_roots := map path_of [''/h'', ''/a/data/agent-traces'', ''/w'']\<rparr>"

lemma rooted_env_launches: "\<exists>plan. plan_launch rooted_env (Some ''codex'') Ask_Level = Inr plan \<and> lp_confinement plan = Some asking_policy"
  by (simp add: rooted_env_def plan_launch_def ready_env_def codex_home_dir_def host_project_root_def project_root_from_def resolve_instructions_def
    plain_fs_def path_of_def path_parts_def trace_dir_def domain_instructions_def load_default_instructions_def
    resolve_default_def load_instructions_def read_document_def trim_def trim_start_def is_whitespace_def path_parent_def report_schema_def resolve_document_def
    load_schema_def json_member_def json_object_def required_properties_def Let_def confinement_for_def level_confinement_def
    with_extra_write_roots_def extra_roots_def parse_roots_def codex_child_policy_def asking_policy_def path_join_def is_absolute_def trace_dir_rel_def)

lemma launched_child_writes_witness:
  "\<exists>plan profile. plan_launch rooted_env (Some ''codex'') Ask_Level = Inr plan \<and> lp_confinement plan = Some asking_policy
    \<and> build_profile (he_fs rooted_env) asking_policy = Inr profile
    \<and> \<not> write_allowed (\<lambda>_ _ _. None) profile Write_Op (path_of ''/a/x'')
    \<and> write_allowed (\<lambda>_ _ _. None) profile Write_Op (path_of ''/w/x'')"
proof -
  obtain plan where plan: "plan_launch rooted_env (Some ''codex'') Ask_Level = Inr plan" "lp_confinement plan = Some asking_policy"
    using rooted_env_launches by blast
  obtain profile where profile: "build_profile (he_fs rooted_env) asking_policy = Inr profile"
    by (simp add: rooted_env_def ready_env_def asking_policy_def codex_child_policy_def plain_fs_def rules_subdir_def profile_evals access_prefix_def
      path_of_def path_parts_def eval_nat_numeral)
  have home: "codex_home_dir rooted_env = Inr (path_of ''/h'')" by (simp add: rooted_env_def ready_env_def codex_home_dir_def)
  have verdict: "write_allowed (\<lambda>_ _ _. None) profile Write_Op p \<longleftrightarrow> \<not> prefix (normalize (path_of ''/h'' @ [Normal ''rules''])) p
      \<and> (list_ex (\<lambda>q. prefix q p) scratch_roots
         \<or> list_ex (root_grants (he_fs rooted_env) p) (map path_of [''/h'', ''/a/data/agent-traces'', ''/w'']))" for p
    using launched_child_writes[OF plan profile, of "\<lambda>_ _ _. None" Write_Op p] launch_policy[OF plan]
    by (auto simp: home asking_policy_def)
  note evals = rooted_env_def ready_env_def plain_fs_def root_grants_def profile_evals scratch_roots_def
    path_of_def path_parts_def eval_nat_numeral
  have "\<not> write_allowed (\<lambda>_ _ _. None) profile Write_Op (path_of ''/a/x'')" unfolding verdict by (simp add: evals)
  moreover have "write_allowed (\<lambda>_ _ _. None) profile Write_Op (path_of ''/w/x'')" unfolding verdict by (simp add: evals)
  ultimately show ?thesis using plan profile by blast
qed

text \<open>Readiness covers the launch, except for the runtime's home directory and the report contract.\<close>

lemma ready_launches:
  assumes "ay_ready (readiness_with e level)" "is_ok (codex_home_dir e)" "is_ok (report_schema e)"
  shows "is_ok (plan_launch e (ay_program (readiness_with e level)) level)"
proof -
  obtain prog where "he_program e = Some prog" using assms(1)
    by (auto simp: readiness_with_def readiness_reason_def split: if_splits)
  moreover obtain d where d: "trace_dir e = Inr d" using assms(1)
    by (auto simp: readiness_with_def readiness_reason_def is_ok_iff split: if_splits)
  moreover obtain r where "host_project_root e = Some r" using d by (auto simp: trace_dir_def split: option.splits)
  moreover obtain t where "domain_instructions e = Inr t" using assms(1)
    by (auto simp: readiness_with_def readiness_reason_def split: if_splits sum.splits)
  moreover obtain home schema where "codex_home_dir e = Inr home" "report_schema e = Inr schema"
    using assms(2,3) by (auto simp: is_ok_iff)
  ultimately show ?thesis by (simp add: plan_launch_def readiness_with_def Let_def)
qed

section \<open>Status\<close>

record decision_view =
  dv_request_id :: int
  dv_kind :: string
  dv_summary :: string
  dv_decision :: string
  dv_source :: string
  dv_waited_ms :: u64

definition approval_dto :: "approval_record \<Rightarrow> decision_view" where
  "approval_dto r = \<lparr>dv_request_id = ar_request_id r, dv_kind = kind_as_str (ar_kind r), dv_summary = ar_summary r,
     dv_decision = decision_token (ar_decision r),
     dv_source = (case ar_source r of From_Decider \<Rightarrow> ''decider'' | From_Timeout \<Rightarrow> ''timeout'' | From_Unsupported \<Rightarrow> ''unsupported''),
     dv_waited_ms = ar_waited_ms r\<rparr>"

record tool_call_view =
  tv_call_id :: string
  tv_tool :: string
  tv_success :: bool
  tv_output :: string

definition tool_call_dto :: "tool_call_record \<Rightarrow> tool_call_view" where
  "tool_call_dto c = \<lparr>tv_call_id = ct_call_id c, tv_tool = ct_tool c, tv_success = ct_success c, tv_output = ct_output c\<rparr>"

record turn_view =
  tw_seq :: nat
  tw_prompt :: string
  tw_tool_calls :: "tool_call_view list"
  tw_approvals :: "decision_view list"
  tw_refused_requests :: "string list"
  tw_items :: "live_item list"
  tw_messages :: "string list"
  tw_report :: "turn_report option"
  tw_report_error :: "report_problem option"
  tw_error :: "string option"
  tw_started_at_ms :: u64
  tw_finished_at_ms :: "u64 option"

record agent_status =
  as_phase :: string
  as_program :: "string option"
  as_thread_id :: "string option"
  as_trace_path :: "string option"
  as_pending_approval :: "request_view option"
  as_turns :: "turn_view list"
  as_skills :: "(string \<times> string) list"
  as_access_level :: string
  as_live :: "agent_live option"
  as_error :: "string option"

definition status_of :: "string \<Rightarrow> string option \<Rightarrow> string \<Rightarrow> agent_status" where
  "status_of phase program level = \<lparr>as_phase = phase, as_program = program, as_thread_id = None, as_trace_path = None,
     as_pending_approval = None, as_turns = [], as_skills = [], as_access_level = level, as_live = None, as_error = None\<rparr>"

definition stopped_status :: "string option \<Rightarrow> agent_status" where
  "stopped_status program = status_of ''stopped'' program (level_token Ask_Level)"

section \<open>The task\<close>

datatype agent_command = Ask_Command string | Stop_Command

text \<open>Where the task stands: before the thread is started, between two commands, inside a turn, ended.\<close>

datatype task_state = Launching | Idle | In_Turn nat | Task_Ended

record running_agent =
  rg_commands :: "agent_command list"
  rg_gate :: approval_gate
  rg_status :: agent_status
  rg_level :: access_level
  rg_task :: task_state

definition command_capacity :: nat where "command_capacity = 4"

definition agent_started :: "string \<Rightarrow> string option \<Rightarrow> skill_info list \<Rightarrow> agent_status \<Rightarrow> agent_status" where
  "agent_started thread trace skills st = st\<lparr>as_phase := ''ready'', as_thread_id := Some thread, as_trace_path := trace,
     as_skills := map (\<lambda>s. (sk_name s, sk_description s)) skills\<rparr>"

definition new_turn_view :: "nat \<Rightarrow> string \<Rightarrow> u64 \<Rightarrow> turn_view" where
  "new_turn_view seq prompt now = \<lparr>tw_seq = seq, tw_prompt = prompt, tw_tool_calls = [], tw_approvals = [], tw_refused_requests = [],
     tw_items = [], tw_messages = [], tw_report = None, tw_report_error = None, tw_error = None, tw_started_at_ms = now,
     tw_finished_at_ms = None\<rparr>"

definition begin_ask :: "string \<Rightarrow> u64 \<Rightarrow> agent_status \<Rightarrow> agent_status" where
  "begin_ask prompt now st = (let seq = length (as_turns st) in
     st\<lparr>as_phase := ''running'', as_error := None, as_pending_approval := None, as_live := Some (new_live seq),
        as_turns := as_turns st @ [new_turn_view seq prompt now]\<rparr>)"

definition turn_result_view :: "live_item list \<Rightarrow> string + turn_outcome \<Rightarrow> u64 \<Rightarrow> turn_view \<Rightarrow> turn_view" where
  "turn_result_view steps result now t = (case result of
     Inr oc \<Rightarrow> t\<lparr>tw_tool_calls := map tool_call_dto (to_tool_calls oc), tw_approvals := map approval_dto (to_approvals oc),
        tw_refused_requests := to_refused_requests oc, tw_items := steps, tw_messages := to_messages oc, tw_report := to_report oc,
        tw_report_error := to_report_error oc, tw_error := None, tw_finished_at_ms := Some now\<rparr>
   | Inl e \<Rightarrow> t\<lparr>tw_tool_calls := [], tw_approvals := [], tw_refused_requests := [], tw_items := steps, tw_messages := [],
        tw_report := None, tw_report_error := None, tw_error := Some e, tw_finished_at_ms := Some now\<rparr>)"

definition end_ask :: "nat \<Rightarrow> string + turn_outcome \<Rightarrow> u64 \<Rightarrow> agent_status \<Rightarrow> agent_status" where
  "end_ask seq result now st =
     (let steps = (case as_live st of None \<Rightarrow> [] | Some v \<Rightarrow> al_items v)
      in st\<lparr>as_live := None, as_turns := update_first (\<lambda>t. tw_seq t = seq) (turn_result_view steps result now) (as_turns st),
         as_phase := ''ready''\<rparr>)"

text \<open>The end of the task: an error is kept in the status.\<close>

definition task_end :: "string + unit \<Rightarrow> agent_status \<Rightarrow> agent_status" where
  "task_end r st = (case r of
     Inl e \<Rightarrow> st\<lparr>as_phase := ''error'', as_error := Some e\<rparr>
   | Inr _ \<Rightarrow> if as_phase st \<noteq> ''error'' then st\<lparr>as_phase := ''stopped''\<rparr> else st)"

text \<open>
  The steps of the task. \<open>Launched\<close> is the outcome of everything before the first command; a turn changes the
  gate only through the approvals it asks for, and no waiter is left when it ends.
\<close>

inductive agent_step :: "running_agent \<Rightarrow> running_agent \<Rightarrow> bool" where
  Launch_Failed: "rg_task a = Launching \<Longrightarrow>
    agent_step a (a\<lparr>rg_task := Task_Ended, rg_status := task_end (Inl e) (rg_status a)\<rparr>)"
| Launched: "rg_task a = Launching \<Longrightarrow>
    agent_step a (a\<lparr>rg_task := Idle, rg_status := agent_started thread trace skills (rg_status a)\<rparr>)"
| Takes_Ask: "rg_task a = Idle \<Longrightarrow> rg_commands a = Ask_Command prompt # rest \<Longrightarrow>
    agent_step a (a\<lparr>rg_task := In_Turn (length (as_turns (rg_status a))), rg_commands := rest,
       rg_status := begin_ask prompt now (rg_status a)\<rparr>)"
| Progress: "rg_task a = In_Turn seq \<Longrightarrow>
    agent_step a (a\<lparr>rg_status := (rg_status a)\<lparr>as_live := apply_progress seq e (as_live (rg_status a))\<rparr>\<rparr>)"
| Asks_Owner: "rg_task a = In_Turn seq \<Longrightarrow> gt_waiting (rg_gate a) = None \<Longrightarrow> \<not> gt_closed (rg_gate a) \<Longrightarrow>
    agent_step a (a\<lparr>rg_gate := gate_request r (rg_gate a)\<rparr>)"
| Hears_Owner: "rg_task a = In_Turn seq \<Longrightarrow> agent_step a (a\<lparr>rg_gate := gate_resume (rg_gate a)\<rparr>)"
| Approval_Expires: "rg_task a = In_Turn seq \<Longrightarrow> agent_step a (a\<lparr>rg_gate := gate_expire (rg_gate a)\<rparr>)"
| Turn_Ends: "rg_task a = In_Turn seq \<Longrightarrow> gt_waiting (rg_gate a) = None \<Longrightarrow>
    agent_step a (a\<lparr>rg_task := Idle, rg_status := end_ask seq result now (rg_status a)\<rparr>)"
| Takes_Stop: "rg_task a = Idle \<Longrightarrow> rg_commands a = Stop_Command # rest \<Longrightarrow>
    agent_step a (a\<lparr>rg_task := Task_Ended, rg_commands := rest, rg_gate := gate_clear (rg_gate a),
       rg_status := task_end (Inr ()) (rg_status a)\<rparr>)"

section \<open>The operations of the interface\<close>

record agent_controller =
  ac_inner :: "running_agent option"
  ac_access :: access_level

definition new_controller :: agent_controller where
  "new_controller = \<lparr>ac_inner = None, ac_access = Ask_Level\<rparr>"

definition agent_snapshot :: "string option \<Rightarrow> agent_controller \<Rightarrow> agent_status" where
  "agent_snapshot program c = (case ac_inner c of
     None \<Rightarrow> (stopped_status program)\<lparr>as_access_level := level_token (ac_access c)\<rparr>
   | Some a \<Rightarrow> (let pending = map_option pa_request (gt_slot (rg_gate a)) in
       (rg_status a)\<lparr>as_pending_approval := pending,
          as_phase := (if pending \<noteq> None \<and> as_phase (rg_status a) = ''running'' then ''awaiting_approval'' else as_phase (rg_status a))\<rparr>))"

definition new_agent :: "string option \<Rightarrow> access_level \<Rightarrow> running_agent" where
  "new_agent program level = \<lparr>rg_commands = [], rg_gate = new_gate, rg_status = status_of ''starting'' program (level_token level),
     rg_level = level, rg_task = Launching\<rparr>"

definition agent_start :: "agent_ready \<Rightarrow> string option \<Rightarrow> agent_controller \<Rightarrow> agent_status result \<times> agent_controller" where
  "agent_start ready program c =
     (if \<not> ay_ready ready then (Inl (Bail ''agent is not ready''), c)
      else (case ac_inner c of
        Some a \<Rightarrow> (Inr (rg_status a), c)
      | None \<Rightarrow> (let c = c\<lparr>ac_inner := Some (new_agent (ay_program ready) (ac_access c))\<rparr> in (Inr (agent_snapshot program c), c))))"

definition agent_ask :: "string option \<Rightarrow> string \<Rightarrow> agent_controller \<Rightarrow> agent_status result \<times> agent_controller" where
  "agent_ask program prompt c =
     (if blank prompt then (Inl (Bail ''the prompt must not be empty''), c)
      else (case ac_inner c of
        None \<Rightarrow> (Inl (Bail ''the session is not started''), c)
      | Some a \<Rightarrow>
          if as_phase (rg_status a) = ''running'' \<or> as_phase (rg_status a) = ''awaiting_approval''
          then (Inl (Bail ''the previous turn has not ended''), c)
          else if as_phase (rg_status a) = ''starting'' then (Inl (Bail ''the runtime is not ready''), c)
          else if rg_task a = Task_Ended \<or> command_capacity \<le> length (rg_commands a)
          then (Inl (Bail ''the session has stopped''), c)
          else (let c = c\<lparr>ac_inner := Some (a\<lparr>rg_commands := rg_commands a @ [Ask_Command prompt]\<rparr>)\<rparr>
                in (Inr (agent_snapshot program c), c))))"

definition agent_set_level :: "string option \<Rightarrow> access_level \<Rightarrow> agent_controller \<Rightarrow> agent_status result \<times> agent_controller" where
  "agent_set_level program level c =
     (if is_some_and (ac_inner c) (\<lambda>a. rg_level a \<noteq> level) then (Inl (Bail ''stop the session before changing the level''), c)
      else (let c = c\<lparr>ac_access := level\<rparr> in (Inr (agent_snapshot program c), c)))"

definition agent_decide :: "string option \<Rightarrow> int \<Rightarrow> string \<Rightarrow> agent_controller \<Rightarrow> agent_status result \<times> agent_controller" where
  "agent_decide program i token c = (case parse_decision token of
     Inl e \<Rightarrow> (Inl e, c)
   | Inr v \<Rightarrow> (case ac_inner c of
       None \<Rightarrow> (Inl (Bail ''the session is not started''), c)
     | Some a \<Rightarrow> (let (r, g) = owner_decides i v (rg_gate a); c = c\<lparr>ac_inner := Some (a\<lparr>rg_gate := g\<rparr>)\<rparr>
         in (case r of Inl e \<Rightarrow> (Inl e, c) | Inr _ \<Rightarrow> (Inr (agent_snapshot program c), c)))))"

text \<open>\<open>stop\<close>: the controller forgets the session at once and waits 20 seconds at most for its task.\<close>

definition agent_stop :: "string option \<Rightarrow> agent_controller \<Rightarrow> agent_status \<times> agent_controller \<times> running_agent option" where
  "agent_stop program c = (case ac_inner c of
     None \<Rightarrow> (stopped_status program, c, None)
   | Some a \<Rightarrow> (stopped_status program, c\<lparr>ac_inner := None\<rparr>,
       Some (if rg_task a = Task_Ended then a else a\<lparr>rg_commands := rg_commands a @ [Stop_Command]\<rparr>)))"

section \<open>The sessions that occur\<close>

inductive controller_reach :: "agent_controller \<Rightarrow> bool" where
  Fresh: "controller_reach new_controller"
| Start: "controller_reach c \<Longrightarrow> controller_reach (snd (agent_start ready program c))"
| Ask: "controller_reach c \<Longrightarrow> controller_reach (snd (agent_ask program prompt c))"
| Set_Level: "controller_reach c \<Longrightarrow> controller_reach (snd (agent_set_level program level c))"
| Decide: "controller_reach c \<Longrightarrow> controller_reach (snd (agent_decide program i token c))"
| Stop: "controller_reach c \<Longrightarrow> controller_reach (fst (snd (agent_stop program c)))"
| Task: "controller_reach c \<Longrightarrow> ac_inner c = Some a \<Longrightarrow> agent_step a a' \<Longrightarrow> controller_reach (c\<lparr>ac_inner := Some a'\<rparr>)"

inductive_cases agent_stepE: "agent_step a a'"

definition task_ok :: "running_agent \<Rightarrow> bool" where
  "task_ok a \<longleftrightarrow> (let st = rg_status a in case rg_task a of
     Launching \<Rightarrow> as_phase st = ''starting'' \<and> as_turns st = [] \<and> as_live st = None \<and> gt_waiting (rg_gate a) = None
   | Idle \<Rightarrow> as_phase st = ''ready'' \<and> as_live st = None \<and> gt_waiting (rg_gate a) = None
   | In_Turn k \<Rightarrow> as_phase st = ''running'' \<and> length (as_turns st) = Suc k \<and> map_option al_turn_seq (as_live st) = Some k
   | Task_Ended \<Rightarrow> as_phase st \<in> {''error'', ''stopped''} \<and> as_live st = None \<and> gt_waiting (rg_gate a) = None)"

definition turns_ok :: "running_agent \<Rightarrow> bool" where
  "turns_ok a \<longleftrightarrow> map tw_seq (as_turns (rg_status a)) = [0 ..< length (as_turns (rg_status a))]
     \<and> (\<forall>t \<in> set (as_turns (rg_status a)). tw_finished_at_ms t = None \<longleftrightarrow> rg_task a = In_Turn (tw_seq t))"

definition agent_inv :: "running_agent \<Rightarrow> bool" where
  "agent_inv a \<longleftrightarrow> task_ok a \<and> turns_ok a \<and> gate_inv (rg_gate a) \<and> gt_deciding (rg_gate a) = None
     \<and> as_access_level (rg_status a) = level_token (rg_level a)"

lemma new_agent_inv: "agent_inv (new_agent program level)"
  by (simp add: agent_inv_def task_ok_def turns_ok_def new_agent_def status_of_def new_gate_inv) (simp add: new_gate_def)

lemma new_agent_level [simp]: "rg_level (new_agent program level) = level"
  by (simp add: new_agent_def)

lemma gate_keeps_deciding [simp]:
  "gt_deciding (gate_request r g) = gt_deciding g" "gt_deciding (gate_resume g) = gt_deciding g"
  "gt_deciding (gate_expire g) = gt_deciding g" "gt_deciding (gate_clear g) = gt_deciding g"
  by (auto simp: gate_request_def gate_resume_def gate_expire_def gate_clear_def split: option.splits prod.splits)

lemma gate_clear_idle: "gt_waiting g = None \<Longrightarrow> gate_clear g = g\<lparr>gt_slot := None, gt_closed := True\<rparr>"
  by (auto simp: gate_clear_def split: option.splits)

lemma clear_idle_inv: "gate_inv g \<Longrightarrow> gt_waiting g = None \<Longrightarrow> gate_inv (g\<lparr>gt_slot := None, gt_closed := True\<rparr>)"
  using clear_inv[of g] by (simp add: gate_clear_idle)

lemma owner_decides_inv:
  assumes "gate_inv g" "gt_deciding g = None"
  shows "gate_inv (snd (owner_decides i v g)) \<and> gt_deciding (snd (owner_decides i v g)) = None
    \<and> gt_waiting (snd (owner_decides i v g)) = gt_waiting g"
proof (cases "owner_marks i v g")
  case (Pair r h)
  have h: "gate_inv h" using marks_inv[OF assms, of i v] Pair by simp
  show ?thesis
  proof (cases r)
    case (Inl e)
    then have "h = g" using Pair by (auto simp: owner_marks_def split: option.splits if_splits sum.splits)
    then show ?thesis using assms Pair Inl by (simp add: owner_decides_def)
  next
    case (Inr u)
    then have d: "gt_deciding h = Some (i, v)" "gt_waiting h = gt_waiting g"
      using Pair by (auto simp: owner_marks_def split: option.splits if_splits sum.splits)
    then show ?thesis using sends_inv[OF h d(1)] Pair Inr
      by (auto simp: owner_decides_def owner_sends_def split: option.splits)
  qed
qed

lemma turn_result_seq [simp]: "tw_seq (turn_result_view steps result now t) = tw_seq t"
  by (cases result) (simp_all add: turn_result_view_def)

lemma turn_result_finished [simp]: "tw_finished_at_ms (turn_result_view steps result now t) = Some now"
  by (cases result) (simp_all add: turn_result_view_def)

lemma end_ask_seqs: "map tw_seq (as_turns (end_ask k result now st)) = map tw_seq (as_turns st)"
  by (simp add: end_ask_def Let_def map_update_first)

lemma end_ask_turns:
  assumes "distinct (map tw_seq ts)" "t \<in> set (update_first (\<lambda>t. tw_seq t = k) f ts)" "\<And>t. tw_seq (f t) = tw_seq t"
  shows "(t \<in> set ts \<and> tw_seq t \<noteq> k) \<or> (\<exists>u \<in> set ts. tw_seq u = k \<and> t = f u)"
  using assms by (induction ts) (auto simp: image_iff split: if_splits)

lemma end_ask_finished:
  assumes "distinct (map tw_seq (as_turns st))" "\<forall>t \<in> set (as_turns st). tw_seq t \<noteq> k \<longrightarrow> tw_finished_at_ms t \<noteq> None"
  shows "\<forall>t \<in> set (as_turns (end_ask k result now st)). tw_finished_at_ms t \<noteq> None"
proof
  fix t assume t: "t \<in> set (as_turns (end_ask k result now st))"
  define f where "f = turn_result_view (case as_live st of None \<Rightarrow> [] | Some v \<Rightarrow> al_items v) result now"
  have "t \<in> set (update_first (\<lambda>t. tw_seq t = k) f (as_turns st))" using t by (simp add: end_ask_def Let_def f_def)
  from end_ask_turns[OF assms(1) this] have "(t \<in> set (as_turns st) \<and> tw_seq t \<noteq> k) \<or> (\<exists>u. t = f u)"
    by (auto simp: f_def)
  then show "tw_finished_at_ms t \<noteq> None" using assms(2) by (auto simp: f_def)
qed

lemma seq_less: "map tw_seq ts = [0 ..< n] \<Longrightarrow> t \<in> set ts \<Longrightarrow> tw_seq t < n"
proof -
  assume "map tw_seq ts = [0 ..< n]" "t \<in> set ts"
  then have "tw_seq t \<in> set [0 ..< n]" by (metis image_eqI set_map)
  then show ?thesis by simp
qed

lemma begin_ask_inv:
  assumes "agent_inv a" "rg_task a = Idle"
  shows "agent_inv (a\<lparr>rg_task := In_Turn (length (as_turns (rg_status a))), rg_commands := rest,
    rg_status := begin_ask prompt now (rg_status a)\<rparr>)"
proof -
  have seqs: "map tw_seq (as_turns (rg_status a)) = [0 ..< length (as_turns (rg_status a))]"
    "\<forall>t \<in> set (as_turns (rg_status a)). tw_finished_at_ms t \<noteq> None"
    using assms by (auto simp: agent_inv_def turns_ok_def)
  moreover have "\<forall>t \<in> set (as_turns (rg_status a)). tw_seq t \<noteq> length (as_turns (rg_status a))"
    using seq_less[OF seqs(1)] by (metis less_irrefl)
  ultimately show ?thesis using assms
    by (simp add: agent_inv_def task_ok_def turns_ok_def begin_ask_def new_turn_view_def new_live_def Let_def) auto
qed

lemma agent_step_inv:
  assumes "agent_step a a'" "agent_inv a"
  shows "agent_inv a' \<and> rg_level a' = rg_level a"
  using assms
proof (cases rule: agent_step.cases)
  case (Takes_Ask prompt rest now)
  then show ?thesis using begin_ask_inv[OF assms(2)] by simp
next
  case (Progress seq e)
  then obtain v where "as_live (rg_status a) = Some v" "al_turn_seq v = seq"
    using assms(2) by (auto simp: agent_inv_def task_ok_def Let_def)
  then show ?thesis using assms(2) Progress
    by (auto simp: agent_inv_def task_ok_def turns_ok_def apply_progress_def Let_def)
next
  case (Turn_Ends seq result now)
  let ?st = "end_ask seq result now (rg_status a)"
  have "distinct (map tw_seq (as_turns (rg_status a)))" using assms(2) by (simp add: agent_inv_def turns_ok_def)
  moreover have "\<forall>t \<in> set (as_turns (rg_status a)). tw_seq t \<noteq> seq \<longrightarrow> tw_finished_at_ms t \<noteq> None"
    using assms(2) Turn_Ends(2) by (auto simp: agent_inv_def turns_ok_def)
  ultimately have finished: "\<forall>t \<in> set (as_turns ?st). tw_finished_at_ms t \<noteq> None" by (rule end_ask_finished)
  have "map tw_seq (as_turns ?st) = map tw_seq (as_turns (rg_status a))" by (rule end_ask_seqs)
  moreover have "length (as_turns ?st) = length (as_turns (rg_status a))" "as_live ?st = None" "as_phase ?st = ''ready''"
    "as_access_level ?st = as_access_level (rg_status a)"
    by (simp_all add: end_ask_def Let_def)
  ultimately show ?thesis using assms(2) Turn_Ends finished
    by (simp add: agent_inv_def task_ok_def turns_ok_def Let_def)
qed (auto simp: agent_inv_def task_ok_def turns_ok_def task_end_def agent_started_def gate_clear_idle Let_def
  intro: request_inv resume_inv expire_inv clear_idle_inv)

lemma controller_inv: "controller_reach c \<Longrightarrow> ac_inner c = Some a \<Longrightarrow> agent_inv a \<and> rg_level a = ac_access c"
proof (induction c arbitrary: a rule: controller_reach.induct)
  case (Start c ready program)
  then show ?case
    by (auto simp: agent_start_def Let_def new_agent_inv split: if_splits option.splits)
next
  case (Decide c program i token)
  then show ?case
  proof (cases "ac_inner c")
    case (Some b)
    then have b: "agent_inv b" "rg_level b = ac_access c" using Decide.IH by blast+
    then have "agent_inv (b\<lparr>rg_gate := snd (owner_decides i v (rg_gate b))\<rparr>)" for v
      using owner_decides_inv[of "rg_gate b" i v] by (cases "rg_task b") (auto simp: agent_inv_def task_ok_def turns_ok_def)
    then show ?thesis using Decide.prems Some b
      by (auto simp: agent_decide_def Let_def split_beta split: sum.splits)
  qed (auto simp: agent_decide_def split: sum.splits)
next
  case (Ask c program prompt)
  have keep: "agent_inv (b\<lparr>rg_commands := q\<rparr>) = agent_inv b" for b q
    by (cases "rg_task b") (simp_all add: agent_inv_def task_ok_def turns_ok_def)
  show ?case using Ask.prems Ask.IH by (auto simp: agent_ask_def Let_def keep split: if_splits option.splits)
qed (auto simp: new_controller_def agent_set_level_def agent_stop_def Let_def dest: agent_step_inv split: if_splits option.splits)


definition ready_now :: agent_ready where
  "ready_now = \<lparr>ay_ready = True, ay_program = Some ''codex'', ay_trace_dir = None, ay_sandbox = [], ay_instructions = None,
     ay_skill_roots = [], ay_write_roots = [], ay_access_level = ''ask'', ay_reason = None\<rparr>"

definition sample_controller :: agent_controller where
  "sample_controller = snd (agent_start ready_now None new_controller)"

definition idle_agent :: running_agent where
  "idle_agent = (new_agent (Some ''codex'') Ask_Level)\<lparr>rg_task := Idle,
     rg_status := agent_started ''t'' None [] (rg_status (new_agent (Some ''codex'') Ask_Level))\<rparr>"

lemma sample_controller_eq: "sample_controller = \<lparr>ac_inner = Some (new_agent (Some ''codex'') Ask_Level), ac_access = Ask_Level\<rparr>"
  by (simp add: sample_controller_def agent_start_def ready_now_def new_controller_def Let_def)

lemma idle_reach: "controller_reach \<lparr>ac_inner = Some idle_agent, ac_access = Ask_Level\<rparr>"
proof -
  have start: "controller_reach sample_controller" unfolding sample_controller_def by (rule Start[OF Fresh])
  have "agent_step (new_agent (Some ''codex'') Ask_Level) idle_agent"
    unfolding idle_agent_def by (rule Launched) (simp add: new_agent_def)
  from Task[OF start _ this] show ?thesis by (simp add: sample_controller_eq)
qed

definition asking_agent :: running_agent where
  "asking_agent = idle_agent\<lparr>rg_task := In_Turn 0, rg_status := begin_ask ''p'' 5 (rg_status idle_agent),
     rg_gate := gate_request (sample_request 7) new_gate\<rparr>"

lemma asking_reach: "controller_reach \<lparr>ac_inner = Some asking_agent, ac_access = Ask_Level\<rparr>"
proof -
  let ?queued = "idle_agent\<lparr>rg_commands := [Ask_Command ''p'']\<rparr>"
  let ?turn = "idle_agent\<lparr>rg_task := In_Turn 0, rg_status := begin_ask ''p'' 5 (rg_status idle_agent)\<rparr>"
  have "snd (agent_ask None ''p'' \<lparr>ac_inner = Some idle_agent, ac_access = Ask_Level\<rparr>) = \<lparr>ac_inner = Some ?queued, ac_access = Ask_Level\<rparr>"
    by (simp add: agent_ask_def idle_agent_def new_agent_def agent_started_def status_of_def command_capacity_def blank_def
      trim_def trim_start_def is_whitespace_def Let_def)
  then have queued: "controller_reach \<lparr>ac_inner = Some ?queued, ac_access = Ask_Level\<rparr>"
    using controller_reach.Ask[OF idle_reach, of None "''p''"] by simp
  have "agent_step ?queued ?turn"
    using Takes_Ask[of ?queued "''p''" "[]" 5]
    by (simp add: idle_agent_def new_agent_def agent_started_def status_of_def)
  from Task[OF queued _ this] have turn: "controller_reach \<lparr>ac_inner = Some ?turn, ac_access = Ask_Level\<rparr>" by simp
  have "agent_step ?turn asking_agent"
    using Asks_Owner[of ?turn 0 "sample_request 7"]
    by (simp add: asking_agent_def idle_agent_def new_agent_def new_gate_def)
  from Task[OF turn _ this] show ?thesis by simp
qed


section \<open>Stopping\<close>

text \<open>
  Only the end of the turn takes a task out of it, so a stop that comes during a turn is heard after it.
\<close>

lemma turn_not_interrupted:
  assumes "agent_step a a'" "rg_task a = In_Turn k"
  shows "rg_task a' = In_Turn k \<or> (rg_task a' = Idle \<and> gt_waiting (rg_gate a) = None)"
  using assms by (cases rule: agent_step.cases) auto

text \<open>Stopping does not stop a turn: the controller reports the session stopped and starts a second one
  while the task of the first is still inside its turn, and the approval it waits for is neither answered nor
  taken out of its slot.\<close>

theorem stop_leaves_turn_running:
  assumes "ac_inner c = Some a" "rg_task a = In_Turn k" "ay_ready ready"
  shows "let (st, c', left) = agent_stop program c; (r, c'') = agent_start ready program c' in
     as_phase st = ''stopped'' \<and> is_ok r \<and> map_option rg_task (ac_inner c'') = Some Launching
     \<and> (case left of None \<Rightarrow> False | Some b \<Rightarrow> rg_task b = In_Turn k \<and> rg_gate b = rg_gate a
          \<and> last (rg_commands b) = Stop_Command)"
  using assms by (simp add: agent_stop_def agent_start_def stopped_status_def status_of_def Let_def new_agent_def is_ok_def)

lemma stop_leaves_turn_running_witness:
  "as_phase (fst (agent_stop None \<lparr>ac_inner = Some (idle_agent\<lparr>rg_task := In_Turn 0\<rparr>), ac_access = Ask_Level\<rparr>)) = ''stopped''"
  using stop_leaves_turn_running[of "\<lparr>ac_inner = Some (idle_agent\<lparr>rg_task := In_Turn 0\<rparr>), ac_access = Ask_Level\<rparr>"
    "idle_agent\<lparr>rg_task := In_Turn 0\<rparr>" 0 ready_now None]
  by (simp add: ready_now_def split_beta Let_def)

text \<open>A session whose launch failed is never replaced by a start, and takes no prompt.\<close>

lemma failed_launch_blocks_start:
  assumes "ac_inner c = Some a" "rg_task a = Task_Ended" "as_phase (rg_status a) = ''error''" "ay_ready ready" "\<not> blank prompt"
  shows "agent_start ready program c = (Inr (rg_status a), c)
    \<and> agent_ask program prompt c = (Inl (Bail ''the session has stopped''), c)"
  using assms by (simp add: agent_start_def agent_ask_def)

text \<open>The check that a turn is running looks at the status, which changes only when the task takes the prompt.\<close>

lemma quick_asks_queue:
  assumes "ac_inner c = Some a" "rg_task a = Idle" "as_phase (rg_status a) = ''ready''" "rg_commands a = []" "\<not> blank p" "\<not> blank q"
  shows "map_option rg_commands (ac_inner (snd (agent_ask program q (snd (agent_ask program p c))))) = Some [Ask_Command p, Ask_Command q]"
  using assms by (simp add: agent_ask_def Let_def command_capacity_def)

text \<open>The document may be found from the executable, but the project root is looked for from the working directory only.\<close>

lemma executable_root_not_used:
  assumes "he_program e \<noteq> None" "is_ok (domain_instructions e)" "Option.bind (he_cwd e) (project_root_from (he_fs e)) = None"
  shows "readiness_reason e = Some No_Trace_Dir"
  using assms by (simp add: readiness_reason_def trace_dir_def host_project_root_def)

end
