(* ===== verification/Observation_Session.thy ===== *)
theory Observation_Session
  imports Paths
begin

text \<open>
  The continuous observation of the desktop application: \<open>SessionController\<close> of \<open>commands/session.rs\<close>, the saved
  configuration of \<open>commands/settings.rs\<close> and what \<open>lib.rs\<close> does with both at start and exit. A task of the
  runtime is an entry of a list; the handles a session shares with its task (progress, the finished flag, the
  error) are fields of that entry. When a task reports or ends is an input.
\<close>

section \<open>State\<close>

record observer_task =
  ot_told_to_stop :: bool
  ot_progress :: "(u64 \<times> json) option"
  ot_finished :: bool
  ot_error :: "string option"
  ot_exit_on_failure :: bool

record running_session =
  rs_task :: nat
  rs_archive_path :: path
  rs_gap_path :: path
  rs_started_at_ms :: u64

record session_controller =
  sc_inner :: "running_session option"
  sc_tasks :: "observer_task list"
  sc_exit :: "int option" \<comment> \<open>the exit code asked for first\<close>

definition new_sessions :: session_controller where
  "new_sessions = \<lparr>sc_inner = None, sc_tasks = [], sc_exit = None\<rparr>"

record continuous_status =
  cs_running :: bool
  cs_archive_path :: "path option"
  cs_gap_path :: "path option"
  cs_started_at_ms :: "u64 option"
  cs_last_report :: "(u64 \<times> json) option"
  cs_error :: "string option"

text \<open>\<open>default_gap_path\<close>: beside the archive, its name with a suffix.\<close>

definition default_gap_path :: "path \<Rightarrow> path" where
  "default_gap_path p =
     (let name = (if p \<noteq> [] then (case last p of Normal s \<Rightarrow> Some s | _ \<Rightarrow> None) else None);
          gap = Normal (str_or_empty (case name of None \<Rightarrow> Some ''archive'' | Some s \<Rightarrow> Some s) @ ''.gaps.ndjson'')
      in if name = None then p @ [gap] else butlast p @ [gap])"

definition session_status :: "session_controller \<Rightarrow> continuous_status" where
  "session_status c = (case sc_inner c of
     None \<Rightarrow> \<lparr>cs_running = False, cs_archive_path = None, cs_gap_path = None, cs_started_at_ms = None, cs_last_report = None, cs_error = None\<rparr>
   | Some s \<Rightarrow> (let t = sc_tasks c ! rs_task s in
       \<lparr>cs_running = (\<not> ot_finished t), cs_archive_path = Some (rs_archive_path s), cs_gap_path = Some (rs_gap_path s),
        cs_started_at_ms = Some (rs_started_at_ms s), cs_last_report = ot_progress t, cs_error = ot_error t\<rparr>))"

section \<open>Operations\<close>

definition new_task :: "bool \<Rightarrow> observer_task" where
  "new_task exit_on_failure = \<lparr>ot_told_to_stop = False, ot_progress = None, ot_finished = False, ot_error = None,
     ot_exit_on_failure = exit_on_failure\<rparr>"

text \<open>\<open>SessionController::start\<close>; \<open>config\<close> is the loaded configuration's archive path.\<close>

definition session_start :: "path result \<Rightarrow> path option \<Rightarrow> bool \<Rightarrow> u64 \<Rightarrow> session_controller \<Rightarrow> continuous_status result \<times> session_controller" where
  "session_start config archive_override exit_on_failure now c =
     (if sc_inner c \<noteq> None then (Inl (Bail ''continuous observation is already running''), c)
      else (case config of
        Inl e \<Rightarrow> (Inl e, c)
      | Inr configured \<Rightarrow>
          (let archive = (case archive_override of None \<Rightarrow> configured | Some p \<Rightarrow> p);
               c = c\<lparr>sc_tasks := sc_tasks c @ [new_task exit_on_failure],
                     sc_inner := Some \<lparr>rs_task = length (sc_tasks c), rs_archive_path = archive,
                       rs_gap_path = default_gap_path archive, rs_started_at_ms = now\<rparr>\<rparr>
           in (Inr (session_status c), c))))"

text \<open>\<open>SessionController::stop\<close> up to its wait: the session is forgotten and its task told to stop.\<close>

definition stop_begins :: "session_controller \<Rightarrow> nat option \<times> session_controller" where
  "stop_begins c = (case sc_inner c of
     None \<Rightarrow> (None, c)
   | Some s \<Rightarrow> (Some (rs_task s), c\<lparr>sc_inner := None, sc_tasks := (sc_tasks c)[rs_task s := (sc_tasks c ! rs_task s)\<lparr>ot_told_to_stop := True\<rparr>]\<rparr>))"

datatype task_wait = Task_Returned "string + unit" | Task_Panicked | Wait_Timed_Out

text \<open>After its wait: the answer, with the status of that moment.\<close>

definition stop_ends :: "task_wait \<Rightarrow> session_controller \<Rightarrow> continuous_status result" where
  "stop_ends w c = (case w of
     Task_Returned (Inr _) \<Rightarrow> Inr (session_status c)
   | Task_Returned (Inl _) \<Rightarrow> Inl (Bail ''continuous observation task failed'')
   | Task_Panicked \<Rightarrow> Inl (Bail ''continuous observation task panicked'')
   | Wait_Timed_Out \<Rightarrow> Inl (Bail ''timed out waiting for continuous observation to stop''))"

text \<open>What a task does: it reports, and it ends; a failure of the supervised one asks the application to exit.\<close>

definition on_task :: "nat \<Rightarrow> (observer_task \<Rightarrow> observer_task) \<Rightarrow> session_controller \<Rightarrow> session_controller" where
  "on_task i f c = (if i < length (sc_tasks c) then c\<lparr>sc_tasks := (sc_tasks c)[i := f (sc_tasks c ! i)]\<rparr> else c)"

definition task_reports :: "nat \<Rightarrow> u64 \<Rightarrow> json \<Rightarrow> session_controller \<Rightarrow> session_controller" where
  "task_reports i now report = on_task i (\<lambda>t. t\<lparr>ot_progress := Some (now, report)\<rparr>)"

definition task_ends :: "nat \<Rightarrow> string + unit \<Rightarrow> session_controller \<Rightarrow> session_controller" where
  "task_ends i r c =
     (let c = on_task i (\<lambda>t. t\<lparr>ot_error := (case r of Inl e \<Rightarrow> Some e | Inr _ \<Rightarrow> None), ot_finished := True\<rparr>) c
      in if i < length (sc_tasks c) \<and> ot_exit_on_failure (sc_tasks c ! i) \<and> \<not> is_ok r \<and> sc_exit c = None
         then c\<lparr>sc_exit := Some 1\<rparr> else c)"

text \<open>The command, which looks at the status first.\<close>

definition start_command :: "path result \<Rightarrow> path option \<Rightarrow> u64 \<Rightarrow> session_controller \<Rightarrow> continuous_status result \<times> session_controller" where
  "start_command config archive now c =
     (if cs_running (session_status c) then (Inl (Bail ''continuous observation is already running''), c)
      else session_start config archive False now c)"

section \<open>Saved configuration\<close>

record app_config =
  ap_database_url :: string
  ap_binance_api_key :: string
  ap_binance_api_secret :: string
  ap_bybit_api_key :: string
  ap_bybit_api_secret :: string

definition env_or_empty :: "(string \<Rightarrow> string option) \<Rightarrow> string \<Rightarrow> string" where
  "env_or_empty env name = str_or_empty (env name)"

definition non_empty_or :: "string \<Rightarrow> string \<Rightarrow> string" where
  "non_empty_or saved current = (if saved \<noteq> [] then saved else current)"

definition load_app_config_file :: "(string \<Rightarrow> string option) \<Rightarrow> app_config option \<Rightarrow> app_config" where
  "load_app_config_file env saved =
     (let config = \<lparr>ap_database_url = env_or_empty env ''TAOLI_DATABASE_URL'', ap_binance_api_key = env_or_empty env ''TAOLI_BINANCE_API_KEY'',
            ap_binance_api_secret = env_or_empty env ''TAOLI_BINANCE_API_SECRET'', ap_bybit_api_key = env_or_empty env ''TAOLI_BYBIT_API_KEY'',
            ap_bybit_api_secret = env_or_empty env ''TAOLI_BYBIT_API_SECRET''\<rparr>
      in case saved of
           None \<Rightarrow> config
         | Some s \<Rightarrow> \<lparr>ap_database_url = non_empty_or (ap_database_url s) (ap_database_url config),
             ap_binance_api_key = non_empty_or (ap_binance_api_key s) (ap_binance_api_key config),
             ap_binance_api_secret = non_empty_or (ap_binance_api_secret s) (ap_binance_api_secret config),
             ap_bybit_api_key = non_empty_or (ap_bybit_api_key s) (ap_bybit_api_key config),
             ap_bybit_api_secret = non_empty_or (ap_bybit_api_secret s) (ap_bybit_api_secret config)\<rparr>)"

definition config_variables :: "app_config \<Rightarrow> (string \<times> string) list" where
  "config_variables c = [(''TAOLI_DATABASE_URL'', ap_database_url c), (''TAOLI_BINANCE_API_KEY'', ap_binance_api_key c),
     (''TAOLI_BINANCE_API_SECRET'', ap_binance_api_secret c), (''TAOLI_BYBIT_API_KEY'', ap_bybit_api_key c),
     (''TAOLI_BYBIT_API_SECRET'', ap_bybit_api_secret c)]"

text \<open>\<open>load_saved_env_config\<close>: the variables after the injection.\<close>

definition inject_config :: "app_config \<Rightarrow> (string \<Rightarrow> string option) \<Rightarrow> string \<Rightarrow> string option" where
  "inject_config c env = fold (\<lambda>(name, value) e. if value \<noteq> [] then e(name \<mapsto> value) else e) (config_variables c) env"

text \<open>A saved value that is not empty wins, else the variable stays what it was, and no other variable changes.\<close>

lemma merged_variables:
  "config_variables (load_app_config_file env (Some s)) = map (\<lambda>(n, v). (n, non_empty_or v (env_or_empty env n))) (config_variables s)"
  by (simp add: config_variables_def load_app_config_file_def Let_def)

lemma inject_fold:
  "distinct (map fst xs) \<Longrightarrow> fold (\<lambda>(name, value) e. if value \<noteq> [] then e(name \<mapsto> value) else e) xs env k =
     (case map_of xs k of None \<Rightarrow> env k | Some v \<Rightarrow> if v \<noteq> [] then Some v else env k)"
proof (induction xs arbitrary: env)
  case (Cons x xs)
  obtain n v where x: "x = (n, v)" by (cases x)
  then have "map_of xs n = None" using Cons.prems by (auto simp: map_of_eq_None_iff)
  then show ?case using Cons x by (auto split: option.split)
qed simp

lemma injected_variables:
  "inject_config (load_app_config_file env (Some s)) env name = (case map_of (config_variables s) name of
     None \<Rightarrow> env name | Some v \<Rightarrow> if v \<noteq> [] then Some v else env name)"
proof -
  have "distinct (map fst (map (\<lambda>(n, v). (n, non_empty_or v (env_or_empty env n))) (config_variables s)))"
    by (simp add: config_variables_def)
  moreover have "map_of (map (\<lambda>(n, v). (n, f n v)) xs) k = map_option (f k) (map_of xs k)" for f :: "string \<Rightarrow> string \<Rightarrow> string" and xs k
    by (induction xs) auto
  ultimately show ?thesis
    unfolding inject_config_def merged_variables
    by (subst inject_fold) (auto simp: non_empty_or_def env_or_empty_def str_or_empty_def split: option.split)
qed

section \<open>Exit\<close>

text \<open>The exit is asked for again after the flush; only the first request is held back.\<close>

definition exit_requested :: "bool \<Rightarrow> session_controller \<Rightarrow> bool \<times> nat option \<times> session_controller" where
  "exit_requested flush_started c = (if flush_started then (True, None, c) else (let (i, c) = stop_begins c in (False, i, c)))"

section \<open>One observer\<close>

inductive session_reach :: "session_controller \<Rightarrow> bool" where
  Fresh_Sessions: "session_reach new_sessions"
| Session_Start: "session_reach c \<Longrightarrow> session_reach (snd (session_start config archive supervised now c))"
| Session_Stop: "session_reach c \<Longrightarrow> session_reach (snd (stop_begins c))"
| Task_Reports: "session_reach c \<Longrightarrow> session_reach (task_reports i now v c)"
| Task_Ends: "session_reach c \<Longrightarrow> session_reach (task_ends i r c)"

definition sessions_inv :: "session_controller \<Rightarrow> bool" where
  "sessions_inv c \<longleftrightarrow> (case sc_inner c of None \<Rightarrow> True | Some s \<Rightarrow> rs_task s < length (sc_tasks c))
     \<and> (\<forall>i < length (sc_tasks c). map_option rs_task (sc_inner c) \<noteq> Some i \<longrightarrow> ot_told_to_stop (sc_tasks c ! i))"

lemma sessions_inv_exit [simp]: "sessions_inv (c\<lparr>sc_exit := e\<rparr>) = sessions_inv c"
  by (cases "sc_inner c") (simp_all add: sessions_inv_def)

lemma on_task_inv:
  "sessions_inv c \<Longrightarrow> (\<And>t. ot_told_to_stop (f t) = ot_told_to_stop t) \<Longrightarrow> sessions_inv (on_task i f c)"
  by (auto simp: sessions_inv_def on_task_def nth_list_update split: option.splits)

lemma session_reach_inv: "session_reach c \<Longrightarrow> sessions_inv c"
proof (induction rule: session_reach.induct)
  case (Session_Start c config archive supervised now)
  then show ?case
    by (auto simp: session_start_def sessions_inv_def Let_def nth_append less_Suc_eq split: sum.splits option.splits)
next
  case (Session_Stop c)
  then show ?case
    by (auto simp: stop_begins_def sessions_inv_def nth_list_update split: option.splits)
next
  case (Task_Ends c i r)
  then have "sessions_inv (on_task i (\<lambda>t. t\<lparr>ot_error := (case r of Inl e \<Rightarrow> Some e | Inr _ \<Rightarrow> None), ot_finished := True\<rparr>) c)"
    by (intro on_task_inv) simp_all
  then show ?case by (simp add: task_ends_def Let_def)
next
  case (Task_Reports c i now v)
  then show ?case by (simp add: task_reports_def on_task_inv)
qed (simp add: sessions_inv_def new_sessions_def)

text \<open>C37. At most one observer is meant to run: whatever starts, stops, reports and failures there were, at most
  one of the unfinished tasks has not been told to stop, it is the one the controller holds, and the status
  says it runs exactly while it is unfinished.\<close>

theorem one_observer_wanted:
  assumes "session_reach c" "i < length (sc_tasks c)" "\<not> ot_told_to_stop (sc_tasks c ! i)"
  shows "map_option rs_task (sc_inner c) = Some i \<and> (cs_running (session_status c) \<longleftrightarrow> \<not> ot_finished (sc_tasks c ! i))"
  using session_reach_inv[OF assms(1)] assms(2,3)
  by (auto simp: sessions_inv_def session_status_def Let_def split: option.splits)

definition started_sessions :: session_controller where
  "started_sessions = snd (session_start (Inr [Normal ''a'']) None False 0 new_sessions)"

lemma started_reach: "session_reach started_sessions"
  unfolding started_sessions_def by (rule Session_Start[OF Fresh_Sessions])

lemma one_observer_wanted_witness: "cs_running (session_status started_sessions)"
  using one_observer_wanted[OF started_reach, of 0] by (simp add: started_sessions_def session_start_def new_sessions_def new_task_def Let_def)

text \<open>An observer that ends by itself blocks the next one: the status says that nothing runs, and every start
  is refused because something runs, until the ended session is stopped by hand.\<close>

theorem ended_observer_blocks_start:
  assumes "sc_inner c = Some s" "rs_task s < length (sc_tasks c)"
  shows "let c' = task_ends (rs_task s) r c in \<not> cs_running (session_status c')
    \<and> start_command config archive now c' = (Inl (Bail ''continuous observation is already running''), c')"
  using assms by (simp add: task_ends_def on_task_def session_status_def start_command_def session_start_def Let_def)

lemma ended_observer_blocks_start_witness:
  "fst (start_command (Inr []) None 0 (task_ends 0 (Inl ''feed lost'') started_sessions)) = Inl (Bail ''continuous observation is already running'')"
  using ended_observer_blocks_start[of started_sessions "\<lparr>rs_task = 0, rs_archive_path = [Normal ''a''], rs_gap_path = default_gap_path [Normal ''a''], rs_started_at_ms = 0\<rparr>"
    "Inl ''feed lost''" "Inr []" None 0]
  by (simp add: started_sessions_def session_start_def new_sessions_def Let_def)

text \<open>While a stopped observer still flushes, or for ever after its stop timed out, a second one can be started.\<close>

lemma second_observer_while_stopping:
  assumes "sc_inner c = Some s" "rs_task s < length (sc_tasks c)" "\<not> ot_finished (sc_tasks c ! rs_task s)"
  shows "let c' = snd (session_start (Inr p) None False now (snd (stop_begins c))) in
    \<not> ot_finished (sc_tasks c' ! rs_task s) \<and> cs_running (session_status c') \<and> map_option rs_task (sc_inner c') = Some (length (sc_tasks c))"
  using assms by (simp add: stop_begins_def session_start_def session_status_def Let_def nth_append new_task_def)

end
