(* ===== verification/Sim_Query.thy ===== *)
theory Sim_Query
  imports Paths Sim_Run
begin

text \<open>
  The read side of the simulation, \<open>simulation_query.rs\<close>: the overview, the pages and the detail of a run as
  functions of the tables. Rows of equal keys keep the order of the table, which SQL leaves open; the report of
  a run stands for its JSON column. Connections and the read-only transaction are not modelled.
\<close>

section \<open>Identifiers\<close>

definition parse_sim_snapshot_id :: "string \<Rightarrow> (string \<times> string) option" where
  "parse_sim_snapshot_id s = (let parts = split_on (CHR ''-'') s in
     if length parts \<noteq> 8 \<or> parts ! 0 \<noteq> ''sim'' \<or> parts ! 1 \<noteq> ''snap'' then None
     else Some (parts ! 2 @ ''-'' @ parts ! 3 @ ''-'' @ parts ! 4, parts ! 6))"

definition parse_f02_run_id :: "string \<Rightarrow> string option" where
  "parse_f02_run_id s = (let parts = split_on (CHR ''-'') s in
     if length parts < 3 \<or> parts ! 0 \<noteq> ''f02'' then None
     else Some (parts ! 0 @ ''-'' @ parts ! 1 @ ''-'' @ parts ! 2))"

section \<open>Rows\<close>

text \<open>\<open>to_u64(..).unwrap_or(0)\<close>.\<close>

definition u64_or_zero :: "int \<Rightarrow> u64" where
  "u64_or_zero v = (case to_u64 v of Inl _ \<Rightarrow> 0 | Inr n \<Rightarrow> n)"

record run_row =
  rr_run_id :: string
  rr_executed_at_ms :: u64
  rr_evaluated_at_ms :: u64
  rr_symbol :: string
  rr_buy_venue :: string
  rr_sell_venue :: string
  rr_direction :: string
  rr_scenario :: string
  rr_rejection_reason :: "string option"
  rr_quantity :: decimal
  rr_bought_quantity :: decimal
  rr_sold_quantity :: decimal
  rr_buy_avg_price :: decimal
  rr_sell_avg_price :: decimal
  rr_buy_fee :: decimal
  rr_sell_fee :: decimal
  rr_scanned_net_profit :: decimal
  rr_simulated_net_profit :: decimal
  rr_compensation_decision :: string
  rr_execution_state :: string
  rr_idempotent_replay :: bool
  rr_external_order_calls :: u64
  rr_source :: simulation_source

definition run_row_at :: "run_projection \<Rightarrow> run_row" where
  "run_row_at p = (let r = rj_report p in
     \<lparr>rr_run_id = sm_run_id r, rr_executed_at_ms = u64_or_zero (rj_executed_at_ms p), rr_evaluated_at_ms = sm_evaluated_at_ms r,
      rr_symbol = sm_symbol r, rr_buy_venue = sm_buy_venue r, rr_sell_venue = sm_sell_venue r, rr_direction = rj_direction p,
      rr_scenario = scenario_db_value (sm_scenario r), rr_rejection_reason = sm_rejection_reason r, rr_quantity = sm_quantity r,
      rr_bought_quantity = sl_filled (sm_buy r), rr_sold_quantity = sl_filled (sm_sell r), rr_buy_avg_price = sl_avg_price (sm_buy r),
      rr_sell_avg_price = sl_avg_price (sm_sell r), rr_buy_fee = sm_buy_fee r, rr_sell_fee = sm_sell_fee r,
      rr_scanned_net_profit = sm_scanned_net_profit r, rr_simulated_net_profit = sm_simulated_net_profit r,
      rr_compensation_decision = sm_compensation_decision r, rr_execution_state = sm_execution_state r,
      rr_idempotent_replay = sm_idempotent_replay r, rr_external_order_calls = 0, rr_source = sm_source r\<rparr>)"

definition newest_first :: "('a \<Rightarrow> int) \<Rightarrow> 'a list \<Rightarrow> 'a list" where
  "newest_first time xs = sort_key (\<lambda>x. - time x) xs"

section \<open>The overview\<close>

definition not_rejected :: "run_projection \<Rightarrow> bool" where
  "not_rejected p \<longleftrightarrow> sm_scenario (rj_report p) \<noteq> RunRejected"

definition simulated_net :: "run_projection \<Rightarrow> decimal" where
  "simulated_net p = sm_simulated_net_profit (rj_report p)"

definition scanned_net :: "run_projection \<Rightarrow> decimal" where
  "scanned_net p = sm_scanned_net_profit (rj_report p)"

definition count_rows :: "('a \<Rightarrow> bool) \<Rightarrow> 'a list \<Rightarrow> nat" where
  "count_rows P xs = length (filter P xs)"

definition by_scenario :: "run_projection list \<Rightarrow> (string \<times> nat) list" where
  "by_scenario runs = map (\<lambda>s. (s, count_rows (\<lambda>p. scenario_db_value (sm_scenario (rj_report p)) = s) runs))
     (remdups (map (\<lambda>p. scenario_db_value (sm_scenario (rj_report p))) runs))"

record profit_point =
  np_executed_at_ms :: u64
  np_scanned_net_profit :: decimal
  np_simulated_net_profit :: decimal

definition cumulative_limit :: nat where "cumulative_limit = 1200"

text \<open>The window sums: the frame of a row ends with the last row of its time.\<close>

definition cumulative_point :: "run_projection list \<Rightarrow> run_projection \<Rightarrow> profit_point" where
  "cumulative_point runs p = (let upto = filter (\<lambda>q. rj_executed_at_ms q \<le> rj_executed_at_ms p) runs in
     \<lparr>np_executed_at_ms = u64_or_zero (rj_executed_at_ms p), np_scanned_net_profit = sum_list (map scanned_net upto),
      np_simulated_net_profit = sum_list (map simulated_net upto)\<rparr>)"

definition cumulative_points :: "run_projection list \<Rightarrow> profit_point list" where
  "cumulative_points runs = map (cumulative_point runs)
     (sort_key rj_executed_at_ms (take cumulative_limit (newest_first rj_executed_at_ms runs)))"

record balance_point =
  bp_run_id :: string
  bp_node :: string
  bp_account_id :: string
  bp_venue :: string
  bp_asset :: string
  bp_total :: decimal
  bp_free :: decimal
  bp_observed_at_ms :: u64

definition balance_point_of :: "balance_input \<Rightarrow> balance_point" where
  "balance_point_of b = (let (run, node) = (case parse_sim_snapshot_id (bs_snapshot_id b) of None \<Rightarrow> ([], ''unknown'') | Some rn \<Rightarrow> rn)
     in \<lparr>bp_run_id = run, bp_node = node, bp_account_id = bs_account_id b, bp_venue = bs_venue b, bp_asset = bs_asset b,
         bp_total = bs_total b, bp_free = bs_free b, bp_observed_at_ms = bs_observed_at_ms b\<rparr>)"

definition balance_history_limit :: nat where "balance_history_limit = 1200"

definition balance_history :: "balance_input list \<Rightarrow> balance_point list" where
  "balance_history rows = rev (map balance_point_of (take balance_history_limit
     (newest_first (uint \<circ> bs_observed_at_ms) (filter (\<lambda>b. bs_source b = ''SIMULATION'') rows))))"

section \<open>The ridge\<close>

definition day_ms :: u64 where "day_ms = 86400000"

definition ridge_limit :: nat where "ridge_limit = 4000"

text \<open>An entry of the ordered map of days, in ascending order of the start.\<close>

fun push_bucket :: "u64 \<Rightarrow> 'a \<Rightarrow> (u64 \<times> 'a list) list \<Rightarrow> (u64 \<times> 'a list) list" where
  "push_bucket k x [] = [(k, [x])]"
| "push_bucket k x ((j, ys) # bs) =
     (if k < j then (k, [x]) # (j, ys) # bs else if k = j then (j, ys @ [x]) # bs else (j, ys) # push_bucket k x bs)"

definition merge_bucket :: "u64 \<times> 'a list \<Rightarrow> (u64 \<times> 'a list) list \<Rightarrow> (u64 \<times> 'a list) list" where
  "merge_bucket b out =
     (if length (snd b) < 8 \<and> out \<noteq> [] then butlast out @ [(fst (last out), snd (last out) @ snd b)] else out @ [b])"

definition merge_sparse_buckets :: "(u64 \<times> 'a list) list \<Rightarrow> (u64 \<times> 'a list) list" where
  "merge_sparse_buckets buckets = fold merge_bucket buckets []"

record 'a ridge_bucket =
  rb_bucket_start_ms :: u64
  rb_bucket_end_ms :: u64
  rb_nets :: "'a list"

definition ridge_bucket_of :: "u64 \<times> 'a list \<Rightarrow> 'a ridge_bucket" where
  "ridge_bucket_of b = \<lparr>rb_bucket_start_ms = fst b, rb_bucket_end_ms = fst b + day_ms, rb_nets = snd b\<rparr>"

definition ridge_rows :: "run_projection list \<Rightarrow> run_projection list" where
  "ridge_rows runs = sort_key rj_executed_at_ms (take ridge_limit (newest_first rj_executed_at_ms (filter not_rejected runs)))"

definition load_ridge :: "run_projection list \<Rightarrow> decimal ridge_bucket list" where
  "load_ridge runs = map ridge_bucket_of (merge_sparse_buckets
     (fold (\<lambda>p. push_bucket (u64_or_zero (rj_executed_at_ms p) div day_ms * day_ms) (simulated_net p)) (ridge_rows runs) []))"

section \<open>Flow and activity\<close>

record flow_aggregate =
  fw_evaluated_runs :: nat
  fw_reserved_runs :: nat
  fw_filled_runs :: nat
  fw_compensated_runs :: nat
  fw_completed_runs :: nat
  fw_escalated_runs :: nat

definition distinct_plans :: "string \<Rightarrow> execution_event list \<Rightarrow> nat" where
  "distinct_plans kind es = card (set (map ev_plan_id (filter (\<lambda>e. starts_with (ev_plan_id e) ''f02-'' \<and> ev_event_type e = kind) es)))"

definition load_flow_aggregate :: "sim_db \<Rightarrow> flow_aggregate" where
  "load_flow_aggregate s =
     \<lparr>fw_evaluated_runs = count_rows not_rejected (sd_runs s),
      fw_reserved_runs = card (set (map au_aggregate_id (filter (\<lambda>a. au_event_type a = ''PlanReserved'' \<and> starts_with (au_aggregate_id a) ''f02-'')
        (pd_audit (sd_paper s))))),
      fw_filled_runs = count_rows (\<lambda>p. 0 < sl_filled (sm_buy (rj_report p)) \<and> 0 < sl_filled (sm_sell (rj_report p))) (sd_runs s),
      fw_compensated_runs = distinct_plans ''COMPENSATION_DECIDED'' (xd_events (sd_execution s)),
      fw_completed_runs = distinct_plans ''COMPLETED'' (xd_events (sd_execution s)),
      fw_escalated_runs = distinct_plans ''MANUAL_ESCALATED'' (xd_events (sd_execution s))\<rparr>"

record activity_event =
  ae_occurred_at_ms :: u64
  ae_event_type :: string
  ae_aggregate_id :: string
  ae_correlation_id :: string
  ae_payload :: "(string \<times> payload_value) list"
  ae_run_id :: "string option"

definition activity :: "audit_row list \<Rightarrow> activity_event list" where
  "activity rows = map (\<lambda>a. \<lparr>ae_occurred_at_ms = u64_or_zero (au_occurred_at_ms a), ae_event_type = au_event_type a,
       ae_aggregate_id = au_aggregate_id a, ae_correlation_id = au_correlation_id a, ae_payload = au_payload a,
       ae_run_id = parse_f02_run_id (au_aggregate_id a)\<rparr>)
     (take 50 (newest_first au_occurred_at_ms (filter (\<lambda>a. starts_with (au_aggregate_id a) ''f02-'') rows)))"

record simulation_overview =
  so_total_runs :: nat
  so_total_success :: nat
  so_total_net_profit :: decimal
  so_scanned_net_profit :: decimal
  so_profit_runs :: nat
  so_smoke_runs :: nat
  so_live_runs :: nat
  so_by_scenario :: "(string \<times> nat) list"
  so_recent_runs :: "run_row list"
  so_cumulative_points :: "profit_point list"
  so_account_balances :: "paper_balance list"
  so_balance_history :: "balance_point list"
  so_ridge :: "decimal ridge_bucket list"
  so_activity :: "activity_event list"
  so_flow :: flow_aggregate

definition get_simulation_overview :: "sim_db \<Rightarrow> simulation_overview" where
  "get_simulation_overview s = (let runs = sd_runs s in
     \<lparr>so_total_runs = length runs, so_total_success = count_rows not_rejected runs,
      so_total_net_profit = sum_list (map simulated_net (filter not_rejected runs)),
      so_scanned_net_profit = sum_list (map scanned_net (filter not_rejected runs)),
      so_profit_runs = count_rows (\<lambda>p. 0 < simulated_net p) runs,
      so_smoke_runs = count_rows (\<lambda>p. sm_source (rj_report p) = Smoke) runs,
      so_live_runs = count_rows (\<lambda>p. sm_source (rj_report p) = Live) runs,
      so_by_scenario = by_scenario runs, so_recent_runs = map run_row_at (take 20 (newest_first rj_executed_at_ms runs)),
      so_cumulative_points = cumulative_points runs,
      so_account_balances = filter (\<lambda>b. starts_with (pb_account_id b) ''f02-account-'') (pd_balances (sd_paper s)),
      so_balance_history = balance_history (rc_snapshots (sd_snapshots s)), so_ridge = load_ridge runs,
      so_activity = activity (pd_audit (sd_paper s)), so_flow = load_flow_aggregate s\<rparr>)"

section \<open>Pages and details\<close>

definition run_matches :: "string option \<Rightarrow> string option \<Rightarrow> run_projection \<Rightarrow> bool" where
  "run_matches symbol scenario p \<longleftrightarrow>
     (case symbol of None \<Rightarrow> True | Some s \<Rightarrow> sm_symbol (rj_report p) = s)
     \<and> (case scenario of None \<Rightarrow> True | Some s \<Rightarrow> scenario_db_value (sm_scenario (rj_report p)) = s)"

definition get_simulation_runs :: "nat \<Rightarrow> nat \<Rightarrow> string option \<Rightarrow> string option \<Rightarrow> sim_db \<Rightarrow> nat \<times> run_row list" where
  "get_simulation_runs limit offset symbol scenario s =
     (let matching = filter (run_matches symbol scenario) (sd_runs s)
      in (length matching, map run_row_at (take (min limit 200) (drop (min offset 1000000) (newest_first rj_executed_at_ms matching)))))"

record intent_fact_row =
  ix_intent_id :: string
  ix_leg_id :: string
  ix_fact :: order_fact
  ix_input :: order_intent_input
  ix_actions :: "action_fact list"

text \<open>The intents of a plan with their facts; an intent without a fact makes the read fail.\<close>

definition intent_fact_of :: "sim_db \<Rightarrow> intent_row \<Rightarrow> intent_fact_row result" where
  "intent_fact_of s i = (case lookup_row of_intent_id (oi_intent_id (it_input i)) (od_facts (sd_orders s)) of
     None \<Rightarrow> Inl (Bail ''unexpected null'')
   | Some f \<Rightarrow> Inr \<lparr>ix_intent_id = oi_intent_id (it_input i), ix_leg_id = oi_leg_id (it_input i), ix_fact = f, ix_input = it_input i,
       ix_actions = []\<rparr>)"

definition add_action :: "action_fact \<Rightarrow> intent_fact_row list \<Rightarrow> intent_fact_row list" where
  "add_action a = update_first (\<lambda>i. ix_intent_id i = af_intent_id a) (\<lambda>i. i\<lparr>ix_actions := ix_actions i @ [a]\<rparr>)"

definition read_intent_rows :: "sim_db \<Rightarrow> string \<Rightarrow> intent_fact_row list result" where
  "read_intent_rows s plan_id =
     then_do (collect (intent_fact_of s) (sort_key (oi_leg_id \<circ> it_input) (filter (\<lambda>i. it_plan_id i = plan_id) (pd_intents (sd_paper s))))) (\<lambda>intents.
       Inr (fold add_action
         (sort_key af_fact_version (filter (\<lambda>a. af_intent_id a \<in> ix_intent_id ` set intents) (od_actions (sd_orders s)))) intents))"

record run_detail =
  rd_run :: run_row
  rd_report :: sim_report
  rd_intents :: "intent_fact_row list"
  rd_trades :: "trade_fact list"
  rd_execution_events :: "execution_event list"
  rd_audit :: "audit_row list"
  rd_balances :: "balance_point list"

definition get_simulation_run_detail :: "string \<Rightarrow> sim_db \<Rightarrow> run_detail result" where
  "get_simulation_run_detail run_id s = (case lookup_row run_key run_id (sd_runs s) of
     None \<Rightarrow> Inl (Bail ''simulation run not found'')
   | Some p \<Rightarrow> (let r = rj_report p in
       then_do (read_intent_rows s (sm_plan_id r)) (\<lambda>intents. Inr
         \<lparr>rd_run = run_row_at p, rd_report = r, rd_intents = intents,
          rd_trades = sort_key tf_occurred_at_ms (filter (\<lambda>t. tf_intent_id t \<in> {sm_buy_intent_id r, sm_sell_intent_id r}) (od_trades (sd_orders s))),
          rd_execution_events = sort_key ev_event_version (filter (\<lambda>e. ev_plan_id e = sm_plan_id r) (xd_events (sd_execution s))),
          rd_audit = sort_key au_occurred_at_ms (filter (\<lambda>a. starts_with (au_aggregate_id a) (run_id @ ''-'')
            \<or> starts_with (au_correlation_id a) (run_id @ ''-'')) (pd_audit (sd_paper s))),
          rd_balances = map balance_point_of (sort_key (uint \<circ> bs_observed_at_ms)
            (filter (\<lambda>b. bs_account_id b = sm_account_id r \<and> bs_source b = ''SIMULATION'') (rc_snapshots (sd_snapshots s))))\<rparr>)))"

section \<open>Where a row belongs\<close>

lemma split_on_append: "d \<notin> set a \<Longrightarrow> split_on d (a @ d # b) = a # split_on d b"
  by (induction a) auto

lemma split_on_plain: "d \<notin> set a \<Longrightarrow> split_on d a = [a]"
  by (induction a) auto

lemma split_on_two: "d \<notin> set a \<Longrightarrow> split_on d (a @ d # b) = a # split_on d b" "d \<notin> set a \<Longrightarrow> split_on d a = [a]"
  by (simp_all add: split_on_append split_on_plain)

lemma show_nat_no_dash: "CHR ''-'' \<notin> set (show_nat n)"
  using show_nat_digits dash_not_digit by blast

definition f02_run_id :: "nat \<Rightarrow> nat \<Rightarrow> string" where
  "f02_run_id now pid = ''f02-'' @ show_nat now @ ''-'' @ show_nat pid"

lemma snapshot_id_parses:
  assumes "CHR ''-'' \<notin> set dir" "CHR ''-'' \<notin> set node" "CHR ''-'' \<notin> set leg"
  shows "parse_sim_snapshot_id (''sim-snap-'' @ f02_run_id now pid @ ''-'' @ dir @ ''-'' @ node @ ''-'' @ leg) = Some (f02_run_id now pid, node)"
proof -
  have "split_on (CHR ''-'') (''sim'' @ CHR ''-'' # ''snap'' @ CHR ''-'' # ''f02'' @ CHR ''-'' # show_nat now @ CHR ''-'' # show_nat pid
      @ CHR ''-'' # dir @ CHR ''-'' # node @ CHR ''-'' # leg) = [''sim'', ''snap'', ''f02'', show_nat now, show_nat pid, dir, node, leg]"
    by (simp add: split_on_append split_on_plain show_nat_no_dash assms)
  then show ?thesis by (simp add: parse_sim_snapshot_id_def f02_run_id_def)
qed

lemma run_id_parses: "parse_f02_run_id (f02_run_id now pid @ ''-'' @ rest) = Some (f02_run_id now pid)"
proof -
  have "split_on (CHR ''-'') (''f02'' @ CHR ''-'' # show_nat now @ CHR ''-'' # show_nat pid @ CHR ''-'' # rest)
      = ''f02'' # show_nat now # show_nat pid # split_on (CHR ''-'') rest"
    by (simp add: split_on_append show_nat_no_dash)
  then show ?thesis by (simp add: parse_f02_run_id_def f02_run_id_def)
qed

lemma insert_snapshot_rows:
  "set (rc_snapshots (insert_snapshot r sid venue asset leg at_ms amount db)) \<subseteq> set (rc_snapshots db) \<union> {b. bs_snapshot_id b = sid @ ''-'' @ leg}"
  by (auto simp: insert_snapshot_def Let_def)

lemma insert_nodes_rows:
  "b \<in> set (rc_snapshots (insert_nodes r dir qa ba nodes db)) \<Longrightarrow>
     b \<in> set (rc_snapshots db) \<or> (\<exists>node \<in> fst ` set nodes. \<exists>leg \<in> {''base'', ''quote''}.
        bs_snapshot_id b = ''sim-snap-'' @ sm_run_id r @ ''-'' @ dir @ ''-'' @ node @ ''-'' @ leg)"
proof (induction r dir qa ba nodes db rule: insert_nodes.induct)
  case (2 r dir qa ba node at_ms qt bt nodes db)
  let ?sid = "''sim-snap-'' @ sm_run_id r @ ''-'' @ dir @ ''-'' @ node"
  let ?db = "insert_snapshot r ?sid (sm_sell_venue r) ba ''base'' at_ms bt (insert_snapshot r ?sid (sm_buy_venue r) qa ''quote'' at_ms qt db)"
  have "b \<in> set (rc_snapshots (insert_nodes r dir qa ba nodes ?db))" using "2.prems" by (simp add: Let_def)
  from "2.IH"[OF refl this] consider "b \<in> set (rc_snapshots ?db)"
    | node' leg where "node' \<in> fst ` set nodes" "leg \<in> {''base'', ''quote''}"
        "bs_snapshot_id b = ''sim-snap-'' @ sm_run_id r @ ''-'' @ dir @ ''-'' @ node' @ ''-'' @ leg" by blast
  then show ?case
  proof cases
    case 1
    then have "b \<in> set (rc_snapshots db) \<or> bs_snapshot_id b = ?sid @ ''-base'' \<or> bs_snapshot_id b = ?sid @ ''-quote''"
      using insert_snapshot_rows[of r ?sid "sm_sell_venue r" ba "''base''" at_ms bt "insert_snapshot r ?sid (sm_buy_venue r) qa ''quote'' at_ms qt db"]
        insert_snapshot_rows[of r ?sid "sm_buy_venue r" qa "''quote''" at_ms qt db] by auto
    then show ?thesis by auto
  next
    case 2
    then show ?thesis by auto
  qed
qed simp

lemma prepared_run_id:
  assumes "prepare_run w e o1 config skipped source = Inr u"
  shows "\<exists>dir \<in> {''a'', ''b''}. sm_run_id (su_report u) = f02_run_id (unat (sw_clock w 0)) (unat (sw_pid w)) \<and> su_direction u = dir
    \<and> sm_plan_id (su_report u) = sm_run_id (su_report u) @ ''-plan-'' @ dir"
  using assms by (auto simp: prepare_run_def initial_report_def f02_run_id_def Let_def split: option.splits prod.splits if_splits)

text \<open>The read side finds the run of a row from its identifier alone: every balance snapshot a run stores is
  read back with the run's own identifier and with the name of its node, and the audit events of its plan with
  the same identifier, whatever the clock and the process id were.\<close>

theorem run_rows_found_again:
  assumes "prepare_run w e o1 config skipped source = Inr u" "sm_run_id r = sm_run_id (su_report u)"
    and "fst ` set nodes \<subseteq> {''fund'', ''filled'', ''evaluated''}"
    and "b \<in> set (rc_snapshots (insert_nodes r (su_direction u) quote base nodes db)) - set (rc_snapshots db)"
  shows "bp_run_id (balance_point_of b) = sm_run_id r \<and> bp_node (balance_point_of b) \<in> fst ` set nodes
    \<and> parse_f02_run_id (sm_plan_id (su_report u)) = Some (sm_run_id r)"
proof -
  obtain dir where dir: "dir \<in> {''a'', ''b''}" "su_direction u = dir"
    "sm_run_id (su_report u) = f02_run_id (unat (sw_clock w 0)) (unat (sw_pid w))"
    "sm_plan_id (su_report u) = sm_run_id (su_report u) @ ''-plan-'' @ dir"
    using prepared_run_id[OF assms(1)] by blast
  obtain node leg where n: "node \<in> fst ` set nodes" "leg \<in> {''base'', ''quote''}"
    "bs_snapshot_id b = ''sim-snap-'' @ sm_run_id r @ ''-'' @ dir @ ''-'' @ node @ ''-'' @ leg"
    using insert_nodes_rows[of b r "su_direction u" quote base nodes db] assms(4) dir(2) by blast
  have "CHR ''-'' \<notin> set dir" "CHR ''-'' \<notin> set node" "CHR ''-'' \<notin> set leg"
    using dir(1) n(1,2) assms(3) by auto
  then have "parse_sim_snapshot_id (bs_snapshot_id b) = Some (sm_run_id r, node)"
    unfolding n(3) assms(2) dir(3) by (rule snapshot_id_parses)
  moreover have "parse_f02_run_id (sm_plan_id (su_report u)) = Some (sm_run_id r)"
    unfolding dir(4) assms(2) dir(3) using run_id_parses[of _ _ "''plan-'' @ dir"] by simp
  ultimately show ?thesis using n(1) by (simp add: balance_point_of_def)
qed

lemma sample_rows:
  "case scan_pair exact_div sample_input of
     Inr report \<Rightarrow> (case sr_directions report of
       [a, b] \<Rightarrow> (case prepare_run sim_world_0 (sim_event report) a poor_sim 0 Live of
         Inr u \<Rightarrow> rc_snapshots (insert_nodes (su_report u) (su_direction u) ''USDT'' ''BTC'' [(''fund'', 5, 1, 1)] (sd_snapshots sim_db_0)) \<noteq> []
       | _ \<Rightarrow> False) | _ \<Rightarrow> False)
   | _ \<Rightarrow> False"
  by code_simp

lemma run_rows_found_again_witness:
  "\<exists>report a u b. prepare_run sim_world_0 (sim_event report) a poor_sim 0 Live = Inr u
     \<and> b \<in> set (rc_snapshots (insert_nodes (su_report u) (su_direction u) ''USDT'' ''BTC'' [(''fund'', 5, 1, 1)] (sd_snapshots sim_db_0)))
     \<and> bp_run_id (balance_point_of b) = sm_run_id (su_report u) \<and> bp_node (balance_point_of b) = ''fund''"
proof -
  let ?rows = "\<lambda>u. rc_snapshots (insert_nodes (su_report u) (su_direction u) ''USDT'' ''BTC'' [(''fund'', 5, 1, 1)] (sd_snapshots sim_db_0))"
  obtain report a u where u: "prepare_run sim_world_0 (sim_event report) a poor_sim 0 Live = Inr u" "?rows u \<noteq> []"
    using sample_rows by (fastforce split: sum.splits list.splits)
  then obtain b where b: "b \<in> set (?rows u)" by (cases "?rows u") auto
  moreover have "rc_snapshots (sd_snapshots sim_db_0) = []" by (simp add: sim_db_0_def)
  ultimately show ?thesis using run_rows_found_again[OF u(1) refl, of "[(''fund'', 5, 1, 1)]" b "''USDT''" "''BTC''" "sd_snapshots sim_db_0"] u(1)
    by auto
qed

section \<open>The figures add up\<close>

lemma sum_by_scenario: "sum_list (map snd (by_scenario runs)) = length runs"
proof -
  let ?f = "\<lambda>p. scenario_db_value (sm_scenario (rj_report p))"
  have count_scenario: "length (filter (\<lambda>p. ?f p = s) runs) = count (mset (map ?f runs)) s" for s
    by (induction runs) auto
  have "sum_list (map (\<lambda>s. length (filter (\<lambda>p. ?f p = s) runs)) (remdups (map ?f runs)))
      = (\<Sum>s \<in> set (map ?f runs). count (mset (map ?f runs)) s)"
    unfolding count_scenario by (simp only: sum_list_distinct_conv_sum_set[OF distinct_remdups] set_remdups)
  also have "\<dots> = size (mset (map ?f runs))" by (simp only: size_multiset_overloaded_eq set_mset_mset)
  finally show ?thesis by (simp add: by_scenario_def count_rows_def comp_def)
qed

lemma count_rows_le: "(\<And>x. P x \<Longrightarrow> Q x) \<Longrightarrow> count_rows P xs \<le> count_rows Q xs"
  by (induction xs) (auto simp: count_rows_def intro: le_SucI)

lemma count_rows_compl: "count_rows P xs + count_rows (\<lambda>x. \<not> P x) xs = length xs"
  unfolding count_rows_def by (rule sum_length_filter_compl)

text \<open>The figures of the overview agree with one another: the scenarios add up to the runs, smoke and live runs
  do too, the evaluated runs of the flow are the successes, no more runs filled than there are, and the profit
  of the accepted runs is what remains of the profit of all runs without the rejected ones.\<close>

theorem overview_adds_up:
  "let v = get_simulation_overview s in
     sum_list (map snd (so_by_scenario v)) = so_total_runs v \<and> so_smoke_runs v + so_live_runs v = so_total_runs v
     \<and> fw_evaluated_runs (so_flow v) = so_total_success v \<and> fw_filled_runs (so_flow v) \<le> so_total_runs v
     \<and> so_total_net_profit v + sum_list (map simulated_net (filter (\<lambda>p. \<not> not_rejected p) (sd_runs s)))
         = sum_list (map simulated_net (sd_runs s))
     \<and> length (so_recent_runs v) \<le> 20 \<and> length (so_cumulative_points v) \<le> 1200 \<and> length (so_balance_history v) \<le> 1200"
proof -
  have "count_rows (\<lambda>p. sm_source (rj_report p) = Smoke) (sd_runs s) + count_rows (\<lambda>p. sm_source (rj_report p) = Live) (sd_runs s)
      = length (sd_runs s)"
    using count_rows_compl[of "\<lambda>p. sm_source (rj_report p) = Smoke" "sd_runs s"] simulation_source.exhaust
    by (metis (mono_tags, lifting) count_rows_def filter_cong simulation_source.distinct(1))
  moreover have "sum_list (map simulated_net (filter not_rejected xs)) + sum_list (map simulated_net (filter (\<lambda>p. \<not> not_rejected p) xs))
      = sum_list (map simulated_net xs)" for xs
    by (induction xs) auto
  moreover have "count_rows P xs \<le> length xs" for P :: "run_projection \<Rightarrow> bool" and xs by (simp add: count_rows_def)
  ultimately show ?thesis
    by (simp add: get_simulation_overview_def load_flow_aggregate_def sum_by_scenario cumulative_points_def cumulative_limit_def
      balance_history_def balance_history_limit_def Let_def)
qed

section \<open>Pages\<close>

lemma take_chunks: "concat (map (\<lambda>k. take n (drop (k * n) xs)) [0 ..< m]) = take (m * n) xs"
proof (induction m)
  case (Suc m)
  have "take (m * n + n) xs = take (m * n) xs @ take n (drop (m * n) xs)" by (rule take_add)
  then show ?case using Suc by (simp add: add.commute)
qed simp

text \<open>The pages are a partition: read page by page, the matching runs come newest first, each of them exactly
  once, and each page reports how many there are; this needs pages of at most 200 rows and fewer than a million
  rows before the last page.\<close>

theorem pages_partition:
  assumes "0 < n" "n \<le> 200" "m * n \<le> 1000000"
    and "length (filter (run_matches symbol scenario) (sd_runs s)) \<le> m * n"
  shows "let rows = concat (map (\<lambda>k. snd (get_simulation_runs n (k * n) symbol scenario s)) [0 ..< m]) in
    mset rows = mset (map run_row_at (filter (run_matches symbol scenario) (sd_runs s)))
    \<and> rows = map run_row_at (newest_first rj_executed_at_ms (filter (run_matches symbol scenario) (sd_runs s)))
    \<and> fst (get_simulation_runs n offset symbol scenario s) = length rows"
proof -
  let ?matching = "filter (run_matches symbol scenario) (sd_runs s)"
  let ?sorted = "newest_first rj_executed_at_ms ?matching"
  have "snd (get_simulation_runs n (k * n) symbol scenario s) = map run_row_at (take n (drop (k * n) ?sorted))" if "k < m" for k
  proof -
    have "k * n \<le> m * n" using that by (intro mult_right_mono) simp_all
    then have "k * n \<le> 1000000" using assms(3) by (rule le_trans)
    then have "min (k * n) 1000000 = k * n" by (rule min_absorb1)
    then show ?thesis using assms(2) by (simp add: get_simulation_runs_def Let_def min_def)
  qed
  then have "map (\<lambda>k. snd (get_simulation_runs n (k * n) symbol scenario s)) [0 ..< m]
      = map (map run_row_at) (map (\<lambda>k. take n (drop (k * n) ?sorted)) [0 ..< m])" by simp
  then have rows: "concat (map (\<lambda>k. snd (get_simulation_runs n (k * n) symbol scenario s)) [0 ..< m]) = map run_row_at (take (m * n) ?sorted)"
    by (simp only: map_concat[symmetric] take_chunks)
  have "length ?sorted = length ?matching" by (simp add: newest_first_def)
  then have "take (m * n) ?sorted = ?sorted" using assms(4) by simp
  with rows show ?thesis by (simp add: Let_def newest_first_def get_simulation_runs_def)
qed

lemma pages_partition_witness:
  "concat (map (\<lambda>k. snd (get_simulation_runs 2 (k * 2) None None (sim_db_0\<lparr>sd_runs := [p, p, p]\<rparr>))) [0 ..< 2]) = replicate 3 (run_row_at p)"
proof -
  have "length (filter (run_matches None None) (sd_runs (sim_db_0\<lparr>sd_runs := [p, p, p]\<rparr>))) \<le> 2 * 2" by (simp add: run_matches_def)
  from pages_partition[OF _ _ _ this] show ?thesis
    by (simp add: Let_def run_matches_def newest_first_def numeral_3_eq_3)
qed

section \<open>The ridge keeps its points\<close>

lemma push_bucket_mset: "mset (concat (map snd (push_bucket k x bs))) = add_mset x (mset (concat (map snd bs)))"
  by (induction k x bs rule: push_bucket.induct) auto

lemma push_bucket_keys: "fst ` set (push_bucket k x bs) = insert k (fst ` set bs)"
  by (induction k x bs rule: push_bucket.induct) auto

lemma push_bucket_sorted: "sorted_wrt (<) (map fst bs) \<Longrightarrow> sorted_wrt (<) (map fst (push_bucket k x bs))"
proof (induction k x bs rule: push_bucket.induct)
  case (2 k x j ys bs)
  have "\<forall>b \<in> set (push_bucket k x bs). fst b = k \<or> fst b \<in> fst ` set bs"
    using push_bucket_keys[of k x bs] by (metis image_eqI insert_iff)
  then show ?case using 2 by (fastforce simp: image_iff)
qed simp

lemma merge_bucket_concat: "concat (map snd (merge_bucket b out)) = concat (map snd out) @ snd b"
  by (cases out rule: rev_cases) (simp_all add: merge_bucket_def)

lemma merge_concat: "concat (map snd (fold merge_bucket bs out)) = concat (map snd out) @ concat (map snd bs)"
  by (induction bs arbitrary: out) (simp_all add: merge_bucket_concat)

definition later_full :: "(u64 \<times> 'a list) list \<Rightarrow> bool" where
  "later_full out \<longleftrightarrow> list_all (\<lambda>b. 8 \<le> length (snd b)) (tl out)"

lemma merge_bucket_later_full: "later_full out \<Longrightarrow> later_full (merge_bucket b out)"
  by (cases out; cases "tl out" rule: rev_cases) (auto simp: later_full_def merge_bucket_def)

lemma merge_later_full: "later_full out \<Longrightarrow> later_full (fold merge_bucket bs out)"
  by (induction bs arbitrary: out) (simp_all add: merge_bucket_later_full)

lemma merge_bucket_starts:
  "map fst (merge_bucket b out) = (if length (snd b) < 8 \<and> out \<noteq> [] then map fst out else map fst out @ [fst b])"
  by (cases out rule: rev_cases) (simp_all add: merge_bucket_def)

lemma merge_starts: "\<exists>ks. map fst (fold merge_bucket bs out) = map fst out @ ks \<and> subseq ks (map fst bs)"
proof (induction bs arbitrary: out)
  case (Cons b bs)
  obtain ks where "map fst (fold merge_bucket bs (merge_bucket b out)) = map fst (merge_bucket b out) @ ks" "subseq ks (map fst bs)"
    using Cons.IH by blast
  then show ?case by (auto simp: merge_bucket_starts intro: exI[of _ ks] exI[of _ "fst b # ks"])
qed simp

lemma subseq_sorted: "subseq xs ys \<Longrightarrow> sorted_wrt (<) ys \<Longrightarrow> sorted_wrt (<) xs"
proof (induction xs ys rule: list_emb.induct)
  case (list_emb_Cons2 x y xs ys)
  then have "set xs \<subseteq> set ys" by (auto elim: list_emb_set)
  then show ?case using list_emb_Cons2 by auto
qed auto

text \<open>The ridge loses no run: its buckets, in ascending order of distinct days, hold exactly the simulated net
  profits of the newest 4000 runs that were not rejected, and every bucket but the oldest holds at least eight.\<close>

theorem ridge_keeps_points:
  "mset (concat (map rb_nets (load_ridge runs)))
     = mset (map simulated_net (take 4000 (newest_first rj_executed_at_ms (filter not_rejected runs))))
   \<and> sorted_wrt (<) (map rb_bucket_start_ms (load_ridge runs))
   \<and> list_all (\<lambda>b. 8 \<le> length (rb_nets b)) (tl (load_ridge runs))"
proof -
  define push where "push = (\<lambda>p. push_bucket (u64_or_zero (rj_executed_at_ms p) div day_ms * day_ms) (simulated_net p))"
  define buckets where "buckets = fold push (ridge_rows runs) []"
  have ridge: "load_ridge runs = map ridge_bucket_of (merge_sparse_buckets buckets)"
    by (simp add: load_ridge_def buckets_def push_def)
  have "mset (concat (map snd (fold push ps bs))) = mset (map simulated_net ps) + mset (concat (map snd bs))" for ps bs
    by (induction ps arbitrary: bs) (simp_all add: push_def push_bucket_mset)
  then have points: "mset (concat (map snd buckets)) = mset (map simulated_net (ridge_rows runs))" by (simp add: buckets_def)
  have "sorted_wrt (<) (map fst (fold push ps bs))" if "sorted_wrt (<) (map fst bs)" for ps bs
    using that by (induction ps arbitrary: bs) (simp_all add: push_def push_bucket_sorted)
  then have "sorted_wrt (<) (map fst buckets)" by (simp add: buckets_def)
  then have "sorted_wrt (<) (map fst (merge_sparse_buckets buckets))"
    using merge_starts[of buckets "[]"] subseq_sorted by (auto simp: merge_sparse_buckets_def)
  moreover have "later_full (merge_sparse_buckets buckets)"
    unfolding merge_sparse_buckets_def by (rule merge_later_full) (simp add: later_full_def)
  moreover have "concat (map snd (merge_sparse_buckets buckets)) = concat (map snd buckets)"
    by (simp add: merge_sparse_buckets_def merge_concat)
  moreover have "map rb_nets (map ridge_bucket_of bs) = map snd bs" "map rb_bucket_start_ms (map ridge_bucket_of bs) = map fst bs"
    for bs :: "(u64 \<times> decimal list) list"
    by (simp_all add: ridge_bucket_of_def comp_def)
  moreover have "mset (map simulated_net (ridge_rows runs)) = mset (map simulated_net (take 4000 (newest_first rj_executed_at_ms (filter not_rejected runs))))"
    by (simp add: ridge_rows_def ridge_limit_def)
  moreover have "list_all (\<lambda>b. 8 \<le> length (rb_nets b)) (tl (map ridge_bucket_of bs)) = later_full bs"
    for bs :: "(u64 \<times> decimal list) list"
    by (simp add: later_full_def list_all_iff map_tl[symmetric] ridge_bucket_of_def)
  ultimately show ?thesis using points unfolding ridge by (simp del: map_map)
qed

text \<open>But a merged bucket still ends a day after its start, although it holds points of later days.\<close>

lemma merged_bucket_end_too_early:
  "map ridge_bucket_of (merge_sparse_buckets [(0, [x]), (5 * day_ms, [y])])
     = [\<lparr>rb_bucket_start_ms = 0, rb_bucket_end_ms = day_ms, rb_nets = [x, y]\<rparr>]"
  by (simp add: merge_sparse_buckets_def merge_bucket_def ridge_bucket_of_def)

end
