(* ===== verification/Ops_Registry.thy ===== *)
theory Ops_Registry
  imports Table
begin

text \<open>
  What the operational registries share: the hash map of the standard library keyed by a field of
  its values, the severity, state and label types of their entries, and the contract of a registry
  whose entries are named \<open>{tag}-{now_ms}-{number of entries}\<close>. A hash map is the list of its
  values, of distinct keys; the list stands for one iteration order, and an insertion replaces the
  value under an equal key or adds one. What a caller gets from \<open>values()\<close> is this list up to
  its order.
\<close>

section \<open>Hash maps of rows\<close>

definition hm_insert :: "('r \<Rightarrow> 'k) \<Rightarrow> 'r \<Rightarrow> 'r list \<Rightarrow> 'r list" where
  "hm_insert key r rows = (if lookup_row key (key r) rows = None then rows @ [r] else put_row key r rows)"

definition hm_remove :: "('r \<Rightarrow> 'k) \<Rightarrow> 'k \<Rightarrow> 'r list \<Rightarrow> 'r list" where
  "hm_remove key k rows = filter (\<lambda>r. key r \<noteq> k) rows"

lemma lookup_hm_insert:
  "lookup_row key k (hm_insert key r rows) = (if k = key r then Some r else lookup_row key k rows)"
  by (simp add: hm_insert_def lookup_row_append lookup_put_row split: option.splits)

lemma table_ok_hm_insert: "table_ok key rows \<Longrightarrow> table_ok key (hm_insert key r rows)"
  by (simp add: hm_insert_def table_ok_append_row)

lemma lookup_hm_remove:
  "lookup_row key k (hm_remove key k' rows) = (if k = k' then None else lookup_row key k rows)"
  by (induction rows) (auto simp: hm_remove_def)

lemma table_ok_hm_remove: "table_ok key rows \<Longrightarrow> table_ok key (hm_remove key k rows)"
  by (simp add: hm_remove_def table_ok_filter)

lemma length_hm_insert:
  "length (hm_insert key r rows) = (if lookup_row key (key r) rows = None then Suc (length rows) else length rows)"
  by (simp add: hm_insert_def)

text \<open>
  A change of the entry found under a key, with the changed entry returned: \<open>get_mut\<close> on a map, or
  \<open>iter_mut().find\<close> on a vector.
\<close>

definition change_row ::
  "('r \<Rightarrow> 'k) \<Rightarrow> string \<Rightarrow> 'k \<Rightarrow> ('r \<Rightarrow> 'r) \<Rightarrow> 'r list \<Rightarrow> 'r result \<times> 'r list" where
  "change_row key missing k f rows = (case lookup_row key k rows of
     Some r \<Rightarrow> (Inr (f r), update_row key k f rows)
   | None \<Rightarrow> (Inl (Bail missing), rows))"

lemma change_row_simps:
  "lookup_row key k rows = Some r \<Longrightarrow> change_row key m k f rows = (Inr (f r), update_row key k f rows)"
  "lookup_row key k rows = None \<Longrightarrow> change_row key m k f rows = (Inl (Bail m), rows)"
  by (simp_all add: change_row_def)

lemma change_row_rows: "snd (change_row key m k f rows) = update_row key k f rows"
  by (simp add: change_row_def update_row_absent split: option.split)

section \<open>Registries of numbered entries\<close>

text \<open>
  The contract of a registry: the entry it makes as number \<open>n\<close> carries the tag, the time and \<open>n\<close>
  in its name, and no later change renames an entry.
\<close>

locale numbered_registry =
  fixes entry_id :: "'e \<Rightarrow> string"
    and tag :: string
    and fresh :: "'a \<Rightarrow> u64 \<Rightarrow> nat \<Rightarrow> 'e"
    and alter :: "'c \<Rightarrow> 'e \<Rightarrow> 'e"
  assumes fresh_id: "entry_id (fresh a now n) = numbered_id tag (unat now) n"
    and alter_id: "entry_id (alter c e) = entry_id e"

sublocale numbered_registry \<subseteq> keyed_rows entry_id alter
  by unfold_locales (rule alter_id)

context numbered_registry
begin

text \<open>Entry number \<open>k\<close> is named by some time and \<open>k\<close>.\<close>

definition numbered :: "'e list \<Rightarrow> bool" where
  "numbered rows \<longleftrightarrow> (\<forall>k < length rows. \<exists>now. entry_id (rows ! k) = numbered_id tag now k)"

lemma numbered_Nil: "numbered []"
  by (simp add: numbered_def)

lemma numbered_distinct: "numbered rows \<Longrightarrow> table_ok entry_id rows"
  unfolding table_ok_def distinct_conv_nth numbered_def by (metis length_map nth_map numbered_id_inj)

lemma numbered_free: "numbered rows \<Longrightarrow> length rows \<le> n \<Longrightarrow> lookup_row entry_id (numbered_id tag now n) rows = None"
  unfolding numbered_def lookup_row_None_iff by (metis imageE in_set_conv_nth leD numbered_id_inj)

lemma numbered_append: "numbered rows \<Longrightarrow> numbered (rows @ [fresh a now (length rows)])"
  by (auto simp: numbered_def nth_append less_Suc_eq fresh_id)

lemma insert_is_append:
  "numbered rows \<Longrightarrow> hm_insert entry_id (fresh a now (length rows)) rows = rows @ [fresh a now (length rows)]"
  by (simp add: hm_insert_def fresh_id numbered_free)

lemma numbered_cong: "map entry_id rows' = map entry_id rows \<Longrightarrow> numbered rows \<Longrightarrow> numbered rows'"
  unfolding numbered_def by (metis length_map nth_map)

lemma numbered_update: "numbered rows \<Longrightarrow> numbered (update_row entry_id i (alter c) rows)"
  by (erule numbered_cong[OF keys_update])

lemma numbered_change: "numbered rows \<Longrightarrow> numbered (snd (change_row entry_id m i (alter c) rows))"
  by (simp add: change_row_rows numbered_update)

text \<open>Nothing is lost when an entry is made in one step: every earlier one is found as before.\<close>

lemma create_keeps:
  assumes "numbered rows" "lookup_row entry_id i rows = Some e"
  shows "lookup_row entry_id i (hm_insert entry_id (fresh a now (length rows)) rows) = Some e"
  using assms by (simp add: insert_is_append lookup_row_append)

lemma create_found:
  assumes "numbered rows"
  shows "lookup_row entry_id (numbered_id tag (unat now) (length rows))
           (hm_insert entry_id (fresh a now (length rows)) rows) = Some (fresh a now (length rows))"
  by (simp add: lookup_hm_insert fresh_id)

text \<open>
  Made in two steps the number can be stale: when two calls of the same millisecond both read the
  length before either inserts, the second entry takes the place of the first.
\<close>

lemma stale_create_overwrites:
  assumes "numbered rows"
  shows "hm_insert entry_id (fresh b now (length rows)) (hm_insert entry_id (fresh a now (length rows)) rows)
           = rows @ [fresh b now (length rows)]"
proof -
  let ?k = "numbered_id tag (unat now) (length rows)"
  have none: "lookup_row entry_id ?k rows = None" by (rule numbered_free[OF assms]) simp
  then have "put_row entry_id (fresh b now (length rows)) (rows @ [fresh a now (length rows)])
      = rows @ [fresh b now (length rows)]"
    using update_row_append[of entry_id ?k] by (simp add: put_row_def fresh_id replace_row_def)
  then show ?thesis by (simp add: insert_is_append[OF assms] hm_insert_def[of _ "fresh b now (length rows)"]
      lookup_row_append none fresh_id)
qed

end

section \<open>The last of the greatest\<close>

text \<open>\<open>Iterator::max_by_key\<close>: of equal keys the last wins.\<close>

fun max_by_key :: "('a \<Rightarrow> 'k::linorder) \<Rightarrow> 'a list \<Rightarrow> 'a option" where
  "max_by_key f [] = None"
| "max_by_key f (x # xs) = (case max_by_key f xs of
     None \<Rightarrow> Some x | Some y \<Rightarrow> if f x \<le> f y then Some y else Some x)"

lemma max_by_key_None [simp]: "max_by_key f xs = None \<longleftrightarrow> xs = []"
  by (cases xs) (auto split: option.splits)

lemma max_by_key_greatest: "max_by_key f xs = Some y \<Longrightarrow> y \<in> set xs \<and> (\<forall>x \<in> set xs. f x \<le> f y)"
proof (induction xs arbitrary: y)
  case (Cons x xs)
  then show ?case by (cases "max_by_key f xs") (fastforce split: if_splits)+
qed simp

lemma max_by_key_append:
  "max_by_key f (xs @ [x]) = (case max_by_key f xs of
     None \<Rightarrow> Some x | Some y \<Rightarrow> if f y \<le> f x then Some x else Some y)"
  by (induction xs) (auto split: option.splits)

section \<open>Severity\<close>

type_synonym labels = "(string \<times> string) list"

datatype alert_level = Critical_Alert | High_Alert | Medium_Alert | Info_Alert

definition alert_level_as_str :: "alert_level \<Rightarrow> string" where
  "alert_level_as_str l = (case l of Critical_Alert \<Rightarrow> ''CRITICAL'' | High_Alert \<Rightarrow> ''HIGH''
     | Medium_Alert \<Rightarrow> ''MEDIUM'' | Info_Alert \<Rightarrow> ''INFO'')"

datatype alert_status = Pending_Alert | Acknowledged_Alert | Resolved_Alert | Ignored_Alert

definition alert_status_as_str :: "alert_status \<Rightarrow> string" where
  "alert_status_as_str s = (case s of Pending_Alert \<Rightarrow> ''PENDING'' | Acknowledged_Alert \<Rightarrow> ''ACKNOWLEDGED''
     | Resolved_Alert \<Rightarrow> ''RESOLVED'' | Ignored_Alert \<Rightarrow> ''IGNORED'')"

end
