(* ===== verification/Ops_Alerts.thy ===== *)
theory Ops_Alerts
  imports Ops_Registry
begin

text \<open>
  The two alert managers: the vector of \<open>crates/core/src/alert.rs\<close> and the shared map of
  \<open>crates/core/src/alert_manager.rs\<close>, which declare the same levels and states. The map is behind a
  lock that a creation takes twice, first to read the number of alerts and then to insert, so a
  creation is two steps and other calls can run between them. The descriptions of the levels, which
  are not ASCII, are not modelled.
\<close>

section \<open>The vector\<close>

datatype alert_type =
    Private_Stream_Interrupted string u64
  | Exposure_Alert string u64
  | Unknown_Order_Alert string string u64
  | Balance_Conflict string string string string
  | Database_Failure_Alert u64
  | Process_Crash u64
  | Market_Data_Delay string u64
  | Archive_Backlog u64

record alert_event =
  ae_alert_id :: string
  ae_level :: alert_level
  ae_alert_type :: alert_type
  ae_status :: alert_status
  ae_message :: string
  ae_created_at_ms :: u64
  ae_updated_at_ms :: "u64 option"

type_synonym alert_vec = "alert_event list"

definition alert_event_of :: "alert_level \<times> alert_type \<times> string \<Rightarrow> u64 \<Rightarrow> nat \<Rightarrow> alert_event" where
  "alert_event_of a now_ms n = (case a of (level, ty, message) \<Rightarrow>
     \<lparr>ae_alert_id = numbered_id ''alert'' (unat now_ms) n, ae_level = level, ae_alert_type = ty,
      ae_status = Pending_Alert, ae_message = message, ae_created_at_ms = now_ms, ae_updated_at_ms = None\<rparr>)"

definition create_alert_event ::
  "alert_level \<times> alert_type \<times> string \<Rightarrow> u64 \<Rightarrow> alert_vec \<Rightarrow> alert_event \<times> alert_vec" where
  "create_alert_event a now_ms alerts =
     (let e = alert_event_of a now_ms (length alerts) in (e, alerts @ [e]))"

definition set_alert_event :: "alert_status \<times> u64 \<Rightarrow> alert_event \<Rightarrow> alert_event" where
  "set_alert_event c e = e\<lparr>ae_status := fst c, ae_updated_at_ms := Some (snd c)\<rparr>"

text \<open>The three handlers change the first alert of that name and return what is found afterwards.\<close>

definition mark_alert_event :: "alert_status \<Rightarrow> string \<Rightarrow> u64 \<Rightarrow> alert_vec \<Rightarrow> alert_event option \<times> alert_vec" where
  "mark_alert_event s i now_ms alerts =
     (let alerts' = update_row ae_alert_id i (set_alert_event (s, now_ms)) alerts
      in (lookup_row ae_alert_id i alerts', alerts'))"

definition acknowledge_alert_event :: "string \<Rightarrow> u64 \<Rightarrow> alert_vec \<Rightarrow> alert_event option \<times> alert_vec" where
  "acknowledge_alert_event = mark_alert_event Acknowledged_Alert"

definition resolve_alert_event :: "string \<Rightarrow> u64 \<Rightarrow> alert_vec \<Rightarrow> alert_event option \<times> alert_vec" where
  "resolve_alert_event = mark_alert_event Resolved_Alert"

definition ignore_alert_event :: "string \<Rightarrow> u64 \<Rightarrow> alert_vec \<Rightarrow> alert_event option \<times> alert_vec" where
  "ignore_alert_event = mark_alert_event Ignored_Alert"

definition pending_alert_events :: "alert_vec \<Rightarrow> alert_event list" where
  "pending_alert_events alerts = filter (\<lambda>a. ae_status a = Pending_Alert) alerts"

definition alert_events_by_level :: "alert_level \<Rightarrow> alert_vec \<Rightarrow> alert_event list" where
  "alert_events_by_level l alerts = filter (\<lambda>a. ae_level a = l) alerts"

interpretation events: numbered_registry ae_alert_id "''alert''" alert_event_of set_alert_event
  by unfold_locales (auto simp: alert_event_of_def set_alert_event_def split: prod.split)

section \<open>The shared map\<close>

record alert =
  al_alert_id :: string
  al_level :: alert_level
  al_title :: string
  al_message :: string
  al_status :: alert_status
  al_source :: string
  al_labels :: labels
  al_created_at_ms :: u64
  al_updated_at_ms :: "u64 option"
  al_acknowledged_at_ms :: "u64 option"
  al_resolved_at_ms :: "u64 option"

type_synonym alert_args = "alert_level \<times> string \<times> string \<times> string \<times> labels"

definition alert_of :: "alert_args \<Rightarrow> u64 \<Rightarrow> nat \<Rightarrow> alert" where
  "alert_of a now_ms n = (case a of (level, title, message, source, lbls) \<Rightarrow>
     \<lparr>al_alert_id = numbered_id ''alert'' (unat now_ms) n, al_level = level, al_title = title,
      al_message = message, al_status = Pending_Alert, al_source = source, al_labels = lbls,
      al_created_at_ms = now_ms, al_updated_at_ms = None, al_acknowledged_at_ms = None,
      al_resolved_at_ms = None\<rparr>)"

text \<open>The second half of a creation, with the number that the first half read.\<close>

definition insert_alert :: "alert_args \<Rightarrow> u64 \<Rightarrow> nat \<Rightarrow> alert list \<Rightarrow> alert \<times> alert list" where
  "insert_alert a now_ms n alerts = (let e = alert_of a now_ms n in (e, hm_insert al_alert_id e alerts))"

definition create_alert :: "alert_args \<Rightarrow> u64 \<Rightarrow> alert list \<Rightarrow> alert \<times> alert list" where
  "create_alert a now_ms alerts = insert_alert a now_ms (length alerts) alerts"

datatype alert_change = Acknowledge u64 | Resolve u64 | Ignore u64

fun change_alert :: "alert_change \<Rightarrow> alert \<Rightarrow> alert" where
  "change_alert (Acknowledge now_ms) a =
     a\<lparr>al_status := Acknowledged_Alert, al_acknowledged_at_ms := Some now_ms, al_updated_at_ms := Some now_ms\<rparr>"
| "change_alert (Resolve now_ms) a =
     a\<lparr>al_status := Resolved_Alert, al_resolved_at_ms := Some now_ms, al_updated_at_ms := Some now_ms\<rparr>"
| "change_alert (Ignore now_ms) a = a\<lparr>al_status := Ignored_Alert, al_updated_at_ms := Some now_ms\<rparr>"

definition acknowledge_alert :: "string \<Rightarrow> u64 \<Rightarrow> alert list \<Rightarrow> alert result \<times> alert list" where
  "acknowledge_alert i now_ms = change_row al_alert_id ''alert not found'' i (change_alert (Acknowledge now_ms))"

definition resolve_alert :: "string \<Rightarrow> u64 \<Rightarrow> alert list \<Rightarrow> alert result \<times> alert list" where
  "resolve_alert i now_ms = change_row al_alert_id ''alert not found'' i (change_alert (Resolve now_ms))"

definition ignore_alert :: "string \<Rightarrow> u64 \<Rightarrow> alert list \<Rightarrow> alert result \<times> alert list" where
  "ignore_alert i now_ms = change_row al_alert_id ''alert not found'' i (change_alert (Ignore now_ms))"

definition get_alerts_by_level :: "alert_level \<Rightarrow> alert list \<Rightarrow> alert list" where
  "get_alerts_by_level l alerts = filter (\<lambda>a. al_level a = l) alerts"

definition get_alerts_by_status :: "alert_status \<Rightarrow> alert list \<Rightarrow> alert list" where
  "get_alerts_by_status s alerts = filter (\<lambda>a. al_status a = s) alerts"

definition get_pending_alerts :: "alert list \<Rightarrow> alert list" where
  "get_pending_alerts alerts = filter (\<lambda>a. al_status a = Pending_Alert) alerts"

definition clear_alerts :: "alert list \<Rightarrow> alert list" where
  "clear_alerts alerts = []"

interpretation alerts: numbered_registry al_alert_id "''alert''" alert_of change_alert
proof
  show "al_alert_id (alert_of a now n) = numbered_id ''alert'' (unat now) n" for a now n
    by (simp add: alert_of_def split: prod.split)
  show "al_alert_id (change_alert c e) = al_alert_id e" for c e by (cases c) simp_all
qed

section \<open>Calls that interleave\<close>

text \<open>
  The map and the creations that have read its length and not yet inserted. Every other call holds
  the lock from beginning to end.
\<close>

type_synonym alert_calls = "alert list \<times> (alert_args \<times> u64 \<times> nat) list"

inductive alert_step :: "alert_calls \<Rightarrow> alert_calls \<Rightarrow> bool" where
  reads: "alert_step (alerts, waiting) (alerts, waiting @ [(a, now_ms, length alerts)])"
| inserts: "k < length waiting \<Longrightarrow> waiting ! k = (a, now_ms, n) \<Longrightarrow>
     alert_step (alerts, waiting) (snd (insert_alert a now_ms n alerts), take k waiting @ drop (Suc k) waiting)"
| acknowledges: "alert_step (alerts, waiting) (snd (acknowledge_alert i now_ms alerts), waiting)"
| resolves: "alert_step (alerts, waiting) (snd (resolve_alert i now_ms alerts), waiting)"
| ignores: "alert_step (alerts, waiting) (snd (ignore_alert i now_ms alerts), waiting)"
| clears: "alert_step (alerts, waiting) (clear_alerts alerts, waiting)"

text \<open>The names stay distinct and every alert is named by its own creation time.\<close>

definition own_time :: "alert \<Rightarrow> bool" where
  "own_time a \<longleftrightarrow> (\<exists>n. al_alert_id a = numbered_id ''alert'' (unat (al_created_at_ms a)) n)"

definition alerts_inv :: "alert list \<Rightarrow> bool" where
  "alerts_inv alerts \<longleftrightarrow> table_ok al_alert_id alerts \<and> (\<forall>a \<in> set alerts. own_time a)"

lemma own_time_alert_of [simp]: "own_time (alert_of a now n)"
  by (auto simp: own_time_def alert_of_def split: prod.split)

lemma own_time_change [simp]: "own_time (change_alert c a) = own_time a"
  by (cases c) (simp_all add: own_time_def)

lemma set_put_row_subset: "set (put_row key r rows) \<subseteq> insert r (set rows)"
  by (induction rows) auto

lemma alerts_inv_insert: "alerts_inv alerts \<Longrightarrow> alerts_inv (snd (insert_alert a now n alerts))"
  using set_put_row_subset[of al_alert_id "alert_of a now n" alerts]
  by (auto simp: alerts_inv_def insert_alert_def Let_def table_ok_hm_insert)
    (auto simp: hm_insert_def split: if_splits)

lemma alerts_inv_update: "alerts_inv alerts \<Longrightarrow> alerts_inv (update_row al_alert_id i (change_alert c) alerts)"
  using alerts.all_update[of alerts own_time i c]
  by (auto simp: alerts_inv_def alerts.ok_update dest: lookup_row_SomeD)

lemma alert_step_inv: "alert_step s s' \<Longrightarrow> alerts_inv (fst s) \<Longrightarrow> alerts_inv (fst s')"
proof (induction rule: alert_step.induct)
  case (inserts k waiting a now_ms n alerts)
  then show ?case by (simp add: alerts_inv_insert)
next
  case (clears alerts waiting)
  then show ?case by (simp add: alerts_inv_def clear_alerts_def)
qed (simp_all add: acknowledge_alert_def resolve_alert_def ignore_alert_def change_row_rows alerts_inv_update)

lemma alert_names_distinct:
  assumes "alert_step\<^sup>*\<^sup>* ([], []) (alerts, waiting)"
  shows "distinct (map al_alert_id alerts)"
proof -
  have "alerts_inv (fst (alerts, waiting))"
    using assms
  proof (induction rule: rtranclp_induct)
    case base
    then show ?case by (simp add: alerts_inv_def)
  next
    case (step s s')
    show ?case using step.hyps(2) step.IH by (rule alert_step_inv)
  qed
  then show ?thesis by (simp add: alerts_inv_def table_ok_def)
qed

text \<open>One call after another, with or without a clearing between them, loses nothing.\<close>

inductive alert_runs :: "alert list \<Rightarrow> bool" where
  none: "alert_runs []"
| created: "alert_runs alerts \<Longrightarrow> alert_runs (snd (create_alert a now_ms alerts))"
| acknowledged: "alert_runs alerts \<Longrightarrow> alert_runs (snd (acknowledge_alert i now_ms alerts))"
| resolved: "alert_runs alerts \<Longrightarrow> alert_runs (snd (resolve_alert i now_ms alerts))"
| ignored: "alert_runs alerts \<Longrightarrow> alert_runs (snd (ignore_alert i now_ms alerts))"
| cleared: "alert_runs alerts \<Longrightarrow> alert_runs (clear_alerts alerts)"

lemma alert_runs_numbered: "alert_runs alerts \<Longrightarrow> alerts.numbered alerts"
  by (induction rule: alert_runs.induct)
    (simp_all add: alerts.numbered_Nil create_alert_def insert_alert_def Let_def alerts.insert_is_append
       alerts.numbered_append acknowledge_alert_def resolve_alert_def ignore_alert_def alerts.numbered_change
       clear_alerts_def)

lemma sequential_creation_loses_nothing:
  assumes "alert_runs alerts" "lookup_row al_alert_id i alerts = Some e"
  shows "lookup_row al_alert_id i (snd (create_alert a now_ms alerts)) = Some e"
  using alerts.create_keeps[OF alert_runs_numbered[OF assms(1)] assms(2)]
  by (simp add: create_alert_def insert_alert_def Let_def)

text \<open>Two calls of one millisecond that both read the length first leave one alert: the first is gone.\<close>

lemma concurrent_creation_loses_alert:
  assumes "alert_runs alerts"
  shows "alert_step\<^sup>*\<^sup>* (alerts, [])
             (alerts @ [alert_of a now_ms (length alerts)], [(b, now_ms, length alerts)])"
    and "alert_step (alerts @ [alert_of a now_ms (length alerts)], [(b, now_ms, length alerts)])
             (alerts @ [alert_of b now_ms (length alerts)], [])"
proof -
  let ?n = "length alerts"
  note num = alert_runs_numbered[OF assms]
  have one: "snd (insert_alert a now_ms ?n alerts) = alerts @ [alert_of a now_ms ?n]"
    using alerts.insert_is_append[OF num] by (simp add: insert_alert_def Let_def)
  then have two: "snd (insert_alert b now_ms ?n (alerts @ [alert_of a now_ms ?n])) = alerts @ [alert_of b now_ms ?n]"
    using alerts.stale_create_overwrites[OF num, of b now_ms a] by (simp add: insert_alert_def Let_def)
  have 1: "alert_step (alerts, []) (alerts, [(a, now_ms, ?n)])"
    using alert_step.reads[of alerts "[]" a now_ms] by simp
  have 2: "alert_step (alerts, [(a, now_ms, ?n)]) (alerts, [(a, now_ms, ?n), (b, now_ms, ?n)])"
    using alert_step.reads[of alerts "[(a, now_ms, ?n)]" b now_ms] by simp
  have 3: "alert_step (alerts, [(a, now_ms, ?n), (b, now_ms, ?n)])
      (alerts @ [alert_of a now_ms ?n], [(b, now_ms, ?n)])"
    using alert_step.inserts[of 0 "[(a, now_ms, ?n), (b, now_ms, ?n)]" a now_ms ?n alerts] by (simp add: one)
  show "alert_step\<^sup>*\<^sup>* (alerts, []) (alerts @ [alert_of a now_ms ?n], [(b, now_ms, ?n)])"
    using 1 2 3 by (metis (no_types, lifting) converse_rtranclp_into_rtranclp rtranclp.rtrancl_refl)
  show "alert_step (alerts @ [alert_of a now_ms ?n], [(b, now_ms, ?n)]) (alerts @ [alert_of b now_ms ?n], [])"
    using alert_step.inserts[of 0 "[(b, now_ms, ?n)]" b now_ms ?n "alerts @ [alert_of a now_ms ?n]"]
    by (simp add: two)
qed

section \<open>The built-in checks\<close>

record alert_check =
  ac_test_name :: string
  ac_passed :: bool
  ac_created :: nat
  ac_acknowledged :: nat
  ac_resolved :: nat

definition alert_check_names :: "string list" where
  "alert_check_names = [''alert_creation'', ''alert_acknowledgment'', ''alert_resolution'', ''alert_queries'']"

definition run_alert_check :: "string \<Rightarrow> alert_check result" where
  "run_alert_check name =
     (let (a, s1) = create_alert (Critical_Alert, ''Test Alert'', ''This is a test alert'', ''test'',
            [(''component'', ''system'')]) 1000 [];
          (r2, s2) = acknowledge_alert (al_alert_id a) 2000 s1
      in then_do r2 (\<lambda>_.
      let (r3, s3) = resolve_alert (al_alert_id a) 3000 s2
      in then_do r3 (\<lambda>_.
      Inr \<lparr>ac_test_name = name,
           ac_passed = (length s3 = 1 \<and> get_pending_alerts s3 = [] \<and> get_alerts_by_level Critical_Alert s3 \<noteq> []
             \<and> al_status (s3 ! 0) = Resolved_Alert),
           ac_created = 1, ac_acknowledged = 1, ac_resolved = 1\<rparr>)))"

definition run_alert_checks :: "alert_check list result" where
  "run_alert_checks = collect run_alert_check alert_check_names"

lemmas alert_ops = create_alert_def insert_alert_def acknowledge_alert_def resolve_alert_def change_row_def
  hm_insert_def alert_of_def get_pending_alerts_def get_alerts_by_level_def

lemma alert_checks_pass:
  "run_alert_checks = Inr (map (\<lambda>n. \<lparr>ac_test_name = n, ac_passed = True, ac_created = 1, ac_acknowledged = 1,
     ac_resolved = 1\<rparr>) alert_check_names)"
  by (simp add: run_alert_checks_def alert_check_names_def run_alert_check_def alert_ops Let_def)

end
