(* ===== verification/Ops_Operations.thy ===== *)
theory Ops_Operations
  imports Ops_Registry
begin

text \<open>
  The registry of maintenance operations, \<open>crates/core/src/operations.rs\<close>: a shared map like that of
  the alerts. A change of state is not checked against the state the operation is in.
\<close>

datatype operation_type = System_Startup | System_Shutdown | Config_Update | Database_Maintenance
  | Log_Cleanup | Backup_Restore

definition operation_type_as_str :: "operation_type \<Rightarrow> string" where
  "operation_type_as_str t = (case t of System_Startup \<Rightarrow> ''SYSTEM_STARTUP''
     | System_Shutdown \<Rightarrow> ''SYSTEM_SHUTDOWN'' | Config_Update \<Rightarrow> ''CONFIG_UPDATE''
     | Database_Maintenance \<Rightarrow> ''DATABASE_MAINTENANCE'' | Log_Cleanup \<Rightarrow> ''LOG_CLEANUP''
     | Backup_Restore \<Rightarrow> ''BACKUP_RESTORE'')"

datatype operation_status = Pending_Op | Running_Op | Completed_Op | Failed_Op | Cancelled_Op

definition operation_status_as_str :: "operation_status \<Rightarrow> string" where
  "operation_status_as_str s = (case s of Pending_Op \<Rightarrow> ''PENDING'' | Running_Op \<Rightarrow> ''RUNNING''
     | Completed_Op \<Rightarrow> ''COMPLETED'' | Failed_Op \<Rightarrow> ''FAILED'' | Cancelled_Op \<Rightarrow> ''CANCELLED'')"

record operation =
  op_operation_id :: string
  op_operation_type :: operation_type
  op_status :: operation_status
  op_description :: string
  op_parameters :: labels
  op_created_at_ms :: u64
  op_started_at_ms :: "u64 option"
  op_completed_at_ms :: "u64 option"
  op_error_message :: "string option"

type_synonym operation_args = "operation_type \<times> string \<times> labels"

definition operation_of :: "operation_args \<Rightarrow> u64 \<Rightarrow> nat \<Rightarrow> operation" where
  "operation_of a now_ms n = (case a of (ty, description, parameters) \<Rightarrow>
     \<lparr>op_operation_id = numbered_id ''op'' (unat now_ms) n, op_operation_type = ty, op_status = Pending_Op,
      op_description = description, op_parameters = parameters, op_created_at_ms = now_ms,
      op_started_at_ms = None, op_completed_at_ms = None, op_error_message = None\<rparr>)"

text \<open>The second half of a creation, with the number read by the first, and both halves together.\<close>

definition insert_operation :: "operation_args \<Rightarrow> u64 \<Rightarrow> nat \<Rightarrow> operation list \<Rightarrow> operation \<times> operation list" where
  "insert_operation a now_ms n ops = (let e = operation_of a now_ms n in (e, hm_insert op_operation_id e ops))"

definition create_operation :: "operation_args \<Rightarrow> u64 \<Rightarrow> operation list \<Rightarrow> operation \<times> operation list" where
  "create_operation a now_ms ops = insert_operation a now_ms (length ops) ops"

datatype operation_change = Start_Op u64 | Complete_Op u64 | Fail_Op string | Cancel_Op

fun change_operation :: "operation_change \<Rightarrow> operation \<Rightarrow> operation" where
  "change_operation (Start_Op now_ms) o' = o'\<lparr>op_status := Running_Op, op_started_at_ms := Some now_ms\<rparr>"
| "change_operation (Complete_Op now_ms) o' = o'\<lparr>op_status := Completed_Op, op_completed_at_ms := Some now_ms\<rparr>"
| "change_operation (Fail_Op e) o' = o'\<lparr>op_status := Failed_Op, op_error_message := Some e\<rparr>"
| "change_operation Cancel_Op o' = o'\<lparr>op_status := Cancelled_Op\<rparr>"

abbreviation alter_operation :: "operation_change \<Rightarrow> string \<Rightarrow> operation list \<Rightarrow> operation result \<times> operation list" where
  "alter_operation c i \<equiv> change_row op_operation_id ''operation not found'' i (change_operation c)"

definition start_operation :: "string \<Rightarrow> u64 \<Rightarrow> operation list \<Rightarrow> operation result \<times> operation list" where
  "start_operation i now_ms = alter_operation (Start_Op now_ms) i"

definition complete_operation :: "string \<Rightarrow> u64 \<Rightarrow> operation list \<Rightarrow> operation result \<times> operation list" where
  "complete_operation i now_ms = alter_operation (Complete_Op now_ms) i"

definition fail_operation :: "string \<Rightarrow> string \<Rightarrow> operation list \<Rightarrow> operation result \<times> operation list" where
  "fail_operation i message = alter_operation (Fail_Op message) i"

definition cancel_operation :: "string \<Rightarrow> operation list \<Rightarrow> operation result \<times> operation list" where
  "cancel_operation i = alter_operation Cancel_Op i"

definition get_operations_by_status :: "operation_status \<Rightarrow> operation list \<Rightarrow> operation list" where
  "get_operations_by_status s ops = filter (\<lambda>o'. op_status o' = s) ops"

definition clear_operations :: "operation list \<Rightarrow> operation list" where
  "clear_operations ops = []"

interpretation operations: numbered_registry op_operation_id "''op''" operation_of change_operation
proof
  show "op_operation_id (operation_of a now n) = numbered_id ''op'' (unat now) n" for a now n
    by (simp add: operation_of_def split: prod.split)
  show "op_operation_id (change_operation c e) = op_operation_id e" for c e by (cases c) simp_all
qed

section \<open>Reachable registries\<close>

inductive operation_runs :: "operation list \<Rightarrow> bool" where
  none: "operation_runs []"
| created: "operation_runs ops \<Longrightarrow> operation_runs (snd (create_operation a now_ms ops))"
| started: "operation_runs ops \<Longrightarrow> operation_runs (snd (start_operation i now_ms ops))"
| completed: "operation_runs ops \<Longrightarrow> operation_runs (snd (complete_operation i now_ms ops))"
| failed: "operation_runs ops \<Longrightarrow> operation_runs (snd (fail_operation i message ops))"
| cancelled: "operation_runs ops \<Longrightarrow> operation_runs (snd (cancel_operation i ops))"
| cleared: "operation_runs ops \<Longrightarrow> operation_runs (clear_operations ops)"

lemmas operation_changes = start_operation_def complete_operation_def fail_operation_def cancel_operation_def

lemma operation_runs_numbered: "operation_runs ops \<Longrightarrow> operations.numbered ops"
  by (induction rule: operation_runs.induct)
    (simp_all add: operations.numbered_Nil create_operation_def insert_operation_def Let_def
       operations.insert_is_append operations.numbered_append operation_changes operations.numbered_change
       clear_operations_def)

text \<open>A state other than the first is backed by its record, whatever the order of the calls.\<close>

definition operation_ok :: "operation \<Rightarrow> bool" where
  "operation_ok o' \<longleftrightarrow> (op_status o' = Running_Op \<longrightarrow> op_started_at_ms o' \<noteq> None)
     \<and> (op_status o' = Completed_Op \<longrightarrow> op_completed_at_ms o' \<noteq> None)
     \<and> (op_status o' = Failed_Op \<longrightarrow> op_error_message o' \<noteq> None)
     \<and> (op_status o' = Pending_Op \<longrightarrow>
          op_started_at_ms o' = None \<and> op_completed_at_ms o' = None \<and> op_error_message o' = None)"

lemma operation_ok_change: "operation_ok (change_operation c o')"
  by (cases c) (simp_all add: operation_ok_def)

lemma operations_ok_update:
  "operation_runs ops \<Longrightarrow> \<forall>o' \<in> set ops. operation_ok o' \<Longrightarrow>
     \<forall>o' \<in> set (update_row op_operation_id i (change_operation c) ops). operation_ok o'"
  by (rule operations.all_update[OF operations.numbered_distinct[OF operation_runs_numbered]])
    (simp_all add: operation_ok_change)

lemma operation_runs_ok: "operation_runs ops \<Longrightarrow> \<forall>o' \<in> set ops. operation_ok o'"
proof (induction rule: operation_runs.induct)
  case (created ops a now_ms)
  then show ?case using operations.insert_is_append[OF operation_runs_numbered[OF created.hyps], of a now_ms]
    by (auto simp: create_operation_def insert_operation_def Let_def operation_ok_def operation_of_def
        split: prod.splits)
qed (simp_all add: operation_changes change_row_rows clear_operations_def operations_ok_update)

text \<open>Nothing guards the changes: an operation that is over can be started again, and its end remains recorded.\<close>

lemma finished_operation_restarts:
  assumes "lookup_row op_operation_id i ops = Some o'" "op_status o' = Completed_Op"
  shows "\<exists>o''. fst (start_operation i now_ms ops) = Inr o'' \<and> op_status o'' = Running_Op
           \<and> op_completed_at_ms o'' = op_completed_at_ms o'"
  using assms by (simp add: start_operation_def change_row_simps)

section \<open>The built-in checks\<close>

record operation_check =
  oc_test_name :: string
  oc_passed :: bool
  oc_created :: nat
  oc_completed :: nat

definition operation_check_names :: "string list" where
  "operation_check_names = [''operation_creation'', ''operation_execution'', ''operation_queries'']"

definition run_operation_check :: "string \<Rightarrow> operation_check result" where
  "run_operation_check name =
     (let (o', s1) = create_operation (System_Startup, ''System startup operation'', [(''key'', ''value'')]) 1000 [];
          (r2, s2) = start_operation (op_operation_id o') 2000 s1
      in then_do r2 (\<lambda>_.
      let (r3, s3) = complete_operation (op_operation_id o') 3000 s2
      in then_do r3 (\<lambda>_.
      Inr \<lparr>oc_test_name = name,
           oc_passed = (length s3 = 1 \<and> get_operations_by_status Completed_Op s3 \<noteq> []
             \<and> op_status (s3 ! 0) = Completed_Op),
           oc_created = 1, oc_completed = 1\<rparr>)))"

definition run_operation_checks :: "operation_check list result" where
  "run_operation_checks = collect run_operation_check operation_check_names"

lemma operation_checks_pass:
  "run_operation_checks = Inr (map (\<lambda>n. \<lparr>oc_test_name = n, oc_passed = True, oc_created = 1, oc_completed = 1\<rparr>)
     operation_check_names)"
  by (simp add: run_operation_checks_def operation_check_names_def run_operation_check_def create_operation_def
      insert_operation_def hm_insert_def operation_of_def operation_changes change_row_def
      get_operations_by_status_def Let_def)

end
