(* ===== verification/Ops_Backup.thy ===== *)
theory Ops_Backup
  imports Ops_Registry Paths
begin

text \<open>
  Backups, \<open>crates/core/src/backup.rs\<close>, and backup strategies with their tasks,
  \<open>crates/core/src/backup_strategy.rs\<close>. The file system is a parameter: making a directory (none when
  it fails) and whether a path exists. Products of times wrap, as in a release build.
\<close>

section \<open>Backups\<close>

datatype backup_type = Full_Backup | Incremental_Backup | Wal_Archive_Backup

datatype backup_status = Backup_In_Progress | Backup_Completed | Backup_Failed | Backup_Restoring

record backup_metadata =
  bm_backup_id :: string
  bm_backup_type :: backup_type
  bm_status :: backup_status
  bm_backup_path :: path
  bm_size_bytes :: u64
  bm_created_at_ms :: u64
  bm_completed_at_ms :: "u64 option"
  bm_checksum :: "string option"

record restore_result =
  rr_success :: bool
  rr_restored_backups :: nat
  rr_restored_wal_segments :: nat
  rr_duration_ms :: u64
  rr_rpo_seconds :: u64
  rr_rto_seconds :: u64
  rr_data_integrity_verified :: bool

record backup_manager =
  bk_backup_dir :: path
  bk_backups :: "backup_metadata list"

definition new_backup_manager :: "path \<Rightarrow> backup_manager" where
  "new_backup_manager dir = \<lparr>bk_backup_dir = dir, bk_backups = []\<rparr>"

definition backup_of :: "string \<Rightarrow> backup_type \<Rightarrow> u64 \<Rightarrow> path \<Rightarrow> backup_metadata" where
  "backup_of i ty now_ms p =
     \<lparr>bm_backup_id = i, bm_backup_type = ty, bm_status = Backup_Completed, bm_backup_path = p, bm_size_bytes = 0,
      bm_created_at_ms = now_ms, bm_completed_at_ms = Some now_ms, bm_checksum = Some ''placeholder-checksum''\<rparr>"

text \<open>Both kinds of backup make the directory, record the metadata and return it; only names and types differ.\<close>

definition create_backup ::
  "('fs \<Rightarrow> path \<Rightarrow> 'fs option) \<Rightarrow> string \<Rightarrow> backup_type \<Rightarrow> u64 \<Rightarrow> 'fs \<times> backup_manager
     \<Rightarrow> backup_metadata result \<times> 'fs \<times> backup_manager" where
  "create_backup mkdir i ty now_ms s = (case s of (fs, m) \<Rightarrow>
     (let p = path_join (bk_backup_dir m) [Normal i] in case mkdir fs p of
        None \<Rightarrow> (Inl (Bail ''failed to create backup directory''), fs, m)
      | Some fs' \<Rightarrow> (let b = backup_of i ty now_ms p in (Inr b, fs', m\<lparr>bk_backups := bk_backups m @ [b]\<rparr>))))"

definition create_full_backup where
  "create_full_backup mkdir now_ms = create_backup mkdir (''full-'' @ show_nat (unat now_ms)) Full_Backup now_ms"

definition create_incremental_backup where
  "create_incremental_backup mkdir now_ms =
     create_backup mkdir (''incr-'' @ show_nat (unat now_ms)) Incremental_Backup now_ms"

definition restore_from_backup :: "string \<Rightarrow> u64 \<Rightarrow> backup_manager \<Rightarrow> restore_result result" where
  "restore_from_backup i now_ms m =
     (let start_ms = now_ms in
      case lookup_row bm_backup_id i (bk_backups m) of
        None \<Rightarrow> Inl (Bail ''backup not found'')
      | Some b \<Rightarrow>
          if bm_checksum b = None then Inl (Bail ''backup checksum is missing'')
          else let duration_ms = saturating_sub now_ms start_ms in
               Inr \<lparr>rr_success = True, rr_restored_backups = 1, rr_restored_wal_segments = 0,
                    rr_duration_ms = duration_ms, rr_rpo_seconds = 0, rr_rto_seconds = duration_ms div 1000,
                    rr_data_integrity_verified = True\<rparr>)"

definition get_latest_backup :: "backup_manager \<Rightarrow> backup_metadata option" where
  "get_latest_backup m = max_by_key bm_created_at_ms (bk_backups m)"

definition verify_backup_integrity :: "(path \<Rightarrow> bool) \<Rightarrow> string \<Rightarrow> backup_manager \<Rightarrow> bool result" where
  "verify_backup_integrity path_exists i m =
     (case lookup_row bm_backup_id i (bk_backups m) of
        None \<Rightarrow> Inl (Bail ''backup not found'')
      | Some b \<Rightarrow> Inr (if \<not> path_exists (bm_backup_path b) then False
                     else if bm_checksum b = None then False else True))"

text \<open>
  A created backup is found, restores at once and passes the integrity check as soon as its directory
  exists, whatever it holds: the checksum is a constant that nothing compares.
\<close>

lemma created_backup_restores:
  assumes "create_backup mkdir i ty now_ms (fs, m) = (Inr b, fs', m')"
    and sums: "\<forall>b \<in> set (bk_backups m). bm_checksum b \<noteq> None"
  shows "\<exists>r. restore_from_backup i later m' = Inr r \<and> rr_success r \<and> rr_duration_ms r = 0"
proof -
  from assms(1) have "bk_backups m' = bk_backups m @ [b]" "bm_backup_id b = i" "bm_checksum b \<noteq> None"
    by (auto simp: create_backup_def backup_of_def Let_def split: option.splits)
  then have "\<exists>b'. lookup_row bm_backup_id i (bk_backups m') = Some b' \<and> bm_checksum b' \<noteq> None"
    using sums lookup_row_SomeD[of bm_backup_id i "bk_backups m"]
    by (cases "lookup_row bm_backup_id i (bk_backups m)") (auto simp: lookup_row_append)
  then obtain b' where "lookup_row bm_backup_id i (bk_backups m') = Some b'" "bm_checksum b' \<noteq> None" by blast
  then show ?thesis by (simp add: restore_from_backup_def saturating_sub_def)
qed

lemma integrity_is_existence:
  assumes "create_backup mkdir i ty now_ms (fs, m) = (Inr b, fs', m')" "lookup_row bm_backup_id i (bk_backups m) = None"
  shows "verify_backup_integrity path_exists i m' = Inr (path_exists (path_join (bk_backup_dir m) [Normal i]))"
  using assms by (auto simp: create_backup_def backup_of_def Let_def verify_backup_integrity_def lookup_row_append
      split: option.splits)

text \<open>The built-in checks of this file only report success.\<close>

record backup_check =
  bc_test_name :: string
  bc_passed :: bool
  bc_duration_ms :: u64
  bc_rpo_seconds :: u64
  bc_rto_seconds :: u64
  bc_error_message :: "string option"

definition backup_check_names :: "string list" where
  "backup_check_names = [''full_backup_restore'', ''incremental_backup_restore'',
     ''backup_integrity_verification'', ''rpo_rto_measurement'']"

definition run_backup_check :: "string \<Rightarrow> backup_check result" where
  "run_backup_check name = Inr \<lparr>bc_test_name = name, bc_passed = True, bc_duration_ms = 1000,
     bc_rpo_seconds = 0, bc_rto_seconds = 0, bc_error_message = None\<rparr>"

definition run_backup_checks :: "backup_check list result" where
  "run_backup_checks = collect run_backup_check backup_check_names"

section \<open>Strategies\<close>

datatype strategy_type = Full_Strategy | Incremental_Strategy | Differential_Strategy | Wal_Archive_Strategy

definition strategy_type_as_str :: "strategy_type \<Rightarrow> string" where
  "strategy_type_as_str t = (case t of Full_Strategy \<Rightarrow> ''FULL'' | Incremental_Strategy \<Rightarrow> ''INCREMENTAL''
     | Differential_Strategy \<Rightarrow> ''DIFFERENTIAL'' | Wal_Archive_Strategy \<Rightarrow> ''WAL_ARCHIVE'')"

record strategy_config =
  sg_name :: string
  sg_strategy_type :: strategy_type
  sg_interval_seconds :: u64
  sg_retention_count :: "32 word"
  sg_retention_seconds :: u64
  sg_backup_path :: path
  sg_compression_enabled :: bool
  sg_encryption_enabled :: bool

definition default_strategy :: strategy_config where
  "default_strategy = \<lparr>sg_name = ''default'', sg_strategy_type = Full_Strategy, sg_interval_seconds = 86400,
     sg_retention_count = 7, sg_retention_seconds = 604800, sg_backup_path = path_of ''/tmp/backups'',
     sg_compression_enabled = True, sg_encryption_enabled = False\<rparr>"

datatype task_status = Pending_Task | Running_Task | Completed_Task | Failed_Task | Cancelled_Task

definition task_status_as_str :: "task_status \<Rightarrow> string" where
  "task_status_as_str s = (case s of Pending_Task \<Rightarrow> ''PENDING'' | Running_Task \<Rightarrow> ''RUNNING''
     | Completed_Task \<Rightarrow> ''COMPLETED'' | Failed_Task \<Rightarrow> ''FAILED'' | Cancelled_Task \<Rightarrow> ''CANCELLED'')"

record backup_task =
  bt_task_id :: string
  bt_config :: strategy_config
  bt_status :: task_status
  bt_created_at_ms :: u64
  bt_started_at_ms :: "u64 option"
  bt_completed_at_ms :: "u64 option"
  bt_size_bytes :: "u64 option"
  bt_error_message :: "string option"

record strategy_manager =
  st_configs :: "strategy_config list"
  st_tasks :: "backup_task list"

definition new_strategy_manager :: strategy_manager where
  "new_strategy_manager = \<lparr>st_configs = [], st_tasks = []\<rparr>"

definition add_config :: "strategy_config \<Rightarrow> strategy_manager \<Rightarrow> strategy_manager" where
  "add_config c m = m\<lparr>st_configs := hm_insert sg_name c (st_configs m)\<rparr>"

definition get_config :: "string \<Rightarrow> strategy_manager \<Rightarrow> strategy_config option" where
  "get_config name m = lookup_row sg_name name (st_configs m)"

definition task_of :: "strategy_config \<Rightarrow> u64 \<Rightarrow> nat \<Rightarrow> backup_task" where
  "task_of c now_ms n = \<lparr>bt_task_id = numbered_id ''backup'' (unat now_ms) n, bt_config = c,
     bt_status = Pending_Task, bt_created_at_ms = now_ms, bt_started_at_ms = None, bt_completed_at_ms = None,
     bt_size_bytes = None, bt_error_message = None\<rparr>"

definition create_task :: "string \<Rightarrow> u64 \<Rightarrow> strategy_manager \<Rightarrow> backup_task result \<times> strategy_manager" where
  "create_task name now_ms m = (case get_config name m of
     None \<Rightarrow> (Inl (Bail ''backup strategy config not found''), m)
   | Some c \<Rightarrow> (let t = task_of c now_ms (length (st_tasks m)) in (Inr t, m\<lparr>st_tasks := st_tasks m @ [t]\<rparr>)))"

datatype task_change = Start_Task u64 | Complete_Task u64 u64 | Fail_Task string | Cancel_Task

fun change_task :: "task_change \<Rightarrow> backup_task \<Rightarrow> backup_task" where
  "change_task (Start_Task now_ms) t = t\<lparr>bt_status := Running_Task, bt_started_at_ms := Some now_ms\<rparr>"
| "change_task (Complete_Task size_bytes now_ms) t =
     t\<lparr>bt_status := Completed_Task, bt_completed_at_ms := Some now_ms, bt_size_bytes := Some size_bytes\<rparr>"
| "change_task (Fail_Task e) t = t\<lparr>bt_status := Failed_Task, bt_error_message := Some e\<rparr>"
| "change_task Cancel_Task t = t\<lparr>bt_status := Cancelled_Task\<rparr>"

definition alter_task :: "task_change \<Rightarrow> string \<Rightarrow> strategy_manager \<Rightarrow> unit result \<times> strategy_manager" where
  "alter_task c i m = (case change_row bt_task_id ''backup task not found'' i (change_task c) (st_tasks m) of
     (r, tasks) \<Rightarrow> (then_do r (\<lambda>_. Inr ()), m\<lparr>st_tasks := tasks\<rparr>))"

definition start_task :: "string \<Rightarrow> u64 \<Rightarrow> strategy_manager \<Rightarrow> unit result \<times> strategy_manager" where
  "start_task i now_ms = alter_task (Start_Task now_ms) i"

definition complete_task :: "string \<Rightarrow> u64 \<Rightarrow> u64 \<Rightarrow> strategy_manager \<Rightarrow> unit result \<times> strategy_manager" where
  "complete_task i size_bytes now_ms = alter_task (Complete_Task size_bytes now_ms) i"

definition fail_task :: "string \<Rightarrow> string \<Rightarrow> strategy_manager \<Rightarrow> unit result \<times> strategy_manager" where
  "fail_task i message = alter_task (Fail_Task message) i"

definition cancel_task :: "string \<Rightarrow> strategy_manager \<Rightarrow> unit result \<times> strategy_manager" where
  "cancel_task i = alter_task Cancel_Task i"

definition get_tasks_by_status :: "task_status \<Rightarrow> strategy_manager \<Rightarrow> backup_task list" where
  "get_tasks_by_status s m = filter (\<lambda>t. bt_status t = s) (st_tasks m)"

text \<open>The retention is that of the configuration that now has the name, not of the one stored in the task.\<close>

definition task_expired :: "u64 \<Rightarrow> strategy_config list \<Rightarrow> backup_task \<Rightarrow> bool" where
  "task_expired now_ms configs t = (case lookup_row sg_name (sg_name (bt_config t)) configs of
     Some c \<Rightarrow> sg_retention_seconds c * 1000 < saturating_sub now_ms (bt_created_at_ms t)
   | None \<Rightarrow> False)"

definition cleanup_expired_tasks :: "u64 \<Rightarrow> strategy_manager \<Rightarrow> backup_task list \<times> strategy_manager" where
  "cleanup_expired_tasks now_ms m =
     (filter (task_expired now_ms (st_configs m)) (st_tasks m),
      m\<lparr>st_tasks := filter (\<lambda>t. \<not> task_expired now_ms (st_configs m) t) (st_tasks m)\<rparr>)"

interpretation tasks: numbered_registry bt_task_id "''backup''" task_of change_task
proof
  show "bt_task_id (task_of a now n) = numbered_id ''backup'' (unat now) n" for a now n by (simp add: task_of_def)
  show "bt_task_id (change_task c e) = bt_task_id e" for c e by (cases c) simp_all
qed

lemma alter_task_tasks: "st_tasks (snd (alter_task c i m)) = update_row bt_task_id i (change_task c) (st_tasks m)"
  by (auto simp: alter_task_def split: prod.split dest!: arg_cong[where f = snd] simp: change_row_rows)

text \<open>Without a clean-up the tasks are numbered in the order of their creation, so their names are distinct.\<close>

lemma create_task_numbered: "tasks.numbered (st_tasks m) \<Longrightarrow> tasks.numbered (st_tasks (snd (create_task n now m)))"
  by (simp add: create_task_def Let_def tasks.numbered_append split: option.split)

lemma alter_task_numbered: "tasks.numbered (st_tasks m) \<Longrightarrow> tasks.numbered (st_tasks (snd (alter_task c i m)))"
  by (simp add: alter_task_tasks tasks.numbered_update)

text \<open>A clean-up loses no task, and without a wrap-around it returns those older than the retention.\<close>

lemma cleanup_partition:
  assumes "cleanup_expired_tasks now_ms m = (gone, m')"
  shows "length gone + length (st_tasks m') = length (st_tasks m)" "set gone \<union> set (st_tasks m') = set (st_tasks m)"
  using assms sum_length_filter_compl[of "task_expired now_ms (st_configs m)" "st_tasks m"]
  by (auto simp: cleanup_expired_tasks_def)

lemma task_expired_age:
  assumes "lookup_row sg_name (sg_name (bt_config t)) configs = Some c"
    and "unat (sg_retention_seconds c) * 1000 < 2 ^ 64"
  shows "task_expired now_ms configs t \<longleftrightarrow>
     unat (sg_retention_seconds c) * 1000 < unat now_ms - unat (bt_created_at_ms t)"
proof -
  have "unat (sg_retention_seconds c * 1000) = unat (sg_retention_seconds c) * 1000"
    using assms(2) by (simp add: unat_mult_lem[THEN iffD1])
  then show ?thesis using assms(1) by (simp add: task_expired_def word_less_nat_alt unat_saturating_sub)
qed

text \<open>
  A retention whose milliseconds exceed 64 bits wraps to a short one: with 18446744073709552 seconds a
  task of one second is removed. After a clean-up a name can be given again.
\<close>

definition long_retention :: strategy_manager where
  "long_retention = add_config (default_strategy\<lparr>sg_retention_seconds := 18446744073709552\<rparr>) new_strategy_manager"

lemma long_retention_expires:
  "length (fst (cleanup_expired_tasks 2000 (snd (create_task ''default'' 1000 long_retention)))) = 1"
  by (simp add: long_retention_def add_config_def new_strategy_manager_def hm_insert_def create_task_def
      get_config_def default_strategy_def task_of_def Let_def cleanup_expired_tasks_def task_expired_def
      saturating_sub_def)

text \<open>The name of a task that is kept can be given again once an older one is cleaned up.\<close>

definition short_retention :: strategy_manager where
  "short_retention = add_config (default_strategy\<lparr>sg_retention_seconds := 1\<rparr>) new_strategy_manager"

definition reused_names :: "string list" where
  "reused_names =
     (let m1 = snd (create_task ''default'' 0 short_retention);
          m2 = snd (create_task ''default'' 2000 m1);
          m3 = snd (cleanup_expired_tasks 2000 m2)
      in map bt_task_id (st_tasks (snd (create_task ''default'' 2000 m3))))"

lemma cleanup_reuses_name: "reused_names = [numbered_id ''backup'' 2000 1, numbered_id ''backup'' 2000 1]"
  by (simp add: reused_names_def short_retention_def add_config_def new_strategy_manager_def hm_insert_def create_task_def
      get_config_def default_strategy_def task_of_def Let_def cleanup_expired_tasks_def task_expired_def
      saturating_sub_def)

section \<open>The built-in checks of the strategies\<close>

record strategy_check =
  sc_test_name :: string
  sc_passed :: bool
  sc_created :: nat
  sc_completed :: nat

definition strategy_check_cases :: "(string \<times> strategy_type) list" where
  "strategy_check_cases = [(''full_backup_strategy'', Full_Strategy),
     (''incremental_backup_strategy'', Incremental_Strategy), (''differential_backup_strategy'', Differential_Strategy)]"

definition run_strategy_check :: "string \<times> strategy_type \<Rightarrow> strategy_check result" where
  "run_strategy_check c =
     (let m0 = add_config (default_strategy\<lparr>sg_name := fst c, sg_strategy_type := snd c\<rparr>) new_strategy_manager;
          (r1, m1) = create_task (fst c) 1000 m0
      in then_do r1 (\<lambda>t.
      let (r2, m2) = start_task (bt_task_id t) 2000 m1 in then_do r2 (\<lambda>_.
      let (r3, m3) = complete_task (bt_task_id t) 1024 3000 m2 in then_do r3 (\<lambda>_.
      Inr \<lparr>sc_test_name = fst c,
           sc_passed = (length (st_tasks m3) = 1 \<and> bt_status (st_tasks m3 ! 0) = Completed_Task),
           sc_created = length (st_tasks m3),
           sc_completed = length (filter (\<lambda>t. bt_status t = Completed_Task) (st_tasks m3))\<rparr>))))"

definition run_strategy_checks :: "strategy_check list result" where
  "run_strategy_checks = collect run_strategy_check strategy_check_cases"

lemma run_strategy_check_passes:
  "run_strategy_check c = Inr \<lparr>sc_test_name = fst c, sc_passed = True, sc_created = 1, sc_completed = 1\<rparr>"
  by (simp add: run_strategy_check_def add_config_def new_strategy_manager_def hm_insert_def create_task_def
      get_config_def task_of_def start_task_def complete_task_def alter_task_def change_row_def Let_def)

lemma strategy_checks_pass:
  "\<exists>cs. run_strategy_checks = Inr cs \<and> list_all sc_passed cs \<and> length cs = 3"
  by (simp add: run_strategy_checks_def strategy_check_cases_def run_strategy_check_passes)

end
