(* ===== verification/Ops_Recovery.thy ===== *)
theory Ops_Recovery
  imports Ops_Registry
begin

text \<open>
  Measuring recovery objectives, \<open>crates/core/src/rpo_rto.rs\<close>, drills of the run books,
  \<open>crates/core/src/runbook.rs\<close>, and the injector of faults, \<open>crates/core/src/fault_injection.rs\<close>. The
  Chinese texts of the drill steps are represented by constructors, one for each. The random sample
  and the comparison of floating point numbers are parameters of the injector. The start instant of a
  measurement, which nothing reads, is left out.
\<close>

section \<open>Recovery objectives\<close>

record recovery_target =
  rt_rpo_seconds :: u64
  rt_rto_seconds :: u64

definition default_target :: recovery_target where
  "default_target = \<lparr>rt_rpo_seconds = 300, rt_rto_seconds = 1800\<rparr>"

record measurement =
  ms_measurement_id :: string
  ms_actual_rpo_seconds :: u64
  ms_actual_rto_seconds :: u64
  ms_rpo_target :: u64
  ms_rto_target :: u64
  ms_rpo_met :: bool
  ms_rto_met :: bool
  ms_started_at_ms :: u64
  ms_completed_at_ms :: u64
  ms_duration_ms :: u64

record measurer =
  mr_target :: recovery_target
  mr_measurements :: "measurement list"

record measurement_context =
  mc_measurement_id :: string
  mc_target :: recovery_target
  mc_started_at_ms :: u64

definition new_measurer :: "recovery_target \<Rightarrow> measurer" where
  "new_measurer t = \<lparr>mr_target = t, mr_measurements = []\<rparr>"

definition start_measurement :: "measurer \<Rightarrow> u64 \<Rightarrow> measurement_context" where
  "start_measurement m now_ms = \<lparr>mc_measurement_id = ''rpo-rto-'' @ show_nat (unat now_ms),
     mc_target = mr_target m, mc_started_at_ms = now_ms\<rparr>"

definition measurement_of :: "measurement_context \<Rightarrow> u64 \<Rightarrow> u64 \<Rightarrow> measurement" where
  "measurement_of c actual_rpo_seconds now_ms =
     (let duration_ms = saturating_sub now_ms (mc_started_at_ms c);
          actual_rto_seconds = duration_ms div 1000
      in \<lparr>ms_measurement_id = mc_measurement_id c, ms_actual_rpo_seconds = actual_rpo_seconds,
          ms_actual_rto_seconds = actual_rto_seconds, ms_rpo_target = rt_rpo_seconds (mc_target c),
          ms_rto_target = rt_rto_seconds (mc_target c),
          ms_rpo_met = (actual_rpo_seconds \<le> rt_rpo_seconds (mc_target c)),
          ms_rto_met = (actual_rto_seconds \<le> rt_rto_seconds (mc_target c)),
          ms_started_at_ms = mc_started_at_ms c, ms_completed_at_ms = now_ms, ms_duration_ms = duration_ms\<rparr>)"

definition complete_measurement :: "measurement_context \<Rightarrow> u64 \<Rightarrow> u64 \<Rightarrow> measurer \<Rightarrow> measurement \<times> measurer" where
  "complete_measurement c actual_rpo_seconds now_ms m =
     (let x = measurement_of c actual_rpo_seconds now_ms in (x, m\<lparr>mr_measurements := mr_measurements m @ [x]\<rparr>))"

definition get_latest_measurement :: "measurer \<Rightarrow> measurement option" where
  "get_latest_measurement m = max_by_key ms_completed_at_ms (mr_measurements m)"

definition all_targets_met :: "measurer \<Rightarrow> bool" where
  "all_targets_met m \<longleftrightarrow> list_all (\<lambda>x. ms_rpo_met x \<and> ms_rto_met x) (mr_measurements m)"

text \<open>
  The recovery time is cut to whole seconds before it is compared, so a recovery may take up to one
  second longer than its target and still meet it; a clock that went back counts as no time.
\<close>

lemma rto_met_iff:
  "ms_rto_met (measurement_of c rpo now_ms) \<longleftrightarrow>
     unat now_ms - unat (mc_started_at_ms c) < (unat (rt_rto_seconds (mc_target c)) + 1) * 1000"
proof -
  have "unat (saturating_sub now_ms (mc_started_at_ms c) div 1000)
      = (unat now_ms - unat (mc_started_at_ms c)) div 1000"
    by (simp add: unat_div_distrib unat_saturating_sub)
  then show ?thesis
    by (auto simp: measurement_of_def Let_def word_le_nat_alt less_mult_imp_div_less div_less_iff_less_mult
        simp flip: less_Suc_eq_le)
qed

lemma latest_measurement_after_complete:
  assumes "complete_measurement c rpo now_ms m = (x, m')" "\<forall>y \<in> set (mr_measurements m). ms_completed_at_ms y \<le> now_ms"
  shows "get_latest_measurement m' = Some x"
    and "all_targets_met m' \<longleftrightarrow> all_targets_met m \<and> ms_rpo_met x \<and> ms_rto_met x"
proof -
  have x: "x = measurement_of c rpo now_ms" "mr_measurements m' = mr_measurements m @ [x]"
    "ms_completed_at_ms x = now_ms"
    using assms(1) by (auto simp: complete_measurement_def measurement_of_def Let_def)
  then show "get_latest_measurement m' = Some x"
    using assms(2) max_by_key_greatest[of ms_completed_at_ms "mr_measurements m"]
    by (auto simp: get_latest_measurement_def max_by_key_append split: option.split)
  show "all_targets_met m' \<longleftrightarrow> all_targets_met m \<and> ms_rpo_met x \<and> ms_rto_met x"
    by (simp add: all_targets_met_def x)
qed

record recovery_check =
  rc_test_name :: string
  rc_passed :: bool
  rc_actual_rpo_seconds :: u64
  rc_actual_rto_seconds :: u64
  rc_rpo_met :: bool
  rc_rto_met :: bool

definition recovery_check_cases :: "(string \<times> u64 \<times> u64) list" where
  "recovery_check_cases = [(''rpo_within_target'', 300, 1800), (''rto_within_target'', 300, 1800),
     (''rpo_exceeds_target'', 600, 1800), (''rto_exceeds_target'', 300, 2400)]"

definition run_recovery_check :: "string \<times> u64 \<times> u64 \<Rightarrow> recovery_check" where
  "run_recovery_check t = (case t of (name, rpo, rto) \<Rightarrow>
     (let m = new_measurer \<lparr>rt_rpo_seconds = rpo, rt_rto_seconds = rto\<rparr>;
          c = start_measurement m 1000;
          actual_rpo = (if contains_str name ''exceeds'' then rpo + 100 else rpo - 50);
          x = fst (complete_measurement c actual_rpo 2000 m)
      in \<lparr>rc_test_name = name, rc_passed = (ms_rpo_met x \<and> ms_rto_met x),
          rc_actual_rpo_seconds = ms_actual_rpo_seconds x, rc_actual_rto_seconds = ms_actual_rto_seconds x,
          rc_rpo_met = ms_rpo_met x, rc_rto_met = ms_rto_met x\<rparr>))"

definition run_recovery_checks :: "recovery_check list" where
  "run_recovery_checks = map run_recovery_check recovery_check_cases"

text \<open>The case that is to exceed the recovery time meets it: what it misses is the recovery point.\<close>

lemma recovery_checks_verdicts:
  "map (\<lambda>c. (rc_rpo_met c, rc_rto_met c)) run_recovery_checks =
     [(True, True), (True, True), (False, True), (False, True)]"
  by (simp add: run_recovery_checks_def recovery_check_cases_def run_recovery_check_def Let_def new_measurer_def
      start_measurement_def complete_measurement_def measurement_of_def saturating_sub_def starts_with_def)

section \<open>Drills\<close>

datatype drill_scenario = Startup_Drill | Shutdown_Drill | Fault_Recovery_Drill | Database_Recovery_Drill
  | Config_Update_Drill | Log_Cleanup_Drill

definition drill_scenario_as_str :: "drill_scenario \<Rightarrow> string" where
  "drill_scenario_as_str s = (case s of Startup_Drill \<Rightarrow> ''SYSTEM_STARTUP'' | Shutdown_Drill \<Rightarrow> ''SYSTEM_SHUTDOWN''
     | Fault_Recovery_Drill \<Rightarrow> ''FAULT_RECOVERY'' | Database_Recovery_Drill \<Rightarrow> ''DATABASE_RECOVERY''
     | Config_Update_Drill \<Rightarrow> ''CONFIG_UPDATE'' | Log_Cleanup_Drill \<Rightarrow> ''LOG_CLEANUP'')"

datatype drill_action =
    Check_Config_File | Check_Database_Connection | Start_System_Service
  | Stop_New_Requests | Await_Requests | Stop_System_Service
  | Detect_Fault | Isolate_Component | Recover_Component
  | Stop_Database | Restore_From_Backup | Start_Database
  | Back_Up_Config | Update_Config_File | Restart_System_Service
  | Check_Log_Size | Clean_Expired_Logs | Compress_Logs

datatype drill_text = Action_Text drill_action | Expected_Text drill_action | Simulated_Success

datatype step_status = Pending_Step | In_Progress_Step | Passed_Step | Failed_Step | Skipped_Step

definition step_status_as_str :: "step_status \<Rightarrow> string" where
  "step_status_as_str s = (case s of Pending_Step \<Rightarrow> ''PENDING'' | In_Progress_Step \<Rightarrow> ''IN_PROGRESS''
     | Passed_Step \<Rightarrow> ''PASSED'' | Failed_Step \<Rightarrow> ''FAILED'' | Skipped_Step \<Rightarrow> ''SKIPPED'')"

record drill_step =
  ds_step_number :: "32 word"
  ds_description :: drill_text
  ds_expected_result :: drill_text
  ds_actual_result :: "drill_text option"
  ds_status :: step_status

record drill_result =
  dl_scenario :: drill_scenario
  dl_steps :: "drill_step list"
  dl_passed :: bool
  dl_started_at_ms :: u64
  dl_completed_at_ms :: u64
  dl_duration_ms :: u64
  dl_error_message :: "string option"

record drill_manager =
  dm_scenarios :: "drill_scenario list"
  dm_results :: "drill_result list"

definition new_drill_manager :: drill_manager where
  "new_drill_manager = \<lparr>dm_scenarios = [], dm_results = []\<rparr>"

definition add_scenario :: "drill_scenario \<Rightarrow> drill_manager \<Rightarrow> drill_manager" where
  "add_scenario s m = m\<lparr>dm_scenarios := dm_scenarios m @ [s]\<rparr>"

definition drill_actions :: "drill_scenario \<Rightarrow> drill_action list" where
  "drill_actions s = (case s of
     Startup_Drill \<Rightarrow> [Check_Config_File, Check_Database_Connection, Start_System_Service]
   | Shutdown_Drill \<Rightarrow> [Stop_New_Requests, Await_Requests, Stop_System_Service]
   | Fault_Recovery_Drill \<Rightarrow> [Detect_Fault, Isolate_Component, Recover_Component]
   | Database_Recovery_Drill \<Rightarrow> [Stop_Database, Restore_From_Backup, Start_Database]
   | Config_Update_Drill \<Rightarrow> [Back_Up_Config, Update_Config_File, Restart_System_Service]
   | Log_Cleanup_Drill \<Rightarrow> [Check_Log_Size, Clean_Expired_Logs, Compress_Logs])"

fun steps_from :: "32 word \<Rightarrow> drill_action list \<Rightarrow> drill_step list" where
  "steps_from n [] = []"
| "steps_from n (a # as) = \<lparr>ds_step_number = n, ds_description = Action_Text a, ds_expected_result = Expected_Text a,
     ds_actual_result = None, ds_status = Pending_Step\<rparr> # steps_from (n + 1) as"

definition create_steps_for_scenario :: "drill_scenario \<Rightarrow> drill_step list" where
  "create_steps_for_scenario s = steps_from 1 (drill_actions s)"

definition perform_step :: "drill_step \<Rightarrow> drill_step" where
  "perform_step s = (let s' = s\<lparr>ds_status := In_Progress_Step\<rparr>
     in s'\<lparr>ds_status := Passed_Step, ds_actual_result := Some Simulated_Success\<rparr>)"

definition execute_drill :: "drill_scenario \<Rightarrow> u64 \<Rightarrow> drill_manager \<Rightarrow> drill_result \<times> drill_manager" where
  "execute_drill s now_ms m =
     (let r = \<lparr>dl_scenario = s, dl_steps = map perform_step (create_steps_for_scenario s), dl_passed = True,
               dl_started_at_ms = now_ms, dl_completed_at_ms = now_ms + 1000, dl_duration_ms = 1000,
               dl_error_message = None\<rparr>
      in (r, m\<lparr>dm_results := dm_results m @ [r]\<rparr>))"

definition get_latest_drill :: "drill_manager \<Rightarrow> drill_result option" where
  "get_latest_drill m = max_by_key dl_completed_at_ms (dm_results m)"

definition all_drills_passed :: "drill_manager \<Rightarrow> bool" where
  "all_drills_passed m \<longleftrightarrow> list_all dl_passed (dm_results m)"

text \<open>The drills are simulations: whatever is drilled passes, step by step, in one second.\<close>

inductive drilled :: "drill_manager \<Rightarrow> bool" where
  fresh: "drilled new_drill_manager"
| added: "drilled m \<Longrightarrow> drilled (add_scenario s m)"
| executed: "drilled m \<Longrightarrow> drilled (snd (execute_drill s now_ms m))"

lemma drills_always_pass: "drilled m \<Longrightarrow> all_drills_passed m"
  by (induction rule: drilled.induct)
    (simp_all add: all_drills_passed_def new_drill_manager_def add_scenario_def execute_drill_def Let_def)

lemma drill_steps_numbered:
  "map ds_step_number (dl_steps (fst (execute_drill s now_ms m))) = [1, 2, 3]"
  "list_all (\<lambda>x. ds_status x = Passed_Step) (dl_steps (fst (execute_drill s now_ms m)))"
  by (cases s; simp add: execute_drill_def Let_def create_steps_for_scenario_def drill_actions_def perform_step_def)+

record drill_check =
  dk_test_name :: string
  dk_passed :: bool
  dk_duration_ms :: u64
  dk_steps_passed :: nat
  dk_steps_total :: nat

definition drill_check_cases :: "(string \<times> drill_scenario) list" where
  "drill_check_cases = [(''system_startup_drill'', Startup_Drill), (''system_shutdown_drill'', Shutdown_Drill),
     (''fault_recovery_drill'', Fault_Recovery_Drill), (''database_recovery_drill'', Database_Recovery_Drill)]"

definition run_drill_check :: "string \<times> drill_scenario \<Rightarrow> drill_check" where
  "run_drill_check c = (let r = fst (execute_drill (snd c) 1000 new_drill_manager)
     in \<lparr>dk_test_name = fst c, dk_passed = dl_passed r, dk_duration_ms = dl_duration_ms r,
         dk_steps_passed = length (filter (\<lambda>s. ds_status s = Passed_Step) (dl_steps r)),
         dk_steps_total = length (dl_steps r)\<rparr>)"

definition run_drill_checks :: "drill_check list" where
  "run_drill_checks = map run_drill_check drill_check_cases"

section \<open>Injected faults\<close>

datatype 'f fault_type =
    Packet_Loss 'f
  | Duplicate_Messages 'f
  | Disconnect_Fault u64
  | Crash_Fault u64
  | Database_Fault u64

record 'f fault_injector =
  fi_fault_type :: "'f fault_type"
  fi_enabled :: bool

definition new_injector :: "'f fault_type \<Rightarrow> 'f fault_injector" where
  "new_injector f = \<lparr>fi_fault_type = f, fi_enabled = True\<rparr>"

definition disable_injector :: "'f fault_injector \<Rightarrow> 'f fault_injector" where
  "disable_injector i = i\<lparr>fi_enabled := False\<rparr>"

definition enable_injector :: "'f fault_injector \<Rightarrow> 'f fault_injector" where
  "enable_injector i = i\<lparr>fi_enabled := True\<rparr>"

definition should_trigger :: "('f \<Rightarrow> 'f \<Rightarrow> bool) \<Rightarrow> 'f \<Rightarrow> 'f fault_injector \<Rightarrow> bool" where
  "should_trigger lt sample i =
     (if \<not> fi_enabled i then False
      else case fi_fault_type i of
          Packet_Loss rate \<Rightarrow> lt sample rate
        | Duplicate_Messages rate \<Rightarrow> lt sample rate
        | Disconnect_Fault _ \<Rightarrow> False | Crash_Fault _ \<Rightarrow> False | Database_Fault _ \<Rightarrow> False)"

definition fault_duration :: "'f fault_injector \<Rightarrow> u64 option" where
  "fault_duration i = (case fi_fault_type i of
     Disconnect_Fault ms \<Rightarrow> Some ms | Database_Fault ms \<Rightarrow> Some ms | _ \<Rightarrow> None)"

text \<open>A fault that lasts is never triggered by the injector itself.\<close>

lemma lasting_faults_never_trigger: "fault_duration i \<noteq> None \<Longrightarrow> \<not> should_trigger lt sample i"
  by (auto simp: fault_duration_def should_trigger_def split: fault_type.splits)

lemma disabled_never_triggers:
  "\<not> should_trigger lt sample (disable_injector i)"
  "should_trigger lt sample (enable_injector (disable_injector i)) \<longleftrightarrow> should_trigger lt sample (enable_injector i)"
  by (simp_all add: should_trigger_def disable_injector_def enable_injector_def)

record fault_check =
  fc_fault_type :: string
  fc_triggered :: bool
  fc_duration_ms :: "u64 option"
  fc_recovery_detected :: bool
  fc_data_integrity_preserved :: bool

definition run_fault_check :: "('f \<Rightarrow> 'f \<Rightarrow> bool) \<Rightarrow> 'f \<Rightarrow> string \<times> 'f fault_type \<Rightarrow> fault_check" where
  "run_fault_check lt sample t = (let i = new_injector (snd t) in
     \<lparr>fc_fault_type = fst t, fc_triggered = should_trigger lt sample i, fc_duration_ms = fault_duration i,
      fc_recovery_detected = True, fc_data_integrity_preserved = True\<rparr>)"

text \<open>The five tests, over the rates one tenth, one half and one twentieth.\<close>

definition fault_check_cases :: "'f \<Rightarrow> 'f \<Rightarrow> 'f \<Rightarrow> (string \<times> 'f fault_type) list" where
  "fault_check_cases tenth half twentieth =
     [(''packet_loss_10_percent'', Packet_Loss tenth), (''packet_loss_50_percent'', Packet_Loss half),
      (''duplicate_messages'', Duplicate_Messages twentieth), (''disconnect_recovery'', Disconnect_Fault 5000),
      (''database_failure_recovery'', Database_Fault 10000)]"

definition run_fault_checks :: "('f \<Rightarrow> 'f \<Rightarrow> bool) \<Rightarrow> 'f list \<Rightarrow> (string \<times> 'f fault_type) list \<Rightarrow> fault_check list" where
  "run_fault_checks lt samples tests = map2 (run_fault_check lt) samples tests"

end
