(* ===== verification/Ops_Health.thy ===== *)
theory Ops_Health
  imports Ops_Registry
begin

text \<open>
  Health checks, \<open>crates/core/src/health.rs\<close> and \<open>crates/core/src/system_health.rs\<close>, and the delivery
  of notifications, \<open>crates/core/src/notification.rs\<close>. Both files of checks declare the same states,
  items and results. The clock readings are parameters; durations are milliseconds; the Chinese
  messages of the checks are represented by constructors. A sender of notifications is a function from
  the message to a result or the text of an error; the time it takes is bound when it is made.
\<close>

section \<open>Checks\<close>

datatype health_status = Healthy | Unhealthy | Degraded

definition health_status_as_str :: "health_status \<Rightarrow> string" where
  "health_status_as_str s = (case s of Healthy \<Rightarrow> ''HEALTHY'' | Unhealthy \<Rightarrow> ''UNHEALTHY'' | Degraded \<Rightarrow> ''DEGRADED'')"

datatype health_message = Database_Connected | Memory_Normal | Disk_Sufficient | Cpu_Normal

record health_item =
  hi_name :: string
  hi_status :: health_status
  hi_message :: "health_message option"
  hi_response_time_ms :: u64

record health_result =
  hr_status :: health_status
  hr_timestamp_ms :: u64
  hr_response_time_ms :: u64
  hr_checks :: "health_item list"

definition check_database :: "u64 \<Rightarrow> health_item" where
  "check_database ms = \<lparr>hi_name = ''database'', hi_status = Healthy, hi_message = Some Database_Connected,
     hi_response_time_ms = ms\<rparr>"

definition check_memory :: "u64 \<Rightarrow> health_item" where
  "check_memory ms = \<lparr>hi_name = ''memory'', hi_status = Healthy, hi_message = Some Memory_Normal,
     hi_response_time_ms = ms\<rparr>"

definition check_disk :: "u64 \<Rightarrow> health_item" where
  "check_disk ms = \<lparr>hi_name = ''disk'', hi_status = Healthy, hi_message = Some Disk_Sufficient,
     hi_response_time_ms = ms\<rparr>"

definition check_cpu :: "u64 \<Rightarrow> health_item" where
  "check_cpu ms = \<lparr>hi_name = ''cpu'', hi_status = Healthy, hi_message = Some Cpu_Normal, hi_response_time_ms = ms\<rparr>"

definition overall_health :: "health_item list \<Rightarrow> health_status" where
  "overall_health checks =
     (if list_all (\<lambda>c. hi_status c = Healthy) checks then Healthy
      else if list_ex (\<lambda>c. hi_status c = Unhealthy) checks then Unhealthy
      else Degraded)"

text \<open>The overall state is the worst of the states of the checks.\<close>

fun health_rank :: "health_status \<Rightarrow> nat" where
  "health_rank Healthy = 0" | "health_rank Degraded = 1" | "health_rank Unhealthy = 2"

lemma overall_health_worst:
  assumes "c \<in> set checks"
  shows "health_rank (hi_status c) \<le> health_rank (overall_health checks)"
    and "overall_health checks \<in> hi_status ` set checks"
proof -
  have "hi_status c = Healthy \<or> hi_status c = Unhealthy \<or> hi_status c = Degraded" by (cases "hi_status c") simp_all
  then show "health_rank (hi_status c) \<le> health_rank (overall_health checks)"
    using assms by (auto simp: overall_health_def list_all_iff list_ex_iff)
  consider "\<forall>x \<in> set checks. hi_status x = Healthy"
    | x where "x \<in> set checks" "hi_status x = Unhealthy"
    | x where "x \<in> set checks" "hi_status x = Degraded" "\<forall>y \<in> set checks. hi_status y \<noteq> Unhealthy"
    by (metis health_status.exhaust)
  then show "overall_health checks \<in> hi_status ` set checks"
    using assms by cases (auto simp: overall_health_def list_all_iff list_ex_iff rev_image_eqI)
qed

section \<open>The checker of three parts\<close>

record health_checker =
  hc_endpoint :: string
  hc_interval_ms :: nat
  hc_timeout_ms :: nat

definition new_health_checker :: "string \<Rightarrow> health_checker" where
  "new_health_checker endpoint = \<lparr>hc_endpoint = endpoint, hc_interval_ms = 30000, hc_timeout_ms = 10000\<rparr>"

definition with_interval :: "nat \<Rightarrow> health_checker \<Rightarrow> health_checker" where
  "with_interval d c = c\<lparr>hc_interval_ms := d\<rparr>"

definition with_timeout :: "nat \<Rightarrow> health_checker \<Rightarrow> health_checker" where
  "with_timeout d c = c\<lparr>hc_timeout_ms := d\<rparr>"

text \<open>The time of day can fail to be read; the elapsed times are those of the three checks and of the whole.\<close>

definition check_health :: "u64 result \<Rightarrow> u64 \<times> u64 \<times> u64 \<times> u64 \<Rightarrow> health_result result" where
  "check_health now elapsed = (case elapsed of (db, memory, disk, whole) \<Rightarrow>
     then_do now (\<lambda>timestamp_ms.
       let checks = [check_database db, check_memory memory, check_disk disk]
       in Inr \<lparr>hr_status = overall_health checks, hr_timestamp_ms = timestamp_ms, hr_response_time_ms = whole,
               hr_checks = checks\<rparr>))"

datatype health_report = Health_Status_Line health_status | Check_Failed_Line error

text \<open>One round of the background task: what it prints; it then sleeps for the interval, forever.\<close>

definition background_round :: "health_result result \<Rightarrow> health_report list" where
  "background_round r = (case r of
     Inr x \<Rightarrow> if hr_status x \<noteq> Healthy then [Health_Status_Line (hr_status x)] else []
   | Inl e \<Rightarrow> [Check_Failed_Line e])"

text \<open>No check looks at anything, so the task never reports a state, only a clock that cannot be read.\<close>

lemma check_health_always_healthy:
  "check_health now elapsed = Inr r \<Longrightarrow> hr_status r = Healthy"
  by (auto simp: check_health_def overall_health_def check_database_def check_memory_def check_disk_def
      split: prod.splits)

lemma background_silent: "background_round (check_health (Inr t) elapsed) = []"
  by (simp add: background_round_def check_health_def overall_health_def check_database_def check_memory_def
      check_disk_def split: prod.splits)

record graceful_shutdown = gs_timeout_ms :: nat

definition default_shutdown :: graceful_shutdown where
  "default_shutdown = \<lparr>gs_timeout_ms = 30000\<rparr>"

text \<open>A stop waits for the whole of its time and succeeds; the result is the time it ends.\<close>

definition shut_down :: "nat \<Rightarrow> graceful_shutdown \<Rightarrow> unit result \<times> nat" where
  "shut_down now g = (Inr (), now + gs_timeout_ms g)"

section \<open>The checker that keeps its results\<close>

type_synonym system_health = "health_result list"

definition check_system_health ::
  "u64 \<Rightarrow> u64 \<times> u64 \<times> u64 \<times> u64 \<times> u64 \<Rightarrow> system_health \<Rightarrow> health_result \<times> system_health" where
  "check_system_health timestamp_ms elapsed results = (case elapsed of (db, memory, disk, cpu, whole) \<Rightarrow>
     (let checks = [check_database db, check_memory memory, check_disk disk, check_cpu cpu];
          r = \<lparr>hr_status = overall_health checks, hr_timestamp_ms = timestamp_ms, hr_response_time_ms = whole,
               hr_checks = checks\<rparr>
      in (r, results @ [r])))"

definition get_latest_health :: "system_health \<Rightarrow> health_result option" where
  "get_latest_health results = (if results = [] then None else Some (last results))"

definition clear_health :: "system_health \<Rightarrow> system_health" where
  "clear_health results = []"

lemma latest_health_after_check:
  "check_system_health t e results = (r, results') \<Longrightarrow> get_latest_health results' = Some r \<and> butlast results' = results"
  by (auto simp: check_system_health_def get_latest_health_def Let_def split: prod.splits)

record health_check =
  hk_test_name :: string
  hk_passed :: bool
  hk_checks_performed :: nat
  hk_health_status :: string

definition health_check_names :: "string list" where
  "health_check_names = [''health_check_execution'', ''health_check_history'']"

text \<open>The assertions of the test panic when they do not hold.\<close>

definition assert_that :: "bool \<Rightarrow> unit result" where
  "assert_that b = (if b then Inr () else Inl (Panic ''assertion failed''))"

definition run_health_check ::
  "u64 \<Rightarrow> u64 \<times> u64 \<times> u64 \<times> u64 \<times> u64 \<Rightarrow> string \<Rightarrow> health_check result" where
  "run_health_check t e name = (let (r, results) = check_system_health t e [] in
     then_do (assert_that (hr_status r = Healthy)) (\<lambda>_.
     then_do (assert_that (length (hr_checks r) = 4)) (\<lambda>_.
     then_do (assert_that (length results = 1)) (\<lambda>_.
     then_do (assert_that (get_latest_health results \<noteq> None)) (\<lambda>_.
     Inr \<lparr>hk_test_name = name, hk_passed = True, hk_checks_performed = 4,
          hk_health_status = health_status_as_str (hr_status r)\<rparr>)))))"

definition run_health_checks ::
  "u64 \<Rightarrow> u64 \<times> u64 \<times> u64 \<times> u64 \<times> u64 \<Rightarrow> health_check list result" where
  "run_health_checks t e = collect (run_health_check t e) health_check_names"

lemma run_health_check_passes:
  "run_health_check t e name = Inr \<lparr>hk_test_name = name, hk_passed = True, hk_checks_performed = 4,
     hk_health_status = ''HEALTHY''\<rparr>"
  by (cases e) (simp add: run_health_check_def check_system_health_def Let_def overall_health_def check_database_def
      check_memory_def check_disk_def check_cpu_def assert_that_def get_latest_health_def health_status_as_str_def)

section \<open>Notifications\<close>

datatype notification_channel = Log_Channel | Console_Channel | Webhook_Channel | Email_Channel | Sms_Channel

definition channel_as_str :: "notification_channel \<Rightarrow> string" where
  "channel_as_str c = (case c of Log_Channel \<Rightarrow> ''LOG'' | Console_Channel \<Rightarrow> ''CONSOLE'' | Webhook_Channel \<Rightarrow> ''WEBHOOK''
     | Email_Channel \<Rightarrow> ''EMAIL'' | Sms_Channel \<Rightarrow> ''SMS'')"

record notification_message =
  nm_message_id :: string
  nm_level :: string
  nm_title :: string
  nm_content :: string
  nm_timestamp_ms :: u64
  nm_source :: string
  nm_labels :: labels

record notification_result =
  nr_channel :: notification_channel
  nr_success :: bool
  nr_error_message :: "string option"
  nr_response_time_ms :: u64

type_synonym sender = "notification_message \<Rightarrow> string + notification_result"

definition sent_on :: "notification_channel \<Rightarrow> u64 \<Rightarrow> notification_result" where
  "sent_on c ms = \<lparr>nr_channel = c, nr_success = True, nr_error_message = None, nr_response_time_ms = ms\<rparr>"

definition log_sender :: "u64 \<Rightarrow> sender" where
  "log_sender ms message = Inr (sent_on Log_Channel ms)"

definition console_sender :: "u64 \<Rightarrow> sender" where
  "console_sender ms message = Inr (sent_on Console_Channel ms)"

definition webhook_sender :: "string \<Rightarrow> u64 \<Rightarrow> sender" where
  "webhook_sender url ms message = Inr (sent_on Webhook_Channel ms)"

record notification_manager =
  nf_senders :: "sender list"
  nf_results :: "notification_result list"

definition new_notification_manager :: notification_manager where
  "new_notification_manager = \<lparr>nf_senders = [], nf_results = []\<rparr>"

definition add_sender :: "sender \<Rightarrow> notification_manager \<Rightarrow> notification_manager" where
  "add_sender s m = m\<lparr>nf_senders := nf_senders m @ [s]\<rparr>"

definition delivery :: "notification_message \<Rightarrow> sender \<Rightarrow> notification_result" where
  "delivery message s = (case s message of
     Inr r \<Rightarrow> r
   | Inl e \<Rightarrow> \<lparr>nr_channel = Log_Channel, nr_success = False, nr_error_message = Some e, nr_response_time_ms = 0\<rparr>)"

definition send_notification ::
  "notification_message \<Rightarrow> notification_manager \<Rightarrow> notification_result list \<times> notification_manager" where
  "send_notification message m = (let rs = map (delivery message) (nf_senders m)
     in (rs, m\<lparr>nf_results := nf_results m @ rs\<rparr>))"

definition clear_notifications :: "notification_manager \<Rightarrow> notification_manager" where
  "clear_notifications m = m\<lparr>nf_results := []\<rparr>"

text \<open>The contract of a sender: what it delivers it reports as a success on its own channel.\<close>

locale channel_sender =
  fixes send :: sender and channel :: notification_channel
  assumes reports_channel: "send m = Inr r \<Longrightarrow> nr_channel r = channel \<and> nr_success r"
begin

lemma delivery_channel:
  "nr_success (delivery m send) \<Longrightarrow> nr_channel (delivery m send) = channel"
  by (auto simp: delivery_def reports_channel split: sum.splits)

text \<open>A failure is entered for the log channel, whatever the channel that failed.\<close>

lemma failure_on_log:
  assumes "\<not> nr_success (delivery m send)"
  obtains e where "send m = Inl e" "nr_channel (delivery m send) = Log_Channel"
    "nr_error_message (delivery m send) = Some e"
  using assms by (cases "send m") (auto simp: delivery_def reports_channel)

end

interpretation log_out: channel_sender "log_sender ms" Log_Channel for ms
  by unfold_locales (simp add: log_sender_def sent_on_def)

interpretation console_out: channel_sender "console_sender ms" Console_Channel for ms
  by unfold_locales (simp add: console_sender_def sent_on_def)

interpretation webhook_out: channel_sender "webhook_sender url ms" Webhook_Channel for url ms
  by unfold_locales (simp add: webhook_sender_def sent_on_def)

text \<open>Every sender is tried once, in order, and a failure does not stop the ones after it.\<close>

lemma every_sender_tried:
  assumes "send_notification message m = (rs, m')"
  shows "length rs = length (nf_senders m)" "nf_results m' = nf_results m @ rs" "nf_senders m' = nf_senders m"
    and "k < length (nf_senders m) \<Longrightarrow> (nf_senders m ! k) message = Inr r \<Longrightarrow> rs ! k = r"
    and "k < length (nf_senders m) \<Longrightarrow> (nf_senders m ! k) message = Inl e \<Longrightarrow> nr_error_message (rs ! k) = Some e"
  using assms by (auto simp: send_notification_def Let_def delivery_def)

record notification_check =
  nk_test_name :: string
  nk_passed :: bool
  nk_duration_ms :: u64
  nk_channels_tested :: nat
  nk_channels_succeeded :: nat

definition notification_check_cases :: "(string \<times> notification_channel) list" where
  "notification_check_cases = [(''log_notification'', Log_Channel), (''console_notification'', Console_Channel),
     (''webhook_notification'', Webhook_Channel)]"

definition check_sender :: "u64 \<Rightarrow> notification_channel \<Rightarrow> notification_manager \<Rightarrow> notification_manager" where
  "check_sender ms c m = (case c of
     Log_Channel \<Rightarrow> add_sender (log_sender ms) m
   | Console_Channel \<Rightarrow> add_sender (console_sender ms) m
   | Webhook_Channel \<Rightarrow> add_sender (webhook_sender ''http://example.com'' ms) m
   | _ \<Rightarrow> m)"

definition run_notification_check :: "u64 \<Rightarrow> u64 \<Rightarrow> string \<times> notification_channel \<Rightarrow> notification_check" where
  "run_notification_check ms whole c =
     (let message = \<lparr>nm_message_id = ''test-1'', nm_level = ''INFO'', nm_title = ''Test Alert'',
            nm_content = ''This is a test alert'', nm_timestamp_ms = 1000, nm_source = ''test'', nm_labels = []\<rparr>;
          rs = fst (send_notification message (check_sender ms (snd c) new_notification_manager))
      in \<lparr>nk_test_name = fst c, nk_passed = list_all nr_success rs, nk_duration_ms = whole,
          nk_channels_tested = length rs, nk_channels_succeeded = length (filter nr_success rs)\<rparr>)"

definition run_notification_checks :: "u64 \<Rightarrow> u64 \<Rightarrow> notification_check list" where
  "run_notification_checks ms whole = map (run_notification_check ms whole) notification_check_cases"

lemma notification_checks_pass:
  "list_all (\<lambda>c. nk_passed c \<and> nk_channels_tested c = 1 \<and> nk_channels_succeeded c = 1) (run_notification_checks ms whole)"
  by (simp add: run_notification_checks_def notification_check_cases_def run_notification_check_def check_sender_def
      add_sender_def new_notification_manager_def send_notification_def delivery_def log_sender_def
      console_sender_def webhook_sender_def sent_on_def Let_def)

end
