(* ===== verification/Ops_Metrics.thy ===== *)
theory Ops_Metrics
  imports Complex_Main Ops_Registry
begin

text \<open>
  Metrics, \<open>crates/core/src/metrics.rs\<close>, performance samples and their analysis,
  \<open>crates/core/src/performance.rs\<close>, and the dashboard, \<open>crates/core/src/dashboard.rs\<close>. The numbers of
  type \<open>f64\<close> are a type variable, and the operations on them that the code uses a record; the rational
  numbers are the exact instance on which the built-in check is evaluated. The clock is a parameter.
\<close>

record 'f floats =
  f_zero :: 'f
  f_add :: "'f \<Rightarrow> 'f \<Rightarrow> 'f"
  f_div :: "'f \<Rightarrow> 'f \<Rightarrow> 'f"
  f_max :: "'f \<Rightarrow> 'f \<Rightarrow> 'f"
  f_min :: "'f \<Rightarrow> 'f \<Rightarrow> 'f"
  f_lowest :: 'f
  f_greatest :: 'f
  f_of_int :: "int \<Rightarrow> 'f"

section \<open>Metrics\<close>

datatype metric_type = Counter_Metric | Gauge_Metric | Histogram_Metric | Summary_Metric

definition metric_type_as_str :: "metric_type \<Rightarrow> string" where
  "metric_type_as_str t = (case t of Counter_Metric \<Rightarrow> ''COUNTER'' | Gauge_Metric \<Rightarrow> ''GAUGE''
     | Histogram_Metric \<Rightarrow> ''HISTOGRAM'' | Summary_Metric \<Rightarrow> ''SUMMARY'')"

datatype 'f metric_value = Integer_Value "64 word" | Float_Value 'f

record 'f metric =
  mt_name :: string
  mt_metric_type :: metric_type
  mt_value :: "'f metric_value"
  mt_labels :: labels
  mt_timestamp_ms :: u64

type_synonym 'f collector = "'f metric list"

definition record_counter :: "u64 \<Rightarrow> string \<Rightarrow> 64 word \<Rightarrow> labels \<Rightarrow> 'f collector \<Rightarrow> 'f collector" where
  "record_counter now name v ls = hm_insert mt_name \<lparr>mt_name = name, mt_metric_type = Counter_Metric,
     mt_value = Integer_Value v, mt_labels = ls, mt_timestamp_ms = now\<rparr>"

definition record_gauge :: "u64 \<Rightarrow> string \<Rightarrow> 'f \<Rightarrow> labels \<Rightarrow> 'f collector \<Rightarrow> 'f collector" where
  "record_gauge now name v ls = hm_insert mt_name \<lparr>mt_name = name, mt_metric_type = Gauge_Metric,
     mt_value = Float_Value v, mt_labels = ls, mt_timestamp_ms = now\<rparr>"

definition record_histogram :: "u64 \<Rightarrow> string \<Rightarrow> 'f \<Rightarrow> labels \<Rightarrow> 'f collector \<Rightarrow> 'f collector" where
  "record_histogram now name v ls = hm_insert mt_name \<lparr>mt_name = name, mt_metric_type = Histogram_Metric,
     mt_value = Float_Value v, mt_labels = ls, mt_timestamp_ms = now\<rparr>"

definition get_metric :: "string \<Rightarrow> 'f collector \<Rightarrow> 'f metric option" where
  "get_metric name c = lookup_row mt_name name c"

definition clear_metrics :: "'f collector \<Rightarrow> 'f collector" where
  "clear_metrics c = []"

text \<open>The metrics of the system, all gauges of the component \<open>system\<close>.\<close>

definition system_labels :: labels where
  "system_labels = [(''component'', ''system'')]"

definition record_startup_time where
  "record_startup_time F now startup_time_ms =
     record_gauge now ''system_startup_time_ms'' (f_of_int F (uint (startup_time_ms :: u64))) system_labels"

definition record_uptime where
  "record_uptime F now uptime_seconds =
     record_gauge now ''system_uptime_seconds'' (f_of_int F (uint (uptime_seconds :: u64))) system_labels"

definition record_memory_usage where
  "record_memory_usage F now usage_bytes =
     record_gauge now ''system_memory_usage_bytes'' (f_of_int F (uint (usage_bytes :: u64))) system_labels"

definition record_cpu_usage where
  "record_cpu_usage now usage_percent = record_gauge now ''system_cpu_usage_percent'' usage_percent system_labels"

definition record_disk_usage where
  "record_disk_usage F now usage_bytes =
     record_gauge now ''system_disk_usage_bytes'' (f_of_int F (uint (usage_bytes :: u64))) system_labels"

text \<open>The metrics of a venue carry it as a label and not in the name.\<close>

definition venue_labels :: "string \<Rightarrow> labels" where
  "venue_labels venue = [(''venue'', venue)]"

definition record_order_count where
  "record_order_count now venue count = record_counter now ''trading_order_count'' count (venue_labels venue)"

definition record_trade_count where
  "record_trade_count now venue count = record_counter now ''trading_trade_count'' count (venue_labels venue)"

definition record_order_latency where
  "record_order_latency now venue latency_ms =
     record_histogram now ''trading_order_latency_ms'' latency_ms (venue_labels venue)"

definition record_trade_latency where
  "record_trade_latency now venue latency_ms =
     record_histogram now ''trading_trade_latency_ms'' latency_ms (venue_labels venue)"

definition record_pnl where
  "record_pnl now venue pnl = record_gauge now ''trading_pnl'' pnl (venue_labels venue)"

definition record_market_data_latency where
  "record_market_data_latency now venue latency_ms =
     record_histogram now ''market_data_latency_ms'' latency_ms (venue_labels venue)"

definition record_market_data_gap where
  "record_market_data_gap now venue gap_seconds =
     record_gauge now ''market_data_gap_seconds'' gap_seconds (venue_labels venue)"

definition record_orderbook_depth where
  "record_orderbook_depth F now venue depth =
     record_gauge now ''market_orderbook_depth'' (f_of_int F (sint (depth :: 64 word))) (venue_labels venue)"

definition record_exposure where
  "record_exposure now venue exposure_usd = record_gauge now ''risk_exposure_usd'' exposure_usd (venue_labels venue)"

definition record_margin_usage where
  "record_margin_usage now venue usage_percent =
     record_gauge now ''risk_margin_usage_percent'' usage_percent (venue_labels venue)"

definition record_risk_event where
  "record_risk_event now event_type count =
     record_counter now ''risk_event_count'' count [(''event_type'', event_type)]"

text \<open>
  A metric is kept under its name alone. What was recorded last is found, other names are untouched, and
  a second venue takes the place of the first.
\<close>

lemma get_metric_record:
  "get_metric n (record_counter now name v ls c) = (if n = name then Some \<lparr>mt_name = name,
     mt_metric_type = Counter_Metric, mt_value = Integer_Value v, mt_labels = ls, mt_timestamp_ms = now\<rparr>
     else get_metric n c)"
  "get_metric n (record_gauge now name w ls c) = (if n = name then Some \<lparr>mt_name = name,
     mt_metric_type = Gauge_Metric, mt_value = Float_Value w, mt_labels = ls, mt_timestamp_ms = now\<rparr>
     else get_metric n c)"
  "get_metric n (record_histogram now name w ls c) = (if n = name then Some \<lparr>mt_name = name,
     mt_metric_type = Histogram_Metric, mt_value = Float_Value w, mt_labels = ls, mt_timestamp_ms = now\<rparr>
     else get_metric n c)"
  by (simp_all add: get_metric_def record_counter_def record_gauge_def record_histogram_def lookup_hm_insert)

lemma put_row_idem: "key b = key a \<Longrightarrow> put_row key b (put_row key a rows) = put_row key b rows"
  by (induction rows) auto

lemma hm_insert_again: "key b = key a \<Longrightarrow> hm_insert key b (hm_insert key a rows) = hm_insert key b rows"
proof (cases "lookup_row key (key a) rows")
  case None
  moreover assume "key b = key a"
  moreover from None have "put_row key b (rows @ [a]) = rows @ [b]" if "key b = key a"
    using that by (induction rows) (auto split: if_splits)
  ultimately show ?thesis by (simp add: hm_insert_def lookup_row_append)
qed (simp add: hm_insert_def lookup_put_row put_row_idem)

lemma second_venue_overwrites:
  "record_order_count now' venue' n' (record_order_count now venue n c) = record_order_count now' venue' n' c"
  "record_pnl now' venue' x' (record_pnl now venue x c) = record_pnl now' venue' x' c"
  by (simp_all add: record_order_count_def record_counter_def record_pnl_def record_gauge_def hm_insert_again)

section \<open>Performance samples\<close>

datatype performance_type = Response_Time | Throughput | Error_Rate | Latency | Resource_Usage

definition performance_type_as_str :: "performance_type \<Rightarrow> string" where
  "performance_type_as_str t = (case t of Response_Time \<Rightarrow> ''RESPONSE_TIME'' | Throughput \<Rightarrow> ''THROUGHPUT''
     | Error_Rate \<Rightarrow> ''ERROR_RATE'' | Latency \<Rightarrow> ''LATENCY'' | Resource_Usage \<Rightarrow> ''RESOURCE_USAGE'')"

record 'f sample =
  sm_name :: string
  sm_metric_type :: performance_type
  sm_value :: 'f
  sm_unit :: string
  sm_labels :: labels
  sm_timestamp_ms :: u64

definition record_metric ::
  "u64 \<Rightarrow> string \<Rightarrow> performance_type \<Rightarrow> 'f \<Rightarrow> string \<Rightarrow> labels \<Rightarrow> 'f sample list \<Rightarrow> 'f sample list" where
  "record_metric now name ty v u ls samples = samples @ [\<lparr>sm_name = name, sm_metric_type = ty, sm_value = v,
     sm_unit = u, sm_labels = ls, sm_timestamp_ms = now\<rparr>]"

definition get_metrics_by_name :: "string \<Rightarrow> 'f sample list \<Rightarrow> 'f sample list" where
  "get_metrics_by_name name samples = filter (\<lambda>m. sm_name m = name) samples"

definition get_metrics_by_type :: "performance_type \<Rightarrow> 'f sample list \<Rightarrow> 'f sample list" where
  "get_metrics_by_type ty samples = filter (\<lambda>m. sm_metric_type m = ty) samples"

definition calculate_average :: "'f floats \<Rightarrow> string \<Rightarrow> 'f sample list \<Rightarrow> 'f" where
  "calculate_average F name samples = (let ms = get_metrics_by_name name samples in
     if ms = [] then f_zero F
     else f_div F (foldl (f_add F) (f_zero F) (map sm_value ms)) (f_of_int F (int (length ms))))"

definition calculate_max :: "'f floats \<Rightarrow> string \<Rightarrow> 'f sample list \<Rightarrow> 'f" where
  "calculate_max F name samples = foldl (f_max F) (f_lowest F) (map sm_value (get_metrics_by_name name samples))"

definition calculate_min :: "'f floats \<Rightarrow> string \<Rightarrow> 'f sample list \<Rightarrow> 'f" where
  "calculate_min F name samples = foldl (f_min F) (f_greatest F) (map sm_value (get_metrics_by_name name samples))"

record 'f performance_analysis =
  pa_name :: string
  pa_metric_count :: nat
  pa_average_value :: 'f
  pa_max_value :: 'f
  pa_min_value :: 'f
  pa_analysis_timestamp_ms :: u64

text \<open>The four readings take the lock one after another; without a record between them they agree.\<close>

definition analyze_performance :: "'f floats \<Rightarrow> u64 \<Rightarrow> string \<Rightarrow> 'f sample list \<Rightarrow> 'f performance_analysis" where
  "analyze_performance F now name samples = \<lparr>pa_name = name,
     pa_metric_count = length (get_metrics_by_name name samples),
     pa_average_value = calculate_average F name samples, pa_max_value = calculate_max F name samples,
     pa_min_value = calculate_min F name samples, pa_analysis_timestamp_ms = now\<rparr>"

text \<open>
  The contract of the operations for the analysis: \<open>f_max\<close> and \<open>f_min\<close> are those of a linear order
  in which every number recorded lies between the two extremes.
\<close>

locale ordered_floats =
  fixes F :: "'f floats" and le :: "'f \<Rightarrow> 'f \<Rightarrow> bool"
  assumes le_refl: "le x x"
    and le_trans: "le x y \<Longrightarrow> le y z \<Longrightarrow> le x z"
    and max_upper: "le x (f_max F x y)" "le y (f_max F x y)"
    and min_lower: "le (f_min F x y) x" "le (f_min F x y) y"
begin

lemma fold_max: "le a (foldl (f_max F) a xs) \<and> (\<forall>x \<in> set xs. le x (foldl (f_max F) a xs))"
proof (induction xs arbitrary: a)
  case (Cons x xs)
  then show ?case using Cons[of "f_max F a x"] max_upper[of a x] max_upper(2)[of x a]
    by (auto intro: le_trans)
qed (simp add: le_refl)

lemma fold_min: "le (foldl (f_min F) a xs) a \<and> (\<forall>x \<in> set xs. le (foldl (f_min F) a xs) x)"
proof (induction xs arbitrary: a)
  case (Cons x xs)
  then show ?case using Cons[of "f_min F a x"] min_lower[of a x] min_lower(2)[of x a]
    by (auto intro: le_trans)
qed (simp add: le_refl)

lemma analysis_bounds:
  assumes "m \<in> set samples"
  shows "le (pa_min_value (analyze_performance F now (sm_name m) samples)) (sm_value m)"
    and "le (sm_value m) (pa_max_value (analyze_performance F now (sm_name m) samples))"
  using assms fold_max[of "f_lowest F" "map sm_value (get_metrics_by_name (sm_name m) samples)"]
    fold_min[of "f_greatest F" "map sm_value (get_metrics_by_name (sm_name m) samples)"]
  by (auto simp: analyze_performance_def calculate_max_def calculate_min_def get_metrics_by_name_def)

end

text \<open>The exact instance, with the bounds that \<open>f64::MIN\<close> and \<open>f64::MAX\<close> have.\<close>

definition rat_floats :: "rat floats" where
  "rat_floats = \<lparr>f_zero = 0, f_add = (+), f_div = (/), f_max = max, f_min = min,
     f_lowest = - ((2 ^ 53 - 1) * 2 ^ 971), f_greatest = (2 ^ 53 - 1) * 2 ^ 971, f_of_int = of_int\<rparr>"

interpretation exact: ordered_floats rat_floats "(\<le>)"
  by unfold_locales (auto simp: rat_floats_def max_def min_def)

text \<open>A name that was never recorded has the average zero, a least value above its greatest.\<close>

lemma analysis_of_nothing:
  assumes "get_metrics_by_name name samples = []"
  shows "pa_metric_count (analyze_performance F now name samples) = 0"
    and "pa_max_value (analyze_performance F now name samples) = f_lowest F"
    and "pa_min_value (analyze_performance F now name samples) = f_greatest F"
    and "pa_average_value (analyze_performance F now name samples) = f_zero F"
  by (simp_all add: analyze_performance_def calculate_max_def calculate_min_def calculate_average_def assms)

record performance_check =
  pk_test_name :: string
  pk_passed :: bool
  pk_collected :: nat
  pk_performed :: bool

definition performance_check_names :: "string list" where
  "performance_check_names = [''metrics_collection'', ''metrics_analysis'']"

definition run_performance_check :: "'f floats \<Rightarrow> u64 \<Rightarrow> string \<Rightarrow> performance_check" where
  "run_performance_check F now name =
     (let record_value = (\<lambda>v. record_metric now ''response_time'' Response_Time (f_of_int F v) ''ms'' system_labels);
          samples = record_value 200 (record_value 150 (record_value 100 []));
          a = analyze_performance F now ''response_time'' samples
      in \<lparr>pk_test_name = name,
          pk_passed = (pa_metric_count a = 3 \<and> pa_average_value a = f_of_int F 150 \<and> pa_max_value a = f_of_int F 200
            \<and> pa_min_value a = f_of_int F 100),
          pk_collected = 3, pk_performed = True\<rparr>)"

definition run_performance_checks :: "'f floats \<Rightarrow> u64 \<Rightarrow> performance_check list" where
  "run_performance_checks F now = map (run_performance_check F now) performance_check_names"

lemma performance_checks_pass: "list_all pk_passed (run_performance_checks rat_floats now)"
  by (simp add: run_performance_checks_def performance_check_names_def run_performance_check_def Let_def
      record_metric_def analyze_performance_def calculate_average_def calculate_max_def calculate_min_def
      get_metrics_by_name_def rat_floats_def)

section \<open>Dashboard\<close>

record 'f system_status =
  sy_uptime_seconds :: u64
  sy_memory_usage_bytes :: u64
  sy_cpu_usage_percent :: 'f
  sy_disk_usage_bytes :: u64

record 'f trading_panel =
  tp_order_count :: "64 word"
  tp_trade_count :: "64 word"
  tp_pnl :: 'f
  tp_active_orders :: "64 word"

record 'f market_status =
  ma_market_data_latency_ms :: 'f
  ma_market_data_gap_seconds :: 'f
  ma_orderbook_depth :: "64 word"

record 'f risk_status =
  rk_exposure_usd :: 'f
  rk_margin_usage_percent :: 'f
  rk_risk_event_count :: "64 word"

record 'f dashboard =
  da_system :: "'f system_status"
  da_trading :: "'f trading_panel"
  da_market :: "'f market_status"
  da_risk :: "'f risk_status"
  da_timestamp_ms :: u64

definition default_dashboard :: "'f floats \<Rightarrow> 'f dashboard" where
  "default_dashboard F =
     \<lparr>da_system = \<lparr>sy_uptime_seconds = 0, sy_memory_usage_bytes = 0, sy_cpu_usage_percent = f_zero F,
        sy_disk_usage_bytes = 0\<rparr>,
      da_trading = \<lparr>tp_order_count = 0, tp_trade_count = 0, tp_pnl = f_zero F, tp_active_orders = 0\<rparr>,
      da_market = \<lparr>ma_market_data_latency_ms = f_zero F, ma_market_data_gap_seconds = f_zero F, ma_orderbook_depth = 0\<rparr>,
      da_risk = \<lparr>rk_exposure_usd = f_zero F, rk_margin_usage_percent = f_zero F, rk_risk_event_count = 0\<rparr>,
      da_timestamp_ms = 0\<rparr>"

definition update_system_status :: "u64 \<Rightarrow> 'f system_status \<Rightarrow> 'f dashboard \<Rightarrow> 'f dashboard" where
  "update_system_status now s d = d\<lparr>da_system := s, da_timestamp_ms := now\<rparr>"

definition update_trading_status :: "u64 \<Rightarrow> 'f trading_panel \<Rightarrow> 'f dashboard \<Rightarrow> 'f dashboard" where
  "update_trading_status now s d = d\<lparr>da_trading := s, da_timestamp_ms := now\<rparr>"

definition update_market_status :: "u64 \<Rightarrow> 'f market_status \<Rightarrow> 'f dashboard \<Rightarrow> 'f dashboard" where
  "update_market_status now s d = d\<lparr>da_market := s, da_timestamp_ms := now\<rparr>"

definition update_risk_status :: "u64 \<Rightarrow> 'f risk_status \<Rightarrow> 'f dashboard \<Rightarrow> 'f dashboard" where
  "update_risk_status now s d = d\<lparr>da_risk := s, da_timestamp_ms := now\<rparr>"

text \<open>Updates of different parts commute but for the time, which is that of the last one.\<close>

lemma dashboard_updates_commute:
  "(update_system_status t s (update_trading_status t' r d))\<lparr>da_timestamp_ms := u\<rparr>
     = (update_trading_status t' r (update_system_status t s d))\<lparr>da_timestamp_ms := u\<rparr>"
  "(update_market_status t m (update_risk_status t' k d))\<lparr>da_timestamp_ms := u\<rparr>
     = (update_risk_status t' k (update_market_status t m d))\<lparr>da_timestamp_ms := u\<rparr>"
  by (simp_all add: update_system_status_def update_trading_status_def update_market_status_def update_risk_status_def)

record dashboard_check =
  db_test_name :: string
  db_passed :: bool
  db_updates :: nat
  db_queries :: nat

definition dashboard_check_names :: "string list" where
  "dashboard_check_names = [''system_status_update'', ''trading_status_update'', ''market_status_update'',
     ''risk_status_update'']"

definition run_dashboard_check :: "'f floats \<Rightarrow> u64 \<Rightarrow> string \<Rightarrow> dashboard_check" where
  "run_dashboard_check F now name =
     (let n = f_of_int F;
          d1 = update_system_status now \<lparr>sy_uptime_seconds = 3600, sy_memory_usage_bytes = 1024 * 1024 * 100,
                 sy_cpu_usage_percent = n 25, sy_disk_usage_bytes = 1024 * 1024 * 1024 * 10\<rparr> (default_dashboard F);
          d2 = update_trading_status now \<lparr>tp_order_count = 100, tp_trade_count = 50, tp_pnl = n 1000,
                 tp_active_orders = 10\<rparr> d1;
          d3 = update_market_status now \<lparr>ma_market_data_latency_ms = n 50, ma_market_data_gap_seconds = n 0,
                 ma_orderbook_depth = 100\<rparr> d2;
          d4 = update_risk_status now \<lparr>rk_exposure_usd = n 5000, rk_margin_usage_percent = n 30,
                 rk_risk_event_count = 0\<rparr> d3
      in \<lparr>db_test_name = name,
          db_passed = (sy_uptime_seconds (da_system d4) = 3600 \<and> tp_order_count (da_trading d4) = 100
            \<and> ma_market_data_latency_ms (da_market d4) = n 50 \<and> rk_exposure_usd (da_risk d4) = n 5000),
          db_updates = 4, db_queries = 4\<rparr>)"

definition run_dashboard_checks :: "'f floats \<Rightarrow> u64 \<Rightarrow> dashboard_check list" where
  "run_dashboard_checks F now = map (run_dashboard_check F now) dashboard_check_names"

lemma dashboard_checks_pass: "list_all db_passed (run_dashboard_checks F now)"
  by (simp add: run_dashboard_checks_def dashboard_check_names_def run_dashboard_check_def Let_def
      update_system_status_def update_trading_status_def update_market_status_def update_risk_status_def)

end
