(* ===== verification/Ops_Runbooks.thy ===== *)
theory Ops_Runbooks
  imports Ops_Registry
begin

text \<open>
  Run books and their templates, \<open>crates/core/src/runbook_manager.rs\<close>: a hash map by name. The Chinese
  texts of the templates are named by constructors, and a parameter gives the bytes of each.
\<close>

datatype runbook_section = Runbook_Section
  (rs_section_id: string) (rs_title: string) (rs_content: string) (rs_order: "32 word")
  (rs_subsections: "runbook_section list")

record runbook =
  rb_runbook_id :: string
  rb_title :: string
  rb_description :: string
  rb_version :: string
  rb_sections :: "runbook_section list"
  rb_tags :: labels
  rb_created_at_ms :: u64
  rb_updated_at_ms :: u64

type_synonym runbooks = "runbook list"

definition add_runbook :: "runbook \<Rightarrow> runbooks \<Rightarrow> runbooks" where
  "add_runbook r rs = hm_insert rb_runbook_id r rs"

definition get_runbook :: "string \<Rightarrow> runbooks \<Rightarrow> runbook option" where
  "get_runbook i rs = lookup_row rb_runbook_id i rs"

definition delete_runbook :: "string \<Rightarrow> runbooks \<Rightarrow> unit result \<times> runbooks" where
  "delete_runbook i rs = (case lookup_row rb_runbook_id i rs of
     Some _ \<Rightarrow> (Inr (), hm_remove rb_runbook_id i rs)
   | None \<Rightarrow> (Inl (Bail ''runbook not found''), rs))"

definition update_runbook :: "runbook \<Rightarrow> runbooks \<Rightarrow> unit result \<times> runbooks" where
  "update_runbook r rs = (case lookup_row rb_runbook_id (rb_runbook_id r) rs of
     Some _ \<Rightarrow> (Inr (), put_row rb_runbook_id r rs)
   | None \<Rightarrow> (Inl (Bail ''runbook not found''), rs))"

definition runbook_matches :: "string \<Rightarrow> runbook \<Rightarrow> bool" where
  "runbook_matches query r \<longleftrightarrow> contains_str (rb_title r) query \<or> contains_str (rb_description r) query
     \<or> list_ex (\<lambda>t. contains_str (snd t) query) (rb_tags r)"

definition search_runbooks :: "string \<Rightarrow> runbooks \<Rightarrow> runbook list" where
  "search_runbooks query rs = filter (runbook_matches query) rs"

definition get_runbooks_by_tag :: "string \<Rightarrow> string \<Rightarrow> runbooks \<Rightarrow> runbook list" where
  "get_runbooks_by_tag k v rs = filter (\<lambda>r. map_of (rb_tags r) k = Some v) rs"

text \<open>The manager is a map: its operations are those of the map that its names determine.\<close>

abbreviation abs_books :: "runbooks \<Rightarrow> string \<rightharpoonup> runbook" where
  "abs_books rs \<equiv> \<lambda>i. get_runbook i rs"

lemma add_runbook_map: "abs_books (add_runbook r rs) = (abs_books rs)(rb_runbook_id r \<mapsto> r)"
  by (auto simp: fun_eq_iff get_runbook_def add_runbook_def lookup_hm_insert)

lemma delete_runbook_map:
  "abs_books (snd (delete_runbook i rs)) = (abs_books rs)(i := None)"
  "is_ok (fst (delete_runbook i rs)) \<longleftrightarrow> i \<in> dom (abs_books rs)"
  by (auto simp: fun_eq_iff get_runbook_def delete_runbook_def lookup_hm_remove dom_def split: option.split)

lemma update_runbook_map:
  "abs_books (snd (update_runbook r rs)) =
     (if rb_runbook_id r \<in> dom (abs_books rs) then (abs_books rs)(rb_runbook_id r \<mapsto> r) else abs_books rs)"
  "is_ok (fst (update_runbook r rs)) \<longleftrightarrow> rb_runbook_id r \<in> dom (abs_books rs)"
  by (auto simp: fun_eq_iff get_runbook_def update_runbook_def lookup_put_row dom_def split: option.split)

text \<open>What a search lists is what the manager holds under a name.\<close>

lemma search_finds:
  assumes "table_ok rb_runbook_id rs"
  shows "r \<in> set (search_runbooks query rs) \<longleftrightarrow> get_runbook (rb_runbook_id r) rs = Some r \<and> runbook_matches query r"
  using lookup_row_iff[OF assms, of "rb_runbook_id r" r] by (auto simp: search_runbooks_def get_runbook_def)

inductive runbook_store :: "runbooks \<Rightarrow> bool" where
  fresh: "runbook_store []"
| added: "runbook_store rs \<Longrightarrow> runbook_store (add_runbook r rs)"
| deleted: "runbook_store rs \<Longrightarrow> runbook_store (snd (delete_runbook i rs))"
| updated: "runbook_store rs \<Longrightarrow> runbook_store (snd (update_runbook r rs))"

lemma runbook_store_ok: "runbook_store rs \<Longrightarrow> table_ok rb_runbook_id rs"
  by (induction rule: runbook_store.induct)
    (auto simp: add_runbook_def table_ok_hm_insert delete_runbook_def table_ok_hm_remove update_runbook_def
      split: option.split)

section \<open>Templates\<close>

datatype zh_text =
    Startup_Manual | Shutdown_Manual | Recovery_Manual
  | Check_State_And_Config | Start_Services_Text | Verify_Health_Text
  | Stop_Accepting_Text | Drain_Connections_Text | Stop_Services_Text
  | Detect_Fault_Text | Isolate_Component_Text | Recover_Component_Text

definition template_section :: "string \<Rightarrow> string \<Rightarrow> string \<Rightarrow> 32 word \<Rightarrow> runbook_section" where
  "template_section i title content n = Runbook_Section i title content n []"

definition system_startup :: "(zh_text \<Rightarrow> string) \<Rightarrow> runbook" where
  "system_startup zh = \<lparr>rb_runbook_id = ''system-startup'', rb_title = ''System Startup Runbook'',
     rb_description = zh Startup_Manual, rb_version = ''1.0.0'',
     rb_sections =
       [template_section ''pre-check'' ''Pre-check'' (zh Check_State_And_Config) 1,
        template_section ''start-services'' ''Start Services'' (zh Start_Services_Text) 2,
        template_section ''verify-health'' ''Verify Health'' (zh Verify_Health_Text) 3],
     rb_tags = [], rb_created_at_ms = 0, rb_updated_at_ms = 0\<rparr>"

definition system_shutdown :: "(zh_text \<Rightarrow> string) \<Rightarrow> runbook" where
  "system_shutdown zh = \<lparr>rb_runbook_id = ''system-shutdown'', rb_title = ''System Shutdown Runbook'',
     rb_description = zh Shutdown_Manual, rb_version = ''1.0.0'',
     rb_sections =
       [template_section ''stop-accepting'' ''Stop Accepting Requests'' (zh Stop_Accepting_Text) 1,
        template_section ''drain-connections'' ''Drain Connections'' (zh Drain_Connections_Text) 2,
        template_section ''stop-services'' ''Stop Services'' (zh Stop_Services_Text) 3],
     rb_tags = [], rb_created_at_ms = 0, rb_updated_at_ms = 0\<rparr>"

definition fault_recovery :: "(zh_text \<Rightarrow> string) \<Rightarrow> runbook" where
  "fault_recovery zh = \<lparr>rb_runbook_id = ''fault-recovery'', rb_title = ''Fault Recovery Runbook'',
     rb_description = zh Recovery_Manual, rb_version = ''1.0.0'',
     rb_sections =
       [template_section ''detect-fault'' ''Detect Fault'' (zh Detect_Fault_Text) 1,
        template_section ''isolate-component'' ''Isolate Component'' (zh Isolate_Component_Text) 2,
        template_section ''recover-component'' ''Recover Component'' (zh Recover_Component_Text) 3],
     rb_tags = [], rb_created_at_ms = 0, rb_updated_at_ms = 0\<rparr>"

text \<open>The three templates can be held together, and a search for their common title word finds all.\<close>

lemma templates_coexist:
  "length (search_runbooks ''Runbook''
     (add_runbook (fault_recovery zh) (add_runbook (system_shutdown zh) (add_runbook (system_startup zh) [])))) = 3"
  by (simp add: add_runbook_def hm_insert_def system_startup_def system_shutdown_def fault_recovery_def
      search_runbooks_def runbook_matches_def starts_with_def)

record runbook_check =
  rn_test_name :: string
  rn_passed :: bool
  rn_created :: nat
  rn_found :: nat

definition runbook_check_names :: "string list" where
  "runbook_check_names = [''runbook_creation'', ''runbook_management'', ''runbook_search'']"

definition run_runbook_check :: "(zh_text \<Rightarrow> string) \<Rightarrow> string \<Rightarrow> runbook_check" where
  "run_runbook_check zh name = (let rs = add_runbook (system_startup zh) []
     in \<lparr>rn_test_name = name, rn_passed = (length rs = 1), rn_created = length rs,
         rn_found = length (search_runbooks ''System'' rs)\<rparr>)"

definition run_runbook_checks :: "(zh_text \<Rightarrow> string) \<Rightarrow> runbook_check list" where
  "run_runbook_checks zh = map (run_runbook_check zh) runbook_check_names"

lemma runbook_checks_pass:
  "list_all (\<lambda>c. rn_passed c \<and> rn_created c = 1 \<and> rn_found c = 1) (run_runbook_checks zh)"
  by (simp add: run_runbook_checks_def runbook_check_names_def run_runbook_check_def add_runbook_def hm_insert_def
      system_startup_def search_runbooks_def runbook_matches_def starts_with_def Let_def)

end
