(* ===== verification/Smoke_Tables.thy ===== *)
theory Smoke_Tables
  imports Sim_Run Ledger Control
begin

text \<open>
  The acceptance runs of the ledger, the reconciliation and the control commands:
  \<open>run_accounting_smoke\<close> in \<open>crates/core/src/accounting.rs\<close>, \<open>run_reconciliation_smoke\<close> in
  \<open>crates/core/src/reconciliation.rs\<close>, \<open>run_control_smoke\<close> in \<open>crates/core/src/control.rs\<close>. Each is the
  composition of the modelled operations of its core, on a database and under the lock of the core;
  the theorems say that it passes on an empty database at any reading of the clock. The n-th reading of
  the clock and the process id are parameters, as is SHA-256. The constant fields of the reports
  (schema version, zero external calls) are left out, and so is the migration.
\<close>

section \<open>Stamps and identifiers\<close>

definition smoke_stamp :: "(nat \<Rightarrow> u64) \<Rightarrow> 32 word \<Rightarrow> string" where
  "smoke_stamp clock pid = show_nat (unat (clock 0)) @ ''-'' @ show_nat (unat pid)"

text \<open>A text of visible characters is a valid identifier.\<close>

definition visible :: "string \<Rightarrow> bool" where
  "visible s \<longleftrightarrow> list_all (\<lambda>c. 33 \<le> (of_char c :: nat) \<and> (of_char c :: nat) < 127) s"

lemma visible_simps [simp]:
  "visible []" "visible (c # s) \<longleftrightarrow> 33 \<le> (of_char c :: nat) \<and> (of_char c :: nat) < 127 \<and> visible s"
  "visible (s @ s') \<longleftrightarrow> visible s \<and> visible s'"
  by (auto simp: visible_def)

lemma visible_not_space: "c \<in> set s \<Longrightarrow> visible s \<Longrightarrow> \<not> is_whitespace c \<and> c \<noteq> CHR 0x00"
  by (auto simp: visible_def list_all_iff is_whitespace_def)

lemma visible_trim: "visible s \<Longrightarrow> trim s = s"
proof -
  have "dropWhile is_whitespace u = u" if "visible u" for u
    using that visible_not_space[of "hd u" u] by (cases u) auto
  moreover have "visible (rev s)" if "visible s" using that by (simp add: visible_def)
  ultimately show "visible s \<Longrightarrow> trim s = s" by (simp add: trim_def trim_start_def)
qed

lemma visible_valid: "visible s \<Longrightarrow> s \<noteq> [] \<Longrightarrow> validate_id s = Inr ()"
  using visible_not_space[of "CHR 0x00" s] by (auto simp: validate_id_ok_iff visible_trim)

lemma visible_show_nat [simp]: "visible (show_nat n)"
proof -
  have "33 \<le> (of_char c :: nat) \<and> (of_char c :: nat) < 127" if "c \<in> set (show_nat n)" for c
    using show_nat_digits[OF that] by (simp add: is_digit_def)
  then show ?thesis by (simp add: visible_def list_all_iff)
qed

lemma visible_stamp [simp]: "visible (smoke_stamp clock pid)"
  by (simp add: smoke_stamp_def)

section \<open>Cores under their lock\<close>

definition holding :: "(8 word list \<Rightarrow> 8 word list) \<Rightarrow> nat \<Rightarrow> string \<Rightarrow> string \<Rightarrow> ('d \<Rightarrow> 'a result \<times> 'd)
    \<Rightarrow> held_lock list \<times> 'd \<Rightarrow> 'a result \<times> held_lock list \<times> 'd" where
  "holding sha256 session account instrument body s = (case s of (locks, db) \<Rightarrow>
     (case acquire_domain sha256 (Inr ()) session account instrument locks of
        (Inl e, _) \<Rightarrow> (Inl e, locks, db)
      | (Inr _, locks') \<Rightarrow> (let (r, db') = body db in (r, disconnect_domain session locks', db'))))"

lemma holding_free:
  assumes "validate_id account = Inr ()" "validate_id instrument = Inr ()"
  shows "holding sha256 session account instrument body ([], db) = (fst (body db), [], snd (body db))"
  using assms by (simp add: holding_def acquire_domain_def disconnect_domain_def Let_def split: prod.split)

lemma bind_db_read: "bind_db (\<lambda>s. (f s, s)) k s = (case f s of Inl e \<Rightarrow> (Inl e, s) | Inr x \<Rightarrow> k x s)"
  by (simp add: bind_db_def split: sum.split)

section \<open>The ledger\<close>

record accounting_smoke_report =
  as_balanced_event_recorded :: bool
  as_idempotent_replay :: bool
  as_unbalanced_event_rejected :: bool
  as_immutable_history :: bool

definition smoke_line :: "string \<Rightarrow> string \<Rightarrow> ledger_direction \<Rightarrow> ledger_line_input" where
  "smoke_line account asset d = \<lparr>ll_account_id = account, ll_venue = ''paper-a'', ll_asset = asset,
     ll_direction = d, ll_amount = 1\<rparr>"

definition smoke_event :: "string \<Rightarrow> u64 \<Rightarrow> ledger_event_input" where
  "smoke_event stamp occurred_at = (let account = ''ledger-account-'' @ stamp in
     \<lparr>le_event_id = ''ledger-event-'' @ stamp, le_business_key = ''fill-'' @ stamp, le_event_type = ''FILL_POSTED'',
      le_account_id = account, le_venue = ''paper-a'', le_occurred_at_ms = occurred_at,
      le_payload = JObject [(''source'', JString ''smoke'')],
      le_lines = [smoke_line account ''BTC'' Debit, smoke_line account ''BTC'' Credit]\<rparr>)"

definition unbalanced_event :: "string \<Rightarrow> ledger_event_input \<Rightarrow> ledger_event_input" where
  "unbalanced_event stamp e = e\<lparr>le_event_id := ''bad-event-'' @ stamp, le_business_key := ''bad-'' @ stamp,
     le_lines := [smoke_line (le_account_id e) ''USDT'' Debit]\<rparr>"

text \<open>An update of event rows: the trigger of the table fails for the first row that matches.\<close>

definition update_event_type :: "string \<Rightarrow> ledger_db \<Rightarrow> unit result" where
  "update_event_type event_id db =
     (if lookup_row lr_event_id event_id (ld_events db) = None then Inr ()
      else Inl (Bail ''audit_events are immutable''))"

definition accounting_smoke :: "(nat \<Rightarrow> u64) \<Rightarrow> string \<Rightarrow> ledger_db \<Rightarrow> accounting_smoke_report result \<times> ledger_db" where
  "accounting_smoke clock stamp =
     (let e = smoke_event stamp (clock 1) in
      bind_db (record_event (clock 2) e) (\<lambda>first.
      bind_db (record_event (clock 3) e) (\<lambda>replay db.
      let (bad, db) = record_event (clock 4) (unbalanced_event stamp e) db in
      bind_db (\<lambda>db. (balance (le_account_id e) (le_venue e) ''BTC'' db, db)) (\<lambda>b db.
        (Inr \<lparr>as_balanced_event_recorded = (lv_line_count first = 2 \<and> lb_net b = 0),
              as_idempotent_replay = (lv_event_id replay = lv_event_id first),
              as_unbalanced_event_rejected = (\<not> is_ok bad),
              as_immutable_history = (\<not> is_ok (update_event_type (lv_event_id first) db))\<rparr>, db)) db)))"

definition run_accounting_smoke ::
  "(8 word list \<Rightarrow> 8 word list) \<Rightarrow> nat \<Rightarrow> (nat \<Rightarrow> u64) \<Rightarrow> 32 word \<Rightarrow> held_lock list \<times> ledger_db
     \<Rightarrow> accounting_smoke_report result \<times> held_lock list \<times> ledger_db" where
  "run_accounting_smoke sha256 session clock pid =
     holding sha256 session ''accounting'' ''ledger'' (accounting_smoke clock (smoke_stamp clock pid))"

text \<open>Readings of a clock that PostgreSQL can store.\<close>

definition good_clock :: "(nat \<Rightarrow> u64) \<Rightarrow> bool" where
  "good_clock clock \<longleftrightarrow> (\<forall>i. 0 < uint (clock i) \<and> uint (clock i) < 2 ^ 62)"

lemma good_clock_simps:
  assumes "good_clock clock"
  shows "to_i64 (clock i) = Inr (uint (clock i))" "0 < uint (clock i)" "\<not> uint (clock i) \<le> 0" "clock i \<noteq> 0"
    "to_u64 (uint (clock i)) = Inr (clock i)"
proof -
  have c: "0 < uint (clock i)" "uint (clock i) < 2 ^ 62" using assms by (simp_all add: good_clock_def)
  then show "to_i64 (clock i) = Inr (uint (clock i))" by (simp add: to_i64_def)
  show "0 < uint (clock i)" "\<not> uint (clock i) \<le> 0" "clock i \<noteq> 0" using c by auto
  show "to_u64 (uint (clock i)) = Inr (clock i)" by (simp add: to_u64_def)
qed

definition empty_ledger :: ledger_db where
  "empty_ledger = \<lparr>ld_events = [], ld_lines = []\<rparr>"

lemma smoke_event_valid:
  assumes "visible stamp" "occurred_at \<noteq> 0"
  shows "validate_event (smoke_event stamp occurred_at) = Inr ()"
  using assms by (simp add: validate_event_def smoke_event_def smoke_line_def Let_def visible_valid line_key_def
      add_line_def)

text \<open>The event meant to be unbalanced is refused because it has one line, before its balance is looked at.\<close>

lemma unbalanced_refused_for_its_length:
  assumes "visible stamp"
  shows "record_event now (unbalanced_event stamp (smoke_event stamp occurred_at)) db =
    (Inl (Bail ''ledger event requires a timestamp and at least two lines''), db)"
  using assms by (simp add: record_event_def validate_event_def unbalanced_event_def smoke_event_def Let_def visible_valid)

text \<open>The ledger after the first event, and the event as it is read back.\<close>

definition booked :: "ledger_event_input \<Rightarrow> u64 \<Rightarrow> ledger_db" where
  "booked e now = append_event_lines e (uint now) \<lparr>ld_events = [\<lparr>lr_event_id = le_event_id e,
     lr_business_key = le_business_key e, lr_event_type = le_event_type e, lr_account_id = le_account_id e,
     lr_venue = le_venue e, lr_occurred_at_ms = uint (le_occurred_at_ms e), lr_created_at_ms = uint now,
     lr_payload = le_payload e\<rparr>], ld_lines = []\<rparr>"

definition posted :: "ledger_event_input \<Rightarrow> ledger_event" where
  "posted e = \<lparr>lv_event_id = le_event_id e, lv_business_key = le_business_key e, lv_event_type = le_event_type e,
     lv_account_id = le_account_id e, lv_venue = le_venue e, lv_occurred_at_ms = le_occurred_at_ms e,
     lv_line_count = length (le_lines e)\<rparr>"

lemma load_booked:
  assumes "validate_event e = Inr ()"
  shows "load_event (le_event_id e) (booked e now) = Inr (posted e)"
  using validate_event_ids[OF assms]
  by (simp add: load_event_def booked_def posted_def append_event_lines_def to_u64_def filter_map comp_def)

lemma event_recorded:
  assumes "validate_event e = Inr ()" "to_i64 now = Inr (uint now)" "0 < uint now"
    "to_i64 (le_occurred_at_ms e) = Inr (uint (le_occurred_at_ms e))"
  shows "record_event now e empty_ledger = (Inr (posted e), booked e now)"
    and "record_event later e (booked e now) = (Inr (posted e), booked e now)"
proof -
  have "append_event_lines e (uint now) (empty_ledger\<lparr>ld_events := ld_events empty_ledger @
      [\<lparr>lr_event_id = le_event_id e, lr_business_key = le_business_key e, lr_event_type = le_event_type e,
        lr_account_id = le_account_id e, lr_venue = le_venue e, lr_occurred_at_ms = uint (le_occurred_at_ms e),
        lr_created_at_ms = uint now, lr_payload = le_payload e\<rparr>]\<rparr>) = booked e now"
    by (simp add: booked_def empty_ledger_def)
  moreover have "ld_events empty_ledger = []" by (simp add: empty_ledger_def)
  ultimately show "record_event now e empty_ledger = (Inr (posted e), booked e now)"
    using assms load_booked[OF assms(1), of now] by (simp add: record_event_def)
  have "ld_events (booked e now) = [\<lparr>lr_event_id = le_event_id e, lr_business_key = le_business_key e,
      lr_event_type = le_event_type e, lr_account_id = le_account_id e, lr_venue = le_venue e,
      lr_occurred_at_ms = uint (le_occurred_at_ms e), lr_created_at_ms = uint now, lr_payload = le_payload e\<rparr>]"
    by (simp add: booked_def append_event_lines_def)
  then show "record_event later e (booked e now) = (Inr (posted e), booked e now)"
    using load_booked[OF assms(1), of now] by (simp add: record_event_def assms(1))
qed

lemma accounting_smoke_passes:
  assumes "good_clock clock"
  shows "fst (run_accounting_smoke sha256 session clock pid ([], empty_ledger)) =
    Inr \<lparr>as_balanced_event_recorded = True, as_idempotent_replay = True, as_unbalanced_event_rejected = True,
         as_immutable_history = True\<rparr>"
proof -
  let ?s = "smoke_stamp clock pid" and ?e = "smoke_event (smoke_stamp clock pid) (clock 1)"
  have valid: "validate_event ?e = Inr ()" by (simp add: smoke_event_valid good_clock_simps(4)[OF assms] del: One_nat_def)
  have at: "to_i64 (le_occurred_at_ms ?e) = Inr (uint (le_occurred_at_ms ?e))"
    by (simp add: smoke_event_def Let_def good_clock_simps[OF assms])
  note r = event_recorded[OF valid good_clock_simps(1,2)[OF assms] at]
  have lines: "map lw_line (ld_lines (booked ?e now)) = le_lines ?e" for now
    by (simp add: booked_def append_event_lines_def comp_def)
  have bal: "balance (le_account_id ?e) (le_venue ?e) ''BTC'' (booked ?e now) = Inr \<lparr>lb_account = le_account_id ?e,
      lb_venue_name = le_venue ?e, lb_asset = ''BTC'', lb_debit = 1, lb_credit = 1, lb_net = 0\<rparr>" for now
    by (simp add: balance_def lines del: One_nat_def) (simp add: smoke_event_def smoke_line_def line_key_def Let_def visible_valid)
  have trig: "\<not> is_ok (update_event_type (le_event_id ?e) (booked ?e now))" for now
    by (simp add: update_event_type_def booked_def append_event_lines_def)
  have two: "length (le_lines ?e) = 2" by (simp add: smoke_event_def Let_def)
  have b: "bind_db (record_event (clock i) ?e) k empty_ledger = k (posted ?e) (booked ?e (clock i))"
    "bind_db (record_event later ?e) k (booked ?e (clock i)) = k (posted ?e) (booked ?e (clock i))" for k i later
    by (simp_all only: bind_db_def r prod.case sum.case)
  have "fst (accounting_smoke clock ?s empty_ledger) =
    Inr \<lparr>as_balanced_event_recorded = True, as_idempotent_replay = True, as_unbalanced_event_rejected = True,
         as_immutable_history = True\<rparr>"
    by (simp add: accounting_smoke_def Let_def b posted_def trig two bal
        unbalanced_refused_for_its_length bind_db_read del: One_nat_def)
  then show ?thesis by (simp add: run_accounting_smoke_def holding_free visible_valid)
qed

section \<open>The reconciliation\<close>

record reconciliation_smoke_report =
  rs_matched_snapshot :: bool
  rs_missing_difference_classified :: bool
  rs_conflict_difference_classified :: bool

definition smoke_balance :: "string \<Rightarrow> u64 \<Rightarrow> balance_input" where
  "smoke_balance stamp now = \<lparr>bs_snapshot_id = ''snapshot-'' @ stamp, bs_account_id = ''recon-account-'' @ stamp,
     bs_venue = ''paper-a'', bs_asset = ''BTC'', bs_total = 1, bs_free = 9 / 10, bs_locked = 1 / 10,
     bs_observed_at_ms = now, bs_source = ''smoke'', bs_completeness = ''COMPLETE''\<rparr>"

definition matched_balances :: balances where
  "matched_balances = [(''BTC'', 1)]"

definition reconciliation_smoke :: "(nat \<Rightarrow> u64) \<Rightarrow> string \<Rightarrow> reconciliation_db
    \<Rightarrow> reconciliation_smoke_report result \<times> reconciliation_db" where
  "reconciliation_smoke clock stamp =
     (let now = clock 1; account = ''recon-account-'' @ stamp; venue = ''paper-a''; matched = matched_balances in
      bind_db (record_snapshot (smoke_balance stamp now)) (\<lambda>_.
      bind_db (reconcile (''run-matched-'' @ stamp) account venue matched matched (now + 1)) (\<lambda>report.
      bind_db (reconcile (''run-missing-'' @ stamp) account venue matched (matched @ [(''USDT'', 1)]) (now + 2)) (\<lambda>missing.
      bind_db (reconcile (''run-conflict-'' @ stamp) account venue matched [(''BTC'', 2)] (now + 3)) (\<lambda>conflict.
      return_db (Inr
        \<lparr>rs_matched_snapshot = (rr_status report = ''MATCHED''),
         rs_missing_difference_classified = list_ex (\<lambda>d. rd_category d = Missing) (rr_differences missing),
         rs_conflict_difference_classified = list_ex (\<lambda>d. rd_category d = difference_category.Conflict)
           (rr_differences conflict)\<rparr>))))))"

definition run_reconciliation_smoke ::
  "(8 word list \<Rightarrow> 8 word list) \<Rightarrow> nat \<Rightarrow> (nat \<Rightarrow> u64) \<Rightarrow> 32 word \<Rightarrow> held_lock list \<times> reconciliation_db
     \<Rightarrow> reconciliation_smoke_report result \<times> held_lock list \<times> reconciliation_db" where
  "run_reconciliation_smoke sha256 session clock pid =
     holding sha256 session ''accounting'' ''reconciliation'' (reconciliation_smoke clock (smoke_stamp clock pid))"

definition empty_reconciliation :: reconciliation_db where
  "empty_reconciliation = \<lparr>rc_snapshots = [], rc_runs = [], rc_differences = []\<rparr>"

lemma clock_plus:
  assumes "good_clock clock" "k < 2 ^ 32"
  shows "uint (clock i + of_nat k) = uint (clock i) + int k"
proof -
  have k: "uint (of_nat k :: u64) = int k"
    using assms(2) by (simp add: unsigned_of_nat take_bit_nat_eq_self)
  have "uint (clock i) < 2 ^ 62" using assms(1) by (simp add: good_clock_def)
  then have "uint (clock i) + uint (of_nat k :: u64) < 2 ^ LENGTH(64)" using assms(2) by (simp add: k)
  from this[unfolded uint_add_lem] show ?thesis by (simp add: k)
qed

lemma good_clock_plus:
  assumes "good_clock clock"
  shows "to_i64 (clock i + 1) = Inr (uint (clock i) + 1)" "clock i + 1 \<noteq> 0"
    "k < 2 ^ 32 \<Longrightarrow> to_i64 (clock i + of_nat k) = Inr (uint (clock i) + int k)"
    "to_i64 (clock i + numeral n) = (if (numeral n :: nat) < 2 ^ 32 then Inr (uint (clock i) + numeral n)
       else to_i64 (clock i + numeral n))"
    "(numeral n :: nat) < 2 ^ 32 \<Longrightarrow> clock i + numeral n \<noteq> 0"
proof -
  have c: "0 < uint (clock i)" "uint (clock i) < 2 ^ 62" using assms by (simp_all add: good_clock_def)
  have "k < 2 ^ 32 \<Longrightarrow> to_i64 (clock i + of_nat k) = Inr (uint (clock i) + int k) \<and> clock i + of_nat k \<noteq> 0" for k
    using clock_plus[OF assms, of k i] c by (auto simp: to_i64_def)
  from this[of k] this[of 1] this[of "numeral n"]
  show "to_i64 (clock i + 1) = Inr (uint (clock i) + 1)" "clock i + 1 \<noteq> 0"
    "k < 2 ^ 32 \<Longrightarrow> to_i64 (clock i + of_nat k) = Inr (uint (clock i) + int k)"
    "to_i64 (clock i + numeral n) = (if (numeral n :: nat) < 2 ^ 32 then Inr (uint (clock i) + numeral n)
       else to_i64 (clock i + numeral n))"
    "(numeral n :: nat) < 2 ^ 32 \<Longrightarrow> clock i + numeral n \<noteq> 0"
    by simp_all
qed

lemma reconciliation_smoke_passes:
  assumes "good_clock clock"
  shows "fst (run_reconciliation_smoke sha256 session clock pid ([], empty_reconciliation)) =
    Inr \<lparr>rs_matched_snapshot = True, rs_missing_difference_classified = True, rs_conflict_difference_classified = True\<rparr>"
proof -
  let ?s = "smoke_stamp clock pid" and ?now = "clock 1" and ?m = matched_balances
  let ?a = "''recon-account-'' @ ?s" and ?v = "''paper-a''"
  note t = good_clock_simps[OF assms] good_clock_plus(1,2)[OF assms] good_clock_plus(4,5)[OF assms]
  note ops = insert_run_def matched_balances_def amount_of_def sorted_assets_def classify_def insert_difference_def
    difference_id_of_def Let_def
  obtain d0 where r0: "record_snapshot (smoke_balance ?s ?now) empty_reconciliation = (Inr (), d0)"
      "rc_runs d0 = []" "rc_differences d0 = []"
    by (simp add: record_snapshot_def smoke_balance_def validate_snapshot_def visible_valid t empty_reconciliation_def
        del: One_nat_def)
  have "\<exists>x d1 r. reconcile (''run-matched-'' @ ?s) ?a ?v ?m ?m (?now + 1) d0 = (Inr x, d1) \<and> rr_status x = ''MATCHED''
      \<and> rc_runs d1 = [r] \<and> rn_run_id r = ''run-matched-'' @ ?s \<and> rn_started_at_ms r = uint ?now + 1 \<and> rc_differences d1 = []"
    by (simp add: reconcile_def visible_valid t ops r0 del: One_nat_def)
  then obtain x1 d1 q1 where r1: "reconcile (''run-matched-'' @ ?s) ?a ?v ?m ?m (?now + 1) d0 = (Inr x1, d1)"
      "rr_status x1 = ''MATCHED''" "rc_runs d1 = [q1]" "rn_run_id q1 = ''run-matched-'' @ ?s"
      "rn_started_at_ms q1 = uint ?now + 1" "rc_differences d1 = []" by blast
  have "\<exists>x d2 r. reconcile (''run-missing-'' @ ?s) ?a ?v ?m (?m @ [(''USDT'', 1)]) (?now + 2) d1 = (Inr x, d2)
      \<and> list_ex (\<lambda>d. rd_category d = Missing) (rr_differences x)
      \<and> rc_runs d2 = [q1, r] \<and> rn_run_id r = ''run-missing-'' @ ?s \<and> rn_started_at_ms r = uint ?now + 2
      \<and> map (rd_difference_id \<circ> dr_difference) (rc_differences d2) = [''run-missing-'' @ ?s @ '':USDT'']"
    by (simp add: reconcile_def visible_valid t ops r1 del: One_nat_def)
  then obtain x2 d2 q2 where r2: "reconcile (''run-missing-'' @ ?s) ?a ?v ?m (?m @ [(''USDT'', 1)]) (?now + 2) d1 = (Inr x2, d2)"
      "list_ex (\<lambda>d. rd_category d = Missing) (rr_differences x2)" "rc_runs d2 = [q1, q2]"
      "rn_run_id q2 = ''run-missing-'' @ ?s" "rn_started_at_ms q2 = uint ?now + 2"
      "map (rd_difference_id \<circ> dr_difference) (rc_differences d2) = [''run-missing-'' @ ?s @ '':USDT'']" by (elim exE conjE) (rule that)
  have free: "lookup_row (rd_difference_id \<circ> dr_difference) (''run-conflict-'' @ x) (rc_differences d2) = None" for x
    using arg_cong[OF r2(6), of set] by (simp add: lookup_row_None_iff)
  have "\<exists>x d3. reconcile (''run-conflict-'' @ ?s) ?a ?v ?m [(''BTC'', 2)] (?now + 3) d2 = (Inr x, d3)
      \<and> list_ex (\<lambda>d. rd_category d = difference_category.Conflict) (rr_differences x)"
    by (simp add: reconcile_def visible_valid t ops r1 r2 free[simplified] del: One_nat_def)
  then obtain x3 d3 where r3: "reconcile (''run-conflict-'' @ ?s) ?a ?v ?m [(''BTC'', 2)] (?now + 3) d2 = (Inr x3, d3)"
      "list_ex (\<lambda>d. rd_category d = difference_category.Conflict) (rr_differences x3)" by blast
  have "fst (reconciliation_smoke clock ?s empty_reconciliation) = Inr \<lparr>rs_matched_snapshot = True,
      rs_missing_difference_classified = True, rs_conflict_difference_classified = True\<rparr>"
    unfolding reconciliation_smoke_def Let_def bind_db_def r0(1) prod.case sum.case r1(1) r2(1) r3(1)
    by (simp add: return_db_def r1 r2 r3)
  then show ?thesis by (simp add: run_reconciliation_smoke_def holding_free visible_valid)
qed

section \<open>The control commands\<close>

record control_smoke_report =
  ks_distinct_actions_recorded :: bool
  ks_idempotent_request :: bool
  ks_expired_not_executed :: bool

definition smoke_command :: "string \<Rightarrow> u64 \<Rightarrow> control_request" where
  "smoke_command stamp now = \<lparr>cq_command_id = ''command-'' @ stamp, cq_request_id = ''request-'' @ stamp,
     cq_actor = ''smoke-operator'', cq_action = Pause, cq_scope = JObject [(''domain'', JString ''all'')],
     cq_expires_at_ms = now + 10000\<rparr>"

definition expired_command :: "string \<Rightarrow> u64 \<Rightarrow> control_request" where
  "expired_command stamp now = \<lparr>cq_command_id = ''expired-'' @ stamp, cq_request_id = ''expired-request-'' @ stamp,
     cq_actor = ''smoke-operator'', cq_action = Resume,
     cq_scope = JObject [(''requires_reconciliation'', JBool True)], cq_expires_at_ms = now\<rparr>"

definition control_smoke :: "(nat \<Rightarrow> u64) \<Rightarrow> string \<Rightarrow> control_db \<Rightarrow> control_smoke_report result \<times> control_db" where
  "control_smoke clock stamp =
     (let now = clock 1; q = smoke_command stamp now in
      bind_db (submit now q) (\<lambda>first.
      bind_db (submit now q) (\<lambda>replay.
      bind_db (complete (cc_command_id first) Succeeded (JObject [(''accepted'', JBool True)]) (now + 1)) (\<lambda>completed.
      bind_db (submit now (expired_command stamp now)) (\<lambda>expired.
      return_db (Inr
        \<lparr>ks_distinct_actions_recorded = (cc_action first = Pause \<and> cc_status completed = Succeeded),
         ks_idempotent_request = (cc_command_id replay = cc_command_id first),
         ks_expired_not_executed = (cc_status expired = Expired)\<rparr>))))))"

definition run_control_smoke ::
  "(8 word list \<Rightarrow> 8 word list) \<Rightarrow> nat \<Rightarrow> (nat \<Rightarrow> u64) \<Rightarrow> 32 word \<Rightarrow> held_lock list \<times> control_db
     \<Rightarrow> control_smoke_report result \<times> held_lock list \<times> control_db" where
  "run_control_smoke sha256 session clock pid =
     holding sha256 session ''control'' ''command'' (control_smoke clock (smoke_stamp clock pid))"

lemma control_smoke_passes:
  assumes "good_clock clock"
  shows "fst (run_control_smoke sha256 session clock pid ([], control_empty)) =
    Inr \<lparr>ks_distinct_actions_recorded = True, ks_idempotent_request = True, ks_expired_not_executed = True\<rparr>"
proof -
  let ?s = "smoke_stamp clock pid" and ?now = "clock 1" and ?q = "smoke_command (smoke_stamp clock pid) (clock 1)"
  note t = good_clock_simps[OF assms] good_clock_plus(1,2)[OF assms] good_clock_plus(4,5)[OF assms]
  note ops = submit_def validate_control_def insert_command_def load_command_def complete_def finish_row_def
    smoke_command_def expired_command_def control_empty_def parse_action_def parse_status_def Let_def
  have pos: "\<not> uint ?now + 1 \<le> 0" using good_clock_simps(2)[OF assms, of 1] by linarith
  have later: "\<not> ?now + 10000 \<le> ?now" "to_u64 (uint ?now + 10000) = Inr (?now + 10000)"
    using clock_plus[OF assms, of 10000 1] by (simp_all add: word_le_def to_u64_def flip: word_of_int_uint[of "?now + 10000"])
  have "\<exists>x d1. submit ?now ?q control_empty = (Inr x, d1) \<and> submit ?now ?q d1 = (Inr x, d1)
      \<and> cc_action x = Pause \<and> cc_command_id x = ''command-'' @ ?s
      \<and> (\<exists>r. cd_commands d1 = [r] \<and> ct_command_id r = ''command-'' @ ?s \<and> ct_request_id r = ''request-'' @ ?s
           \<and> ct_status r = ''RECEIVED'' \<and> ct_action r = ''PAUSE'' \<and> ct_expires_at_ms r = uint ?now + 10000)"
    by (simp add: ops visible_valid t later del: One_nat_def)
  then obtain x d1 r where 1: "submit ?now ?q control_empty = (Inr x, d1)" "submit ?now ?q d1 = (Inr x, d1)"
      "cc_action x = Pause" "cc_command_id x = ''command-'' @ ?s" "cd_commands d1 = [r]"
      "ct_command_id r = ''command-'' @ ?s" "ct_request_id r = ''request-'' @ ?s" "ct_status r = ''RECEIVED''"
      "ct_action r = ''PAUSE''" "ct_expires_at_ms r = uint ?now + 10000" by (elim exE conjE) (rule that)
  have "\<exists>y d2. complete (''command-'' @ ?s) Succeeded (JObject [(''accepted'', JBool True)]) (?now + 1) d1 = (Inr y, d2)
      \<and> cc_status y = Succeeded \<and> (\<exists>q. cd_commands d2 = [q] \<and> ct_command_id q = ''command-'' @ ?s
           \<and> ct_request_id q = ''request-'' @ ?s)"
    by (simp add: ops visible_valid t later pos 1 del: One_nat_def)
  then obtain y d2 q where 2: "complete (''command-'' @ ?s) Succeeded (JObject [(''accepted'', JBool True)]) (?now + 1) d1 = (Inr y, d2)"
      "cc_status y = Succeeded" "cd_commands d2 = [q]" "ct_command_id q = ''command-'' @ ?s" "ct_request_id q = ''request-'' @ ?s"
    by (elim exE conjE) (rule that)
  have "\<exists>z d3. submit ?now (expired_command ?s ?now) d2 = (Inr z, d3) \<and> cc_status z = Expired"
    by (simp add: ops visible_valid t 2 del: One_nat_def)
  then obtain z d3 where 3: "submit ?now (expired_command ?s ?now) d2 = (Inr z, d3)" "cc_status z = Expired" by blast
  have "fst (control_smoke clock ?s control_empty) = Inr \<lparr>ks_distinct_actions_recorded = True,
      ks_idempotent_request = True, ks_expired_not_executed = True\<rparr>"
    unfolding control_smoke_def Let_def bind_db_def 1(1,2,4) prod.case sum.case 2(1) 3(1)
    by (simp add: return_db_def 1 2 3)
  then show ?thesis by (simp add: run_control_smoke_def holding_free visible_valid)
qed

end
