(* ===== verification/Smoke_Plans.thy ===== *)
theory Smoke_Plans
  imports Smoke_Tables
begin

text \<open>
  The acceptance runs of the trading cores: \<open>run_paper_core_smoke\<close> in \<open>crates/core/src/paper.rs\<close>,
  \<open>run_order_facts_smoke\<close> in \<open>crates/core/src/order.rs\<close>, \<open>run_double_leg_smoke\<close> in
  \<open>crates/core/src/execution.rs\<close>, on the tables and the world of a simulated run. The theorems say that
  each passes on an empty database, the first one for either order in which the two competing
  reservations are served. The constant fields of the reports and the migration are left out.
\<close>

section \<open>Calls that do not look at the locks\<close>

definition lock_blind :: "(sim_db \<Rightarrow> 'a result \<times> sim_db) \<Rightarrow> bool" where
  "lock_blind m \<longleftrightarrow> (\<forall>s l. m (s\<lparr>sd_locks := l\<rparr>) = (fst (m s), (snd (m s))\<lparr>sd_locks := l\<rparr>))"

lemma lock_blind_calls [simp]:
  "lock_blind (on_paper f)" "lock_blind (on_execution g)" "lock_blind (on_orders h)" "lock_blind (return_db r)"
  "lock_blind (order_call w core i c n)"
  by (simp_all add: lock_blind_def on_paper_def on_execution_def on_orders_def execution_view_def order_view_def
      order_call_def return_db_def split: prod.split)

lemma lock_blind_bind [intro]:
  assumes "lock_blind m" "\<And>x. lock_blind (k x)"
  shows "lock_blind (bind_db m k)"
  using assms by (auto simp: lock_blind_def bind_db_def split: prod.splits sum.splits)

lemma with_domain_blind:
  assumes "lock_blind body" "validate_id account = Inr ()" "validate_id instrument = Inr ()" "sd_locks s = []"
  shows "with_domain w account instrument body s = body s"
proof -
  have b: "body (s\<lparr>sd_locks := l\<rparr>) = (fst (body s), (snd (body s))\<lparr>sd_locks := l\<rparr>)" for l
    using assms(1) by (simp add: lock_blind_def)
  from b[of "sd_locks s"] have "snd (body s) = (snd (body s))\<lparr>sd_locks := []\<rparr>" using assms(4) by (metis sim_db.surjective sim_db.update_convs(5) snd_conv)
  then show ?thesis
    using assms(2-4) by (simp add: with_domain_def acquire_domain_def Let_def b disconnect_domain_def prod_eq_iff)
qed

section \<open>The double-leg run\<close>

record double_leg_report =
  ds_partial_fill_detected :: bool
  ds_within_budget_compensation_planned :: bool
  ds_matched_completion :: bool
  ds_over_budget_manual_required :: bool
  ds_recovered_manual_state :: bool

definition smoke_intent :: "string \<Rightarrow> string \<Rightarrow> string \<Rightarrow> order_side \<Rightarrow> decimal \<Rightarrow> decimal \<Rightarrow> order_intent_input" where
  "smoke_intent stem leg venue side quantity price = \<lparr>oi_intent_id = stem @ ''-intent'', oi_leg_id = leg,
     oi_attempt_id = stem @ ''-attempt'', oi_client_order_id = stem @ ''-client'', oi_venue = venue,
     oi_side = side, oi_quantity = quantity, oi_limit_price = price\<rparr>"

definition double_leg_request :: "string \<Rightarrow> string \<Rightarrow> string \<Rightarrow> string \<Rightarrow> reserve_plan_request" where
  "double_leg_request stamp suffix account instrument = (let p = ''b03-'' @ stamp @ ''-'' @ suffix in
     \<lparr>rp_request_id = p @ ''-request'', rp_plan_id = p @ ''-plan'', rp_account_id = account,
      rp_instrument_id = instrument, rp_opportunity_id = p @ ''-opportunity'',
      rp_strategy_config_version = ''b03-smoke-v1'', rp_target_quantity = 1, rp_max_unmatched_exposure = 10,
      rp_intents = (smoke_intent (p @ ''-buy'') ''buy'' ''b03-buy'' Buy 1 100,
        smoke_intent (p @ ''-sell'') ''sell'' ''b03-sell'' Sell 1 101),
      rp_reservations = [
        \<lparr>ri_reservation_id = p @ ''-quote'', ri_venue = ''b03-buy'', ri_asset = ''USDT'', ri_amount = 100\<rparr>,
        \<lparr>ri_reservation_id = p @ ''-base'', ri_venue = ''b03-sell'', ri_asset = ''BTC'', ri_amount = 1\<rparr>]\<rparr>)"

text \<open>The reservation of a plan by a core that is opened for it and closed again.\<close>

definition reserve_alone :: "sim_world \<Rightarrow> reserve_plan_request \<Rightarrow> nat \<Rightarrow> sim_db \<Rightarrow> recovered_plan result \<times> sim_db" where
  "reserve_alone w r i = with_domain w (rp_account_id r) (rp_instrument_id r)
     (bind_db (on_paper (reserve_plan (sw_collation w) (sw_plan_digest w) (rp_account_id r) (rp_instrument_id r) r
        (sw_clock w i))) (\<lambda>out. return_db (Inr (ro_plan out))))"

definition within_budget_leg :: "sim_world \<Rightarrow> string \<Rightarrow> string \<Rightarrow> string \<Rightarrow> sim_db
    \<Rightarrow> (compensation_outcome \<times> compensation_outcome) result \<times> sim_db" where
  "within_budget_leg w account instrument plan = with_domain w account instrument
     (bind_db (on_execution (initialize_plan account instrument plan 1 10 3 (sw_clock w 3))) (\<lambda>_.
      bind_db (on_execution (evaluate plan (1 / 100) 0 100 2 (sw_clock w 4))) (\<lambda>partial.
      bind_db (on_execution (evaluate plan (1 / 100) (1 / 100) 100 2 (sw_clock w 5))) (\<lambda>completed.
      return_db (Inr (partial, completed))))))"

definition over_budget_leg :: "sim_world \<Rightarrow> string \<Rightarrow> string \<Rightarrow> string \<Rightarrow> sim_db
    \<Rightarrow> (compensation_outcome \<times> execution_fact) result \<times> sim_db" where
  "over_budget_leg w account instrument plan = with_domain w account instrument
     (bind_db (on_execution (initialize_plan account instrument plan 1 10 1 (sw_clock w 7))) (\<lambda>_.
      bind_db (on_execution (evaluate plan (1 / 100) 0 100 200 (sw_clock w 8))) (\<lambda>manual.
      bind_db (on_execution (\<lambda>x. (load_execution plan x, x))) (\<lambda>recovered.
      return_db (Inr (manual, recovered))))))"

definition double_leg_passed :: "double_leg_report \<Rightarrow> bool" where
  "double_leg_passed r \<longleftrightarrow> ds_partial_fill_detected r \<and> ds_within_budget_compensation_planned r
     \<and> ds_matched_completion r \<and> ds_over_budget_manual_required r \<and> ds_recovered_manual_state r"

definition run_double_leg_smoke :: "sim_world \<Rightarrow> sim_db \<Rightarrow> double_leg_report result \<times> sim_db" where
  "run_double_leg_smoke w =
     (let stamp = smoke_stamp (sw_clock w) (sw_pid w); account = ''b03-account-'' @ stamp; now = sw_clock w 1;
          instrument_a = ''b03:within:'' @ stamp; instrument_b = ''b03:over:'' @ stamp in
      bind_db (on_paper (set_paper_balance account ''b03-buy'' ''USDT'' 1000 1000 now)) (\<lambda>_.
      bind_db (on_paper (set_paper_balance account ''b03-sell'' ''BTC'' 2 2 now)) (\<lambda>_.
      bind_db (reserve_alone w (double_leg_request stamp ''within'' account instrument_a) 2) (\<lambda>plan_a.
      bind_db (within_budget_leg w account instrument_a (pl_plan_id (rc_plan plan_a))) (\<lambda>(partial, completed).
      bind_db (reserve_alone w (double_leg_request stamp ''over'' account instrument_b) 6) (\<lambda>plan_b.
      bind_db (over_budget_leg w account instrument_b (pl_plan_id (rc_plan plan_b))) (\<lambda>(manual, recovered).
      let report = \<lparr>ds_partial_fill_detected = (out_quantity partial = 1 / 100),
        ds_within_budget_compensation_planned = (out_decision partial = CompensationDecided),
        ds_matched_completion = (out_decision completed = NoAction \<and> ef_state (out_snapshot completed) = Completed),
        ds_over_budget_manual_required = (out_decision manual = ManualEscalated),
        ds_recovered_manual_state = (ef_state recovered = ManualRequired \<and> ef_unmatched_quantity recovered = 1 / 100)\<rparr>
      in return_db (if double_leg_passed report then Inr report
                    else Inl (Bail ''B-03 double-leg smoke acceptance invariant failed'')))))))))"

section \<open>Reservations on an account of two assets\<close>

text \<open>A request of one intent and one reservation on each of two venues, as all the runs make it.\<close>

definition fresh_world :: "sim_world \<Rightarrow> bool" where
  "fresh_world w \<longleftrightarrow> good_clock (sw_clock w) \<and> (\<forall>r. length (sw_plan_digest w r) = 64)
     \<and> (\<forall>t. length (sw_trade_digest w t) = 64)"


lemma fresh_world_simps:
  assumes "fresh_world w"
  shows "good_clock (sw_clock w)" "length (sw_plan_digest w r) = 64" "length (sw_trade_digest w t) = 64"
    "length (request_digest (sw_plan_digest w) r) = 64"
  using assms by (simp_all add: fresh_world_def request_digest_def)

lemmas two_leg_ops = validate_request_def intent_list_def smoke_intent_def insert_plan_def insert_plan_row_def
  insert_risk_def insert_intent_def insert_audit_def reserve_one_def balance_key_def Let_def load_plan_def
  reserve_plan_def lock_and_check_balances_def reservation_order_def insort_key_def

text \<open>The paper tables after the two balances, and what a reservation adds to them.\<close>

definition two_balances :: "string \<Rightarrow> string \<times> decimal \<times> decimal \<Rightarrow> string \<times> decimal \<times> decimal \<Rightarrow> int \<Rightarrow> int \<Rightarrow> paper_balance list" where
  "two_balances account q b t t' = (case q of (v, n, used) \<Rightarrow> case b of (v', n', used') \<Rightarrow>
    [\<lparr>pb_account_id = account, pb_venue = v, pb_asset = ''USDT'', pb_observed_total = n, pb_observed_free = n,
      pb_local_reserved = used, pb_observed_at_ms = t\<rparr>,
     \<lparr>pb_account_id = account, pb_venue = v', pb_asset = ''BTC'', pb_observed_total = n', pb_observed_free = n',
      pb_local_reserved = used', pb_observed_at_ms = t'\<rparr>])"

lemma balances_set:
  assumes "good_clock clock" "visible account" "account \<noteq> []" "visible v" "v \<noteq> []" "visible v'" "v' \<noteq> []" "v \<noteq> v'" "0 \<le> n" "0 \<le> n'"
  shows "bind_db (on_paper (set_paper_balance account v ''USDT'' n n (clock i))) (\<lambda>_.
      bind_db (on_paper (set_paper_balance account v' ''BTC'' n' n' (clock j))) k) sim_db_0
    = k () (sim_db_0\<lparr>sd_paper := (sd_paper sim_db_0)\<lparr>pd_balances := two_balances account (v, n, 0) (v', n', 0) (uint (clock i)) (uint (clock j))\<rparr>\<rparr>)"
  using assms by (simp add: bind_db_def on_paper_def set_paper_balance_def visible_valid good_clock_simps[OF assms(1)]
      sim_db_0_def Let_def two_balances_def balance_key_def)


definition reserved_db :: "reserve_plan_request \<Rightarrow> string \<Rightarrow> int \<Rightarrow> paper_balance list \<Rightarrow> paper_db" where
  "reserved_db r digest now balances = \<lparr>pd_balances = balances,
     pd_plans = [\<lparr>pl_plan_id = rp_plan_id r, pl_request_id = rp_request_id r, pl_request_digest = digest,
       pl_account_id = rp_account_id r, pl_instrument_id = rp_instrument_id r, pl_opportunity_id = rp_opportunity_id r,
       pl_strategy_config_version = rp_strategy_config_version r, pl_target_quantity = rp_target_quantity r,
       pl_max_unmatched_exposure = rp_max_unmatched_exposure r, pl_state = Reserved, pl_created_at_ms = now\<rparr>],
     pd_risk = [\<lparr>rk_plan_id = rp_plan_id r, rk_input_digest = digest, rk_decided_at_ms = now\<rparr>],
     pd_intents = map (\<lambda>i. \<lparr>it_plan_id = rp_plan_id r, it_input = i, it_created_at_ms = now\<rparr>) (intent_list r),
     pd_reservations = map (\<lambda>x. \<lparr>rv_plan_id = rp_plan_id r, rv_account_id = rp_account_id r, rv_input = x,
       rv_created_at_ms = now\<rparr>) (rp_reservations r),
     pd_audit = [\<lparr>au_event_id = rp_plan_id r @ '':reserved'', au_aggregate_id = rp_plan_id r, au_aggregate_version = 1,
       au_event_type = ''PlanReserved'', au_correlation_id = rp_plan_id r, au_causation_id = rp_request_id r,
       au_occurred_at_ms = now, au_payload = [(''account_id'', PText (rp_account_id r)),
         (''instrument_id'', PText (rp_instrument_id r)), (''opportunity_id'', PText (rp_opportunity_id r)),
         (''request_digest'', PText digest), (''reservation_count'', PNumber (of_nat (length (rp_reservations r)))),
         (''intent_count'', PNumber 2), (''submission_status'', PText ''NOT_SENT'')]\<rparr>]\<rparr>"

text \<open>What the three runs reserve: one intent and one reservation on each of two venues.\<close>

definition two_legged :: "reserve_plan_request \<Rightarrow> string \<Rightarrow> decimal \<Rightarrow> string \<Rightarrow> decimal \<Rightarrow> bool" where
  "two_legged r v used v' used' \<longleftrightarrow> v \<noteq> v' \<and> validate_request r (rp_account_id r) (rp_instrument_id r) = Inr ()
     \<and> (\<exists>i j ri rj. rp_intents r = (i, j) \<and> oi_intent_id i \<noteq> oi_intent_id j \<and> oi_attempt_id i \<noteq> oi_attempt_id j
          \<and> oi_client_order_id i \<noteq> oi_client_order_id j \<and> oi_leg_id i \<noteq> oi_leg_id j \<and> ri \<noteq> rj
          \<and> rp_reservations r = [\<lparr>ri_reservation_id = ri, ri_venue = v, ri_asset = ''USDT'', ri_amount = used\<rparr>,
               \<lparr>ri_reservation_id = rj, ri_venue = v', ri_asset = ''BTC'', ri_amount = used'\<rparr>])
     \<and> 0 < used \<and> 0 < used'"

lemma reserved_first:
  assumes "two_legged r v used v' used'" "used \<le> n" "used' \<le> n'" "fresh_world w"
  shows "\<exists>plan. reserve_plan (sw_collation w) (sw_plan_digest w) (rp_account_id r) (rp_instrument_id r) r (sw_clock w i)
      ((sd_paper sim_db_0)\<lparr>pd_balances := two_balances (rp_account_id r) (v, n, 0) (v', n', 0) t t'\<rparr>)
    = (Inr \<lparr>ro_idempotent_replay = False, ro_plan = plan\<rparr>,
       reserved_db r (request_digest (sw_plan_digest w) r) (uint (sw_clock w i))
         (two_balances (rp_account_id r) (v, n, used) (v', n', used') t t'))
    \<and> load_plan (sw_collation w) (rp_plan_id r) (reserved_db r (request_digest (sw_plan_digest w) r) (uint (sw_clock w i))
         (two_balances (rp_account_id r) (v, n, used) (v', n', used') t t')) = Inr plan"
  using assms(1-3) unfolding two_legged_def
  by (elim conjE exE)
    (simp add: reserve_plan_def good_clock_simps[OF fresh_world_simps(1)[OF assms(4)]] sim_db_0_def lock_and_check_balances_def
      insort_key_def two_balances_def balance_key_def insert_plan_def insert_plan_row_def insert_risk_def insert_intent_def
      insert_audit_def reserve_one_def add_reserved_def Let_def fresh_world_simps[OF assms(4)] reserved_db_def intent_list_def load_plan_def)


section \<open>The double-leg run passes\<close>

lemma double_leg_two_legged:
  assumes "visible s" "visible suffix"
  shows "two_legged (double_leg_request s suffix (''b03-account-'' @ s) (''b03:'' @ suffix @ '':'' @ s)) ''b03-buy'' 100 ''b03-sell'' 1"
  using assms by (simp add: two_legged_def double_leg_request_def Let_def smoke_intent_def validate_request_def intent_list_def visible_valid)

lemma double_leg_second:
  assumes "fresh_world w" "visible s" "a = ''b03-account-'' @ s" "ia = ''b03:within:'' @ s" "ib = ''b03:over:'' @ s"
  shows "\<exists>x p. reserve_plan (sw_collation w) (sw_plan_digest w) a ib (double_leg_request s ''over'' a ib) (sw_clock w i)
      (reserved_db (double_leg_request s ''within'' a ia) d t (two_balances a (''b03-buy'', 1000, 100) (''b03-sell'', 2, 1) n n')) = (Inr x, p)
    \<and> pl_plan_id (rc_plan (ro_plan x)) = ''b03-'' @ s @ ''-over-plan''
    \<and> (''b03-'' @ s @ ''-over-plan'', a, ib) \<in> set (plan_refs p)"
  using assms(2) by (simp add: two_leg_ops double_leg_request_def assms(3-5) visible_valid good_clock_simps[OF fresh_world_simps(1)[OF assms(1)]]
    two_balances_def reserved_db_def fresh_world_simps[OF assms(1)] add_reserved_def plan_refs_def)

lemma execution_update_eq:
  "db\<lparr>sd_execution := x\<rparr> = db\<lparr>sd_execution := y\<rparr> \<longleftrightarrow> x = y"
  "db\<lparr>sd_orders := a\<rparr> = db\<lparr>sd_orders := b\<rparr> \<longleftrightarrow> a = b"
  by (cases db; simp)+

lemma within_budget_passes:
  assumes "fresh_world w" "visible plan" "plan \<noteq> []" "(plan, a, i) \<in> set (plan_refs (sd_paper db))"
    "validate_id a = Inr ()" "validate_id i = Inr ()" "sd_locks db = []" "sd_execution db = sd_execution sim_db_0"
  shows "\<exists>x y f es ds. within_budget_leg w a i plan db = (Inr (x, y), db\<lparr>sd_execution := \<lparr>xd_plans = plan_refs (sd_paper db),
        xd_facts = [f], xd_events = es, xd_decisions = ds\<rparr>\<rparr>)
    \<and> out_quantity x = 1 / 100 \<and> out_decision x = CompensationDecided \<and> out_decision y = NoAction
    \<and> ef_state (out_snapshot y) = Completed
    \<and> ef_plan_id f = plan \<and> ev_plan_id ` set es = {plan} \<and> de_plan_id ` set ds = {plan}
    \<and> ev_event_id ` set es = {versioned_id plan 1, versioned_id plan 2}
    \<and> de_decision_id ` set ds = {versioned_id (decision_prefix plan) 1, versioned_id (decision_prefix plan) 2}"
proof -
  note t = good_clock_simps[OF fresh_world_simps(1)[OF assms(1)]]
  show ?thesis
    using assms(2-4,7,8) unfolding within_budget_leg_def
    by (subst with_domain_blind[OF _ assms(5,6,7)], intro lock_blind_bind lock_blind_calls)
      (simp add: bind_db_def return_db_def on_execution_def execution_view_def initialize_plan_def evaluate_def decide_def
        append_event_def append_decision_def load_execution_def Let_def visible_valid t sim_db_0_def versioned_id_inj
        execution_update_eq insert_commute)
qed


lemma reserve_alone_ok:
  assumes "reserve_plan (sw_collation w) (sw_plan_digest w) a i r (sw_clock w n) (sd_paper db) = (Inr out, p)"
    "rp_account_id r = a" "rp_instrument_id r = i" "validate_id a = Inr ()" "validate_id i = Inr ()" "sd_locks db = []"
  shows "reserve_alone w r n db = (Inr (ro_plan out), db\<lparr>sd_paper := p\<rparr>)"
  using assms unfolding reserve_alone_def
  by (subst with_domain_blind, auto simp: bind_db_def on_paper_def return_db_def)

lemma over_budget_escalates:
  assumes "fresh_world w" "visible plan" "plan \<noteq> []" "(plan, a, i) \<in> set (plan_refs (sd_paper db))"
    "validate_id a = Inr ()" "validate_id i = Inr ()" "sd_locks db = []"
    "xd_facts (sd_execution db) = [f]" "ef_plan_id f \<noteq> plan"
    "\<forall>e \<in> set (xd_events (sd_execution db)). ev_plan_id e \<noteq> plan \<and> ev_event_id e \<noteq> versioned_id plan 1"
    "\<forall>e \<in> set (xd_decisions (sd_execution db)). de_plan_id e \<noteq> plan \<and> de_decision_id e \<noteq> versioned_id (decision_prefix plan) 1"
  shows "\<exists>x g db'. over_budget_leg w a i plan db = (Inr (x, g), db') \<and> out_decision x = ManualEscalated
    \<and> ef_state g = ManualRequired \<and> ef_unmatched_quantity g = 1 / 100"
proof -
  note t = good_clock_simps[OF fresh_world_simps(1)[OF assms(1)]]
  have "\<not> (\<exists>e \<in> set (xd_events (sd_execution db)). ev_event_id e = versioned_id plan 1 \<or> ev_plan_id e = plan \<and> ev_event_version e = 1)"
    "\<not> (\<exists>e \<in> set (xd_decisions (sd_execution db)). de_decision_id e = versioned_id (decision_prefix plan) 1 \<or> de_plan_id e = plan \<and> de_event_version e = 1)"
    using assms(10,11) by auto
  then show ?thesis
    using assms(2-4,7-9) unfolding over_budget_leg_def
    by (subst with_domain_blind[OF _ assms(5,6,7)], intro lock_blind_bind lock_blind_calls)
      (simp add: bind_db_def return_db_def on_execution_def execution_view_def initialize_plan_def evaluate_def decide_def
        append_event_def append_decision_def load_execution_def Let_def visible_valid t)
qed

lemma double_leg_smoke_passes:
  assumes "fresh_world w"
  shows "fst (run_double_leg_smoke w sim_db_0) = Inr \<lparr>ds_partial_fill_detected = True,
    ds_within_budget_compensation_planned = True, ds_matched_completion = True, ds_over_budget_manual_required = True,
    ds_recovered_manual_state = True\<rparr>"
proof -
  define s where "s = smoke_stamp (sw_clock w) (sw_pid w)"
  let ?a = "''b03-account-'' @ s" and ?ia = "''b03:within:'' @ s" and ?ib = "''b03:over:'' @ s"
  let ?ra = "double_leg_request s ''within'' ?a ?ia" and ?rb = "double_leg_request s ''over'' ?a ?ib"
  let ?pa = "''b03-'' @ s @ ''-within-plan''" and ?pb = "''b03-'' @ s @ ''-over-plan''"
  have s: "visible s" by (simp add: s_def)
  note v = visible_valid
  have r: "rp_account_id ?ra = ?a" "rp_instrument_id ?ra = ?ia" "rp_plan_id ?ra = ?pa" "rp_account_id ?rb = ?a" "rp_instrument_id ?rb = ?ib"
    by (simp_all add: double_leg_request_def Let_def)
  define bal where "bal used used' = two_balances ?a (''b03-buy'', 1000, used) (''b03-sell'', 2, used') (uint (sw_clock w 1)) (uint (sw_clock w 1))" for used used'
  let ?d0 = "sim_db_0\<lparr>sd_paper := (sd_paper sim_db_0)\<lparr>pd_balances := bal 0 0\<rparr>\<rparr>"
  define p1 where "p1 = reserved_db ?ra (request_digest (sw_plan_digest w) ?ra) (uint (sw_clock w 2)) (bal 100 1)"
  have hundred: "(100 :: decimal) \<le> 1000" and one: "(1 :: decimal) \<le> 2" by simp_all
  have "two_legged ?ra ''b03-buy'' 100 ''b03-sell'' 1" using double_leg_two_legged[OF s, of "''within''"] by simp
  from reserved_first[OF this hundred one assms, of 2 "uint (sw_clock w 1)" "uint (sw_clock w 1)", unfolded r, folded bal_def, folded p1_def]
  obtain plan where "reserve_plan (sw_collation w) (sw_plan_digest w) ?a ?ia ?ra (sw_clock w 2) ((sd_paper sim_db_0)\<lparr>pd_balances := bal 0 0\<rparr>)
      = (Inr \<lparr>ro_idempotent_replay = False, ro_plan = plan\<rparr>, p1)" "load_plan (sw_collation w) ?pa p1 = Inr plan"
    by blast
  then have res: "reserve_plan (sw_collation w) (sw_plan_digest w) ?a ?ia ?ra (sw_clock w 2) (sd_paper ?d0) = (Inr \<lparr>ro_idempotent_replay = False, ro_plan = plan\<rparr>, p1)"
    and plan: "pl_plan_id (rc_plan plan) = ?pa"
    by (auto simp: load_plan_def dest: lookup_row_SomeD split: option.splits)
  have locks: "sd_locks (sim_db_0\<lparr>sd_paper := p\<rparr>) = []" "sd_locks (sim_db_0\<lparr>sd_paper := p, sd_execution := x\<rparr>) = []" for p x
    by (simp_all add: sim_db_0_def)
  have ids: "validate_id ?a = Inr ()" "validate_id ?ia = Inr ()" "validate_id ?ib = Inr ()" by (simp_all add: v s)
  have r1: "reserve_alone w ?ra 2 ?d0 = (Inr plan, sim_db_0\<lparr>sd_paper := p1\<rparr>)"
    using reserve_alone_ok[OF res r(1,2) ids(1,2) locks(1)] by simp
  have refs: "(?pa, ?a, ?ia) \<in> set (plan_refs p1)" by (simp add: p1_def reserved_db_def plan_refs_def double_leg_request_def Let_def)
  obtain x y f es ds where r2: "within_budget_leg w ?a ?ia ?pa (sim_db_0\<lparr>sd_paper := p1\<rparr>) = (Inr (x, y), sim_db_0\<lparr>sd_paper := p1,
        sd_execution := \<lparr>xd_plans = plan_refs p1, xd_facts = [f], xd_events = es, xd_decisions = ds\<rparr>\<rparr>)"
    and out: "out_quantity x = 1 / 100" "out_decision x = CompensationDecided" "out_decision y = NoAction" "ef_state (out_snapshot y) = Completed"
    and f: "ef_plan_id f = ?pa" "ev_plan_id ` set es = {?pa}" "de_plan_id ` set ds = {?pa}"
      "ev_event_id ` set es = {versioned_id ?pa 1, versioned_id ?pa 2}"
      "de_decision_id ` set ds = {versioned_id (decision_prefix ?pa) 1, versioned_id (decision_prefix ?pa) 2}"
    using within_budget_passes[OF assms, of ?pa ?a ?ia "sim_db_0\<lparr>sd_paper := p1\<rparr>"] refs s by (auto simp: v sim_db_0_def)
  let ?x = "\<lparr>xd_plans = plan_refs p1, xd_facts = [f], xd_events = es, xd_decisions = ds\<rparr>"
  obtain out2 p2 where "reserve_plan (sw_collation w) (sw_plan_digest w) ?a ?ib ?rb (sw_clock w 6) p1 = (Inr out2, p2)"
    and plan2: "pl_plan_id (rc_plan (ro_plan out2)) = ?pb" and refs2: "(?pb, ?a, ?ib) \<in> set (plan_refs p2)"
    using double_leg_second[OF assms s refl refl refl] unfolding p1_def bal_def by blast
  then have res2: "reserve_plan (sw_collation w) (sw_plan_digest w) ?a ?ib ?rb (sw_clock w 6) (sd_paper (sim_db_0\<lparr>sd_paper := p1, sd_execution := ?x\<rparr>)) = (Inr out2, p2)"
    by simp
  have r3: "reserve_alone w ?rb 6 (sim_db_0\<lparr>sd_paper := p1, sd_execution := ?x\<rparr>)
      = (Inr (ro_plan out2), sim_db_0\<lparr>sd_paper := p2, sd_execution := ?x\<rparr>)"
    using reserve_alone_ok[OF res2 r(4,5) ids(1,3) locks(2)] by simp
  have "(\<forall>e \<in> set es. ev_plan_id e \<noteq> ?pb \<and> ev_event_id e \<noteq> versioned_id ?pb 1)
      \<and> (\<forall>e \<in> set ds. de_plan_id e \<noteq> ?pb \<and> de_decision_id e \<noteq> versioned_id (decision_prefix ?pb) 1)"
  proof -
    have "?pa \<noteq> ?pb" by simp
    then have "versioned_id ?pb 1 \<notin> ev_event_id ` set es" "versioned_id (decision_prefix ?pb) 1 \<notin> de_decision_id ` set ds"
        "?pb \<notin> ev_plan_id ` set es" "?pb \<notin> de_plan_id ` set ds"
      unfolding f(2-5) by (simp_all add: versioned_id_inj decision_prefix_def)
    then show ?thesis by (auto simp: image_iff)
  qed
  then obtain z g db' where r4: "over_budget_leg w ?a ?ib ?pb (sim_db_0\<lparr>sd_paper := p2, sd_execution := ?x\<rparr>) = (Inr (z, g), db')"
    and out2: "out_decision z = ManualEscalated" "ef_state g = ManualRequired" "ef_unmatched_quantity g = 1 / 100"
    using over_budget_escalates[OF assms, of ?pb ?a ?ib "sim_db_0\<lparr>sd_paper := p2, sd_execution := ?x\<rparr>" f] refs2 s f(1)
    by (auto simp: v sim_db_0_def)
  have r0: "bind_db (on_paper (set_paper_balance ?a ''b03-buy'' ''USDT'' 1000 1000 (sw_clock w 1))) (\<lambda>_.
      bind_db (on_paper (set_paper_balance ?a ''b03-sell'' ''BTC'' 2 2 (sw_clock w 1))) k) sim_db_0 = k () ?d0" for k :: "unit \<Rightarrow> sim_db \<Rightarrow> 'z result \<times> sim_db"
    unfolding bal_def by (rule balances_set[OF fresh_world_simps(1)[OF assms]]) (simp_all add: s)
  show ?thesis
    unfolding run_double_leg_smoke_def Let_def s_def[symmetric] r0
    unfolding bind_db_def r1 r2 r3 r4 plan plan2 prod.case sum.case
    by (simp add: out out2 double_leg_passed_def)
qed


section \<open>The order run\<close>

record order_smoke_report =
  os_submit_definitely_rejected :: bool
  os_submit_timeout_unknown :: bool
  os_query_not_found_preserved_unknown :: bool
  os_query_found_recovered :: bool
  os_duplicate_trade_ignored :: bool
  os_cancel_race_trade_preserved :: bool
  os_recovered_filled_quantity :: decimal
  os_recovered_submission_status :: submission_status
  os_recovered_cancel_status :: cancel_status

definition order_smoke_request :: "string \<Rightarrow> string \<Rightarrow> string \<Rightarrow> reserve_plan_request" where
  "order_smoke_request p account instrument =
     \<lparr>rp_request_id = p @ ''-request'', rp_plan_id = p @ ''-plan'', rp_account_id = account,
      rp_instrument_id = instrument, rp_opportunity_id = p @ ''-opportunity'',
      rp_strategy_config_version = ''order-smoke-v1'', rp_target_quantity = 1 / 100, rp_max_unmatched_exposure = 1,
      rp_intents = (smoke_intent p ''buy'' ''order-buy'' Buy (1 / 100) 90,
        smoke_intent (p @ ''-sell'') ''sell'' ''order-sell'' Sell (1 / 100) 100),
      rp_reservations = [
        \<lparr>ri_reservation_id = p @ ''-quote-reservation'', ri_venue = ''order-buy'', ri_asset = ''USDT'', ri_amount = 90\<rparr>,
        \<lparr>ri_reservation_id = p @ ''-base-reservation'', ri_venue = ''order-sell'', ri_asset = ''BTC'', ri_amount = 1 / 100\<rparr>]\<rparr>"

definition smoke_digest :: string where
  "smoke_digest = ''0123456789abcdef0123456789abcdef0123456789abcdef0123456789abcdef''"

definition order_smoke_trade :: "string \<Rightarrow> u64 \<Rightarrow> trade_input" where
  "order_smoke_trade p occurred_at = \<lparr>ti_venue = ''order-buy'', ti_exchange_order_id = p @ ''-exchange-order'',
     ti_trade_id = p @ ''-trade'', ti_quantity = 1 / 100, ti_price = 90, ti_fee_asset = ''USDT'',
     ti_fee_amount = 9 / 100, ti_source_sequence = 1, ti_occurred_at_ms = occurred_at\<rparr>"

text \<open>The intent of one side, or the error of the run when there is none.\<close>

definition intent_of_side :: "order_side \<Rightarrow> string \<Rightarrow> recovered_plan \<Rightarrow> string result" where
  "intent_of_side side missing plan = (case find (\<lambda>i. oi_side i = side) (rc_intents plan) of
     None \<Rightarrow> Inl (Bail missing) | Some i \<Rightarrow> Inr (oi_intent_id i))"

text \<open>The life of the BUY order: a lost submission, found by the second query, filled once, then cancelled.\<close>

definition bought_order :: "sim_world \<Rightarrow> order_core \<Rightarrow> string \<Rightarrow> string \<Rightarrow> sim_db
    \<Rightarrow> (order_fact \<times> order_fact \<times> order_fact \<times> order_fact \<times> order_fact \<times> order_fact) result \<times> sim_db" where
  "bought_order w core p intent =
     (let call = order_call w core intent; trade = order_smoke_trade p (sw_clock w 10) in
      bind_db (call EnsureIntent 4) (\<lambda>_.
      bind_db (call (SubmitStart smoke_digest) 5) (\<lambda>_.
      bind_db (call (SubmitReport (SubmittedUnknown ''transport timeout'')) 6) (\<lambda>after_timeout.
      bind_db (call (QueryReport (NotFound (p @ ''-query-1'') (sw_clock w 7 + 60000))) 8) (\<lambda>after_not_found.
      bind_db (call (QueryReport (Found (p @ ''-query-2'') (p @ ''-exchange-order''))) 9) (\<lambda>after_found.
      bind_db (call (ReportTrade trade) 11) (\<lambda>after_trade.
      bind_db (call (ReportTrade trade) 12) (\<lambda>duplicate.
      bind_db (call RequestCancel 13) (\<lambda>_.
      bind_db (call (CancelReport ResultConfirmed) 14) (\<lambda>after_cancel.
      return_db (Inr (after_timeout, after_not_found, after_found, after_trade, duplicate, after_cancel))))))))))))"

text \<open>The life of the SELL order: the venue refuses it.\<close>

definition refused_order :: "sim_world \<Rightarrow> order_core \<Rightarrow> string \<Rightarrow> sim_db \<Rightarrow> order_fact result \<times> sim_db" where
  "refused_order w core intent =
     (let call = order_call w core intent in
      bind_db (call EnsureIntent 15) (\<lambda>_.
      bind_db (call (SubmitStart smoke_digest) 16) (\<lambda>_.
      call (SubmitReport (SubmittedRejected ''venue rejected smoke order'')) 17)))"

text \<open>What the run does with its open core, and its report.\<close>

definition order_life :: "sim_world \<Rightarrow> order_core \<Rightarrow> string \<Rightarrow> recovered_plan \<Rightarrow> string \<Rightarrow> sim_db \<Rightarrow> order_smoke_report result \<times> sim_db" where
  "order_life w core p plan intent =
     bind_db (bought_order w core p intent) (\<lambda>(after_timeout, after_not_found, after_found, after_trade, duplicate, after_cancel).
     bind_db (return_db (intent_of_side Sell ''smoke SELL intent missing'' plan)) (\<lambda>rejected_intent.
     bind_db (refused_order w core rejected_intent) (\<lambda>after_rejection.
     bind_db (on_orders (\<lambda>x. (Inr (recover_nonterminal (sw_collation w) core x), x))) (\<lambda>recovered.
     return_db (Inr
       \<lparr>os_submit_definitely_rejected = (of_submission_status after_rejection = DefinitelyRejected),
        os_submit_timeout_unknown = (of_submission_status after_timeout = Unknown),
        os_query_not_found_preserved_unknown = (of_submission_status after_not_found = Unknown),
        os_query_found_recovered = (of_submission_status after_found = Accepted
          \<and> of_exchange_order_id after_found \<noteq> None),
        os_duplicate_trade_ignored = (of_filled_quantity duplicate = of_filled_quantity after_trade),
        os_cancel_race_trade_preserved = (of_cancel_status after_cancel = CancelConfirmed
          \<and> of_filled_quantity after_cancel = 1 / 100),
        os_recovered_filled_quantity = (case recovered of [] \<Rightarrow> 0 | f # _ \<Rightarrow> of_filled_quantity f),
        os_recovered_submission_status = (case recovered of [] \<Rightarrow> NotSent | f # _ \<Rightarrow> of_submission_status f),
        os_recovered_cancel_status = (case recovered of [] \<Rightarrow> CancelNone | f # _ \<Rightarrow> of_cancel_status f)\<rparr>)))))"

definition run_order_facts_smoke :: "sim_world \<Rightarrow> sim_db \<Rightarrow> order_smoke_report result \<times> sim_db" where
  "run_order_facts_smoke w =
     (let stamp = smoke_stamp (sw_clock w) (sw_pid w); account = ''order-account-'' @ stamp;
          instrument = ''order-instrument-'' @ stamp; p = ''order-smoke-'' @ stamp;
          core = \<lparr>co_account_id = account, co_instrument_id = instrument\<rparr> in
      bind_db (on_paper (set_paper_balance account ''order-buy'' ''USDT'' 100 100 (sw_clock w 1))) (\<lambda>_.
      bind_db (on_paper (set_paper_balance account ''order-sell'' ''BTC'' 1 1 (sw_clock w 2))) (\<lambda>_.
      bind_db (reserve_alone w (order_smoke_request p account instrument) 3) (\<lambda>plan.
      bind_db (return_db (intent_of_side Buy ''smoke BUY intent missing'' plan)) (\<lambda>intent.
      with_domain w account instrument (order_life w core p plan intent))))))"

lemma smoke_digest_valid: "validate_digest smoke_digest = Inr ()"
  by (simp add: validate_digest_def smoke_digest_def is_hex_def)


text \<open>The table holds one fact, and the actions of its versions: what every call of the run finds and leaves.\<close>

definition stands :: "order_core \<Rightarrow> string \<Rightarrow> intent_ref list \<Rightarrow> order_fact \<Rightarrow> order_db \<Rightarrow> bool" where
  "stands core i refs f x \<longleftrightarrow> od_intents x = refs \<and> od_facts x = [f] \<and> of_intent_id f = i
     \<and> of_account_id f = co_account_id core \<and> of_instrument_id f = co_instrument_id core \<and> 0 \<le> of_last_fact_version f
     \<and> (\<forall>q \<in> set (od_actions x). 0 \<le> af_fact_version q \<and> af_fact_version q \<le> of_last_fact_version f
          \<and> af_intent_id q = i \<and> af_fact_id q = versioned_id i (af_fact_version q))"

lemma stands_frame [simp]:
  "stands core i refs f (x\<lparr>od_trades := ts\<rparr>) = stands core i refs f x"
  "stands core i refs f (x\<lparr>od_investigations := qs\<rparr>) = stands core i refs f x"
  by (simp_all add: stands_def)

lemma stands_read:
  assumes "stands core i refs f x"
  shows "lock_fact i x = Inr f" "load_order core i x = Inr f" "order_view (db\<lparr>sd_orders := x\<rparr>) = x\<lparr>od_intents := intent_refs (sd_paper db)\<rparr>"
  using assms by (simp_all add: stands_def lock_fact_def load_order_def order_view_def)


definition action_of :: "order_fact \<Rightarrow> action_kind \<Rightarrow> string option \<Rightarrow> int \<Rightarrow> (string \<times> payload_value) list \<Rightarrow> action_fact" where
  "action_of f k d now p = \<lparr>af_fact_id = versioned_id (of_intent_id f) (of_last_fact_version f), af_intent_id = of_intent_id f,
     af_fact_version = of_last_fact_version f, af_action = k, af_request_digest = d, af_occurred_at_ms = now, af_payload = p\<rparr>"

definition written :: "order_fact \<Rightarrow> action_fact \<Rightarrow> order_db \<Rightarrow> order_db" where
  "written f a x = x\<lparr>od_facts := [f], od_actions := od_actions x @ [a]\<rparr>"

lemma written_simps [simp]:
  "od_trades (written f a x) = od_trades x" "od_investigations (written f a x) = od_investigations x"
  "od_intents (written f a x) = od_intents x" "od_facts (written f a x) = [f]"
  by (simp_all add: written_def)

lemma stands_update:
  assumes "stands core i refs f x" "of_intent_id f' = i"
  shows "update_fact f' x = Inr (x\<lparr>od_facts := [f']\<rparr>)"
    "update_fact f' (x\<lparr>od_actions := as\<rparr>) = Inr (x\<lparr>od_facts := [f'], od_actions := as\<rparr>)"
  using assms by (simp_all add: stands_def update_fact_def)

lemma stands_append:
  assumes "stands core i refs f x" "of_last_fact_version f + 1 = v"
  shows "append_action i v k d n p x = Inr (x\<lparr>od_actions := od_actions x @ [action_of (f\<lparr>of_last_fact_version := v\<rparr>) k d n p]\<rparr>)"
    "append_action i v k d n p (x\<lparr>od_facts := fs\<rparr>) = Inr (x\<lparr>od_facts := fs, od_actions := od_actions x @ [action_of (f\<lparr>of_last_fact_version := v\<rparr>) k d n p]\<rparr>)"
proof -
  have "\<not> (\<exists>q \<in> set (od_actions x). af_fact_id q = versioned_id i v \<or> af_intent_id q = i \<and> af_fact_version q = v)"
  proof
    assume "\<exists>q \<in> set (od_actions x). af_fact_id q = versioned_id i v \<or> af_intent_id q = i \<and> af_fact_version q = v"
    then obtain q where q: "q \<in> set (od_actions x)" "af_fact_id q = versioned_id i v \<or> af_fact_version q = v" by blast
    then have "0 \<le> af_fact_version q" "af_fact_version q \<le> of_last_fact_version f" "af_fact_id q = versioned_id i (af_fact_version q)"
      using assms(1) by (simp_all add: stands_def)
    then show False using q(2) assms(2) by (auto simp: versioned_id_inj)
  qed
  moreover have "of_intent_id f = i" using assms(1) by (simp add: stands_def)
  ultimately show "append_action i v k d n p x = Inr (x\<lparr>od_actions := od_actions x @ [action_of (f\<lparr>of_last_fact_version := v\<rparr>) k d n p]\<rparr>)"
    "append_action i v k d n p (x\<lparr>od_facts := fs\<rparr>) = Inr (x\<lparr>od_facts := fs, od_actions := od_actions x @ [action_of (f\<lparr>of_last_fact_version := v\<rparr>) k d n p]\<rparr>)"
    by (simp_all add: append_action_def action_of_def)
qed

lemma stands_written:
  assumes "stands core i refs f x" "of_intent_id f' = of_intent_id f" "of_account_id f' = of_account_id f"
    "of_instrument_id f' = of_instrument_id f" "of_last_fact_version f' = of_last_fact_version f + 1"
  shows "stands core i refs f' (written f' (action_of f' k d n p) x)"
proof -
  have "0 \<le> af_fact_version q \<and> af_fact_version q \<le> of_last_fact_version f + 1 \<and> af_intent_id q = i \<and> af_fact_id q = versioned_id i (af_fact_version q)"
    if "q \<in> set (od_actions x)" for q
  proof -
    have "0 \<le> af_fact_version q" "af_fact_version q \<le> of_last_fact_version f" "af_intent_id q = i" "af_fact_id q = versioned_id i (af_fact_version q)"
      using assms(1) that by (simp_all add: stands_def)
    then show ?thesis by simp
  qed
  then show ?thesis using assms by (simp add: stands_def written_def action_of_def)
qed


lemma stands_ids:
  assumes "stands core i refs f x"
  shows "of_intent_id f = i" "of_account_id f = co_account_id core" "of_instrument_id f = co_instrument_id core"
  using assms by (simp_all add: stands_def)

lemmas stands_ops = commit_and_load_def load_order_def action_of_def written_def bump_def Let_def coalesce_def

text \<open>The calls on such a table: the fact after each of them, and what else changes.\<close>

lemma submit_steps:
  assumes x: "stands core i refs f x" and n: "to_i64 now = Inr n" and ids: "validate_id i = Inr ()" "validate_id m = Inr ()"
  shows "of_submission_status f = NotSent \<Longrightarrow> validate_digest dg = Inr () \<Longrightarrow>
      run_call d core i (SubmitStart dg) now x = (let g = bump n (f\<lparr>of_submission_status := InFlight\<rparr>)
        in (Inr g, written g (action_of g SubmitStarted (Some dg) n [(''request_digest'', PText dg)]) x))"
    "of_submission_status f = InFlight \<Longrightarrow>
      run_call d core i (SubmitReport (SubmittedUnknown m)) now x = (let g = bump n (f\<lparr>of_submission_status := Unknown, of_last_error := Some m\<rparr>)
        in (Inr g, written g (action_of g SubmitUnknown None n [(''reason'', PText m)]) x))"
    "of_submission_status f = InFlight \<Longrightarrow>
      run_call d core i (SubmitReport (SubmittedRejected m)) now x = (let g = bump n (f\<lparr>of_submission_status := DefinitelyRejected, of_last_error := Some m\<rparr>)
        in (Inr g, written g (action_of g SubmitRejected None n [(''reason'', PText m)]) x))"
  by (simp_all add: submit_started_def submit_result_def submit_outcome_def stands_read(1)[OF x] stands_update[OF x]
      stands_append[OF x] stands_ops stands_ids[OF x] n ids)

lemma query_steps:
  assumes x: "stands core i refs f x" and n: "to_i64 now = Inr n" and ids: "validate_id q = Inr ()" "validate_id e = Inr ()"
    and s: "of_submission_status f = Unknown" and q: "\<forall>y \<in> set (od_investigations x). in_query_id y \<noteq> q"
  shows "to_i64 dl = Inr dn \<Longrightarrow>
      run_call d core i (QueryReport (NotFound q dl)) now x = (let g = bump n f
        in (Inr g, written g (action_of g QueryNotFound None n [(''query_id'', PText q), (''visibility_deadline_ms'', PNumber dl)])
          (x\<lparr>od_investigations := od_investigations x @ [\<lparr>in_query_id = q, in_intent_id = i, in_found = False,
             in_visibility_deadline_ms = dn, in_occurred_at_ms = n\<rparr>]\<rparr>)))"
    "run_call d core i (QueryReport (Found q e)) now x = (let g = bump n (f\<lparr>of_submission_status := Accepted, of_exchange_order_id := Some e\<rparr>)
        in (Inr g, written g (action_of g QueryFound None n [(''exchange_order_id'', PText e)])
          (x\<lparr>od_investigations := od_investigations x @ [\<lparr>in_query_id = q, in_intent_id = i, in_found = True,
             in_visibility_deadline_ms = 0, in_occurred_at_ms = n\<rparr>]\<rparr>)))"
proof -
  have q': "\<not> (\<exists>y \<in> set (od_investigations x). in_query_id y = q)" using q by simp
  have z: "to_i64 0 = Inr 0" by (simp add: to_i64_def)
  have y: "stands core i refs f (x\<lparr>od_investigations := qs\<rparr>)" for qs using x by simp
  note s = query_result_def stands_read(1)[OF x] stands_update[OF y] stands_append[OF y] stands_ops stands_ids[OF x] n ids s z if_not_P[OF q']
  show "to_i64 dl = Inr dn \<Longrightarrow>
      run_call d core i (QueryReport (NotFound q dl)) now x = (let g = bump n f
        in (Inr g, written g (action_of g QueryNotFound None n [(''query_id'', PText q), (''visibility_deadline_ms'', PNumber dl)])
          (x\<lparr>od_investigations := od_investigations x @ [\<lparr>in_query_id = q, in_intent_id = i, in_found = False,
             in_visibility_deadline_ms = dn, in_occurred_at_ms = n\<rparr>]\<rparr>)))"
    by (simp add: s)
  show "run_call d core i (QueryReport (Found q e)) now x = (let g = bump n (f\<lparr>of_submission_status := Accepted, of_exchange_order_id := Some e\<rparr>)
        in (Inr g, written g (action_of g QueryFound None n [(''exchange_order_id'', PText e)])
          (x\<lparr>od_investigations := od_investigations x @ [\<lparr>in_query_id = q, in_intent_id = i, in_found = True,
             in_visibility_deadline_ms = 0, in_occurred_at_ms = n\<rparr>]\<rparr>)))"
    by (simp add: s)
qed

lemma cancel_steps:
  assumes x: "stands core i refs f x" and n: "to_i64 now = Inr n" and i: "validate_id i = Inr ()"
    and s: "of_submission_status f = Accepted"
  shows "of_cancel_status f = CancelNone \<Longrightarrow>
      run_call d core i RequestCancel now x = (let g = bump n (f\<lparr>of_cancel_status := CancelRequested\<rparr>)
        in (Inr g, written g (action_of g CancelWasRequested None n [(''cancel_status'', PText ''REQUESTED'')]) x))"
    "of_cancel_status f = CancelRequested \<Longrightarrow>
      run_call d core i (CancelReport ResultConfirmed) now x = (let g = bump n (f\<lparr>of_cancel_status := CancelConfirmed\<rparr>)
        in (Inr g, written g (action_of g CancelIsConfirmed None n [(''cancel_status'', PText ''CONFIRMED'')]) x))"
  by (simp_all add: cancel_requested_def cancel_result_def stands_read(1)[OF x] stands_update[OF x]
      stands_append[OF x] stands_ops stands_ids[OF x] n i s)

lemma trade_steps:
  assumes x: "stands core i refs f x" and n: "to_i64 now = Inr n" and t: "validate_trade t = Inr ()"
    and e: "of_exchange_order_id f = Some (ti_exchange_order_id t)" "of_venue f = ti_venue t"
  shows "od_trades x = [] \<Longrightarrow> 0 \<le> sint (ti_source_sequence t) \<Longrightarrow> length (d t) = 64 \<Longrightarrow> to_i64 (ti_occurred_at_ms t) = Inr at_ms \<Longrightarrow>
      of_filled_quantity f + ti_quantity t \<le> of_ordered_quantity f \<Longrightarrow>
      run_call d core i (ReportTrade t) now x = (let g = bump n (f\<lparr>of_filled_quantity := of_filled_quantity f + ti_quantity t, of_reconciliation_status := Matched\<rparr>)
        in (Inr g, written g (action_of g TradeRecorded None n [(''trade_id'', PText (ti_trade_id t)), (''quantity'', PDecimal (ti_quantity t))])
          (x\<lparr>od_trades := [\<lparr>tf_venue = ti_venue t, tf_exchange_order_id = ti_exchange_order_id t,
                 tf_trade_id = ti_trade_id t, tf_intent_id = i, tf_trade_digest = d t,
                 tf_quantity = ti_quantity t, tf_price = ti_price t, tf_fee_asset = ti_fee_asset t,
                 tf_fee_amount = ti_fee_amount t, tf_source_sequence = sint (ti_source_sequence t),
                 tf_occurred_at_ms = at_ms\<rparr>]\<rparr>)))"
    "od_trades x = [old] \<Longrightarrow> same_trade t old \<Longrightarrow> tf_trade_digest old = d t \<Longrightarrow>
      run_call d core i (ReportTrade t) now x = (let g = bump n f
        in (Inr g, written g (action_of g TradeDuplicate None n [(''trade_id'', PText (ti_trade_id t)), (''digest'', PText (d t))]) x))"
proof -
  have y: "stands core i refs f (x\<lparr>od_trades := ts\<rparr>)" for ts using x by simp
  note s = record_trade_def record_known_trade_def record_new_trade_def stands_read(1)[OF x] stands_update[OF x] stands_append[OF x]
    stands_update[OF y] stands_append[OF y] stands_ops stands_ids[OF x] n t e
  show "od_trades x = [] \<Longrightarrow> 0 \<le> sint (ti_source_sequence t) \<Longrightarrow> length (d t) = 64 \<Longrightarrow> to_i64 (ti_occurred_at_ms t) = Inr at_ms \<Longrightarrow>
      of_filled_quantity f + ti_quantity t \<le> of_ordered_quantity f \<Longrightarrow>
      run_call d core i (ReportTrade t) now x = (let g = bump n (f\<lparr>of_filled_quantity := of_filled_quantity f + ti_quantity t, of_reconciliation_status := Matched\<rparr>)
        in (Inr g, written g (action_of g TradeRecorded None n [(''trade_id'', PText (ti_trade_id t)), (''quantity'', PDecimal (ti_quantity t))])
          (x\<lparr>od_trades := [\<lparr>tf_venue = ti_venue t, tf_exchange_order_id = ti_exchange_order_id t,
                 tf_trade_id = ti_trade_id t, tf_intent_id = i, tf_trade_digest = d t,
                 tf_quantity = ti_quantity t, tf_price = ti_price t, tf_fee_asset = ti_fee_asset t,
                 tf_fee_amount = ti_fee_amount t, tf_source_sequence = sint (ti_source_sequence t),
                 tf_occurred_at_ms = at_ms\<rparr>]\<rparr>)))" by (simp add: s)
  show "od_trades x = [old] \<Longrightarrow> same_trade t old \<Longrightarrow> tf_trade_digest old = d t \<Longrightarrow>
      run_call d core i (ReportTrade t) now x = (let g = bump n f
        in (Inr g, written g (action_of g TradeDuplicate None n [(''trade_id'', PText (ti_trade_id t)), (''digest'', PText (d t))]) x))"
    by (simp add: s)
qed


lemma bump_frame [simp]:
  "of_intent_id (bump n f) = of_intent_id f" "of_account_id (bump n f) = of_account_id f"
  "of_instrument_id (bump n f) = of_instrument_id f" "of_venue (bump n f) = of_venue f"
  "of_ordered_quantity (bump n f) = of_ordered_quantity f" "of_submission_status (bump n f) = of_submission_status f"
  "of_cancel_status (bump n f) = of_cancel_status f" "of_exchange_order_id (bump n f) = of_exchange_order_id f"
  "of_filled_quantity (bump n f) = of_filled_quantity f" "of_last_fact_version (bump n f) = of_last_fact_version f + 1"
  by (simp_all add: bump_def)

lemma call_on_orders:
  assumes "od_intents x = intent_refs (sd_paper db)" "run_call (sw_trade_digest w) core i c (sw_clock w n) x = (Inr g, x')"
  shows "order_call w core i c n (db\<lparr>sd_orders := x\<rparr>) = (Inr g, db\<lparr>sd_orders := x'\<rparr>)"
proof -
  have "order_view (db\<lparr>sd_orders := x\<rparr>) = x" using assms(1) by (simp add: order_view_def)
  then show ?thesis using assms(2) by (simp add: order_call_def on_orders_def)
qed

text \<open>One call of the run on the tables of all cores: the fact it returns and the state it leaves.\<close>

definition called :: "sim_world \<Rightarrow> order_core \<Rightarrow> string \<Rightarrow> sim_db \<Rightarrow> order_call \<Rightarrow> nat \<Rightarrow> order_fact \<Rightarrow> order_db
    \<Rightarrow> trade_fact list \<Rightarrow> investigation list \<Rightarrow> bool" where
  "called w core i db c n g x ts qs \<longleftrightarrow> (\<exists>x'. order_call w core i c n (db\<lparr>sd_orders := x\<rparr>) = (Inr g, db\<lparr>sd_orders := x'\<rparr>)
     \<and> stands core i (intent_refs (sd_paper db)) g x' \<and> od_trades x' = ts \<and> od_investigations x' = qs)"

lemma calledI:
  assumes "stands core i (intent_refs (sd_paper db)) f x"
    "run_call (sw_trade_digest w) core i c (sw_clock w n) x = (let g = bump m f' in (Inr g, written g (action_of g k d at_ms p) y))"
    "stands core i (intent_refs (sd_paper db)) f y"
    "of_intent_id f' = of_intent_id f" "of_account_id f' = of_account_id f" "of_instrument_id f' = of_instrument_id f"
    "of_last_fact_version f' = of_last_fact_version f"
  shows "called w core i db c n (bump m f') x (od_trades y) (od_investigations y)"
proof -
  have "od_intents x = intent_refs (sd_paper db)" using assms(1) by (simp add: stands_def)
  from call_on_orders[OF this assms(2)[unfolded Let_def]] show ?thesis
    unfolding called_def using stands_written[OF assms(3), of "bump m f'" k d at_ms p] assms(4-7) by (auto intro!: exI)
qed

lemma bought_order_passes:
  assumes "fresh_world w" "visible p" "visible i" "i \<noteq> []" "sd_orders db = sd_orders sim_db_0"
    "intent_refs (sd_paper db) = [\<lparr>ir_intent_id = i, ir_account_id = co_account_id core,
       ir_instrument_id = co_instrument_id core, ir_venue = ''order-buy'', ir_quantity = 1 / 100\<rparr>, r]"
  shows "\<exists>a b c d e f x. bought_order w core p i db = (Inr (a, b, c, d, e, f), db\<lparr>sd_orders := x\<rparr>)
    \<and> of_submission_status a = Unknown \<and> of_submission_status b = Unknown \<and> of_submission_status c = Accepted
    \<and> of_exchange_order_id c \<noteq> None \<and> of_filled_quantity e = of_filled_quantity d
    \<and> of_cancel_status f = CancelConfirmed \<and> of_filled_quantity f = 1 / 100 \<and> of_submission_status f = Accepted
    \<and> of_venue f = ''order-buy'' \<and> stands core i (intent_refs (sd_paper db)) f x"
proof -
  let ?refs = "intent_refs (sd_paper db)" and ?d = "sw_trade_digest w"
  note c = good_clock_simps(1)[OF fresh_world_simps(1)[OF assms(1)]] good_clock_plus(4)[OF fresh_world_simps(1)[OF assms(1)]]
  have i: "validate_id i = Inr ()" using assms(3,4) by (rule visible_valid)
  have ids: "validate_id (p @ ''-query-1'') = Inr ()" "validate_id (p @ ''-query-2'') = Inr ()" "validate_id (p @ ''-exchange-order'') = Inr ()"
    "validate_id (p @ ''-trade'') = Inr ()" using assms(2) by (simp_all add: visible_valid)
  have m: "validate_id ''transport timeout'' = Inr ()" by (simp add: sample_ids)
  let ?t = "order_smoke_trade p (sw_clock w 10)"
  have t: "validate_trade ?t = Inr ()" using ids by (simp add: validate_trade_def order_smoke_trade_def visible_valid)
  define f0 where "f0 = \<lparr>of_intent_id = i, of_account_id = co_account_id core, of_instrument_id = co_instrument_id core,
    of_venue = ''order-buy'', of_ordered_quantity = 1 / 100, of_submission_status = NotSent, of_cancel_status = CancelNone,
    of_reconciliation_status = Pending, of_exchange_order_id = None, of_filled_quantity = 0, of_last_fact_version = 0,
    of_last_error = None, of_updated_at_ms = uint (sw_clock w 4)\<rparr>"
  define x0 where "x0 = (sd_orders sim_db_0)\<lparr>od_intents := ?refs, od_facts := [f0]\<rparr>"
  have e0: "order_call w core i EnsureIntent 4 db = (Inr f0, db\<lparr>sd_orders := x0\<rparr>)"
    by (simp add: order_call_def on_orders_def order_view_def assms(5,6) ensure_intent_def i c commit_and_load_def load_order_def
        x0_def f0_def sim_db_0_def)
  have s0: "stands core i ?refs f0 x0" "od_trades x0 = []" "od_investigations x0 = []"
    by (simp_all add: stands_def x0_def f0_def sim_db_0_def)
  let ?at = "\<lambda>n. uint (sw_clock w n)"
  define f1 where "f1 = bump (?at 5) (f0\<lparr>of_submission_status := InFlight\<rparr>)"
  define f2 where "f2 = bump (?at 6) (f1\<lparr>of_submission_status := Unknown, of_last_error := Some ''transport timeout''\<rparr>)"
  define f3 where "f3 = bump (?at 8) f2"
  define f4 where "f4 = bump (?at 9) (f3\<lparr>of_submission_status := Accepted, of_exchange_order_id := Some (p @ ''-exchange-order'')\<rparr>)"
  define f5 where "f5 = bump (?at 11) (f4\<lparr>of_filled_quantity := of_filled_quantity f4 + ti_quantity ?t, of_reconciliation_status := Matched\<rparr>)"
  define f6 where "f6 = bump (?at 12) f5"
  define f7 where "f7 = bump (?at 13) (f6\<lparr>of_cancel_status := CancelRequested\<rparr>)"
  define f8 where "f8 = bump (?at 14) (f7\<lparr>of_cancel_status := CancelConfirmed\<rparr>)"
  note fs = f0_def f1_def f2_def f3_def f4_def f5_def f6_def f7_def f8_def order_smoke_trade_def
  have "called w core i db (SubmitStart smoke_digest) 5 f1 x0 [] []"
    unfolding f1_def using calledI[OF s0(1) submit_steps(1)[OF s0(1) c(1) i m _ smoke_digest_valid] s0(1)] s0(2,3) by (simp add: fs)
  then obtain x1 where e1: "order_call w core i (SubmitStart smoke_digest) 5 (db\<lparr>sd_orders := x0\<rparr>) = (Inr f1, db\<lparr>sd_orders := x1\<rparr>)"
    and s1: "stands core i ?refs f1 x1" "od_trades x1 = []" "od_investigations x1 = []" unfolding called_def by blast
  have "called w core i db (SubmitReport (SubmittedUnknown ''transport timeout'')) 6 f2 x1 [] []"
    unfolding f2_def using calledI[OF s1(1) submit_steps(2)[OF s1(1) c(1) i m] s1(1)] s1(2,3) by (simp add: fs)
  then obtain x2 where e2: "order_call w core i (SubmitReport (SubmittedUnknown ''transport timeout'')) 6 (db\<lparr>sd_orders := x1\<rparr>) = (Inr f2, db\<lparr>sd_orders := x2\<rparr>)"
    and s2: "stands core i ?refs f2 x2" "od_trades x2 = []" "od_investigations x2 = []" unfolding called_def by blast
  let ?q1 = "QueryReport (NotFound (p @ ''-query-1'') (sw_clock w 7 + 60000))"
  have dn: "to_i64 (sw_clock w 7 + 60000) = Inr (?at 7 + 60000)" by (simp add: c)
  have free: "\<forall>y \<in> set (od_investigations x2). in_query_id y \<noteq> p @ ''-query-1''" using s2(3) by simp
  define y where "y = \<lparr>in_query_id = p @ ''-query-1'', in_intent_id = i, in_found = False,
    in_visibility_deadline_ms = ?at 7 + 60000, in_occurred_at_ms = ?at 8\<rparr>"
  have "called w core i db ?q1 8 f3 x2 [] [y]"
    unfolding f3_def y_def using calledI[OF s2(1) query_steps(1)[OF s2(1) c(1) ids(1,3) _ free dn]] s2 by (simp add: fs)
  then obtain x3 where e3: "order_call w core i ?q1 8 (db\<lparr>sd_orders := x2\<rparr>) = (Inr f3, db\<lparr>sd_orders := x3\<rparr>)"
    and s3: "stands core i ?refs f3 x3" "od_trades x3 = []" "od_investigations x3 = [y]" unfolding called_def by blast
  let ?q2 = "QueryReport (Found (p @ ''-query-2'') (p @ ''-exchange-order''))"
  have free2: "\<forall>y \<in> set (od_investigations x3). in_query_id y \<noteq> p @ ''-query-2''" using s3(3) by (simp add: y_def)
  have "called w core i db ?q2 9 f4 x3 [] (od_investigations x3 @ [\<lparr>in_query_id = p @ ''-query-2'', in_intent_id = i,
      in_found = True, in_visibility_deadline_ms = 0, in_occurred_at_ms = ?at 9\<rparr>])"
    unfolding f4_def using calledI[OF s3(1) query_steps(2)[OF s3(1) c(1) ids(2,3) _ free2]] s3 by (simp add: fs)
  then obtain x4 where e4: "order_call w core i ?q2 9 (db\<lparr>sd_orders := x3\<rparr>) = (Inr f4, db\<lparr>sd_orders := x4\<rparr>)"
    and s4: "stands core i ?refs f4 x4" "od_trades x4 = []" unfolding called_def by blast
  define old where "old = \<lparr>tf_venue = ti_venue ?t, tf_exchange_order_id = ti_exchange_order_id ?t, tf_trade_id = ti_trade_id ?t,
    tf_intent_id = i, tf_trade_digest = sw_trade_digest w ?t, tf_quantity = ti_quantity ?t, tf_price = ti_price ?t,
    tf_fee_asset = ti_fee_asset ?t, tf_fee_amount = ti_fee_amount ?t, tf_source_sequence = sint (ti_source_sequence ?t),
    tf_occurred_at_ms = uint (ti_occurred_at_ms ?t)\<rparr>"
  have old: "same_trade ?t old" "tf_trade_digest old = sw_trade_digest w ?t" by (simp_all add: old_def same_trade_def)
  have at: "to_i64 (ti_occurred_at_ms ?t) = Inr (uint (ti_occurred_at_ms ?t))" by (simp add: order_smoke_trade_def c)
  have "called w core i db (ReportTrade ?t) 11 f5 x4 [old] (od_investigations x4)"
    unfolding f5_def old_def using calledI[OF s4(1) trade_steps(1)[OF s4(1) c(1) t _ _ s4(2) _ fresh_world_simps(3)[OF assms(1)] at]] s4(1)
    by (simp add: fs)
  then obtain x5 where e5: "order_call w core i (ReportTrade ?t) 11 (db\<lparr>sd_orders := x4\<rparr>) = (Inr f5, db\<lparr>sd_orders := x5\<rparr>)"
    and s5: "stands core i ?refs f5 x5" "od_trades x5 = [old]" unfolding called_def by blast
  have "called w core i db (ReportTrade ?t) 12 f6 x5 [old] (od_investigations x5)"
    unfolding f6_def using calledI[OF s5(1) trade_steps(2)[where d = "sw_trade_digest w", OF s5(1) c(1) t _ _ s5(2) old] s5(1)] s5(2) by (simp add: fs)
  then obtain x6 where e6: "order_call w core i (ReportTrade ?t) 12 (db\<lparr>sd_orders := x5\<rparr>) = (Inr f6, db\<lparr>sd_orders := x6\<rparr>)"
    and s6: "stands core i ?refs f6 x6" unfolding called_def by blast
  have "called w core i db RequestCancel 13 f7 x6 (od_trades x6) (od_investigations x6)"
    unfolding f7_def using calledI[OF s6 cancel_steps(1)[OF s6 c(1) i] s6] by (simp add: fs)
  then obtain x7 where e7: "order_call w core i RequestCancel 13 (db\<lparr>sd_orders := x6\<rparr>) = (Inr f7, db\<lparr>sd_orders := x7\<rparr>)"
    and s7: "stands core i ?refs f7 x7" unfolding called_def by blast
  have "called w core i db (CancelReport ResultConfirmed) 14 f8 x7 (od_trades x7) (od_investigations x7)"
    unfolding f8_def using calledI[OF s7 cancel_steps(2)[OF s7 c(1) i] s7] by (simp add: fs)
  then obtain x8 where e8: "order_call w core i (CancelReport ResultConfirmed) 14 (db\<lparr>sd_orders := x7\<rparr>) = (Inr f8, db\<lparr>sd_orders := x8\<rparr>)"
    and s8: "stands core i ?refs f8 x8" unfolding called_def by blast
  have "bought_order w core p i db = (Inr (f2, f3, f4, f5, f6, f8), db\<lparr>sd_orders := x8\<rparr>)"
    unfolding bought_order_def Let_def bind_db_def e0 e1 e2 e3 e4 e5 e6 e7 e8 prod.case sum.case return_db_def ..
  moreover have "of_submission_status f2 = Unknown" "of_submission_status f3 = Unknown" "of_submission_status f4 = Accepted"
    "of_exchange_order_id f4 \<noteq> None" "of_filled_quantity f6 = of_filled_quantity f5" "of_cancel_status f8 = CancelConfirmed"
    "of_filled_quantity f8 = 1 / 100" "of_submission_status f8 = Accepted" "of_venue f8 = ''order-buy''"
    by (simp_all add: fs)
  ultimately show ?thesis using s8 by blast
qed


lemma refused_order_passes:
  assumes "fresh_world w" "visible j" "j \<noteq> []" "j \<noteq> i" "stands core i (intent_refs (sd_paper db)) f x"
    "intent_refs (sd_paper db) = [r, \<lparr>ir_intent_id = j, ir_account_id = co_account_id core,
       ir_instrument_id = co_instrument_id core, ir_venue = v, ir_quantity = q\<rparr>]" "ir_intent_id r = i"
  shows "\<exists>g x'. refused_order w core j (db\<lparr>sd_orders := x\<rparr>) = (Inr g, db\<lparr>sd_orders := x'\<rparr>)
    \<and> of_submission_status g = DefinitelyRejected \<and> od_facts x' = [f, g] \<and> od_intents x' = intent_refs (sd_paper db)"
proof -
  note c = good_clock_simps(1)[OF fresh_world_simps(1)[OF assms(1)]]
  have m: "validate_id ''venue rejected smoke order'' = Inr ()" by (simp add: sample_ids)
  have no: "\<not> (\<exists>a \<in> set (od_actions x). af_fact_id a = versioned_id j n \<or> af_intent_id a = j \<and> af_fact_version a = n)" if "0 \<le> n" for n
  proof
    assume "\<exists>a \<in> set (od_actions x). af_fact_id a = versioned_id j n \<or> af_intent_id a = j \<and> af_fact_version a = n"
    then obtain a where a: "a \<in> set (od_actions x)" "af_fact_id a = versioned_id j n \<or> af_intent_id a = j" by blast
    then have "0 \<le> af_fact_version a" "af_intent_id a = i" "af_fact_id a = versioned_id i (af_fact_version a)"
      using assms(5) by (simp_all add: stands_def)
    then show False using a(2) assms(4) that by (auto simp: versioned_id_inj)
  qed
  have x: "od_facts x = [f]" "of_intent_id f = i" "od_intents x = intent_refs (sd_paper db)" using assms(5) by (simp_all add: stands_def)
  define g where "g = bump (uint (sw_clock w 17)) ((bump (uint (sw_clock w 16)) \<lparr>of_intent_id = j, of_account_id = co_account_id core,
    of_instrument_id = co_instrument_id core, of_venue = v, of_ordered_quantity = q, of_submission_status = InFlight,
    of_cancel_status = CancelNone, of_reconciliation_status = Pending, of_exchange_order_id = None, of_filled_quantity = 0,
    of_last_fact_version = 0, of_last_error = None, of_updated_at_ms = uint (sw_clock w 15)\<rparr>)
    \<lparr>of_submission_status := DefinitelyRejected, of_last_error := Some ''venue rejected smoke order''\<rparr>)"
  have "\<exists>x'. refused_order w core j (db\<lparr>sd_orders := x\<rparr>) = (Inr g, db\<lparr>sd_orders := x'\<rparr>) \<and> od_facts x' = [f, g]
      \<and> od_intents x' = intent_refs (sd_paper db)"
    using assms(2-4,7) no[of 1] no[of 2] unfolding refused_order_def Let_def bind_db_def order_call_def on_orders_def order_view_def
    by (simp add: ensure_intent_def submit_started_def submit_result_def submit_outcome_def commit_and_load_def load_order_def
        lock_fact_def update_fact_def append_action_def coalesce_def visible_valid c m smoke_digest_valid x assms(6) versioned_id_inj g_def bump_def Let_def execution_update_eq)
  moreover have "of_submission_status g = DefinitelyRejected" by (simp add: g_def)
  ultimately show ?thesis by blast
qed


lemma lock_blind_runs [simp]: "lock_blind (bought_order w core p i)" "lock_blind (refused_order w core j)"
  unfolding bought_order_def refused_order_def Let_def by (intro lock_blind_bind lock_blind_calls)+

lemma lock_blind_life: "lock_blind (order_life w core p plan intent)"
  unfolding order_life_def by (auto intro!: lock_blind_bind split: prod.split)

lemma order_smoke_two_legged:
  assumes "visible p" "visible a" "a \<noteq> []" "visible i" "i \<noteq> []"
  shows "two_legged (order_smoke_request p a i) ''order-buy'' 90 ''order-sell'' (1 / 100)"
  using assms by (simp add: two_legged_def order_smoke_request_def Let_def smoke_intent_def validate_request_def intent_list_def visible_valid)

lemma order_smoke_plan:
  assumes "load_plan collation (p @ ''-plan'') (reserved_db (order_smoke_request p a i) d t bal) = Inr plan"
  shows "intent_of_side Buy m plan = Inr (p @ ''-intent'')" "intent_of_side Sell m plan = Inr (p @ ''-sell-intent'')"
    "intent_refs (reserved_db (order_smoke_request p a i) d t bal) =
      [\<lparr>ir_intent_id = p @ ''-intent'', ir_account_id = a, ir_instrument_id = i, ir_venue = ''order-buy'', ir_quantity = 1 / 100\<rparr>,
       \<lparr>ir_intent_id = p @ ''-sell-intent'', ir_account_id = a, ir_instrument_id = i, ir_venue = ''order-sell'', ir_quantity = 1 / 100\<rparr>]"
  using assms by (auto simp: load_plan_def reserved_db_def order_smoke_request_def intent_list_def smoke_intent_def
      intent_of_side_def intent_refs_def insort_key_def)

lemma order_facts_smoke_passes:
  assumes "fresh_world w"
  shows "fst (run_order_facts_smoke w sim_db_0) = Inr \<lparr>os_submit_definitely_rejected = True,
    os_submit_timeout_unknown = True, os_query_not_found_preserved_unknown = True, os_query_found_recovered = True,
    os_duplicate_trade_ignored = True, os_cancel_race_trade_preserved = True, os_recovered_filled_quantity = 1 / 100,
    os_recovered_submission_status = Accepted, os_recovered_cancel_status = CancelConfirmed\<rparr>"
proof -
  define s where "s = smoke_stamp (sw_clock w) (sw_pid w)"
  let ?a = "''order-account-'' @ s" and ?i = "''order-instrument-'' @ s" and ?p = "''order-smoke-'' @ s"
  let ?r = "order_smoke_request ?p ?a ?i" and ?core = "\<lparr>co_account_id = ''order-account-'' @ s, co_instrument_id = ''order-instrument-'' @ s\<rparr>"
  have s: "visible s" by (simp add: s_def)
  have ids: "validate_id ?a = Inr ()" "validate_id ?i = Inr ()" by (simp_all add: visible_valid s)
  have r: "rp_account_id ?r = ?a" "rp_instrument_id ?r = ?i" "rp_plan_id ?r = ?p @ ''-plan''" by (simp_all add: order_smoke_request_def)
  define bal where "bal used used' = two_balances ?a (''order-buy'', 100, used) (''order-sell'', 1, used') (uint (sw_clock w 1)) (uint (sw_clock w 2))" for used used'
  let ?d0 = "sim_db_0\<lparr>sd_paper := (sd_paper sim_db_0)\<lparr>pd_balances := bal 0 0\<rparr>\<rparr>"
  define p1 where "p1 = reserved_db ?r (request_digest (sw_plan_digest w) ?r) (uint (sw_clock w 3)) (bal 90 (1 / 100))"
  have r0: "bind_db (on_paper (set_paper_balance ?a ''order-buy'' ''USDT'' 100 100 (sw_clock w 1))) (\<lambda>_.
      bind_db (on_paper (set_paper_balance ?a ''order-sell'' ''BTC'' 1 1 (sw_clock w 2))) k) sim_db_0 = k () ?d0" for k :: "unit \<Rightarrow> sim_db \<Rightarrow> 'z result \<times> sim_db"
    unfolding bal_def by (rule balances_set[OF fresh_world_simps(1)[OF assms]]) (simp_all add: s)
  have le: "(90 :: decimal) \<le> 100" "(1 / 100 :: decimal) \<le> 1" by simp_all
  have "two_legged ?r ''order-buy'' 90 ''order-sell'' (1 / 100)" by (rule order_smoke_two_legged) (simp_all add: s)
  from reserved_first[OF this le assms, of 3 "uint (sw_clock w 1)" "uint (sw_clock w 2)", unfolded r, folded bal_def, folded p1_def]
  obtain plan where res: "reserve_plan (sw_collation w) (sw_plan_digest w) ?a ?i ?r (sw_clock w 3) ((sd_paper sim_db_0)\<lparr>pd_balances := bal 0 0\<rparr>)
      = (Inr \<lparr>ro_idempotent_replay = False, ro_plan = plan\<rparr>, p1)" and "load_plan (sw_collation w) (?p @ ''-plan'') p1 = Inr plan" by blast
  note sides = order_smoke_plan[OF this(2)[unfolded p1_def], folded p1_def]
  let ?d1 = "sim_db_0\<lparr>sd_paper := p1\<rparr>"
  have locks: "sd_locks ?d0 = []" "sd_locks ?d1 = []" "sd_orders ?d1 = sd_orders sim_db_0" by (simp_all add: sim_db_0_def)
  have "reserve_plan (sw_collation w) (sw_plan_digest w) ?a ?i ?r (sw_clock w 3) (sd_paper ?d0) = (Inr \<lparr>ro_idempotent_replay = False, ro_plan = plan\<rparr>, p1)"
    using res by simp
  from reserve_alone_ok[OF this r(1,2) ids locks(1)] have r1: "reserve_alone w ?r 3 ?d0 = (Inr plan, ?d1)" by simp
  have refs: "intent_refs (sd_paper ?d1) = [\<lparr>ir_intent_id = ?p @ ''-intent'', ir_account_id = co_account_id ?core,
      ir_instrument_id = co_instrument_id ?core, ir_venue = ''order-buy'', ir_quantity = 1 / 100\<rparr>,
    \<lparr>ir_intent_id = ?p @ ''-sell-intent'', ir_account_id = co_account_id ?core,
      ir_instrument_id = co_instrument_id ?core, ir_venue = ''order-sell'', ir_quantity = 1 / 100\<rparr>]" using sides(3) by simp
  have vis: "visible ?p" "visible (?p @ ''-intent'')" "?p @ ''-intent'' \<noteq> []" "visible (?p @ ''-sell-intent'')" "?p @ ''-sell-intent'' \<noteq> []"
    "?p @ ''-sell-intent'' \<noteq> ?p @ ''-intent''" by (simp_all add: s)
  obtain a b c d e f x where r2: "bought_order w ?core ?p (?p @ ''-intent'') ?d1 = (Inr (a, b, c, d, e, f), ?d1\<lparr>sd_orders := x\<rparr>)"
    and out: "of_submission_status a = Unknown" "of_submission_status b = Unknown" "of_submission_status c = Accepted"
      "of_exchange_order_id c \<noteq> None" "of_filled_quantity e = of_filled_quantity d" "of_cancel_status f = CancelConfirmed"
      "of_filled_quantity f = 1 / 100" "of_submission_status f = Accepted"
    and x: "stands ?core (?p @ ''-intent'') (intent_refs (sd_paper ?d1)) f x"
    using bought_order_passes[OF assms vis(1-3) locks(3) refs] by blast
  obtain g x' where r3: "refused_order w ?core (?p @ ''-sell-intent'') (?d1\<lparr>sd_orders := x\<rparr>) = (Inr g, ?d1\<lparr>sd_orders := x'\<rparr>)"
    and g: "of_submission_status g = DefinitelyRejected" "od_facts x' = [f, g]" "od_intents x' = intent_refs (sd_paper ?d1)"
    using refused_order_passes[OF assms vis(4-6) x refs] by auto
  have "recover_nonterminal (sw_collation w) ?core (order_view (?d1\<lparr>sd_orders := x'\<rparr>)) = [f]"
    using g out(8) stands_ids[OF x] by (simp add: recover_nonterminal_def order_view_def)
  then have r4: "on_orders (\<lambda>x. (Inr (recover_nonterminal (sw_collation w) ?core x), x)) (?d1\<lparr>sd_orders := x'\<rparr>)
      = (Inr [f], ?d1\<lparr>sd_orders := order_view (?d1\<lparr>sd_orders := x'\<rparr>)\<rparr>)" by (simp add: on_orders_def)
  show ?thesis
    unfolding run_order_facts_smoke_def Let_def s_def[symmetric] r0
    unfolding bind_db_def r1 prod.case sum.case sides return_db_def with_domain_blind[OF lock_blind_life ids locks(2)]
    unfolding order_life_def bind_db_def r2 r3 r4 prod.case sum.case sides return_db_def
    using out g(1) by simp
qed


section \<open>The paper run\<close>

record paper_smoke_report =
  ps_same_domain_lock_rejected :: bool
  ps_concurrent_successes :: nat
  ps_concurrent_rejections :: nat
  ps_insufficient_request_rolled_back :: bool
  ps_idempotent_replay :: bool
  ps_conflicting_replay_rejected :: bool
  ps_recovered_plans :: nat
  ps_recovered_risk_decisions :: nat
  ps_recovered_intents :: nat
  ps_recovered_reservations :: nat
  ps_recovered_audit_events :: nat
  ps_audit_events_immutable :: bool
  ps_rejected_request_rows :: nat

definition paper_smoke_request :: "string \<Rightarrow> string \<Rightarrow> string \<Rightarrow> string \<Rightarrow> reserve_plan_request" where
  "paper_smoke_request stamp suffix account instrument = (let p = ''smoke-'' @ stamp @ ''-'' @ suffix in
     \<lparr>rp_request_id = p @ ''-request'', rp_plan_id = p @ ''-plan'', rp_account_id = account,
      rp_instrument_id = instrument, rp_opportunity_id = p @ ''-opportunity'',
      rp_strategy_config_version = ''paper-smoke-v1'', rp_target_quantity = 1 / 1000, rp_max_unmatched_exposure = 80,
      rp_intents = (smoke_intent (p @ ''-buy'') ''buy'' ''paper-buy'' Buy (1 / 1000) 80000,
        smoke_intent (p @ ''-sell'') ''sell'' ''paper-sell'' Sell (1 / 1000) 80100),
      rp_reservations = [
        \<lparr>ri_reservation_id = p @ ''-quote-reservation'', ri_venue = ''paper-buy'', ri_asset = ''USDT'', ri_amount = 80\<rparr>,
        \<lparr>ri_reservation_id = p @ ''-base-reservation'', ri_venue = ''paper-sell'', ri_asset = ''BTC'', ri_amount = 1 / 1000\<rparr>]\<rparr>)"

definition conflicting :: "reserve_plan_request \<Rightarrow> reserve_plan_request" where
  "conflicting r = r\<lparr>rp_target_quantity := rp_target_quantity r + 1 / 10000\<rparr>"

definition business_row_count :: "string \<Rightarrow> string \<Rightarrow> paper_db \<Rightarrow> nat" where
  "business_row_count plan_id request_id p =
     length (filter (\<lambda>r. pl_plan_id r = plan_id \<or> pl_request_id r = request_id) (pd_plans p))
     + length (filter (\<lambda>r. rk_plan_id r = plan_id) (pd_risk p))
     + length (filter (\<lambda>r. it_plan_id r = plan_id) (pd_intents p))
     + length (filter (\<lambda>r. rv_plan_id r = plan_id) (pd_reservations p))
     + length (filter (\<lambda>r. au_aggregate_id r = plan_id \<or> au_causation_id r = request_id) (pd_audit p))"

text \<open>An update of audit rows: the trigger of the table fails for the first row that matches.\<close>

definition update_audit_payload :: "string \<Rightarrow> paper_db \<Rightarrow> unit result" where
  "update_audit_payload plan_id p = (if list_ex (\<lambda>r. au_aggregate_id r = plan_id) (pd_audit p)
     then Inl (Bail ''audit_events are immutable'') else Inr ())"

definition open_core :: "sim_world \<Rightarrow> nat \<Rightarrow> string \<Rightarrow> string \<Rightarrow> sim_db \<Rightarrow> unit result \<times> sim_db" where
  "open_core w session account instrument s =
     (case acquire_domain (sw_sha256 w) (Inr ()) session account instrument (sd_locks s) of
        (Inl e, _) \<Rightarrow> (Inl e, s) | (Inr _, locks) \<Rightarrow> (Inr (), s\<lparr>sd_locks := locks\<rparr>))"

definition close_core :: "nat \<Rightarrow> sim_db \<Rightarrow> sim_db" where
  "close_core session s = s\<lparr>sd_locks := disconnect_domain session (sd_locks s)\<rparr>"

definition reserve_with :: "sim_world \<Rightarrow> reserve_plan_request \<Rightarrow> nat \<Rightarrow> sim_db \<Rightarrow> reserve_outcome result \<times> sim_db" where
  "reserve_with w r i = on_paper (reserve_plan (sw_collation w) (sw_plan_digest w) (rp_account_id r) (rp_instrument_id r) r
     (sw_clock w i))"

text \<open>Two transactions that start together: the database serves one of them first.\<close>

definition raced :: "bool \<Rightarrow> ('s \<Rightarrow> 'a \<times> 's) \<Rightarrow> ('s \<Rightarrow> 'b \<times> 's) \<Rightarrow> 's \<Rightarrow> 'a \<times> 'b \<times> 's" where
  "raced first f g s = (if first then (case f s of (x, s1) \<Rightarrow> case g s1 of (y, s2) \<Rightarrow> (x, y, s2))
     else (case g s of (y, s1) \<Rightarrow> case f s1 of (x, s2) \<Rightarrow> (x, y, s2)))"

text \<open>The competition of the two plans and the two repetitions of the winner.\<close>

definition paper_competition :: "sim_world \<Rightarrow> bool \<Rightarrow> reserve_plan_request \<Rightarrow> reserve_plan_request \<Rightarrow> sim_db
    \<Rightarrow> (nat \<times> nat \<times> reserve_plan_request \<times> reserve_plan_request \<times> reserve_outcome \<times> bool) result \<times> sim_db" where
  "paper_competition w first ra rb s =
     (let (xa, xb, s) = raced first (reserve_with w ra 2) (reserve_with w rb 3) s;
          successes = of_bool (is_ok xa) + of_bool (is_ok xb);
          rejections = of_bool (\<not> is_ok xa) + of_bool (\<not> is_ok xb);
          (winner, loser) = (if is_ok xa then (ra, rb) else (rb, ra))
      in if successes \<noteq> 1 \<or> rejections \<noteq> 1
         then (Inl (Bail ''PAPER balance competition did not produce exactly one winner''), s)
         else bind_db (reserve_with w winner 4) (\<lambda>again s.
           let (conflict, s) = reserve_with w (conflicting winner) 5 s
           in (Inr (successes, rejections, winner, loser, again, \<not> is_ok conflict), s)) s)"

definition paper_passed :: "paper_smoke_report \<Rightarrow> bool" where
  "paper_passed r \<longleftrightarrow> ps_same_domain_lock_rejected r \<and> ps_concurrent_successes r = 1 \<and> ps_concurrent_rejections r = 1
     \<and> ps_insufficient_request_rolled_back r \<and> ps_idempotent_replay r \<and> ps_conflicting_replay_rejected r
     \<and> ps_recovered_risk_decisions r = 1 \<and> ps_recovered_intents r = 2 \<and> ps_recovered_reservations r = 2
     \<and> ps_recovered_audit_events r = 1 \<and> ps_audit_events_immutable r"

text \<open>The recovery by a core opened afterwards, and the report.\<close>

definition paper_recovery :: "sim_world \<Rightarrow> nat \<Rightarrow> bool \<Rightarrow> nat \<times> nat \<times> reserve_plan_request \<times> reserve_plan_request \<times> reserve_outcome \<times> bool
    \<Rightarrow> nat \<Rightarrow> sim_db \<Rightarrow> paper_smoke_report result \<times> sim_db" where
  "paper_recovery w session same_domain outcome rows =
     (case outcome of (successes, rejections, winner, loser, again, conflict_rejected) \<Rightarrow>
      bind_db (open_core w session (rp_account_id winner) (rp_instrument_id winner)) (\<lambda>_.
      bind_db (on_paper (\<lambda>p. (recover_active_plans (sw_collation w) (rp_account_id winner) (rp_instrument_id winner) p, p)))
        (\<lambda>recovered s.
      if length recovered \<noteq> 1 \<or> pl_plan_id (rc_plan (hd recovered)) \<noteq> rp_plan_id winner
      then (Inl (Bail ''PAPER recovery did not return the committed active plan''), s)
      else let p = sd_paper s; plan = rp_plan_id winner; report =
        \<lparr>ps_same_domain_lock_rejected = same_domain, ps_concurrent_successes = successes,
         ps_concurrent_rejections = rejections, ps_insufficient_request_rolled_back = (rows = 0),
         ps_idempotent_replay = (ro_idempotent_replay again \<and> pl_plan_id (rc_plan (ro_plan again)) = plan),
         ps_conflicting_replay_rejected = conflict_rejected, ps_recovered_plans = length recovered,
         ps_recovered_risk_decisions = length (filter (\<lambda>r. rk_plan_id r = plan) (pd_risk p)),
         ps_recovered_intents = sum_list (map (length \<circ> rc_intents) recovered),
         ps_recovered_reservations = sum_list (map (length \<circ> rc_reservations) recovered),
         ps_recovered_audit_events = length (filter (\<lambda>r. au_aggregate_id r = plan \<and> au_event_type r = ''PlanReserved'') (pd_audit p)),
         ps_audit_events_immutable = (\<not> is_ok (update_audit_payload plan p)), ps_rejected_request_rows = rows\<rparr>
      in (if paper_passed report then Inr report else Inl (Bail ''B-01 PAPER smoke acceptance invariant failed''), s))))"

definition paper_smoke :: "sim_world \<Rightarrow> bool \<Rightarrow> string \<Rightarrow> sim_db \<Rightarrow> paper_smoke_report result \<times> sim_db" where
  "paper_smoke w first stamp =
     (let account = ''paper-account-'' @ stamp; n = sw_session w;
          ra = paper_smoke_request stamp ''a'' account (''paper:BTC-USDT:'' @ stamp);
          rb = paper_smoke_request stamp ''b'' account (''paper:ETH-USDT:'' @ stamp) in
      bind_db (on_paper (set_paper_balance account ''paper-buy'' ''USDT'' 100 100 (sw_clock w 1))) (\<lambda>_.
      bind_db (on_paper (set_paper_balance account ''paper-sell'' ''BTC'' 1 1 (sw_clock w 1))) (\<lambda>_.
      bind_db (open_core w n account (rp_instrument_id ra)) (\<lambda>_ s.
      let same_domain = \<not> is_ok (fst (open_core w (n + 1) account (rp_instrument_id ra) s)) in
      bind_db (open_core w (n + 2) account (rp_instrument_id rb)) (\<lambda>_.
      bind_db (paper_competition w first ra rb) (\<lambda>outcome s.
      let loser = fst (snd (snd (snd outcome)));
          rows = business_row_count (rp_plan_id loser) (rp_request_id loser) (sd_paper s)
      in paper_recovery w (n + 3) same_domain outcome rows (close_core (n + 2) (close_core n s)))) s))))"

text \<open>Whatever happens, the cores the run has opened are closed at its end.\<close>

definition run_paper_core_smoke :: "sim_world \<Rightarrow> bool \<Rightarrow> sim_db \<Rightarrow> paper_smoke_report result \<times> sim_db" where
  "run_paper_core_smoke w first s = (case paper_smoke w first (smoke_stamp (sw_clock w) (sw_pid w)) s of
     (r, s') \<Rightarrow> (r, fold close_core [sw_session w, sw_session w + 2, sw_session w + 3] s'))"

text \<open>The texts that are hashed in the run do not collide.\<close>

definition no_collision :: "sim_world \<Rightarrow> bool" where
  "no_collision w = (let s = smoke_stamp (sw_clock w) (sw_pid w); a = ''paper-account-'' @ s;
       ia = ''paper:BTC-USDT:'' @ s; ib = ''paper:ETH-USDT:'' @ s; key = (\<lambda>i. advisory_key (sw_sha256 w) ''execution-domain'' (domain_value a i));
       differ = (\<lambda>r. request_digest (sw_plan_digest w) (conflicting r) \<noteq> request_digest (sw_plan_digest w) r)
     in key ia \<noteq> key ib \<and> differ (paper_smoke_request s ''a'' a ia) \<and> differ (paper_smoke_request s ''b'' a ib))"

lemma paper_two_legged:
  assumes "visible s" "visible suffix" "visible i" "i \<noteq> []"
  shows "two_legged (paper_smoke_request s suffix (''paper-account-'' @ s) i) ''paper-buy'' 80 ''paper-sell'' (1 / 1000)"
  using assms by (simp add: two_legged_def paper_smoke_request_def Let_def smoke_intent_def validate_request_def intent_list_def visible_valid)


text \<open>On the tables of the winner the loser finds too little, and the winner is answered as before.\<close>

lemma loser_refused:
  assumes "two_legged q v used v' used'" "fresh_world w" "rp_request_id q \<noteq> rp_request_id r" "free < used" "fst b = v'" "used' \<le> fst (snd b) - snd (snd b)"
  shows "reserve_with w q i (db\<lparr>sd_paper := reserved_db r d t (two_balances (rp_account_id q) (v, n, n - free) b k l)\<rparr>) =
    (Inl (Bail ''insufficient PAPER funds''), db\<lparr>sd_paper := reserved_db r d t (two_balances (rp_account_id q) (v, n, n - free) b k l)\<rparr>)"
  using assms(1,3-6) unfolding two_legged_def
  by (elim conjE exE)
    (cases b; simp add: reserve_with_def on_paper_def reserve_plan_def good_clock_simps[OF fresh_world_simps(1)[OF assms(2)]] lock_and_check_balances_def
      insort_key_def two_balances_def balance_key_def reserved_db_def)

lemma winner_repeats:
  assumes "two_legged r v used v' used'" "fresh_world w"
    "load_plan (sw_collation w) (rp_plan_id r) (reserved_db r (request_digest (sw_plan_digest w) r) t bal) = Inr plan"
  shows "reserve_with w r i (db\<lparr>sd_paper := reserved_db r (request_digest (sw_plan_digest w) r) t bal\<rparr>) =
      (Inr \<lparr>ro_idempotent_replay = True, ro_plan = plan\<rparr>, db\<lparr>sd_paper := reserved_db r (request_digest (sw_plan_digest w) r) t bal\<rparr>)"
    "request_digest (sw_plan_digest w) (conflicting r) \<noteq> request_digest (sw_plan_digest w) r \<Longrightarrow>
      \<exists>e. reserve_with w (conflicting r) i (db\<lparr>sd_paper := reserved_db r (request_digest (sw_plan_digest w) r) t bal\<rparr>) =
        (Inl e, db\<lparr>sd_paper := reserved_db r (request_digest (sw_plan_digest w) r) t bal\<rparr>)"
proof -
  note c = good_clock_simps[OF fresh_world_simps(1)[OF assms(2)]]
  have v: "validate_request r (rp_account_id r) (rp_instrument_id r) = Inr ()" using assms(1) by (simp add: two_legged_def)
  show "reserve_with w r i (db\<lparr>sd_paper := reserved_db r (request_digest (sw_plan_digest w) r) t bal\<rparr>) =
      (Inr \<lparr>ro_idempotent_replay = True, ro_plan = plan\<rparr>, db\<lparr>sd_paper := reserved_db r (request_digest (sw_plan_digest w) r) t bal\<rparr>)"
    using assms(3) by (simp add: reserve_with_def on_paper_def reserve_plan_def v c reserved_db_def)
  assume "request_digest (sw_plan_digest w) (conflicting r) \<noteq> request_digest (sw_plan_digest w) r"
  then show "\<exists>e. reserve_with w (conflicting r) i (db\<lparr>sd_paper := reserved_db r (request_digest (sw_plan_digest w) r) t bal\<rparr>) =
        (Inl e, db\<lparr>sd_paper := reserved_db r (request_digest (sw_plan_digest w) r) t bal\<rparr>)"
    by (auto simp: reserve_with_def on_paper_def reserve_plan_def reserved_db_def conflicting_def split: sum.split)
qed

lemma competition_won:
  assumes "two_legged r v used v' used'" "two_legged q v used v' used'" "fresh_world w" "rp_account_id q = rp_account_id r"
    "rp_request_id q \<noteq> rp_request_id r" "used \<le> n" "n < 2 * used" "2 * used' \<le> n'"
    "request_digest (sw_plan_digest w) (conflicting r) \<noteq> request_digest (sw_plan_digest w) r"
    "sd_paper db = (sd_paper sim_db_0)\<lparr>pd_balances := two_balances (rp_account_id r) (v, n, 0) (v', n', 0) k l\<rparr>"
    "p = reserved_db r (request_digest (sw_plan_digest w) r) (uint (sw_clock w (if first then 2 else 3)))
      (two_balances (rp_account_id r) (v, n, used) (v', n', used') k l)"
  shows "\<exists>plan. paper_competition w first (if first then r else q) (if first then q else r) db =
      (Inr (1, 1, r, q, \<lparr>ro_idempotent_replay = True, ro_plan = plan\<rparr>, True), db\<lparr>sd_paper := p\<rparr>)
    \<and> load_plan (sw_collation w) (rp_plan_id r) p = Inr plan"
proof -
  have pos: "0 < used'" using assms(1) by (simp add: two_legged_def)
  then have le: "used' \<le> n'" using assms(8) by simp
  obtain plan where res: "reserve_plan (sw_collation w) (sw_plan_digest w) (rp_account_id r) (rp_instrument_id r) r (sw_clock w (if first then 2 else 3)) (sd_paper db)
      = (Inr \<lparr>ro_idempotent_replay = False, ro_plan = plan\<rparr>, p)" and plan: "load_plan (sw_collation w) (rp_plan_id r) p = Inr plan"
    using reserved_first[OF assms(1,6) le assms(3), of "if first then 2 else 3" k l] assms(10,11) by auto
  have 1: "reserve_with w r (if first then 2 else 3) db = (Inr \<lparr>ro_idempotent_replay = False, ro_plan = plan\<rparr>, db\<lparr>sd_paper := p\<rparr>)"
    using res by (simp add: reserve_with_def on_paper_def)
  have 2: "reserve_with w q i (db\<lparr>sd_paper := p\<rparr>) = (Inl (Bail ''insufficient PAPER funds''), db\<lparr>sd_paper := p\<rparr>)" for i
    using loser_refused[OF assms(2,3,5), where free = "n - used" and b = "(v', n', used')" and n = n and i = i and db = db] assms(4,7,8,11) by simp
  have 3: "reserve_with w r 4 (db\<lparr>sd_paper := p\<rparr>) = (Inr \<lparr>ro_idempotent_replay = True, ro_plan = plan\<rparr>, db\<lparr>sd_paper := p\<rparr>)"
    using winner_repeats(1)[OF assms(1,3)] plan unfolding assms(11) by blast
  obtain e where 4: "reserve_with w (conflicting r) 5 (db\<lparr>sd_paper := p\<rparr>) = (Inl e, db\<lparr>sd_paper := p\<rparr>)"
    using winner_repeats(2)[OF assms(1,3) _ assms(9)] plan unfolding assms(11) by blast
  have "paper_competition w first (if first then r else q) (if first then q else r) db =
      (Inr (1, 1, r, q, \<lparr>ro_idempotent_replay = True, ro_plan = plan\<rparr>, True), db\<lparr>sd_paper := p\<rparr>)"
    using 1 2 3 4 by (cases first) (simp_all add: paper_competition_def raced_def bind_db_def is_ok_def)
  then show ?thesis using plan by blast
qed


lemma competition_decided:
  assumes "two_legged ra v used v' used'" "two_legged rb v used v' used'" "fresh_world w" "rp_account_id rb = rp_account_id ra"
    "rp_request_id ra \<noteq> rp_request_id rb" "rp_plan_id ra \<noteq> rp_plan_id rb" "used \<le> n" "n < 2 * used" "2 * used' \<le> n'"
    "request_digest (sw_plan_digest w) (conflicting ra) \<noteq> request_digest (sw_plan_digest w) ra"
    "request_digest (sw_plan_digest w) (conflicting rb) \<noteq> request_digest (sw_plan_digest w) rb"
    "sd_paper db = (sd_paper sim_db_0)\<lparr>pd_balances := two_balances (rp_account_id ra) (v, n, 0) (v', n', 0) k l\<rparr>"
  shows "\<exists>r q plan d t b. paper_competition w first ra rb db =
      (Inr (1, 1, r, q, \<lparr>ro_idempotent_replay = True, ro_plan = plan\<rparr>, True), db\<lparr>sd_paper := reserved_db r d t b\<rparr>)
    \<and> two_legged r v used v' used' \<and> two_legged q v used v' used' \<and> rp_request_id q \<noteq> rp_request_id r
    \<and> rp_plan_id q \<noteq> rp_plan_id r \<and> load_plan (sw_collation w) (rp_plan_id r) (reserved_db r d t b) = Inr plan"
proof (cases first)
  case True
  note won = competition_won[OF assms(1-4) assms(5)[symmetric] assms(7-10,12) refl, of first, unfolded if_P[OF True]]
  then obtain plan where A: "paper_competition w first ra rb db = (Inr (1, 1, ra, rb, \<lparr>ro_idempotent_replay = True, ro_plan = plan\<rparr>, True),
      db\<lparr>sd_paper := reserved_db ra (request_digest (sw_plan_digest w) ra) (uint (sw_clock w 2)) (two_balances (rp_account_id ra) (v, n, used) (v', n', used') k l)\<rparr>)"
    "load_plan (sw_collation w) (rp_plan_id ra) (reserved_db ra (request_digest (sw_plan_digest w) ra) (uint (sw_clock w 2)) (two_balances (rp_account_id ra) (v, n, used) (v', n', used') k l)) = Inr plan"
    by blast
  show ?thesis by (intro exI conjI, rule A(1), rule assms(1), rule assms(2), rule assms(5)[symmetric], rule assms(6)[symmetric], rule A(2))
next
  case False
  have "sd_paper db = (sd_paper sim_db_0)\<lparr>pd_balances := two_balances (rp_account_id rb) (v, n, 0) (v', n', 0) k l\<rparr>"
    using assms(4,12) by simp
  note won = competition_won[OF assms(2,1,3) assms(4)[symmetric] assms(5,7-9,11) this refl, of first, unfolded if_not_P[OF False]]
  then obtain plan where A: "paper_competition w first ra rb db = (Inr (1, 1, rb, ra, \<lparr>ro_idempotent_replay = True, ro_plan = plan\<rparr>, True),
      db\<lparr>sd_paper := reserved_db rb (request_digest (sw_plan_digest w) rb) (uint (sw_clock w 3)) (two_balances (rp_account_id rb) (v, n, used) (v', n', used') k l)\<rparr>)"
    "load_plan (sw_collation w) (rp_plan_id rb) (reserved_db rb (request_digest (sw_plan_digest w) rb) (uint (sw_clock w 3)) (two_balances (rp_account_id rb) (v, n, used) (v', n', used') k l)) = Inr plan"
    by blast
  show ?thesis by (intro exI conjI, rule A(1), rule assms(2), rule assms(1), rule assms(5), rule assms(6), rule A(2))
qed

lemma open_core_free:
  assumes "validate_id a = Inr ()" "validate_id i = Inr ()"
    "\<forall>l \<in> set (sd_locks s). hl_key l \<noteq> advisory_key (sw_sha256 w) ''execution-domain'' (domain_value a i)"
  shows "open_core w session a i s = (Inr (), s\<lparr>sd_locks := sd_locks s @ [\<lparr>hl_session = session,
    hl_key = advisory_key (sw_sha256 w) ''execution-domain'' (domain_value a i), hl_account_id = a, hl_instrument_id = i\<rparr>]\<rparr>)"
  using assms by (auto simp: open_core_def acquire_domain_def Let_def)

lemma open_core_taken:
  assumes "l \<in> set (sd_locks s)" "hl_key l = advisory_key (sw_sha256 w) ''execution-domain'' (domain_value a i)"
  shows "\<not> is_ok (fst (open_core w session a i s))"
  using assms by (auto simp: open_core_def acquire_domain_def Let_def is_ok_def split: sum.split)

lemma paper_recovered:
  assumes "two_legged r v used v' used'" "two_legged q v used v' used'" "rp_request_id q \<noteq> rp_request_id r" "rp_plan_id q \<noteq> rp_plan_id r"
    "p = reserved_db r d t bal" "load_plan (sw_collation w) (rp_plan_id r) p = Inr plan" "sd_paper db = p" "sd_locks db = []"
  shows "business_row_count (rp_plan_id q) (rp_request_id q) p = 0"
    "fst (paper_recovery w session True (1, 1, r, q, \<lparr>ro_idempotent_replay = True, ro_plan = plan\<rparr>, True) 0 db) =
      Inr \<lparr>ps_same_domain_lock_rejected = True, ps_concurrent_successes = 1, ps_concurrent_rejections = 1,
        ps_insufficient_request_rolled_back = True, ps_idempotent_replay = True, ps_conflicting_replay_rejected = True,
        ps_recovered_plans = 1, ps_recovered_risk_decisions = 1, ps_recovered_intents = 2, ps_recovered_reservations = 2,
        ps_recovered_audit_events = 1, ps_audit_events_immutable = True, ps_rejected_request_rows = 0\<rparr>"
proof -
  show "business_row_count (rp_plan_id q) (rp_request_id q) p = 0"
    using assms(3,4) by (simp add: business_row_count_def assms(5) reserved_db_def intent_list_def filter_empty_conv)
  have ids: "validate_id (rp_account_id r) = Inr ()" "validate_id (rp_instrument_id r) = Inr ()" and two: "length (rp_reservations r) = 2"
    using assms(1) by (auto simp: two_legged_def validate_request_def then_do_def split: sum.splits)
  have plan: "pl_plan_id (rc_plan plan) = rp_plan_id r" "length (rc_intents plan) = 2" "length (rc_reservations plan) = 2"
    using assms(6) two by (auto simp: assms(5) load_plan_def reserved_db_def intent_list_def)
  have rec: "recover_active_plans (sw_collation w) (rp_account_id r) (rp_instrument_id r) p = Inr [plan]"
    using assms(6) by (simp add: recover_active_plans_def assms(5) reserved_db_def)
  show "fst (paper_recovery w session True (1, 1, r, q, \<lparr>ro_idempotent_replay = True, ro_plan = plan\<rparr>, True) 0 db) =
      Inr \<lparr>ps_same_domain_lock_rejected = True, ps_concurrent_successes = 1, ps_concurrent_rejections = 1,
        ps_insufficient_request_rolled_back = True, ps_idempotent_replay = True, ps_conflicting_replay_rejected = True,
        ps_recovered_plans = 1, ps_recovered_risk_decisions = 1, ps_recovered_intents = 2, ps_recovered_reservations = 2,
        ps_recovered_audit_events = 1, ps_audit_events_immutable = True, ps_rejected_request_rows = 0\<rparr>"
    using assms(7,8) rec plan by (simp add: paper_recovery_def bind_db_def open_core_free[OF ids] on_paper_def paper_passed_def
      update_audit_payload_def Let_def) (simp add: assms(5) reserved_db_def is_ok_def)
qed

lemma paper_smoke_competition:
  assumes "fresh_world w" "visible s" "a = ''paper-account-'' @ s" "ra = paper_smoke_request s ''a'' a (''paper:BTC-USDT:'' @ s)"
    "rb = paper_smoke_request s ''b'' a (''paper:ETH-USDT:'' @ s)"
    "request_digest (sw_plan_digest w) (conflicting ra) \<noteq> request_digest (sw_plan_digest w) ra"
    "request_digest (sw_plan_digest w) (conflicting rb) \<noteq> request_digest (sw_plan_digest w) rb"
    "sd_paper db = (sd_paper sim_db_0)\<lparr>pd_balances := two_balances a (''paper-buy'', 100, 0) (''paper-sell'', 1, 0) k l\<rparr>"
  obtains r q plan d t b where "paper_competition w first ra rb db =
      (Inr (1, 1, r, q, \<lparr>ro_idempotent_replay = True, ro_plan = plan\<rparr>, True), db\<lparr>sd_paper := reserved_db r d t b\<rparr>)"
    "two_legged r ''paper-buy'' 80 ''paper-sell'' (1 / 1000)" "two_legged q ''paper-buy'' 80 ''paper-sell'' (1 / 1000)"
    "rp_request_id q \<noteq> rp_request_id r" "rp_plan_id q \<noteq> rp_plan_id r" "load_plan (sw_collation w) (rp_plan_id r) (reserved_db r d t b) = Inr plan"
proof -
  have fields: "rp_account_id ra = a" "rp_account_id rb = rp_account_id ra" "rp_request_id ra \<noteq> rp_request_id rb" "rp_plan_id ra \<noteq> rp_plan_id rb"
    by (simp_all add: assms(4,5) paper_smoke_request_def Let_def)
  have two: "two_legged ra ''paper-buy'' 80 ''paper-sell'' (1 / 1000)" "two_legged rb ''paper-buy'' 80 ''paper-sell'' (1 / 1000)"
    unfolding assms(3-5) by (rule paper_two_legged; simp add: assms(2))+
  have num: "(80 :: decimal) \<le> 100" "(100 :: decimal) < 2 * 80" "2 * (1 / 1000 :: decimal) \<le> 1" by simp_all
  show thesis
    using competition_decided[OF two assms(1) fields(2-4) num assms(6,7) assms(8)[folded fields(1)]] that by blast
qed

lemma run_paper_core_smoke_report:
  assumes "fresh_world w" "no_collision w"
  shows "fst (run_paper_core_smoke w first sim_db_0) = Inr \<lparr>ps_same_domain_lock_rejected = True, ps_concurrent_successes = 1,
    ps_concurrent_rejections = 1, ps_insufficient_request_rolled_back = True, ps_idempotent_replay = True,
    ps_conflicting_replay_rejected = True, ps_recovered_plans = 1, ps_recovered_risk_decisions = 1, ps_recovered_intents = 2,
    ps_recovered_reservations = 2, ps_recovered_audit_events = 1, ps_audit_events_immutable = True, ps_rejected_request_rows = 0\<rparr>"
proof -
  define s where "s = smoke_stamp (sw_clock w) (sw_pid w)"
  let ?a = "''paper-account-'' @ s" and ?ia = "''paper:BTC-USDT:'' @ s" and ?ib = "''paper:ETH-USDT:'' @ s" and ?n = "sw_session w"
  let ?ra = "paper_smoke_request s ''a'' ?a ?ia" and ?rb = "paper_smoke_request s ''b'' ?a ?ib"
  let ?key = "\<lambda>i. advisory_key (sw_sha256 w) ''execution-domain'' (domain_value ?a i)"
  have s: "visible s" by (simp add: s_def)
  have ids: "validate_id ?a = Inr ()" "validate_id ?ia = Inr ()" "validate_id ?ib = Inr ()" by (simp_all add: visible_valid s)
  have nc: "?key ?ia \<noteq> ?key ?ib" "request_digest (sw_plan_digest w) (conflicting ?ra) \<noteq> request_digest (sw_plan_digest w) ?ra"
    "request_digest (sw_plan_digest w) (conflicting ?rb) \<noteq> request_digest (sw_plan_digest w) ?rb"
    using assms(2) unfolding no_collision_def Let_def s_def[symmetric] by blast+
  define bal where "bal used used' = two_balances ?a (''paper-buy'', 100, used) (''paper-sell'', 1, used') (uint (sw_clock w 1)) (uint (sw_clock w 1))" for used used'
  let ?d0 = "sim_db_0\<lparr>sd_paper := (sd_paper sim_db_0)\<lparr>pd_balances := bal 0 0\<rparr>\<rparr>"
  have r0: "bind_db (on_paper (set_paper_balance ?a ''paper-buy'' ''USDT'' 100 100 (sw_clock w 1))) (\<lambda>_.
      bind_db (on_paper (set_paper_balance ?a ''paper-sell'' ''BTC'' 1 1 (sw_clock w 1))) k) sim_db_0 = k () ?d0" for k :: "unit \<Rightarrow> sim_db \<Rightarrow> 'z result \<times> sim_db"
    unfolding bal_def by (rule balances_set[OF fresh_world_simps(1)[OF assms(1)]]) (simp_all add: s)
  have locks0: "sd_locks ?d0 = []" by (simp add: sim_db_0_def)
  let ?la = "\<lparr>hl_session = ?n, hl_key = ?key ?ia, hl_account_id = ?a, hl_instrument_id = ?ia\<rparr>"
  let ?lb = "\<lparr>hl_session = ?n + 2, hl_key = ?key ?ib, hl_account_id = ?a, hl_instrument_id = ?ib\<rparr>"
  let ?d1 = "?d0\<lparr>sd_locks := [?la]\<rparr>" and ?d2 = "?d0\<lparr>sd_locks := [?la, ?lb]\<rparr>"
  have r1: "open_core w ?n ?a ?ia ?d0 = (Inr (), ?d1)" using open_core_free[OF ids(1,2), of ?d0 w ?n] locks0 by simp
  have r2: "\<not> is_ok (fst (open_core w (?n + 1) ?a ?ia ?d1))" by (rule open_core_taken[of ?la]) simp_all
  have r3: "open_core w (?n + 2) ?a ?ib ?d1 = (Inr (), ?d2)" using open_core_free[OF ids(1,3), of ?d1 w "?n + 2"] nc(1) by simp
  have ri: "rp_instrument_id ?ra = ?ia" "rp_instrument_id ?rb = ?ib" by (simp_all add: paper_smoke_request_def Let_def)
  have paper: "sd_paper ?d2 = (sd_paper sim_db_0)\<lparr>pd_balances := two_balances ?a (''paper-buy'', 100, 0) (''paper-sell'', 1, 0)
      (uint (sw_clock w 1)) (uint (sw_clock w 1))\<rparr>" by (simp add: bal_def)
  obtain r q plan d t b where comp: "paper_competition w first ?ra ?rb ?d2 = (Inr (1, 1, r, q, \<lparr>ro_idempotent_replay = True, ro_plan = plan\<rparr>, True), ?d2\<lparr>sd_paper := reserved_db r d t b\<rparr>)"
    and rq: "two_legged r ''paper-buy'' 80 ''paper-sell'' (1 / 1000)" "two_legged q ''paper-buy'' 80 ''paper-sell'' (1 / 1000)"
      "rp_request_id q \<noteq> rp_request_id r" "rp_plan_id q \<noteq> rp_plan_id r" "load_plan (sw_collation w) (rp_plan_id r) (reserved_db r d t b) = Inr plan"
    by (rule paper_smoke_competition[OF assms(1) s refl refl refl nc(2,3) paper])
  let ?p = "reserved_db r d t b"
  let ?d3 = "close_core (?n + 2) (close_core ?n (?d2\<lparr>sd_paper := ?p\<rparr>))"
  have d3: "sd_paper ?d3 = ?p" "sd_locks ?d3 = []" by (simp_all add: close_core_def disconnect_domain_def)
  note recovered = paper_recovered(1)[OF rq(1-4) refl rq(5) d3] paper_recovered(2)[OF rq(1-4) refl rq(5) d3, where session = "?n + 3"]
  have "fst (paper_smoke w first s sim_db_0) = fst (paper_recovery w (?n + 3) True (1, 1, r, q, \<lparr>ro_idempotent_replay = True, ro_plan = plan\<rparr>, True) 0 ?d3)"
    unfolding paper_smoke_def Let_def r0 ri
    unfolding bind_db_def r1 prod.case sum.case r3 comp
    using r2 recovered(1) by simp
  then show ?thesis unfolding run_paper_core_smoke_def s_def[symmetric] recovered(2)
    by (cases "paper_smoke w first s sim_db_0") (simp only: prod.case fst_conv)
qed

text \<open>C38. The acceptance run of the paper core passes on an empty database, whichever of the two competing
  plans the database serves first: a second writer of the domain is refused, exactly one plan is stored and
  the other leaves no row, its repetition is answered as before and a changed one refused, and a core opened
  afterwards recovers the whole plan.\<close>

theorem paper_core_smoke_passes:
  assumes "fresh_world w" "no_collision w"
  shows "fst (run_paper_core_smoke w first sim_db_0) = Inr \<lparr>ps_same_domain_lock_rejected = True, ps_concurrent_successes = 1,
    ps_concurrent_rejections = 1, ps_insufficient_request_rolled_back = True, ps_idempotent_replay = True,
    ps_conflicting_replay_rejected = True, ps_recovered_plans = 1, ps_recovered_risk_decisions = 1, ps_recovered_intents = 2,
    ps_recovered_reservations = 2, ps_recovered_audit_events = 1, ps_audit_events_immutable = True, ps_rejected_request_rows = 0\<rparr>"
  by (rule run_paper_core_smoke_report[OF assms])

definition sample_paper_world :: sim_world where
  "sample_paper_world = sim_world_0\<lparr>sw_sha256 := (\<lambda>bytes. replicate 32 (if 66 \<in> set bytes then 1 else 0)),
     sw_plan_digest := (\<lambda>r. replicate 64 (if rp_target_quantity r = 1 / 1000 then CHR ''a'' else CHR ''b''))\<rparr>"

lemma sample_paper_world_ok: "fresh_world sample_paper_world" "no_collision sample_paper_world"
proof -
  show "fresh_world sample_paper_world"
    by (simp add: fresh_world_def good_clock_def sample_paper_world_def sim_world_0_def)
  show "no_collision sample_paper_world"
    by (simp add: no_collision_def Let_def advisory_key_def domain_value_def sample_paper_world_def sim_world_0_def
        request_digest_def canonical_def paper_smoke_request_def conflicting_def smoke_stamp_def smoke_intent_def show_nat.simps digit_char_def) code_simp
qed

lemma paper_core_smoke_passes_witness:
  "is_ok (fst (run_paper_core_smoke sample_paper_world False sim_db_0))"
  using paper_core_smoke_passes[OF sample_paper_world_ok, of False] by (simp add: is_ok_def)

end
