(* ===== verification/Smoke_Sim.thy ===== *)
theory Smoke_Sim
  imports Smoke_Plans Archive_Reader
begin

text \<open>
  The acceptance run of the simulation, \<open>run_simulation_smoke\<close> in \<open>crates/core/src/simulation.rs\<close>, with its fixtures:
  seven simulated runs on fixed books and the checks of their reports and of the tables they leave. The lemmas say
  that the fixtures fill as the run demands, whatever the database and the clock, that the poor probe is rejected
  without a plan, that the run keeps the invariants of the cores, and that two runs of one millisecond collide. The
  constant fields of the report and the migration are left out.
\<close>

section \<open>The fixtures\<close>

definition sim_smoke_spec :: "string \<Rightarrow> string \<Rightarrow> instrument_spec" where
  "sim_smoke_spec venue symbol = \<lparr>is_venue = venue, is_account_type = ''spot'', is_venue_symbol = symbol,
     is_canonical_instrument_id = symbol @ '':SPOT'', is_base_asset_id = ''BTC'', is_quote_asset_id = ''USDT'',
     is_settlement_asset_id = ''USDT'', is_market_type = ''spot'', is_contract_multiplier = 1,
     is_quantity_unit = ''base_asset'', is_price_tick = 1 / 10, is_quantity_step = 1 / 10000,
     is_min_quantity = 1 / 10000, is_max_quantity = Some 100, is_min_notional = 5, is_max_notional = None,
     is_trading_status = Trading, is_supported_order_types = [Limit, Ioc], is_metadata_version = 1\<rparr>"

definition sim_smoke_book :: "string \<Rightarrow> string \<Rightarrow> (decimal \<times> decimal) list \<Rightarrow> (decimal \<times> decimal) list \<Rightarrow> u64 \<Rightarrow> order_book_snapshot" where
  "sim_smoke_book venue symbol asks bids sequence = \<lparr>ob_venue = venue, ob_symbol = symbol,
     ob_bids = map (\<lambda>(p, q). \<lparr>lv_price = p, lv_quantity = q\<rparr>) bids,
     ob_asks = map (\<lambda>(p, q). \<lparr>lv_price = p, lv_quantity = q\<rparr>) asks, ob_sequence = sequence,
     ob_source_timestamp_ms = None, ob_received_timestamp_ms = 1\<rparr>"

definition sim_smoke_fee :: "string \<Rightarrow> string \<Rightarrow> decimal \<Rightarrow> archived_fee_version" where
  "sim_smoke_fee venue symbol taker = \<lparr>xf_venue = venue, xf_symbol = symbol, xf_buy_taker_rate = taker,
     xf_sell_taker_rate = taker, xf_source = ''smoke'', xf_loaded_at_ms = None, xf_expires_at_ms = None,
     xf_actual_account_rate = False\<rparr>"

definition sim_smoke_opportunity :: "string \<Rightarrow> string \<Rightarrow> decimal \<Rightarrow> decimal \<Rightarrow> decimal \<Rightarrow> opportunity" where
  "sim_smoke_opportunity buy_venue sell_venue buy_worst sell_worst quantity =
     (let buy_cost = buy_worst * quantity; sell_proceeds = sell_worst * quantity;
          fees = buy_cost * (5 / 10000) + sell_proceeds * (5 / 10000);
          expected = sell_proceeds - buy_cost - fees
      in \<lparr>op_buy_venue = buy_venue, op_sell_venue = sell_venue, op_buy_vwap = buy_worst, op_sell_vwap = sell_worst,
          op_buy_worst_price = buy_worst, op_sell_worst_price = sell_worst, op_buy_cost = buy_cost,
          op_sell_proceeds = sell_proceeds, op_gross_profit = sell_proceeds - buy_cost, op_fees = fees,
          op_latency_loss_estimate = 0, op_rebalance_cost = 0, op_other_direct_cost = 0,
          op_expected_net_profit = expected, op_risk_buffer = 0, op_admission_profit = expected,
          op_admission_net_bps = 0, op_accepted = True, op_rejection_reasons = []\<rparr>)"

text \<open>The first ask of the buy book and the first bid of the sell book are the worst prices; all fixtures have both.\<close>

definition sim_smoke_event :: "order_book_snapshot \<times> order_book_snapshot \<Rightarrow> decimal \<Rightarrow> u64 \<Rightarrow> decision_event" where
  "sim_smoke_event books quantity evaluated_at_ms =
     (let symbol = ''BTCUSDT''; buy_venue = ob_venue (fst books); sell_venue = ob_venue (snd books);
          feed = (\<lambda>b. \<lparr>fv_venue = ob_venue b, fv_symbol = ob_symbol b, fv_state = Valid, fv_generation = 1,
            fv_reconnects = 0, fv_applied_updates = 0, fv_reason = None\<rparr>);
          report = \<lparr>sr_symbol = symbol, sr_quantity = quantity, sr_observed_at_ms = evaluated_at_ms,
            sr_pair_received_skew_ms = 1, sr_directions = [sim_smoke_opportunity buy_venue sell_venue
              (lv_price (hd (ob_asks (fst books)))) (lv_price (hd (ob_bids (snd books)))) quantity]\<rparr>
      in \<lparr>dn_evaluated_at_ms = evaluated_at_ms, dn_feeds = (feed (fst books), feed (snd books)), dn_books = books,
          dn_instruments = (sim_smoke_spec buy_venue symbol, sim_smoke_spec sell_venue symbol),
          dn_fees = (sim_smoke_fee buy_venue symbol (5 / 10000), sim_smoke_fee sell_venue symbol (5 / 10000)),
          dn_config_version = [],
          dn_config = \<lparr>dc_symbol = symbol, dc_base_asset = ''BTC'', dc_quote_asset = ''USDT'', dc_quantity = quantity,
            dc_strategy = \<lparr>st_min_net_profit = 0, st_min_net_bps = 0, st_latency_loss_bps = 1 / 10000,
              st_risk_buffer_bps = 0, st_rebalance_cost = 0, st_other_direct_cost = 0\<rparr>,
            dc_freshness = \<lparr>fl_max_snapshot_age_ms = 60000, fl_max_pair_skew_ms = 5000\<rparr>\<rparr>,
          dn_admission_rejections = [], dn_report = report\<rparr>)"

text \<open>The two books of a probe, named after it: they differ in the first ask of the buy venue and the first bid of the
  sell venue.\<close>

definition probe_books :: "string \<Rightarrow> decimal \<Rightarrow> decimal \<Rightarrow> decimal \<Rightarrow> order_book_snapshot \<times> order_book_snapshot" where
  "probe_books name ask_quantity bid_price bid_quantity =
     (sim_smoke_book (name @ ''-buy'') ''BTCUSDT'' [(80000, ask_quantity)] [(79900, 2 / 1000)] 1,
      sim_smoke_book (name @ ''-sell'') ''BTCUSDT'' [(80200, 2 / 1000)] [(bid_price, bid_quantity)] 1)"

definition probe_opportunity :: "order_book_snapshot \<times> order_book_snapshot \<Rightarrow> u64 \<Rightarrow> opportunity" where
  "probe_opportunity books at_ms = hd (sr_directions (dn_report (sim_smoke_event books (1 / 1000) at_ms)))"

definition run_probe :: "sim_world \<Rightarrow> order_book_snapshot \<times> order_book_snapshot \<Rightarrow> simulation_config \<Rightarrow> u64 \<Rightarrow> sim_db
    \<Rightarrow> sim_report result \<times> sim_db" where
  "run_probe w books config at_ms =
     run_simulation_run w (sim_smoke_event books (1 / 1000) at_ms) (probe_opportunity books at_ms) config 0 Smoke"

definition s01_config :: simulation_config where
  "s01_config = \<lparr>sc_enabled = True, sc_seed = 1, sc_initial_quote_balance = 10000, sc_initial_base_balance = 2,
     sc_decision_to_submit_ms_min = 50, sc_decision_to_submit_ms_max = 50, sc_fill_latency_ms_min = 20,
     sc_fill_latency_ms_max = 20, sc_adverse_move_bps = 0, sc_competitor_take_bps = 0,
     sc_unknown_submit_probability_bps = 0, sc_query_found_probability_bps = 6000, sc_max_unmatched_exposure = 100,
     sc_compensation_budget = 20, sc_compensation_markup_bps = 30\<rparr>"

definition s02_config :: simulation_config where
  "s02_config = simulation_default\<lparr>sc_seed := 2, sc_initial_quote_balance := 10000, sc_initial_base_balance := 2,
     sc_unknown_submit_probability_bps := 0, sc_query_found_probability_bps := 6000, sc_compensation_budget := 200\<rparr>"

definition s03_config :: simulation_config where
  "s03_config = simulation_default\<lparr>sc_seed := 3, sc_competitor_take_bps := 10000\<rparr>"

definition s05_config :: simulation_config where
  "s05_config = simulation_default\<lparr>sc_seed := 5, sc_initial_quote_balance := 1\<rparr>"

definition s06_config :: simulation_config where
  "s06_config = simulation_default\<lparr>sc_seed := 6, sc_unknown_submit_probability_bps := 10000,
     sc_query_found_probability_bps := 10000, sc_decision_to_submit_ms_min := 50, sc_decision_to_submit_ms_max := 50,
     sc_fill_latency_ms_min := 20, sc_fill_latency_ms_max := 20\<rparr>"

definition s01_books :: "order_book_snapshot \<times> order_book_snapshot" where
  "s01_books = probe_books ''s01'' (2 / 1000) 80100 (2 / 1000)"
definition s02_books :: "order_book_snapshot \<times> order_book_snapshot" where
  "s02_books = probe_books ''s02'' (6 / 10000) 80100 (2 / 1000)"
definition s03_books :: "order_book_snapshot \<times> order_book_snapshot" where
  "s03_books = probe_books ''s03'' (2 / 1000) 80100 (2 / 1000)"
definition s04_books :: "order_book_snapshot \<times> order_book_snapshot" where
  "s04_books = probe_books ''s04'' (2 / 1000) 80300 (2 / 1000)"
definition s07_books :: "order_book_snapshot \<times> order_book_snapshot" where
  "s07_books = probe_books ''s07'' (2 / 1000) 80100 (4 / 10000)"

section \<open>The report\<close>

record simulation_smoke_report =
  sk_full_fill_at_worst :: bool
  sk_partial_fill_depth_shortfall :: bool
  sk_competed_away :: bool
  sk_worse_than_scan_price :: bool
  sk_insufficient_funds_rejected :: bool
  sk_unknown_query_recovered_no_duplicate :: bool
  sk_compensation_over_budget_manual :: bool
  sk_idempotent_replay :: bool
  sk_fact_recovery_consistent :: bool

definition simulation_smoke_passed :: "simulation_smoke_report \<Rightarrow> bool" where
  "simulation_smoke_passed r \<longleftrightarrow> sk_full_fill_at_worst r \<and> sk_partial_fill_depth_shortfall r \<and> sk_competed_away r
     \<and> sk_worse_than_scan_price r \<and> sk_insufficient_funds_rejected r \<and> sk_unknown_query_recovered_no_duplicate r
     \<and> sk_compensation_over_budget_manual r \<and> sk_idempotent_replay r \<and> sk_fact_recovery_consistent r"

section \<open>What a single run has to show\<close>

definition full_fill_at_worst :: "sim_report \<Rightarrow> bool" where
  "full_fill_at_worst r \<longleftrightarrow> sm_scenario r = Normal \<and> sl_filled (sm_buy r) = 1 / 1000 \<and> sl_filled (sm_sell r) = 1 / 1000
     \<and> sl_avg_price (sm_buy r) = 80000 \<and> sl_avg_price (sm_sell r) = 80100
     \<and> \<bar>sm_simulated_net_profit r - sm_scanned_net_profit r\<bar> \<le> 1 / 10 ^ 8"

definition partial_fill_planned :: "sim_report \<Rightarrow> bool" where
  "partial_fill_planned r \<longleftrightarrow> sm_scenario r = DepthShortfall \<and> sl_depth_shortfall (sm_buy r)
     \<and> sl_filled (sm_buy r) = 5 / 10000 \<and> sl_filled (sm_sell r) = 1 / 1000
     \<and> sm_compensation_decision r = ''COMPENSATION_PLANNED''"

definition nothing_filled :: "sim_report \<Rightarrow> bool" where
  "nothing_filled r \<longleftrightarrow> sm_scenario r = CompetedAway \<and> sl_filled (sm_buy r) = 0 \<and> sl_filled (sm_sell r) = 0
     \<and> sm_compensation_decision r = ''NO_ACTION''"

definition worse_than_scan :: "opportunity \<Rightarrow> sim_report \<Rightarrow> bool" where
  "worse_than_scan o1 r \<longleftrightarrow> sm_scenario r = Normal \<and> op_buy_worst_price o1 < sl_avg_price (sm_buy r)
     \<and> sl_avg_price (sm_sell r) < op_sell_worst_price o1"

definition over_budget_manual :: "sim_report \<Rightarrow> bool" where
  "over_budget_manual r \<longleftrightarrow> sl_depth_shortfall (sm_sell r) \<and> sl_filled (sm_sell r) = 3 / 10000
     \<and> sl_filled (sm_buy r) = 1 / 1000 \<and> sm_compensation_decision r = ''MANUAL_REQUIRED''
     \<and> sm_execution_state r = ''MANUAL_REQUIRED''"

section \<open>What the tables have to show\<close>

definition count_plans :: "string \<Rightarrow> sim_db \<Rightarrow> nat" where
  "count_plans plan_id s = length (filter (\<lambda>r. pl_plan_id r = plan_id) (pd_plans (sd_paper s)))"

definition rejection_recorded :: "sim_report \<Rightarrow> sim_db \<Rightarrow> bool result \<times> sim_db" where
  "rejection_recorded r s = (case lookup_row run_key (sm_run_id r) (sd_runs s) of
       None \<Rightarrow> (Inl (Bail ''no rows returned by a query that expected to return at least one row''), s)
     | Some row \<Rightarrow> (let stored = rj_report row in
         (Inr (sm_scenario r = RunRejected
           \<and> is_some_and (sm_rejection_reason r) (\<lambda>x. contains_str x ''insufficient PAPER funds'')
           \<and> count_plans (sm_plan_id r) s = 0
           \<and> sm_compensation_decision stored = ''NO_ACTION'' \<and> sm_execution_state stored = ''PLANNED''
           \<and> is_some_and (sm_rejection_reason stored) (\<lambda>x. starts_with x ''insufficient PAPER funds'')), s)))"

text \<open>The orders of a run are read under their domain; the trade of its buy leg is reported a second time.\<close>

definition read_order :: "order_core \<Rightarrow> string \<Rightarrow> sim_db \<Rightarrow> order_fact result \<times> sim_db" where
  "read_order core intent = on_orders (\<lambda>d. (load_order core intent d, d))"

definition core_of_run :: "sim_report \<Rightarrow> order_core" where
  "core_of_run r = \<lparr>co_account_id = sm_account_id r, co_instrument_id = sm_instrument_id r\<rparr>"

definition repeated_trade :: "sim_report \<Rightarrow> trade_input" where
  "repeated_trade r = \<lparr>ti_venue = sm_buy_venue r, ti_exchange_order_id = sm_run_id r @ ''-buy-exc'',
     ti_trade_id = sm_run_id r @ ''-buy-trade'', ti_quantity = sl_filled (sm_buy r),
     ti_price = sl_avg_price (sm_buy r), ti_fee_asset = ''USDT'', ti_fee_amount = sm_buy_fee r,
     ti_source_sequence = 1, ti_occurred_at_ms = sm_evaluated_at_ms r + 70\<rparr>"

definition unknown_recovered :: "sim_world \<Rightarrow> nat \<Rightarrow> sim_report \<Rightarrow> sim_db \<Rightarrow> bool result \<times> sim_db" where
  "unknown_recovered w i r =
     (if sm_scenario r \<noteq> Normal then return_db (Inl (Bail ''S06 run was not Normal''))
      else with_domain w (sm_account_id r) (sm_instrument_id r)
        (bind_db (read_order (core_of_run r) (sm_buy_intent_id r)) (\<lambda>buy_fact.
         bind_db (read_order (core_of_run r) (sm_sell_intent_id r)) (\<lambda>sell_fact.
         bind_db (order_call w (core_of_run r) (sm_buy_intent_id r) (ReportTrade (repeated_trade r)) i) (\<lambda>duplicate.
         return_db (Inr (sm_unknown_submit_tried r \<and> sm_query_found r
           \<and> of_filled_quantity buy_fact = sl_filled (sm_buy r)
           \<and> of_filled_quantity sell_fact = sl_filled (sm_sell r)
           \<and> of_filled_quantity duplicate = of_filled_quantity buy_fact)))))))"

definition s08_request :: "string \<Rightarrow> reserve_plan_request" where
  "s08_request stamp =
     \<lparr>rp_request_id = ''s08-request-'' @ stamp, rp_plan_id = ''s08-plan-'' @ stamp,
      rp_account_id = ''s08-account-'' @ stamp, rp_instrument_id = ''s08-instrument-'' @ stamp,
      rp_opportunity_id = ''s08-opportunity-'' @ stamp, rp_strategy_config_version = ''f02-sim-v1'',
      rp_target_quantity = 1 / 1000, rp_max_unmatched_exposure = 100,
      rp_intents =
        (\<lparr>oi_intent_id = ''s08-intent-buy-'' @ stamp, oi_leg_id = ''buy'', oi_attempt_id = ''s08-attempt-buy-'' @ stamp,
          oi_client_order_id = ''s08-client-buy-'' @ stamp, oi_venue = ''s08-buy'', oi_side = Buy,
          oi_quantity = 1 / 1000, oi_limit_price = 80000\<rparr>,
         \<lparr>oi_intent_id = ''s08-intent-sell-'' @ stamp, oi_leg_id = ''sell'', oi_attempt_id = ''s08-attempt-sell-'' @ stamp,
          oi_client_order_id = ''s08-client-sell-'' @ stamp, oi_venue = ''s08-sell'', oi_side = Sell,
          oi_quantity = 1 / 1000, oi_limit_price = 80100\<rparr>),
      rp_reservations =
        [\<lparr>ri_reservation_id = ''s08-reserve-quote-'' @ stamp, ri_venue = ''s08-buy'', ri_asset = ''USDT'', ri_amount = 80\<rparr>,
         \<lparr>ri_reservation_id = ''s08-reserve-base-'' @ stamp, ri_venue = ''s08-sell'', ri_asset = ''BTC'',
          ri_amount = 1 / 1000\<rparr>]\<rparr>"

definition reservation_repeated :: "sim_world \<Rightarrow> nat \<Rightarrow> u64 \<Rightarrow> string \<Rightarrow> sim_db \<Rightarrow> bool result \<times> sim_db" where
  "reservation_repeated w i at_ms stamp =
     (let q = s08_request stamp; account = rp_account_id q;
          reserve = (\<lambda>j. on_paper (reserve_plan (sw_collation w) (sw_plan_digest w) account (rp_instrument_id q) q (sw_clock w j)))
      in bind_db (on_paper (set_paper_balance account ''s08-buy'' ''USDT'' 10000 10000 at_ms)) (\<lambda>_.
         bind_db (on_paper (set_paper_balance account ''s08-sell'' ''BTC'' 2 2 at_ms)) (\<lambda>_.
         with_domain w account (rp_instrument_id q)
           (bind_db (reserve i) (\<lambda>first.
            bind_db (reserve (i + 1)) (\<lambda>second.
            return_db (Inr (\<not> ro_idempotent_replay first \<and> ro_idempotent_replay second
              \<and> pl_plan_id (rc_plan (ro_plan second)) = pl_plan_id (rc_plan (ro_plan first))))))))))"

text \<open>A recovered reservation has no state of its own in the model: its only one is \<open>LOCAL_RESERVED\<close>.\<close>

definition facts_recovered :: "sim_world \<Rightarrow> sim_report \<Rightarrow> sim_db \<Rightarrow> bool result \<times> sim_db" where
  "facts_recovered w r =
     (let account = sm_account_id r; instrument = sm_instrument_id r in
      bind_db (with_domain w account instrument
        (on_paper (\<lambda>p. (recover_active_plans (sw_collation w) account instrument p, p)))) (\<lambda>plans.
      case find (\<lambda>p. pl_plan_id (rc_plan p) = sm_plan_id r) plans of
        None \<Rightarrow> return_db (Inl (Bail ''S09 recovered plan missing''))
      | Some plan \<Rightarrow>
          bind_db (with_domain w account instrument
            (bind_db (read_order (core_of_run r) (sm_buy_intent_id r)) (\<lambda>buy_fact.
             bind_db (read_order (core_of_run r) (sm_sell_intent_id r)) (\<lambda>sell_fact.
             return_db (Inr (buy_fact, sell_fact)))))) (\<lambda>(buy_fact, sell_fact).
          bind_db (with_domain w account instrument
            (on_execution (\<lambda>x. (load_execution (sm_plan_id r) x, x)))) (\<lambda>snapshot.
          return_db (Inr (pl_state (rc_plan plan) = Reserved \<and> length (rc_intents plan) = 2
            \<and> of_filled_quantity buy_fact = sl_filled (sm_buy r)
            \<and> of_filled_quantity sell_fact = sl_filled (sm_sell r)
            \<and> ef_leg_a_filled snapshot = sl_filled (sm_buy r)
            \<and> ef_leg_b_filled snapshot = sl_filled (sm_sell r)))))))"

section \<open>The acceptance run\<close>

text \<open>The n-th simulated run lives in the world \<open>ws n\<close>, from 1; what the acceptance run does itself happens in
  \<open>ws 0\<close>: its readings of the clock are the stamp, the time of the events, the repeated trade and the two
  reservations.\<close>

definition run_simulation_smoke :: "(nat \<Rightarrow> sim_world) \<Rightarrow> sim_db \<Rightarrow> simulation_smoke_report result \<times> sim_db" where
  "run_simulation_smoke ws =
     (let w = ws 0; stamp = smoke_stamp (sw_clock w) (sw_pid w); at_ms = sw_clock w 1 in
      bind_db (run_probe (ws 1) s01_books s01_config at_ms) (\<lambda>s01.
      bind_db (run_probe (ws 2) s02_books s02_config at_ms) (\<lambda>s02.
      bind_db (run_probe (ws 3) s03_books s03_config at_ms) (\<lambda>s03.
      bind_db (run_probe (ws 4) s04_books (simulation_default\<lparr>sc_seed := 4\<rparr>) at_ms) (\<lambda>s04.
      bind_db (run_probe (ws 5) s01_books s05_config at_ms) (\<lambda>s05.
      bind_db (rejection_recorded s05) (\<lambda>rejected.
      bind_db (run_probe (ws 6) s01_books s06_config at_ms) (\<lambda>s06.
      bind_db (unknown_recovered w 2 s06) (\<lambda>unknown.
      bind_db (run_probe (ws 7) s07_books (simulation_default\<lparr>sc_seed := 7\<rparr>) at_ms) (\<lambda>s07.
      bind_db (reservation_repeated w 3 at_ms stamp) (\<lambda>repeated.
      bind_db (facts_recovered w s01) (\<lambda>recovered.
      let report = \<lparr>sk_full_fill_at_worst = full_fill_at_worst s01,
        sk_partial_fill_depth_shortfall = partial_fill_planned s02, sk_competed_away = nothing_filled s03,
        sk_worse_than_scan_price = worse_than_scan (probe_opportunity s04_books at_ms) s04,
        sk_insufficient_funds_rejected = rejected, sk_unknown_query_recovered_no_duplicate = unknown,
        sk_compensation_over_budget_manual = over_budget_manual s07, sk_idempotent_replay = repeated,
        sk_fact_recovery_consistent = recovered\<rparr>
      in return_db (if simulation_smoke_passed report then Inr report
                    else Inl (Bail ''F-02 simulation smoke failed''))))))))))))))"

section \<open>What a fresh run reports of its legs\<close>

lemma with_domain_Inr:
  "with_domain w a i body s = (Inr x, s') \<Longrightarrow> \<exists>t t'. body t = (Inr x, t')"
  by (auto simp: with_domain_def Let_def split: prod.splits sum.splits)

lemma fresh_run_legs:
  assumes "run_simulation_run w e o1 config skipped source s = (Inr r, s')"
    and "sm_scenario r \<noteq> RunRejected" "\<not> sm_idempotent_replay r"
  obtains u legs out t t' where "prepare_run w e o1 config skipped source = Inr u"
    "run_legs w u e config \<lparr>co_account_id = sm_account_id (su_report u), co_instrument_id = sm_instrument_id (su_report u)\<rparr> t
      = (Inr legs, t')" "r = final_report (su_report u) legs out"
proof -
  have legs: "\<exists>legs out t t'. run_legs w u e config \<lparr>co_account_id = sm_account_id (su_report u), co_instrument_id = sm_instrument_id (su_report u)\<rparr> t
      = (Inr legs, t') \<and> r = final_report (su_report u) legs out"
    if "execute_run w u e o1 config s1 = (Inr r, s')" for u s1
    using that by (auto simp: execute_run_def bind_db_Inr legs_run_def Let_def dest!: persist_run_Inr with_domain_Inr)
  from assms obtain u s1 where "prepare_run w e o1 config skipped source = Inr u" "execute_run w u e o1 config s1 = (Inr r, s')"
    by (auto simp: run_simulation_run_def Let_def bind_db_Inr rejected_report_def replayed_report_def
        dest: persist_run_Inr split: if_splits)
  with legs[of u s1] show ?thesis using that by blast
qed

lemma run_legs_fills:
  assumes "run_legs w u e config core t = (Inr legs, t')"
  shows "simulate_leg (sw_div w) Asks (entry (su_buy_first u) (dn_books e)) (entry (su_buy_first u) (dn_instruments e))
      (dc_quantity (dn_config e)) config = Inr (lo_buy legs)"
    "simulate_leg (sw_div w) Bids (entry (su_sell_first u) (dn_books e)) (entry (su_sell_first u) (dn_instruments e))
      (dc_quantity (dn_config e)) config = Inr (lo_sell legs)"
  using assms by (auto simp: run_legs_def Let_def bind_db_Inr split: prod.splits)

lemma accepted_submission:
  assumes "submit_and_confirm w core run_id i leg at_ms config n rng t = (Inr (conf, x), t')"
    "sc_unknown_submit_probability_bps config = 0"
  shows "\<exists>exc. conf = OrderAccepted exc"
  using assms by (auto simp: submit_and_confirm_def Let_def bind_db_Inr bps_to_u64_def round_half_even_def split: prod.splits if_splits)

lemma accepted_fee:
  "book_leg w core run_id leg i v f rate at_ms n (OrderAccepted exc) res t = (Inr (fee, warn), t') \<Longrightarrow> 0 < sl_filled res
    \<Longrightarrow> fee = sl_quote_amount res * rate"
  by (auto simp: book_leg_def Let_def bind_db_Inr)

lemma run_legs_parts:
  assumes "run_legs w u e config core t = (Inr legs, t')"
  obtains buy_conf sell_conf i j n m at_ms bs ss xb xs t1 t2 t3 t4 t5 t6 t7 t8 bw sw rb rs id where
    "submit_and_confirm w core id i ''buy'' at_ms config n rb t1 = (Inr (buy_conf, xb), t2)"
    "submit_and_confirm w core id j ''sell'' at_ms config m rs t3 = (Inr (sell_conf, xs), t4)"
    "book_leg w core id ''buy'' i (sm_buy_venue (su_report u)) (dc_quote_asset (dn_config e))
      (xf_buy_taker_rate (entry (su_buy_first u) (dn_fees e))) bs 11 buy_conf (lo_buy legs) t5 = (Inr (lo_buy_fee legs, bw), t6)"
    "book_leg w core id ''sell'' j (sm_sell_venue (su_report u)) (dc_quote_asset (dn_config e))
      (xf_sell_taker_rate (entry (su_sell_first u) (dn_fees e))) bs 12 sell_conf (lo_sell legs) t7 = (Inr (lo_sell_fee legs, sw), t8)"
  using assms unfolding run_legs_def Let_def bind_db_Inr return_db_simps
  by (clarsimp simp: bind_db_Inr split: prod.splits)

lemma run_legs_fees:
  assumes "run_legs w u e config core t = (Inr legs, t')" "sc_unknown_submit_probability_bps config = 0"
    and "0 < sl_filled (lo_buy legs)" "0 < sl_filled (lo_sell legs)"
  shows "lo_buy_fee legs = sl_quote_amount (lo_buy legs) * xf_buy_taker_rate (entry (su_buy_first u) (dn_fees e))"
    "lo_sell_fee legs = sl_quote_amount (lo_sell legs) * xf_sell_taker_rate (entry (su_sell_first u) (dn_fees e))"
proof -
  note * = accepted_submission[OF _ assms(2)]
  show "lo_buy_fee legs = sl_quote_amount (lo_buy legs) * xf_buy_taker_rate (entry (su_buy_first u) (dn_fees e))"
    by (rule run_legs_parts[OF assms(1)]) (use assms(3) in \<open>auto dest!: * dest: accepted_fee\<close>)
  show "lo_sell_fee legs = sl_quote_amount (lo_sell legs) * xf_sell_taker_rate (entry (su_sell_first u) (dn_fees e))"
    by (rule run_legs_parts[OF assms(1)]) (use assms(4) in \<open>auto dest!: * dest: accepted_fee\<close>)
qed

lemma prepare_run_sides:
  assumes "prepare_run w e o1 config skipped source = Inr u"
  shows "venue_index (op_buy_venue o1) (dn_books e) = Some (su_buy_first u)"
    "venue_index (op_sell_venue o1) (dn_books e) = Some (su_sell_first u)"
    "sm_scanned_net_profit (su_report u) = op_expected_net_profit o1"
  using assms by (auto simp: prepare_run_def initial_report_def Let_def split: option.splits prod.splits)

lemma probe_legs:
  assumes "run_probe w books config at_ms s = (Inr r, s')" "sm_scenario r \<noteq> RunRejected" "\<not> sm_idempotent_replay r"
    and "ob_venue (fst books) \<noteq> ob_venue (snd books)"
  shows "simulate_leg (sw_div w) Asks (fst books) (sim_smoke_spec (ob_venue (fst books)) ''BTCUSDT'') (1 / 1000) config = Inr (sm_buy r)"
    "simulate_leg (sw_div w) Bids (snd books) (sim_smoke_spec (ob_venue (snd books)) ''BTCUSDT'') (1 / 1000) config = Inr (sm_sell r)"
    "sm_scenario r = run_scenario (sm_buy r) (sm_sell r)"
    "sm_scanned_net_profit r = op_expected_net_profit (probe_opportunity books at_ms)"
    "sc_unknown_submit_probability_bps config = 0 \<Longrightarrow> 0 < sl_filled (sm_buy r) \<Longrightarrow> 0 < sl_filled (sm_sell r)
      \<Longrightarrow> sm_simulated_net_profit r = sl_quote_amount (sm_sell r) * (9995 / 10000) - sl_quote_amount (sm_buy r) * (10005 / 10000)"
proof -
  let ?e = "sim_smoke_event books (1 / 1000) at_ms" and ?o = "probe_opportunity books at_ms"
  obtain u legs out t t' where u: "prepare_run w ?e ?o config 0 Smoke = Inr u"
    and legs: "run_legs w u ?e config \<lparr>co_account_id = sm_account_id (su_report u), co_instrument_id = sm_instrument_id (su_report u)\<rparr> t
      = (Inr legs, t')" and r: "r = final_report (su_report u) legs out"
    by (rule fresh_run_legs[OF assms(1)[unfolded run_probe_def] assms(2,3)])
  have e: "dn_books ?e = books" "dn_instruments ?e = (sim_smoke_spec (ob_venue (fst books)) ''BTCUSDT'', sim_smoke_spec (ob_venue (snd books)) ''BTCUSDT'')"
    "dc_quantity (dn_config ?e) = 1 / 1000"
    "dn_fees ?e = (sim_smoke_fee (ob_venue (fst books)) ''BTCUSDT'' (5 / 10000), sim_smoke_fee (ob_venue (snd books)) ''BTCUSDT'' (5 / 10000))"
    "op_buy_venue ?o = ob_venue (fst books)" "op_sell_venue ?o = ob_venue (snd books)"
    by (simp_all add: sim_smoke_event_def probe_opportunity_def sim_smoke_opportunity_def Let_def)
  have sides: "su_buy_first u" "\<not> su_sell_first u" "sm_scanned_net_profit (su_report u) = op_expected_net_profit ?o"
    using prepare_run_sides[OF u] assms(4) by (auto simp: venue_index_def e split: if_splits)
  show "simulate_leg (sw_div w) Asks (fst books) (sim_smoke_spec (ob_venue (fst books)) ''BTCUSDT'') (1 / 1000) config = Inr (sm_buy r)"
    "simulate_leg (sw_div w) Bids (snd books) (sim_smoke_spec (ob_venue (snd books)) ''BTCUSDT'') (1 / 1000) config = Inr (sm_sell r)"
    using run_legs_fills[OF legs] sides e by (simp_all add: r final_report_def entry_def)
  show "sm_scenario r = run_scenario (sm_buy r) (sm_sell r)" "sm_scanned_net_profit r = op_expected_net_profit ?o"
    by (simp_all add: r final_report_def sides(3))
  assume "sc_unknown_submit_probability_bps config = 0" "0 < sl_filled (sm_buy r)" "0 < sl_filled (sm_sell r)"
  then show "sm_simulated_net_profit r = sl_quote_amount (sm_sell r) * (9995 / 10000) - sl_quote_amount (sm_buy r) * (10005 / 10000)"
    using run_legs_fees[OF legs] sides e by (simp add: r final_report_def entry_def sim_smoke_fee_def)
qed

section \<open>The fixtures fill as the run demands\<close>

text \<open>What the legs of each probe fill, with exact division.\<close>

definition leg_of :: "decimal \<Rightarrow> decimal \<Rightarrow> decimal \<Rightarrow> decimal \<Rightarrow> bool \<Rightarrow> sim_leg_result" where
  "leg_of filled amount raw fill short = \<lparr>sl_filled = filled, sl_quote_amount = amount, sl_avg_price = fill,
     sl_last_raw_price = raw, sl_last_fill_price = fill, sl_depth_shortfall = short, sl_below_min_quantity = False\<rparr>"

lemmas leg_results = leg_of_def no_leg_def

lemma buy_legs:
  "simulate_leg exact_div Asks (fst s01_books) (sim_smoke_spec v b) (1 / 1000) s01_config = Inr (leg_of (1 / 1000) 80 80000 80000 False)"
  "simulate_leg exact_div Asks (fst s02_books) (sim_smoke_spec v b) (1 / 1000) s02_config = Inr (leg_of (1 / 2000) (2003 / 50) 80000 80120 True)"
  "simulate_leg exact_div Asks (fst s03_books) (sim_smoke_spec v b) (1 / 1000) s03_config = Inr no_leg"
  "simulate_leg exact_div Asks (fst s04_books) (sim_smoke_spec v b) (1 / 1000) (simulation_default\<lparr>sc_seed := 4\<rparr>)
     = Inr (leg_of (1 / 1000) (2003 / 25) 80000 80120 False)"
  "simulate_leg exact_div Asks (fst s07_books) (sim_smoke_spec v b) (1 / 1000) (simulation_default\<lparr>sc_seed := 7\<rparr>)
     = Inr (leg_of (1 / 1000) (2003 / 25) 80000 80120 False)"
  unfolding leg_results by code_simp+

lemma sell_legs:
  "simulate_leg exact_div Bids (snd s01_books) (sim_smoke_spec v b) (1 / 1000) s01_config = Inr (leg_of (1 / 1000) (801 / 10) 80100 80100 False)"
  "simulate_leg exact_div Bids (snd s02_books) (sim_smoke_spec v b) (1 / 1000) s02_config
     = Inr (leg_of (1 / 1000) (399899 / 5000) 80100 (399899 / 5) False)"
  "simulate_leg exact_div Bids (snd s03_books) (sim_smoke_spec v b) (1 / 1000) s03_config = Inr no_leg"
  "simulate_leg exact_div Bids (snd s04_books) (sim_smoke_spec v b) (1 / 1000) (simulation_default\<lparr>sc_seed := 4\<rparr>)
     = Inr (leg_of (1 / 1000) (160359 / 2000) 80300 (160359 / 2) False)"
  "simulate_leg exact_div Bids (snd s07_books) (sim_smoke_spec v b) (1 / 1000) (simulation_default\<lparr>sc_seed := 7\<rparr>)
     = Inr (leg_of (3 / 10000) (1199697 / 50000) 80100 (399899 / 5) True)"
  unfolding leg_results by code_simp+


lemma fixture_venues [simp]:
  "ob_venue (fst (probe_books name aq bp bq)) = name @ ''-buy''" "ob_venue (snd (probe_books name aq bp bq)) = name @ ''-sell''"
  by (simp_all add: probe_books_def sim_smoke_book_def)

lemmas fixtures = s01_books_def s02_books_def s03_books_def s04_books_def s07_books_def

lemma worst_prices:
  "op_buy_worst_price (probe_opportunity (probe_books name aq bp bq) at_ms) = 80000"
  "op_sell_worst_price (probe_opportunity (probe_books name aq bp bq) at_ms) = bp"
  "op_expected_net_profit (probe_opportunity (probe_books name aq bp bq) at_ms)
    = bp / 1000 - 80 - (80 * (5 / 10000) + bp / 1000 * (5 / 10000))"
  by (simp_all add: probe_opportunity_def sim_smoke_event_def sim_smoke_opportunity_def probe_books_def sim_smoke_book_def Let_def)

text \<open>A probe that is neither rejected nor a repetition fills exactly as the acceptance run demands, in any database
  and at any time: the random draws only decide its delays and whether a submission is lost.\<close>

lemma probes_fill:
  assumes "sw_div w = exact_div" "sm_scenario r \<noteq> RunRejected" "\<not> sm_idempotent_replay r"
  shows "run_probe w s01_books s01_config at_ms s = (Inr r, s') \<Longrightarrow> full_fill_at_worst r"
    "run_probe w s02_books s02_config at_ms s = (Inr r, s') \<Longrightarrow> sm_scenario r = DepthShortfall \<and> sl_depth_shortfall (sm_buy r)
      \<and> sl_filled (sm_buy r) = 5 / 10000 \<and> sl_filled (sm_sell r) = 1 / 1000"
    "run_probe w s03_books s03_config at_ms s = (Inr r, s') \<Longrightarrow> sm_scenario r = CompetedAway \<and> sl_filled (sm_buy r) = 0
      \<and> sl_filled (sm_sell r) = 0"
    "run_probe w s04_books (simulation_default\<lparr>sc_seed := 4\<rparr>) at_ms s = (Inr r, s')
      \<Longrightarrow> worse_than_scan (probe_opportunity s04_books at_ms) r"
    "run_probe w s07_books (simulation_default\<lparr>sc_seed := 7\<rparr>) at_ms s = (Inr r, s') \<Longrightarrow> sl_depth_shortfall (sm_sell r)
      \<and> sl_filled (sm_sell r) = 3 / 10000 \<and> sl_filled (sm_buy r) = 1 / 1000"
proof -
  note p = probe_legs[where w = w, OF _ assms(2,3), unfolded assms(1)]
  have d: "ob_venue (fst s01_books) \<noteq> ob_venue (snd s01_books)" "ob_venue (fst s02_books) \<noteq> ob_venue (snd s02_books)"
    "ob_venue (fst s03_books) \<noteq> ob_venue (snd s03_books)" "ob_venue (fst s04_books) \<noteq> ob_venue (snd s04_books)"
    "ob_venue (fst s07_books) \<noteq> ob_venue (snd s07_books)" by (simp_all add: fixtures)
  show "full_fill_at_worst r" if run: "run_probe w s01_books s01_config at_ms s = (Inr r, s')"
  proof -
    have legs: "sm_buy r = leg_of (1 / 1000) 80 80000 80000 False" "sm_sell r = leg_of (1 / 1000) (801 / 10) 80100 80100 False"
      using p(1)[OF run d(1), unfolded buy_legs sum.inject] p(2)[OF run d(1), unfolded sell_legs sum.inject] by simp_all
    have "sc_unknown_submit_probability_bps s01_config = 0" by (simp add: s01_config_def)
    from p(3-5)[OF run d(1)] this show ?thesis using worst_prices(3)[of "''s01''" "2 / 1000" 80100 "2 / 1000" at_ms]
      unfolding fixtures(1)[symmetric] legs by (simp add: leg_of_def full_fill_at_worst_def run_scenario_def legs)
  qed
  show "sm_scenario r = DepthShortfall \<and> sl_depth_shortfall (sm_buy r) \<and> sl_filled (sm_buy r) = 5 / 10000
      \<and> sl_filled (sm_sell r) = 1 / 1000" if run: "run_probe w s02_books s02_config at_ms s = (Inr r, s')"
    using p(3)[OF run d(2)] p(1)[OF run d(2), unfolded buy_legs sum.inject, symmetric]
      p(2)[OF run d(2), unfolded sell_legs sum.inject, symmetric] by (simp add: leg_of_def run_scenario_def)
  show "sm_scenario r = CompetedAway \<and> sl_filled (sm_buy r) = 0 \<and> sl_filled (sm_sell r) = 0"
    if run: "run_probe w s03_books s03_config at_ms s = (Inr r, s')"
    using p(3)[OF run d(3)] p(1)[OF run d(3), unfolded buy_legs sum.inject, symmetric]
      p(2)[OF run d(3), unfolded sell_legs sum.inject, symmetric] by (simp add: no_leg_def run_scenario_def)
  show "worse_than_scan (probe_opportunity s04_books at_ms) r"
    if run: "run_probe w s04_books (simulation_default\<lparr>sc_seed := 4\<rparr>) at_ms s = (Inr r, s')"
    using p(3)[OF run d(4)] p(1)[OF run d(4), unfolded buy_legs sum.inject, symmetric]
      p(2)[OF run d(4), unfolded sell_legs sum.inject, symmetric]
      worst_prices(1,2)[of "''s04''" "2 / 1000" 80300 "2 / 1000" at_ms, folded fixtures(4)]
    by (simp add: leg_of_def run_scenario_def worse_than_scan_def)
  show "sl_depth_shortfall (sm_sell r) \<and> sl_filled (sm_sell r) = 3 / 10000 \<and> sl_filled (sm_buy r) = 1 / 1000"
    if run: "run_probe w s07_books (simulation_default\<lparr>sc_seed := 7\<rparr>) at_ms s = (Inr r, s')"
    using p(1)[OF run d(5), unfolded buy_legs sum.inject, symmetric]
      p(2)[OF run d(5), unfolded sell_legs sum.inject, symmetric] by (simp add: leg_of_def)
qed

section \<open>The poor probe is rejected\<close>

lemma poor_probe_rejected:
  assumes "run_probe w s01_books s05_config at_ms s = (Inr r, s')" "sw_div w = exact_div"
  shows "sm_scenario r = RunRejected \<and> is_some_and (sm_rejection_reason r) (\<lambda>x. starts_with x ''insufficient PAPER funds'')
    \<and> pd_plans (sd_paper s') = pd_plans (sd_paper s) \<and> sd_orders s' = sd_orders s"
proof -
  let ?e = "sim_smoke_event s01_books (1 / 1000) at_ms" and ?o = "probe_opportunity s01_books at_ms"
  obtain u s0 where u: "prepare_run w ?e ?o s05_config 0 Smoke = Inr u" and funded: "fund_run u ?e s05_config s = (Inr (), s0)"
    and rest: "bind_db (available_balance (sm_account_id (su_report u)) (sm_buy_venue (su_report u)) (dc_quote_asset (dn_config ?e))) (\<lambda>quote_available.
     bind_db (available_balance (sm_account_id (su_report u)) (sm_sell_venue (su_report u)) (dc_base_asset (dn_config ?e))) (\<lambda>base_available.
     if quote_available < su_quote_cost u \<or> base_available < dc_quantity (dn_config ?e)
     then persist_run w u ?e s05_config (rejected_report w u ?e quote_available base_available)
     else bind_db (reserve_run w u ?e s05_config) (\<lambda>out.
       if ro_idempotent_replay out then persist_run w u ?e s05_config (replayed_report (su_report u))
       else execute_run w u ?e ?o s05_config))) s0 = (Inr r, s')"
    using assms(1) by (auto simp: run_probe_def run_simulation_run_def Let_def bind_db_Inr)
  have venues: "op_buy_venue ?o = ''s01-buy''" "op_sell_venue ?o = ''s01-sell''"
    by (simp_all add: probe_opportunity_def sim_smoke_event_def sim_smoke_opportunity_def Let_def s01_books_def)
  have "sm_buy_venue (su_report u) \<noteq> sm_sell_venue (su_report u)" using prepare_run_result[OF u] venues by simp
  note f = fund_run_result[OF funded this]
  have "su_quote_cost u = quote_cost_estimate exact_div (1 / 1000) 80000 15"
    using u by (auto simp: prepare_run_def Let_def assms(2) s05_config_def simulation_default_def worst_prices s01_books_def
        sim_smoke_event_def split: option.splits prod.splits)
  moreover have "quote_cost_estimate exact_div (1 / 1000) 80000 15 = 8012 / 100" by code_simp
  ultimately have cost: "sc_initial_quote_balance s05_config < su_quote_cost u" by (simp add: s05_config_def)
  let ?r = "rejected_report w u ?e (sc_initial_quote_balance s05_config) (sc_initial_base_balance s05_config)"
  have p: "persist_run w u ?e s05_config ?r s0 = (Inr r, s')" using rest cost by (simp add: bind_db_def f(1,2))
  have "sd_paper s' = sd_paper s0" "sd_orders s' = sd_orders s0" using persist_frame[of w u ?e s05_config ?r s0] by (simp_all add: p)
  moreover have "pd_plans (sd_paper s0) = pd_plans (sd_paper s)" "sd_orders s0 = sd_orders s"
    by (subst f(3), simp)+
  ultimately show ?thesis using persist_run_Inr[OF p] by (simp add: rejected_report_def starts_with_def is_some_and_def)
qed

section \<open>The acceptance run keeps the cores\<close>

lemma on_read_ok: "cores_ok w s \<Longrightarrow> cores_ok w (snd (read_order core i s))"
  by (simp add: read_order_def on_orders_def cores_ok_def order_view_def execution_view_def)

lemma check_parts_ok:
  assumes "cores_ok w s"
  shows "cores_ok w (snd (rejection_recorded r s))" "cores_ok w (snd (unknown_recovered w i r s))"
    "cores_ok w (snd (reservation_repeated w i at_ms stamp s))" "cores_ok w (snd (facts_recovered w r s))"
proof -
  show "cores_ok w (snd (rejection_recorded r s))"
    using assms by (simp add: rejection_recorded_def Let_def split: option.split)
  show "cores_ok w (snd (unknown_recovered w i r s))"
    using assms by (auto simp: unknown_recovered_def intro!: with_domain_ok bind_ok on_read_ok order_call_ok)
  show "cores_ok w (snd (reservation_repeated w i at_ms stamp s))"
    using assms by (auto simp: reservation_repeated_def Let_def intro!: with_domain_ok bind_ok on_set_balance_ok on_reserve_ok)
  have "cores_ok w (snd (on_paper (\<lambda>p. (f p, p)) t))" if "cores_ok w t" for f :: "paper_db \<Rightarrow> 'a result" and t
    using that by (simp add: on_paper_def)
  moreover have "cores_ok w (snd (on_execution (\<lambda>x. (g x, x)) t))" if "cores_ok w t" for g :: "execution_db \<Rightarrow> 'b result" and t
    using that by (simp add: on_execution_def cores_ok_def order_view_def execution_view_def)
  ultimately show "cores_ok w (snd (facts_recovered w r s))"
    using assms by (auto simp: facts_recovered_def Let_def intro!: with_domain_ok bind_ok on_read_ok split: option.split prod.split)
qed

text \<open>Also an acceptance run that ends half way with an error leaves tables such as the operations of the cores produce.\<close>

lemma simulation_smoke_keeps_cores:
  assumes "\<And>n. sw_plan_digest (ws n) = sw_plan_digest (ws 0) \<and> sw_trade_digest (ws n) = sw_trade_digest (ws 0)" "cores_ok (ws 0) s"
  shows "cores_ok (ws 0) (snd (run_simulation_smoke ws s))"
proof -
  have same: "cores_ok (ws n) t = cores_ok (ws 0) t" for n t using assms(1)[of n] by (simp add: cores_ok_def)
  have probes: "cores_ok (ws 0) (snd (run_probe (ws n) books config at_ms t))" if "cores_ok (ws 0) t" for n books config at_ms t
    using run_simulation_run_ok[of "ws n"] that by (simp add: run_probe_def same[of n])
  show ?thesis unfolding run_simulation_smoke_def Let_def
    by (intro bind_ok assms(2) probes check_parts_ok) (simp_all only: return_db_simps)
qed

section \<open>Two runs of one millisecond\<close>

text \<open>A run is named after its process and the millisecond in which it starts. A run that starts in the millisecond of
  an earlier one in the same direction finds the funds of its own account reserved and ends with an error.\<close>

lemma same_stamp_refused:
  assumes "prepare_run w e o1 config skipped source = Inr u" "su_now u \<noteq> 0" "uint (su_now u) < 2 ^ 63"
    and "validate_ids [sm_account_id (su_report u), sm_buy_venue (su_report u), dc_quote_asset (dn_config e)] = Inr ()"
    and "v \<in> set (pd_reservations (sd_paper s))"
    "reservation_key v = (sm_account_id (su_report u), sm_buy_venue (su_report u), dc_quote_asset (dn_config e))"
    and "0 \<le> sc_initial_quote_balance config"
  shows "run_simulation_run w e o1 config skipped source s
    = (Inl (Bail ''cannot replace a PAPER balance with active local reservations''), s)"
proof -
  have "\<exists>v \<in> set (pd_reservations (sd_paper s)). reservation_key v
      = (sm_account_id (su_report u), sm_buy_venue (su_report u), dc_quote_asset (dn_config e))" using assms(5,6) by blast
  moreover have "to_i64 (su_now u) = Inr (uint (su_now u))" using assms(3) by (simp add: to_i64_def)
  ultimately show ?thesis
    using assms(1,2,4,7) by (simp add: run_simulation_run_def fund_run_def on_paper_def set_paper_balance_def bind_db_def return_db_def Let_def)
qed

end
