(* ===== verification/Desktop_Commands.thy ===== *)
theory Desktop_Commands
  imports Smoke_Sim Observation_Session Sim_Query Archive_Reader Observer
begin

text \<open>
  The commands the application registers, \<open>src-tauri/src/commands/*\<close> with \<open>error.rs\<close>, and what of the library
  only they use: the files of the observer configuration (\<open>config.rs\<close>), the single observation and the
  reconnect run (\<open>observer.rs\<close>). A command turns the result of the library into an answer with a code; the
  databases are a map from their URLs to the tables. JSON and TOML text, the file system, the environment, the
  path of the executable and the printing of an error are parameters; the log lines are left out.
\<close>

section \<open>Answers\<close>

datatype error_code =
    InvalidRequest | ConfigError | NetworkError | MarketDataError | ArchiveError | ArchiveNotFound
  | PaperError | AccountingControlError | SimulationError

record api_error =
  xe_code :: error_code
  xe_message :: string
  xe_retryable :: bool

record 'a api_response =
  xr_success :: bool
  xr_data :: "'a option"
  xr_error :: "api_error option"

definition api_ok :: "'a \<Rightarrow> 'a api_response" where
  "api_ok x = \<lparr>xr_success = True, xr_data = Some x, xr_error = None\<rparr>"

definition api_fail :: "error_code \<Rightarrow> string \<Rightarrow> bool \<Rightarrow> 'a api_response" where
  "api_fail code message retryable = \<lparr>xr_success = False, xr_data = None,
     xr_error = Some \<lparr>xe_code = code, xe_message = message, xe_retryable = retryable\<rparr>\<rparr>"

definition api_map :: "(error \<Rightarrow> string) \<Rightarrow> 'a result \<Rightarrow> error_code \<Rightarrow> bool \<Rightarrow> 'a api_response" where
  "api_map show_error r code retryable = (case r of Inr x \<Rightarrow> api_ok x | Inl e \<Rightarrow> api_fail code (show_error e) retryable)"

text \<open>An answer has either data or an error, and says which.\<close>

definition well_formed_answer :: "'a api_response \<Rightarrow> bool" where
  "well_formed_answer x \<longleftrightarrow> (xr_success x \<longleftrightarrow> xr_data x \<noteq> None) \<and> (xr_success x \<longleftrightarrow> xr_error x = None)"

lemma answers_well_formed [simp]:
  "well_formed_answer (api_ok x)" "well_formed_answer (api_fail c m t)" "well_formed_answer (api_map f r c t)"
  by (simp_all add: well_formed_answer_def api_ok_def api_fail_def api_map_def split: sum.split)

lemma api_success [simp]:
  "xr_success (api_ok x)" "\<not> xr_success (api_fail c m t)" "xr_success (api_map f r c t) \<longleftrightarrow> is_ok r"
  "xr_data (api_ok x) = Some x" "xr_data (api_fail c m t) = None"
  by (simp_all add: api_ok_def api_fail_def api_map_def is_ok_def split: sum.split)

section \<open>Configuration files\<close>

datatype config_file = Absent | Unreadable | Text string

datatype toml =
    TString string | TNumber string | TBoolean bool | TDatetime string | TArray "toml list" | TTable "(string \<times> toml) list"

text \<open>The one pair an old file names at its top level moves into the list of pairs.\<close>

definition migrate_legacy_toml :: "(string \<Rightarrow> toml option) \<Rightarrow> (toml \<Rightarrow> string option) \<Rightarrow> string \<Rightarrow> string" where
  "migrate_legacy_toml parse print raw =
     (if contains_str raw ''pairs'' \<or> \<not> contains_str raw ''symbol'' then raw
      else case parse raw of
        Some (TTable t) \<Rightarrow>
          if map_of t ''pairs'' \<noteq> None \<or> map_of t ''symbol'' = None then raw
          else let pair = concat (map (\<lambda>k. case map_of t k of None \<Rightarrow> [] | Some v \<Rightarrow> [(k, v)]) pair_keys);
                   migrated = filter (\<lambda>e. fst e \<notin> set pair_keys) t @ [(''pairs'', TArray [TTable pair])]
               in (case print (TTable migrated) of Some s \<Rightarrow> s | None \<Rightarrow> raw)
      | _ \<Rightarrow> raw)"

lemma migrate_current_toml: "contains_str raw ''pairs'' \<Longrightarrow> migrate_legacy_toml parse print raw = raw"
  by (simp add: migrate_legacy_toml_def)

type_synonym config_disk = "path \<Rightarrow> config_file"

text \<open>What reads and writes a configuration: JSON values and text, the decoding of both formats and the file system.\<close>

record config_io =
  ci_parse_json :: "string \<Rightarrow> json option"
  ci_print_json :: "json \<Rightarrow> string option"
  ci_decode :: "string \<Rightarrow> observer_config option"
  ci_encode :: "observer_config \<Rightarrow> string option"
  ci_parse_toml :: "string \<Rightarrow> toml option"
  ci_print_toml :: "toml \<Rightarrow> string option"
  ci_decode_toml :: "string \<Rightarrow> observer_config option"
  ci_make_dir :: "path \<Rightarrow> bool"
  ci_can_write :: "path \<Rightarrow> bool"
  ci_executable :: "path option"

definition load_from_json :: "config_io \<Rightarrow> config_disk \<Rightarrow> path \<Rightarrow> observer_config result" where
  "load_from_json io disk p = (case disk p of
     Absent \<Rightarrow> Inl (Bail ''config file does not exist'')
   | Unreadable \<Rightarrow> Inl (Bail ''failed to read config'')
   | Text raw \<Rightarrow> (case ci_decode io (migrate_legacy_json (ci_parse_json io) (ci_print_json io) raw) of
       None \<Rightarrow> Inl (Bail ''failed to parse config'')
     | Some c \<Rightarrow> then_do (validate_config c) (\<lambda>_. Inr c)))"

definition load_from_toml :: "config_io \<Rightarrow> config_disk \<Rightarrow> path \<Rightarrow> observer_config result" where
  "load_from_toml io disk p = (case disk p of
     Text raw \<Rightarrow> (case ci_decode_toml io (migrate_legacy_toml (ci_parse_toml io) (ci_print_toml io) raw) of
       None \<Rightarrow> Inl (Bail ''failed to parse config'')
     | Some c \<Rightarrow> then_do (validate_config c) (\<lambda>_. Inr c))
   | _ \<Rightarrow> Inl (Bail ''failed to read config''))"

definition save_to_json :: "config_io \<Rightarrow> observer_config \<Rightarrow> path \<Rightarrow> config_disk \<Rightarrow> unit result \<times> config_disk" where
  "save_to_json io c p disk =
     (if case path_parent p of Some d \<Rightarrow> \<not> ci_make_dir io d | None \<Rightarrow> False
      then (Inl (Bail ''failed to create directory''), disk)
      else case ci_encode io c of
        None \<Rightarrow> (Inl (Bail ''failed to serialize config to JSON''), disk)
      | Some text \<Rightarrow> if ci_can_write io p then (Inr (), disk(p := Text text))
                     else (Inl (Bail ''failed to write config''), disk))"

definition observer_json :: path where
  "observer_json = [Normal ''config'', Normal ''observer.json'']"

definition config_path :: "config_io \<Rightarrow> config_disk \<Rightarrow> string option \<Rightarrow> path" where
  "config_path io disk given = (case given of
     Some s \<Rightarrow> path_of s
   | None \<Rightarrow> if disk observer_json \<noteq> Absent then observer_json
             else case ci_executable io of
               None \<Rightarrow> observer_json
             | Some exe \<Rightarrow> (case find (\<lambda>d. disk (path_join d observer_json) \<noteq> Absent) (tl (ancestors exe)) of
                 Some d \<Rightarrow> path_join d observer_json | None \<Rightarrow> observer_json))"

text \<open>\<open>Path::with_extension\<close>: the name up to its last dot, unless that is its first character.\<close>

definition file_stem :: "string \<Rightarrow> string" where
  "file_stem name = (case rev (split_on (CHR ''.'') name) of
     _ # rest \<Rightarrow> (let stem = join_with ''.'' (rev rest) in if stem = [] then name else stem) | [] \<Rightarrow> name)"

definition with_extension :: "string \<Rightarrow> path \<Rightarrow> path" where
  "with_extension ext p = (if p = [] then p else case last p of
     Normal name \<Rightarrow> butlast p @ [Normal (file_stem name @ ''.'' @ ext)] | _ \<Rightarrow> p)"

definition load_config :: "config_io \<Rightarrow> config_disk \<Rightarrow> string option \<Rightarrow> (path \<times> observer_config) result" where
  "load_config io disk given =
     (let p = config_path io disk given in
      if disk p \<noteq> Absent then then_do (load_from_json io disk p) (\<lambda>c. Inr (p, c))
      else let toml = with_extension ''toml'' p in
           if disk toml \<noteq> Absent then then_do (load_from_toml io disk toml) (\<lambda>c. Inr (toml, c))
           else Inr (p, default_config))"

text \<open>A file that is there is read as JSON whatever its name, so a TOML file that is named is never read as one.\<close>

lemma named_file_is_read_as_json:
  assumes "disk (path_of s) \<noteq> Absent"
  shows "load_config io disk (Some s) = then_do (load_from_json io disk (path_of s)) (\<lambda>c. Inr (path_of s, c))"
  using assms by (simp add: load_config_def config_path_def Let_def)

definition get_observer_config :: "config_io \<Rightarrow> (error \<Rightarrow> string) \<Rightarrow> config_disk \<Rightarrow> string option \<Rightarrow> observer_config api_response" where
  "get_observer_config io show_error disk given = (case load_config io disk given of
     Inr (_, c) \<Rightarrow> api_ok c | Inl e \<Rightarrow> api_map show_error (Inl e) ConfigError False)"

definition save_observer_config :: "config_io \<Rightarrow> (error \<Rightarrow> string) \<Rightarrow> string option \<Rightarrow> observer_config \<Rightarrow> config_disk
    \<Rightarrow> unit api_response \<times> config_disk" where
  "save_observer_config io show_error given c disk =
     (case save_to_json io c (config_path io disk given) disk of
        (Inl e, disk') \<Rightarrow> (api_fail ConfigError (''failed to save config: '' @ show_error e) False, disk')
      | (Inr _, disk') \<Rightarrow> (api_ok (), disk'))"

text \<open>The text of a configuration names its pairs, as the encoding of the struct does.\<close>

definition encodes :: "config_io \<Rightarrow> observer_config \<Rightarrow> bool" where
  "encodes io c \<longleftrightarrow> (\<exists>text. ci_encode io c = Some text \<and> contains_str text ''pairs'' \<and> ci_decode io text = Some c)"

lemma saved_then_loaded:
  assumes "save_observer_config io show_error given c disk = (r, disk')" "xr_success r" "encodes io c"
    "given \<noteq> None \<or> disk observer_json \<noteq> Absent"
  shows "load_config io disk' given = then_do (validate_config c) (\<lambda>_. Inr (config_path io disk given, c))"
proof -
  let ?p = "config_path io disk given"
  obtain raw where t: "ci_encode io c = Some raw" "contains_str raw ''pairs''" "ci_decode io raw = Some c"
    using assms(3) unfolding encodes_def by blast
  have d: "disk' = disk(?p := Text raw)"
    using assms(1,2) t(1) by (auto simp: save_observer_config_def save_to_json_def split: if_splits option.splits)
  have p: "config_path io disk' given = ?p" using assms(4) by (auto simp: config_path_def d split: option.splits)
  have "load_from_json io disk' ?p = then_do (validate_config c) (\<lambda>_. Inr c)"
    using t(2,3) by (simp add: load_from_json_def d migrate_legacy_json_def)
  then show ?thesis using p by (cases "validate_config c") (simp_all add: load_config_def Let_def d)
qed

text \<open>A saved configuration is loaded the next time; one that does not validate is saved all the same, and
  from then on every load of it fails.\<close>

lemma saved_configuration_round_trip:
  assumes "save_observer_config io show_error given c disk = (r, disk')" "xr_success r" "encodes io c"
    "given \<noteq> None \<or> disk observer_json \<noteq> Absent"
  shows "validate_config c = Inr () \<Longrightarrow> get_observer_config io show_error disk' given = api_ok c"
    "\<not> is_ok (validate_config c) \<Longrightarrow> \<not> xr_success (get_observer_config io show_error disk' given)"
  using saved_then_loaded[OF assms]
  by (auto simp: get_observer_config_def is_ok_def split: sum.splits)

lemma save_does_not_validate:
  assumes "ci_encode io c = Some text" "\<And>d. ci_make_dir io d" "\<And>p. ci_can_write io p"
  shows "xr_success (fst (save_observer_config io show_error given c disk))"
  using assms by (simp add: save_observer_config_def save_to_json_def split: option.split)

section \<open>The status of the application and its own configuration\<close>

record desktop_state =
  dk_mode :: string
  dk_real_order_capability :: bool

definition desktop_status :: "desktop_state api_response" where
  "desktop_status = api_ok \<lparr>dk_mode = ''READ_ONLY_AND_PAPER'', dk_real_order_capability = False\<rparr>"

record pair_summary =
  pu_symbol :: string
  pu_base_asset :: string
  pu_quote_asset :: string
  pu_quantity :: decimal

record config_summary =
  cu_pairs :: "pair_summary list"
  cu_orderbook_depth :: "16 word"
  cu_archive_path :: string
  cu_binance_websocket_url :: string
  cu_bybit_websocket_url :: string

definition load_config_summary :: "config_io \<Rightarrow> (error \<Rightarrow> string) \<Rightarrow> config_disk \<Rightarrow> string option \<Rightarrow> config_summary api_response" where
  "load_config_summary io show_error disk given = (case load_config io disk given of
     Inr (_, c) \<Rightarrow> api_ok \<lparr>cu_pairs = map (\<lambda>p. \<lparr>pu_symbol = pc_symbol p, pu_base_asset = pc_base_asset p,
         pu_quote_asset = pc_quote_asset p, pu_quantity = pc_quantity p\<rparr>) (oc_pairs c),
       cu_orderbook_depth = oc_orderbook_depth c, cu_archive_path = ac_path (oc_archive c),
       cu_binance_websocket_url = vc_websocket_url (oc_binance c), cu_bybit_websocket_url = vc_websocket_url (oc_bybit c)\<rparr>
   | Inl e \<Rightarrow> api_map show_error (Inl e) ConfigError False)"

definition config_file_path :: "(path \<Rightarrow> bool) \<Rightarrow> path" where
  "config_file_path present = (case find present [path_of ''config/app-config.json'', path_of ''app-config.json''] of
     Some p \<Rightarrow> p | None \<Rightarrow> path_of ''config/app-config.json'')"

text \<open>The saved file, when it is there, can be read and parses.\<close>

definition read_app_config :: "(string \<Rightarrow> app_config option) \<Rightarrow> config_disk \<Rightarrow> app_config option" where
  "read_app_config decode disk = (case disk (config_file_path (\<lambda>p. disk p \<noteq> Absent)) of Text raw \<Rightarrow> decode raw | _ \<Rightarrow> None)"

definition load_app_config :: "(string \<Rightarrow> app_config option) \<Rightarrow> (string \<Rightarrow> string option) \<Rightarrow> config_disk \<Rightarrow> app_config api_response" where
  "load_app_config decode env disk = api_ok (load_app_config_file env (read_app_config decode disk))"

definition save_app_config :: "(app_config \<Rightarrow> string option) \<Rightarrow> (path \<Rightarrow> bool) \<Rightarrow> (path \<Rightarrow> bool) \<Rightarrow> app_config \<Rightarrow> config_disk
    \<Rightarrow> unit api_response \<times> config_disk" where
  "save_app_config encode make_dir can_write c disk =
     (let p = config_file_path (\<lambda>p. disk p \<noteq> Absent) in
      if case path_parent p of Some d \<Rightarrow> \<not> make_dir d | None \<Rightarrow> False
      then (api_fail ConfigError ''failed to create config directory'' False, disk)
      else case encode c of
        None \<Rightarrow> (api_fail ConfigError ''failed to serialize config'' False, disk)
      | Some raw \<Rightarrow> if can_write p then (api_ok (), disk(p := Text raw))
                    else (api_fail ConfigError ''failed to write config'' False, disk))"

text \<open>What was saved is loaded, except that an empty field gives way to the environment.\<close>

lemma saved_app_config_loaded:
  assumes "save_app_config encode make_dir can_write c disk = (r, disk')" "xr_success r" "encode c = Some raw" "decode raw = Some c"
  shows "load_app_config decode env disk' = api_ok (load_app_config_file env (Some c))"
proof -
  let ?p = "config_file_path (\<lambda>p. disk p \<noteq> Absent)"
  have d: "disk' = disk(?p := Text raw)"
    using assms(1-3) by (auto simp: save_app_config_def Let_def split: if_splits)
  have "config_file_path (\<lambda>p. disk' p \<noteq> Absent) = ?p"
    by (auto simp: d config_file_path_def)
  then show ?thesis using assms(4) by (simp add: load_app_config_def read_app_config_def d)
qed

section \<open>Replay of an archive\<close>

definition replay_observations :: "(error \<Rightarrow> string) \<Rightarrow> (path \<Rightarrow> fs_entry) \<Rightarrow> (path \<Rightarrow> path \<Rightarrow> shadow_report result) \<Rightarrow> string
    \<Rightarrow> shadow_report api_response" where
  "replay_observations show_error stat run given =
     (let given = trim given; p = path_of given in
      if given = [] then api_fail InvalidRequest ''archive path is required'' False
      else case stat p of
        Plain_File \<Rightarrow> api_map show_error (run p (default_gap_path p)) ArchiveError False
      | No_Entry \<Rightarrow> api_fail ArchiveNotFound (''archive file not found: '' @ given @ ''; run OBSERVE ONCE first or select an existing archive'') False
      | Entry_Error e \<Rightarrow> api_fail ArchiveError (''failed to inspect archive '' @ given @ '': '' @ e) False
      | _ \<Rightarrow> api_fail ArchiveError (''archive path is not a file: '' @ given) False)"

text \<open>A report is only given for a file, and it is the one of the library for it and its gap journal.\<close>

lemma replay_needs_file:
  "xr_success (replay_observations show_error stat run given) \<longleftrightarrow>
     trim given \<noteq> [] \<and> stat (path_of (trim given)) = Plain_File
     \<and> is_ok (run (path_of (trim given)) (default_gap_path (path_of (trim given))))"
  by (auto simp: replay_observations_def Let_def split: fs_entry.split)

section \<open>Observation and accounts\<close>

record feed_summary =
  fe_venue :: string
  fe_symbol :: string
  fe_state :: book_state
  fe_generation :: u64
  fe_reconnects :: u64
  fe_applied_updates :: u64
  fe_reason :: "string option"

definition feed_summary_of :: "book_feed_status \<Rightarrow> feed_summary" where
  "feed_summary_of s = \<lparr>fe_venue = bf_venue s, fe_symbol = bf_symbol s, fe_state = bf_state s, fe_generation = bf_generation s,
     fe_reconnects = bf_reconnects s, fe_applied_updates = bf_applied_updates s, fe_reason = bf_reason s\<rparr>"

record observe_result =
  ov_report :: scan_report
  ov_accounts :: "account_data \<times> account_data"
  ov_feeds :: "feed_summary \<times> feed_summary"
  ov_archived :: bool

text \<open>The single observation: every pair is scanned before the archive is opened, and one that fails fails all.\<close>

definition observe_once :: "(pair_config \<Rightarrow> (observation_run \<times> decision_event) result) \<Rightarrow> (path \<Rightarrow> path \<Rightarrow> decision_event list \<Rightarrow> unit result)
    \<Rightarrow> observer_config \<Rightarrow> path \<Rightarrow> observation_run list result" where
  "observe_once observe write config archive =
     then_do (collect observe (oc_pairs config)) (\<lambda>outcomes.
     then_do (write archive (default_gap_path archive) (map snd outcomes)) (\<lambda>_.
     Inr (map (\<lambda>(run, _). run\<lparr>or_archived := True\<rparr>) outcomes)))"

definition observe_once_command :: "config_io \<Rightarrow> (error \<Rightarrow> string) \<Rightarrow> config_disk
    \<Rightarrow> (observer_config \<Rightarrow> pair_config \<Rightarrow> (observation_run \<times> decision_event) result) \<Rightarrow> (path \<Rightarrow> path \<Rightarrow> decision_event list \<Rightarrow> unit result)
    \<Rightarrow> string option \<Rightarrow> string option \<Rightarrow> observe_result list api_response" where
  "observe_once_command io show_error disk observe write given archive = api_map show_error
     (then_do (load_config io disk given) (\<lambda>(_, config).
      then_do (observe_once (observe config) write config (path_of (case archive of Some a \<Rightarrow> a | None \<Rightarrow> ac_path (oc_archive config)))) (\<lambda>runs.
      Inr (map (\<lambda>r. \<lparr>ov_report = or_report r, ov_accounts = or_accounts r,
        ov_feeds = (feed_summary_of (fst (or_feeds r)), feed_summary_of (snd (or_feeds r))), ov_archived = or_archived r\<rparr>) runs))))
     MarketDataError True"

text \<open>A list of results comes only from a configuration that was loaded, one for each of its pairs, all of them archived.\<close>

lemma observation_all_or_nothing:
  assumes "xr_data (observe_once_command io show_error disk observe write given archive) = Some results"
  shows "\<exists>p config events. load_config io disk given = Inr (p, config) \<and> length results = length (oc_pairs config)
    \<and> list_all ov_archived results \<and> length events = length results
    \<and> is_ok (write (path_of (case archive of Some a \<Rightarrow> a | None \<Rightarrow> ac_path (oc_archive config)))
        (default_gap_path (path_of (case archive of Some a \<Rightarrow> a | None \<Rightarrow> ac_path (oc_archive config)))) events)"
proof -
  obtain p config where c: "load_config io disk given = Inr (p, config)"
    using assms by (cases "load_config io disk given") (auto simp: observe_once_command_def api_map_def)
  let ?a = "path_of (case archive of Some a \<Rightarrow> a | None \<Rightarrow> ac_path (oc_archive config))"
  obtain outcomes where o: "collect (observe config) (oc_pairs config) = Inr outcomes"
    and w: "is_ok (write ?a (default_gap_path ?a) (map snd outcomes))" and r: "length results = length outcomes" "list_all ov_archived results"
    using assms c by (auto simp: observe_once_command_def observe_once_def api_map_def then_do_eq_Inr is_ok_iff list_all_iff case_prod_beta split: sum.splits)
  have "length outcomes = length (oc_pairs config)"
    using o by (auto simp: collect_Inr_iff dest: list_all2_lengthD)
  then show ?thesis using c w r by (intro exI[of _ p] exI[of _ config] exI[of _ "map snd outcomes"]) simp
qed

definition account_status :: "config_io \<Rightarrow> (error \<Rightarrow> string) \<Rightarrow> config_disk \<Rightarrow> (observer_config \<Rightarrow> unit result)
    \<Rightarrow> (observer_config \<Rightarrow> string \<Rightarrow> account_data list) \<Rightarrow> string option \<Rightarrow> account_data list api_response" where
  "account_status io show_error disk client load given = api_map show_error
     (then_do (load_config io disk given) (\<lambda>(_, config).
      then_do (client config) (\<lambda>_. Inr (concat (map (\<lambda>p. load config (pc_symbol p)) (oc_pairs config))))))
     NetworkError True"

definition stop_continuous_observation :: "(error \<Rightarrow> string) \<Rightarrow> continuous_status option result \<Rightarrow> continuous_status api_response" where
  "stop_continuous_observation show_error stopped = (case stopped of
     Inr (Some status) \<Rightarrow> api_ok status
   | Inr None \<Rightarrow> api_fail InvalidRequest ''continuous observation is not running'' False
   | Inl e \<Rightarrow> api_map show_error (Inl e) MarketDataError True)"

definition continuous_observation_status :: "session_controller \<Rightarrow> continuous_status api_response" where
  "continuous_observation_status c = api_ok (session_status c)"

section \<open>The reconnect run\<close>

record pair_reconnect =
  pq_symbol :: string
  pq_first :: feed_summary
  pq_second :: feed_summary

definition recovered_from :: "book_feed_status \<times> book_feed_status \<Rightarrow> book_feed_status \<times> book_feed_status \<Rightarrow> bool" where
  "recovered_from before now \<longleftrightarrow>
     bf_state (fst now) = Valid \<and> bf_generation (fst before) < bf_generation (fst now)
     \<and> bf_state (snd now) = Valid \<and> bf_generation (snd before) < bf_generation (snd now)"

text \<open>The statuses of a pair that are seen in time, and the error of a feed that ended, if one did before the
  timeout; the first status that satisfies the test is taken.\<close>

type_synonym seen_statuses = "(book_feed_status \<times> book_feed_status) list \<times> error option"

definition wait_for :: "('a \<Rightarrow> bool) \<Rightarrow> string \<Rightarrow> 'a list \<times> error option \<Rightarrow> 'a result" where
  "wait_for test late seen = (case find test (fst seen) of
     Some x \<Rightarrow> Inr x | None \<Rightarrow> Inl (case snd seen of Some e \<Rightarrow> e | None \<Rightarrow> Bail late))"

definition wait_for_valid_pair :: "seen_statuses \<Rightarrow> (book_feed_status \<times> book_feed_status) result" where
  "wait_for_valid_pair = wait_for (\<lambda>(a, b). bf_state a = Valid \<and> bf_state b = Valid) ''timed out waiting for both live order books''"

definition reconnect_pair :: "(string \<Rightarrow> seen_statuses) \<Rightarrow> (string \<Rightarrow> unit result)
    \<Rightarrow> (string \<Rightarrow> seen_statuses) \<Rightarrow> pair_config \<Rightarrow> pair_reconnect result" where
  "reconnect_pair start force after p = (let symbol = pc_symbol p in
     then_do (wait_for_valid_pair (start symbol)) (\<lambda>before.
     then_do (force symbol) (\<lambda>_.
     then_do (wait_for (recovered_from before) ''timed out waiting for feeds to recover after reconnect'' (after symbol)) (\<lambda>now.
     Inr \<lparr>pq_symbol = symbol, pq_first = feed_summary_of (fst now), pq_second = feed_summary_of (snd now)\<rparr>))))"

definition run_reconnect_smoke :: "config_io \<Rightarrow> (error \<Rightarrow> string) \<Rightarrow> config_disk \<Rightarrow> (string \<Rightarrow> seen_statuses)
    \<Rightarrow> (string \<Rightarrow> unit result) \<Rightarrow> (string \<Rightarrow> seen_statuses) \<Rightarrow> string option
    \<Rightarrow> (pair_reconnect list \<times> bool) api_response" where
  "run_reconnect_smoke io show_error disk start force after given = api_map show_error
     (then_do (load_config io disk given) (\<lambda>(_, config).
      then_do (collect (reconnect_pair start force after) (oc_pairs config)) (\<lambda>results. Inr (results, True))))
     MarketDataError True"

lemma found_holds: "find P xs = Some x \<Longrightarrow> x \<in> set xs \<and> P x"
  by (induction xs) (auto split: if_splits)

lemma reconnected_pair_newer:
  assumes "reconnect_pair start force after p = Inr r"
  shows "\<exists>a b c d. (a, b) \<in> set (fst (start (pc_symbol p))) \<and> (c, d) \<in> set (fst (after (pc_symbol p))) \<and> bf_state a = Valid \<and> bf_state b = Valid
    \<and> pq_first r = feed_summary_of c \<and> pq_second r = feed_summary_of d \<and> fe_state (pq_first r) = Valid \<and> fe_state (pq_second r) = Valid
    \<and> bf_generation a < fe_generation (pq_first r) \<and> bf_generation b < fe_generation (pq_second r)"
proof -
  obtain before now where b: "find (\<lambda>(a, b). bf_state a = Valid \<and> bf_state b = Valid) (fst (start (pc_symbol p))) = Some before"
    and n: "find (recovered_from before) (fst (after (pc_symbol p))) = Some now"
    and r: "pq_first r = feed_summary_of (fst now)" "pq_second r = feed_summary_of (snd now)"
    using assms by (auto simp: reconnect_pair_def Let_def wait_for_valid_pair_def wait_for_def then_do_eq_Inr split: option.splits)
  have "before \<in> set (fst (start (pc_symbol p)))" "now \<in> set (fst (after (pc_symbol p)))" "recovered_from before now"
    "bf_state (fst before) = Valid \<and> bf_state (snd before) = Valid"
    using found_holds[OF b] found_holds[OF n] by (auto simp: case_prod_beta)
  then show ?thesis using r
    by (intro exI[of _ "fst before"] exI[of _ "snd before"] exI[of _ "fst now"] exI[of _ "snd now"])
      (simp add: recovered_from_def feed_summary_of_def)
qed

section \<open>Commands on a database\<close>

text \<open>The URL of the call, else the one of the environment when that is not blank; a blank one counts as none.\<close>

definition database_url :: "(string \<Rightarrow> string option) \<Rightarrow> string option" where
  "database_url env = (case env ''TAOLI_DATABASE_URL'' of Some v \<Rightarrow> if trim v \<noteq> [] then Some v else None | None \<Rightarrow> None)"

definition chosen_url :: "(string \<Rightarrow> string option) \<Rightarrow> string option \<Rightarrow> string option" where
  "chosen_url env given = (case (case given of Some u \<Rightarrow> Some u | None \<Rightarrow> database_url env) of
     Some v \<Rightarrow> if trim v \<noteq> [] then Some v else None | None \<Rightarrow> None)"

text \<open>A run on the database of a URL, among all databases.\<close>

definition at_url :: "string \<Rightarrow> ('d \<Rightarrow> 'a \<times> 'd) \<Rightarrow> (string \<Rightarrow> 'd) \<Rightarrow> 'a \<times> (string \<Rightarrow> 'd)" where
  "at_url url f dbs = (case f (dbs url) of (r, d) \<Rightarrow> (r, dbs(url := d)))"

definition with_database :: "(string \<Rightarrow> string option) \<Rightarrow> string option \<Rightarrow> error_code \<Rightarrow> string
    \<Rightarrow> (string \<Rightarrow> (string \<Rightarrow> 'd) \<Rightarrow> 'a api_response \<times> (string \<Rightarrow> 'd)) \<Rightarrow> (string \<Rightarrow> 'd) \<Rightarrow> 'a api_response \<times> (string \<Rightarrow> 'd)" where
  "with_database env given code message body dbs = (case chosen_url env given of
     None \<Rightarrow> (api_fail code message False, dbs) | Some url \<Rightarrow> body url dbs)"

datatype paper_smoke_result = B01 paper_smoke_report | B02 order_smoke_report | B03 double_leg_report

definition run_paper_smoke :: "sim_world \<Rightarrow> bool \<Rightarrow> (error \<Rightarrow> string) \<Rightarrow> (string \<Rightarrow> string option) \<Rightarrow> string \<Rightarrow> string option
    \<Rightarrow> (string \<Rightarrow> sim_db) \<Rightarrow> paper_smoke_result api_response \<times> (string \<Rightarrow> sim_db)" where
  "run_paper_smoke w first show_error env kind given = with_database env given PaperError
     ''TAOLI_DATABASE_URL is required for PAPER smoke tests; start PostgreSQL and launch the app with this environment variable set''
     (\<lambda>url dbs.
        if kind = ''B01'' then at_url url (\<lambda>d. case run_paper_core_smoke w first d of (r, d') \<Rightarrow> (api_map show_error (then_do r (Inr \<circ> B01)) PaperError False, d')) dbs
        else if kind = ''B02'' then at_url url (\<lambda>d. case run_order_facts_smoke w d of (r, d') \<Rightarrow> (api_map show_error (then_do r (Inr \<circ> B02)) PaperError False, d')) dbs
        else if kind = ''B03'' then at_url url (\<lambda>d. case run_double_leg_smoke w d of (r, d') \<Rightarrow> (api_map show_error (then_do r (Inr \<circ> B03)) PaperError False, d')) dbs
        else (api_fail InvalidRequest (''unsupported PAPER smoke kind '' @ kind) False, dbs))"

datatype accounting_result =
  Accounting accounting_smoke_report | Reconciliation reconciliation_smoke_report | Control control_smoke_report

record table_db =
  tb_locks :: "held_lock list"
  tb_ledger :: ledger_db
  tb_reconciliation :: reconciliation_db
  tb_control :: control_db

definition run_accounting_control_smoke :: "sim_world \<Rightarrow> (error \<Rightarrow> string) \<Rightarrow> (string \<Rightarrow> string option) \<Rightarrow> string \<Rightarrow> string option
    \<Rightarrow> (string \<Rightarrow> table_db) \<Rightarrow> accounting_result api_response \<times> (string \<Rightarrow> table_db)" where
  "run_accounting_control_smoke w show_error env kind given = with_database env given AccountingControlError
     (if given = None then ''TAOLI_DATABASE_URL is required for accounting, reconciliation, and control smoke tests; start PostgreSQL and launch the app with this environment variable set''
      else ''TAOLI_DATABASE_URL is required'')
     (\<lambda>url dbs. let sha = sw_sha256 w; n = sw_session w; clock = sw_clock w; pid = sw_pid w;
          answer = (\<lambda>r. api_map show_error r AccountingControlError False) in
        if kind = ''ACCOUNTING'' then at_url url (\<lambda>d. case run_accounting_smoke sha n clock pid (tb_locks d, tb_ledger d) of
          (r, ls, x) \<Rightarrow> (answer (then_do r (Inr \<circ> Accounting)), d\<lparr>tb_locks := ls, tb_ledger := x\<rparr>)) dbs
        else if kind = ''RECONCILIATION'' then at_url url (\<lambda>d. case run_reconciliation_smoke sha n clock pid (tb_locks d, tb_reconciliation d) of
          (r, ls, x) \<Rightarrow> (answer (then_do r (Inr \<circ> Reconciliation)), d\<lparr>tb_locks := ls, tb_reconciliation := x\<rparr>)) dbs
        else if kind = ''CONTROL'' then at_url url (\<lambda>d. case run_control_smoke sha n clock pid (tb_locks d, tb_control d) of
          (r, ls, x) \<Rightarrow> (answer (then_do r (Inr \<circ> Control)), d\<lparr>tb_locks := ls, tb_control := x\<rparr>)) dbs
        else (api_fail InvalidRequest (''unsupported accounting control smoke kind '' @ kind) False, dbs))"

definition dashboard_message :: string where
  "dashboard_message = ''TAOLI_DATABASE_URL is required for G-01 simulation dashboard; start PostgreSQL and launch the app with this environment variable set''"

definition get_simulation_overview_command :: "(string \<Rightarrow> string option) \<Rightarrow> string option \<Rightarrow> (string \<Rightarrow> sim_db)
    \<Rightarrow> simulation_overview api_response \<times> (string \<Rightarrow> sim_db)" where
  "get_simulation_overview_command env given = with_database env given SimulationError dashboard_message
     (\<lambda>url. at_url url (\<lambda>d. (api_ok (get_simulation_overview d), d)))"

definition get_simulation_runs_command :: "(string \<Rightarrow> string option) \<Rightarrow> string option \<Rightarrow> u64 option \<Rightarrow> u64 option \<Rightarrow> string option \<Rightarrow> string option
    \<Rightarrow> (string \<Rightarrow> sim_db) \<Rightarrow> (nat \<times> run_row list) api_response \<times> (string \<Rightarrow> sim_db)" where
  "get_simulation_runs_command env given limit offset symbol scenario = with_database env given SimulationError dashboard_message
     (\<lambda>url. at_url url (\<lambda>d. (api_ok (get_simulation_runs (unat (case limit of Some n \<Rightarrow> n | None \<Rightarrow> 100))
        (unat (case offset of Some n \<Rightarrow> n | None \<Rightarrow> 0)) symbol scenario d), d)))"

definition get_simulation_run_detail_command :: "(error \<Rightarrow> string) \<Rightarrow> (string \<Rightarrow> string option) \<Rightarrow> string option \<Rightarrow> string
    \<Rightarrow> (string \<Rightarrow> sim_db) \<Rightarrow> run_detail api_response \<times> (string \<Rightarrow> sim_db)" where
  "get_simulation_run_detail_command show_error env given run_id = with_database env given SimulationError dashboard_message
     (\<lambda>url. at_url url (\<lambda>d. (api_map show_error (get_simulation_run_detail run_id d) SimulationError False, d)))"

definition run_simulation_smoke_command :: "(nat \<Rightarrow> sim_world) \<Rightarrow> (error \<Rightarrow> string) \<Rightarrow> (string \<Rightarrow> string option) \<Rightarrow> string option
    \<Rightarrow> (string \<Rightarrow> sim_db) \<Rightarrow> simulation_smoke_report api_response \<times> (string \<Rightarrow> sim_db)" where
  "run_simulation_smoke_command ws show_error env given = with_database env given SimulationError
     ''TAOLI_DATABASE_URL is required for F-02 simulation smoke; start PostgreSQL and launch the app with this environment variable set''
     (\<lambda>url. at_url url (\<lambda>d. case run_simulation_smoke ws d of (r, d') \<Rightarrow> (api_map show_error r SimulationError False, d')))"

section \<open>What the commands may touch\<close>

lemma at_url_frame: "snd (at_url url f dbs) = dbs(url := snd (f (dbs url)))" "fst (at_url url f dbs) = fst (f (dbs url))"
  by (simp_all add: at_url_def split: prod.split)

lemma with_database_none:
  "chosen_url env given = None \<Longrightarrow> with_database env given code message body dbs = (api_fail code message False, dbs)"
  by (simp add: with_database_def)

lemma with_database_some:
  "chosen_url env given = Some url \<Longrightarrow> with_database env given code message body dbs = body url dbs"
  by (simp add: with_database_def)

lemma chosen_url_blank: "chosen_url env (Some u) = (if trim u = [] then None else Some u)"
  by (simp add: chosen_url_def)

text \<open>The commands that only read leave every database as it is; the acceptance runs touch only the one of their URL.\<close>

lemma queries_read_only:
  "snd (get_simulation_overview_command env given dbs) = dbs"
  "snd (get_simulation_runs_command env given limit offset symbol scenario dbs) = dbs"
  "snd (get_simulation_run_detail_command show_error env given run_id dbs) = dbs"
  by (simp_all add: get_simulation_overview_command_def get_simulation_runs_command_def get_simulation_run_detail_command_def
      with_database_def at_url_frame split: option.split)

lemma smoke_commands_contained:
  assumes "chosen_url env given \<noteq> Some u"
  shows "snd (run_paper_smoke w first show_error env kind given dbs) u = dbs u"
    "snd (run_simulation_smoke_command ws show_error env given dbs) u = dbs u"
    "snd (run_accounting_control_smoke w show_error env kind given tables) u = tables u"
  using assms by (auto simp: run_paper_smoke_def run_simulation_smoke_command_def run_accounting_control_smoke_def Let_def
      with_database_def at_url_frame split: option.split)

text \<open>Without a usable URL every command fails with its own code and no database changes.\<close>

lemma commands_fail_closed:
  assumes "chosen_url env given = None"
  shows "\<exists>m. run_paper_smoke w first show_error env kind given dbs = (api_fail PaperError m False, dbs)"
    "\<exists>m. run_accounting_control_smoke w show_error env kind given tables = (api_fail AccountingControlError m False, tables)"
    "\<exists>m. run_simulation_smoke_command ws show_error env given dbs = (api_fail SimulationError m False, dbs)"
    "\<exists>m. get_simulation_overview_command env given dbs = (api_fail SimulationError m False, dbs)"
    "\<exists>m. get_simulation_runs_command env given limit offset symbol scenario dbs = (api_fail SimulationError m False, dbs)"
    "\<exists>m. get_simulation_run_detail_command show_error env given run_id dbs = (api_fail SimulationError m False, dbs)"
  using assms by (auto simp: run_paper_smoke_def run_accounting_control_smoke_def run_simulation_smoke_command_def Let_def
      get_simulation_overview_command_def get_simulation_runs_command_def get_simulation_run_detail_command_def with_database_none)

text \<open>On an empty database each acceptance run of the trading cores is answered with its report.\<close>

lemma paper_smoke_command_succeeds:
  assumes "chosen_url env given = Some url" "dbs url = sim_db_0" "fresh_world w" "no_collision w" "kind \<in> {''B01'', ''B02'', ''B03''}"
  shows "xr_success (fst (run_paper_smoke w first show_error env kind given dbs))"
proof -
  have ok: "is_ok (fst (run_paper_core_smoke w first sim_db_0))" "is_ok (fst (run_order_facts_smoke w sim_db_0))"
    "is_ok (fst (run_double_leg_smoke w sim_db_0))"
    using run_paper_core_smoke_report[OF assms(3,4), of first] order_facts_smoke_passes[OF assms(3)] double_leg_smoke_passes[OF assms(3)]
    by (simp_all add: is_ok_def)
  show ?thesis
    using assms(1,2,5) ok
    by (auto simp: run_paper_smoke_def with_database_some at_url_frame is_ok_def split: prod.splits sum.splits)
qed

text \<open>Whatever the acceptance run of the simulation answers, every database keeps the invariants of its cores.\<close>

lemma simulation_smoke_command_keeps_cores:
  assumes "\<And>n. sw_plan_digest (ws n) = sw_plan_digest (ws 0) \<and> sw_trade_digest (ws n) = sw_trade_digest (ws 0)"
    and "\<And>u. cores_ok (ws 0) (dbs u)"
  shows "cores_ok (ws 0) (snd (run_simulation_smoke_command ws show_error env given dbs) u)"
proof -
  have "cores_ok (ws 0) (snd (run_simulation_smoke ws (dbs v)))" for v
    using simulation_smoke_keeps_cores[of ws] assms by blast
  then show ?thesis using assms(2)
    by (auto simp: run_simulation_smoke_command_def with_database_def at_url_frame split: option.split prod.split)
      (metis snd_conv)
qed

end
