(* ===== verification/Spec2Isabelle.thy ===== *)
theory Spec2Isabelle
  imports Order_Facts Paper Execution Ledger Reconciliation Control Observer Archive_Reader Sim_Engine Sim_Booking
    Bybit_Stream Venue_Rest Fencing Agent_Controller Observation_Session Sim_Query
    Ops_Alerts Ops_Operations Ops_Backup Ops_Recovery Ops_Health Ops_Metrics Ops_Runbooks Desktop_Commands
begin

text \<open>
  Verification development for the Rust program of the repository: the library \<open>crates/core\<close> and the
  commands of the desktop application \<open>src-tauri\<close>. The program observes the order books of two
  venues, decides whether buying on one and selling on the other would earn a profit, archives every decision,
  replays the archive, and runs accepted decisions through a simulated order, execution and accounting core on
  a database. Beside it, a controller starts an external agent runtime, confines it and answers its approvals.

  Parts and theories, in the order the data flows.

  \<^item> Books and decisions. \<open>Market\<close> (\<open>market.rs\<close>: levels, snapshots, sweeps), \<open>Instrument\<close> (\<open>instrument.rs\<close>: filters and
    rejection reasons), \<open>Local_Book\<close> (\<open>local_book.rs\<close>: the book kept from updates and the status of a feed),
    \<open>Book_Stream\<close>, \<open>Binance_Stream\<close>, \<open>Bybit_Stream\<close> (\<open>venues/*_stream.rs\<close>: the tasks that follow a venue, as state
    machines over frames), \<open>Venue_Rest\<close> (\<open>venues/*.rs\<close>: instruments and snapshots from decoded answers),
    \<open>Account\<close> (\<open>account/*.rs\<close>: the admission of an account), \<open>Config\<close> (\<open>config.rs\<close>), \<open>Scan\<close> (\<open>scan.rs\<close>: both directions
    of a pair) and \<open>Observer\<close> (\<open>observer.rs\<close>: one tick over all pairs).
  \<^item> The archive. \<open>Archive_Events\<close> (\<open>archive/event_types.rs\<close>), \<open>Archive_Writer\<close> (\<open>archive/writer.rs\<close>: the bounded queue, the
    worker and the gap journal, as steps), \<open>Archive_File\<close> (the lines on disk and the repair of a partial one) and
    \<open>Archive_Reader\<close> (\<open>archive/reader.rs\<close>, \<open>archive/report.rs\<close>: the replay and the shadow report).
  \<^item> The cores on the database. \<open>Table\<close> and \<open>Db_Common\<close> (\<open>db.rs\<close>: keyed rows, identifiers, digests, one writer per
    domain), \<open>Paper\<close> (\<open>paper.rs\<close>: plans and reserved funds), \<open>Order_Facts\<close> (\<open>order.rs\<close>), \<open>Execution\<close> (\<open>execution.rs\<close>),
    \<open>Ledger\<close> (\<open>accounting.rs\<close>), \<open>Reconciliation\<close> (\<open>reconciliation.rs\<close>), \<open>Control\<close> (\<open>control.rs\<close>) and \<open>Fencing\<close> (\<open>fencing.rs\<close>).
    A transaction is a function from the tables to a result and the tables: on a rollback the second component
    is the old one.
  \<^item> The simulation. \<open>Sim_Fill\<close>, \<open>Sim_Run\<close>, \<open>Sim_Engine\<close> (\<open>simulation.rs\<close>: the fill of a leg, one run through all cores, and
    the worker with its one slot), \<open>Sim_Booking\<close> (what a run leaves in the tables of the cores, against its report) and \<open>Sim_Query\<close> (\<open>simulation_query.rs\<close>: what the interface reads back).
  \<^item> The agent. \<open>Json_Values\<close>, \<open>Agent_Rpc\<close> (\<open>agent/protocol.rs\<close>, \<open>agent/app_server.rs\<close>), \<open>Agent_Approval\<close>
    (\<open>agent/approval.rs\<close>), \<open>Agent_Trace\<close> (\<open>agent/trace.rs\<close>), \<open>Agent_Tools\<close> (\<open>agent/tools.rs\<close>, \<open>progress.rs\<close>, \<open>report.rs\<close>),
    \<open>Agent_Turn\<close> and \<open>Agent_Session\<close> (\<open>agent/mod.rs\<close>: the loop of one turn, and the turns of a session), \<open>Paths\<close>,
    \<open>Agent_Sandbox\<close> (\<open>agent/sandbox/*\<close>), \<open>Agent_Access\<close> (\<open>agent/access.rs\<close>, \<open>instructions.rs\<close>), and, of the
    application, \<open>Agent_Live\<close>, \<open>Agent_Gate\<close>, \<open>Agent_Controller\<close> (\<open>commands/agent_live.rs\<close>, \<open>commands/agent.rs\<close>) and
    \<open>Observation_Session\<close> (\<open>commands/session.rs\<close>, \<open>settings.rs\<close>, \<open>lib.rs\<close>).
  \<^item> The operational registries, which no other part calls. \<open>Ops_Registry\<close> (numbered rows in a hash map, alert levels),
    \<open>Ops_Alerts\<close> (\<open>alert.rs\<close>, \<open>alert_manager.rs\<close>), \<open>Ops_Operations\<close> (\<open>operations.rs\<close>), \<open>Ops_Backup\<close> (\<open>backup.rs\<close>,
    \<open>backup_strategy.rs\<close>), \<open>Ops_Recovery\<close> (\<open>rpo_rto.rs\<close>, \<open>runbook.rs\<close>, \<open>fault_injection.rs\<close>), \<open>Ops_Health\<close> (\<open>health.rs\<close>,
    \<open>system_health.rs\<close>, \<open>notification.rs\<close>), \<open>Ops_Metrics\<close> (\<open>metrics.rs\<close>, \<open>performance.rs\<close>, \<open>dashboard.rs\<close>) and \<open>Ops_Runbooks\<close>
    (\<open>runbook_manager.rs\<close>): the operations of each manager, and its built-in suite of checks with the verdicts it returns.
  \<^item> The acceptance runs. \<open>Smoke_Tables\<close> (\<open>run_accounting_smoke\<close>, \<open>run_reconciliation_smoke\<close>, \<open>run_control_smoke\<close>) and
    \<open>Smoke_Plans\<close> (\<open>run_paper_core_smoke\<close>, \<open>run_order_facts_smoke\<close>, \<open>run_double_leg_smoke\<close>) compose the operations of the cores
    under their locks, and show that each run passes on an empty database. \<open>Smoke_Sim\<close> (\<open>run_simulation_smoke\<close>) composes
    seven simulated runs with the checks of what they store, and shows what their legs fill in every world.
  \<^item> The commands. \<open>Desktop_Commands\<close> (\<open>error.rs\<close>, \<open>commands/support.rs\<close>, \<open>system.rs\<close>, \<open>settings.rs\<close>, \<open>archive.rs\<close>,
    \<open>observation.rs\<close>, \<open>account.rs\<close>, \<open>paper.rs\<close>, \<open>accounting_control.rs\<close>, \<open>simulation*.rs\<close>, the files of \<open>config.rs\<close>): what each
    command answers, with which code it fails, which files it writes and which database it may touch.
  Shared by all: \<open>Prelude\<close> (results with early return, 64-bit integers, decimal text of numbers), \<open>Decimal\<close> (the
  decimal numbers of the crate rust\_decimal as rationals, with division as a parameter whose contract is the
  locale \<open>decimal_division\<close>) and \<open>Ordered_Map\<close> (the ordered map of the standard library and its contract).

  Conventions. A struct is a \<open>record\<close> whose fields carry a short prefix, an enum a \<open>datatype\<close>, a \<open>u64\<close> a 64-bit word; a
  fallible function returns \<open>error + 'a\<close> with \<open>Bail\<close> and the literal part of the message. A task, a channel or a
  lock becomes a state with one function per step, and the interleavings that occur are an \<open>inductive\<close>
  predicate. Clocks, random numbers, digests, JSON text, decimal text, network answers, the file system and what
  a person or an external process does are parameters or inputs.

  What the lemmas show. Each theory proves the invariant of its state for every operation, errors included
  (\<open>*_reachable_inv\<close>), the result of each operation on each branch, and where two definitions of one thing exist
  their equivalence. Interfaces several components rely on are locales: \<open>keyed_rows\<close>, \<open>numbered_log\<close> (the append-only
  facts of orders and executions), \<open>idempotent_submission\<close> (ledger events and control commands), \<open>map_store\<close>,
  \<open>decimal_division\<close>, \<open>book_connection\<close> (both venue streams), \<open>numbered_registry\<close> (alerts, operations, backup tasks), \<open>channel_sender\<close>
  (notifications) and \<open>ordered_floats\<close> (the order of \<open>f64\<close> values the analysis relies on); each is interpreted on the model of the code.
  The claims that cross components are here and in the theory of the last component involved: what the observer
  submits the reader replays (below), a simulated run keeps every core consistent (\<open>Sim_Run\<close>)
  and leaves in their tables what it reports (\<open>Sim_Booking\<close>), the stream tasks show
  a reader only books they follow (\<open>Bybit_Stream\<close>), a recorded session replays to itself (\<open>Agent_Session\<close>), and the level
  shown to the owner is the one the runtime is confined with (\<open>Agent_Controller\<close>).

  Bounds and fuel. The loop of a turn is the one definition with fuel: \<open>turn_ends\<close> shows that one unit per message
  and one more are enough. All other loops are structural recursions. Counters are words and the theorems that add
  them up assume fewer than \<open>2 ^ 64\<close> events.

  Not modelled. Network and process I/O, SQL and the connection pool, JSON and TOML text, the log output, the
  \<open>main\<close> functions, labels and descriptions that are only displayed, the tests, and the Vue front end. Decimal results
  beyond the 96-bit coefficient of the crate; values of type \<open>f64\<close> are a type parameter with the operations the code
  uses. Rust panics from poisoned locks, which the code avoids by design. Opening the pool and applying the migrations,
  and the window of the application. Texts that are not ASCII are constructors of a datatype or parameters.
\<close>

section \<open>From the observer to the shadow report\<close>

text \<open>A record whose event some tick of the observer submitted, from feeds that carry their own books.\<close>

definition observed_record :: "(decision_config \<Rightarrow> string) \<Rightarrow> (decimal \<Rightarrow> decimal \<Rightarrow> decimal) \<Rightarrow> archive_record \<Rightarrow> bool" where
  "observed_record version dv r \<longleftrightarrow> (\<exists>config clock n runs.
     (\<forall>run \<in> set runs. feed_identity (pr_first run) \<and> feed_identity (pr_second run))
     \<and> ar_event r \<in> set (fst (scan_tick version dv config clock n runs)))"

lemma observed_record_replays: "observed_record version dv r \<Longrightarrow> record_replays version dv r"
  using tick_decision_replays[of _ _ version dv]
  by (auto simp: observed_record_def record_replays_def split: archived_event.split)

lemma run_ordinals_sorted:
  assumes "sorted_wrt (\<lambda>a b. ar_ordinal a < ar_ordinal b) rs" "\<forall>r \<in> set rs. 0 < ar_ordinal r"
  shows "sorted_wrt (<) (0 # run_ordinals run rs)"
  using assms by (auto simp: run_ordinals_def sorted_wrt_map sorted_wrt_filter)

lemma visit_gaps:
  assumes "unat d + gap_total gs < 2 ^ 64"
  shows "visit_all visit_gap gs (c, d) = Inr (c + of_nat (length gs), d + of_nat (gap_total gs))"
  using assms
proof (induction gs arbitrary: c d)
  case (Cons g gs)
  have add: "unat (d + ag_dropped_events g) = unat d + unat (ag_dropped_events g)"
    using Cons.prems by (intro unat_add_lem[THEN iffD1]) simp
  then have "saturating_add d (ag_dropped_events g) = d + ag_dropped_events g"
    by (simp add: saturating_add_def word_le_nat_alt)
  then show ?case using Cons add by (simp add: visit_gap_def algebra_simps)
qed simp

text \<open>C1. What the observer submits, the writer accounts for and the reader replays: once the writer has
  stopped, the archive of observed records replays without mismatch as long as the clock never went back, and
  the records and dropped events of the report, with the gaps that only reached the error output, are all
  submissions.\<close>

theorem observed_archive_replays:
  assumes "writer_reachable n w" "n < 2 ^ 64 - 1" "is_stopped (aw_phase w)"
    and "\<forall>r \<in> set (aw_archive w). observed_record version dv r \<and> line_of encode decode r"
    and "sorted (map record_time (aw_archive w))"
    and "\<forall>g \<in> set (aw_journal w). line_of encode_gap decode_gap g"
  shows "\<exists>rep. replay_archive d version dv decode decode_gap (Some (write_lines encode (aw_archive w)))
       (Some (write_lines encode_gap (aw_journal w))) = Inr rep
     \<and> unat (sh_records rep) + unat (sh_dropped_events rep) + gap_total (aw_stderr w) = n"
proof -
  let ?rs = "aw_archive w" and ?gs = "aw_journal w"
  have inv: "writer_inv n w" using assms(1,2) by (rule writer_reachable_inv)
  have total: "length ?rs + gap_total ?gs + gap_total (aw_stderr w) = n"
    using inv assms(3) by (cases "aw_phase w") (auto simp: writer_inv_def in_order_def lost_records_def)
  have "sorted_wrt (\<lambda>a b. ar_ordinal a < ar_ordinal b) ?rs"
    "\<forall>r \<in> set ?rs. 0 < ar_ordinal r \<and> ar_schema_version r = schema_version"
    using inv by (auto simp: writer_inv_def in_order_def sorted_wrt_append record_of_writer_def word_less_nat_alt)
  then have "archive_acceptable version dv ?rs"
    using assms(4,5) observed_record_replays run_ordinals_sorted unfolding archive_acceptable_def by blast
  then obtain s where s: "visit_all (visit_record d version dv) ?rs reader_start = Inr s" "reader_inv ?rs s"
    using visit_all_records[of d version dv ?rs] unfolding is_ok_iff by blast
  have "\<forall>r \<in> set ?rs. line_of encode decode r" using assms(4) by blast
  from each_line_written[OF this, of "[]" "visit_record d version dv" reader_start]
  have records: "each_line decode (visit_record d version dv) (write_lines encode ?rs) reader_start = Inr (s, 0)"
    using s(1) by simp
  have "visit_all visit_gap ?gs (0, 0) = Inr (of_nat (length ?gs), of_nat (gap_total ?gs))"
    using visit_gaps[of 0 ?gs 0] total assms(2) by simp
  then have gaps: "each_line decode_gap visit_gap (write_lines encode_gap ?gs) (0, 0)
      = Inr ((of_nat (length ?gs), of_nat (gap_total ?gs)), 0)"
    using each_line_written[OF assms(6), of "[]" visit_gap "(0, 0)"] by simp
  have "rs_records s = of_nat (length ?rs)" using s(2) by (simp add: reader_inv_def)
  moreover have "unat (of_nat (length ?rs) :: u64) = length ?rs" "unat (of_nat (gap_total ?gs) :: u64) = gap_total ?gs"
    using total assms(2) by (auto simp: unsigned_of_nat take_bit_nat_eq_self)
  ultimately show ?thesis
    using total
    by (simp add: replay_archive_def for_each_snapshot_record_def read_gap_totals_def records gaps
        shadow_report_of_def)
qed

definition sample_finished :: archive_writer where
  "sample_finished = fold worker_step (replicate 7 sample_io) (close_writer (sample_submit sample_started))"

lemma sample_finished_fields:
  "is_stopped (aw_phase sample_finished) \<and> aw_journal sample_finished = []
     \<and> aw_archive sample_finished = [next_record ''0.1.0'' 5 sample_health sample_started]"
  by (simp add: sample_finished_def numeral_eq_Suc sample_submit_def submit_record_def sample_started_def
      close_writer_def worker_step_def flush_overflow_gap_def write_record_def sample_io_def Let_def
      next_record_def)

lemma sample_health_observed: "observed_record version dv (next_record c 5 sample_health w)"
proof -
  let ?run = "sample_run\<lparr>pr_first := fp_status (channel ''binance'' ''BTCUSDT''),
    pr_second := fp_status (channel ''bybit'' ''BTCUSDT'')\<rparr>"
  have "fst (scan_tick version dv sample_observer (\<lambda>_. 5) 0 [?run]) = [Health (health_event_of 5 ?run)]"
    by (simp add: observe_run_def both_valid_def channel_def Let_def)
  moreover have "\<forall>run \<in> set [?run]. feed_identity (pr_first run) \<and> feed_identity (pr_second run)"
    by (simp add: feed_identity_def channel_def Let_def)
  ultimately show ?thesis
    unfolding observed_record_def
    by (intro exI[of _ sample_observer] exI[of _ "\<lambda>_. 5"] exI[of _ 0] exI[of _ "[?run]"])
      (simp add: next_record_def archive_record_new_def sample_health_def health_event_of_def channel_def state_name_def
        Let_def)
qed

lemma observed_archive_replays_witness:
  "\<exists>rep. replay_archive (\<lambda>_. []) (\<lambda>_. ''v'') exact_div
       (\<lambda>_. Inr (next_record ''0.1.0'' 5 sample_health sample_started)) (\<lambda>_. Inl (Bail ''gap''))
       (Some (write_lines (\<lambda>_. [65]) (aw_archive sample_finished)))
       (Some (write_lines (\<lambda>_. [66]) (aw_journal sample_finished))) = Inr rep
     \<and> unat (sh_records rep) + unat (sh_dropped_events rep) + gap_total (aw_stderr sample_finished) = 1"
proof (rule observed_archive_replays)
  show "writer_reachable 1 sample_finished"
    unfolding sample_finished_def One_nat_def sample_submit_def
    by (intro writer_reachable_drain writer_reachable.closed writer_reachable.submitted sample_started_reachable)
      (simp add: sample_started_def)
qed (use sample_finished_fields sample_health_observed in
    \<open>simp_all add: line_of_def newline_def is_ascii_whitespace_def\<close>)

end
